(* ===== verification/Prelude.thy ===== *)
theory Prelude
  imports Main
begin

text \<open>
  Shared vocabulary of the development.

  The modelled code reports a broken precondition with \<open>DCHECK\<close>, \<open>CHECK\<close> and
  \<open>NOTREACHED()\<close>.  A model operation therefore returns an \<open>outcome\<close>: either the
  fault that stops the program or the value the code computes.  \<open>dcheck\<close> and
  \<open>check\<close> are written in front of the rest of a function body, in the order of the
  source; \<open>obind\<close> sequences two steps.

  The second part holds vectors (insertion and removal at an index, the index of the
  first element with a property), and the third the two contracts every stateful
  component of the development is measured against: \<open>checked_machine\<close> (an invariant
  that every admissible operation keeps, without a fault) and \<open>refined_machine\<close> (its
  extension by an abstract specification that every operation simulates).
\<close>

section \<open>Faults and outcomes\<close>

datatype fault = Dcheck_failed | Check_failed | Notreached | Range_error | Null_dereference | Never_returns

type_synonym 'a outcome = "fault + 'a"

named_theorems outcome_defs "definitions of the outcome combinators"

fun obind :: "'a outcome \<Rightarrow> ('a \<Rightarrow> 'b outcome) \<Rightarrow> 'b outcome" where
  "obind (Inl e) f = Inl e"
| "obind (Inr x) f = f x"

definition dcheck :: "bool \<Rightarrow> 'a outcome \<Rightarrow> 'a outcome" where
  [outcome_defs]: "dcheck b k = (if b then k else Inl Dcheck_failed)"

definition check :: "bool \<Rightarrow> 'a outcome \<Rightarrow> 'a outcome" where
  [outcome_defs]: "check b k = (if b then k else Inl Check_failed)"

lemma dcheck_simps [simp]: "dcheck True k = k" "dcheck False k = Inl Dcheck_failed"
  by (simp_all add: outcome_defs)

lemma check_simps [simp]: "check True k = k" "check False k = Inl Check_failed"
  by (simp_all add: outcome_defs)

lemma dcheck_eq_Inr [simp]: "dcheck b k = Inr x \<longleftrightarrow> b \<and> k = Inr x"
  by (simp add: outcome_defs)

lemma check_eq_Inr [simp]: "check b k = Inr x \<longleftrightarrow> b \<and> k = Inr x"
  by (simp add: outcome_defs)

lemma obind_eq_Inr: "obind m f = Inr y \<longleftrightarrow> (\<exists>x. m = Inr x \<and> f x = Inr y)"
  by (cases m) auto

lemma obind_eq_InrE:
  assumes "obind m f = Inr y"
  obtains x where "m = Inr x" and "f x = Inr y"
  using assms by (auto simp: obind_eq_Inr)

lemma obind_Inr_right [simp]: "obind m Inr = m"
  by (cases m) auto

lemma obind_assoc: "obind (obind m f) g = obind m (\<lambda>x. obind (f x) g)"
  by (cases m) auto

lemma obind_cong [fundef_cong]:
  "m = m' \<Longrightarrow> (\<And>x. m' = Inr x \<Longrightarrow> f x = f' x) \<Longrightarrow> obind m f = obind m' f'"
  by (cases m') auto

lemma dcheck_cong [fundef_cong]: "b = b' \<Longrightarrow> (b' \<Longrightarrow> k = k') \<Longrightarrow> dcheck b k = dcheck b' k'"
  by (simp add: outcome_defs)

text \<open>Running a fallible step over a list stops at the first fault.\<close>

fun orun :: "('s \<Rightarrow> 'o \<Rightarrow> 's outcome) \<Rightarrow> 's \<Rightarrow> 'o list \<Rightarrow> 's outcome" where
  "orun step s [] = Inr s"
| "orun step s (x # xs) = obind (step s x) (\<lambda>t. orun step t xs)"

lemma orun_append: "orun step s (xs @ ys) = obind (orun step s xs) (\<lambda>t. orun step t ys)"
  by (induction xs arbitrary: s) (auto simp: obind_assoc)

text \<open>A range-based \<open>for\<close> over a container whose body may fail.\<close>

fun omap :: "('a \<Rightarrow> 'b outcome) \<Rightarrow> 'a list \<Rightarrow> 'b list outcome" where
  "omap f [] = Inr []"
| "omap f (x # xs) = obind (f x) (\<lambda>y. obind (omap f xs) (\<lambda>ys. Inr (y # ys)))"

lemma omap_Inr: "(\<And>x. x \<in> set xs \<Longrightarrow> f x = Inr (g x)) \<Longrightarrow> omap f xs = Inr (map g xs)"
  by (induction xs) auto

section \<open>Vectors\<close>

definition insert_at :: "nat \<Rightarrow> 'a \<Rightarrow> 'a list \<Rightarrow> 'a list" where
  "insert_at n x xs = take n xs @ x # drop n xs"

definition remove_at :: "nat \<Rightarrow> 'a list \<Rightarrow> 'a list" where
  "remove_at n xs = take n xs @ drop (Suc n) xs"

lemma insert_at_0 [simp]: "insert_at 0 x xs = x # xs"
  by (simp add: insert_at_def)

lemma insert_at_Suc [simp]: "insert_at (Suc n) x (y # ys) = y # insert_at n x ys"
  by (simp add: insert_at_def)

lemma insert_at_Nil [simp]: "insert_at n x [] = [x]"
  by (simp add: insert_at_def)

lemma insert_at_length [simp]: "insert_at (length xs) x xs = xs @ [x]"
  by (simp add: insert_at_def)

lemma remove_at_0 [simp]: "remove_at 0 (x # xs) = xs"
  by (simp add: remove_at_def)

lemma remove_at_Suc [simp]: "remove_at (Suc n) (x # xs) = x # remove_at n xs"
  by (simp add: remove_at_def)

lemma remove_at_Nil [simp]: "remove_at n [] = []"
  by (simp add: remove_at_def)

lemma length_insert_at [simp]: "length (insert_at n x xs) = Suc (length xs)"
  by (simp add: insert_at_def)

lemma length_remove_at [simp]: "n < length xs \<Longrightarrow> length (remove_at n xs) = length xs - 1"
  by (simp add: remove_at_def)

lemma set_insert_at [simp]: "set (insert_at n x xs) = insert x (set xs)"
  unfolding insert_at_def
  by (metis Un_insert_right append_take_drop_id list.simps(15) set_append)

lemma map_insert_at: "map f (insert_at n x xs) = insert_at n (f x) (map f xs)"
  by (simp add: insert_at_def take_map drop_map)

lemma map_remove_at: "map f (remove_at n xs) = remove_at n (map f xs)"
  by (simp add: remove_at_def take_map drop_map)

lemma set_remove_at_subset: "set (remove_at n xs) \<subseteq> set xs"
  by (auto simp: remove_at_def dest: in_set_takeD in_set_dropD)

lemma distinct_append_mid:
  "distinct (as @ x # bs) \<longleftrightarrow> x \<notin> set (as @ bs) \<and> distinct (as @ bs)"
  by auto

lemma distinct_insert_at [simp]:
  "distinct (insert_at n x xs) \<longleftrightarrow> x \<notin> set xs \<and> distinct xs"
  unfolding insert_at_def by (simp only: distinct_append_mid append_take_drop_id)

lemma nth_insert_at:
  "i \<le> length xs \<Longrightarrow> n \<le> length xs \<Longrightarrow>
     insert_at n x xs ! i = (if i < n then xs ! i else if i = n then x else xs ! (i - 1))"
  by (auto simp: insert_at_def nth_append nth_Cons' min_def)

lemma nth_remove_at:
  "i < length xs - 1 \<Longrightarrow> n < length xs \<Longrightarrow>
     remove_at n xs ! i = (if i < n then xs ! i else xs ! Suc i)"
  by (auto simp: remove_at_def nth_append min_def)

lemma set_remove_at:
  "distinct xs \<Longrightarrow> n < length xs \<Longrightarrow> set (remove_at n xs) = set xs - {xs ! n}"
proof (induction xs arbitrary: n)
  case Nil
  then show ?case by simp
next
  case (Cons x xs)
  then show ?case by (cases n) auto
qed

lemma distinct_remove_at [simp]: "distinct xs \<Longrightarrow> distinct (remove_at n xs)"
proof (induction xs arbitrary: n)
  case Nil
  then show ?case by simp
next
  case (Cons x xs)
  then show ?case using set_remove_at_subset by (cases n) fastforce+
qed

lemma remove_at_insert_at [simp]: "n \<le> length xs \<Longrightarrow> remove_at n (insert_at n x xs) = xs"
  by (simp add: remove_at_def insert_at_def)

lemma insert_at_remove_at: "n < length xs \<Longrightarrow> insert_at n (xs ! n) (remove_at n xs) = xs"
  by (simp add: remove_at_def insert_at_def min_def id_take_nth_drop [symmetric])

lemma set_list_update_superset: "set xs - {xs ! i} \<subseteq> set (xs[i := x])"
proof
  fix y assume "y \<in> set xs - {xs ! i}"
  then obtain k where "k < length xs" "xs ! k = y" "k \<noteq> i" by (auto simp: in_set_conv_nth)
  then have "xs[i := x] ! k = y" "k < length (xs[i := x])" by simp_all
  then show "y \<in> set (xs[i := x])" by (metis nth_mem)
qed

lemma nth_move:
  "i < length xs \<Longrightarrow> j < length xs \<Longrightarrow> a < length xs \<Longrightarrow>
     insert_at j (xs ! i) (remove_at i xs) !
       (if a = i then j else if i < a \<and> a \<le> j then a - 1 else if j \<le> a \<and> a < i then Suc a else a)
     = xs ! a"
proof -
  assume ij: "i < length xs" "j < length xs" "a < length xs"
  let ?r = "remove_at i xs"
  have len: "length ?r = length xs - 1" using ij by simp
  consider "a = i" | "i < a" "a \<le> j" | "j \<le> a" "a < i" | "a < i" "a < j" | "i < a" "j < a"
    by linarith
  then show ?thesis
  proof cases
    case 1
    then show ?thesis using ij len by (simp add: nth_insert_at)
  next
    case 2
    then have "a - 1 < j" "a - 1 < length xs - 1" "\<not> a - 1 < i" "Suc (a - 1) = a" using ij by simp_all
    then show ?thesis using 2 ij len by (simp add: nth_insert_at nth_remove_at)
  next
    case 3
    then show ?thesis using ij len by (simp add: nth_insert_at nth_remove_at)
  next
    case 4
    then show ?thesis using ij len by (simp add: nth_insert_at nth_remove_at)
  next
    case 5
    then have "a - 1 < length xs - 1" "\<not> a - 1 < i" "Suc (a - 1) = a" using ij by simp_all
    then show ?thesis using 5 ij len by (simp add: nth_insert_at nth_remove_at)
  qed
qed

lemma cyclic_index:
  assumes "1 \<le> i" and "i < (n::nat)" and "s < n"
  shows "(s + i) mod n < n" and "(s + i) mod n \<noteq> s"
proof -
  show "(s + i) mod n < n" using assms by simp
  show "(s + i) mod n \<noteq> s"
  proof (cases "s + i < n")
    case True
    then show ?thesis using assms by simp
  next
    case False
    then have "(s + i) mod n = s + i - n" using assms by (simp add: le_mod_geq)
    then show ?thesis using assms False by simp
  qed
qed

section \<open>The index of the first element with a property\<close>

text \<open>The idiom \<open>for (int i = 0; i < count(); ++i) if (P(i)) return i; return -1;\<close>.\<close>

fun first_index_from :: "('a \<Rightarrow> bool) \<Rightarrow> int \<Rightarrow> 'a list \<Rightarrow> int" where
  "first_index_from P k [] = -1"
| "first_index_from P k (x # xs) = (if P x then k else first_index_from P (k + 1) xs)"

abbreviation first_index :: "('a \<Rightarrow> bool) \<Rightarrow> 'a list \<Rightarrow> int" where
  "first_index P xs \<equiv> first_index_from P 0 xs"

lemma first_index_from_none:
  "0 \<le> k \<Longrightarrow> first_index_from P k xs = -1 \<longleftrightarrow> (\<forall>x \<in> set xs. \<not> P x)"
  by (induction xs arbitrary: k) auto

lemma first_index_from_some:
  "0 \<le> k \<Longrightarrow> first_index_from P k xs \<noteq> -1 \<Longrightarrow>
     (\<exists>j < length xs. first_index_from P k xs = k + int j \<and> P (xs ! j) \<and> (\<forall>i < j. \<not> P (xs ! i)))"
proof (induction xs arbitrary: k)
  case Nil
  then show ?case by simp
next
  case (Cons x xs)
  show ?case
  proof (cases "P x")
    case True
    then show ?thesis by (intro exI [of _ 0]) simp
  next
    case False
    with Cons.prems have "0 \<le> k + 1" and "first_index_from P (k + 1) xs \<noteq> -1"
      by simp_all
    then obtain j where "j < length xs"
      and "first_index_from P (k + 1) xs = k + 1 + int j"
      and "P (xs ! j)" and "\<forall>i < j. \<not> P (xs ! i)"
      using Cons.IH by blast
    with False show ?thesis
      by (intro exI [of _ "Suc j"]) (auto simp: less_Suc_eq_0_disj)
  qed
qed

lemma first_index_none: "first_index P xs = -1 \<longleftrightarrow> (\<forall>x \<in> set xs. \<not> P x)"
  by (rule first_index_from_none) simp

lemma first_index_someE:
  assumes "first_index P xs \<noteq> -1"
  obtains j where "j < length xs" and "first_index P xs = int j" and "P (xs ! j)"
    and "\<And>i. i < j \<Longrightarrow> \<not> P (xs ! i)"
  using first_index_from_some [of 0 P xs] assms by auto

lemma first_index_range: "-1 \<le> first_index P xs \<and> first_index P xs < int (length xs)"
proof (cases "first_index P xs = -1")
  case True
  then show ?thesis by simp
next
  case False
  then show ?thesis by (rule first_index_someE) simp
qed

text \<open>The same search with a missing index as \<open>None\<close> (\<open>NSNotFound\<close>).\<close>

fun index_where :: "('a \<Rightarrow> bool) \<Rightarrow> 'a list \<Rightarrow> nat option" where
  "index_where P [] = None"
| "index_where P (x # xs) = (if P x then Some 0 else map_option Suc (index_where P xs))"

lemma index_where_None [simp]: "index_where P xs = None \<longleftrightarrow> (\<forall>x \<in> set xs. \<not> P x)"
  by (induction xs) auto

lemma index_where_SomeD:
  "index_where P xs = Some i \<Longrightarrow> i < length xs \<and> P (xs ! i) \<and> (\<forall>j < i. \<not> P (xs ! j))"
proof (induction xs arbitrary: i)
  case Nil
  then show ?case by simp
next
  case (Cons x xs)
  then show ?case by (cases i) (auto simp: nth_Cons' split: if_splits)
qed

lemma index_where_eq_nth: "distinct xs \<Longrightarrow> i < length xs \<Longrightarrow> index_where (\<lambda>y. y = xs ! i) xs = Some i"
proof (induction xs arbitrary: i)
  case Nil
  then show ?case by simp
next
  case (Cons x xs)
  then show ?case by (cases i) auto
qed

text \<open>Access to a vector that raises out of range.\<close>

definition vec_at :: "'a list \<Rightarrow> nat \<Rightarrow> 'a outcome" where
  "vec_at xs i = (if i < length xs then Inr (xs ! i) else Inl Range_error)"

lemma vec_at_Inr [simp]: "i < length xs \<Longrightarrow> vec_at xs i = Inr (xs ! i)"
  by (simp add: vec_at_def)

section \<open>Contracts of stateful components\<close>

text \<open>
  \<open>step\<close> runs one operation, \<open>ok\<close> says which operations a client may issue in a
  state, \<open>inv\<close> is the component's invariant.  \<open>admissible\<close> runs a list of operations
  and says that each is allowed where it is issued; it says nothing of a fault, which is
  what \<open>run_safe\<close> excludes.
\<close>

fun admissible :: "('s \<Rightarrow> 'o \<Rightarrow> 's outcome) \<Rightarrow> ('s \<Rightarrow> 'o \<Rightarrow> bool) \<Rightarrow> 's \<Rightarrow> 'o list \<Rightarrow> bool" where
  "admissible step ok s [] = True"
| "admissible step ok s (x # xs) =
     (ok s x \<and> (case step s x of Inl _ \<Rightarrow> True | Inr t \<Rightarrow> admissible step ok t xs))"

locale checked_machine =
  fixes step :: "'s \<Rightarrow> 'o \<Rightarrow> 's outcome"
    and ok :: "'s \<Rightarrow> 'o \<Rightarrow> bool"
    and inv :: "'s \<Rightarrow> bool"
  assumes step_safe: "inv s \<Longrightarrow> ok s x \<Longrightarrow> \<exists>t. step s x = Inr t \<and> inv t"
begin

lemma step_keeps: "inv s \<Longrightarrow> ok s x \<Longrightarrow> step s x = Inr t \<Longrightarrow> inv t"
  using step_safe by fastforce

lemma run_safe: "inv s \<Longrightarrow> admissible step ok s xs \<Longrightarrow> \<exists>t. orun step s xs = Inr t \<and> inv t"
proof (induction xs arbitrary: s)
  case Nil
  then show ?case by simp
next
  case (Cons x xs)
  from Cons.prems obtain t where t: "step s x = Inr t" "inv t"
    using step_safe by fastforce
  with Cons.prems have "admissible step ok t xs" by simp
  with Cons.IH [OF t(2)] t show ?case by simp
qed

end

text \<open>
  With an abstraction function and an abstract step that every admissible operation
  simulates, runs simulate abstract runs.
\<close>

locale refined_machine = checked_machine step ok inv
  for step :: "'s \<Rightarrow> 'o \<Rightarrow> 's outcome" and ok and inv +
  fixes abs :: "'s \<Rightarrow> 'a"
    and spec :: "'a \<Rightarrow> 'o \<Rightarrow> 'a"
  assumes step_refines: "inv s \<Longrightarrow> ok s x \<Longrightarrow> step s x = Inr t \<Longrightarrow> abs t = spec (abs s) x"
begin

lemma run_refines:
  "inv s \<Longrightarrow> admissible step ok s xs \<Longrightarrow> orun step s xs = Inr t \<Longrightarrow> abs t = fold (\<lambda>x a. spec a x) xs (abs s)"
proof (induction xs arbitrary: s)
  case Nil
  then show ?case by simp
next
  case (Cons x xs)
  from Cons.prems obtain u where u: "step s x = Inr u" "inv u"
    using step_safe by fastforce
  with Cons.prems have "admissible step ok u xs" and "orun step u xs = Inr t" by simp_all
  with Cons.IH [OF u(2)] have "abs t = fold (\<lambda>x a. spec a x) xs (abs u)" by simp
  moreover have "abs u = spec (abs s) x"
    using Cons.prems u by (auto intro: step_refines)
  ultimately show ?case by simp
qed

end

end
