(* ===== verification/Web_State_List.thy ===== *)
theory Web_State_List
  imports Prelude
begin

unbundle bit_operations_syntax

text \<open>
  The tab strip model, \<open>chrome/browser/web_state_list\<close>: the list of tabs of a window
  (\<open>WebStateList\<close>), its order controller, the opener relation between tabs and the
  notifications sent to observers and to the delegate.

  A \<open>web::WebState\<close> is identified by a number (its address), a possibly null pointer is
  an \<open>option\<close>.  What the code reads from a \<open>WebState\<close> (its visible URL and the index of
  its last committed navigation item) is the argument \<open>web_env\<close>.  Observers cannot change
  the list (\<open>LockForMutation\<close>), so a loop over the observers is one entry of the trace
  \<open>wsl_trace\<close>, which records every call to the delegate and every notification in order.
\<close>

section \<open>Data\<close>

type_synonym wsid = nat

record web_env =
  last_committed_item_index :: "wsid \<Rightarrow> int"
  visible_url :: "wsid \<Rightarrow> string"

record web_state_opener =
  opener :: "wsid option"
  navigation_index :: int

definition NavigationIndexFromWebState :: "web_env \<Rightarrow> wsid option \<Rightarrow> int" where
  "NavigationIndexFromWebState e web_state =
     (case web_state of None \<Rightarrow> -1 | Some w \<Rightarrow> last_committed_item_index e w)"

definition WebStateOpener_null :: web_state_opener where
  "WebStateOpener_null = \<lparr>opener = None, navigation_index = -1\<rparr>"

definition WebStateOpener_of :: "web_env \<Rightarrow> wsid option \<Rightarrow> web_state_opener" where
  "WebStateOpener_of e w = \<lparr>opener = w, navigation_index = NavigationIndexFromWebState e w\<rparr>"

datatype active_change_reason = Replaced | Activated | Closed | Inserted

datatype wsl_event =
    WebStateInsertedAt wsid int bool
  | WebStateMoved wsid int int
  | WebStateReplacedAt wsid wsid int
  | WillDetachWebStateAt wsid int
  | WebStateDetachedAt wsid int
  | WillCloseWebStateAt wsid int bool
  | WebStateActivatedAt "wsid option" "wsid option" int active_change_reason
  | WillBeginBatchOperation
  | BatchOperationEnded

datatype wsl_delegate_call = WillAddWebState wsid | WebStateDetached wsid

datatype wsl_call = Notify wsl_event | Tell wsl_delegate_call

record web_state_wrapper =
  w_web_state :: wsid
  w_opener :: web_state_opener
  w_should_reset_opener :: bool

record web_state_list =
  web_state_wrappers :: "web_state_wrapper list"
  active_index :: int
  locked :: bool
  batch_operation_in_progress :: bool
  wsl_trace :: "wsl_call list"

definition kInvalidIndex :: int where "kInvalidIndex = -1"

definition INSERT_ACTIVATE :: int where "INSERT_ACTIVATE = 1"
definition INSERT_FORCE_INDEX :: int where "INSERT_FORCE_INDEX = 2"
definition INSERT_INHERIT_OPENER :: int where "INSERT_INHERIT_OPENER = 4"
definition CLOSE_USER_ACTION :: int where "CLOSE_USER_ACTION = 1"
definition INT_MAX :: int where "INT_MAX = 2147483647"

lemmas wsl_constants =
  kInvalidIndex_def INSERT_ACTIVATE_def INSERT_FORCE_INDEX_def INSERT_INHERIT_OPENER_def
  CLOSE_USER_ACTION_def INT_MAX_def

definition IsInsertionFlagSet :: "int \<Rightarrow> int \<Rightarrow> bool" where
  "IsInsertionFlagSet flagset flag \<longleftrightarrow> (flagset AND flag) = flag"

definition IsClosingFlagSet :: "int \<Rightarrow> int \<Rightarrow> bool" where
  "IsClosingFlagSet flagset flag \<longleftrightarrow> (flagset AND flag) = flag"

text \<open>The list as constructed, before anything is inserted.\<close>

definition new_web_state_list :: web_state_list where
  "new_web_state_list = \<lparr>web_state_wrappers = [], active_index = kInvalidIndex,
     locked = False, batch_operation_in_progress = False, wsl_trace = []\<rparr>"

definition notify :: "wsl_event \<Rightarrow> web_state_list \<Rightarrow> web_state_list" where
  "notify ev l = l\<lparr>wsl_trace := wsl_trace l @ [Notify ev]\<rparr>"

definition tell_delegate :: "wsl_delegate_call \<Rightarrow> web_state_list \<Rightarrow> web_state_list" where
  "tell_delegate c l = l\<lparr>wsl_trace := wsl_trace l @ [Tell c]\<rparr>"

section \<open>The wrapper of a WebState\<close>

definition new_wrapper :: "wsid \<Rightarrow> web_state_wrapper" where
  "new_wrapper w =
     \<lparr>w_web_state = w, w_opener = WebStateOpener_null, w_should_reset_opener = False\<rparr>"

definition ReplaceWebState :: "web_state_wrapper \<Rightarrow> wsid \<Rightarrow> (wsid \<times> web_state_wrapper) outcome" where
  "ReplaceWebState w web_state =
     dcheck (web_state \<noteq> w_web_state w)
       (Inr (w_web_state w, w\<lparr>w_web_state := web_state, w_opener := WebStateOpener_null\<rparr>))"

definition SetOpener :: "web_state_wrapper \<Rightarrow> web_state_opener \<Rightarrow> web_state_wrapper outcome" where
  "SetOpener w op =
     dcheck (Some (w_web_state w) \<noteq> opener op)
       (Inr (w\<lparr>w_should_reset_opener := False, w_opener := op\<rparr>))"

definition WasOpenedBy :: "web_state_wrapper \<Rightarrow> wsid \<Rightarrow> int \<Rightarrow> bool \<Rightarrow> bool" where
  "WasOpenedBy w op opener_navigation_index use_group =
     (if opener (w_opener w) \<noteq> Some op then False
      else if \<not> use_group then True
      else navigation_index (w_opener w) = opener_navigation_index)"

section \<open>Queries\<close>

definition count :: "web_state_list \<Rightarrow> int" where
  "count l = int (length (web_state_wrappers l))"

definition wsl_empty :: "web_state_list \<Rightarrow> bool" where
  "wsl_empty l \<longleftrightarrow> web_state_wrappers l = []"

definition ContainsIndex :: "web_state_list \<Rightarrow> int \<Rightarrow> bool" where
  "ContainsIndex l index \<longleftrightarrow> 0 \<le> index \<and> index < count l"

definition GetWebStateWrapperAt :: "web_state_list \<Rightarrow> int \<Rightarrow> web_state_wrapper outcome" where
  "GetWebStateWrapperAt l index =
     dcheck (ContainsIndex l index) (Inr (web_state_wrappers l ! nat index))"

definition GetActiveWebStateWrapper :: "web_state_list \<Rightarrow> web_state_wrapper option outcome" where
  "GetActiveWebStateWrapper l =
     (if active_index l \<noteq> kInvalidIndex
      then obind (GetWebStateWrapperAt l (active_index l)) (\<lambda>w. Inr (Some w))
      else Inr None)"

definition GetActiveWebState :: "web_state_list \<Rightarrow> wsid option outcome" where
  "GetActiveWebState l =
     obind (GetActiveWebStateWrapper l) (\<lambda>w. Inr (map_option w_web_state w))"

definition GetWebStateAt :: "web_state_list \<Rightarrow> int \<Rightarrow> wsid outcome" where
  "GetWebStateAt l index = obind (GetWebStateWrapperAt l index) (\<lambda>w. Inr (w_web_state w))"

definition GetIndexOfWebState :: "web_state_list \<Rightarrow> wsid option \<Rightarrow> int" where
  "GetIndexOfWebState l web_state =
     first_index (\<lambda>w. Some (w_web_state w) = web_state) (web_state_wrappers l)"

definition GetIndexOfWebStateWithURL :: "web_env \<Rightarrow> web_state_list \<Rightarrow> string \<Rightarrow> int" where
  "GetIndexOfWebStateWithURL e l url =
     first_index (\<lambda>w. visible_url e (w_web_state w) = url) (web_state_wrappers l)"

definition GetIndexOfInactiveWebStateWithURL :: "web_env \<Rightarrow> web_state_list \<Rightarrow> string \<Rightarrow> int" where
  "GetIndexOfInactiveWebStateWithURL e l url =
     first_index (\<lambda>(i, w). int i \<noteq> active_index l \<and> visible_url e (w_web_state w) = url)
       (enumerate 0 (web_state_wrappers l))"

definition GetOpenerOfWebStateAt :: "web_state_list \<Rightarrow> int \<Rightarrow> web_state_opener outcome" where
  "GetOpenerOfWebStateAt l index =
     dcheck (ContainsIndex l index) (Inr (w_opener (web_state_wrappers l ! nat index)))"

text \<open>The scan of \<open>GetIndexOfNthWebStateOpenedBy\<close> over the indices after the start.\<close>

fun opened_by_loop :: "(nat \<Rightarrow> bool) \<Rightarrow> nat list \<Rightarrow> int \<Rightarrow> int \<Rightarrow> int" where
  "opened_by_loop P [] n found_index = found_index"
| "opened_by_loop P (index # rest) n found_index =
     (if \<not> P index then opened_by_loop P rest n found_index
      else if n - 1 = 0 then int index
      else opened_by_loop P rest (n - 1) (int index))"

definition GetIndexOfNthWebStateOpenedBy ::
    "web_env \<Rightarrow> web_state_list \<Rightarrow> wsid option \<Rightarrow> int \<Rightarrow> bool \<Rightarrow> int \<Rightarrow> int outcome" where
  "GetIndexOfNthWebStateOpenedBy e l op start_index use_group n =
     dcheck (0 < n)
       (case op of None \<Rightarrow> Inr kInvalidIndex
        | Some p \<Rightarrow>
            if \<not> ContainsIndex l start_index then Inr kInvalidIndex
            else
              let opener_navigation_index =
                    (if use_group then last_committed_item_index e p else -1);
                  list_length = length (web_state_wrappers l);
                  indices = map (\<lambda>i. (nat start_index + i) mod list_length) [1..<list_length]
              in Inr (opened_by_loop
                   (\<lambda>i. WasOpenedBy (web_state_wrappers l ! i) p opener_navigation_index use_group)
                   indices n kInvalidIndex))"

definition GetIndexOfNextWebStateOpenedBy ::
    "web_env \<Rightarrow> web_state_list \<Rightarrow> wsid option \<Rightarrow> int \<Rightarrow> bool \<Rightarrow> int outcome" where
  "GetIndexOfNextWebStateOpenedBy e l op start_index use_group =
     GetIndexOfNthWebStateOpenedBy e l op start_index use_group 1"

definition GetIndexOfLastWebStateOpenedBy ::
    "web_env \<Rightarrow> web_state_list \<Rightarrow> wsid option \<Rightarrow> int \<Rightarrow> bool \<Rightarrow> int outcome" where
  "GetIndexOfLastWebStateOpenedBy e l op start_index use_group =
     GetIndexOfNthWebStateOpenedBy e l op start_index use_group INT_MAX"

section \<open>The order controller\<close>

definition DetermineInsertionIndex :: "web_env \<Rightarrow> web_state_list \<Rightarrow> wsid option \<Rightarrow> int outcome" where
  "DetermineInsertionIndex e l op =
     (if op = None then Inr (count l)
      else
        let opener_index = GetIndexOfWebState l op in
        dcheck (kInvalidIndex \<noteq> opener_index)
          (obind (GetIndexOfLastWebStateOpenedBy e l op opener_index True) (\<lambda>list_child_index.
             let reference_index =
                   (if list_child_index \<noteq> kInvalidIndex then list_child_index else opener_index)
             in dcheck (reference_index < INT_MAX) (Inr (reference_index + 1)))))"

definition GetValidIndex :: "int \<Rightarrow> int \<Rightarrow> int outcome" where
  "GetValidIndex active removing_index =
     (if active < removing_index then Inr active
      else dcheck (active \<noteq> removing_index) (Inr (active - 1)))"

definition DetermineNewActiveIndex :: "web_env \<Rightarrow> web_state_list \<Rightarrow> int \<Rightarrow> int \<Rightarrow> int outcome" where
  "DetermineNewActiveIndex e l active removing_index =
     dcheck (ContainsIndex l removing_index)
     (if active = kInvalidIndex then Inr kInvalidIndex
      else dcheck (ContainsIndex l active)
      (if count l = 1 then Inr kInvalidIndex
       else if active \<noteq> removing_index then GetValidIndex active removing_index
       else
         obind (GetWebStateAt l removing_index) (\<lambda>removed.
         obind (GetIndexOfNextWebStateOpenedBy e l (Some removed) removing_index False) (\<lambda>child_index.
         if child_index \<noteq> kInvalidIndex then GetValidIndex child_index removing_index
         else
           obind (GetOpenerOfWebStateAt l removing_index) (\<lambda>op.
           if opener op = None then
             (if removing_index = count l - 1 then Inr (removing_index - 1) else Inr removing_index)
           else
             obind (GetIndexOfNextWebStateOpenedBy e l (opener op) removing_index False) (\<lambda>sibling_index.
             if sibling_index \<noteq> kInvalidIndex then GetValidIndex sibling_index removing_index
             else
               let opener_index = GetIndexOfWebState l (opener op) in
               dcheck (opener_index \<noteq> kInvalidIndex)
                 (GetValidIndex opener_index removing_index)))))))"

section \<open>Mutations, on a locked list\<close>

definition SetOpenerOfWebStateAt :: "web_state_list \<Rightarrow> int \<Rightarrow> web_state_opener \<Rightarrow> web_state_list outcome" where
  "SetOpenerOfWebStateAt l index op =
     dcheck (ContainsIndex l index)
     (dcheck (ContainsIndex l (GetIndexOfWebState l (opener op)))
       (obind (SetOpener (web_state_wrappers l ! nat index) op) (\<lambda>w.
          Inr (l\<lparr>web_state_wrappers := (web_state_wrappers l)[nat index := w]\<rparr>))))"

definition ClearOpenersReferencing :: "web_state_list \<Rightarrow> int \<Rightarrow> web_state_list outcome" where
  "ClearOpenersReferencing l index =
     (let old_web_state = w_web_state (web_state_wrappers l ! nat index) in
      obind (omap (\<lambda>w. if opener (w_opener w) = Some old_web_state
                       then SetOpener w WebStateOpener_null else Inr w)
              (web_state_wrappers l))
        (\<lambda>ws. Inr (l\<lparr>web_state_wrappers := ws\<rparr>)))"

definition NotifyIfActiveWebStateChanged ::
    "web_state_list \<Rightarrow> wsid option \<Rightarrow> active_change_reason \<Rightarrow> web_state_list outcome" where
  "NotifyIfActiveWebStateChanged l old_web_state reason =
     obind (GetActiveWebState l) (\<lambda>new_web_state.
       if old_web_state = new_web_state then Inr l
       else Inr (notify (WebStateActivatedAt old_web_state new_web_state (active_index l) reason) l))"

definition ActivateWebStateAtImpl ::
    "web_state_list \<Rightarrow> int \<Rightarrow> active_change_reason \<Rightarrow> web_state_list outcome" where
  "ActivateWebStateAtImpl l index reason =
     dcheck (locked l)
     (dcheck (ContainsIndex l index \<or> index = kInvalidIndex)
       (obind (GetActiveWebStateWrapper l) (\<lambda>old_web_state_wrapper.
        obind (case old_web_state_wrapper of
                 Some w \<Rightarrow>
                   (if w_should_reset_opener w
                    then obind (SetOpener w WebStateOpener_null) (\<lambda>w'.
                           Inr (l\<lparr>web_state_wrappers :=
                                   (web_state_wrappers l)[nat (active_index l) := w']\<rparr>))
                    else Inr l)
               | None \<Rightarrow> Inr l) (\<lambda>l1.
        NotifyIfActiveWebStateChanged (l1\<lparr>active_index := index\<rparr>)
          (map_option w_web_state old_web_state_wrapper) reason))))"

text \<open>
  \<open>InsertWebStateImpl\<close> in three steps: the opener (\<open>INSERT_INHERIT_OPENER\<close> resets every
  opener and takes the active tab), the index (\<open>INSERT_FORCE_INDEX\<close> or the order
  controller), and the insertion itself with its notifications.
\<close>

definition insertion_opener ::
    "web_env \<Rightarrow> web_state_list \<Rightarrow> int \<Rightarrow> web_state_opener \<Rightarrow>
     (web_state_list \<times> web_state_opener) outcome" where
  "insertion_opener e l insertion_flags op =
     (if IsInsertionFlagSet insertion_flags INSERT_INHERIT_OPENER then
        obind (omap (\<lambda>w. SetOpener w WebStateOpener_null) (web_state_wrappers l)) (\<lambda>wrappers.
        let l0 = l\<lparr>web_state_wrappers := wrappers\<rparr> in
        obind (GetActiveWebState l0) (\<lambda>active. Inr (l0, WebStateOpener_of e active)))
      else Inr (l, op))"

definition insertion_index ::
    "web_env \<Rightarrow> web_state_list \<Rightarrow> int \<Rightarrow> int \<Rightarrow> web_state_opener \<Rightarrow> int outcome" where
  "insertion_index e l index insertion_flags op =
     (if \<not> IsInsertionFlagSet insertion_flags INSERT_FORCE_INDEX then
        obind (DetermineInsertionIndex e l (opener op)) (\<lambda>i.
        Inr (if i < 0 \<or> count l < i then count l else i))
      else Inr index)"

definition insertion_place ::
    "web_state_list \<Rightarrow> int \<Rightarrow> wsid \<Rightarrow> int \<Rightarrow> web_state_opener \<Rightarrow> web_state_list outcome" where
  "insertion_place l index ws insertion_flags op =
     dcheck (ContainsIndex l index \<or> index = count l)
     (let activating = IsInsertionFlagSet insertion_flags INSERT_ACTIVATE;
          l1 = tell_delegate (WillAddWebState ws) l;
          w = (new_wrapper ws)\<lparr>w_should_reset_opener :=
                 IsInsertionFlagSet insertion_flags INSERT_INHERIT_OPENER\<rparr>;
          l2 = l1\<lparr>web_state_wrappers := insert_at (nat index) w (web_state_wrappers l1),
                  active_index := (if index \<le> active_index l1
                                   then active_index l1 + 1 else active_index l1)\<rparr>;
          l3 = notify (WebStateInsertedAt ws index activating) l2
      in
      obind (if opener op \<noteq> None then SetOpenerOfWebStateAt l3 index op else Inr l3) (\<lambda>l4.
      if activating then ActivateWebStateAtImpl l4 index Inserted else Inr l4))"

definition InsertWebStateImpl ::
    "web_env \<Rightarrow> web_state_list \<Rightarrow> int \<Rightarrow> wsid option \<Rightarrow> int \<Rightarrow> web_state_opener \<Rightarrow>
     (int \<times> web_state_list) outcome" where
  "InsertWebStateImpl e l index web_state insertion_flags op =
     dcheck (locked l)
     (case web_state of None \<Rightarrow> Inl Dcheck_failed
      | Some ws \<Rightarrow>
          obind (insertion_opener e l insertion_flags op) (\<lambda>(l1, op1).
          obind (insertion_index e l1 index insertion_flags op1) (\<lambda>index1.
          obind (insertion_place l1 index1 ws insertion_flags op1) (\<lambda>l2.
          Inr (index1, l2)))))"

definition MoveWebStateAtImpl :: "web_state_list \<Rightarrow> int \<Rightarrow> int \<Rightarrow> web_state_list outcome" where
  "MoveWebStateAtImpl l from_index to_index =
     dcheck (locked l)
     (dcheck (ContainsIndex l from_index)
     (dcheck (ContainsIndex l to_index)
     (if from_index = to_index then Inr l
      else
        let w = web_state_wrappers l ! nat from_index;
            wrappers = insert_at (nat to_index) w (remove_at (nat from_index) (web_state_wrappers l));
            active = active_index l;
            delta = (if from_index < to_index then -1 else 1);
            new_active =
              (if active = from_index then to_index
               else if min from_index to_index \<le> active \<and> active \<le> max from_index to_index
               then active + delta else active)
        in Inr (notify (WebStateMoved (w_web_state w) from_index to_index)
             (l\<lparr>web_state_wrappers := wrappers, active_index := new_active\<rparr>)))))"

definition ReplaceWebStateAtImpl ::
    "web_state_list \<Rightarrow> int \<Rightarrow> wsid option \<Rightarrow> (wsid \<times> web_state_list) outcome" where
  "ReplaceWebStateAtImpl l index web_state =
     dcheck (locked l)
     (case web_state of None \<Rightarrow> Inl Dcheck_failed
      | Some ws \<Rightarrow>
        dcheck (ContainsIndex l index)
        (obind (ClearOpenersReferencing (tell_delegate (WillAddWebState ws) l) index) (\<lambda>l1.
         obind (ReplaceWebState (web_state_wrappers l1 ! nat index) ws) (\<lambda>(old_web_state, w).
         let l2 = notify (WebStateReplacedAt old_web_state ws index)
                    (l1\<lparr>web_state_wrappers := (web_state_wrappers l1)[nat index := w]\<rparr>)
         in
         obind (NotifyIfActiveWebStateChanged l2 (Some old_web_state) Replaced) (\<lambda>l3.
         Inr (old_web_state, tell_delegate (WebStateDetached old_web_state) l3))))))"

definition DetachWebStateAtImpl ::
    "web_env \<Rightarrow> web_state_list \<Rightarrow> int \<Rightarrow> (wsid \<times> web_state_list) outcome" where
  "DetachWebStateAtImpl e l index =
     dcheck (locked l)
     (dcheck (ContainsIndex l index)
     (let web_state = w_web_state (web_state_wrappers l ! nat index);
          l1 = notify (WillDetachWebStateAt web_state index) l;
          active_web_state_was_closed = (index = active_index l1)
      in
      obind (DetermineNewActiveIndex e l1 (active_index l1) index) (\<lambda>new_active.
      obind (ClearOpenersReferencing (l1\<lparr>active_index := new_active\<rparr>) index) (\<lambda>l2.
      let l3 = l2\<lparr>web_state_wrappers := remove_at (nat index) (web_state_wrappers l2)\<rparr> in
      dcheck (active_index l3 = kInvalidIndex \<or> ContainsIndex l3 (active_index l3))
      (let l4 = notify (WebStateDetachedAt web_state index) l3 in
       obind (if active_web_state_was_closed
              then NotifyIfActiveWebStateChanged l4 (Some web_state) Closed
              else Inr l4) (\<lambda>l5.
       Inr (web_state, tell_delegate (WebStateDetached web_state) l5)))))))"

definition CloseWebStateAtImpl :: "web_env \<Rightarrow> web_state_list \<Rightarrow> int \<Rightarrow> int \<Rightarrow> web_state_list outcome" where
  "CloseWebStateAtImpl e l index close_flags =
     dcheck (locked l)
     (obind (DetachWebStateAtImpl e l index) (\<lambda>(detached, l1).
        let user_action = IsClosingFlagSet close_flags CLOSE_USER_ACTION in
        Inr (notify (WillCloseWebStateAt detached index user_action) l1)))"

lemma length_omap: "omap f xs = Inr ys \<Longrightarrow> length ys = length xs"
  by (induction xs arbitrary: ys) (auto simp: obind_eq_Inr)

lemma notify_frame [simp]:
  "web_state_wrappers (notify ev l) = web_state_wrappers l"
  "active_index (notify ev l) = active_index l"
  "locked (notify ev l) = locked l"
  "batch_operation_in_progress (notify ev l) = batch_operation_in_progress l"
  "wsl_trace (notify ev l) = wsl_trace l @ [Notify ev]"
  by (simp_all add: notify_def)

lemma tell_delegate_frame [simp]:
  "web_state_wrappers (tell_delegate c l) = web_state_wrappers l"
  "active_index (tell_delegate c l) = active_index l"
  "locked (tell_delegate c l) = locked l"
  "batch_operation_in_progress (tell_delegate c l) = batch_operation_in_progress l"
  "wsl_trace (tell_delegate c l) = wsl_trace l @ [Tell c]"
  by (simp_all add: tell_delegate_def)

lemma NotifyIfActive_wrappers:
  "NotifyIfActiveWebStateChanged l old reason = Inr l' \<Longrightarrow>
     web_state_wrappers l' = web_state_wrappers l \<and> locked l' = locked l \<and>
     active_index l' = active_index l \<and>
     batch_operation_in_progress l' = batch_operation_in_progress l"
  by (auto simp: NotifyIfActiveWebStateChanged_def obind_eq_Inr split: if_splits)

lemma ClearOpenersReferencing_length:
  "ClearOpenersReferencing l index = Inr l' \<Longrightarrow>
     length (web_state_wrappers l') = length (web_state_wrappers l)"
  by (auto simp: ClearOpenersReferencing_def Let_def obind_eq_Inr dest: length_omap)

lemma DetachWebStateAtImpl_length:
  assumes "DetachWebStateAtImpl e l index = Inr (w, l')"
  shows "length (web_state_wrappers l') < length (web_state_wrappers l)"
proof -
  let ?w = "w_web_state (web_state_wrappers l ! nat index)"
  let ?l1 = "notify (WillDetachWebStateAt ?w index) l"
  let ?rest = "\<lambda>l2. let l3 = l2\<lparr>web_state_wrappers := remove_at (nat index) (web_state_wrappers l2)\<rparr> in
      dcheck (active_index l3 = kInvalidIndex \<or> ContainsIndex l3 (active_index l3))
      (let l4 = notify (WebStateDetachedAt ?w index) l3 in
       obind (if index = active_index ?l1
              then NotifyIfActiveWebStateChanged l4 (Some ?w) Closed
              else Inr l4) (\<lambda>l5. Inr (?w, tell_delegate (WebStateDetached ?w) l5)))"
  from assms have ix: "ContainsIndex l index"
    by (simp add: DetachWebStateAtImpl_def)
  from assms obtain na l2 where
    "ClearOpenersReferencing (?l1\<lparr>active_index := na\<rparr>) index = Inr l2" and r: "?rest l2 = Inr (w, l')"
    by (simp only: DetachWebStateAtImpl_def Let_def dcheck_eq_Inr obind_eq_Inr) blast
  then have "length (web_state_wrappers l2) = length (web_state_wrappers l)"
    by (auto dest: ClearOpenersReferencing_length)
  moreover have "web_state_wrappers l' = remove_at (nat index) (web_state_wrappers l2)"
    using r unfolding Let_def dcheck_eq_Inr obind_eq_Inr
    by (elim conjE exE) (auto split: if_splits dest: NotifyIfActive_wrappers)
  ultimately show ?thesis using ix by (auto simp: ContainsIndex_def count_def)
qed

lemma CloseWebStateAtImpl_length:
  "CloseWebStateAtImpl e l index flags = Inr l' \<Longrightarrow>
     length (web_state_wrappers l') < length (web_state_wrappers l)"
  by (auto simp: CloseWebStateAtImpl_def obind_eq_Inr Let_def dest: DetachWebStateAtImpl_length)

section \<open>Batches, closing everything\<close>

text \<open>\<open>operation\<close> is the callback, null when it is \<open>None\<close>.\<close>

definition PerformBatchOperation ::
    "web_state_list \<Rightarrow> (web_state_list \<Rightarrow> web_state_list outcome) option \<Rightarrow> web_state_list outcome" where
  "PerformBatchOperation l operation =
     dcheck (\<not> batch_operation_in_progress l)
       (let l1 = notify WillBeginBatchOperation (l\<lparr>batch_operation_in_progress := True\<rparr>) in
        obind (case operation of None \<Rightarrow> Inr l1 | Some f \<Rightarrow> f l1) (\<lambda>l2.
        Inr ((notify BatchOperationEnded l2)\<lparr>batch_operation_in_progress := False\<rparr>)))"

text \<open>
  The loop \<open>while (!empty()) CloseWebStateAtImpl(count() - 1, close_flags)\<close>.  Every
  successful round removes a wrapper, so the loop ends.
\<close>

function close_from_last :: "web_env \<Rightarrow> int \<Rightarrow> web_state_list \<Rightarrow> web_state_list outcome" where
  "close_from_last e close_flags l =
     (if wsl_empty l then Inr l
      else obind (CloseWebStateAtImpl e l (count l - 1) close_flags)
             (\<lambda>l'. close_from_last e close_flags l'))"
  by pat_completeness auto
termination
  by (relation "measure (\<lambda>(e, f, l). length (web_state_wrappers l))")
     (auto dest: CloseWebStateAtImpl_length)

declare close_from_last.simps [simp del]

definition CloseAllWebStatesImpl :: "web_env \<Rightarrow> web_state_list \<Rightarrow> int \<Rightarrow> web_state_list outcome" where
  "CloseAllWebStatesImpl e l close_flags =
     dcheck (locked l)
       (PerformBatchOperation l (Some (\<lambda>l.
          obind (ActivateWebStateAtImpl l kInvalidIndex Closed) (\<lambda>l1.
          close_from_last e close_flags l1))))"

section \<open>The public mutators\<close>

text \<open>
  \<open>LockForMutation\<close> checks and takes the lock; \<open>Unlock\<close> is the destructor of the
  \<open>base::AutoReset<bool>\<close> it returns, at the end of the caller's scope.
\<close>

definition LockForMutation :: "web_state_list \<Rightarrow> web_state_list outcome" where
  "LockForMutation l = check (\<not> locked l) (Inr (l\<lparr>locked := True\<rparr>))"

definition Unlock :: "web_state_list \<Rightarrow> web_state_list" where
  "Unlock l = l\<lparr>locked := False\<rparr>"

definition InsertWebState ::
    "web_env \<Rightarrow> web_state_list \<Rightarrow> int \<Rightarrow> wsid option \<Rightarrow> int \<Rightarrow> web_state_opener \<Rightarrow>
     (int \<times> web_state_list) outcome" where
  "InsertWebState e l index web_state insertion_flags op =
     obind (LockForMutation l) (\<lambda>l1.
     obind (InsertWebStateImpl e l1 index web_state insertion_flags op) (\<lambda>(i, l2).
     Inr (i, Unlock l2)))"

definition MoveWebStateAt :: "web_state_list \<Rightarrow> int \<Rightarrow> int \<Rightarrow> web_state_list outcome" where
  "MoveWebStateAt l from_index to_index =
     obind (LockForMutation l) (\<lambda>l1.
     obind (MoveWebStateAtImpl l1 from_index to_index) (\<lambda>l2. Inr (Unlock l2)))"

definition ReplaceWebStateAt ::
    "web_state_list \<Rightarrow> int \<Rightarrow> wsid option \<Rightarrow> (wsid \<times> web_state_list) outcome" where
  "ReplaceWebStateAt l index web_state =
     dcheck (web_state \<noteq> None)
     (obind (LockForMutation l) (\<lambda>l1.
      obind (ReplaceWebStateAtImpl l1 index web_state) (\<lambda>(w, l2). Inr (w, Unlock l2))))"

definition DetachWebStateAt :: "web_env \<Rightarrow> web_state_list \<Rightarrow> int \<Rightarrow> (wsid \<times> web_state_list) outcome" where
  "DetachWebStateAt e l index =
     obind (LockForMutation l) (\<lambda>l1.
     obind (DetachWebStateAtImpl e l1 index) (\<lambda>(w, l2). Inr (w, Unlock l2)))"

definition CloseWebStateAt :: "web_env \<Rightarrow> web_state_list \<Rightarrow> int \<Rightarrow> int \<Rightarrow> web_state_list outcome" where
  "CloseWebStateAt e l index close_flags =
     obind (LockForMutation l) (\<lambda>l1.
     obind (CloseWebStateAtImpl e l1 index close_flags) (\<lambda>l2. Inr (Unlock l2)))"

definition CloseAllWebStates :: "web_env \<Rightarrow> web_state_list \<Rightarrow> int \<Rightarrow> web_state_list outcome" where
  "CloseAllWebStates e l close_flags =
     obind (LockForMutation l) (\<lambda>l1.
     obind (CloseAllWebStatesImpl e l1 close_flags) (\<lambda>l2. Inr (Unlock l2)))"

definition ActivateWebStateAt :: "web_state_list \<Rightarrow> int \<Rightarrow> web_state_list outcome" where
  "ActivateWebStateAt l index =
     dcheck (ContainsIndex l index)
     (obind (LockForMutation l) (\<lambda>l1.
      obind (ActivateWebStateAtImpl l1 index Activated) (\<lambda>l2. Inr (Unlock l2))))"

text \<open>The mutators of the class as one operation type, run by \<open>wsl_step\<close>.\<close>

datatype wsl_op =
    Op_InsertWebState int "wsid option" int web_state_opener
  | Op_MoveWebStateAt int int
  | Op_ReplaceWebStateAt int "wsid option"
  | Op_DetachWebStateAt int
  | Op_CloseWebStateAt int int
  | Op_CloseAllWebStates int
  | Op_ActivateWebStateAt int
  | Op_SetOpenerOfWebStateAt int web_state_opener

fun wsl_step :: "web_env \<Rightarrow> web_state_list \<Rightarrow> wsl_op \<Rightarrow> web_state_list outcome" where
  "wsl_step e l (Op_InsertWebState i w f op) =
     obind (InsertWebState e l i w f op) (\<lambda>(_, l'). Inr l')"
| "wsl_step e l (Op_MoveWebStateAt i j) = MoveWebStateAt l i j"
| "wsl_step e l (Op_ReplaceWebStateAt i w) = obind (ReplaceWebStateAt l i w) (\<lambda>(_, l'). Inr l')"
| "wsl_step e l (Op_DetachWebStateAt i) = obind (DetachWebStateAt e l i) (\<lambda>(_, l'). Inr l')"
| "wsl_step e l (Op_CloseWebStateAt i f) = CloseWebStateAt e l i f"
| "wsl_step e l (Op_CloseAllWebStates f) = CloseAllWebStates e l f"
| "wsl_step e l (Op_ActivateWebStateAt i) = ActivateWebStateAt l i"
| "wsl_step e l (Op_SetOpenerOfWebStateAt i op) = SetOpenerOfWebStateAt l i op"

end
