(* ===== verification/Web_State_List_Inv.thy ===== *)
theory Web_State_List_Inv
  imports Web_State_List
begin

text \<open>
  The invariant of \<open>WebStateList\<close>, the admissible operations, and the proof that every
  mutator keeps the invariant without running into a \<open>DCHECK\<close>.

  \<open>wsl_inv\<close> says: the tabs are pairwise distinct, the active index is \<open>kInvalidIndex\<close> or
  in range, the opener of a tab is another tab of the list, and an observer that replays
  the notifications it received knows the list and the active tab (\<open>synced\<close>).
\<close>

section \<open>Views and the invariant\<close>

definition web_states :: "web_state_list \<Rightarrow> wsid list" where
  "web_states l = map w_web_state (web_state_wrappers l)"

definition active_ws :: "web_state_list \<Rightarrow> wsid option" where
  "active_ws l = (if active_index l = kInvalidIndex then None
                  else Some (web_states l ! nat (active_index l)))"

definition index_ok :: "web_state_list \<Rightarrow> bool" where
  "index_ok l \<longleftrightarrow> active_index l = kInvalidIndex \<or> ContainsIndex l (active_index l)"

definition openers_ok :: "web_state_wrapper set \<Rightarrow> bool" where
  "openers_ok S \<longleftrightarrow> (\<forall>w \<in> S. \<forall>p. opener (w_opener w) = Some p \<longrightarrow>
                      p \<in> w_web_state ` S \<and> p \<noteq> w_web_state w)"

lemma openers_ok_code [code]:
  "openers_ok S \<longleftrightarrow> (\<forall>w \<in> S. case opener (w_opener w) of None \<Rightarrow> True
                      | Some p \<Rightarrow> p \<in> w_web_state ` S \<and> p \<noteq> w_web_state w)"
  by (auto simp: openers_ok_def split: option.splits)

text \<open>An observer's copy of the list: the tabs and the active tab, updated per notification.\<close>

fun mirror :: "wsl_event \<Rightarrow> wsid list \<times> wsid option \<Rightarrow> wsid list \<times> wsid option" where
  "mirror (WebStateInsertedAt w i activating) (ws, a) = (insert_at (nat i) w ws, a)"
| "mirror (WebStateMoved w i j) (ws, a) = (insert_at (nat j) w (remove_at (nat i) ws), a)"
| "mirror (WebStateReplacedAt old new i) (ws, a) = (ws[nat i := new], a)"
| "mirror (WebStateDetachedAt w i) (ws, a) = (remove_at (nat i) ws, a)"
| "mirror (WebStateActivatedAt old new i r) (ws, a) = (ws, new)"
| "mirror _ m = m"

fun mirror_call :: "wsl_call \<Rightarrow> wsid list \<times> wsid option \<Rightarrow> wsid list \<times> wsid option" where
  "mirror_call (Notify ev) m = mirror ev m"
| "mirror_call (Tell c) m = m"

definition replay :: "wsl_call list \<Rightarrow> wsid list \<times> wsid option" where
  "replay tr = fold mirror_call tr ([], None)"

definition synced :: "web_state_list \<Rightarrow> bool" where
  "synced l \<longleftrightarrow> replay (wsl_trace l) = (web_states l, active_ws l)"

definition wsl_inv :: "web_state_list \<Rightarrow> bool" where
  "wsl_inv l \<longleftrightarrow> distinct (web_states l) \<and> index_ok l \<and>
     openers_ok (set (web_state_wrappers l)) \<and> synced l"

text \<open>Between two calls of the public interface no lock is held.\<close>

definition wsl_idle :: "web_state_list \<Rightarrow> bool" where
  "wsl_idle l \<longleftrightarrow> \<not> locked l \<and> \<not> batch_operation_in_progress l"

fun wsl_ok :: "web_state_list \<Rightarrow> wsl_op \<Rightarrow> bool" where
  "wsl_ok l (Op_InsertWebState i w f op) \<longleftrightarrow>
     (case w of None \<Rightarrow> False | Some x \<Rightarrow> x \<notin> set (web_states l)) \<and> count l < INT_MAX \<and>
     (IsInsertionFlagSet f INSERT_FORCE_INDEX \<longrightarrow> 0 \<le> i \<and> i \<le> count l) \<and>
     (\<not> IsInsertionFlagSet f INSERT_INHERIT_OPENER \<longrightarrow>
        opener op = None \<or> opener op \<in> Some ` set (web_states l))"
| "wsl_ok l (Op_MoveWebStateAt i j) \<longleftrightarrow> ContainsIndex l i \<and> ContainsIndex l j"
| "wsl_ok l (Op_ReplaceWebStateAt i w) \<longleftrightarrow>
     ContainsIndex l i \<and> (case w of None \<Rightarrow> False | Some x \<Rightarrow> x \<notin> set (web_states l))"
| "wsl_ok l (Op_DetachWebStateAt i) \<longleftrightarrow> ContainsIndex l i"
| "wsl_ok l (Op_CloseWebStateAt i f) \<longleftrightarrow> ContainsIndex l i"
| "wsl_ok l (Op_CloseAllWebStates f) \<longleftrightarrow> True"
| "wsl_ok l (Op_ActivateWebStateAt i) \<longleftrightarrow> ContainsIndex l i"
| "wsl_ok l (Op_SetOpenerOfWebStateAt i op) \<longleftrightarrow> ContainsIndex l i \<and>
     opener op \<in> Some ` set (web_states l) \<and> opener op \<noteq> Some (web_states l ! nat i)"

section \<open>Basic facts\<close>

named_theorems wsl "simplification of the views of a WebStateList"

lemma web_states_simps [wsl, simp]:
  "web_states (notify ev l) = web_states l"
  "web_states (tell_delegate c l) = web_states l"
  "web_states (l\<lparr>active_index := i\<rparr>) = web_states l"
  "web_states (l\<lparr>locked := b\<rparr>) = web_states l"
  "web_states (l\<lparr>batch_operation_in_progress := b\<rparr>) = web_states l"
  "web_states (l\<lparr>web_state_wrappers := ws\<rparr>) = map w_web_state ws"
  by (simp_all add: web_states_def)

lemma ContainsIndex_simps [wsl, simp]:
  "ContainsIndex (notify ev l) = ContainsIndex l"
  "ContainsIndex (tell_delegate c l) = ContainsIndex l"
  "ContainsIndex (l\<lparr>active_index := i\<rparr>) = ContainsIndex l"
  "ContainsIndex (l\<lparr>locked := b\<rparr>) = ContainsIndex l"
  "ContainsIndex (l\<lparr>batch_operation_in_progress := b\<rparr>) = ContainsIndex l"
  by (simp_all add: ContainsIndex_def count_def fun_eq_iff)

lemma ContainsIndex_iff: "ContainsIndex l i \<longleftrightarrow> 0 \<le> i \<and> nat i < length (web_state_wrappers l)"
  by (auto simp: ContainsIndex_def count_def web_states_def)

lemma count_eq: "count l = int (length (web_states l))"
  by (simp add: count_def web_states_def)

lemma length_web_states [simp]: "length (web_states l) = length (web_state_wrappers l)"
  by (simp add: web_states_def)

lemma w_web_state_nth: "i < length (web_state_wrappers l) \<Longrightarrow>
    w_web_state (web_state_wrappers l ! i) = web_states l ! i"
  by (simp add: web_states_def)

lemma active_ws_simps [wsl, simp]:
  "active_ws (notify ev l) = active_ws l"
  "active_ws (tell_delegate c l) = active_ws l"
  "active_ws (l\<lparr>locked := b\<rparr>) = active_ws l"
  "active_ws (l\<lparr>batch_operation_in_progress := b\<rparr>) = active_ws l"
  by (simp_all add: active_ws_def)

lemma replay_append: "replay (tr @ cs) = fold mirror_call cs (replay tr)"
  by (simp add: replay_def)

lemma replay_Nil [simp]: "replay [] = ([], None)"
  by (simp add: replay_def)

lemma GetActiveWebStateWrapper_ok:
  "index_ok l \<Longrightarrow> GetActiveWebStateWrapper l =
     Inr (if active_index l = kInvalidIndex then None
          else Some (web_state_wrappers l ! nat (active_index l)))"
  by (auto simp: GetActiveWebStateWrapper_def GetWebStateWrapperAt_def index_ok_def)

lemma GetActiveWebState_ok: "index_ok l \<Longrightarrow> GetActiveWebState l = Inr (active_ws l)"
  by (auto simp: GetActiveWebState_def GetActiveWebStateWrapper_ok active_ws_def index_ok_def
      ContainsIndex_iff w_web_state_nth)

lemma GetIndexOfWebState_Some:
  "p \<in> set (web_states l) \<Longrightarrow>
     \<exists>j < length (web_state_wrappers l). GetIndexOfWebState l (Some p) = int j \<and> web_states l ! j = p"
proof -
  assume "p \<in> set (web_states l)"
  then have "first_index (\<lambda>w. Some (w_web_state w) = Some p) (web_state_wrappers l) \<noteq> -1"
    by (auto simp: first_index_none web_states_def)
  then show ?thesis unfolding GetIndexOfWebState_def
    by (rule first_index_someE) (auto simp: w_web_state_nth)
qed

lemma ContainsIndex_GetIndexOfWebState:
  "ContainsIndex l (GetIndexOfWebState l p) \<longleftrightarrow> p \<in> Some ` set (web_states l)"
proof
  assume "ContainsIndex l (GetIndexOfWebState l p)"
  then have "first_index (\<lambda>w. Some (w_web_state w) = p) (web_state_wrappers l) \<noteq> -1"
    by (auto simp: ContainsIndex_iff GetIndexOfWebState_def)
  then show "p \<in> Some ` set (web_states l)"
    by (rule first_index_someE) (auto simp: w_web_state_nth)
next
  assume "p \<in> Some ` set (web_states l)"
  then show "ContainsIndex l (GetIndexOfWebState l p)"
    using GetIndexOfWebState_Some by (fastforce simp: ContainsIndex_iff)
qed

subsection \<open>Openers\<close>

definition reset_opener :: "web_state_wrapper \<Rightarrow> web_state_wrapper" where
  "reset_opener w = w\<lparr>w_should_reset_opener := False, w_opener := WebStateOpener_null\<rparr>"

definition clear_reference :: "wsid \<Rightarrow> web_state_wrapper \<Rightarrow> web_state_wrapper" where
  "clear_reference p w = (if opener (w_opener w) = Some p then reset_opener w else w)"

lemma reset_opener_simps [simp]:
  "w_web_state (reset_opener w) = w_web_state w"
  "opener (w_opener (reset_opener w)) = None"
  "w_should_reset_opener (reset_opener w) = False"
  by (simp_all add: reset_opener_def WebStateOpener_null_def)

lemma w_web_state_clear_reference [simp]: "w_web_state (clear_reference p w) = w_web_state w"
  by (simp add: clear_reference_def)

lemma SetOpener_null: "SetOpener w WebStateOpener_null = Inr (reset_opener w)"
  by (simp add: SetOpener_def reset_opener_def WebStateOpener_null_def)

lemma ClearOpenersReferencing_eq:
  "ClearOpenersReferencing l i = Inr (l\<lparr>web_state_wrappers :=
     map (clear_reference (w_web_state (web_state_wrappers l ! nat i))) (web_state_wrappers l)\<rparr>)"
proof -
  let ?p = "w_web_state (web_state_wrappers l ! nat i)"
  have "omap (\<lambda>w. if opener (w_opener w) = Some ?p then SetOpener w WebStateOpener_null else Inr w)
          (web_state_wrappers l) = Inr (map (clear_reference ?p) (web_state_wrappers l))"
    by (rule omap_Inr) (simp add: SetOpener_null clear_reference_def)
  then show ?thesis by (simp add: ClearOpenersReferencing_def)
qed

lemma map_w_web_state_clear [simp]:
  "map (w_web_state \<circ> clear_reference p) ws = map w_web_state ws"
  "map (w_web_state \<circ> reset_opener) ws = map w_web_state ws"
  by simp_all

lemma openers_ok_image:
  assumes "openers_ok S"
    and "\<And>w. w_web_state (f w) = w_web_state w"
    and "\<And>w. opener (w_opener (f w)) = None \<or> opener (w_opener (f w)) = opener (w_opener w)"
  shows "openers_ok (f ` S)"
  unfolding openers_ok_def
proof (intro ballI allI impI)
  fix v p
  assume "v \<in> f ` S" and "opener (w_opener v) = Some p"
  then obtain w where w: "w \<in> S" "v = f w" "opener (w_opener w) = Some p"
    using assms(3) by (metis imageE option.distinct(1))
  with assms(1) have "p \<in> w_web_state ` S" and "p \<noteq> w_web_state w"
    by (auto simp: openers_ok_def)
  with w assms(2) show "p \<in> w_web_state ` f ` S \<and> p \<noteq> w_web_state v"
    by (simp add: image_image)
qed

lemma openers_ok_clear: "openers_ok S \<Longrightarrow> openers_ok (clear_reference p ` S)"
  by (rule openers_ok_image) (auto simp: clear_reference_def)

lemma openers_ok_reset: "openers_ok (reset_opener ` S)"
  by (auto simp: openers_ok_def)

lemma openers_ok_insert_null:
  "openers_ok S \<Longrightarrow> opener (w_opener w) = None \<Longrightarrow> openers_ok (insert w S)"
  by (auto simp: openers_ok_def)

lemma openers_ok_update:
  assumes ok: "openers_ok (set ws)" and i: "i < length ws"
    and ws: "w_web_state w = w_web_state (ws ! i)"
    and op: "\<And>p. opener (w_opener w) = Some p \<Longrightarrow> p \<in> w_web_state ` set ws \<and> p \<noteq> w_web_state w"
  shows "openers_ok (set (ws[i := w]))"
proof -
  have "w_web_state ` set (ws[i := w]) = set (map w_web_state (ws[i := w]))" by simp
  also have "map w_web_state (ws[i := w]) = map w_web_state ws"
    using i ws by (simp add: map_update list_update_same_conv)
  finally have img: "w_web_state ` set (ws[i := w]) = w_web_state ` set ws" by simp
  show ?thesis unfolding openers_ok_def img
  proof (intro ballI allI impI)
    fix v p assume "v \<in> set (ws[i := w])" and p: "opener (w_opener v) = Some p"
    then consider "v = w" | "v \<in> set ws" using set_update_subset_insert by fastforce
    then show "p \<in> w_web_state ` set ws \<and> p \<noteq> w_web_state v"
      using ok op p by cases (auto simp: openers_ok_def)
  qed
qed

text \<open>Removing a tab nobody names as its opener.\<close>

lemma openers_ok_remove:
  assumes ok: "openers_ok (set ws)" and i: "i < length ws" and d: "distinct (map w_web_state ws)"
    and none: "\<And>w. w \<in> set ws \<Longrightarrow> opener (w_opener w) \<noteq> Some (w_web_state (ws ! i))"
  shows "openers_ok (set (remove_at i ws))"
proof -
  have "w_web_state ` set (remove_at i ws) = set (remove_at i (map w_web_state ws))"
    by (simp add: map_remove_at [symmetric])
  also have "\<dots> = w_web_state ` set ws - {w_web_state (ws ! i)}"
    using i d by (simp add: set_remove_at)
  finally have img: "w_web_state ` set (remove_at i ws) = w_web_state ` set ws - {w_web_state (ws ! i)}" .
  show ?thesis unfolding openers_ok_def img
    using ok none set_remove_at_subset [of i ws] by (fastforce simp: openers_ok_def)
qed

lemma no_reference_after_clear:
  "w \<in> set (map (clear_reference p) ws) \<Longrightarrow> opener (w_opener w) \<noteq> Some p"
  by (auto simp: clear_reference_def)

lemma nth_map_clear_reference:
  "i < length ws \<Longrightarrow> w_web_state (map (clear_reference p) ws ! i) = w_web_state (ws ! i)"
  by simp

section \<open>The order controller\<close>

lemma opened_by_loop_cases:
  "opened_by_loop P is n found = found \<or> (\<exists>i \<in> set is. P i \<and> opened_by_loop P is n found = int i)"
  by (induction P "is" n found rule: opened_by_loop.induct) auto

text \<open>The index found by a search among the tabs opened by \<open>p\<close>.\<close>

lemma GetIndexOfNthWebStateOpenedBy_cases:
  assumes "0 < n"
  obtains r where "GetIndexOfNthWebStateOpenedBy e l (Some p) start g n = Inr r"
    and "r \<noteq> kInvalidIndex \<Longrightarrow>
           ContainsIndex l r \<and> r \<noteq> start \<and> opener (w_opener (web_state_wrappers l ! nat r)) = Some p"
proof (cases "ContainsIndex l start")
  case False
  show ?thesis
    by (rule that [of kInvalidIndex]) (use assms False in \<open>simp_all add: GetIndexOfNthWebStateOpenedBy_def\<close>)
next
  case True
  let ?len = "length (web_state_wrappers l)"
  let ?nav = "if g then last_committed_item_index e p else -1"
  let ?P = "\<lambda>i. WasOpenedBy (web_state_wrappers l ! i) p ?nav g"
  let ?is = "map (\<lambda>i. (nat start + i) mod ?len) [1..<?len]"
  have start: "nat start < ?len" "0 \<le> start" using True by (auto simp: ContainsIndex_iff)
  have is_ok: "i < ?len \<and> i \<noteq> nat start" if "i \<in> set ?is" for i
  proof -
    from that obtain k where k: "k \<in> set [1..<?len]" "i = (nat start + k) mod ?len"
      unfolding set_map by blast
    from k(1) have "1 \<le> k" "k < ?len" by simp_all
    then show ?thesis unfolding k(2) using start(1) by (intro conjI cyclic_index)
  qed
  have P: "\<And>i. ?P i \<Longrightarrow> opener (w_opener (web_state_wrappers l ! i)) = Some p"
    by (auto simp: WasOpenedBy_def split: if_splits)
  show ?thesis
  proof (rule that)
    show "GetIndexOfNthWebStateOpenedBy e l (Some p) start g n =
        Inr (opened_by_loop ?P ?is n kInvalidIndex)"
      using True assms by (simp add: GetIndexOfNthWebStateOpenedBy_def Let_def)
    assume "opened_by_loop ?P ?is n kInvalidIndex \<noteq> kInvalidIndex"
    then obtain i where "i \<in> set ?is" "?P i" "opened_by_loop ?P ?is n kInvalidIndex = int i"
      using opened_by_loop_cases [of ?P ?is n kInvalidIndex] by blast
    moreover from this have "i < ?len" "i \<noteq> nat start" using is_ok by blast+
    ultimately show "ContainsIndex l (opened_by_loop ?P ?is n kInvalidIndex) \<and>
        opened_by_loop ?P ?is n kInvalidIndex \<noteq> start \<and>
        opener (w_opener (web_state_wrappers l ! nat (opened_by_loop ?P ?is n kInvalidIndex))) = Some p"
      using P start by (auto simp: ContainsIndex_iff)
  qed
qed

lemma GetValidIndex_ok:
  assumes "ContainsIndex l a" and "ContainsIndex l r" and "a \<noteq> r"
  shows "\<exists>i. GetValidIndex a r = Inr i \<and> i = (if a < r then a else a - 1) \<and> 0 \<le> i \<and> i < count l - 1"
  using assms by (auto simp: GetValidIndex_def ContainsIndex_def)

lemma DetermineNewActiveIndex_ok:
  assumes rem: "ContainsIndex l r" and act: "a = kInvalidIndex \<or> ContainsIndex l a"
    and ops: "openers_ok (set (web_state_wrappers l))"
  shows "\<exists>i. DetermineNewActiveIndex e l a r = Inr i \<and>
           (i = kInvalidIndex \<and> (a = kInvalidIndex \<or> count l = 1) \<or>
            a \<noteq> kInvalidIndex \<and> 0 \<le> i \<and> i < count l - 1 \<and>
            (a \<noteq> r \<longrightarrow> i = (if a < r then a else a - 1)))"
proof -
  have ne: "kInvalidIndex \<noteq> r" using rem by (auto simp: ContainsIndex_def wsl_constants)
  consider "a = kInvalidIndex" | "a \<noteq> kInvalidIndex" "count l = 1"
    | "a \<noteq> kInvalidIndex" "count l \<noteq> 1" "a \<noteq> r" | "a \<noteq> kInvalidIndex" "count l \<noteq> 1" "a = r" by blast
  then show ?thesis
  proof cases
    case 1
    then show ?thesis using rem by (simp add: DetermineNewActiveIndex_def)
  next
    case 2
    then show ?thesis using rem act by (simp add: DetermineNewActiveIndex_def)
  next
    case 3
    then show ?thesis using rem act GetValidIndex_ok [of l a r]
      by (auto simp: DetermineNewActiveIndex_def)
  next
    case 4
    let ?w = "web_state_wrappers l ! nat r"
    have r: "0 \<le> r" "nat r < length (web_state_wrappers l)" "r < count l"
      using rem by (auto simp: ContainsIndex_def count_def)
    then have w: "?w \<in> set (web_state_wrappers l)" by simp
    obtain c where c: "GetIndexOfNextWebStateOpenedBy e l (Some (w_web_state ?w)) r False = Inr c"
      and c_ok: "c \<noteq> kInvalidIndex \<Longrightarrow> ContainsIndex l c \<and> c \<noteq> r"
      unfolding GetIndexOfNextWebStateOpenedBy_def
      by (rule GetIndexOfNthWebStateOpenedBy_cases [of 1 e l "w_web_state ?w" r False]) auto
    have at: "GetWebStateAt l r = Inr (w_web_state ?w)" "GetOpenerOfWebStateAt l r = Inr (w_opener ?w)"
      using rem by (simp_all add: GetWebStateAt_def GetWebStateWrapperAt_def GetOpenerOfWebStateAt_def)
    show ?thesis
    proof (cases "c = kInvalidIndex")
      case False
      then show ?thesis using 4 rem c c_ok at GetValidIndex_ok [of l c r]
        by (auto simp: DetermineNewActiveIndex_def)
    next
      case True
      note child = True
      show ?thesis
      proof (cases "opener (w_opener ?w)")
        case None
        then show ?thesis using 4 rem c child at r
          by (auto simp: DetermineNewActiveIndex_def)
      next
        case (Some p)
        with ops w have p: "p \<in> w_web_state ` set (web_state_wrappers l)" "p \<noteq> w_web_state ?w"
          by (auto simp: openers_ok_def)
        obtain s where s: "GetIndexOfNextWebStateOpenedBy e l (Some p) r False = Inr s"
          and s_ok: "s \<noteq> kInvalidIndex \<Longrightarrow> ContainsIndex l s \<and> s \<noteq> r"
          unfolding GetIndexOfNextWebStateOpenedBy_def
          by (rule GetIndexOfNthWebStateOpenedBy_cases [of 1 e l p r False]) auto
        show ?thesis
        proof (cases "s = kInvalidIndex")
          case False
          then show ?thesis using 4 rem c child at Some s s_ok GetValidIndex_ok [of l s r]
            by (auto simp: DetermineNewActiveIndex_def)
        next
          case True
          obtain j where j: "j < length (web_state_wrappers l)" "GetIndexOfWebState l (Some p) = int j"
            "web_states l ! j = p"
            using GetIndexOfWebState_Some [of p l] p by (auto simp: web_states_def)
          then have "ContainsIndex l (int j)" "int j \<noteq> r" "int j \<noteq> kInvalidIndex"
            using p r by (auto simp: ContainsIndex_iff w_web_state_nth wsl_constants)
          then show ?thesis using 4 rem c child at Some s True j GetValidIndex_ok [of l "int j" r]
            by (auto simp: DetermineNewActiveIndex_def Let_def)
        qed
      qed
    qed
  qed
qed

lemma DetermineInsertionIndex_ok:
  assumes "op = None \<or> op \<in> Some ` set (web_states l)" and "count l < INT_MAX"
  shows "\<exists>i. DetermineInsertionIndex e l op = Inr i \<and> 0 \<le> i \<and> i \<le> count l"
proof (cases op)
  case None
  then show ?thesis by (simp add: DetermineInsertionIndex_def count_def)
next
  case (Some p)
  with assms obtain j where j: "j < length (web_state_wrappers l)" "GetIndexOfWebState l (Some p) = int j"
    using GetIndexOfWebState_Some [of p l] by auto
  obtain c where c: "GetIndexOfLastWebStateOpenedBy e l (Some p) (int j) True = Inr c"
    and c_ok: "c \<noteq> kInvalidIndex \<Longrightarrow> ContainsIndex l c"
    unfolding GetIndexOfLastWebStateOpenedBy_def
    by (rule GetIndexOfNthWebStateOpenedBy_cases [of INT_MAX e l p "int j" True])
       (auto simp: wsl_constants)
  show ?thesis
    using Some j c c_ok assms(2)
    by (auto simp: DetermineInsertionIndex_def Let_def ContainsIndex_def count_def wsl_constants)
qed

section \<open>Every mutation keeps the invariant\<close>

lemma index_ok_simps [wsl, simp]:
  "index_ok (notify ev l) = index_ok l"
  "index_ok (tell_delegate c l) = index_ok l"
  "index_ok (l\<lparr>locked := b\<rparr>) = index_ok l"
  "index_ok (l\<lparr>batch_operation_in_progress := b\<rparr>) = index_ok l"
  by (simp_all add: index_ok_def)

lemma synced_simps [wsl, simp]:
  "synced (tell_delegate c l) = synced l"
  "synced (l\<lparr>locked := b\<rparr>) = synced l"
  "synced (l\<lparr>batch_operation_in_progress := b\<rparr>) = synced l"
  "synced (notify (WillDetachWebStateAt w i) l) = synced l"
  "synced (notify (WillCloseWebStateAt w i u) l) = synced l"
  "synced (notify WillBeginBatchOperation l) = synced l"
  "synced (notify BatchOperationEnded l) = synced l"
  by (cases "replay (wsl_trace l)"; simp add: synced_def replay_append)+

lemma wsl_inv_simps [wsl, simp]:
  "wsl_inv (tell_delegate c l) = wsl_inv l"
  "wsl_inv (l\<lparr>locked := b\<rparr>) = wsl_inv l"
  "wsl_inv (l\<lparr>batch_operation_in_progress := b\<rparr>) = wsl_inv l"
  "wsl_inv (notify (WillDetachWebStateAt w i) l) = wsl_inv l"
  "wsl_inv (notify (WillCloseWebStateAt w i u) l) = wsl_inv l"
  "wsl_inv (notify WillBeginBatchOperation l) = wsl_inv l"
  "wsl_inv (notify BatchOperationEnded l) = wsl_inv l"
  by (simp_all add: wsl_inv_def)

lemma wsl_invD:
  assumes "wsl_inv l"
  shows "distinct (web_states l)" "index_ok l" "openers_ok (set (web_state_wrappers l))" "synced l"
  using assms by (simp_all add: wsl_inv_def)

definition same_locks :: "web_state_list \<Rightarrow> web_state_list \<Rightarrow> bool" where
  "same_locks l l' \<longleftrightarrow> locked l' = locked l \<and>
     batch_operation_in_progress l' = batch_operation_in_progress l"

lemma NotifyIfActive_ok:
  "index_ok l \<Longrightarrow> NotifyIfActiveWebStateChanged l old r =
     Inr (if old = active_ws l then l
          else notify (WebStateActivatedAt old (active_ws l) (active_index l) r) l)"
  by (simp add: NotifyIfActiveWebStateChanged_def GetActiveWebState_ok)

lemma NotifyIfActive_synced:
  assumes "index_ok l" and "replay (wsl_trace l) = (web_states l, a)" and "a = old \<or> a = active_ws l"
  shows "\<exists>l'. NotifyIfActiveWebStateChanged l old r = Inr l' \<and> synced l' \<and> same_locks l l' \<and>
           web_state_wrappers l' = web_state_wrappers l \<and> active_index l' = active_index l"
  using assms by (auto simp: NotifyIfActive_ok synced_def replay_append same_locks_def)

lemma views_of_same:
  "web_state_wrappers l' = web_state_wrappers l \<Longrightarrow> active_index l' = active_index l \<Longrightarrow>
     web_states l' = web_states l \<and> active_ws l' = active_ws l \<and> index_ok l' = index_ok l \<and>
     ContainsIndex l' = ContainsIndex l"
  by (auto simp: web_states_def active_ws_def index_ok_def ContainsIndex_def count_def fun_eq_iff)

lemma web_states_update:
  "w_web_state w = w_web_state (web_state_wrappers l ! i) \<Longrightarrow>
     map w_web_state ((web_state_wrappers l)[i := w]) = web_states l"
  by (cases "i < length (web_state_wrappers l)")
     (simp_all add: web_states_def map_update list_update_same_conv list_update_beyond)

lemma ContainsIndex_wrappers:
  "length ws = length (web_state_wrappers l) \<Longrightarrow>
     ContainsIndex (l\<lparr>web_state_wrappers := ws\<rparr>) = ContainsIndex l"
  by (simp add: ContainsIndex_def count_def fun_eq_iff)

lemma active_ws_wrappers:
  "map w_web_state ws = web_states l \<Longrightarrow> active_ws (l\<lparr>web_state_wrappers := ws\<rparr>) = active_ws l"
  by (simp add: active_ws_def)

lemma wsl_inv_wrappers:
  assumes inv: "wsl_inv l" and ws: "map w_web_state ws = web_states l" and ok: "openers_ok (set ws)"
  shows "wsl_inv (l\<lparr>web_state_wrappers := ws\<rparr>)"
proof -
  from ws have len: "length ws = length (web_state_wrappers l)"
    by (metis length_map length_web_states)
  show ?thesis using inv ok ws
    by (simp add: wsl_inv_def index_ok_def synced_def ContainsIndex_wrappers [OF len]
        active_ws_wrappers [OF ws])
qed

lemma ActivateWebStateAtImpl_ok:
  assumes lk: "locked l" and inv: "wsl_inv l" and i: "ContainsIndex l i \<or> i = kInvalidIndex"
  shows "\<exists>l'. ActivateWebStateAtImpl l i r = Inr l' \<and> wsl_inv l' \<and> same_locks l l' \<and>
           web_states l' = web_states l \<and> active_index l' = i"
proof -
  note D = wsl_invD [OF inv]
  let ?a = "active_index l"
  let ?w = "web_state_wrappers l ! nat ?a"
  define ws where "ws = (if ?a \<noteq> kInvalidIndex \<and> w_should_reset_opener ?w
    then (web_state_wrappers l)[nat ?a := reset_opener ?w] else web_state_wrappers l)"
  define l1 where "l1 = l\<lparr>web_state_wrappers := ws\<rparr>"
  have ws: "map w_web_state ws = web_states l"
    by (auto simp: ws_def web_states_update web_states_def [symmetric])
  have "openers_ok (set ws)"
  proof (cases "?a \<noteq> kInvalidIndex \<and> w_should_reset_opener ?w")
    case True
    then have "nat ?a < length (web_state_wrappers l)"
      using D(2) by (auto simp: index_ok_def ContainsIndex_iff)
    then show ?thesis unfolding ws_def using D(3) True
      by (auto intro!: openers_ok_update)
  next
    case False
    then show ?thesis using D(3) by (auto simp: ws_def)
  qed
  with inv ws have inv1: "wsl_inv l1" unfolding l1_def by (intro wsl_inv_wrappers)
  let ?l2 = "l1\<lparr>active_index := i\<rparr>"
  have len: "length ws = length (web_state_wrappers l)"
    using ws by (metis length_map length_web_states)
  have ix: "index_ok ?l2"
    using i by (auto simp: index_ok_def l1_def ContainsIndex_wrappers [OF len])
  have rep: "replay (wsl_trace ?l2) = (web_states ?l2, active_ws l)"
    using wsl_invD(4) [OF inv1] by (simp add: synced_def l1_def active_ws_wrappers [OF ws])
  obtain l3 where l3: "NotifyIfActiveWebStateChanged ?l2 (active_ws l) r = Inr l3" "synced l3"
    "same_locks ?l2 l3" "web_state_wrappers l3 = web_state_wrappers ?l2"
    "active_index l3 = active_index ?l2"
    using NotifyIfActive_synced [OF ix rep] by blast
  have old: "map_option w_web_state (if ?a = kInvalidIndex then None else Some ?w) = active_ws l"
    using D(2) by (auto simp: active_ws_def index_ok_def ContainsIndex_iff w_web_state_nth)
  have "ActivateWebStateAtImpl l i r = NotifyIfActiveWebStateChanged ?l2 (active_ws l) r"
    using lk i old by (auto simp: ActivateWebStateAtImpl_def GetActiveWebStateWrapper_ok [OF D(2)]
        SetOpener_null l1_def ws_def)
  moreover have "wsl_inv l3"
    using wsl_invD [OF inv1] l3 ix views_of_same [OF l3(4,5)]
    by (auto simp: wsl_inv_def)
  ultimately show ?thesis using l3 ws
    by (auto simp: same_locks_def web_states_def l1_def)
qed

lemma Activate_wrappers:
  assumes "ActivateWebStateAtImpl l i r = Inr l'" and "index_ok l"
  shows "web_state_wrappers l' = web_state_wrappers l \<or>
    (active_index l \<noteq> kInvalidIndex \<and> web_state_wrappers l' =
       (web_state_wrappers l)[nat (active_index l) := reset_opener (web_state_wrappers l ! nat (active_index l))])"
  using assms by (auto simp: ActivateWebStateAtImpl_def obind_eq_Inr SetOpener_null GetActiveWebStateWrapper_ok
      split: if_splits option.splits dest!: NotifyIfActive_wrappers)

lemma SetOpenerOfWebStateAt_ok:
  assumes inv: "wsl_inv l" and i: "ContainsIndex l i" and op: "opener op \<in> Some ` set (web_states l)"
    and ne: "opener op \<noteq> Some (web_states l ! nat i)"
  shows "\<exists>l'. SetOpenerOfWebStateAt l i op = Inr l' \<and> wsl_inv l' \<and> same_locks l l' \<and>
           web_states l' = web_states l \<and> active_index l' = active_index l"
proof -
  let ?w = "web_state_wrappers l ! nat i"
  let ?v = "?w\<lparr>w_should_reset_opener := False, w_opener := op\<rparr>"
  have i': "nat i < length (web_state_wrappers l)" using i by (simp add: ContainsIndex_iff)
  have w: "w_web_state ?w = web_states l ! nat i" using i' by (simp add: w_web_state_nth)
  have ws: "map w_web_state ((web_state_wrappers l)[nat i := ?v]) = web_states l"
    by (rule web_states_update) simp
  have "openers_ok (set ((web_state_wrappers l)[nat i := ?v]))"
    by (rule openers_ok_update [OF wsl_invD(3) [OF inv] i'])
       (use op ne w in \<open>auto simp: web_states_def\<close>)
  then have "wsl_inv (l\<lparr>web_state_wrappers := (web_state_wrappers l)[nat i := ?v]\<rparr>)"
    by (rule wsl_inv_wrappers [OF inv ws])
  moreover have "SetOpenerOfWebStateAt l i op =
      Inr (l\<lparr>web_state_wrappers := (web_state_wrappers l)[nat i := ?v]\<rparr>)"
    using i op ne w
    by (auto simp: SetOpenerOfWebStateAt_def SetOpener_def ContainsIndex_GetIndexOfWebState)
  ultimately show ?thesis using ws by (simp add: same_locks_def)
qed

lemma MoveWebStateAtImpl_ok:
  assumes lk: "locked l" and inv: "wsl_inv l" and i: "ContainsIndex l i" and j: "ContainsIndex l j"
  shows "\<exists>l'. MoveWebStateAtImpl l i j = Inr l' \<and> wsl_inv l' \<and> same_locks l l' \<and>
           web_states l' = insert_at (nat j) (web_states l ! nat i) (remove_at (nat i) (web_states l)) \<and>
           active_ws l' = active_ws l"
proof (cases "i = j")
  case True
  have "nat i < length (web_states l)" using i by (simp add: ContainsIndex_iff)
  then show ?thesis using True lk inv i
    by (simp add: MoveWebStateAtImpl_def same_locks_def insert_at_remove_at)
next
  case False
  note D = wsl_invD [OF inv]
  let ?ws = "web_state_wrappers l" and ?a = "active_index l"
  let ?n = "length ?ws"
  have ij: "nat i < ?n" "nat j < ?n" "0 \<le> i" "0 \<le> j" using i j by (auto simp: ContainsIndex_iff)
  let ?w = "?ws ! nat i"
  define ws where "ws = insert_at (nat j) ?w (remove_at (nat i) ?ws)"
  define delta where "delta = (if i < j then -1 else 1 :: int)"
  define na where "na = (if ?a = i then j else if min i j \<le> ?a \<and> ?a \<le> max i j then ?a + delta else ?a)"
  have len: "length ws = ?n" using ij by (simp add: ws_def)
  have w: "w_web_state ?w = web_states l ! nat i" using ij by (simp add: w_web_state_nth)
  have map: "map w_web_state ws = insert_at (nat j) (web_states l ! nat i) (remove_at (nat i) (web_states l))"
    by (simp add: ws_def map_insert_at map_remove_at w web_states_def [symmetric])
  have set: "set ws = set ?ws"
    by (metis ij(1) insert_at_remove_at set_insert_at ws_def)
  have dist: "distinct (map w_web_state ws)"
    unfolding map using D(1) ij by (simp add: set_remove_at)
  have act: "na = kInvalidIndex \<and> ?a = kInvalidIndex \<or>
      0 \<le> na \<and> nat na < ?n \<and> ?a \<noteq> kInvalidIndex \<and> map w_web_state ws ! nat na = web_states l ! nat ?a"
  proof (cases "?a = kInvalidIndex")
    case True
    then show ?thesis using ij by (auto simp: na_def wsl_constants)
  next
    case False
    then have a: "0 \<le> ?a" "nat ?a < ?n" using D(2) by (auto simp: index_ok_def ContainsIndex_iff)
    have na: "0 \<le> na" "nat na < ?n" "na \<noteq> kInvalidIndex"
      using a ij \<open>i \<noteq> j\<close> by (auto simp: na_def delta_def wsl_constants)
    have "nat na = (if nat ?a = nat i then nat j else if nat i < nat ?a \<and> nat ?a \<le> nat j
        then nat ?a - 1 else if nat j \<le> nat ?a \<and> nat ?a < nat i then Suc (nat ?a) else nat ?a)"
    proof -
      consider "?a = i" | "i < ?a" "?a \<le> j" | "j \<le> ?a" "?a < i" | "?a < i" "?a < j" | "i < ?a" "j < ?a"
        by linarith
      then show ?thesis by cases (use a ij \<open>i \<noteq> j\<close> in \<open>simp_all add: na_def delta_def nat_diff_distrib nat_add_distrib nat_le_eq_zle nat_less_eq_zless eq_nat_nat_iff\<close>)
    qed
    with nth_move [of "nat i" "web_states l" "nat j" "nat ?a"] a ij
    have "map w_web_state ws ! nat na = web_states l ! nat ?a"
      unfolding map by (simp only: length_web_states)
    with na False show ?thesis by simp
  qed
  define l' where "l' = notify (WebStateMoved (w_web_state ?w) i j)
      (l\<lparr>web_state_wrappers := ws, active_index := na\<rparr>)"
  have "MoveWebStateAtImpl l i j = Inr l'"
    using lk i j False
    by (simp add: MoveWebStateAtImpl_def Let_def l'_def ws_def na_def delta_def)
  moreover have states: "web_states l' = map w_web_state ws" by (simp add: l'_def web_states_def)
  moreover have ix: "index_ok l'" using act len
    by (auto simp: index_ok_def l'_def ContainsIndex_def count_def)
  moreover have aws: "active_ws l' = active_ws l"
    using act by (auto simp: active_ws_def states) (auto simp: l'_def wsl_constants)
  moreover have "synced l'"
    using D(4) unfolding synced_def states aws
    by (simp add: l'_def replay_append map w)
  moreover have "openers_ok (set (web_state_wrappers l'))"
    using D(3) set by (simp add: l'_def)
  ultimately show ?thesis using dist map
    by (auto simp: wsl_inv_def same_locks_def l'_def)
qed

lemma ReplaceWebStateAtImpl_ok:
  assumes lk: "locked l" and inv: "wsl_inv l" and i: "ContainsIndex l i"
    and x: "x \<notin> set (web_states l)"
  shows "\<exists>l'. ReplaceWebStateAtImpl l i (Some x) = Inr (web_states l ! nat i, l') \<and> wsl_inv l' \<and>
           same_locks l l' \<and> web_states l' = (web_states l)[nat i := x] \<and>
           active_index l' = active_index l"
proof -
  note D = wsl_invD [OF inv]
  let ?ws = "web_state_wrappers l"
  let ?old = "web_states l ! nat i"
  have i': "nat i < length ?ws" "0 \<le> i" using i by (auto simp: ContainsIndex_iff)
  have w: "w_web_state (?ws ! nat i) = ?old" using i' by (simp add: w_web_state_nth)
  let ?cs = "map (clear_reference ?old) ?ws"
  let ?w = "(?cs ! nat i)\<lparr>w_web_state := x, w_opener := WebStateOpener_null\<rparr>"
  define ws where "ws = ?cs[nat i := ?w]"
  have ne: "x \<noteq> ?old" using x i' by (metis length_web_states nth_mem)
  have map: "map w_web_state ws = (web_states l)[nat i := x]"
    using i' by (simp add: ws_def map_update web_states_def)
  have "openers_ok (set ws)"
    unfolding openers_ok_def
  proof (intro ballI allI impI)
    fix v p assume v: "v \<in> set ws" and p: "opener (w_opener v) = Some p"
    have "v \<noteq> ?w" using p by (auto simp: WebStateOpener_null_def)
    with v obtain u where u: "u \<in> set ?ws" "v = clear_reference ?old u"
      unfolding ws_def using set_update_subset_insert by fastforce
    with p have "v = u" "opener (w_opener u) = Some p" "p \<noteq> ?old"
      by (auto simp: clear_reference_def split: if_splits)
    moreover from this u D(3) have "p \<in> set (web_states l)" "p \<noteq> w_web_state u"
      by (auto simp: openers_ok_def web_states_def)
    moreover have "set (web_states l) - {?old} \<subseteq> set (map w_web_state ws)"
      unfolding map by (rule set_list_update_superset)
    ultimately show "p \<in> w_web_state ` set ws \<and> p \<noteq> w_web_state v"
      by auto
  qed
  note ok = this
  have dist: "distinct (map w_web_state ws)"
    unfolding map using D(1) x by (simp add: distinct_list_update)
  define l2 where "l2 = notify (WebStateReplacedAt ?old x i)
     ((tell_delegate (WillAddWebState x) l)\<lparr>web_state_wrappers := ws\<rparr>)"
  have st: "web_states l2 = (web_states l)[nat i := x]" by (simp add: l2_def map)
  have len: "length ws = length ?ws" by (simp add: ws_def)
  have ix: "index_ok l2" using D(2) len
    by (auto simp: l2_def index_ok_def ContainsIndex_def count_def)
  have rep: "replay (wsl_trace l2) = (web_states l2, active_ws l)"
    using D(4) by (simp add: synced_def l2_def replay_append map)
  have "active_ws l = Some ?old \<or> active_ws l = active_ws l2"
    using D(2) i' by (auto simp: active_ws_def st l2_def map index_ok_def ContainsIndex_iff nth_list_update)
  then obtain l3 where l3: "NotifyIfActiveWebStateChanged l2 (Some ?old) Replaced = Inr l3" "synced l3"
    "same_locks l2 l3" "web_state_wrappers l3 = web_state_wrappers l2" "active_index l3 = active_index l2"
    using NotifyIfActive_synced [OF ix rep] by blast
  have "ReplaceWebStateAtImpl l i (Some x) = Inr (?old, tell_delegate (WebStateDetached ?old) l3)"
    using lk i i' w ne l3(1)
    by (simp add: ReplaceWebStateAtImpl_def ClearOpenersReferencing_eq ReplaceWebState_def l2_def ws_def)
  moreover have "wsl_inv l3"
    using views_of_same [OF l3(4,5)] l3 ok dist ix
    by (auto simp: wsl_inv_def st) (auto simp: l2_def map)
  ultimately show ?thesis
    using l3 st views_of_same [OF l3(4,5)] by (auto simp: same_locks_def l2_def)
qed

lemma ContainsIndex_remove_at:
  "n < length (web_state_wrappers l) \<Longrightarrow>
     length ws = length (web_state_wrappers l) \<Longrightarrow>
     ContainsIndex (l\<lparr>web_state_wrappers := remove_at n ws\<rparr>) i \<longleftrightarrow> 0 \<le> i \<and> i < count l - 1"
  by (auto simp: ContainsIndex_def count_def)

lemma DetachWebStateAtImpl_ok:
  assumes lk: "locked l" and inv: "wsl_inv l" and i: "ContainsIndex l i"
  shows "\<exists>l'. DetachWebStateAtImpl e l i = Inr (web_states l ! nat i, l') \<and> wsl_inv l' \<and>
           same_locks l l' \<and> web_states l' = remove_at (nat i) (web_states l) \<and>
           (active_index l \<noteq> i \<longrightarrow> active_ws l' = active_ws l) \<and>
           (active_index l = i \<and> count l \<noteq> 1 \<longrightarrow> active_ws l' \<noteq> None)"
proof -
  note D = wsl_invD [OF inv]
  let ?ws = "web_state_wrappers l" and ?a = "active_index l"
  let ?w = "web_states l ! nat i"
  have i': "nat i < length ?ws" "0 \<le> i" "i \<noteq> kInvalidIndex"
    using i by (auto simp: ContainsIndex_iff wsl_constants)
  have w: "w_web_state (?ws ! nat i) = ?w" using i' by (simp add: w_web_state_nth)
  let ?l1 = "notify (WillDetachWebStateAt ?w i) l"
  have D1: "?a = kInvalidIndex \<or> ContainsIndex ?l1 ?a" using D(2) by (simp add: index_ok_def)
  obtain na where na: "DetermineNewActiveIndex e ?l1 ?a i = Inr na"
    and na_ok: "na = kInvalidIndex \<and> (?a = kInvalidIndex \<or> count ?l1 = 1) \<or>
            ?a \<noteq> kInvalidIndex \<and> 0 \<le> na \<and> na < count ?l1 - 1 \<and>
            (?a \<noteq> i \<longrightarrow> na = (if ?a < i then ?a else ?a - 1))"
    using DetermineNewActiveIndex_ok [of ?l1 i ?a e] i D1 D(3) by auto
  have cnt: "count ?l1 = count l" by (simp add: count_def)
  let ?cs = "map (clear_reference ?w) ?ws"
  define ws where "ws = remove_at (nat i) ?cs"
  define l3 where "l3 = ?l1\<lparr>active_index := na, web_state_wrappers := ws\<rparr>"
  define l4 where "l4 = notify (WebStateDetachedAt ?w i) l3"
  have map: "map w_web_state ws = remove_at (nat i) (web_states l)"
    by (simp add: ws_def map_remove_at web_states_def)
  have st: "web_states l4 = remove_at (nat i) (web_states l)" by (simp add: l4_def l3_def map)
  have Contains3: "ContainsIndex l3 k \<longleftrightarrow> 0 \<le> k \<and> k < count l - 1" for k
    using i' by (auto simp: l3_def ws_def ContainsIndex_def count_def)
  have ix3: "active_index l3 = kInvalidIndex \<or> ContainsIndex l3 (active_index l3)"
    using na_ok cnt by (auto simp: Contains3) (auto simp: l3_def)
  then have ix: "index_ok l4" by (simp add: index_ok_def l4_def)
  have "openers_ok (set ?cs)" using D(3) openers_ok_clear by simp
  then have ops: "openers_ok (set ws)" unfolding ws_def
    by (rule openers_ok_remove)
       (use i' D(1) w no_reference_after_clear in \<open>auto simp: web_states_def [symmetric]\<close>)
  have dist: "distinct (web_states l4)" unfolding st using D(1) by simp
  have rep: "replay (wsl_trace l4) = (web_states l4, active_ws l)"
    using D(4) by (simp add: synced_def l4_def l3_def replay_append map)
  have aws: "active_ws l4 = active_ws l" if "?a \<noteq> i"
  proof (cases "?a = kInvalidIndex")
    case True
    then show ?thesis using na_ok by (auto simp: active_ws_def l4_def l3_def)
  next
    case False
    then have a: "0 \<le> ?a" "nat ?a < length ?ws" "?a < count l" using D(2)
      by (auto simp: index_ok_def ContainsIndex_iff count_def)
    have na': "na = (if ?a < i then ?a else ?a - 1)" "0 \<le> na" "na < count l - 1"
      using na_ok False that a i' cnt by (auto simp: count_def ContainsIndex_def)
    then have "remove_at (nat i) (web_states l) ! nat na = web_states l ! nat ?a"
      using a i' that by (cases "?a < i") (auto simp: nth_remove_at nat_diff_distrib count_def)
    moreover have "na \<noteq> kInvalidIndex" using na' by (auto simp: wsl_constants)
    ultimately show ?thesis using False st by (simp add: active_ws_def) (simp add: l4_def l3_def)
  qed
  have fin: "\<exists>l5. (if i = ?a then NotifyIfActiveWebStateChanged l4 (Some ?w) Closed else Inr l4) = Inr l5 \<and>
      synced l5 \<and> same_locks l4 l5 \<and> web_state_wrappers l5 = web_state_wrappers l4 \<and>
      active_index l5 = active_index l4"
  proof (cases "i = ?a")
    case True
    then have "active_ws l = Some ?w" using i' by (simp add: active_ws_def)
    with NotifyIfActive_synced [OF ix rep, of "Some ?w" Closed] True show ?thesis by simp
  next
    case False
    then have "synced l4" using rep aws by (auto simp: synced_def)
    then show ?thesis using False by (simp add: same_locks_def)
  qed
  then obtain l5 where l5: "(if i = ?a then NotifyIfActiveWebStateChanged l4 (Some ?w) Closed else Inr l4) = Inr l5"
    "synced l5" "same_locks l4 l5" "web_state_wrappers l5 = web_state_wrappers l4"
    "active_index l5 = active_index l4" by blast
  have "ClearOpenersReferencing (?l1\<lparr>active_index := na\<rparr>) i =
      Inr (?l1\<lparr>active_index := na, web_state_wrappers := ?cs\<rparr>)"
    by (simp add: ClearOpenersReferencing_eq w)
  then have "DetachWebStateAtImpl e l i = Inr (?w, tell_delegate (WebStateDetached ?w) l5)"
    using lk i w na l5(1) ix3
    by (cases "i = ?a") (simp_all add: DetachWebStateAtImpl_def Let_def l4_def l3_def ws_def)
  moreover have "wsl_inv (tell_delegate (WebStateDetached ?w) l5)"
    using views_of_same [OF l5(4,5)] l5(2) dist ix ops
    by (simp add: wsl_inv_def l5(4)) (simp add: l4_def l3_def)
  moreover have "?a = i \<and> count l \<noteq> 1 \<longrightarrow> active_ws l4 \<noteq> None"
    using na_ok cnt i' by (auto simp: active_ws_def l4_def l3_def wsl_constants)
  ultimately show ?thesis
    using views_of_same [OF l5(4,5)] l5(3) st aws
    by (auto simp: same_locks_def l4_def l3_def)
qed

lemma CloseWebStateAtImpl_ok:
  assumes "locked l" and "wsl_inv l" and "ContainsIndex l i"
  shows "\<exists>l'. CloseWebStateAtImpl e l i f = Inr l' \<and> wsl_inv l' \<and> same_locks l l' \<and>
           web_states l' = remove_at (nat i) (web_states l) \<and>
           (active_index l \<noteq> i \<longrightarrow> active_ws l' = active_ws l)"
proof -
  obtain l' where "DetachWebStateAtImpl e l i = Inr (web_states l ! nat i, l')" "wsl_inv l'"
    "same_locks l l'" "web_states l' = remove_at (nat i) (web_states l)"
    "active_index l \<noteq> i \<longrightarrow> active_ws l' = active_ws l"
    using DetachWebStateAtImpl_ok [OF assms] by blast
  with assms(1) show ?thesis by (simp add: CloseWebStateAtImpl_def Let_def same_locks_def)
qed

lemma close_from_last_ok:
  "locked l \<Longrightarrow> wsl_inv l \<Longrightarrow>
     \<exists>l'. close_from_last e f l = Inr l' \<and> wsl_inv l' \<and> same_locks l l' \<and> web_states l' = []"
proof (induction e f l rule: close_from_last.induct)
  case (1 e f l)
  show ?case
  proof (cases "wsl_empty l")
    case True
    then show ?thesis using "1.prems"
      by (subst close_from_last.simps) (auto simp: same_locks_def wsl_empty_def web_states_def)
  next
    case False
    then have "ContainsIndex l (count l - 1)"
      by (cases "web_state_wrappers l") (auto simp: ContainsIndex_def count_def wsl_empty_def)
    with "1.prems" obtain l1 where l1: "CloseWebStateAtImpl e l (count l - 1) f = Inr l1"
      "wsl_inv l1" "same_locks l l1"
      using CloseWebStateAtImpl_ok by blast
    then have "locked l1" using "1.prems" by (simp add: same_locks_def)
    with "1.IH" [OF False l1(1)] l1 show ?thesis using False
      by (subst close_from_last.simps) (auto simp: same_locks_def)
  qed
qed

lemma CloseAllWebStatesImpl_ok:
  assumes lk: "locked l" and b: "\<not> batch_operation_in_progress l" and inv: "wsl_inv l"
  shows "\<exists>l'. CloseAllWebStatesImpl e l f = Inr l' \<and> wsl_inv l' \<and> same_locks l l' \<and> web_states l' = []"
proof -
  let ?l1 = "notify WillBeginBatchOperation (l\<lparr>batch_operation_in_progress := True\<rparr>)"
  obtain l2 where l2: "ActivateWebStateAtImpl ?l1 kInvalidIndex Closed = Inr l2" "wsl_inv l2"
    "same_locks ?l1 l2"
    using ActivateWebStateAtImpl_ok [of ?l1 kInvalidIndex Closed] lk inv by auto
  then have "locked l2" using lk by (simp add: same_locks_def)
  then obtain l3 where l3: "close_from_last e f l2 = Inr l3" "wsl_inv l3" "same_locks l2 l3"
    "web_states l3 = []"
    using close_from_last_ok l2(2) by blast
  show ?thesis using lk b l2 l3
    by (simp add: CloseAllWebStatesImpl_def PerformBatchOperation_def Let_def same_locks_def)
qed

text \<open>The first stage of an insertion: which opener the new tab gets.\<close>

lemma insert_inherit_ok:
  assumes inv: "wsl_inv l"
    and inh: "IsInsertionFlagSet f INSERT_INHERIT_OPENER"
  shows "\<exists>l1. insertion_opener e l f op = Inr (l1, WebStateOpener_of e (active_ws l)) \<and> wsl_inv l1 \<and> same_locks l l1 \<and>
                web_states l1 = web_states l \<and> active_index l1 = active_index l \<and>
                (\<forall>w \<in> set (web_state_wrappers l1). opener (w_opener w) = None)"
proof -
  let ?ws = "map reset_opener (web_state_wrappers l)"
  let ?l1 = "l\<lparr>web_state_wrappers := ?ws\<rparr>"
  have ws: "map w_web_state ?ws = web_states l" by (simp add: web_states_def)
  have "omap (\<lambda>w. SetOpener w WebStateOpener_null) (web_state_wrappers l) = Inr ?ws"
    by (rule omap_Inr) (rule SetOpener_null)
  moreover have inv1: "wsl_inv ?l1"
    by (rule wsl_inv_wrappers [OF inv ws]) (simp add: openers_ok_reset)
  moreover have "GetActiveWebState ?l1 = Inr (active_ws l)"
    using GetActiveWebState_ok [OF wsl_invD(2) [OF inv1]] by (simp add: active_ws_wrappers [OF ws])
  ultimately show ?thesis using inh
    by (intro exI [of _ ?l1]) (simp add: same_locks_def web_states_def insertion_opener_def)
qed

lemma active_ws_in_list: "wsl_inv l \<Longrightarrow> active_ws l \<noteq> None \<Longrightarrow> active_ws l \<in> Some ` set (web_states l)"
  by (auto simp: active_ws_def wsl_inv_def index_ok_def ContainsIndex_iff split: if_splits)

text \<open>The second stage: the vector insertion at the chosen index.\<close>

lemma insert_stage_ok:
  fixes act :: bool
  assumes inv: "wsl_inv l" and k: "0 \<le> k" "k \<le> count l" and x: "x \<notin> set (web_states l)"
    and w: "w_web_state w = x" "opener (w_opener w) = None"
  defines "l4 \<equiv> notify (WebStateInsertedAt x k act)
     ((tell_delegate (WillAddWebState x) l)\<lparr>
        web_state_wrappers := insert_at (nat k) w (web_state_wrappers l),
        active_index := (if k \<le> active_index l then active_index l + 1 else active_index l)\<rparr>)"
  shows "wsl_inv l4" "same_locks l l4" "web_states l4 = insert_at (nat k) x (web_states l)"
    "active_ws l4 = active_ws l" "ContainsIndex l4 k"
proof -
  note D = wsl_invD [OF inv]
  let ?a = "active_index l"
  have k': "nat k \<le> length (web_state_wrappers l)" using k by (simp add: count_def)
  show st: "web_states l4 = insert_at (nat k) x (web_states l)"
    by (simp add: l4_def map_insert_at w web_states_def)
  show "same_locks l l4" by (simp add: same_locks_def l4_def)
  show "ContainsIndex l4 k" using k by (simp add: ContainsIndex_def count_def l4_def)
  have ix: "index_ok l4 \<and> active_ws l4 = active_ws l"
  proof (cases "?a = kInvalidIndex")
    case True
    then show ?thesis using k by (simp add: index_ok_def active_ws_def l4_def wsl_constants)
  next
    case False
    then have a: "0 \<le> ?a" "nat ?a < length (web_state_wrappers l)" using D(2)
      by (auto simp: index_ok_def ContainsIndex_iff)
    have "insert_at (nat k) x (web_states l) ! nat (if k \<le> ?a then ?a + 1 else ?a) = web_states l ! nat ?a"
    proof (cases "k \<le> ?a")
      case True
      then have "\<not> nat ?a + 1 < nat k" "nat ?a + 1 \<noteq> nat k" using k by auto
      then show ?thesis using True a k' by (simp add: nth_insert_at nat_add_distrib)
    next
      case False
      then show ?thesis using a k' by (simp add: nth_insert_at)
    qed
    moreover have "active_index l4 = (if k \<le> ?a then ?a + 1 else ?a)" by (simp add: l4_def)
    moreover have "(if k \<le> ?a then ?a + 1 else ?a) \<noteq> kInvalidIndex" using a by (simp add: wsl_constants)
    moreover have "ContainsIndex l4 (if k \<le> ?a then ?a + 1 else ?a)"
      using a k' by (auto simp: ContainsIndex_def count_def l4_def)
    ultimately show ?thesis using False by (simp add: active_ws_def st index_ok_def)
  qed
  then show aws: "active_ws l4 = active_ws l" ..
  have "synced l4"
    using D(4) unfolding synced_def st aws by (simp add: l4_def replay_append)
  moreover have "openers_ok (set (web_state_wrappers l4))"
    using D(3) w by (simp add: l4_def openers_ok_insert_null)
  moreover have "distinct (web_states l4)" unfolding st using D(1) x by simp
  ultimately show "wsl_inv l4" using ix by (simp add: wsl_inv_def)
qed

text \<open>The third stage: opener and activation.\<close>

lemma insert_finish_ok:
  assumes inv: "wsl_inv l" and lk: "locked l" and k: "ContainsIndex l k"
    and op: "opener op = None \<or> opener op \<in> Some ` set (web_states l)"
    and ne: "opener op \<noteq> Some (web_states l ! nat k)"
  shows "\<exists>l'. obind (if opener op \<noteq> None then SetOpenerOfWebStateAt l k op else Inr l) (\<lambda>l5.
        if act then ActivateWebStateAtImpl l5 k Inserted else Inr l5)
      = Inr l' \<and> wsl_inv l' \<and> same_locks l l' \<and> web_states l' = web_states l \<and>
        active_ws l' = (if act then Some (web_states l ! nat k) else active_ws l)"
proof -
  have "\<exists>l5. (if opener op \<noteq> None then SetOpenerOfWebStateAt l k op else Inr l) = Inr l5 \<and> wsl_inv l5 \<and>
      same_locks l l5 \<and> web_states l5 = web_states l \<and> active_index l5 = active_index l"
    using SetOpenerOfWebStateAt_ok [OF inv k _ ne] op inv by (auto simp: same_locks_def)
  then obtain l5 where l5: "(if opener op \<noteq> None then SetOpenerOfWebStateAt l k op else Inr l) = Inr l5"
    "wsl_inv l5" "same_locks l l5" "web_states l5 = web_states l" "active_index l5 = active_index l"
    by blast
  have k5: "ContainsIndex l5 k" "locked l5" "active_ws l5 = active_ws l" "k \<noteq> kInvalidIndex"
    using k lk l5 by (auto simp: ContainsIndex_def count_eq same_locks_def active_ws_def wsl_constants)
  show ?thesis
  proof (cases act)
    case True
    obtain l6 where "ActivateWebStateAtImpl l5 k Inserted = Inr l6" "wsl_inv l6" "same_locks l5 l6"
      "web_states l6 = web_states l5" "active_index l6 = k"
      using ActivateWebStateAtImpl_ok [of l5 k Inserted] k5 l5(2) by blast
    then show ?thesis using True l5 k5 by (simp add: same_locks_def active_ws_def)
  next
    case False
    then show ?thesis using l5 k5 by simp
  qed
qed

lemma insertion_opener_ok:
  assumes inv: "wsl_inv l"
    and op: "\<not> IsInsertionFlagSet f INSERT_INHERIT_OPENER \<Longrightarrow>
               opener op = None \<or> opener op \<in> Some ` set (web_states l)"
  shows "\<exists>l1 op1. insertion_opener e l f op = Inr (l1, op1) \<and> wsl_inv l1 \<and> same_locks l l1 \<and>
      web_states l1 = web_states l \<and> active_index l1 = active_index l \<and>
      (opener op1 = None \<or> opener op1 \<in> Some ` set (web_states l))"
proof (cases "IsInsertionFlagSet f INSERT_INHERIT_OPENER")
  case True
  have "opener (WebStateOpener_of e (active_ws l)) = None \<or>
      opener (WebStateOpener_of e (active_ws l)) \<in> Some ` set (web_states l)"
    using active_ws_in_list [OF inv] by (cases "active_ws l") (simp_all add: WebStateOpener_of_def)
  then show ?thesis using insert_inherit_ok [OF inv True, of e op] by auto
next
  case False
  then show ?thesis using op inv by (simp add: same_locks_def insertion_opener_def)
qed

lemma insertion_index_ok:
  assumes "opener op = None \<or> opener op \<in> Some ` set (web_states l)" and "count l < INT_MAX"
    and "IsInsertionFlagSet f INSERT_FORCE_INDEX \<Longrightarrow> 0 \<le> i \<and> i \<le> count l"
  shows "\<exists>k. insertion_index e l i f op = Inr k \<and> 0 \<le> k \<and> k \<le> count l \<and>
           (IsInsertionFlagSet f INSERT_FORCE_INDEX \<longrightarrow> k = i)"
  using DetermineInsertionIndex_ok [OF assms(1,2), of e] assms(3)
  by (auto simp: insertion_index_def)

lemma insertion_place_ok:
  assumes lk: "locked l" and inv: "wsl_inv l" and x: "x \<notin> set (web_states l)"
    and k: "0 \<le> k" "k \<le> count l"
    and op: "opener op = None \<or> opener op \<in> Some ` set (web_states l)"
  shows "\<exists>l'. insertion_place l k x f op = Inr l' \<and> wsl_inv l' \<and> same_locks l l' \<and>
           web_states l' = insert_at (nat k) x (web_states l) \<and>
           active_ws l' = (if IsInsertionFlagSet f INSERT_ACTIVATE then Some x else active_ws l)"
proof -
  let ?act = "IsInsertionFlagSet f INSERT_ACTIVATE"
  let ?inh = "IsInsertionFlagSet f INSERT_INHERIT_OPENER"
  let ?w = "(new_wrapper x)\<lparr>w_should_reset_opener := ?inh\<rparr>"
  define l4 where "l4 = notify (WebStateInsertedAt x k ?act)
     ((tell_delegate (WillAddWebState x) l)\<lparr>
        web_state_wrappers := insert_at (nat k) ?w (web_state_wrappers l),
        active_index := (if k \<le> active_index l then active_index l + 1 else active_index l)\<rparr>)"
  have w: "w_web_state ?w = x" "opener (w_opener ?w) = None"
    by (simp_all add: new_wrapper_def WebStateOpener_null_def)
  note I = insert_stage_ok [OF inv k x w, of ?act, folded l4_def]
  have nth: "web_states l4 ! nat k = x" unfolding I(3) using k by (simp add: nth_insert_at count_eq)
  have lk4: "locked l4" using I(2) lk by (simp add: same_locks_def)
  have op4: "opener op = None \<or> opener op \<in> Some ` set (web_states l4)"
    "opener op \<noteq> Some (web_states l4 ! nat k)"
    using op x unfolding nth unfolding I(3) by auto
  obtain l' where l': "obind (if opener op \<noteq> None then SetOpenerOfWebStateAt l4 k op else Inr l4) (\<lambda>l5.
        if ?act then ActivateWebStateAtImpl l5 k Inserted else Inr l5) = Inr l'"
      "wsl_inv l'" "same_locks l4 l'" "web_states l' = web_states l4"
      "active_ws l' = (if ?act then Some (web_states l4 ! nat k) else active_ws l4)"
    using insert_finish_ok [OF I(1) lk4 I(5) op4, of ?act] by blast
  have kk: "ContainsIndex l k \<or> k = count l" using k by (auto simp: ContainsIndex_def)
  have "insertion_place l k x f op = Inr l'"
    unfolding insertion_place_def Let_def tell_delegate_frame(1,2) l4_def [symmetric]
    using kk l'(1) by simp
  then show ?thesis using l' I nth by (auto simp: same_locks_def)
qed

lemma InsertWebStateImpl_ok:
  assumes lk: "locked l" and inv: "wsl_inv l" and x: "x \<notin> set (web_states l)"
    and cnt: "count l < INT_MAX"
    and force: "IsInsertionFlagSet f INSERT_FORCE_INDEX \<Longrightarrow> 0 \<le> i \<and> i \<le> count l"
    and op: "\<not> IsInsertionFlagSet f INSERT_INHERIT_OPENER \<Longrightarrow>
               opener op = None \<or> opener op \<in> Some ` set (web_states l)"
  shows "\<exists>k l'. InsertWebStateImpl e l i (Some x) f op = Inr (k, l') \<and> wsl_inv l' \<and> same_locks l l' \<and>
           0 \<le> k \<and> k \<le> count l \<and> (IsInsertionFlagSet f INSERT_FORCE_INDEX \<longrightarrow> k = i) \<and>
           web_states l' = insert_at (nat k) x (web_states l) \<and>
           active_ws l' = (if IsInsertionFlagSet f INSERT_ACTIVATE then Some x else active_ws l)"
proof -
  obtain l1 op1 where first: "insertion_opener e l f op = Inr (l1, op1)"
    and l1: "wsl_inv l1" "same_locks l l1" "web_states l1 = web_states l" "active_index l1 = active_index l"
    and op1: "opener op1 = None \<or> opener op1 \<in> Some ` set (web_states l1)"
    using insertion_opener_ok [OF inv op, of f e] by auto
  have c1: "count l1 = count l" "active_ws l1 = active_ws l" using l1 by (simp_all add: count_eq active_ws_def)
  obtain k where second: "insertion_index e l1 i f op1 = Inr k"
    and k: "0 \<le> k" "k \<le> count l1" "IsInsertionFlagSet f INSERT_FORCE_INDEX \<longrightarrow> k = i"
    using insertion_index_ok [OF op1, of f i e] cnt force c1 by auto
  have lk1: "locked l1" using l1(2) lk by (simp add: same_locks_def)
  have "x \<notin> set (web_states l1)" using x l1(3) by simp
  from insertion_place_ok [OF lk1 l1(1) this k(1,2) op1, of f] obtain l' where
    third: "insertion_place l1 k x f op1 = Inr l'" and l': "wsl_inv l'" "same_locks l1 l'"
    "web_states l' = insert_at (nat k) x (web_states l1)"
    "active_ws l' = (if IsInsertionFlagSet f INSERT_ACTIVATE then Some x else active_ws l1)" by blast
  have "InsertWebStateImpl e l i (Some x) f op = Inr (k, l')"
    using lk first second third by (simp add: InsertWebStateImpl_def)
  then show ?thesis using l' k c1 l1 by (auto simp: same_locks_def)
qed

section \<open>The public mutators keep the invariant\<close>

lemma LockForMutation_idle: "\<not> locked l \<Longrightarrow> LockForMutation l = Inr (l\<lparr>locked := True\<rparr>)"
  by (simp add: LockForMutation_def)

lemma Unlock_views [simp]:
  "wsl_inv (Unlock l) = wsl_inv l" "web_states (Unlock l) = web_states l"
  "active_ws (Unlock l) = active_ws l" "active_index (Unlock l) = active_index l"
  "web_state_wrappers (Unlock l) = web_state_wrappers l" "wsl_trace (Unlock l) = wsl_trace l"
  "\<not> locked (Unlock l)" "batch_operation_in_progress (Unlock l) = batch_operation_in_progress l"
  by (simp_all add: Unlock_def)

lemma count_locked [simp]: "count (l\<lparr>locked := b\<rparr>) = count l"
  by (simp add: count_def)

lemma idle_unlock: "same_locks (l\<lparr>locked := True\<rparr>) l' \<Longrightarrow> wsl_idle l \<Longrightarrow> wsl_idle (Unlock l')"
  by (simp add: same_locks_def wsl_idle_def)

lemma InsertWebState_ok:
  assumes inv: "wsl_inv l" and idle: "wsl_idle l" and ok: "wsl_ok l (Op_InsertWebState i (Some x) f op)"
  shows "\<exists>k l'. InsertWebState e l i (Some x) f op = Inr (k, l') \<and> wsl_inv l' \<and> wsl_idle l' \<and>
           0 \<le> k \<and> k \<le> count l \<and> (IsInsertionFlagSet f INSERT_FORCE_INDEX \<longrightarrow> k = i) \<and>
           web_states l' = insert_at (nat k) x (web_states l) \<and>
           active_ws l' = (if IsInsertionFlagSet f INSERT_ACTIVATE then Some x else active_ws l)"
proof -
  have lk: "\<not> locked l" using idle by (simp add: wsl_idle_def)
  let ?l = "l\<lparr>locked := True\<rparr>"
  have prem: "locked ?l" "wsl_inv ?l" "x \<notin> set (web_states ?l)" "count ?l < INT_MAX"
    "IsInsertionFlagSet f INSERT_FORCE_INDEX \<Longrightarrow> 0 \<le> i \<and> i \<le> count ?l"
    "\<not> IsInsertionFlagSet f INSERT_INHERIT_OPENER \<Longrightarrow>
       opener op = None \<or> opener op \<in> Some ` set (web_states ?l)"
    using inv ok by simp_all
  from InsertWebStateImpl_ok [where e = e, OF prem] obtain k l' where
    "InsertWebStateImpl e ?l i (Some x) f op = Inr (k, l')" "wsl_inv l'" "same_locks ?l l'"
    "0 \<le> k" "k \<le> count l" "IsInsertionFlagSet f INSERT_FORCE_INDEX \<longrightarrow> k = i"
    "web_states l' = insert_at (nat k) x (web_states l)"
    "active_ws l' = (if IsInsertionFlagSet f INSERT_ACTIVATE then Some x else active_ws l)"
    unfolding active_ws_simps count_locked web_states_simps by blast
  then show ?thesis using LockForMutation_idle [OF lk] idle_unlock [OF _ idle]
    by (simp add: InsertWebState_def)
qed

lemma MoveWebStateAt_ok:
  assumes inv: "wsl_inv l" and idle: "wsl_idle l" and ij: "ContainsIndex l i" "ContainsIndex l j"
  shows "\<exists>l'. MoveWebStateAt l i j = Inr l' \<and> wsl_inv l' \<and> wsl_idle l' \<and>
           web_states l' = insert_at (nat j) (web_states l ! nat i) (remove_at (nat i) (web_states l)) \<and>
           active_ws l' = active_ws l"
proof -
  have lk: "\<not> locked l" using idle by (simp add: wsl_idle_def)
  obtain l' where "MoveWebStateAtImpl (l\<lparr>locked := True\<rparr>) i j = Inr l'" "wsl_inv l'"
    "same_locks (l\<lparr>locked := True\<rparr>) l'" "active_ws l' = active_ws l"
    "web_states l' = insert_at (nat j) (web_states l ! nat i) (remove_at (nat i) (web_states l))"
    using MoveWebStateAtImpl_ok [of "l\<lparr>locked := True\<rparr>" i j] inv ij by auto
  then show ?thesis using LockForMutation_idle [OF lk] idle_unlock [OF _ idle]
    by (simp add: MoveWebStateAt_def)
qed

lemma ReplaceWebStateAt_ok:
  assumes inv: "wsl_inv l" and idle: "wsl_idle l" and i: "ContainsIndex l i" and x: "x \<notin> set (web_states l)"
  shows "\<exists>l'. ReplaceWebStateAt l i (Some x) = Inr (web_states l ! nat i, l') \<and> wsl_inv l' \<and>
           wsl_idle l' \<and> web_states l' = (web_states l)[nat i := x] \<and> active_index l' = active_index l"
proof -
  have lk: "\<not> locked l" using idle by (simp add: wsl_idle_def)
  obtain l' where "ReplaceWebStateAtImpl (l\<lparr>locked := True\<rparr>) i (Some x) = Inr (web_states l ! nat i, l')"
    "wsl_inv l'" "same_locks (l\<lparr>locked := True\<rparr>) l'" "active_index l' = active_index l"
    "web_states l' = (web_states l)[nat i := x]"
    using ReplaceWebStateAtImpl_ok [of "l\<lparr>locked := True\<rparr>" i x] inv i x by auto
  then show ?thesis using LockForMutation_idle [OF lk] idle_unlock [OF _ idle]
    by (simp add: ReplaceWebStateAt_def)
qed

lemma DetachWebStateAt_ok:
  assumes inv: "wsl_inv l" and idle: "wsl_idle l" and i: "ContainsIndex l i"
  shows "\<exists>l'. DetachWebStateAt e l i = Inr (web_states l ! nat i, l') \<and> wsl_inv l' \<and> wsl_idle l' \<and>
           web_states l' = remove_at (nat i) (web_states l) \<and>
           (active_index l \<noteq> i \<longrightarrow> active_ws l' = active_ws l) \<and>
           (active_index l = i \<and> count l \<noteq> 1 \<longrightarrow> active_ws l' \<noteq> None)"
proof -
  have lk: "\<not> locked l" using idle by (simp add: wsl_idle_def)
  obtain l' where "DetachWebStateAtImpl e (l\<lparr>locked := True\<rparr>) i = Inr (web_states l ! nat i, l')"
    "wsl_inv l'" "same_locks (l\<lparr>locked := True\<rparr>) l'" "web_states l' = remove_at (nat i) (web_states l)"
    "active_index l \<noteq> i \<longrightarrow> active_ws l' = active_ws l"
    "active_index l = i \<and> count l \<noteq> 1 \<longrightarrow> active_ws l' \<noteq> None"
    using DetachWebStateAtImpl_ok [of "l\<lparr>locked := True\<rparr>" i e] inv i by auto
  then show ?thesis using LockForMutation_idle [OF lk] idle_unlock [OF _ idle]
    by (simp add: DetachWebStateAt_def)
qed

lemma CloseWebStateAt_ok:
  assumes inv: "wsl_inv l" and idle: "wsl_idle l" and i: "ContainsIndex l i"
  shows "\<exists>l'. CloseWebStateAt e l i f = Inr l' \<and> wsl_inv l' \<and> wsl_idle l' \<and>
           web_states l' = remove_at (nat i) (web_states l)"
proof -
  have lk: "\<not> locked l" using idle by (simp add: wsl_idle_def)
  obtain l' where "CloseWebStateAtImpl e (l\<lparr>locked := True\<rparr>) i f = Inr l'"
    "wsl_inv l'" "same_locks (l\<lparr>locked := True\<rparr>) l'" "web_states l' = remove_at (nat i) (web_states l)"
    using CloseWebStateAtImpl_ok [of "l\<lparr>locked := True\<rparr>" i e f] inv i by auto
  then show ?thesis using LockForMutation_idle [OF lk] idle_unlock [OF _ idle]
    by (simp add: CloseWebStateAt_def)
qed

lemma CloseAllWebStates_ok:
  assumes inv: "wsl_inv l" and idle: "wsl_idle l"
  shows "\<exists>l'. CloseAllWebStates e l f = Inr l' \<and> wsl_inv l' \<and> wsl_idle l' \<and> web_states l' = []"
proof -
  have lk: "\<not> locked l" "\<not> batch_operation_in_progress l" using idle by (simp_all add: wsl_idle_def)
  obtain l' where "CloseAllWebStatesImpl e (l\<lparr>locked := True\<rparr>) f = Inr l'"
    "wsl_inv l'" "same_locks (l\<lparr>locked := True\<rparr>) l'" "web_states l' = []"
    using CloseAllWebStatesImpl_ok [of "l\<lparr>locked := True\<rparr>" e f] inv lk by auto
  then show ?thesis using LockForMutation_idle [OF lk(1)] idle_unlock [OF _ idle]
    by (simp add: CloseAllWebStates_def)
qed

lemma ActivateWebStateAt_ok:
  assumes inv: "wsl_inv l" and idle: "wsl_idle l" and i: "ContainsIndex l i"
  shows "\<exists>l'. ActivateWebStateAt l i = Inr l' \<and> wsl_inv l' \<and> wsl_idle l' \<and>
           web_states l' = web_states l \<and> active_index l' = i"
proof -
  have lk: "\<not> locked l" using idle by (simp add: wsl_idle_def)
  obtain l' where "ActivateWebStateAtImpl (l\<lparr>locked := True\<rparr>) i Activated = Inr l'"
    "wsl_inv l'" "same_locks (l\<lparr>locked := True\<rparr>) l'" "web_states l' = web_states l" "active_index l' = i"
    using ActivateWebStateAtImpl_ok [of "l\<lparr>locked := True\<rparr>" i Activated] inv i by auto
  then show ?thesis using LockForMutation_idle [OF lk] idle_unlock [OF _ idle] i
    by (simp add: ActivateWebStateAt_def)
qed

lemma wsl_step_safe:
  assumes inv: "wsl_inv l" and idle: "wsl_idle l" and ok: "wsl_ok l x"
  shows "\<exists>l'. wsl_step e l x = Inr l' \<and> wsl_inv l' \<and> wsl_idle l'"
proof (cases x)
  case (Op_InsertWebState i w f op)
  with ok obtain y where "w = Some y" by (auto split: option.splits)
  with Op_InsertWebState InsertWebState_ok [OF inv idle, of i y f op e] ok show ?thesis by fastforce
next
  case (Op_MoveWebStateAt i j)
  then show ?thesis using MoveWebStateAt_ok [OF inv idle, of i j] ok by auto
next
  case (Op_ReplaceWebStateAt i w)
  with ok obtain y where "w = Some y" by (auto split: option.splits)
  with Op_ReplaceWebStateAt ReplaceWebStateAt_ok [OF inv idle, of i y] ok show ?thesis by auto
next
  case (Op_DetachWebStateAt i)
  then show ?thesis using DetachWebStateAt_ok [OF inv idle, of i e] ok by auto
next
  case (Op_CloseWebStateAt i f)
  then show ?thesis using CloseWebStateAt_ok [OF inv idle, of i e f] ok by auto
next
  case (Op_CloseAllWebStates f)
  then show ?thesis using CloseAllWebStates_ok [OF inv idle, of e f] by auto
next
  case (Op_ActivateWebStateAt i)
  then show ?thesis using ActivateWebStateAt_ok [OF inv idle, of i] ok by auto
next
  case (Op_SetOpenerOfWebStateAt i op)
  then show ?thesis using SetOpenerOfWebStateAt_ok [OF inv, of i op] ok idle
    by (auto simp: wsl_idle_def same_locks_def)
qed

interpretation wsl_machine: checked_machine "wsl_step e" wsl_ok "\<lambda>l. wsl_inv l \<and> wsl_idle l"
  for e
  by unfold_locales (use wsl_step_safe in blast)

lemma new_web_state_list_inv: "wsl_inv new_web_state_list" "wsl_idle new_web_state_list"
  by (simp_all add: wsl_inv_def wsl_idle_def new_web_state_list_def web_states_def index_ok_def
      openers_ok_def synced_def active_ws_def)

end
