(* ===== verification/Web_State_List_Order.thy ===== *)
theory Web_State_List_Order
  imports Web_State_List_Inv
begin

text \<open>
  What the order controller (\<open>web_state_list_order_controller.mm\<close>) computes.  The searches
  of \<open>GetIndexOfNthWebStateOpenedBy\<close> are filters over the tabs in cyclic order
  (\<open>opened_after\<close>, \<open>group_after\<close>); the tab that becomes active when the active tab is
  removed is \<open>heir\<close>; a tab inserted without a forced index goes behind its opener's last
  child (\<open>insertion_slot\<close>).
\<close>

section \<open>The searches among the tabs opened by a tab\<close>

lemma opened_by_loop_filter:
  "0 < n \<Longrightarrow> opened_by_loop P is n found =
     (case filter P is of [] \<Rightarrow> found
      | ks \<Rightarrow> int (ks ! (min (nat n) (length ks) - 1)))"
proof (induction "is" arbitrary: n found)
  case Nil
  then show ?case by simp
next
  case (Cons i "is")
  show ?case
  proof (cases "P i \<and> n \<noteq> 1")
    case True
    with Cons.prems have n: "0 < n - 1" "nat n = Suc (nat (n - 1))" by simp_all
    show ?thesis
    proof (cases "filter P is")
      case Nil
      then show ?thesis using True Cons.IH [OF n(1)] by simp
    next
      case (Cons k ks)
      then show ?thesis using True Cons.IH [OF n(1), of "int i"] n
        by (auto simp: min_def nth_Cons' )
    qed
  next
    case False
    then show ?thesis using Cons by (cases "P i") (auto split: list.splits)
  qed
qed

lemma cyclic_indices:
  assumes "s < n"
  shows "map (\<lambda>i. (s + i) mod n) [1..<n] = [Suc s..<n] @ [0..<s]"
proof (rule nth_equalityI)
  show "length (map (\<lambda>i. (s + i) mod n) [1..<n]) = length ([Suc s..<n] @ [0..<s])"
    using assms by simp
  fix i assume "i < length (map (\<lambda>i. (s + i) mod n) [1..<n])"
  then have i: "i < n - 1" by simp
  show "map (\<lambda>i. (s + i) mod n) [1..<n] ! i = ([Suc s..<n] @ [0..<s]) ! i"
  proof (cases "s + Suc i < n")
    case True
    then have "i < n - Suc s" by simp
    then show ?thesis using i True by (simp add: nth_append)
  next
    case False
    then have "(s + Suc i) mod n = s + Suc i - n" using assms i by (simp add: le_mod_geq)
    moreover have "\<not> i < n - Suc s" using False by simp
    ultimately show ?thesis using False i assms by (simp add: nth_append add.commute)
  qed
qed

text \<open>The tabs opened by \<open>p\<close>, in the cyclic order that starts after the index \<open>s\<close>.\<close>

definition opened_after :: "web_state_list \<Rightarrow> wsid \<Rightarrow> nat \<Rightarrow> nat list" where
  "opened_after l p s =
     filter (\<lambda>k. opener (w_opener (web_state_wrappers l ! k)) = Some p)
       ([Suc s..<length (web_state_wrappers l)] @ [0..<s])"

definition group_after :: "web_env \<Rightarrow> web_state_list \<Rightarrow> wsid \<Rightarrow> nat \<Rightarrow> nat list" where
  "group_after e l p s =
     filter (\<lambda>k. navigation_index (w_opener (web_state_wrappers l ! k)) = last_committed_item_index e p)
       (opened_after l p s)"

lemma GetIndexOfNth_spec:
  assumes "s < length (web_state_wrappers l)" and "0 < n"
  shows "GetIndexOfNthWebStateOpenedBy e l (Some p) (int s) g n =
    Inr (case (if g then group_after e l p s else opened_after l p s) of [] \<Rightarrow> kInvalidIndex
      | ks \<Rightarrow> int (ks ! (min (nat n) (length ks) - 1)))"
proof -
  let ?nav = "if g then last_committed_item_index e p else -1"
  have "ContainsIndex l (int s)" using assms by (simp add: ContainsIndex_iff)
  moreover have "filter (\<lambda>i. WasOpenedBy (web_state_wrappers l ! i) p ?nav g)
      ([Suc s..<length (web_state_wrappers l)] @ [0..<s]) =
      (if g then group_after e l p s else opened_after l p s)"
    unfolding group_after_def opened_after_def filter_filter
    by (cases g) (simp_all add: WasOpenedBy_def conj_commute cong: conj_cong)
  ultimately show ?thesis using assms
    by (simp add: GetIndexOfNthWebStateOpenedBy_def Let_def opened_by_loop_filter
        cyclic_indices [OF assms(1), unfolded One_nat_def])
qed

lemma GetIndexOfNext_spec:
  "s < length (web_state_wrappers l) \<Longrightarrow> GetIndexOfNextWebStateOpenedBy e l (Some p) (int s) False =
    Inr (case opened_after l p s of [] \<Rightarrow> kInvalidIndex | k # _ \<Rightarrow> int k)"
  by (simp add: GetIndexOfNextWebStateOpenedBy_def GetIndexOfNth_spec split: list.splits)

lemma GetIndexOfLast_spec:
  "s < length (web_state_wrappers l) \<Longrightarrow> count l < INT_MAX \<Longrightarrow>
     GetIndexOfLastWebStateOpenedBy e l (Some p) (int s) True =
    Inr (case group_after e l p s of [] \<Rightarrow> kInvalidIndex | ks \<Rightarrow> int (last ks))"
proof -
  assume s: "s < length (web_state_wrappers l)" and c: "count l < INT_MAX"
  have "length (group_after e l p s) \<le> length ([Suc s..<length (web_state_wrappers l)] @ [0..<s])"
    unfolding group_after_def opened_after_def by (metis length_filter_le order.trans)
  then have "length (group_after e l p s) < nat INT_MAX" using s c by (simp add: count_def) 
  moreover have "0 < INT_MAX" by (simp add: INT_MAX_def)
  moreover have "Suc (length ks) < nat INT_MAX \<Longrightarrow>
      (k # ks) ! (min (nat INT_MAX) (Suc (length ks)) - 1) = last (k # ks)" for k and ks :: "nat list"
    by (simp add: last_conv_nth)
  ultimately show ?thesis using s
    by (cases "group_after e l p s")
       (simp_all add: GetIndexOfLastWebStateOpenedBy_def GetIndexOfNth_spec)
qed

section \<open>The tab that takes over when a tab is removed\<close>

text \<open>
  The rule of \<open>DetermineNewActiveIndex\<close> on the list before the removal: the next tab opened
  by the removed one, else the next tab with the same opener, else the opener, else the
  next tab (the previous one at the end of the strip).
\<close>

definition heir :: "web_state_list \<Rightarrow> nat \<Rightarrow> nat option" where
  "heir l i =
     (let n = length (web_state_wrappers l); w = web_state_wrappers l ! i in
      case opened_after l (w_web_state w) i of
        k # _ \<Rightarrow> Some k
      | [] \<Rightarrow> (case opener (w_opener w) of
                 None \<Rightarrow> (if n = 1 then None else Some (if Suc i = n then i - 1 else Suc i))
               | Some p \<Rightarrow> (case opened_after l p i of
                              k # _ \<Rightarrow> Some k
                            | [] \<Rightarrow> Some (nat (GetIndexOfWebState l (Some p))))))"

lemma opened_after_range: "k \<in> set (opened_after l p i) \<Longrightarrow> i < length (web_state_wrappers l) \<Longrightarrow>
   k < length (web_state_wrappers l) \<and> k \<noteq> i"
  by (auto simp: opened_after_def)

lemma heir_range:
  assumes i: "i < length (web_state_wrappers l)" and ops: "openers_ok (set (web_state_wrappers l))"
    and k: "heir l i = Some k"
  shows "k < length (web_state_wrappers l) \<and> k \<noteq> i"
proof -
  let ?w = "web_state_wrappers l ! i"
  have mem: "?w \<in> set (web_state_wrappers l)" using i by simp
  show ?thesis
  proof (cases "opened_after l (w_web_state ?w) i")
    case (Cons a as)
    then show ?thesis using k opened_after_range [of a l "w_web_state ?w" i] i
      by (simp add: heir_def Let_def)
  next
    case Nil
    note child = Nil
    show ?thesis
    proof (cases "opener (w_opener ?w)")
      case None
      then show ?thesis using k i child by (auto simp: heir_def Let_def split: if_splits)
    next
      case (Some p)
      show ?thesis
      proof (cases "opened_after l p i")
        case (Cons a as)
        then show ?thesis using k opened_after_range [of a l p i] i child Some
          by (simp add: heir_def Let_def)
      next
        case Nil
        have p: "p \<in> set (web_states l)" "p \<noteq> web_states l ! i"
          using ops mem Some i by (auto simp: openers_ok_def web_states_def)
        from GetIndexOfWebState_Some [OF p(1)] show ?thesis using p k child Some Nil
          by (auto simp: heir_def Let_def)
      qed
    qed
  qed
qed

lemma GetValidIndex_int:
  "k \<noteq> i \<Longrightarrow> GetValidIndex (int k) (int i) = Inr (if k < i then int k else int k - 1)"
  by (simp add: GetValidIndex_def)

lemma DetermineNewActiveIndex_heir:
  assumes i: "i < length (web_state_wrappers l)" and ops: "openers_ok (set (web_state_wrappers l))"
  shows "DetermineNewActiveIndex e l (int i) (int i) =
    Inr (case heir l i of None \<Rightarrow> kInvalidIndex | Some k \<Rightarrow> (if k < i then int k else int k - 1))"
proof -
  let ?w = "web_state_wrappers l ! i"
  have mem: "?w \<in> set (web_state_wrappers l)" using i by simp
  have C: "ContainsIndex l (int i)" "int i \<noteq> kInvalidIndex"
    using i by (simp_all add: ContainsIndex_iff kInvalidIndex_def)
  have at: "GetWebStateAt l (int i) = Inr (w_web_state ?w)" "GetOpenerOfWebStateAt l (int i) = Inr (w_opener ?w)"
    using C by (simp_all add: GetWebStateAt_def GetWebStateWrapperAt_def GetOpenerOfWebStateAt_def)
  note S = GetIndexOfNext_spec [OF i] and R = heir_range [OF i ops]
  have neg: "int k \<noteq> kInvalidIndex" for k by (simp add: kInvalidIndex_def)
  show ?thesis
  proof (cases "count l = 1")
    case True
    have "heir l i = None"
    proof (rule ccontr)
      assume "heir l i \<noteq> None"
      then show False using R i True by (auto simp: count_def)
    qed
    then show ?thesis using C True by (simp add: DetermineNewActiveIndex_def)
  next
    case False
    note many = this
    show ?thesis
    proof (cases "opened_after l (w_web_state ?w) i")
      case (Cons a as)
      then have "heir l i = Some a" by (simp add: heir_def Let_def)
      with R [OF this] show ?thesis using C many at Cons
        by (simp add: DetermineNewActiveIndex_def S neg GetValidIndex_int)
    next
      case Nil
      note child = Nil
      show ?thesis
      proof (cases "opener (w_opener ?w)")
        case None
        then show ?thesis using C many at child i
          by (auto simp: DetermineNewActiveIndex_def S heir_def Let_def count_def)
      next
        case (Some p)
        show ?thesis
        proof (cases "opened_after l p i")
          case (Cons a as)
          then have "heir l i = Some a" using child Some by (simp add: heir_def Let_def)
          with R [OF this] show ?thesis using C many at Cons child Some
            by (simp add: DetermineNewActiveIndex_def S neg GetValidIndex_int)
        next
          case Nil
          then have h: "heir l i = Some (nat (GetIndexOfWebState l (Some p)))"
            using child Some by (simp add: heir_def Let_def)
          have p: "p \<in> set (web_states l)"
            using ops mem Some by (auto simp: openers_ok_def web_states_def)
          from GetIndexOfWebState_Some [OF p] obtain j where j: "GetIndexOfWebState l (Some p) = int j" by blast
          with h have "heir l i = Some j" by simp
          with R [OF this] j show ?thesis using C many at Nil child Some
            by (simp add: DetermineNewActiveIndex_def S neg GetValidIndex_int Let_def)
        qed
      qed
    qed
  qed
qed

lemma queries_notify [simp]:
  "count (notify ev l) = count l"
  "GetWebStateAt (notify ev l) i = GetWebStateAt l i"
  "GetOpenerOfWebStateAt (notify ev l) i = GetOpenerOfWebStateAt l i"
  "GetIndexOfWebState (notify ev l) w = GetIndexOfWebState l w"
  by (simp_all add: count_def GetWebStateAt_def GetWebStateWrapperAt_def GetOpenerOfWebStateAt_def
      GetIndexOfWebState_def)

lemma GetIndexOfNext_notify [simp]:
  "GetIndexOfNextWebStateOpenedBy e (notify ev l) w i g = GetIndexOfNextWebStateOpenedBy e l w i g"
  unfolding GetIndexOfNextWebStateOpenedBy_def GetIndexOfNthWebStateOpenedBy_def notify_frame
    ContainsIndex_simps ..

lemma DetermineNewActiveIndex_notify:
  "DetermineNewActiveIndex e (notify ev l) a r = DetermineNewActiveIndex e l a r"
  unfolding DetermineNewActiveIndex_def queries_notify GetIndexOfNext_notify ContainsIndex_simps ..

lemma DetachWebStateAtImpl_active:
  assumes "DetachWebStateAtImpl e l i = Inr (w, l')"
  shows "DetermineNewActiveIndex e l (active_index l) i = Inr (active_index l')"
proof -
  let ?w = "w_web_state (web_state_wrappers l ! nat i)"
  let ?l1 = "notify (WillDetachWebStateAt ?w i) l"
  let ?rest = "\<lambda>l2. let l3 = l2\<lparr>web_state_wrappers := remove_at (nat i) (web_state_wrappers l2)\<rparr> in
      dcheck (active_index l3 = kInvalidIndex \<or> ContainsIndex l3 (active_index l3))
      (let l4 = notify (WebStateDetachedAt ?w i) l3 in
       obind (if i = active_index ?l1
              then NotifyIfActiveWebStateChanged l4 (Some ?w) Closed
              else Inr l4) (\<lambda>l5. Inr (?w, tell_delegate (WebStateDetached ?w) l5)))"
  from assms obtain na l2 where na: "DetermineNewActiveIndex e ?l1 (active_index l) i = Inr na"
    and l2: "ClearOpenersReferencing (?l1\<lparr>active_index := na\<rparr>) i = Inr l2" and r: "?rest l2 = Inr (w, l')"
    by (simp only: DetachWebStateAtImpl_def Let_def dcheck_eq_Inr obind_eq_Inr notify_frame) blast
  have "active_index l2 = na" using l2 by (auto simp: ClearOpenersReferencing_def Let_def obind_eq_Inr)
  moreover have "active_index l' = active_index l2"
    using r unfolding Let_def dcheck_eq_Inr obind_eq_Inr
    by (elim conjE exE) (auto split: if_splits dest: NotifyIfActive_wrappers)
  ultimately show ?thesis using na by (simp add: DetermineNewActiveIndex_notify)
qed

section \<open>The place of a new tab\<close>

definition insertion_slot :: "web_env \<Rightarrow> web_state_list \<Rightarrow> wsid option \<Rightarrow> int" where
  "insertion_slot e l op =
     (case op of None \<Rightarrow> count l
      | Some p \<Rightarrow>
          (let j = nat (GetIndexOfWebState l (Some p)) in
           case group_after e l p j of [] \<Rightarrow> int (Suc j) | ks \<Rightarrow> int (Suc (last ks))))"

lemma DetermineInsertionIndex_slot:
  assumes op: "op = None \<or> op \<in> Some ` set (web_states l)" and cnt: "count l < INT_MAX"
  shows "DetermineInsertionIndex e l op = Inr (insertion_slot e l op)"
proof (cases op)
  case None
  then show ?thesis by (simp add: DetermineInsertionIndex_def insertion_slot_def)
next
  case (Some p)
  with op obtain j where j: "j < length (web_state_wrappers l)" "GetIndexOfWebState l (Some p) = int j"
    using GetIndexOfWebState_Some [of p l] by auto
  note L = GetIndexOfLast_spec [OF j(1) cnt, of e p]
  show ?thesis
  proof (cases "group_after e l p j")
    case Nil
    then show ?thesis using L Some j cnt
      by (simp add: DetermineInsertionIndex_def Let_def insertion_slot_def wsl_constants count_def)
  next
    case (Cons k ks)
    then have "last (k # ks) \<in> set (opened_after l p j)"
      by (metis filter_is_subset group_after_def last_in_set list.distinct(1) subsetD)
    then have "last (k # ks) < length (web_state_wrappers l)" using opened_after_range j(1) by blast
    then show ?thesis using L Some j cnt Cons
      by (simp add: DetermineInsertionIndex_def Let_def insertion_slot_def wsl_constants count_def)
  qed
qed

end
