(* ===== verification/Web_State_List_Props.thy ===== *)
theory Web_State_List_Props
  imports Web_State_List_Order
begin

text \<open>
  The properties of \<open>WebStateList\<close>: runs of the public mutators, the effect of each
  mutator on the list of tabs and on the active tab, the lock, and two places where the
  code does not do what its comments say.
\<close>

section \<open>Lemmas on single mutators\<close>

lemma insertion_place_inherited:
  assumes r: "insertion_place l k x f op = Inr l'" and inv: "wsl_inv l" and x: "x \<notin> set (web_states l)"
    and k: "0 \<le> k" "k \<le> count l" and op: "opener op \<noteq> None"
  shows "w_opener (web_state_wrappers l' ! nat k) = op \<and>
    \<not> w_should_reset_opener (web_state_wrappers l' ! nat k)"
proof -
  let ?act = "IsInsertionFlagSet f INSERT_ACTIVATE"
  let ?w = "(new_wrapper x)\<lparr>w_should_reset_opener := IsInsertionFlagSet f INSERT_INHERIT_OPENER\<rparr>"
  define l4 where "l4 = notify (WebStateInsertedAt x k ?act)
     ((tell_delegate (WillAddWebState x) l)\<lparr>
        web_state_wrappers := insert_at (nat k) ?w (web_state_wrappers l),
        active_index := (if k \<le> active_index l then active_index l + 1 else active_index l)\<rparr>)"
  have w: "w_web_state ?w = x" "opener (w_opener ?w) = None"
    by (simp_all add: new_wrapper_def WebStateOpener_null_def)
  note I = insert_stage_ok [OF inv k x w, of ?act, folded l4_def]
  have k4: "nat k < length (web_state_wrappers l4)" using I(5) by (simp add: ContainsIndex_iff)
  from r op obtain l5 where l5: "SetOpenerOfWebStateAt l4 k op = Inr l5"
    and l': "(if ?act then ActivateWebStateAtImpl l5 k Inserted else Inr l5) = Inr l'"
    unfolding insertion_place_def Let_def tell_delegate_frame(1,2) l4_def [symmetric] dcheck_eq_Inr obind_eq_Inr
    by auto
  have w5: "web_state_wrappers l5 = (web_state_wrappers l4)[nat k :=
       (web_state_wrappers l4 ! nat k)\<lparr>w_should_reset_opener := False, w_opener := op\<rparr>]"
    "active_index l5 = active_index l4"
    using l5 by (auto simp: SetOpenerOfWebStateAt_def SetOpener_def obind_eq_Inr)
  then have ix5: "index_ok l5" using wsl_invD(2) [OF I(1)]
    by (simp add: index_ok_def ContainsIndex_def count_def)
  have at: "w_opener (web_state_wrappers l5 ! nat k) = op"
    "\<not> w_should_reset_opener (web_state_wrappers l5 ! nat k)" using w5 k4 by simp_all
  have "nat (active_index l5) \<noteq> nat k" if "active_index l5 \<noteq> kInvalidIndex"
    using that ix5 k by (auto simp: w5(2) index_ok_def ContainsIndex_def l4_def eq_nat_nat_iff split: if_splits)
  then show ?thesis using l' at Activate_wrappers [OF _ ix5, of k Inserted l']
    by (auto split: if_splits)
qed

lemma ReplaceWebStateAt_trace:
  assumes inv: "wsl_inv l" and idle: "wsl_idle l" and i: "ContainsIndex l i" and x: "x \<notin> set (web_states l)"
    and r: "ReplaceWebStateAt l i (Some x) = Inr (old, l')"
  shows "wsl_trace l' = wsl_trace l @
    [Tell (WillAddWebState x), Notify (WebStateReplacedAt old x i),
     Notify (WebStateActivatedAt (Some old) (active_ws l') (active_index l) Replaced),
     Tell (WebStateDetached old)]"
proof -
  let ?old = "web_states l ! nat i"
  note D = wsl_invD [OF inv]
  obtain l1 where l1: "ReplaceWebStateAt l i (Some x) = Inr (?old, l1)" "wsl_inv l1"
    "web_states l1 = (web_states l)[nat i := x]" "active_index l1 = active_index l"
    using ReplaceWebStateAt_ok [OF inv idle i x] by blast
  with r have old: "old = ?old" "l' = l1" by auto
  have i': "nat i < length (web_states l)" using i by (simp add: ContainsIndex_iff)
  have w: "w_web_state (web_state_wrappers l ! nat i) = ?old" using i' by (simp add: w_web_state_nth)
  have "?old \<notin> set (web_states l1)"
    using l1(3) D(1) x i' by (auto simp: in_set_conv_nth nth_list_update nth_eq_iff_index_eq split: if_splits)
  then have ne: "active_ws l1 \<noteq> Some ?old" using active_ws_in_list [OF l1(2)] by force
  from r obtain l2 l3 where
    l2: "web_states l2 = web_states l1" "active_index l2 = active_index l" "index_ok l2"
    "wsl_trace l2 = wsl_trace l @ [Tell (WillAddWebState x), Notify (WebStateReplacedAt ?old x i)]"
    and l3: "NotifyIfActiveWebStateChanged l2 (Some ?old) Replaced = Inr l3"
    "l' = Unlock (tell_delegate (WebStateDetached ?old) l3)"
  proof -
    define l2 where "l2 = notify (WebStateReplacedAt ?old x i) ((tell_delegate (WillAddWebState x)
        (l\<lparr>locked := True\<rparr>))\<lparr>web_state_wrappers := (map (clear_reference ?old) (web_state_wrappers l))[nat i :=
           (clear_reference ?old (web_state_wrappers l ! nat i))\<lparr>w_web_state := x, w_opener := WebStateOpener_null\<rparr>]\<rparr>)"
    have "x \<noteq> ?old" using x i' by (metis nth_mem)
    with r w i' obtain l3 where "NotifyIfActiveWebStateChanged l2 (Some ?old) Replaced = Inr l3"
      "l' = Unlock (tell_delegate (WebStateDetached ?old) l3)"
      by (auto simp: ReplaceWebStateAt_def LockForMutation_def ReplaceWebStateAtImpl_def obind_eq_Inr
          ClearOpenersReferencing_eq ReplaceWebState_def l2_def)
    moreover have "web_states l2 = web_states l1"
      using i' l1(3) by (simp add: l2_def map_update web_states_def [symmetric])
    moreover have "index_ok l2" using D(2)
      by (auto simp: l2_def index_ok_def ContainsIndex_def count_def)
    ultimately show ?thesis by (intro that [of l2 l3]) (simp_all add: l2_def)
  qed
  have "active_ws l2 = active_ws l1" using l2 l1(4) by (simp add: active_ws_def)
  with l2(3) l3(1) ne have "l3 = notify (WebStateActivatedAt (Some ?old) (active_ws l1) (active_index l2) Replaced) l2"
    by (simp add: NotifyIfActive_ok split: if_splits)
  then have "wsl_trace l3 = wsl_trace l2 @
      [Notify (WebStateActivatedAt (Some ?old) (active_ws l1) (active_index l2) Replaced)]" by simp
  moreover have "wsl_trace l' = wsl_trace l3 @ [Tell (WebStateDetached ?old)]" using l3(2) by simp
  ultimately show ?thesis using l2(2,4) old by simp
qed

lemma InsertWebState_slot:
  assumes r: "InsertWebState e l i (Some x) f op = Inr (k, l')" and inv: "wsl_inv l" and idle: "wsl_idle l"
    and ok: "wsl_ok l (Op_InsertWebState i (Some x) f op)"
    and f: "\<not> IsInsertionFlagSet f INSERT_INHERIT_OPENER" "\<not> IsInsertionFlagSet f INSERT_FORCE_INDEX"
  shows "k = insertion_slot e l (opener op)"
proof -
  let ?l = "l\<lparr>locked := True\<rparr>"
  have op: "opener op = None \<or> opener op \<in> Some ` set (web_states ?l)" and cnt: "count ?l < INT_MAX"
    using ok f by simp_all
  have same: "insertion_slot e ?l = insertion_slot e l"
    by (simp add: insertion_slot_def fun_eq_iff GetIndexOfWebState_def group_after_def opened_after_def
        cong: option.case_cong)
  obtain j where j: "DetermineInsertionIndex e ?l (opener op) = Inr j" "0 \<le> j" "j \<le> count ?l"
    using DetermineInsertionIndex_ok [OF op cnt] by blast
  with DetermineInsertionIndex_slot [OF op cnt] have "j = insertion_slot e l (opener op)"
    by (simp add: same)
  moreover have "k = j" using r f j idle
    by (auto simp: InsertWebState_def LockForMutation_def InsertWebStateImpl_def insertion_opener_def
        insertion_index_def obind_eq_Inr)
  ultimately show ?thesis by simp
qed

lemma DetachWebStateAt_heir:
  assumes r: "DetachWebStateAt e l i = Inr (w, l')"
    and ws: "web_states l' = remove_at (nat i) (web_states l)"
    and inv: "wsl_inv l" and idle: "wsl_idle l" and i: "ContainsIndex l i" and act: "active_index l = i"
  shows "active_ws l' = map_option (\<lambda>k. web_states l ! k) (heir l (nat i))"
proof -
  let ?l = "l\<lparr>locked := True\<rparr>"
  have i': "nat i < length (web_state_wrappers ?l)" "int (nat i) = i" using i by (auto simp: ContainsIndex_iff)
  have ops: "openers_ok (set (web_state_wrappers ?l))" using wsl_invD(3) [OF inv] by simp
  have same: "heir ?l = heir l"
    by (rule ext) (simp add: heir_def opened_after_def GetIndexOfWebState_def cong: option.case_cong list.case_cong)
  from r idle obtain l2 where l2: "DetachWebStateAtImpl e ?l i = Inr (w, l2)" "l' = Unlock l2"
    by (auto simp: DetachWebStateAt_def LockForMutation_def obind_eq_Inr wsl_idle_def)
  have "DetermineNewActiveIndex e ?l (active_index ?l) i = Inr (active_index l')"
    using DetachWebStateAtImpl_active [OF l2(1)] l2(2) by simp
  with DetermineNewActiveIndex_heir [OF i'(1) ops, of e] act i'(2)
  have new: "active_index l' = (case heir l (nat i) of None \<Rightarrow> kInvalidIndex
      | Some k \<Rightarrow> if k < nat i then int k else int k - 1)"
    by (simp add: same)
  show ?thesis
  proof (cases "heir l (nat i)")
    case None
    then show ?thesis using new by (simp add: active_ws_def)
  next
    case (Some k)
    then have k: "k < length (web_states l)" "k \<noteq> nat i"
      using heir_range [OF i'(1) ops] by (simp_all add: same)
    then have "active_index l' \<noteq> kInvalidIndex" using new Some by (auto simp: kInvalidIndex_def)
    moreover have "remove_at (nat i) (web_states l) ! nat (active_index l') = web_states l ! k"
      using new Some k i'(1) by (auto simp: nth_remove_at nat_diff_distrib)
    ultimately show ?thesis using Some ws by (simp add: active_ws_def)
  qed
qed

lemma InsertWebState_inherited:
  assumes r: "InsertWebState e l i (Some x) f op = Inr (k, l')" and inv: "wsl_inv l" and idle: "wsl_idle l"
    and ok: "wsl_ok l (Op_InsertWebState i (Some x) f op)"
    and f: "IsInsertionFlagSet f INSERT_INHERIT_OPENER" and a: "active_ws l = Some a"
    and k: "0 \<le> k" "k \<le> count l"
  shows "w_opener (web_state_wrappers l' ! nat k) = WebStateOpener_of e (Some a) \<and>
    \<not> w_should_reset_opener (web_state_wrappers l' ! nat k)"
proof -
  let ?l = "l\<lparr>locked := True\<rparr>"
  have inv0: "wsl_inv ?l" using inv by simp
  obtain l1 where l1: "insertion_opener e ?l f op = Inr (l1, WebStateOpener_of e (active_ws ?l))" "wsl_inv l1"
    "web_states l1 = web_states ?l"
    using insert_inherit_ok [OF inv0 f, of e op] by blast
  with r idle obtain l2 where l2: "insertion_place l1 k x f (WebStateOpener_of e (Some a)) = Inr l2" "l' = Unlock l2"
    by (auto simp: InsertWebState_def LockForMutation_def InsertWebStateImpl_def obind_eq_Inr wsl_idle_def a)
  have "x \<notin> set (web_states l1)" "k \<le> count l1" using ok l1(3) k by (simp_all add: count_eq)
  from insertion_place_inherited [OF l2(1) l1(2) this(1) k(1) this(2)] l2(2) show ?thesis
    by (simp add: WebStateOpener_of_def)
qed

section \<open>Concrete lists for the witnesses\<close>

definition demo_env :: web_env where
  "demo_env = \<lparr>last_committed_item_index = (\<lambda>w. 0), visible_url = (\<lambda>w. ''about:blank'')\<rparr>"

definition demo_ops :: "wsl_op list" where
  "demo_ops =
     [Op_InsertWebState 0 (Some 1) 3 WebStateOpener_null,
      Op_InsertWebState 0 (Some 2) 5 WebStateOpener_null,
      Op_InsertWebState 1 (Some 3) 2 (WebStateOpener_of demo_env (Some 1)),
      Op_MoveWebStateAt 2 0, Op_ReplaceWebStateAt 1 (Some 4),
      Op_ActivateWebStateAt 2, Op_DetachWebStateAt 2, Op_CloseWebStateAt 0 1]"

text \<open>Three tabs: 2 and 3 were opened by 1; 1 is active.\<close>

definition demo_list :: web_state_list where
  "demo_list =
     (case orun (wsl_step demo_env) new_web_state_list
             [Op_InsertWebState 0 (Some 1) 3 WebStateOpener_null,
              Op_InsertWebState 0 (Some 2) 0 (WebStateOpener_of demo_env (Some 1)),
              Op_InsertWebState 0 (Some 3) 0 (WebStateOpener_of demo_env (Some 1))] of
        Inl _ \<Rightarrow> new_web_state_list | Inr l \<Rightarrow> l)"

lemma demo_ops_ok: "admissible (wsl_step demo_env) wsl_ok new_web_state_list demo_ops"
  by code_simp

lemma demo_list_ok: "wsl_inv demo_list" "wsl_idle demo_list"
  by code_simp+

lemma demo_list_views:
  "web_states demo_list = [1, 2, 3]" "active_index demo_list = 0" "count demo_list = 3"
  "active_ws demo_list = Some 1" "locked (demo_list\<lparr>locked := True\<rparr>)"
  "ContainsIndex demo_list 0" "ContainsIndex demo_list 1" "ContainsIndex demo_list 2"
  by code_simp+

lemma demo_insert_ok: "wsl_ok demo_list (Op_InsertWebState 0 (Some 7) INSERT_INHERIT_OPENER WebStateOpener_null)"
  by code_simp

section \<open>Properties\<close>

text \<open>C1: Starting from the empty list, any sequence of calls of the public mutators whose
  arguments respect the documented preconditions runs without a failed \<open>DCHECK\<close> or
  \<open>CHECK\<close>, and ends in a list whose tabs are distinct, whose active index is
  \<open>kInvalidIndex\<close> or in range, in which every opener is another tab of the list, and
  which is not locked.\<close>
theorem wsl_runs_keep_the_invariant:
  assumes "admissible (wsl_step e) wsl_ok new_web_state_list ops"
  shows "\<exists>l. orun (wsl_step e) new_web_state_list ops = Inr l \<and> distinct (web_states l) \<and>
    (active_index l = kInvalidIndex \<or> ContainsIndex l (active_index l)) \<and>
    (\<forall>w \<in> set (web_state_wrappers l). \<forall>p. opener (w_opener w) = Some p \<longrightarrow>
       p \<in> set (web_states l) \<and> p \<noteq> w_web_state w) \<and>
    \<not> locked l \<and> \<not> batch_operation_in_progress l"
  using wsl_machine.run_safe [OF _ assms] new_web_state_list_inv
  by (fastforce simp: wsl_inv_def wsl_idle_def index_ok_def openers_ok_def web_states_def)

theorem wsl_runs_keep_the_invariant_witness:
  "\<exists>l. orun (wsl_step demo_env) new_web_state_list demo_ops = Inr l \<and> distinct (web_states l)"
  using wsl_runs_keep_the_invariant [OF demo_ops_ok] by blast

text \<open>C2: The notifications are complete: an observer that starts with an empty copy of the
  list and applies each notification it receives to its copy has, after any sequence of
  calls, exactly the tabs of the list in their order and the active tab.\<close>
theorem wsl_observers_can_mirror_the_list:
  assumes "admissible (wsl_step e) wsl_ok new_web_state_list ops"
    and "orun (wsl_step e) new_web_state_list ops = Inr l"
  shows "replay (wsl_trace l) = (web_states l, active_ws l)"
  using wsl_machine.run_safe [OF _ assms(1)] new_web_state_list_inv assms(2)
  by (auto simp: wsl_inv_def synced_def)

theorem wsl_observers_can_mirror_the_list_witness:
  "\<exists>l. replay (wsl_trace l) = (web_states l, active_ws l) \<and> web_states l = [4]"
proof -
  obtain l where l: "orun (wsl_step demo_env) new_web_state_list demo_ops = Inr l"
    using wsl_machine.run_safe [OF _ demo_ops_ok] new_web_state_list_inv by blast
  have "(case orun (wsl_step demo_env) new_web_state_list demo_ops of
      Inl _ \<Rightarrow> False | Inr l \<Rightarrow> web_states l = [4])" by code_simp
  with wsl_observers_can_mirror_the_list [OF demo_ops_ok l] l show ?thesis
    by (intro exI [of _ l]) auto
qed

text \<open>Inserting a tab puts it at one index of the strip and moves no other tab: the
  forced index with \<open>INSERT_FORCE_INDEX\<close>, and otherwise (with an opener given by the
  caller) the end of the strip, or the place behind the last tab that the opener opened
  from its current navigation.  The new tab is the active one exactly when
  \<open>INSERT_ACTIVATE\<close> is set; otherwise the active tab stays.\<close>
theorem wsl_insert:
  assumes "wsl_inv l" and "wsl_idle l" and "wsl_ok l (Op_InsertWebState i (Some x) f op)"
    and "\<not> IsInsertionFlagSet f INSERT_INHERIT_OPENER"
  shows "\<exists>k l'. InsertWebState e l i (Some x) f op = Inr (k, l') \<and>
    k = (if IsInsertionFlagSet f INSERT_FORCE_INDEX then i else insertion_slot e l (opener op)) \<and>
    web_states l' = insert_at (nat k) x (web_states l) \<and>
    active_ws l' = (if IsInsertionFlagSet f INSERT_ACTIVATE then Some x else active_ws l)"
proof -
  obtain k l' where r: "InsertWebState e l i (Some x) f op = Inr (k, l')"
    and k: "0 \<le> k" "k \<le> count l" "IsInsertionFlagSet f INSERT_FORCE_INDEX \<longrightarrow> k = i"
    and l': "web_states l' = insert_at (nat k) x (web_states l)"
      "active_ws l' = (if IsInsertionFlagSet f INSERT_ACTIVATE then Some x else active_ws l)"
    using InsertWebState_ok [OF assms(1-3), of e] by blast
  have "k = insertion_slot e l (opener op)" if "\<not> IsInsertionFlagSet f INSERT_FORCE_INDEX"
    by (rule InsertWebState_slot [OF r assms(1-3) assms(4) that])
  with r k(3) l' show ?thesis by auto
qed


theorem wsl_insert_witness:
  "\<exists>k l'. InsertWebState demo_env demo_list 0 (Some 7) 1 (WebStateOpener_of demo_env (Some 1)) =
     Inr (k, l') \<and> k = 3 \<and> active_ws l' = Some 7"
proof -
  have ok: "wsl_ok demo_list (Op_InsertWebState 0 (Some 7) 1 (WebStateOpener_of demo_env (Some 1)))"
    "\<not> IsInsertionFlagSet 1 INSERT_INHERIT_OPENER" "\<not> IsInsertionFlagSet 1 INSERT_FORCE_INDEX"
    "IsInsertionFlagSet 1 INSERT_ACTIVATE"
    "insertion_slot demo_env demo_list (opener (WebStateOpener_of demo_env (Some 1))) = 3"
    by code_simp+
  from wsl_insert [OF demo_list_ok ok(1,2), of demo_env] show ?thesis unfolding ok(5) using ok(3,4) by auto
qed

text \<open>Moving a tab takes it from its index to the given index and keeps the relative order
  of the others; the active tab stays active wherever it ends up.\<close>
theorem wsl_move:
  assumes "wsl_inv l" and "wsl_idle l" and "ContainsIndex l i" and "ContainsIndex l j"
  shows "\<exists>l'. MoveWebStateAt l i j = Inr l' \<and>
    web_states l' = insert_at (nat j) (web_states l ! nat i) (remove_at (nat i) (web_states l)) \<and>
    active_ws l' = active_ws l"
  using MoveWebStateAt_ok [OF assms] by blast

theorem wsl_move_witness:
  "\<exists>l'. MoveWebStateAt demo_list 0 2 = Inr l' \<and> web_states l' = [2, 3, 1] \<and> active_ws l' = Some 1"
proof -
  have "insert_at (nat 2) (web_states demo_list ! nat 0) (remove_at (nat 0) (web_states demo_list)) = [2, 3, 1]"
    by code_simp
  with wsl_move [OF demo_list_ok demo_list_views(6,8)] show ?thesis by (simp add: demo_list_views)
qed

text \<open>C3: Detaching a tab returns it and removes just it.  If it was not the active tab, the
  active tab stays; if it was, the next tab that it opened becomes active, else the next
  tab with the same opener, else its opener, else the tab after it (before it at the end
  of the strip), and none when it was the last tab.\<close>
theorem wsl_detach_selects_the_heir:
  assumes "wsl_inv l" and "wsl_idle l" and "ContainsIndex l i"
  shows "\<exists>l'. DetachWebStateAt e l i = Inr (web_states l ! nat i, l') \<and>
    web_states l' = remove_at (nat i) (web_states l) \<and>
    active_ws l' = (if active_index l = i then map_option (\<lambda>k. web_states l ! k) (heir l (nat i))
                    else active_ws l)"
proof -
  obtain l' where l': "DetachWebStateAt e l i = Inr (web_states l ! nat i, l')" "wsl_inv l'"
    "web_states l' = remove_at (nat i) (web_states l)" "active_index l \<noteq> i \<longrightarrow> active_ws l' = active_ws l"
    using DetachWebStateAt_ok [OF assms, of e] by blast
  moreover have "active_ws l' = map_option (\<lambda>k. web_states l ! k) (heir l (nat i))" if "active_index l = i"
    by (rule DetachWebStateAt_heir [OF l'(1,3) assms that])
  ultimately show ?thesis by auto
qed

theorem wsl_detach_selects_the_heir_witness:
  "\<exists>l'. DetachWebStateAt demo_env demo_list 0 = Inr (1, l') \<and> active_ws l' = Some 2"
proof -
  have "heir demo_list (nat 0) = Some 1" by code_simp
  with wsl_detach_selects_the_heir [OF demo_list_ok demo_list_views(6), of demo_env]
  show ?thesis by (auto simp: demo_list_views)
qed

text \<open>Closing all tabs ends, without a fault, in an empty list with no active tab.\<close>
theorem wsl_close_all_empties_the_list:
  assumes "wsl_inv l" and "wsl_idle l"
  shows "\<exists>l'. CloseAllWebStates e l flags = Inr l' \<and> wsl_empty l' \<and> active_index l' = kInvalidIndex \<and>
    wsl_idle l'"
proof -
  obtain l' where l': "CloseAllWebStates e l flags = Inr l'" "wsl_inv l'" "wsl_idle l'" "web_states l' = []"
    using CloseAllWebStates_ok [OF assms] by blast
  then have "wsl_empty l'" by (simp add: wsl_empty_def web_states_def)
  moreover from this have "active_index l' = kInvalidIndex" using wsl_invD(2) [OF l'(2)]
    by (auto simp: index_ok_def ContainsIndex_def count_def wsl_empty_def)
  ultimately show ?thesis using l' by blast
qed

theorem wsl_close_all_empties_the_list_witness:
  "\<exists>l'. CloseAllWebStates demo_env demo_list 1 = Inr l' \<and> wsl_empty l'"
  using wsl_close_all_empties_the_list [OF demo_list_ok, of demo_env 1] by blast

text \<open>C4: While the list is locked (an observer or the delegate is being called), every
  mutator other than \<open>SetOpenerOfWebStateAt\<close> is stopped by a failed check, so a
  reentrant mutation is impossible.\<close>
theorem wsl_no_reentrant_mutation:
  assumes "locked l" and "\<forall>i op. x \<noteq> Op_SetOpenerOfWebStateAt i op"
  shows "wsl_step e l x \<in> {Inl Check_failed, Inl Dcheck_failed}"
  using assms
  by (cases x) (auto simp: LockForMutation_def InsertWebState_def MoveWebStateAt_def ReplaceWebStateAt_def
      DetachWebStateAt_def CloseWebStateAt_def CloseAllWebStates_def ActivateWebStateAt_def dcheck_def check_def)

theorem wsl_no_reentrant_mutation_witness:
  "wsl_step demo_env (demo_list\<lparr>locked := True\<rparr>) (Op_CloseWebStateAt 0 0) \<in> {Inl Check_failed, Inl Dcheck_failed}"
  using wsl_no_reentrant_mutation [OF demo_list_views(5), of "Op_CloseWebStateAt 0 0" demo_env] by simp

text \<open>Replacing a tab that is not active keeps the active tab, and yet tells the observers
  that the active tab changed: from the replaced tab, which was not active, to the tab that
  was active all along.  (The comment in the code promises this notification only for the
  replacement of the active tab.)\<close>
theorem wsl_replace_inactive_announces_activation:
  assumes "wsl_inv l" and "wsl_idle l" and "ContainsIndex l i" and "x \<notin> set (web_states l)"
    and "active_index l \<noteq> i"
  shows "\<exists>old l'. ReplaceWebStateAt l i (Some x) = Inr (old, l') \<and> active_ws l' = active_ws l \<and>
    active_ws l \<noteq> Some old \<and>
    wsl_trace l' = wsl_trace l @
      [Tell (WillAddWebState x), Notify (WebStateReplacedAt old x i),
       Notify (WebStateActivatedAt (Some old) (active_ws l) (active_index l) Replaced),
       Tell (WebStateDetached old)]"
proof -
  let ?old = "web_states l ! nat i"
  obtain l' where l': "ReplaceWebStateAt l i (Some x) = Inr (?old, l')"
    "web_states l' = (web_states l)[nat i := x]" "active_index l' = active_index l"
    using ReplaceWebStateAt_ok [OF assms(1-4)] by blast
  have a: "nat (active_index l) \<noteq> nat i" "nat (active_index l) < length (web_states l)"
    if "active_index l \<noteq> kInvalidIndex"
    using that assms(3,5) wsl_invD(2) [OF assms(1)] by (auto simp: index_ok_def ContainsIndex_def count_def)
  have "nat i < length (web_states l)" using assms(3) by (simp add: ContainsIndex_iff)
  with a wsl_invD(1) [OF assms(1)] have "active_ws l \<noteq> Some ?old"
    by (auto simp: active_ws_def nth_eq_iff_index_eq)
  moreover have "active_ws l' = active_ws l" using a l' by (auto simp: active_ws_def)
  ultimately show ?thesis using ReplaceWebStateAt_trace [OF assms(1-4) l'(1)] l'(1) by auto
qed

theorem wsl_replace_inactive_announces_activation_witness:
  "\<exists>old l'. ReplaceWebStateAt demo_list 2 (Some 9) = Inr (old, l') \<and> active_ws l' = active_ws demo_list"
proof -
  have "(9::wsid) \<notin> set (web_states demo_list)" "active_index demo_list \<noteq> 2"
    by (simp_all add: demo_list_views)
  from wsl_replace_inactive_announces_activation [OF demo_list_ok demo_list_views(8) this]
  show ?thesis by blast
qed

text \<open>A tab inserted with \<open>INSERT_INHERIT_OPENER\<close> gets the active tab as its opener, but its
  flag \<open>should_reset_opener\<close>, which the insertion sets so that the opener is dropped when
  the active tab changes, is already cleared again when the insertion returns.\<close>
theorem wsl_inherited_opener_is_never_reset:
  assumes "wsl_inv l" and "wsl_idle l" and "wsl_ok l (Op_InsertWebState i (Some x) f op)"
    and "IsInsertionFlagSet f INSERT_INHERIT_OPENER" and "active_ws l = Some a"
  shows "\<exists>k l'. InsertWebState e l i (Some x) f op = Inr (k, l') \<and>
    w_web_state (web_state_wrappers l' ! nat k) = x \<and>
    w_opener (web_state_wrappers l' ! nat k) = WebStateOpener_of e (Some a) \<and>
    \<not> w_should_reset_opener (web_state_wrappers l' ! nat k)"
proof -
  obtain k l' where r: "InsertWebState e l i (Some x) f op = Inr (k, l')" and k: "0 \<le> k" "k \<le> count l"
    and ws: "web_states l' = insert_at (nat k) x (web_states l)"
    using InsertWebState_ok [OF assms(1-3), of e] by blast
  have len: "nat k \<le> length (web_states l)" using k by (simp add: count_eq)
  have "length (web_state_wrappers l') = Suc (length (web_states l))"
    by (metis length_insert_at length_web_states ws)
  then have "w_web_state (web_state_wrappers l' ! nat k) = x"
    using len ws by (simp add: w_web_state_nth nth_insert_at)
  with InsertWebState_inherited [OF r assms k] r show ?thesis by blast
qed

theorem wsl_inherited_opener_is_never_reset_witness:
  "\<exists>k l'. InsertWebState demo_env demo_list 0 (Some 7) INSERT_INHERIT_OPENER WebStateOpener_null = Inr (k, l') \<and>
     \<not> w_should_reset_opener (web_state_wrappers l' ! nat k)"
proof -
  have "IsInsertionFlagSet INSERT_INHERIT_OPENER INSERT_INHERIT_OPENER" by code_simp
  from wsl_inherited_opener_is_never_reset [OF demo_list_ok demo_insert_ok this demo_list_views(4), of demo_env]
  show ?thesis by blast
qed

end
