(* ===== verification/Web_State_List_Serialization.thy ===== *)
theory Web_State_List_Serialization
  imports Web_State_List_Order
begin

text \<open>
  Saving and restoring a tab strip, \<open>chrome/browser/web_state_list/web_state_list_serialization.mm\<close>.

  \<open>SerializeWebStateList\<close> stores with every tab the index of its opener and the opener's
  navigation index, \<open>DeserializeWebStateList\<close> appends the stored tabs to a list and
  restores the relation and the active tab.  A \<open>CRWSessionStorage\<close> is its user data and a
  body of unknown type: what \<open>BuildSessionStorage\<close> writes besides the user data is the
  argument \<open>body\<close>.  The \<open>WebStateFactory\<close>, a callback of the caller, is the argument
  \<open>factory\<close>.  The C integers stored are unbounded here: every index is below
  \<open>INT_MAX\<close> by hypothesis.
\<close>

section \<open>Sessions\<close>

datatype user_data_value = NSNull | NSNumber int

type_synonym user_data = "string \<Rightarrow> user_data_value option"

record 'b session_storage =
  session_body :: 'b
  session_user_data :: user_data

record 'b session_window =
  sessions :: "'b session_storage list"
  selectedIndex :: "nat option"

definition kOpenerIndexKey :: string where "kOpenerIndexKey = ''OpenerIndex''"
definition kOpenerNavigationIndexKey :: string where
  "kOpenerNavigationIndexKey = ''OpenerNavigationIndex''"

fun as_number :: "user_data_value option \<Rightarrow> int option" where
  "as_number (Some (NSNumber n)) = Some n"
| "as_number _ = None"

section \<open>Serialization\<close>

definition serialize_at ::
    "(wsid \<Rightarrow> 'b) \<Rightarrow> (wsid \<Rightarrow> user_data) \<Rightarrow> web_state_list \<Rightarrow> int \<Rightarrow> 'b session_storage outcome" where
  "serialize_at body ud l index =
     obind (GetWebStateAt l index) (\<lambda>web_state.
     obind (GetOpenerOfWebStateAt l index) (\<lambda>op.
     if opener op \<noteq> None then
       (let opener_index = GetIndexOfWebState l (opener op) in
        dcheck (opener_index \<noteq> kInvalidIndex)
          (Inr \<lparr>session_body = body web_state,
                session_user_data = (ud web_state)(kOpenerIndexKey \<mapsto> NSNumber opener_index,
                   kOpenerNavigationIndexKey \<mapsto> NSNumber (navigation_index op))\<rparr>))
     else
       Inr \<lparr>session_body = body web_state,
            session_user_data = (ud web_state)(kOpenerIndexKey \<mapsto> NSNull,
               kOpenerNavigationIndexKey \<mapsto> NSNull)\<rparr>))"

definition SerializeWebStateList ::
    "(wsid \<Rightarrow> 'b) \<Rightarrow> (wsid \<Rightarrow> user_data) \<Rightarrow> web_state_list \<Rightarrow> 'b session_window outcome" where
  "SerializeWebStateList body ud l =
     obind (omap (serialize_at body ud l) (map int [0..<length (web_state_wrappers l)])) (\<lambda>serialized.
     Inr \<lparr>sessions = serialized,
          selectedIndex = (if active_index l \<noteq> kInvalidIndex then Some (nat (active_index l)) else None)\<rparr>)"

section \<open>Deserialization\<close>

text \<open>\<open>factory k s\<close> is the \<open>WebState\<close> made by the \<open>k\<close>th call of the factory, \<open>ud\<close> reads
  the user data of a \<open>WebState\<close>.\<close>

definition insert_session ::
    "web_env \<Rightarrow> (nat \<Rightarrow> 'b session_storage \<Rightarrow> wsid) \<Rightarrow> web_state_list \<Rightarrow> nat \<times> 'b session_storage \<Rightarrow>
     web_state_list outcome" where
  "insert_session e factory l ks =
     obind (InsertWebState e l (count l) (Some (factory (fst ks) (snd ks))) INSERT_FORCE_INDEX
              WebStateOpener_null) (\<lambda>(_, l'). Inr l')"

definition restore_opener_at ::
    "(wsid \<Rightarrow> user_data) \<Rightarrow> int \<Rightarrow> web_state_list \<Rightarrow> int \<Rightarrow> web_state_list outcome" where
  "restore_opener_at ud old_count l index =
     obind (GetWebStateAt l index) (\<lambda>web_state.
     case (as_number (ud web_state kOpenerIndexKey),
           as_number (ud web_state kOpenerNavigationIndexKey)) of
       (Some boxed_opener_index, Some boxed_opener_navigation_index) \<Rightarrow>
         (let opener_index = boxed_opener_index + old_count in
          if opener_index < old_count \<or> count l \<le> opener_index then Inr l
          else if opener_index = index then Inr l
          else obind (GetWebStateAt l opener_index) (\<lambda>op.
               SetOpenerOfWebStateAt l index
                 \<lparr>opener = Some op, navigation_index = boxed_opener_navigation_index\<rparr>))
     | _ \<Rightarrow> Inr l)"

definition DeserializeWebStateList ::
    "web_env \<Rightarrow> (wsid \<Rightarrow> user_data) \<Rightarrow> (nat \<Rightarrow> 'b session_storage \<Rightarrow> wsid) \<Rightarrow> web_state_list \<Rightarrow>
     'b session_window \<Rightarrow> web_state_list outcome" where
  "DeserializeWebStateList e ud factory l w =
     (let old_count = count l in
      obind (orun (insert_session e factory) l (enumerate 0 (sessions w))) (\<lambda>l1.
      obind (orun (restore_opener_at ud old_count) l1 [old_count..count l1 - 1]) (\<lambda>l2.
      case selectedIndex w of
        None \<Rightarrow> Inr l2
      | Some i \<Rightarrow>
          dcheck (i < length (sessions w))
          (dcheck (int i < INT_MAX) (ActivateWebStateAt l2 (old_count + int i))))))"

section \<open>The insertions\<close>

lemma flags_force:
  "IsInsertionFlagSet INSERT_FORCE_INDEX INSERT_FORCE_INDEX"
  "\<not> IsInsertionFlagSet INSERT_FORCE_INDEX INSERT_ACTIVATE"
  "\<not> IsInsertionFlagSet INSERT_FORCE_INDEX INSERT_INHERIT_OPENER"
  by code_simp+

lemma insert_session_ok:
  assumes inv: "wsl_inv l" "wsl_idle l" and cnt: "count l < INT_MAX" and x: "factory k s \<notin> set (web_states l)"
  shows "\<exists>l'. insert_session e factory l (k, s) = Inr l' \<and> wsl_inv l' \<and> wsl_idle l' \<and>
    web_state_wrappers l' = web_state_wrappers l @ [new_wrapper (factory k s)] \<and>
    active_index l' = active_index l"
proof -
  let ?x = "factory k s"
  have ok: "wsl_ok l (Op_InsertWebState (count l) (Some ?x) INSERT_FORCE_INDEX WebStateOpener_null)"
    using cnt x by (simp add: WebStateOpener_null_def count_def)
  from InsertWebState_ok [OF inv ok, of e] obtain i l' where
    l': "InsertWebState e l (count l) (Some ?x) INSERT_FORCE_INDEX WebStateOpener_null = Inr (i, l')"
    "wsl_inv l'" "wsl_idle l'" by blast
  have "active_index l < count l" using wsl_invD(2) [OF inv(1)]
    by (auto simp: index_ok_def ContainsIndex_def count_def kInvalidIndex_def)
  moreover have "(new_wrapper ?x)\<lparr>w_should_reset_opener := False\<rparr> = new_wrapper ?x"
    by (simp add: new_wrapper_def)
  ultimately have "web_state_wrappers l' = web_state_wrappers l @ [new_wrapper ?x] \<and> active_index l' = active_index l"
    using l'(1) flags_force inv(2)
    by (auto simp: InsertWebState_def LockForMutation_def InsertWebStateImpl_def insertion_opener_def
        insertion_index_def insertion_place_def obind_eq_Inr WebStateOpener_null_def wsl_idle_def count_def Let_def)
  with l' show ?thesis by (simp add: insert_session_def)
qed

lemma insert_sessions_ok:
  assumes "wsl_inv l" "wsl_idle l" and "count l + int (length ks) < INT_MAX"
    and "distinct (web_states l @ map (\<lambda>(k, s). factory k s) ks)"
  shows "\<exists>l'. orun (insert_session e factory) l ks = Inr l' \<and> wsl_inv l' \<and> wsl_idle l' \<and>
    web_state_wrappers l' = web_state_wrappers l @ map (\<lambda>(k, s). new_wrapper (factory k s)) ks \<and>
    active_index l' = active_index l"
  using assms
proof (induction ks arbitrary: l)
  case Nil
  then show ?case by simp
next
  case (Cons a ks)
  obtain k s where a: "a = (k, s)" by (cases a)
  have "count l < INT_MAX" "factory k s \<notin> set (web_states l)" using Cons.prems a by auto
  then obtain l1 where l1: "insert_session e factory l (k, s) = Inr l1" "wsl_inv l1" "wsl_idle l1"
    "web_state_wrappers l1 = web_state_wrappers l @ [new_wrapper (factory k s)]" "active_index l1 = active_index l"
    using insert_session_ok [where e = e] Cons.prems(1,2) by blast
  have "web_states l1 = web_states l @ [factory k s]" "count l1 = count l + 1"
    using l1(4) by (simp_all add: web_states_def count_def new_wrapper_def)
  with Cons.prems(3,4) a have "count l1 + int (length ks) < INT_MAX"
    "distinct (web_states l1 @ map (\<lambda>(k, s). factory k s) ks)" by auto
  from Cons.IH [OF l1(2,3) this] show ?case using l1 a by auto
qed

section \<open>Restoring the openers\<close>

definition restored_wrapper ::
    "(wsid \<Rightarrow> user_data) \<Rightarrow> int \<Rightarrow> wsid list \<Rightarrow> int \<Rightarrow> web_state_wrapper \<Rightarrow> web_state_wrapper" where
  "restored_wrapper ud old_count ws index w =
     (case (as_number (ud (w_web_state w) kOpenerIndexKey),
            as_number (ud (w_web_state w) kOpenerNavigationIndexKey)) of
       (Some b, Some n) \<Rightarrow>
         (if b < 0 \<or> int (length ws) \<le> b + old_count \<or> b + old_count = index then w
          else w\<lparr>w_should_reset_opener := False,
                 w_opener := \<lparr>opener = Some (ws ! nat (b + old_count)), navigation_index = n\<rparr>\<rparr>)
     | _ \<Rightarrow> w)"

lemma w_web_state_restored [simp]: "w_web_state (restored_wrapper ud oc ws i w) = w_web_state w"
  by (simp add: restored_wrapper_def split: option.split)

lemma SetOpenerOfWebStateAt_eq:
  assumes "ContainsIndex l i" and "opener op \<in> Some ` set (web_states l)"
    and "opener op \<noteq> Some (web_states l ! nat i)"
  shows "SetOpenerOfWebStateAt l i op = Inr (l\<lparr>web_state_wrappers := (web_state_wrappers l)[nat i :=
     (web_state_wrappers l ! nat i)\<lparr>w_should_reset_opener := False, w_opener := op\<rparr>]\<rparr>)"
proof -
  have "w_web_state (web_state_wrappers l ! nat i) = web_states l ! nat i"
    using assms(1) by (simp add: w_web_state_nth ContainsIndex_iff)
  then show ?thesis using assms
    by (auto simp: SetOpenerOfWebStateAt_def SetOpener_def ContainsIndex_GetIndexOfWebState)
qed

lemma restore_opener_at_ok:
  assumes inv: "wsl_inv l" "wsl_idle l" and i: "ContainsIndex l i" and oc: "0 \<le> oc"
  shows "\<exists>l'. restore_opener_at ud oc l i = Inr l' \<and> wsl_inv l' \<and> wsl_idle l' \<and>
    web_states l' = web_states l \<and> active_index l' = active_index l \<and>
    web_state_wrappers l' = (web_state_wrappers l)[nat i :=
      restored_wrapper ud oc (web_states l) i (web_state_wrappers l ! nat i)]"
proof -
  let ?w = "web_state_wrappers l ! nat i"
  have i': "nat i < length (web_state_wrappers l)" "0 \<le> i" using i by (simp_all add: ContainsIndex_iff)
  have w: "GetWebStateAt l i = Inr (w_web_state ?w)" "w_web_state ?w = web_states l ! nat i"
    using i i' by (simp_all add: GetWebStateAt_def GetWebStateWrapperAt_def w_web_state_nth)
  note same = list_update_id [of "web_state_wrappers l" "nat i"]
  show ?thesis
  proof (cases "as_number (ud (w_web_state ?w) kOpenerIndexKey)")
    case None
    then show ?thesis using inv w(1) same by (simp add: restore_opener_at_def restored_wrapper_def)
  next
    case (Some b)
    note b = Some
    show ?thesis
    proof (cases "as_number (ud (w_web_state ?w) kOpenerNavigationIndexKey)")
      case None
      then show ?thesis using inv w(1) b same by (simp add: restore_opener_at_def restored_wrapper_def)
    next
      case (Some n)
      let ?o = "b + oc"
      show ?thesis
      proof (cases "?o < oc \<or> count l \<le> ?o \<or> ?o = i")
        case True
        then show ?thesis using inv w(1) b Some same
          by (auto simp: restore_opener_at_def restored_wrapper_def Let_def count_def)
      next
        case False
        let ?op = "\<lparr>opener = Some (web_states l ! nat ?o), navigation_index = n\<rparr>"
        have C: "ContainsIndex l ?o" using False oc by (simp add: ContainsIndex_def)
        then have o: "nat ?o < length (web_states l)" by (simp add: ContainsIndex_iff)
        have "GetWebStateAt l ?o = Inr (web_states l ! nat ?o)"
          using C o by (simp add: GetWebStateAt_def GetWebStateWrapperAt_def w_web_state_nth)
        moreover have "nat ?o \<noteq> nat i" using False i' oc by auto
        with o i' wsl_invD(1) [OF inv(1)] have "web_states l ! nat ?o \<noteq> web_states l ! nat i"
          by (simp add: nth_eq_iff_index_eq)
        moreover have "opener ?op \<in> Some ` set (web_states l)" using o by simp
        ultimately show ?thesis
          using SetOpenerOfWebStateAt_ok [OF inv(1) i, of ?op] SetOpenerOfWebStateAt_eq [OF i, of ?op]
            b Some False w inv(2)
          by (auto simp: restore_opener_at_def restored_wrapper_def Let_def count_def wsl_idle_def same_locks_def)
      qed
    qed
  qed
qed

lemma restore_openers_ok:
  assumes "wsl_inv l" "wsl_idle l" and "\<forall>i \<in> set is. ContainsIndex l i" and "0 \<le> oc" and "distinct is"
  shows "\<exists>l'. orun (restore_opener_at ud oc) l is = Inr l' \<and> wsl_inv l' \<and> wsl_idle l' \<and>
    web_states l' = web_states l \<and> active_index l' = active_index l \<and>
    (\<forall>j < length (web_states l). web_state_wrappers l' ! j =
       (if int j \<in> set is then restored_wrapper ud oc (web_states l) (int j) (web_state_wrappers l ! j)
        else web_state_wrappers l ! j))"
  using assms
proof (induction "is" arbitrary: l)
  case Nil
  then show ?case by simp
next
  case (Cons i "is")
  have i: "ContainsIndex l i" using Cons.prems by simp
  obtain l1 where l1: "restore_opener_at ud oc l i = Inr l1" "wsl_inv l1" "wsl_idle l1"
    "web_states l1 = web_states l" "active_index l1 = active_index l"
    "web_state_wrappers l1 = (web_state_wrappers l)[nat i :=
      restored_wrapper ud oc (web_states l) i (web_state_wrappers l ! nat i)]"
    using restore_opener_at_ok [OF Cons.prems(1,2) i Cons.prems(4)] by blast
  have "ContainsIndex l1 = ContainsIndex l"
    using l1(4) by (simp add: ContainsIndex_def count_eq fun_eq_iff)
  with Cons.prems have "\<forall>i \<in> set is. ContainsIndex l1 i" "distinct is" by simp_all
  from Cons.IH [OF l1(2,3) this(1) Cons.prems(4) this(2)] obtain l2 where
    l2: "orun (restore_opener_at ud oc) l1 is = Inr l2" "wsl_inv l2" "wsl_idle l2"
      "web_states l2 = web_states l1" "active_index l2 = active_index l1"
    and w2: "\<And>j. j < length (web_states l1) \<Longrightarrow> web_state_wrappers l2 ! j =
       (if int j \<in> set is then restored_wrapper ud oc (web_states l1) (int j) (web_state_wrappers l1 ! j)
        else web_state_wrappers l1 ! j)" by blast
  have "web_state_wrappers l2 ! j = (if int j \<in> set (i # is)
      then restored_wrapper ud oc (web_states l) (int j) (web_state_wrappers l ! j)
      else web_state_wrappers l ! j)" if "j < length (web_states l)" for j
  proof (cases "int j = i")
    case True
    then have "int j \<notin> set is" "nat i = j" using Cons.prems(5) by auto
    then show ?thesis using w2 [of j] that l1(4,6) True by simp
  next
    case False
    then have "nat i \<noteq> j" using i by (auto simp: ContainsIndex_def)
    then show ?thesis using w2 [of j] that l1(4,6) False by simp
  qed
  with l1 l2 show ?case by auto
qed

section \<open>The round trip\<close>

text \<open>What is stored for the tab at index \<open>j\<close>.\<close>

definition stored_session :: "(wsid \<Rightarrow> 'b) \<Rightarrow> (wsid \<Rightarrow> user_data) \<Rightarrow> web_state_list \<Rightarrow> nat \<Rightarrow> 'b session_storage" where
  "stored_session body ud l j =
     (let w = web_state_wrappers l ! j in
      \<lparr>session_body = body (w_web_state w),
       session_user_data = (ud (w_web_state w))
         (kOpenerIndexKey \<mapsto> (if opener (w_opener w) = None then NSNull
                                 else NSNumber (GetIndexOfWebState l (opener (w_opener w)))),
          kOpenerNavigationIndexKey \<mapsto> (if opener (w_opener w) = None then NSNull
                                 else NSNumber (navigation_index (w_opener w))))\<rparr>)"

lemma serialize_at_ok:
  assumes "openers_ok (set (web_state_wrappers l))" and "j < length (web_state_wrappers l)"
  shows "serialize_at body ud l (int j) = Inr (stored_session body ud l j)"
proof -
  let ?w = "web_state_wrappers l ! j"
  have at: "GetWebStateAt l (int j) = Inr (w_web_state ?w)" "GetOpenerOfWebStateAt l (int j) = Inr (w_opener ?w)"
    using assms(2) by (simp_all add: GetWebStateAt_def GetWebStateWrapperAt_def GetOpenerOfWebStateAt_def ContainsIndex_iff)
  have "GetIndexOfWebState l (Some p) \<noteq> kInvalidIndex" if "opener (w_opener ?w) = Some p" for p
  proof -
    have "?w \<in> set (web_state_wrappers l)" using assms(2) by simp
    with assms(1) that have "p \<in> set (web_states l)" by (auto simp: openers_ok_def web_states_def)
    from GetIndexOfWebState_Some [OF this] show ?thesis by (auto simp: kInvalidIndex_def)
  qed
  then show ?thesis using at
    by (cases "opener (w_opener ?w)") (simp_all add: serialize_at_def stored_session_def Let_def)
qed

lemma SerializeWebStateList_ok:
  assumes "wsl_inv l"
  shows "SerializeWebStateList body ud l = Inr
    \<lparr>sessions = map (stored_session body ud l) [0..<length (web_state_wrappers l)],
     selectedIndex = (if active_index l \<noteq> kInvalidIndex then Some (nat (active_index l)) else None)\<rparr>"
proof -
  have "omap (serialize_at body ud l) (map int [0..<length (web_state_wrappers l)]) =
      Inr (map (\<lambda>i. stored_session body ud l (nat i)) (map int [0..<length (web_state_wrappers l)]))"
    by (rule omap_Inr) (use serialize_at_ok [OF wsl_invD(3) [OF assms]] in auto)
  moreover have "map (\<lambda>i. stored_session body ud l (nat i)) (map int [0..<length (web_state_wrappers l)]) =
      map (stored_session body ud l) [0..<length (web_state_wrappers l)]" by simp
  ultimately show ?thesis by (simp add: SerializeWebStateList_def)
qed

lemma stored_numbers:
  assumes "ud' w = session_user_data (stored_session body ud l j)"
  shows "as_number (ud' w kOpenerIndexKey) =
      (case opener (w_opener (web_state_wrappers l ! j)) of None \<Rightarrow> None
       | Some p \<Rightarrow> Some (GetIndexOfWebState l (Some p)))"
    and "as_number (ud' w kOpenerNavigationIndexKey) =
      (case opener (w_opener (web_state_wrappers l ! j)) of None \<Rightarrow> None
       | Some p \<Rightarrow> Some (navigation_index (w_opener (web_state_wrappers l ! j))))"
  unfolding assms
  by (auto simp: stored_session_def Let_def kOpenerIndexKey_def kOpenerNavigationIndexKey_def split: option.split)

lemma restored_from_stored:
  assumes inv: "wsl_inv l" and k: "k < length (web_state_wrappers l)" and oc: "0 \<le> oc"
    and ud: "ud' x = session_user_data (stored_session body ud l k)"
    and ws: "length ws = nat oc + length (web_state_wrappers l)"
  shows "w_opener (restored_wrapper ud' oc ws (oc + int k) (new_wrapper x)) =
    (case opener (w_opener (web_state_wrappers l ! k)) of None \<Rightarrow> WebStateOpener_null
     | Some p \<Rightarrow> \<lparr>opener = Some (ws ! (nat oc + nat (GetIndexOfWebState l (Some p)))),
                  navigation_index = navigation_index (w_opener (web_state_wrappers l ! k))\<rparr>)"
proof (cases "opener (w_opener (web_state_wrappers l ! k))")
  case None
  then show ?thesis
    by (simp add: restored_wrapper_def stored_numbers [of ud', OF ud] new_wrapper_def)
next
  case (Some p)
  have "web_state_wrappers l ! k \<in> set (web_state_wrappers l)" using k by simp
  with wsl_invD(3) [OF inv] Some have p: "p \<in> set (web_states l)" "p \<noteq> web_states l ! k"
    using k by (auto simp: openers_ok_def web_states_def)
  from GetIndexOfWebState_Some [OF p(1)] obtain j where j: "j < length (web_state_wrappers l)"
    "GetIndexOfWebState l (Some p) = int j" "web_states l ! j = p" by blast
  with p(2) have "j \<noteq> k" by auto
  then show ?thesis using Some j(1,2) oc ws
    by (simp add: restored_wrapper_def stored_numbers [of ud', OF ud] new_wrapper_def nat_add_distrib add.commute)
qed

lemma deserialize_tabs:
  fixes factory :: "nat \<Rightarrow> 'b session_storage \<Rightarrow> wsid"
  assumes l: "wsl_inv l" and l0: "wsl_inv l0" "wsl_idle l0"
    and cnt: "count l0 + count l < INT_MAX"
    and n: "n = length (web_state_wrappers l)"
    and x: "x = (\<lambda>k. factory k (stored_session body ud l k))"
    and fresh: "distinct (web_states l0 @ map x [0..<n])"
    and ud': "\<And>k. k < n \<Longrightarrow> ud' (x k) = session_user_data (stored_session body ud l k)"
  shows "\<exists>l1 l2. orun (insert_session e factory) l0 (enumerate 0 (map (stored_session body ud l) [0..<n])) = Inr l1 \<and>
    orun (restore_opener_at ud' (count l0)) l1 [count l0..count l1 - 1] = Inr l2 \<and>
    wsl_inv l2 \<and> wsl_idle l2 \<and> web_states l2 = web_states l0 @ map x [0..<n] \<and>
    active_index l2 = active_index l0 \<and>
    (\<forall>k < n. w_opener (web_state_wrappers l2 ! (length (web_state_wrappers l0) + k)) =
       (case opener (w_opener (web_state_wrappers l ! k)) of None \<Rightarrow> WebStateOpener_null
        | Some p \<Rightarrow> \<lparr>opener = Some (x (nat (GetIndexOfWebState l (Some p)))),
                     navigation_index = navigation_index (w_opener (web_state_wrappers l ! k))\<rparr>))"
proof -
  let ?n0 = "length (web_state_wrappers l0)"
  let ?ks = "enumerate 0 (map (stored_session body ud l) [0..<n])"
  have ks: "map (\<lambda>(k, s). new_wrapper (factory k s)) ?ks = map (\<lambda>k. new_wrapper (x k)) [0..<n]"
    by (rule nth_equalityI) (simp_all add: nth_enumerate_eq x)
  have ks0: "map (\<lambda>(k, s). factory k s) ?ks = map x [0..<n]"
    by (rule nth_equalityI) (simp_all add: nth_enumerate_eq x)
  have small: "count l0 + int (length ?ks) < INT_MAX" using cnt n by (simp add: count_def)
  have dist: "distinct (web_states l0 @ map (\<lambda>(k, s). factory k s) ?ks)" unfolding ks0 by (rule fresh)
  obtain l1 where l1: "orun (insert_session e factory) l0 ?ks = Inr l1" "wsl_inv l1" "wsl_idle l1"
    "web_state_wrappers l1 = web_state_wrappers l0 @ map (\<lambda>k. new_wrapper (x k)) [0..<n]"
    "active_index l1 = active_index l0"
    using insert_sessions_ok [where e = e and factory = factory, OF l0 small dist] unfolding ks by blast
  have st1: "web_states l1 = web_states l0 @ map x [0..<n]" and c1: "count l1 = count l0 + int n"
    using l1(4) by (simp_all add: web_states_def count_def new_wrapper_def comp_def)
  have is_ok: "\<forall>i \<in> set [count l0..count l1 - 1]. ContainsIndex l1 i" "0 \<le> count l0"
    by (auto simp: ContainsIndex_def count_def)
  from restore_openers_ok [OF l1(2,3) is_ok, where ud = ud'] obtain l2 where
    l2: "orun (restore_opener_at ud' (count l0)) l1 [count l0..count l1 - 1] = Inr l2" "wsl_inv l2" "wsl_idle l2"
      "web_states l2 = web_states l1" "active_index l2 = active_index l1"
    and w2: "\<And>j. j < length (web_states l1) \<Longrightarrow> web_state_wrappers l2 ! j =
       (if int j \<in> set [count l0..count l1 - 1]
        then restored_wrapper ud' (count l0) (web_states l1) (int j) (web_state_wrappers l1 ! j)
        else web_state_wrappers l1 ! j)" by auto
  have "w_opener (web_state_wrappers l2 ! (?n0 + k)) =
       (case opener (w_opener (web_state_wrappers l ! k)) of None \<Rightarrow> WebStateOpener_null
        | Some p \<Rightarrow> \<lparr>opener = Some (x (nat (GetIndexOfWebState l (Some p)))),
                     navigation_index = navigation_index (w_opener (web_state_wrappers l ! k))\<rparr>)"
    if k: "k < n" for k
  proof -
    have "int (?n0 + k) \<in> set [count l0..count l1 - 1]" using k c1 by (simp add: count_def)
    moreover have "?n0 + k < length (web_states l1)" using k st1 l1(4) by simp
    moreover have "web_state_wrappers l1 ! (?n0 + k) = new_wrapper (x k)" using k l1(4) by (simp add: nth_append)
    ultimately have "web_state_wrappers l2 ! (?n0 + k) =
        restored_wrapper ud' (count l0) (web_states l1) (count l0 + int k) (new_wrapper (x k))"
      using w2 [of "?n0 + k"] by (simp add: count_def)
    moreover have "length (web_states l1) = nat (count l0) + length (web_state_wrappers l)"
      using l1(4) n by (simp add: count_def)
    moreover have "web_states l1 ! (nat (count l0) + nat (GetIndexOfWebState l (Some p))) =
        x (nat (GetIndexOfWebState l (Some p)))" if "opener (w_opener (web_state_wrappers l ! k)) = Some p" for p
    proof -
      have "web_state_wrappers l ! k \<in> set (web_state_wrappers l)" using k n by simp
      with that wsl_invD(3) [OF l] have "p \<in> set (web_states l)" by (auto simp: openers_ok_def web_states_def)
      from GetIndexOfWebState_Some [OF this] show ?thesis using n st1
        by (auto simp: count_def nth_append)
    qed
    ultimately show ?thesis
      using restored_from_stored [where k = k and ws = "web_states l1" and ud' = ud' and x = "x k" and body = body and ud = ud and l = l, OF l _ is_ok(2) ud' [OF k]] k n
      by (simp split: option.split)
  qed
  then show ?thesis using l1(1,5) l2 st1 by auto
qed

lemma DeserializeWebStateList_ok:
  fixes factory :: "nat \<Rightarrow> 'b session_storage \<Rightarrow> wsid"
  assumes l: "wsl_inv l" and l0: "wsl_inv l0" "wsl_idle l0"
    and cnt: "count l0 + count l < INT_MAX"
    and n: "n = length (web_state_wrappers l)" and n0: "n0 = length (web_state_wrappers l0)"
    and x: "x = (\<lambda>k. factory k (stored_session body ud l k))"
    and fresh: "distinct (web_states l0 @ map x [0..<n])"
    and ud': "\<And>k. k < n \<Longrightarrow> ud' (x k) = session_user_data (stored_session body ud l k)"
    and win: "SerializeWebStateList body ud l = Inr w"
  shows "\<exists>l'. DeserializeWebStateList e ud' factory l0 w = Inr l' \<and> wsl_inv l' \<and>
    web_states l' = web_states l0 @ map x [0..<n] \<and>
    active_index l' = (if active_index l = kInvalidIndex then active_index l0 else int n0 + active_index l) \<and>
    (\<forall>k < n. w_opener (web_state_wrappers l' ! (n0 + k)) =
       (case opener (w_opener (web_state_wrappers l ! k)) of None \<Rightarrow> WebStateOpener_null
        | Some p \<Rightarrow> \<lparr>opener = Some (x (nat (GetIndexOfWebState l (Some p)))),
                     navigation_index = navigation_index (w_opener (web_state_wrappers l ! k))\<rparr>))"
proof -
  have w: "w = \<lparr>sessions = map (stored_session body ud l) [0..<n],
     selectedIndex = (if active_index l \<noteq> kInvalidIndex then Some (nat (active_index l)) else None)\<rparr>"
    using win SerializeWebStateList_ok [OF l, of body ud] n by simp
  obtain l1 l2 where l1: "orun (insert_session e factory) l0 (enumerate 0 (sessions w)) = Inr l1"
    and l2: "orun (restore_opener_at ud' (count l0)) l1 [count l0..count l1 - 1] = Inr l2"
    "wsl_inv l2" "wsl_idle l2" "web_states l2 = web_states l0 @ map x [0..<n]" "active_index l2 = active_index l0"
    and ops: "\<forall>k < n. w_opener (web_state_wrappers l2 ! (n0 + k)) =
       (case opener (w_opener (web_state_wrappers l ! k)) of None \<Rightarrow> WebStateOpener_null
        | Some p \<Rightarrow> \<lparr>opener = Some (x (nat (GetIndexOfWebState l (Some p)))),
                     navigation_index = navigation_index (w_opener (web_state_wrappers l ! k))\<rparr>)"
    using deserialize_tabs [where e = e and factory = factory and body = body and ud = ud and ud' = ud' and x = x and n = n, OF l l0 cnt n x fresh ud'] unfolding n0 w by auto
  show ?thesis
  proof (cases "active_index l = kInvalidIndex")
    case True
    then have "DeserializeWebStateList e ud' factory l0 w = Inr l2"
      using l1 l2(1) by (simp add: DeserializeWebStateList_def Let_def w)
    then show ?thesis using l2 ops True by auto
  next
    case False
    let ?a = "active_index l"
    have a: "0 \<le> ?a" "nat ?a < n" using False wsl_invD(2) [OF l] n
      by (auto simp: index_ok_def ContainsIndex_iff)
    have "length (web_states l2) = n0 + n" unfolding l2(4) using n0 by simp
    then have C: "ContainsIndex l2 (int n0 + ?a)" using a by (simp add: ContainsIndex_def count_def)
    obtain l3 where l3: "ActivateWebStateAt l2 (int n0 + ?a) = Inr l3" "wsl_inv l3"
      "web_states l3 = web_states l2" "active_index l3 = int n0 + ?a"
      using ActivateWebStateAt_ok [OF l2(2,3) C] by blast
    have "?a < INT_MAX" using cnt a n by (simp add: count_def)
    then have "DeserializeWebStateList e ud' factory l0 w = Inr l3"
      using l1 l2(1) l3(1) a False n0
      by (simp add: DeserializeWebStateList_def Let_def w count_def)
    moreover have "web_state_wrappers l3 ! (n0 + k) = web_state_wrappers l2 ! (n0 + k)" for k
    proof -
      obtain l4 where l4: "ActivateWebStateAtImpl (l2\<lparr>locked := True\<rparr>) (int n0 + ?a) Activated = Inr l4"
        "l3 = Unlock l4" using l3(1) l2(3)
        by (auto simp: ActivateWebStateAt_def LockForMutation_def wsl_idle_def obind_eq_Inr)
      have "nat (active_index l2) \<noteq> n0 + k" if "active_index l2 \<noteq> kInvalidIndex"
        using that wsl_invD(2) [OF l0(1)] n0 l2(5) by (auto simp: index_ok_def ContainsIndex_iff)
      then show ?thesis using Activate_wrappers [OF l4(1)] l4(2) wsl_invD(2) [OF l2(2)] by auto
    qed
    ultimately show ?thesis using l2(4) l3 ops False by auto
  qed
qed

section \<open>Property\<close>

definition demo_pair_env :: web_env where
  "demo_pair_env = \<lparr>last_committed_item_index = (\<lambda>w. 5), visible_url = (\<lambda>w. [])\<rparr>"

definition demo_pair :: web_state_list where
  "demo_pair =
     (case orun (wsl_step demo_pair_env) new_web_state_list
             [Op_InsertWebState 0 (Some 1) 1 WebStateOpener_null,
              Op_InsertWebState 0 (Some 2) 0 \<lparr>opener = Some 1, navigation_index = 5\<rparr>] of
        Inl _ \<Rightarrow> new_web_state_list | Inr l \<Rightarrow> l)"

lemma demo_pair_ok: "wsl_inv demo_pair" "length (web_state_wrappers demo_pair) = 2"
  "count new_web_state_list + count demo_pair < INT_MAX" "web_states new_web_state_list = []"
  "active_index demo_pair = 0" "kInvalidIndex \<noteq> 0"
  by code_simp+



end
