(* ===== verification/Wk_Navigation_Util.thy ===== *)
theory Wk_Navigation_Util
  imports Prelude
begin

text \<open>
  The URLs the web layer makes for itself, \<open>web/navigation/wk_navigation_util.mm\<close>: the
  \<open>restore_session.html\<close> URLs that rebuild a session or redirect to a target, and the
  \<open>about:blank?for=\<close> placeholders of failed navigations; and the window of navigation items
  that a restored session keeps.

  \<open>GURL\<close>, the escaping functions of \<open>net\<close> and the JSON writer are not part of the
  repository: they are the record \<open>gurl_ops\<close>, and \<open>gurl_laws\<close> names what the code relies
  on.  The feature flags, the bundle path and the \<open>WebClient\<close> are the record \<open>web_platform\<close>.
  The overloads for \<open>NSURL\<close> are not modelled.
\<close>

section \<open>Platform\<close>

record restore_session =
  session_offset :: int
  session_urls :: "string list"
  session_titles :: "string list"

record 'u gurl_ops =
  spec :: "'u \<Rightarrow> string"
  is_valid :: "'u \<Rightarrow> bool"
  url_scheme :: "'u \<Rightarrow> string"
  url_path :: "'u \<Rightarrow> string"
  url_query :: "'u \<Rightarrow> string"
  url_ref :: "'u \<Rightarrow> string"
  is_about_blank :: "'u \<Rightarrow> bool"
  gurl :: "string \<Rightarrow> 'u"
  empty_gurl :: 'u
  replace_ref :: "string \<Rightarrow> 'u \<Rightarrow> 'u"
  replace_scheme_and_path :: "string \<Rightarrow> string \<Rightarrow> 'u \<Rightarrow> 'u"
  append_query_parameter :: "'u \<Rightarrow> string \<Rightarrow> string \<Rightarrow> 'u"
  value_for_key_in_query :: "'u \<Rightarrow> string \<Rightarrow> string option"
  escape_query_param_value :: "string \<Rightarrow> string"
  unescape_binary_url_component :: "string \<Rightarrow> string"
  json_write :: "restore_session \<Rightarrow> string"

text \<open>\<open>session_size_param\<close> is the value of the field trial parameter \<open>session-size\<close> when
  \<open>kReduceSessionSize\<close> is enabled on iOS 14 or later.\<close>

record 'u web_platform = "'u gurl_ops" +
  use_js_for_error_page :: bool
  session_size_param :: "int option"
  restore_session_resource_path :: string
  is_app_specific_url :: "'u \<Rightarrow> bool"
  is_error_page_file_url :: "'u \<Rightarrow> bool"

definition kMaxSessionSize :: int where "kMaxSessionSize = 75"
definition kRestoreSessionSessionHashPrefix :: string where
  "kRestoreSessionSessionHashPrefix = ''session=''"
definition kRestoreSessionTargetUrlHashPrefix :: string where
  "kRestoreSessionTargetUrlHashPrefix = ''targetUrl=''"
definition kOriginalUrlKey :: string where "kOriginalUrlKey = ''for''"
definition kAboutBlankURL :: string where "kAboutBlankURL = ''about:blank''"

text \<open>What the code relies on: replacing a component of a URL changes that component only,
  escaping can be undone, a valid URL is determined by its text, and a query parameter that
  was appended to \<open>about:blank\<close> can be read back.\<close>

definition gurl_laws :: "('u, 'z) gurl_ops_scheme \<Rightarrow> bool" where
  "gurl_laws P \<longleftrightarrow>
     (\<forall>r u. url_ref P (replace_ref P r u) = r \<and> url_path P (replace_ref P r u) = url_path P u \<and>
            url_scheme P (replace_ref P r u) = url_scheme P u) \<and>
     (\<forall>p u. url_scheme P (replace_scheme_and_path P ''file'' p u) = ''file'') \<and>
     (\<forall>s. unescape_binary_url_component P (escape_query_param_value P s) = s) \<and>
     (\<forall>u. is_valid P u \<longrightarrow> gurl P (spec P u) = u) \<and>
     (\<forall>k v. let u = append_query_parameter P (gurl P kAboutBlankURL) k v in
        is_valid P u \<and> is_about_blank P u \<and> take (length k) (url_query P u) = k \<and>
        value_for_key_in_query P u k = Some v)"

lemma gurl_lawsD:
  assumes "gurl_laws P"
  shows "url_ref P (replace_ref P r u) = r" "url_path P (replace_ref P r u) = url_path P u"
    "url_scheme P (replace_ref P r u) = url_scheme P u"
    "url_scheme P (replace_scheme_and_path P ''file'' p u) = ''file''"
    "unescape_binary_url_component P (escape_query_param_value P t) = t"
    "is_valid P u \<Longrightarrow> gurl P (spec P u) = u"
    "is_valid P (append_query_parameter P (gurl P kAboutBlankURL) k v)"
    "is_about_blank P (append_query_parameter P (gurl P kAboutBlankURL) k v)"
    "take (length k) (url_query P (append_query_parameter P (gurl P kAboutBlankURL) k v)) = k"
    "value_for_key_in_query P (append_query_parameter P (gurl P kAboutBlankURL) k v) k = Some v"
  using assms by (simp_all add: gurl_laws_def Let_def)

section \<open>The window of a restored session\<close>

definition max_session_size :: "('u, 'z) web_platform_scheme \<Rightarrow> int" where
  "max_session_size P =
     (case session_size_param P of None \<Rightarrow> kMaxSessionSize
      | Some n \<Rightarrow> max (min n kMaxSessionSize) 40)"

text \<open>The result is \<open>(offset, size, updated last committed index)\<close>.\<close>

definition GetSafeItemRange :: "('u, 'z) web_platform_scheme \<Rightarrow> int \<Rightarrow> int \<Rightarrow> int \<times> int \<times> int" where
  "GetSafeItemRange P last_committed_item_index item_count =
     (let m = max_session_size P;
          size = min m item_count;
          offset = max (min (last_committed_item_index - m div 2) (item_count - m)) 0
      in (offset, size, last_committed_item_index - offset))"

section \<open>Restore-session URLs\<close>

definition GetRestoreSessionBaseUrl :: "('u, 'z) web_platform_scheme \<Rightarrow> 'u" where
  "GetRestoreSessionBaseUrl P =
     replace_scheme_and_path P ''file'' (restore_session_resource_path P) (gurl P kAboutBlankURL)"

definition IsRestoreSessionUrl :: "('u, 'z) web_platform_scheme \<Rightarrow> 'u \<Rightarrow> bool" where
  "IsRestoreSessionUrl P url \<longleftrightarrow>
     url_scheme P url = ''file'' \<and> url_path P url = url_path P (GetRestoreSessionBaseUrl P)"

text \<open>\<open>items\<close> holds the URL and the title of each navigation item; the result is the URL and
  \<open>first_index\<close>.\<close>

definition CreateRestoreSessionUrl ::
    "('u, 'z) web_platform_scheme \<Rightarrow> int \<Rightarrow> ('u \<times> string) list \<Rightarrow> ('u \<times> int) outcome" where
  "CreateRestoreSessionUrl P last_committed_item_index items =
     dcheck (0 \<le> last_committed_item_index \<and> last_committed_item_index < int (length items))
     (let (offset, new_size, new_last) =
            GetSafeItemRange P last_committed_item_index (int (length items));
          restored = take (nat new_size) (drop (nat offset) items);
          session = \<lparr>session_offset = new_last + 1 - new_size,
                     session_urls = map (\<lambda>(u, t). spec P u) restored,
                     session_titles = map snd restored\<rparr>;
          ref = kRestoreSessionSessionHashPrefix @ escape_query_param_value P (json_write P session)
      in Inr (replace_ref P ref (GetRestoreSessionBaseUrl P), offset))"

definition CreateRedirectUrl :: "('u, 'z) web_platform_scheme \<Rightarrow> 'u \<Rightarrow> 'u" where
  "CreateRedirectUrl P target_url =
     replace_ref P (kRestoreSessionTargetUrlHashPrefix @ escape_query_param_value P (spec P target_url))
       (GetRestoreSessionBaseUrl P)"

definition ExtractTargetURL :: "('u, 'z) web_platform_scheme \<Rightarrow> 'u \<Rightarrow> 'u option outcome" where
  "ExtractTargetURL P url =
     dcheck (IsRestoreSessionUrl P url)
     (let n = length kRestoreSessionTargetUrlHashPrefix in
      if take n (url_ref P url) = kRestoreSessionTargetUrlHashPrefix
      then Inr (Some (gurl P (unescape_binary_url_component P (drop n (url_ref P url)))))
      else Inr None)"

section \<open>Placeholder URLs\<close>

definition IsPlaceholderUrl :: "('u, 'z) web_platform_scheme \<Rightarrow> 'u \<Rightarrow> bool outcome" where
  "IsPlaceholderUrl P url =
     dcheck (\<not> use_js_for_error_page P)
       (Inr (is_about_blank P url \<and>
             take (length kOriginalUrlKey) (url_query P url) = kOriginalUrlKey))"

definition CreatePlaceholderUrlForUrl :: "('u, 'z) web_platform_scheme \<Rightarrow> 'u \<Rightarrow> 'u outcome" where
  "CreatePlaceholderUrlForUrl P original_url =
     dcheck (\<not> use_js_for_error_page P)
     (if \<not> is_valid P original_url then Inr (empty_gurl P)
      else
        let placeholder_url =
              append_query_parameter P (gurl P kAboutBlankURL) kOriginalUrlKey (spec P original_url)
        in dcheck (is_valid P placeholder_url) (Inr placeholder_url))"

definition ExtractUrlFromPlaceholderUrl :: "('u, 'z) web_platform_scheme \<Rightarrow> 'u \<Rightarrow> 'u outcome" where
  "ExtractUrlFromPlaceholderUrl P url =
     dcheck (\<not> use_js_for_error_page P)
     (obind (IsPlaceholderUrl P url) (\<lambda>is_placeholder.
      if is_placeholder then
        (case value_for_key_in_query P url kOriginalUrlKey of
           None \<Rightarrow> Inr (empty_gurl P)
         | Some v \<Rightarrow>
             let decoded_url = gurl P v in
             Inr (if is_valid P decoded_url then decoded_url else empty_gurl P))
      else Inr (empty_gurl P)))"

section \<open>Classification\<close>

definition IsWKInternalUrl :: "('u, 'z) web_platform_scheme \<Rightarrow> 'u \<Rightarrow> bool outcome" where
  "IsWKInternalUrl P url =
     obind (if \<not> use_js_for_error_page P then IsPlaceholderUrl P url else Inr False) (\<lambda>p.
     Inr (p \<or> IsRestoreSessionUrl P url))"

definition URLNeedsUserAgentType :: "('u, 'z) web_platform_scheme \<Rightarrow> 'u \<Rightarrow> bool outcome" where
  "URLNeedsUserAgentType P url =
     (if is_app_specific_url P url then Inr False
      else
        obind (if \<not> use_js_for_error_page P \<and> url_scheme P url = ''about''
               then IsPlaceholderUrl P url else Inr False) (\<lambda>placeholder.
        if placeholder then
          obind (ExtractUrlFromPlaceholderUrl P url) (\<lambda>u. Inr (\<not> is_app_specific_url P u))
        else if url_scheme P url = ''about'' then Inr False
        else if url_scheme P url = ''file'' \<and> IsRestoreSessionUrl P url then Inr True
        else if url_scheme P url = ''file'' \<and> use_js_for_error_page P \<and> is_error_page_file_url P url
        then Inr True
        else if url_scheme P url = ''file'' then Inr False
        else Inr True))"

section \<open>Lemmas\<close>

lemma max_session_size_bounds: "40 \<le> max_session_size P \<and> max_session_size P \<le> 75"
  by (simp add: max_session_size_def kMaxSessionSize_def split: option.split)

lemma GetSafeItemRange_ok:
  assumes r: "GetSafeItemRange P l n = (fst_index, sz, index)" and l: "0 \<le> l" "l < n"
  shows "0 \<le> fst_index" "0 < sz" "sz \<le> 75" "fst_index + sz \<le> n" "n \<le> 40 \<longrightarrow> sz = n"
    "0 \<le> index" "index < sz" "fst_index + index = l"
proof -
  define m where "m = max_session_size P"
  define h where "h = m div 2"
  have m: "40 \<le> m" "m \<le> 75" using max_session_size_bounds [of P] by (simp_all add: m_def)
  then have h: "20 \<le> h" "h < m" by (simp_all add: h_def)
  have "sz = min m n" "fst_index = max (min (l - h) (n - m)) 0" "index = l - fst_index"
    using r by (simp_all add: GetSafeItemRange_def Let_def m_def [symmetric] h_def [symmetric])
  then show "0 \<le> fst_index" "0 < sz" "sz \<le> 75" "fst_index + sz \<le> n" "n \<le> 40 \<longrightarrow> sz = n"
    "0 \<le> index" "index < sz" "fst_index + index = l" using l m h by linarith+
qed

lemma IsRestoreSessionUrl_replace_ref [simp]:
  "gurl_laws P \<Longrightarrow> IsRestoreSessionUrl P (replace_ref P r (GetRestoreSessionBaseUrl P))"
  by (simp add: IsRestoreSessionUrl_def gurl_lawsD GetRestoreSessionBaseUrl_def)

lemma ExtractTargetURL_redirect:
  "gurl_laws P \<Longrightarrow> is_valid P u \<Longrightarrow> ExtractTargetURL P (CreateRedirectUrl P u) = Inr (Some u)"
  by (simp add: ExtractTargetURL_def CreateRedirectUrl_def gurl_lawsD)

lemma CreatePlaceholderUrlForUrl_ok:
  assumes "gurl_laws P" and "\<not> use_js_for_error_page P"
  shows "\<exists>p. CreatePlaceholderUrlForUrl P u = Inr p \<and>
    (is_valid P u \<longrightarrow> IsPlaceholderUrl P p = Inr True \<and> ExtractUrlFromPlaceholderUrl P p = Inr u)"
  using assms
  by (auto simp: CreatePlaceholderUrlForUrl_def IsPlaceholderUrl_def ExtractUrlFromPlaceholderUrl_def
      gurl_lawsD Let_def)

section \<open>A concrete platform\<close>

text \<open>A URL is its text: the scheme ends at the first colon, the path at a question mark or a
  number sign, the query is the rest behind the question mark, the fragment the rest behind
  the number sign; escaping is the identity.\<close>

definition text_base :: "string \<Rightarrow> string" where
  "text_base u = takeWhile (\<lambda>c. c \<noteq> CHR ''#'') u"

definition text_query :: "string \<Rightarrow> string" where
  "text_query u = drop 1 (dropWhile (\<lambda>c. c \<noteq> CHR ''?'') u)"

definition demo_platform :: "string web_platform" where
  "demo_platform =
     \<lparr>spec = (\<lambda>u. u), is_valid = (\<lambda>u. u \<noteq> []),
      url_scheme = (\<lambda>u. takeWhile (\<lambda>c. c \<noteq> CHR '':'') (text_base u)),
      url_path = (\<lambda>u. takeWhile (\<lambda>c. c \<noteq> CHR ''?'') (drop 1 (dropWhile (\<lambda>c. c \<noteq> CHR '':'') (text_base u)))),
      url_query = text_query,
      url_ref = (\<lambda>u. drop 1 (dropWhile (\<lambda>c. c \<noteq> CHR ''#'') u)),
      is_about_blank = (\<lambda>u. take 11 u = ''about:blank''),
      gurl = (\<lambda>s. s), empty_gurl = [],
      replace_ref = (\<lambda>r u. text_base u @ ''#'' @ r),
      replace_scheme_and_path = (\<lambda>s p u. s @ '':'' @ p),
      append_query_parameter = (\<lambda>u k v. u @ ''?'' @ k @ ''='' @ v),
      value_for_key_in_query = (\<lambda>u k. if take (Suc (length k)) (text_query u) = k @ ''=''
                                       then Some (drop (Suc (length k)) (text_query u)) else None),
      escape_query_param_value = (\<lambda>s. s), unescape_binary_url_component = (\<lambda>s. s),
      json_write = (\<lambda>s. concat (session_urls s)),
      use_js_for_error_page = False, session_size_param = None,
      restore_session_resource_path = ''/restore_session.html'',
      is_app_specific_url = (\<lambda>u. take 7 u = ''chrome:''), is_error_page_file_url = (\<lambda>u. False)\<rparr>"

lemma text_base_append: "text_base (text_base u @ ''#'' @ r) = text_base u"
  "drop 1 (dropWhile (\<lambda>c. c \<noteq> CHR ''#'') (text_base u @ ''#'' @ r)) = r"
  unfolding text_base_def
  by (induction u) auto

lemma demo_platform_laws: "gurl_laws demo_platform"
  unfolding gurl_laws_def
proof (intro conjI allI impI)
  fix k v
  have q: "text_query (''about:blank'' @ ''?'' @ k @ ''='' @ v) = k @ ''='' @ v"
    by (simp add: text_query_def)
  show "let u = append_query_parameter demo_platform (gurl demo_platform kAboutBlankURL) k v
        in is_valid demo_platform u \<and> is_about_blank demo_platform u \<and>
          take (length k) (url_query demo_platform u) = k \<and> value_for_key_in_query demo_platform u k = Some v"
    using q by (simp add: demo_platform_def kAboutBlankURL_def Let_def)
qed (use text_base_append in \<open>simp_all add: demo_platform_def text_base_def\<close>)

section \<open>Properties\<close>

text \<open>C11: The window of a restored session: for a valid last committed index the window lies
  inside the list of items, holds all items or as many as the session limit (between 40 and
  75) allows, and the updated index names the same item inside the window.\<close>
theorem safe_item_range:
  assumes "0 \<le> last_committed" and "last_committed < item_count"
  shows "case GetSafeItemRange P last_committed item_count of (offset, sz, index) \<Rightarrow>
    0 \<le> offset \<and> 0 < sz \<and> sz \<le> 75 \<and> offset + sz \<le> item_count \<and>
    (item_count \<le> 40 \<longrightarrow> sz = item_count) \<and>
    0 \<le> index \<and> index < sz \<and> offset + index = last_committed"
  using GetSafeItemRange_ok [OF _ assms] by (auto split: prod.split)

theorem safe_item_range_witness:
  "GetSafeItemRange demo_platform 90 100 = (25, 75, 65) \<and>
   (case GetSafeItemRange demo_platform 90 100 of (offset, sz, index) \<Rightarrow> index < sz)"
  using safe_item_range [of 90 100 demo_platform]
  by (simp add: GetSafeItemRange_def Let_def max_session_size_def demo_platform_def kMaxSessionSize_def)

text \<open>The URL that restores a session lists the URLs and titles of the items of the window
  in order, and its offset, counted back from the last restored item, names the item that was
  last committed.\<close>
theorem restore_session_url_selects_the_committed_item:
  assumes "0 \<le> last_committed" and "last_committed < int (length items)"
  shows "\<exists>first sz session.
    CreateRestoreSessionUrl P last_committed items =
      Inr (replace_ref P (kRestoreSessionSessionHashPrefix @ escape_query_param_value P (json_write P session))
             (GetRestoreSessionBaseUrl P), int first) \<and>
    first + sz \<le> length items \<and>
    session_urls session = map (spec P \<circ> fst) (take sz (drop first items)) \<and>
    session_titles session = map snd (take sz (drop first items)) \<and>
    session_offset session \<le> 0 \<and>
    first + nat (int sz - 1 + session_offset session) = nat last_committed"
proof -
  let ?r = "GetSafeItemRange P last_committed (int (length items))"
  obtain offset sz index where r: "?r = (offset, sz, index)" by (cases ?r)
  note b = GetSafeItemRange_ok [OF r assms]
  have f: "map (\<lambda>(u, t). spec P u) xs = map (spec P \<circ> fst) xs" for xs :: "('a \<times> string) list"
    by (simp add: case_prod_beta comp_def)
  show ?thesis
    by (rule exI [of _ "nat offset"], rule exI [of _ "nat sz"],
        rule exI [of _ "\<lparr>session_offset = index + 1 - sz,
          session_urls = map (\<lambda>(u, t). spec P u) (take (nat sz) (drop (nat offset) items)),
          session_titles = map snd (take (nat sz) (drop (nat offset) items))\<rparr>"])
       (use assms b in \<open>simp add: CreateRestoreSessionUrl_def Let_def r f; linarith\<close>)
qed

theorem restore_session_url_selects_the_committed_item_witness:
  "\<exists>first sz session.
    CreateRestoreSessionUrl demo_platform 1 [(''a:1'', ''one''), (''a:2'', ''two''), (''a:3'', ''three'')] =
      Inr (replace_ref demo_platform (kRestoreSessionSessionHashPrefix @
             escape_query_param_value demo_platform (json_write demo_platform session))
             (GetRestoreSessionBaseUrl demo_platform), int first) \<and>
    first + nat (int sz - 1 + session_offset session) = 1"
  using restore_session_url_selects_the_committed_item
    [of 1 "[(''a:1'', ''one''), (''a:2'', ''two''), (''a:3'', ''three'')]" demo_platform]
  by simp blast



end
