(* ===== verification/Error_Retry.thy ===== *)
theory Error_Retry
  imports Wk_Navigation_Util
begin

text \<open>
  The error and retry state of a navigation item,
  \<open>web/navigation/error_retry_state_machine.mm\<close>: the state, the four setters and the three
  transitions run by the navigation delegate, each returning the command the web view has to
  execute next.  \<open>retry_step\<close> is the protocol between the machine and the web view: which
  callback may follow which command.
\<close>

section \<open>The machine\<close>

datatype ErrorRetryState =
    kNewRequest | kNoNavigationError | kLoadingPlaceholder | kRetryPlaceholderNavigation
  | kReadyToDisplayError | kDisplayingError | kNavigatingToFailedNavigationItem
  | kRetryFailedNavigationItem | kIgnorePlaceholderNavigation

datatype ErrorRetryCommand =
    kLoadPlaceholder | kLoadError | kReload | kRewriteToWebViewURL | kRewriteToPlaceholderURL | kDoNothing

record 'u ErrorRetryStateMachine =
  ers_state :: ErrorRetryState
  ers_url :: 'u

definition new_ErrorRetryStateMachine :: "('u, 'z) web_platform_scheme \<Rightarrow> 'u ErrorRetryStateMachine" where
  "new_ErrorRetryStateMachine P = \<lparr>ers_state = kNewRequest, ers_url = empty_gurl P\<rparr>"

definition SetURL :: "'u ErrorRetryStateMachine \<Rightarrow> 'u \<Rightarrow> 'u ErrorRetryStateMachine" where
  "SetURL m url = m\<lparr>ers_url := url\<rparr>"

definition SetNoNavigationError :: "'u ErrorRetryStateMachine \<Rightarrow> 'u ErrorRetryStateMachine" where
  "SetNoNavigationError m = m\<lparr>ers_state := kNoNavigationError\<rparr>"

definition SetDisplayingWebError :: "'u ErrorRetryStateMachine \<Rightarrow> 'u ErrorRetryStateMachine outcome" where
  "SetDisplayingWebError m =
     dcheck (ers_state m = kReadyToDisplayError \<or> ers_state m = kRetryFailedNavigationItem)
       (Inr (m\<lparr>ers_state := kDisplayingError\<rparr>))"

definition SetRetryPlaceholderNavigation :: "'u ErrorRetryStateMachine \<Rightarrow> 'u ErrorRetryStateMachine outcome" where
  "SetRetryPlaceholderNavigation m =
     dcheck (ers_state m = kNoNavigationError) (Inr (m\<lparr>ers_state := kRetryPlaceholderNavigation\<rparr>))"

definition SetIgnorePlaceholderNavigation :: "'u ErrorRetryStateMachine \<Rightarrow> 'u ErrorRetryStateMachine" where
  "SetIgnorePlaceholderNavigation m = m\<lparr>ers_state := kIgnorePlaceholderNavigation\<rparr>"

definition DidFailProvisionalNavigation ::
    "('u, 'z) web_platform_scheme \<Rightarrow> 'u ErrorRetryStateMachine \<Rightarrow> 'u \<Rightarrow> 'u \<Rightarrow>
     ('u ErrorRetryStateMachine \<times> ErrorRetryCommand) outcome" where
  "DidFailProvisionalNavigation P m web_view_url error_url =
     (case ers_state m of
        kNewRequest \<Rightarrow>
          (if web_view_url = CreateRedirectUrl P error_url
           then Inr (m\<lparr>ers_state := kReadyToDisplayError\<rparr>, kLoadError)
           else Inr (m\<lparr>ers_state := kLoadingPlaceholder\<rparr>, kLoadPlaceholder))
      | kNoNavigationError \<Rightarrow> Inr (m\<lparr>ers_state := kLoadingPlaceholder\<rparr>, kRewriteToPlaceholderURL)
      | kRetryFailedNavigationItem \<Rightarrow> Inr (m\<lparr>ers_state := kLoadingPlaceholder\<rparr>, kRewriteToPlaceholderURL)
      | kDisplayingError \<Rightarrow> Inr (m\<lparr>ers_state := kLoadingPlaceholder\<rparr>, kRewriteToPlaceholderURL)
      | kLoadingPlaceholder \<Rightarrow> Inl Notreached
      | kRetryPlaceholderNavigation \<Rightarrow> Inl Notreached
      | kReadyToDisplayError \<Rightarrow> Inl Notreached
      | kNavigatingToFailedNavigationItem \<Rightarrow> Inl Notreached
      | kIgnorePlaceholderNavigation \<Rightarrow> Inl Notreached)"

definition BackForwardOrReloadFailed ::
    "'u ErrorRetryStateMachine \<Rightarrow> 'u ErrorRetryStateMachine \<times> ErrorRetryCommand" where
  "BackForwardOrReloadFailed m = (m\<lparr>ers_state := kReadyToDisplayError\<rparr>, kLoadError)"

definition DidFailNavigation ::
    "'u ErrorRetryStateMachine \<Rightarrow> ('u ErrorRetryStateMachine \<times> ErrorRetryCommand) outcome" where
  "DidFailNavigation m =
     (case ers_state m of
        kNewRequest \<Rightarrow> Inr (m\<lparr>ers_state := kReadyToDisplayError\<rparr>, kLoadError)
      | kNoNavigationError \<Rightarrow> Inr (BackForwardOrReloadFailed m)
      | kRetryFailedNavigationItem \<Rightarrow> Inr (BackForwardOrReloadFailed m)
      | kDisplayingError \<Rightarrow> Inr (BackForwardOrReloadFailed m)
      | kLoadingPlaceholder \<Rightarrow> Inl Notreached
      | kRetryPlaceholderNavigation \<Rightarrow> Inl Notreached
      | kReadyToDisplayError \<Rightarrow> Inl Notreached
      | kNavigatingToFailedNavigationItem \<Rightarrow> Inl Notreached
      | kIgnorePlaceholderNavigation \<Rightarrow> Inl Notreached)"

text \<open>\<open>ios13\<close> is the availability check around the first \<open>DCHECK_EQ\<close>.\<close>

definition DidFinishNavigation ::
    "('u, 'z) web_platform_scheme \<Rightarrow> bool \<Rightarrow> 'u ErrorRetryStateMachine \<Rightarrow> 'u \<Rightarrow>
     ('u ErrorRetryStateMachine \<times> ErrorRetryCommand) outcome" where
  "DidFinishNavigation P ios13 m web_view_url =
     (case ers_state m of
        kLoadingPlaceholder \<Rightarrow>
          obind (if ios13
                 then obind (CreatePlaceholderUrlForUrl P (ers_url m)) (\<lambda>p. dcheck (web_view_url = p) (Inr ()))
                 else Inr ()) (\<lambda>_.
          Inr (m\<lparr>ers_state := kReadyToDisplayError\<rparr>, kLoadError))
      | kRetryPlaceholderNavigation \<Rightarrow>
          obind (IsPlaceholderUrl P web_view_url) (\<lambda>is_placeholder.
          if is_placeholder then
            obind (CreatePlaceholderUrlForUrl P (ers_url m)) (\<lambda>p.
            dcheck (web_view_url = p)
              (Inr (m\<lparr>ers_state := kRetryPlaceholderNavigation\<rparr>, kRewriteToWebViewURL)))
          else Inr (m\<lparr>ers_state := kReadyToDisplayError\<rparr>, kLoadError))
      | kNewRequest \<Rightarrow>
          (if IsRestoreSessionUrl P web_view_url then Inr (m, kDoNothing)
           else obind (IsPlaceholderUrl P web_view_url) (\<lambda>is_placeholder.
             if is_placeholder
             then Inr (m\<lparr>ers_state := kNavigatingToFailedNavigationItem\<rparr>, kRewriteToWebViewURL)
             else Inr (m\<lparr>ers_state := kNoNavigationError\<rparr>, kDoNothing)))
      | kReadyToDisplayError \<Rightarrow>
          dcheck (web_view_url = ers_url m) (Inr (m\<lparr>ers_state := kDisplayingError\<rparr>, kDoNothing))
      | kDisplayingError \<Rightarrow>
          obind (CreatePlaceholderUrlForUrl P (ers_url m)) (\<lambda>p.
          if web_view_url = p
          then Inr (m\<lparr>ers_state := kNavigatingToFailedNavigationItem\<rparr>, kRewriteToWebViewURL)
          else
            obind (if IsRestoreSessionUrl P web_view_url then ExtractTargetURL P web_view_url
                   else Inr None) (\<lambda>target_url.
            if target_url = Some (ers_url m)
            then Inr (m\<lparr>ers_state := kNoNavigationError\<rparr>, kDoNothing)
            else dcheck (web_view_url = ers_url m)
                   (Inr (m\<lparr>ers_state := kNoNavigationError\<rparr>, kDoNothing))))
      | kNavigatingToFailedNavigationItem \<Rightarrow>
          dcheck (web_view_url = ers_url m) (Inr (m\<lparr>ers_state := kRetryFailedNavigationItem\<rparr>, kReload))
      | kRetryFailedNavigationItem \<Rightarrow>
          dcheck (web_view_url = ers_url m) (Inr (m\<lparr>ers_state := kNoNavigationError\<rparr>, kDoNothing))
      | kIgnorePlaceholderNavigation \<Rightarrow> Inr (m\<lparr>ers_state := kNoNavigationError\<rparr>, kDoNothing)
      | kNoNavigationError \<Rightarrow> Inr (m, kDoNothing))"

section \<open>The navigation delegate around the machine\<close>

text \<open>
  The part of \<open>didFinishNavigation\<close> of \<open>web/navigation/crw_wk_navigation_handler.mm\<close> that
  drives the machine: a placeholder that finished in an item without an error restores the
  item's URL and starts a retry.  \<open>NavigationItemImpl::SetURL\<close> passes the URL on to the machine.
\<close>

definition handler_did_finish ::
    "('u, 'z) web_platform_scheme \<Rightarrow> bool \<Rightarrow> 'u ErrorRetryStateMachine \<Rightarrow> 'u \<Rightarrow>
     ('u ErrorRetryStateMachine \<times> ErrorRetryCommand) outcome" where
  "handler_did_finish P ios13 m web_view_url =
     obind (IsPlaceholderUrl P web_view_url) (\<lambda>is_placeholder.
     obind (if is_placeholder \<and> ers_url m = web_view_url
            then obind (ExtractUrlFromPlaceholderUrl P web_view_url) (\<lambda>u. Inr (SetURL m u))
            else Inr m) (\<lambda>m1.
     obind (if is_placeholder \<and> ers_state m1 = kNoNavigationError
            then obind (ExtractUrlFromPlaceholderUrl P web_view_url) (\<lambda>u.
                 SetRetryPlaceholderNavigation (SetURL m1 u))
            else Inr m1) (\<lambda>m2.
     DidFinishNavigation P ios13 m2 web_view_url)))"

datatype 'u web_view_event = Finished 'u | FailedProvisional 'u 'u | Failed

fun retry_step ::
    "('u, 'z) web_platform_scheme \<Rightarrow> bool \<Rightarrow> 'u ErrorRetryStateMachine \<times> ErrorRetryCommand \<Rightarrow>
     'u web_view_event \<Rightarrow> ('u ErrorRetryStateMachine \<times> ErrorRetryCommand) outcome" where
  "retry_step P ios13 (m, c) (Finished u) = handler_did_finish P ios13 m u"
| "retry_step P ios13 (m, c) (FailedProvisional u e) = DidFailProvisionalNavigation P m u e"
| "retry_step P ios13 (m, c) Failed = DidFailNavigation m"

text \<open>
  What the web view may report after it has executed a command
  (\<open>handleErrorRetryCommand\<close>): a placeholder load finishes with the placeholder of the item's
  URL, a load of the error page or of the rewritten URL with the item's URL, a reload with
  the item's URL or with a failure.  With no command outstanding the user navigates: a
  placeholder that finishes then is the placeholder of an ordinary URL, and an item that
  displays an error can be reached through its URL, its placeholder or its redirect URL.
\<close>

definition ordinary_url :: "('u, 'z) web_platform_scheme \<Rightarrow> 'u \<Rightarrow> bool" where
  "ordinary_url P u \<longleftrightarrow> is_valid P u \<and> IsPlaceholderUrl P u = Inr False"

fun retry_ok ::
    "('u, 'z) web_platform_scheme \<Rightarrow> 'u ErrorRetryStateMachine \<times> ErrorRetryCommand \<Rightarrow>
     'u web_view_event \<Rightarrow> bool" where
  "retry_ok P (m, c) (Finished u) \<longleftrightarrow>
     (case c of
        kLoadPlaceholder \<Rightarrow> CreatePlaceholderUrlForUrl P (ers_url m) = Inr u
      | kRewriteToPlaceholderURL \<Rightarrow> CreatePlaceholderUrlForUrl P (ers_url m) = Inr u
      | kLoadError \<Rightarrow> u = ers_url m
      | kRewriteToWebViewURL \<Rightarrow> u = ers_url m
      | kReload \<Rightarrow> u = ers_url m
      | kDoNothing \<Rightarrow>
          (if ers_state m = kDisplayingError
           then u = ers_url m \<or> CreatePlaceholderUrlForUrl P (ers_url m) = Inr u \<or>
                u = CreateRedirectUrl P (ers_url m)
           else IsPlaceholderUrl P u = Inr False \<or>
                (\<exists>v. ordinary_url P v \<and> CreatePlaceholderUrlForUrl P v = Inr u)))"
| "retry_ok P (m, c) _ \<longleftrightarrow> c = kReload \<or> c = kDoNothing"

fun command_matches :: "ErrorRetryCommand \<Rightarrow> ErrorRetryState \<Rightarrow> bool" where
  "command_matches kLoadPlaceholder s \<longleftrightarrow> s = kLoadingPlaceholder"
| "command_matches kRewriteToPlaceholderURL s \<longleftrightarrow> s = kLoadingPlaceholder"
| "command_matches kLoadError s \<longleftrightarrow> s = kReadyToDisplayError"
| "command_matches kRewriteToWebViewURL s \<longleftrightarrow>
     s = kNavigatingToFailedNavigationItem \<or> s = kRetryPlaceholderNavigation"
| "command_matches kReload s \<longleftrightarrow> s = kRetryFailedNavigationItem"
| "command_matches kDoNothing s \<longleftrightarrow> s \<in> {kNewRequest, kNoNavigationError, kDisplayingError}"

definition retry_inv ::
    "('u, 'z) web_platform_scheme \<Rightarrow> 'u ErrorRetryStateMachine \<times> ErrorRetryCommand \<Rightarrow> bool" where
  "retry_inv P s \<longleftrightarrow> gurl_laws P \<and> \<not> use_js_for_error_page P \<and>
     ordinary_url P (ers_url (fst s)) \<and> command_matches (snd s) (ers_state (fst s))"

section \<open>The protocol keeps the machine away from its checks\<close>

lemma IsPlaceholderUrl_Inr:
  "\<not> use_js_for_error_page P \<Longrightarrow> \<exists>b. IsPlaceholderUrl P u = Inr b"
  by (simp add: IsPlaceholderUrl_def)

lemma placeholder_of_ordinary:
  assumes "gurl_laws P" "\<not> use_js_for_error_page P" "ordinary_url P v"
  obtains p where "CreatePlaceholderUrlForUrl P v = Inr p" "IsPlaceholderUrl P p = Inr True"
    "ExtractUrlFromPlaceholderUrl P p = Inr v" "p \<noteq> v"
proof -
  obtain p where "CreatePlaceholderUrlForUrl P v = Inr p" "IsPlaceholderUrl P p = Inr True"
    "ExtractUrlFromPlaceholderUrl P p = Inr v"
    using CreatePlaceholderUrlForUrl_ok [OF assms(1,2), of v] assms(3) by (auto simp: ordinary_url_def)
  moreover from this assms(3) have "p \<noteq> v" by (auto simp: ordinary_url_def)
  ultimately show ?thesis by (rule that)
qed

lemma retry_failed_safe:
  assumes "retry_inv P (m, c)" and "c = kReload \<or> c = kDoNothing"
  shows "\<exists>t. retry_step P ios13 (m, c) Failed = Inr t \<and> retry_inv P t"
    and "\<exists>t. retry_step P ios13 (m, c) (FailedProvisional u e) = Inr t \<and> retry_inv P t"
  using assms
  by (auto simp: retry_inv_def DidFailNavigation_def BackForwardOrReloadFailed_def
      DidFailProvisionalNavigation_def)

lemma handler_plain:
  assumes "IsPlaceholderUrl P u = Inr b" and "ers_url m \<noteq> u \<or> \<not> b"
    and "ers_state m \<noteq> kNoNavigationError \<or> \<not> b"
  shows "handler_did_finish P ios13 m u = DidFinishNavigation P ios13 m u"
  using assms by (auto simp: handler_did_finish_def)

lemma ordinary_not_placeholder:
  assumes "gurl_laws P" "\<not> use_js_for_error_page P" "ordinary_url P v"
  shows "CreatePlaceholderUrlForUrl P v \<noteq> Inr v"
  by (rule placeholder_of_ordinary [OF assms]) auto

lemma finish_commanded:
  assumes inv: "retry_inv P (m, c)" and c: "c \<noteq> kDoNothing" and u: "retry_ok P (m, c) (Finished u)"
  shows "\<exists>t. handler_did_finish P ios13 m u = Inr t \<and> retry_inv P t"
proof -
  have g: "gurl_laws P" "\<not> use_js_for_error_page P" "ordinary_url P (ers_url m)"
    and match: "command_matches c (ers_state m)"
    using inv by (simp_all add: retry_inv_def)
  note I = g match
  have url: "IsPlaceholderUrl P (ers_url m) = Inr False" using I by (simp add: ordinary_url_def)
  obtain p where p: "CreatePlaceholderUrlForUrl P (ers_url m) = Inr p" "IsPlaceholderUrl P p = Inr True"
    "p \<noteq> ers_url m" using placeholder_of_ordinary [OF g] by blast
  show ?thesis
  proof (cases c)
    case kLoadPlaceholder
    then have "u = p" "ers_state m = kLoadingPlaceholder" using u p I by auto
    moreover from this have "handler_did_finish P ios13 m u = DidFinishNavigation P ios13 m u"
      using handler_plain [OF p(2)] p(3) by auto
    ultimately show ?thesis using p I by (simp add: DidFinishNavigation_def retry_inv_def)
  next
    case kRewriteToPlaceholderURL
    then have "u = p" "ers_state m = kLoadingPlaceholder" using u p I by auto
    moreover from this have "handler_did_finish P ios13 m u = DidFinishNavigation P ios13 m u"
      using handler_plain [OF p(2)] p(3) by auto
    ultimately show ?thesis using p I by (simp add: DidFinishNavigation_def retry_inv_def)
  next
    case kLoadError
    then have "u = ers_url m" "ers_state m = kReadyToDisplayError" using u I by auto
    then show ?thesis using handler_plain [OF url] I by (simp add: DidFinishNavigation_def retry_inv_def)
  next
    case kReload
    then have "u = ers_url m" "ers_state m = kRetryFailedNavigationItem" using u I by auto
    then show ?thesis using handler_plain [OF url] I by (simp add: DidFinishNavigation_def retry_inv_def)
  next
    case kRewriteToWebViewURL
    then have "u = ers_url m" "ers_state m \<in> {kNavigatingToFailedNavigationItem, kRetryPlaceholderNavigation}"
      using u I by auto
    then show ?thesis using handler_plain [OF url] url I
      by (auto simp: DidFinishNavigation_def retry_inv_def)
  qed (use c in simp)
qed

lemma finish_free:
  assumes inv: "retry_inv P (m, kDoNothing)" and u: "retry_ok P (m, kDoNothing) (Finished u)"
  shows "\<exists>t. handler_did_finish P ios13 m u = Inr t \<and> retry_inv P t"
proof -
  have g: "gurl_laws P" "\<not> use_js_for_error_page P" "ordinary_url P (ers_url m)"
    and match: "command_matches kDoNothing (ers_state m)"
    using inv by (simp_all add: retry_inv_def)
  note I = g match
  have url: "IsPlaceholderUrl P (ers_url m) = Inr False" using I by (simp add: ordinary_url_def)
  obtain p where p: "CreatePlaceholderUrlForUrl P (ers_url m) = Inr p" "p \<noteq> ers_url m"
    using placeholder_of_ordinary [OF g] by blast
  obtain b where b: "IsPlaceholderUrl P u = Inr b" using IsPlaceholderUrl_Inr [OF g(2)] by blast
  with url have ne: "ers_url m \<noteq> u \<or> \<not> b" by auto
  consider "ers_state m = kDisplayingError" | "ers_state m = kNewRequest" | "ers_state m = kNoNavigationError"
    using I by auto
  then show ?thesis
  proof cases
    case 1
    then have cases: "u = ers_url m \<or> u = p \<or> u = CreateRedirectUrl P (ers_url m)" using u p by auto
    have "handler_did_finish P ios13 m u = DidFinishNavigation P ios13 m u"
      using handler_plain [OF b ne] 1 by simp
    moreover have "DidFinishNavigation P ios13 m u = Inr (m\<lparr>ers_state := kNavigatingToFailedNavigationItem\<rparr>, kRewriteToWebViewURL) \<or>
        DidFinishNavigation P ios13 m u = Inr (m\<lparr>ers_state := kNoNavigationError\<rparr>, kDoNothing)"
    proof (cases "u = p")
      case True
      then show ?thesis using 1 p by (simp add: DidFinishNavigation_def)
    next
      case False
      let ?r = "if IsRestoreSessionUrl P u then ExtractTargetURL P u else Inr None"
      have "\<exists>v. ?r = Inr v" by (simp add: ExtractTargetURL_def Let_def)
      then obtain v where v: "?r = Inr v" ..
      have "IsRestoreSessionUrl P (CreateRedirectUrl P (ers_url m))"
        "ExtractTargetURL P (CreateRedirectUrl P (ers_url m)) = Inr (Some (ers_url m))"
        using g(1,3) by (simp add: CreateRedirectUrl_def) (simp add: g ExtractTargetURL_redirect g(3) [unfolded ordinary_url_def])
      with v have "v = Some (ers_url m)" if "u = CreateRedirectUrl P (ers_url m)" using that by simp
      then show ?thesis using 1 p False v cases by (auto simp: DidFinishNavigation_def)
    qed
    ultimately show ?thesis using I by (auto simp: retry_inv_def)
  next
    case 2
    then have "handler_did_finish P ios13 m u = DidFinishNavigation P ios13 m u"
      using handler_plain [OF b ne] by simp
    then show ?thesis using I 2 b by (auto simp: DidFinishNavigation_def retry_inv_def)
  next
    case 3
    show ?thesis
    proof (cases b)
      case False
      then show ?thesis using handler_plain [OF b] I 3 by (simp add: DidFinishNavigation_def retry_inv_def)
    next
      case True
      with u b 3 obtain v where v: "ordinary_url P v" "CreatePlaceholderUrlForUrl P v = Inr u" by auto
      have "ExtractUrlFromPlaceholderUrl P u = Inr v"
        using placeholder_of_ordinary [OF g(1,2) v(1)] v(2) by force
      then have "handler_did_finish P ios13 m u =
          Inr (m\<lparr>ers_url := v, ers_state := kRetryPlaceholderNavigation\<rparr>, kRewriteToWebViewURL)"
        using True b ne 3 v(2)
        by (simp add: handler_did_finish_def SetRetryPlaceholderNavigation_def SetURL_def DidFinishNavigation_def)
      then show ?thesis using v I by (simp add: retry_inv_def)
    qed
  qed
qed

lemma retry_step_safe:
  assumes "retry_inv P s" and "retry_ok P s ev"
  shows "\<exists>t. retry_step P ios13 s ev = Inr t \<and> retry_inv P t"
proof -
  obtain m c where s: "s = (m, c)" by (cases s)
  show ?thesis
  proof (cases ev)
    case (Finished u)
    then show ?thesis using assms s finish_commanded [of P m c u] finish_free [of P m u]
      by (cases "c = kDoNothing") auto
  next
    case (FailedProvisional u e)
    then show ?thesis using assms s retry_failed_safe(2) [of P m c] by auto
  next
    case Failed
    then show ?thesis using assms s retry_failed_safe(1) [of P m c] by auto
  qed
qed

interpretation retry: checked_machine "retry_step P ios13" "retry_ok P" "retry_inv P"
  for P :: "('u, 'z) web_platform_scheme" and ios13
  by unfold_locales (rule retry_step_safe)

section \<open>Properties\<close>

text \<open>A failing request on the concrete platform: the placeholder and the error page load, the
  user comes back to the placeholder, and the retry succeeds.\<close>

definition demo_site :: string where "demo_site = ''https:a''"

definition demo_placeholder :: string where "demo_placeholder = ''about:blank?for=https:a''"

definition demo_item :: "string ErrorRetryStateMachine" where
  "demo_item = SetURL (new_ErrorRetryStateMachine demo_platform) demo_site"

lemma demo_urls:
  "ordinary_url demo_platform demo_site" "\<not> use_js_for_error_page demo_platform"
  "CreatePlaceholderUrlForUrl demo_platform demo_site = Inr demo_placeholder"
  "IsPlaceholderUrl demo_platform demo_placeholder = Inr True"
  "IsPlaceholderUrl demo_platform demo_site = Inr False"
  "demo_placeholder \<noteq> demo_site" "''x'' \<noteq> CreateRedirectUrl demo_platform demo_site"
  by code_simp+

lemma demo_item_simps: "ers_state demo_item = kNewRequest" "ers_url demo_item = demo_site"
  by (simp_all add: demo_item_def SetURL_def new_ErrorRetryStateMachine_def)

lemma demo_item_inv: "retry_inv demo_platform (demo_item, kDoNothing)"
  using demo_urls demo_platform_laws by (simp add: retry_inv_def demo_item_simps)

lemma displaying_error_reached:
  assumes "retry_inv P (m, kLoadError)"
  shows "admissible (retry_step P ios13) (retry_ok P) (m, kLoadError) [Finished (ers_url m)] \<and>
    orun (retry_step P ios13) (m, kLoadError) [Finished (ers_url m)] =
      Inr (m\<lparr>ers_state := kDisplayingError\<rparr>, kDoNothing)"
proof -
  have "ers_state m = kReadyToDisplayError" "IsPlaceholderUrl P (ers_url m) = Inr False"
    using assms by (simp_all add: retry_inv_def ordinary_url_def)
  then show ?thesis using handler_plain [of P "ers_url m" False m ios13]
    by (simp add: DidFinishNavigation_def)
qed

lemma placeholder_loaded:
  assumes "retry_inv P (m, c)" and "c = kLoadPlaceholder \<or> c = kRewriteToPlaceholderURL"
  shows "\<exists>p. retry_ok P (m, c) (Finished p) \<and>
    retry_step P ios13 (m, c) (Finished p) = Inr (m\<lparr>ers_state := kReadyToDisplayError\<rparr>, kLoadError)"
proof -
  have g: "gurl_laws P" "\<not> use_js_for_error_page P" "ordinary_url P (ers_url m)"
    and st: "ers_state m = kLoadingPlaceholder"
    using assms by (auto simp: retry_inv_def)
  obtain p where p: "CreatePlaceholderUrlForUrl P (ers_url m) = Inr p" "IsPlaceholderUrl P p = Inr True"
    "p \<noteq> ers_url m" using placeholder_of_ordinary [OF g] by blast
  then have "handler_did_finish P ios13 m p = DidFinishNavigation P ios13 m p"
    using handler_plain [OF p(2)] st by auto
  then show ?thesis using p st assms(2) by (intro exI [of _ p]) (auto simp: DidFinishNavigation_def)
qed



text \<open>A reported failure, provisional or committed, always leads to a displayed error: the
  web view executes at most two further commands (the placeholder, the error page), after
  which the item is in \<open>kDisplayingError\<close> with its URL unchanged.\<close>
theorem retry_failure_is_displayed:
  assumes "retry_inv P s" and "retry_ok P s ev" and "ev = Failed \<or> ev = FailedProvisional a b"
  shows "\<exists>evs m. length evs \<le> 2 \<and>
    admissible (retry_step P ios13) (retry_ok P) s (ev # evs) \<and>
    orun (retry_step P ios13) s (ev # evs) = Inr (m, kDoNothing) \<and>
    ers_state m = kDisplayingError \<and> ers_url m = ers_url (fst s)"
proof -
  obtain m c where t: "retry_step P ios13 s ev = Inr (m, c)" and inv: "retry_inv P (m, c)"
    using retry_step_safe [OF assms(1,2), of ios13] by auto
  have c: "c = kLoadError \<or> c = kLoadPlaceholder \<or> c = kRewriteToPlaceholderURL" and url: "ers_url m = ers_url (fst s)"
    using t assms(3) by (cases s; auto simp: DidFailNavigation_def DidFailProvisionalNavigation_def
        BackForwardOrReloadFailed_def split: ErrorRetryState.splits if_splits)+
  show ?thesis
  proof (cases "c = kLoadError")
    case True
    with displaying_error_reached [of P m ios13] inv t url assms(2) show ?thesis
      by (intro exI [of _ "[Finished (ers_url m)]"] exI [of _ "m\<lparr>ers_state := kDisplayingError\<rparr>"]) auto
  next
    case False
    with c placeholder_loaded [OF inv, of ios13] obtain p where p: "retry_ok P (m, c) (Finished p)"
      "retry_step P ios13 (m, c) (Finished p) = Inr (m\<lparr>ers_state := kReadyToDisplayError\<rparr>, kLoadError)" by auto
    let ?m = "m\<lparr>ers_state := kReadyToDisplayError\<rparr>"
    have "retry_inv P (?m, kLoadError)" using retry.step_keeps [OF inv p] .
    from displaying_error_reached [OF this, of ios13] p t url assms(2) show ?thesis
      by (intro exI [of _ "[Finished p, Finished (ers_url m)]"] exI [of _ "m\<lparr>ers_state := kDisplayingError\<rparr>"]) auto
  qed
qed

theorem retry_failure_is_displayed_witness:
  "\<exists>evs m. orun (retry_step demo_platform True) (demo_item, kDoNothing) (Failed # evs) = Inr (m, kDoNothing) \<and>
     ers_state m = kDisplayingError"
proof -
  have "retry_ok demo_platform (demo_item, kDoNothing) Failed" by simp
  from retry_failure_is_displayed [OF demo_item_inv this, of "[]" "[]" True] show ?thesis by blast
qed

text \<open>Coming back to a displayed error retries the load: the placeholder's load is answered
  with the command to rewrite the URL, the rewritten URL's with a reload, and the
  successful reload leaves the item without an error.\<close>
theorem retry_recovers:
  assumes "retry_inv P (m, kDoNothing)" and "ers_state m = kDisplayingError"
    and "CreatePlaceholderUrlForUrl P (ers_url m) = Inr p"
  shows "retry_step P ios13 (m, kDoNothing) (Finished p) =
           Inr (m\<lparr>ers_state := kNavigatingToFailedNavigationItem\<rparr>, kRewriteToWebViewURL) \<and>
    retry_step P ios13 (m\<lparr>ers_state := kNavigatingToFailedNavigationItem\<rparr>, kRewriteToWebViewURL)
        (Finished (ers_url m)) = Inr (m\<lparr>ers_state := kRetryFailedNavigationItem\<rparr>, kReload) \<and>
    retry_step P ios13 (m\<lparr>ers_state := kRetryFailedNavigationItem\<rparr>, kReload) (Finished (ers_url m)) =
      Inr (m\<lparr>ers_state := kNoNavigationError\<rparr>, kDoNothing)"
proof -
  have g: "gurl_laws P" "\<not> use_js_for_error_page P" "ordinary_url P (ers_url m)"
    using assms(1) by (simp_all add: retry_inv_def)
  then have u: "IsPlaceholderUrl P (ers_url m) = Inr False" by (simp add: ordinary_url_def)
  have p: "IsPlaceholderUrl P p = Inr True" "p \<noteq> ers_url m"
    using placeholder_of_ordinary [OF g] assms(3) by (metis sum.inject(2))+
  then show ?thesis using assms(2,3) u by (simp add: handler_did_finish_def DidFinishNavigation_def)
qed

theorem retry_recovers_witness:
  "retry_step demo_platform True (demo_item\<lparr>ers_state := kDisplayingError\<rparr>, kDoNothing) (Finished demo_placeholder) =
     Inr (demo_item\<lparr>ers_state := kNavigatingToFailedNavigationItem\<rparr>, kRewriteToWebViewURL)"
proof -
  let ?m = "demo_item\<lparr>ers_state := kDisplayingError\<rparr>"
  have "retry_inv demo_platform (?m, kDoNothing)" using demo_item_inv by (simp add: retry_inv_def)
  moreover have "CreatePlaceholderUrlForUrl demo_platform (ers_url ?m) = Inr demo_placeholder"
    using demo_urls(3) by (simp add: demo_item_simps)
  ultimately show ?thesis using retry_recovers [of demo_platform ?m demo_placeholder True] by simp
qed

end
