(* ===== verification/Wk_Navigation_States.thy ===== *)
theory Wk_Navigation_States
  imports Prelude "HOL-Library.AList" "HOL-Library.Multiset"
begin

text \<open>
  The registry of in-flight navigations, \<open>web/navigation/crw_wk_navigation_states.mm\<close>.

  A \<open>WKNavigation\<close> is a number, a key of the registry a possibly null navigation (the code
  stores the null navigation under \<open>NSNull\<close>).  The registry is a weak-to-strong
  \<open>NSMapTable\<close>: here an association list, with the operation \<open>Released\<close> for the removal of a
  navigation that the system has released.  A map table enumerates its entries in no
  particular order, so the loops over it are functions of the list of entries, and the
  theorems about them hold for every order.  Indices are unbounded numbers.
\<close>

section \<open>Data\<close>

datatype WKNavigationState =
  NONE | REQUESTED | STARTED | REDIRECTED | PROVISIONALY_FAILED | COMMITTED | FINISHED | FAILED

fun state_value :: "WKNavigationState \<Rightarrow> nat" where
  "state_value NONE = 0"
| "state_value REQUESTED = 1"
| "state_value STARTED = 2"
| "state_value REDIRECTED = 3"
| "state_value PROVISIONALY_FAILED = 4"
| "state_value COMMITTED = 5"
| "state_value FINISHED = 6"
| "state_value FAILED = 7"

lemma state_value_inj: "state_value s = state_value t \<Longrightarrow> s = t"
  by (cases s; cases t) simp_all

instantiation WKNavigationState :: linorder
begin

definition less_eq_WKNavigationState :: "WKNavigationState \<Rightarrow> WKNavigationState \<Rightarrow> bool" where
  "less_eq_WKNavigationState s t \<longleftrightarrow> state_value s \<le> state_value t"

definition less_WKNavigationState :: "WKNavigationState \<Rightarrow> WKNavigationState \<Rightarrow> bool" where
  "less_WKNavigationState s t \<longleftrightarrow> state_value s < state_value t"

instance
  by standard (auto simp: less_eq_WKNavigationState_def less_WKNavigationState_def intro: state_value_inj)

end

type_synonym wk_key = "nat option"

record navigation_context =
  ctx_id :: nat
  ctx_has_item :: bool

record state_record =
  sr_state :: WKNavigationState
  sr_index :: nat
  sr_committed :: bool
  sr_context :: "navigation_context option"

record wk_navigation_states =
  records :: "(wk_key \<times> state_record) list"
  last_state_index :: nat

definition new_wk_navigation_states :: wk_navigation_states where
  "new_wk_navigation_states = \<lparr>records = [], last_state_index = 0\<rparr>"

definition initWithState :: "WKNavigationState \<Rightarrow> nat \<Rightarrow> state_record" where
  "initWithState s i = \<lparr>sr_state = s, sr_index = i, sr_committed = False, sr_context = None\<rparr>"

definition initWithContext :: "navigation_context option \<Rightarrow> nat \<Rightarrow> state_record" where
  "initWithContext c i = \<lparr>sr_state = NONE, sr_index = i, sr_committed = False, sr_context = c\<rparr>"

section \<open>Operations\<close>

text \<open>The workaround of \<open>setState:\<close> (feature \<open>kClearOldNavigationRecordsWorkaround\<close>): drop the
  records older than the finished one.\<close>

definition clear_older :: "nat \<Rightarrow> (wk_key \<times> state_record) list \<Rightarrow> (wk_key \<times> state_record) list" where
  "clear_older i rs = filter (\<lambda>(k, r). \<not> sr_index r < i) rs"

definition setState ::
    "bool \<Rightarrow> wk_navigation_states \<Rightarrow> WKNavigationState \<Rightarrow> wk_key \<Rightarrow> wk_navigation_states outcome" where
  "setState workaround t s key =
     obind (case map_of (records t) key of
              None \<Rightarrow>
                dcheck (s = REQUESTED \<or> s = STARTED \<or> s = COMMITTED)
                  (Inr (initWithState s (Suc (last_state_index t)),
                        t\<lparr>last_state_index := Suc (last_state_index t)\<rparr>))
            | Some r \<Rightarrow>
                dcheck (sr_state r < s \<or> (sr_state r = s \<and> s = REDIRECTED) \<or>
                        (sr_state r = FINISHED \<and> s = COMMITTED) \<or> key = None)
                  (Inr (r\<lparr>sr_state := s\<rparr>, t))) (\<lambda>(r, t1).
     let r1 = (if s = COMMITTED then r\<lparr>sr_committed := True\<rparr> else r);
         kept = (if s = FINISHED \<and> workaround then clear_older (sr_index r1) (records t1)
                 else records t1)
     in Inr (t1\<lparr>records := AList.update key r1 kept\<rparr>))"

definition stateForNavigation :: "wk_navigation_states \<Rightarrow> wk_key \<Rightarrow> WKNavigationState" where
  "stateForNavigation t key = (case map_of (records t) key of None \<Rightarrow> NONE | Some r \<Rightarrow> sr_state r)"

definition removeNavigation ::
    "wk_navigation_states \<Rightarrow> wk_key \<Rightarrow> (navigation_context option \<times> wk_navigation_states) outcome" where
  "removeNavigation t key =
     (case map_of (records t) key of
        None \<Rightarrow> Inl Dcheck_failed
      | Some r \<Rightarrow> Inr (sr_context r, t\<lparr>records := AList.delete key (records t)\<rparr>))"

definition setContext ::
    "wk_navigation_states \<Rightarrow> navigation_context option \<Rightarrow> wk_key \<Rightarrow> wk_navigation_states" where
  "setContext t c key =
     (case map_of (records t) key of
        None \<Rightarrow>
          t\<lparr>last_state_index := Suc (last_state_index t),
            records := AList.update key (initWithContext c (Suc (last_state_index t))) (records t)\<rparr>
      | Some r \<Rightarrow> t\<lparr>records := AList.update key (r\<lparr>sr_context := c\<rparr>) (records t)\<rparr>)"

definition contextForNavigation :: "wk_navigation_states \<Rightarrow> wk_key \<Rightarrow> navigation_context option" where
  "contextForNavigation t key = (case map_of (records t) key of None \<Rightarrow> None | Some r \<Rightarrow> sr_context r)"

definition isCommittedNavigation :: "wk_navigation_states \<Rightarrow> wk_key \<Rightarrow> bool" where
  "isCommittedNavigation t key = (case map_of (records t) key of None \<Rightarrow> False | Some r \<Rightarrow> sr_committed r)"

text \<open>The loop that finds the entry with the greatest index among those satisfying \<open>P\<close>.\<close>

fun latest_loop ::
    "(state_record \<Rightarrow> bool) \<Rightarrow> (wk_key \<times> state_record) list \<Rightarrow> nat \<Rightarrow> (wk_key \<times> state_record) option \<Rightarrow>
     (wk_key \<times> state_record) option" where
  "latest_loop P [] last_added_index res = res"
| "latest_loop P ((k, r) # es) last_added_index res =
     (if P r \<and> last_added_index < sr_index r then latest_loop P es (sr_index r) (Some (k, r))
      else latest_loop P es last_added_index res)"

definition getLastAddedNavigation ::
    "(wk_key \<times> state_record) list \<Rightarrow> (wk_key \<times> state_record) option" where
  "getLastAddedNavigation entries = latest_loop (\<lambda>r. True) entries 0 None"

definition lastAddedNavigation :: "(wk_key \<times> state_record) list \<Rightarrow> nat option" where
  "lastAddedNavigation entries =
     (case getLastAddedNavigation entries of None \<Rightarrow> None | Some (key, r) \<Rightarrow> key)"

definition lastAddedNavigationState :: "(wk_key \<times> state_record) list \<Rightarrow> WKNavigationState" where
  "lastAddedNavigationState entries =
     (case getLastAddedNavigation entries of None \<Rightarrow> NONE | Some (key, r) \<Rightarrow> sr_state r)"

text \<open>The result is a key: \<open>Some None\<close> is the object \<open>NSNull\<close>.\<close>

definition lastNavigationWithPendingItemInNavigationContext ::
    "(wk_key \<times> state_record) list \<Rightarrow> wk_key option" where
  "lastNavigationWithPendingItemInNavigationContext entries =
     map_option fst (latest_loop
       (\<lambda>r. case sr_context r of None \<Rightarrow> False | Some c \<Rightarrow> ctx_has_item c) entries 0 None)"

definition pendingNavigations :: "(wk_key \<times> state_record) list \<Rightarrow> wk_key set" where
  "pendingNavigations entries =
     set (map fst (filter (\<lambda>(k, r). sr_state r \<in> {REQUESTED, STARTED, REDIRECTED}) entries))"

datatype wk_op =
    SetState WKNavigationState wk_key
  | SetContext "navigation_context option" wk_key
  | RemoveNavigation wk_key
  | Released nat

fun wk_step :: "bool \<Rightarrow> wk_navigation_states \<Rightarrow> wk_op \<Rightarrow> wk_navigation_states outcome" where
  "wk_step workaround t (SetState s key) = setState workaround t s key"
| "wk_step workaround t (SetContext c key) = Inr (setContext t c key)"
| "wk_step workaround t (RemoveNavigation key) = obind (removeNavigation t key) (\<lambda>(_, t'). Inr t')"
| "wk_step workaround t (Released n) = Inr (t\<lparr>records := AList.delete (Some n) (records t)\<rparr>)"

section \<open>Specification: the navigations in the order in which they were added\<close>

definition wk_abs :: "wk_navigation_states \<Rightarrow> wk_key list" where
  "wk_abs t = map fst (records t)"

fun wk_spec :: "bool \<Rightarrow> wk_key list \<Rightarrow> wk_op \<Rightarrow> wk_key list" where
  "wk_spec workaround ks (SetState s key) =
     (if key \<notin> set ks then ks @ [key]
      else if s = FINISHED \<and> workaround then dropWhile (\<lambda>k. k \<noteq> key) ks else ks)"
| "wk_spec workaround ks (SetContext c key) = (if key \<notin> set ks then ks @ [key] else ks)"
| "wk_spec workaround ks (RemoveNavigation key) = filter (\<lambda>k. k \<noteq> key) ks"
| "wk_spec workaround ks (Released n) = filter (\<lambda>k. k \<noteq> Some n) ks"

definition wk_inv :: "wk_navigation_states \<Rightarrow> bool" where
  "wk_inv t \<longleftrightarrow> distinct (map fst (records t)) \<and>
     sorted_wrt (<) (map (sr_index \<circ> snd) (records t)) \<and>
     (\<forall>(k, r) \<in> set (records t). 0 < sr_index r \<and> sr_index r \<le> last_state_index t)"

text \<open>The order in which the delegate callbacks of one navigation arrive.\<close>

fun wk_ok :: "wk_navigation_states \<Rightarrow> wk_op \<Rightarrow> bool" where
  "wk_ok t (SetState s key) \<longleftrightarrow>
     (case map_of (records t) key of
        None \<Rightarrow> s \<in> {REQUESTED, STARTED, COMMITTED}
      | Some r \<Rightarrow> sr_state r < s \<or> (sr_state r = REDIRECTED \<and> s = REDIRECTED) \<or>
                  (sr_state r = FINISHED \<and> s = COMMITTED) \<or> key = None)"
| "wk_ok t (RemoveNavigation key) \<longleftrightarrow> key \<in> set (map fst (records t))"
| "wk_ok t _ \<longleftrightarrow> True"

section \<open>Lemmas\<close>

lemma map_index_update:
  "map_of al k = Some r \<Longrightarrow> sr_index r' = sr_index r \<Longrightarrow>
     map (sr_index \<circ> snd) (AList.update k r' al) = map (sr_index \<circ> snd) al"
  by (induction al) (auto split: if_splits)

lemma map_index_update_new:
  "map_of al k = None \<Longrightarrow> AList.update k r' al = al @ [(k, r')]"
  by (induction al) auto

lemma wk_abs_update: "map fst (AList.update k v al) = (if k \<in> set (map fst al) then map fst al else map fst al @ [k])"
  by (simp add: AList.update_keys)

lemma map_fst_delete: "map fst (AList.delete k al) = filter (\<lambda>x. x \<noteq> k) (map fst al)"
  by (induction al) auto

lemma sorted_wrt_filter_map:
  "sorted_wrt (<) (map f xs) \<Longrightarrow> sorted_wrt (<) (map f (filter P xs))" for f :: "'a \<Rightarrow> nat"
  by (induction xs) auto

lemma clear_older_dropWhile:
  assumes "sorted_wrt (<) (map (sr_index \<circ> snd) al)" and "map_of al k = Some r"
  shows "map fst (clear_older (sr_index r) al) = dropWhile (\<lambda>x. x \<noteq> k) (map fst al)"
  using assms
proof (induction al)
  case Nil
  then show ?case by simp
next
  case (Cons a al)
  obtain k0 r0 where a: "a = (k0, r0)" by (cases a)
  show ?case
  proof (cases "k0 = k")
    case True
    then have "r0 = r" using Cons.prems(2) a by simp
    moreover have "\<forall>x \<in> set al. sr_index r0 < sr_index (snd x)" using Cons.prems(1) a by simp
    ultimately have "filter (\<lambda>(k, r'). \<not> sr_index r' < sr_index r) al = al"
      by (auto simp: filter_id_conv)
    then show ?thesis using True a \<open>r0 = r\<close> by (simp add: clear_older_def)
  next
    case False
    then have r: "map_of al k = Some r" using Cons.prems(2) a by simp
    then have "(k, r) \<in> set al" by (rule map_of_SomeD)
    then have "sr_index r0 < sr_index r" using Cons.prems(1) a by fastforce
    then show ?thesis using False a Cons.IH [OF _ r] Cons.prems(1) by (simp add: clear_older_def)
  qed
qed

lemma map_of_clear_older:
  "map_of al k = Some r \<Longrightarrow> distinct (map fst al) \<Longrightarrow> map_of (clear_older (sr_index r) al) k = Some r"
  by (induction al) (auto simp: clear_older_def split: if_splits)

lemma wk_inv_append:
  assumes "wk_inv t" and "map_of (records t) k = None" and "sr_index r = Suc (last_state_index t)"
  shows "wk_inv (t\<lparr>last_state_index := Suc (last_state_index t), records := AList.update k r (records t)\<rparr>)"
  using assms
  by (auto simp: wk_inv_def map_index_update_new sorted_wrt_append map_of_eq_None_iff image_iff less_Suc_eq_le le_SucI)

lemma wk_inv_subset:
  assumes "wk_inv t" and "al = filter P (records t)"
  shows "wk_inv (t\<lparr>records := al\<rparr>)"
  using assms by (auto simp: wk_inv_def sorted_wrt_filter_map intro!: distinct_map_filter)

lemma set_AList_update: "set (AList.update k v al) \<subseteq> insert (k, v) (set al)"
  by (induction al) auto

lemma wk_inv_update:
  assumes inv: "wk_inv t" and r: "map_of (records t) k = Some r" and i: "sr_index r' = sr_index r"
  shows "wk_inv (t\<lparr>records := AList.update k r' (records t)\<rparr>)"
proof -
  have "(k, r) \<in> set (records t)" using r by (rule map_of_SomeD)
  then have "0 < sr_index r' \<and> sr_index r' \<le> last_state_index t" using inv i by (auto simp: wk_inv_def)
  moreover have "k \<in> set (map fst (records t))" using \<open>(k, r) \<in> set (records t)\<close> by force
  ultimately show ?thesis using inv map_index_update [OF r i] set_AList_update [of k r' "records t"]
    by (auto simp: wk_inv_def wk_abs_update)
qed


lemma dropWhile_from_member: "k \<in> set ks \<Longrightarrow> \<exists>rest. dropWhile (\<lambda>x. x \<noteq> k) ks = k # rest"
  by (induction ks) auto

lemma map_of_clear_older_eq:
  "distinct (map fst al) \<Longrightarrow> map_of (clear_older i al) k =
     (case map_of al k of None \<Rightarrow> None | Some r \<Rightarrow> if sr_index r < i then None else Some r)"
proof (induction al)
  case (Cons a al)
  have "map_of (clear_older i al) (fst a) = None"
    using Cons.prems by (auto simp: clear_older_def map_of_eq_None_iff)
  with Cons show ?case by (cases a) (auto simp: clear_older_def)
qed (simp add: clear_older_def)

lemma pendingNavigations_iff:
  "k \<in> pendingNavigations es \<longleftrightarrow> (\<exists>r. (k, r) \<in> set es \<and> sr_state r \<in> {REQUESTED, STARTED, REDIRECTED})"
  by (force simp: pendingNavigations_def)

section \<open>Every operation keeps the invariant and simulates the specification\<close>

lemma setState_new:
  assumes inv: "wk_inv t" and k: "map_of (records t) key = None" and s: "s = REQUESTED \<or> s = STARTED \<or> s = COMMITTED"
  shows "\<exists>t'. setState b t s key = Inr t' \<and> wk_inv t' \<and> wk_abs t' = wk_abs t @ [key] \<and> stateForNavigation t' key = s"
proof -
  let ?r = "(initWithState s (Suc (last_state_index t)))\<lparr>sr_committed := s = COMMITTED\<rparr>"
  let ?t = "t\<lparr>last_state_index := Suc (last_state_index t), records := AList.update key ?r (records t)\<rparr>"
  have "setState b t s key = Inr ?t"
    using k s by (auto simp: setState_def initWithState_def)
  moreover have "wk_inv ?t" by (rule wk_inv_append [OF inv k]) (simp add: initWithState_def)
  moreover have "key \<notin> fst ` set (records t)" using k by (simp add: map_of_eq_None_iff)
  ultimately show ?thesis
    by (simp add: wk_abs_def wk_abs_update stateForNavigation_def AList.update_conv' initWithState_def)
qed

lemma setState_known:
  assumes inv: "wk_inv t" and k: "map_of (records t) key = Some r" and ok: "wk_ok t (SetState s key)"
  shows "\<exists>t'. setState b t s key = Inr t' \<and> wk_inv t' \<and> stateForNavigation t' key = s \<and>
    wk_abs t' = (if s = FINISHED \<and> b then dropWhile (\<lambda>k. k \<noteq> key) (wk_abs t) else wk_abs t)"
proof -
  let ?r = "if s = COMMITTED then r\<lparr>sr_state := s, sr_committed := True\<rparr> else r\<lparr>sr_state := s\<rparr>"
  let ?kept = "if s = FINISHED \<and> b then clear_older (sr_index r) (records t) else records t"
  let ?t = "t\<lparr>records := AList.update key ?r ?kept\<rparr>"
  have srt: "sorted_wrt (<) (map (sr_index \<circ> snd) (records t))" "distinct (map fst (records t))"
    using inv by (simp_all add: wk_inv_def)
  have st: "setState b t s key = Inr ?t" using k ok by (auto simp: setState_def)
  have inv1: "wk_inv (t\<lparr>records := ?kept\<rparr>)"
    using inv wk_inv_subset [OF inv, of _ "\<lambda>(k, r'). \<not> sr_index r' < sr_index r"]
    by (simp add: clear_older_def)
  have k1: "map_of (records (t\<lparr>records := ?kept\<rparr>)) key = Some r"
    using k map_of_clear_older [OF k srt(2)] by simp
  have inv2: "wk_inv ?t"
    using wk_inv_update [OF inv1 k1, of ?r] by simp
  have "key \<in> set (map fst ?kept)" using k1 by (auto dest: map_of_SomeD simp: rev_image_eqI)
  then have "wk_abs ?t = map fst ?kept" by (simp add: wk_abs_def wk_abs_update)
  moreover have "stateForNavigation ?t key = s" by (simp add: stateForNavigation_def AList.update_conv')
  ultimately show ?thesis using st inv2 clear_older_dropWhile [OF srt(1) k]
    by (auto simp: wk_abs_def)
qed

lemma wk_inv_delete: "wk_inv t \<Longrightarrow> wk_inv (t\<lparr>records := AList.delete k (records t)\<rparr>)"
  by (rule wk_inv_subset) (simp_all add: AList.delete_eq)

lemma wk_step_ok:
  assumes inv: "wk_inv t" and ok: "wk_ok t x"
  shows "\<exists>t'. wk_step b t x = Inr t' \<and> wk_inv t' \<and> wk_abs t' = wk_spec b (wk_abs t) x"
proof (cases x)
  case (SetState s key)
  show ?thesis
  proof (cases "map_of (records t) key")
    case None
    then have "key \<notin> set (wk_abs t)" by (simp add: wk_abs_def map_of_eq_None_iff)
    then show ?thesis using setState_new [OF inv None, of s b] ok SetState None by auto
  next
    case (Some r)
    then have "key \<in> set (wk_abs t)" by (force simp: wk_abs_def dest: map_of_SomeD)
    then show ?thesis using setState_known [OF inv Some, of s b] ok SetState by auto
  qed
next
  case (SetContext c key)
  show ?thesis
  proof (cases "map_of (records t) key")
    case None
    then have "key \<notin> set (map fst (records t))" by (simp add: map_of_eq_None_iff)
    then show ?thesis using SetContext None
        wk_inv_append [OF inv None, of "initWithContext c (Suc (last_state_index t))"]
      by (simp add: setContext_def initWithContext_def wk_abs_def wk_abs_update)
  next
    case (Some r)
    then have "key \<in> set (map fst (records t))" by (force dest: map_of_SomeD)
    then show ?thesis using SetContext Some wk_inv_update [OF inv Some, of "r\<lparr>sr_context := c\<rparr>"]
      by (simp add: setContext_def wk_abs_def wk_abs_update)
  qed
next
  case (RemoveNavigation key)
  then obtain r where "map_of (records t) key = Some r"
    using ok by (auto simp: map_of_eq_None_iff dest!: weak_map_of_SomeI)
  then show ?thesis using RemoveNavigation wk_inv_delete [OF inv]
    by (simp add: removeNavigation_def wk_abs_def map_fst_delete)
next
  case (Released n)
  then show ?thesis using wk_inv_delete [OF inv] by (simp add: wk_abs_def map_fst_delete)
qed

interpretation wk: refined_machine "wk_step b" wk_ok wk_inv wk_abs "wk_spec b"
  for b
proof unfold_locales
  fix s x
  assume "wk_inv s" "wk_ok s x"
  then show "\<exists>t. wk_step b s x = Inr t \<and> wk_inv t" using wk_step_ok by blast
next
  fix s x t
  assume "wk_inv s" "wk_ok s x" "wk_step b s x = Inr t"
  then show "wk_abs t = wk_spec b (wk_abs s) x" using wk_step_ok [of s x b] by auto
qed

section \<open>The latest entry does not depend on the order of enumeration\<close>

lemma latest_loop_spec:
  "latest_loop P es n res = res \<and> (\<forall>(k, r) \<in> set es. P r \<longrightarrow> sr_index r \<le> n) \<or>
   (\<exists>k r. latest_loop P es n res = Some (k, r) \<and> (k, r) \<in> set es \<and> P r \<and> n < sr_index r \<and>
      (\<forall>(k', r') \<in> set es. P r' \<longrightarrow> sr_index r' \<le> sr_index r))"
proof (induction P es n res rule: latest_loop.induct)
  case (1 P n res)
  then show ?case by simp
next
  case (2 P k r es n res)
  then show ?case by (cases "P r \<and> n < sr_index r") (auto; fastforce)+
qed

lemma getLastAdded_last:
  assumes inv: "wk_inv t" and m: "mset entries = mset (records t)"
  shows "getLastAddedNavigation entries = (if records t = [] then None else Some (last (records t)))"
proof (cases "records t" rule: rev_cases)
  case Nil
  then show ?thesis using m by (simp add: getLastAddedNavigation_def)
next
  case (snoc rs e)
  obtain k r where e: "e = (k, r)" by (cases e)
  have set: "set entries = set (records t)" using m by (rule mset_eq_setD)
  have less: "\<forall>x \<in> set rs. sr_index (snd x) < sr_index r"
    using inv snoc e by (auto simp: wk_inv_def sorted_wrt_append)
  have "0 < sr_index r" using inv snoc e by (auto simp: wk_inv_def)
  moreover have kr: "(k, r) \<in> set entries" using set snoc e by simp
  ultimately obtain k' r' where kr': "getLastAddedNavigation entries = Some (k', r')" "(k', r') \<in> set entries"
    "sr_index r \<le> sr_index r'"
    using latest_loop_spec [of "\<lambda>r. True" entries 0 None] by (fastforce simp: getLastAddedNavigation_def)
  then have "(k', r') = e" using less set snoc e by fastforce
  then show ?thesis using kr' snoc by simp
qed

section \<open>Properties\<close>

definition demo_wk_ops :: "wk_op list" where
  "demo_wk_ops =
     [SetState REQUESTED (Some 1), SetState STARTED (Some 1), SetState REQUESTED (Some 2),
      SetContext (Some \<lparr>ctx_id = 7, ctx_has_item = True\<rparr>) (Some 2), SetState COMMITTED (Some 1),
      SetState REQUESTED (Some 3), SetState COMMITTED (Some 2), SetState FINISHED (Some 2), Released 3]"

lemma demo_wk_ops_ok: "admissible (wk_step True) wk_ok new_wk_navigation_states demo_wk_ops"
  by code_simp

lemma new_wk_inv: "wk_inv new_wk_navigation_states" "wk_abs new_wk_navigation_states = []"
  by (simp_all add: wk_inv_def wk_abs_def new_wk_navigation_states_def)

text \<open>C14: The registry implements the list of navigations in the order in which they were added:
  every sequence of calls in which a navigation's state only advances runs without a failed
  \<open>DCHECK\<close>, keeps exactly the navigations that the specification keeps (with the workaround,
  a finished navigation drops the older ones), and the last added navigation it reports is
  the last of that list, whatever order the map table enumerates its entries in.\<close>
theorem wk_registry_refines_the_order_of_addition:
  assumes "admissible (wk_step b) wk_ok new_wk_navigation_states xs"
  shows "\<exists>t. orun (wk_step b) new_wk_navigation_states xs = Inr t \<and>
    map fst (records t) = fold (\<lambda>x ks. wk_spec b ks x) xs [] \<and>
    (\<forall>entries. mset entries = mset (records t) \<longrightarrow>
       lastAddedNavigation entries =
         (if records t = [] then None else last (fold (\<lambda>x ks. wk_spec b ks x) xs [])))"
proof -
  obtain t where t: "orun (wk_step b) new_wk_navigation_states xs = Inr t" "wk_inv t"
    using wk.run_safe [OF new_wk_inv(1) assms] by blast
  have keys: "map fst (records t) = fold (\<lambda>x ks. wk_spec b ks x) xs []"
    using wk.run_refines [OF new_wk_inv(1) assms t(1)] by (simp add: wk_abs_def [symmetric] new_wk_inv(2))
  have "lastAddedNavigation entries = (if records t = [] then None else last (map fst (records t)))"
    if "mset entries = mset (records t)" for entries
    using getLastAdded_last [OF t(2) that]
    by (auto simp: lastAddedNavigation_def last_map split: option.splits prod.splits)
  with t(1) keys show ?thesis by auto
qed

theorem wk_registry_refines_the_order_of_addition_witness:
  "\<exists>t. orun (wk_step True) new_wk_navigation_states demo_wk_ops = Inr t \<and> map fst (records t) = [Some 2]"
proof -
  have "fold (\<lambda>x ks. wk_spec True ks x) demo_wk_ops [] = [Some 2]" by code_simp
  with wk_registry_refines_the_order_of_addition [OF demo_wk_ops_ok] show ?thesis by auto
qed

text \<open>The state that was set last is the state that is reported, and with the workaround a
  navigation that finishes leaves no pending navigation that was added before it.\<close>
theorem wk_state_is_recorded:
  assumes "wk_inv t" and "wk_ok t (SetState s key)"
  shows "\<exists>t'. setState b t s key = Inr t' \<and> stateForNavigation t' key = s \<and>
    (s = FINISHED \<and> b \<longrightarrow>
       (\<forall>k \<in> pendingNavigations (records t'). \<exists>r r'. (k, r) \<in> set (records t') \<and>
          (key, r') \<in> set (records t') \<and> sr_index r' < sr_index r))"
proof (cases "map_of (records t) key")
  case None
  then show ?thesis using setState_new [OF assms(1) None, of s b] assms(2) by auto
next
  case (Some r)
  obtain t' where t': "setState b t s key = Inr t'" "wk_inv t'" "stateForNavigation t' key = s"
    "wk_abs t' = (if s = FINISHED \<and> b then dropWhile (\<lambda>k. k \<noteq> key) (wk_abs t) else wk_abs t)"
    using setState_known [OF assms(1) Some assms(2)] by blast
  have "\<exists>r r'. (k, r) \<in> set (records t') \<and> (key, r') \<in> set (records t') \<and> sr_index r' < sr_index r"
    if s: "s = FINISHED \<and> b" and k: "k \<in> pendingNavigations (records t')" for k
  proof -
    have "key \<in> set (wk_abs t)" using map_of_SomeD [OF Some] by (force simp: wk_abs_def)
    from dropWhile_from_member [OF this]
    obtain ks where "dropWhile (\<lambda>k. k \<noteq> key) (wk_abs t) = key # ks" ..
    with t'(4) s have "wk_abs t' = key # ks" by simp
    then obtain r0 rs where rs: "records t' = (key, r0) # rs"
      unfolding wk_abs_def by (cases "records t'") auto
    then have "sr_state r0 = FINISHED" using t'(3) s by (simp add: stateForNavigation_def)
    with k rs obtain r1 where "(k, r1) \<in> set rs" by (auto simp: pendingNavigations_iff)
    moreover from this have "sr_index r0 < sr_index r1" using t'(2) rs by (fastforce simp: wk_inv_def)
    ultimately show ?thesis using rs by auto
  qed
  with t' show ?thesis by blast
qed

theorem wk_state_is_recorded_witness:
  "\<exists>t'. setState True new_wk_navigation_states STARTED (Some 4) = Inr t' \<and>
     stateForNavigation t' (Some 4) = STARTED"
proof -
  have "wk_ok new_wk_navigation_states (SetState STARTED (Some 4))"
    by (simp add: new_wk_navigation_states_def)
  from wk_state_is_recorded [OF new_wk_inv(1) this] show ?thesis by blast
qed

text \<open>A navigation that has been committed stays committed through every operation, as long
  as its record is kept.\<close>
theorem wk_committed_is_stable:
  assumes "wk_inv t" and "wk_step b t x = Inr t'" and "isCommittedNavigation t key"
    and "key \<in> set (map fst (records t'))"
  shows "isCommittedNavigation t' key"
proof -
  obtain r where r: "map_of (records t) key = Some r" "sr_committed r"
    using assms(3) by (auto simp: isCommittedNavigation_def split: option.splits)
  have kept: "map_of (records t') key \<noteq> None" using assms(4) by (simp add: map_of_eq_None_iff)
  have d: "distinct (map fst (records t))" using assms(1) by (simp add: wk_inv_def)
  show ?thesis
  proof (cases x)
    case (SetState s k)
    then show ?thesis using assms(2) r kept
      by (auto simp: setState_def obind_eq_Inr Let_def isCommittedNavigation_def AList.update_conv'
          map_of_clear_older_eq [OF d] split: option.splits if_splits)
  next
    case (SetContext c k)
    then show ?thesis using assms(2) r
      by (cases "map_of (records t) k")
         (auto simp: setContext_def isCommittedNavigation_def AList.update_conv')
  next
    case (RemoveNavigation k)
    then show ?thesis using assms(2) r kept
      by (auto simp: removeNavigation_def isCommittedNavigation_def AList.delete_conv' split: option.splits if_splits)
  next
    case (Released n)
    then show ?thesis using assms(2) r kept
      by (auto simp: isCommittedNavigation_def AList.delete_conv' split: option.splits if_splits)
  qed
qed

theorem wk_committed_is_stable_witness:
  "isCommittedNavigation (setContext
     \<lparr>records = [(Some 1, \<lparr>sr_state = COMMITTED, sr_index = 1, sr_committed = True, sr_context = None\<rparr>)],
      last_state_index = 1\<rparr> None (Some 1)) (Some 1)"
  by (rule wk_committed_is_stable [where x = "SetContext None (Some 1)" and b = True, OF _ wk_step.simps(2)])
     (code_simp+)

text \<open>Contrary to the comments in the header, a null navigation is not ignored: its state is
  recorded, it becomes the last added navigation's record, and it is pending; its context
  is recorded as well.\<close>
theorem wk_null_navigation_is_recorded:
  "\<exists>t. setState b new_wk_navigation_states REQUESTED None = Inr t \<and>
     stateForNavigation t None = REQUESTED \<and> pendingNavigations (records t) = {None} \<and>
     lastAddedNavigationState (records t) = REQUESTED \<and>
     contextForNavigation (setContext t (Some c) None) None = Some c"
  by (simp add: setState_def new_wk_navigation_states_def initWithState_def stateForNavigation_def
      set_eq_iff pendingNavigations_iff lastAddedNavigationState_def getLastAddedNavigation_def setContext_def
      contextForNavigation_def)

end
