(* ===== verification/Fullscreen_Model.thy ===== *)
theory Fullscreen_Model
  imports Complex_Main Prelude
begin

text \<open>
  The toolbar that scrolls away, \<open>chrome/browser/ui/fullscreen/fullscreen_model.mm\<close>.

  \<open>CGFloat\<close> values are real numbers, so rounding is not modelled; the not-a-number that marks
  a missing base offset is \<open>None\<close>.  Observers are the argument \<open>obs\<close>: what all observers
  together do to the model when they receive an event, which may include calls of the model's
  own operations; \<open>observer_callback_count\<close> is positive while they run.
\<close>

section \<open>State\<close>

record UIEdgeInsets =
  inset_top :: real
  inset_left :: real
  inset_bottom :: real
  inset_right :: real

datatype fullscreen_event =
    FullscreenModelToolbarHeightsUpdated
  | FullscreenModelProgressUpdated
  | FullscreenModelEnabledStateChanged
  | FullscreenModelScrollEventStarted
  | FullscreenModelScrollEventEnded
  | FullscreenModelWasReset

record fullscreen_model =
  progress :: real
  base_offset :: "real option"
  collapsed_toolbar_height :: real
  expanded_toolbar_height :: real
  bottom_toolbar_height :: real
  y_content_offset :: real
  scroll_view_height :: real
  content_height :: real
  top_inset :: real
  disabled_counter :: nat
  disabled_for_short_content :: bool
  scrolling :: bool
  zooming :: bool
  dragging :: bool
  ignoring_current_scroll :: bool
  resizes_scroll_view :: bool
  safe_area_insets :: UIEdgeInsets
  observer_callback_count :: nat
  freeze_toolbar_height :: bool

type_synonym fullscreen_observers = "fullscreen_event \<Rightarrow> fullscreen_model \<Rightarrow> fullscreen_model"

definition UIEdgeInsetsZero :: UIEdgeInsets where
  "UIEdgeInsetsZero = \<lparr>inset_top = 0, inset_left = 0, inset_bottom = 0, inset_right = 0\<rparr>"

definition new_fullscreen_model :: fullscreen_model where
  "new_fullscreen_model =
     \<lparr>progress = 0, base_offset = None, collapsed_toolbar_height = 0, expanded_toolbar_height = 0,
      bottom_toolbar_height = 0, y_content_offset = 0, scroll_view_height = 0, content_height = 0,
      top_inset = 0, disabled_counter = 0, disabled_for_short_content = False, scrolling = False,
      zooming = False, dragging = False, ignoring_current_scroll = False, resizes_scroll_view = False,
      safe_area_insets = UIEdgeInsetsZero, observer_callback_count = 0, freeze_toolbar_height = False\<rparr>"

definition cgfloat_epsilon :: real where "cgfloat_epsilon = 1 / 2 ^ 52"

definition AreCGFloatsEqual :: "real \<Rightarrow> real \<Rightarrow> bool" where
  "AreCGFloatsEqual a b \<longleftrightarrow> \<bar>a - b\<bar> \<le> cgfloat_epsilon"

section \<open>Queries\<close>

definition fs_enabled :: "fullscreen_model \<Rightarrow> bool" where
  "fs_enabled m \<longleftrightarrow> disabled_counter m = 0"

definition has_base_offset :: "fullscreen_model \<Rightarrow> bool" where
  "has_base_offset m \<longleftrightarrow> base_offset m \<noteq> None"

definition GetCollapsedToolbarHeight :: "fullscreen_model \<Rightarrow> real" where
  "GetCollapsedToolbarHeight m = (if freeze_toolbar_height m then 0 else collapsed_toolbar_height m)"

definition GetExpandedToolbarHeight :: "fullscreen_model \<Rightarrow> real" where
  "GetExpandedToolbarHeight m = (if freeze_toolbar_height m then 0 else expanded_toolbar_height m)"

definition toolbar_height_delta :: "fullscreen_model \<Rightarrow> real" where
  "toolbar_height_delta m = GetExpandedToolbarHeight m - GetCollapsedToolbarHeight m"

definition can_collapse_toolbar :: "fullscreen_model \<Rightarrow> bool" where
  "can_collapse_toolbar m \<longleftrightarrow> content_height m > scroll_view_height m + toolbar_height_delta m"

definition is_scrolled_to_top :: "fullscreen_model \<Rightarrow> bool" where
  "is_scrolled_to_top m \<longleftrightarrow> y_content_offset m \<le> - GetExpandedToolbarHeight m"

definition is_scrolled_to_bottom :: "fullscreen_model \<Rightarrow> bool" where
  "is_scrolled_to_bottom m \<longleftrightarrow> y_content_offset m + scroll_view_height m \<ge> content_height m"

definition GetToolbarInsetsAtProgress :: "fullscreen_model \<Rightarrow> real \<Rightarrow> UIEdgeInsets" where
  "GetToolbarInsetsAtProgress m p =
     \<lparr>inset_top = GetCollapsedToolbarHeight m +
                   p * (GetExpandedToolbarHeight m - GetCollapsedToolbarHeight m),
      inset_left = 0, inset_bottom = p * bottom_toolbar_height m, inset_right = 0\<rparr>"

definition min_toolbar_insets :: "fullscreen_model \<Rightarrow> UIEdgeInsets" where
  "min_toolbar_insets m = GetToolbarInsetsAtProgress m 0"

definition max_toolbar_insets :: "fullscreen_model \<Rightarrow> UIEdgeInsets" where
  "max_toolbar_insets m = GetToolbarInsetsAtProgress m 1"

definition current_toolbar_insets :: "fullscreen_model \<Rightarrow> UIEdgeInsets" where
  "current_toolbar_insets m = GetToolbarInsetsAtProgress m (progress m)"

section \<open>Notifications\<close>

definition enter_callback :: "fullscreen_model \<Rightarrow> fullscreen_model" where
  "enter_callback m = m\<lparr>observer_callback_count := observer_callback_count m + 1\<rparr>"

definition leave_callback :: "fullscreen_model \<Rightarrow> fullscreen_model" where
  "leave_callback m = m\<lparr>observer_callback_count := observer_callback_count m - 1\<rparr>"

text \<open>A \<open>ScopedIncrementer\<close> followed by the loop over the observers.\<close>

definition fs_notify :: "fullscreen_observers \<Rightarrow> fullscreen_event \<Rightarrow> fullscreen_model \<Rightarrow> fullscreen_model" where
  "fs_notify obs ev m = leave_callback (obs ev (enter_callback m))"

section \<open>Progress and base offset\<close>

definition SetProgress :: "fullscreen_observers \<Rightarrow> fullscreen_model \<Rightarrow> real \<Rightarrow> fullscreen_model" where
  "SetProgress obs m p =
     (let p1 = max 0 (min 1 p) in
      if AreCGFloatsEqual (progress m) p1 then m
      else fs_notify obs FullscreenModelProgressUpdated (m\<lparr>progress := p1\<rparr>))"

definition UpdateBaseOffset :: "fullscreen_model \<Rightarrow> fullscreen_model" where
  "UpdateBaseOffset m =
     m\<lparr>base_offset := Some (y_content_offset m - (1 - progress m) * toolbar_height_delta m)\<rparr>"

text \<open>The subtraction of a missing base offset does not occur: \<open>UpdateProgress\<close> runs only when
  there is one; the model treats the other case as a fault.\<close>

definition UpdateProgress :: "fullscreen_observers \<Rightarrow> fullscreen_model \<Rightarrow> fullscreen_model outcome" where
  "UpdateProgress obs m =
     (case base_offset m of
        None \<Rightarrow> Inl Range_error
      | Some b \<Rightarrow>
          let delta = b - y_content_offset m
          in Inr (SetProgress obs m (1 + delta / toolbar_height_delta m)))"

section \<open>Disabling\<close>

definition IncrementDisabledCounter :: "fullscreen_observers \<Rightarrow> fullscreen_model \<Rightarrow> fullscreen_model" where
  "IncrementDisabledCounter obs m =
     (let m1 = m\<lparr>disabled_counter := disabled_counter m + 1\<rparr> in
      if disabled_counter m1 = 1 then
        leave_callback (UpdateBaseOffset (SetProgress obs
          (obs FullscreenModelEnabledStateChanged (enter_callback m1)) 1))
      else m1)"

definition DecrementDisabledCounter :: "fullscreen_observers \<Rightarrow> fullscreen_model \<Rightarrow> fullscreen_model outcome" where
  "DecrementDisabledCounter obs m =
     dcheck (0 < disabled_counter m)
     (let m1 = m\<lparr>disabled_counter := disabled_counter m - 1\<rparr> in
      Inr (if disabled_counter m1 = 0 then fs_notify obs FullscreenModelEnabledStateChanged m1 else m1))"

definition disabling_threshold :: "fullscreen_model \<Rightarrow> real" where
  "disabling_threshold m =
     scroll_view_height m +
     (if resizes_scroll_view m then GetExpandedToolbarHeight m + bottom_toolbar_height m
      else inset_top (safe_area_insets m) + inset_bottom (safe_area_insets m))"

definition content_is_short :: "fullscreen_model \<Rightarrow> bool" where
  "content_is_short m \<longleftrightarrow>
     \<not> AreCGFloatsEqual (content_height m) 0 \<and> \<not> AreCGFloatsEqual (scroll_view_height m) 0 \<and>
     content_height m \<le> disabling_threshold m"

definition UpdateDisabledCounterForContentHeight ::
    "fullscreen_observers \<Rightarrow> fullscreen_model \<Rightarrow> fullscreen_model outcome" where
  "UpdateDisabledCounterForContentHeight obs m =
     (if scrolling m then Inr m
      else
        let disable = content_is_short m in
        if disabled_for_short_content m = disable then Inr m
        else
          let m1 = m\<lparr>disabled_for_short_content := disable\<rparr> in
          if disable then Inr (IncrementDisabledCounter obs m1)
          else DecrementDisabledCounter obs m1)"

section \<open>Scrolling\<close>

datatype ScrollAction = kIgnore | kUpdateBaseOffset | kUpdateProgress | kUpdateBaseOffsetAndProgress

definition ActionForScrollFromOffset :: "fullscreen_model \<Rightarrow> real \<Rightarrow> ScrollAction" where
  "ActionForScrollFromOffset m from_offset =
     (if \<not> fs_enabled m \<or> \<not> scrolling m \<or> zooming m \<or> observer_callback_count m \<noteq> 0 \<or>
         AreCGFloatsEqual (toolbar_height_delta m) 0 \<or>
         AreCGFloatsEqual (y_content_offset m) from_offset
      then kUpdateBaseOffset
      else
        let scrolling_content_down = y_content_offset m - from_offset < 0;
            scrolling_past_top = y_content_offset m \<le> - top_inset m;
            content_fits = content_height m \<le> scroll_view_height m - top_inset m;
            scrolling_past_bottom =
              y_content_offset m + scroll_view_height m + top_inset m \<ge> content_height m
        in
        if ignoring_current_scroll m \<or> (scrolling_past_top \<and> \<not> scrolling_content_down) \<or>
           (content_fits \<and> \<not> scrolling_content_down) \<or> (resizes_scroll_view m \<and> scrolling_past_bottom)
        then kIgnore
        else if has_base_offset m then kUpdateProgress else kUpdateBaseOffsetAndProgress)"

definition SetYContentOffset :: "fullscreen_observers \<Rightarrow> fullscreen_model \<Rightarrow> real \<Rightarrow> fullscreen_model outcome" where
  "SetYContentOffset obs m y =
     (let from_offset = y_content_offset m;
          m1 = m\<lparr>y_content_offset := y\<rparr>
      in case ActionForScrollFromOffset m1 from_offset of
           kUpdateBaseOffset \<Rightarrow> Inr (UpdateBaseOffset m1)
         | kUpdateProgress \<Rightarrow> UpdateProgress obs m1
         | kUpdateBaseOffsetAndProgress \<Rightarrow> UpdateProgress obs (UpdateBaseOffset m1)
         | kIgnore \<Rightarrow> Inr m1)"

section \<open>The other operations\<close>

definition ResetForNavigation :: "fullscreen_observers \<Rightarrow> fullscreen_model \<Rightarrow> fullscreen_model" where
  "ResetForNavigation obs m =
     fs_notify obs FullscreenModelWasReset (m\<lparr>progress := 1, scrolling := False, base_offset := None\<rparr>)"

definition IgnoreRemainderOfCurrentScroll :: "fullscreen_model \<Rightarrow> fullscreen_model" where
  "IgnoreRemainderOfCurrentScroll m = (if \<not> scrolling m then m else m\<lparr>ignoring_current_scroll := True\<rparr>)"

definition AnimationEndedWithProgress :: "fullscreen_model \<Rightarrow> real \<Rightarrow> fullscreen_model outcome" where
  "AnimationEndedWithProgress m p = dcheck (0 \<le> p) (dcheck (p \<le> 1) (Inr (m\<lparr>progress := p\<rparr>)))"

definition SetCollapsedToolbarHeight ::
    "fullscreen_observers \<Rightarrow> fullscreen_model \<Rightarrow> real \<Rightarrow> fullscreen_model outcome" where
  "SetCollapsedToolbarHeight obs m height =
     (if AreCGFloatsEqual (GetCollapsedToolbarHeight m) height then Inr m
      else dcheck (0 \<le> height)
        (Inr (fs_notify obs FullscreenModelToolbarHeightsUpdated
               (m\<lparr>collapsed_toolbar_height := height, base_offset := None\<rparr>))))"

definition SetExpandedToolbarHeight ::
    "fullscreen_observers \<Rightarrow> fullscreen_model \<Rightarrow> real \<Rightarrow> fullscreen_model outcome" where
  "SetExpandedToolbarHeight obs m height =
     (if AreCGFloatsEqual (GetExpandedToolbarHeight m) height then Inr m
      else dcheck (0 \<le> height)
        (Inr (fs_notify obs FullscreenModelToolbarHeightsUpdated
               (m\<lparr>expanded_toolbar_height := height, base_offset := None\<rparr>))))"

definition SetBottomToolbarHeight ::
    "fullscreen_observers \<Rightarrow> fullscreen_model \<Rightarrow> real \<Rightarrow> fullscreen_model outcome" where
  "SetBottomToolbarHeight obs m height =
     (if AreCGFloatsEqual (bottom_toolbar_height m) height then Inr m
      else dcheck (0 \<le> height)
        (Inr (fs_notify obs FullscreenModelToolbarHeightsUpdated
               (m\<lparr>bottom_toolbar_height := height, base_offset := None\<rparr>))))"

definition SetScrollViewHeight ::
    "fullscreen_observers \<Rightarrow> fullscreen_model \<Rightarrow> real \<Rightarrow> fullscreen_model outcome" where
  "SetScrollViewHeight obs m height =
     UpdateDisabledCounterForContentHeight obs (m\<lparr>scroll_view_height := height\<rparr>)"

definition SetContentHeight ::
    "fullscreen_observers \<Rightarrow> fullscreen_model \<Rightarrow> real \<Rightarrow> fullscreen_model outcome" where
  "SetContentHeight obs m height =
     UpdateDisabledCounterForContentHeight obs (m\<lparr>content_height := height\<rparr>)"

definition SetTopContentInset :: "fullscreen_model \<Rightarrow> real \<Rightarrow> fullscreen_model" where
  "SetTopContentInset m inset = m\<lparr>top_inset := inset\<rparr>"

definition SetScrollViewIsScrolling :: "fullscreen_observers \<Rightarrow> fullscreen_model \<Rightarrow> bool \<Rightarrow> fullscreen_model" where
  "SetScrollViewIsScrolling obs m b =
     (if scrolling m = b then m
      else if b then fs_notify obs FullscreenModelScrollEventStarted (m\<lparr>scrolling := b\<rparr>)
      else fs_notify obs FullscreenModelScrollEventEnded
             (m\<lparr>scrolling := b, ignoring_current_scroll := False\<rparr>))"

definition SetScrollViewIsZooming :: "fullscreen_model \<Rightarrow> bool \<Rightarrow> fullscreen_model" where
  "SetScrollViewIsZooming m b = m\<lparr>zooming := b\<rparr>"

definition SetScrollViewIsDragging ::
    "fullscreen_observers \<Rightarrow> fullscreen_model \<Rightarrow> bool \<Rightarrow> fullscreen_model outcome" where
  "SetScrollViewIsDragging obs m b =
     (if dragging m = b then Inr m
      else
        let m1 = m\<lparr>dragging := b\<rparr> in
        if b then UpdateDisabledCounterForContentHeight obs (UpdateBaseOffset m1) else Inr m1)"

definition SetResizesScrollView :: "fullscreen_model \<Rightarrow> bool \<Rightarrow> fullscreen_model" where
  "SetResizesScrollView m b = m\<lparr>resizes_scroll_view := b\<rparr>"

definition SetWebViewSafeAreaInsets ::
    "fullscreen_observers \<Rightarrow> fullscreen_model \<Rightarrow> UIEdgeInsets \<Rightarrow> fullscreen_model outcome" where
  "SetWebViewSafeAreaInsets obs m insets =
     (if safe_area_insets m = insets then Inr m
      else UpdateDisabledCounterForContentHeight obs (m\<lparr>safe_area_insets := insets\<rparr>))"

definition SetFreezeToolbarHeight :: "fullscreen_observers \<Rightarrow> fullscreen_model \<Rightarrow> bool \<Rightarrow> fullscreen_model" where
  "SetFreezeToolbarHeight obs m b =
     (if freeze_toolbar_height m = b then m
      else fs_notify obs FullscreenModelToolbarHeightsUpdated
             (m\<lparr>freeze_toolbar_height := b, base_offset := None\<rparr>))"

datatype fullscreen_op =
    Op_IncrementDisabledCounter
  | Op_DecrementDisabledCounter
  | Op_ResetForNavigation
  | Op_IgnoreRemainderOfCurrentScroll
  | Op_AnimationEndedWithProgress real
  | Op_SetCollapsedToolbarHeight real
  | Op_SetExpandedToolbarHeight real
  | Op_SetBottomToolbarHeight real
  | Op_SetScrollViewHeight real
  | Op_SetContentHeight real
  | Op_SetTopContentInset real
  | Op_SetYContentOffset real
  | Op_SetScrollViewIsScrolling bool
  | Op_SetScrollViewIsZooming bool
  | Op_SetScrollViewIsDragging bool
  | Op_SetResizesScrollView bool
  | Op_SetWebViewSafeAreaInsets UIEdgeInsets
  | Op_SetFreezeToolbarHeight bool

fun fs_step :: "fullscreen_observers \<Rightarrow> fullscreen_model \<Rightarrow> fullscreen_op \<Rightarrow> fullscreen_model outcome" where
  "fs_step obs m Op_IncrementDisabledCounter = Inr (IncrementDisabledCounter obs m)"
| "fs_step obs m Op_DecrementDisabledCounter = DecrementDisabledCounter obs m"
| "fs_step obs m Op_ResetForNavigation = Inr (ResetForNavigation obs m)"
| "fs_step obs m Op_IgnoreRemainderOfCurrentScroll = Inr (IgnoreRemainderOfCurrentScroll m)"
| "fs_step obs m (Op_AnimationEndedWithProgress p) = AnimationEndedWithProgress m p"
| "fs_step obs m (Op_SetCollapsedToolbarHeight h) = SetCollapsedToolbarHeight obs m h"
| "fs_step obs m (Op_SetExpandedToolbarHeight h) = SetExpandedToolbarHeight obs m h"
| "fs_step obs m (Op_SetBottomToolbarHeight h) = SetBottomToolbarHeight obs m h"
| "fs_step obs m (Op_SetScrollViewHeight h) = SetScrollViewHeight obs m h"
| "fs_step obs m (Op_SetContentHeight h) = SetContentHeight obs m h"
| "fs_step obs m (Op_SetTopContentInset t) = Inr (SetTopContentInset m t)"
| "fs_step obs m (Op_SetYContentOffset y) = SetYContentOffset obs m y"
| "fs_step obs m (Op_SetScrollViewIsScrolling b) = Inr (SetScrollViewIsScrolling obs m b)"
| "fs_step obs m (Op_SetScrollViewIsZooming b) = Inr (SetScrollViewIsZooming m b)"
| "fs_step obs m (Op_SetScrollViewIsDragging b) = SetScrollViewIsDragging obs m b"
| "fs_step obs m (Op_SetResizesScrollView b) = Inr (SetResizesScrollView m b)"
| "fs_step obs m (Op_SetWebViewSafeAreaInsets i) = SetWebViewSafeAreaInsets obs m i"
| "fs_step obs m (Op_SetFreezeToolbarHeight b) = Inr (SetFreezeToolbarHeight obs m b)"

section \<open>Invariant\<close>

text \<open>The progress is a fraction, toolbar heights are not negative, and the model counts itself
  among the features that disable it exactly while the content is too short.\<close>

definition fs_inv :: "fullscreen_model \<Rightarrow> bool" where
  "fs_inv m \<longleftrightarrow> 0 \<le> progress m \<and> progress m \<le> 1 \<and>
     0 \<le> collapsed_toolbar_height m \<and> 0 \<le> expanded_toolbar_height m \<and> 0 \<le> bottom_toolbar_height m \<and>
     (disabled_for_short_content m \<longrightarrow> 0 < disabled_counter m)"

text \<open>Observers keep the invariant and balance the callback counter.\<close>

definition observers_ok :: "fullscreen_observers \<Rightarrow> bool" where
  "observers_ok obs \<longleftrightarrow> (\<forall>ev m. fs_inv m \<longrightarrow>
     fs_inv (obs ev m) \<and> observer_callback_count (obs ev m) = observer_callback_count m)"

text \<open>A feature decrements the counter only when it has incremented it; progress values and
  heights come from animations and views.\<close>

fun fs_ok :: "fullscreen_model \<Rightarrow> fullscreen_op \<Rightarrow> bool" where
  "fs_ok m Op_DecrementDisabledCounter \<longleftrightarrow>
     (if disabled_for_short_content m then 1 else 0) < disabled_counter m"
| "fs_ok m (Op_AnimationEndedWithProgress p) \<longleftrightarrow> 0 \<le> p \<and> p \<le> 1"
| "fs_ok m (Op_SetCollapsedToolbarHeight h) \<longleftrightarrow> 0 \<le> h"
| "fs_ok m (Op_SetExpandedToolbarHeight h) \<longleftrightarrow> 0 \<le> h"
| "fs_ok m (Op_SetBottomToolbarHeight h) \<longleftrightarrow> 0 \<le> h"
| "fs_ok m _ \<longleftrightarrow> True"

lemma observers_okD:
  assumes "observers_ok obs" and "fs_inv m"
  shows "fs_inv (obs ev m)" "observer_callback_count (obs ev m) = observer_callback_count m"
  using assms by (simp_all add: observers_ok_def)

lemma fs_inv_callback [simp]:
  "fs_inv (enter_callback m) = fs_inv m" "fs_inv (leave_callback m) = fs_inv m"
  "fs_inv (m\<lparr>base_offset := b\<rparr>) = fs_inv m" "fs_inv (UpdateBaseOffset m) = fs_inv m"
  by (simp_all add: fs_inv_def enter_callback_def leave_callback_def UpdateBaseOffset_def)

lemma callback_count_simps [simp]:
  "observer_callback_count (enter_callback m) = observer_callback_count m + 1"
  "observer_callback_count (leave_callback m) = observer_callback_count m - 1"
  "observer_callback_count (UpdateBaseOffset m) = observer_callback_count m"
  by (simp_all add: enter_callback_def leave_callback_def UpdateBaseOffset_def)

lemma fs_notify_ok:
  assumes "observers_ok obs" and "fs_inv m"
  shows "fs_inv (fs_notify obs ev m)"
    "observer_callback_count (fs_notify obs ev m) = observer_callback_count m"
  using observers_okD [OF assms(1), of "enter_callback m" ev] assms(2) by (simp_all add: fs_notify_def)

lemma SetProgress_ok:
  assumes "observers_ok obs" and "fs_inv m"
  shows "fs_inv (SetProgress obs m p)"
    "observer_callback_count (SetProgress obs m p) = observer_callback_count m"
proof -
  have "fs_inv (m\<lparr>progress := max 0 (min 1 p)\<rparr>)" using assms(2) by (simp add: fs_inv_def)
  from fs_notify_ok [OF assms(1) this] assms(2) show "fs_inv (SetProgress obs m p)"
    "observer_callback_count (SetProgress obs m p) = observer_callback_count m"
    by (simp_all add: SetProgress_def Let_def)
qed

lemma IncrementDisabledCounter_ok:
  assumes obs: "observers_ok obs" and inv: "fs_inv (m\<lparr>disabled_counter := disabled_counter m + 1\<rparr>)"
  shows "fs_inv (IncrementDisabledCounter obs m) \<and>
    observer_callback_count (IncrementDisabledCounter obs m) = observer_callback_count m"
proof -
  let ?m1 = "enter_callback (m\<lparr>disabled_counter := disabled_counter m + 1\<rparr>)"
  let ?m2 = "obs FullscreenModelEnabledStateChanged ?m1"
  have 2: "fs_inv ?m2" "observer_callback_count ?m2 = observer_callback_count m + 1"
    using observers_okD [OF obs, of ?m1] inv by simp_all
  show ?thesis using inv SetProgress_ok [OF obs 2(1), of 1] 2(2)
    by (cases "disabled_counter m = 0") (simp_all add: IncrementDisabledCounter_def Let_def)
qed

lemma DecrementDisabledCounter_ok:
  assumes obs: "observers_ok obs" and inv: "fs_inv m"
    and c: "(if disabled_for_short_content m then 1 else 0) < disabled_counter m"
  shows "\<exists>m'. DecrementDisabledCounter obs m = Inr m' \<and> fs_inv m' \<and>
    observer_callback_count m' = observer_callback_count m"
proof -
  let ?m = "m\<lparr>disabled_counter := disabled_counter m - 1\<rparr>"
  have "fs_inv ?m" using inv c by (auto simp: fs_inv_def split: if_splits)
  with fs_notify_ok [OF obs this] c show ?thesis
    by (auto simp: DecrementDisabledCounter_def Let_def)
qed

lemma UpdateDisabledCounter_ok:
  assumes obs: "observers_ok obs" and inv: "fs_inv m"
  shows "\<exists>m'. UpdateDisabledCounterForContentHeight obs m = Inr m' \<and> fs_inv m' \<and>
    observer_callback_count m' = observer_callback_count m"
proof (cases "scrolling m \<or> disabled_for_short_content m = content_is_short m")
  case True
  then show ?thesis using inv by (auto simp: UpdateDisabledCounterForContentHeight_def)
next
  case False
  let ?m = "m\<lparr>disabled_for_short_content := content_is_short m\<rparr>"
  show ?thesis
  proof (cases "content_is_short m")
    case True
    then have "fs_inv (?m\<lparr>disabled_counter := disabled_counter ?m + 1\<rparr>)" using inv by (simp add: fs_inv_def)
    from IncrementDisabledCounter_ok [OF obs this] show ?thesis using False True
      by (simp add: UpdateDisabledCounterForContentHeight_def Let_def)
  next
    case short: False
    then have "fs_inv ?m" "(if disabled_for_short_content ?m then 1 else 0) < disabled_counter ?m"
      using inv False by (auto simp: fs_inv_def)
    from DecrementDisabledCounter_ok [OF obs this] show ?thesis using False short
      by (simp add: UpdateDisabledCounterForContentHeight_def Let_def)
  qed
qed

lemma UpdateProgress_ok:
  assumes "observers_ok obs" and "fs_inv m" and "has_base_offset m"
  shows "\<exists>m'. UpdateProgress obs m = Inr m' \<and> fs_inv m' \<and>
    observer_callback_count m' = observer_callback_count m"
  using assms SetProgress_ok [OF assms(1,2)]
  by (auto simp: UpdateProgress_def has_base_offset_def Let_def)

lemma SetYContentOffset_ok:
  assumes obs: "observers_ok obs" and inv: "fs_inv m"
  shows "\<exists>m'. SetYContentOffset obs m y = Inr m' \<and> fs_inv m' \<and>
    observer_callback_count m' = observer_callback_count m"
proof -
  let ?m = "m\<lparr>y_content_offset := y\<rparr>"
  have i: "fs_inv ?m" using inv by (simp add: fs_inv_def)
  show ?thesis
  proof (cases "ActionForScrollFromOffset ?m (y_content_offset m)")
    case kUpdateProgress
    then have "has_base_offset ?m" by (auto simp: ActionForScrollFromOffset_def Let_def split: if_splits)
    from UpdateProgress_ok [OF obs i this] show ?thesis using kUpdateProgress
      by (simp add: SetYContentOffset_def Let_def)
  next
    case kUpdateBaseOffsetAndProgress
    have "fs_inv (UpdateBaseOffset ?m)" "has_base_offset (UpdateBaseOffset ?m)"
      using i by (simp_all add: has_base_offset_def) (simp add: UpdateBaseOffset_def)
    from UpdateProgress_ok [OF obs this] show ?thesis using kUpdateBaseOffsetAndProgress
      by (simp add: SetYContentOffset_def Let_def)
  qed (use i in \<open>simp_all add: SetYContentOffset_def Let_def\<close>)
qed

lemma fs_step_safe:
  assumes obs: "observers_ok obs" and inv: "fs_inv m" and ok: "fs_ok m x"
  shows "\<exists>m'. fs_step obs m x = Inr m' \<and> fs_inv m' \<and>
    observer_callback_count m' = observer_callback_count m"
proof (cases x)
  case Op_IncrementDisabledCounter
  have "fs_inv (m\<lparr>disabled_counter := disabled_counter m + 1\<rparr>)" using inv by (simp add: fs_inv_def)
  then show ?thesis using IncrementDisabledCounter_ok [OF obs] Op_IncrementDisabledCounter by simp
next
  case Op_DecrementDisabledCounter
  then show ?thesis using DecrementDisabledCounter_ok [OF obs inv] ok by auto
next
  case Op_ResetForNavigation
  have "fs_inv (m\<lparr>progress := 1, scrolling := False, base_offset := None\<rparr>)" using inv by (simp add: fs_inv_def)
  then show ?thesis using fs_notify_ok [OF obs] Op_ResetForNavigation by (simp add: ResetForNavigation_def)
next
  case (Op_SetCollapsedToolbarHeight h)
  have "fs_inv (m\<lparr>collapsed_toolbar_height := h, base_offset := None\<rparr>)"
    using inv ok Op_SetCollapsedToolbarHeight by (simp add: fs_inv_def)
  then show ?thesis using fs_notify_ok [OF obs] Op_SetCollapsedToolbarHeight inv ok
    by (simp add: SetCollapsedToolbarHeight_def)
next
  case (Op_SetExpandedToolbarHeight h)
  have "fs_inv (m\<lparr>expanded_toolbar_height := h, base_offset := None\<rparr>)"
    using inv ok Op_SetExpandedToolbarHeight by (simp add: fs_inv_def)
  then show ?thesis using fs_notify_ok [OF obs] Op_SetExpandedToolbarHeight inv ok
    by (simp add: SetExpandedToolbarHeight_def)
next
  case (Op_SetBottomToolbarHeight h)
  have "fs_inv (m\<lparr>bottom_toolbar_height := h, base_offset := None\<rparr>)"
    using inv ok Op_SetBottomToolbarHeight by (simp add: fs_inv_def)
  then show ?thesis using fs_notify_ok [OF obs] Op_SetBottomToolbarHeight inv ok
    by (simp add: SetBottomToolbarHeight_def)
next
  case (Op_SetScrollViewHeight h)
  have "fs_inv (m\<lparr>scroll_view_height := h\<rparr>)" using inv by (simp add: fs_inv_def)
  from UpdateDisabledCounter_ok [OF obs this] Op_SetScrollViewHeight show ?thesis
    by (auto simp: SetScrollViewHeight_def)
next
  case (Op_SetContentHeight h)
  have "fs_inv (m\<lparr>content_height := h\<rparr>)" using inv by (simp add: fs_inv_def)
  from UpdateDisabledCounter_ok [OF obs this] Op_SetContentHeight show ?thesis
    by (auto simp: SetContentHeight_def)
next
  case (Op_SetYContentOffset y)
  then show ?thesis using SetYContentOffset_ok [OF obs inv, of y] by auto
next
  case (Op_SetScrollViewIsScrolling b)
  have "fs_inv (m\<lparr>scrolling := b\<rparr>)" "fs_inv (m\<lparr>scrolling := b, ignoring_current_scroll := False\<rparr>)"
    using inv by (simp_all add: fs_inv_def)
  then show ?thesis using fs_notify_ok [OF obs] Op_SetScrollViewIsScrolling inv
    by (auto simp: SetScrollViewIsScrolling_def)
next
  case (Op_SetScrollViewIsDragging b)
  have "fs_inv (UpdateBaseOffset (m\<lparr>dragging := b\<rparr>))" "fs_inv (m\<lparr>dragging := b\<rparr>)"
    using inv by (simp_all add: fs_inv_def UpdateBaseOffset_def)
  with UpdateDisabledCounter_ok [OF obs this(1)] inv Op_SetScrollViewIsDragging show ?thesis
    by (auto simp: SetScrollViewIsDragging_def Let_def)
next
  case (Op_SetWebViewSafeAreaInsets i)
  have "fs_inv (m\<lparr>safe_area_insets := i\<rparr>)" using inv by (simp add: fs_inv_def)
  from UpdateDisabledCounter_ok [OF obs this] inv Op_SetWebViewSafeAreaInsets show ?thesis
    by (auto simp: SetWebViewSafeAreaInsets_def)
next
  case (Op_SetFreezeToolbarHeight b)
  have "fs_inv (m\<lparr>freeze_toolbar_height := b, base_offset := None\<rparr>)" using inv by (simp add: fs_inv_def)
  then show ?thesis using fs_notify_ok [OF obs] Op_SetFreezeToolbarHeight inv
    by (simp add: SetFreezeToolbarHeight_def)
qed (use inv ok in \<open>auto simp: fs_inv_def IgnoreRemainderOfCurrentScroll_def AnimationEndedWithProgress_def
  SetTopContentInset_def SetScrollViewIsZooming_def SetResizesScrollView_def\<close>)

interpretation fullscreen: checked_machine "fs_step obs" fs_ok
  "\<lambda>m. observers_ok obs \<and> fs_inv m \<and> observer_callback_count m = 0"
  for obs
  by unfold_locales (use fs_step_safe in fastforce)

section \<open>Scrolling computes the progress\<close>

text \<open>The base offset is the offset at which the toolbar would be completely visible, so that
  recomputing the progress from it changes nothing.\<close>

lemma base_offset_recovers_progress:
  assumes "toolbar_height_delta m \<noteq> 0" and "b = y_content_offset m - (1 - progress m) * toolbar_height_delta m"
  shows "1 + (b - y) / toolbar_height_delta m =
    progress m - (y - y_content_offset m) / toolbar_height_delta m"
  using assms by (simp add: field_simps)

lemma cgfloat_epsilon_pos: "0 < cgfloat_epsilon"
  by (simp add: cgfloat_epsilon_def)

lemma progress_SetProgress:
  assumes "\<And>ev m. progress (obs ev m) = progress m"
  shows "\<bar>progress (SetProgress obs m p) - max 0 (min 1 p)\<bar> \<le> cgfloat_epsilon"
  using assms cgfloat_epsilon_pos
  by (simp add: SetProgress_def Let_def AreCGFloatsEqual_def fs_notify_def enter_callback_def leave_callback_def)

lemma SetYContentOffset_passive:
  assumes "\<not> fs_enabled m \<or> \<not> scrolling m \<or> zooming m \<or> observer_callback_count m \<noteq> 0"
  shows "SetYContentOffset obs m y = Inr (UpdateBaseOffset (m\<lparr>y_content_offset := y\<rparr>))"
  using assms by (auto simp: SetYContentOffset_def ActionForScrollFromOffset_def fs_enabled_def)

section \<open>Properties\<close>

definition no_observers :: fullscreen_observers where "no_observers ev m = m"

text \<open>An observer that scrolls the content back to the top whenever the progress changes.\<close>

definition scroll_back :: fullscreen_observers where
  "scroll_back ev m =
     (if ev = FullscreenModelProgressUpdated
      then (case SetYContentOffset no_observers m 0 of Inl _ \<Rightarrow> m | Inr m' \<Rightarrow> m') else m)"

lemma no_observers_ok: "observers_ok no_observers"
  by (simp add: observers_ok_def no_observers_def)

lemma scroll_back_ok: "observers_ok scroll_back"
  unfolding observers_ok_def
proof (intro allI impI)
  fix ev m assume "fs_inv m"
  from SetYContentOffset_ok [OF no_observers_ok this, of 0] this
  show "fs_inv (scroll_back ev m) \<and> observer_callback_count (scroll_back ev m) = observer_callback_count m"
    by (auto simp: scroll_back_def)
qed

definition demo_fs :: fullscreen_model where
  "demo_fs = new_fullscreen_model\<lparr>progress := 1, base_offset := Some 0, expanded_toolbar_height := 50,
     scroll_view_height := 500, content_height := 2000, scrolling := True\<rparr>"



text \<open>A scroll moves the toolbar only if the user made it: while the model is disabled, no
  scroll is in progress, the view zooms or an observer is being called, a new content offset
  leaves the progress alone and takes the offset as the new reference, from which the
  current progress would be recomputed unchanged.\<close>
theorem fullscreen_only_user_scrolls_move_the_toolbar:
  assumes "\<not> fs_enabled m \<or> \<not> scrolling m \<or> zooming m \<or> observer_callback_count m \<noteq> 0"
  shows "\<exists>m' b. SetYContentOffset obs m y = Inr m' \<and> progress m' = progress m \<and>
    y_content_offset m' = y \<and> base_offset m' = Some b \<and>
    (toolbar_height_delta m' = 0 \<or> 1 + (b - y) / toolbar_height_delta m' = progress m')"
proof -
  let ?m = "UpdateBaseOffset (m\<lparr>y_content_offset := y\<rparr>)"
  let ?b = "y - (1 - progress m) * toolbar_height_delta m"
  have d: "toolbar_height_delta (m\<lparr>y_content_offset := y, base_offset := bo\<rparr>) = toolbar_height_delta m"
    "toolbar_height_delta (m\<lparr>y_content_offset := y\<rparr>) = toolbar_height_delta m" for bo
    by (simp_all add: toolbar_height_delta_def GetExpandedToolbarHeight_def GetCollapsedToolbarHeight_def)
  have "toolbar_height_delta m = 0 \<or> 1 + (?b - y) / toolbar_height_delta m = progress m"
    by (cases "toolbar_height_delta m = 0") (simp_all add: field_simps)
  then show ?thesis unfolding SetYContentOffset_passive [OF assms]
    by (intro exI [of _ ?m] exI [of _ ?b]) (simp add: d UpdateBaseOffset_def)
qed

theorem fullscreen_only_user_scrolls_move_the_toolbar_witness:
  "\<exists>m'. SetYContentOffset no_observers (demo_fs\<lparr>zooming := True\<rparr>) 300 = Inr m' \<and> progress m' = 1"
proof -
  have "zooming (demo_fs\<lparr>zooming := True\<rparr>)" "progress (demo_fs\<lparr>zooming := True\<rparr>) = 1"
    by (simp_all add: demo_fs_def)
  with fullscreen_only_user_scrolls_move_the_toolbar [of "demo_fs\<lparr>zooming := True\<rparr>" no_observers 300]
  show ?thesis by auto
qed

text \<open>A user scroll inside the page moves the toolbar by the scrolled distance: the new
  progress is the old one minus the distance divided by the toolbar's height difference,
  cut off at 0 and 1, up to the tolerance with which the code compares.\<close>
theorem fullscreen_scroll_moves_the_toolbar_with_the_content:
  assumes "\<And>ev m. progress (obs ev m) = progress m"
    and "fs_enabled m" and "scrolling m" and "\<not> zooming m" and "observer_callback_count m = 0"
    and "\<not> ignoring_current_scroll m" and "\<not> resizes_scroll_view m"
    and "cgfloat_epsilon < toolbar_height_delta m" and "cgfloat_epsilon < \<bar>y - y_content_offset m\<bar>"
    and "- top_inset m < y" and "scroll_view_height m - top_inset m < content_height m"
    and "base_offset m = Some (y_content_offset m - (1 - progress m) * toolbar_height_delta m)"
  shows "\<exists>m'. SetYContentOffset obs m y = Inr m' \<and>
    \<bar>progress m' - max 0 (min 1 (progress m - (y - y_content_offset m) / toolbar_height_delta m))\<bar> \<le> cgfloat_epsilon"
proof -
  let ?m = "m\<lparr>y_content_offset := y\<rparr>"
  have d: "toolbar_height_delta ?m = toolbar_height_delta m" "toolbar_height_delta m \<noteq> 0"
    using assms(8) cgfloat_epsilon_pos
    by (simp_all add: toolbar_height_delta_def GetExpandedToolbarHeight_def GetCollapsedToolbarHeight_def)
  have "ActionForScrollFromOffset ?m (y_content_offset m) = kUpdateProgress"
    using assms d cgfloat_epsilon_pos
    by (simp add: ActionForScrollFromOffset_def fs_enabled_def AreCGFloatsEqual_def has_base_offset_def)
  then have "SetYContentOffset obs m y = Inr (SetProgress obs ?m
      (progress m - (y - y_content_offset m) / toolbar_height_delta m))"
    using assms(12) d base_offset_recovers_progress [OF d(2) refl, of y]
    by (simp add: SetYContentOffset_def UpdateProgress_def Let_def)
  with progress_SetProgress [of obs ?m, OF assms(1)] show ?thesis by simp
qed

theorem fullscreen_scroll_moves_the_toolbar_with_the_content_witness:
  "\<exists>m'. SetYContentOffset no_observers demo_fs 25 = Inr m' \<and> \<bar>progress m' - 1 / 2\<bar> \<le> cgfloat_epsilon"
proof -
  have "toolbar_height_delta demo_fs = 50"
    by (simp add: demo_fs_def toolbar_height_delta_def GetExpandedToolbarHeight_def
        GetCollapsedToolbarHeight_def new_fullscreen_model_def)
  then show ?thesis
    using fullscreen_scroll_moves_the_toolbar_with_the_content [of no_observers demo_fs 25]
    by (simp add: no_observers_def demo_fs_def new_fullscreen_model_def fs_enabled_def cgfloat_epsilon_def)
qed

text \<open>When the content or the view changes its height outside a scroll, the model disables
  itself exactly if the content fits into the view and the threshold, and it counts itself
  at most once among the features that disable it, so that it neither keeps nor steals
  another feature's claim.\<close>
theorem fullscreen_short_content_is_counted_once:
  assumes "fs_inv m" and "\<not> scrolling m"
  shows "\<exists>m'. SetContentHeight no_observers m h = Inr m' \<and> content_height m' = h \<and>
    disabled_for_short_content m' = content_is_short m' \<and>
    disabled_counter m' + (if disabled_for_short_content m then 1 else 0) =
      disabled_counter m + (if content_is_short m' then 1 else 0)"
proof -
  let ?m = "m\<lparr>content_height := h\<rparr>"
  have short: "content_is_short (m'\<lparr>disabled_for_short_content := a, disabled_counter := c, progress := p,
      base_offset := bo, observer_callback_count := n\<rparr>) = content_is_short m'" for m' a c p bo n
    by (simp add: content_is_short_def disabling_threshold_def GetExpandedToolbarHeight_def)
  note upd = UpdateDisabledCounterForContentHeight_def IncrementDisabledCounter_def DecrementDisabledCounter_def
    SetProgress_def UpdateBaseOffset_def fs_notify_def enter_callback_def leave_callback_def no_observers_def Let_def
  have same: "content_is_short m1 = content_is_short ?m"
    if "content_height m1 = h" "scroll_view_height m1 = scroll_view_height m"
      "resizes_scroll_view m1 = resizes_scroll_view m" "freeze_toolbar_height m1 = freeze_toolbar_height m"
      "expanded_toolbar_height m1 = expanded_toolbar_height m" "bottom_toolbar_height m1 = bottom_toolbar_height m"
      "safe_area_insets m1 = safe_area_insets m" for m1
    using that by (simp add: content_is_short_def disabling_threshold_def GetExpandedToolbarHeight_def)
  consider "disabled_for_short_content m = content_is_short ?m"
    | "\<not> disabled_for_short_content m" "content_is_short ?m" | "disabled_for_short_content m" "\<not> content_is_short ?m"
    by blast
  then show ?thesis
  proof cases
    case 1
    then show ?thesis using assms by (simp add: SetContentHeight_def upd)
  next
    case 2
    let ?r = "IncrementDisabledCounter no_observers (?m\<lparr>disabled_for_short_content := True\<rparr>)"
    have r: "SetContentHeight no_observers m h = Inr ?r" using assms 2
      by (simp add: SetContentHeight_def UpdateDisabledCounterForContentHeight_def)
    moreover have "content_is_short ?r = content_is_short ?m" by (rule same) (simp_all add: upd)
    ultimately show ?thesis using 2 by (simp add: upd)
  next
    case 3
    let ?n = "?m\<lparr>disabled_for_short_content := False, disabled_counter := disabled_counter m - 1\<rparr>"
    let ?r = "if disabled_counter m = 1 then fs_notify no_observers FullscreenModelEnabledStateChanged ?n else ?n"
    have c: "0 < disabled_counter m" using assms(1) 3 by (simp add: fs_inv_def)
    then have "SetContentHeight no_observers m h = Inr ?r" using assms 3
      by (auto simp: SetContentHeight_def UpdateDisabledCounterForContentHeight_def DecrementDisabledCounter_def Let_def)
    moreover have "content_is_short ?r = content_is_short ?m" by (rule same) (simp_all add: upd)
    ultimately show ?thesis using 3 c by (simp add: upd)
  qed
qed

theorem fullscreen_short_content_is_counted_once_witness:
  "\<exists>m'. SetContentHeight no_observers (demo_fs\<lparr>scrolling := False\<rparr>) 400 = Inr m' \<and>
     disabled_for_short_content m' = content_is_short m'"
proof -
  have "fs_inv (demo_fs\<lparr>scrolling := False\<rparr>)" "\<not> scrolling (demo_fs\<lparr>scrolling := False\<rparr>)"
    by (simp_all add: fs_inv_def demo_fs_def new_fullscreen_model_def)
  from fullscreen_short_content_is_counted_once [OF this, of 400] show ?thesis by blast
qed

end
