(* ===== verification/List_Model.thy ===== *)
theory List_Model
  imports Prelude "HOL-Library.AList"
begin

text \<open>
  The model behind table and collection views, \<open>chrome/browser/ui/list_model/list_model.mm\<close>:
  sections tagged with identifiers, each with a list of items, and the translation between
  index paths (section and item) and model coordinates (section identifier, item type, index
  among the items of that type).

  An item is an object identity with a type.  \<open>NSNotFound\<close> is \<open>None\<close>; \<open>base::checked_cast\<close>
  of a negative number fails a \<open>CHECK\<close>.  The dictionary of collapsed sections in the user
  defaults, which \<open>ListModelCollapsedMediator\<close> reads and writes, is a component of the state.
\<close>

section \<open>State\<close>

datatype ListModelCollapsableMode = ListModelCollapsableModeHeader | ListModelCollapsableModeFirstCell

record ListItem =
  item_id :: nat
  item_type :: int

record list_model =
  section_identifiers :: "int list"
  lm_sections :: "ListItem list list"
  lm_headers :: "int \<Rightarrow> ListItem option"
  lm_footers :: "int \<Rightarrow> ListItem option"
  collapsed_keys :: "(int \<times> string) list"
  collapsable_mode :: ListModelCollapsableMode
  collapsed_sections :: "string \<Rightarrow> bool option"

definition kSectionIdentifierEnumZero :: int where "kSectionIdentifierEnumZero = 10"
definition kItemTypeEnumZero :: int where "kItemTypeEnumZero = 100"

definition new_list_model :: "(string \<Rightarrow> bool option) \<Rightarrow> list_model" where
  "new_list_model defaults =
     \<lparr>section_identifiers = [], lm_sections = [], lm_headers = (\<lambda>_. None), lm_footers = (\<lambda>_. None),
      collapsed_keys = [], collapsable_mode = ListModelCollapsableModeHeader,
      collapsed_sections = defaults\<rparr>"

section \<open>Sections\<close>

definition internalSectionForIdentifier :: "list_model \<Rightarrow> int \<Rightarrow> nat option" where
  "internalSectionForIdentifier m sid = index_where (\<lambda>i. i = sid) (section_identifiers m)"

definition hasSectionForSectionIdentifier :: "list_model \<Rightarrow> int \<Rightarrow> bool" where
  "hasSectionForSectionIdentifier m sid \<longleftrightarrow> internalSectionForIdentifier m sid \<noteq> None"

definition sectionForSectionIdentifier :: "list_model \<Rightarrow> int \<Rightarrow> nat outcome" where
  "sectionForSectionIdentifier m sid =
     (case internalSectionForIdentifier m sid of None \<Rightarrow> Inl Dcheck_failed | Some s \<Rightarrow> Inr s)"

definition addSectionWithIdentifier :: "list_model \<Rightarrow> int \<Rightarrow> list_model outcome" where
  "addSectionWithIdentifier m sid =
     dcheck (kSectionIdentifierEnumZero \<le> sid)
     (dcheck (internalSectionForIdentifier m sid = None)
       (Inr (m\<lparr>section_identifiers := section_identifiers m @ [sid],
               lm_sections := lm_sections m @ [[]]\<rparr>)))"

definition insertSectionWithIdentifier :: "list_model \<Rightarrow> int \<Rightarrow> nat \<Rightarrow> list_model outcome" where
  "insertSectionWithIdentifier m sid index =
     dcheck (kSectionIdentifierEnumZero \<le> sid)
     (dcheck (internalSectionForIdentifier m sid = None)
     (dcheck (index \<le> length (lm_sections m))
       (Inr (m\<lparr>section_identifiers := insert_at index sid (section_identifiers m),
               lm_sections := insert_at index [] (lm_sections m)\<rparr>))))"

definition removeSectionWithIdentifier :: "list_model \<Rightarrow> int \<Rightarrow> list_model outcome" where
  "removeSectionWithIdentifier m sid =
     obind (sectionForSectionIdentifier m sid) (\<lambda>section.
     Inr (m\<lparr>section_identifiers := remove_at section (section_identifiers m),
             lm_sections := remove_at section (lm_sections m),
             collapsed_keys := AList.delete sid (collapsed_keys m)\<rparr>))"

section \<open>Items\<close>

text \<open>The enumeration of \<open>itemForItemType:inSectionItems:atIndex:\<close>; \<open>idx\<close> is the position.\<close>

fun item_for_type_loop :: "int \<Rightarrow> ListItem list \<Rightarrow> nat \<Rightarrow> nat \<Rightarrow> nat \<Rightarrow> nat option" where
  "item_for_type_loop t [] index idx indexInItemType = None"
| "item_for_type_loop t (obj # objs) index idx indexInItemType =
     (if item_type obj = t then
        (if indexInItemType = index then Some idx
         else item_for_type_loop t objs index (Suc idx) (Suc indexInItemType))
      else item_for_type_loop t objs index (Suc idx) indexInItemType)"

definition itemForItemType :: "int \<Rightarrow> ListItem list \<Rightarrow> nat \<Rightarrow> nat option" where
  "itemForItemType t sectionItems index = item_for_type_loop t sectionItems index 0 0"

definition addItem :: "list_model \<Rightarrow> ListItem \<Rightarrow> int \<Rightarrow> list_model outcome" where
  "addItem m item sid =
     dcheck (kItemTypeEnumZero \<le> item_type item)
     (obind (sectionForSectionIdentifier m sid) (\<lambda>section.
      obind (vec_at (lm_sections m) section) (\<lambda>items.
      Inr (m\<lparr>lm_sections := (lm_sections m)[section := items @ [item]]\<rparr>))))"

definition insertItem :: "list_model \<Rightarrow> ListItem \<Rightarrow> int \<Rightarrow> nat \<Rightarrow> list_model outcome" where
  "insertItem m item sid index =
     dcheck (kItemTypeEnumZero \<le> item_type item)
     (obind (sectionForSectionIdentifier m sid) (\<lambda>section.
      obind (vec_at (lm_sections m) section) (\<lambda>items.
      dcheck (index \<le> length items)
        (Inr (m\<lparr>lm_sections := (lm_sections m)[section := insert_at index item items]\<rparr>)))))"

definition removeItemWithType :: "list_model \<Rightarrow> int \<Rightarrow> int \<Rightarrow> nat \<Rightarrow> list_model outcome" where
  "removeItemWithType m itemType sid index =
     obind (sectionForSectionIdentifier m sid) (\<lambda>section.
     obind (vec_at (lm_sections m) section) (\<lambda>items.
     case itemForItemType itemType items index of
       None \<Rightarrow> Inl Dcheck_failed
     | Some item \<Rightarrow> Inr (m\<lparr>lm_sections := (lm_sections m)[section := remove_at item items]\<rparr>)))"

definition deleteAllItemsFromSectionWithIdentifier :: "list_model \<Rightarrow> int \<Rightarrow> list_model outcome" where
  "deleteAllItemsFromSectionWithIdentifier m sid =
     obind (sectionForSectionIdentifier m sid) (\<lambda>section.
     obind (vec_at (lm_sections m) section) (\<lambda>items.
     Inr (m\<lparr>lm_sections := (lm_sections m)[section := []]\<rparr>)))"

definition setHeader :: "list_model \<Rightarrow> ListItem option \<Rightarrow> int \<Rightarrow> list_model" where
  "setHeader m header sid = m\<lparr>lm_headers := (lm_headers m)(sid := header)\<rparr>"

definition setFooter :: "list_model \<Rightarrow> ListItem option \<Rightarrow> int \<Rightarrow> list_model" where
  "setFooter m footer sid = m\<lparr>lm_footers := (lm_footers m)(sid := footer)\<rparr>"

section \<open>Queries by index path\<close>

type_synonym NSIndexPath = "int \<times> int"

definition sectionIdentifierForSection :: "list_model \<Rightarrow> int \<Rightarrow> int outcome" where
  "sectionIdentifierForSection m section =
     check (0 \<le> section)
     (dcheck (nat section < length (section_identifiers m))
       (vec_at (section_identifiers m) (nat section)))"

definition itemAtIndexPath :: "list_model \<Rightarrow> NSIndexPath option \<Rightarrow> ListItem outcome" where
  "itemAtIndexPath m indexPath =
     (case indexPath of None \<Rightarrow> Inl Dcheck_failed
      | Some (section, item) \<Rightarrow>
          check (0 \<le> section)
          (dcheck (nat section < length (lm_sections m))
          (obind (vec_at (lm_sections m) (nat section)) (\<lambda>items.
           check (0 \<le> item)
           (dcheck (nat item < length items) (vec_at items (nat item)))))))"

definition hasItemAtIndexPath :: "list_model \<Rightarrow> NSIndexPath option \<Rightarrow> bool outcome" where
  "hasItemAtIndexPath m indexPath =
     (case indexPath of None \<Rightarrow> Inr False
      | Some (section, item) \<Rightarrow>
          check (0 \<le> section)
          (if nat section < length (lm_sections m) then
             obind (vec_at (lm_sections m) (nat section)) (\<lambda>items.
             check (0 \<le> item) (Inr (nat item < length items)))
           else Inr False))"

definition itemTypeForIndexPath :: "list_model \<Rightarrow> NSIndexPath option \<Rightarrow> int outcome" where
  "itemTypeForIndexPath m indexPath = obind (itemAtIndexPath m indexPath) (\<lambda>item. Inr (item_type item))"

text \<open>The loop of \<open>indexInItemTypeForItem:inSectionItems:\<close>; the result is \<open>None\<close> if the item
  was not found.\<close>

fun index_in_type_loop :: "ListItem \<Rightarrow> ListItem list \<Rightarrow> nat \<Rightarrow> nat option" where
  "index_in_type_loop item [] indexInItemType = None"
| "index_in_type_loop item (sectionItem # rest) indexInItemType =
     (if sectionItem = item then Some indexInItemType
      else if item_type sectionItem = item_type item
      then index_in_type_loop item rest (Suc indexInItemType)
      else index_in_type_loop item rest indexInItemType)"

definition indexInItemTypeForItem :: "ListItem \<Rightarrow> ListItem list \<Rightarrow> nat outcome" where
  "indexInItemTypeForItem item sectionItems =
     dcheck (item \<in> set sectionItems)
       (case index_in_type_loop item sectionItems 0 of None \<Rightarrow> Inl Dcheck_failed | Some n \<Rightarrow> Inr n)"

definition indexInItemTypeForIndexPath :: "list_model \<Rightarrow> NSIndexPath \<Rightarrow> nat outcome" where
  "indexInItemTypeForIndexPath m indexPath =
     check (0 \<le> fst indexPath)
     (dcheck (nat (fst indexPath) < length (lm_sections m))
     (obind (vec_at (lm_sections m) (nat (fst indexPath))) (\<lambda>items.
      obind (itemAtIndexPath m (Some indexPath)) (\<lambda>item.
      indexInItemTypeForItem item items))))"

definition headerForSectionWithIdentifier :: "list_model \<Rightarrow> int \<Rightarrow> ListItem option" where
  "headerForSectionWithIdentifier m sid = lm_headers m sid"

definition footerForSectionWithIdentifier :: "list_model \<Rightarrow> int \<Rightarrow> ListItem option" where
  "footerForSectionWithIdentifier m sid = lm_footers m sid"

definition headerForSection :: "list_model \<Rightarrow> int \<Rightarrow> ListItem option outcome" where
  "headerForSection m section =
     obind (sectionIdentifierForSection m section) (\<lambda>sid. Inr (lm_headers m sid))"

definition footerForSection :: "list_model \<Rightarrow> int \<Rightarrow> ListItem option outcome" where
  "footerForSection m section =
     obind (sectionIdentifierForSection m section) (\<lambda>sid. Inr (lm_footers m sid))"

definition itemsInSectionWithIdentifier :: "list_model \<Rightarrow> int \<Rightarrow> ListItem list outcome" where
  "itemsInSectionWithIdentifier m sid =
     obind (sectionForSectionIdentifier m sid) (\<lambda>section.
     dcheck (section < length (lm_sections m)) (vec_at (lm_sections m) section))"

section \<open>Queries by model coordinates\<close>

definition hasItemForItemType :: "list_model \<Rightarrow> int \<Rightarrow> int \<Rightarrow> nat \<Rightarrow> bool outcome" where
  "hasItemForItemType m itemType sid index =
     (if \<not> hasSectionForSectionIdentifier m sid then Inr False
      else
        obind (sectionForSectionIdentifier m sid) (\<lambda>section.
        obind (vec_at (lm_sections m) section) (\<lambda>items.
        Inr (itemForItemType itemType items index \<noteq> None))))"

text \<open>The item of the index path is \<open>None\<close> when it is \<open>NSNotFound\<close>.\<close>

definition indexPathForItemType :: "list_model \<Rightarrow> int \<Rightarrow> int \<Rightarrow> nat \<Rightarrow> (nat \<times> nat option) outcome" where
  "indexPathForItemType m itemType sid index =
     obind (sectionForSectionIdentifier m sid) (\<lambda>section.
     obind (vec_at (lm_sections m) section) (\<lambda>items.
     Inr (section, itemForItemType itemType items index)))"

fun first_of_type_in_sections :: "int \<Rightarrow> ListItem list list \<Rightarrow> nat \<Rightarrow> (nat \<times> nat) option" where
  "first_of_type_in_sections t [] sectionIndex = None"
| "first_of_type_in_sections t (items # rest) sectionIndex =
     (case index_where (\<lambda>obj. item_type obj = t) items of
        Some itemIndex \<Rightarrow> Some (sectionIndex, itemIndex)
      | None \<Rightarrow> first_of_type_in_sections t rest (Suc sectionIndex))"

definition indexPathForItemTypeInAllSections :: "list_model \<Rightarrow> int \<Rightarrow> (nat \<times> nat) option" where
  "indexPathForItemTypeInAllSections m itemType = first_of_type_in_sections itemType (lm_sections m) 0"

definition indexPathsForItemType :: "list_model \<Rightarrow> int \<Rightarrow> int \<Rightarrow> (nat \<times> nat) list outcome" where
  "indexPathsForItemType m itemType sid =
     obind (sectionForSectionIdentifier m sid) (\<lambda>section.
     obind (vec_at (lm_sections m) section) (\<lambda>items.
     Inr (map (\<lambda>(i, obj). (section, i))
            (filter (\<lambda>(i, obj). item_type obj = itemType) (enumerate 0 items)))))"

definition hasItemInSection :: "list_model \<Rightarrow> ListItem \<Rightarrow> int \<Rightarrow> bool outcome" where
  "hasItemInSection m item sid =
     obind (itemsInSectionWithIdentifier m sid) (\<lambda>items.
     Inr (index_where (\<lambda>x. x = item) items \<noteq> None))"

fun has_item_loop :: "list_model \<Rightarrow> ListItem \<Rightarrow> int list \<Rightarrow> bool outcome" where
  "has_item_loop m item [] = Inr False"
| "has_item_loop m item (sid # rest) =
     obind (hasItemInSection m item sid) (\<lambda>found. if found then Inr True else has_item_loop m item rest)"

definition hasItem :: "list_model \<Rightarrow> ListItem \<Rightarrow> bool outcome" where
  "hasItem m item = has_item_loop m item (section_identifiers m)"

fun index_path_loop :: "ListItem \<Rightarrow> ListItem list list \<Rightarrow> nat \<Rightarrow> (nat \<times> nat) outcome" where
  "index_path_loop item [] section = Inl Notreached"
| "index_path_loop item (items # rest) section =
     (case index_where (\<lambda>x. x = item) items of
        Some itemIndex \<Rightarrow> Inr (section, itemIndex)
      | None \<Rightarrow> index_path_loop item rest (Suc section))"

definition indexPathForItem :: "list_model \<Rightarrow> ListItem \<Rightarrow> (nat \<times> nat) outcome" where
  "indexPathForItem m item = index_path_loop item (lm_sections m) 0"

section \<open>Collapsing\<close>

definition setSectionKeyCollapsed :: "list_model \<Rightarrow> string \<Rightarrow> bool \<Rightarrow> list_model" where
  "setSectionKeyCollapsed m key collapsed =
     m\<lparr>collapsed_sections := (collapsed_sections m)(key \<mapsto> collapsed)\<rparr>"

definition sectionKeyIsCollapsed :: "list_model \<Rightarrow> string \<Rightarrow> bool" where
  "sectionKeyIsCollapsed m key = (case collapsed_sections m key of None \<Rightarrow> False | Some b \<Rightarrow> b)"

definition setCollapsedKey :: "list_model \<Rightarrow> int \<Rightarrow> string \<Rightarrow> list_model outcome" where
  "setCollapsedKey m sid key =
     dcheck (hasSectionForSectionIdentifier m sid)
     (dcheck (key \<notin> set (map snd (collapsed_keys m)))
       (Inr (m\<lparr>collapsed_keys := AList.update sid key (collapsed_keys m)\<rparr>)))"

definition setSectionCollapsed :: "list_model \<Rightarrow> int \<Rightarrow> bool \<Rightarrow> list_model outcome" where
  "setSectionCollapsed m sid collapsed =
     dcheck (hasSectionForSectionIdentifier m sid)
     (case map_of (collapsed_keys m) sid of None \<Rightarrow> Inl Dcheck_failed
      | Some key \<Rightarrow> Inr (setSectionKeyCollapsed m key collapsed))"

definition sectionIsCollapsed :: "list_model \<Rightarrow> int \<Rightarrow> bool outcome" where
  "sectionIsCollapsed m sid =
     dcheck (hasSectionForSectionIdentifier m sid)
     (case map_of (collapsed_keys m) sid of None \<Rightarrow> Inr False | Some key \<Rightarrow> Inr (sectionKeyIsCollapsed m key))"

definition numberOfSections :: "list_model \<Rightarrow> nat" where
  "numberOfSections m = length (lm_sections m)"

definition numberOfItemsInSection :: "list_model \<Rightarrow> int \<Rightarrow> nat outcome" where
  "numberOfItemsInSection m section =
     check (0 \<le> section)
     (dcheck (nat section < length (lm_sections m))
     (obind (sectionIdentifierForSection m section) (\<lambda>sid.
      obind (vec_at (lm_sections m) (nat section)) (\<lambda>items.
      obind (sectionIsCollapsed m sid) (\<lambda>collapsed.
      if collapsed then
        (case collapsable_mode m of
           ListModelCollapsableModeHeader \<Rightarrow> Inr 0
         | ListModelCollapsableModeFirstCell \<Rightarrow> dcheck (0 < length items) (Inr 1))
      else Inr (length items))))))"

section \<open>Operations as data, invariant and specification\<close>

datatype list_op =
    AddSection int
  | InsertSection int nat
  | RemoveSection int
  | AddItem ListItem int
  | InsertItem ListItem int nat
  | RemoveItem int int nat
  | DeleteAllItems int
  | SetHeader "ListItem option" int
  | SetFooter "ListItem option" int
  | SetCollapsedKey int string
  | SetSectionCollapsed int bool

fun list_step :: "list_model \<Rightarrow> list_op \<Rightarrow> list_model outcome" where
  "list_step m (AddSection sid) = addSectionWithIdentifier m sid"
| "list_step m (InsertSection sid i) = insertSectionWithIdentifier m sid i"
| "list_step m (RemoveSection sid) = removeSectionWithIdentifier m sid"
| "list_step m (AddItem x sid) = addItem m x sid"
| "list_step m (InsertItem x sid i) = insertItem m x sid i"
| "list_step m (RemoveItem t sid i) = removeItemWithType m t sid i"
| "list_step m (DeleteAllItems sid) = deleteAllItemsFromSectionWithIdentifier m sid"
| "list_step m (SetHeader h sid) = Inr (setHeader m h sid)"
| "list_step m (SetFooter h sid) = Inr (setFooter m h sid)"
| "list_step m (SetCollapsedKey sid key) = setCollapsedKey m sid key"
| "list_step m (SetSectionCollapsed sid b) = setSectionCollapsed m sid b"

text \<open>The specification: an ordered table from section identifiers to items.\<close>

type_synonym section_table = "(int \<times> ListItem list) list"

definition table_of :: "list_model \<Rightarrow> section_table" where
  "table_of m = zip (section_identifiers m) (lm_sections m)"

definition on_section :: "int \<Rightarrow> (ListItem list \<Rightarrow> ListItem list) \<Rightarrow> section_table \<Rightarrow> section_table" where
  "on_section sid f tab = map (\<lambda>(i, xs). (i, if i = sid then f xs else xs)) tab"

fun remove_nth_of_type :: "int \<Rightarrow> nat \<Rightarrow> ListItem list \<Rightarrow> ListItem list" where
  "remove_nth_of_type t k [] = []"
| "remove_nth_of_type t k (x # xs) =
     (if item_type x = t then (case k of 0 \<Rightarrow> xs | Suc k' \<Rightarrow> x # remove_nth_of_type t k' xs)
      else x # remove_nth_of_type t k xs)"

fun list_spec :: "section_table \<Rightarrow> list_op \<Rightarrow> section_table" where
  "list_spec tab (AddSection sid) = tab @ [(sid, [])]"
| "list_spec tab (InsertSection sid i) = insert_at i (sid, []) tab"
| "list_spec tab (RemoveSection sid) = filter (\<lambda>(i, xs). i \<noteq> sid) tab"
| "list_spec tab (AddItem x sid) = on_section sid (\<lambda>xs. xs @ [x]) tab"
| "list_spec tab (InsertItem x sid i) = on_section sid (insert_at i x) tab"
| "list_spec tab (RemoveItem t sid k) = on_section sid (remove_nth_of_type t k) tab"
| "list_spec tab (DeleteAllItems sid) = on_section sid (\<lambda>_. []) tab"
| "list_spec tab _ = tab"

definition list_inv :: "list_model \<Rightarrow> bool" where
  "list_inv m \<longleftrightarrow> length (section_identifiers m) = length (lm_sections m) \<and>
     distinct (section_identifiers m) \<and> (\<forall>i \<in> set (section_identifiers m). kSectionIdentifierEnumZero \<le> i) \<and>
     fst ` set (collapsed_keys m) \<subseteq> set (section_identifiers m) \<and> distinct (map snd (collapsed_keys m))"

fun list_ok :: "list_model \<Rightarrow> list_op \<Rightarrow> bool" where
  "list_ok m (AddSection sid) \<longleftrightarrow> kSectionIdentifierEnumZero \<le> sid \<and> sid \<notin> set (section_identifiers m)"
| "list_ok m (InsertSection sid i) \<longleftrightarrow>
     kSectionIdentifierEnumZero \<le> sid \<and> sid \<notin> set (section_identifiers m) \<and> i \<le> length (lm_sections m)"
| "list_ok m (RemoveSection sid) \<longleftrightarrow> sid \<in> set (section_identifiers m)"
| "list_ok m (AddItem x sid) \<longleftrightarrow> kItemTypeEnumZero \<le> item_type x \<and> sid \<in> set (section_identifiers m)"
| "list_ok m (InsertItem x sid i) \<longleftrightarrow> kItemTypeEnumZero \<le> item_type x \<and>
     (case map_of (table_of m) sid of None \<Rightarrow> False | Some xs \<Rightarrow> i \<le> length xs)"
| "list_ok m (RemoveItem t sid k) \<longleftrightarrow>
     (case map_of (table_of m) sid of None \<Rightarrow> False
      | Some xs \<Rightarrow> k < length (filter (\<lambda>x. item_type x = t) xs))"
| "list_ok m (DeleteAllItems sid) \<longleftrightarrow> sid \<in> set (section_identifiers m)"
| "list_ok m (SetHeader h sid) \<longleftrightarrow> True"
| "list_ok m (SetFooter h sid) \<longleftrightarrow> True"
| "list_ok m (SetCollapsedKey sid key) \<longleftrightarrow>
     sid \<in> set (section_identifiers m) \<and> key \<notin> set (map snd (collapsed_keys m))"
| "list_ok m (SetSectionCollapsed sid b) \<longleftrightarrow>
     sid \<in> set (section_identifiers m) \<and> map_of (collapsed_keys m) sid \<noteq> None"

section \<open>Lemmas\<close>

lemma sectionForSectionIdentifier_in:
  assumes "list_inv m" and "sid \<in> set (section_identifiers m)"
  obtains s where "sectionForSectionIdentifier m sid = Inr s" "s < length (lm_sections m)"
    "section_identifiers m ! s = sid" "internalSectionForIdentifier m sid = Some s"
proof -
  obtain s where s: "index_where (\<lambda>i. i = sid) (section_identifiers m) = Some s"
    using assms(2) by (cases "index_where (\<lambda>i. i = sid) (section_identifiers m)") auto
  with index_where_SomeD [OF s] assms(1) show ?thesis
    by (intro that [of s]) (auto simp: sectionForSectionIdentifier_def internalSectionForIdentifier_def list_inv_def)
qed

lemma internalSection_None [simp]:
  "internalSectionForIdentifier m sid = None \<longleftrightarrow> sid \<notin> set (section_identifiers m)"
  by (auto simp: internalSectionForIdentifier_def)

lemma hasSection_iff [simp]:
  "hasSectionForSectionIdentifier m sid \<longleftrightarrow> sid \<in> set (section_identifiers m)"
  by (simp add: hasSectionForSectionIdentifier_def)

lemma on_section_update:
  assumes "distinct ids" and "length ids = length secs" and "s < length secs"
  shows "zip ids (secs[s := f (secs ! s)]) = on_section (ids ! s) f (zip ids secs)"
proof (rule nth_equalityI)
  show "length (zip ids (secs[s := f (secs ! s)])) = length (on_section (ids ! s) f (zip ids secs))"
    by (simp add: on_section_def)
  fix k assume "k < length (zip ids (secs[s := f (secs ! s)]))"
  then have k: "k < length ids" "k < length secs" by simp_all
  then show "zip ids (secs[s := f (secs ! s)]) ! k = on_section (ids ! s) f (zip ids secs) ! k"
    using assms by (auto simp: on_section_def nth_list_update nth_eq_iff_index_eq)
qed

lemma zip_insert_at:
  "length xs = length ys \<Longrightarrow> zip (insert_at k x xs) (insert_at k y ys) = insert_at k (x, y) (zip xs ys)"
  by (simp add: insert_at_def take_zip drop_zip)

lemma zip_remove_at:
  assumes "distinct ids" and "length ids = length secs" and "s < length secs"
  shows "zip (remove_at s ids) (remove_at s secs) = filter (\<lambda>(i, xs). i \<noteq> ids ! s) (zip ids secs)"
  using assms
proof (induction ids secs arbitrary: s rule: list_induct2')
  case (4 i ids x secs)
  show ?case
  proof (cases s)
    case 0
    have "filter (\<lambda>(j, xs). j \<noteq> i) (zip ids secs) = zip ids secs"
      using 4(2) by (auto simp: filter_id_conv dest: set_zip_leftD)
    then show ?thesis using 0 by simp
  next
    case (Suc k)
    then have "i \<noteq> ids ! k" using 4 by (auto simp: in_set_conv_nth)
    then show ?thesis using 4 Suc by simp
  qed
qed simp_all

lemma map_of_table:
  assumes "list_inv m" and "s < length (lm_sections m)"
  shows "map_of (table_of m) (section_identifiers m ! s) = Some (lm_sections m ! s)"
  using assms by (simp add: table_of_def list_inv_def map_of_zip_nth)

lemma map_of_table_Some:
  assumes "map_of (table_of m) sid = Some xs"
  shows "sid \<in> set (section_identifiers m)"
  using assms by (auto simp: table_of_def dest!: map_of_SomeD dest: set_zip_leftD)

lemma map_of_table_at:
  assumes "list_inv m" and "sid \<in> set (section_identifiers m)" and "sectionForSectionIdentifier m sid = Inr s"
  shows "map_of (table_of m) sid = Some (lm_sections m ! s)"
proof -
  obtain k where "sectionForSectionIdentifier m sid = Inr k" "k < length (lm_sections m)"
    "section_identifiers m ! k = sid" by (rule sectionForSectionIdentifier_in [OF assms(1,2)])
  with map_of_table [OF assms(1), of k] assms(3) show ?thesis by simp
qed

lemma item_for_type_loop_shift:
  "item_for_type_loop t xs index (Suc idx) n = map_option Suc (item_for_type_loop t xs index idx n)"
  by (induction xs arbitrary: idx n) auto

lemma item_for_type_loop_Suc:
  "item_for_type_loop t xs (Suc index) idx (Suc n) = item_for_type_loop t xs index idx n"
  by (induction xs arbitrary: idx n) auto

lemma itemForItemType_Cons:
  "itemForItemType t (x # xs) index =
     (if item_type x = t then (case index of 0 \<Rightarrow> Some 0 | Suc k \<Rightarrow> map_option Suc (itemForItemType t xs k))
      else map_option Suc (itemForItemType t xs index))"
  by (cases index) (auto simp: itemForItemType_def item_for_type_loop_shift item_for_type_loop_Suc
      item_for_type_loop_shift [of t xs _ 0 0, unfolded One_nat_def])

lemma itemForItemType_Nil [simp]: "itemForItemType t [] index = None"
  by (simp add: itemForItemType_def)

lemma itemForItemType_Some:
  "k < length (filter (\<lambda>x. item_type x = t) xs) \<Longrightarrow>
     \<exists>i. itemForItemType t xs k = Some i \<and> i < length xs \<and> item_type (xs ! i) = t \<and>
         remove_at i xs = remove_nth_of_type t k xs"
proof (induction xs arbitrary: k)
  case Nil
  then show ?case by simp
next
  case (Cons x xs)
  show ?case
  proof (cases "item_type x = t \<and> k = 0")
    case True
    then show ?thesis by (simp add: itemForItemType_Cons)
  next
    case False
    define k' where "k' = (if item_type x = t then k - 1 else k)"
    have "k' < length (filter (\<lambda>x. item_type x = t) xs)" using Cons.prems False by (auto simp: k'_def)
    with Cons.IH obtain i where "itemForItemType t xs k' = Some i" "i < length xs" "item_type (xs ! i) = t"
      "remove_at i xs = remove_nth_of_type t k' xs" by blast
    then show ?thesis using False
      by (intro exI [of _ "Suc i"]) (auto simp: itemForItemType_Cons k'_def split: nat.splits)
  qed
qed

section \<open>Every operation keeps the invariant and simulates the specification\<close>

lemma list_inv_sections:
  "list_inv m \<Longrightarrow> list_inv (m\<lparr>lm_sections := (lm_sections m)[s := xs]\<rparr>)"
  by (simp add: list_inv_def)

lemma table_of_update:
  assumes "list_inv m" and "s < length (lm_sections m)" and "section_identifiers m ! s = sid"
  shows "table_of (m\<lparr>lm_sections := (lm_sections m)[s := f (lm_sections m ! s)]\<rparr>) = on_section sid f (table_of m)"
  using assms on_section_update [of "section_identifiers m" "lm_sections m" s f]
  by (simp add: table_of_def list_inv_def)

lemma snd_update_distinct:
  "distinct (map snd al) \<Longrightarrow> v \<notin> set (map snd al) \<Longrightarrow> distinct (map snd (AList.update k v al))"
proof (induction al)
  case (Cons a al)
  have "set (map snd (AList.update k v al)) \<subseteq> insert v (set (map snd al))" for al :: "('b \<times> 'a) list"
    by (induction al) auto
  with Cons show ?case by (auto split: if_splits)
qed simp

lemma list_step_ok:
  assumes inv: "list_inv m" and ok: "list_ok m x"
  shows "\<exists>m'. list_step m x = Inr m' \<and> list_inv m' \<and> table_of m' = list_spec (table_of m) x"
proof (cases x)
  case (AddSection sid)
  then show ?thesis using inv ok by (auto simp: addSectionWithIdentifier_def list_inv_def table_of_def)
next
  case (InsertSection sid i)
  then show ?thesis using inv ok
    by (auto simp: insertSectionWithIdentifier_def list_inv_def table_of_def zip_insert_at)
next
  case (RemoveSection sid)
  with ok have "sid \<in> set (section_identifiers m)" by simp
  then obtain s where s: "sectionForSectionIdentifier m sid = Inr s" "s < length (lm_sections m)"
    "section_identifiers m ! s = sid" by (rule sectionForSectionIdentifier_in [OF inv])
  have rm: "set (remove_at s (section_identifiers m)) = set (section_identifiers m) - {sid}"
    using inv s by (simp add: set_remove_at list_inv_def)
  have "fst ` set (AList.delete sid (collapsed_keys m)) = fst ` set (collapsed_keys m) - {sid}"
    by (force simp: AList.delete_eq)
  moreover have "distinct (map snd (AList.delete sid (collapsed_keys m)))"
    using inv by (simp add: list_inv_def AList.delete_eq distinct_map_filter)
  ultimately have "list_inv (m\<lparr>section_identifiers := remove_at s (section_identifiers m),
      lm_sections := remove_at s (lm_sections m), collapsed_keys := AList.delete sid (collapsed_keys m)\<rparr>)"
    using inv s rm by (auto simp: list_inv_def)
  moreover have "zip (remove_at s (section_identifiers m)) (remove_at s (lm_sections m)) =
      filter (\<lambda>(i, xs). i \<noteq> sid) (table_of m)"
    using zip_remove_at [of "section_identifiers m" "lm_sections m" s] inv s by (simp add: list_inv_def table_of_def)
  ultimately show ?thesis using RemoveSection s by (simp add: removeSectionWithIdentifier_def table_of_def)
next
  case (AddItem y sid)
  with ok have "sid \<in> set (section_identifiers m)" by simp
  then obtain s where s: "sectionForSectionIdentifier m sid = Inr s" "s < length (lm_sections m)"
    "section_identifiers m ! s = sid" by (rule sectionForSectionIdentifier_in [OF inv])
  then show ?thesis using AddItem ok list_inv_sections [OF inv] table_of_update [OF inv s(2,3)]
    by (simp add: addItem_def)
next
  case (InsertItem y sid i)
  with ok obtain xs where xs: "map_of (table_of m) sid = Some xs" "i \<le> length xs" by (auto split: option.splits)
  have sid: "sid \<in> set (section_identifiers m)" using xs(1) by (rule map_of_table_Some)
  then obtain s where s: "sectionForSectionIdentifier m sid = Inr s" "s < length (lm_sections m)"
    "section_identifiers m ! s = sid" by (rule sectionForSectionIdentifier_in [OF inv])
  with map_of_table_at [OF inv sid s(1)] xs have "i \<le> length (lm_sections m ! s)" by simp
  then show ?thesis using InsertItem ok s list_inv_sections [OF inv] table_of_update [OF inv s(2,3)]
    by (simp add: insertItem_def)
next
  case (RemoveItem t sid k)
  with ok obtain xs where xs: "map_of (table_of m) sid = Some xs" "k < length (filter (\<lambda>x. item_type x = t) xs)"
    by (auto split: option.splits)
  have sid: "sid \<in> set (section_identifiers m)" using xs(1) by (rule map_of_table_Some)
  then obtain s where s: "sectionForSectionIdentifier m sid = Inr s" "s < length (lm_sections m)"
    "section_identifiers m ! s = sid" by (rule sectionForSectionIdentifier_in [OF inv])
  with map_of_table_at [OF inv sid s(1)] xs have "k < length (filter (\<lambda>x. item_type x = t) (lm_sections m ! s))" by simp
  from itemForItemType_Some [OF this] obtain i where
    "itemForItemType t (lm_sections m ! s) k = Some i"
    "remove_at i (lm_sections m ! s) = remove_nth_of_type t k (lm_sections m ! s)" by blast
  then show ?thesis using RemoveItem s list_inv_sections [OF inv]
      table_of_update [OF inv s(2,3), of "remove_nth_of_type t k"]
    by (simp add: removeItemWithType_def)
next
  case (DeleteAllItems sid)
  with ok have "sid \<in> set (section_identifiers m)" by simp
  then obtain s where s: "sectionForSectionIdentifier m sid = Inr s" "s < length (lm_sections m)"
    "section_identifiers m ! s = sid" by (rule sectionForSectionIdentifier_in [OF inv])
  then show ?thesis using DeleteAllItems list_inv_sections [OF inv] table_of_update [OF inv s(2,3)]
    by (simp add: deleteAllItemsFromSectionWithIdentifier_def)
next
  case (SetCollapsedKey sid key)
  have "fst ` set (AList.update sid key (collapsed_keys m)) = insert sid (fst ` set (collapsed_keys m))"
    using arg_cong [OF AList.update_keys [of sid key "collapsed_keys m"], of set] by (auto split: if_splits)
  then show ?thesis using SetCollapsedKey ok inv
    by (auto simp: setCollapsedKey_def list_inv_def table_of_def snd_update_distinct)
next
  case (SetSectionCollapsed sid b)
  then show ?thesis using ok inv
    by (auto simp: setSectionCollapsed_def setSectionKeyCollapsed_def list_inv_def table_of_def)
qed (use inv in \<open>auto simp: setHeader_def setFooter_def list_inv_def table_of_def\<close>)

interpretation list_model: refined_machine list_step list_ok list_inv table_of list_spec
proof unfold_locales
  fix s x assume "list_inv s" "list_ok s x"
  then show "\<exists>t. list_step s x = Inr t \<and> list_inv t" using list_step_ok by blast
next
  fix s x t assume "list_inv s" "list_ok s x" "list_step s x = Inr t"
  then show "table_of t = list_spec (table_of s) x" using list_step_ok [of s x] by auto
qed

section \<open>Model coordinates\<close>

lemma index_in_type_loop_add:
  "index_in_type_loop item xs (Suc n) = map_option Suc (index_in_type_loop item xs n)"
  by (induction xs arbitrary: n) auto

lemma coordinates_in_section:
  "distinct xs \<Longrightarrow> i < length xs \<Longrightarrow>
     \<exists>k. index_in_type_loop (xs ! i) xs 0 = Some k \<and> itemForItemType (item_type (xs ! i)) xs k = Some i"
proof (induction xs arbitrary: i)
  case Nil
  then show ?case by simp
next
  case (Cons x xs)
  show ?case
  proof (cases i)
    case 0
    then show ?thesis by (simp add: itemForItemType_Cons)
  next
    case (Suc j)
    with Cons obtain k where k: "index_in_type_loop (xs ! j) xs 0 = Some k"
      "itemForItemType (item_type (xs ! j)) xs k = Some j" by auto
    have "x \<noteq> xs ! j" using Cons.prems Suc by auto
    then show ?thesis using k Suc
      by (cases "item_type x = item_type (xs ! j)") (auto simp: itemForItemType_Cons index_in_type_loop_add)
  qed
qed

section \<open>Properties\<close>

definition demo_items :: "nat \<Rightarrow> int \<Rightarrow> ListItem" where
  "demo_items n t = \<lparr>item_id = n, item_type = t\<rparr>"

definition demo_list_ops :: "list_op list" where
  "demo_list_ops =
     [AddSection 10, AddItem (demo_items 1 100) 10, AddItem (demo_items 2 101) 10, AddItem (demo_items 3 101) 10,
      InsertSection 11 0, AddItem (demo_items 4 100) 11, RemoveItem 101 10 1, SetCollapsedKey 10 ''k'',
      SetSectionCollapsed 10 True, InsertItem (demo_items 5 101) 10 0]"

definition demo_model :: list_model where
  "demo_model =
     (new_list_model (\<lambda>_. None))\<lparr>section_identifiers := [10, 11],
        lm_sections := [[demo_items 1 100, demo_items 2 101, demo_items 3 101], []]\<rparr>"

lemma demo_list_ops_ok: "admissible list_step list_ok (new_list_model (\<lambda>_. None)) demo_list_ops"
  by code_simp

lemma demo_model_inv: "list_inv demo_model"
  by (simp add: list_inv_def demo_model_def new_list_model_def kSectionIdentifierEnumZero_def)

lemma new_list_model_inv: "list_inv (new_list_model d)" "table_of (new_list_model d) = []"
  by (simp_all add: list_inv_def new_list_model_def table_of_def)

text \<open>C38: A list model implements an ordered table from section identifiers to items: every
  sequence of admissible modifications runs without a fault, and the two parallel vectors of
  identifiers and sections together are the table that the specification computes (removing
  an item by type and index removes that occurrence, and no section but the named one
  changes).\<close>
theorem list_model_refines_the_table:
  assumes "admissible list_step list_ok (new_list_model d) xs"
  shows "\<exists>m. orun list_step (new_list_model d) xs = Inr m \<and>
    length (section_identifiers m) = length (lm_sections m) \<and> distinct (section_identifiers m) \<and>
    zip (section_identifiers m) (lm_sections m) = fold (\<lambda>x tab. list_spec tab x) xs []"
proof -
  obtain m where m: "orun list_step (new_list_model d) xs = Inr m" "list_inv m"
    using list_model.run_safe [OF new_list_model_inv(1) assms] by blast
  then have "table_of m = fold (\<lambda>x tab. list_spec tab x) xs []"
    using list_model.run_refines [OF new_list_model_inv(1) assms m(1)] by (simp only: new_list_model_inv(2))
  with m show ?thesis by (simp add: list_inv_def table_of_def)
qed

theorem list_model_refines_the_table_witness:
  "\<exists>m. orun list_step (new_list_model (\<lambda>_. None)) demo_list_ops = Inr m \<and>
     zip (section_identifiers m) (lm_sections m) =
       [(11, [demo_items 4 100]), (10, [demo_items 5 101, demo_items 1 100, demo_items 2 101])]"
proof -
  have "fold (\<lambda>x tab. list_spec tab x) demo_list_ops [] =
      [(11, [demo_items 4 100]), (10, [demo_items 5 101, demo_items 1 100, demo_items 2 101])]" by code_simp
  with list_model_refines_the_table [OF demo_list_ops_ok] show ?thesis by auto
qed

text \<open>Index paths and model coordinates translate into each other: the section identifier,
  the item type and the index in the type that the model reports for an index path lead back
  to the same index path.\<close>
theorem list_model_coordinates_round_trip:
  assumes "list_inv m" and "s < length (lm_sections m)" and "i < length (lm_sections m ! s)"
    and "distinct (lm_sections m ! s)"
  shows "\<exists>sid t k. sectionIdentifierForSection m (int s) = Inr sid \<and>
    itemTypeForIndexPath m (Some (int s, int i)) = Inr t \<and>
    indexInItemTypeForIndexPath m (int s, int i) = Inr k \<and>
    hasItemForItemType m t sid k = Inr True \<and>
    indexPathForItemType m t sid k = Inr (s, Some i)"
proof -
  let ?x = "lm_sections m ! s ! i"
  let ?sid = "section_identifiers m ! s"
  have len: "s < length (section_identifiers m)" using assms(1,2) by (simp add: list_inv_def)
  then have sid: "?sid \<in> set (section_identifiers m)" by simp
  have "internalSectionForIdentifier m ?sid = Some s"
    using index_where_eq_nth [OF _ len] assms(1) by (simp add: internalSectionForIdentifier_def list_inv_def)
  then have s: "sectionForSectionIdentifier m ?sid = Inr s" by (simp add: sectionForSectionIdentifier_def)
  obtain k where k: "index_in_type_loop ?x (lm_sections m ! s) 0 = Some k"
    "itemForItemType (item_type ?x) (lm_sections m ! s) k = Some i"
    using coordinates_in_section [OF assms(4,3)] by blast
  have item: "itemAtIndexPath m (Some (int s, int i)) = Inr ?x"
    using assms(2,3) by (simp add: itemAtIndexPath_def)
  show ?thesis
    by (rule exI [of _ ?sid], rule exI [of _ "item_type ?x"], rule exI [of _ k])
       (use k s sid len assms(2,3) item in \<open>simp add: sectionIdentifierForSection_def itemTypeForIndexPath_def
         indexInItemTypeForIndexPath_def indexInItemTypeForItem_def hasItemForItemType_def indexPathForItemType_def\<close>)
qed

theorem list_model_coordinates_round_trip_witness:
  "\<exists>sid t k. sectionIdentifierForSection demo_model 0 = Inr sid \<and>
     indexInItemTypeForIndexPath demo_model (0, 2) = Inr k \<and>
     indexPathForItemType demo_model t sid k = Inr (0, Some 2)"
proof -
  have "distinct (lm_sections demo_model ! 0)" "2 < length (lm_sections demo_model ! 0)"
    "0 < length (lm_sections demo_model)"
    by (simp_all add: demo_model_def demo_items_def new_list_model_def)
  with list_model_coordinates_round_trip [OF demo_model_inv, of 0 2] show ?thesis by auto
qed

text \<open>Removing a section does not remove its header (nor its footer): a section that is added
  later under the same identifier starts with no items but with the header of the removed
  section.\<close>
theorem list_model_header_survives_removal:
  assumes "list_inv m" and "sid \<in> set (section_identifiers m)"
  shows "\<exists>m1 m2. removeSectionWithIdentifier (setFooter (setHeader m (Some h) sid) (Some f) sid) sid = Inr m1 \<and>
    \<not> hasSectionForSectionIdentifier m1 sid \<and> addSectionWithIdentifier m1 sid = Inr m2 \<and>
    itemsInSectionWithIdentifier m2 sid = Inr [] \<and>
    headerForSectionWithIdentifier m2 sid = Some h \<and> footerForSectionWithIdentifier m2 sid = Some f"
proof -
  let ?m = "setFooter (setHeader m (Some h) sid) (Some f) sid"
  have inv: "list_inv ?m" and sid: "sid \<in> set (section_identifiers ?m)"
    using assms by (simp_all add: list_inv_def setHeader_def setFooter_def)
  obtain s where s: "sectionForSectionIdentifier ?m sid = Inr s" "s < length (lm_sections ?m)"
    "section_identifiers ?m ! s = sid" by (rule sectionForSectionIdentifier_in [OF inv sid])
  obtain m1 where m1: "removeSectionWithIdentifier ?m sid = Inr m1" "list_inv m1"
    using list_step_ok [OF inv, of "RemoveSection sid"] sid by auto
  have h1: "lm_headers m1 sid = Some h" "lm_footers m1 sid = Some f"
    "section_identifiers m1 = remove_at s (section_identifiers ?m)"
    using m1(1) s(1) by (auto simp: removeSectionWithIdentifier_def setHeader_def setFooter_def)
  have gone: "sid \<notin> set (section_identifiers m1)"
    using h1(3) s inv by (simp add: set_remove_at list_inv_def)
  have ten: "kSectionIdentifierEnumZero \<le> sid" using assms by (simp add: list_inv_def)
  obtain m2 where m2: "addSectionWithIdentifier m1 sid = Inr m2" "list_inv m2"
    "m2 = m1\<lparr>section_identifiers := section_identifiers m1 @ [sid], lm_sections := lm_sections m1 @ [[]]\<rparr>"
    using list_step_ok [OF m1(2), of "AddSection sid"] gone ten by (auto simp: addSectionWithIdentifier_def)
  have sid2: "sid \<in> set (section_identifiers m2)" using m2(3) by simp
  obtain s2 where s2: "sectionForSectionIdentifier m2 sid = Inr s2" "s2 < length (lm_sections m2)"
    "section_identifiers m2 ! s2 = sid" by (rule sectionForSectionIdentifier_in [OF m2(2) sid2])
  have "lm_sections m2 ! s2 = []"
    using s2 m2(3) gone m1(2) by (auto simp: list_inv_def nth_append split: if_splits)
  with s2 have "itemsInSectionWithIdentifier m2 sid = Inr []" by (simp add: itemsInSectionWithIdentifier_def)
  then show ?thesis using m1(1) m2 gone h1(1,2)
    by (auto simp: headerForSectionWithIdentifier_def footerForSectionWithIdentifier_def)
qed

theorem list_model_header_survives_removal_witness:
  "\<exists>m1 m2. removeSectionWithIdentifier (setFooter (setHeader demo_model (Some (demo_items 8 100)) 10)
       (Some (demo_items 9 100)) 10) 10 = Inr m1 \<and>
     addSectionWithIdentifier m1 10 = Inr m2 \<and> headerForSectionWithIdentifier m2 10 = Some (demo_items 8 100)"
proof -
  have "10 \<in> set (section_identifiers demo_model)" by (simp add: demo_model_def)
  from list_model_header_survives_removal [OF demo_model_inv this] show ?thesis by blast
qed

end
