(* ===== verification/Overlay_Context.thy ===== *)
theory Overlay_Context
  imports Web_State_List_Inv
begin

text \<open>
  The data of the overlay system (\<open>chrome/browser/overlays\<close> and
  \<open>chrome/browser/ui/overlays\<close>): the queues of overlay requests that every tab keeps, the
  presenter that shows the front request of the active tab, and the presentation context
  that owns the UI.  The three call each other, so their fields form one record,
  \<open>overlays\<close>; this theory holds the data, the queue's accessors and the parts of the
  context that do not call back.

  A request is identified by a number.  A request is owned by its queue, then possibly by the
  presenter (\<open>removed_request_awaiting_dismissal\<close>), and is destroyed when its last owner
  drops it: \<open>destroyed_requests\<close> collects these, so that a pointer to one of them is
  dangling.  All queues are those of one modality.  The UI itself is the environment:
  \<open>overlay_env\<close> says whether a request is shown in a child view controller and whether the
  coordinator finishes a dismissal without animation before \<open>stopAnimated:\<close> returns.
\<close>

section \<open>Data\<close>

type_synonym rid = nat

datatype OverlayDismissalReason = kUserInteraction | kHiding | kCancellation

text \<open>The delegate of a queue: none, the presenter of the model, or one of another browser.\<close>

datatype queue_delegate = No_delegate | This_presenter | Other_presenter

record overlay_queue =
  request_storages :: "rid list"
  queue_delegate :: queue_delegate
  queue_observed :: bool
  queue_destroyed :: bool

record overlay_coordinator =
  base_view_controller :: "nat option"
  started :: bool

text \<open>\<open>presentation_callback\<close> and \<open>dismissal_callback\<close> are the presenter's callbacks; the
  latter carries the (weakly referenced) queue it was bound to.\<close>

record overlay_ui_state =
  coordinator :: "overlay_coordinator option"
  has_ui_been_presented :: bool
  presentation_callback :: bool
  dismissal_reason :: OverlayDismissalReason
  dismissal_callback :: "wsid option"

definition new_ui_state :: overlay_ui_state where
  "new_ui_state = \<lparr>coordinator = None, has_ui_been_presented = False, presentation_callback = False,
     dismissal_reason = kUserInteraction, dismissal_callback = None\<rparr>"

record presentation_context =
  ctx_delegate :: "nat option"
  ctx_window :: "nat option"
  container_view_controller :: "nat option"
  presentation_context_view_controller :: "nat option"
  ui_disabled :: bool
  presentation_capabilities :: int
  ctx_request :: "rid option"
  ui_states :: "rid \<Rightarrow> overlay_ui_state option"

datatype overlay_event =
    WillShowOverlay rid bool
  | DidShowOverlay rid
  | DidHideOverlay rid
  | UpdatePresentationContext int
  | StartUI rid bool
  | StopUI rid bool

record overlay_env =
  uses_child_view_controller :: "rid \<Rightarrow> bool"
  stops_at_once :: "rid \<Rightarrow> bool"

record overlays =
  queues :: "wsid \<Rightarrow> overlay_queue"
  queue_web_state :: "rid \<Rightarrow> wsid option"
  completion_callbacks :: "rid \<Rightarrow> rid list"
  destroyed_requests :: "rid set"
  ctx :: presentation_context
  presenting :: bool
  detached_queue_replaced_delegate :: bool
  detached_presenting_request_queue :: "wsid option"
  presented_request :: "rid option"
  detaching_presenting_web_state :: bool
  removed_request_awaiting_dismissal :: "rid option"
  previously_presented_requests :: "rid set"
  ov_tabs :: "wsid list"
  ov_active_web_state :: "wsid option"
  has_presentation_context :: bool
  overlay_trace :: "overlay_event list"

definition emit :: "overlay_event \<Rightarrow> overlays \<Rightarrow> overlays" where
  "emit ev s = s\<lparr>overlay_trace := overlay_trace s @ [ev]\<rparr>"

section \<open>Request queues\<close>

definition new_queue :: overlay_queue where
  "new_queue = \<lparr>request_storages = [], queue_delegate = No_delegate, queue_observed = False,
     queue_destroyed = False\<rparr>"

definition front_request :: "overlay_queue \<Rightarrow> rid option" where
  "front_request q = (case request_storages q of [] \<Rightarrow> None | r # _ \<Rightarrow> Some r)"

definition GetRequest :: "overlay_queue \<Rightarrow> nat \<Rightarrow> rid outcome" where
  "GetRequest q index = dcheck (index < length (request_storages q)) (vec_at (request_storages q) index)"

definition update_queue :: "wsid \<Rightarrow> (overlay_queue \<Rightarrow> overlay_queue) \<Rightarrow> overlays \<Rightarrow> overlays" where
  "update_queue ws f s = s\<lparr>queues := (queues s)(ws := f (queues s ws))\<rparr>"

text \<open>Destroying a request runs its completion callbacks; the presenter's one is
  \<open>OverlayWasCompleted\<close>.\<close>

definition OverlayWasCompleted :: "rid \<Rightarrow> overlays \<Rightarrow> overlays" where
  "OverlayWasCompleted r s = s\<lparr>previously_presented_requests := previously_presented_requests s - {r}\<rparr>"

definition destroy_request :: "rid \<Rightarrow> overlays \<Rightarrow> overlays" where
  "destroy_request r s =
     (let s1 = fold OverlayWasCompleted (completion_callbacks s r) s
      in s1\<lparr>completion_callbacks := (completion_callbacks s1)(r := []),
            destroyed_requests := insert r (destroyed_requests s1)\<rparr>)"

definition destroy_owned :: "rid option \<Rightarrow> overlays \<Rightarrow> overlays" where
  "destroy_owned r s = (case r of None \<Rightarrow> s | Some x \<Rightarrow> destroy_request x s)"

section \<open>The accessors of the presenter\<close>

definition GetFrontRequestForWebState :: "overlays \<Rightarrow> wsid option \<Rightarrow> rid option" where
  "GetFrontRequestForWebState s web_state =
     (case web_state of None \<Rightarrow> None | Some ws \<Rightarrow> front_request (queues s ws))"

definition GetActiveRequest :: "overlays \<Rightarrow> rid option" where
  "GetActiveRequest s = GetFrontRequestForWebState s (ov_active_web_state s)"

section \<open>The state of the presentation context\<close>

definition kNone :: int where "kNone = 0"
definition kContained :: int where "kContained = 1"
definition kPresented :: int where "kPresented = 2"

definition GetRequestUIState :: "presentation_context \<Rightarrow> rid option \<Rightarrow> overlay_ui_state option" where
  "GetRequestUIState c request = (case request of None \<Rightarrow> None | Some r \<Rightarrow> ui_states c r)"

definition has_callback :: "overlay_ui_state \<Rightarrow> bool" where
  "has_callback st \<longleftrightarrow> dismissal_callback st \<noteq> None"

definition IsShowingOverlayUI :: "presentation_context \<Rightarrow> bool" where
  "IsShowingOverlayUI c \<longleftrightarrow>
     (case GetRequestUIState c (ctx_request c) of None \<Rightarrow> False | Some st \<Rightarrow> has_callback st)"

definition GetRequiredPresentationCapabilities :: "overlay_env \<Rightarrow> rid \<Rightarrow> int" where
  "GetRequiredPresentationCapabilities U r = (if uses_child_view_controller U r then kContained else kPresented)"

definition CanShowUIForRequest :: "overlay_env \<Rightarrow> rid \<Rightarrow> int \<Rightarrow> bool" where
  "CanShowUIForRequest U r capabilities \<longleftrightarrow> capabilities AND GetRequiredPresentationCapabilities U r \<noteq> 0"

definition GetBaseViewController :: "overlay_env \<Rightarrow> presentation_context \<Rightarrow> rid \<Rightarrow> nat option" where
  "GetBaseViewController U c r =
     (if uses_child_view_controller U r then container_view_controller c
      else presentation_context_view_controller c)"

definition ConstructPresentationCapabilities :: "presentation_context \<Rightarrow> int" where
  "ConstructPresentationCapabilities c =
     (if ui_disabled c then kNone
      else (if container_view_controller c \<noteq> None then kContained else kNone) OR
           (if presentation_context_view_controller c \<noteq> None then kPresented else kNone))"

definition put_state :: "rid \<Rightarrow> overlay_ui_state \<Rightarrow> overlays \<Rightarrow> overlays" where
  "put_state r st s = s\<lparr>ctx := (ctx s)\<lparr>ui_states := (ui_states (ctx s))(r \<mapsto> st)\<rparr>\<rparr>"

definition erase_state :: "rid \<Rightarrow> overlays \<Rightarrow> overlays" where
  "erase_state r s = s\<lparr>ctx := (ctx s)\<lparr>ui_states := (ui_states (ctx s))(r := None)\<rparr>\<rparr>"

definition set_ctx_request :: "rid option \<Rightarrow> overlays \<Rightarrow> overlays" where
  "set_ctx_request r s = s\<lparr>ctx := (ctx s)\<lparr>ctx_request := r\<rparr>\<rparr>"

text \<open>The state that \<open>ShowOverlayUI\<close> finds or makes for its request.\<close>

definition OverlayPresentionRequested :: "overlay_ui_state \<Rightarrow> wsid \<Rightarrow> overlay_ui_state outcome" where
  "OverlayPresentionRequested st ws =
     dcheck (\<not> presentation_callback st)
     (dcheck (dismissal_callback st = None)
       (Inr (st\<lparr>presentation_callback := True, dismissal_callback := Some ws,
                dismissal_reason := kUserInteraction\<rparr>)))"

definition PrepareToShowOverlayUI :: "overlay_env \<Rightarrow> rid \<Rightarrow> overlays \<Rightarrow> overlays" where
  "PrepareToShowOverlayUI U r s =
     (if CanShowUIForRequest U r (presentation_capabilities (ctx s)) then s
      else emit (UpdatePresentationContext (GetRequiredPresentationCapabilities U r)) s)"

end
