(* ===== verification/Overlay_Presenter.thy ===== *)
theory Overlay_Presenter
  imports Overlay_Context
begin

text \<open>
  The operations of the overlay system in the order in which they call each other: the
  context shows a request, the presenter picks one, a request leaves its queue, a dismissal
  ends, the presenter hides and cancels, a queue changes, the tabs change, the context's
  capabilities change.  \<open>ov_step\<close> runs one external call.

  The presenter's callbacks run inside the context's functions, as in the code: the
  presentation callback in \<open>ShowOverlayUI\<close>, the dismissal callback in \<open>OverlayUIWasDismissed\<close>,
  which \<open>stopAnimated:\<close> may reach before it returns.
\<close>

section \<open>Showing a request\<close>

definition OverlayWasPresented :: "rid \<Rightarrow> overlays \<Rightarrow> overlays outcome" where
  "OverlayWasPresented r s =
     dcheck (has_presentation_context s)
     (dcheck (presented_request s = Some r) (Inr (emit (DidShowOverlay r) s)))"

definition ShowUIForPresentedRequest :: "overlay_env \<Rightarrow> overlays \<Rightarrow> overlays outcome" where
  "ShowUIForPresentedRequest U s =
     (case ctx_request (ctx s) of
        None \<Rightarrow> Inl Dcheck_failed
      | Some r \<Rightarrow>
          dcheck (CanShowUIForRequest U r (presentation_capabilities (ctx s)))
          (case ui_states (ctx s) r of
             None \<Rightarrow> Inl Range_error
           | Some st \<Rightarrow>
               let base = GetBaseViewController U (ctx s) r;
                   co = (case coordinator st of
                           Some c \<Rightarrow> if base_view_controller c = base then c
                                     else \<lparr>base_view_controller = base, started = False\<rparr>
                         | None \<Rightarrow> \<lparr>base_view_controller = base, started = False\<rparr>);
                   st1 = st\<lparr>coordinator := Some (co\<lparr>started := True\<rparr>),
                            has_ui_been_presented := True, presentation_callback := False\<rparr>
               in OverlayWasPresented r
                    (put_state r st1 (emit (StartUI r (\<not> has_ui_been_presented st)) s))))"

definition SetRequest :: "overlay_env \<Rightarrow> rid option \<Rightarrow> overlays \<Rightarrow> overlays outcome" where
  "SetRequest U request s =
     (if ctx_request (ctx s) = request then Inr s
      else
        obind (case ctx_request (ctx s) of
                 None \<Rightarrow> Inr s
               | Some old \<Rightarrow>
                   (case ui_states (ctx s) old of
                      None \<Rightarrow> Inl Dcheck_failed
                    | Some st \<Rightarrow>
                        dcheck (\<not> has_callback st)
                        (Inr (if dismissal_reason st = kUserInteraction \<or>
                                 dismissal_reason st = kCancellation
                              then erase_state old s else s)))) (\<lambda>s1.
        let s2 = set_ctx_request request s1 in
        case request of
          None \<Rightarrow> Inr (emit (UpdatePresentationContext kNone) s2)
        | Some r \<Rightarrow> dcheck (ui_states (ctx s2) r \<noteq> None) (ShowUIForPresentedRequest U s2)))"

definition ShowOverlayUI :: "overlay_env \<Rightarrow> rid \<Rightarrow> wsid \<Rightarrow> overlays \<Rightarrow> overlays outcome" where
  "ShowOverlayUI U r ws s =
     dcheck (\<not> IsShowingOverlayUI (ctx s))
     (dcheck (CanShowUIForRequest U r (presentation_capabilities (ctx s)))
     (obind (OverlayPresentionRequested
               (case ui_states (ctx s) r of None \<Rightarrow> new_ui_state | Some st \<Rightarrow> st) ws) (\<lambda>st.
      SetRequest U (Some r) (put_state r st s))))"

definition PresentOverlayForActiveRequest :: "overlay_env \<Rightarrow> overlays \<Rightarrow> overlays outcome" where
  "PresentOverlayForActiveRequest U s =
     (if \<not> has_presentation_context s \<or> IsShowingOverlayUI (ctx s) then Inr s
      else case (GetActiveRequest s, ov_active_web_state s) of
        (Some request, Some ws) \<Rightarrow>
          (if \<not> CanShowUIForRequest U request (presentation_capabilities (ctx s))
           then Inr (PrepareToShowOverlayUI U request s)
           else
             dcheck (\<not> presenting s)
             (let s1 = emit (WillShowOverlay request (request \<notin> previously_presented_requests s))
                         (s\<lparr>presenting := True, presented_request := Some request\<rparr>);
                  s2 = s1\<lparr>previously_presented_requests := insert request (previously_presented_requests s1),
                          completion_callbacks := (completion_callbacks s1)
                            (request := completion_callbacks s1 request @ [request])\<rparr>
              in ShowOverlayUI U request ws s2))
      | _ \<Rightarrow> Inr s)"

section \<open>A request leaves its queue\<close>

definition OverlayRequestQueueWillReplaceDelegate :: "wsid \<Rightarrow> overlays \<Rightarrow> overlays" where
  "OverlayRequestQueueWillReplaceDelegate ws s =
     (case presented_request s of
        None \<Rightarrow> s
      | Some r \<Rightarrow>
          if front_request (queues s ws) \<noteq> Some r then s
          else (emit (DidHideOverlay r) s)\<lparr>presented_request := None,
                 detached_presenting_request_queue := None, detached_queue_replaced_delegate := True\<rparr>)"

definition SetDelegate :: "wsid \<Rightarrow> queue_delegate \<Rightarrow> overlays \<Rightarrow> overlays" where
  "SetDelegate ws d s =
     (if queue_delegate (queues s ws) = d then s
      else update_queue ws (\<lambda>q. q\<lparr>queue_delegate := d\<rparr>)
             (if queue_delegate (queues s ws) = This_presenter
              then OverlayRequestQueueWillReplaceDelegate ws s else s))"

text \<open>\<open>cancel_ui\<close> is \<open>CancelOverlayUIForRequest\<close>, which is defined below.  A request that is
  not moved into \<open>removed_request_awaiting_dismissal\<close> is destroyed when the function returns.\<close>

definition OverlayRequestRemoved ::
    "(rid \<Rightarrow> overlays \<Rightarrow> overlays outcome) \<Rightarrow> wsid \<Rightarrow> rid \<Rightarrow> bool \<Rightarrow> overlays \<Rightarrow> overlays outcome" where
  "OverlayRequestRemoved cancel_ui ws r cancelled s =
     (if presented_request s = Some r then
        (let s1 = destroy_owned (removed_request_awaiting_dismissal s)
                    (s\<lparr>removed_request_awaiting_dismissal := Some r\<rparr>);
             s2 = (if detached_presenting_request_queue s1 \<noteq> None
                   then SetDelegate ws No_delegate (s1\<lparr>detached_presenting_request_queue := None\<rparr>)
                   else s1)
         in if cancelled then cancel_ui r s2 else Inr s2)
      else
        obind (if cancelled then cancel_ui r s else Inr s) (\<lambda>s1. Inr (destroy_request r s1)))"

definition RemoveRequest ::
    "(rid \<Rightarrow> overlays \<Rightarrow> overlays outcome) \<Rightarrow> wsid \<Rightarrow> nat \<Rightarrow> bool \<Rightarrow> overlays \<Rightarrow> overlays outcome" where
  "RemoveRequest cancel_ui ws index cancelled s =
     dcheck (index < length (request_storages (queues s ws)))
     (let r = request_storages (queues s ws) ! index;
          s1 = update_queue ws (\<lambda>q. q\<lparr>request_storages := remove_at index (request_storages q)\<rparr>) s
      in if queue_delegate (queues s1 ws) = This_presenter
         then OverlayRequestRemoved cancel_ui ws r cancelled s1
         else Inr (destroy_request r s1))"

definition PopFrontRequest :: "wsid \<Rightarrow> overlays \<Rightarrow> overlays outcome" where
  "PopFrontRequest ws s = RemoveRequest (\<lambda>_ _. Inl Notreached) ws 0 False s"

section \<open>A dismissal ends\<close>

definition pop_if_dismissed_by_user :: "rid \<Rightarrow> wsid \<Rightarrow> OverlayDismissalReason \<Rightarrow> overlays \<Rightarrow> overlays outcome" where
  "pop_if_dismissed_by_user r ws reason s =
     (if reason = kUserInteraction \<and> \<not> queue_destroyed (queues s ws) \<and>
         removed_request_awaiting_dismissal s \<noteq> Some r
      then obind (PopFrontRequest ws s) (\<lambda>s1.
             dcheck (removed_request_awaiting_dismissal s1 = Some r) (Inr s1))
      else Inr s)"

definition OverlayWasDismissed ::
    "overlay_env \<Rightarrow> rid \<Rightarrow> wsid \<Rightarrow> OverlayDismissalReason \<Rightarrow> overlays \<Rightarrow> overlays outcome" where
  "OverlayWasDismissed U r ws reason s =
     (if \<not> has_presentation_context s then Inr s
      else if detached_queue_replaced_delegate s then
        (let s1 = s\<lparr>presenting := False, detached_queue_replaced_delegate := False\<rparr> in
         if GetActiveRequest s1 \<noteq> None then PresentOverlayForActiveRequest U s1 else Inr s1)
      else
        dcheck (presented_request s = Some r)
        (obind (pop_if_dismissed_by_user r ws reason s) (\<lambda>s1.
         let s2 = emit (DidHideOverlay r)
                    (s1\<lparr>presenting := False, presented_request := None,
                        detached_presenting_request_queue := None\<rparr>);
             s3 = destroy_owned (removed_request_awaiting_dismissal s2)
                    (s2\<lparr>removed_request_awaiting_dismissal := None\<rparr>)
         in if GetActiveRequest s3 \<noteq> Some r then PresentOverlayForActiveRequest U s3 else Inr s3)))"

text \<open>\<open>OverlayPresentationContextImpl::OverlayUIWasDismissed\<close>, with the run of the dismissal
  callback in \<open>OverlayRequestUIState::OverlayUIWasDismissed\<close>; the callback is null while it
  runs.\<close>

definition OverlayUIWasDismissed :: "overlay_env \<Rightarrow> overlays \<Rightarrow> overlays outcome" where
  "OverlayUIWasDismissed U s =
     (case ctx_request (ctx s) of
        None \<Rightarrow> Inl Dcheck_failed
      | Some r \<Rightarrow>
          (case ui_states (ctx s) r of
             None \<Rightarrow> Inl Range_error
           | Some st \<Rightarrow>
              (case dismissal_callback st of
                 None \<Rightarrow> Inl Dcheck_failed
               | Some ws \<Rightarrow>
                   obind (OverlayWasDismissed U r ws (dismissal_reason st)
                            (put_state r (st\<lparr>dismissal_callback := None\<rparr>) s)) (\<lambda>s1.
                   if ctx_request (ctx s1) = Some r then SetRequest U None s1 else Inr s1))))"

section \<open>Hiding and cancelling\<close>

text \<open>\<open>stopAnimated:\<close> of a coordinator does nothing if it has been stopped before.\<close>

definition stop_coordinator :: "overlay_env \<Rightarrow> rid \<Rightarrow> bool \<Rightarrow> overlays \<Rightarrow> overlays outcome" where
  "stop_coordinator U r animated s =
     (case ui_states (ctx s) r of
        None \<Rightarrow> Inr s
      | Some st \<Rightarrow>
          (case coordinator st of
             None \<Rightarrow> Inr s
           | Some co \<Rightarrow>
               if \<not> started co then Inr s
               else
                 let s1 = emit (StopUI r animated)
                            (put_state r (st\<lparr>coordinator := Some (co\<lparr>started := False\<rparr>)\<rparr>) s)
                 in if stops_at_once U r \<and> \<not> animated then OverlayUIWasDismissed U s1 else Inr s1))"

definition DismissPresentedUI :: "overlay_env \<Rightarrow> OverlayDismissalReason \<Rightarrow> overlays \<Rightarrow> overlays outcome" where
  "DismissPresentedUI U reason s =
     (case ctx_request (ctx s) of
        None \<Rightarrow> Inl Dcheck_failed
      | Some r \<Rightarrow>
          (case ui_states (ctx s) r of
             None \<Rightarrow> Inl Dcheck_failed
           | Some st \<Rightarrow>
               dcheck (coordinator st \<noteq> None)
               (stop_coordinator U r (reason = kUserInteraction)
                  (put_state r (st\<lparr>dismissal_reason := reason\<rparr>) s))))"

definition HideOverlayUI :: "overlay_env \<Rightarrow> rid \<Rightarrow> overlays \<Rightarrow> overlays outcome" where
  "HideOverlayUI U r s =
     dcheck (ctx_request (ctx s) = Some r)
     (case ui_states (ctx s) r of
        None \<Rightarrow> Inl Range_error
      | Some st \<Rightarrow> dcheck (has_callback st) (DismissPresentedUI U kHiding s))"

definition CancelOverlayUI :: "overlay_env \<Rightarrow> rid \<Rightarrow> overlays \<Rightarrow> overlays outcome" where
  "CancelOverlayUI U r s =
     (case ui_states (ctx s) r of
        None \<Rightarrow> Inr s
      | Some st \<Rightarrow>
          if \<not> has_callback st then Inr (erase_state r s) else DismissPresentedUI U kCancellation s)"

definition CancelOverlayUIForRequest :: "overlay_env \<Rightarrow> rid option \<Rightarrow> overlays \<Rightarrow> overlays outcome" where
  "CancelOverlayUIForRequest U request s =
     (case request of
        None \<Rightarrow> Inr s
      | Some r \<Rightarrow> if \<not> has_presentation_context s then Inr s else CancelOverlayUI U r s)"

definition CancelAllOverlayUI :: "overlay_env \<Rightarrow> overlays \<Rightarrow> overlays outcome" where
  "CancelAllOverlayUI U s =
     orun (\<lambda>s ws. CancelOverlayUIForRequest U (GetFrontRequestForWebState s (Some ws)) s) s (ov_tabs s)"

section \<open>A queue changes\<close>

definition RequestAddedToQueue :: "overlay_env \<Rightarrow> wsid \<Rightarrow> rid \<Rightarrow> overlays \<Rightarrow> overlays outcome" where
  "RequestAddedToQueue U ws request s =
     (if GetActiveRequest s \<noteq> Some request then Inr s
      else if \<not> presenting s then PresentOverlayForActiveRequest U s
      else
        case presented_request s of
          None \<Rightarrow> Inr s
        | Some p \<Rightarrow>
            (if 1 < length (request_storages (queues s ws)) then
               obind (GetRequest (queues s ws) 1) (\<lambda>second.
               if second = p
               then (if has_presentation_context s then HideOverlayUI U p s else Inl Range_error)
               else Inr s)
             else Inr s))"

definition InsertRequest :: "overlay_env \<Rightarrow> wsid \<Rightarrow> nat \<Rightarrow> rid \<Rightarrow> overlays \<Rightarrow> overlays outcome" where
  "InsertRequest U ws index r s =
     dcheck (index \<le> length (request_storages (queues s ws)))
     (let s1 = update_queue ws (\<lambda>q. q\<lparr>request_storages := insert_at index r (request_storages q)\<rparr>)
                 (s\<lparr>queue_web_state := (queue_web_state s)(r \<mapsto> ws)\<rparr>)
      in if queue_observed (queues s1 ws) then RequestAddedToQueue U ws r s1 else Inr s1)"

definition AddRequest :: "overlay_env \<Rightarrow> wsid \<Rightarrow> rid \<Rightarrow> overlays \<Rightarrow> overlays outcome" where
  "AddRequest U ws r s = InsertRequest U ws (length (request_storages (queues s ws))) r s"

definition queue_remove :: "overlay_env \<Rightarrow> wsid \<Rightarrow> nat \<Rightarrow> overlays \<Rightarrow> overlays outcome" where
  "queue_remove U ws index s = RemoveRequest (\<lambda>r. CancelOverlayUIForRequest U (Some r)) ws index True s"

definition CancelRequest :: "overlay_env \<Rightarrow> wsid \<Rightarrow> rid \<Rightarrow> overlays \<Rightarrow> overlays outcome" where
  "CancelRequest U ws r s =
     (case index_where (\<lambda>x. x = r) (request_storages (queues s ws)) of
        None \<Rightarrow> Inr s
      | Some index \<Rightarrow> queue_remove U ws index s)"

text \<open>The \<open>while (size())\<close> loop: \<open>n\<close> bounds its iterations, the size of the queue is enough.\<close>

fun cancel_all_loop :: "overlay_env \<Rightarrow> wsid \<Rightarrow> nat \<Rightarrow> overlays \<Rightarrow> overlays outcome" where
  "cancel_all_loop U ws n s =
     (if request_storages (queues s ws) = [] then Inr s
      else case n of
        0 \<Rightarrow> Inl Notreached
      | Suc m \<Rightarrow>
          obind (queue_remove U ws (length (request_storages (queues s ws)) - 1) s)
            (\<lambda>s1. cancel_all_loop U ws m s1))"

declare cancel_all_loop.simps [simp del]

definition CancelAllRequests :: "overlay_env \<Rightarrow> wsid \<Rightarrow> overlays \<Rightarrow> overlays outcome" where
  "CancelAllRequests U ws s = cancel_all_loop U ws (length (request_storages (queues s ws))) s"

text \<open>The destructor: the observers leave the queue, which then cancels its requests.\<close>

definition DestroyQueue :: "overlay_env \<Rightarrow> wsid \<Rightarrow> overlays \<Rightarrow> overlays outcome" where
  "DestroyQueue U ws s =
     obind (CancelAllRequests U ws (update_queue ws (\<lambda>q. q\<lparr>queue_observed := False\<rparr>) s)) (\<lambda>s1.
     Inr (update_queue ws (\<lambda>q. q\<lparr>queue_destroyed := True\<rparr>) s1))"

section \<open>The tabs change\<close>

definition SetActiveWebState ::
    "overlay_env \<Rightarrow> wsid option \<Rightarrow> active_change_reason \<Rightarrow> overlays \<Rightarrow> overlays outcome" where
  "SetActiveWebState U web_state reason s =
     (if ov_active_web_state s = web_state then Inr s
      else
        let previously_active_request =
              (if removed_request_awaiting_dismissal s \<noteq> None then removed_request_awaiting_dismissal s
               else GetActiveRequest s);
            should_cancel_ui = (reason = Replaced \<or> detaching_presenting_web_state s);
            s1 = s\<lparr>ov_active_web_state := web_state, detaching_presenting_web_state := False\<rparr>
        in
        if \<not> has_presentation_context s1 then Inr s1
        else if \<not> presenting s1 then PresentOverlayForActiveRequest U s1
        else case previously_active_request of
          None \<Rightarrow> Inr s1
        | Some p \<Rightarrow> if should_cancel_ui then CancelOverlayUIForRequest U (Some p) s1
                    else HideOverlayUI U p s1)"

definition WebStateAddedToBrowser :: "wsid \<Rightarrow> overlays \<Rightarrow> overlays" where
  "WebStateAddedToBrowser ws s =
     SetDelegate ws This_presenter (update_queue ws (\<lambda>q. q\<lparr>queue_observed := True\<rparr>) s)"

definition presented_for :: "overlays \<Rightarrow> wsid \<Rightarrow> bool" where
  "presented_for s ws \<longleftrightarrow>
     (case presented_request s of None \<Rightarrow> False | Some r \<Rightarrow> queue_web_state s r = Some ws)"

definition WebStateRemovedFromBrowser :: "overlay_env \<Rightarrow> wsid \<Rightarrow> overlays \<Rightarrow> overlays outcome" where
  "WebStateRemovedFromBrowser U ws s =
     (let s1 = update_queue ws (\<lambda>q. q\<lparr>queue_observed := False\<rparr>) s;
          s2 = (if \<not> presented_for s1 ws then SetDelegate ws No_delegate s1 else s1)
      in if presented_for s2 ws then Inr (s2\<lparr>detached_presenting_request_queue := Some ws\<rparr>)
         else CancelOverlayUIForRequest U (GetFrontRequestForWebState s2 (Some ws)) s2)"

text \<open>\<open>WebStateListObserver\<close>; the list of the tabs itself follows the notifications as every
  observer can (\<open>mirror\<close>).\<close>

fun presenter_notified :: "overlay_env \<Rightarrow> overlays \<Rightarrow> wsl_event \<Rightarrow> overlays outcome" where
  "presenter_notified U s (WebStateInsertedAt ws i activating) = Inr (WebStateAddedToBrowser ws s)"
| "presenter_notified U s (WebStateReplacedAt old new i) =
     obind (WebStateRemovedFromBrowser U old s) (\<lambda>s1. Inr (WebStateAddedToBrowser new s1))"
| "presenter_notified U s (WillDetachWebStateAt ws i) =
     WebStateRemovedFromBrowser U ws (s\<lparr>detaching_presenting_web_state := presented_for s ws\<rparr>)"
| "presenter_notified U s (WebStateActivatedAt old new i reason) = SetActiveWebState U new reason s"
| "presenter_notified U s _ = Inr s"

definition observe_tabs :: "overlay_env \<Rightarrow> overlays \<Rightarrow> wsl_event \<Rightarrow> overlays outcome" where
  "observe_tabs U s ev =
     presenter_notified U (s\<lparr>ov_tabs := fst (mirror ev (ov_tabs s, ov_active_web_state s))\<rparr>) ev"

text \<open>What \<open>WebStateList\<close> sends for one change of the tabs.\<close>

datatype tab_change =
    Tab_inserted wsid nat bool
  | Tab_replaced wsid wsid nat
  | Tab_detached wsid nat "wsid option"
  | Tab_moved wsid nat nat
  | Tab_activated wsid

fun tab_events :: "wsid option \<Rightarrow> tab_change \<Rightarrow> wsl_event list" where
  "tab_events active (Tab_inserted w i activating) =
     WebStateInsertedAt w (int i) activating #
     (if activating then [WebStateActivatedAt active (Some w) (int i) Inserted] else [])"
| "tab_events active (Tab_replaced old new i) =
     [WebStateReplacedAt old new (int i),
      WebStateActivatedAt (Some old) (if active = Some old then Some new else active) (int i) Replaced]"
| "tab_events active (Tab_detached w i next) =
     [WillDetachWebStateAt w (int i), WebStateDetachedAt w (int i)] @
     (if active = Some w then [WebStateActivatedAt (Some w) next (int i) Closed] else [])"
| "tab_events active (Tab_moved w i j) = [WebStateMoved w (int i) (int j)]"
| "tab_events active (Tab_activated w) =
     (if active = Some w then [] else [WebStateActivatedAt active (Some w) 0 Activated])"

section \<open>The presentation context changes\<close>

definition SetPresentationContext :: "overlay_env \<Rightarrow> bool \<Rightarrow> overlays \<Rightarrow> overlays outcome" where
  "SetPresentationContext U attach s =
     obind (if has_presentation_context s then CancelAllOverlayUI U s else Inr s) (\<lambda>s1.
     let s2 = s1\<lparr>has_presentation_context := attach, presenting := False, presented_request := None,
                 previously_presented_requests := {}\<rparr>
     in if attach then PresentOverlayForActiveRequest U s2 else Inr s2)"

definition WillChangePresentationCapabilities :: "overlay_env \<Rightarrow> int \<Rightarrow> overlays \<Rightarrow> overlays outcome" where
  "WillChangePresentationCapabilities U capabilities s =
     (case presented_request s of
        None \<Rightarrow> Inr s
      | Some r \<Rightarrow>
          if CanShowUIForRequest U r capabilities then Inr s
          else dcheck (presenting s) (HideOverlayUI U r s))"

definition present_if_idle :: "overlay_env \<Rightarrow> overlays \<Rightarrow> overlays outcome" where
  "present_if_idle U s =
     (if has_presentation_context s \<and> \<not> presenting s then PresentOverlayForActiveRequest U s else Inr s)"

definition UpdatePresentationCapabilities :: "overlay_env \<Rightarrow> overlays \<Rightarrow> overlays outcome" where
  "UpdatePresentationCapabilities U s =
     (let capabilities = ConstructPresentationCapabilities (ctx s);
          changed = (presentation_capabilities (ctx s) \<noteq> capabilities)
      in
      obind (if changed \<and> has_presentation_context s
             then WillChangePresentationCapabilities U capabilities s else Inr s) (\<lambda>s1.
      let s2 = s1\<lparr>ctx := (ctx s1)\<lparr>presentation_capabilities := capabilities\<rparr>\<rparr>
      in if changed then present_if_idle U s2 else Inr s2))"

definition SetContextDelegate :: "overlay_env \<Rightarrow> nat option \<Rightarrow> overlays \<Rightarrow> overlays outcome" where
  "SetContextDelegate U d s =
     (if ctx_delegate (ctx s) = d then Inr s
      else
        obind (UpdatePresentationCapabilities U
                 (s\<lparr>ctx := (ctx s)\<lparr>container_view_controller := None,
                      presentation_context_view_controller := None\<rparr>\<rparr>)) (\<lambda>s1.
        SetPresentationContext U (d \<noteq> None) (s1\<lparr>ctx := (ctx s1)\<lparr>ctx_delegate := d\<rparr>\<rparr>)))"

definition SetWindow :: "overlay_env \<Rightarrow> nat option \<Rightarrow> overlays \<Rightarrow> overlays outcome" where
  "SetWindow U w s =
     (if ctx_window (ctx s) = w then Inr s
      else
        let s1 = s\<lparr>ctx := (ctx s)\<lparr>ctx_window := w\<rparr>\<rparr>
        in if w \<noteq> None then present_if_idle U s1 else Inr s1)"

definition SetContainerViewController :: "overlay_env \<Rightarrow> nat option \<Rightarrow> overlays \<Rightarrow> overlays outcome" where
  "SetContainerViewController U v s =
     (if container_view_controller (ctx s) = v then Inr s
      else UpdatePresentationCapabilities U (s\<lparr>ctx := (ctx s)\<lparr>container_view_controller := v\<rparr>\<rparr>))"

definition SetPresentationContextViewController ::
    "overlay_env \<Rightarrow> nat option \<Rightarrow> overlays \<Rightarrow> overlays outcome" where
  "SetPresentationContextViewController U v s =
     (if presentation_context_view_controller (ctx s) = v then Inr s
      else UpdatePresentationCapabilities U
             (s\<lparr>ctx := (ctx s)\<lparr>presentation_context_view_controller := v\<rparr>\<rparr>))"

definition SetUIDisabled :: "overlay_env \<Rightarrow> bool \<Rightarrow> overlays \<Rightarrow> overlays outcome" where
  "SetUIDisabled U disabled s =
     (if ui_disabled (ctx s) = disabled then Inr s
      else
        obind (UpdatePresentationCapabilities U (s\<lparr>ctx := (ctx s)\<lparr>ui_disabled := disabled\<rparr>\<rparr>)) (\<lambda>s1.
        if disabled then Inr s1 else present_if_idle U s1))"

definition BrowserDestroyed :: "overlay_env \<Rightarrow> overlays \<Rightarrow> overlays outcome" where
  "BrowserDestroyed U s =
     obind (SetPresentationContext U False s) (\<lambda>s1.
     obind (SetActiveWebState U None Closed s1) (\<lambda>s2.
     obind (orun (\<lambda>s ws. WebStateRemovedFromBrowser U ws s) s2 (ov_tabs s2)) (\<lambda>s3.
     dcheck (detached_presenting_request_queue s3 = None)
       (Inr (destroy_owned (removed_request_awaiting_dismissal s3)
               (s3\<lparr>ov_tabs := [], removed_request_awaiting_dismissal := None\<rparr>))))))"

text \<open>The coordinator reports the end of a dismissal, which it or the context started.\<close>

definition OverlayUIDidFinishDismissal :: "overlay_env \<Rightarrow> rid \<Rightarrow> overlays \<Rightarrow> overlays outcome" where
  "OverlayUIDidFinishDismissal U r s =
     dcheck (ctx_request (ctx s) = Some r)
     (OverlayUIWasDismissed U
        (case ui_states (ctx s) r of
           None \<Rightarrow> s
         | Some st \<Rightarrow> put_state r (st\<lparr>coordinator := map_option (\<lambda>c. c\<lparr>started := False\<rparr>) (coordinator st)\<rparr>) s))"

section \<open>External calls\<close>

datatype ov_op =
    Ov_InsertRequest wsid nat rid
  | Ov_CancelRequest wsid rid
  | Ov_CancelAllRequests wsid
  | Ov_DestroyQueue wsid
  | Ov_OtherPresenterTakes wsid
  | Ov_Tabs tab_change
  | Ov_DidFinishDismissal rid
  | Ov_SetDelegate "nat option"
  | Ov_SetWindow "nat option"
  | Ov_SetContainerViewController "nat option"
  | Ov_SetPresentationContextViewController "nat option"
  | Ov_SetUIDisabled bool
  | Ov_BrowserDestroyed

fun ov_step :: "overlay_env \<Rightarrow> overlays \<Rightarrow> ov_op \<Rightarrow> overlays outcome" where
  "ov_step U s (Ov_InsertRequest ws i r) = InsertRequest U ws i r s"
| "ov_step U s (Ov_CancelRequest ws r) = CancelRequest U ws r s"
| "ov_step U s (Ov_CancelAllRequests ws) = CancelAllRequests U ws s"
| "ov_step U s (Ov_DestroyQueue ws) = DestroyQueue U ws s"
| "ov_step U s (Ov_OtherPresenterTakes ws) = Inr (SetDelegate ws Other_presenter s)"
| "ov_step U s (Ov_Tabs t) = orun (observe_tabs U) s (tab_events (ov_active_web_state s) t)"
| "ov_step U s (Ov_DidFinishDismissal r) = OverlayUIDidFinishDismissal U r s"
| "ov_step U s (Ov_SetDelegate d) = SetContextDelegate U d s"
| "ov_step U s (Ov_SetWindow w) = SetWindow U w s"
| "ov_step U s (Ov_SetContainerViewController v) = SetContainerViewController U v s"
| "ov_step U s (Ov_SetPresentationContextViewController v) = SetPresentationContextViewController U v s"
| "ov_step U s (Ov_SetUIDisabled b) = SetUIDisabled U b s"
| "ov_step U s Ov_BrowserDestroyed = BrowserDestroyed U s"

definition new_overlays :: overlays where
  "new_overlays =
     \<lparr>queues = (\<lambda>_. new_queue), queue_web_state = (\<lambda>_. None), completion_callbacks = (\<lambda>_. []),
      destroyed_requests = {},
      ctx = \<lparr>ctx_delegate = None, ctx_window = None, container_view_controller = None,
             presentation_context_view_controller = None, ui_disabled = False,
             presentation_capabilities = kNone, ctx_request = None, ui_states = (\<lambda>_. None)\<rparr>,
      presenting = False, detached_queue_replaced_delegate = False,
      detached_presenting_request_queue = None, presented_request = None,
      detaching_presenting_web_state = False, removed_request_awaiting_dismissal = None,
      previously_presented_requests = {}, ov_tabs = [], ov_active_web_state = None,
      has_presentation_context = True, overlay_trace = []\<rparr>"

end
