(* ===== verification/Overlay_Inv.thy ===== *)
theory Overlay_Inv
  imports Overlay_Presenter
begin

text \<open>
  The invariant of the overlay system and the proof that every operation keeps it.

  \<open>queues_ok\<close> is about ownership: the requests of a queue are alive and belong to its tab, the
  queues of the browser's tabs have the presenter as delegate and observer.  \<open>context_ok\<close> is
  about the context between two calls: a UI state has a dismissal callback exactly if it is
  the one of the context's request.  \<open>presenter_core\<close> ties the presenter to the context: the
  presented request is the context's request and is owned by a queue that reports its removal,
  or by the presenter itself.  \<open>settled_ok\<close>: unless its dismissal has been asked for, it is the
  front request of the active tab.
\<close>

section \<open>The invariant\<close>

definition queues_ok :: "overlays \<Rightarrow> bool" where
  "queues_ok s \<longleftrightarrow>
     (\<forall>ws. distinct (request_storages (queues s ws)) \<and>
        (queue_destroyed (queues s ws) \<longrightarrow> request_storages (queues s ws) = []) \<and>
        (\<forall>r \<in> set (request_storages (queues s ws)). queue_web_state s r = Some ws \<and>
           r \<notin> destroyed_requests s \<and> removed_request_awaiting_dismissal s \<noteq> Some r)) \<and>
     (\<forall>r \<in> destroyed_requests s. queue_web_state s r \<noteq> None) \<and>
     (\<forall>r. removed_request_awaiting_dismissal s = Some r \<longrightarrow>
        queue_web_state s r \<noteq> None \<and> r \<notin> destroyed_requests s) \<and>
     distinct (ov_tabs s) \<and>
     (\<forall>ws. ws \<in> set (ov_tabs s) \<longrightarrow> queue_observed (queues s ws) \<and>
        queue_delegate (queues s ws) = This_presenter \<and> \<not> queue_destroyed (queues s ws)) \<and>
     (\<forall>ws. ws \<notin> set (ov_tabs s) \<longrightarrow> \<not> queue_observed (queues s ws)) \<and>
     (\<forall>ws. ov_active_web_state s = Some ws \<longrightarrow> ws \<in> set (ov_tabs s))"

definition context_ok :: "overlays \<Rightarrow> bool" where
  "context_ok s \<longleftrightarrow>
     (\<forall>r st. ui_states (ctx s) r = Some st \<longrightarrow> \<not> presentation_callback st \<and>
        queue_web_state s r \<noteq> None \<and>
        (\<forall>ws. dismissal_callback st = Some ws \<longrightarrow>
           ctx_request (ctx s) = Some r \<and> queue_web_state s r = Some ws)) \<and>
     (\<forall>r. ctx_request (ctx s) = Some r \<longrightarrow>
        (\<exists>st. ui_states (ctx s) r = Some st \<and> has_callback st \<and> coordinator st \<noteq> None))"

definition request_kept :: "overlays \<Rightarrow> rid \<Rightarrow> bool" where
  "request_kept s r \<longleftrightarrow> removed_request_awaiting_dismissal s = Some r \<or>
     (\<exists>ws. r \<in> set (request_storages (queues s ws)) \<and> queue_delegate (queues s ws) = This_presenter)"

text \<open>The presented request is not being dismissed by the presenter.\<close>

definition settled :: "overlays \<Rightarrow> rid \<Rightarrow> bool" where
  "settled s r \<longleftrightarrow> (case ui_states (ctx s) r of None \<Rightarrow> False | Some st \<Rightarrow> dismissal_reason st = kUserInteraction)"

definition presenter_core :: "overlays \<Rightarrow> bool" where
  "presenter_core s \<longleftrightarrow>
     (if has_presentation_context s then
        presenting s = (ctx_request (ctx s) \<noteq> None) \<and>
        (if detached_queue_replaced_delegate s
         then presenting s \<and> presented_request s = None \<and>
           (\<forall>r. ctx_request (ctx s) = Some r \<longrightarrow>
              (\<forall>ws \<in> set (ov_tabs s). r \<notin> set (request_storages (queues s ws))))
         else presented_request s = ctx_request (ctx s)) \<and>
        (\<forall>r. removed_request_awaiting_dismissal s = Some r \<longrightarrow> presented_request s = Some r) \<and>
        (\<forall>r. presented_request s = Some r \<longrightarrow> request_kept s r) \<and>
        (\<forall>ws. detached_presenting_request_queue s = Some ws \<longrightarrow>
           (\<exists>r. presented_request s = Some r \<and> queue_web_state s r = Some ws) \<and> ws \<notin> set (ov_tabs s))
      else \<not> presenting s \<and> presented_request s = None)"

definition settled_ok :: "overlays \<Rightarrow> bool" where
  "settled_ok s \<longleftrightarrow> (\<forall>r. presented_request s = Some r \<longrightarrow> settled s r \<longrightarrow> GetActiveRequest s = Some r)"

definition ov_inv :: "overlays \<Rightarrow> bool" where
  "ov_inv s \<longleftrightarrow> queues_ok s \<and> context_ok s \<and> presenter_core s \<and> settled_ok s"

section \<open>Admissible calls\<close>

text \<open>
  What the environment has to respect.  A request is inserted once.  The tabs change as a
  \<open>WebStateList\<close> changes them.  The active tab changes, or its tab is replaced or detached,
  only when the front request of the active tab is the presented one, is being dismissed after
  its removal, or does not exist (\<open>may_switch\<close>).  Another presenter takes a queue only if the
  presented request of this presenter is the front request of the queue or is not in it, and a
  tab comes back only when the UI it left behind has been dismissed (\<open>still_leaving\<close>).  The
  context gets a new delegate only when nothing is left of an earlier presentation.
\<close>

definition may_switch :: "overlays \<Rightarrow> bool" where
  "may_switch s \<longleftrightarrow> (has_presentation_context s \<and> presenting s \<longrightarrow>
     removed_request_awaiting_dismissal s \<noteq> None \<or> GetActiveRequest s = None \<or>
     GetActiveRequest s = presented_request s)"

definition still_leaving :: "overlays \<Rightarrow> wsid \<Rightarrow> bool" where
  "still_leaving s ws \<longleftrightarrow> detached_presenting_request_queue s = Some ws \<or>
     detached_queue_replaced_delegate s \<and>
     (case ctx_request (ctx s) of None \<Rightarrow> False | Some r \<Rightarrow> r \<in> set (request_storages (queues s ws)))"

fun tab_change_ok :: "overlays \<Rightarrow> tab_change \<Rightarrow> bool" where
  "tab_change_ok s (Tab_inserted w i activating) \<longleftrightarrow> w \<notin> set (ov_tabs s) \<and> i \<le> length (ov_tabs s) \<and>
     \<not> queue_destroyed (queues s w) \<and> \<not> still_leaving s w \<and> (activating \<longrightarrow> may_switch s)"
| "tab_change_ok s (Tab_replaced old new i) \<longleftrightarrow> i < length (ov_tabs s) \<and> ov_tabs s ! i = old \<and>
     new \<notin> set (ov_tabs s) \<and> \<not> queue_destroyed (queues s new) \<and> \<not> still_leaving s new \<and>
     (ov_active_web_state s = Some old \<longrightarrow> may_switch s)"
| "tab_change_ok s (Tab_detached w i next) \<longleftrightarrow> i < length (ov_tabs s) \<and> ov_tabs s ! i = w \<and>
     (ov_active_web_state s = Some w \<longrightarrow> may_switch s \<and>
        (next = None \<or> next \<noteq> Some w \<and> next \<in> Some ` set (ov_tabs s)))"
| "tab_change_ok s (Tab_moved w i j) \<longleftrightarrow> i < length (ov_tabs s) \<and> j < length (ov_tabs s) \<and> ov_tabs s ! i = w"
| "tab_change_ok s (Tab_activated w) \<longleftrightarrow> w \<in> set (ov_tabs s) \<and> may_switch s"

fun ov_ok :: "overlays \<Rightarrow> ov_op \<Rightarrow> bool" where
  "ov_ok s (Ov_InsertRequest ws i r) \<longleftrightarrow> i \<le> length (request_storages (queues s ws)) \<and>
     queue_web_state s r = None \<and> \<not> queue_destroyed (queues s ws)"
| "ov_ok s (Ov_CancelRequest ws r) \<longleftrightarrow> True"
| "ov_ok s (Ov_CancelAllRequests ws) \<longleftrightarrow> True"
| "ov_ok s (Ov_DestroyQueue ws) \<longleftrightarrow> ws \<notin> set (ov_tabs s)"
| "ov_ok s (Ov_OtherPresenterTakes ws) \<longleftrightarrow> ws \<notin> set (ov_tabs s) \<and>
     (case presented_request s of None \<Rightarrow> True
      | Some r \<Rightarrow> r \<in> set (request_storages (queues s ws)) \<longrightarrow> front_request (queues s ws) = Some r)"
| "ov_ok s (Ov_Tabs t) \<longleftrightarrow> tab_change_ok s t"
| "ov_ok s (Ov_DidFinishDismissal r) \<longleftrightarrow> ctx_request (ctx s) = Some r"
| "ov_ok s (Ov_SetDelegate d) \<longleftrightarrow> (d \<noteq> None \<longrightarrow> ctx_request (ctx s) = None \<and>
     removed_request_awaiting_dismissal s = None \<and> \<not> detached_queue_replaced_delegate s \<and>
     detached_presenting_request_queue s = None)"
| "ov_ok s (Ov_SetWindow w) \<longleftrightarrow> True"
| "ov_ok s (Ov_SetContainerViewController v) \<longleftrightarrow> True"
| "ov_ok s (Ov_SetPresentationContextViewController v) \<longleftrightarrow> True"
| "ov_ok s (Ov_SetUIDisabled b) \<longleftrightarrow> True"
| "ov_ok s Ov_BrowserDestroyed \<longleftrightarrow> ov_tabs s = [] \<and> detached_presenting_request_queue s = None"

section \<open>Between two presentations\<close>

definition same_queues :: "overlays \<Rightarrow> overlays \<Rightarrow> bool" where
  "same_queues s t \<longleftrightarrow> queues t = queues s \<and> queue_web_state t = queue_web_state s \<and>
     destroyed_requests t = destroyed_requests s \<and>
     removed_request_awaiting_dismissal t = removed_request_awaiting_dismissal s \<and>
     ov_tabs t = ov_tabs s \<and> ov_active_web_state t = ov_active_web_state s \<and>
     has_presentation_context t = has_presentation_context s"

definition ctx_idle :: "overlays \<Rightarrow> bool" where
  "ctx_idle s \<longleftrightarrow>
     (\<forall>r st. ui_states (ctx s) r = Some st \<longrightarrow> \<not> presentation_callback st \<and>
        dismissal_callback st = None \<and> queue_web_state s r \<noteq> None) \<and>
     (\<forall>r. ctx_request (ctx s) = Some r \<longrightarrow> ui_states (ctx s) r \<noteq> None)"

definition presenter_idle :: "overlays \<Rightarrow> bool" where
  "presenter_idle s \<longleftrightarrow> has_presentation_context s \<and> \<not> presenting s \<and> presented_request s = None \<and>
     \<not> detached_queue_replaced_delegate s \<and> detached_presenting_request_queue s = None \<and>
     removed_request_awaiting_dismissal s = None"

lemmas ov_fields = put_state_def erase_state_def set_ctx_request_def emit_def update_queue_def

lemma same_queues_refl [simp]: "same_queues s s"
  by (simp add: same_queues_def)

lemma queues_ok_cong: "same_queues s t \<Longrightarrow> queues_ok t = queues_ok s"
  by (simp add: same_queues_def queues_ok_def)

lemma GetActiveRequest_cong: "same_queues s t \<Longrightarrow> GetActiveRequest t = GetActiveRequest s"
  by (auto simp: same_queues_def GetActiveRequest_def GetFrontRequestForWebState_def split: option.splits)

lemma front_request_in: "front_request q = Some r \<Longrightarrow> r \<in> set (request_storages q)"
  by (auto simp: front_request_def split: list.splits)

lemma GetActiveRequest_SomeE:
  assumes "GetActiveRequest s = Some r"
  obtains ws where "ov_active_web_state s = Some ws" and "front_request (queues s ws) = Some r"
  using assms by (auto simp: GetActiveRequest_def GetFrontRequestForWebState_def split: option.splits)

lemma ctx_idleD:
  assumes "ctx_idle s" and "ui_states (ctx s) r = Some st"
  shows "\<not> presentation_callback st" and "dismissal_callback st = None" and "queue_web_state s r \<noteq> None"
  using assms unfolding ctx_idle_def by blast+

lemma IsShowing_idle: "ctx_idle s \<Longrightarrow> \<not> IsShowingOverlayUI (ctx s)"
  by (auto simp: ctx_idle_def IsShowingOverlayUI_def GetRequestUIState_def has_callback_def split: option.splits)

lemma ShowOverlayUI_idle:
  assumes "ctx_idle s" and "CanShowUIForRequest U r (presentation_capabilities (ctx s))"
    and "ctx_request (ctx s) \<noteq> Some r" and "presented_request s = Some r" and "has_presentation_context s"
    and "queue_web_state s r = Some ws"
  shows "\<exists>t st. ShowOverlayUI U r ws s = Inr t \<and> same_queues s t \<and>
    presenting t = presenting s \<and> presented_request t = presented_request s \<and>
    detached_queue_replaced_delegate t = detached_queue_replaced_delegate s \<and>
    detached_presenting_request_queue t = detached_presenting_request_queue s \<and>
    ctx_request (ctx t) = Some r \<and> ui_states (ctx t) r = Some st \<and> \<not> presentation_callback st \<and>
    dismissal_callback st = Some ws \<and> coordinator st \<noteq> None \<and>
    (\<forall>x st'. x \<noteq> r \<longrightarrow> ui_states (ctx t) x = Some st' \<longrightarrow> ui_states (ctx s) x = Some st')"
proof -
  let ?found = "case ui_states (ctx s) r of None \<Rightarrow> new_ui_state | Some st \<Rightarrow> st"
  let ?st = "?found\<lparr>presentation_callback := True, dismissal_callback := Some ws, dismissal_reason := kUserInteraction\<rparr>"
  have st0: "\<not> presentation_callback ?found" "dismissal_callback ?found = None"
  proof -
    have "\<not> presentation_callback ?found \<and> dismissal_callback ?found = None"
    proof (cases "ui_states (ctx s) r")
      case None
      then show ?thesis by (simp add: new_ui_state_def)
    next
      case (Some st)
      then show ?thesis using ctx_idleD(1,2) [OF assms(1) Some] by simp
    qed
    then show "\<not> presentation_callback ?found" "dismissal_callback ?found = None" by blast+
  qed
  then have "OverlayPresentionRequested ?found ws = Inr ?st" by (simp add: OverlayPresentionRequested_def)
  then have run: "ShowOverlayUI U r ws s = SetRequest U (Some r) (put_state r ?st s)"
    using assms(2) IsShowing_idle [OF assms(1)] by (simp add: ShowOverlayUI_def)
  show ?thesis
  proof (cases "ctx_request (ctx s)")
    case None
    then show ?thesis using assms(2-6) unfolding run
      by (auto simp: SetRequest_def ShowUIForPresentedRequest_def OverlayWasPresented_def ov_fields Let_def
          same_queues_def)
  next
    case (Some old)
    then obtain st1 where "ui_states (ctx s) old = Some st1" "\<not> has_callback st1"
      using assms(1) by (auto simp: ctx_idle_def has_callback_def)
    then show ?thesis using Some assms(2-6) unfolding run
      by (auto simp: SetRequest_def ShowUIForPresentedRequest_def OverlayWasPresented_def ov_fields Let_def
          same_queues_def)
  qed
qed

text \<open>What a call of \<open>PresentOverlayForActiveRequest\<close> between two presentations leads to:
  the active request is shown, or the context stays without a request.\<close>

lemma PresentOverlay_idle:
  assumes "queues_ok s" and "ctx_idle s" and "presenter_idle s"
    and "\<And>r. GetActiveRequest s = Some r \<Longrightarrow> ctx_request (ctx s) \<noteq> Some r"
  shows "\<exists>t. PresentOverlayForActiveRequest U s = Inr t \<and> same_queues s t \<and>
    (ctx_request (ctx t) = ctx_request (ctx s) \<and> ctx_idle t \<and> presenter_idle t \<or>
     ctx_request (ctx t) \<noteq> ctx_request (ctx s) \<and> ctx_request (ctx t) \<noteq> None \<and>
     ctx_request (ctx t) = GetActiveRequest s \<and> ov_inv t)"
proof (cases "GetActiveRequest s")
  case None
  then show ?thesis using assms(2,3) IsShowing_idle [OF assms(2)]
    by (auto simp: PresentOverlayForActiveRequest_def)
next
  case (Some r)
  then obtain ws where ws: "ov_active_web_state s = Some ws" "front_request (queues s ws) = Some r"
    by (rule GetActiveRequest_SomeE)
  have r: "r \<in> set (request_storages (queues s ws))" using ws(2) by (rule front_request_in)
  have q: "queue_web_state s r = Some ws" "queue_delegate (queues s ws) = This_presenter"
    using assms(1) ws(1) r by (auto simp: queues_ok_def)
  show ?thesis
  proof (cases "CanShowUIForRequest U r (presentation_capabilities (ctx s))")
    case False
    then show ?thesis using Some ws(1) IsShowing_idle [OF assms(2)] assms(2,3)
      by (auto simp: PresentOverlayForActiveRequest_def PrepareToShowOverlayUI_def emit_def same_queues_def
          ctx_idle_def presenter_idle_def)
  next
    case True
    define s2 where "s2 = (emit (WillShowOverlay r (r \<notin> previously_presented_requests s))
          (s\<lparr>presenting := True, presented_request := Some r\<rparr>))\<lparr>
             previously_presented_requests := insert r (previously_presented_requests s),
             completion_callbacks := (completion_callbacks s)(r := completion_callbacks s r @ [r])\<rparr>"
    have s2: "ctx s2 = ctx s" "presented_request s2 = Some r" "has_presentation_context s2"
      "queue_web_state s2 = queue_web_state s" "presenting s2" "same_queues s s2"
      "\<not> detached_queue_replaced_delegate s2" "detached_presenting_request_queue s2 = None"
      using assms(3) by (simp_all add: s2_def emit_def same_queues_def presenter_idle_def)
    have run: "PresentOverlayForActiveRequest U s = ShowOverlayUI U r ws s2"
      using True Some ws(1) IsShowing_idle [OF assms(2)] assms(3)
      by (simp add: PresentOverlayForActiveRequest_def presenter_idle_def s2_def emit_def Let_def)
    have "ctx_idle s2" using assms(2) by (simp add: ctx_idle_def s2)
    then obtain t st where t: "ShowOverlayUI U r ws s2 = Inr t" "same_queues s2 t" "presenting t"
      "presented_request t = Some r" "\<not> detached_queue_replaced_delegate t"
      "detached_presenting_request_queue t = None" "ctx_request (ctx t) = Some r"
      and st: "ui_states (ctx t) r = Some st" "\<not> presentation_callback st" "dismissal_callback st = Some ws"
        "coordinator st \<noteq> None"
        "\<And>x st'. x \<noteq> r \<Longrightarrow> ui_states (ctx t) x = Some st' \<Longrightarrow> ui_states (ctx s) x = Some st'"
      using ShowOverlayUI_idle [of s2 U r ws] True assms(4) [OF Some] s2 q by auto
    have st_t: "same_queues s t" using t(2) s2(6) by (simp add: same_queues_def)
    have qt: "queues_ok t" using queues_ok_cong [OF st_t] assms(1) by simp
    have ga: "GetActiveRequest t = Some r" using GetActiveRequest_cong [OF st_t] Some by simp
    have "context_ok t"
      unfolding context_ok_def
    proof (intro conjI allI impI)
      fix x st' assume x: "ui_states (ctx t) x = Some st'"
      have other: "ui_states (ctx s) x = Some st'" if "x \<noteq> r" using that st(5) x by blast
      show "\<not> presentation_callback st'"
        using x st(1,2) ctx_idleD(1) [OF assms(2) other] by (cases "x = r") auto
      show "queue_web_state t x \<noteq> None"
        using ctx_idleD(3) [OF assms(2) other] q st_t by (cases "x = r") (auto simp: same_queues_def)
      fix w assume "dismissal_callback st' = Some w"
      then show "ctx_request (ctx t) = Some x" "queue_web_state t x = Some w"
        using x st(1-3) ctx_idleD(2) [OF assms(2) other] q st_t t(7)
        by (cases "x = r"; auto simp: same_queues_def)+
    next
      fix x assume "ctx_request (ctx t) = Some x"
      then show "\<exists>st. ui_states (ctx t) x = Some st \<and> has_callback st \<and> coordinator st \<noteq> None"
        using t(7) st by (auto simp: has_callback_def)
    qed
    moreover have "presenter_core t"
      using t st_t assms(3) r q by (auto simp: presenter_core_def same_queues_def presenter_idle_def request_kept_def)
    moreover have "settled_ok t" using t(4) ga by (simp add: settled_ok_def)
    ultimately have "ov_inv t" using qt by (simp add: ov_inv_def)
    with t(1,7) st_t run Some assms(4) [OF Some] show ?thesis by auto
  qed
qed
section \<open>Dismissal\<close>

lemma Diff_Diff_single: "A - {a} - B = A - insert a B"
  by auto

lemma fold_OverlayWasCompleted:
  "fold OverlayWasCompleted xs s = s\<lparr>previously_presented_requests := previously_presented_requests s - set xs\<rparr>"
  by (induction xs arbitrary: s) (simp_all add: OverlayWasCompleted_def Diff_Diff_single)

lemma destroy_request_eq:
  "destroy_request r s = s\<lparr>previously_presented_requests := previously_presented_requests s - set (completion_callbacks s r),
     completion_callbacks := (completion_callbacks s)(r := []), destroyed_requests := insert r (destroyed_requests s)\<rparr>"
  by (simp add: destroy_request_def fold_OverlayWasCompleted Let_def)

definition no_presentation :: "overlays \<Rightarrow> bool" where
  "no_presentation s \<longleftrightarrow> \<not> presenting s \<and> presented_request s = None \<and>
     (has_presentation_context s \<longrightarrow> presenter_idle s)"

text \<open>What a dismissal leaves alone; only a dismissal by the user takes a request from a queue.\<close>

definition dismissal_frame :: "overlays \<Rightarrow> overlays \<Rightarrow> bool" where
  "dismissal_frame s t \<longleftrightarrow> queue_web_state t = queue_web_state s \<and> ov_tabs t = ov_tabs s \<and>
     ov_active_web_state t = ov_active_web_state s \<and>
     has_presentation_context t = has_presentation_context s \<and>
     (removed_request_awaiting_dismissal t = None \<or>
      removed_request_awaiting_dismissal t = removed_request_awaiting_dismissal s) \<and>
     (\<forall>ws. queue_observed (queues t ws) = queue_observed (queues s ws) \<and>
        queue_destroyed (queues t ws) = queue_destroyed (queues s ws) \<and>
        queue_delegate (queues t ws) = queue_delegate (queues s ws))"

lemma same_queues_frame: "same_queues s t \<Longrightarrow> dismissal_frame s t"
  by (simp add: same_queues_def dismissal_frame_def)

lemma dismissal_frame_trans: "dismissal_frame s t \<Longrightarrow> dismissal_frame t u \<Longrightarrow> dismissal_frame s u"
  by (auto simp: dismissal_frame_def)

lemma SetRequest_None:
  assumes "queues_ok s" and "ctx_idle s" and "no_presentation s"
  shows "\<exists>t. SetRequest U None s = Inr t \<and> same_queues s t \<and> ov_inv t"
proof (cases "ctx_request (ctx s)")
  case None
  then have "ov_inv s" using assms
    by (auto simp: ov_inv_def ctx_idle_def context_ok_def presenter_core_def no_presentation_def
        presenter_idle_def settled_ok_def)
  with None show ?thesis by (auto simp: SetRequest_def)
next
  case (Some old)
  then obtain st where st: "ui_states (ctx s) old = Some st" using assms(2) by (auto simp: ctx_idle_def)
  then have nc: "\<not> has_callback st" using ctx_idleD(2) [OF assms(2) st] by (simp add: has_callback_def)
  define s1 where "s1 = (if dismissal_reason st = kUserInteraction \<or> dismissal_reason st = kCancellation
      then erase_state old s else s)"
  define t where "t = emit (UpdatePresentationContext kNone) (set_ctx_request None s1)"
  have run: "SetRequest U None s = Inr t"
    using Some st nc by (simp add: SetRequest_def t_def s1_def Let_def)
  have sq: "same_queues s t" by (simp add: t_def s1_def ov_fields same_queues_def)
  have pf: "presenting t = presenting s" "presented_request t = presented_request s"
    "detached_queue_replaced_delegate t = detached_queue_replaced_delegate s"
    "detached_presenting_request_queue t = detached_presenting_request_queue s"
    "ctx_request (ctx t) = None"
    by (simp_all add: t_def s1_def ov_fields)
  have ui: "ui_states (ctx s) r = Some st'" if "ui_states (ctx t) r = Some st'" for r st'
    using that by (auto simp: t_def s1_def ov_fields split: if_splits)
  have "context_ok t" unfolding context_ok_def
    using pf(5) ctx_idleD [OF assms(2) ui] sq by (auto simp: same_queues_def)
  moreover have "presenter_core t" using assms(3) pf sq
    by (auto simp: presenter_core_def no_presentation_def presenter_idle_def same_queues_def)
  moreover have "settled_ok t" using assms(3) pf by (simp add: settled_ok_def no_presentation_def)
  ultimately show ?thesis using run sq queues_ok_cong [OF sq] assms(1) by (auto simp: ov_inv_def)
qed


lemma queues_okD:
  assumes "queues_ok s" and "r \<in> set (request_storages (queues s ws))"
  shows "queue_web_state s r = Some ws" and "r \<notin> destroyed_requests s"
    and "removed_request_awaiting_dismissal s \<noteq> Some r"
  using assms unfolding queues_ok_def by blast+

lemma queues_ok_distinct: "queues_ok s \<Longrightarrow> distinct (request_storages (queues s ws))"
  by (simp add: queues_ok_def)

lemma queues_ok_active:
  assumes "queues_ok s" and "GetActiveRequest s = Some r"
  obtains ws where "ov_active_web_state s = Some ws" and "front_request (queues s ws) = Some r"
    and "r \<in> set (request_storages (queues s ws))" and "queue_web_state s r = Some ws"
    and "ws \<in> set (ov_tabs s)" and "queue_delegate (queues s ws) = This_presenter"
proof -
  obtain ws where ws: "ov_active_web_state s = Some ws" "front_request (queues s ws) = Some r"
    by (rule GetActiveRequest_SomeE [OF assms(2)])
  have r: "r \<in> set (request_storages (queues s ws))" using ws(2) by (rule front_request_in)
  have "ws \<in> set (ov_tabs s)" "queue_delegate (queues s ws) = This_presenter"
    using assms(1) ws(1) unfolding queues_ok_def by blast+
  with ws r queues_okD(1) [OF assms(1) r] show thesis by (rule that)
qed

lemma queues_ok_destroy:
  assumes "queues_ok s" and "\<And>ws. r \<notin> set (request_storages (queues s ws))"
    and "removed_request_awaiting_dismissal s \<noteq> Some r" and "queue_web_state s r \<noteq> None"
  shows "queues_ok (destroy_request r s)"
  using assms unfolding queues_ok_def destroy_request_eq by auto

lemma queues_ok_keep:
  assumes "queues_ok s" and "\<And>ws. r \<notin> set (request_storages (queues s ws))"
    and "r \<notin> destroyed_requests s" and "queue_web_state s r \<noteq> None"
  shows "queues_ok (s\<lparr>removed_request_awaiting_dismissal := Some r\<rparr>)"
  using assms unfolding queues_ok_def by auto

lemma queues_ok_removed:
  assumes "queues_ok s" and "r \<in> set (request_storages (queues s ws))"
    and "t = update_queue ws (\<lambda>q. q\<lparr>request_storages := remove_at i (request_storages q)\<rparr>) s"
  shows "queues_ok t"
  using assms(1,2) set_remove_at_subset [of i "request_storages (queues s ws)"] unfolding queues_ok_def assms(3) update_queue_def
  by (auto simp: subset_iff)

lemma presenter_coreD:
  assumes "presenter_core s"
  shows "has_presentation_context s \<Longrightarrow> removed_request_awaiting_dismissal s = None \<or>
      removed_request_awaiting_dismissal s = presented_request s"
    and "has_presentation_context s \<Longrightarrow> ws \<in> set (ov_tabs s) \<Longrightarrow> detached_presenting_request_queue s \<noteq> Some ws"
    and "has_presentation_context s \<Longrightarrow> presented_request s = Some r \<Longrightarrow>
      detached_presenting_request_queue s = None \<or> detached_presenting_request_queue s = queue_web_state s r"
    and "presented_request s = Some r \<Longrightarrow> ctx_request (ctx s) = Some r \<and> presenting s \<and>
      has_presentation_context s \<and> \<not> detached_queue_replaced_delegate s \<and> request_kept s r"
    and "has_presentation_context s \<Longrightarrow> presented_request s = None \<Longrightarrow> detached_presenting_request_queue s = None"
proof -
  show "removed_request_awaiting_dismissal s = None \<or>
      removed_request_awaiting_dismissal s = presented_request s" if "has_presentation_context s"
    using assms that by (cases "removed_request_awaiting_dismissal s") (auto simp: presenter_core_def)
  show "detached_presenting_request_queue s \<noteq> Some ws" if "has_presentation_context s" "ws \<in> set (ov_tabs s)"
    using assms that by (auto simp: presenter_core_def)
  show "detached_presenting_request_queue s = None \<or> detached_presenting_request_queue s = queue_web_state s r"
    if "has_presentation_context s" "presented_request s = Some r"
    using assms that by (cases "detached_presenting_request_queue s") (auto simp: presenter_core_def)
  show "ctx_request (ctx s) = Some r \<and> presenting s \<and> has_presentation_context s \<and>
      \<not> detached_queue_replaced_delegate s \<and> request_kept s r" if "presented_request s = Some r"
    using assms that by (auto simp: presenter_core_def split: if_splits)
  show "detached_presenting_request_queue s = None"
    if "has_presentation_context s" "presented_request s = None"
    using assms that by (cases "detached_presenting_request_queue s") (auto simp: presenter_core_def)
qed

text \<open>The presented request is taken out of the queue of the active tab.\<close>

lemma pop_if_dismissed_by_user_ok:
  assumes "queues_ok s" and "presenter_core s" and "has_presentation_context s"
    and "presented_request s = Some r" and "queue_web_state s r = Some ws"
    and "reason = kUserInteraction \<Longrightarrow> GetActiveRequest s = Some r"
  shows "\<exists>t. pop_if_dismissed_by_user r ws reason s = Inr t \<and> dismissal_frame s (t\<lparr>removed_request_awaiting_dismissal := None\<rparr>) \<and>
    (removed_request_awaiting_dismissal t = None \<or> removed_request_awaiting_dismissal t = Some r) \<and>
    queues_ok t \<and> ctx t = ctx s \<and> (reason \<noteq> kUserInteraction \<longrightarrow> queues t = queues s) \<and>
    (\<forall>w. set (request_storages (queues t w)) \<subseteq> set (request_storages (queues s w))) \<and>
    destroyed_requests t = destroyed_requests s \<and>
    detached_queue_replaced_delegate t = detached_queue_replaced_delegate s"
proof (cases "reason = kUserInteraction \<and> removed_request_awaiting_dismissal s \<noteq> Some r \<and>
    \<not> queue_destroyed (queues s ws)")
  case False
  have "removed_request_awaiting_dismissal s = None \<or> removed_request_awaiting_dismissal s = Some r"
    using assms(2-4) by (cases "removed_request_awaiting_dismissal s") (auto simp: presenter_core_def)
  then show ?thesis using False assms(1)
    by (auto simp: pop_if_dismissed_by_user_def dismissal_frame_def)
next
  case True
  then obtain ws' where a: "ov_active_web_state s = Some ws'" "front_request (queues s ws') = Some r"
    "r \<in> set (request_storages (queues s ws'))" "queue_web_state s r = Some ws'" "ws' \<in> set (ov_tabs s)"
    "queue_delegate (queues s ws') = This_presenter"
    using queues_ok_active [OF assms(1)] assms(6) by metis
  then have [simp]: "ws' = ws" using assms(5) by simp
  obtain rs where rs: "request_storages (queues s ws) = r # rs"
    using a(2) by (auto simp: front_request_def split: list.splits)
  have d: "detached_presenting_request_queue s = None"
    using presenter_coreD(2) [OF assms(2,3) a(5)] presenter_coreD(3) [OF assms(2-4)] a(4) by auto
  have w: "removed_request_awaiting_dismissal s = None"
    using presenter_coreD(1) [OF assms(2,3)] assms(4) True by auto
  let ?s1 = "update_queue ws (\<lambda>q. q\<lparr>request_storages := remove_at 0 (request_storages q)\<rparr>) s"
  let ?t = "?s1\<lparr>removed_request_awaiting_dismissal := Some r\<rparr>"
  have "PopFrontRequest ws s = Inr ?t"
    using rs a(6) assms(4) d w
    by (simp add: PopFrontRequest_def RemoveRequest_def OverlayRequestRemoved_def update_queue_def destroy_owned_def)
  then have run: "pop_if_dismissed_by_user r ws reason s = Inr ?t"
    using True w by (simp add: pop_if_dismissed_by_user_def)
  have q1: "queues_ok ?s1" by (rule queues_ok_removed [OF assms(1) a(3) refl, unfolded \<open>ws' = ws\<close>])
  have notin: "r \<notin> set (request_storages (queues ?s1 w'))" for w'
  proof (cases "w' = ws")
    case True
    then show ?thesis using queues_ok_distinct [OF assms(1), of ws] rs by (simp add: update_queue_def)
  next
    case False
    then show ?thesis using queues_okD(1) [OF assms(1), of r w'] a(4) by (auto simp: update_queue_def)
  qed
  have "queues_ok ?t"
    using queues_ok_keep [OF q1 notin] queues_okD(2) [OF assms(1) a(3)] a(4) by (simp add: update_queue_def)
  moreover have "set (request_storages (queues ?t w')) \<subseteq> set (request_storages (queues s w'))" for w'
    using rs by (auto simp: update_queue_def)
  ultimately show ?thesis using run True by (auto simp: dismissal_frame_def update_queue_def)
qed

text \<open>The end of the presenter's dismissal callback, once the request is no longer presented.\<close>

lemma OverlayWasDismissed_ok:
  assumes "queues_ok s" and "ctx_idle s" and "presenter_core s" and "ctx_request (ctx s) = Some r"
    and "queue_web_state s r = Some ws"
    and "reason = kUserInteraction \<Longrightarrow> presented_request s = Some r \<Longrightarrow> GetActiveRequest s = Some r"
  shows "\<exists>t. OverlayWasDismissed U r ws reason s = Inr t \<and> dismissal_frame s t \<and>
    (reason \<noteq> kUserInteraction \<longrightarrow> queues t = queues s) \<and>
    (\<forall>w. set (request_storages (queues t w)) \<subseteq> set (request_storages (queues s w))) \<and>
    destroyed_requests t \<subseteq> insert r (destroyed_requests s) \<and>
    (ctx_request (ctx t) = Some r \<and> queues_ok t \<and> ctx_idle t \<and> no_presentation t \<or>
     ctx_request (ctx t) \<noteq> Some r \<and> ov_inv t)"
proof (cases "has_presentation_context s")
  case False
  then show ?thesis using assms
    by (auto simp: OverlayWasDismissed_def dismissal_frame_def no_presentation_def presenter_core_def)
next
  case has: True
  show ?thesis
  proof (cases "detached_queue_replaced_delegate s")
    case True
    let ?s1 = "s\<lparr>presenting := False, detached_queue_replaced_delegate := False\<rparr>"
    have R: "presented_request s = None"
      using assms(3) has True by (simp add: presenter_core_def)
    have idle: "presenter_idle ?s1" using R has presenter_coreD(1,5) [OF assms(3) has]
      by (simp add: presenter_idle_def)
    have q: "queues_ok ?s1" "ctx_idle ?s1" using assms(1,2) by (simp_all add: queues_ok_def ctx_idle_def)
    have sq: "same_queues s ?s1" by (simp add: same_queues_def)
    have other: "ctx_request (ctx ?s1) \<noteq> Some x" if active: "GetActiveRequest ?s1 = Some x" for x
    proof -
      obtain w where "x \<in> set (request_storages (queues ?s1 w))" "w \<in> set (ov_tabs ?s1)"
        using queues_ok_active [OF q(1) active] by metis
      then show ?thesis using assms(3) has True by (auto simp: presenter_core_def)
    qed
    obtain t where t: "PresentOverlayForActiveRequest U ?s1 = Inr t" "same_queues ?s1 t"
      "ctx_request (ctx t) = ctx_request (ctx ?s1) \<and> ctx_idle t \<and> presenter_idle t \<or>
       ctx_request (ctx t) \<noteq> ctx_request (ctx ?s1) \<and> ov_inv t"
      using PresentOverlay_idle [OF q idle other] by blast
    have st: "same_queues s t" using t(2) by (simp add: same_queues_def)
    have np: "presenter_idle u \<Longrightarrow> no_presentation u" for u by (simp add: presenter_idle_def no_presentation_def)
    show ?thesis
    proof (cases "GetActiveRequest ?s1 = None")
      case True
      with \<open>detached_queue_replaced_delegate s\<close> has have "OverlayWasDismissed U r ws reason s = Inr ?s1"
        by (simp add: OverlayWasDismissed_def)
      then show ?thesis using q np [OF idle] assms(4) by (auto simp: dismissal_frame_def)
    next
      case False
      with \<open>detached_queue_replaced_delegate s\<close> has t(1) have "OverlayWasDismissed U r ws reason s = Inr t"
        by (simp add: OverlayWasDismissed_def)
      then show ?thesis using t(3) st same_queues_frame [OF st] queues_ok_cong [OF st] assms(1,4) np
        by (auto simp: same_queues_def)
    qed
  next
    case False
    have R: "presented_request s = Some r" using assms(3,4) has False by (simp add: presenter_core_def)
    obtain s1 where s1: "pop_if_dismissed_by_user r ws reason s = Inr s1"
      "dismissal_frame s (s1\<lparr>removed_request_awaiting_dismissal := None\<rparr>)"
      "removed_request_awaiting_dismissal s1 = None \<or> removed_request_awaiting_dismissal s1 = Some r"
      "queues_ok s1" "ctx s1 = ctx s" "reason \<noteq> kUserInteraction \<longrightarrow> queues s1 = queues s"
      "\<forall>w. set (request_storages (queues s1 w)) \<subseteq> set (request_storages (queues s w))"
      "destroyed_requests s1 = destroyed_requests s"
      "detached_queue_replaced_delegate s1 = False"
      using pop_if_dismissed_by_user_ok [where reason = reason, OF assms(1,3) has R assms(5) assms(6) [OF _ R]] False
      by auto
    let ?s2 = "emit (DidHideOverlay r) (s1\<lparr>presenting := False, presented_request := None,
                        detached_presenting_request_queue := None\<rparr>)"
    define s3 where "s3 = destroy_owned (removed_request_awaiting_dismissal ?s2)
                    (?s2\<lparr>removed_request_awaiting_dismissal := None\<rparr>)"
    have s3: "queues s3 = queues s1" "ctx s3 = ctx s" "queue_web_state s3 = queue_web_state s1"
      "ov_tabs s3 = ov_tabs s1" "ov_active_web_state s3 = ov_active_web_state s1"
      "has_presentation_context s3 = has_presentation_context s1"
      "removed_request_awaiting_dismissal s3 = None" "\<not> presenting s3" "presented_request s3 = None"
      "detached_presenting_request_queue s3 = None"
      "\<not> detached_queue_replaced_delegate s3"
      "destroyed_requests s3 \<subseteq> insert r (destroyed_requests s)"
      using s1(3,5,8,9) by (auto simp: s3_def emit_def destroy_owned_def destroy_request_eq split: option.splits)
    have fr: "dismissal_frame s s3" using s1(2) s3 by (simp add: dismissal_frame_def)
    have idle: "presenter_idle s3" "ctx_idle s3"
      using s3 fr has assms(2) by (simp_all add: presenter_idle_def dismissal_frame_def ctx_idle_def)
    have q3: "queues_ok s3"
      using s1(3)
    proof
      assume "removed_request_awaiting_dismissal s1 = None"
      then show ?thesis using s1(4) by (simp add: s3_def emit_def destroy_owned_def queues_ok_def)
    next
      assume w: "removed_request_awaiting_dismissal s1 = Some r"
      have "queues_ok (?s2\<lparr>removed_request_awaiting_dismissal := None\<rparr>)"
        using s1(4) by (simp add: emit_def queues_ok_def)
      moreover have "r \<notin> set (request_storages (queues s1 w'))" for w'
        using queues_okD(3) [OF s1(4)] w by blast
      moreover have "queue_web_state s1 r \<noteq> None" using s1(4) w by (auto simp: queues_ok_def)
      ultimately show ?thesis using w
        by (simp add: s3_def emit_def destroy_owned_def queues_ok_destroy)
    qed
    have run: "OverlayWasDismissed U r ws reason s =
        (if GetActiveRequest s3 \<noteq> Some r then PresentOverlayForActiveRequest U s3 else Inr s3)"
      using has False R s1(1) by (simp add: OverlayWasDismissed_def s3_def Let_def)
    have np: "no_presentation u" if "presenter_idle u" for u using that by (simp add: presenter_idle_def no_presentation_def)
    show ?thesis
    proof (cases "GetActiveRequest s3 = Some r")
      case True
      then show ?thesis using run q3 idle np [OF idle(1)] s3 fr s1(6,7) assms(4) by auto
    next
      case other: False
      then obtain t where t: "PresentOverlayForActiveRequest U s3 = Inr t" "same_queues s3 t"
        "ctx_request (ctx t) = ctx_request (ctx s3) \<and> ctx_idle t \<and> presenter_idle t \<or>
         ctx_request (ctx t) \<noteq> ctx_request (ctx s3) \<and> ov_inv t"
        using PresentOverlay_idle [OF q3 idle(2,1), of U] s3(2) assms(4) by auto
      then have "dismissal_frame s t" using dismissal_frame_trans [OF fr same_queues_frame] by blast
      moreover have "queues_ok t" using queues_ok_cong [OF t(2)] q3 by simp
      ultimately show ?thesis using t run other np s3 s1(6,7) assms(4) by (auto simp: same_queues_def)
    qed
  qed
qed

lemma context_okD:
  assumes "context_ok s" and "ui_states (ctx s) r = Some st"
  shows "\<not> presentation_callback st" and "queue_web_state s r \<noteq> None"
    and "dismissal_callback st = Some ws \<Longrightarrow> ctx_request (ctx s) = Some r"
    and "dismissal_callback st = Some ws \<Longrightarrow> queue_web_state s r = Some ws"
  using assms unfolding context_ok_def by blast+

lemma context_ok_requestE:
  assumes "context_ok s" and "ctx_request (ctx s) = Some r"
  obtains st co ws where "ui_states (ctx s) r = Some st" and "dismissal_callback st = Some ws"
    and "coordinator st = Some co" and "queue_web_state s r = Some ws"
proof -
  obtain st where st: "ui_states (ctx s) r = Some st" "has_callback st" "coordinator st \<noteq> None"
    using assms unfolding context_ok_def by blast
  then obtain ws co where "dismissal_callback st = Some ws" "coordinator st = Some co"
    unfolding has_callback_def by blast
  with st(1) context_okD(4) [OF assms(1) st(1)] show thesis by (intro that)
qed

lemma context_ok_mid:
  assumes "context_ok s" and "ctx_request (ctx s) = Some r" and "ui_states (ctx s) r = Some st"
  shows "ctx_idle (put_state r (st\<lparr>dismissal_callback := None\<rparr>) s)"
proof -
  have other: "dismissal_callback st' = None" if "ui_states (ctx s) x = Some st'" "x \<noteq> r" for x st'
    using context_okD(3) [OF assms(1) that(1)] that(2) assms(2) by (cases "dismissal_callback st'") auto
  show ?thesis unfolding ctx_idle_def
  proof (intro conjI allI impI)
    fix x st' assume x: "ui_states (ctx (put_state r (st\<lparr>dismissal_callback := None\<rparr>) s)) x = Some st'"
    have o: "ui_states (ctx s) x = Some st'" if "x \<noteq> r" using x that by (simp add: put_state_def)
    show "\<not> presentation_callback st'" "dismissal_callback st' = None"
      "queue_web_state (put_state r (st\<lparr>dismissal_callback := None\<rparr>) s) x \<noteq> None"
      using x o other [OF o] context_okD(1,2) [OF assms(1) o] context_okD(1,2) [OF assms(1,3)]
      by (cases "x = r"; auto simp: put_state_def)+
  next
    fix x assume "ctx_request (ctx (put_state r (st\<lparr>dismissal_callback := None\<rparr>) s)) = Some x"
    then show "ui_states (ctx (put_state r (st\<lparr>dismissal_callback := None\<rparr>) s)) x \<noteq> None"
      using assms(2) by (simp add: put_state_def)
  qed
qed

lemma OverlayUIWasDismissed_ok:
  assumes "queues_ok s" and "context_ok s" and "presenter_core s" and "ctx_request (ctx s) = Some r"
    and "ui_states (ctx s) r = Some st"
    and "dismissal_reason st = kUserInteraction \<Longrightarrow> presented_request s = Some r \<Longrightarrow> GetActiveRequest s = Some r"
  shows "\<exists>t. OverlayUIWasDismissed U s = Inr t \<and> dismissal_frame s t \<and> ov_inv t \<and>
    (dismissal_reason st \<noteq> kUserInteraction \<longrightarrow> queues t = queues s) \<and>
    (\<forall>w. set (request_storages (queues t w)) \<subseteq> set (request_storages (queues s w))) \<and>
    destroyed_requests t \<subseteq> insert r (destroyed_requests s)"
proof -
  let ?u = "put_state r (st\<lparr>dismissal_callback := None\<rparr>) s"
  obtain ws where ws: "dismissal_callback st = Some ws" "queue_web_state s r = Some ws"
    by (rule context_ok_requestE [OF assms(2,4)]) (use assms(5) in auto)
  have u: "queues_ok ?u" "presenter_core ?u" "ctx_request (ctx ?u) = Some r" "queue_web_state ?u r = Some ws"
    "GetActiveRequest ?u = GetActiveRequest s" "presented_request ?u = presented_request s" "queues ?u = queues s"
    "destroyed_requests ?u = destroyed_requests s"
    using assms(1,3,4) ws(2)
    by (auto simp: put_state_def queues_ok_def presenter_core_def request_kept_def GetActiveRequest_def
        GetFrontRequestForWebState_def split: option.splits)
  have fr: "dismissal_frame s ?u" by (simp add: dismissal_frame_def put_state_def)
  obtain t where t: "OverlayWasDismissed U r ws (dismissal_reason st) ?u = Inr t" "dismissal_frame ?u t"
    "dismissal_reason st \<noteq> kUserInteraction \<longrightarrow> queues t = queues ?u"
    "\<forall>w. set (request_storages (queues t w)) \<subseteq> set (request_storages (queues ?u w))"
    "destroyed_requests t \<subseteq> insert r (destroyed_requests ?u)"
    "ctx_request (ctx t) = Some r \<and> queues_ok t \<and> ctx_idle t \<and> no_presentation t \<or>
     ctx_request (ctx t) \<noteq> Some r \<and> ov_inv t"
    using OverlayWasDismissed_ok [where reason = "dismissal_reason st" and U = U,
        OF u(1) context_ok_mid [OF assms(2,4,5)] u(2,3,4)] assms(6) u(5,6) by auto
  have run: "OverlayUIWasDismissed U s = (if ctx_request (ctx t) = Some r then SetRequest U None t else Inr t)"
    using assms(4,5) ws(1) t(1) by (simp add: OverlayUIWasDismissed_def)
  have st: "dismissal_frame s t" by (rule dismissal_frame_trans [OF fr t(2)])
  show ?thesis
  proof (cases "ctx_request (ctx t) = Some r")
    case True
    then obtain v where v: "SetRequest U None t = Inr v" "same_queues t v" "ov_inv v"
      using SetRequest_None [of t U] t(6) by auto
    then have "dismissal_frame s v" using dismissal_frame_trans [OF st same_queues_frame] by blast
    then show ?thesis using v run True t(3-5) u(7,8) by (auto simp: same_queues_def)
  next
    case False
    then show ?thesis using t(3-6) run u(7,8) st by auto
  qed
qed

section \<open>Hiding and cancelling\<close>

lemma context_ok_put:
  assumes "context_ok s" and "ui_states (ctx s) r = Some st"
    and "ctx u = (ctx s)\<lparr>ui_states := (ui_states (ctx s))(r \<mapsto> st')\<rparr>" and "queue_web_state u = queue_web_state s"
    and "dismissal_callback st' = dismissal_callback st" and "presentation_callback st' = presentation_callback st"
    and "has_callback st" and "coordinator st' \<noteq> None"
  shows "context_ok u"
  unfolding context_ok_def
proof (intro conjI allI impI)
  fix x st1 assume x: "ui_states (ctx u) x = Some st1"
  have o: "ui_states (ctx s) x = Some st1" if "x \<noteq> r" using x that assms(3) by simp
  show "\<not> presentation_callback st1" "queue_web_state u x \<noteq> None"
    using x o context_okD(1,2) [OF assms(1) o] context_okD(1,2) [OF assms(1,2)] assms(3-6) by (cases "x = r"; auto)+
  fix ws assume cb: "dismissal_callback st1 = Some ws"
  have "ctx_request (ctx s) = Some x \<and> queue_web_state s x = Some ws"
  proof (cases "x = r")
    case True
    then have "dismissal_callback st = Some ws" using x cb assms(3,5) by simp
    then show ?thesis using context_okD(3,4) [OF assms(1,2)] True by simp
  next
    case False
    show ?thesis using context_okD(3,4) [OF assms(1) o [OF False] cb] by simp
  qed
  then show "ctx_request (ctx u) = Some x" "queue_web_state u x = Some ws" using assms(3,4) by simp_all
next
  fix x assume x: "ctx_request (ctx u) = Some x"
  obtain st1 co where "ui_states (ctx s) x = Some st1" "dismissal_callback st1 \<noteq> None" "coordinator st1 = Some co"
    by (rule context_ok_requestE [OF assms(1), of x]) (use x assms(3) in auto)
  then show "\<exists>st. ui_states (ctx u) x = Some st \<and> has_callback st \<and> coordinator st \<noteq> None"
    using assms(2,3,5,7,8) by (cases "x = r") (auto simp: has_callback_def)
qed

lemma DismissPresentedUI_ok:
  assumes "queues_ok s" and "context_ok s" and "presenter_core s" and "ctx_request (ctx s) = Some r"
    and "reason \<noteq> kUserInteraction"
  shows "\<exists>t. DismissPresentedUI U reason s = Inr t \<and> dismissal_frame s t \<and> ov_inv t \<and> queues t = queues s \<and>
    destroyed_requests t \<subseteq> insert r (destroyed_requests s)"
proof -
  obtain st co where st: "ui_states (ctx s) r = Some st" "has_callback st" "coordinator st = Some co"
    by (rule context_ok_requestE [OF assms(2,4)]) (auto simp: has_callback_def)
  let ?u = "put_state r (st\<lparr>dismissal_reason := reason\<rparr>) s"
  let ?v = "emit (StopUI r (reason = kUserInteraction))
      (put_state r (st\<lparr>dismissal_reason := reason, coordinator := Some (co\<lparr>started := False\<rparr>)\<rparr>) s)"
  have inv: "ov_inv u" "dismissal_frame s u" "queues u = queues s" "destroyed_requests u = destroyed_requests s"
    "ctx_request (ctx u) = Some r"
    if u: "u = put_state r st' s \<or> u = emit (StopUI r False) (put_state r st' s)"
      and st': "dismissal_reason st' = reason" "dismissal_callback st' = dismissal_callback st"
        "presentation_callback st' = presentation_callback st" "coordinator st' \<noteq> None" for u st'
  proof -
    have f: "ctx u = (ctx s)\<lparr>ui_states := (ui_states (ctx s))(r \<mapsto> st')\<rparr>" "same_queues s u"
      "presenting u = presenting s" "presented_request u = presented_request s"
      "detached_queue_replaced_delegate u = detached_queue_replaced_delegate s"
      "detached_presenting_request_queue u = detached_presenting_request_queue s"
      using u by (auto simp: put_state_def emit_def same_queues_def)
    have "context_ok u" by (rule context_ok_put [OF assms(2) st(1) f(1) _ st'(2,3) st(2) st'(4)])
        (use f(2) in \<open>simp add: same_queues_def\<close>)
    moreover have "presenter_core u" using assms(3) f
      by (auto simp: presenter_core_def same_queues_def request_kept_def)
    moreover have "settled_ok u"
      using presenter_coreD(4) [OF assms(3)] assms(4,5) st'(1) f(1,4) by (auto simp: settled_ok_def settled_def)
    ultimately show "ov_inv u" using queues_ok_cong [OF f(2)] assms(1) by (simp add: ov_inv_def)
    show "dismissal_frame s u" "queues u = queues s" "destroyed_requests u = destroyed_requests s"
      "ctx_request (ctx u) = Some r"
      using f(1,2) same_queues_frame assms(4) by (auto simp: same_queues_def)
  qed
  have run: "DismissPresentedUI U reason s =
      (if \<not> started co then Inr ?u else if stops_at_once U r then OverlayUIWasDismissed U ?v else Inr ?v)"
    using assms(4,5) st by (simp add: DismissPresentedUI_def stop_coordinator_def put_state_def Let_def)
  have u: "ov_inv ?u" "dismissal_frame s ?u" "queues ?u = queues s" "destroyed_requests ?u = destroyed_requests s"
    using inv [of ?u "st\<lparr>dismissal_reason := reason\<rparr>"] st(3) by simp_all
  have v: "ov_inv ?v" "dismissal_frame s ?v" "queues ?v = queues s" "destroyed_requests ?v = destroyed_requests s"
    "ctx_request (ctx ?v) = Some r"
    using inv [of ?v "st\<lparr>dismissal_reason := reason, coordinator := Some (co\<lparr>started := False\<rparr>)\<rparr>"] assms(5) by simp_all
  show ?thesis
  proof (cases "started co \<and> stops_at_once U r")
    case True
    obtain t where t: "OverlayUIWasDismissed U ?v = Inr t" "dismissal_frame ?v t" "ov_inv t" "queues t = queues ?v"
      "destroyed_requests t \<subseteq> insert r (destroyed_requests ?v)"
      using OverlayUIWasDismissed_ok [of ?v r "st\<lparr>dismissal_reason := reason, coordinator := Some (co\<lparr>started := False\<rparr>)\<rparr>" U]
        v(1,5) assms(5) by (auto simp: ov_inv_def put_state_def emit_def)
    have "dismissal_frame s t" by (rule dismissal_frame_trans [OF v(2) t(2)])
    with t v True run show ?thesis by auto
  next
    case False
    then show ?thesis using u v run by auto
  qed
qed
text \<open>The frame of a dismissal that the user did not ask for.\<close>

definition quiet_frame :: "overlays \<Rightarrow> overlays \<Rightarrow> bool" where
  "quiet_frame s t \<longleftrightarrow> dismissal_frame s t \<and> queues t = queues s \<and>
     (\<forall>x \<in> destroyed_requests t. x \<in> destroyed_requests s \<or> ctx_request (ctx s) = Some x)"

lemma quiet_frame_refl [simp]: "quiet_frame s s"
  by (simp add: quiet_frame_def dismissal_frame_def)

lemma GetActiveRequest_queues:
  "queues t = queues s \<Longrightarrow> ov_active_web_state t = ov_active_web_state s \<Longrightarrow> GetActiveRequest t = GetActiveRequest s"
  by (simp only: GetActiveRequest_def GetFrontRequestForWebState_def)

definition same_presenter :: "overlays \<Rightarrow> overlays \<Rightarrow> bool" where
  "same_presenter s t \<longleftrightarrow> ctx_request (ctx t) = ctx_request (ctx s) \<and> presenting t = presenting s \<and>
     presented_request t = presented_request s \<and>
     detached_queue_replaced_delegate t = detached_queue_replaced_delegate s \<and>
     detached_presenting_request_queue t = detached_presenting_request_queue s"

lemma presenter_core_cong:
  assumes "same_presenter s t" and "queues t = queues s" and "queue_web_state t = queue_web_state s"
    and "removed_request_awaiting_dismissal t = removed_request_awaiting_dismissal s"
    and "ov_tabs t = ov_tabs s" and "has_presentation_context t = has_presentation_context s"
  shows "presenter_core t = presenter_core s"
  using assms by (simp only: presenter_core_def request_kept_def same_presenter_def)

lemma quiet_frame_active: "quiet_frame s t \<Longrightarrow> GetActiveRequest t = GetActiveRequest s"
  by (rule GetActiveRequest_queues) (simp_all add: quiet_frame_def dismissal_frame_def)

lemma HideOverlayUI_ok:
  assumes "queues_ok s" and "context_ok s" and "presenter_core s" and "ctx_request (ctx s) = Some r"
  shows "\<exists>t. HideOverlayUI U r s = Inr t \<and> quiet_frame s t \<and> ov_inv t"
proof -
  obtain st where "ui_states (ctx s) r = Some st" "has_callback st"
    by (rule context_ok_requestE [OF assms(2,4)]) (auto simp: has_callback_def)
  then have run: "HideOverlayUI U r s = DismissPresentedUI U kHiding s"
    using assms(4) by (simp add: HideOverlayUI_def)
  obtain t where "DismissPresentedUI U kHiding s = Inr t" "dismissal_frame s t" "ov_inv t" "queues t = queues s"
    "destroyed_requests t \<subseteq> insert r (destroyed_requests s)"
    using DismissPresentedUI_ok [OF assms, of kHiding U] by auto
  with run assms(4) show ?thesis by (auto simp: quiet_frame_def)
qed

lemma ov_inv_erase_state:
  assumes "ov_inv s" and "ctx_request (ctx s) \<noteq> Some r"
  shows "ov_inv (erase_state r s)" and "quiet_frame s (erase_state r s)"
proof -
  let ?t = "erase_state r s"
  have f: "same_presenter s ?t" "same_queues s ?t"
    by (simp_all add: erase_state_def same_queues_def same_presenter_def)
  have ui: "ui_states (ctx ?t) x = (if x = r then None else ui_states (ctx s) x)" for x
    by (simp add: erase_state_def)
  have "context_ok ?t" using assms f(1,2) unfolding ov_inv_def context_ok_def
    by (simp add: ui same_queues_def same_presenter_def)
  moreover have "presenter_core ?t"
    using presenter_core_cong [OF f(1)] f(2) assms(1) by (simp add: ov_inv_def same_queues_def)
  moreover have "settled_ok ?t"
    using assms f(1) GetActiveRequest_cong [OF f(2)]
    by (auto simp: ov_inv_def settled_ok_def settled_def ui same_presenter_def split: if_splits)
  ultimately show "ov_inv ?t" using assms(1) queues_ok_cong [OF f(2)] by (simp add: ov_inv_def)
  show "quiet_frame s ?t" using f(2) same_queues_frame [OF f(2)] by (simp add: quiet_frame_def same_queues_def)
qed

lemma CancelOverlayUI_ok:
  assumes "queues_ok s" and "context_ok s" and "presenter_core s"
    and "settled_ok s \<or> ctx_request (ctx s) = Some r"
  shows "\<exists>t. CancelOverlayUI U r s = Inr t \<and> quiet_frame s t \<and> ov_inv t"
proof (cases "ctx_request (ctx s) = Some r")
  case True
  obtain st where "ui_states (ctx s) r = Some st" "has_callback st"
    by (rule context_ok_requestE [OF assms(2) True]) (auto simp: has_callback_def)
  then have run: "CancelOverlayUI U r s = DismissPresentedUI U kCancellation s"
    by (simp add: CancelOverlayUI_def)
  obtain t where "DismissPresentedUI U kCancellation s = Inr t" "dismissal_frame s t" "ov_inv t" "queues t = queues s"
    "destroyed_requests t \<subseteq> insert r (destroyed_requests s)"
    using DismissPresentedUI_ok [OF assms(1-3) True, of kCancellation U] by auto
  with run True show ?thesis by (auto simp: quiet_frame_def)
next
  case False
  then have inv: "ov_inv s" using assms by (simp add: ov_inv_def)
  have "\<not> has_callback st" if "ui_states (ctx s) r = Some st" for st
    using context_okD(3) [OF assms(2) that] False by (cases "dismissal_callback st") (auto simp: has_callback_def)
  then show ?thesis using ov_inv_erase_state [OF inv False] inv
    by (cases "ui_states (ctx s) r") (auto simp: CancelOverlayUI_def)
qed

lemma CancelOverlayUIForRequest_ok:
  assumes "queues_ok s" and "context_ok s" and "presenter_core s"
    and "settled_ok s \<or> has_presentation_context s \<and> request \<noteq> None \<and> ctx_request (ctx s) = request"
  shows "\<exists>t. CancelOverlayUIForRequest U request s = Inr t \<and> quiet_frame s t \<and> ov_inv t"
proof (cases "request = None \<or> \<not> has_presentation_context s")
  case True
  then show ?thesis using assms by (auto simp: CancelOverlayUIForRequest_def ov_inv_def split: option.split)
next
  case False
  then show ?thesis using CancelOverlayUI_ok [OF assms(1-3)] assms(4)
    by (auto simp: CancelOverlayUIForRequest_def)
qed

lemma ov_inv_destroy:
  assumes "ov_inv s" and "\<And>ws. r \<notin> set (request_storages (queues s ws))"
    and "removed_request_awaiting_dismissal s \<noteq> Some r" and "queue_web_state s r \<noteq> None"
  shows "ov_inv (destroy_request r s)"
proof -
  have "queues_ok (destroy_request r s)" using queues_ok_destroy assms by (simp add: ov_inv_def)
  moreover have "context_ok (destroy_request r s)" using assms(1)
    by (simp add: ov_inv_def context_ok_def destroy_request_eq)
  moreover have "presenter_core (destroy_request r s)"
    using presenter_core_cong [of s "destroy_request r s"] assms(1)
    by (simp add: ov_inv_def destroy_request_eq same_presenter_def)
  moreover have "settled_ok (destroy_request r s)"
    using assms(1) GetActiveRequest_queues [of "destroy_request r s" s]
    by (simp add: ov_inv_def settled_ok_def settled_def destroy_request_eq)
  ultimately show ?thesis by (simp add: ov_inv_def)
qed

section \<open>A request leaves its queue\<close>

text \<open>What the removal of the request at \<open>index\<close> of the queue of \<open>ws\<close> changes, and what not.\<close>

definition removal_frame :: "wsid \<Rightarrow> nat \<Rightarrow> overlays \<Rightarrow> overlays \<Rightarrow> bool" where
  "removal_frame ws index s t \<longleftrightarrow> queue_web_state t = queue_web_state s \<and> ov_tabs t = ov_tabs s \<and>
     ov_active_web_state t = ov_active_web_state s \<and>
     has_presentation_context t = has_presentation_context s \<and>
     (\<forall>w. request_storages (queues t w) =
          (if w = ws then remove_at index (request_storages (queues s w)) else request_storages (queues s w)) \<and>
        queue_observed (queues t w) = queue_observed (queues s w) \<and>
        queue_destroyed (queues t w) = queue_destroyed (queues s w))"

lemma remove_at_keeps:
  "distinct xs \<Longrightarrow> i < length xs \<Longrightarrow> x \<in> set xs \<Longrightarrow> x \<noteq> xs ! i \<Longrightarrow> x \<in> set (remove_at i xs)"
  by (simp add: set_remove_at)

lemma front_request_remove:
  assumes "front_request q = Some p" and "p \<noteq> request_storages q ! i" and "i < length (request_storages q)"
  shows "front_request (q\<lparr>request_storages := remove_at i (request_storages q)\<rparr>) = Some p"
  using assms by (cases i; cases "request_storages q") (auto simp: front_request_def)

text \<open>Taking a request that is not presented out of its queue.\<close>

lemma ov_inv_taken:
  assumes "ov_inv s" and "i < length (request_storages (queues s ws))"
    and "presented_request s \<noteq> Some (request_storages (queues s ws) ! i)"
    and "t = update_queue ws (\<lambda>q. q\<lparr>request_storages := remove_at i (request_storages q)\<rparr>) s"
  shows "ov_inv t"
proof -
  let ?r = "request_storages (queues s ws) ! i"
  have inv: "queues_ok s" "context_ok s" "presenter_core s" "settled_ok s" using assms(1) by (simp_all add: ov_inv_def)
  have "queues_ok t" by (rule queues_ok_removed [OF inv(1) _ assms(4)]) (rule nth_mem [OF assms(2)])
  moreover have "context_ok t" using inv(2) by (simp add: context_ok_def assms(4) update_queue_def)
  moreover have "presenter_core t"
  proof -
    have kept: "request_kept t p" if p: "presented_request s = Some p" for p
    proof -
      consider "removed_request_awaiting_dismissal s = Some p"
        | w where "p \<in> set (request_storages (queues s w))" "queue_delegate (queues s w) = This_presenter"
        using presenter_coreD(4) [OF inv(3) p] by (auto simp: request_kept_def)
      then show ?thesis
      proof cases
        case 1
        then show ?thesis by (simp add: request_kept_def assms(4) update_queue_def)
      next
        case (2 w)
        have "p \<in> set (request_storages (queues t w))"
          using 2(1) remove_at_keeps [OF queues_ok_distinct [OF inv(1)] assms(2)] p assms(3,4)
          by (auto simp: update_queue_def)
        moreover have "queue_delegate (queues t w) = This_presenter" using 2(2) assms(4) by (auto simp: update_queue_def)
        ultimately show ?thesis by (auto simp: request_kept_def)
      qed
    qed
    have sub: "set (request_storages (queues t w)) \<subseteq> set (request_storages (queues s w))" for w
      by (cases "w = ws") (auto simp: assms(4) update_queue_def dest: set_remove_at_subset [THEN subsetD])
    have out: "r \<notin> set (request_storages (queues t w))" if "r \<notin> set (request_storages (queues s w))" for r w
      using that sub by blast
    have f: "same_presenter s t" "queue_web_state t = queue_web_state s" "ov_tabs t = ov_tabs s"
      "removed_request_awaiting_dismissal t = removed_request_awaiting_dismissal s"
      "has_presentation_context t = has_presentation_context s"
      by (simp_all add: assms(4) same_presenter_def update_queue_def)
    show ?thesis
      using inv(3) kept out f unfolding presenter_core_def same_presenter_def by auto
  qed
  moreover have "settled_ok t"
    unfolding settled_ok_def
  proof (intro allI impI)
    fix p assume p: "presented_request t = Some p" "settled t p"
    then have ps: "presented_request s = Some p" "settled s p"
      by (simp_all add: assms(4) update_queue_def settled_def)
    then have "GetActiveRequest s = Some p" using inv(4) by (simp add: settled_ok_def)
    then obtain w where w: "ov_active_web_state s = Some w" "front_request (queues s w) = Some p"
      by (rule GetActiveRequest_SomeE)
    have "front_request (queues t w) = Some p"
      using w(2) front_request_remove [OF w(2)] assms(2,3) ps(1) by (auto simp: assms(4) update_queue_def)
    then show "GetActiveRequest t = Some p" using w(1)
      by (simp add: GetActiveRequest_def GetFrontRequestForWebState_def assms(4) update_queue_def)
  qed
  ultimately show ?thesis by (simp add: ov_inv_def)
qed

text \<open>The presented request leaves its queue: the presenter takes it over.\<close>

lemma ov_core_taken_over:
  assumes "ov_inv s" and "i < length (request_storages (queues s ws))"
    and "presented_request s = Some (request_storages (queues s ws) ! i)"
    and "u = (update_queue ws (\<lambda>q. q\<lparr>request_storages := remove_at i (request_storages q)\<rparr>) s)
           \<lparr>removed_request_awaiting_dismissal := Some (request_storages (queues s ws) ! i)\<rparr>"
    and "t = (if detached_presenting_request_queue u \<noteq> None
              then SetDelegate ws No_delegate (u\<lparr>detached_presenting_request_queue := None\<rparr>) else u)"
  shows "queues_ok t" and "context_ok t" and "presenter_core t" and "removal_frame ws i s t"
    and "ctx_request (ctx t) = presented_request s" and "has_presentation_context t"
    and "destroyed_requests t = destroyed_requests s"
    and "removed_request_awaiting_dismissal t = presented_request s"
proof -
  let ?r = "request_storages (queues s ws) ! i"
  have inv: "queues_ok s" "context_ok s" "presenter_core s" using assms(1) by (simp_all add: ov_inv_def)
  have r: "?r \<in> set (request_storages (queues s ws))" by (rule nth_mem [OF assms(2)])
  have core: "ctx_request (ctx s) = Some ?r" "presenting s" "has_presentation_context s"
    "\<not> detached_queue_replaced_delegate s" using presenter_coreD(4) [OF inv(3) assms(3)] by blast+
  have qws: "queue_web_state s ?r = Some ws" by (rule queues_okD(1) [OF inv(1) r])
  have notin: "?r \<notin> set (request_storages (queues u w))" for w
    using queues_ok_distinct [OF inv(1), of ws] assms(2) queues_okD(1) [OF inv(1), of ?r w] qws
    by (cases "w = ws") (auto simp: assms(4) update_queue_def set_remove_at)
  have "queues_ok (update_queue ws (\<lambda>q. q\<lparr>request_storages := remove_at i (request_storages q)\<rparr>) s)"
    by (rule queues_ok_removed [OF inv(1) r refl])
  then have qu: "queues_ok u"
    using queues_ok_keep [of "update_queue ws (\<lambda>q. q\<lparr>request_storages := remove_at i (request_storages q)\<rparr>) s" ?r]
      notin queues_okD(2) [OF inv(1) r] qws by (simp add: assms(4) update_queue_def)
  have front: "front_request (queues u ws) \<noteq> Some ?r" using notin [of ws] front_request_in by blast
  have same: "ctx u = ctx s" "queue_web_state u = queue_web_state s" "ov_tabs u = ov_tabs s"
    "ov_active_web_state u = ov_active_web_state s" "has_presentation_context u = has_presentation_context s"
    "destroyed_requests u = destroyed_requests s" "presenting u = presenting s"
    "presented_request u = presented_request s"
    "detached_queue_replaced_delegate u = detached_queue_replaced_delegate s"
    "detached_presenting_request_queue u = detached_presenting_request_queue s"
    "removed_request_awaiting_dismissal u = Some ?r"
    by (simp_all add: assms(4) update_queue_def)
  have ut: "ctx t = ctx s" "queue_web_state t = queue_web_state s" "ov_tabs t = ov_tabs s"
    "ov_active_web_state t = ov_active_web_state s" "has_presentation_context t = has_presentation_context s"
    "destroyed_requests t = destroyed_requests s" "presenting t = presenting s"
    "presented_request t = presented_request s" "detached_presenting_request_queue t = None"
    "detached_queue_replaced_delegate t = detached_queue_replaced_delegate s"
    "removed_request_awaiting_dismissal t = Some ?r"
    using same front assms(3)
    by (auto simp: assms(5) SetDelegate_def OverlayRequestQueueWillReplaceDelegate_def update_queue_def)
  have outside: "ws \<notin> set (ov_tabs s)" if d: "detached_presenting_request_queue s = Some w" for w
  proof -
    have "w = ws" using presenter_coreD(3) [OF inv(3) core(3) assms(3)] qws d by simp
    then show ?thesis using presenter_coreD(2) [OF inv(3) core(3), of ws] d by auto
  qed
  have qs: "queues t = queues u \<or> ws \<notin> set (ov_tabs s) \<and>
      (\<exists>d. queues t = (queues u)(ws := (queues u ws)\<lparr>queue_delegate := d\<rparr>))"
    using same front assms(3) outside
    by (cases "detached_presenting_request_queue s")
       (auto simp: assms(5) SetDelegate_def OverlayRequestQueueWillReplaceDelegate_def update_queue_def)
  have qf: "request_storages (queues t w) = request_storages (queues u w)"
    "queue_observed (queues t w) = queue_observed (queues u w)"
    "queue_destroyed (queues t w) = queue_destroyed (queues u w)"
    "w \<in> set (ov_tabs s) \<Longrightarrow> queue_delegate (queues t w) = queue_delegate (queues u w)" for w
    using qs by (auto split: if_splits)
  show "queues_ok t" using qu by (simp add: queues_ok_def qf ut same)
  show "removal_frame ws i s t" using ut by (simp add: removal_frame_def qf assms(4) update_queue_def)
  show "context_ok t" using inv(2) ut by (simp add: context_ok_def)
  show "presenter_core t" using core assms(3) ut by (simp add: presenter_core_def request_kept_def)
  show "ctx_request (ctx t) = presented_request s" "has_presentation_context t"
    "destroyed_requests t = destroyed_requests s"
    "removed_request_awaiting_dismissal t = presented_request s"
    using core assms(3) ut by simp_all
qed

text \<open>After a removal the request is destroyed unless the presenter keeps it for the dismissal.\<close>

lemma destroy_after_removal:
  assumes "ov_inv s" and "i < length (request_storages (queues s ws))"
    and "presented_request s \<noteq> Some (request_storages (queues s ws) ! i)"
    and "t = update_queue ws (\<lambda>q. q\<lparr>request_storages := remove_at i (request_storages q)\<rparr>) s"
    and "ov_inv u" and "quiet_frame t u"
  shows "ov_inv (destroy_request (request_storages (queues s ws) ! i) u)"
    and "removal_frame ws i s (destroy_request (request_storages (queues s ws) ! i) u)"
proof -
  let ?r = "request_storages (queues s ws) ! i"
  have q: "queues_ok s" using assms(1) by (simp add: ov_inv_def)
  have r: "?r \<in> set (request_storages (queues s ws))" by (rule nth_mem [OF assms(2)])
  have qt: "queues u = queues t" "queue_web_state u = queue_web_state s"
    "ov_tabs u = ov_tabs s" "ov_active_web_state u = ov_active_web_state s"
    "has_presentation_context u = has_presentation_context s"
    "removed_request_awaiting_dismissal u = None \<or>
     removed_request_awaiting_dismissal u = removed_request_awaiting_dismissal s"
    using assms(6) by (auto simp: quiet_frame_def dismissal_frame_def assms(4) update_queue_def)
  have "?r \<notin> set (request_storages (queues u w))" for w
    using queues_ok_distinct [OF q, of ws] assms(2) queues_okD(1) [OF q, of ?r w] queues_okD(1) [OF q r]
    by (cases "w = ws") (auto simp: qt(1) assms(4) update_queue_def set_remove_at)
  then show "ov_inv (destroy_request ?r u)"
    using ov_inv_destroy [OF assms(5)] queues_okD(1,3) [OF q r] qt(2,6) by auto
  show "removal_frame ws i s (destroy_request ?r u)"
    using qt by (simp add: removal_frame_def destroy_request_eq assms(4) update_queue_def)
qed

lemma queue_remove_ok:
  assumes "ov_inv s" and "i < length (request_storages (queues s ws))"
  shows "\<exists>t. queue_remove U ws i s = Inr t \<and> ov_inv t \<and> removal_frame ws i s t"
proof -
  let ?r = "request_storages (queues s ws) ! i"
  let ?s1 = "update_queue ws (\<lambda>q. q\<lparr>request_storages := remove_at i (request_storages q)\<rparr>) s"
  have inv: "queues_ok s" "context_ok s" "presenter_core s" "settled_ok s" using assms(1) by (simp_all add: ov_inv_def)
  have r: "?r \<in> set (request_storages (queues s ws))" by (rule nth_mem [OF assms(2)])
  have qws: "queue_web_state s ?r = Some ws" by (rule queues_okD(1) [OF inv(1) r])
  show ?thesis
  proof (cases "presented_request s = Some ?r")
    case R: True
    have kept: "removed_request_awaiting_dismissal s \<noteq> Some ?r" by (rule queues_okD(3) [OF inv(1) r])
    then have w: "removed_request_awaiting_dismissal s = None"
      using presenter_coreD(1) [OF inv(3)] presenter_coreD(4) [OF inv(3) R] R by auto
    obtain w where "?r \<in> set (request_storages (queues s w))" "queue_delegate (queues s w) = This_presenter"
      using presenter_coreD(4) [OF inv(3) R] kept by (auto simp: request_kept_def)
    then have d: "queue_delegate (queues s ws) = This_presenter" using queues_okD(1) [OF inv(1)] qws by force
    define u where "u = ?s1\<lparr>removed_request_awaiting_dismissal := Some ?r\<rparr>"
    define t where "t = (if detached_presenting_request_queue u \<noteq> None
        then SetDelegate ws No_delegate (u\<lparr>detached_presenting_request_queue := None\<rparr>) else u)"
    note t = ov_core_taken_over [OF assms R u_def t_def]
    obtain v where v: "CancelOverlayUIForRequest U (Some ?r) t = Inr v" "quiet_frame t v" "ov_inv v"
      using CancelOverlayUIForRequest_ok [OF t(1-3), of "Some ?r" U] t(5,6) R by auto
    have "queue_remove U ws i s = Inr v"
      using assms(2) d R w v(1) unfolding t_def u_def
      by (simp add: queue_remove_def RemoveRequest_def OverlayRequestRemoved_def update_queue_def destroy_owned_def
          Let_def if_distrib [of "CancelOverlayUIForRequest U _"] cong: if_cong)
    moreover have "removal_frame ws i s v"
      using t(4) v(2) by (simp add: removal_frame_def quiet_frame_def dismissal_frame_def)
    ultimately show ?thesis using v(3) by blast
  next
    case R: False
    have inv1: "ov_inv ?s1" by (rule ov_inv_taken [OF assms R refl])
    show ?thesis
    proof (cases "queue_delegate (queues s ws) = This_presenter")
      case True
      obtain v where v: "CancelOverlayUIForRequest U (Some ?r) ?s1 = Inr v" "quiet_frame ?s1 v" "ov_inv v"
        using CancelOverlayUIForRequest_ok [of ?s1 "Some ?r" U] inv1 by (auto simp: ov_inv_def)
      have "queue_remove U ws i s = Inr (destroy_request ?r v)"
        using assms(2) R True v(1)
        by (simp add: queue_remove_def RemoveRequest_def OverlayRequestRemoved_def update_queue_def Let_def)
      then show ?thesis using destroy_after_removal [OF assms R refl v(3,2)] by blast
    next
      case False
      have "queue_remove U ws i s = Inr (destroy_request ?r ?s1)"
        using assms(2) False by (simp add: queue_remove_def RemoveRequest_def update_queue_def Let_def)
      then show ?thesis using destroy_after_removal [OF assms R refl inv1 quiet_frame_refl] by blast
    qed
  qed
qed

lemma CancelRequest_ok:
  assumes "ov_inv s"
  shows "\<exists>t. CancelRequest U ws r s = Inr t \<and> ov_inv t"
proof (cases "index_where (\<lambda>x. x = r) (request_storages (queues s ws))")
  case None
  then show ?thesis using assms by (simp add: CancelRequest_def del: index_where_None)
next
  case (Some i)
  then show ?thesis using queue_remove_ok [OF assms, of i ws U] index_where_SomeD [OF Some]
    by (auto simp: CancelRequest_def)
qed

text \<open>The loop over the whole queue ends with an empty queue.\<close>

lemma cancel_all_loop_ok:
  assumes "ov_inv s" and "length (request_storages (queues s ws)) = n"
  shows "\<exists>t. cancel_all_loop U ws n s = Inr t \<and> ov_inv t \<and> request_storages (queues t ws) = [] \<and>
    ov_tabs t = ov_tabs s \<and> ov_active_web_state t = ov_active_web_state s"
  using assms
proof (induction n arbitrary: s)
  case 0
  then show ?case by (simp add: cancel_all_loop.simps)
next
  case (Suc n)
  then obtain s1 where s1: "queue_remove U ws n s = Inr s1" "ov_inv s1" "removal_frame ws n s s1"
    using queue_remove_ok [OF Suc.prems(1), of n ws U] by auto
  then have len: "length (request_storages (queues s1 ws)) = n"
    using Suc.prems(2) by (simp add: removal_frame_def)
  obtain t where t: "cancel_all_loop U ws n s1 = Inr t" "ov_inv t" "request_storages (queues t ws) = []"
    "ov_tabs t = ov_tabs s1" "ov_active_web_state t = ov_active_web_state s1"
    using Suc.IH [OF s1(2) len] by blast
  have ne: "request_storages (queues s ws) \<noteq> []" using Suc.prems(2) by auto
  have "cancel_all_loop U ws (Suc n) s = Inr t"
    using ne Suc.prems(2) s1(1) t(1) by (subst cancel_all_loop.simps) simp
  then show ?case using t s1(3) by (auto simp: removal_frame_def)
qed

lemma CancelAllRequests_ok:
  assumes "ov_inv s"
  shows "\<exists>t. CancelAllRequests U ws s = Inr t \<and> ov_inv t \<and> request_storages (queues t ws) = [] \<and>
    ov_tabs t = ov_tabs s \<and> ov_active_web_state t = ov_active_web_state s"
  using cancel_all_loop_ok [OF assms refl] by (simp add: CancelAllRequests_def)
end
