(* ===== verification/Overlay_Tabs.thy ===== *)
theory Overlay_Tabs
  imports Overlay_Inv
begin

text \<open>
  The operations that use the dismissals of \<open>Overlay_Inv\<close>: presenting the next request,
  inserting a request, the changes of the tabs that a \<open>WebStateList\<close> announces and the changes
  of the presentation context; every admissible call keeps the invariant without a fault.
\<close>

section \<open>Presenting the next request\<close>

lemma ctx_idle_ok: "ctx_idle s \<Longrightarrow> ctx_request (ctx s) = None \<Longrightarrow> context_ok s"
  unfolding ctx_idle_def context_ok_def by (metis option.distinct(1))

lemma context_ok_idle:
  assumes "context_ok s" and "ctx_request (ctx s) = None"
  shows "ctx_idle s"
  unfolding ctx_idle_def
proof (intro conjI allI impI)
  fix r st assume st: "ui_states (ctx s) r = Some st"
  show "\<not> presentation_callback st" "queue_web_state s r \<noteq> None" by (rule context_okD [OF assms(1) st])+
  show "dismissal_callback st = None"
    using context_okD(3) [OF assms(1) st] assms(2) by (cases "dismissal_callback st") auto
qed (use assms(2) in auto)

lemma presenter_idle_core: "presenter_idle s \<Longrightarrow> ctx_request (ctx s) = None \<Longrightarrow> presenter_core s \<and> settled_ok s"
  by (simp add: presenter_idle_def presenter_core_def settled_ok_def)

lemma presenter_core_idle:
  assumes "presenter_core s" and "has_presentation_context s" and "\<not> presenting s"
  shows "presenter_idle s" and "ctx_request (ctx s) = None"
proof -
  have R: "presented_request s = None" using presenter_coreD(4) [OF assms(1)] assms(3) by (cases "presented_request s") auto
  show "presenter_idle s"
    using assms R presenter_coreD(1,5) [OF assms(1,2)] by (auto simp: presenter_idle_def presenter_core_def)
  show "ctx_request (ctx s) = None" using assms by (simp add: presenter_core_def)
qed

lemma PresentOverlay_ok:
  assumes "queues_ok s" and "context_ok s" and "presenter_core s" and "\<not> presenting s"
  shows "\<exists>t. PresentOverlayForActiveRequest U s = Inr t \<and> same_queues s t \<and> ov_inv t"
proof (cases "has_presentation_context s")
  case False
  then have "ov_inv s" using assms by (simp add: ov_inv_def presenter_core_def settled_ok_def)
  with False show ?thesis by (simp add: PresentOverlayForActiveRequest_def)
next
  case True
  note idle = presenter_core_idle [OF assms(3) True assms(4)]
  obtain t where t: "PresentOverlayForActiveRequest U s = Inr t" "same_queues s t"
    "ctx_request (ctx t) = ctx_request (ctx s) \<and> ctx_idle t \<and> presenter_idle t \<or> ov_inv t"
    using PresentOverlay_idle [OF assms(1) context_ok_idle [OF assms(2) idle(2)] idle(1)] idle(2) by auto
  have "queues_ok t" using queues_ok_cong [OF t(2)] assms(1) by simp
  then have "ov_inv t" using t(3) idle(2) ctx_idle_ok presenter_idle_core by (auto simp: ov_inv_def)
  with t show ?thesis by blast
qed

section \<open>A queue changes\<close>

lemma front_request_insert:
  "front_request (q\<lparr>request_storages := insert_at i r (request_storages q)\<rparr>) =
     (if i = 0 then Some r else if request_storages q = [] then Some r else front_request q)"
  by (cases i; cases "request_storages q") (auto simp: front_request_def)

lemma InsertRequest_core:
  assumes "ov_inv s" and "queue_web_state s r = None" and "\<not> queue_destroyed (queues s ws)"
    and "t = update_queue ws (\<lambda>q. q\<lparr>request_storages := insert_at i r (request_storages q)\<rparr>)
               (s\<lparr>queue_web_state := (queue_web_state s)(r \<mapsto> ws)\<rparr>)"
  shows "queues_ok t" and "context_ok t" and "presenter_core t"
proof -
  have inv: "queues_ok s" "context_ok s" "presenter_core s" using assms(1) by (simp_all add: ov_inv_def)
  have fresh: "r \<notin> set (request_storages (queues s w))" "r \<notin> destroyed_requests s"
    "removed_request_awaiting_dismissal s \<noteq> Some r" for w
    using inv(1) assms(2) unfolding queues_ok_def by force+
  have ui: "ui_states (ctx s) r = None"
    using context_okD(2) [OF inv(2), of r] assms(2) by (cases "ui_states (ctx s) r") auto
  have cr: "ctx_request (ctx s) \<noteq> Some r"
    using ui by (auto elim: context_ok_requestE [OF inv(2), of r])
  show "queues_ok t"
    using inv(1) fresh assms(2,3) unfolding queues_ok_def assms(4) update_queue_def by auto
  show "context_ok t"
    using inv(2) ui unfolding context_ok_def assms(4) update_queue_def by auto
  have kept: "request_kept t p" if "request_kept s p" for p
    using that unfolding request_kept_def assms(4) update_queue_def by auto
  have qw: "queue_web_state t p = queue_web_state s p" if "ctx_request (ctx s) = Some p" for p
    using that cr by (auto simp: assms(4) update_queue_def)
  have out: "x \<notin> set (request_storages (queues t w))"
    if "x \<notin> set (request_storages (queues s w))" "ctx_request (ctx s) = Some x" for x w
    using that cr by (auto simp: assms(4) update_queue_def)
  have f: "same_presenter s t" "ov_tabs t = ov_tabs s"
    "removed_request_awaiting_dismissal t = removed_request_awaiting_dismissal s"
    "has_presentation_context t = has_presentation_context s"
    by (simp_all add: assms(4) same_presenter_def update_queue_def)
  have D: "detached_presenting_request_queue s = Some w \<Longrightarrow> has_presentation_context s \<Longrightarrow>
      \<exists>p. presented_request s = Some p \<and> queue_web_state t p = Some w" for w
    using presenter_coreD(3,5) [OF inv(3)] presenter_coreD(4) [OF inv(3)] qw
    by (cases "presented_request s") force+
  show "presenter_core t"
    using inv(3) kept out f D unfolding presenter_core_def same_presenter_def by auto
qed

lemma InsertRequest_ok:
  assumes "ov_inv s" and "ov_ok s (Ov_InsertRequest ws i r)"
  shows "\<exists>t. InsertRequest U ws i r s = Inr t \<and> ov_inv t"
proof -
  define t where "t = update_queue ws (\<lambda>q. q\<lparr>request_storages := insert_at i r (request_storages q)\<rparr>)
               (s\<lparr>queue_web_state := (queue_web_state s)(r \<mapsto> ws)\<rparr>)"
  have core: "queues_ok t" "context_ok t" "presenter_core t"
    using InsertRequest_core [OF assms(1) _ _ t_def] assms(2) by simp_all
  have run: "InsertRequest U ws i r s = (if queue_observed (queues t ws) then RequestAddedToQueue U ws r t else Inr t)"
    using assms(2) by (simp add: InsertRequest_def t_def Let_def)
  have sel: "presented_request t = presented_request s" "ctx t = ctx s" "presenting t = presenting s"
    "ov_active_web_state t = ov_active_web_state s"
    by (simp_all add: t_def update_queue_def)
  have settled: "ov_inv t" if a: "GetActiveRequest t \<noteq> Some r \<or> (\<forall>p. presented_request t = Some p \<longrightarrow> \<not> settled t p)"
  proof -
    have "GetActiveRequest t = Some p" if p: "presented_request t = Some p" "settled t p" for p
    proof -
      have "GetActiveRequest s = Some p"
        using assms(1) p sel by (simp add: ov_inv_def settled_ok_def settled_def)
      then obtain w where w: "ov_active_web_state s = Some w" "front_request (queues s w) = Some p"
        by (rule GetActiveRequest_SomeE)
      have ne: "request_storages (queues s w) \<noteq> []" using w(2) by (auto simp: front_request_def)
      have "GetActiveRequest t \<noteq> Some r" using a p by blast
      then show ?thesis using w ne
        by (auto simp: GetActiveRequest_def GetFrontRequestForWebState_def t_def update_queue_def
            front_request_insert split: if_splits)
    qed
    then have "settled_ok t" by (simp add: settled_ok_def)
    with core show ?thesis by (simp add: ov_inv_def)
  qed
  show ?thesis
  proof (cases "queue_observed (queues t ws) \<and> GetActiveRequest t = Some r")
    case False
    have "GetActiveRequest t \<noteq> Some r"
    proof
      assume a: "GetActiveRequest t = Some r"
      then obtain w where w: "r \<in> set (request_storages (queues t w))" "w \<in> set (ov_tabs t)"
        using queues_ok_active [OF core(1)] by metis
      have "w = ws" using queues_okD(1) [OF core(1) w(1)] by (simp add: t_def update_queue_def)
      then show False using core(1) w(2) False a unfolding queues_ok_def by blast
    qed
    then show ?thesis using run settled False by (auto simp: RequestAddedToQueue_def)
  next
    case True
    show ?thesis
    proof (cases "presenting t")
      case False
      then show ?thesis using PresentOverlay_ok [OF core False] run True by (auto simp: RequestAddedToQueue_def)
    next
      case P: True
      show ?thesis
      proof (cases "presented_request t")
        case None
        then show ?thesis using run True P settled by (auto simp: RequestAddedToQueue_def)
      next
        case (Some p)
        have c: "ctx_request (ctx t) = Some p" "has_presentation_context t"
          using presenter_coreD(4) [OF core(3) Some] by blast+
        obtain h where h: "HideOverlayUI U p t = Inr h" "ov_inv h"
          using HideOverlayUI_ok [OF core c(1), of U] by blast
        have second: "\<not> settled t p" if n: "\<not> (1 < length (request_storages (queues t ws)) \<and> request_storages (queues t ws) ! 1 = p)"
        proof
          assume "settled t p"
          then have "GetActiveRequest s = Some p"
            using assms(1) Some sel by (simp add: ov_inv_def settled_ok_def settled_def)
          then obtain w where w: "ov_active_web_state s = Some w" "front_request (queues s w) = Some p"
            by (rule GetActiveRequest_SomeE)
          obtain w' where "ov_active_web_state t = Some w'" "front_request (queues t w') = Some r"
            using True by (auto elim: GetActiveRequest_SomeE)
          then have r: "front_request (queues t w) = Some r" using sel w(1) by simp
          then have "r \<in> set (request_storages (queues t w))" by (rule front_request_in)
          then have "queue_web_state t r = Some w" by (rule queues_okD(1) [OF core(1)])
          then have [simp]: "w = ws" by (simp add: t_def update_queue_def)
          obtain rs where rs: "request_storages (queues s ws) = p # rs"
            using w(2) by (auto simp: front_request_def split: list.splits)
          have "p \<noteq> r" using queues_okD(1) [of s p ws] rs assms by (auto simp: ov_inv_def)
          then have "i = 0" using r rs by (cases i) (auto simp: t_def update_queue_def front_request_def)
          then show False using n rs by (simp add: t_def update_queue_def)
        qed
        show ?thesis
        proof (cases "1 < length (request_storages (queues t ws)) \<and> request_storages (queues t ws) ! 1 = p")
          case True
          then show ?thesis using run \<open>queue_observed (queues t ws) \<and> GetActiveRequest t = Some r\<close> P Some c h
            by (simp add: RequestAddedToQueue_def GetRequest_def)
        next
          case False
          then show ?thesis using run \<open>queue_observed (queues t ws) \<and> GetActiveRequest t = Some r\<close> P Some
              settled second [OF False] by (auto simp: RequestAddedToQueue_def GetRequest_def)
        qed
      qed
    qed
  qed
qed

section \<open>The tabs change\<close>

text \<open>\<open>retabbed s t\<close>: \<open>t\<close> differs from \<open>s\<close> only in the tabs, their delegates and observers and
  in UI states that are not shown, and the new tabs are looked after.\<close>

definition same_requests :: "overlays \<Rightarrow> overlays \<Rightarrow> bool" where
  "same_requests s t \<longleftrightarrow> queue_web_state t = queue_web_state s \<and> destroyed_requests t = destroyed_requests s \<and>
     removed_request_awaiting_dismissal t = removed_request_awaiting_dismissal s \<and>
     has_presentation_context t = has_presentation_context s \<and> presenting t = presenting s \<and>
     presented_request t = presented_request s \<and>
     detached_queue_replaced_delegate t = detached_queue_replaced_delegate s \<and>
     ctx_request (ctx t) = ctx_request (ctx s) \<and>
     (\<forall>w. request_storages (queues t w) = request_storages (queues s w) \<and>
        queue_destroyed (queues t w) = queue_destroyed (queues s w)) \<and>
     (\<forall>x. ui_states (ctx t) x = ui_states (ctx s) x \<or>
        ui_states (ctx t) x = None \<and> ctx_request (ctx s) \<noteq> Some x)"

definition tabs_kept :: "overlays \<Rightarrow> overlays \<Rightarrow> bool" where
  "tabs_kept s t \<longleftrightarrow> distinct (ov_tabs t) \<and>
     (\<forall>w \<in> set (ov_tabs t). queue_observed (queues t w) \<and> queue_delegate (queues t w) = This_presenter \<and>
        \<not> queue_destroyed (queues t w) \<and> (has_presentation_context s \<longrightarrow> \<not> still_leaving t w)) \<and>
     (\<forall>w. w \<notin> set (ov_tabs t) \<longrightarrow> \<not> queue_observed (queues t w)) \<and>
     (\<forall>w r. presented_request s = Some r \<longrightarrow> queue_web_state s r = Some w \<longrightarrow>
        queue_delegate (queues s w) = This_presenter \<longrightarrow> queue_delegate (queues t w) = This_presenter) \<and>
     (\<forall>w. detached_presenting_request_queue t = Some w \<longrightarrow> has_presentation_context s \<longrightarrow>
        (\<exists>r. presented_request s = Some r \<and> queue_web_state s r = Some w))"

definition active_is_tab :: "overlays \<Rightarrow> bool" where
  "active_is_tab s \<longleftrightarrow> (\<forall>w. ov_active_web_state s = Some w \<longrightarrow> w \<in> set (ov_tabs s))"

lemma retabbed_core:
  assumes "ov_inv s" and "same_requests s t" and "tabs_kept s t" and "active_is_tab t"
  shows "queues_ok t" and "context_ok t" and "presenter_core t"
proof -
  have inv: "queues_ok s" "context_ok s" "presenter_core s" using assms(1) by (simp_all add: ov_inv_def)
  note sr = assms(2) [unfolded same_requests_def] and tk = assms(3) [unfolded tabs_kept_def]
  show "queues_ok t" unfolding queues_ok_def
    using inv(1) [unfolded queues_ok_def] sr tk assms(4) [unfolded active_is_tab_def] by simp
  have ui: "ui_states (ctx s) x = Some st" if "ui_states (ctx t) x = Some st" for x st
    using sr that by (metis option.distinct(1))
  have ui_req: "ui_states (ctx t) x = ui_states (ctx s) x" if "ctx_request (ctx s) = Some x" for x
    using sr that by metis
  show "context_ok t" unfolding context_ok_def
  proof (intro conjI allI impI)
    fix x st assume x: "ui_states (ctx t) x = Some st"
    show "\<not> presentation_callback st" by (rule context_okD(1) [OF inv(2) ui [OF x]])
    show "queue_web_state t x \<noteq> None" using context_okD(2) [OF inv(2) ui [OF x]] sr by simp
    fix w assume "dismissal_callback st = Some w"
    then show "ctx_request (ctx t) = Some x" "queue_web_state t x = Some w"
      using context_okD(3,4) [OF inv(2) ui [OF x]] sr by simp_all
  next
    fix x assume "ctx_request (ctx t) = Some x"
    then have x: "ctx_request (ctx s) = Some x" using sr by simp
    obtain st co ws where "ui_states (ctx s) x = Some st" "dismissal_callback st = Some ws" "coordinator st = Some co"
      by (rule context_ok_requestE [OF inv(2) x])
    then show "\<exists>st. ui_states (ctx t) x = Some st \<and> has_callback st \<and> coordinator st \<noteq> None"
      using ui_req [OF x] by (simp add: has_callback_def)
  qed
  have kept: "request_kept t p" if p: "presented_request s = Some p" for p
  proof -
    consider "removed_request_awaiting_dismissal s = Some p"
      | w where "p \<in> set (request_storages (queues s w))" "queue_delegate (queues s w) = This_presenter"
      using presenter_coreD(4) [OF inv(3) p] by (auto simp: request_kept_def)
    then show ?thesis
    proof cases
      case 1
      then show ?thesis using sr by (simp add: request_kept_def)
    next
      case (2 w)
      then have "queue_delegate (queues t w) = This_presenter"
        using tk p queues_okD(1) [OF inv(1) 2(1)] by blast
      then show ?thesis using 2(1) sr by (auto simp: request_kept_def)
    qed
  qed
  have leave: "detached_presenting_request_queue t \<noteq> Some w"
    "detached_queue_replaced_delegate s \<Longrightarrow> ctx_request (ctx s) = Some r \<Longrightarrow> r \<notin> set (request_storages (queues t w))"
    if "w \<in> set (ov_tabs t)" "has_presentation_context s" for w r
    using tk that sr by (auto simp: still_leaving_def)
  show "presenter_core t"
  proof (cases "has_presentation_context s")
    case False
    then show ?thesis using inv(3) sr by (simp add: presenter_core_def)
  next
    case True
    have W: "removed_request_awaiting_dismissal s = Some r \<Longrightarrow> presented_request s = Some r" for r
      using presenter_coreD(1) [OF inv(3) True] by auto
    have "(if detached_queue_replaced_delegate s then presenting s \<and> presented_request s = None
        else presented_request s = ctx_request (ctx s)) \<and> presenting s = (ctx_request (ctx s) \<noteq> None)"
      using inv(3) True by (auto simp: presenter_core_def split: if_splits)
    then show ?thesis
      using sr tk kept leave W True by (auto simp: presenter_core_def)
  qed
qed

lemma settled_same:
  assumes "same_requests s t" and "presented_request s = Some r" and "presenter_core s"
  shows "settled t r = settled s r"
proof -
  have "ctx_request (ctx s) = Some r" using presenter_coreD(4) [OF assms(3,2)] by blast
  then have "ui_states (ctx t) r = ui_states (ctx s) r" using assms(1) by (metis same_requests_def)
  then show ?thesis by (simp add: settled_def)
qed

lemma GetFront_same: "same_requests s t \<Longrightarrow> GetFrontRequestForWebState t w = GetFrontRequestForWebState s w"
  by (cases w) (simp_all add: GetFrontRequestForWebState_def same_requests_def front_request_def)

lemma GetActive_same:
  "same_requests s t \<Longrightarrow> ov_active_web_state t = ov_active_web_state s \<Longrightarrow> GetActiveRequest t = GetActiveRequest s"
  by (simp add: GetActiveRequest_def GetFront_same)

lemma retabbed_inv:
  assumes "ov_inv s" and "same_requests s t" and "tabs_kept s t" and "active_is_tab t"
    and "ov_active_web_state t = ov_active_web_state s"
  shows "ov_inv t"
proof -
  have core: "presenter_core s" "settled_ok s" using assms(1) by (simp_all add: ov_inv_def)
  have "presented_request t = presented_request s" using assms(2) by (simp add: same_requests_def)
  then have "settled_ok t"
    using core(2) settled_same [OF assms(2) _ core(1)] GetActive_same [OF assms(2,5)] by (simp add: settled_ok_def)
  with retabbed_core [OF assms(1-4)] show ?thesis by (simp add: ov_inv_def)
qed

text \<open>The active tab changes after the tabs have changed.\<close>

lemma SetActiveWebState_ok:
  assumes "ov_inv s" and "may_switch s" and "same_requests s t" and "tabs_kept s t"
    and "ov_active_web_state t = ov_active_web_state s" and "ov_active_web_state t \<noteq> next"
    and "\<And>w. next = Some w \<Longrightarrow> w \<in> set (ov_tabs t)"
  shows "\<exists>u. SetActiveWebState U next reason t = Inr u \<and> ov_inv u"
proof -
  define t1 where "t1 = t\<lparr>ov_active_web_state := next, detaching_presenting_web_state := False\<rparr>"
  have same: "same_requests s t1" "tabs_kept s t1" "active_is_tab t1"
    using assms(3,4,7)
    by (simp_all add: t1_def same_requests_def tabs_kept_def still_leaving_def active_is_tab_def cong: option.case_cong)
  note core = retabbed_core [OF assms(1) same]
  have pcore: "presenter_core s" "settled_ok s" using assms(1) by (simp_all add: ov_inv_def)
  have sel: "has_presentation_context t1 = has_presentation_context s" "presenting t1 = presenting s"
    "presented_request t1 = presented_request s" "ctx_request (ctx t1) = ctx_request (ctx s)"
    "removed_request_awaiting_dismissal t = removed_request_awaiting_dismissal s"
    using same(1) assms(3) by (simp_all add: same_requests_def)
  define p where "p = (if removed_request_awaiting_dismissal s \<noteq> None
      then removed_request_awaiting_dismissal s else GetActiveRequest s)"
  have run: "SetActiveWebState U next reason t =
      (if \<not> has_presentation_context t1 then Inr t1
       else if \<not> presenting t1 then PresentOverlayForActiveRequest U t1
       else case p of
         None \<Rightarrow> Inr t1
       | Some p \<Rightarrow> if reason = Replaced \<or> detaching_presenting_web_state t then CancelOverlayUIForRequest U (Some p) t1
                   else HideOverlayUI U p t1)"
    using assms(6) GetActive_same [OF assms(3,5)] sel(5)
    by (simp add: SetActiveWebState_def Let_def p_def flip: t1_def)
  consider "\<not> has_presentation_context s" | "has_presentation_context s" "\<not> presenting s"
    | "has_presentation_context s" "presenting s" "p = None"
    | r where "has_presentation_context s" "presenting s" "p = Some r"
    by (cases p) auto
  then show ?thesis
  proof cases
    case 1
    then have "settled_ok t1" using core(3) sel by (simp add: settled_ok_def presenter_core_def)
    with core 1 run sel(1) show ?thesis by (simp add: ov_inv_def)
  next
    case 2
    then show ?thesis using PresentOverlay_ok [OF core, of U] run sel
      by auto
  next
    case 3
    then have n: "GetActiveRequest s = None" by (auto simp: p_def split: if_splits)
    have "settled_ok t1" unfolding settled_ok_def
    proof (intro allI impI)
      fix r assume r: "presented_request t1 = Some r" "settled t1 r"
      then have "presented_request s = Some r" using sel(3) by simp
      then show "GetActiveRequest t1 = Some r"
        using settled_same [OF same(1) _ pcore(1)] r(2) pcore(2) n by (auto simp: settled_ok_def)
    qed
    with core 3 run sel show ?thesis by (simp add: ov_inv_def)
  next
    case (4 r)
    have "presented_request s = Some r"
    proof (cases "removed_request_awaiting_dismissal s")
      case None
      then show ?thesis using assms(2) 4 by (auto simp: may_switch_def p_def)
    next
      case (Some x)
      then have "p = removed_request_awaiting_dismissal s" by (simp add: p_def)
      then show ?thesis using presenter_coreD(1) [OF pcore(1) 4(1)] 4(3) by auto
    qed
    then have cr: "ctx_request (ctx t1) = Some r" using presenter_coreD(4) [OF pcore(1)] sel(4) by simp
    obtain u where "CancelOverlayUIForRequest U (Some r) t1 = Inr u" "ov_inv u"
      using CancelOverlayUIForRequest_ok [OF core, of "Some r" U] cr 4(1) sel(1) by auto
    moreover obtain v where "HideOverlayUI U r t1 = Inr v" "ov_inv v"
      using HideOverlayUI_ok [OF core cr, of U] by blast
    ultimately show ?thesis using run 4 sel by auto
  qed
qed

lemma same_requests_queue:
  assumes "same_requests s t" and "\<And>q. request_storages (f q) = request_storages q"
    and "\<And>q. queue_destroyed (f q) = queue_destroyed q"
  shows "same_requests s (update_queue ws f t)"
  using assms unfolding same_requests_def update_queue_def by simp

lemma same_requests_erase:
  assumes "same_requests s t" and "ctx_request (ctx s) \<noteq> Some f"
  shows "same_requests s (erase_state f t)"
  using assms unfolding same_requests_def erase_state_def by simp

text \<open>A tab leaves the browser; it is still in the list.\<close>

lemma WebStateRemovedFromBrowser_ok:
  assumes "ov_inv s" and "same_requests s t" and "\<And>w. queue_delegate (queues t w) = queue_delegate (queues s w)"
    and "detached_presenting_request_queue t = detached_presenting_request_queue s"
    and "ws \<in> set (ov_tabs s)"
  shows "\<exists>u. WebStateRemovedFromBrowser U ws t = Inr u \<and> same_requests s u \<and>
    ov_tabs u = ov_tabs t \<and> ov_active_web_state u = ov_active_web_state t \<and>
    detaching_presenting_web_state u = detaching_presenting_web_state t \<and>
    (\<forall>w. queue_observed (queues u w) = (w \<noteq> ws \<and> queue_observed (queues t w))) \<and>
    (\<forall>w. w \<noteq> ws \<longrightarrow> queue_delegate (queues u w) = queue_delegate (queues s w)) \<and>
    (presented_for s ws \<longrightarrow> queue_delegate (queues u ws) = queue_delegate (queues s ws)) \<and>
    detached_presenting_request_queue u =
      (if presented_for s ws then Some ws else detached_presenting_request_queue s)"
proof -
  have inv: "queues_ok s" "context_ok s" "presenter_core s" using assms(1) by (simp_all add: ov_inv_def)
  note sr = assms(2) [unfolded same_requests_def]
  define s1 where "s1 = update_queue ws (\<lambda>q. q\<lparr>queue_observed := False\<rparr>) t"
  have pf: "presented_for s1 ws = presented_for s ws"
    using sr by (auto simp: presented_for_def s1_def update_queue_def split: option.split)
  show ?thesis
  proof (cases "presented_for s ws")
    case True
    then have "WebStateRemovedFromBrowser U ws t = Inr (s1\<lparr>detached_presenting_request_queue := Some ws\<rparr>)"
      using pf by (simp add: WebStateRemovedFromBrowser_def s1_def Let_def)
    then show ?thesis using True sr assms(3) by (auto simp: s1_def update_queue_def same_requests_def)
  next
    case False
    define s2 where "s2 = SetDelegate ws No_delegate s1"
    have front: "presented_request s \<noteq> Some r" if "front_request (queues s ws) = Some r" for r
      using queues_okD(1) [OF inv(1) front_request_in [OF that]] False by (auto simp: presented_for_def)
    have "OverlayRequestQueueWillReplaceDelegate ws s1 = s1"
      using front sr by (auto simp: OverlayRequestQueueWillReplaceDelegate_def s1_def update_queue_def front_request_def
          split: option.split)
    then have s2: "s2 = s1 \<or> s2 = update_queue ws (\<lambda>q. q\<lparr>queue_delegate := No_delegate\<rparr>) s1"
      by (simp add: s2_def SetDelegate_def)
    then have same2: "same_requests s s2"
      using same_requests_queue [OF assms(2)] same_requests_queue [OF same_requests_queue [OF assms(2)]]
      by (elim disjE) (simp_all add: s1_def)
    from s2 have sel: "presented_request s2 = presented_request s" "queue_web_state s2 = queue_web_state s"
      "request_storages (queues s2 ws) = request_storages (queues s ws)" "ctx s2 = ctx t"
      "has_presentation_context s2 = has_presentation_context s"
      using sr by (elim disjE; simp add: s1_def update_queue_def)+
    then have pf2: "presented_for s2 ws = presented_for s ws"
      and fr2: "front_request (queues s2 ws) = front_request (queues s ws)"
      by (simp_all only: presented_for_def front_request_def)
    note c2 = sel(4,5)
    have run: "WebStateRemovedFromBrowser U ws t = CancelOverlayUIForRequest U (front_request (queues s ws)) s2"
      using False pf pf2 fr2
      by (simp add: WebStateRemovedFromBrowser_def s1_def [symmetric] s2_def [symmetric] GetFrontRequestForWebState_def Let_def)
    have gone: "CancelOverlayUIForRequest U (front_request (queues s ws)) s2 = Inr s2 \<or>
      (\<exists>f. CancelOverlayUIForRequest U (front_request (queues s ws)) s2 = Inr (erase_state f s2) \<and> ctx_request (ctx s) \<noteq> Some f)"
    proof (cases "front_request (queues s ws) = None \<or> \<not> has_presentation_context s")
      case True
      then show ?thesis using c2(2) by (auto simp: CancelOverlayUIForRequest_def split: option.split)
    next
      case has: False
      then obtain f where f: "front_request (queues s ws) = Some f" by auto
      have nf: "ctx_request (ctx s) \<noteq> Some f"
      proof
        assume c: "ctx_request (ctx s) = Some f"
        have "\<not> detached_queue_replaced_delegate s"
          using inv(3) has c front_request_in [OF f] assms(5) by (auto simp: presenter_core_def)
        then show False using inv(3) has c front [OF f] by (auto simp: presenter_core_def)
      qed
      have "\<not> has_callback st" if st: "ui_states (ctx s2) f = Some st" for st
      proof -
        have "ui_states (ctx s) f = Some st" using st c2(1) sr by (metis option.distinct(1))
        then show ?thesis using context_okD(3) [OF inv(2)] nf
          by (cases "dismissal_callback st") (auto simp: has_callback_def)
      qed
      then show ?thesis using f has c2(2) nf
        by (cases "ui_states (ctx s2) f") (auto simp: CancelOverlayUIForRequest_def CancelOverlayUI_def)
    qed
    then show ?thesis
    proof (elim disjE exE conjE)
      assume "CancelOverlayUIForRequest U (front_request (queues s ws)) s2 = Inr s2"
      then show ?thesis using run s2 same2 False assms(3,4)
        by (auto simp: s1_def update_queue_def split: if_splits)
    next
      fix f assume "CancelOverlayUIForRequest U (front_request (queues s ws)) s2 = Inr (erase_state f s2)"
        "ctx_request (ctx s) \<noteq> Some f"
      with same_requests_erase [OF same2] show ?thesis using run s2 False assms(3,4)
        by (auto simp: s1_def update_queue_def erase_state_def split: if_splits)
    qed
  qed
qed

text \<open>Every change of the tabs that \<open>tab_change_ok\<close> allows.\<close>

lemma same_requests_refl [simp]: "same_requests s s"
  by (simp add: same_requests_def)

lemma same_requests_tabs [simp]: "same_requests s (t\<lparr>ov_tabs := ts\<rparr>) = same_requests s t"
  by (simp add: same_requests_def)

lemma same_requests_detaching [simp]: "same_requests s (t\<lparr>detaching_presenting_web_state := b\<rparr>) = same_requests s t"
  by (simp add: same_requests_def)

lemma SetDelegate_This:
  "SetDelegate ws This_presenter t = update_queue ws (\<lambda>q. q\<lparr>queue_delegate := This_presenter\<rparr>) t"
proof (cases "queue_delegate (queues t ws) = This_presenter")
  case True
  then have "(queues t ws)\<lparr>queue_delegate := This_presenter\<rparr> = queues t ws" by simp
  then have "(queues t)(ws := (queues t ws)\<lparr>queue_delegate := This_presenter\<rparr>) = queues t" by (simp only: fun_upd_triv)
  with True show ?thesis by (simp add: SetDelegate_def update_queue_def)
qed (simp add: SetDelegate_def)

lemma same_requests_added: "same_requests s t \<Longrightarrow> same_requests s (WebStateAddedToBrowser ws t)"
  by (auto simp: same_requests_def WebStateAddedToBrowser_def SetDelegate_This update_queue_def)

lemma WebStateAdded_sel:
  "ov_tabs (WebStateAddedToBrowser ws t) = ov_tabs t"
  "ov_active_web_state (WebStateAddedToBrowser ws t) = ov_active_web_state t"
  "detached_presenting_request_queue (WebStateAddedToBrowser ws t) = detached_presenting_request_queue t"
  "detached_queue_replaced_delegate (WebStateAddedToBrowser ws t) = detached_queue_replaced_delegate t"
  "ctx (WebStateAddedToBrowser ws t) = ctx t"
  "request_storages (queues (WebStateAddedToBrowser ws t) w) = request_storages (queues t w)"
  "queue_destroyed (queues (WebStateAddedToBrowser ws t) w) = queue_destroyed (queues t w)"
  "queue_observed (queues (WebStateAddedToBrowser ws t) w) = (w = ws \<or> queue_observed (queues t w))"
  "queue_delegate (queues (WebStateAddedToBrowser ws t) w) = (if w = ws then This_presenter else queue_delegate (queues t w))"
  by (auto simp: WebStateAddedToBrowser_def SetDelegate_This update_queue_def)

lemma not_leaving_tab:
  assumes "ov_inv s" and "ws \<in> set (ov_tabs s)" and "has_presentation_context s"
  shows "\<not> still_leaving s ws"
proof -
  have "presenter_core s" using assms(1) by (simp add: ov_inv_def)
  then show ?thesis using presenter_coreD(2) [OF _ assms(3,2)] assms(2,3)
    by (auto simp: still_leaving_def presenter_core_def split: option.splits)
qed

lemma queues_ok_tabs:
  assumes "queues_ok s"
  shows "distinct (ov_tabs s)"
    and "w \<in> set (ov_tabs s) \<Longrightarrow> queue_observed (queues s w)"
    and "w \<in> set (ov_tabs s) \<Longrightarrow> queue_delegate (queues s w) = This_presenter"
    and "w \<in> set (ov_tabs s) \<Longrightarrow> \<not> queue_destroyed (queues s w)"
    and "w \<notin> set (ov_tabs s) \<Longrightarrow> \<not> queue_observed (queues s w)"
    and "ov_active_web_state s = Some w \<Longrightarrow> w \<in> set (ov_tabs s)"
  using assms unfolding queues_ok_def by blast+

lemma detached_queue:
  assumes "ov_inv s" and "detached_presenting_request_queue s = Some w" and "has_presentation_context s"
  shows "\<exists>r. presented_request s = Some r \<and> queue_web_state s r = Some w"
proof -
  have c: "presenter_core s" using assms(1) by (simp add: ov_inv_def)
  show ?thesis
  proof (cases "presented_request s")
    case None
    then show ?thesis using presenter_coreD(5) [OF c assms(3)] assms(2) by simp
  next
    case (Some r)
    then show ?thesis using presenter_coreD(3) [OF c assms(3) Some] assms(2) by simp
  qed
qed

lemma still_leaving_cong:
  assumes "same_requests s t" and "detached_presenting_request_queue t = detached_presenting_request_queue s"
  shows "still_leaving t w = still_leaving s w"
  using assms unfolding same_requests_def still_leaving_def by (simp split: option.split)

lemma set_move: "distinct xs \<Longrightarrow> i < length xs \<Longrightarrow> set (insert_at j (xs ! i) (remove_at i xs)) = set xs"
  by (auto simp: set_remove_at)

lemma tabs_keptI:
  assumes "ov_inv s" and "same_requests s t" and "distinct (ov_tabs t)"
    and new: "\<And>w. w \<in> set (ov_tabs t) \<Longrightarrow>
      w \<in> set (ov_tabs s) \<or> \<not> queue_destroyed (queues s w) \<and> \<not> still_leaving s w"
    and obs: "\<And>w. queue_observed (queues t w) = (w \<in> set (ov_tabs t))"
    and del: "\<And>w. w \<in> set (ov_tabs t) \<Longrightarrow> queue_delegate (queues t w) = This_presenter"
    and old: "\<And>w. queue_delegate (queues t w) = queue_delegate (queues s w) \<or>
      queue_delegate (queues t w) = This_presenter \<or> \<not> presented_for s w"
    and D: "detached_presenting_request_queue t = detached_presenting_request_queue s \<or>
      (\<exists>w. detached_presenting_request_queue t = Some w \<and> presented_for s w \<and> w \<notin> set (ov_tabs t))"
  shows "tabs_kept s t"
proof -
  have q: "queues_ok s" using assms(1) by (simp add: ov_inv_def)
  note sr = assms(2) [unfolded same_requests_def]
  have "\<not> queue_destroyed (queues t w)" if "w \<in> set (ov_tabs t)" for w
    using new [OF that] queues_ok_tabs(4) [OF q] sr by auto
  moreover have "\<not> still_leaving t w" if w: "w \<in> set (ov_tabs t)" and has: "has_presentation_context s" for w
  proof -
    have n: "\<not> still_leaving s w" using new [OF w] not_leaving_tab [OF assms(1) _ has] by blast
    show ?thesis using D
    proof
      assume "detached_presenting_request_queue t = detached_presenting_request_queue s"
      with n still_leaving_cong [OF assms(2)] show ?thesis by simp
    next
      assume "\<exists>w. detached_presenting_request_queue t = Some w \<and> presented_for s w \<and> w \<notin> set (ov_tabs t)"
      then show ?thesis using n w sr unfolding still_leaving_def by (auto split: option.splits)
    qed
  qed
  moreover have "\<exists>r. presented_request s = Some r \<and> queue_web_state s r = Some w"
    if w: "detached_presenting_request_queue t = Some w" and has: "has_presentation_context s" for w
    using D
  proof
    assume "detached_presenting_request_queue t = detached_presenting_request_queue s"
    then show ?thesis using detached_queue [OF assms(1) _ has, of w] w by simp
  next
    assume "\<exists>w. detached_presenting_request_queue t = Some w \<and> presented_for s w \<and> w \<notin> set (ov_tabs t)"
    then show ?thesis using w by (auto simp: presented_for_def split: option.splits)
  qed
  moreover have "queue_delegate (queues t w) = This_presenter"
    if "presented_request s = Some r" "queue_web_state s r = Some w" "queue_delegate (queues s w) = This_presenter" for w r
    using old [of w] that by (auto simp: presented_for_def)
  ultimately show ?thesis using assms(3) obs del unfolding tabs_kept_def by blast
qed

lemma tab_inserted_ok:
  assumes "ov_inv s" and "tab_change_ok s (Tab_inserted w i activating)"
  shows "\<exists>u. orun (observe_tabs U) s (tab_events (ov_active_web_state s) (Tab_inserted w i activating)) = Inr u \<and> ov_inv u"
proof -
  have q: "queues_ok s" using assms(1) by (simp add: ov_inv_def)
  define t where "t = WebStateAddedToBrowser w (s\<lparr>ov_tabs := insert_at i w (ov_tabs s)\<rparr>)"
  have same: "same_requests s t" unfolding t_def by (rule same_requests_added) simp
  have kept: "tabs_kept s t"
    using assms(2) queues_ok_tabs [OF q] not_leaving_tab [OF assms(1)] detached_queue [OF assms(1)]
      still_leaving_cong [OF same]
    unfolding tabs_kept_def by (auto simp: t_def WebStateAdded_sel)
  have act: "ov_active_web_state t = ov_active_web_state s" by (simp add: t_def WebStateAdded_sel)
  have tabs: "active_is_tab t" using queues_ok_tabs(6) [OF q] by (auto simp: active_is_tab_def t_def WebStateAdded_sel)
  have first: "observe_tabs U s (WebStateInsertedAt w (int i) activating) = Inr t"
    by (simp add: observe_tabs_def t_def)
  show ?thesis
  proof (cases activating)
    case False
    then show ?thesis using first retabbed_inv [OF assms(1) same kept tabs act] by simp
  next
    case True
    have "ov_active_web_state t \<noteq> Some w" using act queues_ok_tabs(6) [OF q] assms(2) by auto
    then obtain u where "SetActiveWebState U (Some w) Inserted t = Inr u" "ov_inv u"
      using SetActiveWebState_ok [OF assms(1) _ same kept act, of "Some w" U Inserted] assms(2) True
      by (auto simp: t_def WebStateAdded_sel)
    moreover have "t\<lparr>ov_tabs := ov_tabs t\<rparr> = t" by simp
    ultimately show ?thesis using first True by (simp add: observe_tabs_def)
  qed
qed

lemma tab_replaced_ok:
  assumes "ov_inv s" and "tab_change_ok s (Tab_replaced old new i)"
  shows "\<exists>u. orun (observe_tabs U) s (tab_events (ov_active_web_state s) (Tab_replaced old new i)) = Inr u \<and> ov_inv u"
proof -
  have q: "queues_ok s" and c: "presenter_core s" using assms(1) by (simp_all add: ov_inv_def)
  have ok: "i < length (ov_tabs s)" "ov_tabs s ! i = old" "new \<notin> set (ov_tabs s)" "\<not> queue_destroyed (queues s new)"
    "\<not> still_leaving s new" "ov_active_web_state s = Some old \<Longrightarrow> may_switch s" using assms(2) by simp_all
  have old: "old \<in> set (ov_tabs s)" using ok(1,2) by auto
  define t0 where "t0 = s\<lparr>ov_tabs := (ov_tabs s)[i := new]\<rparr>"
  obtain u where u: "WebStateRemovedFromBrowser U old t0 = Inr u" "same_requests s u"
    "ov_tabs u = ov_tabs t0" "ov_active_web_state u = ov_active_web_state t0"
    "\<forall>w. queue_observed (queues u w) = (w \<noteq> old \<and> queue_observed (queues t0 w))"
    "\<forall>w. w \<noteq> old \<longrightarrow> queue_delegate (queues u w) = queue_delegate (queues s w)"
    "presented_for s old \<longrightarrow> queue_delegate (queues u old) = queue_delegate (queues s old)"
    "detached_presenting_request_queue u =
      (if presented_for s old then Some old else detached_presenting_request_queue s)"
    using WebStateRemovedFromBrowser_ok [OF assms(1) _ _ _ old, of t0 U] by (auto simp: t0_def)
  define t where "t = WebStateAddedToBrowser new u"
  have same: "same_requests s t" unfolding t_def by (rule same_requests_added [OF u(2)])
  have tabs: "ov_tabs t = (ov_tabs s)[i := new]" "ov_active_web_state t = ov_active_web_state s"
    using u(3,4) by (simp_all add: t_def WebStateAdded_sel t0_def)
  have set_tabs: "set (ov_tabs t) = insert new (set (ov_tabs s) - {old})"
    using queues_ok_tabs(1) [OF q] ok(1,2) tabs(1) by (simp add: set_update_distinct)
  have dist: "distinct (ov_tabs t)" using queues_ok_tabs(1) [OF q] ok(3) tabs(1) by (simp add: distinct_list_update)
  have kept: "tabs_kept s t"
  proof (rule tabs_keptI [OF assms(1) same dist])
    show "w \<in> set (ov_tabs s) \<or> \<not> queue_destroyed (queues s w) \<and> \<not> still_leaving s w"
      if "w \<in> set (ov_tabs t)" for w using that set_tabs ok(4,5) by auto
    show "queue_observed (queues t w) = (w \<in> set (ov_tabs t))" for w
      using u(5) set_tabs queues_ok_tabs(2,5) [OF q] by (auto simp: t_def WebStateAdded_sel t0_def)
    show "queue_delegate (queues t w) = This_presenter" if "w \<in> set (ov_tabs t)" for w
      using that u(6) set_tabs queues_ok_tabs(3) [OF q] by (auto simp: t_def WebStateAdded_sel)
    show "queue_delegate (queues t w) = queue_delegate (queues s w) \<or>
        queue_delegate (queues t w) = This_presenter \<or> \<not> presented_for s w" for w
      using u(6,7) by (auto simp: t_def WebStateAdded_sel)
    show "detached_presenting_request_queue t = detached_presenting_request_queue s \<or>
      (\<exists>w. detached_presenting_request_queue t = Some w \<and> presented_for s w \<and> w \<notin> set (ov_tabs t))"
      using u(8) set_tabs ok(3) old by (auto simp: t_def WebStateAdded_sel)
  qed
  have first: "observe_tabs U s (WebStateReplacedAt old new (int i)) = Inr t"
    using u(1) by (simp add: observe_tabs_def t_def t0_def)
  have idem: "t\<lparr>ov_tabs := ov_tabs t\<rparr> = t" by simp
  show ?thesis
  proof (cases "ov_active_web_state s = Some old")
    case True
    have "ov_active_web_state t \<noteq> Some new" using tabs(2) True ok(3) old by auto
    then obtain v where "SetActiveWebState U (Some new) Replaced t = Inr v" "ov_inv v"
      using SetActiveWebState_ok [OF assms(1) ok(6) [OF True] same kept tabs(2), of "Some new" U Replaced] set_tabs
      by auto
    then show ?thesis using first True idem by (simp add: observe_tabs_def)
  next
    case False
    have "active_is_tab t"
      using queues_ok_tabs(6) [OF q] False tabs(2) set_tabs by (auto simp: active_is_tab_def)
    then have "ov_inv t" by (rule retabbed_inv [OF assms(1) same kept _ tabs(2)])
    then show ?thesis using first False idem tabs(2) by (simp add: observe_tabs_def SetActiveWebState_def)
  qed
qed

lemma tab_detached_ok:
  assumes "ov_inv s" and "tab_change_ok s (Tab_detached w i next)"
  shows "\<exists>u. orun (observe_tabs U) s (tab_events (ov_active_web_state s) (Tab_detached w i next)) = Inr u \<and> ov_inv u"
proof -
  have q: "queues_ok s" using assms(1) by (simp add: ov_inv_def)
  have ok: "i < length (ov_tabs s)" "ov_tabs s ! i = w" using assms(2) by simp_all
  have w: "w \<in> set (ov_tabs s)" using ok by auto
  define t0 where "t0 = s\<lparr>detaching_presenting_web_state := presented_for s w\<rparr>"
  obtain u where u: "WebStateRemovedFromBrowser U w t0 = Inr u" "same_requests s u"
    "ov_tabs u = ov_tabs t0" "ov_active_web_state u = ov_active_web_state t0"
    "\<forall>v. queue_observed (queues u v) = (v \<noteq> w \<and> queue_observed (queues t0 v))"
    "\<forall>v. v \<noteq> w \<longrightarrow> queue_delegate (queues u v) = queue_delegate (queues s v)"
    "presented_for s w \<longrightarrow> queue_delegate (queues u w) = queue_delegate (queues s w)"
    "detached_presenting_request_queue u =
      (if presented_for s w then Some w else detached_presenting_request_queue s)"
    using WebStateRemovedFromBrowser_ok [OF assms(1) _ _ _ w, of t0 U] by (auto simp: t0_def)
  define t where "t = u\<lparr>ov_tabs := remove_at i (ov_tabs s)\<rparr>"
  have same: "same_requests s t" using u(2) by (simp add: t_def)
  have act: "ov_active_web_state t = ov_active_web_state s" using u(4) by (simp add: t_def t0_def)
  have set_tabs: "set (ov_tabs t) = set (ov_tabs s) - {w}" and dist: "distinct (ov_tabs t)"
    using queues_ok_tabs(1) [OF q] ok by (simp_all add: t_def set_remove_at)
  have sel: "queues t = queues u" "detached_presenting_request_queue t = detached_presenting_request_queue u"
    by (simp_all add: t_def)
  have kept: "tabs_kept s t"
  proof (rule tabs_keptI [OF assms(1) same dist])
    show "v \<in> set (ov_tabs s) \<or> \<not> queue_destroyed (queues s v) \<and> \<not> still_leaving s v"
      if "v \<in> set (ov_tabs t)" for v using that set_tabs by auto
    show "queue_observed (queues t v) = (v \<in> set (ov_tabs t))" for v
      using u(5) set_tabs queues_ok_tabs(2,5) [OF q] by (auto simp: sel t0_def)
    show "queue_delegate (queues t v) = This_presenter" if "v \<in> set (ov_tabs t)" for v
      using that u(6) set_tabs queues_ok_tabs(3) [OF q] by (auto simp: sel)
    show "queue_delegate (queues t v) = queue_delegate (queues s v) \<or>
        queue_delegate (queues t v) = This_presenter \<or> \<not> presented_for s v" for v
      using u(6,7) by (auto simp: sel)
    show "detached_presenting_request_queue t = detached_presenting_request_queue s \<or>
      (\<exists>v. detached_presenting_request_queue t = Some v \<and> presented_for s v \<and> v \<notin> set (ov_tabs t))"
      using u(8) set_tabs by (auto simp: sel)
  qed
  have tabs_s: "s\<lparr>ov_tabs := ov_tabs s, detaching_presenting_web_state := presented_for s w\<rparr> = t0" by (simp add: t0_def)
  have pf: "presented_for (s\<lparr>ov_tabs := ov_tabs s\<rparr>) w = presented_for s w" by simp
  have first: "observe_tabs U s (WillDetachWebStateAt w (int i)) = Inr u"
    using u(1) by (simp add: observe_tabs_def t0_def)
  have second: "observe_tabs U u (WebStateDetachedAt w (int i)) = Inr t"
    using u(3) by (simp add: observe_tabs_def t_def t0_def)
  have idem: "t\<lparr>ov_tabs := ov_tabs t\<rparr> = t" by simp
  show ?thesis
  proof (cases "ov_active_web_state s = Some w")
    case True
    have "ov_active_web_state t \<noteq> next" using assms(2) True act by auto
    moreover have "v \<in> set (ov_tabs t)" if "next = Some v" for v using that assms(2) True set_tabs by auto
    ultimately obtain v where "SetActiveWebState U next Closed t = Inr v" "ov_inv v"
      using SetActiveWebState_ok [OF assms(1) _ same kept act, of "next" U Closed] assms(2) True by auto
    then show ?thesis using first second True idem by (simp add: observe_tabs_def)
  next
    case False
    have "active_is_tab t"
      using queues_ok_tabs(6) [OF q] False act set_tabs by (auto simp: active_is_tab_def)
    then have "ov_inv t" by (rule retabbed_inv [OF assms(1) same kept _ act])
    then show ?thesis using first second False by simp
  qed
qed

lemma tab_change_keeps_inv:
  assumes "ov_inv s" and "tab_change_ok s tc"
  shows "\<exists>u. orun (observe_tabs U) s (tab_events (ov_active_web_state s) tc) = Inr u \<and> ov_inv u"
proof -
  have q: "queues_ok s" using assms(1) by (simp add: ov_inv_def)
  have keep: "tabs_kept s (s\<lparr>ov_tabs := ts\<rparr>)" if "set ts = set (ov_tabs s)" "distinct ts" for ts
    by (rule tabs_keptI [OF assms(1)]) (use that queues_ok_tabs [OF q] in auto)
  show ?thesis
  proof (cases tc)
    case (Tab_inserted w i a)
    then show ?thesis using tab_inserted_ok assms by blast
  next
    case (Tab_replaced old new i)
    then show ?thesis using tab_replaced_ok assms by blast
  next
    case (Tab_detached w i n)
    then show ?thesis using tab_detached_ok assms by blast
  next
    case (Tab_moved w i j)
    let ?t = "s\<lparr>ov_tabs := insert_at j w (remove_at i (ov_tabs s))\<rparr>"
    have ok: "i < length (ov_tabs s)" "ov_tabs s ! i = w" using assms(2) Tab_moved by simp_all
    then have set_t: "set (insert_at j w (remove_at i (ov_tabs s))) = set (ov_tabs s)"
      using set_move [OF queues_ok_tabs(1) [OF q], of i j] by simp
    have "distinct (insert_at j w (remove_at i (ov_tabs s)))"
      using queues_ok_tabs(1) [OF q] ok by (auto simp: set_remove_at)
    moreover have "active_is_tab ?t" unfolding active_is_tab_def
      using queues_ok_tabs(6) [OF q] set_t by (simp del: set_insert_at)
    ultimately have "ov_inv ?t" by (intro retabbed_inv [OF assms(1) _ keep [OF set_t]]) simp_all
    then show ?thesis using Tab_moved by (simp add: observe_tabs_def)
  next
    case (Tab_activated w)
    have idem: "s\<lparr>ov_tabs := ov_tabs s\<rparr> = s" by simp
    show ?thesis
    proof (cases "ov_active_web_state s = Some w")
      case True
      then show ?thesis using Tab_activated assms(1) by simp
    next
      case False
      have "tabs_kept s s" using keep [of "ov_tabs s"] queues_ok_tabs(1) [OF q] by simp
      then obtain v where "SetActiveWebState U (Some w) Activated s = Inr v" "ov_inv v"
        using SetActiveWebState_ok [OF assms(1) _ same_requests_refl, of "Some w" U Activated] assms(2) Tab_activated False
        by auto
      then show ?thesis using Tab_activated False by (simp add: observe_tabs_def)
    qed
  qed
qed
end
