(* ===== verification/Overlay_Props.thy ===== *)
theory Overlay_Props
  imports Overlay_Tabs
begin

text \<open>
  The overlay system keeps its invariant (\<open>ov_inv\<close>) in every admissible call: the changes of the
  presentation context and of a queue's owner, which the preceding theories leave open, the
  instance of the contract \<open>checked_machine\<close> and the properties of the whole system.
\<close>

section \<open>The presentation context changes\<close>

lemma ov_inv_ctx:
  assumes "ov_inv s" and "ctx_request c = ctx_request (ctx s)" and "ui_states c = ui_states (ctx s)"
  shows "ov_inv (s\<lparr>ctx := c\<rparr>)"
proof -
  let ?t = "s\<lparr>ctx := c\<rparr>"
  have "context_ok ?t" using assms unfolding ov_inv_def context_ok_def by simp
  moreover have "queues_ok ?t" using assms(1) by (simp add: ov_inv_def queues_ok_def)
  moreover have "presenter_core ?t"
    using presenter_core_cong [of s ?t] assms by (simp add: ov_inv_def same_presenter_def)
  moreover have "settled_ok ?t"
    using assms GetActiveRequest_queues [of ?t s] by (simp add: ov_inv_def settled_ok_def settled_def)
  ultimately show ?thesis by (simp add: ov_inv_def)
qed

lemma present_if_idle_ok:
  assumes "ov_inv s"
  shows "\<exists>t. present_if_idle U s = Inr t \<and> ov_inv t"
  using assms PresentOverlay_ok [of s U] by (auto simp: present_if_idle_def ov_inv_def)

lemma UpdatePresentationCapabilities_ok:
  assumes "ov_inv s"
  shows "\<exists>t. UpdatePresentationCapabilities U s = Inr t \<and> ov_inv t"
proof -
  let ?caps = "ConstructPresentationCapabilities (ctx s)"
  let ?changed = "presentation_capabilities (ctx s) \<noteq> ?caps"
  have inv: "queues_ok s" "context_ok s" "presenter_core s" using assms by (simp_all add: ov_inv_def)
  obtain s1 where s1: "(if ?changed \<and> has_presentation_context s
      then WillChangePresentationCapabilities U ?caps s else Inr s) = Inr s1" "ov_inv s1"
  proof (cases "?changed \<and> has_presentation_context s")
    case False
    then show thesis using that assms by auto
  next
    case True
    show thesis
    proof (cases "presented_request s")
      case None
      then show thesis using that [of s] True assms by (simp add: WillChangePresentationCapabilities_def)
    next
      case (Some r)
      have r: "ctx_request (ctx s) = Some r" "presenting s" using presenter_coreD(4) [OF inv(3) Some] by blast+
      obtain h where "HideOverlayUI U r s = Inr h" "ov_inv h" using HideOverlayUI_ok [OF inv r(1), of U] by blast
      then show thesis using that True assms Some r(2)
        by (cases "CanShowUIForRequest U r ?caps") (auto simp: WillChangePresentationCapabilities_def)
    qed
  qed
  have "ov_inv (s1\<lparr>ctx := (ctx s1)\<lparr>presentation_capabilities := ?caps\<rparr>\<rparr>)"
    by (rule ov_inv_ctx [OF s1(2)]) simp_all
  then show ?thesis
    using s1(1) present_if_idle_ok
    by (simp add: UpdatePresentationCapabilities_def Let_def)
qed

lemma CancelAll_run:
  assumes "ov_inv s"
  shows "\<exists>t. orun (\<lambda>s ws. CancelOverlayUIForRequest U (GetFrontRequestForWebState s (Some ws)) s) s wss = Inr t \<and>
    ov_inv t"
  using assms
proof (induction wss arbitrary: s)
  case (Cons w wss)
  obtain s1 where "CancelOverlayUIForRequest U (GetFrontRequestForWebState s (Some w)) s = Inr s1" "ov_inv s1"
    using CancelOverlayUIForRequest_ok [of s "GetFrontRequestForWebState s (Some w)" U] Cons.prems
    by (auto simp: ov_inv_def)
  then show ?case using Cons.IH by auto
qed simp

text \<open>Nothing is presented: nothing can be cancelled either.\<close>

definition nothing_left :: "overlays \<Rightarrow> bool" where
  "nothing_left s \<longleftrightarrow> queues_ok s \<and> context_ok s \<and> ctx_request (ctx s) = None \<and>
     removed_request_awaiting_dismissal s = None \<and> \<not> detached_queue_replaced_delegate s \<and>
     detached_presenting_request_queue s = None"

lemma nothing_left_cong:
  assumes "nothing_left s" and "same_queues s t" and "ui_states (ctx t) = ui_states (ctx s)"
    and "ctx_request (ctx t) = ctx_request (ctx s)"
    and "detached_queue_replaced_delegate t = detached_queue_replaced_delegate s"
    and "detached_presenting_request_queue t = detached_presenting_request_queue s"
  shows "nothing_left t"
proof -
  have q: "queue_web_state t = queue_web_state s"
    "removed_request_awaiting_dismissal t = removed_request_awaiting_dismissal s"
    using assms(2) by (simp_all add: same_queues_def)
  have "context_ok t = context_ok s" by (simp only: context_ok_def assms(3,4) q)
  then show ?thesis using assms(1,4-6) queues_ok_cong [OF assms(2)] q by (simp add: nothing_left_def)
qed

lemma nothing_left_cancel:
  assumes "nothing_left s"
  shows "\<exists>t. CancelOverlayUIForRequest U request s = Inr t \<and> nothing_left t"
proof -
  have "\<exists>t. CancelOverlayUI U r s = Inr t \<and> nothing_left t" for r
  proof (cases "ui_states (ctx s) r")
    case None
    then show ?thesis using assms by (simp add: CancelOverlayUI_def)
  next
    case (Some st)
    have c: "context_ok s" "ctx_request (ctx s) = None" using assms by (simp_all add: nothing_left_def)
    have nc: "\<not> has_callback st" using context_okD(3) [OF c(1) Some] c(2) by (cases "dismissal_callback st") (auto simp: has_callback_def)
    have "context_ok (erase_state r s)" using c unfolding context_ok_def erase_state_def by simp
    moreover have "queues_ok (erase_state r s)" using assms by (simp add: nothing_left_def queues_ok_def erase_state_def)
    ultimately show ?thesis using Some nc assms by (simp add: CancelOverlayUI_def nothing_left_def) (simp add: erase_state_def)
  qed
  then show ?thesis using assms by (auto simp: CancelOverlayUIForRequest_def split: option.split)
qed

lemma nothing_left_cancel_all:
  "nothing_left s \<Longrightarrow>
   \<exists>t. orun (\<lambda>s ws. CancelOverlayUIForRequest U (GetFrontRequestForWebState s (Some ws)) s) s wss = Inr t \<and> nothing_left t"
proof (induction wss arbitrary: s)
  case (Cons w wss)
  obtain s1 where "CancelOverlayUIForRequest U (GetFrontRequestForWebState s (Some w)) s = Inr s1" "nothing_left s1"
    using nothing_left_cancel [OF Cons.prems] by blast
  then show ?case using Cons.IH by auto
qed simp

lemma SetPresentationContext_ok:
  assumes "ov_inv s" and "attach \<longrightarrow> nothing_left s"
  shows "\<exists>t. SetPresentationContext U attach s = Inr t \<and> ov_inv t"
proof -
  obtain s1 where s1: "(if has_presentation_context s then CancelAllOverlayUI U s else Inr s) = Inr s1"
    "queues_ok s1" "context_ok s1" "attach \<longrightarrow> nothing_left s1"
  proof (cases "has_presentation_context s \<and> attach")
    case True
    then show thesis using nothing_left_cancel_all [of s U "ov_tabs s"] that assms(2)
      by (auto simp: CancelAllOverlayUI_def nothing_left_def)
  next
    case False
    then show thesis using CancelAll_run [OF assms(1), of U "ov_tabs s"] that assms
      by (cases "has_presentation_context s") (auto simp: CancelAllOverlayUI_def ov_inv_def)
  qed
  define s2 where "s2 = s1\<lparr>has_presentation_context := attach, presenting := False, presented_request := None,
                 previously_presented_requests := {}\<rparr>"
  have run: "SetPresentationContext U attach s = (if attach then PresentOverlayForActiveRequest U s2 else Inr s2)"
    using s1(1) by (simp add: SetPresentationContext_def s2_def Let_def)
  have core: "queues_ok s2" "context_ok s2" "\<not> presenting s2"
    using s1(2,3) by (simp_all add: s2_def queues_ok_def context_ok_def)
  have "presenter_core s2" using s1(4) by (auto simp: s2_def presenter_core_def nothing_left_def)
  moreover have "settled_ok s2" by (simp add: s2_def settled_ok_def)
  ultimately show ?thesis using run core PresentOverlay_ok [of s2 U] by (auto simp: ov_inv_def)
qed

lemma CanShow_none [simp]: "\<not> CanShowUIForRequest U r kNone"
  by (simp add: CanShowUIForRequest_def kNone_def)

text \<open>Without view controllers nothing can be shown.\<close>

lemma UpdateCapabilities_none:
  assumes "ov_inv s" and "nothing_left s" and "container_view_controller (ctx s) = None"
    and "presentation_context_view_controller (ctx s) = None"
  shows "\<exists>t. UpdatePresentationCapabilities U s = Inr t \<and> nothing_left t"
proof -
  have caps: "ConstructPresentationCapabilities (ctx s) = kNone"
    using assms(3,4) by (simp add: ConstructPresentationCapabilities_def kNone_def)
  have R: "presented_request s = None"
    using presenter_coreD(4) [of s] assms(1,2) by (cases "presented_request s") (auto simp: ov_inv_def nothing_left_def)
  define s2 where "s2 = s\<lparr>ctx := (ctx s)\<lparr>presentation_capabilities := kNone\<rparr>\<rparr>"
  have nl: "nothing_left s2"
    by (rule nothing_left_cong [OF assms(2)]) (simp_all add: s2_def same_queues_def)
  have "\<exists>t. PresentOverlayForActiveRequest U s2 = Inr t \<and> nothing_left t"
  proof -
    have "nothing_left (emit e s2)" for e
      by (rule nothing_left_cong [OF nl]) (simp_all add: emit_def same_queues_def)
    moreover have "\<not> CanShowUIForRequest U r (presentation_capabilities (ctx s2))" for r by (simp add: s2_def)
    ultimately show ?thesis using nl
      by (auto simp: PresentOverlayForActiveRequest_def PrepareToShowOverlayUI_def split: option.split)
  qed
  then have "\<exists>t. present_if_idle U s2 = Inr t \<and> nothing_left t" using nl by (simp add: present_if_idle_def)
  moreover have "UpdatePresentationCapabilities U s =
      (if presentation_capabilities (ctx s) \<noteq> kNone then present_if_idle U s2 else Inr s2)"
    using R caps by (simp add: UpdatePresentationCapabilities_def WillChangePresentationCapabilities_def s2_def Let_def)
  ultimately show ?thesis using nl by auto
qed

lemma SetContextDelegate_ok:
  assumes "ov_inv s" and "ov_ok s (Ov_SetDelegate d)"
  shows "\<exists>t. SetContextDelegate U d s = Inr t \<and> ov_inv t"
proof -
  define s0 where "s0 = s\<lparr>ctx := (ctx s)\<lparr>container_view_controller := None,
                      presentation_context_view_controller := None\<rparr>\<rparr>"
  have s0: "ov_inv s0" unfolding s0_def by (rule ov_inv_ctx [OF assms(1)]) simp_all
  obtain s1 where s1: "UpdatePresentationCapabilities U s0 = Inr s1" "ov_inv s1" "d \<noteq> None \<longrightarrow> nothing_left s1"
  proof (cases "d = None")
    case True
    then show thesis using UpdatePresentationCapabilities_ok [OF s0, of U] that by blast
  next
    case False
    have "nothing_left s" using assms False by (simp add: nothing_left_def ov_inv_def)
    then have nl: "nothing_left s0" by (rule nothing_left_cong) (simp_all add: s0_def same_queues_def)
    obtain t where t: "UpdatePresentationCapabilities U s0 = Inr t" "ov_inv t"
      using UpdatePresentationCapabilities_ok [OF s0, of U] by blast
    moreover have "nothing_left t"
      using UpdateCapabilities_none [OF s0 nl, of U] t(1) by (simp add: s0_def)
    ultimately show thesis using that by blast
  qed
  let ?s2 = "s1\<lparr>ctx := (ctx s1)\<lparr>ctx_delegate := d\<rparr>\<rparr>"
  have inv: "ov_inv ?s2" by (rule ov_inv_ctx [OF s1(2)]) simp_all
  have left: "d \<noteq> None \<longrightarrow> nothing_left ?s2"
    using s1(3) nothing_left_cong [of s1 ?s2] by (simp add: same_queues_def)
  obtain t where "SetPresentationContext U (d \<noteq> None) ?s2 = Inr t" "ov_inv t"
    using SetPresentationContext_ok [OF inv left, of U] by blast
  then show ?thesis using s1(1) assms(1) by (auto simp: SetContextDelegate_def s0_def)
qed

lemma SetWindow_ok: "ov_inv s \<Longrightarrow> \<exists>t. SetWindow U w s = Inr t \<and> ov_inv t"
  using ov_inv_ctx [of s "(ctx s)\<lparr>ctx_window := w\<rparr>"] present_if_idle_ok [of "s\<lparr>ctx := (ctx s)\<lparr>ctx_window := w\<rparr>\<rparr>" U]
  by (auto simp: SetWindow_def Let_def)

lemma SetContainerViewController_ok: "ov_inv s \<Longrightarrow> \<exists>t. SetContainerViewController U v s = Inr t \<and> ov_inv t"
  using ov_inv_ctx [of s "(ctx s)\<lparr>container_view_controller := v\<rparr>"]
    UpdatePresentationCapabilities_ok [of "s\<lparr>ctx := (ctx s)\<lparr>container_view_controller := v\<rparr>\<rparr>" U]
  by (auto simp: SetContainerViewController_def)

lemma SetPresentationContextViewController_ok:
  "ov_inv s \<Longrightarrow> \<exists>t. SetPresentationContextViewController U v s = Inr t \<and> ov_inv t"
  using ov_inv_ctx [of s "(ctx s)\<lparr>presentation_context_view_controller := v\<rparr>"]
    UpdatePresentationCapabilities_ok [of "s\<lparr>ctx := (ctx s)\<lparr>presentation_context_view_controller := v\<rparr>\<rparr>" U]
  by (auto simp: SetPresentationContextViewController_def)

lemma SetUIDisabled_ok:
  assumes "ov_inv s"
  shows "\<exists>t. SetUIDisabled U b s = Inr t \<and> ov_inv t"
proof -
  let ?s = "s\<lparr>ctx := (ctx s)\<lparr>ui_disabled := b\<rparr>\<rparr>"
  have "ov_inv ?s" by (rule ov_inv_ctx [OF assms]) simp_all
  then obtain t where "UpdatePresentationCapabilities U ?s = Inr t" "ov_inv t"
    using UpdatePresentationCapabilities_ok by blast
  then show ?thesis using present_if_idle_ok [of t U] assms by (auto simp: SetUIDisabled_def)
qed

lemma OverlayUIDidFinishDismissal_ok:
  assumes "ov_inv s" and "ctx_request (ctx s) = Some r"
  shows "\<exists>t. OverlayUIDidFinishDismissal U r s = Inr t \<and> ov_inv t"
proof -
  have inv: "queues_ok s" "context_ok s" "presenter_core s" "settled_ok s" using assms(1) by (simp_all add: ov_inv_def)
  obtain st co ws where st: "ui_states (ctx s) r = Some st" "dismissal_callback st = Some ws"
    "coordinator st = Some co" "queue_web_state s r = Some ws"
    by (rule context_ok_requestE [OF inv(2) assms(2)])
  define st1 where "st1 = st\<lparr>coordinator := Some (co\<lparr>started := False\<rparr>)\<rparr>"
  define u where "u = put_state r st1 s"
  have run: "OverlayUIDidFinishDismissal U r s = OverlayUIWasDismissed U u"
    using st assms(2) by (simp add: OverlayUIDidFinishDismissal_def u_def st1_def)
  have ctx_u: "ctx u = (ctx s)\<lparr>ui_states := (ui_states (ctx s))(r \<mapsto> st1)\<rparr>" by (simp add: u_def put_state_def)
  have same: "same_queues s u" "same_presenter s u" by (simp_all add: u_def put_state_def same_queues_def same_presenter_def)
  have "context_ok u"
    by (rule context_ok_put [OF inv(2) st(1) ctx_u]) (use st in \<open>simp_all add: u_def put_state_def st1_def has_callback_def\<close>)
  moreover have "queues_ok u" using queues_ok_cong [OF same(1)] inv(1) by simp
  moreover have "presenter_core u"
    using presenter_core_cong [OF same(2)] same(1) inv(3) by (simp add: same_queues_def)
  moreover have "ctx_request (ctx u) = Some r" "ui_states (ctx u) r = Some st1" using assms(2) by (simp_all add: ctx_u)
  moreover have "GetActiveRequest u = Some r"
    if "dismissal_reason st1 = kUserInteraction" "presented_request u = Some r"
  proof -
    have "settled s r" using that(1) st(1) by (simp add: settled_def st1_def)
    then show ?thesis using inv(4) that(2) GetActiveRequest_cong [OF same(1)]
      by (simp add: settled_ok_def u_def put_state_def)
  qed
  ultimately obtain t where "OverlayUIWasDismissed U u = Inr t" "ov_inv t"
    using OverlayUIWasDismissed_ok [of u r st1 U] by blast
  then show ?thesis using run by simp
qed

lemma DestroyQueue_ok:
  assumes "ov_inv s" and "ws \<notin> set (ov_tabs s)"
  shows "\<exists>t. DestroyQueue U ws s = Inr t \<and> ov_inv t"
proof -
  have q: "queues_ok s" using assms(1) by (simp add: ov_inv_def)
  have "(queues s ws)\<lparr>queue_observed := False\<rparr> = queues s ws"
    using queues_ok_tabs(5) [OF q assms(2)] by simp
  then have "update_queue ws (\<lambda>q. q\<lparr>queue_observed := False\<rparr>) s = s"
    by (simp only: update_queue_def fun_upd_triv) simp
  moreover obtain s1 where s1: "CancelAllRequests U ws s = Inr s1" "ov_inv s1" "request_storages (queues s1 ws) = []"
    "ov_tabs s1 = ov_tabs s"
    using CancelAllRequests_ok [OF assms(1), of U ws] by blast
  moreover have "ov_inv (update_queue ws (\<lambda>q. q\<lparr>queue_destroyed := True\<rparr>) s1)"
  proof -
    let ?t = "update_queue ws (\<lambda>q. q\<lparr>queue_destroyed := True\<rparr>) s1"
    have inv: "queues_ok s1" "context_ok s1" "presenter_core s1" "settled_ok s1" using s1(2) by (simp_all add: ov_inv_def)
    have "queues_ok ?t" using inv(1) s1(3,4) assms(2) unfolding queues_ok_def update_queue_def by auto
    moreover have "context_ok ?t" using inv(2) by (simp add: context_ok_def update_queue_def)
    moreover have st: "request_storages (queues ?t w) = request_storages (queues s1 w)"
      "queue_delegate (queues ?t w) = queue_delegate (queues s1 w)" for w
      by (simp_all add: update_queue_def)
    have other: "has_presentation_context ?t = has_presentation_context s1" "presenting ?t = presenting s1" "ctx ?t = ctx s1"
      "detached_queue_replaced_delegate ?t = detached_queue_replaced_delegate s1" "ov_tabs ?t = ov_tabs s1"
      "presented_request ?t = presented_request s1" "queue_web_state ?t = queue_web_state s1"
      "removed_request_awaiting_dismissal ?t = removed_request_awaiting_dismissal s1"
      "detached_presenting_request_queue ?t = detached_presenting_request_queue s1"
      by (simp_all add: update_queue_def)
    have "presenter_core ?t" using inv(3) unfolding presenter_core_def request_kept_def st other .
    moreover have "GetActiveRequest ?t = GetActiveRequest s1"
      by (simp add: GetActiveRequest_def GetFrontRequestForWebState_def front_request_def update_queue_def split: option.split)
    then have "settled_ok ?t" using inv(4) by (simp add: settled_ok_def settled_def update_queue_def)
    ultimately show ?thesis by (simp add: ov_inv_def)
  qed
  ultimately show ?thesis by (simp add: DestroyQueue_def)
qed

text \<open>Another presenter takes the queue of a tab that has left the browser.\<close>

lemma ov_inv_redelegated:
  assumes "ov_inv s" and "ws \<notin> set (ov_tabs s)"
    and "\<And>r. presented_request s = Some r \<Longrightarrow> r \<notin> set (request_storages (queues s ws))"
  shows "ov_inv (update_queue ws (\<lambda>q. q\<lparr>queue_delegate := d\<rparr>) s)"
proof -
  let ?t = "update_queue ws (\<lambda>q. q\<lparr>queue_delegate := d\<rparr>) s"
  have inv: "queues_ok s" "context_ok s" "presenter_core s" "settled_ok s" using assms(1) by (simp_all add: ov_inv_def)
  have "queues_ok ?t" using inv(1) assms(2) unfolding queues_ok_def update_queue_def by auto
  moreover have "context_ok ?t" using inv(2) by (simp add: context_ok_def update_queue_def)
  moreover have kept: "request_kept ?t r" if "presented_request s = Some r" "request_kept s r" for r
    using assms(3) [OF that(1)] that(2) by (auto simp: request_kept_def update_queue_def)
  have "presenter_core ?t"
  proof (cases "has_presentation_context s")
    case True
    have st: "request_storages (queues ?t w) = request_storages (queues s w)" for w by (simp add: update_queue_def)
    have kept_t: "\<forall>r. presented_request ?t = Some r \<longrightarrow> request_kept ?t r"
      using kept presenter_coreD(4) [OF inv(3)] by (simp add: update_queue_def)
    have same: "has_presentation_context ?t = has_presentation_context s" "presenting ?t = presenting s" "ctx ?t = ctx s"
      "detached_queue_replaced_delegate ?t = detached_queue_replaced_delegate s" "ov_tabs ?t = ov_tabs s"
      "presented_request ?t = presented_request s" "queue_web_state ?t = queue_web_state s"
      "removed_request_awaiting_dismissal ?t = removed_request_awaiting_dismissal s"
      "detached_presenting_request_queue ?t = detached_presenting_request_queue s"
      by (simp_all add: update_queue_def)
    show ?thesis using inv(3) kept_t unfolding presenter_core_def st same if_P [OF True]
      by (elim conjE, intro conjI) assumption+
  next
    case False
    then show ?thesis using inv(3) by (simp add: presenter_core_def update_queue_def)
  qed
  moreover have "GetActiveRequest ?t = GetActiveRequest s"
    by (simp add: GetActiveRequest_def GetFrontRequestForWebState_def front_request_def update_queue_def split: option.split)
  then have "settled_ok ?t" using inv(4) by (simp add: settled_ok_def settled_def update_queue_def)
  ultimately show ?thesis by (simp add: ov_inv_def)
qed

lemma SetDelegate_Other_ok:
  assumes "ov_inv s" and "ov_ok s (Ov_OtherPresenterTakes ws)"
  shows "ov_inv (SetDelegate ws Other_presenter s)"
proof -
  let ?upd = "update_queue ws (\<lambda>q. q\<lparr>queue_delegate := Other_presenter\<rparr>)"
  have inv: "queues_ok s" "context_ok s" "presenter_core s" using assms(1) by (simp_all add: ov_inv_def)
  have ws: "ws \<notin> set (ov_tabs s)" using assms(2) by simp
  show ?thesis
  proof (cases "queue_delegate (queues s ws) = This_presenter \<and>
      presented_request s \<noteq> None \<and> presented_request s = front_request (queues s ws)")
    case False
    have nin: "r \<notin> set (request_storages (queues s ws))"
      if "presented_request s = Some r" "queue_delegate (queues s ws) \<noteq> Other_presenter" for r
    proof
      assume r: "r \<in> set (request_storages (queues s ws))"
      with that assms(2) have f: "front_request (queues s ws) = Some r" by simp
      have "request_kept s r" using presenter_coreD(4) [OF inv(3) that(1)] by blast
      then obtain w where w: "r \<in> set (request_storages (queues s w))" "queue_delegate (queues s w) = This_presenter"
        using queues_okD(3) [OF inv(1) r] by (auto simp: request_kept_def)
      have "w = ws" using queues_okD(1) [OF inv(1) r] queues_okD(1) [OF inv(1) w(1)] by simp
      with w(2) False f that(1) show False by simp
    qed
    show ?thesis
    proof (cases "queue_delegate (queues s ws) = Other_presenter")
      case True
      then show ?thesis using assms(1) by (simp add: SetDelegate_def)
    next
      case noOther: False
      have "OverlayRequestQueueWillReplaceDelegate ws s = s" if "queue_delegate (queues s ws) = This_presenter"
        using False that by (auto simp: OverlayRequestQueueWillReplaceDelegate_def split: option.split)
      then have "SetDelegate ws Other_presenter s = ?upd s" using noOther by (simp add: SetDelegate_def)
      then show ?thesis using ov_inv_redelegated [OF assms(1) ws] nin noOther by simp
    qed
  next
    case True
    then obtain p where p: "presented_request s = Some p" by blast
    have "front_request (queues s ws) = Some p" using p True by metis
    with p True obtain r where r: "presented_request s = Some r" "front_request (queues s ws) = Some r"
      "queue_delegate (queues s ws) = This_presenter" by blast
    define t where "t = (emit (DidHideOverlay r) s)\<lparr>presented_request := None,
                 detached_presenting_request_queue := None, detached_queue_replaced_delegate := True\<rparr>"
    have run: "SetDelegate ws Other_presenter s = ?upd t"
      using r by (simp add: SetDelegate_def OverlayRequestQueueWillReplaceDelegate_def t_def)
    have rin: "r \<in> set (request_storages (queues s ws))" using r(2) by (rule front_request_in)
    have core: "ctx_request (ctx s) = Some r" "presenting s" "has_presentation_context s"
      using presenter_coreD(4) [OF inv(3) r(1)] by blast+
    have "queues_ok t" using inv(1) by (simp add: t_def queues_ok_def emit_def)
    moreover have "context_ok t" using inv(2) by (simp add: t_def context_ok_def emit_def)
    moreover have "presenter_core t"
    proof -
      have "removed_request_awaiting_dismissal s = None"
        using presenter_coreD(1) [OF inv(3) core(3)] r(1) queues_okD(3) [OF inv(1) rin] by auto
      moreover have "r \<notin> set (request_storages (queues s w))" if "w \<in> set (ov_tabs s)" for w
        using queues_okD(1) [OF inv(1) rin] queues_okD(1) [OF inv(1), of r w] that ws by auto
      ultimately show ?thesis using core by (simp add: presenter_core_def t_def emit_def)
    qed
    moreover have "settled_ok t" by (simp add: settled_ok_def t_def emit_def)
    ultimately have "ov_inv t" by (simp add: ov_inv_def)
    then show ?thesis unfolding run by (rule ov_inv_redelegated) (use ws in \<open>simp_all add: t_def emit_def\<close>)
  qed
qed

lemma BrowserDestroyed_ok:
  assumes "ov_inv s" and "ov_ok s Ov_BrowserDestroyed"
  shows "\<exists>t. BrowserDestroyed U s = Inr t \<and> ov_inv t"
proof -
  have inv: "queues_ok s" "context_ok s" using assms(1) by (simp_all add: ov_inv_def)
  have a: "ov_active_web_state s = None" "ov_tabs s = []" "detached_presenting_request_queue s = None"
    using queues_ok_tabs(6) [OF inv(1)] assms(2) by (simp_all, cases "ov_active_web_state s", auto)
  define t where "t = s\<lparr>has_presentation_context := False, presenting := False, presented_request := None,
                 previously_presented_requests := {}, ov_tabs := [], removed_request_awaiting_dismissal := None\<rparr>"
  have run: "BrowserDestroyed U s = Inr (destroy_owned (removed_request_awaiting_dismissal s) t)"
    using a by (simp add: BrowserDestroyed_def SetPresentationContext_def CancelAllOverlayUI_def SetActiveWebState_def
        t_def Let_def)
  have q: "queues_ok t" using inv(1) a by (simp add: t_def queues_ok_def)
  have "ov_inv t" using q inv(2)
    by (simp add: t_def ov_inv_def context_ok_def presenter_core_def settled_ok_def)
  moreover have "ov_inv (destroy_request r t)" if "removed_request_awaiting_dismissal s = Some r" for r
    by (rule ov_inv_destroy [OF \<open>ov_inv t\<close>]) (use inv(1) that in \<open>auto simp: t_def queues_ok_def\<close>)
  ultimately show ?thesis using run by (auto simp: destroy_owned_def split: option.split)
qed

lemma CancelAllRequests_run: "ov_inv s \<Longrightarrow> \<exists>t. CancelAllRequests U ws s = Inr t \<and> ov_inv t"
  using CancelAllRequests_ok by blast

lemma ov_step_safe:
  assumes "ov_inv s" and "ov_ok s x"
  shows "\<exists>t. ov_step U s x = Inr t \<and> ov_inv t"
proof (cases x)
  case (Ov_Tabs tc)
  then show ?thesis using tab_change_keeps_inv assms by simp
next
  case (Ov_OtherPresenterTakes w)
  then show ?thesis using SetDelegate_Other_ok assms by simp
qed (use assms in \<open>auto simp del: ov_ok.simps(1,8,13) simp: ov_ok.simps(4,7) intro: InsertRequest_ok CancelRequest_ok
  CancelAllRequests_run DestroyQueue_ok OverlayUIDidFinishDismissal_ok SetContextDelegate_ok SetWindow_ok
  SetContainerViewController_ok SetPresentationContextViewController_ok SetUIDisabled_ok BrowserDestroyed_ok\<close>)

interpretation overlay: checked_machine "ov_step U" ov_ok ov_inv for U
  by unfold_locales (rule ov_step_safe)

lemma new_overlays_inv: "ov_inv new_overlays"
  by (simp add: ov_inv_def queues_ok_def context_ok_def presenter_core_def settled_ok_def new_overlays_def new_queue_def)


section \<open>Properties\<close>

lemma SetRequest_None_same:
  "SetRequest U None s = Inr t \<Longrightarrow> same_queues s t \<and> presented_request t = presented_request s"
  by (cases "ctx_request (ctx s)"; cases "ui_states (ctx s) (the (ctx_request (ctx s)))";
      cases "has_callback (the (ui_states (ctx s) (the (ctx_request (ctx s)))))")
     (auto simp: SetRequest_def ov_fields Let_def same_queues_def split: if_splits)

lemma user_dismissal_pops:
  assumes "removed_request_awaiting_dismissal v = None" and "detached_presenting_request_queue v = None"
    and "presented_request v = Some r" and "request_storages (queues v ws) = r # rs"
    and "queue_delegate (queues v ws) = This_presenter" and "\<not> queue_destroyed (queues v ws)"
    and "has_presentation_context v" and "\<not> detached_queue_replaced_delegate v" and "ov_active_web_state v = Some ws"
    and "r \<notin> set rs"
  shows "\<exists>u. OverlayWasDismissed U r ws kUserInteraction v = PresentOverlayForActiveRequest U u \<and>
    queues u = (queues v)(ws := (queues v ws)\<lparr>request_storages := rs\<rparr>) \<and> r \<in> destroyed_requests u \<and>
    ctx u = ctx v \<and> presenting u = False \<and> presented_request u = None \<and> has_presentation_context u \<and>
    ov_active_web_state u = Some ws \<and> queue_web_state u = queue_web_state v"
proof -
  let ?q = "update_queue ws (\<lambda>q. q\<lparr>request_storages := rs\<rparr>) v"
  have "PopFrontRequest ws v = Inr (?q\<lparr>removed_request_awaiting_dismissal := Some r\<rparr>)"
    using assms by (simp add: PopFrontRequest_def RemoveRequest_def OverlayRequestRemoved_def update_queue_def
        destroy_owned_def remove_at_def Let_def)
  then have pop: "pop_if_dismissed_by_user r ws kUserInteraction v = Inr (?q\<lparr>removed_request_awaiting_dismissal := Some r\<rparr>)"
    using assms by (simp add: pop_if_dismissed_by_user_def)
  define s2 where "s2 = emit (DidHideOverlay r) ((?q\<lparr>removed_request_awaiting_dismissal := Some r\<rparr>)
      \<lparr>presenting := False, presented_request := None, detached_presenting_request_queue := None\<rparr>)"
  define u where "u = destroy_request r (s2\<lparr>removed_request_awaiting_dismissal := None\<rparr>)"
  have u: "queues u = (queues v)(ws := (queues v ws)\<lparr>request_storages := rs\<rparr>)" "r \<in> destroyed_requests u"
    "ctx u = ctx v" "presenting u = False" "presented_request u = None" "has_presentation_context u"
    "ov_active_web_state u = Some ws" "queue_web_state u = queue_web_state v"
    using assms by (simp_all add: u_def s2_def destroy_request_eq emit_def update_queue_def)
  have "GetActiveRequest u \<noteq> Some r"
    using u(1,7) assms(10) by (cases rs) (auto simp: GetActiveRequest_def GetFrontRequestForWebState_def front_request_def)
  then have "OverlayWasDismissed U r ws kUserInteraction v = PresentOverlayForActiveRequest U u"
    using assms(3,7,8) pop by (simp add: OverlayWasDismissed_def s2_def u_def destroy_owned_def Let_def emit_def)
  with u show ?thesis by blast
qed

text \<open>The overlays after the request of the dismissed overlay was popped: nothing is presented, and the context is
  still set to the old request, but shows nothing.\<close>

definition popped :: "rid \<Rightarrow> wsid \<Rightarrow> rid list \<Rightarrow> int \<Rightarrow> overlays \<Rightarrow> bool" where
  "popped r ws rs caps u \<longleftrightarrow> r \<notin> set rs \<and> request_storages (queues u ws) = rs \<and> presenting u = False \<and>
     presented_request u = None \<and> has_presentation_context u \<and> ov_active_web_state u = Some ws \<and> ctx_idle u \<and>
     ctx_request (ctx u) = Some r \<and> presentation_capabilities (ctx u) = caps \<and> (\<forall>n \<in> set rs. queue_web_state u n = Some ws)"

text \<open>The callback of the finished dismissal runs the presenter's, with the coordinator stopped.\<close>

lemma user_dismissal_runs:
  assumes "ov_inv s" and "ctx_request (ctx s) = Some r" and "settled s r" and "queue_web_state s r = Some ws"
  obtains st where "OverlayUIDidFinishDismissal U r s =
      obind (OverlayWasDismissed U r ws kUserInteraction (put_state r st s))
        (\<lambda>s1. if ctx_request (ctx s1) = Some r then SetRequest U None s1 else Inr s1)"
    and "ctx_idle (put_state r st s)"
proof -
  have ok: "context_ok s" using assms(1) by (simp add: ov_inv_def)
  obtain st co where st: "ui_states (ctx s) r = Some st" "dismissal_callback st = Some ws" "coordinator st = Some co"
    by (rule context_ok_requestE [OF ok assms(2)]) (use assms(4) in auto)
  let ?st = "st\<lparr>coordinator := Some (co\<lparr>started := False\<rparr>)\<rparr>"
  have "dismissal_reason st = kUserInteraction" using assms(3) st(1) by (simp add: settled_def)
  then have run: "OverlayUIDidFinishDismissal U r s =
      obind (OverlayWasDismissed U r ws kUserInteraction (put_state r (?st\<lparr>dismissal_callback := None\<rparr>) s))
        (\<lambda>s1. if ctx_request (ctx s1) = Some r then SetRequest U None s1 else Inr s1)"
    using st assms(2) by (simp add: OverlayUIDidFinishDismissal_def OverlayUIWasDismissed_def put_state_def)
  have "context_ok (put_state r ?st s)"
    by (rule context_ok_put [OF ok st(1), where st' = ?st]) (use st in \<open>simp_all add: put_state_def has_callback_def\<close>)
  from context_ok_mid [OF this, of r ?st] assms(2) have "ctx_idle (put_state r (?st\<lparr>dismissal_callback := None\<rparr>) s)"
    by (simp add: put_state_def)
  with run show ?thesis by (rule that)
qed

lemma user_dismissal_pops_the_request:
  assumes "ov_inv s" and "presented_request s = Some r" and "settled s r" and "ov_active_web_state s = Some ws"
  obtains rs u where "OverlayUIDidFinishDismissal U r s = obind (PresentOverlayForActiveRequest U u)
        (\<lambda>s1. if ctx_request (ctx s1) = Some r then SetRequest U None s1 else Inr s1)"
    and "request_storages (queues s ws) = r # rs" and "queues u = (queues s)(ws := (queues s ws)\<lparr>request_storages := rs\<rparr>)"
    and "r \<in> destroyed_requests u" and "popped r ws rs (presentation_capabilities (ctx s)) u"
proof -
  have inv: "queues_ok s" "context_ok s" "presenter_core s" "settled_ok s" using assms(1) by (simp_all add: ov_inv_def)
  have core: "ctx_request (ctx s) = Some r" "presenting s" "has_presentation_context s"
    "\<not> detached_queue_replaced_delegate s" using presenter_coreD(4) [OF inv(3) assms(2)] by blast+
  have act: "GetActiveRequest s = Some r" using inv(4) assms(2,3) by (simp add: settled_ok_def)
  have q: "front_request (queues s ws) = Some r" "r \<in> set (request_storages (queues s ws))" "queue_web_state s r = Some ws"
    "ws \<in> set (ov_tabs s)" "queue_delegate (queues s ws) = This_presenter" "\<not> queue_destroyed (queues s ws)"
    using queues_ok_active [OF inv(1) act] assms(4) queues_ok_tabs(4) [OF inv(1)] by auto
  obtain rs where rs: "request_storages (queues s ws) = r # rs"
    using q(1) by (auto simp: front_request_def split: list.splits)
  have dist: "r \<notin> set rs" using queues_ok_distinct [OF inv(1), of ws] rs by simp
  obtain st where run: "OverlayUIDidFinishDismissal U r s =
      obind (OverlayWasDismissed U r ws kUserInteraction (put_state r st s))
        (\<lambda>s1. if ctx_request (ctx s1) = Some r then SetRequest U None s1 else Inr s1)" and idle: "ctx_idle (put_state r st s)"
    by (rule user_dismissal_runs [OF assms(1) core(1) assms(3) q(3)])
  have "removed_request_awaiting_dismissal s = None"
    using presenter_coreD(1) [OF inv(3) core(3)] assms(2) queues_okD(3) [OF inv(1) q(2)] by auto
  moreover have "detached_presenting_request_queue s = None"
    using presenter_coreD(2) [OF inv(3) core(3) q(4)] presenter_coreD(3) [OF inv(3) core(3) assms(2)] q(3) by auto
  ultimately obtain u where u: "OverlayWasDismissed U r ws kUserInteraction (put_state r st s) = PresentOverlayForActiveRequest U u"
    "queues u = (queues s)(ws := (queues s ws)\<lparr>request_storages := rs\<rparr>)" "r \<in> destroyed_requests u"
    "ctx u = ctx (put_state r st s)" "presenting u = False" "presented_request u = None" "has_presentation_context u"
    "ov_active_web_state u = Some ws" "queue_web_state u = queue_web_state s"
    using user_dismissal_pops [of "put_state r st s" r ws rs U] assms(2,4) core rs q dist by (auto simp: put_state_def)
  have "\<forall>n \<in> set rs. queue_web_state s n = Some ws" using queues_okD(1) [OF inv(1), of _ ws] rs by auto
  then have "popped r ws rs (presentation_capabilities (ctx s)) u"
    using u idle dist core(1) by (simp add: popped_def ctx_idle_def put_state_def)
  with that run u(1-3) rs show ?thesis by simp
qed

text \<open>The next request is shown, if the context is able to.\<close>

lemma GetActiveRequest_popped: "popped r ws rs caps u \<Longrightarrow> GetActiveRequest u = (case rs of [] \<Rightarrow> None | n # _ \<Rightarrow> Some n)"
  by (simp add: popped_def GetActiveRequest_def GetFrontRequestForWebState_def front_request_def split: list.split)

lemma popped_presents_the_next:
  assumes u: "popped r ws (n # rs) caps u" and "CanShowUIForRequest U n caps"
  shows "\<exists>t. PresentOverlayForActiveRequest U u = Inr t \<and> ctx_request (ctx t) \<noteq> Some r \<and> queues t = queues u \<and>
    destroyed_requests t = destroyed_requests u \<and> presented_request t = Some n"
proof -
  define u1 where "u1 = (emit (WillShowOverlay n (n \<notin> previously_presented_requests u))
      (u\<lparr>presenting := True, presented_request := Some n\<rparr>))
      \<lparr>previously_presented_requests := insert n (previously_presented_requests u),
       completion_callbacks := (completion_callbacks u)(n := completion_callbacks u n @ [n])\<rparr>"
  have "\<not> IsShowingOverlayUI (ctx u)" using u by (simp add: popped_def IsShowing_idle)
  then have "PresentOverlayForActiveRequest U u = ShowOverlayUI U n ws u1"
    using u assms(2) GetActiveRequest_popped [OF u] by (simp add: PresentOverlayForActiveRequest_def u1_def emit_def popped_def)
  moreover have "ctx_idle u1" using u by (simp add: u1_def emit_def ctx_idle_def popped_def)
  then obtain t where "ShowOverlayUI U n ws u1 = Inr t" "same_queues u1 t" "presented_request t = presented_request u1"
    "ctx_request (ctx t) = Some n"
    using ShowOverlayUI_idle [of u1 U n ws] u assms(2) by (auto simp: u1_def emit_def popped_def)
  moreover have "n \<noteq> r" using u by (auto simp: popped_def)
  ultimately show ?thesis by (auto simp: same_queues_def u1_def emit_def)
qed

lemma popped_presents_nothing:
  assumes u: "popped r ws rs caps u" and "\<not> (\<exists>n rs'. rs = n # rs' \<and> CanShowUIForRequest U n caps)"
  shows "\<exists>u1 t. PresentOverlayForActiveRequest U u = Inr u1 \<and> ctx_request (ctx u1) = Some r \<and> SetRequest U None u1 = Inr t \<and>
    queues t = queues u \<and> destroyed_requests t = destroyed_requests u \<and> presented_request t = None"
proof -
  have showing: "\<not> IsShowingOverlayUI (ctx u)" using u by (simp add: popped_def IsShowing_idle)
  obtain u1 where u1: "PresentOverlayForActiveRequest U u = Inr u1" "same_queues u u1"
    "presented_request u1 = None" "ctx u1 = ctx u"
  proof (cases rs)
    case Nil
    then show thesis using that [of u] u GetActiveRequest_popped [OF u] by (simp add: PresentOverlayForActiveRequest_def popped_def)
  next
    case (Cons n rs')
    then show thesis
      using that [of "PrepareToShowOverlayUI U n u"] u assms(2) showing GetActiveRequest_popped [OF u]
      by (auto simp: PresentOverlayForActiveRequest_def PrepareToShowOverlayUI_def emit_def same_queues_def popped_def)
  qed
  have idle: "ctx_idle u1" "ctx_request (ctx u1) = Some r" using u u1(2,4) by (simp_all add: ctx_idle_def same_queues_def popped_def)
  then obtain st where "ui_states (ctx u1) r = Some st" "\<not> has_callback st" by (auto simp: ctx_idle_def has_callback_def)
  then obtain t where t: "SetRequest U None u1 = Inr t" using idle(2) by (simp add: SetRequest_def Let_def)
  then show ?thesis using u1 idle(2) SetRequest_None_same [OF t] by (auto simp: same_queues_def)
qed

text \<open>C7: The user dismisses the overlay that is shown for the active tab: its request leaves the
  queue and is destroyed, no other queue changes, and the next request of the tab is presented
  at once, if the context is able to show it.\<close>
theorem overlay_user_dismissal_shows_the_next_request:
  assumes "ov_inv s" and "presented_request s = Some r" and "settled s r"
    and "ov_active_web_state s = Some ws"
  shows "\<exists>t rs. OverlayUIDidFinishDismissal U r s = Inr t \<and> request_storages (queues s ws) = r # rs \<and>
    queues t = (queues s)(ws := (queues s ws)\<lparr>request_storages := rs\<rparr>) \<and> r \<in> destroyed_requests t \<and>
    presented_request t =
      (case rs of [] \<Rightarrow> None
       | n # _ \<Rightarrow> if CanShowUIForRequest U n (presentation_capabilities (ctx s)) then Some n else None)"
proof -
  obtain rs u where u: "OverlayUIDidFinishDismissal U r s = obind (PresentOverlayForActiveRequest U u)
        (\<lambda>s1. if ctx_request (ctx s1) = Some r then SetRequest U None s1 else Inr s1)"
      "request_storages (queues s ws) = r # rs" "queues u = (queues s)(ws := (queues s ws)\<lparr>request_storages := rs\<rparr>)"
      "r \<in> destroyed_requests u" "popped r ws rs (presentation_capabilities (ctx s)) u"
    by (rule user_dismissal_pops_the_request [OF assms])
  show ?thesis
  proof (cases "\<exists>n rs'. rs = n # rs' \<and> CanShowUIForRequest U n (presentation_capabilities (ctx s))")
    case True
    then obtain n rs' where "rs = n # rs'" "CanShowUIForRequest U n (presentation_capabilities (ctx s))" by blast
    then show ?thesis using popped_presents_the_next [of r ws n rs' _ u U] u by fastforce
  next
    case False
    from popped_presents_nothing [OF u(5) this] show ?thesis using u False by (auto split: list.split)
  qed
qed

text \<open>What a run on concrete calls evaluates.\<close>

lemmas ov_eval = new_overlays_def new_queue_def SetContainerViewController_def UpdatePresentationCapabilities_def
  ConstructPresentationCapabilities_def WillChangePresentationCapabilities_def present_if_idle_def
  PresentOverlayForActiveRequest_def IsShowingOverlayUI_def GetRequestUIState_def GetActiveRequest_def
  GetFrontRequestForWebState_def observe_tabs_def WebStateAddedToBrowser_def SetDelegate_def update_queue_def
  SetActiveWebState_def InsertRequest_def RequestAddedToQueue_def front_request_def CanShowUIForRequest_def
  GetRequiredPresentationCapabilities_def kNone_def kContained_def kPresented_def emit_def ShowOverlayUI_def
  OverlayPresentionRequested_def new_ui_state_def SetRequest_def put_state_def set_ctx_request_def
  ShowUIForPresentedRequest_def GetBaseViewController_def OverlayWasPresented_def has_callback_def
  insert_at_def
  SetContextDelegate_def SetPresentationContext_def CancelAllOverlayUI_def CancelOverlayUIForRequest_def
  HideOverlayUI_def DismissPresentedUI_def stop_coordinator_def settled_def Let_def

definition demo_env :: overlay_env where
  "demo_env = \<lparr>uses_child_view_controller = (\<lambda>_. True), stops_at_once = (\<lambda>_. False)\<rparr>"

text \<open>Two tabs with two and one requests; the first request of the first tab is shown.\<close>

definition demo_ops :: "ov_op list" where
  "demo_ops = [Ov_SetDelegate (Some 1), Ov_SetContainerViewController (Some 1),
     Ov_Tabs (Tab_inserted 10 0 True), Ov_Tabs (Tab_inserted 11 1 False), Ov_InsertRequest 10 0 1,
     Ov_InsertRequest 10 1 2, Ov_InsertRequest 11 0 4]"


lemma demo_admissible: "admissible (ov_step demo_env) ov_ok new_overlays demo_ops"
  by (simp add: demo_ops_def demo_env_def ov_eval still_leaving_def may_switch_def)


text \<open>The run does not fault and leads to a state with the property.\<close>

fun leads_to :: "'a outcome \<Rightarrow> ('a \<Rightarrow> bool) \<Rightarrow> bool" where
  "leads_to (Inl e) P = False"
| "leads_to (Inr x) P = P x"

lemma demo_run:
  "leads_to (orun (ov_step demo_env) new_overlays demo_ops)
     (\<lambda>s. presented_request s = Some 1 \<and> settled s 1 \<and> ov_active_web_state s = Some 10 \<and>
        request_storages (queues s 10) = [1, 2] \<and>
        CanShowUIForRequest demo_env 2 (presentation_capabilities (ctx s)))"
  by (simp add: demo_ops_def demo_env_def ov_eval)

theorem overlay_user_dismissal_shows_the_next_request_witness:
  "\<exists>s t. orun (ov_step demo_env) new_overlays demo_ops = Inr s \<and>
    OverlayUIDidFinishDismissal demo_env 1 s = Inr t \<and> presented_request t = Some 2"
proof -
  obtain s where s: "orun (ov_step demo_env) new_overlays demo_ops = Inr s" "ov_inv s"
    using overlay.run_safe [OF new_overlays_inv demo_admissible] by blast
  have "presented_request s = Some 1 \<and> settled s 1 \<and> ov_active_web_state s = Some 10 \<and>
        request_storages (queues s 10) = [1, 2] \<and>
        CanShowUIForRequest demo_env 2 (presentation_capabilities (ctx s))"
    using demo_run s(1) by simp
  then show ?thesis
    using overlay_user_dismissal_shows_the_next_request [OF s(2), of 1 10 demo_env] s(1) by auto
qed

text \<open>While the UI of a tab is being dismissed after a switch to another tab that has a
  request of its own, a second switch asks the context to hide the UI of that request, which is
  not the one shown, and fails the DCHECK in HideOverlayUI.\<close>
theorem overlay_second_switch_faults:
  "\<exists>s. orun (ov_step demo_env) new_overlays (demo_ops @ [Ov_Tabs (Tab_activated 11)]) = Inr s \<and>
    ov_step demo_env s (Ov_Tabs (Tab_activated 10)) = Inl Dcheck_failed"
proof -
  have "leads_to (orun (ov_step demo_env) new_overlays (demo_ops @ [Ov_Tabs (Tab_activated 11)]))
      (\<lambda>s. case ov_step demo_env s (Ov_Tabs (Tab_activated 10)) of Inl e \<Rightarrow> e = Dcheck_failed | Inr _ \<Rightarrow> False)"
    by (simp add: demo_ops_def demo_env_def ov_eval)
  then show ?thesis
    by (cases "orun (ov_step demo_env) new_overlays (demo_ops @ [Ov_Tabs (Tab_activated 11)])")
       (auto split: sum.splits)
qed
end
