(* ===== verification/Url_Downloader.thy ===== *)
theory Url_Downloader
  imports Wk_Navigation_Util
begin

text \<open>
  The downloader of the reading list, \<open>chrome/browser/reading_list/url_downloader.{h,cc}\<close>: a
  queue of tasks that keeps or deletes the offline copy of a URL, one at a time.  Every task is
  a chain of asynchronous steps (look for the copy, distil the page, fetch a PDF, write the
  file, clean up), and \<open>awaiting\<close> is the one the downloader waits for: the code keeps it in
  the message loop, as a posted task with a bound reply.

  The file system is part of the state (\<open>offline_dirs\<close>: for the directory of a URL its files),
  since the background tasks change it; whether an operation on it succeeds is decided by the
  environment (\<open>io_result\<close>).  The URL functions of \<open>components/reading_list\<close>, the distiller, the
  image sniffer and the encoders are parameters (\<open>dl_env\<close>).
\<close>

section \<open>Data\<close>

datatype TaskType = DELETE | DOWNLOAD

datatype SuccessState = DOWNLOAD_SUCCESS | DOWNLOAD_EXISTS | ERROR

datatype offline_type = OFFLINE_TYPE_HTML | OFFLINE_TYPE_PDF

record 'u image_info =
  image_url :: 'u
  image_data :: string

record 'u dl_env = "'u gurl_ops" +
  scheme_is_cryptographic :: "'u \<Rightarrow> bool"
  OfflineURLDirectoryAbsolutePath :: "'u \<Rightarrow> string"
  OfflinePagePath :: "'u \<Rightarrow> offline_type \<Rightarrow> string"
  json_string :: "string \<Rightarrow> string"
  base64_encode :: "string \<Rightarrow> string"
  sniff_mime_type :: "string \<Rightarrow> string option"
  replace_string_placeholders :: "string \<Rightarrow> string list \<Rightarrow> string"
  csp_nonce :: "'u \<Rightarrow> string"

record io_result =
  deletes :: bool
  creates :: bool
  moves :: bool
  written :: int

datatype 'u awaiting =
    Nothing
  | Deleting 'u
  | Checking 'u
  | Distilling 'u
  | Loading_pdf 'u
  | Saving_pdf 'u string string
  | Saving_html 'u "'u image_info list" string string
  | Cleaning 'u string string

datatype 'u dl_event =
    Download_completed 'u 'u SuccessState string int string
  | Delete_completed 'u bool

record 'u url_downloader =
  tasks :: "(TaskType \<times> 'u) list"
  working :: bool
  original_url :: 'u
  distilled_url :: 'u
  saved_size :: int
  mime_type :: string
  url_loader :: "'u option"
  distiller :: "'u option"
  awaiting :: "'u awaiting"
  offline_dirs :: "string \<Rightarrow> (string \<Rightarrow> string option) option"
  dl_events :: "'u dl_event list"

definition kDisableImageContextMenuScript :: string where
  "kDisableImageContextMenuScript =
     ''<script nonce=\"$1\">document.addEventListener('DOMContentLoaded', function (event) {'' @
     ''    var imgMenuDisabler = document.createElement('style');'' @
     ''    imgMenuDisabler.innerHTML = 'img { -webkit-touch-callout: none; }';'' @
     ''    document.head.appendChild(imgMenuDisabler);}, false);</script>''"

definition kReplaceDownloadedImagesScript :: string where
  "kReplaceDownloadedImagesScript =
     ''<script nonce=\"$1\">document.addEventListener('DOMContentLoaded', function (event) {'' @
     ''    var imgData = {};    $2    var imgTags = document.getElementsByTagName(\"img\");'' @
     ''    for(image of imgTags) {        image.src = imgData[image.src] || image.src;    }'' @
     ''}, false);</script>''"

definition pdf_mime_type :: string where "pdf_mime_type = ''application/pdf''"

section \<open>The queue of tasks\<close>

definition HandleNextTask :: "'u url_downloader \<Rightarrow> 'u url_downloader outcome" where
  "HandleNextTask s =
     (if working s then Inr s
      else case tasks s of
        [] \<Rightarrow> Inr s
      | (DELETE, url) # rest \<Rightarrow> Inr (s\<lparr>working := True, tasks := rest, awaiting := Deleting url\<rparr>)
      | (DOWNLOAD, url) # rest \<Rightarrow>
          dcheck (distiller s = None) (Inr (s\<lparr>working := True, tasks := rest, awaiting := Checking url\<rparr>)))"

definition CancelDownloadOfflineURL :: "'u \<Rightarrow> 'u url_downloader \<Rightarrow> 'u url_downloader" where
  "CancelDownloadOfflineURL url s = s\<lparr>tasks := removeAll (DOWNLOAD, url) (tasks s)\<rparr>"

definition RemoveOfflineURL :: "'u \<Rightarrow> 'u url_downloader \<Rightarrow> 'u url_downloader outcome" where
  "RemoveOfflineURL url s =
     (let s1 = CancelDownloadOfflineURL url s
      in HandleNextTask (s1\<lparr>tasks := tasks s1 @ [(DELETE, url)]\<rparr>))"

definition DownloadOfflineURL :: "'u \<Rightarrow> 'u url_downloader \<Rightarrow> 'u url_downloader outcome" where
  "DownloadOfflineURL url s =
     (if (DOWNLOAD, url) \<in> set (tasks s) then Inr s
      else HandleNextTask (s\<lparr>tasks := tasks s @ [(DOWNLOAD, url)]\<rparr>))"

definition CancelTask :: "'u url_downloader \<Rightarrow> 'u url_downloader" where
  "CancelTask s = s\<lparr>awaiting := (case awaiting s of Loading_pdf u \<Rightarrow> Loading_pdf u | _ \<Rightarrow> Nothing),
     distiller := None\<rparr>"

section \<open>Completion\<close>

definition post_delete ::
    "'u \<Rightarrow> string \<Rightarrow> string \<Rightarrow> SuccessState \<Rightarrow> 'u url_downloader \<Rightarrow> 'u url_downloader outcome" where
  "post_delete url title offline_path success s =
     HandleNextTask (s\<lparr>dl_events := dl_events s @
         [Download_completed url (distilled_url s) success offline_path (saved_size s) title],
       distiller := None, working := False, awaiting := Nothing\<rparr>)"

definition DownloadCompletionHandler ::
    "'u \<Rightarrow> string \<Rightarrow> string \<Rightarrow> SuccessState \<Rightarrow> 'u url_downloader \<Rightarrow> 'u url_downloader outcome" where
  "DownloadCompletionHandler url title offline_path success s =
     dcheck (working s)
     (if success = ERROR then Inr (s\<lparr>awaiting := Cleaning url title offline_path\<rparr>)
      else post_delete url title offline_path success s)"

definition DeleteCompletionHandler :: "'u \<Rightarrow> bool \<Rightarrow> 'u url_downloader \<Rightarrow> 'u url_downloader outcome" where
  "DeleteCompletionHandler url success s =
     dcheck (working s)
     (HandleNextTask (s\<lparr>dl_events := dl_events s @ [Delete_completed url success],
        working := False, awaiting := Nothing\<rparr>))"

section \<open>Downloading\<close>

definition DownloadURL :: "'u \<Rightarrow> bool \<Rightarrow> 'u url_downloader \<Rightarrow> 'u url_downloader outcome" where
  "DownloadURL url offline_url_exists s =
     (if offline_url_exists then DownloadCompletionHandler url [] [] DOWNLOAD_EXISTS s
      else Inr (s\<lparr>original_url := url, distilled_url := url, saved_size := 0, distiller := Some url,
                  awaiting := Distilling url\<rparr>))"

definition DistilledPageRedirectedToURL ::
    "'u \<Rightarrow> 'u \<Rightarrow> 'u url_downloader \<Rightarrow> 'u url_downloader outcome" where
  "DistilledPageRedirectedToURL page_url redirected_url s =
     dcheck (original_url s = page_url) (Inr (s\<lparr>distilled_url := redirected_url\<rparr>))"

definition DistilledPageHasMimeType ::
    "'u \<Rightarrow> string \<Rightarrow> 'u url_downloader \<Rightarrow> 'u url_downloader outcome" where
  "DistilledPageHasMimeType page_url mime s =
     dcheck (original_url s = page_url) (Inr (s\<lparr>mime_type := mime\<rparr>))"

definition FetchPDFFile :: "('u, 'z) dl_env_scheme \<Rightarrow> 'u url_downloader \<Rightarrow> 'u url_downloader" where
  "FetchPDFFile E s =
     (let pdf_url = (if is_valid E (distilled_url s) then distilled_url s else original_url s)
      in s\<lparr>url_loader := Some pdf_url, awaiting := Loading_pdf pdf_url\<rparr>)"

text \<open>\<open>response\<close> is the temporary file with its contents, \<open>response_mime_type\<close> the MIME type of
  the response, if there was one.\<close>

definition OnURLLoadComplete ::
    "('u, 'z) dl_env_scheme \<Rightarrow> 'u \<Rightarrow> string option \<Rightarrow> string option \<Rightarrow>
     'u url_downloader \<Rightarrow> 'u url_downloader outcome" where
  "OnURLLoadComplete E url response response_mime_type s =
     dcheck (mime_type s = pdf_mime_type)
     (let path = OfflinePagePath E (original_url s) OFFLINE_TYPE_PDF;
          mime = (case response_mime_type of None \<Rightarrow> [] | Some m \<Rightarrow> m)
      in case response of
           None \<Rightarrow> DownloadCompletionHandler (original_url s) [] path ERROR s
         | Some contents \<Rightarrow>
             if mime \<noteq> mime_type s then DownloadCompletionHandler (original_url s) [] path ERROR s
             else Inr (s\<lparr>awaiting := Saving_pdf url contents path, url_loader := None\<rparr>))"

definition DistillerCallback ::
    "('u, 'z) dl_env_scheme \<Rightarrow> 'u \<Rightarrow> string \<Rightarrow> 'u image_info list \<Rightarrow> string \<Rightarrow>
     'u url_downloader \<Rightarrow> 'u url_downloader outcome" where
  "DistillerCallback E page_url html images title s =
     (if html = [] then
        (if mime_type s = pdf_mime_type then Inr (FetchPDFFile E s)
         else DownloadCompletionHandler page_url [] [] ERROR s)
      else Inr (s\<lparr>awaiting := Saving_html page_url images html title\<rparr>))"

section \<open>Saving\<close>

definition CreateOfflineURLDirectory ::
    "('u, 'z) dl_env_scheme \<Rightarrow> io_result \<Rightarrow> 'u \<Rightarrow> 'u url_downloader \<Rightarrow> bool \<times> 'u url_downloader" where
  "CreateOfflineURLDirectory E io url s =
     (let d = OfflineURLDirectoryAbsolutePath E url
      in if offline_dirs s d \<noteq> None then (True, s)
         else if creates io then (True, s\<lparr>offline_dirs := (offline_dirs s)(d \<mapsto> (\<lambda>_. None))\<rparr>)
         else (False, s))"

text \<open>Writes a file into an existing directory.\<close>

definition write_file :: "string \<Rightarrow> string \<Rightarrow> string \<Rightarrow> 'u url_downloader \<Rightarrow> 'u url_downloader" where
  "write_file d path contents s =
     s\<lparr>offline_dirs := (offline_dirs s)(d := map_option (\<lambda>files. files(path \<mapsto> contents)) (offline_dirs s d))\<rparr>"

definition SavePDFFile ::
    "('u, 'z) dl_env_scheme \<Rightarrow> io_result \<Rightarrow> string \<Rightarrow> 'u url_downloader \<Rightarrow> SuccessState \<times> 'u url_downloader" where
  "SavePDFFile E io contents s =
     (let (ok, s1) = CreateOfflineURLDirectory E io (original_url s) s in
      if ok then
        (if moves io then
           (DOWNLOAD_SUCCESS,
            (write_file (OfflineURLDirectoryAbsolutePath E (original_url s))
               (OfflinePagePath E (original_url s) OFFLINE_TYPE_PDF) contents s1)
              \<lparr>saved_size := saved_size s1 + int (length contents)\<rparr>)
         else (ERROR, s1))
      else (ERROR, s1))"

definition inlined_image :: "('u, 'z) dl_env_scheme \<Rightarrow> 'u \<Rightarrow> 'u image_info \<Rightarrow> string option" where
  "inlined_image E distilled img =
     (if url_scheme E (image_url img) = ''data'' then None
      else
        let image_is_mixed_content =
              (scheme_is_cryptographic E distilled \<and> \<not> scheme_is_cryptographic E (image_url img))
        in if image_is_mixed_content \<or> \<not> is_valid E (image_url img) \<or> image_data img = [] then None
           else case sniff_mime_type E (image_data img) of
             None \<Rightarrow> None
           | Some sniffed_type \<Rightarrow>
               if take 6 sniffed_type \<noteq> ''image/'' then None
               else Some (''imgData['' @ json_string E (spec E (image_url img)) @ ''] = \"'' @
                      (''data:image/png;base64,'' @ base64_encode E (image_data img)) @ ''\";''))"

definition ReplaceImagesInHTML ::
    "('u, 'z) dl_env_scheme \<Rightarrow> 'u \<Rightarrow> string \<Rightarrow> 'u image_info list \<Rightarrow> 'u url_downloader \<Rightarrow> string" where
  "ReplaceImagesInHTML E url html images s =
     (let inlined = List.map_filter (inlined_image E (distilled_url s)) images;
          image_js = concat inlined;
          nonce = (case distiller s of None \<Rightarrow> [] | Some u \<Rightarrow> csp_nonce E u)
      in if inlined \<noteq> [] then
           html @ replace_string_placeholders E kDisableImageContextMenuScript [nonce] @
           replace_string_placeholders E kReplaceDownloadedImagesScript [nonce, image_js]
         else html)"

definition SaveHTMLForURL ::
    "('u, 'z) dl_env_scheme \<Rightarrow> io_result \<Rightarrow> string \<Rightarrow> 'u \<Rightarrow> 'u url_downloader \<Rightarrow> bool \<times> 'u url_downloader" where
  "SaveHTMLForURL E io html url s =
     (if html = [] then (False, s)
      else if written io \<le> 0 then (False, s)
      else (True, (write_file (OfflineURLDirectoryAbsolutePath E url)
                     (OfflinePagePath E url OFFLINE_TYPE_HTML) (take (nat (written io)) html) s)
                    \<lparr>saved_size := saved_size s + written io\<rparr>))"

definition SaveDistilledHTML ::
    "('u, 'z) dl_env_scheme \<Rightarrow> io_result \<Rightarrow> 'u \<Rightarrow> 'u image_info list \<Rightarrow> string \<Rightarrow>
     'u url_downloader \<Rightarrow> SuccessState \<times> 'u url_downloader" where
  "SaveDistilledHTML E io url images html s =
     (let (ok, s1) = CreateOfflineURLDirectory E io url s in
      if ok then
        (let (saved, s2) = SaveHTMLForURL E io (ReplaceImagesInHTML E url html images s1) url s1
         in (if saved then DOWNLOAD_SUCCESS else ERROR, s2))
      else (ERROR, s1))"

section \<open>Runs\<close>

definition delete_path_recursively :: "io_result \<Rightarrow> string \<Rightarrow> 'u url_downloader \<Rightarrow> 'u url_downloader" where
  "delete_path_recursively io d s =
     (if deletes io then s\<lparr>offline_dirs := (offline_dirs s)(d := None)\<rparr> else s)"

text \<open>The background task that the downloader waits for runs, and its reply.\<close>

definition run_background_task ::
    "('u, 'z) dl_env_scheme \<Rightarrow> io_result \<Rightarrow> 'u url_downloader \<Rightarrow> 'u url_downloader outcome" where
  "run_background_task E io s =
     (case awaiting s of
        Deleting url \<Rightarrow>
          DeleteCompletionHandler url (deletes io)
            (delete_path_recursively io (OfflineURLDirectoryAbsolutePath E url) s)
      | Checking url \<Rightarrow> DownloadURL url (offline_dirs s (OfflineURLDirectoryAbsolutePath E url) \<noteq> None) s
      | Saving_pdf url contents path \<Rightarrow>
          (let (success, s1) = SavePDFFile E io contents s in DownloadCompletionHandler url [] path success s1)
      | Saving_html url images html title \<Rightarrow>
          (let (success, s1) = SaveDistilledHTML E io url images html s
           in DownloadCompletionHandler url title (OfflinePagePath E url OFFLINE_TYPE_HTML) success s1)
      | Cleaning url title path \<Rightarrow>
          post_delete url title path ERROR
            (delete_path_recursively io (OfflineURLDirectoryAbsolutePath E url) s)
      | _ \<Rightarrow> Inr s)"

datatype 'u dl_op =
    Dl_Download 'u
  | Dl_Remove 'u
  | Dl_CancelDownload 'u
  | Dl_CancelTask
  | Dl_Background io_result
  | Dl_Redirected 'u 'u
  | Dl_MimeType 'u string
  | Dl_Distilled string "'u image_info list" string
  | Dl_Loaded "string option" "string option"

fun dl_step :: "('u, 'z) dl_env_scheme \<Rightarrow> 'u url_downloader \<Rightarrow> 'u dl_op \<Rightarrow> 'u url_downloader outcome" where
  "dl_step E s (Dl_Download url) = DownloadOfflineURL url s"
| "dl_step E s (Dl_Remove url) = RemoveOfflineURL url s"
| "dl_step E s (Dl_CancelDownload url) = Inr (CancelDownloadOfflineURL url s)"
| "dl_step E s Dl_CancelTask = Inr (CancelTask s)"
| "dl_step E s (Dl_Background io) = run_background_task E io s"
| "dl_step E s (Dl_Redirected page_url url) = DistilledPageRedirectedToURL page_url url s"
| "dl_step E s (Dl_MimeType page_url mime) = DistilledPageHasMimeType page_url mime s"
| "dl_step E s (Dl_Distilled html images title) =
     (case awaiting s of Distilling url \<Rightarrow> DistillerCallback E url html images title s | _ \<Rightarrow> Inr s)"
| "dl_step E s (Dl_Loaded response mime) =
     (case awaiting s of Loading_pdf url \<Rightarrow> OnURLLoadComplete E url response mime s | _ \<Rightarrow> Inr s)"

definition new_url_downloader :: "('u, 'z) dl_env_scheme \<Rightarrow> 'u url_downloader" where
  "new_url_downloader E =
     \<lparr>tasks = [], working = False, original_url = empty_gurl E, distilled_url = empty_gurl E,
      saved_size = 0, mime_type = [], url_loader = None, distiller = None, awaiting = Nothing,
      offline_dirs = (\<lambda>_. None), dl_events = []\<rparr>"

end
