(* ===== verification/Url_Downloader_Props.thy ===== *)
theory Url_Downloader_Props
  imports Url_Downloader
begin

text \<open>
  The downloader of the reading list: every admissible run keeps the invariant \<open>dl_inv\<close> (one
  task at a time, a distiller exactly while a page is being saved), every task ends after a
  bounded number of answers of the environment (\<open>remaining\<close>), a removal wins over the downloads
  of its URL, and a PDF behind a redirect is reported under the wrong URL.
\<close>

section \<open>The invariant\<close>

fun awaiting_ok :: "'u awaiting \<Rightarrow> 'u option \<Rightarrow> 'u \<Rightarrow> string \<Rightarrow> bool" where
  "awaiting_ok (Distilling u) d original mime \<longleftrightarrow> d = Some u \<and> original = u"
| "awaiting_ok (Loading_pdf _) d original mime \<longleftrightarrow> d = Some original \<and> mime = pdf_mime_type"
| "awaiting_ok (Saving_pdf _ _ _) d original mime \<longleftrightarrow> d = Some original"
| "awaiting_ok (Saving_html u _ _ _) d original mime \<longleftrightarrow> d = Some u \<and> original = u"
| "awaiting_ok (Cleaning _ _ _) d original mime \<longleftrightarrow> True"
| "awaiting_ok _ d original mime \<longleftrightarrow> d = None"

definition dl_inv :: "'u url_downloader \<Rightarrow> bool" where
  "dl_inv s \<longleftrightarrow> working s = (awaiting s \<noteq> Nothing) \<and> (\<not> working s \<longrightarrow> tasks s = []) \<and>
     distinct (filter (\<lambda>t. fst t = DOWNLOAD) (tasks s)) \<and>
     awaiting_ok (awaiting s) (distiller s) (original_url s) (mime_type s)"

text \<open>What the environment does: the background task that runs is the outstanding one, the
  distiller and the loader call back once, for their own page, and nobody cancels the task
  that is being handled (\<open>CancelTask\<close> has no caller).\<close>

fun dl_ok :: "'u url_downloader \<Rightarrow> 'u dl_op \<Rightarrow> bool" where
  "dl_ok s Dl_CancelTask \<longleftrightarrow> \<not> working s"
| "dl_ok s (Dl_Background io) \<longleftrightarrow>
     (case awaiting s of Nothing \<Rightarrow> False | Distilling _ \<Rightarrow> False | Loading_pdf _ \<Rightarrow> False | _ \<Rightarrow> True)"
| "dl_ok s (Dl_Redirected p u) \<longleftrightarrow> awaiting s = Distilling p"
| "dl_ok s (Dl_MimeType p m) \<longleftrightarrow> awaiting s = Distilling p"
| "dl_ok s (Dl_Distilled h i t) \<longleftrightarrow> (case awaiting s of Distilling _ \<Rightarrow> True | _ \<Rightarrow> False)"
| "dl_ok s (Dl_Loaded r m) \<longleftrightarrow> (case awaiting s of Loading_pdf _ \<Rightarrow> True | _ \<Rightarrow> False)"
| "dl_ok s _ \<longleftrightarrow> True"

text \<open>Between two tasks.\<close>

definition dl_idle :: "'u url_downloader \<Rightarrow> bool" where
  "dl_idle s \<longleftrightarrow> \<not> working s \<and> awaiting s = Nothing \<and> distiller s = None \<and>
     distinct (filter (\<lambda>t. fst t = DOWNLOAD) (tasks s))"

lemma HandleNextTask_idle:
  assumes "dl_idle s"
  shows "\<exists>t. HandleNextTask s = Inr t \<and> dl_inv t"
proof (cases "tasks s")
  case Nil
  then show ?thesis using assms by (auto simp: HandleNextTask_def dl_idle_def dl_inv_def)
next
  case (Cons task rest)
  then show ?thesis using assms
    by (cases task; cases "fst task") (auto simp: HandleNextTask_def dl_idle_def dl_inv_def split: if_splits)
qed

lemma HandleNextTask_working: "working s \<Longrightarrow> HandleNextTask s = Inr s"
  by (simp add: HandleNextTask_def)

text \<open>What a step of a file operation leaves alone.\<close>

definition same_tasks :: "'u url_downloader \<Rightarrow> 'u url_downloader \<Rightarrow> bool" where
  "same_tasks s t \<longleftrightarrow> tasks t = tasks s \<and> working t = working s \<and> awaiting t = awaiting s \<and>
     distiller t = distiller s \<and> original_url t = original_url s \<and> distilled_url t = distilled_url s \<and>
     mime_type t = mime_type s \<and> dl_events t = dl_events s"

lemma same_tasks_refl [simp]: "same_tasks s s"
  by (simp add: same_tasks_def)

lemma same_tasks_delete [simp]: "same_tasks s (delete_path_recursively io d s)"
  by (simp add: same_tasks_def delete_path_recursively_def)

lemma same_tasks_create: "CreateOfflineURLDirectory E io url s = (ok, t) \<Longrightarrow> same_tasks s t"
  by (auto simp: CreateOfflineURLDirectory_def same_tasks_def Let_def split: if_splits)

lemma same_tasks_save_pdf: "SavePDFFile E io contents s = (success, t) \<Longrightarrow> same_tasks s t"
  using same_tasks_create [of E io "original_url s" s]
  by (auto simp: SavePDFFile_def same_tasks_def write_file_def split: prod.splits if_splits)

lemma same_tasks_save_html:
  assumes "SaveDistilledHTML E io url images html s = (success, t)"
  shows "same_tasks s t"
proof -
  obtain ok s1 where c: "CreateOfflineURLDirectory E io url s = (ok, s1)" by fastforce
  then have "same_tasks s s1" by (rule same_tasks_create)
  then show ?thesis using assms c
    by (auto simp: SaveDistilledHTML_def SaveHTMLForURL_def same_tasks_def write_file_def
        split: prod.splits if_splits)
qed

lemma DownloadCompletion_ok:
  assumes "working s" and "distinct (filter (\<lambda>t. fst t = DOWNLOAD) (tasks s))"
  shows "\<exists>t. DownloadCompletionHandler url title path success s = Inr t \<and> dl_inv t"
proof (cases "success = ERROR")
  case True
  then show ?thesis using assms by (simp add: DownloadCompletionHandler_def dl_inv_def)
next
  case False
  then show ?thesis using assms
    by (simp add: DownloadCompletionHandler_def post_delete_def HandleNextTask_idle dl_idle_def)
qed

lemma run_background_task_ok:
  assumes "dl_inv s" and "dl_ok s (Dl_Background io)"
  shows "\<exists>t. run_background_task E io s = Inr t \<and> dl_inv t"
proof -
  have d: "distinct (filter (\<lambda>t. fst t = DOWNLOAD) (tasks s))" and w: "working s = (awaiting s \<noteq> Nothing)"
    and a: "awaiting_ok (awaiting s) (distiller s) (original_url s) (mime_type s)"
    using assms(1) by (simp_all add: dl_inv_def)
  show ?thesis
  proof (cases "awaiting s")
    case (Deleting url)
    then show ?thesis using a d w same_tasks_delete [of s io "OfflineURLDirectoryAbsolutePath E url"]
      by (simp add: run_background_task_def DeleteCompletionHandler_def same_tasks_def dl_idle_def HandleNextTask_idle)
  next
    case (Checking url)
    then show ?thesis using assms(1) d w DownloadCompletion_ok [of s]
      by (auto simp: run_background_task_def DownloadURL_def dl_inv_def)
  next
    case (Saving_pdf url contents path)
    obtain success s1 where s1: "SavePDFFile E io contents s = (success, s1)" by fastforce
    then show ?thesis using Saving_pdf d w same_tasks_save_pdf [OF s1] DownloadCompletion_ok [of s1]
      by (simp add: run_background_task_def same_tasks_def)
  next
    case (Saving_html url images html title)
    obtain success s1 where s1: "SaveDistilledHTML E io url images html s = (success, s1)" by fastforce
    then show ?thesis using Saving_html d w same_tasks_save_html [OF s1] DownloadCompletion_ok [of s1]
      by (simp add: run_background_task_def same_tasks_def)
  next
    case (Cleaning url title path)
    then show ?thesis using d same_tasks_delete [of s io "OfflineURLDirectoryAbsolutePath E url"]
      by (simp add: run_background_task_def post_delete_def same_tasks_def dl_idle_def HandleNextTask_idle)
  qed (use assms(2) in simp_all)
qed

lemma dl_inv_tasks:
  assumes "dl_inv s" and "working s" and "distinct (filter (\<lambda>t. fst t = DOWNLOAD) ts)"
  shows "dl_inv (s\<lparr>tasks := ts\<rparr>)"
  using assms by (simp add: dl_inv_def)

lemma distinct_downloads_removeAll:
  "distinct (filter P xs) \<Longrightarrow> distinct (filter P (removeAll x xs))"
  by (induction xs) auto

lemma enqueue_ok:
  assumes "dl_inv s" and "distinct (filter (\<lambda>t. fst t = DOWNLOAD) ts)"
  shows "\<exists>t. HandleNextTask (s\<lparr>tasks := ts\<rparr>) = Inr t \<and> dl_inv t"
proof (cases "working s")
  case True
  then show ?thesis using dl_inv_tasks [OF assms(1) True assms(2)] by (simp add: HandleNextTask_working)
next
  case False
  then show ?thesis using assms by (intro HandleNextTask_idle) (auto simp: dl_idle_def dl_inv_def)
qed

lemma dl_step_safe:
  assumes "dl_inv s" and "dl_ok s x"
  shows "\<exists>t. dl_step E s x = Inr t \<and> dl_inv t"
proof -
  have d: "distinct (filter (\<lambda>t. fst t = DOWNLOAD) (tasks s))" using assms(1) by (simp add: dl_inv_def)
  note removed = distinct_downloads_removeAll [OF d]
  show ?thesis
  proof (cases x)
    case (Dl_Download url)
    then show ?thesis using assms(1) d by (auto simp: DownloadOfflineURL_def intro: enqueue_ok)
  next
    case (Dl_Remove url)
    have "distinct (filter (\<lambda>t. fst t = DOWNLOAD) (removeAll (DOWNLOAD, url) (tasks s) @ [(DELETE, url)]))"
      using removed by simp
    from enqueue_ok [OF assms(1) this] show ?thesis using Dl_Remove
      by (simp add: RemoveOfflineURL_def CancelDownloadOfflineURL_def)
  next
    case (Dl_CancelDownload url)
    then show ?thesis using assms(1) removed by (auto simp: CancelDownloadOfflineURL_def dl_inv_def)
  next
    case Dl_CancelTask
    then show ?thesis using assms by (simp add: CancelTask_def dl_inv_def)
  next
    case (Dl_Background io)
    then show ?thesis using run_background_task_ok assms by simp
  next
    case (Dl_Redirected p u)
    then show ?thesis using assms by (simp add: DistilledPageRedirectedToURL_def dl_inv_def)
  next
    case (Dl_MimeType p m)
    then show ?thesis using assms by (simp add: DistilledPageHasMimeType_def dl_inv_def)
  next
    case (Dl_Distilled html images title)
    then obtain u where u: "awaiting s = Distilling u" using assms(2) by (auto split: awaiting.splits)
    show ?thesis
    proof (cases "html = [] \<and> mime_type s \<noteq> pdf_mime_type")
      case True
      then show ?thesis using Dl_Distilled u assms(1) DownloadCompletion_ok [of s]
        by (simp add: DistillerCallback_def dl_inv_def)
    next
      case False
      then show ?thesis using Dl_Distilled u assms(1)
        by (auto simp: DistillerCallback_def FetchPDFFile_def dl_inv_def Let_def)
    qed
  next
    case (Dl_Loaded response mime)
    then obtain u where u: "awaiting s = Loading_pdf u" using assms(2) by (auto split: awaiting.splits)
    have f: "mime_type s = pdf_mime_type" "working s" using assms(1) u by (simp_all add: dl_inv_def)
    show ?thesis
    proof (cases response)
      case None
      then show ?thesis using Dl_Loaded u f d DownloadCompletion_ok [of s] by (simp add: OnURLLoadComplete_def)
    next
      case (Some c)
      then show ?thesis using Dl_Loaded u f d assms(1) DownloadCompletion_ok [of s]
        by (simp add: OnURLLoadComplete_def Let_def) (simp add: dl_inv_def)
    qed
  qed
qed

interpretation downloader: checked_machine "dl_step E" dl_ok dl_inv for E
  by unfold_locales (rule dl_step_safe)

lemma new_url_downloader_inv [simp]: "dl_inv (new_url_downloader E)"
  by (simp add: dl_inv_def new_url_downloader_def)

section \<open>Every task ends\<close>

fun awaiting_weight :: "'u awaiting \<Rightarrow> nat" where
  "awaiting_weight Nothing = 0"
| "awaiting_weight (Deleting _) = 1"
| "awaiting_weight (Checking _) = 5"
| "awaiting_weight (Distilling _) = 4"
| "awaiting_weight (Loading_pdf _) = 3"
| "awaiting_weight (Saving_pdf _ _ _) = 2"
| "awaiting_weight (Saving_html _ _ _ _) = 2"
| "awaiting_weight (Cleaning _ _ _) = 1"

text \<open>How many answers of the environment the tasks still need at most.\<close>

definition remaining :: "'u url_downloader \<Rightarrow> nat" where
  "remaining s = awaiting_weight (awaiting s) +
     sum_list (map (\<lambda>t. if fst t = DELETE then 1 else 5) (tasks s))"

text \<open>The environment's calls, and those among them that answer the downloader.\<close>

fun is_answer :: "'u dl_op \<Rightarrow> bool" where
  "is_answer (Dl_Background _) \<longleftrightarrow> True"
| "is_answer (Dl_Distilled _ _ _) \<longleftrightarrow> True"
| "is_answer (Dl_Loaded _ _) \<longleftrightarrow> True"
| "is_answer _ \<longleftrightarrow> False"

fun from_environment :: "'u dl_op \<Rightarrow> bool" where
  "from_environment (Dl_Redirected _ _) \<longleftrightarrow> True"
| "from_environment (Dl_MimeType _ _) \<longleftrightarrow> True"
| "from_environment x \<longleftrightarrow> is_answer x"

lemma HandleNextTask_remaining:
  assumes "HandleNextTask s = Inr t" and "awaiting s = Nothing"
  shows "remaining t = remaining s"
  using assms by (auto simp: HandleNextTask_def remaining_def split: if_splits list.splits prod.splits TaskType.splits)

lemma post_delete_remaining:
  assumes "post_delete url title path success s = Inr t"
  shows "remaining t + awaiting_weight (awaiting s) = remaining s"
  using HandleNextTask_remaining [OF assms [unfolded post_delete_def]] by (simp add: remaining_def)

lemma DownloadCompletion_remaining:
  assumes "DownloadCompletionHandler url title path success s = Inr t" and "1 < awaiting_weight (awaiting s)"
  shows "remaining t < remaining s"
  using assms post_delete_remaining [of url title path success s t]
  by (auto simp: DownloadCompletionHandler_def remaining_def split: if_splits)

lemma same_tasks_remaining: "same_tasks s t \<Longrightarrow> remaining t = remaining s"
  by (simp add: same_tasks_def remaining_def)

lemma run_background_remaining:
  assumes "run_background_task E io s = Inr t" and "dl_ok s (Dl_Background io)"
  shows "remaining t < remaining s"
proof (cases "awaiting s")
  case (Deleting url)
  have "HandleNextTask ((delete_path_recursively io (OfflineURLDirectoryAbsolutePath E url) s)
      \<lparr>dl_events := dl_events (delete_path_recursively io (OfflineURLDirectoryAbsolutePath E url) s) @
         [Delete_completed url (deletes io)], working := False, awaiting := Nothing\<rparr>) = Inr t"
    using assms(1) Deleting by (simp add: run_background_task_def DeleteCompletionHandler_def)
  from HandleNextTask_remaining [OF this] Deleting show ?thesis
    by (simp add: remaining_def delete_path_recursively_def)
next
  case (Checking url)
  then show ?thesis using assms(1) DownloadCompletion_remaining [of url "[]" "[]" DOWNLOAD_EXISTS s t]
    by (auto simp: run_background_task_def DownloadURL_def remaining_def split: if_splits)
next
  case (Saving_pdf url contents path)
  obtain success s1 where s1: "SavePDFFile E io contents s = (success, s1)" by fastforce
  have same: "same_tasks s s1" using s1 by (rule same_tasks_save_pdf)
  have "DownloadCompletionHandler url [] path success s1 = Inr t"
    using assms(1) Saving_pdf s1 by (simp add: run_background_task_def)
  from DownloadCompletion_remaining [OF this] same_tasks_remaining [OF same] same Saving_pdf show ?thesis
    by (simp add: same_tasks_def)
next
  case (Saving_html url images html title)
  obtain success s1 where s1: "SaveDistilledHTML E io url images html s = (success, s1)" by fastforce
  have same: "same_tasks s s1" using s1 by (rule same_tasks_save_html)
  have "DownloadCompletionHandler url title (OfflinePagePath E url OFFLINE_TYPE_HTML) success s1 = Inr t"
    using assms(1) Saving_html s1 by (simp add: run_background_task_def)
  from DownloadCompletion_remaining [OF this] same_tasks_remaining [OF same] same Saving_html show ?thesis
    by (simp add: same_tasks_def)
next
  case (Cleaning url title path)
  let ?d = "delete_path_recursively io (OfflineURLDirectoryAbsolutePath E url) s"
  have "post_delete url title path ERROR ?d = Inr t" using assms(1) Cleaning by (simp add: run_background_task_def)
  from post_delete_remaining [OF this] Cleaning show ?thesis
    by (simp add: remaining_def delete_path_recursively_def split: if_splits)
qed (use assms(2) in simp_all)

lemma answer_decreases:
  assumes "dl_step E s x = Inr t" and "dl_ok s x" and "is_answer x"
  shows "remaining t < remaining s"
proof (cases x)
  case (Dl_Background io)
  then show ?thesis using run_background_remaining assms by simp
next
  case (Dl_Distilled html images title)
  then obtain u where u: "awaiting s = Distilling u" using assms(2) by (auto split: awaiting.splits)
  then show ?thesis using assms(1) Dl_Distilled DownloadCompletion_remaining [of u "[]" "[]" ERROR s t]
    by (auto simp: DistillerCallback_def FetchPDFFile_def Let_def remaining_def split: if_splits)
next
  case (Dl_Loaded response mime)
  then obtain u where u: "awaiting s = Loading_pdf u" using assms(2) by (auto split: awaiting.splits)
  have r: "OnURLLoadComplete E u response mime s = Inr t" using assms(1) Dl_Loaded u by simp
  let ?h = "DownloadCompletionHandler (original_url s) [] (OfflinePagePath E (original_url s) OFFLINE_TYPE_PDF) ERROR s"
  have "?h = Inr t \<or> (\<exists>c path. t = s\<lparr>awaiting := Saving_pdf u c path, url_loader := None\<rparr>)"
    using r by (auto simp: OnURLLoadComplete_def Let_def split: option.splits if_splits)
  then show ?thesis using DownloadCompletion_remaining u by (fastforce simp: remaining_def)
qed (use assms(3) in simp_all)

lemma environment_keeps:
  assumes "dl_step E s x = Inr t" and "from_environment x" and "\<not> is_answer x"
  shows "remaining t = remaining s"
  using assms by (cases x) (auto simp: DistilledPageRedirectedToURL_def DistilledPageHasMimeType_def remaining_def)

lemma waits_for_an_answer:
  assumes "dl_inv s" and "working s"
  shows "\<exists>x. is_answer x \<and> dl_ok s x"
proof -
  have "awaiting s \<noteq> Nothing" using assms by (simp add: dl_inv_def)
  then have "dl_ok s (Dl_Background io) \<or> dl_ok s (Dl_Distilled h i t) \<or> dl_ok s (Dl_Loaded r m)" for io h i t r m
    by (cases "awaiting s") simp_all
  then show ?thesis by (meson is_answer.simps(1-3))
qed

lemma answers_bounded:
  assumes "dl_inv s" and "admissible (dl_step E) dl_ok s xs" and "\<forall>x \<in> set xs. from_environment x"
    and "orun (dl_step E) s xs = Inr t"
  shows "length (filter is_answer xs) + remaining t \<le> remaining s"
  using assms
proof (induction xs arbitrary: s)
  case (Cons x xs)
  obtain u where u: "dl_step E s x = Inr u" "dl_inv u" using dl_step_safe [of s x E] Cons.prems by auto
  have rest: "admissible (dl_step E) dl_ok u xs" "orun (dl_step E) u xs = Inr t" using Cons.prems u by simp_all
  have "length (filter is_answer xs) + remaining t \<le> remaining u" using Cons.IH [OF u(2) rest(1) _ rest(2)] Cons.prems by simp
  moreover have "is_answer x \<Longrightarrow> remaining u < remaining s" using answer_decreases [OF u(1)] Cons.prems by simp
  moreover have "\<not> is_answer x \<Longrightarrow> remaining u = remaining s" using environment_keeps [OF u(1)] Cons.prems by simp
  ultimately show ?case by (cases "is_answer x") auto
qed simp

text \<open>C8: The downloader never stops working and never works for ever: while the environment only
  answers, a run needs at most five answers for a queued download and one for a deletion; as
  long as it works it waits for an answer that can be given, and when it no longer works its
  queue is empty.\<close>
theorem downloader_finishes_every_task:
  assumes "dl_inv s" and "admissible (dl_step E) dl_ok s xs" and "\<forall>x \<in> set xs. from_environment x"
  shows "\<exists>t. orun (dl_step E) s xs = Inr t \<and> length (filter is_answer xs) + remaining t \<le> remaining s \<and>
    (if working t then \<exists>x. is_answer x \<and> dl_ok t x else tasks t = [])"
proof -
  obtain t where t: "orun (dl_step E) s xs = Inr t" "dl_inv t" using downloader.run_safe [OF assms(1,2)] by blast
  then show ?thesis using answers_bounded [OF assms t(1)] waits_for_an_answer [OF t(2)] by (auto simp: dl_inv_def)
qed

section \<open>A removal wins\<close>

fun handles :: "'u awaiting \<Rightarrow> 'u \<Rightarrow> 'u option" where
  "handles Nothing original = None"
| "handles (Deleting _) original = None"
| "handles (Checking u) original = Some u"
| "handles (Distilling u) original = Some u"
| "handles (Loading_pdf _) original = Some original"
| "handles (Saving_pdf _ _ _) original = Some original"
| "handles (Saving_html u _ _ _) original = Some u"
| "handles (Cleaning _ _ _) original = None"

definition doomed :: "('u, 'z) dl_env_scheme \<Rightarrow> 'u \<Rightarrow> 'u url_downloader \<Rightarrow> bool" where
  "doomed E url s \<longleftrightarrow> (DOWNLOAD, url) \<notin> set (tasks s) \<and>
     ((DELETE, url) \<in> set (tasks s) \<or> awaiting s = Deleting url \<or>
      offline_dirs s (OfflineURLDirectoryAbsolutePath E url) = None \<and>
      handles (awaiting s) (original_url s) \<noteq> Some url)"

lemma HandleNextTask_doomed:
  assumes "HandleNextTask s = Inr t" and "awaiting s = Nothing" and "doomed E url s"
  shows "doomed E url t"
  using assms by (auto simp: HandleNextTask_def doomed_def split: if_splits list.splits prod.splits TaskType.splits)

text \<open>A file operation for another URL.\<close>

definition same_dir :: "('u, 'z) dl_env_scheme \<Rightarrow> 'u \<Rightarrow> 'u url_downloader \<Rightarrow> 'u url_downloader \<Rightarrow> bool" where
  "same_dir E url s t \<longleftrightarrow> offline_dirs t (OfflineURLDirectoryAbsolutePath E url) =
     offline_dirs s (OfflineURLDirectoryAbsolutePath E url)"

lemma save_pdf_other:
  assumes "SavePDFFile E io contents s = (success, t)"
    and "OfflineURLDirectoryAbsolutePath E (original_url s) \<noteq> OfflineURLDirectoryAbsolutePath E url"
  shows "same_dir E url s t"
  using assms
  by (auto simp: SavePDFFile_def CreateOfflineURLDirectory_def write_file_def same_dir_def Let_def split: if_splits)

lemma save_html_other:
  assumes "SaveDistilledHTML E io u images html s = (success, t)"
    and "OfflineURLDirectoryAbsolutePath E u \<noteq> OfflineURLDirectoryAbsolutePath E url"
  shows "same_dir E url s t"
  using assms
  by (auto simp: SaveDistilledHTML_def SaveHTMLForURL_def CreateOfflineURLDirectory_def write_file_def same_dir_def
      Let_def split: if_splits prod.splits)

lemma post_delete_doomed:
  assumes "post_delete u title path success s = Inr t" and "(DOWNLOAD, url) \<notin> set (tasks s)"
    and "(DELETE, url) \<in> set (tasks s) \<or> offline_dirs s (OfflineURLDirectoryAbsolutePath E url) = None"
  shows "doomed E url t"
  using HandleNextTask_doomed [OF assms(1) [unfolded post_delete_def], of E url] assms(2,3) by (simp add: doomed_def)

lemma DownloadCompletion_doomed:
  assumes "DownloadCompletionHandler u title path success s = Inr t" and "(DOWNLOAD, url) \<notin> set (tasks s)"
    and "(DELETE, url) \<in> set (tasks s) \<or> offline_dirs s (OfflineURLDirectoryAbsolutePath E url) = None"
  shows "doomed E url t"
  using assms post_delete_doomed [of u title path success s t url E]
  by (auto simp: DownloadCompletionHandler_def doomed_def split: if_splits)

definition removes_well :: "'u \<Rightarrow> 'u dl_op \<Rightarrow> bool" where
  "removes_well url x \<longleftrightarrow> x \<noteq> Dl_Download url \<and> (case x of Dl_Background io \<Rightarrow> deletes io | _ \<Rightarrow> True)"

lemma background_doomed:
  assumes "run_background_task E io s = Inr t" and "dl_inv s" and "deletes io" and "doomed E url s"
    and inj: "\<And>u. OfflineURLDirectoryAbsolutePath E u = OfflineURLDirectoryAbsolutePath E url \<Longrightarrow> u = url"
  shows "doomed E url t"
proof -
  let ?dir = "OfflineURLDirectoryAbsolutePath E"
  have nd: "(DOWNLOAD, url) \<notin> set (tasks s)" using assms(4) by (simp add: doomed_def)
  have del: "offline_dirs (delete_path_recursively io d s) = (offline_dirs s)(d := None)"
    "tasks (delete_path_recursively io d s) = tasks s" for d
    using assms(3) by (simp_all add: delete_path_recursively_def)
  have pending: "(DELETE, url) \<in> set (tasks s) \<or> offline_dirs s (?dir url) = None"
    if "\<And>u. awaiting s \<noteq> Deleting u" using assms(4) that by (auto simp: doomed_def)
  have here: "(DELETE, url) \<in> set (tasks s)" if "handles (awaiting s) (original_url s) = Some url"
    "\<And>u. awaiting s \<noteq> Deleting u" using assms(4) that by (auto simp: doomed_def)
  have orig: "awaiting_ok (awaiting s) (distiller s) (original_url s) (mime_type s)"
    using assms(2) by (simp add: dl_inv_def)
  show ?thesis
  proof (cases "awaiting s")
    case Nothing
    then show ?thesis using assms(1,4) by (simp add: run_background_task_def)
  next
    case (Deleting u)
    let ?t = "(delete_path_recursively io (?dir u) s)
      \<lparr>dl_events := dl_events (delete_path_recursively io (?dir u) s) @ [Delete_completed u (deletes io)],
       working := False, awaiting := Nothing\<rparr>"
    have "HandleNextTask ?t = Inr t"
      using assms(1) Deleting by (simp add: run_background_task_def DeleteCompletionHandler_def)
    then show ?thesis
      by (rule HandleNextTask_doomed) (use assms(4) Deleting del in \<open>auto simp: doomed_def\<close>)
  next
    case (Checking u)
    show ?thesis
    proof (cases "offline_dirs s (?dir u) = None")
      case True
      then show ?thesis using assms(1) Checking nd pending here
        by (auto simp: run_background_task_def DownloadURL_def doomed_def)
    next
      case False
      then show ?thesis using assms(1) Checking nd pending
        by (intro DownloadCompletion_doomed) (auto simp: run_background_task_def DownloadURL_def)
    qed
  next
    case (Distilling u)
    then show ?thesis using assms(1,4) by (simp add: run_background_task_def)
  next
    case (Loading_pdf u)
    then show ?thesis using assms(1,4) by (simp add: run_background_task_def)
  next
    case (Saving_pdf u contents path)
    obtain success s1 where s1: "SavePDFFile E io contents s = (success, s1)" by fastforce
    have same: "same_tasks s s1" using s1 by (rule same_tasks_save_pdf)
    have "(DELETE, url) \<in> set (tasks s) \<or> offline_dirs s1 (?dir url) = None"
    proof (cases "original_url s = url")
      case True
      then show ?thesis using here Saving_pdf by simp
    next
      case False
      then have "same_dir E url s s1" using save_pdf_other [OF s1] inj by blast
      then show ?thesis using pending Saving_pdf by (simp add: same_dir_def)
    qed
    moreover have "DownloadCompletionHandler u [] path success s1 = Inr t"
      using assms(1) Saving_pdf s1 by (simp add: run_background_task_def)
    ultimately show ?thesis using same nd DownloadCompletion_doomed [of u "[]" path success s1 t url E]
      by (simp add: same_tasks_def)
  next
    case (Saving_html u images html title)
    obtain success s1 where s1: "SaveDistilledHTML E io u images html s = (success, s1)" by fastforce
    have same: "same_tasks s s1" using s1 by (rule same_tasks_save_html)
    have "(DELETE, url) \<in> set (tasks s) \<or> offline_dirs s1 (?dir url) = None"
    proof (cases "u = url")
      case True
      then show ?thesis using here Saving_html by simp
    next
      case False
      then have "same_dir E url s s1" using save_html_other [OF s1] inj by blast
      then show ?thesis using pending Saving_html by (simp add: same_dir_def)
    qed
    moreover have "DownloadCompletionHandler u title (OfflinePagePath E u OFFLINE_TYPE_HTML) success s1 = Inr t"
      using assms(1) Saving_html s1 by (simp add: run_background_task_def)
    ultimately show ?thesis using same nd DownloadCompletion_doomed [of u title "OfflinePagePath E u OFFLINE_TYPE_HTML" success s1 t url E]
      by (simp add: same_tasks_def)
  next
    case (Cleaning u title path)
    have "post_delete u title path ERROR (delete_path_recursively io (?dir u) s) = Inr t"
      using assms(1) Cleaning by (simp add: run_background_task_def)
    then show ?thesis
      by (rule post_delete_doomed) (use nd del pending Cleaning in auto)
  qed
qed

lemma enqueue_doomed:
  assumes "HandleNextTask s = Inr t" and "doomed E url s" and "working s = (awaiting s \<noteq> Nothing)"
  shows "doomed E url t"
  using assms HandleNextTask_doomed [OF assms(1) _ assms(2)] by (cases "working s") (auto simp: HandleNextTask_def)

lemma step_doomed:
  assumes "dl_step E s x = Inr t" and "dl_inv s" and "dl_ok s x" and "removes_well url x" and "doomed E url s"
    and inj: "\<And>u. OfflineURLDirectoryAbsolutePath E u = OfflineURLDirectoryAbsolutePath E url \<Longrightarrow> u = url"
  shows "doomed E url t"
proof (cases x)
  case (Dl_Download u)
  then show ?thesis using assms enqueue_doomed [of "s\<lparr>tasks := tasks s @ [(DOWNLOAD, u)]\<rparr>" t E url]
    by (auto simp: DownloadOfflineURL_def removes_well_def doomed_def dl_inv_def split: if_splits)
next
  case (Dl_Remove u)
  then show ?thesis
    using assms enqueue_doomed [of "s\<lparr>tasks := removeAll (DOWNLOAD, u) (tasks s) @ [(DELETE, u)]\<rparr>" t E url]
    by (auto simp: RemoveOfflineURL_def CancelDownloadOfflineURL_def doomed_def dl_inv_def)
next
  case (Dl_Background io)
  then show ?thesis using background_doomed [of E io s t url] assms by (simp add: removes_well_def)
next
  case (Dl_Distilled html images title)
  then obtain u where u: "awaiting s = Distilling u" using assms(3) by (auto split: awaiting.splits)
  then show ?thesis using assms(1,2,5) Dl_Distilled
    by (auto simp: DistillerCallback_def DownloadCompletionHandler_def FetchPDFFile_def doomed_def dl_inv_def Let_def
        split: if_splits)
next
  case (Dl_Loaded response mime)
  then obtain u where u: "awaiting s = Loading_pdf u" using assms(3) by (auto split: awaiting.splits)
  then show ?thesis using assms(1,5) Dl_Loaded
    by (auto simp: OnURLLoadComplete_def DownloadCompletionHandler_def doomed_def Let_def
        split: if_splits option.splits)
qed (use assms(1-3,5) in \<open>auto simp: CancelDownloadOfflineURL_def CancelTask_def doomed_def dl_inv_def
    DistilledPageRedirectedToURL_def DistilledPageHasMimeType_def split: awaiting.splits\<close>)

lemma run_doomed:
  assumes "orun (dl_step E) s xs = Inr t" and "dl_inv s" and "admissible (dl_step E) dl_ok s xs"
    and "\<forall>x \<in> set xs. removes_well url x" and "doomed E url s"
    and inj: "\<And>u. OfflineURLDirectoryAbsolutePath E u = OfflineURLDirectoryAbsolutePath E url \<Longrightarrow> u = url"
  shows "doomed E url t"
  using assms(1-5)
proof (induction xs arbitrary: s)
  case (Cons x xs)
  obtain u where u: "dl_step E s x = Inr u" "dl_inv u" using dl_step_safe [of s x E] Cons.prems by auto
  moreover have "doomed E url u" using step_doomed [OF u(1) _ _ _ _ inj] Cons.prems by simp
  ultimately show ?case using Cons.IH Cons.prems by simp
qed simp


section \<open>A PDF behind a redirect\<close>

lemma HandleNextTask_events: "HandleNextTask s = Inr t \<Longrightarrow> dl_events t = dl_events s"
  by (auto simp: HandleNextTask_def split: if_splits list.splits prod.splits TaskType.splits)

lemma SavePDFFile_succeeds:
  assumes "creates io" and "moves io"
  shows "\<exists>t. SavePDFFile E io contents s = (DOWNLOAD_SUCCESS, t) \<and>
    offline_dirs t (OfflineURLDirectoryAbsolutePath E (original_url s)) \<noteq> None"
  using assms
  by (cases "offline_dirs s (OfflineURLDirectoryAbsolutePath E (original_url s))")
     (simp_all add: SavePDFFile_def CreateOfflineURLDirectory_def write_file_def)

text \<open>When a page that redirects turns out to be a PDF, the file is saved in the directory of
  the URL that was asked for, but the completion callback reports the URL it was redirected
  to, since the loader's callback is bound to that one; only a failure to load is reported
  under the URL that was asked for.\<close>
theorem redirected_pdf_is_reported_under_its_target:
  assumes "dl_inv s" and "awaiting s = Distilling url" and "mime_type s = pdf_mime_type"
    and "is_valid E (distilled_url s)" and "creates io" and "moves io"
  shows "\<exists>t size. orun (dl_step E) s
      [Dl_Distilled [] images title, Dl_Loaded (Some contents) (Some pdf_mime_type), Dl_Background io] = Inr t \<and>
    dl_events t = dl_events s @ [Download_completed (distilled_url s) (distilled_url s) DOWNLOAD_SUCCESS
      (OfflinePagePath E url OFFLINE_TYPE_PDF) size []] \<and>
    offline_dirs t (OfflineURLDirectoryAbsolutePath E url) \<noteq> None"
proof -
  have url: "original_url s = url" and w: "working s" "distinct (filter (\<lambda>t. fst t = DOWNLOAD) (tasks s))"
    using assms(1,2) by (simp_all add: dl_inv_def)
  let ?path = "OfflinePagePath E url OFFLINE_TYPE_PDF"
  let ?saving = "s\<lparr>awaiting := Saving_pdf (distilled_url s) contents ?path, url_loader := None\<rparr>"
  obtain s1 where s1: "SavePDFFile E io contents ?saving = (DOWNLOAD_SUCCESS, s1)"
    "offline_dirs s1 (OfflineURLDirectoryAbsolutePath E url) \<noteq> None"
    using SavePDFFile_succeeds [OF assms(5,6), of E contents ?saving] url by auto
  note same = same_tasks_save_pdf [OF s1(1), unfolded same_tasks_def, simplified]
  let ?idle = "s1\<lparr>dl_events := dl_events s1 @
      [Download_completed (distilled_url s) (distilled_url s) DOWNLOAD_SUCCESS ?path (saved_size s1) []],
    distiller := None, working := False, awaiting := Nothing\<rparr>"
  obtain t where t: "HandleNextTask ?idle = Inr t" "dl_inv t"
    using HandleNextTask_idle [of ?idle] same w by (auto simp: dl_idle_def)
  have "offline_dirs t = offline_dirs ?idle"
    using t(1) by (auto simp: HandleNextTask_def split: if_splits list.splits prod.splits TaskType.splits)
  moreover have "orun (dl_step E) s
      [Dl_Distilled [] images title, Dl_Loaded (Some contents) (Some pdf_mime_type), Dl_Background io] = Inr t"
    using assms(2-4) url s1(1) t(1) same w
    by (simp add: DistillerCallback_def FetchPDFFile_def OnURLLoadComplete_def run_background_task_def
        DownloadCompletionHandler_def post_delete_def Let_def)
  ultimately show ?thesis using HandleNextTask_events [OF t(1)] s1(2) same by auto
qed

section \<open>Witnesses\<close>

definition demo_dl_env :: "string dl_env" where
  "demo_dl_env = \<lparr>spec = id, is_valid = (\<lambda>u. u \<noteq> []), url_scheme = (\<lambda>_. ''https''), url_path = id,
     url_query = (\<lambda>_. []), url_ref = (\<lambda>_. []), is_about_blank = (\<lambda>_. False), gurl = id, empty_gurl = [],
     replace_ref = (\<lambda>_ u. u), replace_scheme_and_path = (\<lambda>_ _ u. u), append_query_parameter = (\<lambda>u _ _. u),
     value_for_key_in_query = (\<lambda>_ _. None), escape_query_param_value = id,
     unescape_binary_url_component = id, json_write = (\<lambda>_. []),
     scheme_is_cryptographic = (\<lambda>_. True), OfflineURLDirectoryAbsolutePath = id,
     OfflinePagePath = (\<lambda>u _. u), json_string = id, base64_encode = id,
     sniff_mime_type = (\<lambda>_. Some ''image/png''), replace_string_placeholders = (\<lambda>t _. t),
     csp_nonce = (\<lambda>_. [])\<rparr>"

definition demo_io :: io_result where
  "demo_io = \<lparr>deletes = True, creates = True, moves = True, written = 3\<rparr>"

lemma demo_download:
  "dl_inv (new_url_downloader demo_dl_env)" "dl_ok (new_url_downloader demo_dl_env) (Dl_Download ''a'')"
  by simp_all

text \<open>A download of \<open>a\<close> is under way.\<close>

definition demo_dl :: "string url_downloader" where
  "demo_dl = (new_url_downloader demo_dl_env)\<lparr>working := True, awaiting := Checking ''a''\<rparr>"

lemma demo_dl_inv: "dl_inv demo_dl"
  by (simp add: demo_dl_def new_url_downloader_def dl_inv_def)

lemma demo_dl_reached: "dl_step demo_dl_env (new_url_downloader demo_dl_env) (Dl_Download ''a'') = Inr demo_dl"
  by (simp add: demo_dl_def DownloadOfflineURL_def HandleNextTask_def new_url_downloader_def)

definition demo_answers :: "string dl_op list" where
  "demo_answers = [Dl_Background demo_io, Dl_Distilled ''xyz'' [] ''t'', Dl_Background demo_io]"

lemma demo_answers_ok: "admissible (dl_step demo_dl_env) dl_ok demo_dl demo_answers"
  by (simp add: demo_dl_def demo_answers_def demo_io_def demo_dl_env_def new_url_downloader_def
      run_background_task_def DownloadURL_def DistillerCallback_def split: sum.split)

theorem downloader_finishes_every_task_witness:
  "\<exists>t. orun (dl_step demo_dl_env) demo_dl demo_answers = Inr t \<and>
    length (filter is_answer demo_answers) + remaining t \<le> remaining demo_dl"
  using downloader_finishes_every_task [OF demo_dl_inv demo_answers_ok]
  by (auto simp: demo_answers_def)

lemma demo_removal_ok: "admissible (dl_step demo_dl_env) dl_ok demo_dl (Dl_Remove ''a'' # demo_answers)"
  by (simp add: demo_dl_def demo_answers_def demo_io_def demo_dl_env_def new_url_downloader_def
      run_background_task_def DownloadURL_def DistillerCallback_def RemoveOfflineURL_def
      CancelDownloadOfflineURL_def HandleNextTask_def split: sum.split)


definition demo_pdf :: "string url_downloader" where
  "demo_pdf = demo_dl\<lparr>awaiting := Distilling ''a'', original_url := ''a'', distilled_url := ''b'',
     distiller := Some ''a'', mime_type := pdf_mime_type\<rparr>"

theorem redirected_pdf_is_reported_under_its_target_witness:
  "\<exists>t size. orun (dl_step demo_dl_env) demo_pdf
      [Dl_Distilled [] [] [], Dl_Loaded (Some ''%PDF'') (Some pdf_mime_type), Dl_Background demo_io] = Inr t \<and>
    dl_events t = [Download_completed ''b'' ''b'' DOWNLOAD_SUCCESS ''a'' size []]"
proof -
  have "dl_inv demo_pdf" "awaiting demo_pdf = Distilling ''a''" "mime_type demo_pdf = pdf_mime_type"
    "is_valid demo_dl_env (distilled_url demo_pdf)" "creates demo_io" "moves demo_io"
    by (simp_all add: demo_pdf_def demo_dl_def new_url_downloader_def dl_inv_def demo_dl_env_def demo_io_def)
  from redirected_pdf_is_reported_under_its_target [OF this, of "[]" "[]" "''%PDF''"]
  show ?thesis by (auto simp: demo_pdf_def demo_dl_def new_url_downloader_def demo_dl_env_def)
qed
end
