(* ===== verification/Reading_List_Service.thy ===== *)
theory Reading_List_Service
  imports Url_Downloader_Props
begin

text \<open>
  The service that keeps offline copies of the reading list,
  \<open>chrome/browser/reading_list/reading_list_download_service.{h,cc}\<close>, on top of the downloader:
  it follows the reading list model, decides from an entry's failures and the connection
  whether to download it, and writes the outcome of a download back into the model.

  The reading list model (\<open>components/reading_list\<close>) is not part of the repository.  Its entries
  are a map in the state; what its setters do to an entry is the part \<open>rl_env\<close> of the
  environment, with the documented behaviour the service relies on in \<open>rl_laws\<close>.  Delayed tasks
  are the list \<open>posted_downloads\<close>, the clean-up of the offline directory is \<open>pending_sync\<close>.
\<close>

section \<open>Data\<close>

datatype DistilledState = WAITING | PROCESSING | PROCESSED | WILL_RETRY | DISTILLATION_ERROR

datatype UMADownloadStatus = SUCCESS | FAILURE | RETRY

datatype ConnectionType = CONNECTION_UNKNOWN | CONNECTION_NONE | CONNECTION_WIFI | CONNECTION_CELLULAR

record rl_entry =
  entry_state :: DistilledState
  is_read :: bool
  failed_download_counter :: int
  entry_title :: string

record 'u rl_env = "'u dl_env" +
  set_distilled_state :: "DistilledState \<Rightarrow> rl_entry \<Rightarrow> rl_entry"
  set_distilled_info :: "string \<Rightarrow> 'u \<Rightarrow> int \<Rightarrow> rl_entry \<Rightarrow> rl_entry"
  collapse_whitespace :: "string \<Rightarrow> string"
  offline_url_directory_id :: "'u \<Rightarrow> string"
  offline_root_append :: "string \<Rightarrow> string"

text \<open>A failure is counted when it follows an attempt; the other states and the read flag are
  stored as they are set.\<close>

definition error_state :: "DistilledState \<Rightarrow> bool" where
  "error_state st \<longleftrightarrow> st = WILL_RETRY \<or> st = DISTILLATION_ERROR"

definition rl_laws :: "('u, 'z) rl_env_scheme \<Rightarrow> bool" where
  "rl_laws E \<longleftrightarrow>
     (\<forall>st e. entry_state (set_distilled_state E st e) = st \<and> is_read (set_distilled_state E st e) = is_read e \<and>
        failed_download_counter (set_distilled_state E st e) = failed_download_counter e +
          (if error_state st \<and> \<not> error_state (entry_state e) then 1 else 0)) \<and>
     (\<forall>p u n e. entry_state (set_distilled_info E p u n e) = PROCESSED)"

record 'u rl_service =
  model_loaded :: bool
  rl_keys :: "'u list"
  rl_entries :: "'u \<Rightarrow> rl_entry option"
  rl_downloader :: "'u url_downloader"
  url_to_download_cellular :: "'u list"
  url_to_download_wifi :: "'u list"
  had_connection :: bool
  network_offline :: bool
  connection_type :: ConnectionType
  posted_downloads :: "'u list"
  pending_sync :: "(string list \<times> 'u list) option"
  uma_status :: "UMADownloadStatus list"

definition kNumberOfFailsBeforeWifiOnly :: int where "kNumberOfFailsBeforeWifiOnly = 5"
definition kNumberOfFailsBeforeStop :: int where "kNumberOfFailsBeforeStop = 7"

section \<open>The reading list model\<close>

definition update_entry :: "'u \<Rightarrow> (rl_entry \<Rightarrow> rl_entry) \<Rightarrow> 'u rl_service \<Rightarrow> 'u rl_service" where
  "update_entry url f s = s\<lparr>rl_entries := (rl_entries s)(url := map_option f (rl_entries s url))\<rparr>"

definition SetEntryDistilledState ::
    "('u, 'z) rl_env_scheme \<Rightarrow> 'u \<Rightarrow> DistilledState \<Rightarrow> 'u rl_service \<Rightarrow> 'u rl_service" where
  "SetEntryDistilledState E url st = update_entry url (set_distilled_state E st)"

definition SetEntryTitle :: "'u \<Rightarrow> string \<Rightarrow> 'u rl_service \<Rightarrow> 'u rl_service" where
  "SetEntryTitle url title = update_entry url (\<lambda>e. e\<lparr>entry_title := title\<rparr>)"

section \<open>Scheduling\<close>

definition needs_no_download :: "rl_entry option \<Rightarrow> bool" where
  "needs_no_download entry \<longleftrightarrow>
     (case entry of None \<Rightarrow> True
      | Some e \<Rightarrow> entry_state e = DISTILLATION_ERROR \<or> entry_state e = PROCESSED \<or> is_read e)"

definition ScheduleDownloadEntry :: "'u \<Rightarrow> 'u rl_service \<Rightarrow> 'u rl_service outcome" where
  "ScheduleDownloadEntry url s =
     dcheck (model_loaded s)
     (if needs_no_download (rl_entries s url) then Inr s
      else Inr (s\<lparr>posted_downloads := posted_downloads s @ [url]\<rparr>))"

definition DownloadUnprocessedEntries :: "'u list \<Rightarrow> 'u rl_service \<Rightarrow> 'u rl_service outcome" where
  "DownloadUnprocessedEntries unprocessed_entries s =
     orun (\<lambda>s url. ScheduleDownloadEntry url s) s unprocessed_entries"

text \<open>The directories that stay, and the entries to download.\<close>

definition SyncWithModel :: "('u, 'z) rl_env_scheme \<Rightarrow> 'u rl_service \<Rightarrow> 'u rl_service outcome" where
  "SyncWithModel E s =
     dcheck (model_loaded s)
     (let state_is = (\<lambda>P url. case rl_entries s url of None \<Rightarrow> False | Some e \<Rightarrow> P (entry_state e));
          processed_directories = map (offline_url_directory_id E) (filter (state_is (\<lambda>st. st = PROCESSED)) (rl_keys s));
          unprocessed_entries =
            filter (state_is (\<lambda>st. st = WAITING \<or> st = PROCESSING \<or> st = WILL_RETRY)) (rl_keys s)
      in Inr (s\<lparr>pending_sync := Some (processed_directories, unprocessed_entries)\<rparr>))"

definition CleanUpFiles ::
    "('u, 'z) rl_env_scheme \<Rightarrow> string list \<Rightarrow> (string \<Rightarrow> 'f option) \<Rightarrow> string \<Rightarrow> 'f option" where
  "CleanUpFiles E processed_directories dirs d =
     (if d \<in> offline_root_append E ` set processed_directories then dirs d else None)"

section \<open>Downloads\<close>

definition OnDownloadEnd ::
    "('u, 'z) rl_env_scheme \<Rightarrow> 'u \<Rightarrow> 'u \<Rightarrow> SuccessState \<Rightarrow> string \<Rightarrow> int \<Rightarrow> string \<Rightarrow>
     'u rl_service \<Rightarrow> 'u rl_service outcome" where
  "OnDownloadEnd E url distilled success distilled_path sz title s =
     dcheck (model_loaded s)
     (let real_success_value = (if distilled_path = [] then ERROR else success) in
      case real_success_value of
        ERROR \<Rightarrow>
          (case rl_entries s url of
             Some entry \<Rightarrow>
               if failed_download_counter entry + 1 < kNumberOfFailsBeforeStop then
                 obind (ScheduleDownloadEntry url (SetEntryDistilledState E url WILL_RETRY s))
                   (\<lambda>s1. Inr (s1\<lparr>uma_status := uma_status s1 @ [RETRY]\<rparr>))
               else Inr (SetEntryDistilledState E url DISTILLATION_ERROR (s\<lparr>uma_status := uma_status s @ [FAILURE]\<rparr>))
           | None \<Rightarrow> Inr (SetEntryDistilledState E url DISTILLATION_ERROR (s\<lparr>uma_status := uma_status s @ [FAILURE]\<rparr>)))
      | _ \<Rightarrow>
          (let s1 = update_entry url (set_distilled_info E distilled_path distilled sz) s;
               trimmed_title = collapse_whitespace E title;
               s2 = (if trimmed_title \<noteq> [] then SetEntryTitle url trimmed_title s1 else s1)
           in Inr (s2\<lparr>uma_status := uma_status s2 @ [SUCCESS]\<rparr>)))"

definition OnDeleteEnd :: "'u \<Rightarrow> bool \<Rightarrow> 'u rl_service \<Rightarrow> 'u rl_service outcome" where
  "OnDeleteEnd url success s = Inr s"

fun on_dl_event :: "('u, 'z) rl_env_scheme \<Rightarrow> 'u rl_service \<Rightarrow> 'u dl_event \<Rightarrow> 'u rl_service outcome" where
  "on_dl_event E s (Download_completed url distilled success path sz title) =
     OnDownloadEnd E url distilled success path sz title s"
| "on_dl_event E s (Delete_completed url success) = OnDeleteEnd url success s"

text \<open>A call of the downloader, with the callbacks it runs.\<close>

definition with_downloader :: "('u, 'z) rl_env_scheme \<Rightarrow> 'u dl_op \<Rightarrow> 'u rl_service \<Rightarrow> 'u rl_service outcome" where
  "with_downloader E x s =
     obind (dl_step E (rl_downloader s) x) (\<lambda>d.
     orun (on_dl_event E) (s\<lparr>rl_downloader := d\<rparr>) (drop (length (dl_events (rl_downloader s))) (dl_events d)))"

definition DownloadEntry :: "('u, 'z) rl_env_scheme \<Rightarrow> 'u \<Rightarrow> 'u rl_service \<Rightarrow> 'u rl_service outcome" where
  "DownloadEntry E url s =
     dcheck (model_loaded s)
     (case rl_entries s url of
        None \<Rightarrow> Inr s
      | Some entry \<Rightarrow>
          if needs_no_download (Some entry) then Inr s
          else if network_offline s then
            (let s1 = (if failed_download_counter entry < kNumberOfFailsBeforeWifiOnly
                       then s\<lparr>url_to_download_cellular := url_to_download_cellular s @ [url]\<rparr> else s)
             in Inr (if failed_download_counter entry < kNumberOfFailsBeforeStop
                     then s1\<lparr>url_to_download_wifi := url_to_download_wifi s1 @ [url]\<rparr> else s1))
          else if failed_download_counter entry < kNumberOfFailsBeforeWifiOnly then
            with_downloader E (Dl_Download url) (SetEntryDistilledState E url PROCESSING s)
          else if failed_download_counter entry < kNumberOfFailsBeforeStop then
            (if connection_type s = CONNECTION_WIFI then
               with_downloader E (Dl_Download url) (SetEntryDistilledState E url PROCESSING s)
             else Inr (s\<lparr>url_to_download_wifi := url_to_download_wifi s @ [url]\<rparr>))
          else Inr s)"

definition ProcessNewEntry :: "('u, 'z) rl_env_scheme \<Rightarrow> 'u \<Rightarrow> 'u rl_service \<Rightarrow> 'u rl_service outcome" where
  "ProcessNewEntry E url s =
     (case rl_entries s url of
        None \<Rightarrow> with_downloader E (Dl_CancelDownload url) s
      | Some entry \<Rightarrow>
          if is_read entry then with_downloader E (Dl_CancelDownload url) s else ScheduleDownloadEntry url s)"

definition RemoveDownloadedEntry :: "('u, 'z) rl_env_scheme \<Rightarrow> 'u \<Rightarrow> 'u rl_service \<Rightarrow> 'u rl_service outcome" where
  "RemoveDownloadedEntry E url s = dcheck (model_loaded s) (with_downloader E (Dl_Remove url) s)"

definition OnConnectionChanged :: "ConnectionType \<Rightarrow> 'u rl_service \<Rightarrow> 'u rl_service outcome" where
  "OnConnectionChanged type s =
     (if type = CONNECTION_NONE then Inr (s\<lparr>had_connection := False\<rparr>)
      else
        obind (if had_connection s then Inr s
               else orun (\<lambda>s url. ScheduleDownloadEntry url s) (s\<lparr>had_connection := True\<rparr>)
                      (url_to_download_cellular s)) (\<lambda>s1.
        if type = CONNECTION_WIFI
        then orun (\<lambda>s url. ScheduleDownloadEntry url s) s1 (url_to_download_wifi s1)
        else Inr s1))"

section \<open>The observer of the model\<close>

definition ReadingListModelLoaded :: "('u, 'z) rl_env_scheme \<Rightarrow> 'u rl_service \<Rightarrow> 'u rl_service outcome" where
  "ReadingListModelLoaded E s = SyncWithModel E s"

definition ReadingListWillRemoveEntry :: "('u, 'z) rl_env_scheme \<Rightarrow> 'u \<Rightarrow> 'u rl_service \<Rightarrow> 'u rl_service outcome" where
  "ReadingListWillRemoveEntry E url s =
     dcheck (rl_entries s url \<noteq> None) (RemoveDownloadedEntry E url s)"

definition ReadingListDidAddEntry :: "('u, 'z) rl_env_scheme \<Rightarrow> 'u \<Rightarrow> 'u rl_service \<Rightarrow> 'u rl_service outcome" where
  "ReadingListDidAddEntry E url s = ProcessNewEntry E url s"

definition ReadingListDidMoveEntry :: "('u, 'z) rl_env_scheme \<Rightarrow> 'u \<Rightarrow> 'u rl_service \<Rightarrow> 'u rl_service outcome" where
  "ReadingListDidMoveEntry E url s = ProcessNewEntry E url s"

section \<open>Runs\<close>

text \<open>The model changes and notifies; a delayed task runs; the clean-up ends; the network changes;
  the environment answers the downloader.\<close>

datatype 'u rl_op =
    Rl_Loaded
  | Rl_Add 'u rl_entry
  | Rl_Move 'u bool
  | Rl_Remove 'u
  | Rl_Posted nat
  | Rl_CleanedUp
  | Rl_Network bool ConnectionType
  | Rl_Downloader "'u dl_op"

fun rl_step :: "('u, 'z) rl_env_scheme \<Rightarrow> 'u rl_service \<Rightarrow> 'u rl_op \<Rightarrow> 'u rl_service outcome" where
  "rl_step E s Rl_Loaded = ReadingListModelLoaded E (s\<lparr>model_loaded := True\<rparr>)"
| "rl_step E s (Rl_Add url entry) =
     ReadingListDidAddEntry E url (s\<lparr>rl_entries := (rl_entries s)(url \<mapsto> entry), rl_keys := rl_keys s @ [url]\<rparr>)"
| "rl_step E s (Rl_Move url read) =
     ReadingListDidMoveEntry E url (update_entry url (\<lambda>e. e\<lparr>is_read := read\<rparr>) s)"
| "rl_step E s (Rl_Remove url) =
     obind (ReadingListWillRemoveEntry E url s) (\<lambda>s1.
       Inr (s1\<lparr>rl_entries := (rl_entries s1)(url := None), rl_keys := removeAll url (rl_keys s1)\<rparr>))"
| "rl_step E s (Rl_Posted i) =
     DownloadEntry E (posted_downloads s ! i) (s\<lparr>posted_downloads := remove_at i (posted_downloads s)\<rparr>)"
| "rl_step E s Rl_CleanedUp =
     (case pending_sync s of
        None \<Rightarrow> Inr s
      | Some (processed, unprocessed) \<Rightarrow>
          DownloadUnprocessedEntries unprocessed
            (s\<lparr>pending_sync := None, rl_downloader := (rl_downloader s)
                 \<lparr>offline_dirs := CleanUpFiles E processed (offline_dirs (rl_downloader s))\<rparr>\<rparr>))"
| "rl_step E s (Rl_Network offline type) =
     OnConnectionChanged type (s\<lparr>network_offline := offline, connection_type := type\<rparr>)"
| "rl_step E s (Rl_Downloader x) = with_downloader E x s"

definition new_rl_service :: "('u, 'z) rl_env_scheme \<Rightarrow> bool \<Rightarrow> 'u list \<Rightarrow> ('u \<Rightarrow> rl_entry option) \<Rightarrow> 'u rl_service" where
  "new_rl_service E offline keys entries =
     \<lparr>model_loaded = False, rl_keys = keys, rl_entries = entries,
      rl_downloader = new_url_downloader E, url_to_download_cellular = [], url_to_download_wifi = [],
      had_connection = \<not> offline, network_offline = offline, connection_type = CONNECTION_UNKNOWN,
      posted_downloads = [], pending_sync = None, uma_status = []\<rparr>"

end
