(* ===== verification/Reading_List_Props.thy ===== *)
theory Reading_List_Props
  imports Reading_List_Service
begin

text \<open>
  The download service of the reading list: every admissible run of the service and of the
  downloader behind it is safe (\<open>rl_inv\<close>); how failures are counted, and that the copy of a
  URL which exists already is taken for one.
\<close>

section \<open>The service never fails a DCHECK\<close>

definition rl_inv :: "'u rl_service \<Rightarrow> bool" where
  "rl_inv s \<longleftrightarrow> dl_inv (rl_downloader s) \<and>
     (\<not> model_loaded s \<longrightarrow> \<not> working (rl_downloader s) \<and> posted_downloads s = [] \<and>
        url_to_download_cellular s = [] \<and> url_to_download_wifi s = [] \<and> pending_sync s = None)"

fun rl_ok :: "'u rl_service \<Rightarrow> 'u rl_op \<Rightarrow> bool" where
  "rl_ok s Rl_Loaded \<longleftrightarrow> \<not> model_loaded s"
| "rl_ok s (Rl_Add url entry) \<longleftrightarrow> model_loaded s \<and> rl_entries s url = None"
| "rl_ok s (Rl_Move url r) \<longleftrightarrow> model_loaded s"
| "rl_ok s (Rl_Remove url) \<longleftrightarrow> model_loaded s \<and> rl_entries s url \<noteq> None"
| "rl_ok s (Rl_Posted i) \<longleftrightarrow> i < length (posted_downloads s)"
| "rl_ok s Rl_CleanedUp \<longleftrightarrow> pending_sync s \<noteq> None"
| "rl_ok s (Rl_Network offline type) \<longleftrightarrow> True"
| "rl_ok s (Rl_Downloader x) \<longleftrightarrow> from_environment x \<and> dl_ok (rl_downloader s) x"

lemma update_entry_sel [simp]:
  "model_loaded (update_entry url f s) = model_loaded s"
  "rl_downloader (update_entry url f s) = rl_downloader s"
  "posted_downloads (update_entry url f s) = posted_downloads s"
  "rl_entries (update_entry url f s) url = map_option f (rl_entries s url)"
  by (simp_all add: update_entry_def)

lemma ScheduleDownloadEntry_run:
  "model_loaded s \<Longrightarrow> \<exists>ps. ScheduleDownloadEntry url s = Inr (s\<lparr>posted_downloads := ps\<rparr>)"
  by (cases "needs_no_download (rl_entries s url)")
     (auto simp: ScheduleDownloadEntry_def intro: exI [of _ "posted_downloads s"])

lemma schedule_all:
  "model_loaded s \<Longrightarrow> \<exists>ps. orun (\<lambda>s url. ScheduleDownloadEntry url s) s us = Inr (s\<lparr>posted_downloads := ps\<rparr>)"
proof (induction us arbitrary: s)
  case Nil
  then show ?case by (auto intro: exI [of _ "posted_downloads s"])
next
  case (Cons u us)
  obtain ps where ps: "ScheduleDownloadEntry u s = Inr (s\<lparr>posted_downloads := ps\<rparr>)"
    using ScheduleDownloadEntry_run [OF Cons.prems] by blast
  have "model_loaded (s\<lparr>posted_downloads := ps\<rparr>)" using Cons.prems by simp
  from Cons.IH [OF this] ps show ?case by simp
qed

text \<open>The callbacks of the downloader change the model and schedule, but do not call it.\<close>

definition callback_frame :: "'u rl_service \<Rightarrow> 'u rl_service \<Rightarrow> bool" where
  "callback_frame s t \<longleftrightarrow> model_loaded t = model_loaded s \<and> rl_downloader t = rl_downloader s"

lemma OnDownloadEnd_run:
  assumes "model_loaded s"
  shows "\<exists>t. OnDownloadEnd E url d success path n title s = Inr t \<and> callback_frame s t"
proof (cases "if path = [] then ERROR else success")
  case ERROR
  obtain ps where "ScheduleDownloadEntry url (SetEntryDistilledState E url WILL_RETRY s) =
      Inr ((SetEntryDistilledState E url WILL_RETRY s)\<lparr>posted_downloads := ps\<rparr>)"
    using ScheduleDownloadEntry_run [of "SetEntryDistilledState E url WILL_RETRY s" url] assms
    by (auto simp: SetEntryDistilledState_def)
  with ERROR assms show ?thesis
    by (cases "rl_entries s url")
       (auto simp: OnDownloadEnd_def Let_def SetEntryDistilledState_def callback_frame_def)
qed (use assms in \<open>auto simp: OnDownloadEnd_def Let_def SetEntryTitle_def callback_frame_def\<close>)

lemma on_dl_events_run:
  assumes "model_loaded s"
  shows "\<exists>t. orun (on_dl_event E) s evs = Inr t \<and> callback_frame s t"
  using assms
proof (induction evs arbitrary: s)
  case Nil
  then show ?case by (simp add: callback_frame_def)
next
  case (Cons ev evs)
  have "\<exists>s1. on_dl_event E s ev = Inr s1 \<and> callback_frame s s1"
    by (cases ev) (use OnDownloadEnd_run [OF Cons.prems] in \<open>simp_all add: OnDeleteEnd_def callback_frame_def\<close>)
  then obtain s1 where s1: "on_dl_event E s ev = Inr s1" "callback_frame s s1" by blast
  then obtain t where "orun (on_dl_event E) s1 evs = Inr t" "callback_frame s1 t"
    using Cons.IH [of s1] Cons.prems by (auto simp: callback_frame_def)
  then show ?case using s1 by (auto simp: callback_frame_def)
qed

lemma with_downloader_ok:
  assumes "model_loaded s" and "dl_inv (rl_downloader s)" and "dl_ok (rl_downloader s) x"
  shows "\<exists>t. with_downloader E x s = Inr t \<and> model_loaded t \<and> rl_inv t"
proof -
  obtain d where d: "dl_step E (rl_downloader s) x = Inr d" "dl_inv d" using dl_step_safe [OF assms(2,3)] by blast
  obtain t where "orun (on_dl_event E) (s\<lparr>rl_downloader := d\<rparr>)
      (drop (length (dl_events (rl_downloader s))) (dl_events d)) = Inr t" "callback_frame (s\<lparr>rl_downloader := d\<rparr>) t"
    using on_dl_events_run [of "s\<lparr>rl_downloader := d\<rparr>" E] assms(1) by auto
  then show ?thesis using d assms(1) by (auto simp: with_downloader_def rl_inv_def callback_frame_def)
qed

lemma DownloadEntry_ok:
  assumes "model_loaded s" and "dl_inv (rl_downloader s)"
  shows "\<exists>t. DownloadEntry E url s = Inr t \<and> rl_inv t"
proof -
  have "\<exists>t. with_downloader E (Dl_Download url) (SetEntryDistilledState E url PROCESSING s) = Inr t \<and> rl_inv t"
    using with_downloader_ok [of "SetEntryDistilledState E url PROCESSING s" "Dl_Download url" E] assms
    by (auto simp: SetEntryDistilledState_def)
  then show ?thesis using assms by (auto simp: DownloadEntry_def rl_inv_def Let_def split: option.split)
qed

lemma OnConnectionChanged_ok:
  assumes "rl_inv s"
  shows "\<exists>t. OnConnectionChanged type s = Inr t \<and> rl_inv t"
proof (cases "model_loaded s")
  case True
  obtain ps where "orun (\<lambda>s url. ScheduleDownloadEntry url s) (s\<lparr>had_connection := True\<rparr>) (url_to_download_cellular s) =
      Inr (s\<lparr>had_connection := True, posted_downloads := ps\<rparr>)"
    using schedule_all [of "s\<lparr>had_connection := True\<rparr>"] True by auto
  then obtain s1 where s1: "(if had_connection s then Inr s else
      orun (\<lambda>s url. ScheduleDownloadEntry url s) (s\<lparr>had_connection := True\<rparr>) (url_to_download_cellular s)) = Inr s1"
    "model_loaded s1" "rl_downloader s1 = rl_downloader s"
    using True by (cases "had_connection s") auto
  obtain ps' where "orun (\<lambda>s url. ScheduleDownloadEntry url s) s1 (url_to_download_wifi s1) = Inr (s1\<lparr>posted_downloads := ps'\<rparr>)"
    using schedule_all [OF s1(2)] by blast
  then show ?thesis using s1 assms True by (auto simp: OnConnectionChanged_def rl_inv_def)
next
  case False
  then show ?thesis using assms by (auto simp: OnConnectionChanged_def rl_inv_def)
qed

lemma ProcessNewEntry_ok:
  assumes "model_loaded s" and "dl_inv (rl_downloader s)"
  shows "\<exists>t. ProcessNewEntry E url s = Inr t \<and> rl_inv t"
proof -
  have "\<exists>t. with_downloader E (Dl_CancelDownload url) s = Inr t \<and> rl_inv t"
    using with_downloader_ok [OF assms, of "Dl_CancelDownload url" E] by auto
  moreover have "\<exists>t. ScheduleDownloadEntry url s = Inr t \<and> rl_inv t"
    using ScheduleDownloadEntry_run [OF assms(1), of url] assms by (auto simp: rl_inv_def)
  ultimately show ?thesis by (auto simp: ProcessNewEntry_def split: option.split)
qed

lemma rl_step_safe:
  assumes "rl_inv s" and "rl_ok s x"
  shows "\<exists>t. rl_step E s x = Inr t \<and> rl_inv t"
proof (cases x)
  case Rl_Loaded
  then show ?thesis using assms by (simp add: ReadingListModelLoaded_def SyncWithModel_def rl_inv_def)
next
  case (Rl_Add url entry)
  then show ?thesis using assms ProcessNewEntry_ok [of "s\<lparr>rl_entries := (rl_entries s)(url \<mapsto> entry), rl_keys := rl_keys s @ [url]\<rparr>" E]
    by (simp add: ReadingListDidAddEntry_def rl_inv_def)
next
  case (Rl_Move url r)
  then show ?thesis using assms ProcessNewEntry_ok [of "update_entry url (\<lambda>e. e\<lparr>is_read := r\<rparr>) s" E url]
    by (simp add: ReadingListDidMoveEntry_def rl_inv_def)
next
  case (Rl_Remove url)
  then show ?thesis using assms with_downloader_ok [of s "Dl_Remove url" E]
    by (auto simp: ReadingListWillRemoveEntry_def RemoveDownloadedEntry_def rl_inv_def)
next
  case (Rl_Posted i)
  then have "model_loaded s" using assms by (auto simp: rl_inv_def)
  then show ?thesis using assms Rl_Posted DownloadEntry_ok [of "s\<lparr>posted_downloads := remove_at i (posted_downloads s)\<rparr>" E]
    by (simp add: rl_inv_def)
next
  case Rl_CleanedUp
  then obtain ds us where p: "pending_sync s = Some (ds, us)" "model_loaded s" using assms by (auto simp: rl_inv_def)
  let ?s = "s\<lparr>pending_sync := None, rl_downloader := (rl_downloader s)
      \<lparr>offline_dirs := CleanUpFiles E ds (offline_dirs (rl_downloader s))\<rparr>\<rparr>"
  obtain ps where "orun (\<lambda>s url. ScheduleDownloadEntry url s) ?s us = Inr (?s\<lparr>posted_downloads := ps\<rparr>)"
    using schedule_all [of ?s us] p(2) by auto
  then show ?thesis using Rl_CleanedUp p assms(1)
    by (simp add: DownloadUnprocessedEntries_def rl_inv_def dl_inv_def)
next
  case (Rl_Network offline type)
  then show ?thesis using assms OnConnectionChanged_ok [of "s\<lparr>network_offline := offline, connection_type := type\<rparr>" type]
    by (simp add: rl_inv_def)
next
  case (Rl_Downloader x)
  have "model_loaded s"
  proof (rule ccontr)
    assume "\<not> model_loaded s"
    then have "awaiting (rl_downloader s) = Nothing" using assms(1) by (auto simp: rl_inv_def dl_inv_def)
    then show False using assms(2) Rl_Downloader by (cases x) auto
  qed
  then show ?thesis using assms Rl_Downloader with_downloader_ok [of s x E] by (auto simp: rl_inv_def)
qed

interpretation reading_list: checked_machine "rl_step E" rl_ok rl_inv for E
  by unfold_locales (rule rl_step_safe)

lemma new_rl_service_inv: "rl_inv (new_rl_service E offline keys entries)"
  by (simp add: rl_inv_def new_rl_service_def) (simp add: new_url_downloader_def)

text \<open>C10: No admissible sequence of changes of the reading list, of the connection, of delayed
  tasks and of answers to the downloader fails a DCHECK of the service or of the downloader
  behind it, and the downloader works on one task at a time throughout.\<close>
theorem reading_list_runs_keep_the_invariant:
  assumes "admissible (rl_step E) rl_ok (new_rl_service E offline keys entries) xs"
  shows "\<exists>t. orun (rl_step E) (new_rl_service E offline keys entries) xs = Inr t \<and> dl_inv (rl_downloader t)"
  using reading_list.run_safe [OF new_rl_service_inv assms] by (auto simp: rl_inv_def)

section \<open>Failures\<close>

lemma rl_lawsD:
  assumes "rl_laws E"
  shows "entry_state (set_distilled_state E st e) = st" "is_read (set_distilled_state E st e) = is_read e"
    "failed_download_counter (set_distilled_state E st e) = failed_download_counter e +
      (if error_state st \<and> \<not> error_state (entry_state e) then 1 else 0)"
  using assms by (simp_all add: rl_laws_def)

text \<open>The downloader reports a URL whose copy exists with an empty path, and the service takes
  an empty path for a failure: the entry is set to WILL_RETRY, whatever its state was, also
  when it was PROCESSED by an earlier download of the same URL.\<close>
theorem existing_copy_is_taken_for_a_failure:
  assumes "rl_laws E" and "rl_inv s" and "awaiting (rl_downloader s) = Checking url"
    and "offline_dirs (rl_downloader s) (OfflineURLDirectoryAbsolutePath E url) \<noteq> None"
    and "rl_entries s url = Some entry" and "failed_download_counter entry + 1 < kNumberOfFailsBeforeStop"
  shows "\<exists>t entry'. rl_step E s (Rl_Downloader (Dl_Background io)) = Inr t \<and> rl_entries t url = Some entry' \<and>
    entry_state entry' = WILL_RETRY \<and> uma_status t = uma_status s @ [RETRY] \<and>
    offline_dirs (rl_downloader t) (OfflineURLDirectoryAbsolutePath E url) \<noteq> None"
proof -
  let ?d = "rl_downloader s"
  have inv: "dl_inv ?d" "model_loaded s" using assms(2,3) by (auto simp: rl_inv_def dl_inv_def)
  have w: "working ?d" "distiller ?d = None" "distinct (filter (\<lambda>t. fst t = DOWNLOAD) (tasks ?d))"
    using inv(1) assms(3) by (auto simp: dl_inv_def)
  let ?ev = "Download_completed url (distilled_url ?d) DOWNLOAD_EXISTS [] (saved_size ?d) []"
  obtain d where d: "HandleNextTask (?d\<lparr>dl_events := dl_events ?d @ [?ev], distiller := None, working := False,
      awaiting := Nothing\<rparr>) = Inr d" "dl_inv d"
    using HandleNextTask_idle [of "?d\<lparr>dl_events := dl_events ?d @ [?ev], distiller := None, working := False,
      awaiting := Nothing\<rparr>"] w by (auto simp: dl_idle_def)
  have same: "dl_events d = dl_events ?d @ [?ev]" "offline_dirs d = offline_dirs ?d"
    using d(1) by (auto simp: HandleNextTask_def split: if_splits list.splits prod.splits TaskType.splits)
  have "dl_step E ?d (Dl_Background io) = Inr d"
    using assms(3,4) w d(1)
    by (simp add: run_background_task_def DownloadURL_def DownloadCompletionHandler_def post_delete_def)
  then have run: "rl_step E s (Rl_Downloader (Dl_Background io)) =
      OnDownloadEnd E url (distilled_url ?d) DOWNLOAD_EXISTS [] (saved_size ?d) [] (s\<lparr>rl_downloader := d\<rparr>)"
    using same(1) by (simp add: with_downloader_def)
  let ?s = "SetEntryDistilledState E url WILL_RETRY (s\<lparr>rl_downloader := d\<rparr>)"
  obtain ps where "ScheduleDownloadEntry url ?s = Inr (?s\<lparr>posted_downloads := ps\<rparr>)"
    using ScheduleDownloadEntry_run [of ?s url] inv(2) by (auto simp: SetEntryDistilledState_def)
  then show ?thesis using run assms(4-6) inv(2) same(2) rl_lawsD(1) [OF assms(1)]
    by (auto simp: OnDownloadEnd_def SetEntryDistilledState_def update_entry_def)
qed

text \<open>A download attempt that fails.\<close>

definition failed_attempt :: "('u, 'z) rl_env_scheme \<Rightarrow> 'u \<Rightarrow> 'u rl_service \<Rightarrow> 'u rl_service outcome" where
  "failed_attempt E url s = OnDownloadEnd E url url ERROR [] 0 [] (SetEntryDistilledState E url PROCESSING s)"

lemma failed_attempt_entry:
  assumes "rl_laws E" and "model_loaded s" and "rl_entries s url = Some e"
  shows "\<exists>t e'. failed_attempt E url s = Inr t \<and> model_loaded t \<and> rl_entries t url = Some e' \<and>
    is_read e' = is_read e \<and> failed_download_counter e' = failed_download_counter e + 1 \<and>
    entry_state e' = (if failed_download_counter e + 1 < 7 then WILL_RETRY else DISTILLATION_ERROR)"
proof -
  let ?p = "set_distilled_state E PROCESSING e"
  have p: "entry_state ?p = PROCESSING" "is_read ?p = is_read e" "failed_download_counter ?p = failed_download_counter e"
    using rl_lawsD [OF assms(1)] by (simp_all add: error_state_def)
  have q: "entry_state (set_distilled_state E st ?p) = st" "is_read (set_distilled_state E st ?p) = is_read e"
    "error_state st \<Longrightarrow> failed_download_counter (set_distilled_state E st ?p) = failed_download_counter e + 1" for st
    using rl_lawsD [OF assms(1)] p by (simp_all add: error_state_def)
  let ?s = "SetEntryDistilledState E url PROCESSING s"
  have e: "rl_entries ?s url = Some ?p" "model_loaded ?s" using assms(2,3) by (simp_all add: SetEntryDistilledState_def)
  let ?r = "SetEntryDistilledState E url WILL_RETRY ?s"
  have r: "rl_entries ?r url = Some (set_distilled_state E WILL_RETRY ?p)" "model_loaded ?r"
    using assms(2,3) by (simp_all add: SetEntryDistilledState_def)
  obtain ps where ps: "ScheduleDownloadEntry url ?r = Inr (?r\<lparr>posted_downloads := ps\<rparr>)"
    using ScheduleDownloadEntry_run [OF r(2)] by blast
  show ?thesis
  proof (cases "failed_download_counter e + 1 < 7")
    case True
    then have "failed_attempt E url s = Inr (?r\<lparr>posted_downloads := ps, uma_status := uma_status ?r @ [RETRY]\<rparr>)"
      using e p ps by (simp add: failed_attempt_def OnDownloadEnd_def kNumberOfFailsBeforeStop_def)
    then show ?thesis using r q [of WILL_RETRY] True by (simp add: error_state_def)
  next
    case False
    then have "failed_attempt E url s =
        Inr (SetEntryDistilledState E url DISTILLATION_ERROR (?s\<lparr>uma_status := uma_status ?s @ [FAILURE]\<rparr>))"
      using e p by (simp add: failed_attempt_def OnDownloadEnd_def kNumberOfFailsBeforeStop_def)
    then show ?thesis using assms(2,3) q [of DISTILLATION_ERROR] False by (simp add: SetEntryDistilledState_def error_state_def)
  qed
qed

text \<open>A download that keeps failing is given up after seven failures, no earlier and no later:
  before that the entry is retried, after it every further DownloadEntry leaves the service
  as it is.\<close>
theorem download_is_given_up_after_seven_failures:
  assumes "rl_laws E" and "model_loaded s" and "rl_entries s url = Some e" and "failed_download_counter e = 0"
    and "0 < n"
  shows "\<exists>t e'. orun (\<lambda>s _. failed_attempt E url s) s (replicate n ()) = Inr t \<and> rl_entries t url = Some e' \<and>
    failed_download_counter e' = int n \<and>
    entry_state e' = (if n < 7 then WILL_RETRY else DISTILLATION_ERROR) \<and>
    (7 \<le> n \<longrightarrow> DownloadEntry E url t = Inr t)"
proof -
  have "\<exists>t e'. orun (\<lambda>s _. failed_attempt E url s) s (replicate (Suc m) ()) = Inr t \<and> model_loaded t \<and>
      rl_entries t url = Some e' \<and> failed_download_counter e' = c + int (Suc m) \<and>
      entry_state e' = (if c + int (Suc m) < 7 then WILL_RETRY else DISTILLATION_ERROR)"
    if "model_loaded s" "rl_entries s url = Some e" "failed_download_counter e = c" for m c s e
    using that
  proof (induction m arbitrary: s e c)
    case 0
    then show ?case using failed_attempt_entry [OF assms(1) 0(1,2)] by fastforce
  next
    case (Suc m)
    obtain t e' where t: "failed_attempt E url s = Inr t" "model_loaded t" "rl_entries t url = Some e'"
      "failed_download_counter e' = c + 1"
      using failed_attempt_entry [OF assms(1) Suc.prems(1,2)] Suc.prems(3) by blast
    from Suc.IH [OF t(2-4)] t(1) show ?case by (simp add: algebra_simps)
  qed
  from this [OF assms(2-4), of "n - 1"] assms(5) obtain t e' where
    t: "orun (\<lambda>s _. failed_attempt E url s) s (replicate n ()) = Inr t" "model_loaded t" "rl_entries t url = Some e'"
      "failed_download_counter e' = int n" "entry_state e' = (if int n < 7 then WILL_RETRY else DISTILLATION_ERROR)"
    by auto
  have "DownloadEntry E url t = Inr t" if "7 \<le> n"
    using t(2,3,5) that by (simp add: DownloadEntry_def needs_no_download_def)
  then show ?thesis using t by auto
qed

section \<open>Witnesses\<close>

definition demo_set_state :: "DistilledState \<Rightarrow> rl_entry \<Rightarrow> rl_entry" where
  "demo_set_state st e = e\<lparr>entry_state := st, failed_download_counter := failed_download_counter e +
     (if error_state st \<and> \<not> error_state (entry_state e) then 1 else 0)\<rparr>"

definition demo_rl_env :: "string rl_env" where
  "demo_rl_env = dl_env.extend demo_dl_env \<lparr>set_distilled_state = demo_set_state,
     set_distilled_info = (\<lambda>_ _ _ e. e\<lparr>entry_state := PROCESSED, failed_download_counter := 0\<rparr>),
     collapse_whitespace = id, offline_url_directory_id = id, offline_root_append = id\<rparr>"

lemma demo_rl_laws: "rl_laws demo_rl_env"
  by (simp add: rl_laws_def demo_rl_env_def dl_env.defs demo_set_state_def)

definition demo_entry :: rl_entry where
  "demo_entry = \<lparr>entry_state = WAITING, is_read = False, failed_download_counter = 0, entry_title = []\<rparr>"

definition demo_rl :: "string rl_service" where
  "demo_rl = (new_rl_service demo_rl_env False [''a''] [''a'' \<mapsto> demo_entry])\<lparr>model_loaded := True\<rparr>"

theorem reading_list_runs_keep_the_invariant_witness:
  "\<exists>t. orun (rl_step demo_rl_env) (new_rl_service demo_rl_env False [''a''] [''a'' \<mapsto> demo_entry])
      [Rl_Loaded, Rl_CleanedUp, Rl_Posted 0, Rl_Downloader (Dl_Background demo_io)] = Inr t \<and>
    dl_inv (rl_downloader t)"
  by (rule reading_list_runs_keep_the_invariant)
     (simp add: new_rl_service_def new_url_downloader_def demo_rl_env_def dl_env.defs demo_dl_env_def
       ReadingListModelLoaded_def SyncWithModel_def demo_entry_def DownloadUnprocessedEntries_def
       ScheduleDownloadEntry_def needs_no_download_def DownloadEntry_def remove_at_def with_downloader_def
       DownloadOfflineURL_def HandleNextTask_def SetEntryDistilledState_def update_entry_def demo_set_state_def
       error_state_def kNumberOfFailsBeforeWifiOnly_def Let_def split: sum.split)

theorem existing_copy_is_taken_for_a_failure_witness:
  "\<exists>t entry. rl_step demo_rl_env (demo_rl\<lparr>rl_downloader :=
        demo_dl\<lparr>offline_dirs := [''a'' \<mapsto> (\<lambda>_. None)]\<rparr>, rl_entries := [''a'' \<mapsto> demo_entry\<lparr>entry_state := PROCESSED\<rparr>]\<rparr>)
      (Rl_Downloader (Dl_Background demo_io)) = Inr t \<and> rl_entries t ''a'' = Some entry \<and>
    entry_state entry = WILL_RETRY"
proof -
  let ?s = "demo_rl\<lparr>rl_downloader := demo_dl\<lparr>offline_dirs := [''a'' \<mapsto> (\<lambda>_. None)]\<rparr>,
    rl_entries := [''a'' \<mapsto> demo_entry\<lparr>entry_state := PROCESSED\<rparr>]\<rparr>"
  have "rl_inv ?s" using demo_dl_inv by (simp add: rl_inv_def demo_rl_def dl_inv_def)
  moreover have "awaiting (rl_downloader ?s) = Checking ''a''" by (simp add: demo_dl_def)
  ultimately show ?thesis
    using existing_copy_is_taken_for_a_failure [OF demo_rl_laws, of ?s "''a''" _ demo_io]
    by (auto simp: demo_rl_env_def dl_env.defs demo_dl_env_def demo_entry_def kNumberOfFailsBeforeStop_def)
qed

theorem download_is_given_up_after_seven_failures_witness:
  "\<exists>t e'. orun (\<lambda>s _. failed_attempt demo_rl_env ''a'' s) demo_rl (replicate 8 ()) = Inr t \<and>
    rl_entries t ''a'' = Some e' \<and> entry_state e' = DISTILLATION_ERROR"
  using download_is_given_up_after_seven_failures [OF demo_rl_laws, of demo_rl "''a''" demo_entry 8]
  by (auto simp: demo_rl_def new_rl_service_def demo_entry_def)
end
