(* ===== verification/Offline_Url_Utils.thy ===== *)
theory Offline_Url_Utils
  imports Wk_Navigation_Util
begin

text \<open>
  The \<open>chrome://offline\<close> URLs under which an offline copy is shown,
  \<open>chrome/browser/reading_list/offline_url_utils.{h,cc}\<close>: one form carries the path of the copy
  with the entry's URL and the URL to display, the other asks to reload a URL.  \<open>GURL\<close> is the
  record \<open>gurl_ops\<close> with three more operations; \<open>offline_laws\<close> is what the code relies on.
\<close>

record 'u offline_ops = "'u gurl_ops" +
  url_host :: "'u \<Rightarrow> string"
  set_path_str :: "string \<Rightarrow> 'u \<Rightarrow> 'u"
  resolve_url :: "'u \<Rightarrow> string \<Rightarrow> 'u"

definition kEntryURLQueryParam :: string where "kEntryURLQueryParam = ''entryURL''"
definition kReloadURLQueryParam :: string where "kReloadURLQueryParam = ''reload''"
definition kVirtualURLQueryParam :: string where "kVirtualURLQueryParam = ''virtualURL''"
definition kChromeUIScheme :: string where "kChromeUIScheme = ''chrome''"
definition kChromeUIOfflineHost :: string where "kChromeUIOfflineHost = ''offline''"
definition kChromeUIOfflineURL :: string where "kChromeUIOfflineURL = ''chrome://offline/''"

definition OfflineURLForPath ::
    "('u, 'z) offline_ops_scheme \<Rightarrow> string \<Rightarrow> 'u \<Rightarrow> 'u \<Rightarrow> 'u outcome" where
  "OfflineURLForPath P distilled_path entry_url virtual_url =
     dcheck (distilled_path \<noteq> [])
     (dcheck (is_valid P entry_url)
     (dcheck (is_valid P virtual_url)
       (let page_url = set_path_str P distilled_path (gurl P kChromeUIOfflineURL);
            page_url1 = append_query_parameter P page_url kEntryURLQueryParam (spec P entry_url)
        in Inr (append_query_parameter P page_url1 kVirtualURLQueryParam (spec P virtual_url)))))"

definition OfflineReloadURLForURL :: "('u, 'z) offline_ops_scheme \<Rightarrow> 'u \<Rightarrow> 'u outcome" where
  "OfflineReloadURLForURL P entry_url =
     dcheck (is_valid P entry_url)
       (Inr (append_query_parameter P (gurl P kChromeUIOfflineURL) kReloadURLQueryParam (spec P entry_url)))"

text \<open>The three readers do the same for their own key.\<close>

definition url_in_query :: "('u, 'z) offline_ops_scheme \<Rightarrow> string \<Rightarrow> 'u \<Rightarrow> 'u" where
  "url_in_query P key url =
     (case value_for_key_in_query P url key of
        None \<Rightarrow> empty_gurl P
      | Some s \<Rightarrow> let found = gurl P s in if is_valid P found then found else empty_gurl P)"

definition EntryURLForOfflineURL :: "('u, 'z) offline_ops_scheme \<Rightarrow> 'u \<Rightarrow> 'u" where
  "EntryURLForOfflineURL P offline_url = url_in_query P kEntryURLQueryParam offline_url"

definition VirtualURLForOfflineURL :: "('u, 'z) offline_ops_scheme \<Rightarrow> 'u \<Rightarrow> 'u" where
  "VirtualURLForOfflineURL P offline_url = url_in_query P kVirtualURLQueryParam offline_url"

definition ReloadURLForOfflineURL :: "('u, 'z) offline_ops_scheme \<Rightarrow> 'u \<Rightarrow> 'u" where
  "ReloadURLForOfflineURL P offline_url = url_in_query P kReloadURLQueryParam offline_url"

text \<open>The file URL, and the root of its resources where the code sets it.\<close>

definition FileURLForDistilledURL ::
    "('u, 'z) offline_ops_scheme \<Rightarrow> 'u \<Rightarrow> string \<Rightarrow> ('u \<times> 'u option) outcome" where
  "FileURLForDistilledURL P distilled_url offline_path =
     (if \<not> is_valid P distilled_url then Inr (empty_gurl P, None)
      else dcheck (url_scheme P distilled_url = kChromeUIScheme)
        (let file_url = gurl P (''file'' @ ''://'' @ offline_path @ url_path P distilled_url)
         in Inr (file_url, Some (resolve_url P file_url ''.''))))"

definition IsOfflineURL :: "('u, 'z) offline_ops_scheme \<Rightarrow> 'u \<Rightarrow> bool" where
  "IsOfflineURL P url \<longleftrightarrow> url_scheme P url = kChromeUIScheme \<and> url_host P url = kChromeUIOfflineHost"

definition IsOfflineEntryURL :: "('u, 'z) offline_ops_scheme \<Rightarrow> 'u \<Rightarrow> bool" where
  "IsOfflineEntryURL P url \<longleftrightarrow> IsOfflineURL P url \<and> is_valid P (EntryURLForOfflineURL P url)"

definition IsOfflineReloadURL :: "('u, 'z) offline_ops_scheme \<Rightarrow> 'u \<Rightarrow> bool" where
  "IsOfflineReloadURL P url \<longleftrightarrow> IsOfflineURL P url \<and> is_valid P (ReloadURLForOfflineURL P url)"

text \<open>What the code relies on: a query parameter that was appended is found under its key and
  changes no other, nor the scheme and the host; the empty URL is invalid; a valid URL is
  determined by its text.\<close>

definition offline_laws :: "('u, 'z) offline_ops_scheme \<Rightarrow> bool" where
  "offline_laws P \<longleftrightarrow>
     (\<forall>u k v k'. value_for_key_in_query P (append_query_parameter P u k v) k' =
        (if value_for_key_in_query P u k' \<noteq> None then value_for_key_in_query P u k'
         else if k' = k then Some v else None)) \<and>
     (\<forall>u k v. url_scheme P (append_query_parameter P u k v) = url_scheme P u \<and>
        url_host P (append_query_parameter P u k v) = url_host P u) \<and>
     (\<forall>p u k. url_scheme P (set_path_str P p u) = url_scheme P u \<and>
        url_host P (set_path_str P p u) = url_host P u \<and>
        value_for_key_in_query P (set_path_str P p u) k = value_for_key_in_query P u k) \<and>
     url_scheme P (gurl P kChromeUIOfflineURL) = kChromeUIScheme \<and>
     url_host P (gurl P kChromeUIOfflineURL) = kChromeUIOfflineHost \<and>
     (\<forall>k. value_for_key_in_query P (gurl P kChromeUIOfflineURL) k = None) \<and>
     \<not> is_valid P (empty_gurl P) \<and>
     (\<forall>u. is_valid P u \<longrightarrow> gurl P (spec P u) = u)"

lemmas offline_keys = kEntryURLQueryParam_def kReloadURLQueryParam_def kVirtualURLQueryParam_def

text \<open>The URL under which an offline copy is shown gives back the entry's URL and the URL to
  display, is an offline entry URL and not a reload URL; the URL that asks for a reload gives
  back the URL to reload and is no entry URL.\<close>
theorem offline_urls_round_trip:
  assumes "offline_laws P" and "distilled_path \<noteq> []" and "is_valid P entry_url" and "is_valid P virtual_url"
  shows "\<exists>u r. OfflineURLForPath P distilled_path entry_url virtual_url = Inr u \<and>
    EntryURLForOfflineURL P u = entry_url \<and> VirtualURLForOfflineURL P u = virtual_url \<and>
    IsOfflineEntryURL P u \<and> \<not> IsOfflineReloadURL P u \<and>
    OfflineReloadURLForURL P entry_url = Inr r \<and> ReloadURLForOfflineURL P r = entry_url \<and>
    IsOfflineReloadURL P r \<and> \<not> IsOfflineEntryURL P r"
  using assms
  by (simp add: offline_laws_def OfflineURLForPath_def OfflineReloadURLForURL_def EntryURLForOfflineURL_def
      VirtualURLForOfflineURL_def ReloadURLForOfflineURL_def url_in_query_def IsOfflineEntryURL_def
      IsOfflineReloadURL_def IsOfflineURL_def offline_keys Let_def)

text \<open>A model of the URL operations: a URL is its text with the list of its query parameters.\<close>

definition demo_offline_ops :: "(string \<times> (string \<times> string) list) offline_ops" where
  "demo_offline_ops = \<lparr>spec = fst, is_valid = (\<lambda>u. fst u \<noteq> [] \<and> snd u = []), url_scheme = (\<lambda>u. takeWhile (\<lambda>c. c \<noteq> CHR '':'') (fst u)),
     url_path = (\<lambda>_. []), url_query = (\<lambda>_. []), url_ref = (\<lambda>_. []), is_about_blank = (\<lambda>_. False),
     gurl = (\<lambda>s. (s, [])), empty_gurl = ([], []), replace_ref = (\<lambda>_ u. u), replace_scheme_and_path = (\<lambda>_ _ u. u),
     append_query_parameter = (\<lambda>u k v. (fst u, snd u @ [(k, v)])),
     value_for_key_in_query = (\<lambda>u k. map_of (snd u) k), escape_query_param_value = id,
     unescape_binary_url_component = id, json_write = (\<lambda>_. []),
     url_host = (\<lambda>u. takeWhile (\<lambda>c. c \<noteq> CHR ''/'') (drop 3 (dropWhile (\<lambda>c. c \<noteq> CHR '':'') (fst u)))),
     set_path_str = (\<lambda>_ u. u), resolve_url = (\<lambda>u _. u)\<rparr>"

lemma demo_offline_laws: "offline_laws demo_offline_ops"
  by (auto simp: offline_laws_def demo_offline_ops_def kChromeUIOfflineURL_def kChromeUIScheme_def
      kChromeUIOfflineHost_def map_add_def split: option.split)

theorem offline_urls_round_trip_witness:
  "\<exists>u. OfflineURLForPath demo_offline_ops ''a/page.html'' (''http://a'', []) (''http://b'', []) = Inr u \<and>
    EntryURLForOfflineURL demo_offline_ops u = (''http://a'', [])"
  using offline_urls_round_trip [OF demo_offline_laws, of "''a/page.html''" "(''http://a'', [])" "(''http://b'', [])"]
  by (auto simp: demo_offline_ops_def)

end
