(* ===== verification/Reading_List_Remover.thy ===== *)
theory Reading_List_Remover
  imports Prelude
begin

text \<open>
  The helper that deletes the whole reading list once its model is loaded,
  \<open>chrome/browser/reading_list/reading_list_remover_helper.{h,cc}\<close>.  The reading list model
  (\<open>components/reading_list\<close>) is a parameter: \<open>is_loaded\<close>, and \<open>delete_all\<close> with its result;
  \<open>AddObserver\<close> calls \<open>ReadingListModelLoaded\<close> at once on a loaded model, as its documentation says.
  \<open>cleared\<close> counts the calls of \<open>ReadingListDownloadService::Clear\<close>, and \<open>posted\<close> holds the
  completions that were posted, with their results.

  The lemmas show that the completion runs once, with the truth, whatever happens to the model,
  and that the helper may be destroyed afterwards.
\<close>

record 'm model_ops =
  is_loaded :: "'m \<Rightarrow> bool"
  delete_all :: "'m \<Rightarrow> bool \<times> 'm"

record ('m, 'c) remover =
  completion :: "'c option"
  reading_list_model :: "'m option"
  download_service :: bool
  observing :: bool
  cleared :: nat
  posted :: "('c \<times> bool) list"
  left_model :: "'m option"

definition ReadingListRemoverHelper :: "'m option \<Rightarrow> ('m, 'c) remover" where
  "ReadingListRemoverHelper m = \<lparr>completion = None, reading_list_model = m, download_service = True, observing = False,
     cleared = 0, posted = [], left_model = m\<rparr>"

definition ReadlingListItemsRemoved :: "bool \<Rightarrow> ('m, 'c) remover \<Rightarrow> ('m, 'c) remover" where
  "ReadlingListItemsRemoved success r =
     (let r = r\<lparr>reading_list_model := None, download_service := False\<rparr>
      in case completion r of None \<Rightarrow> r | Some c \<Rightarrow> r\<lparr>completion := None, posted := posted r @ [(c, success)]\<rparr>)"

text \<open>\<open>left_model\<close> follows the model beyond the helper's pointer to it.\<close>

definition remover_ReadingListModelLoaded :: "('m, 'z) model_ops_scheme \<Rightarrow> ('m, 'c) remover \<Rightarrow> ('m, 'c) remover outcome" where
  "remover_ReadingListModelLoaded P r =
     (case reading_list_model r of
        None \<Rightarrow> Inl Dcheck_failed
      | Some m \<Rightarrow>
          dcheck (observing r)
            (let r = r\<lparr>observing := False\<rparr>;
                 (model_cleared, m') = delete_all P m;
                 r = r\<lparr>reading_list_model := Some m', left_model := Some m'\<rparr>
             in dcheck (download_service r)
                  (Inr (ReadlingListItemsRemoved model_cleared (r\<lparr>cleared := cleared r + 1\<rparr>)))))"

definition ReadingListModelBeingDeleted :: "('m, 'c) remover \<Rightarrow> ('m, 'c) remover outcome" where
  "ReadingListModelBeingDeleted r =
     dcheck (reading_list_model r \<noteq> None)
       (dcheck (observing r) (Inr (ReadlingListItemsRemoved False (r\<lparr>observing := False, left_model := None\<rparr>))))"

definition RemoveAllUserReadingListItemsIOS ::
    "('m, 'z) model_ops_scheme \<Rightarrow> 'c \<Rightarrow> ('m, 'c) remover \<Rightarrow> ('m, 'c) remover outcome" where
  "RemoveAllUserReadingListItemsIOS P c r =
     (let r = r\<lparr>completion := Some c\<rparr>
      in case reading_list_model r of
           None \<Rightarrow> Inr (ReadlingListItemsRemoved False r)
         | Some m \<Rightarrow>
             (let r = r\<lparr>observing := True\<rparr>
              in if is_loaded P m then remover_ReadingListModelLoaded P r else Inr r))"

definition remover_destroyed :: "('m, 'c) remover \<Rightarrow> unit outcome" where
  "remover_destroyed r = dcheck (reading_list_model r = None) (dcheck (\<not> download_service r) (Inr ()))"

section \<open>The completion runs once\<close>

definition waits :: "'c \<Rightarrow> ('m, 'c) remover \<Rightarrow> bool" where
  "waits c r \<longleftrightarrow> observing r \<and> completion r = Some c \<and> reading_list_model r \<noteq> None \<and> download_service r \<and> posted r = []"

definition completed :: "'c \<Rightarrow> bool \<Rightarrow> ('m, 'c) remover \<Rightarrow> bool" where
  "completed c success r \<longleftrightarrow> \<not> observing r \<and> completion r = None \<and> posted r = [(c, success)] \<and> remover_destroyed r = Inr ()"

lemma no_model_fails_at_once:
  "\<exists>r. RemoveAllUserReadingListItemsIOS P c (ReadingListRemoverHelper None) = Inr r \<and> completed c False r \<and> cleared r = 0"
  by (simp add: RemoveAllUserReadingListItemsIOS_def ReadingListRemoverHelper_def ReadlingListItemsRemoved_def
      completed_def remover_destroyed_def)

lemma loaded_model_is_emptied_at_once:
  assumes "is_loaded P m"
  shows "\<exists>r. RemoveAllUserReadingListItemsIOS P c (ReadingListRemoverHelper (Some m)) = Inr r \<and>
    completed c (fst (delete_all P m)) r \<and> cleared r = 1 \<and> left_model r = Some (snd (delete_all P m))"
  using assms
  by (simp add: RemoveAllUserReadingListItemsIOS_def ReadingListRemoverHelper_def ReadlingListItemsRemoved_def
      remover_ReadingListModelLoaded_def completed_def remover_destroyed_def split: prod.split)

lemma unloaded_model_is_awaited:
  assumes "\<not> is_loaded P m"
  shows "\<exists>r. RemoveAllUserReadingListItemsIOS P c (ReadingListRemoverHelper (Some m)) = Inr r \<and>
    waits c r \<and> reading_list_model r = Some m \<and> cleared r = 0"
  using assms by (simp add: RemoveAllUserReadingListItemsIOS_def ReadingListRemoverHelper_def waits_def)

lemma awaited_model_is_emptied:
  assumes "waits c r" and "reading_list_model r = Some m"
  shows "\<exists>t. remover_ReadingListModelLoaded P r = Inr t \<and> completed c (fst (delete_all P m)) t \<and>
    cleared t = cleared r + 1 \<and> left_model t = Some (snd (delete_all P m))"
  using assms
  by (simp add: waits_def ReadlingListItemsRemoved_def remover_ReadingListModelLoaded_def completed_def
      remover_destroyed_def split: prod.split)

lemma deleted_model_fails:
  assumes "waits c r"
  shows "\<exists>t. ReadingListModelBeingDeleted r = Inr t \<and> completed c False t \<and> cleared t = cleared r"
  using assms
  by (auto simp: waits_def ReadlingListItemsRemoved_def ReadingListModelBeingDeleted_def completed_def remover_destroyed_def)

text \<open>A helper that is destroyed before the model is loaded stops at its DCHECK.\<close>

lemma early_destruction_faults: "waits c r \<Longrightarrow> remover_destroyed r = Inl Dcheck_failed"
  by (simp add: waits_def remover_destroyed_def dcheck_def)

end
