(* ===== verification/Sync_Setup.thy ===== *)
theory Sync_Setup
  imports Prelude
begin

text \<open>
  The service that configures sync, \<open>chrome/browser/sync/sync_setup_service.{h,cc}\<close>.  The sync
  service itself (\<open>components/sync\<close>) is not part of the repository: its state is a type
  variable, and \<open>sync_ops\<close> holds the calls the code makes on it.  The setup-in-progress handle
  that the code keeps in \<open>sync_blocker_\<close> is taken with \<open>take_blocker\<close> and dropped with
  \<open>drop_blocker\<close>.

  \<open>SetSyncEnabled\<close> and \<open>SetSyncingAllDataTypes\<close> call each other; they are one
  \<open>partial_function\<close>, whose value \<open>None\<close> is that the calls never return.
\<close>

section \<open>Data\<close>

datatype ModelType = BOOKMARKS | TYPED_URLS | PASSWORDS | PROXY_TABS | AUTOFILL | PREFERENCES | READING_LIST

datatype SyncableDatatype = kSyncBookmarks | kSyncOmniboxHistory | kSyncPasswords | kSyncOpenTabs |
  kSyncAutofill | kSyncPreferences | kSyncReadingList

datatype SyncServiceState = kNoSyncServiceError | kSyncServiceSignInNeedsUpdate | kSyncServiceCouldNotConnect |
  kSyncServiceServiceUnavailable | kSyncServiceNeedsPassphrase | kSyncServiceNeedsTrustedVaultKey |
  kSyncServiceTrustedVaultRecoverabilityDegraded | kSyncServiceUnrecoverableError | kSyncSettingsNotConfirmed

datatype auth_error = AUTH_NONE | REQUEST_CANCELED | SERVICE_UNAVAILABLE | INVALID_GAIA_CREDENTIALS |
  CONNECTION_FAILED | USER_NOT_SIGNED_UP | UNEXPECTED_SERVICE_RESPONSE | SERVICE_ERROR | NUM_STATES

text \<open>The calls on the sync service and its user settings; \<open>'t\<close> are the user-selectable types.\<close>

record ('s, 't) sync_ops =
  preferred_data_types :: "'s \<Rightarrow> ModelType set"
  active_data_types :: "'s \<Rightarrow> ModelType set"
  selected_types :: "'s \<Rightarrow> 't set"
  set_selected_types :: "bool \<Rightarrow> 't set \<Rightarrow> 's \<Rightarrow> 's"
  all_selectable_types :: "'t list"
  canonical_model_type :: "'t \<Rightarrow> ModelType"
  sync_everything_enabled :: "'s \<Rightarrow> bool"
  sync_requested :: "'s \<Rightarrow> bool"
  set_sync_requested :: "bool \<Rightarrow> 's \<Rightarrow> 's"
  can_sync_feature_start :: "'s \<Rightarrow> bool"
  first_setup_complete :: "'s \<Rightarrow> bool"
  set_first_setup_complete :: "'s \<Rightarrow> 's"
  auth_error_state :: "'s \<Rightarrow> auth_error"
  has_unrecoverable_error :: "'s \<Rightarrow> bool"
  passphrase_required :: "'s \<Rightarrow> bool"
  trusted_vault_key_required :: "'s \<Rightarrow> bool"
  trusted_vault_recoverability_degraded :: "'s \<Rightarrow> bool"
  encrypt_everything_enabled :: "'s \<Rightarrow> bool"
  setup_in_progress :: "'s \<Rightarrow> bool"
  take_setup_handle :: "'s \<Rightarrow> 's"
  release_setup_handle :: "'s \<Rightarrow> 's"

record 's sync_setup =
  sync_service :: 's
  sync_blocker :: bool

definition kDataTypes :: "ModelType list" where
  "kDataTypes = [BOOKMARKS, TYPED_URLS, PASSWORDS, PROXY_TABS, AUTOFILL, PREFERENCES, READING_LIST]"

text \<open>The value of an enumerator.\<close>

fun datatype_index :: "SyncableDatatype \<Rightarrow> nat" where
  "datatype_index kSyncBookmarks = 0"
| "datatype_index kSyncOmniboxHistory = 1"
| "datatype_index kSyncPasswords = 2"
| "datatype_index kSyncOpenTabs = 3"
| "datatype_index kSyncAutofill = 4"
| "datatype_index kSyncPreferences = 5"
| "datatype_index kSyncReadingList = 6"

section \<open>Queries\<close>

definition GetModelType :: "SyncableDatatype \<Rightarrow> ModelType outcome" where
  "GetModelType d = dcheck (datatype_index d < length kDataTypes) (vec_at kDataTypes (datatype_index d))"

definition GetPreferredDataTypes :: "('s, 't, 'z) sync_ops_scheme \<Rightarrow> 's sync_setup \<Rightarrow> ModelType set" where
  "GetPreferredDataTypes P s = preferred_data_types P (sync_service s)"

definition IsDataTypeActive :: "('s, 't, 'z) sync_ops_scheme \<Rightarrow> ModelType \<Rightarrow> 's sync_setup \<Rightarrow> bool" where
  "IsDataTypeActive P t s \<longleftrightarrow> t \<in> active_data_types P (sync_service s)"

definition IsDataTypePreferred :: "('s, 't, 'z) sync_ops_scheme \<Rightarrow> ModelType \<Rightarrow> 's sync_setup \<Rightarrow> bool" where
  "IsDataTypePreferred P t s \<longleftrightarrow> t \<in> GetPreferredDataTypes P s"

definition IsSyncingAllDataTypes :: "('s, 't, 'z) sync_ops_scheme \<Rightarrow> 's sync_setup \<Rightarrow> bool" where
  "IsSyncingAllDataTypes P s \<longleftrightarrow> sync_everything_enabled P (sync_service s)"

definition IsSyncRequested :: "('s, 't, 'z) sync_ops_scheme \<Rightarrow> bool \<Rightarrow> 's sync_setup \<Rightarrow> bool outcome" where
  "IsSyncRequested P mobile_identity_consistency s =
     dcheck mobile_identity_consistency (Inr (sync_requested P (sync_service s)))"

definition CanSyncFeatureStart :: "('s, 't, 'z) sync_ops_scheme \<Rightarrow> 's sync_setup \<Rightarrow> bool" where
  "CanSyncFeatureStart P s \<longleftrightarrow> can_sync_feature_start P (sync_service s)"

definition IsEncryptEverythingEnabled :: "('s, 't, 'z) sync_ops_scheme \<Rightarrow> 's sync_setup \<Rightarrow> bool" where
  "IsEncryptEverythingEnabled P s \<longleftrightarrow> encrypt_everything_enabled P (sync_service s)"

definition IsFirstSetupComplete :: "('s, 't, 'z) sync_ops_scheme \<Rightarrow> 's sync_setup \<Rightarrow> bool" where
  "IsFirstSetupComplete P s \<longleftrightarrow> first_setup_complete P (sync_service s)"

definition HasFinishedInitialSetup :: "('s, 't, 'z) sync_ops_scheme \<Rightarrow> 's sync_setup \<Rightarrow> bool" where
  "HasFinishedInitialSetup P s \<longleftrightarrow>
     \<not> can_sync_feature_start P (sync_service s) \<or> first_setup_complete P (sync_service s)"

definition HasUncommittedChanges :: "('s, 't, 'z) sync_ops_scheme \<Rightarrow> 's sync_setup \<Rightarrow> bool" where
  "HasUncommittedChanges P s \<longleftrightarrow> setup_in_progress P (sync_service s)"

text \<open>After the switch over the authentication error.\<close>

definition state_without_auth_error :: "('s, 't, 'z) sync_ops_scheme \<Rightarrow> 's sync_setup \<Rightarrow> SyncServiceState" where
  "state_without_auth_error P s =
     (let b = sync_service s in
      if has_unrecoverable_error P b then kSyncServiceUnrecoverableError
      else if passphrase_required P b then kSyncServiceNeedsPassphrase
      else if \<not> IsFirstSetupComplete P s \<and> CanSyncFeatureStart P s then kSyncSettingsNotConfirmed
      else if trusted_vault_key_required P b then kSyncServiceNeedsTrustedVaultKey
      else if trusted_vault_recoverability_degraded P b then kSyncServiceTrustedVaultRecoverabilityDegraded
      else kNoSyncServiceError)"

definition GetSyncServiceState :: "('s, 't, 'z) sync_ops_scheme \<Rightarrow> 's sync_setup \<Rightarrow> SyncServiceState outcome" where
  "GetSyncServiceState P s =
     (case auth_error_state P (sync_service s) of
        REQUEST_CANCELED \<Rightarrow> Inr kSyncServiceCouldNotConnect
      | SERVICE_UNAVAILABLE \<Rightarrow> Inr kSyncServiceServiceUnavailable
      | INVALID_GAIA_CREDENTIALS \<Rightarrow> Inr kSyncServiceSignInNeedsUpdate
      | SERVICE_ERROR \<Rightarrow> Inl Notreached
      | NUM_STATES \<Rightarrow> Inl Notreached
      | _ \<Rightarrow> Inr (state_without_auth_error P s))"

definition UserActionIsRequiredToHaveTabSyncWork ::
    "('s, 't, 'z) sync_ops_scheme \<Rightarrow> 's sync_setup \<Rightarrow> bool outcome" where
  "UserActionIsRequiredToHaveTabSyncWork P s =
     (if \<not> CanSyncFeatureStart P s \<or> \<not> IsDataTypePreferred P PROXY_TABS s then Inr True
      else obind (GetSyncServiceState P s) (\<lambda>st.
        case st of
          kNoSyncServiceError \<Rightarrow> Inr False
        | kSyncServiceCouldNotConnect \<Rightarrow> Inr False
        | kSyncServiceServiceUnavailable \<Rightarrow> Inr False
        | kSyncServiceTrustedVaultRecoverabilityDegraded \<Rightarrow> Inr False
        | kSyncServiceSignInNeedsUpdate \<Rightarrow> Inr True
        | kSyncServiceNeedsPassphrase \<Rightarrow> Inr True
        | kSyncServiceUnrecoverableError \<Rightarrow> Inr True
        | kSyncSettingsNotConfirmed \<Rightarrow> Inr True
        | kSyncServiceNeedsTrustedVaultKey \<Rightarrow> Inr (IsEncryptEverythingEnabled P s)))"

section \<open>Changes\<close>

definition take_blocker :: "('s, 't, 'z) sync_ops_scheme \<Rightarrow> 's sync_setup \<Rightarrow> 's sync_setup" where
  "take_blocker P s =
     (if sync_blocker s then s else s\<lparr>sync_blocker := True, sync_service := take_setup_handle P (sync_service s)\<rparr>)"

definition SetSyncEnabledWithoutChangingDatatypes ::
    "('s, 't, 'z) sync_ops_scheme \<Rightarrow> bool \<Rightarrow> 's sync_setup \<Rightarrow> 's sync_setup" where
  "SetSyncEnabledWithoutChangingDatatypes P sync_enabled s =
     (let s1 = take_blocker P s in s1\<lparr>sync_service := set_sync_requested P sync_enabled (sync_service s1)\<rparr>)"

text \<open>\<open>set_sync P True sync_enabled\<close> is \<open>SetSyncEnabled\<close>, \<open>set_sync P False sync_all\<close> is
  \<open>SetSyncingAllDataTypes\<close>.\<close>

partial_function (option) set_sync ::
    "('s, 't, 'z) sync_ops_scheme \<Rightarrow> bool \<Rightarrow> bool \<Rightarrow> 's sync_setup \<Rightarrow> 's sync_setup option" where
  "set_sync P enable b s =
     (if enable then
        (let s1 = SetSyncEnabledWithoutChangingDatatypes P b s in
         if b \<and> GetPreferredDataTypes P s1 = {} then set_sync P False True s1 else Some s1)
      else
        (let s1 = take_blocker P s in
         Option.bind (if b \<and> \<not> CanSyncFeatureStart P s1 then set_sync P True True s1 else Some s1) (\<lambda>s2.
         Some (s2\<lparr>sync_service := set_selected_types P b (selected_types P (sync_service s2)) (sync_service s2)\<rparr>))))"

definition SetSyncEnabled :: "('s, 't, 'z) sync_ops_scheme \<Rightarrow> bool \<Rightarrow> 's sync_setup \<Rightarrow> 's sync_setup option" where
  "SetSyncEnabled P = set_sync P True"

definition SetSyncingAllDataTypes ::
    "('s, 't, 'z) sync_ops_scheme \<Rightarrow> bool \<Rightarrow> 's sync_setup \<Rightarrow> 's sync_setup option" where
  "SetSyncingAllDataTypes P = set_sync P False"

definition SetDataTypeEnabled ::
    "('s, 't, 'z) sync_ops_scheme \<Rightarrow> ModelType \<Rightarrow> bool \<Rightarrow> 's sync_setup \<Rightarrow> 's sync_setup option" where
  "SetDataTypeEnabled P t enabled s =
     (let s1 = take_blocker P s;
          model_types = (if enabled then insert t (GetPreferredDataTypes P s1) else GetPreferredDataTypes P s1 - {t});
          types = set (filter (\<lambda>u. canonical_model_type P u \<in> model_types) (all_selectable_types P));
          s2 = (if enabled \<and> \<not> CanSyncFeatureStart P s1 then SetSyncEnabledWithoutChangingDatatypes P True s1 else s1);
          s3 = s2\<lparr>sync_service := set_selected_types P (IsSyncingAllDataTypes P s2) types (sync_service s2)\<rparr>
      in if GetPreferredDataTypes P s3 = {} then SetSyncEnabled P False s3 else Some s3)"

definition PrepareForFirstSyncSetup :: "('s, 't, 'z) sync_ops_scheme \<Rightarrow> 's sync_setup \<Rightarrow> 's sync_setup outcome" where
  "PrepareForFirstSyncSetup P s = dcheck (\<not> first_setup_complete P (sync_service s)) (Inr (take_blocker P s))"

definition SetFirstSetupComplete :: "('s, 't, 'z) sync_ops_scheme \<Rightarrow> 's sync_setup \<Rightarrow> 's sync_setup outcome" where
  "SetFirstSetupComplete P s =
     dcheck (sync_blocker s)
       (Inr (if can_sync_feature_start P (sync_service s)
             then s\<lparr>sync_service := set_first_setup_complete P (sync_service s)\<rparr> else s))"

definition CommitSyncChanges :: "('s, 't, 'z) sync_ops_scheme \<Rightarrow> 's sync_setup \<Rightarrow> 's sync_setup" where
  "CommitSyncChanges P s =
     (if sync_blocker s then s\<lparr>sync_blocker := False, sync_service := release_setup_handle P (sync_service s)\<rparr> else s)"

section \<open>Termination of the two setters\<close>

text \<open>A sync service that cannot start whatever the user requests (signed out, or disabled by a
  policy) and has no preferred data types.\<close>

definition stuck :: "('s, 't, 'z) sync_ops_scheme \<Rightarrow> 's sync_setup \<Rightarrow> bool" where
  "stuck P s \<longleftrightarrow> sync_blocker s \<and> set_sync_requested P True (sync_service s) = sync_service s \<and>
     \<not> can_sync_feature_start P (sync_service s) \<and> preferred_data_types P (sync_service s) = {}"

lemma stuck_steps:
  assumes "stuck P s"
  shows "take_blocker P s = s" and "SetSyncEnabledWithoutChangingDatatypes P True s = s"
  using assms by (simp_all add: stuck_def take_blocker_def SetSyncEnabledWithoutChangingDatatypes_def Let_def)

lemma set_sync_not_stuck:
  assumes "set_sync P enable b s = Some t"
  shows "b \<longrightarrow> \<not> stuck P s"
proof -
  let ?Q = "\<lambda>(((Q, enable), b), s) y. b \<longrightarrow> \<not> stuck Q s"
  have "?Q (((P, enable), b), s) t"
  proof (rule set_sync.raw_induct [OF _ assms])
  fix rec Q enable b s t
  assume rec: "\<And>Q enable b s t. rec Q enable b s = Some t \<Longrightarrow> ?Q (((Q, enable), b), s) t"
    and run: "(if enable then
        (let s1 = SetSyncEnabledWithoutChangingDatatypes Q b s in
         if b \<and> GetPreferredDataTypes Q s1 = {} then rec Q False True s1 else Some s1)
      else
        (let s1 = take_blocker Q s in
         Option.bind (if b \<and> \<not> CanSyncFeatureStart Q s1 then rec Q True True s1 else Some s1) (\<lambda>s2.
         Some (s2\<lparr>sync_service := set_selected_types Q b (selected_types Q (sync_service s2)) (sync_service s2)\<rparr>)))) = Some t"
  have ih: "b \<longrightarrow> \<not> stuck Q s" if "rec Q enable b s = Some t" for Q enable b s t using rec [OF that] by simp
  have "b \<longrightarrow> \<not> stuck Q s"
  proof (intro impI notI)
    assume b: b and st: "stuck Q s"
    show False
    proof (cases enable)
      case True
      then have "rec Q False True s = Some t"
        using run b st stuck_steps [OF st] by (simp add: GetPreferredDataTypes_def stuck_def Let_def)
      from ih [OF this] st show False by simp
    next
      case False
      then obtain u where "rec Q True True s = Some u"
        using run b st stuck_steps [OF st]
        by (auto simp: CanSyncFeatureStart_def stuck_def Let_def split: Option.bind_splits)
      from ih [OF this] st show False by simp
    qed
  qed
  then show "?Q (((Q, enable), b), s) t" by simp
  qed
  then show ?thesis by simp
qed

text \<open>Enabling sync returns exactly if, with the user's request stored, some data type is
  preferred or the sync feature can start; otherwise SetSyncEnabled and SetSyncingAllDataTypes
  call each other for ever.  Disabling it always returns.\<close>
theorem enabling_sync_returns:
  assumes "\<And>b. set_sync_requested P True (set_sync_requested P True b) = set_sync_requested P True b"
  shows "SetSyncEnabled P True s =
      (let r = SetSyncEnabledWithoutChangingDatatypes P True s in
       if GetPreferredDataTypes P r \<noteq> {} then Some r
       else if CanSyncFeatureStart P r then
         Some (r\<lparr>sync_service := set_selected_types P True (selected_types P (sync_service r)) (sync_service r)\<rparr>)
       else None) \<and>
    SetSyncEnabled P False s = Some (SetSyncEnabledWithoutChangingDatatypes P False s)"
proof -
  let ?r = "SetSyncEnabledWithoutChangingDatatypes P True s"
  have blocker: "sync_blocker ?r" "take_blocker P ?r = ?r"
    by (simp_all add: SetSyncEnabledWithoutChangingDatatypes_def take_blocker_def Let_def)
  have idem: "set_sync_requested P True (sync_service ?r) = sync_service ?r"
    by (simp add: SetSyncEnabledWithoutChangingDatatypes_def assms(1) Let_def)
  have first: "SetSyncEnabled P True s =
      (if GetPreferredDataTypes P ?r = {} then set_sync P False True ?r else Some ?r)"
    unfolding SetSyncEnabled_def by (subst set_sync.simps) (simp add: Let_def)
  have "SetSyncEnabled P True s =
      (if GetPreferredDataTypes P ?r \<noteq> {} then Some ?r
       else if CanSyncFeatureStart P ?r then
         Some (?r\<lparr>sync_service := set_selected_types P True (selected_types P (sync_service ?r)) (sync_service ?r)\<rparr>)
       else None)"
  proof (cases "GetPreferredDataTypes P ?r = {} \<and> \<not> CanSyncFeatureStart P ?r")
    case True
    then have "stuck P ?r" using blocker(1) idem
      by (simp add: stuck_def GetPreferredDataTypes_def CanSyncFeatureStart_def)
    then have "set_sync P False True ?r = None"
      using set_sync_not_stuck [of P False True ?r] by (cases "set_sync P False True ?r") auto
    then show ?thesis using first True by simp
  next
    case False
    then show ?thesis using first blocker(2) by (auto simp: set_sync.simps [of P False True ?r] Let_def)
  qed
  moreover have "SetSyncEnabled P False s = Some (SetSyncEnabledWithoutChangingDatatypes P False s)"
    unfolding SetSyncEnabled_def by (subst set_sync.simps) simp
  ultimately show ?thesis by (simp add: Let_def)
qed

text \<open>A sync service whose state is the request, the selected types and whether it is allowed to
  start.\<close>

definition demo_sync :: "(bool \<times> ModelType set \<times> bool, ModelType) sync_ops" where
  "demo_sync = \<lparr>preferred_data_types = (\<lambda>(_, ts, _). ts), active_data_types = (\<lambda>_. {}),
     selected_types = (\<lambda>(_, ts, _). ts), set_selected_types = (\<lambda>all ts (r, _, ok). (r, if all then set kDataTypes else ts, ok)),
     all_selectable_types = kDataTypes, canonical_model_type = id, sync_everything_enabled = (\<lambda>_. False),
     sync_requested = (\<lambda>(r, _, _). r), set_sync_requested = (\<lambda>b (_, ts, ok). (b, ts, ok)),
     can_sync_feature_start = (\<lambda>(r, _, ok). r \<and> ok), first_setup_complete = (\<lambda>_. True),
     set_first_setup_complete = id, auth_error_state = (\<lambda>_. AUTH_NONE), has_unrecoverable_error = (\<lambda>_. False),
     passphrase_required = (\<lambda>_. False), trusted_vault_key_required = (\<lambda>_. False),
     trusted_vault_recoverability_degraded = (\<lambda>_. False), encrypt_everything_enabled = (\<lambda>_. False),
     setup_in_progress = (\<lambda>_. False), take_setup_handle = id, release_setup_handle = id\<rparr>"

theorem enabling_sync_returns_witness:
  "SetSyncEnabled demo_sync True \<lparr>sync_service = (False, {}, False), sync_blocker = False\<rparr> = None \<and>
   SetSyncEnabled demo_sync True \<lparr>sync_service = (False, {}, True), sync_blocker = False\<rparr> =
     Some \<lparr>sync_service = (True, set kDataTypes, True), sync_blocker = True\<rparr>"
proof -
  have idem: "set_sync_requested demo_sync True (set_sync_requested demo_sync True b) = set_sync_requested demo_sync True b" for b
    by (cases b) (simp add: demo_sync_def)
  show ?thesis
    using enabling_sync_returns [OF idem, of "\<lparr>sync_service = (False, {}, False), sync_blocker = False\<rparr>"]
      enabling_sync_returns [OF idem, of "\<lparr>sync_service = (False, {}, True), sync_blocker = False\<rparr>"]
    by (simp add: demo_sync_def GetPreferredDataTypes_def CanSyncFeatureStart_def take_blocker_def
        SetSyncEnabledWithoutChangingDatatypes_def Let_def)
qed

end
