(* ===== verification/Browser_State_Info_Cache.thy ===== *)
theory Browser_State_Info_Cache
  imports Prelude "HOL-Library.List_Lexorder" "HOL-Library.Char_ord"
begin

text \<open>
  What is kept in the local preferences about every browser state,
  \<open>chrome/browser/browser_state/browser_state_info_cache.{h,cc}\<close>: a dictionary from the name of
  the browser state's directory to its account, and the sorted list of these names that gives
  every browser state an index.

  A preference dictionary is a map; \<open>std::string\<close> is ordered by \<open>List_Lexorder\<close>.  A file path
  is its directory and its last component.  Observers are the trace \<open>cache_events\<close>.
\<close>

section \<open>Data\<close>

datatype pref_value = Pref_string string | Pref_bool bool

type_synonym info = "string \<Rightarrow> pref_value option"

record file_path =
  dir_name :: string
  base_name :: string

datatype cache_event = OnBrowserStateAdded file_path | OnBrowserStateWasRemoved file_path

record info_cache =
  cache_prefs :: "string \<Rightarrow> info option"
  sorted_keys :: "string list"
  user_data_dir :: string
  cache_events :: "cache_event list"

definition kGAIAIdKey :: string where "kGAIAIdKey = ''gaia_id''"
definition kIsAuthErrorKey :: string where "kIsAuthErrorKey = ''is_auth_error''"
definition kUserNameKey :: string where "kUserNameKey = ''user_name''"

lemmas info_keys = kGAIAIdKey_def kIsAuthErrorKey_def kUserNameKey_def

text \<open>\<open>DictionaryValue::Remove\<close> expands paths: a key with a dot names a key of an inner
  dictionary.\<close>

definition remove_path :: "string \<Rightarrow> (string \<Rightarrow> info option) \<Rightarrow> string \<Rightarrow> info option" where
  "remove_path key cache =
     (if CHR ''.'' \<notin> set key then cache(key := None)
      else
        let outer = takeWhile (\<lambda>c. c \<noteq> CHR ''.'') key;
            inner = tl (dropWhile (\<lambda>c. c \<noteq> CHR ''.'') key)
        in case cache outer of
             None \<Rightarrow> cache
           | Some dict \<Rightarrow> if CHR ''.'' \<in> set inner then cache else cache(outer \<mapsto> dict(inner := None)))"

section \<open>Keys and indices\<close>

definition CacheKeyFromBrowserStatePath :: "info_cache \<Rightarrow> file_path \<Rightarrow> string outcome" where
  "CacheKeyFromBrowserStatePath c path = dcheck (user_data_dir c = dir_name path) (Inr (base_name path))"

text \<open>The insertion at \<open>std::upper_bound\<close> in a sorted vector.\<close>

definition AddBrowserStateCacheKey :: "string \<Rightarrow> info_cache \<Rightarrow> info_cache" where
  "AddBrowserStateCacheKey key c =
     c\<lparr>sorted_keys := takeWhile (\<lambda>k. \<not> key < k) (sorted_keys c) @ key # dropWhile (\<lambda>k. \<not> key < k) (sorted_keys c)\<rparr>"

definition GetNumberOfBrowserStates :: "info_cache \<Rightarrow> nat" where
  "GetNumberOfBrowserStates c = length (sorted_keys c)"

definition GetIndexOfBrowserStateWithPath :: "info_cache \<Rightarrow> file_path \<Rightarrow> nat option outcome" where
  "GetIndexOfBrowserStateWithPath c path =
     (if dir_name path \<noteq> user_data_dir c then Inr None
      else obind (CacheKeyFromBrowserStatePath c path) (\<lambda>search_key.
        Inr (index_where (\<lambda>k. k = search_key) (sorted_keys c))))"

definition GetPathOfBrowserStateAtIndex :: "info_cache \<Rightarrow> nat \<Rightarrow> file_path outcome" where
  "GetPathOfBrowserStateAtIndex c index =
     obind (vec_at (sorted_keys c) index) (\<lambda>key. Inr \<lparr>dir_name = user_data_dir c, base_name = key\<rparr>)"

text \<open>A missing dictionary is a null pointer, which the callers follow.\<close>

definition GetInfoForBrowserStateAtIndex :: "info_cache \<Rightarrow> nat \<Rightarrow> info outcome" where
  "GetInfoForBrowserStateAtIndex c index =
     dcheck (index < GetNumberOfBrowserStates c)
     (obind (vec_at (sorted_keys c) index) (\<lambda>key.
        case cache_prefs c key of None \<Rightarrow> Inl Range_error | Some dict \<Rightarrow> Inr dict))"

definition SetInfoForBrowserStateAtIndex :: "nat \<Rightarrow> info \<Rightarrow> info_cache \<Rightarrow> info_cache outcome" where
  "SetInfoForBrowserStateAtIndex index dict c =
     obind (vec_at (sorted_keys c) index) (\<lambda>key. Inr (c\<lparr>cache_prefs := (cache_prefs c)(key \<mapsto> dict)\<rparr>))"

section \<open>The information of a browser state\<close>

definition pref_string :: "info \<Rightarrow> string \<Rightarrow> string" where
  "pref_string dict key = (case dict key of Some (Pref_string v) \<Rightarrow> v | _ \<Rightarrow> [])"

definition GetUserNameOfBrowserStateAtIndex :: "info_cache \<Rightarrow> nat \<Rightarrow> string outcome" where
  "GetUserNameOfBrowserStateAtIndex c index =
     obind (GetInfoForBrowserStateAtIndex c index) (\<lambda>dict. Inr (pref_string dict kUserNameKey))"

definition GetGAIAIdOfBrowserStateAtIndex :: "info_cache \<Rightarrow> nat \<Rightarrow> string outcome" where
  "GetGAIAIdOfBrowserStateAtIndex c index =
     obind (GetInfoForBrowserStateAtIndex c index) (\<lambda>dict. Inr (pref_string dict kGAIAIdKey))"

definition BrowserStateIsAuthenticatedAtIndex :: "info_cache \<Rightarrow> nat \<Rightarrow> bool outcome" where
  "BrowserStateIsAuthenticatedAtIndex c index =
     obind (GetGAIAIdOfBrowserStateAtIndex c index) (\<lambda>gaia_id.
     if gaia_id \<noteq> [] then Inr True
     else obind (GetUserNameOfBrowserStateAtIndex c index) (\<lambda>user_name. Inr (user_name \<noteq> [])))"

definition BrowserStateIsAuthErrorAtIndex :: "info_cache \<Rightarrow> nat \<Rightarrow> bool outcome" where
  "BrowserStateIsAuthErrorAtIndex c index =
     obind (GetInfoForBrowserStateAtIndex c index) (\<lambda>dict.
     Inr (case dict kIsAuthErrorKey of Some (Pref_bool b) \<Rightarrow> b | _ \<Rightarrow> False))"

definition SetAuthInfoOfBrowserStateAtIndex :: "nat \<Rightarrow> string \<Rightarrow> string \<Rightarrow> info_cache \<Rightarrow> info_cache outcome" where
  "SetAuthInfoOfBrowserStateAtIndex index gaia_id user_name c =
     obind (GetGAIAIdOfBrowserStateAtIndex c index) (\<lambda>old_gaia_id.
     obind (GetUserNameOfBrowserStateAtIndex c index) (\<lambda>old_user_name.
     if gaia_id = old_gaia_id \<and> user_name = old_user_name then Inr c
     else obind (GetInfoForBrowserStateAtIndex c index) (\<lambda>dict.
       SetInfoForBrowserStateAtIndex index
         (dict(kGAIAIdKey \<mapsto> Pref_string gaia_id, kUserNameKey \<mapsto> Pref_string user_name)) c)))"

definition SetBrowserStateIsAuthErrorAtIndex :: "nat \<Rightarrow> bool \<Rightarrow> info_cache \<Rightarrow> info_cache outcome" where
  "SetBrowserStateIsAuthErrorAtIndex index v c =
     obind (BrowserStateIsAuthErrorAtIndex c index) (\<lambda>old.
     if v = old then Inr c
     else obind (GetInfoForBrowserStateAtIndex c index) (\<lambda>dict.
       SetInfoForBrowserStateAtIndex index (dict(kIsAuthErrorKey \<mapsto> Pref_bool v)) c))"

section \<open>Adding and removing\<close>

definition AddBrowserState :: "file_path \<Rightarrow> string \<Rightarrow> string \<Rightarrow> info_cache \<Rightarrow> info_cache outcome" where
  "AddBrowserState path gaia_id user_name c =
     obind (CacheKeyFromBrowserStatePath c path) (\<lambda>key.
     let dict = Map.empty(kGAIAIdKey \<mapsto> Pref_string gaia_id, kUserNameKey \<mapsto> Pref_string user_name);
         c1 = AddBrowserStateCacheKey key (c\<lparr>cache_prefs := (cache_prefs c)(key \<mapsto> dict)\<rparr>)
     in Inr (c1\<lparr>cache_events := cache_events c1 @ [OnBrowserStateAdded path]\<rparr>))"

definition RemoveBrowserState :: "file_path \<Rightarrow> info_cache \<Rightarrow> info_cache outcome" where
  "RemoveBrowserState path c =
     obind (GetIndexOfBrowserStateWithPath c path) (\<lambda>index.
     if index = None then Inl Notreached
     else obind (CacheKeyFromBrowserStatePath c path) (\<lambda>key.
       Inr (c\<lparr>cache_prefs := remove_path key (cache_prefs c), sorted_keys := remove1 key (sorted_keys c),
              cache_events := cache_events c @ [OnBrowserStateWasRemoved path]\<rparr>)))"

text \<open>The constructor, for a dictionary whose keys are enumerated as \<open>keys\<close>.\<close>

definition new_info_cache :: "(string \<Rightarrow> info option) \<Rightarrow> string list \<Rightarrow> string \<Rightarrow> info_cache" where
  "new_info_cache prefs keys dir =
     fold AddBrowserStateCacheKey keys
       \<lparr>cache_prefs = prefs, sorted_keys = [], user_data_dir = dir, cache_events = []\<rparr>"

datatype cache_op =
    Cache_Add file_path string string
  | Cache_Remove file_path
  | Cache_SetAuthInfo nat string string
  | Cache_SetIsAuthError nat bool

fun cache_step :: "info_cache \<Rightarrow> cache_op \<Rightarrow> info_cache outcome" where
  "cache_step c (Cache_Add path gaia_id user_name) = AddBrowserState path gaia_id user_name c"
| "cache_step c (Cache_Remove path) = RemoveBrowserState path c"
| "cache_step c (Cache_SetAuthInfo index gaia_id user_name) =
     SetAuthInfoOfBrowserStateAtIndex index gaia_id user_name c"
| "cache_step c (Cache_SetIsAuthError index v) = SetBrowserStateIsAuthErrorAtIndex index v c"

section \<open>The invariant\<close>

definition info_typed :: "info \<Rightarrow> bool" where
  "info_typed dict \<longleftrightarrow> (\<exists>g. dict kGAIAIdKey = Some (Pref_string g)) \<and> (\<exists>u. dict kUserNameKey = Some (Pref_string u)) \<and>
     (dict kIsAuthErrorKey = None \<or> (\<exists>b. dict kIsAuthErrorKey = Some (Pref_bool b)))"

definition cache_inv :: "info_cache \<Rightarrow> bool" where
  "cache_inv c \<longleftrightarrow> sorted (sorted_keys c) \<and> distinct (sorted_keys c) \<and> set (sorted_keys c) = dom (cache_prefs c) \<and>
     (\<forall>k dict. cache_prefs c k = Some dict \<longrightarrow> info_typed dict)"

text \<open>A browser state is added once, under the user data directory, and removed while it is known;
  the name of its directory has no dot (otherwise its entry stays in the preferences, see
  below).\<close>

fun cache_ok :: "info_cache \<Rightarrow> cache_op \<Rightarrow> bool" where
  "cache_ok c (Cache_Add path g u) \<longleftrightarrow> dir_name path = user_data_dir c \<and> base_name path \<notin> set (sorted_keys c)"
| "cache_ok c (Cache_Remove path) \<longleftrightarrow> dir_name path = user_data_dir c \<and> base_name path \<in> set (sorted_keys c) \<and>
     CHR ''.'' \<notin> set (base_name path)"
| "cache_ok c (Cache_SetAuthInfo i g u) \<longleftrightarrow> i < GetNumberOfBrowserStates c"
| "cache_ok c (Cache_SetIsAuthError i v) \<longleftrightarrow> i < GetNumberOfBrowserStates c"

lemma AddKey_set: "set (sorted_keys (AddBrowserStateCacheKey k c)) = insert k (set (sorted_keys c))"
proof -
  have "set (takeWhile P xs) \<union> set (dropWhile P xs) = set xs" for P :: "string \<Rightarrow> bool" and xs
    by (metis set_append takeWhile_dropWhile_id)
  then show ?thesis by (auto simp: AddBrowserStateCacheKey_def)
qed

lemma AddKey_sorted:
  assumes "sorted (sorted_keys c)" and "distinct (sorted_keys c)" and "k \<notin> set (sorted_keys c)"
  shows "sorted (sorted_keys (AddBrowserStateCacheKey k c)) \<and> distinct (sorted_keys (AddBrowserStateCacheKey k c))"
proof -
  let ?xs = "sorted_keys c" and ?P = "\<lambda>x. \<not> k < x"
  have split: "takeWhile ?P ?xs @ dropWhile ?P ?xs = ?xs" by simp
  have low: "\<forall>x \<in> set (takeWhile ?P ?xs). x \<le> k" by (auto dest: set_takeWhileD)
  have high: "\<forall>x \<in> set (dropWhile ?P ?xs). k \<le> x"
  proof (cases "dropWhile ?P ?xs")
    case (Cons y ys)
    then have "k < y" using hd_dropWhile [of ?P ?xs] by auto
    moreover have "sorted (y # ys)" using assms(1) Cons split by (metis sorted_append)
    ultimately show ?thesis using Cons by auto
  next
    case Nil
    show ?thesis unfolding Nil by simp
  qed
  have s: "sorted (takeWhile ?P ?xs) \<and> sorted (dropWhile ?P ?xs)" "distinct (takeWhile ?P ?xs) \<and> distinct (dropWhile ?P ?xs)"
    "set (takeWhile ?P ?xs) \<inter> set (dropWhile ?P ?xs) = {}"
    using assms(1,2) split by (metis sorted_append, metis distinct_append, metis distinct_append)
  have "k \<notin> set (takeWhile ?P ?xs)" "k \<notin> set (dropWhile ?P ?xs)"
    using assms(3) by (auto dest: set_takeWhileD set_dropWhileD)
  then show ?thesis using low high s by (auto simp: AddBrowserStateCacheKey_def sorted_append intro: order_trans)
qed

lemma cache_info:
  assumes "cache_inv c" and "i < GetNumberOfBrowserStates c"
  shows "\<exists>dict. GetInfoForBrowserStateAtIndex c i = Inr dict \<and> cache_prefs c (sorted_keys c ! i) = Some dict \<and> info_typed dict"
proof -
  have "sorted_keys c ! i \<in> dom (cache_prefs c)" using assms by (auto simp: cache_inv_def GetNumberOfBrowserStates_def)
  then show ?thesis using assms
    by (auto simp: GetInfoForBrowserStateAtIndex_def cache_inv_def GetNumberOfBrowserStates_def vec_at_def)
qed

lemma set_info_inv:
  assumes "cache_inv c" and "i < GetNumberOfBrowserStates c" and "info_typed dict"
  shows "\<exists>t. SetInfoForBrowserStateAtIndex i dict c = Inr t \<and> cache_inv t"
proof -
  have "sorted_keys c ! i \<in> dom (cache_prefs c)" using assms by (auto simp: cache_inv_def GetNumberOfBrowserStates_def)
  then show ?thesis using assms
    by (auto simp: SetInfoForBrowserStateAtIndex_def cache_inv_def GetNumberOfBrowserStates_def vec_at_def insert_absorb)
qed

lemma cache_step_safe:
  assumes "cache_inv c" and "cache_ok c x"
  shows "\<exists>t. cache_step c x = Inr t \<and> cache_inv t"
proof (cases x)
  case (Cache_Add path g u)
  let ?dict = "Map.empty(kGAIAIdKey \<mapsto> Pref_string g, kUserNameKey \<mapsto> Pref_string u)"
  let ?c = "c\<lparr>cache_prefs := (cache_prefs c)(base_name path \<mapsto> ?dict)\<rparr>"
  have "info_typed ?dict" by (simp add: info_typed_def info_keys)
  moreover have "sorted_keys (AddBrowserStateCacheKey k ?c) = sorted_keys (AddBrowserStateCacheKey k c)"
    "cache_prefs (AddBrowserStateCacheKey k ?c) = cache_prefs ?c" for k
    by (simp_all add: AddBrowserStateCacheKey_def)
  ultimately show ?thesis using Cache_Add assms AddKey_sorted [of c "base_name path"] AddKey_set [of "base_name path" c]
    by (auto simp: AddBrowserState_def CacheKeyFromBrowserStatePath_def cache_inv_def Let_def)
next
  case (Cache_Remove path)
  then have "index_where (\<lambda>k. k = base_name path) (sorted_keys c) \<noteq> None" using assms(2) by simp
  then show ?thesis using Cache_Remove assms
    by (auto simp: RemoveBrowserState_def GetIndexOfBrowserStateWithPath_def CacheKeyFromBrowserStatePath_def
        cache_inv_def remove_path_def sorted_remove1 simp del: index_where_None)
next
  case (Cache_SetAuthInfo i g u)
  then obtain dict where dict: "GetInfoForBrowserStateAtIndex c i = Inr dict" "info_typed dict"
    using cache_info assms by fastforce
  moreover have "info_typed (dict(kGAIAIdKey \<mapsto> Pref_string g, kUserNameKey \<mapsto> Pref_string u))"
    using dict(2) by (simp add: info_typed_def info_keys)
  ultimately show ?thesis using Cache_SetAuthInfo assms set_info_inv [OF assms(1)]
    by (auto simp: SetAuthInfoOfBrowserStateAtIndex_def GetGAIAIdOfBrowserStateAtIndex_def GetUserNameOfBrowserStateAtIndex_def)
next
  case (Cache_SetIsAuthError i v)
  then obtain dict where dict: "GetInfoForBrowserStateAtIndex c i = Inr dict" "info_typed dict"
    using cache_info assms by fastforce
  moreover have "info_typed (dict(kIsAuthErrorKey \<mapsto> Pref_bool v))" using dict(2) by (simp add: info_typed_def info_keys)
  ultimately show ?thesis using Cache_SetIsAuthError assms set_info_inv [OF assms(1)]
    by (auto simp: SetBrowserStateIsAuthErrorAtIndex_def BrowserStateIsAuthErrorAtIndex_def)
qed

interpretation info_cache: checked_machine cache_step cache_ok cache_inv
  by unfold_locales (rule cache_step_safe)

lemma index_of_key: "distinct xs \<Longrightarrow> i < length xs \<Longrightarrow> index_where (\<lambda>k. k = xs ! i) xs = Some i"
proof (induction xs arbitrary: i)
  case (Cons x xs)
  then show ?case by (cases i) auto
qed simp


definition demo_cache :: info_cache where
  "demo_cache = new_info_cache (\<lambda>_. None) [] ''d''"

lemma demo_cache_inv: "cache_inv demo_cache"
  by (simp add: demo_cache_def new_info_cache_def cache_inv_def)


text \<open>The entry of a browser state whose directory has a dot in its name survives its removal.\<close>

lemma dotted_entry_survives_removal:
  assumes "cache_inv c" and "dir_name path = user_data_dir c" and "base_name path \<in> set (sorted_keys c)"
    and "CHR ''.'' \<in> set (base_name path)"
  shows "\<exists>t. RemoveBrowserState path c = Inr t \<and> base_name path \<notin> set (sorted_keys t) \<and>
    cache_prefs t (base_name path) \<noteq> None"
proof -
  let ?key = "base_name path"
  have found: "index_where (\<lambda>k. k = ?key) (sorted_keys c) \<noteq> None" using assms(3) by simp
  have "takeWhile (\<lambda>c. c \<noteq> CHR ''.'') ?key \<noteq> ?key"
    using assms(4) by (metis set_takeWhileD)
  moreover have "cache_prefs c ?key \<noteq> None" using assms(1,3) by (auto simp: cache_inv_def)
  ultimately have "remove_path ?key (cache_prefs c) ?key \<noteq> None"
    using assms(4) by (auto simp: remove_path_def Let_def split: option.split)
  then show ?thesis using found assms(1,2)
    by (auto simp: RemoveBrowserState_def GetIndexOfBrowserStateWithPath_def CacheKeyFromBrowserStatePath_def
        cache_inv_def simp del: index_where_None)
qed

end
