(* ===== verification/Notification_Promo.thy ===== *)
theory Notification_Promo
  imports Complex_Main Prelude
begin

text \<open>
  The promotion shown on the new tab page, \<open>chrome/browser/notification_promo.{h,cc}\<close>: its
  description comes from the parameters of a field trial, its history (how often it was seen,
  when first, whether it was closed) from the local preferences.

  Times are reals (seconds).  \<open>base::Value\<close> is the datatype \<open>json\<close>, of which the code uses three
  kinds; the conversions of \<open>base\<close> (\<open>StringToInt\<close>, \<open>Time::FromString\<close>) are parameters.  The
  dictionary of the preference is a map from the promotion's id, whose decimal text is the key.
\<close>

section \<open>Data\<close>

datatype json = Json_int int | Json_string string | Json_dict "string \<Rightarrow> json option"

record promo_env =
  string_to_int :: "string \<Rightarrow> int option"
  time_from_string :: "string \<Rightarrow> real option"

record promo_history =
  pref_first_view_time :: real
  pref_views :: int
  pref_closed :: bool

type_synonym promo_prefs = "int \<Rightarrow> promo_history option"

record notification_promo =
  promo_text :: string
  promo_payload :: json
  start_time :: real
  end_time :: real
  promo_id :: int
  max_views :: int
  max_seconds :: int
  first_view_time :: real
  views :: int
  closed :: bool

definition new_notification_promo :: notification_promo where
  "new_notification_promo =
     \<lparr>promo_text = [], promo_payload = Json_dict (\<lambda>_. None), start_time = 0, end_time = 0, promo_id = -1,
      max_views = 0, max_seconds = 0, first_view_time = 0, views = 0, closed = False\<rparr>"

section \<open>The description\<close>

definition IsPayloadParam :: "string \<Rightarrow> bool" where
  "IsPayloadParam param_name \<longleftrightarrow> param_name \<noteq> ''start'' \<and> param_name \<noteq> ''end'' \<and> param_name \<noteq> ''promo_text'' \<and>
     param_name \<noteq> ''max_views'' \<and> param_name \<noteq> ''max_seconds'' \<and> param_name \<noteq> ''promo_id''"

definition find_string_key :: "(string \<Rightarrow> json option) \<Rightarrow> string \<Rightarrow> string option" where
  "find_string_key d key = (case d key of Some (Json_string v) \<Rightarrow> Some v | _ \<Rightarrow> None)"

definition find_int_key :: "(string \<Rightarrow> json option) \<Rightarrow> string \<Rightarrow> int option" where
  "find_int_key d key = (case d key of Some (Json_int v) \<Rightarrow> Some v | _ \<Rightarrow> None)"

definition found_or :: "'a option \<Rightarrow> 'a \<Rightarrow> 'a" where
  "found_or x old = (case x of None \<Rightarrow> old | Some v \<Rightarrow> v)"

definition InitFromJson :: "promo_env \<Rightarrow> (string \<Rightarrow> json option) \<Rightarrow> notification_promo \<Rightarrow> notification_promo" where
  "InitFromJson E d p =
     (let time = (\<lambda>key. Option.bind (find_string_key d key) (time_from_string E)) in
      p\<lparr>start_time := found_or (time ''start'') (start_time p),
        end_time := found_or (time ''end'') (end_time p),
        promo_text := found_or (find_string_key d ''promo_text'') (promo_text p),
        promo_payload := (case d ''payload'' of Some (Json_dict x) \<Rightarrow> Json_dict x | _ \<Rightarrow> promo_payload p),
        max_views := found_or (find_int_key d ''max_views'') (max_views p),
        max_seconds := found_or (find_int_key d ''max_seconds'') (max_seconds p),
        promo_id := found_or (find_int_key d ''promo_id'') (promo_id p)\<rparr>)"

definition converted :: "promo_env \<Rightarrow> string \<Rightarrow> json" where
  "converted E v = (case string_to_int E v of Some n \<Rightarrow> Json_int n | None \<Rightarrow> Json_string v)"

text \<open>\<open>params\<close> are the parameters of the field trial, \<open>None\<close> if it is not running.\<close>

definition InitFromVariations ::
    "promo_env \<Rightarrow> (string \<Rightarrow> string option) option \<Rightarrow> notification_promo \<Rightarrow> notification_promo" where
  "InitFromVariations E params p =
     (case params of
        None \<Rightarrow> p
      | Some ps \<Rightarrow>
          let payload = (\<lambda>key. if IsPayloadParam key then map_option (converted E) (ps key) else None);
              json = (\<lambda>key. if IsPayloadParam key then None else map_option (converted E) (ps key))
          in InitFromJson E (json(''payload'' \<mapsto> Json_dict payload)) p)"

section \<open>The history\<close>

definition WritePrefsWith :: "int \<Rightarrow> real \<Rightarrow> int \<Rightarrow> bool \<Rightarrow> promo_prefs \<Rightarrow> promo_prefs" where
  "WritePrefsWith i first n c prefs =
     prefs(i \<mapsto> \<lparr>pref_first_view_time = first, pref_views = n, pref_closed = c\<rparr>)"

definition WritePrefs :: "notification_promo \<Rightarrow> promo_prefs \<Rightarrow> promo_prefs" where
  "WritePrefs p = WritePrefsWith (promo_id p) (first_view_time p) (views p) (closed p)"

definition MigrateUserPrefs :: "promo_prefs \<Rightarrow> promo_prefs" where
  "MigrateUserPrefs user_prefs = (\<lambda>_. None)"

definition InitFromPrefs :: "promo_prefs \<Rightarrow> notification_promo \<Rightarrow> notification_promo" where
  "InitFromPrefs prefs p =
     (if promo_id p = -1 then p
      else case prefs (promo_id p) of
        None \<Rightarrow> p
      | Some h \<Rightarrow> p\<lparr>first_view_time := pref_first_view_time h, views := pref_views h, closed := pref_closed h\<rparr>)"

definition StartTime :: "notification_promo \<Rightarrow> real" where "StartTime p = start_time p"
definition EndTime :: "notification_promo \<Rightarrow> real" where "EndTime p = end_time p"

definition ExceedsMaxViews :: "notification_promo \<Rightarrow> bool" where
  "ExceedsMaxViews p = (if max_views p = 0 then False else max_views p \<le> views p)"

definition ExceedsMaxSeconds :: "real \<Rightarrow> notification_promo \<Rightarrow> bool" where
  "ExceedsMaxSeconds now p =
     (if max_seconds p = 0 \<or> first_view_time p = 0 then False
      else first_view_time p + real_of_int (max_seconds p) < now)"

definition CanShow :: "real \<Rightarrow> notification_promo \<Rightarrow> bool" where
  "CanShow now p \<longleftrightarrow> \<not> closed p \<and> promo_text p \<noteq> [] \<and> \<not> ExceedsMaxViews p \<and> \<not> ExceedsMaxSeconds now p \<and>
     StartTime p < now \<and> now < EndTime p"

definition HandleClosed :: "notification_promo \<Rightarrow> promo_prefs \<Rightarrow> promo_prefs" where
  "HandleClosed p prefs =
     (if \<not> closed p then WritePrefsWith (promo_id p) (first_view_time p) (views p) True prefs else prefs)"

definition HandleViewed :: "real \<Rightarrow> notification_promo \<Rightarrow> promo_prefs \<Rightarrow> promo_prefs" where
  "HandleViewed now p prefs =
     (let n = views p + 1;
          first = (if first_view_time p = 0 then now else first_view_time p)
      in WritePrefsWith (promo_id p) first n (closed p) prefs)"

section \<open>A promotion over several sessions\<close>

text \<open>A session makes a promotion from the field trial and the preferences and shows it if it may
  be shown; the user closes it or not.\<close>

definition promo_session ::
    "promo_env \<Rightarrow> (string \<Rightarrow> string option) option \<Rightarrow> real \<times> bool \<Rightarrow> promo_prefs \<Rightarrow> bool \<times> promo_prefs" where
  "promo_session E params ses prefs =
     (let p = InitFromPrefs prefs (InitFromVariations E params new_notification_promo) in
      if CanShow (fst ses) p then
        (True, let prefs1 = HandleViewed (fst ses) p prefs
               in if snd ses then HandleClosed (InitFromPrefs prefs1 p) prefs1 else prefs1)
      else (False, prefs))"

fun promo_sessions ::
    "promo_env \<Rightarrow> (string \<Rightarrow> string option) option \<Rightarrow> (real \<times> bool) list \<Rightarrow> promo_prefs \<Rightarrow> nat \<times> promo_prefs" where
  "promo_sessions E params [] prefs = (0, prefs)"
| "promo_sessions E params (ses # rest) prefs =
     (let (shown, prefs1) = promo_session E params ses prefs;
          (n, prefs2) = promo_sessions E params rest prefs1
      in ((if shown then 1 else 0) + n, prefs2))"

definition seen :: "promo_prefs \<Rightarrow> int \<Rightarrow> int" where
  "seen prefs i = (case prefs i of None \<Rightarrow> 0 | Some h \<Rightarrow> pref_views h)"

definition was_closed :: "promo_prefs \<Rightarrow> int \<Rightarrow> bool" where
  "was_closed prefs i \<longleftrightarrow> (case prefs i of None \<Rightarrow> False | Some h \<Rightarrow> pref_closed h)"

lemma variations_history [simp]:
  "views (InitFromVariations E params p) = views p" "closed (InitFromVariations E params p) = closed p"
  "first_view_time (InitFromVariations E params p) = first_view_time p"
  by (simp_all add: InitFromVariations_def InitFromJson_def Let_def split: option.split)

lemma InitFromPrefs_description [simp]:
  "promo_id (InitFromPrefs prefs p) = promo_id p" "max_views (InitFromPrefs prefs p) = max_views p"
  by (simp_all add: InitFromPrefs_def split: option.split)

lemma InitFromPrefs_history:
  assumes "promo_id p \<noteq> -1" and "views p = 0" and "\<not> closed p"
  shows "views (InitFromPrefs prefs p) = seen prefs (promo_id p)"
    and "closed (InitFromPrefs prefs p) = was_closed prefs (promo_id p)"
  using assms by (auto simp: InitFromPrefs_def seen_def was_closed_def split: option.split)

text \<open>What is written is read back.\<close>

lemma prefs_round_trip: "promo_id p \<noteq> -1 \<Longrightarrow> InitFromPrefs (WritePrefs p prefs) p = p"
  by (simp add: InitFromPrefs_def WritePrefs_def WritePrefsWith_def)

lemma promo_session_counts:
  assumes "promo_id (InitFromVariations E params new_notification_promo) = i" and "i \<noteq> -1"
    and "max_views (InitFromVariations E params new_notification_promo) = m" and "m \<noteq> 0"
    and "promo_session E params ses prefs = (shown, prefs1)"
  shows "seen prefs1 i = seen prefs i + (if shown then 1 else 0)"
    and "shown \<longrightarrow> seen prefs i < m \<and> \<not> was_closed prefs i"
    and "shown \<longrightarrow> was_closed prefs1 i = snd ses"
    and "\<not> shown \<longrightarrow> prefs1 = prefs"
proof -
  let ?d = "InitFromVariations E params new_notification_promo"
  let ?p = "InitFromPrefs prefs ?d"
  have h: "views ?p = seen prefs i" "closed ?p = was_closed prefs i"
    using InitFromPrefs_history [of ?d prefs] assms(1,2) by (simp_all add: new_notification_promo_def)
  have id: "promo_id ?p = i" "max_views ?p = m" using assms(1,3) by simp_all
  have "CanShow (fst ses) ?p \<Longrightarrow> seen prefs i < m \<and> \<not> was_closed prefs i"
    using h id assms(4) by (auto simp: CanShow_def ExceedsMaxViews_def)
  then show "shown \<longrightarrow> seen prefs i < m \<and> \<not> was_closed prefs i"
    using assms(5) by (auto simp: promo_session_def Let_def split: if_splits)
  show "seen prefs1 i = seen prefs i + (if shown then 1 else 0)"
    using assms(2,5) h id
    by (auto simp: promo_session_def Let_def HandleViewed_def HandleClosed_def WritePrefsWith_def InitFromPrefs_def
        seen_def split: if_splits)
  show "shown \<longrightarrow> was_closed prefs1 i = snd ses"
    using assms(2,5) h id \<open>CanShow (fst ses) ?p \<Longrightarrow> _\<close>
    by (auto simp: promo_session_def Let_def HandleViewed_def HandleClosed_def WritePrefsWith_def InitFromPrefs_def
        was_closed_def split: if_splits)
  show "\<not> shown \<longrightarrow> prefs1 = prefs"
    using assms(5) by (auto simp: promo_session_def Let_def split: if_splits)
qed

text \<open>Over any number of sessions at any times, a promotion that limits its views is shown at
  most that often, the preferences count exactly the sessions in which it was shown, and a
  promotion that was closed before is not shown at all.\<close>
theorem promo_is_shown_at_most_max_views:
  assumes "promo_id (InitFromVariations E params new_notification_promo) = i" and "i \<noteq> -1"
    and "max_views (InitFromVariations E params new_notification_promo) = m" and "0 < m"
    and "0 \<le> seen prefs i" and "seen prefs i \<le> m"
  shows "\<exists>n prefs'. promo_sessions E params sessions prefs = (n, prefs') \<and> seen prefs' i = seen prefs i + int n \<and>
    seen prefs' i \<le> m \<and> (was_closed prefs i \<longrightarrow> n = 0)"
  using assms(5,6)
proof (induction sessions arbitrary: prefs)
  case Nil
  then show ?case by simp
next
  case (Cons ses rest)
  obtain shown prefs1 where s: "promo_session E params ses prefs = (shown, prefs1)" by fastforce
  have "m \<noteq> 0" using assms(4) by simp
  note counts = promo_session_counts [OF assms(1-3) this s]
  have "0 \<le> seen prefs1 i" "seen prefs1 i \<le> m" using counts(1,2) Cons.prems by auto
  from Cons.IH [OF this] obtain n prefs' where
    "promo_sessions E params rest prefs1 = (n, prefs')" "seen prefs' i = seen prefs1 i + int n" "seen prefs' i \<le> m"
    "was_closed prefs1 i \<longrightarrow> n = 0" by blast
  then show ?case using s counts by auto
qed

definition demo_promo_env :: promo_env where
  "demo_promo_env = \<lparr>string_to_int = (\<lambda>v. if v = ''2'' then Some 2 else if v = ''7'' then Some 7 else None),
     time_from_string = (\<lambda>v. if v = ''late'' then Some 100 else Some 1)\<rparr>"

definition demo_params :: "(string \<Rightarrow> string option) option" where
  "demo_params = Some [''start'' \<mapsto> ''early'', ''end'' \<mapsto> ''late'', ''promo_text'' \<mapsto> ''hello'', ''max_views'' \<mapsto> ''2'',
     ''promo_id'' \<mapsto> ''7'']"

theorem promo_is_shown_at_most_max_views_witness:
  "\<exists>n prefs'. promo_sessions demo_promo_env demo_params [(10, False), (11, False), (12, False)] (\<lambda>_. None) = (n, prefs') \<and>
    seen prefs' 7 = int n \<and> int n \<le> 2"
proof -
  have "promo_id (InitFromVariations demo_promo_env demo_params new_notification_promo) = 7"
    "max_views (InitFromVariations demo_promo_env demo_params new_notification_promo) = 2"
    by (simp_all add: InitFromVariations_def demo_params_def InitFromJson_def demo_promo_env_def find_int_key_def
        find_string_key_def found_or_def converted_def IsPayloadParam_def Let_def)
  from promo_is_shown_at_most_max_views [OF this(1) _ this(2), of "\<lambda>_. None"] show ?thesis
    by (fastforce simp: seen_def)
qed

text \<open>The handlers write the preferences and leave the object alone: a view that is reported after
  the promotion was closed stores it as open again.\<close>

lemma closing_is_undone_by_a_view:
  assumes "\<not> closed p" and "promo_id p \<noteq> -1"
  shows "was_closed (HandleClosed p prefs) (promo_id p) \<and>
    \<not> was_closed (HandleViewed now p (HandleClosed p prefs)) (promo_id p)"
  using assms by (simp add: HandleClosed_def HandleViewed_def WritePrefsWith_def was_closed_def Let_def)

end
