(* ===== verification/Cookie_Cache.thy ===== *)
theory Cookie_Cache
  imports Prelude "HOL-Library.List_Lexorder" "HOL-Library.Char_ord" "HOL-Library.Product_Lexorder"
begin

text \<open>
  The cache that notices changes of cookies, \<open>net/cookies/cookie_cache.{h,cc}\<close>.  For every URL and
  cookie name it keeps the cookies that would be sent as a \<open>std::set\<close>, that is a list which is
  strictly sorted by \<open>CookieComparator\<close> (domain, path, name); \<open>Update\<close> compares the old and
  the new set with \<open>std::set_difference\<close> under the finer \<open>CookieAndValueComparator\<close>.
  \<open>set_difference\<close> is the algorithm of the standard library, on two sorted ranges.

  The lemmas show that the walk over two sorted ranges computes the set difference, and that
  \<open>Update\<close> reports a change exactly if the sets of cookies with their values differ.
\<close>

record cookie =
  cookie_domain :: string
  cookie_path :: string
  cookie_name :: string
  cookie_value :: string
  cookie_attributes :: string

type_synonym cookie_key = "string \<times> string \<times> string"

definition key_of :: "cookie \<Rightarrow> cookie_key" where
  "key_of c = (cookie_domain c, cookie_path c, cookie_name c)"

definition value_key :: "cookie \<Rightarrow> cookie_key \<times> string" where
  "value_key c = (key_of c, cookie_value c)"

section \<open>The two orders\<close>

definition CookieComparator :: "cookie \<Rightarrow> cookie \<Rightarrow> bool" where
  "CookieComparator lhs rhs =
     (if cookie_domain lhs \<noteq> cookie_domain rhs then cookie_domain lhs < cookie_domain rhs
      else if cookie_path lhs \<noteq> cookie_path rhs then cookie_path lhs < cookie_path rhs
      else if cookie_name lhs \<noteq> cookie_name rhs then cookie_name lhs < cookie_name rhs
      else False)"

definition CookieAndValueComparator :: "cookie \<Rightarrow> cookie \<Rightarrow> bool" where
  "CookieAndValueComparator lhs rhs =
     (if cookie_domain lhs \<noteq> cookie_domain rhs then cookie_domain lhs < cookie_domain rhs
      else if cookie_path lhs \<noteq> cookie_path rhs then cookie_path lhs < cookie_path rhs
      else if cookie_name lhs \<noteq> cookie_name rhs then cookie_name lhs < cookie_name rhs
      else if cookie_value lhs \<noteq> cookie_value rhs then cookie_value lhs < cookie_value rhs
      else False)"

lemma CookieComparator_key: "CookieComparator a b \<longleftrightarrow> key_of a < key_of b"
  by (auto simp: CookieComparator_def key_of_def)

lemma CookieAndValueComparator_key: "CookieAndValueComparator a b \<longleftrightarrow> value_key a < value_key b"
  by (auto simp: CookieAndValueComparator_def value_key_def key_of_def)

section \<open>Sets of cookies\<close>

text \<open>Inserting keeps an element that is equivalent.\<close>

fun set_insert :: "cookie \<Rightarrow> cookie list \<Rightarrow> cookie list" where
  "set_insert c [] = [c]"
| "set_insert c (x # xs) =
     (if CookieComparator c x then c # x # xs
      else if CookieComparator x c then x # set_insert c xs
      else x # xs)"

definition cookie_set :: "cookie list \<Rightarrow> cookie list" where
  "cookie_set cs = fold set_insert cs []"

fun set_difference :: "cookie list \<Rightarrow> cookie list \<Rightarrow> cookie list" where
  "set_difference [] ys = []"
| "set_difference xs [] = xs"
| "set_difference (x # xs) (y # ys) =
     (if CookieAndValueComparator x y then x # set_difference xs (y # ys)
      else if CookieAndValueComparator y x then set_difference (x # xs) ys
      else set_difference xs ys)"

section \<open>The cache\<close>

type_synonym 'u cookie_cache = "'u \<times> string \<Rightarrow> cookie list option"

definition cached :: "'u cookie_cache \<Rightarrow> 'u \<times> string \<Rightarrow> cookie list" where
  "cached cache k = (case cache k of None \<Rightarrow> [] | Some cs \<Rightarrow> cs)"

text \<open>The result, the cookies appended to the two output vectors, and the cache; \<open>cache_[key]\<close> makes an empty
  entry where there is none.\<close>

definition Update ::
    "'u \<Rightarrow> string \<Rightarrow> cookie list \<Rightarrow> 'u cookie_cache \<Rightarrow> bool \<times> cookie list \<times> cookie list \<times> 'u cookie_cache" where
  "Update url name new_cookies cache =
     (let k = (url, name);
          cache1 = cache(k \<mapsto> cached cache k);
          old_set = cached cache k;
          new_set = cookie_set new_cookies;
          added_cookies = set_difference new_set old_set;
          removed_cookies = set_difference old_set new_set
      in if added_cookies = [] \<and> removed_cookies = [] then (False, [], [], cache1)
         else (True, removed_cookies, added_cookies, cache1(k \<mapsto> new_set)))"

section \<open>The walk computes the difference\<close>

abbreviation strictly_sorted :: "cookie list \<Rightarrow> bool" where
  "strictly_sorted xs \<equiv> sorted_wrt (\<lambda>a b. key_of a < key_of b) xs"

lemma set_insert_set: "set (set_insert c xs) \<subseteq> insert c (set xs)"
  by (induction xs) auto

lemma set_insert_sorted: "strictly_sorted xs \<Longrightarrow> strictly_sorted (set_insert c xs)"
proof (induction xs)
  case (Cons x xs)
  then show ?case using set_insert_set [of c xs]
    by (auto simp: CookieComparator_key dest: subsetD intro: less_trans)
qed simp

lemma cookie_set_sorted: "strictly_sorted (cookie_set cs)"
proof -
  have "strictly_sorted acc \<Longrightarrow> strictly_sorted (fold set_insert cs acc)" for acc
    by (induction cs arbitrary: acc) (auto intro: set_insert_sorted)
  then show ?thesis by (simp add: cookie_set_def)
qed

lemma value_key_less: "key_of a < key_of b \<Longrightarrow> value_key a < value_key b"
  by (simp add: value_key_def)

lemma set_difference_sorted:
  assumes "sorted_wrt (\<lambda>a b. value_key a < value_key b) xs" and "sorted_wrt (\<lambda>a b. value_key a < value_key b) ys"
  shows "set_difference xs ys = filter (\<lambda>x. value_key x \<notin> value_key ` set ys) xs"
  using assms
proof (induction xs ys rule: set_difference.induct)
  case (3 x xs y ys)
  consider "value_key x < value_key y" | "value_key y < value_key x" | "value_key x = value_key y"
    using less_linear by blast
  then show ?case
  proof cases
    case 1
    then have "value_key x \<notin> value_key ` set (y # ys)" using "3.prems"(2) by auto
    with 1 "3.IH"(1) "3.prems" show ?thesis by (simp add: CookieAndValueComparator_key)
  next
    case 2
    then have "value_key y \<notin> value_key ` set (x # xs)" using "3.prems"(1) by auto
    then have "filter (\<lambda>z. value_key z \<notin> value_key ` set (y # ys)) (x # xs) =
        filter (\<lambda>z. value_key z \<notin> value_key ` set ys) (x # xs)"
      by (intro filter_cong) (auto intro: rev_image_eqI)
    moreover have "\<not> value_key x < value_key y" using 2 by (rule less_not_sym)
    ultimately show ?thesis using 2 "3.IH"(2) "3.prems" by (simp add: CookieAndValueComparator_key)
  next
    case 3
    then have "filter (\<lambda>z. value_key z \<notin> value_key ` set (y # ys)) xs =
        filter (\<lambda>z. value_key z \<notin> value_key ` set ys) xs"
      using "3.prems"(1) by (intro filter_cong) auto
    with 3 "3.IH"(3) "3.prems" show ?thesis by (simp add: CookieAndValueComparator_key)
  qed
qed simp_all

lemma sorted_by_value: "strictly_sorted xs \<Longrightarrow> sorted_wrt (\<lambda>a b. value_key a < value_key b) xs"
  by (rule sorted_wrt_mono_rel) (auto intro: value_key_less)

lemma difference_of_sets:
  assumes "strictly_sorted xs" and "strictly_sorted ys"
  shows "set_difference xs ys = filter (\<lambda>x. value_key x \<notin> value_key ` set ys) xs"
  using set_difference_sorted sorted_by_value assms by blast

definition cache_sorted :: "'u cookie_cache \<Rightarrow> bool" where
  "cache_sorted cache \<longleftrightarrow> (\<forall>k. strictly_sorted (cached cache k))"

text \<open>Update is the comparison of two sets: it reports a change exactly if the cookies, with
  their values, that are cached for the URL and the name differ from the new ones; the added
  and removed cookies are the two set differences in order; the new cookies are cached then,
  and no other entry changes.\<close>
theorem cookie_update_is_set_comparison:
  assumes "cache_sorted cache" and "Update url name new_cookies cache = (changed, removed, added, cache')"
  shows "(changed \<longleftrightarrow> value_key ` set (cookie_set new_cookies) \<noteq> value_key ` set (cached cache (url, name))) \<and>
    removed = filter (\<lambda>c. value_key c \<notin> value_key ` set (cookie_set new_cookies)) (cached cache (url, name)) \<and>
    added = filter (\<lambda>c. value_key c \<notin> value_key ` set (cached cache (url, name))) (cookie_set new_cookies) \<and>
    value_key ` set (cached cache' (url, name)) = value_key ` set (cookie_set new_cookies) \<and>
    (\<forall>k. k \<noteq> (url, name) \<longrightarrow> cache' k = cache k) \<and> cache_sorted cache'"
proof -
  let ?old = "cached cache (url, name)" and ?new = "cookie_set new_cookies"
  have sorted: "strictly_sorted ?old" "strictly_sorted ?new" using assms(1) cookie_set_sorted by (auto simp: cache_sorted_def)
  note diffs = difference_of_sets [OF sorted(2,1)] difference_of_sets [OF sorted]
  have empty: "set_difference ?new ?old = [] \<longleftrightarrow> value_key ` set ?new \<subseteq> value_key ` set ?old"
    "set_difference ?old ?new = [] \<longleftrightarrow> value_key ` set ?old \<subseteq> value_key ` set ?new"
    unfolding diffs filter_empty_conv by blast+
  show ?thesis
  proof (cases "set_difference ?new ?old = [] \<and> set_difference ?old ?new = []")
    case True
    then have "changed = False" "removed = []" "added = []" "cache' = cache((url, name) \<mapsto> ?old)"
      using assms(2) by (simp_all add: Update_def Let_def)
    then show ?thesis using True empty diffs assms(1) by (auto simp: cached_def cache_sorted_def)
  next
    case False
    then have "changed = True" "removed = set_difference ?old ?new" "added = set_difference ?new ?old"
      "cache' = cache((url, name) \<mapsto> ?new)"
      using assms(2) by (auto simp: Update_def Let_def split: if_splits)
    moreover from this have "cached cache' (url, name) = ?new" "cache_sorted cache'"
      using assms(1) sorted by (auto simp: cached_def cache_sorted_def)
    moreover have "value_key ` set ?new \<noteq> value_key ` set ?old" using False empty by blast
    ultimately show ?thesis unfolding diffs by simp
  qed
qed

definition demo_cookie :: "string \<Rightarrow> string \<Rightarrow> cookie" where
  "demo_cookie p v = \<lparr>cookie_domain = ''d'', cookie_path = p, cookie_name = ''n'', cookie_value = v, cookie_attributes = []\<rparr>"

theorem cookie_update_is_set_comparison_witness:
  "\<exists>removed added cache. Update ''u'' ''n'' [demo_cookie ''/b'' ''1'', demo_cookie ''/a'' ''2''] (\<lambda>_. None) =
     (True, removed, added, cache) \<and> removed = [] \<and> cache_sorted cache"
proof -
  obtain changed removed added cache where
    u: "Update ''u'' ''n'' [demo_cookie ''/b'' ''1'', demo_cookie ''/a'' ''2''] (\<lambda>_. None) = (changed, removed, added, cache)"
    by (cases "Update ''u'' ''n'' [demo_cookie ''/b'' ''1'', demo_cookie ''/a'' ''2''] (\<lambda>_. None)") auto
  have "cache_sorted (\<lambda>_. None)" by (simp add: cache_sorted_def cached_def)
  note facts = cookie_update_is_set_comparison [OF this u]
  have "cookie_set [demo_cookie ''/b'' ''1'', demo_cookie ''/a'' ''2''] \<noteq> []" by code_simp
  then show ?thesis using facts u by (auto simp: cached_def)
qed

end
