(* ===== verification/Chunked_Uploader.thy ===== *)
theory Chunked_Uploader
  imports Prelude
begin

text \<open>
  The upload of a request body of unknown length,
  \<open>net/chunked_data_stream_uploader.{h,cc}\<close>.  The network layer asks for data with
  \<open>ReadInternal\<close>, the iOS layer announces data with \<open>UploadWhenReady\<close>, and whichever comes
  second reads from the delegate into the buffer of the network layer.

  The delegate (an \<open>NSInputStream\<close>) is a parameter: \<open>OnRead d len\<close> is the number it returns, the
  bytes it has put at the front of the buffer, and its next state.  Its documentation says that
  a positive result is the number of bytes put into the buffer, which is at most \<open>len\<close>; this is
  \<open>reads_in_order\<close>, with the part of the body that is still to come.  Of the base class
  \<open>net::UploadDataStream\<close> the model keeps what it is told: \<open>SetIsFinalChunk\<close>, \<open>OnReadCompleted\<close>
  and the results of \<open>ReadInternal\<close>, and the bytes it finds in its buffers.  \<open>OnReadCompleted\<close>
  may call \<open>ReadInternal\<close>; it is the last statement of \<open>Upload\<close> that touches the state, so that
  a nested read is the next operation of the sequence.

  The lemmas show that no operation a network layer may issue stops at a \<open>DCHECK\<close>, and that the
  bytes arrive in the order of the body, without loss or repetition.
\<close>

section \<open>State\<close>

datatype net_result = Bytes_read int | ERR_IO_PENDING | ERR_FAILED

datatype stream_note = Final_chunk | Read_returned net_result | Read_completed int

record ('d, 'b) uploader =
  delegate :: 'd
  pending_read_buffer :: "nat option"
  pending_read_buffer_length :: int
  pending_internal_read :: bool
  is_final_chunk :: bool
  is_front_of_stream :: bool
  told :: "stream_note list"
  received :: "'b list"

definition ChunkedDataStreamUploader :: "'d \<Rightarrow> ('d, 'b) uploader" where
  "ChunkedDataStreamUploader d =
     \<lparr>delegate = d, pending_read_buffer = None, pending_read_buffer_length = 0,
      pending_internal_read = False, is_final_chunk = False, is_front_of_stream = True,
      told = [], received = []\<rparr>"

section \<open>Operations\<close>

type_synonym ('d, 'b) on_read = "'d \<Rightarrow> int \<Rightarrow> int \<times> 'b list \<times> 'd"

named_theorems uploader_defs "definitions of the operations of the uploader"

definition tell :: "stream_note \<Rightarrow> ('d, 'b) uploader \<Rightarrow> ('d, 'b) uploader" where
  [uploader_defs]: "tell x u = u\<lparr>told := told u @ [x]\<rparr>"

text \<open>The common end of \<open>Upload\<close>: the buffer is given back, and a read that was left pending is
  completed.\<close>

definition finish_read :: "int \<Rightarrow> ('d, 'b) uploader \<Rightarrow> net_result \<times> ('d, 'b) uploader" where
  [uploader_defs]: "finish_read bytes_read u =
     (let u1 = u\<lparr>pending_read_buffer := None, pending_read_buffer_length := 0\<rparr>
      in (Bytes_read bytes_read,
          if pending_internal_read u1
          then tell (Read_completed bytes_read) (u1\<lparr>pending_internal_read := False\<rparr>)
          else u1))"

definition Upload :: "('d, 'b) on_read \<Rightarrow> ('d, 'b) uploader \<Rightarrow> (net_result \<times> ('d, 'b) uploader) outcome" where
  [uploader_defs]: "Upload OnRead u =
     dcheck (pending_read_buffer u \<noteq> None)
       (let u1 = u\<lparr>is_front_of_stream := False\<rparr>
        in if is_final_chunk u1 then Inr (finish_read 0 (tell Final_chunk u1))
           else case OnRead (delegate u1) (pending_read_buffer_length u1) of
             (bytes_read, bytes, d) \<Rightarrow>
               if bytes_read \<le> 0 then Inr (ERR_IO_PENDING, u1\<lparr>delegate := d, pending_internal_read := True\<rparr>)
               else Inr (finish_read bytes_read (u1\<lparr>delegate := d, received := received u1 @ bytes\<rparr>)))"

definition InitInternal :: "('d, 'b) uploader \<Rightarrow> net_result" where
  "InitInternal u = (if is_front_of_stream u then Bytes_read 0 else ERR_FAILED)"

definition ReadInternal ::
    "('d, 'b) on_read \<Rightarrow> nat option \<Rightarrow> int \<Rightarrow> ('d, 'b) uploader \<Rightarrow> (net_result \<times> ('d, 'b) uploader) outcome" where
  [uploader_defs]: "ReadInternal OnRead buffer buffer_length u =
     dcheck (buffer \<noteq> None) (dcheck (0 < buffer_length) (dcheck (pending_read_buffer u = None)
       (Upload OnRead (u\<lparr>pending_read_buffer := buffer, pending_read_buffer_length := buffer_length\<rparr>))))"

definition ResetInternal :: "('d, 'b) uploader \<Rightarrow> ('d, 'b) uploader" where
  [uploader_defs]: "ResetInternal u =
     u\<lparr>pending_read_buffer := None, pending_read_buffer_length := 0, pending_internal_read := False,
       is_final_chunk := False\<rparr>"

definition UploadWhenReady :: "('d, 'b) on_read \<Rightarrow> bool \<Rightarrow> ('d, 'b) uploader \<Rightarrow> ('d, 'b) uploader outcome" where
  [uploader_defs]: "UploadWhenReady OnRead final u =
     (let u1 = u\<lparr>is_final_chunk := final\<rparr>
      in if pending_internal_read u1 then obind (Upload OnRead u1) (\<lambda>r. Inr (snd r)) else Inr u1)"

section \<open>Sequences of operations\<close>

datatype upload_op = Op_Read nat int | Op_Reset | Op_UploadWhenReady bool

fun upload_step :: "('d, 'b) on_read \<Rightarrow> ('d, 'b) uploader \<Rightarrow> upload_op \<Rightarrow> ('d, 'b) uploader outcome" where
  "upload_step OnRead u (Op_Read buffer buffer_length) =
     obind (ReadInternal OnRead (Some buffer) buffer_length u) (\<lambda>(r, v). Inr (tell (Read_returned r) v))"
| "upload_step OnRead u Op_Reset = Inr (ResetInternal u)"
| "upload_step OnRead u (Op_UploadWhenReady final) = UploadWhenReady OnRead final u"

text \<open>The base class reads into a buffer with room, and not while a read is pending.\<close>

fun upload_ok :: "('d, 'b) uploader \<Rightarrow> upload_op \<Rightarrow> bool" where
  "upload_ok u (Op_Read buffer buffer_length) \<longleftrightarrow> 0 < buffer_length \<and> pending_read_buffer u = None"
| "upload_ok u Op_Reset = True"
| "upload_ok u (Op_UploadWhenReady final) = True"

definition reads_in_order :: "('d, 'b) on_read \<Rightarrow> ('d \<Rightarrow> 'b list) \<Rightarrow> bool" where
  "reads_in_order OnRead rest \<longleftrightarrow> (\<forall>d len.
     case OnRead d len of (n, bytes, d') \<Rightarrow>
       if 0 < n then n \<le> len \<and> length bytes = nat n \<and> rest d = bytes @ rest d' else rest d' = rest d)"

definition uploader_inv :: "('d \<Rightarrow> 'b list) \<Rightarrow> 'b list \<Rightarrow> ('d, 'b) uploader \<Rightarrow> bool" where
  "uploader_inv rest body u \<longleftrightarrow>
     (pending_internal_read u \<longleftrightarrow> pending_read_buffer u \<noteq> None) \<and>
     (pending_read_buffer u = None \<longrightarrow> pending_read_buffer_length u = 0) \<and>
     (is_front_of_stream u \<longrightarrow> received u = [] \<and> \<not> pending_internal_read u) \<and>
     received u @ rest (delegate u) = body"

section \<open>Invariant\<close>

lemma Upload_correct:
  assumes r: "reads_in_order OnRead rest" and b: "received u @ rest (delegate u) = body"
    and p: "pending_read_buffer u \<noteq> None"
  shows "\<exists>r v. Upload OnRead u = Inr (r, v) \<and> uploader_inv rest body v \<and>
    (r = ERR_IO_PENDING \<longleftrightarrow> pending_internal_read v)"
proof (cases "is_final_chunk u")
  case True
  then show ?thesis using b p by (auto simp: uploader_defs uploader_inv_def Let_def)
next
  case False
  obtain n bytes d where o: "OnRead (delegate u) (pending_read_buffer_length u) = (n, bytes, d)"
    by (cases "OnRead (delegate u) (pending_read_buffer_length u)") auto
  have "if 0 < n then rest (delegate u) = bytes @ rest d else rest d = rest (delegate u)"
    using r [unfolded reads_in_order_def, THEN spec [of _ "delegate u"], THEN spec [of _ "pending_read_buffer_length u"]] o
    by (simp split: if_splits)
  then show ?thesis using False b p o by (auto simp: uploader_defs uploader_inv_def Let_def)
qed

lemma upload_step_safe:
  assumes r: "reads_in_order OnRead rest" and i: "uploader_inv rest body u" and "upload_ok u x"
  shows "\<exists>v. upload_step OnRead u x = Inr v \<and> uploader_inv rest body v"
proof (cases x)
  case (Op_Read buffer len)
  let ?u = "u\<lparr>pending_read_buffer := Some buffer, pending_read_buffer_length := len\<rparr>"
  have "received ?u @ rest (delegate ?u) = body" using i by (simp add: uploader_inv_def)
  from Upload_correct [OF r this] obtain r v where "Upload OnRead ?u = Inr (r, v)" "uploader_inv rest body v"
    by auto
  then show ?thesis using Op_Read assms(3)
    by (auto simp: ReadInternal_def tell_def uploader_inv_def)
next
  case Op_Reset
  then show ?thesis using i by (auto simp: uploader_defs uploader_inv_def)
next
  case (Op_UploadWhenReady final)
  let ?u = "u\<lparr>is_final_chunk := final\<rparr>"
  have b: "received ?u @ rest (delegate ?u) = body" using i by (simp add: uploader_inv_def)
  show ?thesis
  proof (cases "pending_internal_read u")
    case True
    then have "pending_read_buffer ?u \<noteq> None" using i by (simp add: uploader_inv_def)
    from Upload_correct [OF r b this] show ?thesis using True Op_UploadWhenReady
      by (auto simp: UploadWhenReady_def Let_def)
  next
    case False
    then show ?thesis using i Op_UploadWhenReady by (auto simp: UploadWhenReady_def Let_def uploader_inv_def)
  qed
qed

interpretation chunked_upload: checked_machine "upload_step OnRead" upload_ok
  "\<lambda>u. reads_in_order OnRead rest \<and> uploader_inv rest body u"
  for OnRead rest body
  by unfold_locales (use upload_step_safe in blast)

section \<open>What a client sees\<close>

text \<open>A read after the last chunk has been announced ends the stream at once; the delegate is
  not asked.\<close>

lemma last_chunk_ends_the_stream:
  assumes "is_final_chunk u" and "pending_read_buffer u = None" and "0 < len" and "\<not> pending_internal_read u"
  shows "ReadInternal OnRead (Some buffer) len u =
    Inr (Bytes_read 0, u\<lparr>is_front_of_stream := False, told := told u @ [Final_chunk], pending_read_buffer_length := 0\<rparr>)"
  using assms by (simp add: uploader_defs Let_def)

text \<open>A rewind is refused: after a read, \<open>ResetInternal\<close> followed by \<open>InitInternal\<close> fails.\<close>

lemma Upload_leaves_the_front: "Upload OnRead u = Inr (r, v) \<Longrightarrow> \<not> is_front_of_stream v"
  by (auto simp: uploader_defs Let_def split: if_splits prod.splits)

lemma no_rewind:
  assumes "ReadInternal OnRead buffer len u = Inr (r, v)"
  shows "InitInternal (ResetInternal v) = ERR_FAILED"
proof -
  have "\<not> is_front_of_stream v" using assms Upload_leaves_the_front by (auto simp: ReadInternal_def)
  then show ?thesis by (simp add: InitInternal_def ResetInternal_def)
qed


section \<open>Witness\<close>

text \<open>A stream in memory: some bytes are available now, the rest after the next empty read.\<close>

fun pieces_read :: "string list \<Rightarrow> int \<Rightarrow> int \<times> string \<times> string list" where
  "pieces_read [] len = (0, [], [])"
| "pieces_read (p # ps) len =
     (if p = [] then (0, [], ps)
      else let k = min (nat len) (length p) in (int k, take k p, drop k p # ps))"

lemma pieces_in_order: "reads_in_order pieces_read concat"
proof -
  have "case pieces_read d len of (n, bytes, d') \<Rightarrow>
      if 0 < n then n \<le> len \<and> length bytes = nat n \<and> concat d = bytes @ concat d' else concat d' = concat d" for d len
    by (cases d) (auto simp: Let_def min_def)
  then show ?thesis by (simp add: reads_in_order_def)
qed

definition demo_upload :: "upload_op list" where
  "demo_upload = [Op_Read 1 2, Op_Read 2 2, Op_Read 3 2, Op_UploadWhenReady False, Op_UploadWhenReady True, Op_Read 4 2]"


end
