(* ===== verification/First_User_Action.thy ===== *)
theory First_User_Action
  imports Prelude
begin

text \<open>
  The recorder of the first user action after the app comes to the foreground,
  \<open>chrome/browser/metrics/first_user_action_recorder.{h,cc}\<close>.  Histograms are the output of the
  model: \<open>recorded\<close> holds, in order, the samples of the type histogram and of the duration
  histograms, each with the family of the device that selects its name.  A rethrown action is
  the task in \<open>rethrow_callback\<close>; \<open>Run_rethrown\<close> is the message loop that runs it.

  The lemmas show that a recorder records one type at most, with its duration, and which one the
  sequence of actions selects.
\<close>

section \<open>Data\<close>

datatype DeviceFamilyIndex = HANDSET | TABLET

datatype FirstUserActionType = NEW_TASK | CONTINUATION | EXPIRATION | START_ON_NTP

datatype sample = Type_sample DeviceFamilyIndex FirstUserActionType
  | Duration_sample DeviceFamilyIndex FirstUserActionType int

record action_recorder =
  device_family :: DeviceFamilyIndex
  recorded_action :: bool
  action_pending :: bool
  background_minutes :: int
  rethrow_callback :: "string option"
  recorded :: "sample list"

definition FirstUserActionRecorder :: "bool \<Rightarrow> int \<Rightarrow> action_recorder" where
  "FirstUserActionRecorder ipad background_duration =
     \<lparr>device_family = (if ipad then TABLET else HANDSET), recorded_action = False, action_pending = False,
      background_minutes = background_duration, rethrow_callback = None, recorded = []\<rparr>"

definition kIgnoredActions :: "string list" where
  "kIgnoredActions =
     [''MobileOmniboxUse'',
      ''MobileFirstUserAction_Continuation'',
      ''MobileFirstUserAction_Expiration'',
      ''MobileFirstUserAction_NewTask'',
      ''MobileMenuCloseAllTabs'',
      ''MobileMenuCloseAllIncognitoTabs'',
      ''MobileMenuCloseTab'',
      ''MobileNewTabOpened'',
      ''MobileTabClosed'',
      ''MobileTabStripCloseTab'',
      ''MobileStackViewCloseTab'',
      ''MobileToolbarShowMenu'',
      ''MobileToolbarShowStackView'']"

definition kRethrownActions :: "string list" where
  "kRethrownActions = [''MobileTabSwitched'']"

definition kNewTaskActions :: "string list" where
  "kNewTaskActions =
     [''MobileMenuAllBookmarks'',
      ''MobileMenuHistory'',
      ''MobileMenuNewIncognitoTab'',
      ''MobileMenuNewTab'',
      ''MobileMenuRecentTabs'',
      ''MobileMenuVoiceSearch'',
      ''MobileBookmarkManagerEntryOpened'',
      ''MobileRecentTabManagerTabFromOtherDeviceOpened'',
      ''MobileNTPMostVisited'',
      ''MobileNTPShowBookmarks'',
      ''MobileNTPShowMostVisited'',
      ''MobileNTPShowOpenTabs'',
      ''MobileNTPShowHistory'',
      ''MobileNTPShowReadingList'',
      ''MobileNTPSwitchToBookmarks'',
      ''MobileNTPSwitchToMostVisited'',
      ''MobileNTPSwitchToOpenTabs'',
      ''MobileTabStripNewTab'',
      ''MobileToolbarNewTab'',
      ''MobileToolbarStackViewNewTab'',
      ''MobileToolbarVoiceSearch'',
      ''OmniboxInputInProgress'']"

section \<open>Operations\<close>

fun ArrayContainsString :: "string list \<Rightarrow> string \<Rightarrow> bool" where
  "ArrayContainsString [] to_find = False"
| "ArrayContainsString (s # to_search) to_find = (if to_find = s then True else ArrayContainsString to_search to_find)"

definition StartsWith :: "string \<Rightarrow> string \<Rightarrow> bool" where
  "StartsWith s prefix \<longleftrightarrow> take (length prefix) s = prefix"

fun duration_sample :: "action_recorder \<Rightarrow> FirstUserActionType \<Rightarrow> sample list" where
  "duration_sample r START_ON_NTP = []"
| "duration_sample r action_type = [Duration_sample (device_family r) action_type (background_minutes r)]"

definition RecordAction :: "FirstUserActionType \<Rightarrow> action_recorder \<Rightarrow> action_recorder" where
  "RecordAction action_type r =
     (if \<not> recorded_action r
      then r\<lparr>recorded_action := True,
             recorded := recorded r @ Type_sample (device_family r) action_type # duration_sample r action_type\<rparr>
      else r)"

text \<open>The result, and the recorder with the posted callback.\<close>

definition ShouldProcessAction :: "string \<Rightarrow> action_recorder \<Rightarrow> bool \<times> action_recorder" where
  "ShouldProcessAction action_name r =
     (if recorded_action r then (False, r)
      else if \<not> action_pending r \<and> ArrayContainsString kRethrownActions action_name
        then (False, r\<lparr>rethrow_callback := Some action_name, action_pending := True\<rparr>)
      else let known_mobile_action = StartsWith action_name ''Mobile'' \<or> ArrayContainsString kNewTaskActions action_name
           in (known_mobile_action \<and> \<not> ArrayContainsString kIgnoredActions action_name, r))"

definition OnUserAction :: "string \<Rightarrow> action_recorder \<Rightarrow> action_recorder" where
  "OnUserAction action_name r =
     (case ShouldProcessAction action_name r of (process, r1) \<Rightarrow>
        if process
        then if ArrayContainsString kNewTaskActions action_name then RecordAction NEW_TASK r1
             else RecordAction CONTINUATION r1
        else r1)"

definition Expire :: "action_recorder \<Rightarrow> action_recorder" where
  "Expire r = RecordAction EXPIRATION (r\<lparr>rethrow_callback := None\<rparr>)"

definition RecordStartOnNTP :: "action_recorder \<Rightarrow> action_recorder" where
  "RecordStartOnNTP r = RecordAction START_ON_NTP r"

datatype recorder_event = Action string | Run_rethrown | Expired | Started_on_NTP

fun recorder_step :: "recorder_event \<Rightarrow> action_recorder \<Rightarrow> action_recorder" where
  "recorder_step (Action action_name) r = OnUserAction action_name r"
| "recorder_step Run_rethrown r =
     (case rethrow_callback r of None \<Rightarrow> r
      | Some action_name \<Rightarrow> OnUserAction action_name (r\<lparr>rethrow_callback := None\<rparr>))"
| "recorder_step Expired r = Expire r"
| "recorder_step Started_on_NTP r = RecordStartOnNTP r"

section \<open>One type is recorded\<close>

lemma ArrayContainsString_iff: "ArrayContainsString xs x \<longleftrightarrow> x \<in> set xs"
  by (induction xs) auto

definition recorder_inv :: "action_recorder \<Rightarrow> bool" where
  "recorder_inv r \<longleftrightarrow>
     (if recorded_action r
      then \<exists>t. recorded r = Type_sample (device_family r) t # duration_sample r t
      else recorded r = []) \<and>
     (rethrow_callback r \<noteq> None \<longrightarrow> action_pending r)"

lemma duration_sample_cong:
  "device_family r = device_family s \<Longrightarrow> background_minutes r = background_minutes s \<Longrightarrow>
     duration_sample r t = duration_sample s t"
  by (cases t) auto

lemma RecordAction_inv: "recorder_inv r \<Longrightarrow> recorder_inv (RecordAction t r)"
  by (auto simp: recorder_inv_def RecordAction_def intro!: exI [of _ t] duration_sample_cong)

lemma inv_callback: "recorder_inv r \<Longrightarrow> recorder_inv (r\<lparr>rethrow_callback := None\<rparr>)"
  using duration_sample_cong [of "r\<lparr>rethrow_callback := None\<rparr>" r] by (simp add: recorder_inv_def)

lemma OnUserAction_inv:
  assumes "recorder_inv r"
  shows "recorder_inv (OnUserAction action_name r)"
proof -
  have "recorder_inv (snd (ShouldProcessAction action_name r))"
    using assms by (auto simp: ShouldProcessAction_def recorder_inv_def Let_def)
  then show ?thesis by (auto simp: OnUserAction_def RecordAction_inv split: prod.split)
qed

lemma recorder_step_inv: "recorder_inv r \<Longrightarrow> recorder_inv (recorder_step e r)"
  by (cases e)
    (auto simp: OnUserAction_inv Expire_def RecordStartOnNTP_def RecordAction_inv inv_callback split: option.split)

lemma one_type_is_recorded:
  "recorder_inv (fold recorder_step es (FirstUserActionRecorder ipad background_duration))"
proof -
  have "recorder_inv r \<Longrightarrow> recorder_inv (fold recorder_step es r)" for r
    by (induction es arbitrary: r) (auto intro: recorder_step_inv)
  then show ?thesis by (simp add: recorder_inv_def FirstUserActionRecorder_def)
qed

section \<open>Which type\<close>

text \<open>A first sample is final.\<close>

lemma first_sample_is_final:
  "recorded_action r \<Longrightarrow> recorded (fold recorder_step es r) = recorded r \<and> recorded_action (fold recorder_step es r)"
proof (induction es arbitrary: r)
  case (Cons e es)
  have "recorded (recorder_step e r) = recorded r \<and> recorded_action (recorder_step e r)"
    using Cons.prems
    by (cases e) (auto simp: OnUserAction_def ShouldProcessAction_def Expire_def RecordStartOnNTP_def RecordAction_def
        split: option.split)
  with Cons.IH [of "recorder_step e r"] show ?case by simp
qed simp

text \<open>No ignored action starts a new task or is rethrown.\<close>

lemma action_lists_disjoint:
  "list_all (\<lambda>a. \<not> ArrayContainsString kNewTaskActions a \<and> \<not> ArrayContainsString kRethrownActions a) kIgnoredActions"
  by code_simp

text \<open>A tab switch waits for the actions that are queued already: with a new task behind it, the
  new task is recorded; on its own it is a continuation.\<close>

lemma new_task_beats_the_switch:
  assumes "recorder_inv r" and "\<not> recorded_action r" and "\<not> action_pending r" and "ArrayContainsString kNewTaskActions a"
  shows "recorded (fold recorder_step [Action ''MobileTabSwitched'', Action a, Run_rethrown] r) =
    [Type_sample (device_family r) NEW_TASK, Duration_sample (device_family r) NEW_TASK (background_minutes r)]"
proof -
  let ?r = "r\<lparr>rethrow_callback := Some ''MobileTabSwitched'', action_pending := True\<rparr>"
  have switch: "recorder_step (Action ''MobileTabSwitched'') r = ?r"
    using assms by (simp add: OnUserAction_def ShouldProcessAction_def kRethrownActions_def)
  have "\<not> ArrayContainsString kIgnoredActions a"
    using action_lists_disjoint assms(4) by (auto simp: ArrayContainsString_iff list_all_iff)
  then have new: "recorder_step (Action a) ?r = RecordAction NEW_TASK ?r"
    using assms by (simp add: OnUserAction_def ShouldProcessAction_def)
  have "recorded_action (RecordAction NEW_TASK ?r)" by (simp add: RecordAction_def)
  from first_sample_is_final [OF this, of "[Run_rethrown]"]
  have "recorded (fold recorder_step [Action ''MobileTabSwitched'', Action a, Run_rethrown] r) =
      recorded (RecordAction NEW_TASK ?r)"
    by (simp add: switch new del: recorder_step.simps)
  then show ?thesis using assms by (simp add: RecordAction_def recorder_inv_def)
qed

lemma lone_switch_is_a_continuation:
  assumes "recorder_inv r" and "\<not> recorded_action r" and "\<not> action_pending r"
  shows "recorded (fold recorder_step [Action ''MobileTabSwitched'', Run_rethrown] r) =
    [Type_sample (device_family r) CONTINUATION, Duration_sample (device_family r) CONTINUATION (background_minutes r)]"
proof -
  have "\<not> ArrayContainsString kNewTaskActions ''MobileTabSwitched''" "\<not> ArrayContainsString kIgnoredActions ''MobileTabSwitched''"
    "StartsWith ''MobileTabSwitched'' ''Mobile''" "ArrayContainsString kRethrownActions ''MobileTabSwitched''"
    by code_simp+
  then show ?thesis using assms
    by (simp add: OnUserAction_def ShouldProcessAction_def RecordAction_def recorder_inv_def)
qed

end
