(* ===== verification/Web_Threads.thy ===== *)
theory Web_Threads
  imports Prelude
begin

text \<open>
  The registry of the well-known threads, \<open>web/web_thread_impl.{h,cc}\<close> with
  \<open>web/public/thread/web_thread.h\<close> and the traits of \<open>web/public/thread/web_task_traits.h\<close>, and
  the delegate of the IO thread (\<open>web/web_sub_thread.cc\<close>).  The arrays of \<open>WebThreadGlobals\<close> are
  functions from the thread's identifier; \<open>lock_held\<close> is the state of the global lock, which is
  not recursive: \<open>acquire\<close> stops where it is held already.

  Task runners are a type variable, and \<open>here\<close> says which of them belong to the calling thread
  (\<open>BelongsToCurrentThread\<close>).  What \<open>base\<close> does with a posted task is not part of the
  repository: the model records it with its runner in \<open>posted\<close>.

  The lemmas show that no call takes the lock twice or leaves it taken, that a thread is
  registered once, that a task is accepted exactly while its thread runs, and then handed to the
  runner the thread was registered with.
\<close>

section \<open>Identifiers and traits\<close>

datatype web_thread_id = UI | IO | ID_COUNT

fun thread_index :: "web_thread_id \<Rightarrow> nat" where
  "thread_index UI = 0"
| "thread_index IO = 1"
| "thread_index ID_COUNT = 2"

text \<open>The enumeration is in the order of lifetimes, and compared as such.\<close>

instantiation web_thread_id :: linorder
begin

definition less_eq_web_thread_id :: "web_thread_id \<Rightarrow> web_thread_id \<Rightarrow> bool" where
  "a \<le> b \<longleftrightarrow> thread_index a \<le> thread_index b"

definition less_web_thread_id :: "web_thread_id \<Rightarrow> web_thread_id \<Rightarrow> bool" where
  "a < b \<longleftrightarrow> thread_index a < thread_index b"

lemma thread_index_inject: "thread_index a = thread_index b \<Longrightarrow> a = b"
  by (cases a; cases b) auto

instance
  by standard (auto simp: less_eq_web_thread_id_def less_web_thread_id_def intro: thread_index_inject)

end

lemma thread_id_less [simp]: "t < ID_COUNT \<longleftrightarrow> t \<noteq> ID_COUNT"
  by (cases t) (auto simp: less_web_thread_id_def)

datatype WebThreadState = UNINITIALIZED | RUNNING | SHUTDOWN

datatype shutdown_behavior = CONTINUE_ON_SHUTDOWN | SKIP_ON_SHUTDOWN | BLOCK_SHUTDOWN

text \<open>\<open>base::TaskTraits\<close> with the extension of the web layer; \<open>shutdown\<close> is the behaviour that was
  set explicitly.\<close>

record task_traits =
  web_extension :: bool
  web_thread :: web_thread_id
  nestable :: bool
  shutdown :: "shutdown_behavior option"

definition WebTaskTraitsExtension :: "web_thread_id \<Rightarrow> bool \<Rightarrow> task_traits" where
  "WebTaskTraitsExtension identifier non_nestable =
     \<lparr>web_extension = True, web_thread = identifier, nestable = \<not> non_nestable, shutdown = None\<rparr>"

text \<open>The two bytes of the extension's storage; the value of a byte that no enumerator has is
  \<open>None\<close>.\<close>

definition Serialize :: "web_thread_id \<Rightarrow> bool \<Rightarrow> nat \<times> nat" where
  "Serialize identifier nest = (thread_index identifier, if nest then 1 else 0)"

definition Parse :: "nat \<times> nat \<Rightarrow> (web_thread_id \<times> bool) option" where
  "Parse b = (if fst b < 3 then Some ([UI, IO, ID_COUNT] ! fst b, snd b \<noteq> 0) else None)"

lemma Parse_Serialize: "Parse (Serialize t nest) = Some (t, nest)"
  by (cases t) (auto simp: Serialize_def Parse_def)

section \<open>The globals\<close>

record ('r, 'd) web_threads =
  globals_created :: bool
  lock_held :: bool
  task_runners :: "web_thread_id \<Rightarrow> 'r option"
  states :: "web_thread_id \<Rightarrow> WebThreadState"
  task_executor :: bool
  io_thread_delegate :: "'d option"

text \<open>A posted task: its runner, the task, its delay, and whether it may run in a nested loop.\<close>

type_synonym ('r, 't) post = "'r \<times> 't \<times> nat \<times> bool"

definition no_threads :: "('r, 'd) web_threads" where
  "no_threads = \<lparr>globals_created = False, lock_held = False, task_runners = \<lambda>_. None, states = \<lambda>_. UNINITIALIZED,
     task_executor = False, io_thread_delegate = None\<rparr>"

named_theorems thread_defs "definitions of the operations of the thread registry"

definition globals_get :: "('r, 'd) web_threads \<Rightarrow> ('r, 'd) web_threads" where
  [thread_defs]: "globals_get g = g\<lparr>globals_created := True\<rparr>"

definition acquire :: "('r, 'd) web_threads \<Rightarrow> ('r, 'd) web_threads outcome" where
  [thread_defs]: "acquire g = dcheck (\<not> lock_held g) (Inr (g\<lparr>lock_held := True\<rparr>))"

definition release :: "('r, 'd) web_threads \<Rightarrow> ('r, 'd) web_threads outcome" where
  [thread_defs]: "release g = dcheck (lock_held g) (Inr (g\<lparr>lock_held := False\<rparr>))"

text \<open>\<open>base::AutoLock\<close> around the rest of a body.\<close>

definition auto_lock ::
    "(('r, 'd) web_threads \<Rightarrow> ('a \<times> ('r, 'd) web_threads) outcome) \<Rightarrow>
     ('r, 'd) web_threads \<Rightarrow> ('a \<times> ('r, 'd) web_threads) outcome" where
  [thread_defs]: "auto_lock body g =
     obind (acquire (globals_get g)) (\<lambda>g1. obind (body g1) (\<lambda>(a, g2). obind (release g2) (\<lambda>g3. Inr (a, g3))))"

section \<open>Registration\<close>

definition WebThreadImpl :: "web_thread_id \<Rightarrow> 'r option \<Rightarrow> ('r, 'd) web_threads \<Rightarrow> (unit \<times> ('r, 'd) web_threads) outcome" where
  [thread_defs]: "WebThreadImpl identifier runner g =
     dcheck (runner \<noteq> None)
       (auto_lock (\<lambda>g.
          dcheck (identifier < ID_COUNT) (dcheck (states g identifier = UNINITIALIZED)
            (let g1 = g\<lparr>states := (states g)(identifier := RUNNING)\<rparr>
             in dcheck (task_runners g1 identifier = None)
                  (Inr ((), g1\<lparr>task_runners := (task_runners g1)(identifier := runner)\<rparr>))))) g)"

definition WebThreadImpl_destroyed :: "web_thread_id \<Rightarrow> ('r, 'd) web_threads \<Rightarrow> (unit \<times> ('r, 'd) web_threads) outcome" where
  [thread_defs]: "WebThreadImpl_destroyed identifier =
     auto_lock (\<lambda>g. dcheck (states g identifier = RUNNING)
       (Inr ((), g\<lparr>states := (states g)(identifier := SHUTDOWN)\<rparr>)))"

definition ResetGlobalsForTesting :: "web_thread_id \<Rightarrow> ('r, 'd) web_threads \<Rightarrow> (unit \<times> ('r, 'd) web_threads) outcome" where
  [thread_defs]: "ResetGlobalsForTesting identifier =
     auto_lock (\<lambda>g. dcheck (states g identifier = SHUTDOWN)
       (Inr ((), g\<lparr>states := (states g)(identifier := UNINITIALIZED),
                   task_runners := (task_runners g)(identifier := None)\<rparr>)))"

section \<open>Queries\<close>

definition GetThreadName :: "web_thread_id \<Rightarrow> string" where
  "GetThreadName thread =
     (if UI \<le> thread \<and> thread < ID_COUNT then [''Web_UIThread'', ''Web_IOThread''] ! thread_index thread
      else ''Unknown Thread'')"

definition IsThreadInitialized :: "web_thread_id \<Rightarrow> ('r, 'd) web_threads \<Rightarrow> (bool \<times> ('r, 'd) web_threads) outcome" where
  [thread_defs]: "IsThreadInitialized identifier g =
     (if \<not> globals_created g then Inr (False, g)
      else auto_lock (\<lambda>g. dcheck (identifier < ID_COUNT) (Inr (states g identifier = RUNNING, g))) g)"

definition runs_here :: "('r \<Rightarrow> bool) \<Rightarrow> ('r, 'd) web_threads \<Rightarrow> web_thread_id \<Rightarrow> bool" where
  [thread_defs]: "runs_here here g identifier \<longleftrightarrow> (case task_runners g identifier of None \<Rightarrow> False | Some r \<Rightarrow> here r)"

definition CurrentlyOn ::
    "('r \<Rightarrow> bool) \<Rightarrow> web_thread_id \<Rightarrow> ('r, 'd) web_threads \<Rightarrow> (bool \<times> ('r, 'd) web_threads) outcome" where
  [thread_defs]: "CurrentlyOn here identifier =
     auto_lock (\<lambda>g. dcheck (identifier < ID_COUNT) (Inr (runs_here here g identifier, g)))"

definition GetDCheckCurrentlyOnErrorMessage :: "string \<Rightarrow> web_thread_id \<Rightarrow> string" where
  "GetDCheckCurrentlyOnErrorMessage platform_name expected =
     (let actual_name = (if platform_name = [] then ''Unknown Thread'' else platform_name)
      in ''Must be called on '' @ GetThreadName expected @ ''; actually called on '' @ actual_name @ ''.'')"

text \<open>The loop over the identifiers; \<open>None\<close> is the result \<open>false\<close>.\<close>

definition GetCurrentThreadIdentifier ::
    "('r \<Rightarrow> bool) \<Rightarrow> ('r, 'd) web_threads \<Rightarrow> (web_thread_id option \<times> ('r, 'd) web_threads) outcome" where
  [thread_defs]: "GetCurrentThreadIdentifier here g =
     (if \<not> globals_created g then Inr (None, g)
      else auto_lock (\<lambda>g. Inr (List.find (runs_here here g) [UI, IO], g)) g)"

section \<open>Posting\<close>

definition PostTaskHelper ::
    "('r \<Rightarrow> bool) \<Rightarrow> web_thread_id \<Rightarrow> 't \<Rightarrow> nat \<Rightarrow> bool \<Rightarrow> ('r, 'd) web_threads \<Rightarrow>
     ((bool \<times> ('r, 't) post list) \<times> ('r, 'd) web_threads) outcome" where
  [thread_defs]: "PostTaskHelper here identifier task delay nest g =
     dcheck (identifier < ID_COUNT)
       (obind (GetCurrentThreadIdentifier here g) (\<lambda>(current_thread, g).
          let target_thread_outlives_current =
                (case current_thread of None \<Rightarrow> False | Some c \<Rightarrow> identifier \<le> c);
              g = globals_get g
          in obind (if target_thread_outlives_current then Inr g else acquire g) (\<lambda>g.
             let accepting_tasks = (states g identifier = RUNNING)
             in obind (if accepting_tasks
                       then (case task_runners g identifier of None \<Rightarrow> Inl Dcheck_failed
                             | Some runner \<Rightarrow> Inr [(runner, task, delay, nest)])
                       else Inr []) (\<lambda>out.
                obind (if target_thread_outlives_current then Inr g else release g) (\<lambda>g.
                  Inr ((accepting_tasks, out), g))))))"

definition GetWebThreadIdentifier :: "task_traits \<Rightarrow> web_thread_id outcome" where
  [thread_defs]: "GetWebThreadIdentifier traits =
     dcheck (web_extension traits)
       (let i = web_thread traits
        in dcheck (i < ID_COUNT)
             (case shutdown traits of None \<Rightarrow> Inr i
              | Some b \<Rightarrow>
                  if i = UI then dcheck (b = SKIP_ON_SHUTDOWN) (Inr i)
                  else if i = IO then dcheck (b = BLOCK_SHUTDOWN) (Inr i) else Inr i))"

definition executor_PostDelayedTask ::
    "('r \<Rightarrow> bool) \<Rightarrow> task_traits \<Rightarrow> 't \<Rightarrow> nat \<Rightarrow> ('r, 'd) web_threads \<Rightarrow>
     ((bool \<times> ('r, 't) post list) \<times> ('r, 'd) web_threads) outcome" where
  [thread_defs]: "executor_PostDelayedTask here traits task delay g =
     obind (GetWebThreadIdentifier traits) (\<lambda>identifier. PostTaskHelper here identifier task delay (nestable traits) g)"

text \<open>\<open>base::PostDelayedTask\<close> hands a task with these traits to the registered executor.\<close>

definition WebThreadTaskRunner_PostDelayedTask ::
    "('r \<Rightarrow> bool) \<Rightarrow> web_thread_id \<Rightarrow> 't \<Rightarrow> nat \<Rightarrow> ('r, 'd) web_threads \<Rightarrow>
     ((bool \<times> ('r, 't) post list) \<times> ('r, 'd) web_threads) outcome" where
  [thread_defs]: "WebThreadTaskRunner_PostDelayedTask here identifier task delay g =
     dcheck (task_executor g) (executor_PostDelayedTask here (WebTaskTraitsExtension identifier False) task delay g)"

definition WebThreadTaskRunner_PostNonNestableDelayedTask ::
    "('r \<Rightarrow> bool) \<Rightarrow> web_thread_id \<Rightarrow> 't \<Rightarrow> nat \<Rightarrow> ('r, 'd) web_threads \<Rightarrow>
     ((bool \<times> ('r, 't) post list) \<times> ('r, 'd) web_threads) outcome" where
  [thread_defs]: "WebThreadTaskRunner_PostNonNestableDelayedTask here identifier task delay g =
     dcheck (task_executor g) (executor_PostDelayedTask here (WebTaskTraitsExtension identifier True) task delay g)"

definition RunsTasksInCurrentSequence ::
    "('r \<Rightarrow> bool) \<Rightarrow> web_thread_id \<Rightarrow> ('r, 'd) web_threads \<Rightarrow> (bool \<times> ('r, 'd) web_threads) outcome" where
  "RunsTasksInCurrentSequence here identifier = CurrentlyOn here identifier"

text \<open>The runner of a thread is determined by its identifier; a dedicated one cannot be asked
  for.\<close>

definition CreateTaskRunner :: "task_traits \<Rightarrow> web_thread_id outcome" where
  "CreateTaskRunner traits = GetWebThreadIdentifier traits"

definition CreateSingleThreadTaskRunner :: "task_traits \<Rightarrow> bool \<Rightarrow> web_thread_id outcome" where
  "CreateSingleThreadTaskRunner traits shared = dcheck shared (GetWebThreadIdentifier traits)"

definition CreateTaskExecutor :: "('r, 'd) web_threads \<Rightarrow> ('r, 'd) web_threads outcome" where
  "CreateTaskExecutor g = dcheck (\<not> task_executor g) (Inr (g\<lparr>task_executor := True\<rparr>))"

definition ResetTaskExecutorForTesting :: "('r, 'd) web_threads \<Rightarrow> ('r, 'd) web_threads outcome" where
  "ResetTaskExecutorForTesting g = dcheck (task_executor g) (Inr (g\<lparr>task_executor := False\<rparr>))"

text \<open>\<open>DeleteOnThread\<close>: the object is deleted here, or a task that deletes it is posted.\<close>

definition Destruct ::
    "('r \<Rightarrow> bool) \<Rightarrow> web_thread_id \<Rightarrow> 't \<Rightarrow> ('r, 'd) web_threads \<Rightarrow>
     ((bool \<times> ('r, 't) post list) \<times> ('r, 'd) web_threads) outcome" where
  [thread_defs]: "Destruct here identifier delete g =
     obind (CurrentlyOn here identifier g) (\<lambda>(on, g1).
       if on then Inr ((True, []), g1)
       else obind (WebThreadTaskRunner_PostNonNestableDelayedTask here identifier delete 0 g1) (\<lambda>((posted, out), g2).
              Inr ((False, out), g2)))"

definition SetIOThreadDelegate :: "'d option \<Rightarrow> ('r, 'd) web_threads \<Rightarrow> ('r, 'd) web_threads outcome" where
  [thread_defs]: "SetIOThreadDelegate d g =
     obind (IsThreadInitialized IO g) (\<lambda>(up, g1).
       dcheck (\<not> up) (dcheck (io_thread_delegate g1 = None \<or> d = None) (Inr (g1\<lparr>io_thread_delegate := d\<rparr>))))"

section \<open>The registry is consistent\<close>

definition threads_inv :: "('r, 'd) web_threads \<Rightarrow> bool" where
  "threads_inv g \<longleftrightarrow> \<not> lock_held g \<and> states g ID_COUNT = UNINITIALIZED \<and>
     (\<forall>t. task_runners g t = None \<longleftrightarrow> states g t = UNINITIALIZED)"

text \<open>The operations of any thread; \<open>here\<close> is the caller's view of the runners.\<close>

datatype ('r, 't) thread_op = Op_register web_thread_id 'r | Op_shutdown web_thread_id | Op_reset web_thread_id
  | Op_post "'r \<Rightarrow> bool" web_thread_id 't nat bool | Op_delete "'r \<Rightarrow> bool" web_thread_id 't | Op_create_executor

type_synonym ('r, 't, 'd) thread_world = "('r, 'd) web_threads \<times> ('r, 't) post list"

fun thread_step :: "('r, 't, 'd) thread_world \<Rightarrow> ('r, 't) thread_op \<Rightarrow> ('r, 't, 'd) thread_world outcome" where
  "thread_step (g, out) (Op_register t r) = obind (WebThreadImpl t (Some r) g) (\<lambda>(_, h). Inr (h, out))"
| "thread_step (g, out) (Op_shutdown t) = obind (WebThreadImpl_destroyed t g) (\<lambda>(_, h). Inr (h, out))"
| "thread_step (g, out) (Op_reset t) = obind (ResetGlobalsForTesting t g) (\<lambda>(_, h). Inr (h, out))"
| "thread_step (g, out) (Op_post here t task delay nest) =
     obind (PostTaskHelper here t task delay nest g) (\<lambda>((_, new), h). Inr (h, out @ new))"
| "thread_step (g, out) (Op_delete here t delete) =
     obind (Destruct here t delete g) (\<lambda>((_, new), h). Inr (h, out @ new))"
| "thread_step (g, out) Op_create_executor = obind (CreateTaskExecutor g) (\<lambda>h. Inr (h, out))"

fun thread_ok :: "('r, 't, 'd) thread_world \<Rightarrow> ('r, 't) thread_op \<Rightarrow> bool" where
  "thread_ok (g, out) (Op_register t r) \<longleftrightarrow> t \<noteq> ID_COUNT \<and> states g t = UNINITIALIZED"
| "thread_ok (g, out) (Op_shutdown t) \<longleftrightarrow> states g t = RUNNING"
| "thread_ok (g, out) (Op_reset t) \<longleftrightarrow> states g t = SHUTDOWN"
| "thread_ok (g, out) (Op_post here t task delay nest) \<longleftrightarrow> t \<noteq> ID_COUNT"
| "thread_ok (g, out) (Op_delete here t delete) \<longleftrightarrow> t \<noteq> ID_COUNT \<and> task_executor g"
| "thread_ok (g, out) Op_create_executor \<longleftrightarrow> \<not> task_executor g"

lemma current_thread_is_found:
  assumes "threads_inv g"
  shows "\<exists>h. GetCurrentThreadIdentifier here g =
      Inr (if globals_created g then List.find (runs_here here g) [UI, IO] else None, h) \<and> h = g"
  using assms by (auto simp: thread_defs threads_inv_def)

lemma CurrentlyOn_answer:
  assumes "threads_inv g" and "t \<noteq> ID_COUNT"
  shows "CurrentlyOn here t g = Inr (runs_here here g t, globals_get g)"
  using assms by (auto simp: thread_defs threads_inv_def)

text \<open>A task is accepted exactly while its thread runs, whether the lock is taken or not, and goes
  to the runner its thread was registered with.\<close>

lemma PostTaskHelper_correct:
  assumes "threads_inv g" and "t \<noteq> ID_COUNT"
  shows "PostTaskHelper here t task delay nest g =
    Inr ((states g t = RUNNING,
          if states g t = RUNNING then [(the (task_runners g t), task, delay, nest)] else []), globals_get g)"
proof -
  obtain c where c: "GetCurrentThreadIdentifier here g = Inr (c, g)"
    using current_thread_is_found [OF assms(1)] by blast
  have "states g t = RUNNING \<Longrightarrow> \<exists>r. task_runners g t = Some r"
    using assms(1) by (cases "task_runners g t") (auto simp: threads_inv_def)
  moreover have "\<not> lock_held g" using assms(1) by (simp add: threads_inv_def)
  ultimately show ?thesis using assms(2) c
    by (auto simp: PostTaskHelper_def globals_get_def acquire_def release_def Let_def)
qed

lemma Destruct_correct:
  assumes "threads_inv g" and "t \<noteq> ID_COUNT" and "task_executor g"
  shows "Destruct here t delete g =
    Inr ((runs_here here g t,
          if \<not> runs_here here g t \<and> states g t = RUNNING then [(the (task_runners g t), delete, 0, False)] else []),
         globals_get g)"
proof -
  have i: "threads_inv (globals_get g)" using assms(1) by (simp add: threads_inv_def globals_get_def)
  have "states (globals_get g) t = states g t" "task_runners (globals_get g) t = task_runners g t"
    "globals_get (globals_get g) = globals_get g" "task_executor (globals_get g)"
    using assms(3) by (simp_all add: globals_get_def)
  then show ?thesis using assms(2)
    by (simp add: CurrentlyOn_answer [OF assms(1,2)] PostTaskHelper_correct [OF i assms(2)] Destruct_def WebThreadTaskRunner_PostNonNestableDelayedTask_def executor_PostDelayedTask_def
        GetWebThreadIdentifier_def WebTaskTraitsExtension_def)
qed

lemma thread_step_safe:
  assumes "threads_inv (fst w)" and "thread_ok w x"
  shows "\<exists>v. thread_step w x = Inr v \<and> threads_inv (fst v)"
proof -
  obtain g out where w: "w = (g, out)" by (cases w)
  have i: "threads_inv g" "threads_inv (globals_get g)" using assms(1) w by (auto simp: threads_inv_def globals_get_def)
  show ?thesis
  proof (cases x)
    case (Op_post here t task delay nest)
    then show ?thesis using w i assms(2) by (auto simp: PostTaskHelper_correct)
  next
    case (Op_delete here t delete)
    then show ?thesis using w i assms(2) by (auto simp: Destruct_correct)
  qed (use w i assms(2) in \<open>auto simp: thread_defs threads_inv_def Let_def CreateTaskExecutor_def\<close>)
qed

interpretation thread_registry: checked_machine thread_step thread_ok "\<lambda>w. threads_inv (fst w)"
  by unfold_locales (rule thread_step_safe)

lemma registry_never_faults:
  fixes ops :: "('r, 't) thread_op list"
  defines "start \<equiv> (no_threads :: ('r, 'd) web_threads, [] :: ('r, 't) post list)"
  assumes "admissible thread_step thread_ok start ops"
  shows "\<exists>v. orun thread_step start ops = Inr v \<and> threads_inv (fst v)"
  by (rule thread_registry.run_safe [OF _ assms(2)]) (simp add: start_def threads_inv_def no_threads_def)

text \<open>The lock is skipped on the two ways that the order of lifetimes justifies: the caller runs on
  the target thread itself, or on the IO thread with the UI thread as its target.\<close>

lemma lock_is_skipped_upwards:
  assumes "threads_inv g" and "GetCurrentThreadIdentifier here g = Inr (Some c, h)" and "t \<le> c"
  shows "runs_here here g c \<and> (t = c \<or> (t = UI \<and> c = IO))"
proof -
  have "List.find (runs_here here g) [UI, IO] = Some c"
    using current_thread_is_found [OF assms(1), of here] assms(2) by (auto split: if_splits)
  then have "runs_here here g c" "c \<in> {UI, IO}" by (auto split: if_splits)
  then show ?thesis using assms(3) by (cases t) (auto simp: less_eq_web_thread_id_def)
qed

text \<open>A thread that has shut down still counts as current for its own tasks, but takes no new
  ones.\<close>

lemma shut_down_thread:
  assumes "threads_inv g" and "t \<noteq> ID_COUNT" and "states g t = RUNNING" and "task_runners g t = Some r" and "here r"
  obtains h where "WebThreadImpl_destroyed t g = Inr ((), h)"
    and "CurrentlyOn here t h = Inr (True, globals_get h)"
    and "PostTaskHelper here t task delay nest h = Inr ((False, []), globals_get h)"
proof -
  let ?h = "(globals_get g)\<lparr>states := (states g)(t := SHUTDOWN)\<rparr>"
  have "WebThreadImpl_destroyed t g = Inr ((), ?h)"
    using assms by (auto simp: thread_defs threads_inv_def)
  moreover have i: "threads_inv ?h" using assms by (auto simp: threads_inv_def globals_get_def)
  moreover have "runs_here here ?h t" using assms by (simp add: runs_here_def globals_get_def)
  ultimately show ?thesis
    by (intro that [of ?h]) (simp_all add: CurrentlyOn_answer [OF i assms(2)] PostTaskHelper_correct [OF i assms(2)])
qed

end
