(* ===== verification/X_Callback_Url.thy ===== *)
theory X_Callback_Url
  imports Wk_Navigation_Util
begin

text \<open>
  URLs by which apps call each other, \<open>chrome/common/x_callback_url.{h,cc}\<close>.  \<open>GURL\<close> is the record
  \<open>gurl_ops\<close> with the host, the \<open>IsStandard\<close> flag and the list of query parameters that
  \<open>net::QueryIterator\<close> yields, unescaped; \<open>x_callback_laws\<close> is what the code relies on.  A
  \<open>std::map\<close> of parameters is the list of its pairs in the order of the keys.
\<close>

record 'u x_url_ops = "'u gurl_ops" +
  is_standard :: "'u \<Rightarrow> bool"
  host :: "'u \<Rightarrow> string"
  query_pairs :: "'u \<Rightarrow> (string \<times> string) list"

definition kXCallbackURLHost :: string where "kXCallbackURLHost = ''x-callback-url''"
definition kSuccessURLParameterName :: string where "kSuccessURLParameterName = ''x-success''"
definition kErrorURLParameterName :: string where "kErrorURLParameterName = ''x-error''"
definition kCancelURLParameterName :: string where "kCancelURLParameterName = ''x-cancel''"

lemmas x_callback_constants =
  kXCallbackURLHost_def kSuccessURLParameterName_def kErrorURLParameterName_def kCancelURLParameterName_def

definition IsXCallbackURL :: "('u, 'z) x_url_ops_scheme \<Rightarrow> 'u \<Rightarrow> bool" where
  "IsXCallbackURL P url =
     (if \<not> is_valid P url then False
      else if is_standard P url then host P url = kXCallbackURLHost
      else let path_piece = url_path P url;
               path_piece = (if take 2 path_piece = ''//'' then drop 2 path_piece else path_piece)
           in takeWhile (\<lambda>c. c \<noteq> CHR ''/'') path_piece = kXCallbackURLHost)"

text \<open>The three targets, each appended if it is valid.\<close>

definition append_target :: "('u, 'z) x_url_ops_scheme \<Rightarrow> string \<Rightarrow> 'u \<Rightarrow> 'u \<Rightarrow> 'u" where
  "append_target P name target url =
     (if is_valid P target then append_query_parameter P url name (spec P target) else url)"

definition CreateXCallbackURLWithParameters ::
    "('u, 'z) x_url_ops_scheme \<Rightarrow> string \<Rightarrow> string \<Rightarrow> 'u \<Rightarrow> 'u \<Rightarrow> 'u \<Rightarrow> (string \<times> string) list \<Rightarrow> 'u outcome" where
  "CreateXCallbackURLWithParameters P scheme action success_url error_url cancel_url parameters =
     dcheck (scheme \<noteq> [])
       (let url = gurl P (scheme @ ''://'' @ kXCallbackURLHost @ ''/'' @ action);
            url = append_target P kSuccessURLParameterName success_url url;
            url = append_target P kErrorURLParameterName error_url url;
            url = append_target P kCancelURLParameterName cancel_url url;
            url = fold (\<lambda>(k, v) url. append_query_parameter P url k v) parameters url
        in dcheck (IsXCallbackURL P url) (Inr url))"

definition CreateXCallbackURL :: "('u, 'z) x_url_ops_scheme \<Rightarrow> string \<Rightarrow> string \<Rightarrow> 'u outcome" where
  "CreateXCallbackURL P scheme action =
     CreateXCallbackURLWithParameters P scheme action (empty_gurl P) (empty_gurl P) (empty_gurl P) []"

text \<open>\<open>std::map::insert\<close> keeps the first value of a key.\<close>

fun insert_pairs :: "(string \<times> string) list \<Rightarrow> (string \<Rightarrow> string option) \<Rightarrow> string \<Rightarrow> string option" where
  "insert_pairs [] m = m"
| "insert_pairs ((k, v) # ps) m = insert_pairs ps (if m k = None then m(k \<mapsto> v) else m)"

definition ExtractQueryParametersFromXCallbackURL ::
    "('u, 'z) x_url_ops_scheme \<Rightarrow> 'u \<Rightarrow> (string \<Rightarrow> string option) outcome" where
  "ExtractQueryParametersFromXCallbackURL P x_callback_url =
     dcheck (IsXCallbackURL P x_callback_url) (Inr (insert_pairs (query_pairs P x_callback_url) (\<lambda>_. None)))"

section \<open>Parameters are read back\<close>

text \<open>The code relies on \<open>AppendQueryParameter\<close> to add one pair behind the others and to change
  nothing else; and a valid URL made of a scheme, the host and an action has no pairs, and the
  host, or the start of the path, that it is written with.  The empty URL is invalid.\<close>

definition x_callback_laws :: "('u, 'z) x_url_ops_scheme \<Rightarrow> bool" where
  "x_callback_laws P \<longleftrightarrow> \<not> is_valid P (empty_gurl P) \<and>
     (\<forall>u k v. let w = append_query_parameter P u k v in
        query_pairs P w = query_pairs P u @ [(k, v)] \<and> is_valid P w = is_valid P u \<and>
        is_standard P w = is_standard P u \<and> host P w = host P u \<and> url_path P w = url_path P u) \<and>
     (\<forall>scheme rest. let u = gurl P (scheme @ ''://'' @ kXCallbackURLHost @ ''/'' @ rest) in
        is_valid P u \<and> CHR ''?'' \<notin> set rest \<and> CHR ''#'' \<notin> set rest \<longrightarrow> query_pairs P u = [] \<and>
          (if is_standard P u then host P u = kXCallbackURLHost
           else \<exists>path. url_path P u = ''//'' @ kXCallbackURLHost @ ''/'' @ path))"

lemma append_law:
  assumes "x_callback_laws P"
  shows "query_pairs P (append_query_parameter P u k v) = query_pairs P u @ [(k, v)]"
    and "IsXCallbackURL P (append_query_parameter P u k v) = IsXCallbackURL P u"
  using assms by (auto simp: x_callback_laws_def IsXCallbackURL_def Let_def)

lemma append_target_law:
  assumes "x_callback_laws P"
  shows "query_pairs P (append_target P name target u) =
      query_pairs P u @ (if is_valid P target then [(name, spec P target)] else [])"
    and "IsXCallbackURL P (append_target P name target u) = IsXCallbackURL P u"
  using append_law [OF assms] by (simp_all add: append_target_def)

lemma append_parameters_law:
  assumes "x_callback_laws P"
  shows "query_pairs P (fold (\<lambda>(k, v) url. append_query_parameter P url k v) ps u) = query_pairs P u @ ps"
    and "IsXCallbackURL P (fold (\<lambda>(k, v) url. append_query_parameter P url k v) ps u) = IsXCallbackURL P u"
  by (induction ps arbitrary: u) (auto simp: append_law [OF assms])

lemma insert_pairs_first: "insert_pairs ps m k = (case m k of None \<Rightarrow> map_of ps k | Some v \<Rightarrow> Some v)"
  by (induction ps m rule: insert_pairs.induct) (auto split: option.splits)

definition given_parameters ::
    "('u, 'z) x_url_ops_scheme \<Rightarrow> 'u \<Rightarrow> 'u \<Rightarrow> 'u \<Rightarrow> (string \<times> string) list \<Rightarrow> (string \<times> string) list" where
  "given_parameters P success_url error_url cancel_url parameters =
     [(name, spec P target). (name, target) \<leftarrow> [(kSuccessURLParameterName, success_url),
        (kErrorURLParameterName, error_url), (kCancelURLParameterName, cancel_url)], is_valid P target] @ parameters"

text \<open>A URL that is made with a valid scheme is an x-callback URL, and its parameters are those it
  was made with.  A parameter of the caller that has the name of a target loses against it.\<close>

lemma parameters_are_read_back:
  assumes laws: "x_callback_laws P" and "scheme \<noteq> []"
    and "CHR ''?'' \<notin> set action" and "CHR ''#'' \<notin> set action"
    and "is_valid P (gurl P (scheme @ ''://'' @ kXCallbackURLHost @ ''/'' @ action))"
  shows "\<exists>url. CreateXCallbackURLWithParameters P scheme action success_url error_url cancel_url parameters = Inr url \<and>
    IsXCallbackURL P url \<and>
    ExtractQueryParametersFromXCallbackURL P url =
      Inr (map_of (given_parameters P success_url error_url cancel_url parameters))"
proof -
  let ?base = "gurl P (scheme @ ''://'' @ kXCallbackURLHost @ ''/'' @ action)"
  have base: "query_pairs P ?base = []"
    "is_standard P ?base \<longrightarrow> host P ?base = kXCallbackURLHost"
    "\<not> is_standard P ?base \<longrightarrow> (\<exists>path. url_path P ?base = ''//'' @ kXCallbackURLHost @ ''/'' @ path)"
    using laws assms(3-5) unfolding x_callback_laws_def Let_def by metis+
  then have x: "IsXCallbackURL P ?base"
    using assms(5) by (auto simp: IsXCallbackURL_def Let_def kXCallbackURLHost_def)
  note url_laws = append_target_law [OF laws] append_parameters_law [OF laws]
  show ?thesis using assms(2) x base(1)
    by (simp add: CreateXCallbackURLWithParameters_def ExtractQueryParametersFromXCallbackURL_def url_laws Let_def
        given_parameters_def insert_pairs_first fun_eq_iff)
qed

text \<open>The simple form has no parameters.\<close>

lemma CreateXCallbackURL_no_parameters:
  assumes "x_callback_laws P" and "CreateXCallbackURL P scheme action = Inr url"
    and "CHR ''?'' \<notin> set action" and "CHR ''#'' \<notin> set action"
  shows "ExtractQueryParametersFromXCallbackURL P url = Inr (\<lambda>_. None)"
proof -
  have "\<not> is_valid P (empty_gurl P)" using assms(1) by (simp add: x_callback_laws_def)
  then have url: "url = gurl P (scheme @ ''://'' @ kXCallbackURLHost @ ''/'' @ action)" and x: "IsXCallbackURL P url"
    using assms(2)
    by (auto simp: CreateXCallbackURL_def CreateXCallbackURLWithParameters_def append_target_def Let_def)
  from x have "is_valid P url" by (simp add: IsXCallbackURL_def split: if_splits)
  then have "query_pairs P url = []" using assms(1,3,4) unfolding url x_callback_laws_def Let_def by metis
  with x show ?thesis
    by (auto simp: CreateXCallbackURL_def CreateXCallbackURLWithParameters_def append_target_def Let_def
        ExtractQueryParametersFromXCallbackURL_def)
qed

end
