(* ===== verification/Session_Metrics.thy ===== *)
theory Session_Metrics
  imports Web_State_List "HOL-Library.Word"
begin

text \<open>
  The counters of opened, closed and activated tabs of a session,
  \<open>chrome/browser/web_state_list/session_metrics.{h,cc}\<close>, and the observer of the tab strip that
  feeds them (\<open>web_state_list_metrics_browser_agent.mm\<close>).  The counters are \<open>unsigned int\<close>, that
  is 32-bit words.

  The lemmas show that the counters hold the numbers of the notifications modulo \<open>2^32\<close>, that a
  session restoration is not counted, and that a record starts a new session whatever it records.
\<close>

section \<open>Flags\<close>

type_synonym flag_set = "32 word"

definition kNoMetrics :: flag_set where "kNoMetrics = 0"
definition kClosedTabCount :: flag_set where "kClosedTabCount = 1"
definition kOpenedTabCount :: flag_set where "kOpenedTabCount = 2"
definition kActivatedTabCount :: flag_set where "kActivatedTabCount = 4"

lemmas metrics_flags = kNoMetrics_def kClosedTabCount_def kOpenedTabCount_def kActivatedTabCount_def

definition flag_is_set :: "flag_set \<Rightarrow> flag_set \<Rightarrow> bool" where
  "flag_is_set flags flag \<longleftrightarrow> flags AND flag \<noteq> 0"

definition combine_flags :: "flag_set \<Rightarrow> flag_set \<Rightarrow> flag_set" where
  "combine_flags flags flag = flags OR flag"

section \<open>Counters\<close>

record session_metrics =
  inserted_web_state_counter :: "32 word"
  detached_web_state_counter :: "32 word"
  activated_web_state_counter :: "32 word"

definition SessionMetrics :: session_metrics where
  "SessionMetrics =
     \<lparr>inserted_web_state_counter = 0, detached_web_state_counter = 0, activated_web_state_counter = 0\<rparr>"

text \<open>The metrics attached to a browser state; they are made where there are none.\<close>

definition FromBrowserState :: "session_metrics option \<Rightarrow> session_metrics \<times> session_metrics option" where
  "FromBrowserState user_data =
     (case user_data of None \<Rightarrow> (SessionMetrics, Some SessionMetrics) | Some m \<Rightarrow> (m, Some m))"

definition OnWebStateInserted :: "session_metrics \<Rightarrow> session_metrics" where
  "OnWebStateInserted m = m\<lparr>inserted_web_state_counter := inserted_web_state_counter m + 1\<rparr>"

definition OnWebStateDetached :: "session_metrics \<Rightarrow> session_metrics" where
  "OnWebStateDetached m = m\<lparr>detached_web_state_counter := detached_web_state_counter m + 1\<rparr>"

definition OnWebStateActivated :: "session_metrics \<Rightarrow> session_metrics" where
  "OnWebStateActivated m = m\<lparr>activated_web_state_counter := activated_web_state_counter m + 1\<rparr>"

definition ResetSessionMetrics :: "session_metrics \<Rightarrow> session_metrics" where
  "ResetSessionMetrics m =
     m\<lparr>inserted_web_state_counter := 0, detached_web_state_counter := 0, activated_web_state_counter := 0\<rparr>"

text \<open>The samples, by the name of their histogram, and the counters afterwards.\<close>

definition RecordAndClearSessionMetrics ::
    "flag_set \<Rightarrow> session_metrics \<Rightarrow> (string \<times> 32 word) list \<times> session_metrics" where
  "RecordAndClearSessionMetrics flags m =
     ((if flag_is_set flags kOpenedTabCount then [(''Session.NewTabCounts'', inserted_web_state_counter m)] else []) @
      (if flag_is_set flags kClosedTabCount then [(''Session.ClosedTabCounts'', detached_web_state_counter m)] else []) @
      (if flag_is_set flags kActivatedTabCount then [(''Session.OpenedTabCounts'', activated_web_state_counter m)] else []),
      ResetSessionMetrics m)"

section \<open>The observer\<close>

record metrics_agent =
  agent_metrics :: session_metrics
  metric_collection_paused :: bool
  user_actions :: "string list"

definition WillStartSessionRestoration :: "metrics_agent \<Rightarrow> metrics_agent" where
  "WillStartSessionRestoration a = a\<lparr>metric_collection_paused := True\<rparr>"

definition SessionRestorationFinished :: "metrics_agent \<Rightarrow> metrics_agent" where
  "SessionRestorationFinished a = a\<lparr>metric_collection_paused := False\<rparr>"

fun agent_observes :: "wsl_event \<Rightarrow> metrics_agent \<Rightarrow> metrics_agent" where
  "agent_observes (WebStateInsertedAt w i b) a =
     (if metric_collection_paused a then a
      else a\<lparr>user_actions := user_actions a @ [''MobileNewTabOpened''],
             agent_metrics := OnWebStateInserted (agent_metrics a)\<rparr>)"
| "agent_observes (WebStateDetachedAt w i) a =
     (if metric_collection_paused a then a
      else a\<lparr>user_actions := user_actions a @ [''MobileTabClosed''],
             agent_metrics := OnWebStateDetached (agent_metrics a)\<rparr>)"
| "agent_observes (WebStateActivatedAt v w i reason) a =
     (if metric_collection_paused a then a
      else let a = a\<lparr>agent_metrics := OnWebStateActivated (agent_metrics a)\<rparr>
           in if reason = Replaced then a else a\<lparr>user_actions := user_actions a @ [''MobileTabSwitched'']\<rparr>)"
| "agent_observes e a = a"

section \<open>The counters count\<close>

fun is_insertion :: "wsl_event \<Rightarrow> bool" where
  "is_insertion (WebStateInsertedAt w i b) = True"
| "is_insertion e = False"

fun is_detachment :: "wsl_event \<Rightarrow> bool" where
  "is_detachment (WebStateDetachedAt w i) = True"
| "is_detachment e = False"

fun is_activation :: "wsl_event \<Rightarrow> bool" where
  "is_activation (WebStateActivatedAt v w i reason) = True"
| "is_activation e = False"

abbreviation count_events :: "(wsl_event \<Rightarrow> bool) \<Rightarrow> wsl_event list \<Rightarrow> 32 word" where
  "count_events Q es \<equiv> of_nat (length (filter Q es))"

lemma counters_count:
  assumes "\<not> metric_collection_paused a"
  shows "agent_metrics (fold agent_observes es a) =
     \<lparr>inserted_web_state_counter = inserted_web_state_counter (agent_metrics a) + count_events is_insertion es,
      detached_web_state_counter = detached_web_state_counter (agent_metrics a) + count_events is_detachment es,
      activated_web_state_counter = activated_web_state_counter (agent_metrics a) + count_events is_activation es\<rparr>"
  using assms
proof (induction es arbitrary: a)
  case Nil
  then show ?case by simp
next
  case (Cons e es)
  have "\<not> metric_collection_paused (agent_observes e a)" using Cons.prems by (cases e) (simp_all add: Let_def)
  from Cons.IH [OF this] Cons.prems show ?case
    by (cases e)
      (simp_all add: Let_def OnWebStateInserted_def OnWebStateDetached_def OnWebStateActivated_def algebra_simps)
qed

lemma restoration_is_not_counted:
  "metric_collection_paused a \<Longrightarrow>
     fold agent_observes es a = a \<and>
     SessionRestorationFinished (fold agent_observes es (WillStartSessionRestoration b)) = b\<lparr>metric_collection_paused := False\<rparr>"
proof -
  have paused: "metric_collection_paused c \<Longrightarrow> fold agent_observes es c = c" for c
  proof (induction es)
    case (Cons e es)
    then show ?case by (cases e) simp_all
  qed simp
  assume "metric_collection_paused a"
  with paused paused [of "WillStartSessionRestoration b"] show ?thesis
    by (simp add: WillStartSessionRestoration_def SessionRestorationFinished_def)
qed

text \<open>Each flag of a combination is set in it, and records its histogram; the counters start anew
  with every flag set.\<close>

lemma combined_flags_record:
  "map fst (fst (RecordAndClearSessionMetrics (combine_flags (combine_flags kOpenedTabCount kClosedTabCount) kActivatedTabCount) m)) =
     [''Session.NewTabCounts'', ''Session.ClosedTabCounts'', ''Session.OpenedTabCounts'']"
  "fst (RecordAndClearSessionMetrics kNoMetrics m) = []"
  "fst (RecordAndClearSessionMetrics (combine_flags kClosedTabCount kActivatedTabCount) m) =
     [(''Session.ClosedTabCounts'', detached_web_state_counter m), (''Session.OpenedTabCounts'', activated_web_state_counter m)]"
  by (simp_all add: RecordAndClearSessionMetrics_def flag_is_set_def combine_flags_def metrics_flags)

lemma record_starts_a_session: "snd (RecordAndClearSessionMetrics flags m) = SessionMetrics"
  by (simp add: RecordAndClearSessionMetrics_def ResetSessionMetrics_def SessionMetrics_def)

end
