(* ===== verification/Cache_Counter.thy ===== *)
theory Cache_Counter
  imports Prelude
begin

text \<open>
  The computation of the size of the HTTP cache, \<open>chrome/browser/browsing_data/cache_counter.{h,cc}\<close>:
  an object that walks through three steps on the IO thread, each of which may answer at once or
  later, and that deletes itself after it has reported on the UI thread.

  The HTTP cache and its backend (\<open>net\<close>) are not part of the repository.  They are the record
  \<open>cache_answers\<close>: what \<open>GetBackend\<close> and \<open>CalculateSizeOfAllEntries\<close> return, and the value they
  pass to the callback if they return \<open>ERR_IO_PENDING\<close>, which is the parameter \<open>pending\<close>.
  \<open>waiting_for\<close> is the callback that is outstanding.

  The lemmas show that the object always comes to its end: it reports once, after at most two
  callbacks, and reports the size or the first error.
\<close>

datatype step = STEP_GET_BACKEND | STEP_COUNT | STEP_CALLBACK

record cache_answers =
  pending :: int
  backend_result :: int
  backend_callback :: int
  size_result :: int
  size_callback :: int

record cache_counter =
  next_step :: step
  backend :: bool
  counted_result :: int
  waiting_for :: "step option"
  finish_posted :: nat

definition IOThreadCacheCounter :: cache_counter where
  "IOThreadCacheCounter = \<lparr>next_step = STEP_GET_BACKEND, backend = False, counted_result = 0, waiting_for = None,
     finish_posted = 0\<rparr>"

fun steps_left :: "step \<Rightarrow> nat" where
  "steps_left STEP_GET_BACKEND = 2"
| "steps_left STEP_COUNT = 1"
| "steps_left STEP_CALLBACK = 0"

text \<open>The pointer to the backend is set when \<open>GetBackend\<close> succeeds, now or with the callback.\<close>

definition backend_is_set :: "cache_answers \<Rightarrow> bool" where
  "backend_is_set A \<longleftrightarrow> (if backend_result A = pending A then 0 \<le> backend_callback A else 0 \<le> backend_result A)"

function CountInternal :: "cache_answers \<Rightarrow> int \<Rightarrow> cache_counter \<Rightarrow> cache_counter outcome" where
  "CountInternal A rv c =
     (if rv = pending A then Inr c
      else let c = (if rv < 0 then c\<lparr>next_step := STEP_CALLBACK\<rparr> else c)
           in case next_step c of
             STEP_GET_BACKEND \<Rightarrow>
               CountInternal A (backend_result A)
                 (c\<lparr>next_step := STEP_COUNT, backend := backend_is_set A,
                    waiting_for := (if backend_result A = pending A then Some STEP_GET_BACKEND else None)\<rparr>)
           | STEP_COUNT \<Rightarrow>
               dcheck (backend c)
                 (CountInternal A (size_result A)
                   (c\<lparr>next_step := STEP_CALLBACK,
                      waiting_for := (if size_result A = pending A then Some STEP_COUNT else None)\<rparr>))
           | STEP_CALLBACK \<Rightarrow> Inr (c\<lparr>counted_result := rv, finish_posted := finish_posted c + 1\<rparr>))"
  by pat_completeness auto
termination
  by (relation "measure (\<lambda>(A, rv, c). steps_left (next_step c))") (auto split: if_splits)

declare CountInternal.simps [simp del]

definition Count :: "cache_answers \<Rightarrow> cache_counter outcome" where
  "Count A = CountInternal A 0 IOThreadCacheCounter"

text \<open>An outstanding callback comes.\<close>

definition deliver_callback :: "cache_answers \<Rightarrow> cache_counter \<Rightarrow> cache_counter outcome" where
  "deliver_callback A c =
     (case waiting_for c of
        None \<Rightarrow> Inr c
      | Some STEP_GET_BACKEND \<Rightarrow> CountInternal A (backend_callback A) (c\<lparr>waiting_for := None\<rparr>)
      | Some _ \<Rightarrow> CountInternal A (size_callback A) (c\<lparr>waiting_for := None\<rparr>))"

text \<open>\<open>OnCountingFinished\<close> runs the result callback, which drops an error.\<close>

definition OnCacheSizeCalculated :: "int \<Rightarrow> int option" where
  "OnCacheSizeCalculated result_bytes = (if result_bytes < 0 then None else Some result_bytes)"

definition OnCountingFinished :: "cache_counter \<Rightarrow> int option" where
  "OnCountingFinished c = OnCacheSizeCalculated (counted_result c)"

section \<open>The end\<close>

definition answer :: "int \<Rightarrow> int \<Rightarrow> int \<Rightarrow> int" where
  "answer pend now later = (if now = pend then later else now)"

definition counted :: "cache_answers \<Rightarrow> int" where
  "counted A =
     (let b = answer (pending A) (backend_result A) (backend_callback A)
      in if b < 0 then b else answer (pending A) (size_result A) (size_callback A))"

text \<open>A callback never passes \<open>ERR_IO_PENDING\<close>, which is an error code and so negative.\<close>

definition answers_ok :: "cache_answers \<Rightarrow> bool" where
  "answers_ok A \<longleftrightarrow> pending A < 0 \<and> backend_callback A \<noteq> pending A \<and> size_callback A \<noteq> pending A"

lemma cache_size_is_reported_once:
  assumes "answers_ok A"
  obtains c where "obind (obind (Count A) (deliver_callback A)) (deliver_callback A) = Inr c"
    and "waiting_for c = None" and "finish_posted c = 1" and "counted_result c = counted A"
    and "OnCountingFinished c = (if counted A < 0 then None else Some (counted A))"
proof -
  have "\<exists>c. obind (obind (Count A) (deliver_callback A)) (deliver_callback A) = Inr c \<and>
      waiting_for c = None \<and> finish_posted c = 1 \<and> counted_result c = counted A"
    using assms
    by (cases "backend_result A = pending A"; cases "size_result A = pending A"; cases "backend_result A < 0";
        cases "backend_callback A < 0"; cases "size_result A < 0"; cases "size_callback A < 0")
      (simp_all add: answers_ok_def Count_def CountInternal.simps [of A] IOThreadCacheCounter_def deliver_callback_def
        backend_is_set_def counted_def answer_def Let_def)
  then show ?thesis using that by (auto simp: OnCountingFinished_def OnCacheSizeCalculated_def)
qed

end
