(* ===== verification/Certificate_Policy.thy ===== *)
theory Certificate_Policy
  imports Prelude "HOL-Library.Word" "HOL-Library.List_Lexorder" "HOL-Library.Char_ord" "HOL-Library.Product_Lexorder"
begin

unbundle bit_operations_syntax

text \<open>
  What the user has allowed of bad certificates: \<open>web/security/cert_policy.cc\<close>,
  \<open>web/security/certificate_policy_cache.cc\<close> with their headers in \<open>web/public/security\<close>, and
  \<open>web/security/cert_host_pair.{h,cc}\<close>.  A certificate is represented by the value of
  \<open>CalculateChainFingerprint256\<close>, a string of bytes, and \<open>net::CertStatus\<close> is a word of 32 bits.  Every
  method of the cache must run on the IO thread; \<open>on_io\<close> says whether it does.

  The lemmas show what a decision of the user permits: for the host and the certificate it was made
  for, and for errors that are all among those the user saw, until the decision is replaced or
  cleared.
\<close>

type_synonym fingerprint = string
type_synonym cert_status = "32 word"

datatype Judgment = UNKNOWN | ALLOWED | DENIED

type_synonym cert_policy = "fingerprint \<Rightarrow> cert_status option"

definition Check :: "fingerprint \<Rightarrow> cert_status \<Rightarrow> cert_policy \<Rightarrow> Judgment" where
  "Check cert error policy =
     (case policy cert of
        None \<Rightarrow> UNKNOWN
      | Some allowed \<Rightarrow>
          if (allowed AND error) \<noteq> 0 \<and> ((NOT (allowed AND error)) XOR (NOT error)) = 0 then ALLOWED else UNKNOWN)"

definition Allow :: "fingerprint \<Rightarrow> cert_status \<Rightarrow> cert_policy \<Rightarrow> cert_policy" where
  "Allow cert error policy = policy(cert \<mapsto> error)"

section \<open>The cache\<close>

type_synonym policy_cache = "string \<Rightarrow> cert_policy option"

text \<open>\<open>cert_policy_for_host_[host]\<close> makes an empty policy where there is none.\<close>

definition policy_for_host :: "string \<Rightarrow> policy_cache \<Rightarrow> cert_policy" where
  "policy_for_host h cache = (case cache h of None \<Rightarrow> (\<lambda>_. None) | Some p \<Rightarrow> p)"

definition AllowCertForHost :: "bool \<Rightarrow> fingerprint \<Rightarrow> string \<Rightarrow> cert_status \<Rightarrow> policy_cache \<Rightarrow> policy_cache outcome" where
  "AllowCertForHost on_io cert h error cache =
     dcheck on_io (Inr (cache(h \<mapsto> Allow cert error (policy_for_host h cache))))"

definition QueryPolicy ::
    "bool \<Rightarrow> fingerprint \<Rightarrow> string \<Rightarrow> cert_status \<Rightarrow> policy_cache \<Rightarrow> (Judgment \<times> policy_cache) outcome" where
  "QueryPolicy on_io cert h error cache =
     dcheck on_io (Inr (Check cert error (policy_for_host h cache), cache(h \<mapsto> policy_for_host h cache)))"

definition ClearCertificatePolicies :: "bool \<Rightarrow> policy_cache \<Rightarrow> policy_cache outcome" where
  "ClearCertificatePolicies on_io cache = dcheck on_io (Inr (\<lambda>_. None))"

section \<open>Pairs of a certificate and a host\<close>

record cert_host_pair =
  pair_host :: string
  pair_cert_hash :: fingerprint

definition CertHostPair :: "fingerprint \<Rightarrow> string \<Rightarrow> cert_host_pair" where
  "CertHostPair cert h = \<lparr>pair_host = h, pair_cert_hash = cert\<rparr>"

definition cert_host_less :: "cert_host_pair \<Rightarrow> cert_host_pair \<Rightarrow> bool" where
  "cert_host_less a b \<longleftrightarrow> (pair_host a, pair_cert_hash a) < (pair_host b, pair_cert_hash b)"

text \<open>The order of the keys of a \<open>std::map\<close>: neither is less exactly for the same certificate and
  host.\<close>

lemma cert_host_less_order:
  "\<not> cert_host_less a a"
  "cert_host_less a b \<Longrightarrow> cert_host_less b c \<Longrightarrow> cert_host_less a c"
  "\<not> cert_host_less (CertHostPair x h) (CertHostPair y g) \<and> \<not> cert_host_less (CertHostPair y g) (CertHostPair x h) \<longleftrightarrow>
     x = y \<and> h = g"
  unfolding cert_host_less_def CertHostPair_def by (blast intro: less_trans, blast intro: less_trans) auto

section \<open>What is allowed\<close>

lemma xor_zero_iff: "x XOR y = 0 \<longleftrightarrow> x = y" for x y :: cert_status
proof
  assume "x XOR y = 0"
  then have "(x XOR y) XOR y = 0 XOR y" by simp
  then show "x = y" by (simp add: xor.assoc)
qed simp

text \<open>The bits of the test: the errors are some, and all among those that were allowed.\<close>

lemma Check_iff:
  "Check cert error policy = ALLOWED \<longleftrightarrow> (\<exists>a. policy cert = Some a \<and> error \<noteq> 0 \<and> error AND a = error)"
proof -
  have "(NOT (a AND error)) XOR (NOT error) = 0 \<longleftrightarrow> a AND error = error" for a :: cert_status
    unfolding xor_zero_iff by (rule bit.compl_eq_compl_iff)
  then show ?thesis by (auto simp: Check_def and.commute split: option.split)
qed

lemma Check_never_denies: "Check cert error policy \<noteq> DENIED"
  by (simp add: Check_def split: option.split)

datatype policy_op = Op_allow fingerprint string cert_status | Op_query fingerprint string cert_status | Op_clear

fun policy_step :: "policy_cache \<Rightarrow> policy_op \<Rightarrow> policy_cache outcome" where
  "policy_step cache (Op_allow cert h error) = AllowCertForHost True cert h error cache"
| "policy_step cache (Op_query cert h error) = obind (QueryPolicy True cert h error cache) (\<lambda>(_, c). Inr c)"
| "policy_step cache Op_clear = ClearCertificatePolicies True cache"

text \<open>The last decision of the user for a host and a certificate.\<close>

fun last_decision :: "fingerprint \<Rightarrow> string \<Rightarrow> policy_op list \<Rightarrow> cert_status option \<Rightarrow> cert_status option" where
  "last_decision cert h [] d = d"
| "last_decision cert h (Op_allow c g e # xs) d = last_decision cert h xs (if c = cert \<and> g = h then Some e else d)"
| "last_decision cert h (Op_query c g e # xs) d = last_decision cert h xs d"
| "last_decision cert h (Op_clear # xs) d = last_decision cert h xs None"

lemma policy_run:
  "\<exists>t. orun policy_step cache xs = Inr t \<and>
     policy_for_host h t cert = last_decision cert h xs (policy_for_host h cache cert)"
proof (induction xs arbitrary: cache)
  case Nil
  then show ?case by simp
next
  case (Cons x xs)
  obtain u where "policy_step cache x = Inr u"
    and "last_decision cert h (x # xs) (policy_for_host h cache cert) = last_decision cert h xs (policy_for_host h u cert)"
    by (cases x)
      (auto simp: AllowCertForHost_def QueryPolicy_def ClearCertificatePolicies_def policy_for_host_def Allow_def)
  with Cons.IH [of u] show ?case by simp
qed

text \<open>A certificate is allowed for a host exactly if the user's last decision about the two is not
  cleared, and every error is one the user allowed then.\<close>

theorem allowed_by_the_last_decision:
  "\<exists>t judgment t'. orun policy_step (\<lambda>_. None) xs = Inr t \<and>
     QueryPolicy True cert h error t = Inr (judgment, t') \<and>
     (judgment = ALLOWED \<longleftrightarrow>
        (\<exists>a. last_decision cert h xs None = Some a \<and> error \<noteq> 0 \<and> error AND a = error))"
proof -
  have "policy_for_host h (\<lambda>_. None) cert = None" by (simp add: policy_for_host_def)
  then show ?thesis using policy_run [of "\<lambda>_. None" xs h cert]
    by (auto simp: QueryPolicy_def Check_iff)
qed

end
