(* ===== verification/Url_Data_Deletion.thy ===== *)
theory Url_Data_Deletion
  imports Prelude "HOL-Library.Multiset"
begin

text \<open>
  The data sources of \<open>chrome:\<close> pages: \<open>web/webui/url_data_manager_ios.{h,cc}\<close>,
  \<open>web/webui/url_data_source_ios_impl.cc\<close>, and the table of the backend
  (\<open>URLDataManagerIOSBackend::AddDataSource\<close>).  A source is added on the UI thread and used on the IO
  thread; when its last reference is dropped, on any thread, it must be deleted on the UI thread.

  A step of the model is a part of a method that no other thread can interrupt: a section under the
  lock, and what follows it.  \<open>to_post\<close> counts the threads between the section of \<open>DeleteDataSource\<close>
  and its \<open>PostTask\<close>, \<open>posted_deletions\<close> the tasks waiting on the UI thread.  The vector
  \<open>data_sources_\<close> is \<open>None\<close> before it is first made.

  The lemmas show that, however the steps of the threads interleave, every source that is dropped is
  deleted once or waits with a task on its way.
\<close>

section \<open>State\<close>

record 's data_manager =
  data_sources :: "'s list option"
  to_post :: nat
  posted_deletions :: nat
  posted_additions :: "'s list"
  sources_by_name :: "string \<Rightarrow> 's option"
  has_backend :: "'s \<Rightarrow> bool"
  posted_responses :: "('s \<times> int) list"
  deleted :: "'s list"

text \<open>The name of a source, and whether it replaces one of its name.\<close>

record 's source_ops =
  source_name :: "'s \<Rightarrow> string"
  should_replace_existing_source :: "'s \<Rightarrow> bool"

definition no_data_sources :: "'s data_manager" where
  "no_data_sources = \<lparr>data_sources = None, to_post = 0, posted_deletions = 0, posted_additions = [],
     sources_by_name = (\<lambda>_. None), has_backend = (\<lambda>_. False), posted_responses = [], deleted = []\<rparr>"

section \<open>Adding\<close>

definition AddDataSource :: "bool \<Rightarrow> 's \<Rightarrow> 's data_manager \<Rightarrow> 's data_manager outcome" where
  "AddDataSource on_ui source d = dcheck on_ui (Inr (d\<lparr>posted_additions := posted_additions d @ [source]\<rparr>))"

definition backend_AddDataSource :: "('s, 'z) source_ops_scheme \<Rightarrow> 's \<Rightarrow> 's data_manager \<Rightarrow> 's data_manager" where
  "backend_AddDataSource P source d =
     (let name = source_name P source;
          store = (\<lambda>d. d\<lparr>sources_by_name := (sources_by_name d)(name \<mapsto> source),
                         has_backend := (has_backend d)(source := True)\<rparr>)
      in case sources_by_name d name of
           None \<Rightarrow> store d
         | Some old \<Rightarrow>
             if \<not> should_replace_existing_source P source then d
             else store (d\<lparr>has_backend := (has_backend d)(old := False)\<rparr>))"

text \<open>The posted task, which runs on the IO thread.\<close>

definition AddDataSourceOnIOThread :: "('s, 'z) source_ops_scheme \<Rightarrow> bool \<Rightarrow> 's data_manager \<Rightarrow> 's data_manager outcome" where
  "AddDataSourceOnIOThread P on_io d =
     (case posted_additions d of
        [] \<Rightarrow> Inr d
      | source # rest \<Rightarrow> dcheck on_io (Inr (backend_AddDataSource P source (d\<lparr>posted_additions := rest\<rparr>))))"

section \<open>Deleting\<close>

definition DeleteDataSources :: "bool \<Rightarrow> 's data_manager \<Rightarrow> 's data_manager outcome" where
  "DeleteDataSources on_ui d =
     dcheck on_ui
       (case data_sources d of
          None \<Rightarrow> Inr d
        | Some sources \<Rightarrow> Inr (d\<lparr>data_sources := Some [], deleted := deleted d @ sources\<rparr>))"

text \<open>\<open>DeleteDataSource\<close> up to the end of its section under the lock, and its last statement.\<close>

definition DeleteDataSource :: "bool \<Rightarrow> 's \<Rightarrow> 's data_manager \<Rightarrow> 's data_manager" where
  "DeleteDataSource on_ui data_source d =
     (if on_ui then d\<lparr>deleted := deleted d @ [data_source]\<rparr>
      else let sources = (case data_sources d of None \<Rightarrow> [] | Some s \<Rightarrow> s);
               schedule_delete = (sources = [])
           in d\<lparr>data_sources := Some (sources @ [data_source]),
                to_post := to_post d + (if schedule_delete then 1 else 0)\<rparr>)"

definition post_deletion :: "'s data_manager \<Rightarrow> 's data_manager" where
  "post_deletion d =
     (if to_post d = 0 then d else d\<lparr>to_post := to_post d - 1, posted_deletions := posted_deletions d + 1\<rparr>)"

definition IsScheduledForDeletion :: "'s \<Rightarrow> 's data_manager \<Rightarrow> bool" where
  "IsScheduledForDeletion data_source d =
     (case data_sources d of None \<Rightarrow> False | Some sources \<Rightarrow> data_source \<in> set sources)"

definition SendResponse :: "'s \<Rightarrow> int \<Rightarrow> 's data_manager \<Rightarrow> 's data_manager" where
  "SendResponse source request_id d =
     (if IsScheduledForDeletion source d then d
      else d\<lparr>posted_responses := posted_responses d @ [(source, request_id)]\<rparr>)"

section \<open>Interleavings\<close>

text \<open>\<open>Drop\<close> is the end of the last reference; \<open>Run_deletion\<close> a posted task on the UI thread and
  \<open>Force_deletion\<close> the call at shutdown.\<close>

datatype 's manager_event = Add 's | Run_addition | Drop bool 's | Post | Run_deletion | Force_deletion | Respond 's int

fun manager_step :: "('s, 'z) source_ops_scheme \<Rightarrow> 's data_manager \<Rightarrow> 's manager_event \<Rightarrow> 's data_manager outcome" where
  "manager_step P d (Add source) = AddDataSource True source d"
| "manager_step P d Run_addition = AddDataSourceOnIOThread P True d"
| "manager_step P d (Drop on_ui source) = Inr (DeleteDataSource on_ui source d)"
| "manager_step P d Post = Inr (post_deletion d)"
| "manager_step P d Run_deletion =
     (if posted_deletions d = 0 then Inr d
      else DeleteDataSources True (d\<lparr>posted_deletions := posted_deletions d - 1\<rparr>))"
| "manager_step P d Force_deletion = DeleteDataSources True d"
| "manager_step P d (Respond source request_id) = Inr (SendResponse source request_id d)"

definition waiting :: "'s data_manager \<Rightarrow> 's list" where
  "waiting d = (case data_sources d of None \<Rightarrow> [] | Some sources \<Rightarrow> sources)"

fun dropped :: "'s manager_event list \<Rightarrow> 's list" where
  "dropped [] = []"
| "dropped (Drop on_ui source # xs) = source # dropped xs"
| "dropped (x # xs) = dropped xs"

definition on_its_way :: "'s data_manager \<Rightarrow> bool" where
  "on_its_way d \<longleftrightarrow> waiting d = [] \<or> 0 < to_post d + posted_deletions d"

lemmas manager_defs = AddDataSource_def AddDataSourceOnIOThread_def backend_AddDataSource_def DeleteDataSources_def
  DeleteDataSource_def post_deletion_def SendResponse_def waiting_def

lemma manager_step_keeps:
  assumes "on_its_way d"
  obtains t where "manager_step P d x = Inr t" and "on_its_way t"
    and "mset (deleted t) + mset (waiting t) = mset (deleted d) + mset (waiting d) + mset (dropped [x])"
proof -
  have "\<exists>t. manager_step P d x = Inr t \<and> on_its_way t \<and>
      mset (deleted t) + mset (waiting t) = mset (deleted d) + mset (waiting d) + mset (dropped [x])"
    using assms by (cases x) (auto simp: manager_defs on_its_way_def Let_def split: option.split list.split)
  then show ?thesis using that by blast
qed

lemma manager_run_keeps:
  assumes "on_its_way d"
  shows "\<exists>t. orun (manager_step P) d xs = Inr t \<and> on_its_way t \<and>
    mset (deleted t) + mset (waiting t) = mset (deleted d) + mset (waiting d) + mset (dropped xs)"
  using assms
proof (induction xs arbitrary: d)
  case Nil
  then show ?case by simp
next
  case (Cons x xs)
  from Cons.prems obtain u where u: "manager_step P d x = Inr u" "on_its_way u"
    "mset (deleted u) + mset (waiting u) = mset (deleted d) + mset (waiting d) + mset (dropped [x])"
    by (rule manager_step_keeps)
  have "mset (dropped (x # xs)) = mset (dropped [x]) + mset (dropped xs)" by (cases x) simp_all
  with u Cons.IH [OF u(2)] show ?case by (simp add: add.assoc)
qed

text \<open>No interleaving of the steps stops at a DCHECK; every source that was dropped has been deleted
  or waits, once for each time it was dropped; and as long as one waits, a task that deletes all
  of them is posted or about to be.\<close>

theorem dropped_sources_are_deleted:
  "\<exists>t. orun (manager_step P) no_data_sources xs = Inr t \<and>
     mset (deleted t) + mset (waiting t) = mset (dropped xs) \<and>
     (waiting t = [] \<or> 0 < to_post t + posted_deletions t)"
proof -
  let ?d = "no_data_sources :: 'a data_manager"
  have start: "on_its_way ?d" "deleted ?d = []" "waiting ?d = []"
    by (simp_all add: on_its_way_def no_data_sources_def waiting_def)
  obtain t where "orun (manager_step P) ?d xs = Inr t" "on_its_way t" "mset (deleted t) + mset (waiting t) = mset (dropped xs)"
    using manager_run_keeps [OF start(1), of P xs] start(2,3) by auto
  then show ?thesis by (intro exI [of _ t]) (simp add: on_its_way_def)
qed

text \<open>When every thread has posted and the UI thread has run one of the tasks, nothing waits.\<close>

lemma one_task_deletes_all:
  assumes "0 < posted_deletions d"
  shows "\<exists>t. manager_step P d Run_deletion = Inr t \<and> waiting t = [] \<and> deleted t = deleted d @ waiting d"
  using assms by (auto simp: manager_defs split: option.split)

text \<open>A source that waits for its deletion is not handed to the IO thread again.\<close>

lemma no_response_from_the_doomed:
  assumes "source \<in> set (waiting d)"
  shows "SendResponse source request_id d = d"
  using assms by (auto simp: SendResponse_def IsScheduledForDeletion_def waiting_def split: option.splits)

end
