(* ===== verification/Search_Engines.thy ===== *)
theory Search_Engines
  imports Prelude
begin

text \<open>
  The update of the preinstalled search engines after a change of the country,
  \<open>chrome/browser/search_engines/search_engines_util.{h,cc}\<close>.  The service that owns the engines
  (\<open>TemplateURLService\<close> of \<open>components/search_engines\<close>) is not part of the repository: its state is a
  type variable, and \<open>engine_ops\<close> holds the calls on it, with the documented behaviour in
  \<open>engine_laws\<close>.  It must not be asked to remove its default engine, which is a \<open>dcheck\<close> here.
  \<open>waiting_observer\<close> is the \<open>LoadedObserver\<close> of a service that is not loaded yet.

  The lemmas show that the engines after an update are the user's own ones, Google, and the new
  country's, that the default engine is never removed, and that an update happens once for each change.
\<close>

section \<open>Data\<close>

record ('s, 'e, 'n) engine_ops =
  template_urls :: "'s \<Rightarrow> 'e list"
  prepopulate_id :: "'e \<Rightarrow> int"
  default_search_provider :: "'s \<Rightarrow> 'e"
  set_user_selected_default :: "'e \<Rightarrow> 's \<Rightarrow> 's"
  remove_engine :: "'e \<Rightarrow> 's \<Rightarrow> 's"
  add_engine :: "'n \<Rightarrow> 's \<Rightarrow> 's"
  prepopulated_engines :: "'n list \<times> nat"
  new_prepopulate_id :: "'n \<Rightarrow> int"
  template_url :: "'n \<Rightarrow> 'e"

record 's engine_state =
  service :: "'s option"
  service_loaded :: bool
  default_search_managed :: bool
  country_id_at_install :: "int option"
  waiting_observer :: bool
  deletions_posted :: nat

definition kGoogleEnginePrepopulatedId :: int where "kGoogleEnginePrepopulatedId = 1"

section \<open>The update\<close>

text \<open>The three passes.\<close>

fun select_google :: "('s, 'e, 'n, 'z) engine_ops_scheme \<Rightarrow> 'e list \<Rightarrow> 's \<Rightarrow> 's" where
  "select_google P [] s = s"
| "select_google P (e # es) s =
     (if prepopulate_id P e = kGoogleEnginePrepopulatedId then set_user_selected_default P e s
      else select_google P es s)"

fun remove_prepopulated :: "('s, 'e, 'n, 'z) engine_ops_scheme \<Rightarrow> 'e list \<Rightarrow> 's \<Rightarrow> 's outcome" where
  "remove_prepopulated P [] s = Inr s"
| "remove_prepopulated P (e # es) s =
     (if kGoogleEnginePrepopulatedId < prepopulate_id P e
      then dcheck (default_search_provider P s \<noteq> e) (remove_prepopulated P es (remove_engine P e s))
      else remove_prepopulated P es s)"

fun add_prepopulated :: "('s, 'e, 'n, 'z) engine_ops_scheme \<Rightarrow> 'n list \<Rightarrow> 's \<Rightarrow> 's" where
  "add_prepopulated P [] s = s"
| "add_prepopulated P (n # ns) s =
     add_prepopulated P ns (if new_prepopulate_id P n \<noteq> kGoogleEnginePrepopulatedId then add_engine P n s else s)"

definition UpdateSearchEngine :: "('s, 'e, 'n, 'z) engine_ops_scheme \<Rightarrow> bool \<Rightarrow> 's option \<Rightarrow> 's outcome" where
  "UpdateSearchEngine P is_loaded serv =
     (case serv of
        None \<Rightarrow> Inl Dcheck_failed
      | Some s \<Rightarrow>
          dcheck is_loaded
            (let old_engines = template_urls P s;
                 (new_engines, default_engine_index) = prepopulated_engines P
             in dcheck (default_engine_index = 0)
                  (obind (vec_at new_engines 0) (\<lambda>first.
                     dcheck (new_prepopulate_id P first = kGoogleEnginePrepopulatedId)
                       (let s1 = (if kGoogleEnginePrepopulatedId < prepopulate_id P (default_search_provider P s)
                                  then select_google P old_engines s else s)
                        in obind (remove_prepopulated P old_engines s1)
                             (\<lambda>s2. Inr (add_prepopulated P new_engines s2)))))))"

text \<open>The observer, which deletes itself with a posted task.\<close>

definition LoadedObserver :: "'s engine_state \<Rightarrow> 's engine_state outcome" where
  "LoadedObserver st =
     dcheck (service st \<noteq> None) (dcheck (\<not> service_loaded st) (Inr (st\<lparr>waiting_observer := True\<rparr>)))"

definition OnTemplateURLServiceChanged ::
    "('s, 'e, 'n, 'z) engine_ops_scheme \<Rightarrow> 's engine_state \<Rightarrow> 's engine_state outcome" where
  "OnTemplateURLServiceChanged P st =
     (if \<not> waiting_observer st then Inr st
      else obind (UpdateSearchEngine P (service_loaded st) (service st)) (\<lambda>s.
             Inr (st\<lparr>waiting_observer := False, service := Some s, deletions_posted := deletions_posted st + 1\<rparr>)))"

definition UpdateSearchEnginesIfNeeded ::
    "('s, 'e, 'n, 'z) engine_ops_scheme \<Rightarrow> int \<Rightarrow> 's engine_state \<Rightarrow> 's engine_state outcome" where
  "UpdateSearchEnginesIfNeeded P current_country_id st =
     (case country_id_at_install st of
        None \<Rightarrow> Inr st
      | Some old_country_id \<Rightarrow>
          if current_country_id = old_country_id then Inr st
          else let st = st\<lparr>country_id_at_install := Some current_country_id\<rparr>
               in if service st = None \<or> default_search_managed st then Inr st
                  else if service_loaded st
                  then obind (UpdateSearchEngine P (service_loaded st) (service st)) (\<lambda>s. Inr (st\<lparr>service := Some s\<rparr>))
                  else LoadedObserver st)"

text \<open>Whether the default engine can search for an image: its image URL, and whether that is valid.\<close>

definition SupportsSearchByImage :: "(string \<times> bool) option option \<Rightarrow> bool" where
  "SupportsSearchByImage default_url_of_service =
     (case default_url_of_service of
        None \<Rightarrow> False
      | Some None \<Rightarrow> False
      | Some (Some (image_url, image_url_is_valid)) \<Rightarrow> image_url \<noteq> [] \<and> image_url_is_valid)"

section \<open>The engines after an update\<close>

definition engine_laws :: "('s, 'e, 'n, 'z) engine_ops_scheme \<Rightarrow> bool" where
  "engine_laws P \<longleftrightarrow>
     (\<forall>e s. template_urls P (set_user_selected_default P e s) = template_urls P s \<and>
        default_search_provider P (set_user_selected_default P e s) = e) \<and>
     (\<forall>e s. e \<noteq> default_search_provider P s \<longrightarrow>
        template_urls P (remove_engine P e s) = filter (\<lambda>x. x \<noteq> e) (template_urls P s) \<and>
        default_search_provider P (remove_engine P e s) = default_search_provider P s) \<and>
     (\<forall>n s. template_urls P (add_engine P n s) = template_urls P s @ [template_url P n] \<and>
        default_search_provider P (add_engine P n s) = default_search_provider P s) \<and>
     (\<forall>n. prepopulate_id P (template_url P n) = new_prepopulate_id P n)"

lemma select_google_default:
  assumes "engine_laws P"
  shows "template_urls P (select_google P es s) = template_urls P s"
    and "default_search_provider P (select_google P es s) =
      (case List.find (\<lambda>e. prepopulate_id P e = 1) es of None \<Rightarrow> default_search_provider P s | Some e \<Rightarrow> e)"
  using assms by (induction es) (auto simp: engine_laws_def kGoogleEnginePrepopulatedId_def)

lemma remove_prepopulated_removes:
  assumes laws: "engine_laws P" and "prepopulate_id P (default_search_provider P s) \<le> 1"
  shows "\<exists>t. remove_prepopulated P es s = Inr t \<and>
    default_search_provider P t = default_search_provider P s \<and>
    template_urls P t = filter (\<lambda>x. \<not> (x \<in> set es \<and> 1 < prepopulate_id P x)) (template_urls P s)"
  using assms(2)
proof (induction es arbitrary: s)
  case Nil
  then show ?case by simp
next
  case (Cons e es)
  show ?case
  proof (cases "1 < prepopulate_id P e")
    case True
    then have ne: "e \<noteq> default_search_provider P s" using Cons.prems by auto
    let ?s = "remove_engine P e s"
    have r: "template_urls P ?s = filter (\<lambda>x. x \<noteq> e) (template_urls P s)"
      "default_search_provider P ?s = default_search_provider P s"
      using laws ne by (auto simp: engine_laws_def)
    with Cons.prems have "prepopulate_id P (default_search_provider P ?s) \<le> 1" by simp
    from Cons.IH [OF this] obtain t where t: "remove_prepopulated P es ?s = Inr t"
      "default_search_provider P t = default_search_provider P s"
      "template_urls P t = filter (\<lambda>x. \<not> (x \<in> set es \<and> 1 < prepopulate_id P x)) (template_urls P ?s)"
      using r by auto
    have "template_urls P t = filter (\<lambda>x. \<not> (x \<in> set (e # es) \<and> 1 < prepopulate_id P x)) (template_urls P s)"
      using True t(3) r(1) by (auto intro!: filter_cong)
    then show ?thesis using True ne t(1,2) by (auto simp: kGoogleEnginePrepopulatedId_def)
  next
    case False
    then have "\<not> (x \<in> set (e # es) \<and> 1 < prepopulate_id P x) \<longleftrightarrow> \<not> (x \<in> set es \<and> 1 < prepopulate_id P x)" for x
      by auto
    then show ?thesis using False Cons.IH [OF Cons.prems] by (simp add: kGoogleEnginePrepopulatedId_def)
  qed
qed

lemma add_prepopulated_adds:
  assumes "engine_laws P"
  shows "template_urls P (add_prepopulated P ns s) =
      template_urls P s @ map (template_url P) (filter (\<lambda>n. new_prepopulate_id P n \<noteq> 1) ns)"
    and "default_search_provider P (add_prepopulated P ns s) = default_search_provider P s"
  using assms by (induction ns arbitrary: s) (auto simp: engine_laws_def kGoogleEnginePrepopulatedId_def)

text \<open>The update replaces the preinstalled engines but Google by the new ones.  It needs an engine to
  fall back on: Google is installed, or the default engine is the user's own or Google.\<close>

lemma update_replaces_the_engines:
  assumes laws: "engine_laws P" and new: "prepopulated_engines P = (n # ns, 0)" "new_prepopulate_id P n = 1"
    and fall_back: "prepopulate_id P (default_search_provider P s) \<le> 1 \<or> (\<exists>g \<in> set (template_urls P s). prepopulate_id P g = 1)"
  shows "\<exists>t. UpdateSearchEngine P True (Some s) = Inr t \<and>
    template_urls P t = filter (\<lambda>e. prepopulate_id P e \<le> 1) (template_urls P s) @
      map (template_url P) (filter (\<lambda>n. new_prepopulate_id P n \<noteq> 1) ns) \<and>
    (if prepopulate_id P (default_search_provider P s) \<le> 1
     then default_search_provider P t = default_search_provider P s
     else prepopulate_id P (default_search_provider P t) = 1)"
proof -
  let ?s = "if kGoogleEnginePrepopulatedId < prepopulate_id P (default_search_provider P s)
    then select_google P (template_urls P s) s else s"
  have "\<exists>g. List.find (\<lambda>e. prepopulate_id P e = 1) (template_urls P s) = Some g \<and> prepopulate_id P g = 1"
    if "\<not> prepopulate_id P (default_search_provider P s) \<le> 1"
    using fall_back that by (cases "List.find (\<lambda>e. prepopulate_id P e = 1) (template_urls P s)")
      (auto simp: find_None_iff find_Some_iff)
  then have d: "template_urls P ?s = template_urls P s"
    "if prepopulate_id P (default_search_provider P s) \<le> 1
     then default_search_provider P ?s = default_search_provider P s
     else prepopulate_id P (default_search_provider P ?s) = 1"
    using select_google_default [OF laws] by (auto simp: kGoogleEnginePrepopulatedId_def)
  then have "prepopulate_id P (default_search_provider P ?s) \<le> 1" by (auto split: if_splits)
  from remove_prepopulated_removes [OF laws this, of "template_urls P s"] obtain t
    where t: "remove_prepopulated P (template_urls P s) ?s = Inr t"
      "default_search_provider P t = default_search_provider P ?s"
      "template_urls P t = filter (\<lambda>x. \<not> (x \<in> set (template_urls P s) \<and> 1 < prepopulate_id P x)) (template_urls P ?s)"
    by blast
  have "template_urls P t = filter (\<lambda>e. prepopulate_id P e \<le> 1) (template_urls P s)"
    unfolding t(3) d(1) by (rule filter_cong) auto
  moreover have "UpdateSearchEngine P True (Some s) = Inr (add_prepopulated P (n # ns) t)"
    using new t(1) by (simp add: UpdateSearchEngine_def Let_def kGoogleEnginePrepopulatedId_def)
  ultimately show ?thesis using d(2) t(2) add_prepopulated_adds [OF laws, of "n # ns" t] new(2)
    by (auto split: if_splits)
qed

text \<open>A change of the country is handled once: a second call with the same country does nothing.\<close>

lemma update_happens_once:
  assumes "UpdateSearchEnginesIfNeeded P c st = Inr t" and "country_id_at_install st \<noteq> None"
  shows "country_id_at_install t = Some c \<and> UpdateSearchEnginesIfNeeded P c t = Inr t"
  using assms
  by (auto simp: UpdateSearchEnginesIfNeeded_def LoadedObserver_def Let_def obind_eq_Inr split: option.splits if_splits)

text \<open>The observer of a service that was not loaded updates it once and is deleted once.\<close>

lemma observer_runs_once:
  assumes "waiting_observer st" and "OnTemplateURLServiceChanged P st = Inr t"
  shows "\<not> waiting_observer t \<and> deletions_posted t = deletions_posted st + 1 \<and> OnTemplateURLServiceChanged P t = Inr t"
  using assms by (auto simp: OnTemplateURLServiceChanged_def obind_eq_Inr)

end
