(* ===== verification/Overlay_Callbacks.thy ===== *)
theory Overlay_Callbacks
  imports Prelude
begin

text \<open>
  The callbacks of an overlay request, \<open>chrome/browser/overlays\<close>: the callback manager
  (\<open>overlay_callback_manager_impl.{h,cc}\<close>) of each request, dispatch callbacks with the responses
  they support (\<open>overlay_dispatch_callback.cc\<close>, \<open>overlay_response_support.cc\<close>), the supports of
  requests (\<open>overlay_request_support.cc\<close>), the end of a request (\<open>overlay_request_impl.cc\<close>), and the
  installer that adds its callbacks once per request (\<open>overlay_request_callback_installer.cc\<close>).

  A callback of the code's clients is an identifier; running it is an entry of \<open>callback_log\<close>, with
  the response it is given.  The installer's own completion callback is \<open>Forget\<close>.

  The lemmas show that the completion callbacks run once, in order and with the final response, and
  that an installer serves every request once as long as it lives.
\<close>

section \<open>Supports\<close>

datatype 'q support = Supports_all | Supports_none | Supports_where "'q \<Rightarrow> bool" | Supports_any "'q support list"

fun IsSupported :: "'q support \<Rightarrow> 'q \<Rightarrow> bool" where
  "IsSupported Supports_all q = True"
| "IsSupported Supports_none q = False"
| "IsSupported (Supports_where p) q = p q"
| "IsSupported (Supports_any []) q = False"
| "IsSupported (Supports_any (s # ss)) q = (if IsSupported s q then True else IsSupported (Supports_any ss) q)"

definition IsRequestSupported :: "'q support \<Rightarrow> 'q \<Rightarrow> bool" where
  "IsRequestSupported supp request = IsSupported supp request"

definition IsResponseSupported :: "'r support \<Rightarrow> 'r \<Rightarrow> bool" where
  "IsResponseSupported supp response = IsSupported supp response"

lemma IsSupported_any: "IsSupported (Supports_any ss) q \<longleftrightarrow> (\<exists>s \<in> set ss. IsSupported s q)"
  by (induction ss) auto

section \<open>The callback manager\<close>

datatype 'c completion_callback = Client 'c | Forget

datatype ('c, 'r) callback_call = Completed 'c "'r option" | Dispatched 'c 'r

record ('c, 'r) callback_manager =
  completion_response :: "'r option"
  completion_callbacks :: "'c completion_callback list"
  dispatch_callbacks :: "('c \<times> 'r support) list"

definition new_callback_manager :: "('c, 'r) callback_manager" where
  "new_callback_manager = \<lparr>completion_response = None, completion_callbacks = [], dispatch_callbacks = []\<rparr>"

definition SetCompletionResponse :: "'r option \<Rightarrow> ('c, 'r) callback_manager \<Rightarrow> ('c, 'r) callback_manager" where
  "SetCompletionResponse response m = m\<lparr>completion_response := response\<rparr>"

definition GetCompletionResponse :: "('c, 'r) callback_manager \<Rightarrow> 'r option" where
  "GetCompletionResponse m = completion_response m"

definition AddCompletionCallback ::
    "'c completion_callback option \<Rightarrow> ('c, 'r) callback_manager \<Rightarrow> ('c, 'r) callback_manager outcome" where
  "AddCompletionCallback callback m =
     (case callback of None \<Rightarrow> Inl Dcheck_failed
      | Some c \<Rightarrow> Inr (m\<lparr>completion_callbacks := completion_callbacks m @ [c]\<rparr>))"

text \<open>A dispatch callback filters the responses its support knows.\<close>

definition Run :: "'c \<times> 'r support \<Rightarrow> 'r \<Rightarrow> ('c, 'r) callback_call list" where
  "Run callback response = (if IsResponseSupported (snd callback) response then [Dispatched (fst callback) response] else [])"

definition DispatchResponse :: "'r option \<Rightarrow> ('c, 'r) callback_manager \<Rightarrow> ('c, 'r) callback_call list outcome" where
  "DispatchResponse response m =
     (case response of None \<Rightarrow> Inl Dcheck_failed
      | Some r \<Rightarrow> Inr (concat (map (\<lambda>c. Run c r) (dispatch_callbacks m))))"

definition AddDispatchCallback :: "'c \<times> 'r support \<Rightarrow> ('c, 'r) callback_manager \<Rightarrow> ('c, 'r) callback_manager" where
  "AddDispatchCallback callback m = m\<lparr>dispatch_callbacks := dispatch_callbacks m @ [callback]\<rparr>"

text \<open>The callbacks in the order of the loop; \<open>Forget\<close> is a call to the installer.\<close>

definition ExecuteCompletionCallbacks ::
    "('c, 'r) callback_manager \<Rightarrow> ('c completion_callback \<times> 'r option) list \<times> ('c, 'r) callback_manager" where
  "ExecuteCompletionCallbacks m =
     (map (\<lambda>c. (c, GetCompletionResponse m)) (completion_callbacks m), m\<lparr>completion_callbacks := []\<rparr>)"

definition callback_manager_destroyed :: "('c, 'r) callback_manager \<Rightarrow> unit outcome" where
  "callback_manager_destroyed m = dcheck (completion_callbacks m = []) (Inr ())"

section \<open>Requests and the installer\<close>

record ('q, 'c, 'r) overlay_callbacks =
  managers :: "'q \<Rightarrow> ('c, 'r) callback_manager option"
  installed_requests :: "'q set"
  request_support :: "'q support"
  installer_alive :: bool
  callback_log :: "('c, 'r) callback_call list"
  installations :: "'q list"

text \<open>The installer and its subclass's part, \<open>InstallCallbacksInternal\<close>, which is recorded in
  \<open>installations\<close>.\<close>

definition InstallCallbacks :: "'q \<Rightarrow> ('q, 'c, 'r) overlay_callbacks \<Rightarrow> ('q, 'c, 'r) overlay_callbacks outcome" where
  "InstallCallbacks request s =
     (if \<not> IsRequestSupported (request_support s) request \<or> request \<in> installed_requests s then Inr s
      else let s1 = s\<lparr>installed_requests := insert request (installed_requests s)\<rparr>
           in case managers s1 request of
                None \<Rightarrow> Inl Dcheck_failed
              | Some m \<Rightarrow>
                  obind (AddCompletionCallback (Some Forget) m) (\<lambda>m1.
                    Inr (s1\<lparr>managers := (managers s1)(request \<mapsto> m1), installations := installations s1 @ [request]\<rparr>)))"

definition OverlayCompleted :: "'q \<Rightarrow> ('q, 'c, 'r) overlay_callbacks \<Rightarrow> ('q, 'c, 'r) overlay_callbacks" where
  "OverlayCompleted request s = s\<lparr>installed_requests := installed_requests s - {request}\<rparr>"

fun run_completion ::
    "'q \<Rightarrow> 'c completion_callback \<times> 'r option \<Rightarrow> ('q, 'c, 'r) overlay_callbacks \<Rightarrow> ('q, 'c, 'r) overlay_callbacks" where
  "run_completion request (Client c, r) s = s\<lparr>callback_log := callback_log s @ [Completed c r]\<rparr>"
| "run_completion request (Forget, r) s = (if installer_alive s then OverlayCompleted request s else s)"

definition OverlayRequest :: "'q \<Rightarrow> ('q, 'c, 'r) overlay_callbacks \<Rightarrow> ('q, 'c, 'r) overlay_callbacks" where
  "OverlayRequest request s = s\<lparr>managers := (managers s)(request \<mapsto> new_callback_manager)\<rparr>"

definition OverlayRequest_destroyed ::
    "'q \<Rightarrow> ('q, 'c, 'r) overlay_callbacks \<Rightarrow> ('q, 'c, 'r) overlay_callbacks outcome" where
  "OverlayRequest_destroyed request s =
     (case managers s request of
        None \<Rightarrow> Inr s
      | Some m \<Rightarrow>
          (let (calls, m1) = ExecuteCompletionCallbacks m;
               s1 = fold (run_completion request) calls s
           in obind (callback_manager_destroyed m1) (\<lambda>_. Inr (s1\<lparr>managers := (managers s1)(request := None)\<rparr>))))"

section \<open>What runs when a request ends\<close>

fun clients :: "'c completion_callback list \<Rightarrow> 'c list" where
  "clients [] = []"
| "clients (Client c # cs) = c # clients cs"
| "clients (Forget # cs) = clients cs"

lemma run_all:
  "fold (run_completion q) (map (\<lambda>c. (c, r)) cs) s =
     s\<lparr>installed_requests := (if installer_alive s \<and> Forget \<in> set cs then installed_requests s - {q} else installed_requests s),
       callback_log := callback_log s @ map (\<lambda>c. Completed c r) (clients cs)\<rparr>"
proof (induction cs arbitrary: s)
  case Nil
  then show ?case by simp
next
  case (Cons c cs)
  then show ?case by (cases c) (auto simp: OverlayCompleted_def)
qed

text \<open>Every completion callback runs once, in the order of addition, with the response that was set
  last.\<close>

lemma request_ends:
  assumes "managers s q = Some m"
  shows "OverlayRequest_destroyed q s =
    Inr (s\<lparr>installed_requests :=
             (if installer_alive s \<and> Forget \<in> set (completion_callbacks m) then installed_requests s - {q}
              else installed_requests s),
           callback_log := callback_log s @ map (\<lambda>c. Completed c (completion_response m)) (clients (completion_callbacks m)),
           managers := (managers s)(q := None)\<rparr>)"
  using assms
  by (simp add: OverlayRequest_destroyed_def ExecuteCompletionCallbacks_def GetCompletionResponse_def
      callback_manager_destroyed_def run_all Let_def)

text \<open>A response is dispatched to the callbacks that support it, and to no other.\<close>

lemma DispatchResponse_supported:
  "DispatchResponse (Some r) m =
     Inr (map (\<lambda>c. Dispatched (fst c) r) (filter (\<lambda>c. IsResponseSupported (snd c) r) (dispatch_callbacks m)))"
proof -
  have "concat (map (\<lambda>c. Run c r) cs) = map (\<lambda>c. Dispatched (fst c) r) (filter (\<lambda>c. IsResponseSupported (snd c) r) cs)" for cs
    by (induction cs) (auto simp: Run_def)
  then show ?thesis by (simp add: DispatchResponse_def)
qed

section \<open>An installer serves a request once\<close>

datatype ('q, 'c, 'r) callbacks_op = Op_create 'q | Op_destroy 'q | Op_install 'q | Op_add 'q 'c
  | Op_respond 'q "'r option" | Op_installer_dies

definition on_manager ::
    "'q \<Rightarrow> (('c, 'r) callback_manager \<Rightarrow> ('c, 'r) callback_manager outcome) \<Rightarrow> ('q, 'c, 'r) overlay_callbacks \<Rightarrow>
     ('q, 'c, 'r) overlay_callbacks outcome" where
  "on_manager q f s =
     (case managers s q of None \<Rightarrow> Inl Dcheck_failed
      | Some m \<Rightarrow> obind (f m) (\<lambda>m1. Inr (s\<lparr>managers := (managers s)(q \<mapsto> m1)\<rparr>)))"

fun callbacks_step ::
    "('q, 'c, 'r) overlay_callbacks \<Rightarrow> ('q, 'c, 'r) callbacks_op \<Rightarrow> ('q, 'c, 'r) overlay_callbacks outcome" where
  "callbacks_step s (Op_create q) = Inr (OverlayRequest q s)"
| "callbacks_step s (Op_destroy q) = OverlayRequest_destroyed q s"
| "callbacks_step s (Op_install q) = (if installer_alive s then InstallCallbacks q s else Inr s)"
| "callbacks_step s (Op_add q c) = on_manager q (AddCompletionCallback (Some (Client c))) s"
| "callbacks_step s (Op_respond q r) = on_manager q (\<lambda>m. Inr (SetCompletionResponse r m)) s"
| "callbacks_step s Op_installer_dies = Inr (s\<lparr>installer_alive := False\<rparr>)"

fun callbacks_ok :: "('q, 'c, 'r) overlay_callbacks \<Rightarrow> ('q, 'c, 'r) callbacks_op \<Rightarrow> bool" where
  "callbacks_ok s (Op_create q) \<longleftrightarrow> managers s q = None"
| "callbacks_ok s (Op_destroy q) = True"
| "callbacks_ok s (Op_install q) \<longleftrightarrow> managers s q \<noteq> None"
| "callbacks_ok s (Op_add q c) \<longleftrightarrow> managers s q \<noteq> None"
| "callbacks_ok s (Op_respond q r) \<longleftrightarrow> managers s q \<noteq> None"
| "callbacks_ok s Op_installer_dies = True"

text \<open>The installer knows exactly the requests that will tell it when they end, once each.\<close>

definition forgets :: "('q, 'c, 'r) overlay_callbacks \<Rightarrow> 'q \<Rightarrow> nat" where
  "forgets s q = (case managers s q of None \<Rightarrow> 0 | Some m \<Rightarrow> length (filter (\<lambda>c. c = Forget) (completion_callbacks m)))"

definition callbacks_inv :: "('q, 'c, 'r) overlay_callbacks \<Rightarrow> bool" where
  "callbacks_inv s \<longleftrightarrow> (installer_alive s \<longrightarrow> (\<forall>q. forgets s q = (if q \<in> installed_requests s then 1 else 0)))"

lemma forgets_known:
  "callbacks_inv s \<Longrightarrow> installer_alive s \<Longrightarrow> managers s q = Some m \<Longrightarrow>
     Forget \<in> set (completion_callbacks m) \<longleftrightarrow> q \<in> installed_requests s"
proof -
  assume "callbacks_inv s" "installer_alive s" "managers s q = Some m"
  then have "length (filter (\<lambda>c. c = Forget) (completion_callbacks m)) = (if q \<in> installed_requests s then 1 else 0)"
    by (auto simp: callbacks_inv_def forgets_def dest!: spec [of _ q])
  moreover have "Forget \<in> set cs \<longleftrightarrow> 0 < length (filter (\<lambda>c. c = Forget) cs)" for cs :: "'b completion_callback list"
    by (induction cs) auto
  ultimately show ?thesis by (metis less_one neq0_conv zero_less_one)
qed

lemma on_manager_keeps:
  assumes "callbacks_inv s" and "managers s q \<noteq> None"
    and "\<And>m. \<exists>m1. f m = Inr m1 \<and> filter (\<lambda>c. c = Forget) (completion_callbacks m1) = filter (\<lambda>c. c = Forget) (completion_callbacks m)"
  shows "\<exists>t. on_manager q f s = Inr t \<and> callbacks_inv t"
proof -
  obtain m where m: "managers s q = Some m" using assms(2) by auto
  obtain m1 where m1: "f m = Inr m1"
    "filter (\<lambda>c. c = Forget) (completion_callbacks m1) = filter (\<lambda>c. c = Forget) (completion_callbacks m)"
    using assms(3) by blast
  then have "forgets (s\<lparr>managers := (managers s)(q \<mapsto> m1)\<rparr>) = forgets s" using m by (auto simp: forgets_def fun_eq_iff)
  then show ?thesis using assms(1) m m1(1) by (simp add: on_manager_def callbacks_inv_def)
qed

lemma callbacks_step_safe:
  assumes "callbacks_inv s" and "callbacks_ok s x"
  shows "\<exists>t. callbacks_step s x = Inr t \<and> callbacks_inv t"
proof (cases x)
  case (Op_create q)
  then have "forgets (OverlayRequest q s) = forgets s"
    using assms(2) by (auto simp: forgets_def OverlayRequest_def new_callback_manager_def fun_eq_iff)
  then show ?thesis using Op_create assms(1) by (simp add: callbacks_inv_def OverlayRequest_def)
next
  case (Op_destroy q)
  show ?thesis
  proof (cases "managers s q")
    case None
    then show ?thesis using Op_destroy assms(1) by (simp add: OverlayRequest_destroyed_def)
  next
    case (Some m)
    show ?thesis using Op_destroy request_ends [OF Some] assms(1) forgets_known [OF assms(1) _ Some]
      by (auto simp: callbacks_inv_def forgets_def)
  qed
next
  case (Op_install q)
  then show ?thesis using assms
    by (auto simp: InstallCallbacks_def AddCompletionCallback_def callbacks_inv_def forgets_def Let_def
        split: option.splits if_splits)
next
  case (Op_add q c)
  then show ?thesis using assms by (auto intro!: on_manager_keeps simp: AddCompletionCallback_def)
next
  case (Op_respond q r)
  then show ?thesis using assms by (auto intro!: on_manager_keeps simp: SetCompletionResponse_def)
next
  case Op_installer_dies
  then show ?thesis by (simp add: callbacks_inv_def)
qed

interpretation overlay_callback_system: checked_machine callbacks_step callbacks_ok callbacks_inv
  by unfold_locales (rule callbacks_step_safe)

text \<open>A second installation for a request that is still there changes nothing.\<close>

lemma installation_is_idempotent:
  assumes "InstallCallbacks q s = Inr t" and "IsRequestSupported (request_support s) q"
  shows "InstallCallbacks q t = Inr t"
  using assms by (auto simp: InstallCallbacks_def AddCompletionCallback_def Let_def split: if_splits option.splits)

end
