(* ===== verification/Browser_State_Manager.thy ===== *)
theory Browser_State_Manager
  imports Browser_State_Info_Cache
begin

text \<open>
  The manager that loads browser states, \<open>chrome/browser/browser_state/chrome_browser_state_manager_impl.{h,cc}\<close>,
  over the info cache, with the counts it logs
  (\<open>chrome/browser/browser_state_metrics/browser_state_metrics.cc\<close>).

  A browser state is identified by the path it is loaded from.  The environment \<open>manager_env\<close> holds the
  account of the identity manager, the directory of user data, the name in the local preferences,
  the files of a directory and the patterns of \<open>base::FileEnumerator\<close>.  Started services, posted
  tasks and logged counts are traces.  A \<open>std::map\<close> over paths is the sorted list of its keys.

  The lemmas show that a browser state is loaded once, and that the info cache knows its account then.
\<close>

section \<open>Data\<close>

record manager_env =
  account :: "file_path \<Rightarrow> string \<times> string"
  user_data :: "string option"
  last_used_name :: string
  stored_info :: "string \<Rightarrow> info option"
  stored_keys :: "string list"
  has_off_the_record :: "file_path \<Rightarrow> bool"
  otr_has_active_state_manager :: "file_path \<Rightarrow> bool"
  files_in :: "file_path \<Rightarrow> (string \<times> int) list"
  matches_pattern :: "string \<Rightarrow> string \<Rightarrow> bool"

record browser_state_manager =
  browser_states :: "file_path list"
  browser_state_info_cache :: "info_cache option"
  services_initialized :: "file_path list"
  size_tasks :: "file_path list"
  logged_counts :: "(nat \<times> nat) list"

definition ChromeBrowserStateManagerImpl :: browser_state_manager where
  "ChromeBrowserStateManagerImpl = \<lparr>browser_states = [], browser_state_info_cache = None, services_initialized = [],
     size_tasks = [], logged_counts = []\<rparr>"

definition path_text :: "file_path \<Rightarrow> string" where
  "path_text p = dir_name p @ ''/'' @ base_name p"

definition kIOSChromeInitialBrowserState :: string where "kIOSChromeInitialBrowserState = ''Default''"

section \<open>Sizes\<close>

text \<open>Some files of a directory by a pattern, and the sizes in megabytes that are logged; the size of a
  file is not negative.\<close>

definition ComputeFilesSize :: "manager_env \<Rightarrow> file_path \<Rightarrow> string \<Rightarrow> int" where
  "ComputeFilesSize E directory pattern =
     fold (\<lambda>(name, sz) running_size. running_size + sz)
       (filter (\<lambda>(name, sz). matches_pattern E pattern name) (files_in E directory)) 0"

definition BrowserStateSizeTask :: "manager_env \<Rightarrow> file_path \<Rightarrow> (string \<times> int) list" where
  "BrowserStateSizeTask E path =
     (let kBytesInOneMB = 1024 * 1024;
          size_MB = (\<lambda>pattern. ComputeFilesSize E path pattern div kBytesInOneMB)
      in [(''Profile.TotalSize'', size_MB ''*''),
          (''Profile.HistorySize'', size_MB ''History''),
          (''Profile.TotalHistorySize'', size_MB ''History*''),
          (''Profile.CookiesSize'', size_MB ''Cookies''),
          (''Profile.BookmarksSize'', size_MB ''Bookmarks''),
          (''Profile.FaviconsSize'', size_MB ''Favicons''),
          (''Profile.TopSitesSize'', size_MB ''Top Sites''),
          (''Profile.VisitedLinksSize'', size_MB ''Visited Links''),
          (''Profile.WebDataSize'', size_MB ''Web Data''),
          (''Profile.ExtensionSize'', size_MB ''Extension*'')])"

section \<open>The info cache\<close>

definition GetUserDataDir :: "manager_env \<Rightarrow> string outcome" where
  "GetUserDataDir E = (case user_data E of None \<Rightarrow> Inl Dcheck_failed | Some d \<Rightarrow> Inr d)"

definition GetBrowserStateInfoCache :: "manager_env \<Rightarrow> browser_state_manager \<Rightarrow> (info_cache \<times> browser_state_manager) outcome" where
  "GetBrowserStateInfoCache E m =
     (case browser_state_info_cache m of
        Some c \<Rightarrow> Inr (c, m)
      | None \<Rightarrow> obind (GetUserDataDir E) (\<lambda>dir.
          let c = new_info_cache (stored_info E) (stored_keys E) dir
          in Inr (c, m\<lparr>browser_state_info_cache := Some c\<rparr>)))"

definition AddBrowserStateToCache :: "manager_env \<Rightarrow> file_path \<Rightarrow> browser_state_manager \<Rightarrow> browser_state_manager outcome" where
  "AddBrowserStateToCache E browser_state m =
     obind (GetBrowserStateInfoCache E m) (\<lambda>(cache, m).
       if dir_name browser_state \<noteq> user_data_dir cache then Inr m
       else
         let (gaia, username) = account E browser_state
         in obind (GetIndexOfBrowserStateWithPath cache browser_state) (\<lambda>index.
              obind (case index of
                       Some i \<Rightarrow> SetAuthInfoOfBrowserStateAtIndex i gaia username cache
                     | None \<Rightarrow> AddBrowserState browser_state gaia username cache) (\<lambda>c.
                Inr (m\<lparr>browser_state_info_cache := Some c\<rparr>))))"

text \<open>The counts, in the order of the loop.\<close>

fun count_signed_in :: "info_cache \<Rightarrow> nat list \<Rightarrow> nat \<Rightarrow> nat outcome" where
  "count_signed_in c [] n = Inr n"
| "count_signed_in c (i # is) n =
     obind (BrowserStateIsAuthenticatedAtIndex c i) (\<lambda>b. count_signed_in c is (if b then n + 1 else n))"

definition CountBrowserStateInformation :: "info_cache \<Rightarrow> (bool \<times> nat \<times> nat) outcome" where
  "CountBrowserStateInformation c =
     (let number_of_browser_states = GetNumberOfBrowserStates c
      in if number_of_browser_states = 0 then Inr (False, 0, 0)
         else obind (count_signed_in c [0..<number_of_browser_states] 0) (\<lambda>n. Inr (True, number_of_browser_states, n)))"

definition LogNumberOfBrowserStates :: "manager_env \<Rightarrow> browser_state_manager \<Rightarrow> browser_state_manager outcome" where
  "LogNumberOfBrowserStates E m =
     obind (GetBrowserStateInfoCache E m) (\<lambda>(cache, m).
       obind (CountBrowserStateInformation cache) (\<lambda>(_, counts). Inr (m\<lparr>logged_counts := logged_counts m @ [counts]\<rparr>)))"

section \<open>Loading\<close>

definition DoFinalInitForServices :: "file_path \<Rightarrow> browser_state_manager \<Rightarrow> browser_state_manager" where
  "DoFinalInitForServices browser_state m = m\<lparr>services_initialized := services_initialized m @ [browser_state]\<rparr>"

definition DoFinalInit :: "manager_env \<Rightarrow> file_path \<Rightarrow> browser_state_manager \<Rightarrow> browser_state_manager outcome" where
  "DoFinalInit E browser_state m =
     obind (AddBrowserStateToCache E browser_state (DoFinalInitForServices browser_state m)) (\<lambda>m.
       LogNumberOfBrowserStates E (m\<lparr>size_tasks := size_tasks m @ [browser_state]\<rparr>))"

definition GetBrowserState :: "manager_env \<Rightarrow> file_path \<Rightarrow> browser_state_manager \<Rightarrow> (file_path \<times> browser_state_manager) outcome" where
  "GetBrowserState E path m =
     (if path \<in> set (browser_states m) then Inr (path, m)
      else obind (DoFinalInit E path (m\<lparr>browser_states := insort_key path_text path (browser_states m)\<rparr>))
             (\<lambda>m. Inr (path, m)))"

definition GetLastUsedBrowserStateDir :: "manager_env \<Rightarrow> string \<Rightarrow> file_path" where
  "GetLastUsedBrowserStateDir E dir =
     (let name = (if last_used_name E = [] then kIOSChromeInitialBrowserState else last_used_name E)
      in \<lparr>dir_name = dir, base_name = name\<rparr>)"

definition GetLastUsedBrowserState :: "manager_env \<Rightarrow> browser_state_manager \<Rightarrow> (file_path \<times> browser_state_manager) outcome" where
  "GetLastUsedBrowserState E m =
     obind (GetUserDataDir E) (\<lambda>dir. GetBrowserState E (GetLastUsedBrowserStateDir E dir) m)"

definition GetLoadedBrowserStates :: "browser_state_manager \<Rightarrow> file_path list" where
  "GetLoadedBrowserStates m = browser_states m"

text \<open>The destructor sets browser states inactive; the flag marks the off-the-record one.\<close>

definition manager_destroyed :: "manager_env \<Rightarrow> browser_state_manager \<Rightarrow> (file_path \<times> bool) list" where
  "manager_destroyed E m =
     concat (map (\<lambda>p. (p, False) #
       (if has_off_the_record E p \<and> otr_has_active_state_manager E p then [(p, True)] else [])) (browser_states m))"

section \<open>Every browser state is loaded once\<close>

definition manager_inv :: "manager_env \<Rightarrow> browser_state_manager \<Rightarrow> bool" where
  "manager_inv E m \<longleftrightarrow>
     (\<exists>dir. user_data E = Some dir \<and> cache_inv (new_info_cache (stored_info E) (stored_keys E) dir) \<and>
        (\<forall>c. browser_state_info_cache m = Some c \<longrightarrow> cache_inv c \<and> user_data_dir c = dir)) \<and>
     distinct (browser_states m) \<and> set (browser_states m) = set (services_initialized m) \<and>
     distinct (services_initialized m)"

lemma new_info_cache_dir: "user_data_dir (new_info_cache p ks d) = d"
proof -
  have "user_data_dir (fold AddBrowserStateCacheKey ks c) = user_data_dir c" for c
    by (induction ks arbitrary: c) (auto simp: AddBrowserStateCacheKey_def)
  then show ?thesis by (simp add: new_info_cache_def)
qed

lemma info_cache_available:
  assumes "manager_inv E m"
  obtains c dir where "GetBrowserStateInfoCache E m = Inr (c, m\<lparr>browser_state_info_cache := Some c\<rparr>)" and "cache_inv c"
    and "user_data_dir c = dir" and "user_data E = Some dir"
  using assms that
  by (cases "browser_state_info_cache m")
    (auto simp: GetBrowserStateInfoCache_def GetUserDataDir_def manager_inv_def new_info_cache_dir Let_def)

lemma set_auth_info_correct:
  assumes "cache_inv c" and "i < GetNumberOfBrowserStates c"
  shows "\<exists>t. SetAuthInfoOfBrowserStateAtIndex i g u c = Inr t \<and> cache_inv t \<and> user_data_dir t = user_data_dir c \<and>
    sorted_keys t = sorted_keys c \<and> GetGAIAIdOfBrowserStateAtIndex t i = Inr g \<and> GetUserNameOfBrowserStateAtIndex t i = Inr u"
proof -
  obtain t where t: "SetAuthInfoOfBrowserStateAtIndex i g u c = Inr t" "cache_inv t"
    using cache_step_safe [OF assms(1), of "Cache_SetAuthInfo i g u"] assms(2) by auto
  obtain dict where d: "GetInfoForBrowserStateAtIndex c i = Inr dict" using cache_info [OF assms] by blast
  have i: "i < length (sorted_keys c)" using assms(2) by (simp add: GetNumberOfBrowserStates_def)
  let ?dict = "dict(kGAIAIdKey \<mapsto> Pref_string g, kUserNameKey \<mapsto> Pref_string u)"
  have "t = c \<and> pref_string dict kGAIAIdKey = g \<and> pref_string dict kUserNameKey = u \<or>
      t = c\<lparr>cache_prefs := (cache_prefs c)(sorted_keys c ! i \<mapsto> ?dict)\<rparr>"
    using t(1) d i
    by (auto simp: SetAuthInfoOfBrowserStateAtIndex_def GetGAIAIdOfBrowserStateAtIndex_def
        GetUserNameOfBrowserStateAtIndex_def SetInfoForBrowserStateAtIndex_def vec_at_def split: if_splits)
  then have "GetGAIAIdOfBrowserStateAtIndex t i = Inr g \<and> GetUserNameOfBrowserStateAtIndex t i = Inr u \<and>
      user_data_dir t = user_data_dir c \<and> sorted_keys t = sorted_keys c"
    using d i
    by (auto simp: GetGAIAIdOfBrowserStateAtIndex_def GetUserNameOfBrowserStateAtIndex_def GetInfoForBrowserStateAtIndex_def
        GetNumberOfBrowserStates_def vec_at_def pref_string_def info_keys)
  then show ?thesis using t by blast
qed

text \<open>What the cache says about the account of a browser state.\<close>

definition cache_knows :: "info_cache \<Rightarrow> file_path \<Rightarrow> string \<times> string \<Rightarrow> bool" where
  "cache_knows c path acc \<longleftrightarrow> (\<exists>i. GetIndexOfBrowserStateWithPath c path = Inr (Some i) \<and>
     GetGAIAIdOfBrowserStateAtIndex c i = Inr (fst acc) \<and> GetUserNameOfBrowserStateAtIndex c i = Inr (snd acc))"

lemma index_of_known:
  assumes "cache_inv c" and "dir_name path = user_data_dir c" and "base_name path \<in> set (sorted_keys c)"
  obtains i where "GetIndexOfBrowserStateWithPath c path = Inr (Some i)" and "i < GetNumberOfBrowserStates c"
    and "sorted_keys c ! i = base_name path"
proof -
  obtain i where i: "i < length (sorted_keys c)" "sorted_keys c ! i = base_name path"
    using assms(3) by (auto simp: in_set_conv_nth)
  then show ?thesis using that index_of_key [of "sorted_keys c" i] assms(1,2)
    by (auto simp: cache_inv_def GetIndexOfBrowserStateWithPath_def CacheKeyFromBrowserStatePath_def
        GetNumberOfBrowserStates_def)
qed

lemma added_state_is_known:
  assumes "cache_inv c" and "dir_name path = user_data_dir c" and "base_name path \<notin> set (sorted_keys c)"
  shows "\<exists>t. AddBrowserState path g u c = Inr t \<and> cache_inv t \<and> user_data_dir t = user_data_dir c \<and> cache_knows t path (g, u)"
proof -
  obtain t where t: "AddBrowserState path g u c = Inr t" "cache_inv t"
    using cache_step_safe [OF assms(1), of "Cache_Add path g u"] assms(2,3) by auto
  then have known: "base_name path \<in> set (sorted_keys t)" "dir_name path = user_data_dir t"
    and entry: "cache_prefs t (base_name path) = Some (Map.empty(kGAIAIdKey \<mapsto> Pref_string g, kUserNameKey \<mapsto> Pref_string u))"
    using assms(2)
    by (auto simp: AddBrowserState_def CacheKeyFromBrowserStatePath_def Let_def AddBrowserStateCacheKey_def)
  obtain i where i: "GetIndexOfBrowserStateWithPath t path = Inr (Some i)" "i < GetNumberOfBrowserStates t"
    "sorted_keys t ! i = base_name path"
    by (rule index_of_known [OF t(2) known(2,1)])
  then have "GetGAIAIdOfBrowserStateAtIndex t i = Inr g" "GetUserNameOfBrowserStateAtIndex t i = Inr u"
    using entry
    by (simp_all add: GetGAIAIdOfBrowserStateAtIndex_def GetUserNameOfBrowserStateAtIndex_def
        GetInfoForBrowserStateAtIndex_def GetNumberOfBrowserStates_def pref_string_def info_keys)
  then show ?thesis using t known(2) assms(2) i(1) by (auto simp: cache_knows_def)
qed

lemma AddBrowserStateToCache_correct:
  assumes m: "manager_inv E m"
  shows "\<exists>c. AddBrowserStateToCache E path m = Inr (m\<lparr>browser_state_info_cache := Some c\<rparr>) \<and> cache_inv c \<and>
    user_data E = Some (user_data_dir c) \<and> (dir_name path = user_data_dir c \<longrightarrow> cache_knows c path (account E path))"
proof -
  obtain c where c: "GetBrowserStateInfoCache E m = Inr (c, m\<lparr>browser_state_info_cache := Some c\<rparr>)" "cache_inv c"
    "user_data E = Some (user_data_dir c)"
    using info_cache_available [OF m] by metis
  obtain g u where acc: "account E path = (g, u)" by (cases "account E path")
  consider (other) "dir_name path \<noteq> user_data_dir c"
    | (new) "dir_name path = user_data_dir c" "base_name path \<notin> set (sorted_keys c)"
    | (old) "dir_name path = user_data_dir c" "base_name path \<in> set (sorted_keys c)" by blast
  then show ?thesis
  proof cases
    case other
    then show ?thesis using c by (auto simp: AddBrowserStateToCache_def)
  next
    case new
    then have "GetIndexOfBrowserStateWithPath c path = Inr None"
      by (auto simp: GetIndexOfBrowserStateWithPath_def CacheKeyFromBrowserStatePath_def)
    then show ?thesis using added_state_is_known [OF c(2) new, of g u] c new acc
      by (auto simp: AddBrowserStateToCache_def)
  next
    case old
    obtain i where i: "GetIndexOfBrowserStateWithPath c path = Inr (Some i)" "i < GetNumberOfBrowserStates c"
      by (rule index_of_known [OF c(2) old])
    from set_auth_info_correct [OF c(2) i(2), of g u] obtain t where
      t: "SetAuthInfoOfBrowserStateAtIndex i g u c = Inr t" "cache_inv t" "user_data_dir t = user_data_dir c"
      "sorted_keys t = sorted_keys c" "GetGAIAIdOfBrowserStateAtIndex t i = Inr g" "GetUserNameOfBrowserStateAtIndex t i = Inr u"
      by blast
    then have "GetIndexOfBrowserStateWithPath t path = Inr (Some i)"
      using i(1) old(1) by (simp add: GetIndexOfBrowserStateWithPath_def CacheKeyFromBrowserStatePath_def)
    then have "cache_knows t path (g, u)" unfolding cache_knows_def using t(5,6) by (intro exI [of _ i]) simp
    moreover have "AddBrowserStateToCache E path m = Inr (m\<lparr>browser_state_info_cache := Some t\<rparr>)"
      using c(1) i(1) t(1) acc old(1) by (simp add: AddBrowserStateToCache_def)
    ultimately show ?thesis using t(2,3) c(3) acc by (intro exI [of _ t]) simp
  qed
qed

lemma count_available:
  assumes "cache_inv c" and "\<forall>i \<in> set is. i < GetNumberOfBrowserStates c"
  shows "\<exists>k. count_signed_in c is n = Inr k \<and> k \<le> n + length is"
  using assms(2)
proof (induction "is" arbitrary: n)
  case Nil
  then show ?case by simp
next
  case (Cons i "is")
  then obtain dict where "GetInfoForBrowserStateAtIndex c i = Inr dict" using cache_info [OF assms(1)] by fastforce
  then obtain b where b: "BrowserStateIsAuthenticatedAtIndex c i = Inr b"
    by (cases "pref_string dict kGAIAIdKey = []")
      (simp_all add: BrowserStateIsAuthenticatedAtIndex_def GetGAIAIdOfBrowserStateAtIndex_def
        GetUserNameOfBrowserStateAtIndex_def)
  from Cons obtain k where "count_signed_in c is (if b then n + 1 else n) = Inr k" "k \<le> (if b then n + 1 else n) + length is"
    by fastforce
  then show ?case using b by (auto split: if_splits)
qed

lemma LogNumberOfBrowserStates_correct:
  assumes "manager_inv E m"
  shows "\<exists>c total signedin. GetBrowserStateInfoCache E m = Inr (c, m\<lparr>browser_state_info_cache := Some c\<rparr>) \<and>
    LogNumberOfBrowserStates E m =
      Inr (m\<lparr>browser_state_info_cache := Some c, logged_counts := logged_counts m @ [(total, signedin)]\<rparr>) \<and> signedin \<le> total"
proof -
  obtain c where c: "GetBrowserStateInfoCache E m = Inr (c, m\<lparr>browser_state_info_cache := Some c\<rparr>)" "cache_inv c"
    using info_cache_available [OF assms] by metis
  obtain k where "count_signed_in c [0..<GetNumberOfBrowserStates c] 0 = Inr k" "k \<le> GetNumberOfBrowserStates c"
    using count_available [OF c(2), of "[0..<GetNumberOfBrowserStates c]" 0] by auto
  then have "\<exists>b t n. CountBrowserStateInformation c = Inr (b, t, n) \<and> n \<le> t"
    by (cases "GetNumberOfBrowserStates c = 0") (auto simp: CountBrowserStateInformation_def)
  then obtain b t n where "CountBrowserStateInformation c = Inr (b, t, n)" "n \<le> t" by blast
  then show ?thesis using c(1) by (intro exI [of _ c] exI [of _ t] exI [of _ n]) (simp add: LogNumberOfBrowserStates_def)
qed

text \<open>A browser state is initialized when it is first asked for, and the info cache then knows its
  account; a second request returns the same and initializes nothing.\<close>

lemma browser_state_is_loaded_once:
  assumes m: "manager_inv E m"
  shows "\<exists>t. GetBrowserState E path m = Inr (path, t) \<and> manager_inv E t \<and> GetBrowserState E path t = Inr (path, t) \<and>
    services_initialized t = services_initialized m @ (if path \<in> set (browser_states m) then [] else [path]) \<and>
    (path \<notin> set (browser_states m) \<and> user_data E = Some (dir_name path) \<longrightarrow>
       (\<exists>c. browser_state_info_cache t = Some c \<and> cache_knows c path (account E path)))"
proof (cases "path \<in> set (browser_states m)")
  case True
  then show ?thesis using m by (auto simp: GetBrowserState_def)
next
  case False
  let ?m = "DoFinalInitForServices path (m\<lparr>browser_states := insort_key path_text path (browser_states m)\<rparr>)"
  have fresh: "path \<notin> set (services_initialized m)" using False m by (simp add: manager_inv_def)
  have inv: "manager_inv E ?m"
    using m False fresh by (simp add: manager_inv_def DoFinalInitForServices_def set_insort_key distinct_insort)
  from AddBrowserStateToCache_correct [OF inv, of path] obtain c
    where c: "AddBrowserStateToCache E path ?m = Inr (?m\<lparr>browser_state_info_cache := Some c\<rparr>)" "cache_inv c"
      "user_data E = Some (user_data_dir c)" "dir_name path = user_data_dir c \<longrightarrow> cache_knows c path (account E path)"
    by blast
  let ?n = "?m\<lparr>browser_state_info_cache := Some c, size_tasks := size_tasks ?m @ [path]\<rparr>"
  have inv2: "manager_inv E ?n" using inv c(2,3) by (auto simp: manager_inv_def)
  have cache: "GetBrowserStateInfoCache E ?n = Inr (c, ?n)" by (simp add: GetBrowserStateInfoCache_def)
  from LogNumberOfBrowserStates_correct [OF inv2] obtain d total signedin where
    d: "GetBrowserStateInfoCache E ?n = Inr (d, ?n\<lparr>browser_state_info_cache := Some d\<rparr>)" and
    l: "LogNumberOfBrowserStates E ?n =
      Inr (?n\<lparr>browser_state_info_cache := Some d, logged_counts := logged_counts ?n @ [(total, signedin)]\<rparr>)"
    by blast
  have "d = c" using d cache by simp
  let ?t = "?n\<lparr>browser_state_info_cache := Some d, logged_counts := logged_counts ?n @ [(total, signedin)]\<rparr>"
  have r: "GetBrowserState E path m = Inr (path, ?t)" using False c(1) l by (simp add: GetBrowserState_def DoFinalInit_def)
  have "manager_inv E ?t" using inv2 \<open>d = c\<close> by (simp add: manager_inv_def)
  moreover have "path \<in> set (browser_states ?t)" by (simp add: DoFinalInitForServices_def set_insort_key)
  moreover have "services_initialized ?t = services_initialized m @ [path]" by (simp add: DoFinalInitForServices_def)
  moreover have "browser_state_info_cache ?t = Some c" using \<open>d = c\<close> by simp
  ultimately show ?thesis using r c(3,4) False by (intro exI [of _ ?t]) (simp add: GetBrowserState_def)
qed

text \<open>The last used browser state is the initial one where the preferences name none.\<close>

lemma last_used_browser_state:
  assumes "manager_inv E m" and "user_data E = Some dir" and "last_used_name E = []"
  shows "\<exists>t. GetLastUsedBrowserState E m = Inr (\<lparr>dir_name = dir, base_name = kIOSChromeInitialBrowserState\<rparr>, t) \<and> manager_inv E t"
  using browser_state_is_loaded_once [OF assms(1), of "\<lparr>dir_name = dir, base_name = kIOSChromeInitialBrowserState\<rparr>"] assms(2,3)
  by (auto simp: GetLastUsedBrowserState_def GetUserDataDir_def GetLastUsedBrowserStateDir_def)

end
