(* ===== verification/Http_Cache_Helper.thy ===== *)
theory Http_Cache_Helper
  imports Prelude
begin

text \<open>
  The deletion of the HTTP cache, \<open>net/http_cache_helper.cc\<close>.  It may have to wait for the backend of
  the cache and for the deletion, and must report the result once, to the sequence of its client.

  The HTTP cache of \<open>net\<close> is not part of the repository.  \<open>http_cache_answers\<close> holds what \<open>GetBackend\<close> and
  \<open>DoomEntriesBetween\<close> return, and what they pass to the callback if they return \<open>ERR_IO_PENDING\<close>, which
  is \<open>pending_code\<close>: as their documentation says, the callback is invoked in that case only.  A task
  that is posted to the client is an entry of a trace.

  The lemma shows that the client is told the result once, in every order of answers.
\<close>

record http_cache_answers =
  pending_code :: int
  get_backend :: int
  get_backend_later :: int
  backend_found :: bool
  doom_entries :: int
  doom_entries_later :: int

datatype cache_wait = Awaiting_backend | Awaiting_doom

record cache_clearing =
  on_network_runner :: bool
  quic_cleared :: nat
  waiting_on :: "cache_wait option"
  client_tasks :: "int list"

definition no_clearing :: cache_clearing where
  "no_clearing = \<lparr>on_network_runner = False, quic_cleared = 0, waiting_on = None, client_tasks = []\<rparr>"

definition PostCallback :: "int \<Rightarrow> cache_clearing \<Rightarrow> cache_clearing" where
  "PostCallback error c = c\<lparr>client_tasks := client_tasks c @ [error]\<rparr>"

definition DoomHttpCache :: "http_cache_answers \<Rightarrow> int \<Rightarrow> cache_clearing \<Rightarrow> cache_clearing" where
  "DoomHttpCache A error c =
     (if backend_found A then
        let rv = doom_entries A
        in if rv \<noteq> pending_code A then c\<lparr>client_tasks := client_tasks c @ [rv]\<rparr>
           else c\<lparr>waiting_on := Some Awaiting_doom\<rparr>
      else c\<lparr>client_tasks := client_tasks c @ [error]\<rparr>)"

definition ClearHttpCacheOnIOThread :: "http_cache_answers \<Rightarrow> cache_clearing \<Rightarrow> cache_clearing" where
  "ClearHttpCacheOnIOThread A c =
     (let c = c\<lparr>on_network_runner := False, quic_cleared := quic_cleared c + 1\<rparr>;
          rv = get_backend A
      in if rv \<noteq> pending_code A then DoomHttpCache A rv c else c\<lparr>waiting_on := Some Awaiting_backend\<rparr>)"

text \<open>\<open>delete_end\<close> is not the null time.\<close>

definition ClearHttpCache :: "bool \<Rightarrow> cache_clearing \<Rightarrow> cache_clearing outcome" where
  "ClearHttpCache delete_end_is_null c = dcheck (\<not> delete_end_is_null) (Inr (c\<lparr>on_network_runner := True\<rparr>))"

text \<open>The message loop runs the posted task, or a callback that is awaited comes.\<close>

definition clearing_step :: "http_cache_answers \<Rightarrow> cache_clearing \<Rightarrow> cache_clearing" where
  "clearing_step A c =
     (if on_network_runner c then ClearHttpCacheOnIOThread A c
      else case waiting_on c of
        None \<Rightarrow> c
      | Some Awaiting_backend \<Rightarrow> DoomHttpCache A (get_backend_later A) (c\<lparr>waiting_on := None\<rparr>)
      | Some Awaiting_doom \<Rightarrow> PostCallback (doom_entries_later A) (c\<lparr>waiting_on := None\<rparr>))"

definition clearing_result :: "http_cache_answers \<Rightarrow> int" where
  "clearing_result A =
     (if backend_found A then if doom_entries A = pending_code A then doom_entries_later A else doom_entries A
      else if get_backend A = pending_code A then get_backend_later A else get_backend A)"

text \<open>After the task and at most two callbacks the client has been told the result, once, and a
  further step does nothing.\<close>

lemma cache_is_cleared_once:
  assumes "ClearHttpCache False no_clearing = Inr c"
  shows "client_tasks ((clearing_step A ^^ 3) c) = [clearing_result A] \<and>
    quic_cleared ((clearing_step A ^^ 3) c) = 1 \<and>
    clearing_step A ((clearing_step A ^^ 3) c) = (clearing_step A ^^ 3) c"
proof -
  have c: "c = no_clearing\<lparr>on_network_runner := True\<rparr>" using assms by (simp add: ClearHttpCache_def)
  show ?thesis unfolding c
    by (cases "get_backend A = pending_code A"; cases "backend_found A"; cases "doom_entries A = pending_code A")
      (simp_all add: numeral_3_eq_3 clearing_step_def ClearHttpCacheOnIOThread_def DoomHttpCache_def PostCallback_def
        clearing_result_def no_clearing_def Let_def)
qed

end
