(* ===== verification/Bookmarks.thy ===== *)
theory Bookmarks
  imports Prelude
begin

text \<open>
  Bookmarks: the helper functions of \<open>chrome/browser/bookmarks/bookmarks_utils.cc\<close> and the deletion of all
  bookmarks, \<open>chrome/browser/bookmarks/bookmark_remover_helper.{h,cc}\<close>.  The bookmark model
  (\<open>components/bookmarks\<close>) is not part of the repository: its state and its nodes are type variables,
  and \<open>bookmark_ops\<close> holds what the code asks of it.  The preference of the default folder is a number.

  The lemmas show that the folder search ends at a root level folder or at the root, and that a
  deletion reports its result once and resets the default folder only if nothing is left.
\<close>

section \<open>Helpers\<close>

record ('m, 'n) bookmark_ops =
  bookmarks_loaded :: "'m \<Rightarrow> bool"
  remove_all_user_bookmarks :: "'m \<Rightarrow> 'm"
  root_children :: "'m \<Rightarrow> 'n list"
  node_children :: "'m \<Rightarrow> 'n \<Rightarrow> 'n list"
  node_parent :: "'m \<Rightarrow> 'n \<Rightarrow> 'n option"
  is_folder :: "'m \<Rightarrow> 'n \<Rightarrow> bool"
  is_visible :: "'m \<Rightarrow> 'n \<Rightarrow> bool"
  can_be_edited_by_user :: "'m \<Rightarrow> 'n \<Rightarrow> bool"
  mobile_node :: "'m \<Rightarrow> 'n"
  bookmark_bar_node :: "'m \<Rightarrow> 'n"
  other_node :: "'m \<Rightarrow> 'n"

text \<open>The result, the model, and the preference of the default folder.\<close>

fun no_user_bookmarks_left :: "('m, 'n, 'z) bookmark_ops_scheme \<Rightarrow> 'm \<Rightarrow> 'n list \<Rightarrow> bool" where
  "no_user_bookmarks_left P m [] = True"
| "no_user_bookmarks_left P m (child # rest) =
     (if \<not> can_be_edited_by_user P m child then no_user_bookmarks_left P m rest
      else if node_children P m child \<noteq> [] then False
      else no_user_bookmarks_left P m rest)"

definition RemoveAllUserBookmarks :: "('m, 'n, 'z) bookmark_ops_scheme \<Rightarrow> 'm \<Rightarrow> int \<Rightarrow> bool \<times> 'm \<times> int" where
  "RemoveAllUserBookmarks P m folder =
     (if \<not> bookmarks_loaded P m then (False, m, folder)
      else let m = remove_all_user_bookmarks P m
           in if no_user_bookmarks_left P m (root_children P m) then (True, m, -1) else (False, m, folder))"

definition PrimaryPermanentNodes :: "('m, 'n, 'z) bookmark_ops_scheme \<Rightarrow> 'm \<Rightarrow> 'n list outcome" where
  "PrimaryPermanentNodes P m =
     dcheck (bookmarks_loaded P m) (Inr [mobile_node P m, bookmark_bar_node P m, other_node P m])"

definition RootLevelFolders :: "('m, 'n, 'z) bookmark_ops_scheme \<Rightarrow> 'm \<Rightarrow> 'n list outcome" where
  "RootLevelFolders P m =
     obind (PrimaryPermanentNodes P m) (\<lambda>primary_permanent_nodes.
       Inr (concat (map (\<lambda>parent. filter (\<lambda>child. is_folder P m child \<and> is_visible P m child) (node_children P m parent))
              primary_permanent_nodes)))"

definition IsPrimaryPermanentNode :: "('m, 'n, 'z) bookmark_ops_scheme \<Rightarrow> 'n \<Rightarrow> 'm \<Rightarrow> bool outcome" where
  "IsPrimaryPermanentNode P node m = obind (PrimaryPermanentNodes P m) (\<lambda>primary_nodes. Inr (node \<in> set primary_nodes))"

text \<open>The walk to the parents; \<open>None\<close> is that it never ends, and a null pointer is \<open>Some None\<close>.\<close>

partial_function (option) find_root_folder :: "('n \<Rightarrow> 'n option) \<Rightarrow> 'n list \<Rightarrow> 'n option \<Rightarrow> 'n option option" where
  "find_root_folder parent root_folders start =
     (case start of None \<Rightarrow> Some None
      | Some n \<Rightarrow> if n \<in> set root_folders then Some (Some n) else find_root_folder parent root_folders (parent n))"

definition RootLevelFolderForNode :: "('m, 'n, 'z) bookmark_ops_scheme \<Rightarrow> 'n \<Rightarrow> 'm \<Rightarrow> 'n option option outcome" where
  "RootLevelFolderForNode P node m =
     dcheck (can_be_edited_by_user P m node)
       (obind (RootLevelFolders P m) (\<lambda>root_folders. Inr (find_root_folder (node_parent P m) root_folders (Some node))))"

section \<open>The search for the folder\<close>

text \<open>The chain of the ancestors of a node.\<close>

fun ancestor :: "('n \<Rightarrow> 'n option) \<Rightarrow> 'n \<Rightarrow> nat \<Rightarrow> 'n option" where
  "ancestor parent n 0 = Some n"
| "ancestor parent n (Suc k) = (case parent n of None \<Rightarrow> None | Some p \<Rightarrow> ancestor parent p k)"

text \<open>In a tree, where the chain of ancestors ends, the search returns the nearest ancestor that is a root
  level folder, or nothing where there is none.\<close>

lemma find_root_folder_returns:
  assumes "ancestor parent n d = None"
  shows "\<exists>r. find_root_folder parent folders (Some n) = Some r \<and>
    (case r of None \<Rightarrow> \<forall>k a. ancestor parent n k = Some a \<longrightarrow> a \<notin> set folders
     | Some f \<Rightarrow> f \<in> set folders \<and> (\<exists>k. ancestor parent n k = Some f \<and> (\<forall>j < k. the (ancestor parent n j) \<notin> set folders)))"
  using assms
proof (induction d arbitrary: n)
  case 0
  then show ?case by simp
next
  case (Suc d)
  show ?case
  proof (cases "n \<in> set folders")
    case True
    then show ?thesis by (subst find_root_folder.simps) (auto intro!: exI [of _ 0])
  next
    case False
    show ?thesis
    proof (cases "parent n")
      case None
      have "a = n" if "ancestor parent n k = Some a" for k a using that None by (cases k) auto
      then show ?thesis using False None
        by (subst find_root_folder.simps, simp, subst find_root_folder.simps) auto
    next
      case (Some p)
      with Suc.prems have "ancestor parent p d = None" by simp
      from Suc.IH [OF this] obtain r where r: "find_root_folder parent folders (Some p) = Some r"
        "case r of None \<Rightarrow> \<forall>k a. ancestor parent p k = Some a \<longrightarrow> a \<notin> set folders
         | Some f \<Rightarrow> f \<in> set folders \<and> (\<exists>k. ancestor parent p k = Some f \<and> (\<forall>j < k. the (ancestor parent p j) \<notin> set folders))"
        by blast
      have step: "find_root_folder parent folders (Some n) = Some r"
        using False Some r(1) by (subst find_root_folder.simps) simp
      show ?thesis
      proof (cases r)
        case None
        then have "a \<notin> set folders" if "ancestor parent n k = Some a" for k a
          using that r(2) False Some by (cases k) auto
        then show ?thesis using step None by auto
      next
        case (Some f)
        then obtain k where k: "f \<in> set folders" "ancestor parent p k = Some f" "\<forall>j < k. the (ancestor parent p j) \<notin> set folders"
          using r(2) by auto
        have "the (ancestor parent n j) \<notin> set folders" if "j < Suc k" for j
          using that k(3) False \<open>parent n = Some p\<close> by (cases j) auto
        then show ?thesis using step Some k(1,2) \<open>parent n = Some p\<close> by (auto intro!: exI [of _ "Suc k"])
      qed
    qed
  qed
qed

lemma no_user_bookmarks_left_iff:
  "no_user_bookmarks_left P m ns \<longleftrightarrow> (\<forall>n \<in> set ns. can_be_edited_by_user P m n \<longrightarrow> node_children P m n = [])"
  by (induction ns) auto

text \<open>The deletion succeeds exactly if no folder the user may edit has a bookmark left, and only then is the
  default folder reset.\<close>

lemma RemoveAllUserBookmarks_succeeds:
  "RemoveAllUserBookmarks P m folder = (success, t, folder') \<Longrightarrow>
     (success \<longleftrightarrow> bookmarks_loaded P m \<and> (\<forall>n \<in> set (root_children P t). can_be_edited_by_user P t n \<longrightarrow> node_children P t n = [])) \<and>
     folder' = (if success then -1 else folder)"
  by (auto simp: RemoveAllUserBookmarks_def no_user_bookmarks_left_iff Let_def split: if_splits)

text \<open>A root level folder is its own.\<close>

lemma root_level_folder_is_found:
  assumes "RootLevelFolders P m = Inr folders" and "n \<in> set folders" and "can_be_edited_by_user P m n"
  shows "RootLevelFolderForNode P n m = Inr (Some (Some n))"
  using assms by (simp add: RootLevelFolderForNode_def) (subst find_root_folder.simps, simp)

section \<open>The remover\<close>

record ('m, 'c) bookmark_remover =
  has_browser_state :: bool
  default_folder :: int
  bookmark_model :: "'m option"
  observes_model :: bool
  removal_completion :: "'c option"
  completions_posted :: "('c \<times> bool) list"

definition BookmarkRemoverHelper :: "int \<Rightarrow> 'm option \<Rightarrow> ('m, 'c) bookmark_remover" where
  "BookmarkRemoverHelper folder m = \<lparr>has_browser_state = True, default_folder = folder, bookmark_model = m, observes_model = False,
     removal_completion = None, completions_posted = []\<rparr>"

definition BookmarksRemoved :: "bool \<Rightarrow> ('m, 'c) bookmark_remover \<Rightarrow> ('m, 'c) bookmark_remover" where
  "BookmarksRemoved success r =
     (let r = r\<lparr>has_browser_state := False\<rparr>
      in case removal_completion r of None \<Rightarrow> r
         | Some c \<Rightarrow> r\<lparr>removal_completion := None, completions_posted := completions_posted r @ [(c, success)]\<rparr>)"

text \<open>The removal itself needs the browser state.\<close>

definition remove_and_report :: "('m, 'n, 'z) bookmark_ops_scheme \<Rightarrow> 'm \<Rightarrow> ('m, 'c) bookmark_remover \<Rightarrow> ('m, 'c) bookmark_remover outcome" where
  "remove_and_report P m r =
     dcheck (has_browser_state r)
       (case RemoveAllUserBookmarks P m (default_folder r) of (success, m', folder) \<Rightarrow>
          Inr (BookmarksRemoved success (r\<lparr>bookmark_model := Some m', default_folder := folder\<rparr>)))"

definition BookmarkModelLoaded :: "('m, 'n, 'z) bookmark_ops_scheme \<Rightarrow> 'm \<Rightarrow> ('m, 'c) bookmark_remover \<Rightarrow> ('m, 'c) bookmark_remover outcome" where
  "BookmarkModelLoaded P m r = remove_and_report P m (r\<lparr>observes_model := False\<rparr>)"

definition BookmarkModelBeingDeleted :: "('m, 'c) bookmark_remover \<Rightarrow> ('m, 'c) bookmark_remover" where
  "BookmarkModelBeingDeleted r = BookmarksRemoved False (r\<lparr>observes_model := False, bookmark_model := None\<rparr>)"

definition BookmarkModelChanged :: "('m, 'c) bookmark_remover \<Rightarrow> ('m, 'c) bookmark_remover outcome" where
  "BookmarkModelChanged r = Inl Notreached"

definition RemoveAllUserBookmarksIOS ::
    "('m, 'n, 'z) bookmark_ops_scheme \<Rightarrow> 'c \<Rightarrow> ('m, 'c) bookmark_remover \<Rightarrow> ('m, 'c) bookmark_remover outcome" where
  "RemoveAllUserBookmarksIOS P c r =
     (let r = r\<lparr>removal_completion := Some c\<rparr>
      in case bookmark_model r of
           None \<Rightarrow> Inr (BookmarksRemoved False r)
         | Some m \<Rightarrow> if bookmarks_loaded P m then remove_and_report P m r else Inr (r\<lparr>observes_model := True\<rparr>))"

definition bookmark_remover_destroyed :: "('m, 'c) bookmark_remover \<Rightarrow> unit outcome" where
  "bookmark_remover_destroyed r = dcheck (\<not> has_browser_state r) (Inr ())"

lemmas bookmark_defs = BookmarkRemoverHelper_def BookmarksRemoved_def remove_and_report_def BookmarkModelLoaded_def
  BookmarkModelBeingDeleted_def RemoveAllUserBookmarksIOS_def bookmark_remover_destroyed_def

definition reported :: "'c \<Rightarrow> bool \<Rightarrow> ('m, 'c) bookmark_remover \<Rightarrow> bool" where
  "reported c success r \<longleftrightarrow>
     completions_posted r = [(c, success)] \<and> removal_completion r = None \<and> \<not> observes_model r \<and>
     bookmark_remover_destroyed r = Inr ()"

text \<open>A loaded model is emptied at once, a missing one is a failure, and a model that is being loaded is
  emptied when it is ready, as the model \<open>m'\<close> it is then, or reported as a failure when it goes away; the completion is posted
  once in each case.\<close>

lemma bookmarks_are_removed_once:
  "\<exists>r. RemoveAllUserBookmarksIOS P c (BookmarkRemoverHelper f None) = Inr r \<and> reported c False r"
  "bookmarks_loaded P m \<Longrightarrow> \<exists>r. RemoveAllUserBookmarksIOS P c (BookmarkRemoverHelper f (Some m)) = Inr r \<and>
     reported c (fst (RemoveAllUserBookmarks P m f)) r \<and> bookmark_model r = Some (fst (snd (RemoveAllUserBookmarks P m f)))"
  "\<not> bookmarks_loaded P m \<Longrightarrow> \<exists>r s. RemoveAllUserBookmarksIOS P c (BookmarkRemoverHelper f (Some m)) = Inr r \<and>
     observes_model r \<and> completions_posted r = [] \<and> BookmarkModelLoaded P m' r = Inr s \<and>
     reported c (fst (RemoveAllUserBookmarks P m' f)) s \<and> reported c False (BookmarkModelBeingDeleted r)"
  by (simp_all add: bookmark_defs reported_def split: prod.split)

end
