(* ===== verification/Browser_About_Rewriter.thy ===== *)
theory Browser_About_Rewriter
  imports Offline_Url_Utils
begin

text \<open>
  The rewriting of \<open>about:\<close> and \<open>chrome:\<close> URLs before a navigation,
  \<open>chrome/browser/browser_about_rewriter.{h,cc}\<close>.  \<open>GURL\<close> is the record \<open>offline_ops\<close> with its
  origin and the replacement of one component; \<open>fixup\<close> is \<open>url_formatter::FixupURL\<close>, which turns
  \<open>about:foo\<close> into \<open>chrome://foo/\<close>.  The pointer to the URL is the second component of the result, whose
  first says that no other handler may change the URL.

  The lemmas show which URLs are changed and into what, and that a URL is fixed up in any case.
\<close>

record 'u about_ops = "'u offline_ops" +
  origin_text :: "'u \<Rightarrow> string"
  replace_scheme :: "string \<Rightarrow> 'u \<Rightarrow> 'u"
  replace_host :: "string \<Rightarrow> 'u \<Rightarrow> 'u"
  fixup :: "'u \<Rightarrow> 'u"

definition kAboutScheme :: string where "kAboutScheme = ''about''"
definition kAboutBlankPath :: string where "kAboutBlankPath = ''blank''"
definition kChromeUINewTabURL :: string where "kChromeUINewTabURL = ''chrome://newtab/''"
definition kChromeUIChromeURLsHost :: string where "kChromeUIChromeURLsHost = ''chrome-urls''"
definition kChromeUISyncInternalsHost :: string where "kChromeUISyncInternalsHost = ''sync-internals''"

definition kHostReplacements :: "(string \<times> string) list" where
  "kHostReplacements = [(''about'', kChromeUIChromeURLsHost), (''sync'', kChromeUISyncInternalsHost)]"

fun replaced_host :: "(string \<times> string) list \<Rightarrow> string \<Rightarrow> string" where
  "replaced_host [] h = h"
| "replaced_host ((old_host_name, new_host_name) # rs) h = (if h \<noteq> old_host_name then replaced_host rs h else new_host_name)"

definition WillHandleWebBrowserAboutURL :: "('u, 'z) about_ops_scheme \<Rightarrow> 'u \<Rightarrow> (bool \<times> 'u) outcome" where
  "WillHandleWebBrowserAboutURL P original_url =
     (let url = fixup P original_url
      in dcheck (url_scheme P url \<noteq> kAboutScheme \<or> url_path P url = kAboutBlankPath)
           (if url_scheme P url \<noteq> kChromeUIScheme then Inr (False, url)
            else if origin_text P url = kChromeUINewTabURL then
              let url = replace_scheme P kAboutScheme url in Inr (url \<noteq> original_url, url)
            else
              let url = replace_host P (replaced_host kHostReplacements (url_host P url)) url in Inr (False, url)))"

section \<open>What is rewritten\<close>

text \<open>What \<open>FixupURL\<close> and the replacements promise.\<close>

definition about_laws :: "('u, 'z) about_ops_scheme \<Rightarrow> bool" where
  "about_laws P \<longleftrightarrow>
     (\<forall>u. url_scheme P (fixup P u) = kAboutScheme \<longrightarrow> url_path P (fixup P u) = kAboutBlankPath) \<and>
     (\<forall>s u. url_scheme P (replace_scheme P s u) = s) \<and>
     (\<forall>h u. url_host P (replace_host P h u) = h \<and> url_scheme P (replace_host P h u) = url_scheme P u) \<and>
     (\<forall>u. replace_host P (url_host P u) u = u)"

lemma replaced_host_table:
  "replaced_host kHostReplacements h =
     (if h = ''about'' then ''chrome-urls'' else if h = ''sync'' then ''sync-internals'' else h)"
  by (simp add: kHostReplacements_def kChromeUIChromeURLsHost_def kChromeUISyncInternalsHost_def)

lemma about_url_never_faults:
  assumes "about_laws P"
  shows "\<exists>r. WillHandleWebBrowserAboutURL P u = Inr r"
  using assms by (auto simp: WillHandleWebBrowserAboutURL_def about_laws_def Let_def)

text \<open>URLs of other schemes are fixed up only; \<open>chrome://newtab\<close> becomes an \<open>about:\<close> URL; other \<open>chrome:\<close>
  URLs keep their host but for the two that have another name.\<close>

lemma about_url_rewritten:
  assumes "about_laws P" and "WillHandleWebBrowserAboutURL P u = Inr (handled, url)"
  shows "url_scheme P (fixup P u) \<noteq> ''chrome'' \<Longrightarrow> \<not> handled \<and> url = fixup P u"
    and "url_scheme P (fixup P u) = ''chrome'' \<Longrightarrow> origin_text P (fixup P u) = kChromeUINewTabURL \<Longrightarrow>
      url_scheme P url = ''about'' \<and> (handled \<longleftrightarrow> url \<noteq> u)"
    and "url_scheme P (fixup P u) = ''chrome'' \<Longrightarrow> origin_text P (fixup P u) \<noteq> kChromeUINewTabURL \<Longrightarrow>
      \<not> handled \<and> url_scheme P url = ''chrome'' \<and>
      url_host P url = (if url_host P (fixup P u) = ''about'' then ''chrome-urls''
        else if url_host P (fixup P u) = ''sync'' then ''sync-internals'' else url_host P (fixup P u))"
  using assms
  by (auto simp: WillHandleWebBrowserAboutURL_def about_laws_def replaced_host_table Let_def
      kChromeUIScheme_def kAboutScheme_def split: if_splits)

text \<open>A host that has no other name leaves the URL as the fixup made it.\<close>

lemma other_hosts_are_kept:
  assumes "about_laws P" and "url_scheme P (fixup P u) = ''chrome''" and "origin_text P (fixup P u) \<noteq> kChromeUINewTabURL"
    and "url_host P (fixup P u) \<notin> {''about'', ''sync''}"
  shows "WillHandleWebBrowserAboutURL P u = Inr (False, fixup P u)"
  using assms
  by (auto simp: WillHandleWebBrowserAboutURL_def about_laws_def replaced_host_table Let_def
      kChromeUIScheme_def kAboutScheme_def)

end
