(* ===== verification/Browser_Signin_Policy.thy ===== *)
theory Browser_Signin_Policy
  imports Prelude
begin

text \<open>
  The enterprise policy of browser sign-in, \<open>chrome/browser/policy/browser_signin_policy_handler.cc\<close>
  with \<open>chrome/browser/policy/policy_util.h\<close>, and the predicates of the incognito policy
  (\<open>chrome/browser/policy/policy_util.mm\<close>).  The value of a policy is a \<open>base::Value\<close>, an integer or
  something else; the check of its schema (\<open>components/policy\<close>) is the argument \<open>schema_ok\<close>.

  The lemmas show that sign-in is never forced, and that a value the check lets through is applied
  without a fault exactly if it is one of the modes.
\<close>

datatype BrowserSigninMode = kDisabled | kEnabled | kForced

fun signin_value :: "BrowserSigninMode \<Rightarrow> int" where
  "signin_value kDisabled = 0"
| "signin_value kEnabled = 1"
| "signin_value kForced = 2"

datatype policy_value = Int_value int | Other_value

datatype policy_error = Schema_error | Level_error

definition GetIfInt :: "policy_value \<Rightarrow> int option" where
  "GetIfInt v = (case v of Int_value i \<Rightarrow> Some i | Other_value \<Rightarrow> None)"

text \<open>The result and the errors that are added.\<close>

definition CheckPolicySettings :: "(policy_value \<Rightarrow> bool) \<Rightarrow> policy_value option \<Rightarrow> bool \<times> policy_error list" where
  "CheckPolicySettings schema_ok policy =
     (case policy of
        None \<Rightarrow> (True, [])
      | Some v \<Rightarrow>
          if \<not> schema_ok v then (False, [Schema_error])
          else case GetIfInt v of
                 None \<Rightarrow> (True, [])
               | Some i \<Rightarrow> if i = signin_value kForced then (True, [Level_error]) else (True, []))"

text \<open>The value set for \<open>kSigninAllowedByPolicy\<close>, if any.\<close>

definition ApplyPolicySettings :: "policy_value option \<Rightarrow> bool option outcome" where
  "ApplyPolicySettings policy =
     (case policy of
        None \<Rightarrow> Inr None
      | Some v \<Rightarrow>
          (case GetIfInt v of
             None \<Rightarrow> Inr None
           | Some i \<Rightarrow>
               if i < signin_value kDisabled \<or> signin_value kForced < i then Inl Notreached
               else if i = signin_value kForced then Inr (Some True)
               else if i = signin_value kEnabled then Inr (Some True)
               else Inr (Some False)))"

section \<open>Incognito\<close>

datatype IncognitoModePrefs = Incognito_enabled | Incognito_disabled | Incognito_forced

fun incognito_value :: "IncognitoModePrefs \<Rightarrow> int" where
  "incognito_value Incognito_enabled = 0"
| "incognito_value Incognito_disabled = 1"
| "incognito_value Incognito_forced = 2"

text \<open>The preference service is the managed flag and the value of \<open>kIncognitoModeAvailability\<close>.\<close>

definition IsIncognitoPolicyApplied :: "bool \<Rightarrow> (bool \<times> int) option \<Rightarrow> bool" where
  "IsIncognitoPolicyApplied enterprise_policy_enabled pref_service =
     (case pref_service of None \<Rightarrow> False | Some (managed, _) \<Rightarrow> enterprise_policy_enabled \<and> managed)"

definition IsIncognitoModeDisabled :: "bool \<Rightarrow> (bool \<times> int) option \<Rightarrow> bool" where
  "IsIncognitoModeDisabled enterprise_policy_enabled pref_service \<longleftrightarrow>
     IsIncognitoPolicyApplied enterprise_policy_enabled pref_service \<and>
     map_option snd pref_service = Some (incognito_value Incognito_disabled)"

definition IsIncognitoModeForced :: "bool \<Rightarrow> (bool \<times> int) option \<Rightarrow> bool" where
  "IsIncognitoModeForced enterprise_policy_enabled pref_service \<longleftrightarrow>
     IsIncognitoPolicyApplied enterprise_policy_enabled pref_service \<and>
     map_option snd pref_service = Some (incognito_value Incognito_forced)"

section \<open>Lemmas\<close>

text \<open>Every mode is applied without a fault, forced sign-in as enabled; forcing it is reported as an error
  although the check passes.\<close>

lemma modes_are_applied:
  "ApplyPolicySettings (Some (Int_value (signin_value mode))) = Inr (Some (mode \<noteq> kDisabled))"
  by (cases mode) (simp_all add: ApplyPolicySettings_def GetIfInt_def)

lemma forced_signin_is_reported:
  "schema_ok (Int_value (signin_value mode)) \<Longrightarrow>
     CheckPolicySettings schema_ok (Some (Int_value (signin_value mode))) =
       (True, if mode = kForced then [Level_error] else [])"
  by (cases mode) (simp_all add: CheckPolicySettings_def GetIfInt_def)

lemma ApplyPolicySettings_faults:
  "ApplyPolicySettings (Some v) = Inl e \<longleftrightarrow> e = Notreached \<and> (\<exists>i. v = Int_value i \<and> (\<forall>mode. i \<noteq> signin_value mode))"
proof -
  have "(\<forall>mode. i \<noteq> signin_value mode) \<longleftrightarrow> i < 0 \<or> 2 < i" for i
  proof
    assume "\<forall>mode. i \<noteq> signin_value mode"
    then have "i \<noteq> 0" "i \<noteq> 1" "i \<noteq> 2" by (metis signin_value.simps)+
    then show "i < 0 \<or> 2 < i" by arith
  next
    assume "i < 0 \<or> 2 < i"
    then have "i \<noteq> signin_value mode" for mode by (cases mode) auto
    then show "\<forall>mode. i \<noteq> signin_value mode" by simp
  qed
  then show ?thesis by (auto simp: ApplyPolicySettings_def GetIfInt_def split: policy_value.split)
qed

lemma incognito_not_both:
  "\<not> (IsIncognitoModeDisabled e p \<and> IsIncognitoModeForced e p)"
  by (auto simp: IsIncognitoModeDisabled_def IsIncognitoModeForced_def)

end
