(* ===== verification/Page_Display_State.thy ===== *)
theory Page_Display_State
  imports Complex_Main Prelude "HOL-Library.AList"
begin

text \<open>
  The scroll position and zoom of a page, \<open>web/ui/page_display_state.mm\<close>, and the kinds of user
  agent with their names in archives, \<open>web/common/user_agent.mm\<close>.

  A \<open>CGFloat\<close> is not a number (\<open>NAN\<close>, the mark of a missing value) or a real number; rounding is
  not modelled.  The dictionary of a serialization is an association list.

  The lemmas: \<open>operator==\<close> is equality, a state is read back from its serialization, a missing
  key gives an invalid state, and the effective offset does what its comment says.
\<close>

section \<open>Floats\<close>

datatype cgfloat = NAN | Float real

fun isnan :: "cgfloat \<Rightarrow> bool" where
  "isnan NAN = True"
| "isnan (Float x) = False"

text \<open>Comparisons with a value that is not a number are false.\<close>

fun float_eq :: "cgfloat \<Rightarrow> cgfloat \<Rightarrow> bool" where
  "float_eq (Float x) (Float y) = (x = y)"
| "float_eq _ _ = False"

fun float_le :: "cgfloat \<Rightarrow> cgfloat \<Rightarrow> bool" where
  "float_le (Float x) (Float y) = (x \<le> y)"
| "float_le _ _ = False"

fun float_add :: "cgfloat \<Rightarrow> cgfloat \<Rightarrow> cgfloat" where
  "float_add (Float x) (Float y) = Float (x + y)"
| "float_add _ _ = NAN"

fun float_sub :: "cgfloat \<Rightarrow> cgfloat \<Rightarrow> cgfloat" where
  "float_sub (Float x) (Float y) = Float (x - y)"
| "float_sub _ _ = NAN"

record CGPoint =
  point_x :: cgfloat
  point_y :: cgfloat

record EdgeInsets =
  edge_top :: cgfloat
  edge_left :: cgfloat
  edge_bottom :: cgfloat
  edge_right :: cgfloat

section \<open>Scroll and zoom state\<close>

record PageScrollState =
  content_offset :: CGPoint
  content_inset :: EdgeInsets

record PageZoomState =
  minimum_zoom_scale :: cgfloat
  maximum_zoom_scale :: cgfloat
  zoom_scale :: cgfloat

record PageDisplayState =
  scroll_state :: PageScrollState
  zoom_state :: PageZoomState

definition kInvalidContentOffset :: CGPoint where
  "kInvalidContentOffset = \<lparr>point_x = NAN, point_y = NAN\<rparr>"

definition kInvalidContentInset :: EdgeInsets where
  "kInvalidContentInset = \<lparr>edge_top = NAN, edge_left = NAN, edge_bottom = NAN, edge_right = NAN\<rparr>"

definition StateValuesAreEqual :: "cgfloat \<Rightarrow> cgfloat \<Rightarrow> bool" where
  "StateValuesAreEqual value1 value2 = (if isnan value1 then isnan value2 else float_eq value1 value2)"

definition StateContentOffsetsAreEqual :: "CGPoint \<Rightarrow> CGPoint \<Rightarrow> bool" where
  "StateContentOffsetsAreEqual offset1 offset2 \<longleftrightarrow>
     StateValuesAreEqual (point_x offset1) (point_x offset2) \<and>
     StateValuesAreEqual (point_y offset1) (point_y offset2)"

definition StateContentInsetsAreEqual :: "EdgeInsets \<Rightarrow> EdgeInsets \<Rightarrow> bool" where
  "StateContentInsetsAreEqual inset1 inset2 \<longleftrightarrow>
     StateValuesAreEqual (edge_top inset1) (edge_top inset2) \<and>
     StateValuesAreEqual (edge_left inset1) (edge_left inset2) \<and>
     StateValuesAreEqual (edge_bottom inset1) (edge_bottom inset2) \<and>
     StateValuesAreEqual (edge_right inset1) (edge_right inset2)"

definition IsContentOffsetValid :: "CGPoint \<Rightarrow> bool" where
  "IsContentOffsetValid offset \<longleftrightarrow> \<not> isnan (point_x offset) \<and> \<not> isnan (point_y offset)"

definition IsContentInsetValid :: "EdgeInsets \<Rightarrow> bool" where
  "IsContentInsetValid inset \<longleftrightarrow>
     \<not> isnan (edge_top inset) \<and> \<not> isnan (edge_left inset) \<and> \<not> isnan (edge_bottom inset) \<and>
     \<not> isnan (edge_right inset)"

definition new_PageScrollState :: PageScrollState where
  "new_PageScrollState = \<lparr>content_offset = kInvalidContentOffset, content_inset = kInvalidContentInset\<rparr>"

definition PageScrollState_IsValid :: "PageScrollState \<Rightarrow> bool" where
  "PageScrollState_IsValid s \<longleftrightarrow> IsContentOffsetValid (content_offset s) \<and> IsContentInsetValid (content_inset s)"

definition GetEffectiveContentOffsetForContentInset :: "PageScrollState \<Rightarrow> EdgeInsets \<Rightarrow> CGPoint" where
  "GetEffectiveContentOffsetForContentInset s inset =
     \<lparr>point_x = float_sub (float_add (point_x (content_offset s)) (edge_left (content_inset s))) (edge_left inset),
      point_y = float_sub (float_add (point_y (content_offset s)) (edge_top (content_inset s))) (edge_top inset)\<rparr>"

definition PageScrollState_eq :: "PageScrollState \<Rightarrow> PageScrollState \<Rightarrow> bool" where
  "PageScrollState_eq s other \<longleftrightarrow>
     StateContentOffsetsAreEqual (content_offset s) (content_offset other) \<and>
     StateContentInsetsAreEqual (content_inset s) (content_inset other)"

definition new_PageZoomState :: PageZoomState where
  "new_PageZoomState = \<lparr>minimum_zoom_scale = NAN, maximum_zoom_scale = NAN, zoom_scale = NAN\<rparr>"

definition PageZoomState_IsValid :: "PageZoomState \<Rightarrow> bool" where
  "PageZoomState_IsValid z \<longleftrightarrow>
     \<not> isnan (minimum_zoom_scale z) \<and> \<not> isnan (maximum_zoom_scale z) \<and> \<not> isnan (zoom_scale z) \<and>
     float_le (minimum_zoom_scale z) (zoom_scale z) \<and> float_le (zoom_scale z) (maximum_zoom_scale z)"

definition GetMinMaxZoomDifference :: "PageZoomState \<Rightarrow> cgfloat" where
  "GetMinMaxZoomDifference z = float_sub (maximum_zoom_scale z) (minimum_zoom_scale z)"

definition PageZoomState_eq :: "PageZoomState \<Rightarrow> PageZoomState \<Rightarrow> bool" where
  "PageZoomState_eq z other \<longleftrightarrow>
     StateValuesAreEqual (minimum_zoom_scale z) (minimum_zoom_scale other) \<and>
     StateValuesAreEqual (maximum_zoom_scale z) (maximum_zoom_scale other) \<and>
     StateValuesAreEqual (zoom_scale z) (zoom_scale other)"

definition new_PageDisplayState :: PageDisplayState where
  "new_PageDisplayState = \<lparr>scroll_state = new_PageScrollState, zoom_state = new_PageZoomState\<rparr>"

definition PageDisplayState_IsValid :: "PageDisplayState \<Rightarrow> bool" where
  "PageDisplayState_IsValid d \<longleftrightarrow> PageScrollState_IsValid (scroll_state d) \<and> PageZoomState_IsValid (zoom_state d)"

definition PageDisplayState_eq :: "PageDisplayState \<Rightarrow> PageDisplayState \<Rightarrow> bool" where
  "PageDisplayState_eq d other \<longleftrightarrow>
     PageScrollState_eq (scroll_state d) (scroll_state other) \<and> PageZoomState_eq (zoom_state d) (zoom_state other)"

section \<open>Serialization\<close>

datatype display_value = Point_value CGPoint | Insets_value EdgeInsets | Number_value cgfloat

type_synonym display_dictionary = "(string \<times> display_value) list"

definition kContentOffsetKey :: string where "kContentOffsetKey = ''contentOffset''"
definition kContentInsetKey :: string where "kContentInsetKey = ''contentInset''"
definition kMinZoomKey :: string where "kMinZoomKey = ''minZoom''"
definition kMaxZoomKey :: string where "kMaxZoomKey = ''maxZoom''"
definition kZoomKey :: string where "kZoomKey = ''zoom''"

lemmas display_key_defs = kContentOffsetKey_def kContentInsetKey_def kMinZoomKey_def kMaxZoomKey_def kZoomKey_def

text \<open>A value of another class does not answer the message that reads it: a fault.\<close>

definition GetFloatValue :: "string \<Rightarrow> display_dictionary \<Rightarrow> cgfloat outcome" where
  "GetFloatValue key serialization =
     (case map_of serialization key of None \<Rightarrow> Inr NAN | Some (Number_value x) \<Rightarrow> Inr x | Some _ \<Rightarrow> Inl Range_error)"

definition GetContentOffset :: "display_dictionary \<Rightarrow> CGPoint outcome" where
  "GetContentOffset serialization =
     (case map_of serialization kContentOffsetKey of
        None \<Rightarrow> Inr kInvalidContentOffset | Some (Point_value p) \<Rightarrow> Inr p | Some _ \<Rightarrow> Inl Range_error)"

definition GetContentInset :: "display_dictionary \<Rightarrow> EdgeInsets outcome" where
  "GetContentInset serialization =
     (case map_of serialization kContentInsetKey of
        None \<Rightarrow> Inr kInvalidContentInset | Some (Insets_value i) \<Rightarrow> Inr i | Some _ \<Rightarrow> Inl Range_error)"

definition PageDisplayState_of_serialization :: "display_dictionary \<Rightarrow> PageDisplayState outcome" where
  "PageDisplayState_of_serialization serialization =
     obind (GetContentOffset serialization) (\<lambda>offset.
     obind (GetContentInset serialization) (\<lambda>inset.
     obind (GetFloatValue kMinZoomKey serialization) (\<lambda>min_zoom.
     obind (GetFloatValue kMaxZoomKey serialization) (\<lambda>max_zoom.
     obind (GetFloatValue kZoomKey serialization) (\<lambda>zoom.
     Inr \<lparr>scroll_state = \<lparr>content_offset = offset, content_inset = inset\<rparr>,
          zoom_state = \<lparr>minimum_zoom_scale = min_zoom, maximum_zoom_scale = max_zoom, zoom_scale = zoom\<rparr>\<rparr>)))))"

definition GetSerialization :: "PageDisplayState \<Rightarrow> display_dictionary" where
  "GetSerialization d =
     [(kContentOffsetKey, Point_value (content_offset (scroll_state d))),
      (kContentInsetKey, Insets_value (content_inset (scroll_state d))),
      (kMinZoomKey, Number_value (minimum_zoom_scale (zoom_state d))),
      (kMaxZoomKey, Number_value (maximum_zoom_scale (zoom_state d))),
      (kZoomKey, Number_value (zoom_scale (zoom_state d)))]"

section \<open>Lemmas\<close>

lemma StateValuesAreEqual_eq: "StateValuesAreEqual x y \<longleftrightarrow> x = y"
  by (cases x; cases y) (simp_all add: StateValuesAreEqual_def)

lemma PageDisplayState_eq_equality: "PageDisplayState_eq d other \<longleftrightarrow> d = other"
  by (auto simp: PageDisplayState_eq_def PageScrollState_eq_def PageZoomState_eq_def StateValuesAreEqual_eq
      StateContentOffsetsAreEqual_def StateContentInsetsAreEqual_def
      intro!: PageDisplayState.equality PageScrollState.equality PageZoomState.equality CGPoint.equality
        EdgeInsets.equality)

lemma display_state_round_trip: "PageDisplayState_of_serialization (GetSerialization d) = Inr d"
  by (simp add: PageDisplayState_of_serialization_def GetSerialization_def GetContentOffset_def
      GetContentInset_def GetFloatValue_def display_key_defs)

lemma missing_key_is_invalid:
  assumes "PageDisplayState_of_serialization serialization = Inr d"
    and "key \<in> {kContentOffsetKey, kContentInsetKey, kMinZoomKey, kMaxZoomKey, kZoomKey}"
    and "map_of serialization key = None"
  shows "\<not> PageDisplayState_IsValid d"
  using assms
  by (auto simp: PageDisplayState_of_serialization_def obind_eq_Inr GetContentOffset_def GetContentInset_def
      GetFloatValue_def PageDisplayState_IsValid_def PageScrollState_IsValid_def PageZoomState_IsValid_def
      IsContentOffsetValid_def IsContentInsetValid_def kInvalidContentOffset_def kInvalidContentInset_def)

text \<open>The offset that is applied under another inset shows the same content: offset plus inset
  is kept.\<close>

lemma effective_offset_shows_the_same_content:
  assumes "PageScrollState_IsValid s" and "IsContentInsetValid inset"
  shows "let p = GetEffectiveContentOffsetForContentInset s inset in
    float_add (point_x p) (edge_left inset) = float_add (point_x (content_offset s)) (edge_left (content_inset s)) \<and>
    float_add (point_y p) (edge_top inset) = float_add (point_y (content_offset s)) (edge_top (content_inset s))"
  using assms
  by (cases "point_x (content_offset s)"; cases "point_y (content_offset s)"; cases "edge_left (content_inset s)";
      cases "edge_top (content_inset s)"; cases "edge_left inset"; cases "edge_top inset")
    (simp_all add: GetEffectiveContentOffsetForContentInset_def PageScrollState_IsValid_def
      IsContentOffsetValid_def IsContentInsetValid_def)

section \<open>User agents\<close>

datatype UserAgentType = UA_NONE | UA_AUTOMATIC | UA_MOBILE | UA_DESKTOP

text \<open>\<open>use_default\<close> is \<open>features::UseWebClientDefaultUserAgent()\<close>.\<close>

definition GetUserAgentTypeDescription :: "bool \<Rightarrow> UserAgentType \<Rightarrow> string outcome" where
  "GetUserAgentTypeDescription use_default t =
     (case t of
        UA_AUTOMATIC \<Rightarrow> dcheck use_default (Inr ''AUTOMATIC'')
      | UA_NONE \<Rightarrow> Inr ''NONE''
      | UA_MOBILE \<Rightarrow> Inr ''MOBILE''
      | UA_DESKTOP \<Rightarrow> Inr ''DESKTOP'')"

definition GetUserAgentTypeWithDescription :: "string \<Rightarrow> UserAgentType" where
  "GetUserAgentTypeWithDescription description =
     (if description = ''MOBILE'' then UA_MOBILE
      else if description = ''DESKTOP'' then UA_DESKTOP
      else if description = ''AUTOMATIC'' then UA_AUTOMATIC
      else UA_NONE)"

lemma user_agent_round_trip:
  "t \<noteq> UA_AUTOMATIC \<or> use_default \<Longrightarrow>
     \<exists>d. GetUserAgentTypeDescription use_default t = Inr d \<and> GetUserAgentTypeWithDescription d = t"
  by (cases t) (simp_all add: GetUserAgentTypeDescription_def GetUserAgentTypeWithDescription_def)

end
