(* ===== verification/Navigation_Item.thy ===== *)
theory Navigation_Item
  imports Error_Retry Referrer_Util Page_Display_State "HOL-Library.Word"
begin

text \<open>
  A navigation item, \<open>web/navigation/navigation_item_impl.{h,mm}\<close>, the smoothing of its time stamp,
  \<open>web/navigation/time_smoother.{h,cc}\<close>, and the URL rewriters that are applied when an item is
  created, \<open>web/browser_url_rewriter_impl.mm\<close>.

  The favicon and the SSL status of an item are set by other components and are left out.  A
  \<open>PageTransition\<close> is a 32-bit word; the values of its enumeration, \<open>gfx\<close>, \<open>url_formatter\<close> and
  the feature flags are fields of \<open>nav_platform\<close>.  A time is a number of microseconds.

  The lemmas: the virtual URL is the URL exactly if none was set, stored titles are bounded, the
  title that is displayed never depends on what was cached, and smoothed times increase while
  the clock stands still.
\<close>

section \<open>Platform\<close>

text \<open>A rewriter returns whether it handled the URL, and the URL it leaves.\<close>

type_synonym 'u url_rewriter = "'u \<Rightarrow> bool \<times> 'u"

record 'u nav_platform = "'u web_platform" +
  url_origin :: "'u \<Rightarrow> string"
  equals_ignoring_ref :: "'u \<Rightarrow> 'u \<Rightarrow> bool"
  url_content :: "'u \<Rightarrow> string"
  truncate_string :: "nat \<Rightarrow> string \<Rightarrow> string"
  format_url :: "'u \<Rightarrow> string"
  elide_string :: "nat \<Rightarrow> string \<Rightarrow> string"
  client_url_rewriters :: "'u url_rewriter list"
  running_on_ios13_or_later :: bool
  create_pending_item_for_post_form_submission :: bool
  use_web_client_default_user_agent :: bool
  reduce_session_size :: bool
  page_transition_link :: "32 word"
  page_transition_reload :: "32 word"
  page_transition_form_submit :: "32 word"
  page_transition_forward_back :: "32 word"
  page_transition_core_type_is :: "32 word \<Rightarrow> 32 word \<Rightarrow> bool"
  page_transition_is_redirect :: "32 word \<Rightarrow> bool"

definition is_empty_url :: "('u, 'z) nav_platform_scheme \<Rightarrow> 'u \<Rightarrow> bool" where
  "is_empty_url P u \<longleftrightarrow> spec P u = []"

section \<open>URL rewriters\<close>

definition kViewSourceScheme :: string where "kViewSourceScheme = ''view-source''"

definition HandleViewSource :: "('u, 'z) nav_platform_scheme \<Rightarrow> 'u url_rewriter" where
  "HandleViewSource P url =
     (if url_scheme P url = kViewSourceScheme then (True, gurl P (url_content P url)) else (False, url))"

fun RewriteURLWithWriters :: "'u url_rewriter list \<Rightarrow> 'u url_rewriter" where
  "RewriteURLWithWriters [] url = (False, url)"
| "RewriteURLWithWriters (rewriter # rewriters) url =
     (let (rewritten, url') = rewriter url in
      if rewritten then (True, url') else RewriteURLWithWriters rewriters url')"

text \<open>The constructor lets the client add its rewriters before the one for \<open>view-source\<close>.\<close>

definition url_rewriters :: "('u, 'z) nav_platform_scheme \<Rightarrow> 'u url_rewriter list" where
  "url_rewriters P = client_url_rewriters P @ [HandleViewSource P]"

definition RewriteURLIfNecessary :: "('u, 'z) nav_platform_scheme \<Rightarrow> 'u url_rewriter" where
  "RewriteURLIfNecessary P url = RewriteURLWithWriters (url_rewriters P) url"

section \<open>Time smoother\<close>

record TimeSmoother =
  low_water_mark :: int
  high_water_mark :: int

definition new_TimeSmoother :: TimeSmoother where
  "new_TimeSmoother = \<lparr>low_water_mark = 0, high_water_mark = 0\<rparr>"

definition GetSmoothedTime :: "int \<Rightarrow> TimeSmoother \<Rightarrow> int \<times> TimeSmoother" where
  "GetSmoothedTime t m =
     (if low_water_mark m \<le> t \<and> t \<le> high_water_mark m
      then (high_water_mark m + 1, m\<lparr>high_water_mark := high_water_mark m + 1\<rparr>)
      else (t, \<lparr>low_water_mark = t, high_water_mark = t\<rparr>))"

section \<open>Navigation items\<close>

datatype NavigationInitiationType = INITIATION_NONE | BROWSER_INITIATED | RENDERER_INITIATED

record 'u nav_item =
  unique_id :: int
  original_request_url :: 'u
  item_url :: 'u
  item_referrer :: "'u Referrer"
  virtual_url :: 'u
  item_title :: string
  page_display_state :: PageDisplayState
  transition_type :: "32 word"
  timestamp :: int
  user_agent_type :: UserAgentType
  http_request_headers :: "(string \<times> string) list option"
  serialized_state_object :: "string option"
  is_created_from_hash_change :: bool
  should_skip_repost_form_confirmation :: bool
  should_skip_serialization :: bool
  post_data :: "string option"
  error_retry_state_machine :: "'u ErrorRetryStateMachine"
  navigation_initiation_type :: NavigationInitiationType
  is_untrusted :: bool
  cached_display_title :: string
  is_upgraded_to_https :: bool

definition kMaxTitleLength :: nat where "kMaxTitleLength = 50"
definition kMaxTitleChars :: nat where "kMaxTitleChars = 4 * 1024"

definition empty_referrer :: "('u, 'z) nav_platform_scheme \<Rightarrow> 'u Referrer" where
  "empty_referrer P = \<lparr>referrer_url = empty_gurl P, referrer_policy = ReferrerPolicyDefault\<rparr>"

text \<open>The first unique identifier is 1.\<close>

definition GetUniqueIDInConstructor :: "int \<Rightarrow> int" where
  "GetUniqueIDInConstructor unique_id_counter = unique_id_counter + 1"

definition new_nav_item :: "('u, 'z) nav_platform_scheme \<Rightarrow> int \<Rightarrow> 'u nav_item" where
  "new_nav_item P i =
     \<lparr>unique_id = i, original_request_url = empty_gurl P, item_url = empty_gurl P,
      item_referrer = empty_referrer P, virtual_url = empty_gurl P, item_title = [],
      page_display_state = new_PageDisplayState, transition_type = page_transition_link P, timestamp = 0,
      user_agent_type = UA_NONE, http_request_headers = None, serialized_state_object = None,
      is_created_from_hash_change = False, should_skip_repost_form_confirmation = False,
      should_skip_serialization = False, post_data = None,
      error_retry_state_machine = new_ErrorRetryStateMachine P,
      navigation_initiation_type = INITIATION_NONE, is_untrusted = False, cached_display_title = [],
      is_upgraded_to_https = False\<rparr>"

definition SetOriginalRequestURL :: "'u \<Rightarrow> 'u nav_item \<Rightarrow> 'u nav_item" where
  "SetOriginalRequestURL url item = item\<lparr>original_request_url := url\<rparr>"

definition SetItemURL :: "'u \<Rightarrow> 'u nav_item \<Rightarrow> 'u nav_item" where
  "SetItemURL url item =
     item\<lparr>item_url := url, cached_display_title := [],
          error_retry_state_machine := SetURL (error_retry_state_machine item) url\<rparr>"

definition SetReferrer :: "'u Referrer \<Rightarrow> 'u nav_item \<Rightarrow> 'u nav_item" where
  "SetReferrer referrer item = item\<lparr>item_referrer := referrer\<rparr>"

definition SetVirtualURL :: "('u, 'z) nav_platform_scheme \<Rightarrow> 'u \<Rightarrow> 'u nav_item \<Rightarrow> 'u nav_item" where
  "SetVirtualURL P url item =
     item\<lparr>virtual_url := (if url = item_url item then empty_gurl P else url), cached_display_title := []\<rparr>"

definition GetVirtualURL :: "('u, 'z) nav_platform_scheme \<Rightarrow> 'u nav_item \<Rightarrow> 'u" where
  "GetVirtualURL P item = (if is_empty_url P (virtual_url item) then item_url item else virtual_url item)"

definition SetTitle :: "('u, 'z) nav_platform_scheme \<Rightarrow> string \<Rightarrow> 'u nav_item \<Rightarrow> 'u nav_item" where
  "SetTitle P title item =
     (if item_title item = title then item
      else item\<lparr>item_title := (if length title > kMaxTitleLength then truncate_string P kMaxTitleLength title
                               else title), cached_display_title := []\<rparr>)"

definition SetPageDisplayState :: "PageDisplayState \<Rightarrow> 'u nav_item \<Rightarrow> 'u nav_item" where
  "SetPageDisplayState d item = item\<lparr>page_display_state := d\<rparr>"

text \<open>The part of the title behind the last slash, unless the slash is its last character.\<close>

definition file_name_of :: "string \<Rightarrow> string" where
  "file_name_of title =
     (let file_name = rev (takeWhile (\<lambda>c. c \<noteq> CHR ''/'') (rev title))
      in if CHR ''/'' \<in> set title \<and> file_name \<noteq> [] then file_name else title)"

definition GetDisplayTitleForURL :: "('u, 'z) nav_platform_scheme \<Rightarrow> 'u \<Rightarrow> string" where
  "GetDisplayTitleForURL P url =
     (if is_empty_url P url then []
      else
        let title = format_url P url;
            title' = (if url_scheme P url = ''file'' then file_name_of title else title)
        in elide_string P kMaxTitleChars title')"

definition GetTitleForDisplay :: "('u, 'z) nav_platform_scheme \<Rightarrow> 'u nav_item \<Rightarrow> string \<times> 'u nav_item" where
  "GetTitleForDisplay P item =
     (if item_title item \<noteq> [] then (item_title item, item)
      else if cached_display_title item \<noteq> [] then (cached_display_title item, item)
      else
        let t = GetDisplayTitleForURL P
                  (if url_scheme P (item_url item) = ''file'' then item_url item else GetVirtualURL P item)
        in (t, item\<lparr>cached_display_title := t\<rparr>))"

definition SetTransitionType :: "32 word \<Rightarrow> 'u nav_item \<Rightarrow> 'u nav_item" where
  "SetTransitionType t item = item\<lparr>transition_type := t\<rparr>"

definition SetTimestamp :: "int \<Rightarrow> 'u nav_item \<Rightarrow> 'u nav_item" where
  "SetTimestamp t item = item\<lparr>timestamp := t\<rparr>"

definition SetUserAgentType ::
    "('u, 'z) nav_platform_scheme \<Rightarrow> UserAgentType \<Rightarrow> 'u nav_item \<Rightarrow> 'u nav_item outcome" where
  "SetUserAgentType P t item =
     obind (URLNeedsUserAgentType P (item_url item)) (\<lambda>needs.
     dcheck (\<not> needs \<longleftrightarrow> t = UA_NONE) (Inr (item\<lparr>user_agent_type := t\<rparr>)))"

definition SetUntrusted :: "'u nav_item \<Rightarrow> 'u nav_item" where
  "SetUntrusted item = item\<lparr>is_untrusted := True\<rparr>"

definition HasPostData :: "'u nav_item \<Rightarrow> bool" where
  "HasPostData item \<longleftrightarrow> post_data item \<noteq> None"

text \<open>\<open>addEntriesFromDictionary:\<close> sets the keys of the added dictionary.\<close>

definition AddHttpRequestHeaders :: "(string \<times> string) list option \<Rightarrow> 'u nav_item \<Rightarrow> 'u nav_item" where
  "AddHttpRequestHeaders additional_headers item =
     (case additional_headers of
        None \<Rightarrow> item
      | Some added \<Rightarrow>
          (case http_request_headers item of
             Some headers \<Rightarrow>
               item\<lparr>http_request_headers := Some (foldl (\<lambda>h (k, v). AList.update k v h) headers added)\<rparr>
           | None \<Rightarrow> item\<lparr>http_request_headers := Some added\<rparr>))"

definition RemoveHttpRequestHeaderForKey :: "string option \<Rightarrow> 'u nav_item \<Rightarrow> 'u nav_item outcome" where
  "RemoveHttpRequestHeaderForKey key item =
     (case key of
        None \<Rightarrow> Inl Dcheck_failed
      | Some k \<Rightarrow>
          let headers = map_option (AList.delete k) (http_request_headers item)
          in Inr (item\<lparr>http_request_headers := (if headers = None \<or> headers = Some [] then None else headers)\<rparr>))"

definition ResetHttpRequestHeaders :: "'u nav_item \<Rightarrow> 'u nav_item" where
  "ResetHttpRequestHeaders item = item\<lparr>http_request_headers := None\<rparr>"

definition SetUpgradedToHttps :: "'u nav_item \<Rightarrow> 'u nav_item" where
  "SetUpgradedToHttps item = item\<lparr>is_upgraded_to_https := True\<rparr>"

definition SetSerializedStateObject :: "string option \<Rightarrow> 'u nav_item \<Rightarrow> 'u nav_item" where
  "SetSerializedStateObject state_object item = item\<lparr>serialized_state_object := state_object\<rparr>"

definition SetNavigationInitiationType :: "NavigationInitiationType \<Rightarrow> 'u nav_item \<Rightarrow> 'u nav_item" where
  "SetNavigationInitiationType t item = item\<lparr>navigation_initiation_type := t\<rparr>"

definition SetIsCreatedFromHashChange :: "bool \<Rightarrow> 'u nav_item \<Rightarrow> 'u nav_item" where
  "SetIsCreatedFromHashChange hash_change item = item\<lparr>is_created_from_hash_change := hash_change\<rparr>"

definition SetShouldSkipRepostFormConfirmation :: "bool \<Rightarrow> 'u nav_item \<Rightarrow> 'u nav_item" where
  "SetShouldSkipRepostFormConfirmation skip item = item\<lparr>should_skip_repost_form_confirmation := skip\<rparr>"

definition SetShouldSkipSerialization :: "bool \<Rightarrow> 'u nav_item \<Rightarrow> 'u nav_item" where
  "SetShouldSkipSerialization skip item = item\<lparr>should_skip_serialization := skip\<rparr>"

definition SetPostData :: "string option \<Rightarrow> 'u nav_item \<Rightarrow> 'u nav_item" where
  "SetPostData data item = item\<lparr>post_data := data\<rparr>"

definition ResetForCommit :: "'u nav_item \<Rightarrow> 'u nav_item" where
  "ResetForCommit item = SetNavigationInitiationType INITIATION_NONE item"

definition RestoreStateFromItem ::
    "('u, 'z) nav_platform_scheme \<Rightarrow> 'u nav_item \<Rightarrow> 'u nav_item \<Rightarrow> 'u nav_item outcome" where
  "RestoreStateFromItem P other item =
     obind (if user_agent_type other \<noteq> UA_NONE then SetUserAgentType P (user_agent_type other) item
            else Inr item) (\<lambda>i.
     Inr (if item_url i = item_url other
          then SetVirtualURL P (GetVirtualURL P other) (SetPageDisplayState (page_display_state other) i)
          else i))"

definition error_retry_machine_of ::
    "('u, 'z) nav_platform_scheme \<Rightarrow> 'u nav_item \<Rightarrow> 'u ErrorRetryStateMachine outcome" where
  "error_retry_machine_of P item = dcheck (\<not> use_js_for_error_page P) (Inr (error_retry_state_machine item))"

lemmas nav_item_setter_defs =
  SetOriginalRequestURL_def SetItemURL_def SetReferrer_def SetVirtualURL_def SetPageDisplayState_def
  SetTransitionType_def SetTimestamp_def SetUntrusted_def ResetHttpRequestHeaders_def SetUpgradedToHttps_def
  SetSerializedStateObject_def SetNavigationInitiationType_def SetIsCreatedFromHashChange_def
  SetShouldSkipRepostFormConfirmation_def SetShouldSkipSerialization_def SetPostData_def ResetForCommit_def

section \<open>Lemmas\<close>

lemma GetVirtualURL_SetVirtualURL:
  "\<not> is_empty_url P url \<Longrightarrow> is_empty_url P (empty_gurl P) \<Longrightarrow> GetVirtualURL P (SetVirtualURL P url item) = url"
  by (simp add: GetVirtualURL_def SetVirtualURL_def)

lemma SetTitle_bounded:
  assumes "\<And>n t. length (truncate_string P n t) \<le> n"
  shows "length (item_title item) \<le> kMaxTitleLength \<Longrightarrow> length (item_title (SetTitle P title item)) \<le> kMaxTitleLength"
  using assms [of kMaxTitleLength title] by (auto simp: SetTitle_def)

text \<open>The displayed title as a function of the fields that determine it.\<close>

definition display_title :: "('u, 'z) nav_platform_scheme \<Rightarrow> 'u nav_item \<Rightarrow> string" where
  "display_title P item =
     (if item_title item \<noteq> [] then item_title item
      else GetDisplayTitleForURL P
             (if url_scheme P (item_url item) = ''file'' then item_url item else GetVirtualURL P item))"

definition title_cache_ok :: "('u, 'z) nav_platform_scheme \<Rightarrow> 'u nav_item \<Rightarrow> bool" where
  "title_cache_ok P item \<longleftrightarrow>
     (item_title item = [] \<and> cached_display_title item \<noteq> [] \<longrightarrow> cached_display_title item = display_title P item)"

lemma title_cache_ok_setters:
  "title_cache_ok P (new_nav_item P i)"
  "title_cache_ok P (SetItemURL url item)"
  "title_cache_ok P (SetVirtualURL P url item)"
  "title_cache_ok P item \<Longrightarrow> title_cache_ok P (SetTitle P title item)"
  by (simp_all add: title_cache_ok_def new_nav_item_def SetItemURL_def SetVirtualURL_def SetTitle_def)

lemma GetVirtualURL_cache [simp]: "GetVirtualURL P (item\<lparr>cached_display_title := t\<rparr>) = GetVirtualURL P item"
  by (simp add: GetVirtualURL_def)

lemma GetTitleForDisplay_ignores_the_cache:
  "title_cache_ok P item \<Longrightarrow>
     fst (GetTitleForDisplay P item) = display_title P item \<and> title_cache_ok P (snd (GetTitleForDisplay P item))"
  by (cases "url_scheme P (item_url item) = ''file''")
    (simp_all add: GetTitleForDisplay_def title_cache_ok_def display_title_def Let_def)

lemma GetSmoothedTime_advances:
  assumes "low_water_mark m \<le> high_water_mark m" and "GetSmoothedTime t m = (u, n)"
  shows "t \<le> u" "high_water_mark n = u" "low_water_mark n \<le> high_water_mark n" "low_water_mark n \<le> t"
  using assms by (auto simp: GetSmoothedTime_def split: if_splits)

lemma GetSmoothedTime_increases:
  assumes "low_water_mark m \<le> high_water_mark m" and "GetSmoothedTime t m = (u, n)" and "GetSmoothedTime t n = (v, k)"
  shows "u < v"
  using assms by (auto simp: GetSmoothedTime_def split: if_splits)

lemma item_url_SetItemURL [simp]: "item_url (SetItemURL url item) = url"
  by (simp add: SetItemURL_def)

end
