(* ===== verification/Actions.thy ===== *)
theory Actions
  imports Prelude
begin

text \<open>
  Actions: functions that read and change a state and may stop with a fault.  The operations of
  the navigation manager create missing items when they are read, so that even its getters are
  actions.  \<open>wp m Q s\<close> says that \<open>m\<close> returns from \<open>s\<close> without a fault and that \<open>Q\<close> holds of its
  result and the state it leaves; the rules in \<open>wp_rules\<close> compute it over the structure of an
  action, so that a proof about an operation is a simplification followed by the lemmas of the
  actions it calls.
\<close>

type_synonym ('s, 'a) action = "'s \<Rightarrow> ('a \<times> 's) outcome"

named_theorems wp_rules "weakest preconditions of actions"

definition areturn :: "'a \<Rightarrow> ('s, 'a) action" where
  "areturn x s = Inr (x, s)"

definition afail :: "fault \<Rightarrow> ('s, 'a) action" where
  "afail e s = Inl e"

definition abind :: "('s, 'a) action \<Rightarrow> ('a \<Rightarrow> ('s, 'b) action) \<Rightarrow> ('s, 'b) action" where
  "abind m f s = obind (m s) (\<lambda>(x, t). f x t)"

definition athen :: "('s, 'a) action \<Rightarrow> ('s, 'b) action \<Rightarrow> ('s, 'b) action" where
  "athen m k = abind m (\<lambda>_. k)"

definition aget :: "('s \<Rightarrow> 'a) \<Rightarrow> ('s, 'a) action" where
  "aget f s = Inr (f s, s)"

definition amodify :: "('s \<Rightarrow> 's) \<Rightarrow> ('s, unit) action" where
  "amodify f s = Inr ((), f s)"

definition alift :: "'a outcome \<Rightarrow> ('s, 'a) action" where
  "alift r s = obind r (\<lambda>x. Inr (x, s))"

definition adcheck :: "('s \<Rightarrow> bool) \<Rightarrow> ('s, unit) action" where
  "adcheck b s = dcheck (b s) (Inr ((), s))"

definition awhen :: "bool \<Rightarrow> ('s, unit) action \<Rightarrow> ('s, unit) action" where
  "awhen b m = (if b then m else areturn ())"

text \<open>A \<open>for\<close> loop over a container.\<close>

fun aforeach :: "('a \<Rightarrow> ('s, unit) action) \<Rightarrow> 'a list \<Rightarrow> ('s, unit) action" where
  "aforeach f [] = areturn ()"
| "aforeach f (x # xs) = athen (f x) (aforeach f xs)"

fun amapM :: "('a \<Rightarrow> ('s, 'b) action) \<Rightarrow> 'a list \<Rightarrow> ('s, 'b list) action" where
  "amapM f [] = areturn []"
| "amapM f (x # xs) = abind (f x) (\<lambda>y. abind (amapM f xs) (\<lambda>ys. areturn (y # ys)))"

lemmas action_defs = areturn_def afail_def abind_def athen_def aget_def amodify_def alift_def adcheck_def awhen_def

section \<open>Weakest preconditions\<close>

definition wp :: "('s, 'a) action \<Rightarrow> ('a \<Rightarrow> 's \<Rightarrow> bool) \<Rightarrow> 's \<Rightarrow> bool" where
  "wp m Q s = (case m s of Inl _ \<Rightarrow> False | Inr (x, t) \<Rightarrow> Q x t)"

lemma wpE:
  assumes "wp m Q s"
  obtains x t where "m s = Inr (x, t)" and "Q x t"
  using assms by (auto simp: wp_def split: sum.splits)

lemma wpI: "m s = Inr (x, t) \<Longrightarrow> Q x t \<Longrightarrow> wp m Q s"
  by (simp add: wp_def)

lemma wp_eq: "m s = Inr (x, t) \<Longrightarrow> wp m Q s = Q x t"
  by (simp add: wp_def)

lemma wp_strengthen: "wp m Q s \<Longrightarrow> (\<And>x t. Q x t \<Longrightarrow> R x t) \<Longrightarrow> wp m R s"
  by (auto elim!: wpE intro: wpI)

lemma wp_conj: "wp m Q s \<Longrightarrow> wp m R s \<Longrightarrow> wp m (\<lambda>x t. Q x t \<and> R x t) s"
  by (auto elim!: wpE intro: wpI)

text \<open>The rules are equations between predicates of the state, so that they apply inside of a
  postcondition as well.\<close>

lemma wp_return [wp_rules]: "wp (areturn x) Q = Q x"
  by (simp add: wp_def areturn_def fun_eq_iff)

lemma wp_fail [wp_rules]: "wp (afail e) Q = (\<lambda>_. False)"
  by (simp add: wp_def afail_def fun_eq_iff)

lemma wp_bind [wp_rules]: "wp (abind m f) Q = wp m (\<lambda>x. wp (f x) Q)"
proof
  fix s
  show "wp (abind m f) Q s = wp m (\<lambda>x. wp (f x) Q) s"
    by (cases "m s") (auto simp: wp_def abind_def)
qed

lemma wp_then [wp_rules]: "wp (athen m k) Q = wp m (\<lambda>_. wp k Q)"
  by (simp add: athen_def wp_bind)

lemma wp_get [wp_rules]: "wp (aget f) Q = (\<lambda>s. Q (f s) s)"
  by (simp add: wp_def aget_def fun_eq_iff)

lemma wp_modify [wp_rules]: "wp (amodify f) Q = (\<lambda>s. Q () (f s))"
  by (simp add: wp_def amodify_def fun_eq_iff)

lemma wp_lift_Inr [wp_rules]: "wp (alift (Inr x)) Q = Q x"
  by (simp add: wp_def alift_def fun_eq_iff)

lemma wp_lift: "r = Inr x \<Longrightarrow> wp (alift r) Q = Q x"
  by (simp add: wp_lift_Inr)

lemma wp_dcheck [wp_rules]: "wp (adcheck b) Q = (\<lambda>s. b s \<and> Q () s)"
  by (simp add: wp_def adcheck_def outcome_defs fun_eq_iff)

lemma wp_when [wp_rules]: "wp (awhen b m) Q = (if b then wp m Q else Q ())"
  by (simp add: awhen_def wp_return)

lemma wp_if [wp_rules]: "wp (if b then m else k) Q = (if b then wp m Q else wp k Q)"
  by simp

lemma wp_option [wp_rules]:
  "wp (case x of None \<Rightarrow> m | Some y \<Rightarrow> f y) Q = (case x of None \<Rightarrow> wp m Q | Some y \<Rightarrow> wp (f y) Q)"
  by (cases x) simp_all

lemma wp_prod [wp_rules]: "wp (case p of (x, y) \<Rightarrow> f x y) Q = (case p of (x, y) \<Rightarrow> wp (f x y) Q)"
  by (cases p) simp

lemma wp_let [wp_rules]: "wp (Let x f) Q = (let y = x in wp (f y) Q)"
  by simp

text \<open>An invariant carries through a loop.\<close>

lemma wp_foreach:
  assumes "\<And>x s. x \<in> set xs \<Longrightarrow> I s \<Longrightarrow> wp (f x) (\<lambda>_. I) s" and "I s"
  shows "wp (aforeach f xs) (\<lambda>_. I) s"
  using assms
proof (induction xs arbitrary: s)
  case Nil
  then show ?case by (simp add: wp_return)
next
  case (Cons x xs)
  have "wp (f x) (\<lambda>_. I) s" using Cons.prems by simp
  moreover have "wp (aforeach f xs) (\<lambda>_. I) t" if "I t" for t
    using Cons.prems(1) that by (intro Cons.IH) simp_all
  ultimately have "wp (f x) (\<lambda>_. wp (aforeach f xs) (\<lambda>_. I)) s"
    by (rule wp_strengthen)
  then show ?case by (simp add: wp_then)
qed

text \<open>A loop that collects results: \<open>E\<close> relates the states before and after a step, and what is known
  of a result stays true along \<open>E\<close>.\<close>

lemma wp_mapM:
  assumes step: "\<And>x s. x \<in> set xs \<Longrightarrow> E s0 s \<Longrightarrow> wp (f x) (\<lambda>y t. E s t \<and> R x y t) s"
    and stable: "\<And>x y t u. R x y t \<Longrightarrow> E t u \<Longrightarrow> R x y u"
    and refl: "\<And>s. E s s" and trans: "\<And>s t u. E s t \<Longrightarrow> E t u \<Longrightarrow> E s u" and "E s0 s"
  shows "wp (amapM f xs) (\<lambda>ys t. E s t \<and> list_all2 (\<lambda>x y. R x y t) xs ys) s"
  using step \<open>E s0 s\<close>
proof (induction xs arbitrary: s)
  case Nil
  then show ?case by (simp add: wp_return refl)
next
  case (Cons x xs)
  have "wp (f x) (\<lambda>y. wp (amapM f xs) (\<lambda>ys t. E s t \<and> list_all2 (\<lambda>x y. R x y t) (x # xs) (y # ys))) s"
  proof (rule wp_strengthen)
    show "wp (f x) (\<lambda>y t. E s t \<and> R x y t) s" using Cons.prems by simp
    fix y t
    assume t: "E s t \<and> R x y t"
    then have "E s0 t" using Cons.prems(2) trans by blast
    then have "wp (amapM f xs) (\<lambda>ys u. E t u \<and> list_all2 (\<lambda>x y. R x y u) xs ys) t"
      using Cons.prems(1) by (intro Cons.IH) simp_all
    then show "wp (amapM f xs) (\<lambda>ys u. E s u \<and> list_all2 (\<lambda>x y. R x y u) (x # xs) (y # ys)) t"
      by (rule wp_strengthen) (use t stable trans in \<open>auto\<close>)
  qed
  then show ?case by (simp add: wp_rules)
qed

lemma aforeach_append: "aforeach f (xs @ ys) = athen (aforeach f xs) (aforeach f ys)"
proof (rule ext)
  fix s
  show "aforeach f (xs @ ys) s = athen (aforeach f xs) (aforeach f ys) s"
  proof (induction xs arbitrary: s)
    case Nil
    then show ?case by (simp add: action_defs)
  next
    case (Cons x xs)
    then show ?case by (cases "f x s") (auto simp: athen_def abind_def split: prod.splits)
  qed
qed

end
