(* ===== verification/Web_View_Cache.thy ===== *)
theory Web_View_Cache
  imports Navigation_Item Actions
begin

text \<open>
  The state of the navigation manager, \<open>web/navigation/navigation_manager_impl.{h,mm}\<close>, the
  back-forward list of WebKit under it, and its access to that list (\<open>WKWebViewCache\<close>).

  Navigation items are heap objects of several owners; an \<open>item_ref\<close> is a pointer to one of
  them: the pending item, the empty window open item, the item that is associated with the
  \<open>WKBackForwardListItem\<close> at an absolute index (\<open>crw_navigation_item_holder.mm\<close>), a cached item,
  and so on.  The web view (\<open>CRWWebViewNavigationProxy\<close>) is a zipper of list items and its URL;
  it is \<open>None\<close> when there is no web view.  What the manager tells its delegate is a list of
  calls, in the order of the calls.
\<close>

section \<open>The web view\<close>

record 'u wk_item =
  wk_url :: 'u
  wk_title :: string
  wk_holder :: "'u nav_item option"

record 'u web_view =
  web_view_url :: 'u
  back_list :: "'u wk_item list"
  current_wk_item :: "'u wk_item option"
  forward_list :: "'u wk_item list"

definition wk_items :: "'u web_view \<Rightarrow> 'u wk_item list" where
  "wk_items v = back_list v @ (case current_wk_item v of None \<Rightarrow> [] | Some c \<Rightarrow> [c]) @ forward_list v"

text \<open>The absolute index of \<open>[WKBackForwardList itemAtIndex:offset]\<close>.\<close>

definition itemAtIndex :: "'u web_view \<Rightarrow> int \<Rightarrow> nat option" where
  "itemAtIndex v offset =
     (let b = length (back_list v); c = (if current_wk_item v = None then 0 else 1) in
      if offset < 0 then (if nat (- offset) \<le> b then Some (b - nat (- offset)) else None)
      else if offset = 0 then (if c = 0 then None else Some b)
      else if nat offset \<le> length (forward_list v) then Some (b + c + (nat offset - 1)) else None)"

definition update_wk :: "nat \<Rightarrow> ('u wk_item \<Rightarrow> 'u wk_item) \<Rightarrow> 'u web_view \<Rightarrow> 'u web_view" where
  "update_wk n f v =
     (let b = length (back_list v) in
      if n < b then v\<lparr>back_list := (back_list v)[n := f (back_list v ! n)]\<rparr>
      else case current_wk_item v of
        None \<Rightarrow> v\<lparr>forward_list := (forward_list v)[n - b := f (forward_list v ! (n - b))]\<rparr>
      | Some c \<Rightarrow>
          if n = b then v\<lparr>current_wk_item := Some (f c)\<rparr>
          else v\<lparr>forward_list := (forward_list v)[n - b - 1 := f (forward_list v ! (n - b - 1))]\<rparr>)"

section \<open>The state of the navigation manager\<close>

datatype item_ref = Pending | Empty_window | Wk nat | Cached nat | Restored_visible | Web_view_item | Context_pending

record 'u WebLoadParams =
  load_url :: 'u
  load_virtual_url :: 'u
  load_referrer :: "'u Referrer"
  load_transition_type :: "32 word"
  is_renderer_initiated :: bool
  extra_headers :: "(string \<times> string) list option"
  load_post_data :: "string option"
  is_using_https_as_default_scheme :: bool

datatype RestoreItemListType = kBackList | kForwardList

datatype 'u restore_callback =
    Restore_items_state RestoreItemListType "'u nav_item list"
  | Deferred_load "'u WebLoadParams"
  | Client_callback nat

datatype delegate_call =
    Called_ClearDialogs | Called_RecordPageState | Called_LoadCurrentItem NavigationInitiationType
  | Called_LoadIfNecessary | Called_Reload | Called_OnNavigationItemCommitted item_ref
  | Called_SetWebStateUserAgent UserAgentType
  | Called_GoToBackForwardListItem nat NavigationInitiationType bool
  | Called_RemoveWebView | Called_RestoreSessionFromCache | Ran_client_callback nat

text \<open>The first group is the delegate's side: the web view, the item of the last navigation
  context that holds one, the URL of the document, whether the page is loading, the clock, the
  counter of item identifiers, and what was called.\<close>

record 'u nav_manager =
  web_view :: "'u web_view option"
  context_pending_item :: "'u nav_item option"
  document_url :: 'u
  is_loading :: bool
  now :: int
  unique_id_counter :: int
  calls :: "delegate_call list"
  transient_url_rewriters :: "'u url_rewriter list"
  pending_item :: "'u nav_item option"
  pending_item_index :: int
  last_committed_item_index :: int
  empty_window_open_item :: "'u nav_item option"
  last_committed_web_view_item :: "'u nav_item option"
  time_smoother :: TimeSmoother
  attached_to_web_view :: bool
  cached_items :: "'u nav_item list"
  cached_current_item_index :: int
  is_restore_session_in_progress :: bool
  going_to_back_forward_list_item :: bool
  next_pending_url_should_skip_serialization :: 'u
  restoration_timer :: bool
  restored_visible_item :: "'u nav_item option"
  restore_session_completion_callbacks :: "'u restore_callback list"

definition new_nav_manager :: "('u, 'z) nav_platform_scheme \<Rightarrow> 'u nav_manager" where
  "new_nav_manager P =
     \<lparr>web_view = None, context_pending_item = None, document_url = empty_gurl P, is_loading = False, now = 0,
      unique_id_counter = 0, calls = [], transient_url_rewriters = [], pending_item = None,
      pending_item_index = -1, last_committed_item_index = -1, empty_window_open_item = None,
      last_committed_web_view_item = None, time_smoother = new_TimeSmoother, attached_to_web_view = True,
      cached_items = [], cached_current_item_index = -1, is_restore_session_in_progress = False,
      going_to_back_forward_list_item = False,
      next_pending_url_should_skip_serialization = empty_gurl P, restoration_timer = False,
      restored_visible_item = None, restore_session_completion_callbacks = []\<rparr>"

definition new_WebLoadParams :: "('u, 'z) nav_platform_scheme \<Rightarrow> 'u \<Rightarrow> 'u WebLoadParams" where
  "new_WebLoadParams P url =
     \<lparr>load_url = url, load_virtual_url = empty_gurl P, load_referrer = empty_referrer P,
      load_transition_type = page_transition_link P, is_renderer_initiated = False, extra_headers = None,
      load_post_data = None, is_using_https_as_default_scheme = False\<rparr>"

definition call_delegate :: "delegate_call \<Rightarrow> ('u nav_manager, unit) action" where
  "call_delegate c = amodify (\<lambda>s. s\<lparr>calls := calls s @ [c]\<rparr>)"

section \<open>Items behind pointers\<close>

fun deref :: "'u nav_manager \<Rightarrow> item_ref \<Rightarrow> 'u nav_item option" where
  "deref s Pending = pending_item s"
| "deref s Empty_window = empty_window_open_item s"
| "deref s (Wk n) =
     (case web_view s of None \<Rightarrow> None
      | Some v \<Rightarrow> if n < length (wk_items v) then wk_holder (wk_items v ! n) else None)"
| "deref s (Cached n) = (if n < length (cached_items s) then Some (cached_items s ! n) else None)"
| "deref s Restored_visible = restored_visible_item s"
| "deref s Web_view_item = last_committed_web_view_item s"
| "deref s Context_pending = context_pending_item s"

fun update_ref :: "item_ref \<Rightarrow> ('u nav_item \<Rightarrow> 'u nav_item) \<Rightarrow> 'u nav_manager \<Rightarrow> 'u nav_manager" where
  "update_ref Pending f s = s\<lparr>pending_item := map_option f (pending_item s)\<rparr>"
| "update_ref Empty_window f s = s\<lparr>empty_window_open_item := map_option f (empty_window_open_item s)\<rparr>"
| "update_ref (Wk n) f s =
     s\<lparr>web_view := map_option (update_wk n (\<lambda>w. w\<lparr>wk_holder := map_option f (wk_holder w)\<rparr>)) (web_view s)\<rparr>"
| "update_ref (Cached n) f s = s\<lparr>cached_items := (cached_items s)[n := f (cached_items s ! n)]\<rparr>"
| "update_ref Restored_visible f s = s\<lparr>restored_visible_item := map_option f (restored_visible_item s)\<rparr>"
| "update_ref Web_view_item f s =
     s\<lparr>last_committed_web_view_item := map_option f (last_committed_web_view_item s)\<rparr>"
| "update_ref Context_pending f s = s\<lparr>context_pending_item := map_option f (context_pending_item s)\<rparr>"

definition load_item :: "item_ref \<Rightarrow> ('u nav_manager, 'u nav_item) action" where
  "load_item r s = (case deref s r of None \<Rightarrow> Inl Null_dereference | Some i \<Rightarrow> Inr (i, s))"

definition load_pointer :: "item_ref option \<Rightarrow> ('u nav_manager, 'u nav_item) action" where
  "load_pointer p = (case p of None \<Rightarrow> afail Null_dereference | Some r \<Rightarrow> load_item r)"

definition set_item :: "item_ref \<Rightarrow> ('u nav_item \<Rightarrow> 'u nav_item) \<Rightarrow> ('u nav_manager, unit) action" where
  "set_item r f = abind (load_item r) (\<lambda>_. amodify (update_ref r f))"

definition set_item_checked ::
    "item_ref \<Rightarrow> ('u nav_item \<Rightarrow> 'u nav_item outcome) \<Rightarrow> ('u nav_manager, unit) action" where
  "set_item_checked r f = abind (load_item r) (\<lambda>i. abind (alift (f i)) (\<lambda>j. amodify (update_ref r (\<lambda>_. j))))"

text \<open>\<open>SetNavigationItemInWKItem\<close>, \<open>setNavigationItem:\<close> of the holder; the item is named by its
  absolute index.\<close>

definition SetNavigationItemInWKItem :: "nat option \<Rightarrow> 'u nav_item option \<Rightarrow> ('u nav_manager, unit) action" where
  "SetNavigationItemInWKItem wk i =
     (case wk of
        None \<Rightarrow> afail Dcheck_failed
      | Some n \<Rightarrow> amodify (\<lambda>s. s\<lparr>web_view := map_option (update_wk n (\<lambda>w. w\<lparr>wk_holder := i\<rparr>)) (web_view s)\<rparr>))"

definition GetNavigationItemFromWKItem :: "nat option \<Rightarrow> 'u nav_manager \<Rightarrow> item_ref option" where
  "GetNavigationItemFromWKItem wk s =
     (case wk of None \<Rightarrow> None | Some n \<Rightarrow> if deref s (Wk n) = None then None else Some (Wk n))"

definition wk_item_at :: "nat option \<Rightarrow> 'u nav_manager \<Rightarrow> 'u wk_item option" where
  "wk_item_at wk s =
     (case (wk, web_view s) of
        (Some n, Some v) \<Rightarrow> if n < length (wk_items v) then Some (wk_items v ! n) else None
      | _ \<Rightarrow> None)"

text \<open>The URL of a missing list item is the empty URL.\<close>

definition wk_item_url :: "('u, 'z) nav_platform_scheme \<Rightarrow> nat option \<Rightarrow> 'u nav_manager \<Rightarrow> 'u" where
  "wk_item_url P wk s = (case wk_item_at wk s of None \<Rightarrow> empty_gurl P | Some w \<Rightarrow> wk_url w)"

section \<open>Creating items\<close>

definition smooth_time :: "('u nav_manager, int) action" where
  "smooth_time s =
     (let (t, m) = GetSmoothedTime (now s) (time_smoother s) in Inr (t, s\<lparr>time_smoother := m\<rparr>))"

text \<open>\<open>redirected_from\<close> is the URL of the last committed item if the transition is a redirect and
  there is such an item; the caller reads it, since only \<open>AddPendingItem\<close> creates items with a
  transition that may be a redirect.\<close>

definition rewritten_url ::
    "('u, 'z) nav_platform_scheme \<Rightarrow> 'u \<Rightarrow> 'u url_rewriter list \<Rightarrow> 'u outcome" where
  "rewritten_url P url additional_rewriters =
     obind (if use_js_for_error_page P then Inr False else IsPlaceholderUrl P url) (\<lambda>placeholder.
     Inr (if placeholder then url
          else
            let (url_was_rewritten, u) =
                  (if additional_rewriters = [] then (False, url)
                   else RewriteURLWithWriters additional_rewriters url)
            in if url_was_rewritten then u else snd (RewriteURLIfNecessary P u)))"

definition CreateNavigationItemWithRewriters ::
    "('u, 'z) nav_platform_scheme \<Rightarrow> 'u \<Rightarrow> 'u Referrer \<Rightarrow> 32 word \<Rightarrow> NavigationInitiationType \<Rightarrow> bool \<Rightarrow> 'u \<Rightarrow>
     'u url_rewriter list \<Rightarrow> 'u option \<Rightarrow> ('u nav_manager, 'u nav_item) action" where
  "CreateNavigationItemWithRewriters P url referrer transition initiation_type using_https previous_url
       additional_rewriters redirected_from =
     abind (alift (rewritten_url P url additional_rewriters)) (\<lambda>rewritten.
     (let loaded_url =
            (if (initiation_type = RENDERER_INITIATED
                 \<or> page_transition_core_type_is P transition (page_transition_reload P))
                \<and> rewritten \<noteq> url \<and> is_app_specific_url P rewritten \<and> \<not> is_app_specific_url P previous_url
             then url else rewritten);
          original_url = (case redirected_from of None \<Rightarrow> loaded_url | Some u \<Rightarrow> u)
      in abind (aget (\<lambda>s. GetUniqueIDInConstructor (unique_id_counter s))) (\<lambda>i.
         athen (amodify (\<lambda>s. s\<lparr>unique_id_counter := i\<rparr>))
         (let item = SetNavigationInitiationType initiation_type (SetTransitionType transition
                       (SetReferrer referrer (SetItemURL loaded_url
                         (SetOriginalRequestURL original_url (new_nav_item P i)))))
          in areturn (if using_https then SetUpgradedToHttps item else item)))))"

text \<open>The URL shown for an internal URL: the target of a \<open>restore_session.html\<close> URL, itself
  without its placeholder; \<open>None\<close> if there is no target.\<close>

definition restore_target_url :: "('u, 'z) nav_platform_scheme \<Rightarrow> 'u \<Rightarrow> 'u option outcome" where
  "restore_target_url P url =
     (if \<not> IsRestoreSessionUrl P url then Inr None
      else obind (ExtractTargetURL P url) (\<lambda>target.
        case target of
          None \<Rightarrow> Inr None
        | Some u \<Rightarrow>
            obind (if use_js_for_error_page P then Inr False else IsPlaceholderUrl P u) (\<lambda>placeholder.
            if placeholder then obind (ExtractUrlFromPlaceholderUrl P u) (\<lambda>v. Inr (Some v)) else Inr (Some u))))"

section \<open>Access to the back-forward list\<close>

definition GetBackForwardListItemCount :: "'u nav_manager \<Rightarrow> nat" where
  "GetBackForwardListItemCount s =
     (if \<not> attached_to_web_view s then length (cached_items s)
      else case web_view s of None \<Rightarrow> 0 | Some v \<Rightarrow> length (wk_items v))"

definition GetCurrentItemIndex :: "'u nav_manager \<Rightarrow> int" where
  "GetCurrentItemIndex s =
     (if \<not> attached_to_web_view s then cached_current_item_index s
      else case web_view s of
        None \<Rightarrow> -1
      | Some v \<Rightarrow> if current_wk_item v = None then -1 else int (length (back_list v)))"

definition GetVisibleWebViewURL :: "('u, 'z) nav_platform_scheme \<Rightarrow> 'u nav_manager \<Rightarrow> 'u" where
  "GetVisibleWebViewURL P s =
     (if \<not> attached_to_web_view s then empty_gurl P
      else case web_view s of None \<Rightarrow> empty_gurl P | Some v \<Rightarrow> web_view_url v)"

definition GetWKItemAtIndex :: "nat \<Rightarrow> ('u nav_manager, nat option) action" where
  "GetWKItemAtIndex index =
     athen (adcheck attached_to_web_view)
       (aget (\<lambda>s. if index \<ge> GetBackForwardListItemCount s then None
                   else case web_view s of
                     None \<Rightarrow> None
                   | Some v \<Rightarrow> itemAtIndex v (int index - GetCurrentItemIndex s)))"

text \<open>The virtual URL hides what is internal in the URL of a new item.\<close>

definition hide_internal_url :: "('u, 'z) nav_platform_scheme \<Rightarrow> 'u nav_item \<Rightarrow> 'u nav_item outcome" where
  "hide_internal_url P item =
     obind (restore_target_url P (item_url item)) (\<lambda>target.
     obind (if use_js_for_error_page P then Inr False else IsPlaceholderUrl P (item_url item)) (\<lambda>placeholder.
     (let shown = (case target of None \<Rightarrow> item | Some u \<Rightarrow> SetVirtualURL P u item) in
      if placeholder
      then obind (ExtractUrlFromPlaceholderUrl P (item_url item)) (\<lambda>u. Inr (SetVirtualURL P u shown))
      else Inr shown)))"

definition link_back_forward_item ::
    "('u, 'z) nav_platform_scheme \<Rightarrow> nat option \<Rightarrow> nat option \<Rightarrow> ('u nav_manager, unit) action" where
  "link_back_forward_item P wk prev_wk =
     abind (aget (\<lambda>s. (wk_item_url P wk s, wk_item_url P prev_wk s, wk_item_at wk s))) (\<lambda>(url, prev_url, w).
     abind (CreateNavigationItemWithRewriters P url
              (if prev_wk = None then empty_referrer P
               else \<lparr>referrer_url = prev_url, referrer_policy = ReferrerPolicyAlways\<rparr>)
              (page_transition_link P) RENDERER_INITIATED False prev_url [] None) (\<lambda>item.
     abind smooth_time (\<lambda>t.
     abind (alift (hide_internal_url P
              (SetTitle P (case w of None \<Rightarrow> [] | Some w \<Rightarrow> wk_title w) (SetTimestamp t item)))) (\<lambda>new_item.
     SetNavigationItemInWKItem wk (Some new_item)))))"

text \<open>\<open>WKWebViewCache::GetNavigationItemImplAtIndex\<close>.\<close>

definition GetCachedOrLinkedItemAtIndex ::
    "('u, 'z) nav_platform_scheme \<Rightarrow> nat \<Rightarrow> bool \<Rightarrow> ('u nav_manager, item_ref option) action" where
  "GetCachedOrLinkedItemAtIndex P index create_if_missing =
     abind (aget (\<lambda>s. (GetBackForwardListItemCount s, attached_to_web_view s))) (\<lambda>(count, attached).
     if index \<ge> count then areturn None
     else if \<not> attached then areturn (Some (Cached index))
     else
       abind (GetWKItemAtIndex index) (\<lambda>wk.
       abind (aget (GetNavigationItemFromWKItem wk)) (\<lambda>item.
       if wk = None \<or> item \<noteq> None \<or> \<not> create_if_missing then areturn item
       else
         abind (if index = 0 then areturn None else GetWKItemAtIndex (index - 1)) (\<lambda>prev_wk.
         athen (link_back_forward_item P wk prev_wk)
           (aget (GetNavigationItemFromWKItem wk))))))"

definition cache_item_at :: "('u, 'z) nav_platform_scheme \<Rightarrow> nat \<Rightarrow> ('u nav_manager, 'u nav_item) action" where
  "cache_item_at P index =
     abind (GetCachedOrLinkedItemAtIndex P index True) (\<lambda>p.
     abind (load_pointer p) (\<lambda>item.
     abind (alift (if IsRestoreSessionUrl P (item_url item) then ExtractTargetURL P (item_url item) else Inr None))
       (\<lambda>extracted_url.
     areturn (case extracted_url of None \<Rightarrow> item | Some u \<Rightarrow> SetItemURL u item))))"

text \<open>\<open>WKWebViewCache::DetachFromWebView\<close>; the copies are made while the manager is attached.\<close>

definition DetachCacheFromWebView :: "('u, 'z) nav_platform_scheme \<Rightarrow> ('u nav_manager, unit) action" where
  "DetachCacheFromWebView P =
     athen
       (abind (aget attached_to_web_view) (\<lambda>attached.
        awhen attached
          (athen (amodify (\<lambda>s. s\<lparr>cached_current_item_index := GetCurrentItemIndex s\<rparr>))
             (abind (aget GetBackForwardListItemCount) (\<lambda>count.
              abind (amapM (cache_item_at P) [0..<count]) (\<lambda>items.
              amodify (\<lambda>s. s\<lparr>cached_items := items\<rparr>)))))))
       (amodify (\<lambda>s. s\<lparr>attached_to_web_view := False\<rparr>))"

definition ResetToAttached :: "('u nav_manager, unit) action" where
  "ResetToAttached =
     amodify (\<lambda>s. s\<lparr>cached_items := [], cached_current_item_index := -1, attached_to_web_view := True\<rparr>)"

definition ReleaseCachedItems :: "('u nav_manager, 'u nav_item list) action" where
  "ReleaseCachedItems =
     athen (adcheck (\<lambda>s. \<not> attached_to_web_view s))
       (abind (aget cached_items) (\<lambda>result.
        athen (amodify (\<lambda>s. s\<lparr>cached_items := []\<rparr>)) (areturn result)))"

end
