(* ===== verification/Navigation_Manager.thy ===== *)
theory Navigation_Manager
  imports Web_View_Cache
begin

unbundle bit_operations_syntax

text \<open>
  The navigation manager, \<open>web/navigation/navigation_manager_impl.mm\<close>: pending and committed
  items over WebKit's back-forward list, navigation by index, loads, and the restoration of
  sessions, with \<open>web/navigation/navigation_manager_util.mm\<close>.

  \<open>Restore\<close>, \<open>UnsafeRestore\<close> and \<open>LoadURLWithParams\<close> call each other.  The load inside
  \<open>UnsafeRestore\<close> runs while a restoration is in progress, where a nested \<open>Restore\<close> fails its
  first \<open>DCHECK\<close>; it is therefore \<open>LoadURLWithParams_with\<close> with that fault in place of \<open>Restore\<close>
  (lemma \<open>Restore_in_progress\<close> of \<open>Navigation_Restore\<close>).

  Of the delegate (\<open>web/web_state/web_state_impl.mm\<close> and the web controller under it) the calls
  are recorded; only \<open>RemoveWebView\<close>, which detaches the manager and drops the web view and the
  pending navigation contexts, changes the state.  Timing histograms are left out but for the
  timer that guards one of them.
\<close>

section \<open>Getters\<close>

definition GetItemCount :: "'u nav_manager \<Rightarrow> nat" where
  "GetItemCount s = (if empty_window_open_item s \<noteq> None then 1 else GetBackForwardListItemCount s)"

definition GetIndexForOffset :: "int \<Rightarrow> 'u nav_manager \<Rightarrow> int" where
  "GetIndexForOffset offset s =
     (let current_item_index =
            (if pending_item_index s = -1
             then (if empty_window_open_item s \<noteq> None then 0 else GetCurrentItemIndex s)
             else pending_item_index s);
          index = current_item_index + offset
      in if - (2 ^ 31) \<le> index \<and> index < 2 ^ 31 then index else -1)"

definition CanGoToOffset :: "int \<Rightarrow> 'u nav_manager \<Rightarrow> bool" where
  "CanGoToOffset offset s =
     (if is_restore_session_in_progress s then False
      else if empty_window_open_item s \<noteq> None then offset = 0
      else 0 \<le> GetIndexForOffset offset s \<and> GetIndexForOffset offset s < int (GetItemCount s))"

definition CanGoBack :: "'u nav_manager \<Rightarrow> bool" where
  "CanGoBack s = CanGoToOffset (-1) s"

definition CanGoForward :: "'u nav_manager \<Rightarrow> bool" where
  "CanGoForward s = CanGoToOffset 1 s"

definition GetPendingItemIndex :: "'u nav_manager \<Rightarrow> int" where
  "GetPendingItemIndex s = (if is_restore_session_in_progress s then -1 else pending_item_index s)"

definition GetLastCommittedItemIndexInCurrentOrRestoredSession :: "'u nav_manager \<Rightarrow> int" where
  "GetLastCommittedItemIndexInCurrentOrRestoredSession s =
     (if 0 \<le> pending_item_index s \<or> empty_window_open_item s \<noteq> None then last_committed_item_index s
      else GetCurrentItemIndex s)"

text \<open>An index is converted to \<open>size_t\<close>: a negative one is beyond every list.\<close>

definition GetNavigationItemImplAtIndex ::
    "('u, 'z) nav_platform_scheme \<Rightarrow> int \<Rightarrow> ('u nav_manager, item_ref option) action" where
  "GetNavigationItemImplAtIndex P index =
     abind (aget empty_window_open_item) (\<lambda>e.
     if e \<noteq> None then areturn (if index = 0 then Some Empty_window else None)
     else if index < 0 then areturn None
     else GetCachedOrLinkedItemAtIndex P (nat index) True)"

definition GetItemAtIndex ::
    "('u, 'z) nav_platform_scheme \<Rightarrow> int \<Rightarrow> ('u nav_manager, item_ref option) action" where
  "GetItemAtIndex P index = GetNavigationItemImplAtIndex P index"

definition CanTrustLastCommittedItem ::
    "('u, 'z) nav_platform_scheme \<Rightarrow> 'u nav_item \<Rightarrow> 'u nav_manager \<Rightarrow> bool" where
  "CanTrustLastCommittedItem P last_committed_item s =
     (if \<not> attached_to_web_view s then True
      else
        let view_url = GetVisibleWebViewURL P s; last_committed_url = item_url last_committed_item in
        if url_origin P view_url = url_origin P last_committed_url then True
        else if going_to_back_forward_list_item s then True
        else url_scheme P view_url = ''about'' \<or> url_scheme P last_committed_url = ''about''
           \<or> url_scheme P view_url = ''file'' \<or> url_scheme P last_committed_url = ''file''
           \<or> is_app_specific_url P view_url \<or> is_app_specific_url P last_committed_url)"

definition untrusted_last_committed_item ::
    "('u, 'z) nav_platform_scheme \<Rightarrow> ('u nav_manager, item_ref option) action" where
  "untrusted_last_committed_item P =
     abind (aget document_url) (\<lambda>url.
     abind (aget last_committed_web_view_item) (\<lambda>known.
     athen (awhen (known = None)
       (abind (CreateNavigationItemWithRewriters P (empty_gurl P) (empty_referrer P) (page_transition_link P)
                 RENDERER_INITIATED False (empty_gurl P) [] None) (\<lambda>item.
        amodify (\<lambda>s. s\<lparr>last_committed_web_view_item := Some (SetUntrusted item)\<rparr>))))
     (athen (set_item Web_view_item (SetItemURL url))
     (abind (alift (restore_target_url P url)) (\<lambda>target.
     athen (set_item Web_view_item (SetVirtualURL P (case target of None \<Rightarrow> url | Some u \<Rightarrow> u)))
     (abind smooth_time (\<lambda>t.
     athen (set_item Web_view_item (SetTimestamp t))
     (areturn (Some Web_view_item))))))))) "

definition GetLastCommittedItemInCurrentOrRestoredSession ::
    "('u, 'z) nav_platform_scheme \<Rightarrow> ('u nav_manager, item_ref option) action" where
  "GetLastCommittedItemInCurrentOrRestoredSession P =
     abind (aget empty_window_open_item) (\<lambda>e.
     if e \<noteq> None then areturn (Some Empty_window)
     else
       abind (aget GetLastCommittedItemIndexInCurrentOrRestoredSession) (\<lambda>index.
       if index = -1 then athen (adcheck (\<lambda>s. GetItemCount s = 0)) (areturn None)
       else
         abind (GetNavigationItemImplAtIndex P index) (\<lambda>p.
         case p of
           None \<Rightarrow> areturn None
         | Some r \<Rightarrow>
             abind (load_item r) (\<lambda>item.
             abind (aget (CanTrustLastCommittedItem P item)) (\<lambda>trusted.
             if trusted then areturn (Some r) else untrusted_last_committed_item P)))))"

definition GetPendingItemInCurrentOrRestoredSession ::
    "('u, 'z) nav_platform_scheme \<Rightarrow> ('u nav_manager, item_ref option) action" where
  "GetPendingItemInCurrentOrRestoredSession P =
     abind (aget (\<lambda>s. (pending_item_index s, pending_item s, context_pending_item s))) (\<lambda>(index, pending, context).
     if index = -1
     then areturn (if pending \<noteq> None then Some Pending
                   else if context \<noteq> None then Some Context_pending else None)
     else GetNavigationItemImplAtIndex P index)"

definition GetPendingItem :: "('u, 'z) nav_platform_scheme \<Rightarrow> ('u nav_manager, item_ref option) action" where
  "GetPendingItem P =
     abind (aget is_restore_session_in_progress) (\<lambda>restoring.
     if restoring then areturn None else GetPendingItemInCurrentOrRestoredSession P)"

definition GetCurrentItemImpl :: "('u, 'z) nav_platform_scheme \<Rightarrow> ('u nav_manager, item_ref option) action" where
  "GetCurrentItemImpl P =
     abind (GetPendingItemInCurrentOrRestoredSession P) (\<lambda>pending.
     if pending \<noteq> None then areturn pending else GetLastCommittedItemInCurrentOrRestoredSession P)"

text \<open>The URL behind a pointer that may be null.\<close>

definition url_behind ::
    "('u, 'z) nav_platform_scheme \<Rightarrow> item_ref option \<Rightarrow> ('u nav_manager, 'u option) action" where
  "url_behind P p =
     (case p of None \<Rightarrow> areturn None | Some r \<Rightarrow> abind (load_item r) (\<lambda>item. areturn (Some (item_url item))))"

definition GetLastCommittedItemImpl ::
    "('u, 'z) nav_platform_scheme \<Rightarrow> ('u nav_manager, item_ref option) action" where
  "GetLastCommittedItemImpl P =
     abind (aget is_restore_session_in_progress) (\<lambda>restoring.
     if restoring then areturn None
     else
       abind (GetLastCommittedItemInCurrentOrRestoredSession P) (\<lambda>result.
       abind (url_behind P result) (\<lambda>url.
       areturn (case url of None \<Rightarrow> None | Some u \<Rightarrow> if IsRestoreSessionUrl P u then None else result))))"

definition GetLastCommittedItem :: "('u, 'z) nav_platform_scheme \<Rightarrow> ('u nav_manager, item_ref option) action" where
  "GetLastCommittedItem P = GetLastCommittedItemImpl P"

definition GetLastCommittedItemIndex :: "('u, 'z) nav_platform_scheme \<Rightarrow> ('u nav_manager, int) action" where
  "GetLastCommittedItemIndex P =
     abind (aget is_restore_session_in_progress) (\<lambda>restoring.
     if restoring then areturn (-1)
     else
       abind (GetLastCommittedItemInCurrentOrRestoredSession P) (\<lambda>result.
       abind (url_behind P result) (\<lambda>url.
       case url of
         None \<Rightarrow> areturn (-1)
       | Some u \<Rightarrow> if IsRestoreSessionUrl P u then areturn (-1)
                  else aget GetLastCommittedItemIndexInCurrentOrRestoredSession)))"

text \<open>Only a new navigation that the user started is shown before it is committed.\<close>

definition safe_to_show :: "item_ref option \<Rightarrow> ('u nav_manager, bool) action" where
  "safe_to_show pending =
     (case pending of
        None \<Rightarrow> areturn False
      | Some r \<Rightarrow>
          abind (load_item r) (\<lambda>item.
          aget (\<lambda>s. navigation_initiation_type item = BROWSER_INITIATED \<and> pending_item_index s = -1
                    \<and> is_loading s)))"

definition GetVisibleItem :: "('u, 'z) nav_platform_scheme \<Rightarrow> ('u nav_manager, item_ref option) action" where
  "GetVisibleItem P =
     abind (aget (\<lambda>s. (is_restore_session_in_progress s, restored_visible_item s))) (\<lambda>(restoring, restored).
     if restoring \<or> restored \<noteq> None then areturn (if restored = None then None else Some Restored_visible)
     else
       abind (GetPendingItemInCurrentOrRestoredSession P) (\<lambda>pending.
       abind (safe_to_show pending) (\<lambda>safe_to_show_pending.
       if safe_to_show_pending then areturn pending
       else
         abind (GetLastCommittedItem P) (\<lambda>last_committed_item.
         if last_committed_item \<noteq> None then areturn last_committed_item
         else
           abind (GetLastCommittedItemInCurrentOrRestoredSession P) (\<lambda>result.
           abind (url_behind P result) (\<lambda>url.
           areturn (case url of None \<Rightarrow> None | Some u \<Rightarrow> if IsRestoreSessionUrl P u then result else None)))))))"

definition GetIndexOfItem :: "('u, 'z) nav_platform_scheme \<Rightarrow> item_ref \<Rightarrow> ('u nav_manager, int) action" where
  "GetIndexOfItem P item =
     abind (aget empty_window_open_item) (\<lambda>e.
     if item = Empty_window \<and> e \<noteq> None then areturn 0
     else
       abind (aget GetBackForwardListItemCount) (\<lambda>count.
       abind (amapM (\<lambda>i. GetCachedOrLinkedItemAtIndex P i False) [0..<count]) (\<lambda>items.
       areturn (first_index (\<lambda>p. p = Some item) items))))"

definition GetBackwardItems :: "('u, 'z) nav_platform_scheme \<Rightarrow> ('u nav_manager, item_ref option list) action" where
  "GetBackwardItems P =
     abind (aget is_restore_session_in_progress) (\<lambda>restoring.
     if restoring then areturn []
     else
       abind (aget GetCurrentItemIndex) (\<lambda>current.
       amapM (\<lambda>i. GetItemAtIndex P (int i)) (rev [0..<nat current])))"

definition GetForwardItems :: "('u, 'z) nav_platform_scheme \<Rightarrow> ('u nav_manager, item_ref option list) action" where
  "GetForwardItems P =
     abind (aget is_restore_session_in_progress) (\<lambda>restoring.
     if restoring then areturn []
     else
       abind (aget (\<lambda>s. (GetCurrentItemIndex s, GetItemCount s))) (\<lambda>(current, count).
       amapM (\<lambda>i. GetItemAtIndex P (int i)) [nat (current + 1)..<count]))"

text \<open>The loop of \<open>GetLastCommittedItemWithUserAgentType\<close> from \<open>index - 1\<close> down to 0.\<close>

fun item_with_user_agent_below ::
    "('u, 'z) nav_platform_scheme \<Rightarrow> nat \<Rightarrow> ('u nav_manager, item_ref option) action" where
  "item_with_user_agent_below P 0 = areturn None"
| "item_with_user_agent_below P (Suc n) =
     abind (GetItemAtIndex P (int n)) (\<lambda>p.
     abind (load_pointer p) (\<lambda>item.
     abind (alift (URLNeedsUserAgentType P (item_url item))) (\<lambda>needs.
     if needs then athen (adcheck (\<lambda>_. user_agent_type item \<noteq> UA_NONE)) (areturn p)
     else item_with_user_agent_below P n)))"

definition GetLastCommittedItemWithUserAgentType ::
    "('u, 'z) nav_platform_scheme \<Rightarrow> ('u nav_manager, item_ref option) action" where
  "GetLastCommittedItemWithUserAgentType P =
     abind (aget GetLastCommittedItemIndexInCurrentOrRestoredSession) (\<lambda>index.
     item_with_user_agent_below P (nat (index + 1)))"

section \<open>Pending items\<close>

definition DiscardNonCommittedItems :: "('u nav_manager, unit) action" where
  "DiscardNonCommittedItems = amodify (\<lambda>s. s\<lparr>pending_item := None, pending_item_index := -1\<rparr>)"

definition RemoveTransientURLRewriters :: "('u nav_manager, unit) action" where
  "RemoveTransientURLRewriters = amodify (\<lambda>s. s\<lparr>transient_url_rewriters := []\<rparr>)"

definition AddTransientURLRewriter :: "'u url_rewriter \<Rightarrow> ('u nav_manager, unit) action" where
  "AddTransientURLRewriter rewriter =
     amodify (\<lambda>s. s\<lparr>transient_url_rewriters := transient_url_rewriters s @ [rewriter]\<rparr>)"

definition SetWKWebViewNextPendingUrlNotSerializable :: "'u \<Rightarrow> ('u nav_manager, unit) action" where
  "SetWKWebViewNextPendingUrlNotSerializable url =
     amodify (\<lambda>s. s\<lparr>next_pending_url_should_skip_serialization := url\<rparr>)"

definition IsSameOrPlaceholderOf :: "('u, 'z) nav_platform_scheme \<Rightarrow> 'u \<Rightarrow> 'u \<Rightarrow> bool outcome" where
  "IsSameOrPlaceholderOf P url1 url2 =
     dcheck (\<not> use_js_for_error_page P)
       (if url1 = url2 then Inr True
        else obind (CreatePlaceholderUrlForUrl P url2) (\<lambda>p. Inr (url1 = p)))"

text \<open>The current list item of the web view.\<close>

definition current_wk :: "'u nav_manager \<Rightarrow> nat option" where
  "current_wk s =
     (case web_view s of None \<Rightarrow> None
      | Some v \<Rightarrow> if current_wk_item v = None then None else Some (length (back_list v)))"

definition proxy_url :: "('u, 'z) nav_platform_scheme \<Rightarrow> 'u nav_manager \<Rightarrow> 'u" where
  "proxy_url P s = (case web_view s of None \<Rightarrow> empty_gurl P | Some v \<Rightarrow> web_view_url v)"

text \<open>A transition is tested as a set of bits, as in the code.\<close>

definition is_plain_reload :: "('u, 'z) nav_platform_scheme \<Rightarrow> 32 word \<Rightarrow> bool" where
  "is_plain_reload P navigation_type \<longleftrightarrow>
     navigation_type AND page_transition_reload P \<noteq> 0 \<and> navigation_type AND page_transition_forward_back P = 0"

text \<open>The first part of \<open>AddPendingItem\<close>: the new item becomes the pending item.\<close>

definition create_pending_item ::
    "('u, 'z) nav_platform_scheme \<Rightarrow> 'u \<Rightarrow> 'u Referrer \<Rightarrow> 32 word \<Rightarrow> NavigationInitiationType \<Rightarrow> bool \<Rightarrow>
     ('u nav_manager, unit) action" where
  "create_pending_item P url referrer navigation_type initiation_type using_https =
     athen DiscardNonCommittedItems
     (abind (GetLastCommittedItemInCurrentOrRestoredSession P) (\<lambda>last.
      abind (url_behind P last) (\<lambda>last_url.
      abind (if page_transition_is_redirect P navigation_type
             then abind (GetLastCommittedItem P) (\<lambda>p.
                  if p = None then areturn None
                  else abind (GetLastCommittedItem P) (\<lambda>q. abind (load_pointer q) (\<lambda>i. areturn (Some (item_url i)))))
             else areturn None) (\<lambda>redirected_from.
      abind (aget transient_url_rewriters) (\<lambda>rewriters.
      abind (CreateNavigationItemWithRewriters P url referrer navigation_type initiation_type using_https
               (case last_url of None \<Rightarrow> empty_gurl P | Some u \<Rightarrow> u) rewriters redirected_from) (\<lambda>item.
      athen (amodify (\<lambda>s. s\<lparr>pending_item := Some item\<rparr>))
      (athen RemoveTransientURLRewriters
      (abind (aget next_pending_url_should_skip_serialization) (\<lambda>skip.
       athen (awhen (\<not> is_empty_url P skip \<and> url = skip)
                (set_item Pending (SetShouldSkipSerialization True)))
         (amodify (\<lambda>s. s\<lparr>next_pending_url_should_skip_serialization := empty_gurl P\<rparr>)))))))))))"

text \<open>The URL of the current list item, or the target of its redirect for a reload by the
  browser.\<close>

definition effective_current_item_url ::
    "('u, 'z) nav_platform_scheme \<Rightarrow> 32 word \<Rightarrow> NavigationInitiationType \<Rightarrow> 'u \<Rightarrow> 'u outcome" where
  "effective_current_item_url P navigation_type initiation_type url =
     (if is_plain_reload P navigation_type \<and> initiation_type = BROWSER_INITIATED \<and> IsRestoreSessionUrl P url
      then obind (ExtractTargetURL P url) (\<lambda>target. Inr (case target of None \<Rightarrow> url | Some u \<Rightarrow> u))
      else Inr url)"

definition restore_user_agent ::
    "('u, 'z) nav_platform_scheme \<Rightarrow> 32 word \<Rightarrow> 'u \<Rightarrow> ('u nav_manager, unit) action" where
  "restore_user_agent P navigation_type url =
     abind (aget (\<lambda>s. GetNavigationItemFromWKItem (current_wk s) s)) (\<lambda>p.
     case p of
       None \<Rightarrow> areturn ()
     | Some r \<Rightarrow>
         abind (load_item r) (\<lambda>current.
         if is_plain_reload P navigation_type \<and> IsRestoreSessionUrl P url \<and> user_agent_type current \<noteq> UA_NONE
         then
           abind (load_item Pending) (\<lambda>pending.
           abind (alift (URLNeedsUserAgentType P (item_url pending))) (\<lambda>needs.
           awhen needs (set_item_checked Pending (SetUserAgentType P (user_agent_type current)))))
         else areturn ()))"

definition is_current_url_same_as_pending ::
    "('u, 'z) nav_platform_scheme \<Rightarrow> 'u \<Rightarrow> 'u \<Rightarrow> 'u \<Rightarrow> bool outcome" where
  "is_current_url_same_as_pending P current_item_url pending_url view_url =
     (if use_js_for_error_page P then Inr (current_item_url = pending_url \<and> current_item_url = view_url)
      else
        obind (IsSameOrPlaceholderOf P current_item_url pending_url) (\<lambda>same.
        if same then IsSameOrPlaceholderOf P current_item_url view_url else Inr False))"

text \<open>The last part: the pending navigation is the one of the current list item.\<close>

definition reuse_current_item :: "('u, 'z) nav_platform_scheme \<Rightarrow> ('u nav_manager, unit) action" where
  "reuse_current_item P =
     athen (amodify (\<lambda>s. s\<lparr>pending_item_index := GetCurrentItemIndex s\<rparr>))
     (abind (load_item Pending) (\<lambda>pending.
      abind (aget current_wk) (\<lambda>wk.
      abind (aget (GetNavigationItemFromWKItem wk)) (\<lambda>p.
      athen (awhen (p = None) (SetNavigationItemInWKItem wk (Some pending)))
      (abind (aget (GetNavigationItemFromWKItem wk)) (\<lambda>current.
       athen (awhen (create_pending_item_for_post_form_submission P)
                (case current of
                   None \<Rightarrow> afail Null_dereference
                 | Some r \<Rightarrow> set_item r (SetTransitionType (transition_type pending))))
         (amodify (\<lambda>s. s\<lparr>pending_item := None\<rparr>))))))))"

definition AddPendingItem ::
    "('u, 'z) nav_platform_scheme \<Rightarrow> 'u \<Rightarrow> 'u Referrer \<Rightarrow> 32 word \<Rightarrow> NavigationInitiationType \<Rightarrow> bool \<Rightarrow> bool \<Rightarrow>
     ('u nav_manager, unit) action" where
  "AddPendingItem P url referrer navigation_type initiation_type is_post_navigation using_https =
     athen (create_pending_item P url referrer navigation_type initiation_type using_https)
     (abind (aget attached_to_web_view) (\<lambda>attached.
      if \<not> attached then areturn ()
      else
        abind (aget (\<lambda>s. wk_item_url P (current_wk s) s)) (\<lambda>wk_url.
        abind (alift (effective_current_item_url P navigation_type initiation_type wk_url)) (\<lambda>current_item_url.
        athen (restore_user_agent P navigation_type current_item_url)
        (abind (load_item Pending) (\<lambda>pending.
         abind (aget (proxy_url P)) (\<lambda>view_url.
         abind (alift (is_current_url_same_as_pending P current_item_url (item_url pending) view_url)) (\<lambda>same.
         abind (aget current_wk) (\<lambda>wk.
         (let is_form_post = create_pending_item_for_post_form_submission P \<and> is_post_navigation
                \<and> navigation_type AND page_transition_form_submit P \<noteq> 0
          in awhen (wk \<noteq> None \<and> same \<and> \<not> is_form_post) (reuse_current_item P)))))))))))"

definition ReleasePendingItem :: "('u nav_manager, 'u nav_item option) action" where
  "ReleasePendingItem =
     abind (aget pending_item) (\<lambda>item. athen (amodify (\<lambda>s. s\<lparr>pending_item := None\<rparr>)) (areturn item))"

definition SetPendingItem :: "'u nav_item option \<Rightarrow> ('u nav_manager, unit) action" where
  "SetPendingItem item = amodify (\<lambda>s. s\<lparr>pending_item := item\<rparr>)"

definition SetPendingItemIndex :: "int \<Rightarrow> ('u nav_manager, unit) action" where
  "SetPendingItemIndex index = amodify (\<lambda>s. s\<lparr>pending_item_index := index\<rparr>)"

definition UpdatePendingItemUrl :: "('u, 'z) nav_platform_scheme \<Rightarrow> 'u \<Rightarrow> ('u nav_manager, unit) action" where
  "UpdatePendingItemUrl P url =
     abind (GetPendingItemInCurrentOrRestoredSession P) (\<lambda>p.
     case p of
       None \<Rightarrow> areturn ()
     | Some r \<Rightarrow>
         abind (load_item r) (\<lambda>pending.
         awhen (url \<noteq> item_url pending)
           (set_item r (\<lambda>i. ResetHttpRequestHeaders (SetPostData None (SetVirtualURL P url (SetItemURL url i)))))))"

definition UpdateCurrentItemForReplaceState ::
    "('u, 'z) nav_platform_scheme \<Rightarrow> 'u \<Rightarrow> string option \<Rightarrow> ('u nav_manager, unit) action" where
  "UpdateCurrentItemForReplaceState P url state_object =
     abind (GetCurrentItemImpl P) (\<lambda>p.
     case p of
       None \<Rightarrow> afail Null_dereference
     | Some r \<Rightarrow> set_item r (\<lambda>i. SetPostData None (SetSerializedStateObject state_object (SetItemURL url i))))"

section \<open>Restoring sessions and loading\<close>

definition RewriteItemURLIfNecessary :: "('u, 'z) nav_platform_scheme \<Rightarrow> 'u nav_item \<Rightarrow> 'u nav_item" where
  "RewriteItemURLIfNecessary P item =
     (let (rewritten, url) = RewriteURLIfNecessary P (item_url item) in
      if rewritten then SetVirtualURL P (item_url item) (SetItemURL url item) else item)"

text \<open>What \<open>AddRestoreCompletionCallback\<close> does while a restoration is in progress.\<close>

definition store_restore_callback :: "'u restore_callback \<Rightarrow> ('u nav_manager, unit) action" where
  "store_restore_callback callback =
     amodify (\<lambda>s. s\<lparr>restore_session_completion_callbacks := restore_session_completion_callbacks s @ [callback]\<rparr>)"

text \<open>\<open>DetachFromWebView\<close>, and the delegate's \<open>RemoveWebView\<close> that calls it.\<close>

definition DetachFromWebView :: "('u, 'z) nav_platform_scheme \<Rightarrow> ('u nav_manager, unit) action" where
  "DetachFromWebView P =
     athen (DetachCacheFromWebView P) (amodify (\<lambda>s. s\<lparr>is_restore_session_in_progress := False\<rparr>))"

definition RemoveWebView :: "('u, 'z) nav_platform_scheme \<Rightarrow> ('u nav_manager, unit) action" where
  "RemoveWebView P =
     athen (call_delegate Called_RemoveWebView)
     (abind (aget web_view) (\<lambda>view.
      if view = None then areturn ()
      else athen (DetachFromWebView P) (amodify (\<lambda>s. s\<lparr>web_view := None, context_pending_item := None\<rparr>))))"

text \<open>The part of \<open>LoadURLWithParams\<close> that fills in the item which \<open>AddPendingItem\<close> made.\<close>

definition prepare_pending_item ::
    "('u, 'z) nav_platform_scheme \<Rightarrow> 'u WebLoadParams \<Rightarrow> item_ref \<Rightarrow> ('u nav_manager, unit) action" where
  "prepare_pending_item P params r =
     abind (GetLastCommittedItemInCurrentOrRestoredSession P) (\<lambda>last.
     abind (case last of
              None \<Rightarrow> areturn (empty_gurl P)
            | Some q \<Rightarrow> abind (load_item q) (\<lambda>i. areturn (GetVirtualURL P i))) (\<lambda>last_committed_url.
     abind (load_item r) (\<lambda>pending.
     athen (awhen (last_committed_url \<noteq> item_url pending \<and> equals_ignoring_ref P last_committed_url (item_url pending))
              (set_item r (SetIsCreatedFromHashChange True)))
     (athen (awhen (is_valid P (load_virtual_url params)) (set_item r (SetVirtualURL P (load_virtual_url params))))
        (awhen (is_using_https_as_default_scheme params) (set_item r SetUpgradedToHttps))))))"

definition prepare_added_item :: "'u WebLoadParams \<Rightarrow> item_ref \<Rightarrow> ('u nav_manager, unit) action" where
  "prepare_added_item params r =
     athen (awhen (extra_headers params \<noteq> None) (set_item r (AddHttpRequestHeaders (extra_headers params))))
     (athen (awhen (is_using_https_as_default_scheme params) (set_item r SetUpgradedToHttps))
        (case load_post_data params of
           None \<Rightarrow> areturn ()
         | Some data \<Rightarrow>
             abind (load_item r) (\<lambda>i.
             athen (adcheck (\<lambda>_. case http_request_headers i of None \<Rightarrow> False
                               | Some h \<Rightarrow> map_of h ''Content-Type'' \<noteq> None))
               (set_item r (\<lambda>i. SetShouldSkipRepostFormConfirmation True (SetPostData (Some data) i))))))"

text \<open>A load in detached mode puts the pending item behind the current cached item.\<close>

definition load_detached ::
    "(int \<Rightarrow> 'u nav_item list \<Rightarrow> ('u nav_manager, unit) action) \<Rightarrow> 'u nav_item \<Rightarrow> ('u nav_manager, unit) action"
    where
  "load_detached restore pending =
     abind ReleaseCachedItems (\<lambda>items.
     abind (aget (\<lambda>s. GetCurrentItemIndex s + 1)) (\<lambda>next_item_index.
     athen (adcheck (\<lambda>_. 0 < next_item_index))
     (athen (if nat next_item_index \<le> length items then areturn () else afail Null_dereference)
     (athen (amodify (\<lambda>s. s\<lparr>pending_item := None\<rparr>))
     (athen (restore next_item_index (take (nat next_item_index) items @ [pending]))
       (adcheck attached_to_web_view))))))"

definition LoadURLWithParams_with ::
    "(int \<Rightarrow> 'u nav_item list \<Rightarrow> ('u nav_manager, unit) action) \<Rightarrow> ('u, 'z) nav_platform_scheme \<Rightarrow>
     'u WebLoadParams \<Rightarrow> ('u nav_manager, unit) action" where
  "LoadURLWithParams_with restore P params =
     abind (aget is_restore_session_in_progress) (\<lambda>restoring.
     if restoring \<and> \<not> IsRestoreSessionUrl P (load_url params)
     then store_restore_callback (Deferred_load params)
     else
       athen (adcheck (\<lambda>_. load_transition_type params AND page_transition_forward_back P = 0))
       (athen (call_delegate Called_ClearDialogs)
       (athen (call_delegate Called_RecordPageState)
       (let initiation_type = (if is_renderer_initiated params then RENDERER_INITIATED else BROWSER_INITIATED) in
       athen (AddPendingItem P (load_url params) (load_referrer params) (load_transition_type params)
                initiation_type False (is_using_https_as_default_scheme params))
       (abind (GetPendingItemInCurrentOrRestoredSession P) (\<lambda>pending.
       athen (case pending of None \<Rightarrow> areturn () | Some r \<Rightarrow> prepare_pending_item P params r)
       (abind (if pending \<noteq> None then areturn pending else GetLastCommittedItemInCurrentOrRestoredSession P)
          (\<lambda>added.
       athen (case added of None \<Rightarrow> afail Dcheck_failed | Some r \<Rightarrow> prepare_added_item params r)
       (abind (aget (\<lambda>s. (attached_to_web_view s, pending_item s, GetBackForwardListItemCount s)))
          (\<lambda>(attached, item, count).
        if attached then call_delegate (Called_LoadCurrentItem initiation_type)
        else
          athen (adcheck (\<lambda>s. pending_item_index s = -1))
            (case (item, count) of
               (Some i, Suc _) \<Rightarrow> load_detached restore i
             | _ \<Rightarrow> athen ResetToAttached (call_delegate (Called_LoadCurrentItem initiation_type)))))))))))))"

text \<open>The load inside a restoration; see the introduction of this theory.\<close>

definition LoadURLWithParams_in_restore ::
    "('u, 'z) nav_platform_scheme \<Rightarrow> 'u WebLoadParams \<Rightarrow> ('u nav_manager, unit) action" where
  "LoadURLWithParams_in_restore P params = LoadURLWithParams_with (\<lambda>_ _. afail Dcheck_failed) P params"

definition restore_params ::
    "('u, 'z) nav_platform_scheme \<Rightarrow> 'u \<Rightarrow> 'u nav_item \<Rightarrow> 'u WebLoadParams" where
  "restore_params P url first_item =
     (new_WebLoadParams P url)\<lparr>load_transition_type := page_transition_reload P,
        load_virtual_url := GetVirtualURL P first_item\<rparr>"

definition UnsafeRestore ::
    "('u, 'z) nav_platform_scheme \<Rightarrow> int \<Rightarrow> 'u nav_item list \<Rightarrow> ('u nav_manager, unit) action" where
  "UnsafeRestore P last_index items =
     (let items = map (RewriteItemURLIfNecessary P) items in
      abind (alift (CreateRestoreSessionUrl P last_index
                      (map (\<lambda>i. (item_url i, item_title i)) items))) (\<lambda>(url, first_index).
      athen (adcheck (\<lambda>_. 0 \<le> first_index \<and> first_index < int (length items) \<and> is_valid P url))
      (let first_item = items ! nat first_index in
      athen (amodify (\<lambda>s. s\<lparr>is_restore_session_in_progress := True,
               restored_visible_item := (if -1 < last_index
                                         then Some (items ! nat last_index)
                                         else restored_visible_item s)\<rparr>))
      (athen (store_restore_callback
                (Restore_items_state kBackList (take (nat last_index) items)))
      (athen (store_restore_callback
                (Restore_items_state kForwardList (drop (nat (last_index + 1)) items)))
      (athen (LoadURLWithParams_in_restore P (restore_params P url first_item))
      (abind (GetPendingItemInCurrentOrRestoredSession P) (\<lambda>pending.
       case pending of None \<Rightarrow> areturn () | Some r \<Rightarrow> set_item r (SetTitle P (item_title first_item))))))))))"

definition Restore ::
    "('u, 'z) nav_platform_scheme \<Rightarrow> int \<Rightarrow> 'u nav_item list \<Rightarrow> ('u nav_manager, unit) action" where
  "Restore P last_index items =
     athen (adcheck (\<lambda>s. \<not> is_restore_session_in_progress s))
     (athen (adcheck (\<lambda>_. last_index < int (length items)))
     (athen (adcheck (\<lambda>_. items = [] \<or> 0 \<le> last_index))
     (if items = [] then areturn ()
      else
        abind (aget attached_to_web_view) (\<lambda>attached.
        athen (awhen (\<not> attached) ResetToAttached)
        (athen DiscardNonCommittedItems
        (abind (aget GetItemCount) (\<lambda>count.
        athen (awhen (0 < count) (RemoveWebView P))
        (athen (adcheck (\<lambda>s. GetItemCount s = 0))
        (athen (adcheck (\<lambda>s. pending_item_index s = -1))
        (athen (amodify (\<lambda>s. s\<lparr>last_committed_item_index := -1\<rparr>))
          (UnsafeRestore P last_index items))))))))))) "

definition LoadURLWithParams ::
    "('u, 'z) nav_platform_scheme \<Rightarrow> 'u WebLoadParams \<Rightarrow> ('u nav_manager, unit) action" where
  "LoadURLWithParams P params = LoadURLWithParams_with (Restore P) P params"

text \<open>Restoring the cached history as it is, from the detached state.\<close>

definition restore_cached_history ::
    "('u, 'z) nav_platform_scheme \<Rightarrow> int \<Rightarrow> ('u nav_manager, unit) action" where
  "restore_cached_history P index =
     abind ReleaseCachedItems (\<lambda>items. athen (Restore P index items) (adcheck attached_to_web_view))"

definition LoadIfNecessary :: "('u, 'z) nav_platform_scheme \<Rightarrow> ('u nav_manager, unit) action" where
  "LoadIfNecessary P =
     abind (aget (\<lambda>s. (attached_to_web_view s, GetCurrentItemIndex s))) (\<lambda>(attached, index).
     if \<not> attached then restore_cached_history P index else call_delegate Called_LoadIfNecessary)"

text \<open>The loop of \<open>RestoreItemsState\<close>; the indices are of type \<open>size_t\<close>.\<close>

definition restore_item_state ::
    "('u, 'z) nav_platform_scheme \<Rightarrow> nat \<Rightarrow> 'u nav_item \<Rightarrow> ('u nav_manager, unit) action" where
  "restore_item_state P cache_index restore_item =
     abind (GetCachedOrLinkedItemAtIndex P cache_index True) (\<lambda>p.
     case p of
       None \<Rightarrow> areturn ()
     | Some r \<Rightarrow>
         abind (load_item r) (\<lambda>cached_item.
         abind (alift (if IsRestoreSessionUrl P (item_url cached_item)
                       then ExtractTargetURL P (item_url cached_item) else Inr None)) (\<lambda>target.
         awhen (case target of None \<Rightarrow> item_url cached_item = item_url restore_item
                | Some u \<Rightarrow> u = item_url restore_item)
           (set_item_checked r (RestoreStateFromItem P restore_item)))))"

fun restore_items_from ::
    "('u, 'z) nav_platform_scheme \<Rightarrow> nat \<Rightarrow> nat \<Rightarrow> 'u nav_item list \<Rightarrow> ('u nav_manager, unit) action" where
  "restore_items_from P cache_index cache_limit [] = areturn ()"
| "restore_items_from P cache_index cache_limit (item # items) =
     (if cache_index \<ge> cache_limit then areturn ()
      else athen (restore_item_state P cache_index item)
             (restore_items_from P (Suc cache_index) cache_limit items))"

definition RestoreItemsState ::
    "('u, 'z) nav_platform_scheme \<Rightarrow> RestoreItemListType \<Rightarrow> 'u nav_item list \<Rightarrow> ('u nav_manager, unit) action" where
  "RestoreItemsState P list_type items_restored =
     abind (aget (\<lambda>s. (GetCurrentItemIndex s, GetBackForwardListItemCount s))) (\<lambda>(current, count).
     case list_type of
       kBackList \<Rightarrow> restore_items_from P 0 (nat (current mod 2 ^ 64)) items_restored
     | kForwardList \<Rightarrow> restore_items_from P (nat ((current + 1) mod 2 ^ 64)) count items_restored)"

definition run_callback ::
    "('u, 'z) nav_platform_scheme \<Rightarrow> 'u restore_callback \<Rightarrow> ('u nav_manager, unit) action" where
  "run_callback P callback =
     (case callback of
        Restore_items_state list_type items \<Rightarrow> RestoreItemsState P list_type items
      | Deferred_load params \<Rightarrow> LoadURLWithParams P params
      | Client_callback n \<Rightarrow> call_delegate (Ran_client_callback n))"

definition AddRestoreCompletionCallback ::
    "('u, 'z) nav_platform_scheme \<Rightarrow> 'u restore_callback \<Rightarrow> ('u nav_manager, unit) action" where
  "AddRestoreCompletionCallback P callback =
     abind (aget is_restore_session_in_progress) (\<lambda>restoring.
     if \<not> restoring then run_callback P callback else store_restore_callback callback)"

text \<open>The callbacks run while the loop is inside their vector; a callback that adds another one
  would invalidate the iterator, which is a fault here.\<close>

definition run_stored_callback ::
    "('u, 'z) nav_platform_scheme \<Rightarrow> nat \<Rightarrow> 'u restore_callback \<Rightarrow> ('u nav_manager, unit) action" where
  "run_stored_callback P n callback =
     athen (run_callback P callback)
       (abind (aget (\<lambda>s. length (restore_session_completion_callbacks s))) (\<lambda>m.
        if m = n then areturn () else afail Range_error))"

definition FinalizeSessionRestore :: "('u, 'z) nav_platform_scheme \<Rightarrow> ('u nav_manager, unit) action" where
  "FinalizeSessionRestore P =
     athen (amodify (\<lambda>s. s\<lparr>is_restore_session_in_progress := False\<rparr>))
     (abind (aget restore_session_completion_callbacks) (\<lambda>callbacks.
      athen (aforeach (run_stored_callback P (length callbacks)) callbacks)
      (athen (amodify (\<lambda>s. s\<lparr>restore_session_completion_callbacks := []\<rparr>))
        (LoadIfNecessary P))))"

section \<open>Commits and the start of navigations\<close>

definition OnNavigationItemCommitted :: "('u, 'z) nav_platform_scheme \<Rightarrow> ('u nav_manager, unit) action" where
  "OnNavigationItemCommitted P =
     abind (GetLastCommittedItemInCurrentOrRestoredSession P) (\<lambda>p.
     case p of
       None \<Rightarrow> afail Dcheck_failed
     | Some r \<Rightarrow>
         athen (call_delegate (Called_OnNavigationItemCommitted r))
         (abind (load_item r) (\<lambda>item.
          if IsRestoreSessionUrl P (item_url item) then areturn ()
          else
            athen (amodify (\<lambda>s. s\<lparr>restored_visible_item := None\<rparr>))
            (abind (aget is_restore_session_in_progress) (\<lambda>restoring.
             awhen restoring (FinalizeSessionRestore P))))))"

definition starts_with_about_blank :: "('u, 'z) nav_platform_scheme \<Rightarrow> 'u nav_manager \<Rightarrow> bool" where
  "starts_with_about_blank P s \<longleftrightarrow> take (length kAboutBlankURL) (spec P (proxy_url P s)) = kAboutBlankURL"

text \<open>A web view without a current list item has no history.\<close>

definition no_history :: "'u nav_manager \<Rightarrow> bool" where
  "no_history s \<longleftrightarrow> (case web_view s of None \<Rightarrow> True | Some v \<Rightarrow> back_list v = [] \<and> forward_list v = [])"

definition finish_commit :: "('u, 'z) nav_platform_scheme \<Rightarrow> ('u nav_manager, unit) action" where
  "finish_commit P =
     athen (amodify (\<lambda>s. s\<lparr>last_committed_item_index :=
                (if empty_window_open_item s \<noteq> None then 0 else GetCurrentItemIndex s)\<rparr>))
       (OnNavigationItemCommitted P)"

definition commit_new_item :: "('u, 'z) nav_platform_scheme \<Rightarrow> 'u nav_item \<Rightarrow> ('u nav_manager, unit) action" where
  "commit_new_item P pending =
     abind smooth_time (\<lambda>t.
     abind (aget (\<lambda>s. (web_view s, current_wk s))) (\<lambda>(view, wk).
     (let item = SetTimestamp t (ResetForCommit pending) in
      if view \<noteq> None \<and> wk = None
      then athen (adcheck (starts_with_about_blank P)) (athen (adcheck no_history)
             (amodify (\<lambda>s. s\<lparr>empty_window_open_item := Some item\<rparr>)))
      else athen (amodify (\<lambda>s. s\<lparr>empty_window_open_item := None\<rparr>))
             (SetNavigationItemInWKItem wk (Some item)))))"

definition CommitPendingItem :: "('u, 'z) nav_platform_scheme \<Rightarrow> ('u nav_manager, unit) action" where
  "CommitPendingItem P =
     athen (adcheck attached_to_web_view)
     (abind (aget (\<lambda>s. (pending_item_index s, pending_item s))) (\<lambda>(index, pending).
      if index = -1 \<and> pending = None then amodify (\<lambda>s. s\<lparr>empty_window_open_item := None\<rparr>)
      else
        athen (if index = -1
               then (case pending of None \<Rightarrow> areturn () | Some i \<Rightarrow> commit_new_item P i)
               else areturn ())
        (athen DiscardNonCommittedItems (finish_commit P))))"

text \<open>The list item that a committed item is stored in: the current one, unless only a neighbour
  has its URL.\<close>

definition list_item_for ::
    "('u, 'z) nav_platform_scheme \<Rightarrow> 'u \<Rightarrow> 'u nav_manager \<Rightarrow> nat option" where
  "list_item_for P url s =
     (case web_view s of
        None \<Rightarrow> None
      | Some v \<Rightarrow>
          let current = current_wk s;
              back_item = (if back_list v = [] then None else Some (length (back_list v) - 1));
              forward_item = (if forward_list v = [] then None
                              else Some (length (back_list v) + (if current_wk_item v = None then 0 else 1)))
          in if url = wk_item_url P current s then current
             else if back_item \<noteq> None \<and> url = wk_item_url P back_item s then back_item
             else if forward_item \<noteq> None \<and> url = wk_item_url P forward_item s then forward_item
             else current)"

definition CommitGivenItem ::
    "('u, 'z) nav_platform_scheme \<Rightarrow> 'u nav_item option \<Rightarrow> ('u nav_manager, unit) action" where
  "CommitGivenItem P given =
     (case given of
        None \<Rightarrow> CommitPendingItem P
      | Some committed \<Rightarrow>
          athen (adcheck attached_to_web_view)
          (abind smooth_time (\<lambda>t.
           abind (aget (\<lambda>s. (web_view s, current_wk s))) (\<lambda>(view, wk).
           (let item = SetTimestamp t (ResetForCommit committed) in
            athen
              (if view \<noteq> None \<and> wk = None
               then
                 athen (adcheck (\<lambda>s. running_on_ios13_or_later P \<or> starts_with_about_blank P s))
                 (athen (adcheck no_history)
                   (amodify (\<lambda>s. s\<lparr>empty_window_open_item := Some item\<rparr>)))
               else
                 athen (amodify (\<lambda>s. s\<lparr>empty_window_open_item := None\<rparr>))
                 (abind (aget (list_item_for P (item_url item))) (\<lambda>target.
                  SetNavigationItemInWKItem target (Some item))))
              (finish_commit P))))))"

definition OnNavigationStarted :: "('u, 'z) nav_platform_scheme \<Rightarrow> 'u \<Rightarrow> ('u nav_manager, unit) action" where
  "OnNavigationStarted P url =
     abind (aget is_restore_session_in_progress) (\<lambda>restoring.
     if \<not> restoring then areturn ()
     else if IsRestoreSessionUrl P url then
       abind (alift (ExtractTargetURL P url)) (\<lambda>target.
       awhen (target = None) (amodify (\<lambda>s. s\<lparr>restoration_timer := True\<rparr>)))
     else
       athen (amodify (\<lambda>s. s\<lparr>restoration_timer := False\<rparr>))
       (abind (aget GetLastCommittedItemIndexInCurrentOrRestoredSession) (\<lambda>index.
       athen (adcheck (\<lambda>s. index \<noteq> -1 \<or> GetItemCount s = 0))
       (abind (aget restored_visible_item) (\<lambda>restored.
       athen (case restored of
                None \<Rightarrow> areturn ()
              | Some visible \<Rightarrow>
                  awhen (index \<noteq> -1 \<and> user_agent_type visible \<noteq> UA_NONE)
                    (abind (GetNavigationItemImplAtIndex P index) (\<lambda>p.
                     case p of
                       None \<Rightarrow> afail Null_dereference
                     | Some r \<Rightarrow> set_item_checked r (SetUserAgentType P (user_agent_type visible)))))
         (FinalizeSessionRestore P))))))"

text \<open>\<open>native\<close> is the answer of the client: the web view after a native restoration, if it did
  one.\<close>

definition RestoreSessionFromCache ::
    "('u, 'z) nav_platform_scheme \<Rightarrow> 'u web_view option \<Rightarrow> 'u \<Rightarrow> ('u nav_manager, bool) action" where
  "RestoreSessionFromCache P native url =
     athen (adcheck is_restore_session_in_progress)
     (abind (alift (if IsRestoreSessionUrl P url then obind (ExtractTargetURL P url) (\<lambda>t. Inr (t = None))
                    else Inr False)) (\<lambda>whole_session.
      if \<not> whole_session then areturn False
      else
        athen (call_delegate Called_RestoreSessionFromCache)
        (case native of
           None \<Rightarrow> areturn False
         | Some v \<Rightarrow>
             athen (amodify (\<lambda>s. s\<lparr>web_view := Some v\<rparr>))
             (athen DiscardNonCommittedItems
             (athen (amodify (\<lambda>s. s\<lparr>last_committed_item_index := GetCurrentItemIndex s\<rparr>))
             (abind (aget restored_visible_item) (\<lambda>restored.
             athen (case restored of
                      None \<Rightarrow> areturn ()
                    | Some visible \<Rightarrow>
                        awhen (user_agent_type visible \<noteq> UA_NONE)
                          (abind (GetLastCommittedItemInCurrentOrRestoredSession P) (\<lambda>p.
                           case p of
                             None \<Rightarrow> afail Null_dereference
                           | Some r \<Rightarrow> set_item_checked r (SetUserAgentType P (user_agent_type visible)))))
             (athen (amodify (\<lambda>s. s\<lparr>restored_visible_item := None\<rparr>))
             (athen (FinalizeSessionRestore P) (areturn True))))))))))"

section \<open>Navigation\<close>

text \<open>\<open>GoToIndex\<close> with an initiation type, and the one of the public interface.\<close>

definition GoToIndexWith ::
    "('u, 'z) nav_platform_scheme \<Rightarrow> int \<Rightarrow> NavigationInitiationType \<Rightarrow> bool \<Rightarrow> ('u nav_manager, unit) action" where
  "GoToIndexWith P index initiation_type has_user_gesture =
     abind (aget (\<lambda>s. (GetItemCount s, attached_to_web_view s))) (\<lambda>(count, attached).
     if index < 0 \<or> int count \<le> index then afail Notreached
     else
       athen (call_delegate Called_RecordPageState)
       (athen (call_delegate Called_ClearDialogs)
       (if \<not> attached then restore_cached_history P index
        else
          athen DiscardNonCommittedItems
          (abind (GetItemAtIndex P index) (\<lambda>p.
           athen (case p of
                    None \<Rightarrow> afail Null_dereference
                  | Some r \<Rightarrow> set_item r (\<lambda>i. SetTransitionType (transition_type i OR page_transition_forward_back P) i))
           (abind (GetWKItemAtIndex (nat index)) (\<lambda>wk.
            case wk of
              Some n \<Rightarrow>
                athen (amodify (\<lambda>s. s\<lparr>going_to_back_forward_list_item := True\<rparr>))
                (athen (call_delegate (Called_GoToBackForwardListItem n initiation_type has_user_gesture))
                  (amodify (\<lambda>s. s\<lparr>going_to_back_forward_list_item := False\<rparr>)))
            | None \<Rightarrow> adcheck (\<lambda>s. index = 0 \<and> empty_window_open_item s \<noteq> None))))))))"

definition GoToIndex :: "('u, 'z) nav_platform_scheme \<Rightarrow> int \<Rightarrow> ('u nav_manager, unit) action" where
  "GoToIndex P index =
     abind (GetLastCommittedItemInCurrentOrRestoredSession P) (\<lambda>p.
     abind (url_behind P p) (\<lambda>url.
     if (case url of None \<Rightarrow> False | Some u \<Rightarrow> IsRestoreSessionUrl P u) then areturn ()
     else GoToIndexWith P index BROWSER_INITIATED True))"

definition GoBack :: "('u, 'z) nav_platform_scheme \<Rightarrow> ('u nav_manager, unit) action" where
  "GoBack P = abind (aget (GetIndexForOffset (-1))) (GoToIndex P)"

definition GoForward :: "('u, 'z) nav_platform_scheme \<Rightarrow> ('u nav_manager, unit) action" where
  "GoForward P = abind (aget (GetIndexForOffset 1)) (GoToIndex P)"

datatype ReloadType = RELOAD_NORMAL | ORIGINAL_REQUEST_URL

definition reload_with_original_url :: "('u, 'z) nav_platform_scheme \<Rightarrow> ('u nav_manager, unit) action" where
  "reload_with_original_url P =
     abind (GetPendingItem P) (\<lambda>pending.
     abind (if pending \<noteq> None then GetPendingItem P else GetLastCommittedItemInCurrentOrRestoredSession P) (\<lambda>p.
     case p of
       None \<Rightarrow> afail Dcheck_failed
     | Some r \<Rightarrow> set_item r (\<lambda>i. SetItemURL (original_request_url i) i)))"

definition Reload :: "('u, 'z) nav_platform_scheme \<Rightarrow> ReloadType \<Rightarrow> ('u nav_manager, unit) action" where
  "Reload P reload_type =
     abind (aget is_restore_session_in_progress) (\<lambda>restoring.
     if restoring then areturn ()
     else
       abind (GetPendingItem P) (\<lambda>pending.
       abind (if pending \<noteq> None then areturn pending else GetLastCommittedItemInCurrentOrRestoredSession P) (\<lambda>any.
       if any = None then areturn ()
       else
         athen (call_delegate Called_ClearDialogs)
         (athen (awhen (reload_type = ORIGINAL_REQUEST_URL) (reload_with_original_url P))
         (abind (aget (\<lambda>s. (attached_to_web_view s, GetCurrentItemIndex s))) (\<lambda>(attached, index).
          if \<not> attached then restore_cached_history P index else call_delegate Called_Reload))))))"

definition reload_params :: "('u, 'z) nav_platform_scheme \<Rightarrow> 'u nav_item \<Rightarrow> 'u WebLoadParams" where
  "reload_params P item =
     (let reload_url = (if is_empty_url P (original_request_url item) then GetVirtualURL P item
                        else original_request_url item);
          params = new_WebLoadParams P reload_url
      in params\<lparr>load_virtual_url := (if GetVirtualURL P item \<noteq> reload_url then GetVirtualURL P item
                                   else load_virtual_url params),
                load_referrer := item_referrer item, load_transition_type := page_transition_reload P\<rparr>)"

definition ReloadWithUserAgentType ::
    "('u, 'z) nav_platform_scheme \<Rightarrow> UserAgentType \<Rightarrow> ('u nav_manager, unit) action" where
  "ReloadWithUserAgentType P t =
     athen (adcheck (\<lambda>_. t \<noteq> UA_NONE))
     (abind (GetVisibleItem P) (\<lambda>visible.
      abind (if visible \<noteq> None then areturn visible else GetLastCommittedItem P) (\<lambda>p.
      case p of
        None \<Rightarrow> areturn ()
      | Some r \<Rightarrow>
          abind (load_item r) (\<lambda>item.
          athen (call_delegate (Called_SetWebStateUserAgent t))
          (athen (set_item_checked r (SetUserAgentType P t))
            (LoadURLWithParams P (reload_params P item)))))))"

definition ApplyWKWebViewForwardHistoryClobberWorkaround ::
    "('u, 'z) nav_platform_scheme \<Rightarrow> ('u nav_manager, unit) action" where
  "ApplyWKWebViewForwardHistoryClobberWorkaround P =
     athen (adcheck attached_to_web_view)
     (abind (aget (\<lambda>s. (GetCurrentItemIndex s, GetItemCount s))) (\<lambda>(current, count).
      athen (adcheck (\<lambda>_. 0 \<le> current \<and> current < int count))
      (abind (amapM (\<lambda>i. abind (GetNavigationItemImplAtIndex P (int i)) load_pointer) [nat current..<count])
        (\<lambda>forward_items.
       athen DiscardNonCommittedItems (UnsafeRestore P 0 forward_items)))))"

section \<open>Items by identifier\<close>

fun committed_index_from ::
    "('u, 'z) nav_platform_scheme \<Rightarrow> int \<Rightarrow> nat list \<Rightarrow> ('u nav_manager, int) action" where
  "committed_index_from P i [] = areturn (-1)"
| "committed_index_from P i (n # ns) =
     abind (GetItemAtIndex P (int n)) (\<lambda>p.
     abind (load_pointer p) (\<lambda>item.
     if unique_id item = i then areturn (int n) else committed_index_from P i ns))"

definition GetCommittedItemIndexWithUniqueID ::
    "('u, 'z) nav_platform_scheme \<Rightarrow> int \<Rightarrow> ('u nav_manager, int) action" where
  "GetCommittedItemIndexWithUniqueID P i =
     abind (aget GetItemCount) (\<lambda>count. committed_index_from P i [0..<count])"

definition GetCommittedItemWithUniqueID ::
    "('u, 'z) nav_platform_scheme \<Rightarrow> int \<Rightarrow> ('u nav_manager, item_ref option) action" where
  "GetCommittedItemWithUniqueID P i =
     abind (GetCommittedItemIndexWithUniqueID P i) (\<lambda>index.
     if index \<noteq> -1 then GetNavigationItemImplAtIndex P index else areturn None)"

text \<open>\<open>held\<close> is the item of the navigation context, if it still holds one.\<close>

definition GetItemWithUniqueID ::
    "('u, 'z) nav_platform_scheme \<Rightarrow> item_ref option \<Rightarrow> int \<Rightarrow> ('u nav_manager, item_ref option) action" where
  "GetItemWithUniqueID P held i =
     (if held \<noteq> None then areturn held
      else
        abind (GetPendingItemInCurrentOrRestoredSession P) (\<lambda>pending.
        abind (case pending of None \<Rightarrow> areturn False
               | Some r \<Rightarrow> abind (load_item r) (\<lambda>item. areturn (unique_id item = i))) (\<lambda>found.
        if found then areturn pending else GetCommittedItemWithUniqueID P i)))"

end
