(* ===== verification/Navigation_Reads.thy ===== *)
theory Navigation_Reads
  imports Navigation_Manager
begin

text \<open>
  What the getters of the navigation manager do to its state.  They link items to list items that
  have none, number and time the new items and refresh the untrusted placeholder item; the relation
  \<open>extends\<close> says that nothing else changed, in particular that the list and the existing items are
  the same.  Every getter keeps it and stops nowhere but at its own \<open>DCHECK\<close>.
\<close>

section \<open>The back-forward list\<close>

text \<open>WebKit: without a current item there is no history.\<close>

definition wf_view :: "'u web_view \<Rightarrow> bool" where
  "wf_view v \<longleftrightarrow> (current_wk_item v = None \<longrightarrow> back_list v = [] \<and> forward_list v = [])"

lemma wk_items_update_wk:
  "wk_items (update_wk n f v) = (wk_items v)[n := f (wk_items v ! n)]"
proof (cases "current_wk_item v")
  case None
  then show ?thesis by (simp add: wk_items_def update_wk_def Let_def list_update_append nth_append)
next
  case (Some c)
  consider "n < length (back_list v)" | "n = length (back_list v)" | k where "n = Suc (length (back_list v) + k)"
    by (metis less_imp_Suc_add linorder_neqE_nat)
  then show ?thesis
    by cases (simp_all add: Some wk_items_def update_wk_def Let_def list_update_append nth_append)
qed

lemma update_wk_simps [simp]:
  "web_view_url (update_wk n f v) = web_view_url v"
  "length (back_list (update_wk n f v)) = length (back_list v)"
  "length (forward_list (update_wk n f v)) = length (forward_list v)"
  "current_wk_item (update_wk n f v) = None \<longleftrightarrow> current_wk_item v = None"
  "length (wk_items (update_wk n f v)) = length (wk_items v)"
proof -
  show "length (wk_items (update_wk n f v)) = length (wk_items v)" by (simp add: wk_items_update_wk)
qed (simp_all add: update_wk_def Let_def split: option.split)

lemma itemAtIndex_relative:
  assumes "wf_view v" and "n < length (wk_items v)"
  shows "itemAtIndex v (int n - int (length (back_list v))) = Some n"
  using assms
  by (cases "current_wk_item v") (auto simp: itemAtIndex_def wf_view_def wk_items_def Let_def nat_diff_distrib)

lemma itemAtIndex_bound: "itemAtIndex v k = Some n \<Longrightarrow> n < length (wk_items v)"
  by (cases "current_wk_item v") (auto simp: itemAtIndex_def wk_items_def Let_def split: if_splits)

section \<open>Extension of a state\<close>

definition wk_extends :: "'u web_view \<Rightarrow> 'u web_view \<Rightarrow> bool" where
  "wk_extends v w \<longleftrightarrow>
     web_view_url w = web_view_url v \<and> length (back_list w) = length (back_list v) \<and>
     length (forward_list w) = length (forward_list v) \<and>
     (current_wk_item w = None \<longleftrightarrow> current_wk_item v = None) \<and>
     length (wk_items w) = length (wk_items v) \<and>
     (\<forall>n < length (wk_items v).
        wk_url (wk_items w ! n) = wk_url (wk_items v ! n) \<and>
        wk_title (wk_items w ! n) = wk_title (wk_items v ! n) \<and>
        (wk_holder (wk_items v ! n) \<noteq> None \<longrightarrow> wk_holder (wk_items w ! n) = wk_holder (wk_items v ! n)))"

text \<open>The state without what a getter may change.\<close>

definition fixed_part :: "'u nav_manager \<Rightarrow> 'u nav_manager" where
  "fixed_part s =
     s\<lparr>web_view := None, unique_id_counter := 0, time_smoother := new_TimeSmoother,
       last_committed_web_view_item := None\<rparr>"

definition extends :: "'u nav_manager \<Rightarrow> 'u nav_manager \<Rightarrow> bool" where
  "extends s t \<longleftrightarrow> fixed_part t = fixed_part s \<and> rel_option wk_extends (web_view s) (web_view t)"

lemma wk_extends_refl [simp]: "wk_extends v v"
  by (simp add: wk_extends_def)

lemma wk_extends_trans: "wk_extends u v \<Longrightarrow> wk_extends v w \<Longrightarrow> wk_extends u w"
  by (auto simp: wk_extends_def)

lemma extends_refl [simp]: "extends s s"
  by (simp add: extends_def option.rel_refl)

lemma extends_trans: "extends s t \<Longrightarrow> extends t u \<Longrightarrow> extends s u"
  unfolding extends_def by (auto elim!: option.rel_cases intro: wk_extends_trans)

lemma fixed_part_simps [simp]:
  "pending_item (fixed_part s) = pending_item s"
  "pending_item_index (fixed_part s) = pending_item_index s"
  "last_committed_item_index (fixed_part s) = last_committed_item_index s"
  "empty_window_open_item (fixed_part s) = empty_window_open_item s"
  "attached_to_web_view (fixed_part s) = attached_to_web_view s"
  "cached_items (fixed_part s) = cached_items s"
  "cached_current_item_index (fixed_part s) = cached_current_item_index s"
  "is_restore_session_in_progress (fixed_part s) = is_restore_session_in_progress s"
  "restored_visible_item (fixed_part s) = restored_visible_item s"
  "context_pending_item (fixed_part s) = context_pending_item s"
  "restore_session_completion_callbacks (fixed_part s) = restore_session_completion_callbacks s"
  "calls (fixed_part s) = calls s"
  "is_loading (fixed_part s) = is_loading s"
  "document_url (fixed_part s) = document_url s"
  "transient_url_rewriters (fixed_part s) = transient_url_rewriters s"
  "next_pending_url_should_skip_serialization (fixed_part s) = next_pending_url_should_skip_serialization s"
  "going_to_back_forward_list_item (fixed_part s) = going_to_back_forward_list_item s"
  "now (fixed_part s) = now s"
  "restoration_timer (fixed_part s) = restoration_timer s"
  by (simp_all add: fixed_part_def)

lemma extends_fields:
  assumes "extends s t"
  shows "pending_item t = pending_item s"
    "pending_item_index t = pending_item_index s"
    "last_committed_item_index t = last_committed_item_index s"
    "empty_window_open_item t = empty_window_open_item s"
    "attached_to_web_view t = attached_to_web_view s"
    "cached_items t = cached_items s"
    "cached_current_item_index t = cached_current_item_index s"
    "is_restore_session_in_progress t = is_restore_session_in_progress s"
    "restored_visible_item t = restored_visible_item s"
    "context_pending_item t = context_pending_item s"
    "restore_session_completion_callbacks t = restore_session_completion_callbacks s"
    "calls t = calls s"
    "is_loading t = is_loading s"
    "document_url t = document_url s"
    "transient_url_rewriters t = transient_url_rewriters s"
    "next_pending_url_should_skip_serialization t = next_pending_url_should_skip_serialization s"
    "going_to_back_forward_list_item t = going_to_back_forward_list_item s"
    "now t = now s"
    "restoration_timer t = restoration_timer s"
proof -
  have e: "fixed_part t = fixed_part s" using assms by (simp add: extends_def)
  show "pending_item t = pending_item s" using arg_cong [OF e, of pending_item] by simp
  show "pending_item_index t = pending_item_index s" using arg_cong [OF e, of pending_item_index] by simp
  show "last_committed_item_index t = last_committed_item_index s" using arg_cong [OF e, of last_committed_item_index] by simp
  show "empty_window_open_item t = empty_window_open_item s" using arg_cong [OF e, of empty_window_open_item] by simp
  show "attached_to_web_view t = attached_to_web_view s" using arg_cong [OF e, of attached_to_web_view] by simp
  show "cached_items t = cached_items s" using arg_cong [OF e, of cached_items] by simp
  show "cached_current_item_index t = cached_current_item_index s" using arg_cong [OF e, of cached_current_item_index] by simp
  show "is_restore_session_in_progress t = is_restore_session_in_progress s" using arg_cong [OF e, of is_restore_session_in_progress] by simp
  show "restored_visible_item t = restored_visible_item s" using arg_cong [OF e, of restored_visible_item] by simp
  show "context_pending_item t = context_pending_item s" using arg_cong [OF e, of context_pending_item] by simp
  show "restore_session_completion_callbacks t = restore_session_completion_callbacks s" using arg_cong [OF e, of restore_session_completion_callbacks] by simp
  show "calls t = calls s" using arg_cong [OF e, of calls] by simp
  show "is_loading t = is_loading s" using arg_cong [OF e, of is_loading] by simp
  show "document_url t = document_url s" using arg_cong [OF e, of document_url] by simp
  show "transient_url_rewriters t = transient_url_rewriters s" using arg_cong [OF e, of transient_url_rewriters] by simp
  show "next_pending_url_should_skip_serialization t = next_pending_url_should_skip_serialization s" using arg_cong [OF e, of next_pending_url_should_skip_serialization] by simp
  show "going_to_back_forward_list_item t = going_to_back_forward_list_item s" using arg_cong [OF e, of going_to_back_forward_list_item] by simp
  show "now t = now s" using arg_cong [OF e, of now] by simp
  show "restoration_timer t = restoration_timer s" using arg_cong [OF e, of restoration_timer] by simp
qed

lemma extends_view_None: "extends s t \<Longrightarrow> web_view s = None \<longleftrightarrow> web_view t = None"
  by (auto simp: extends_def elim: option.rel_cases)

lemma extends_view_Some:
  assumes "extends s t" and "web_view s = Some v"
  obtains w where "web_view t = Some w" and "wk_extends v w"
  using assms by (auto simp: extends_def elim: option.rel_cases)

lemma extends_derived:
  assumes "extends s t"
  shows "GetBackForwardListItemCount t = GetBackForwardListItemCount s" "GetCurrentItemIndex t = GetCurrentItemIndex s"
    "GetItemCount t = GetItemCount s" "current_wk t = current_wk s" "proxy_url P t = proxy_url P s"
    "GetVisibleWebViewURL P t = GetVisibleWebViewURL P s" "CanTrustLastCommittedItem P i t = CanTrustLastCommittedItem P i s"
    "GetLastCommittedItemIndexInCurrentOrRestoredSession t = GetLastCommittedItemIndexInCurrentOrRestoredSession s"
    "GetIndexForOffset k t = GetIndexForOffset k s"
proof -
  note f = extends_fields [OF assms]
  show c: "GetBackForwardListItemCount t = GetBackForwardListItemCount s"
    "GetCurrentItemIndex t = GetCurrentItemIndex s" "current_wk t = current_wk s" "proxy_url P t = proxy_url P s"
    using assms
    by (cases "web_view s"; cases "web_view t";
        simp add: GetBackForwardListItemCount_def GetCurrentItemIndex_def current_wk_def proxy_url_def f
          extends_def wk_extends_def)+
  show "GetItemCount t = GetItemCount s" by (simp add: GetItemCount_def f c)
  show v: "GetVisibleWebViewURL P t = GetVisibleWebViewURL P s"
    using c(4) by (simp add: GetVisibleWebViewURL_def proxy_url_def f split: option.splits)
  show "CanTrustLastCommittedItem P i t = CanTrustLastCommittedItem P i s"
    by (simp add: CanTrustLastCommittedItem_def f v)
  show "GetLastCommittedItemIndexInCurrentOrRestoredSession t = GetLastCommittedItemIndexInCurrentOrRestoredSession s"
    by (simp add: GetLastCommittedItemIndexInCurrentOrRestoredSession_def f c)
  show "GetIndexForOffset k t = GetIndexForOffset k s" by (simp add: GetIndexForOffset_def f c)
qed

lemma extends_deref:
  assumes "extends s t" and "deref s r = Some i" and "r \<noteq> Web_view_item"
  shows "deref t r = Some i"
proof (cases r)
  case (Wk n)
  with assms(2) obtain v where v: "web_view s = Some v" "n < length (wk_items v)" "wk_holder (wk_items v ! n) = Some i"
    by (auto split: option.splits if_splits)
  from assms(1) v(1) obtain w where "web_view t = Some w" "wk_extends v w" by (rule extends_view_Some)
  with v Wk show ?thesis by (auto simp: wk_extends_def)
qed (use assms in \<open>simp_all add: extends_fields [OF assms(1)] split: if_splits\<close>)

lemma extends_wk_item_at:
  assumes "extends s t"
  shows "map_option (\<lambda>w. (wk_url w, wk_title w)) (wk_item_at k t) = map_option (\<lambda>w. (wk_url w, wk_title w)) (wk_item_at k s)"
  using assms
  by (cases k; cases "web_view s"; cases "web_view t")
    (auto simp: wk_item_at_def extends_def wk_extends_def)

lemma extends_wk_item_url: "extends s t \<Longrightarrow> wk_item_url P k t = wk_item_url P k s"
  using extends_wk_item_at [of s t k] by (auto simp: wk_item_url_def split: option.splits)

section \<open>Creating and linking items\<close>

lemma IsPlaceholderUrl_guarded: "\<exists>b. (if use_js_for_error_page P then Inr False else IsPlaceholderUrl P u) = Inr b"
  by (cases "use_js_for_error_page P") (auto simp: IsPlaceholderUrl_def)

lemma rewritten_url_returns: "\<exists>u. rewritten_url P url rewriters = Inr u"
  by (auto simp: rewritten_url_def IsPlaceholderUrl_def)

lemma ExtractUrlFromPlaceholderUrl_returns: "\<not> use_js_for_error_page P \<Longrightarrow> \<exists>u. ExtractUrlFromPlaceholderUrl P url = Inr u"
  by (auto simp: ExtractUrlFromPlaceholderUrl_def IsPlaceholderUrl_def Let_def split: option.split)

lemma ExtractTargetURL_returns: "IsRestoreSessionUrl P url \<Longrightarrow> \<exists>target. ExtractTargetURL P url = Inr target"
  by (cases "take (length kRestoreSessionTargetUrlHashPrefix) (url_ref P url) = kRestoreSessionTargetUrlHashPrefix")
    (simp_all add: ExtractTargetURL_def Let_def)

lemma restore_target_url_returns: "\<exists>u. restore_target_url P url = Inr u"
proof (cases "IsRestoreSessionUrl P url")
  case False
  then show ?thesis by (simp add: restore_target_url_def)
next
  case True
  obtain target where e: "ExtractTargetURL P url = Inr target"
    using ExtractTargetURL_returns [OF True] by (rule exE)
  show ?thesis
  proof (cases target)
    case None
    then show ?thesis using e by (simp add: restore_target_url_def)
  next
    case (Some u)
    obtain v where "\<not> use_js_for_error_page P \<Longrightarrow> ExtractUrlFromPlaceholderUrl P u = Inr v"
      using ExtractUrlFromPlaceholderUrl_returns [of P u] by blast
    then show ?thesis
      using e Some True by (cases "use_js_for_error_page P") (simp_all add: restore_target_url_def IsPlaceholderUrl_def)
  qed
qed

lemma nav_item_identity [simp]:
  "navigation_initiation_type (SetVirtualURL P u i) = navigation_initiation_type i"
  "navigation_initiation_type (SetTitle P x i) = navigation_initiation_type i"
  "navigation_initiation_type (SetTimestamp y i) = navigation_initiation_type i"
  "unique_id (SetVirtualURL P u i) = unique_id i" "unique_id (SetTitle P x i) = unique_id i"
  "unique_id (SetTimestamp y i) = unique_id i" "item_url (SetVirtualURL P u i) = item_url i"
  "item_url (SetTitle P x i) = item_url i" "item_url (SetTimestamp y i) = item_url i"
  by (simp_all add: nav_item_setter_defs SetTitle_def)

lemma hide_internal_url_returns:
  "\<exists>i. hide_internal_url P item = Inr i \<and> navigation_initiation_type i = navigation_initiation_type item \<and>
       item_url i = item_url item \<and> unique_id i = unique_id item"
proof -
  obtain target where t: "restore_target_url P (item_url item) = Inr target"
    using restore_target_url_returns [of P "item_url item"] by (rule exE)
  show ?thesis
  proof (cases "use_js_for_error_page P")
    case True
    then show ?thesis using t by (cases target) (simp_all add: hide_internal_url_def)
  next
    case False
    obtain u where u: "ExtractUrlFromPlaceholderUrl P (item_url item) = Inr u"
      using ExtractUrlFromPlaceholderUrl_returns [OF False, of "item_url item"] by (rule exE)
    show ?thesis
      using t u False
      by (cases target) (simp_all add: hide_internal_url_def IsPlaceholderUrl_def Let_def)
  qed
qed

lemma wp_create_item:
  "wp (CreateNavigationItemWithRewriters P url referrer transition initiation https previous rewriters redirected)
     (\<lambda>item t. t = s\<lparr>unique_id_counter := unique_id_counter s + 1\<rparr> \<and> unique_id item = unique_id_counter s + 1 \<and>
        navigation_initiation_type item = initiation \<and> transition_type item = transition \<and>
        user_agent_type item = UA_NONE \<and> http_request_headers item = None) s"
proof -
  obtain u where "rewritten_url P url rewriters = Inr u" using rewritten_url_returns [of P url rewriters] by blast
  then show ?thesis
    by (simp add: CreateNavigationItemWithRewriters_def wp_rules wp_lift Let_def GetUniqueIDInConstructor_def
        nav_item_setter_defs new_nav_item_def)
qed

lemma wp_smooth_time: "wp smooth_time (\<lambda>_ t. \<exists>m. t = s\<lparr>time_smoother := m\<rparr>) s"
  by (auto simp: wp_def smooth_time_def split: prod.splits)

lemma extends_counter [simp]: "extends s (s\<lparr>unique_id_counter := k\<rparr>)"
  by (simp add: extends_def fixed_part_def option.rel_refl)

lemma extends_smoother [simp]: "extends s (s\<lparr>time_smoother := m\<rparr>)"
  by (simp add: extends_def fixed_part_def option.rel_refl)

lemma extends_placeholder [simp]: "extends s (s\<lparr>last_committed_web_view_item := i\<rparr>)"
  by (simp add: extends_def fixed_part_def option.rel_refl)

lemma extends_link:
  assumes "web_view s = Some v" and "n < length (wk_items v)" and "wk_holder (wk_items v ! n) = None"
  shows "extends s (s\<lparr>web_view := Some (update_wk n (\<lambda>w. w\<lparr>wk_holder := i\<rparr>) v)\<rparr>)"
  using assms
  by (auto simp: extends_def fixed_part_def wk_extends_def wk_items_update_wk nth_list_update)

lemma wp_get_wk_item:
  "attached_to_web_view s \<Longrightarrow>
     wp (GetWKItemAtIndex index) (\<lambda>wk t. t = s \<and>
        (\<forall>n. wk = Some n \<longrightarrow> (\<exists>v. web_view s = Some v \<and> n < length (wk_items v))) \<and>
        (\<forall>v. web_view s = Some v \<and> wf_view v \<and> index < length (wk_items v) \<longrightarrow> wk = Some index)) s"
  using itemAtIndex_bound
  by (auto simp: GetWKItemAtIndex_def wp_rules GetBackForwardListItemCount_def GetCurrentItemIndex_def
      itemAtIndex_relative wf_view_def wk_items_def split: option.splits dest: itemAtIndex_bound)

lemma wp_link_back_forward_item:
  assumes "web_view s = Some v" and "n < length (wk_items v)" and "wk_holder (wk_items v ! n) = None"
  shows "wp (link_back_forward_item P (Some n) prev_wk)
    (\<lambda>_ t. extends s t \<and> (\<exists>i. deref t (Wk n) = Some i \<and> navigation_initiation_type i = RENDERER_INITIATED)) s"
proof -
  let ?done = "\<lambda>t. extends s t \<and> (\<exists>i. deref t (Wk n) = Some i \<and> navigation_initiation_type i = RENDERER_INITIATED)"
  have store: "wp (SetNavigationItemInWKItem (Some n) (Some i)) (\<lambda>_. ?done) (s\<lparr>unique_id_counter := k, time_smoother := m\<rparr>)"
    if "navigation_initiation_type i = RENDERER_INITIATED" for i k m
  proof -
    let ?t = "s\<lparr>unique_id_counter := k, time_smoother := m\<rparr>"
    have "extends s ?t" by (rule extends_trans [OF extends_counter extends_smoother])
    moreover have "extends ?t (?t\<lparr>web_view := Some (update_wk n (\<lambda>w. w\<lparr>wk_holder := Some i\<rparr>) v)\<rparr>)"
      using assms by (intro extends_link) simp_all
    ultimately have "extends s (?t\<lparr>web_view := Some (update_wk n (\<lambda>w. w\<lparr>wk_holder := Some i\<rparr>) v)\<rparr>)"
      by (rule extends_trans)
    then show ?thesis
      using assms that by (simp add: SetNavigationItemInWKItem_def wp_rules wk_items_update_wk)
  qed
  have hide: "wp (alift (hide_internal_url P i)) (\<lambda>j. wp (SetNavigationItemInWKItem (Some n) (Some j)) (\<lambda>_. ?done))
      (s\<lparr>unique_id_counter := k, time_smoother := m\<rparr>)"
    if "navigation_initiation_type i = RENDERER_INITIATED" for i k m
    using hide_internal_url_returns [of P i] store that by (elim exE conjE) (simp add: wp_rules)
  show ?thesis
    unfolding link_back_forward_item_def
    apply (simp only: wp_rules split)
    apply (rule wp_strengthen [OF wp_create_item], elim conjE)
    subgoal for item t
      apply (simp only: wp_rules)
      apply (rule wp_strengthen [OF wp_smooth_time], elim exE)
      apply (simp only: wp_rules)
      apply (rule hide)
      apply simp
      done
    done
qed

lemma wp_cached_or_linked_item:
  "wp (GetCachedOrLinkedItemAtIndex P index c) (\<lambda>p t. extends s t \<and>
      (\<forall>r. p = Some r \<longrightarrow> index < GetBackForwardListItemCount s \<and> (r = Cached index \<or> (\<exists>n. r = Wk n)) \<and>
           (\<exists>i. deref t r = Some i \<and> (deref s r = None \<longrightarrow> navigation_initiation_type i = RENDERER_INITIATED))) \<and>
      (\<not> attached_to_web_view s \<and> index < GetBackForwardListItemCount s \<longrightarrow> p = Some (Cached index)) \<and>
      (\<forall>v. c \<and> attached_to_web_view s \<and> web_view s = Some v \<and> wf_view v \<and> index < length (wk_items v) \<longrightarrow>
           p = Some (Wk index))) s"
  (is "wp _ (\<lambda>p t. ?Q p t) s")
proof -
  consider "GetBackForwardListItemCount s \<le> index"
    | "index < GetBackForwardListItemCount s" "\<not> attached_to_web_view s"
    | "index < GetBackForwardListItemCount s" "attached_to_web_view s" by linarith
  then show ?thesis
  proof cases
    case 1
    then show ?thesis
      by (auto simp: GetCachedOrLinkedItemAtIndex_def wp_rules GetBackForwardListItemCount_def split: if_splits)
  next
    case 2
    then show ?thesis
      by (simp add: GetCachedOrLinkedItemAtIndex_def wp_rules) (simp add: GetBackForwardListItemCount_def)
  next
    case 3
    have base: "wp (GetCachedOrLinkedItemAtIndex P index c) R s \<longleftrightarrow>
        wp (GetWKItemAtIndex index) (\<lambda>wk t.
          if wk = None \<or> GetNavigationItemFromWKItem wk t \<noteq> None \<or> \<not> c then R (GetNavigationItemFromWKItem wk t) t
          else wp (if index = 0 then areturn None else GetWKItemAtIndex (index - 1)) (\<lambda>prev_wk.
                 wp (link_back_forward_item P wk prev_wk) (\<lambda>_ t. R (GetNavigationItemFromWKItem wk t) t)) t) s" for R
      using 3 by (simp add: GetCachedOrLinkedItemAtIndex_def wp_rules)
    show ?thesis
      unfolding base
    proof (rule wp_strengthen [OF wp_get_wk_item [OF 3(2)]], elim conjE)
      fix wk t
      assume t: "t = s" and known: "\<forall>n. wk = Some n \<longrightarrow> (\<exists>v. web_view s = Some v \<and> n < length (wk_items v))"
        and exact: "\<forall>v. web_view s = Some v \<and> wf_view v \<and> index < length (wk_items v) \<longrightarrow> wk = Some index"
      show "if wk = None \<or> GetNavigationItemFromWKItem wk t \<noteq> None \<or> \<not> c then ?Q (GetNavigationItemFromWKItem wk t) t
          else wp (if index = 0 then areturn None else GetWKItemAtIndex (index - 1)) (\<lambda>prev_wk.
                 wp (link_back_forward_item P wk prev_wk) (\<lambda>_ t. ?Q (GetNavigationItemFromWKItem wk t) t)) t"
      proof (cases "wk = None \<or> GetNavigationItemFromWKItem wk s \<noteq> None \<or> \<not> c")
        case True
        then show ?thesis
          using 3 exact t by (auto simp: GetNavigationItemFromWKItem_def split: option.splits if_splits)
      next
        case False
        then obtain n where n: "wk = Some n" "deref s (Wk n) = None"
          by (auto simp: GetNavigationItemFromWKItem_def split: option.splits if_splits)
        with known obtain v where v: "web_view s = Some v" "n < length (wk_items v)" by blast
        with n have h: "wk_holder (wk_items v ! n) = None" by simp
        have link: "wp (link_back_forward_item P wk prev_wk) (\<lambda>_ t. ?Q (GetNavigationItemFromWKItem wk t) t) s" for prev_wk
          unfolding n(1)
          by (rule wp_strengthen [OF wp_link_back_forward_item [OF v h]])
            (use 3 exact n in \<open>auto simp: GetNavigationItemFromWKItem_def simp del: deref.simps\<close>)
        have "wp (if index = 0 then areturn None else GetWKItemAtIndex (index - 1)) (\<lambda>prev_wk.
                 wp (link_back_forward_item P wk prev_wk) (\<lambda>_ t. ?Q (GetNavigationItemFromWKItem wk t) t)) s"
        proof (cases "index = 0")
          case True
          show ?thesis using link by (simp only: if_P [OF True] wp_return)
        next
          case other: False
          have "wp (GetWKItemAtIndex (index - 1)) (\<lambda>prev_wk.
                 wp (link_back_forward_item P wk prev_wk) (\<lambda>_ t. ?Q (GetNavigationItemFromWKItem wk t) t)) s"
            by (rule wp_strengthen [OF wp_get_wk_item [OF 3(2)]]) (use link in blast)
          then show ?thesis using other by (simp only: if_False)
        qed
        then show ?thesis unfolding t if_not_P [OF False] .
      qed
    qed
  qed
qed

section \<open>The getters of the manager\<close>

lemma wp_load_item: "deref s r = Some i \<Longrightarrow> wp (load_item r) Q s \<longleftrightarrow> Q i s"
  by (simp add: wp_def load_item_def)

text \<open>A pointer that a getter returns from \<open>s\<close> in \<open>t\<close>: not null, to an item of the history, of the empty
  window or of the cache, or to the untrusted placeholder.  What was created is renderer-initiated.\<close>

definition history_pointer :: "'u nav_manager \<Rightarrow> 'u nav_manager \<Rightarrow> item_ref option \<Rightarrow> bool" where
  "history_pointer s t p \<longleftrightarrow>
     (\<forall>r. p = Some r \<longrightarrow> (r = Empty_window \<or> (\<exists>n. r = Cached n) \<or> (\<exists>n. r = Wk n)) \<and>
        (\<exists>i. deref t r = Some i \<and> (deref s r = None \<longrightarrow> navigation_initiation_type i = RENDERER_INITIATED)))"

definition committed_pointer :: "'u nav_manager \<Rightarrow> item_ref option \<Rightarrow> bool" where
  "committed_pointer t p \<longleftrightarrow>
     (\<forall>r. p = Some r \<longrightarrow> (r = Empty_window \<or> r = Web_view_item \<or> (\<exists>n. r = Cached n) \<or> (\<exists>n. r = Wk n)) \<and>
        (\<exists>i. deref t r = Some i))"

lemma history_pointer_committed: "history_pointer s t p \<Longrightarrow> committed_pointer t p"
  by (auto simp: history_pointer_def committed_pointer_def)

text \<open>The list item at an absolute index, whatever the manager is attached to.\<close>

definition item_pointer :: "'u nav_manager \<Rightarrow> nat \<Rightarrow> item_ref" where
  "item_pointer s n =
     (if empty_window_open_item s \<noteq> None then Empty_window else if attached_to_web_view s then Wk n else Cached n)"

definition wf_manager :: "'u nav_manager \<Rightarrow> bool" where
  "wf_manager s \<longleftrightarrow> (\<forall>v. web_view s = Some v \<longrightarrow> wf_view v)"

lemma wp_item_at:
  "wp (GetNavigationItemImplAtIndex P index) (\<lambda>p t. extends s t \<and> history_pointer s t p \<and>
      (wf_manager s \<and> 0 \<le> index \<and> index < int (GetItemCount s) \<longrightarrow> p = Some (item_pointer s (nat index))) \<and>
      (index < 0 \<or> int (GetItemCount s) \<le> index \<longrightarrow> p = None)) s"
proof (cases "empty_window_open_item s")
  case (Some e)
  then show ?thesis
    by (auto simp: GetNavigationItemImplAtIndex_def wp_rules history_pointer_def GetItemCount_def item_pointer_def)
next
  case None
  show ?thesis
  proof (cases "index < 0")
    case True
    then show ?thesis
      using None by (simp add: GetNavigationItemImplAtIndex_def wp_rules history_pointer_def)
  next
    case False
    have "wp (GetCachedOrLinkedItemAtIndex P (nat index) True) (\<lambda>p t. extends s t \<and> history_pointer s t p \<and>
      (wf_manager s \<and> 0 \<le> index \<and> index < int (GetItemCount s) \<longrightarrow> p = Some (item_pointer s (nat index))) \<and>
      (index < 0 \<or> int (GetItemCount s) \<le> index \<longrightarrow> p = None)) s"
      apply (rule wp_strengthen [OF wp_cached_or_linked_item], elim conjE, intro conjI)
      subgoal by assumption
      subgoal for p t by (cases p) (auto simp: history_pointer_def)
      subgoal for p t
        using None False
        by (cases "web_view s")
          (auto simp: wf_manager_def GetItemCount_def item_pointer_def GetBackForwardListItemCount_def nat_less_iff
            split: if_splits)
      subgoal for p t
        using None False by (cases p) (auto simp: GetItemCount_def nat_less_iff)
      done
    then show ?thesis using None False by (simp add: GetNavigationItemImplAtIndex_def wp_rules)
  qed
qed

lemma extends_deref_pointer:
  "extends s t \<Longrightarrow> committed_pointer s (Some r) \<Longrightarrow> r \<noteq> Web_view_item \<Longrightarrow> committed_pointer t (Some r)"
  using extends_deref [of s t r] by (auto simp: committed_pointer_def)

lemma extends_smoother_placeholder:
  "extends s t \<Longrightarrow> extends s (t\<lparr>time_smoother := m, last_committed_web_view_item := i\<rparr>)"
  by (rule extends_trans [OF extends_trans [OF _ extends_smoother] extends_placeholder])

lemma set_item_placeholder:
  "last_committed_web_view_item s = Some i \<Longrightarrow>
     wp (set_item Web_view_item f) Q s \<longleftrightarrow> Q () (s\<lparr>last_committed_web_view_item := Some (f i)\<rparr>)"
  by (simp add: set_item_def wp_rules wp_load_item)

lemma wp_untrusted_last_committed_item:
  "wp (untrusted_last_committed_item P) (\<lambda>p t. extends s t \<and> p = Some Web_view_item \<and> deref t Web_view_item \<noteq> None) s"
proof -
  let ?Q = "\<lambda>p t. extends s t \<and> p = Some Web_view_item \<and> deref t Web_view_item \<noteq> None"
  obtain target where target: "restore_target_url P (document_url s) = Inr target"
    using restore_target_url_returns [of P "document_url s"] by (rule exE)
  define fill where "fill = athen (set_item Web_view_item (SetItemURL (document_url s)))
     (abind (alift (restore_target_url P (document_url s))) (\<lambda>target.
     athen (set_item Web_view_item (SetVirtualURL P (case target of None \<Rightarrow> document_url s | Some u \<Rightarrow> u)))
     (abind smooth_time (\<lambda>t. athen (set_item Web_view_item (SetTimestamp t)) (areturn (Some Web_view_item))))))"
  have filled: "wp fill ?Q t" if "extends s t" and "last_committed_web_view_item t = Some i" for t i
    unfolding fill_def
    using that target
    apply (simp add: wp_rules set_item_placeholder)
    apply (rule wp_strengthen [OF wp_smooth_time])
    apply (auto simp: set_item_placeholder intro: extends_smoother_placeholder)
    done
  have new: "wp fill ?Q (s\<lparr>unique_id_counter := k, last_committed_web_view_item := Some i\<rparr>)" for k i
    by (rule filled [OF extends_trans [OF extends_counter extends_placeholder]]) simp
  show ?thesis
  proof (cases "last_committed_web_view_item s")
    case None
    have "wp (CreateNavigationItemWithRewriters P (empty_gurl P) (empty_referrer P) (page_transition_link P)
        RENDERER_INITIATED False (empty_gurl P) [] None)
        (\<lambda>item t. wp fill ?Q (t\<lparr>last_committed_web_view_item := Some (SetUntrusted item)\<rparr>)) s"
      by (rule wp_strengthen [OF wp_create_item], elim conjE) (simp only: new)
    then show ?thesis using None by (simp add: untrusted_last_committed_item_def fill_def wp_rules)
  next
    case (Some i)
    then show ?thesis
      using filled [OF extends_refl Some] by (simp add: untrusted_last_committed_item_def fill_def wp_rules)
  qed
qed

text \<open>What \<open>DCHECK_EQ(0, GetItemCount())\<close> asks for.\<close>

definition committed_index_ok :: "'u nav_manager \<Rightarrow> bool" where
  "committed_index_ok s \<longleftrightarrow>
     (empty_window_open_item s = None \<and> GetLastCommittedItemIndexInCurrentOrRestoredSession s = -1 \<longrightarrow> GetItemCount s = 0)"

lemma extends_committed_index_ok: "extends s t \<Longrightarrow> committed_index_ok t \<longleftrightarrow> committed_index_ok s"
  by (simp add: committed_index_ok_def extends_fields extends_derived)

lemma extends_wf_manager: "extends s t \<Longrightarrow> wf_manager s \<Longrightarrow> wf_manager t"
  by (auto simp: extends_def wf_manager_def wk_extends_def wf_view_def elim!: option.rel_cases)

text \<open>The last committed item is the one at the last committed index, unless the URL of the web view
  makes it untrustworthy.\<close>

lemma wp_last_committed:
  assumes "committed_index_ok s"
  shows "wp (GetLastCommittedItemInCurrentOrRestoredSession P) (\<lambda>p t. extends s t \<and> committed_pointer t p \<and>
     (let k = GetLastCommittedItemIndexInCurrentOrRestoredSession s in
        wf_manager s \<and> 0 \<le> k \<and> k < int (GetItemCount s) \<longrightarrow>
          p = Some Web_view_item \<or> p = Some (item_pointer s (nat k)))) s"
  (is "wp _ ?Q s")
proof (cases "empty_window_open_item s")
  case (Some e)
  then show ?thesis
    by (auto simp: GetLastCommittedItemInCurrentOrRestoredSession_def wp_rules committed_pointer_def
        item_pointer_def Let_def)
next
  case None
  let ?k = "GetLastCommittedItemIndexInCurrentOrRestoredSession s"
  show ?thesis
  proof (cases "?k = -1")
    case True
    then show ?thesis
      using None assms
      by (simp add: GetLastCommittedItemInCurrentOrRestoredSession_def wp_rules committed_pointer_def
          committed_index_ok_def)
  next
    case False
    have placeholder: "wp (untrusted_last_committed_item P) ?Q t" if "extends s t" for t
      by (rule wp_strengthen [OF wp_untrusted_last_committed_item])
        (use that in \<open>auto simp: committed_pointer_def Let_def intro: extends_trans\<close>)
    have "wp (GetNavigationItemImplAtIndex P ?k) (\<lambda>p. wp (case p of None \<Rightarrow> areturn None
         | Some r \<Rightarrow> abind (load_item r) (\<lambda>item.
             abind (aget (CanTrustLastCommittedItem P item)) (\<lambda>trusted.
             if trusted then areturn (Some r) else untrusted_last_committed_item P))) ?Q) s"
    proof (rule wp_strengthen [OF wp_item_at], elim conjE)
      fix p t
      assume e: "extends s t" and h: "history_pointer s t p"
        and k: "wf_manager s \<and> 0 \<le> ?k \<and> ?k < int (GetItemCount s) \<longrightarrow> p = Some (item_pointer s (nat ?k))"
      show "wp (case p of None \<Rightarrow> areturn None
         | Some r \<Rightarrow> abind (load_item r) (\<lambda>item.
             abind (aget (CanTrustLastCommittedItem P item)) (\<lambda>trusted.
             if trusted then areturn (Some r) else untrusted_last_committed_item P))) ?Q t"
      proof (cases p)
        case None
        then show ?thesis using e k by (auto simp: wp_rules committed_pointer_def Let_def)
      next
        case (Some r)
        with h obtain i where "deref t r = Some i" by (auto simp: history_pointer_def)
        then show ?thesis
          using Some e k history_pointer_committed [OF h] placeholder [OF e]
          by (simp add: wp_rules wp_load_item Let_def)
      qed
    qed
    then show ?thesis
      using None False by (simp add: GetLastCommittedItemInCurrentOrRestoredSession_def wp_rules)
  qed
qed

text \<open>The pending item.\<close>

definition pending_pointer :: "'u nav_manager \<Rightarrow> 'u nav_manager \<Rightarrow> item_ref option \<Rightarrow> bool" where
  "pending_pointer s t p \<longleftrightarrow>
     (if pending_item_index s \<noteq> -1 then history_pointer s t p
      else if pending_item s \<noteq> None then p = Some Pending
      else if context_pending_item s \<noteq> None then p = Some Context_pending
      else p = None)"

lemma wp_pending:
  "wp (GetPendingItemInCurrentOrRestoredSession P) (\<lambda>p t. extends s t \<and> pending_pointer s t p) s"
proof (cases "pending_item_index s = -1")
  case True
  then show ?thesis
    by (simp add: GetPendingItemInCurrentOrRestoredSession_def wp_rules pending_pointer_def)
next
  case False
  have "wp (GetNavigationItemImplAtIndex P (pending_item_index s)) (\<lambda>p t. extends s t \<and> pending_pointer s t p) s"
    by (rule wp_strengthen [OF wp_item_at]) (use False in \<open>auto simp: pending_pointer_def\<close>)
  then show ?thesis using False by (simp add: GetPendingItemInCurrentOrRestoredSession_def wp_rules)
qed

lemma pending_pointer_deref: "extends s t \<Longrightarrow> pending_pointer s t (Some r) \<Longrightarrow> \<exists>i. deref t r = Some i"
  by (auto simp: pending_pointer_def history_pointer_def extends_fields split: if_splits)

end
