(* ===== verification/Navigation_Demo.thy ===== *)
theory Navigation_Demo
  imports Navigation_Reads
begin

text \<open>
  A concrete instance of the platform of the navigation manager, over the text URLs of
  \<open>Wk_Navigation_Util\<close>, and managers with a history over it, on which the properties are
  instantiated.
\<close>

section \<open>The platform\<close>

text \<open>The origin of a URL is its scheme; the transitions have the numbers of
  \<open>ui/base/page_transition_types.h\<close>.\<close>

definition demo_nav :: "string nav_platform" where
  "demo_nav = web_platform.extend demo_platform
     \<lparr>url_origin = url_scheme demo_platform, equals_ignoring_ref = (\<lambda>u v. text_base u = text_base v),
      url_content = (\<lambda>u. drop 1 (dropWhile (\<lambda>c. c \<noteq> CHR '':'') u)), truncate_string = take, format_url = (\<lambda>u. u),
      elide_string = take, client_url_rewriters = [], running_on_ios13_or_later = True,
      create_pending_item_for_post_form_submission = True, use_web_client_default_user_agent = False,
      reduce_session_size = False, page_transition_link = 0, page_transition_reload = 8,
      page_transition_form_submit = 7, page_transition_forward_back = 0x01000000,
      page_transition_core_type_is = (\<lambda>t k. t AND 0xFF = k),
      page_transition_is_redirect = (\<lambda>t. t AND 0xC0000000 \<noteq> 0)\<rparr>"

lemma demo_nav_laws: "gurl_laws demo_nav"
  using demo_platform_laws by (simp add: gurl_laws_def demo_nav_def web_platform.defs)

section \<open>Managers\<close>

definition demo_item :: "string \<Rightarrow> string nav_item" where
  "demo_item url = SetItemURL url (new_nav_item demo_nav 1)"

definition demo_wk :: "string \<Rightarrow> string wk_item" where
  "demo_wk url = \<lparr>wk_url = url, wk_title = url, wk_holder = Some (demo_item url)\<rparr>"

text \<open>Two pages back, one page forward, and a page of the user's choice that is being loaded.\<close>

definition demo_manager :: "string nav_manager" where
  "demo_manager = (new_nav_manager demo_nav)
     \<lparr>web_view := Some \<lparr>web_view_url = ''https:c'', back_list = [demo_wk ''https:a'', demo_wk ''https:b''],
                       current_wk_item = Some (demo_wk ''https:c''), forward_list = [demo_wk ''https:d'']\<rparr>,
      is_loading := True,
      pending_item := Some ((demo_item ''https:e'')\<lparr>navigation_initiation_type := BROWSER_INITIATED\<rparr>)\<rparr>"

text \<open>The same history after the web view is gone.\<close>

definition demo_detached :: "string nav_manager" where
  "demo_detached = (new_nav_manager demo_nav)
     \<lparr>cached_items := map demo_item [''https:a'', ''https:b'', ''https:c'', ''https:d''],
      cached_current_item_index := 2, attached_to_web_view := False\<rparr>"

lemma demo_manager_ok: "wf_manager demo_manager" "attached_to_web_view demo_manager" "committed_index_ok demo_manager"
  "empty_window_open_item demo_manager = None" "CanGoToOffset (-2) demo_manager"
  by (simp_all add: wf_manager_def wf_view_def demo_manager_def new_nav_manager_def committed_index_ok_def
      GetLastCommittedItemIndexInCurrentOrRestoredSession_def GetCurrentItemIndex_def CanGoToOffset_def
      GetIndexForOffset_def GetItemCount_def GetBackForwardListItemCount_def wk_items_def)

end
