(* ===== verification/Navigation_Props.thy ===== *)
theory Navigation_Props
  imports Navigation_Demo
begin

text \<open>
  Properties of the navigation manager: what is shown in the omnibox, navigation in the history
  and the detachment from the web view.  Commits are in \<open>Navigation_Commits\<close>, the restoration of a
  session in \<open>Navigation_Restore\<close>.
\<close>

section \<open>The visible item\<close>

lemma wp_url_behind:
  "committed_pointer s p \<Longrightarrow>
     wp (url_behind P p) (\<lambda>url t. t = s \<and> url = (case p of None \<Rightarrow> None | Some r \<Rightarrow> map_option item_url (deref s r))) s"
  by (auto simp: url_behind_def wp_rules committed_pointer_def wp_load_item split: option.splits)

lemma wp_last_committed_impl:
  assumes "committed_index_ok s"
  shows "wp (GetLastCommittedItemImpl P) (\<lambda>p t. extends s t \<and> committed_pointer t p) s"
proof (cases "is_restore_session_in_progress s")
  case True
  then show ?thesis by (simp add: GetLastCommittedItemImpl_def wp_rules committed_pointer_def)
next
  case False
  have "wp (GetLastCommittedItemInCurrentOrRestoredSession P) (\<lambda>result. wp (url_behind P result) (\<lambda>url t. extends s t \<and>
      committed_pointer t (case url of None \<Rightarrow> None | Some u \<Rightarrow> if IsRestoreSessionUrl P u then None else result))) s"
  proof (rule wp_strengthen [OF wp_last_committed [OF assms]], elim conjE)
    fix p t
    assume "extends s t" and c: "committed_pointer t p"
    then show "wp (url_behind P p) (\<lambda>url t. extends s t \<and>
        committed_pointer t (case url of None \<Rightarrow> None | Some u \<Rightarrow> if IsRestoreSessionUrl P u then None else p)) t"
      by (intro wp_strengthen [OF wp_url_behind [OF c]]) (auto simp: committed_pointer_def split: option.split)
  qed
  then show ?thesis using False by (simp add: GetLastCommittedItemImpl_def wp_rules)
qed

lemma wp_visible_item:
  assumes ok: "committed_index_ok s" and free: "\<not> is_restore_session_in_progress s" "restored_visible_item s = None"
  shows "wp (GetVisibleItem P) (\<lambda>p t. extends s t \<and>
     (committed_pointer t p \<or>
      (\<exists>r i. p = Some r \<and> (r = Pending \<or> r = Context_pending) \<and> deref s r = Some i \<and>
         navigation_initiation_type i = BROWSER_INITIATED \<and> pending_item_index s = -1 \<and> is_loading s))) s"
    (is "wp _ ?Q s")
proof -
  define rest where "rest = abind (GetLastCommittedItem P) (\<lambda>last_committed_item.
         if last_committed_item \<noteq> None then areturn last_committed_item
         else
           abind (GetLastCommittedItemInCurrentOrRestoredSession P) (\<lambda>result.
           abind (url_behind P result) (\<lambda>url.
           areturn (case url of None \<Rightarrow> None | Some u \<Rightarrow> if IsRestoreSessionUrl P u then result else None))))"
  have rest: "wp rest ?Q t" if e: "extends s t" for t
  proof -
    have ok': "committed_index_ok t" using ok e by (simp add: extends_committed_index_ok)
    have inner: "wp (GetLastCommittedItemInCurrentOrRestoredSession P) (\<lambda>result. wp (url_behind P result)
        (\<lambda>url. ?Q (case url of None \<Rightarrow> None | Some u \<Rightarrow> if IsRestoreSessionUrl P u then result else None))) u"
      if eu: "extends s u" for u
    proof (rule wp_strengthen [OF wp_last_committed], use ok eu extends_committed_index_ok in blast, elim conjE)
      fix p w
      assume e: "extends u w" and c: "committed_pointer w p"
      show "wp (url_behind P p)
          (\<lambda>url. ?Q (case url of None \<Rightarrow> None | Some u \<Rightarrow> if IsRestoreSessionUrl P u then p else None)) w"
        by (rule wp_strengthen [OF wp_url_behind [OF c]])
          (use extends_trans [OF eu e] c in \<open>auto simp: committed_pointer_def split: option.split\<close>)
    qed
    show ?thesis
      unfolding rest_def GetLastCommittedItem_def wp_bind
      by (rule wp_strengthen [OF wp_last_committed_impl [OF ok']], elim conjE)
        (use inner e in \<open>auto simp: wp_rules intro: extends_trans\<close>)
  qed
  have "wp (GetPendingItemInCurrentOrRestoredSession P) (\<lambda>pending.
       wp (safe_to_show pending) (\<lambda>b. if b then ?Q pending else wp rest ?Q)) s"
  proof (rule wp_strengthen [OF wp_pending], elim conjE)
    fix p t
    assume e: "extends s t" and p: "pending_pointer s t p"
    show "wp (safe_to_show p) (\<lambda>b. if b then ?Q p else wp rest ?Q) t"
    proof (cases p)
      case None
      then show ?thesis using rest [OF e] by (simp add: safe_to_show_def wp_rules)
    next
      case (Some r)
      then obtain i where i: "deref t r = Some i" using pending_pointer_deref [OF e] p by blast
      have "pending_item_index s = -1 \<Longrightarrow> (r = Pending \<or> r = Context_pending) \<and> deref s r = Some i"
        using p i Some by (auto simp: pending_pointer_def extends_fields [OF e] split: if_splits)
      then show ?thesis
        using Some i rest [OF e] e by (auto simp: safe_to_show_def wp_rules wp_load_item extends_fields [OF e])
    qed
  qed
  then show ?thesis
    using free by (simp add: GetVisibleItem_def wp_rules rest_def cong: if_cong)
qed



section \<open>Going back and forward\<close>

lemma deref_update_other:
  "r' \<noteq> r \<Longrightarrow> deref (update_ref r f s) r' = deref s r'"
  by (cases r; cases r') (auto simp: wk_items_update_wk nth_list_update split: option.splits)

lemma deref_update_same:
  "deref s r = Some i \<Longrightarrow> deref (update_ref r f s) r = Some (f i)"
  by (cases r) (auto simp: wk_items_update_wk split: option.splits if_splits)

lemma wp_set_item: "deref s r = Some i \<Longrightarrow> wp (set_item r f) Q s \<longleftrightarrow> Q () (update_ref r f s)"
  by (simp add: set_item_def wp_rules wp_load_item)

lemma update_ref_wk_fields [simp]:
  "calls (update_ref (Wk n) f s) = calls s" "pending_item (update_ref (Wk n) f s) = pending_item s"
  "pending_item_index (update_ref (Wk n) f s) = pending_item_index s"
  "attached_to_web_view (update_ref (Wk n) f s) = attached_to_web_view s"
  "empty_window_open_item (update_ref (Wk n) f s) = empty_window_open_item s"
  "last_committed_item_index (update_ref (Wk n) f s) = last_committed_item_index s"
  "is_restore_session_in_progress (update_ref (Wk n) f s) = is_restore_session_in_progress s"
  by simp_all

lemma wf_manager_update_wk: "wf_manager (update_ref (Wk n) f s) \<longleftrightarrow> wf_manager s"
proof -
  have "wf_view (update_wk n g v) \<longleftrightarrow> wf_view v" for g and v :: "'a web_view"
    using update_wk_simps [of n g v] by (auto simp: wf_view_def simp flip: length_0_conv)
  then show ?thesis by (auto simp: wf_manager_def)
qed

lemma GetBackForwardListItemCount_update_wk [simp]:
  "GetBackForwardListItemCount (update_ref (Wk n) f s) = GetBackForwardListItemCount s"
  by (cases "web_view s") (simp_all add: GetBackForwardListItemCount_def)

lemma deref_ghost:
  "deref (s\<lparr>going_to_back_forward_list_item := b, calls := c\<rparr>) r = deref s r"
  "deref (s\<lparr>calls := c\<rparr>) r = deref s r" "deref (s\<lparr>going_to_back_forward_list_item := b\<rparr>) r = deref s r"
  by (cases r; simp)+

lemma GetItemCount_ghost:
  "GetItemCount (s\<lparr>going_to_back_forward_list_item := b, calls := c\<rparr>) = GetItemCount s"
  "GetItemCount (s\<lparr>calls := c\<rparr>) = GetItemCount s"
  "GetItemCount (s\<lparr>going_to_back_forward_list_item := b\<rparr>) = GetItemCount s"
  "GetItemCount (s\<lparr>pending_item := p, pending_item_index := k\<rparr>) = GetItemCount s"
  by (simp_all add: GetItemCount_def GetBackForwardListItemCount_def)

text \<open>What a navigation inside the history does: only the transition of the item and the calls
  change, and the pending item is discarded.\<close>

lemma wp_go_to_index:
  assumes "wf_manager s" and "attached_to_web_view s" and "empty_window_open_item s = None"
    and "0 \<le> index" and "index < int (GetItemCount s)"
  shows "wp (GoToIndexWith P index initiation gesture) (\<lambda>_ t.
     pending_item t = None \<and> pending_item_index t = -1 \<and> GetItemCount t = GetItemCount s \<and>
     calls t = calls s @ [Called_RecordPageState, Called_ClearDialogs,
                          Called_GoToBackForwardListItem (nat index) initiation gesture] \<and>
     (\<exists>i. deref t (Wk (nat index)) = Some i \<and> (\<exists>x. transition_type i = x OR page_transition_forward_back P)) \<and>
     (\<forall>m i. m \<noteq> nat index \<and> deref s (Wk m) = Some i \<longrightarrow> deref t (Wk m) = Some i) \<and>
     (\<forall>i. deref s (Wk (nat index)) = Some i \<longrightarrow> deref t (Wk (nat index)) =
        Some (i\<lparr>transition_type := transition_type i OR page_transition_forward_back P\<rparr>))) s"
proof -
  let ?n = "nat index"
  let ?s0 = "s\<lparr>calls := calls s @ [Called_RecordPageState, Called_ClearDialogs], pending_item := None,
                pending_item_index := -1\<rparr>"
  let ?f = "\<lambda>i. SetTransitionType (transition_type i OR page_transition_forward_back P) i"
  have start: "wf_manager ?s0" "attached_to_web_view ?s0" "empty_window_open_item ?s0 = None"
    "GetItemCount ?s0 = GetItemCount s" "deref ?s0 (Wk m) = deref s (Wk m)" for m
    using assms by (simp_all add: wf_manager_def GetItemCount_def GetBackForwardListItemCount_def)
  show ?thesis
    using assms(2,4,5)
    apply (simp add: GoToIndexWith_def call_delegate_def DiscardNonCommittedItems_def GetItemAtIndex_def wp_rules
        cong: if_cong del: deref.simps)
    apply (rule wp_strengthen [OF wp_item_at], elim conjE)
    subgoal for p t
    proof -
      assume e: "extends ?s0 t" and h: "history_pointer ?s0 t p"
        and p: "wf_manager ?s0 \<and> 0 \<le> index \<and> index < int (GetItemCount ?s0) \<longrightarrow> p = Some (item_pointer ?s0 ?n)"
      have p: "p = Some (Wk ?n)" using p start assms by (simp add: item_pointer_def)
      with h obtain i where i: "deref t (Wk ?n) = Some i" by (auto simp: history_pointer_def)
      have att: "attached_to_web_view (update_ref (Wk ?n) ?f t)" using assms(2) by (simp add: extends_fields [OF e])
      have wf: "wf_manager (update_ref (Wk ?n) ?f t)"
        using extends_wf_manager [OF e start(1)] by (simp add: wf_manager_update_wk del: update_ref.simps)
      have count: "GetBackForwardListItemCount (update_ref (Wk ?n) ?f t) = GetItemCount s"
        using assms(3) start(3,4)
        by (simp only: GetBackForwardListItemCount_update_wk extends_derived [OF e]) (simp add: GetItemCount_def)
      then have len: "?n < GetBackForwardListItemCount (update_ref (Wk ?n) ?f t)"
        using assms(4,5) by (simp only: nat_less_iff)
      have wk_known: "wk = Some ?n"
        if known: "\<forall>v. web_view (update_ref (Wk ?n) ?f t) = Some v \<and> wf_view v \<and> ?n < length (wk_items v) \<longrightarrow> wk = Some ?n"
        for wk
      proof -
        obtain v where v: "web_view (update_ref (Wk ?n) ?f t) = Some v" "?n < length (wk_items v)"
          using len att by (auto simp: GetBackForwardListItemCount_def simp del: update_ref.simps split: option.splits)
        then show ?thesis using known wf by (simp add: wf_manager_def del: update_ref.simps)
      qed
      have final: "deref t (Wk m) = Some j" if "deref s (Wk m) = Some j" for m j
        by (rule extends_deref [OF e]) (use that in simp_all)
      show ?thesis
        apply (simp add: p wp_rules wp_set_item [OF i] del: update_ref.simps deref.simps)
        apply (rule wp_strengthen [OF wp_get_wk_item [OF att]], elim conjE)
        apply (drule wk_known)
        apply (simp add: wp_rules deref_ghost GetItemCount_ghost del: update_ref.simps deref.simps)
        apply (intro conjI)
        subgoal by (simp add: extends_fields [OF e])
        subgoal by (simp add: extends_fields [OF e])
        subgoal using count by (simp add: GetItemCount_def extends_fields [OF e] assms(3) del: update_ref.simps)
        subgoal by (simp add: extends_fields [OF e])
        subgoal
          by (rule exI [of _ "?f i"])
            (use deref_update_same [OF i, of ?f] in \<open>auto simp: SetTransitionType_def simp del: update_ref.simps deref.simps\<close>)
        subgoal using final by (auto simp: deref_update_other simp del: update_ref.simps deref.simps)
        subgoal using final by (auto simp: deref_update_same SetTransitionType_def simp del: update_ref.simps deref.simps)
        done
    qed
    done
qed

text \<open>The last committed item, if there is one, does not have an internal URL.\<close>

definition on_public_page :: "('u, 'z) nav_platform_scheme \<Rightarrow> 'u nav_manager \<Rightarrow> bool" where
  "on_public_page P s \<longleftrightarrow>
     (case GetLastCommittedItemInCurrentOrRestoredSession P s of
        Inl _ \<Rightarrow> False
      | Inr (p, t) \<Rightarrow> (case p of None \<Rightarrow> True
                      | Some r \<Rightarrow> (case deref t r of None \<Rightarrow> False | Some i \<Rightarrow> \<not> IsRestoreSessionUrl P (item_url i))))"

lemma CanGoToOffset_range:
  "CanGoToOffset offset s \<Longrightarrow> empty_window_open_item s = None \<Longrightarrow>
     0 \<le> GetIndexForOffset offset s \<and> GetIndexForOffset offset s < int (GetItemCount s) \<and>
     GetIndexForOffset offset s =
       (if pending_item_index s = -1 then GetCurrentItemIndex s else pending_item_index s) + offset"
  by (auto simp: CanGoToOffset_def GetIndexForOffset_def Let_def split: if_splits)

text \<open>Going to an offset that \<open>CanGoToOffset\<close> allows asks the web view for the item that far from the
  pending item, if there is one, else from the current one. Only the transition of this item changes,
  and nothing is pending afterwards.\<close>
theorem history_navigation_goes_where_it_can:
  assumes "wf_manager s" and "attached_to_web_view s" and "empty_window_open_item s = None"
    and "committed_index_ok s" and "on_public_page P s" and "CanGoToOffset offset s"
  shows "\<exists>t n. GoToIndex P (GetIndexForOffset offset s) s = Inr ((), t) \<and>
     int n = (if pending_item_index s = -1 then GetCurrentItemIndex s else pending_item_index s) + offset \<and>
     n < GetItemCount s \<and> GetItemCount t = GetItemCount s \<and>
     calls t = calls s @ [Called_RecordPageState, Called_ClearDialogs,
                          Called_GoToBackForwardListItem n BROWSER_INITIATED True] \<and>
     pending_item t = None \<and> pending_item_index t = -1 \<and>
     (\<forall>m i. m \<noteq> n \<and> deref s (Wk m) = Some i \<longrightarrow> deref t (Wk m) = Some i) \<and>
     (\<forall>i. deref s (Wk n) = Some i \<longrightarrow> deref t (Wk n) =
        Some (i\<lparr>transition_type := transition_type i OR page_transition_forward_back P\<rparr>))"
proof -
  let ?index = "GetIndexForOffset offset s"
  note range = CanGoToOffset_range [OF assms(6,3)]
  from wp_last_committed [OF assms(4), of P] obtain p u
    where p: "GetLastCommittedItemInCurrentOrRestoredSession P s = Inr (p, u)"
      and e: "extends s u" and c: "committed_pointer u p" by (auto elim!: wpE)
  have url: "url_behind P p u = Inr ((case p of None \<Rightarrow> None | Some r \<Rightarrow> map_option item_url (deref u r)), u)"
    using wp_url_behind [OF c, of P] by (auto elim!: wpE)
  have "GoToIndex P ?index s = GoToIndexWith P ?index BROWSER_INITIATED True u"
    using assms(5) c
    by (auto simp: GoToIndex_def abind_def p url on_public_page_def committed_pointer_def split: option.splits)
  moreover have "wf_manager u" "attached_to_web_view u" "empty_window_open_item u = None"
    "0 \<le> ?index" "?index < int (GetItemCount u)"
    using extends_wf_manager [OF e assms(1)] assms(2,3) range by (simp_all add: extends_fields [OF e] extends_derived [OF e])
  note wp_go_to_index [OF this, of P BROWSER_INITIATED True]
  ultimately obtain t where t: "GoToIndex P ?index s = Inr ((), t)"
    "pending_item t = None \<and> pending_item_index t = -1 \<and> GetItemCount t = GetItemCount u \<and>
     calls t = calls u @ [Called_RecordPageState, Called_ClearDialogs,
                          Called_GoToBackForwardListItem (nat ?index) BROWSER_INITIATED True]"
    "\<forall>m i. m \<noteq> nat ?index \<and> deref u (Wk m) = Some i \<longrightarrow> deref t (Wk m) = Some i"
    "\<forall>i. deref u (Wk (nat ?index)) = Some i \<longrightarrow> deref t (Wk (nat ?index)) =
        Some (i\<lparr>transition_type := transition_type i OR page_transition_forward_back P\<rparr>)"
    by (auto elim!: wpE simp del: deref.simps)
  have keep: "deref s (Wk m) = Some i \<Longrightarrow> deref u (Wk m) = Some i" for m i
    by (rule extends_deref [OF e]) simp_all
  show ?thesis
    by (rule exI [of _ t], rule exI [of _ "nat ?index"])
      (use t range keep in \<open>simp add: extends_fields [OF e] extends_derived [OF e] nat_less_iff del: deref.simps\<close>)
qed

lemma demo_on_public_page: "on_public_page demo_nav demo_manager"
  by code_simp

theorem history_navigation_goes_where_it_can_witness:
  "\<exists>t. GoToIndex demo_nav (GetIndexForOffset (-2) demo_manager) demo_manager = Inr ((), t) \<and> pending_item t = None \<and>
     calls t = [Called_RecordPageState, Called_ClearDialogs, Called_GoToBackForwardListItem 0 BROWSER_INITIATED True]"
proof -
  have "(if pending_item_index demo_manager = -1 then GetCurrentItemIndex demo_manager
      else pending_item_index demo_manager) + (-2) = 0" "calls demo_manager = []"
    by (simp_all add: demo_manager_def new_nav_manager_def GetCurrentItemIndex_def)
  then show ?thesis
    using history_navigation_goes_where_it_can [OF demo_manager_ok(1,2,4,3) demo_on_public_page demo_manager_ok(5)]
    by auto
qed

text \<open>Where it cannot go, \<open>GoToIndex\<close> with an explicit initiation stops at its \<open>NOTREACHED\<close>, also
  when the sum overflows.\<close>

lemma no_navigation_out_of_range:
  assumes "\<not> CanGoToOffset offset s" and "\<not> is_restore_session_in_progress s" and "empty_window_open_item s = None"
  shows "GoToIndexWith P (GetIndexForOffset offset s) initiation gesture s = Inl Notreached"
  using assms by (auto simp: GoToIndexWith_def CanGoToOffset_def action_defs not_le)

section \<open>Losing the web view\<close>

definition cached_copy :: "('u, 'z) nav_platform_scheme \<Rightarrow> 'u nav_item \<Rightarrow> 'u nav_item" where
  "cached_copy P i =
     (if IsRestoreSessionUrl P (item_url i)
      then (case ExtractTargetURL P (item_url i) of Inr (Some u) \<Rightarrow> SetItemURL u i | _ \<Rightarrow> i) else i)"

lemma wp_cache_item_at:
  assumes "wf_manager s" and "attached_to_web_view s" and "n < GetBackForwardListItemCount s"
  shows "wp (cache_item_at P n) (\<lambda>j t. extends s t \<and> (\<exists>i. deref t (Wk n) = Some i \<and> j = cached_copy P i)) s"
proof -
  obtain v where v: "web_view s = Some v" "wf_view v" "n < length (wk_items v)"
    using assms by (auto simp: GetBackForwardListItemCount_def wf_manager_def split: option.splits)
  have "wp (GetCachedOrLinkedItemAtIndex P n True) (\<lambda>p. wp (load_pointer p) (\<lambda>item.
      wp (alift (if IsRestoreSessionUrl P (item_url item) then ExtractTargetURL P (item_url item) else Inr None))
        (\<lambda>x t. extends s t \<and> (\<exists>i. deref t (Wk n) = Some i \<and>
           (case x of None \<Rightarrow> item | Some u \<Rightarrow> SetItemURL u item) = cached_copy P i)))) s"
  proof (rule wp_strengthen [OF wp_cached_or_linked_item], elim conjE)
    fix p t
    assume e: "extends s t"
      and p: "\<forall>r. p = Some r \<longrightarrow> n < GetBackForwardListItemCount s \<and> (r = Cached n \<or> (\<exists>n. r = Wk n)) \<and>
           (\<exists>i. deref t r = Some i \<and> (deref s r = None \<longrightarrow> navigation_initiation_type i = RENDERER_INITIATED))"
      and exact: "\<forall>v. True \<and> attached_to_web_view s \<and> web_view s = Some v \<and> wf_view v \<and> n < length (wk_items v) \<longrightarrow>
           p = Some (Wk n)"
    have pw: "p = Some (Wk n)" using exact v assms by blast
    with p obtain i where i: "deref t (Wk n) = Some i" by blast
    obtain x where x: "(if IsRestoreSessionUrl P (item_url i) then ExtractTargetURL P (item_url i) else Inr None) = Inr x"
      using ExtractTargetURL_returns [of P "item_url i"] by (cases "IsRestoreSessionUrl P (item_url i)") auto
    show "wp (load_pointer p) (\<lambda>item.
      wp (alift (if IsRestoreSessionUrl P (item_url item) then ExtractTargetURL P (item_url item) else Inr None))
        (\<lambda>x t. extends s t \<and> (\<exists>i. deref t (Wk n) = Some i \<and>
           (case x of None \<Rightarrow> item | Some u \<Rightarrow> SetItemURL u item) = cached_copy P i))) t"
      using x i e
      by (auto simp: pw load_pointer_def wp_load_item wp_lift cached_copy_def simp del: deref.simps
          split: option.split if_splits)
  qed
  then show ?thesis by (simp add: cache_item_at_def wp_rules)
qed

text \<open>In the detached state the getters answer from copies of the items.\<close>

lemma fixed_part_cached_index:
  "fixed_part (s\<lparr>cached_current_item_index := j\<rparr>) = (fixed_part s)\<lparr>cached_current_item_index := j\<rparr>"
  by (rule nav_manager.equality) (simp_all add: fixed_part_def)

lemma extends_cached_index:
  assumes "extends (s\<lparr>cached_current_item_index := j\<rparr>) u"
  shows "extends s (u\<lparr>cached_current_item_index := cached_current_item_index s\<rparr>)"
  using assms by (simp add: extends_def fixed_part_cached_index)

lemma wp_detach:
  assumes "wf_manager s" and "attached_to_web_view s"
  shows "wp (DetachFromWebView P) (\<lambda>_ t. \<not> attached_to_web_view t \<and> \<not> is_restore_session_in_progress t \<and>
     cached_current_item_index t = GetCurrentItemIndex s \<and>
     length (cached_items t) = GetBackForwardListItemCount s \<and>
     (\<forall>n < GetBackForwardListItemCount s. \<exists>i. deref t (Wk n) = Some i \<and> cached_items t ! n = cached_copy P i) \<and>
     (\<forall>n i. deref s (Wk n) = Some i \<longrightarrow> deref t (Wk n) = Some i) \<and>
     (\<exists>u. extends s u \<and> t = u\<lparr>cached_current_item_index := cached_current_item_index t, cached_items := cached_items t,
          attached_to_web_view := False, is_restore_session_in_progress := False\<rparr>)) s"
proof -
  let ?s = "s\<lparr>cached_current_item_index := GetCurrentItemIndex s\<rparr>"
  let ?c = "GetBackForwardListItemCount s"
  have c: "GetBackForwardListItemCount ?s = ?c" by (simp add: GetBackForwardListItemCount_def)
  have "wp (amapM (cache_item_at P) [0..<?c])
      (\<lambda>items t. extends ?s t \<and>
         list_all2 (\<lambda>n j. \<exists>i. deref t (Wk n) = Some i \<and> j = cached_copy P i) [0..<?c] items) ?s"
  proof (rule wp_mapM [where ?s0.0 = ?s])
    fix n u
    assume "n \<in> set [0..<?c]" and e: "extends ?s u"
    moreover have "wf_manager u" by (rule extends_wf_manager [OF e]) (use assms in \<open>simp add: wf_manager_def\<close>)
    ultimately show "wp (cache_item_at P n) (\<lambda>j t. extends u t \<and> (\<exists>i. deref t (Wk n) = Some i \<and> j = cached_copy P i)) u"
      using assms by (intro wp_cache_item_at) (simp_all add: extends_fields [OF e] extends_derived [OF e] c)
  next
    fix n j t u
    assume "\<exists>i. deref t (Wk n) = Some i \<and> j = cached_copy P i" and "extends t u"
    then show "\<exists>i. deref u (Wk n) = Some i \<and> j = cached_copy P i"
      using extends_deref [of t u "Wk n"] by blast
  qed (auto intro: extends_trans)
  then obtain items u where run: "amapM (cache_item_at P) [0..<?c] ?s = Inr (items, u)" and e: "extends ?s u"
    and items: "list_all2 (\<lambda>n j. \<exists>i. deref u (Wk n) = Some i \<and> j = cached_copy P i) [0..<?c] items"
    by (auto elim!: wpE simp del: deref.simps)
  let ?t = "u\<lparr>cached_items := items, attached_to_web_view := False, is_restore_session_in_progress := False\<rparr>"
  have same: "deref ?t (Wk n) = deref u (Wk n)" for n by simp
  have e': "extends s (u\<lparr>cached_current_item_index := cached_current_item_index s\<rparr>)"
    using e by (rule extends_cached_index)
  have len: "length items = ?c" using list_all2_lengthD [OF items] by simp
  have copies: "\<forall>n < ?c. \<exists>i. deref ?t (Wk n) = Some i \<and> items ! n = cached_copy P i"
    using list_all2_nthD [OF items] len unfolding same by simp
  have keep: "\<forall>n i. deref s (Wk n) = Some i \<longrightarrow> deref ?t (Wk n) = Some i"
  proof (intro allI impI)
    fix n i
    assume "deref s (Wk n) = Some i"
    then have "deref ?s (Wk n) = Some i" by simp
    then have "deref u (Wk n) = Some i" by (rule extends_deref [OF e]) simp
    then show "deref ?t (Wk n) = Some i" unfolding same .
  qed
  have "DetachFromWebView P s = Inr ((), ?t)"
    using assms run by (simp add: DetachFromWebView_def DetachCacheFromWebView_def action_defs c)
  then show ?thesis
    using copies keep len extends_fields(7) [OF e]
    by (intro wpI [of _ _ "()" ?t] conjI exI [of _ "u\<lparr>cached_current_item_index := cached_current_item_index s\<rparr>"] e')
      (simp_all del: deref.simps)
qed

text \<open>The cache of a manager that was detached from its web view stands for the same history: as many
  items, the same current index, and at every index the item that the list of the web view had there.\<close>
theorem detaching_keeps_the_history:
  assumes "wf_manager s" and "attached_to_web_view s"
  shows "\<exists>t. DetachFromWebView P s = Inr ((), t) \<and> \<not> attached_to_web_view t \<and>
     GetItemCount t = GetItemCount s \<and> GetCurrentItemIndex t = GetCurrentItemIndex s \<and>
     (empty_window_open_item s = None \<longrightarrow>
       (\<forall>n < GetItemCount s. \<exists>i. deref t (item_pointer t n) = Some (cached_copy P i) \<and>
          GetItemAtIndex P (int n) t = Inr (Some (item_pointer t n), t) \<and>
          (\<forall>j. deref s (item_pointer s n) = Some j \<longrightarrow> i = j)))"
proof -
  obtain t u where t: "DetachFromWebView P s = Inr ((), t)" "\<not> attached_to_web_view t"
    "cached_current_item_index t = GetCurrentItemIndex s" "length (cached_items t) = GetBackForwardListItemCount s"
    "\<forall>n < GetBackForwardListItemCount s. \<exists>i. deref t (Wk n) = Some i \<and> cached_items t ! n = cached_copy P i"
    "\<forall>n i. deref s (Wk n) = Some i \<longrightarrow> deref t (Wk n) = Some i"
    and e: "extends s u" and u: "t = u\<lparr>cached_current_item_index := cached_current_item_index t,
        cached_items := cached_items t, attached_to_web_view := False, is_restore_session_in_progress := False\<rparr>"
    using wp_detach [OF assms, of P] by (auto elim!: wpE simp del: deref.simps)
  have w: "empty_window_open_item t = empty_window_open_item s"
    using arg_cong [OF u, of empty_window_open_item] by (simp add: extends_fields [OF e])
  have count: "GetBackForwardListItemCount t = GetBackForwardListItemCount s"
    using t by (simp add: GetBackForwardListItemCount_def)
  have items: "\<exists>i. deref t (item_pointer t n) = Some (cached_copy P i) \<and>
      GetItemAtIndex P (int n) t = Inr (Some (item_pointer t n), t) \<and>
      (\<forall>j. deref s (item_pointer s n) = Some j \<longrightarrow> i = j)"
    if none: "empty_window_open_item s = None" and n: "n < GetItemCount s" for n
  proof -
    have n': "n < GetBackForwardListItemCount s" using none n by (simp add: GetItemCount_def)
    then obtain i where i: "deref t (Wk n) = Some i" "cached_items t ! n = cached_copy P i" using t(5) by blast
    have "item_pointer t n = Cached n" "item_pointer s n = Wk n"
      using none w t(2) assms(2) by (simp_all add: item_pointer_def)
    moreover have "GetItemAtIndex P (int n) t = Inr (Some (Cached n), t)"
      using none w t(2) n' count
      by (simp add: GetItemAtIndex_def GetNavigationItemImplAtIndex_def GetCachedOrLinkedItemAtIndex_def action_defs)
    moreover have "\<forall>j. deref s (Wk n) = Some j \<longrightarrow> i = j" using t(6) i(1) by (metis option.inject)
    moreover have "deref t (Cached n) = Some (cached_copy P i)" using i(2) n' t(4) by simp
    ultimately show ?thesis by (metis (no_types))
  qed
  show ?thesis
    using t(1-3) w count items
    by (intro exI [of _ t]) (auto simp: GetItemCount_def GetCurrentItemIndex_def [of t] simp del: deref.simps)
qed

theorem detaching_keeps_the_history_witness:
  "\<exists>t. DetachFromWebView demo_nav demo_manager = Inr ((), t) \<and> GetItemCount t = 4 \<and> GetCurrentItemIndex t = 2"
proof -
  have "GetItemCount demo_manager = 4" "GetCurrentItemIndex demo_manager = 2"
    by (simp_all add: demo_manager_def new_nav_manager_def GetCurrentItemIndex_def GetItemCount_def
        GetBackForwardListItemCount_def wk_items_def)
  then show ?thesis
    using detaching_keeps_the_history [OF demo_manager_ok(1,2), of demo_nav] by auto
qed

end
