(* ===== verification/Navigation_Restore.thy ===== *)
theory Navigation_Restore
  imports Navigation_Props
begin

text \<open>
  The restoration of a session by the navigation manager: a history that was detached from its
  web view is loaded again through one internal URL, the item that was visible stays visible, and
  what is asked for meanwhile is stored and runs at the end.
\<close>

section \<open>Restoring a session\<close>

text \<open>While a restoration is in progress, a nested \<open>Restore\<close> stops at its first \<open>DCHECK\<close>, so that the load
  inside a restoration is the ordinary load.\<close>

lemma Restore_in_progress: "is_restore_session_in_progress s \<Longrightarrow> Restore P i items s = Inl Dcheck_failed"
  by (simp add: Restore_def action_defs)

text \<open>A restoration of a web view that has a history fails: the delegate's \<open>RemoveWebView\<close> detaches the
  manager, whose cached items then count.\<close>

lemma restore_over_a_history_faults:
  assumes "wf_manager s" and "attached_to_web_view s" and "web_view s \<noteq> None" and "0 < GetItemCount s"
    and "items \<noteq> []" and "0 \<le> i" and "i < int (length items)" and "\<not> is_restore_session_in_progress s"
  shows "Restore P i items s = Inl Dcheck_failed"
proof -
  let ?s = "s\<lparr>pending_item := None, pending_item_index := -1, calls := calls s @ [Called_RemoveWebView]\<rparr>"
  have s: "wf_manager ?s" "attached_to_web_view ?s" "GetItemCount ?s = GetItemCount s"
    using assms by (simp_all add: wf_manager_def GetItemCount_def GetBackForwardListItemCount_def)
  obtain t where t: "DetachFromWebView P ?s = Inr ((), t)" "GetItemCount t = GetItemCount s" "\<not> attached_to_web_view t"
    using detaching_keeps_the_history [OF s(1,2), of P] s(3) by auto
  have "GetItemCount (t\<lparr>web_view := None, context_pending_item := None\<rparr>) = GetItemCount t"
    using t(3) by (simp add: GetItemCount_def GetBackForwardListItemCount_def)
  then show ?thesis
    using assms t s by (simp add: Restore_def RemoveWebView_def DiscardNonCommittedItems_def call_delegate_def
        action_defs GetItemCount_ghost)
qed

text \<open>A detached manager without items cannot be made to load.\<close>

lemma load_of_an_empty_detached_manager_faults:
  assumes "\<not> attached_to_web_view s" and "cached_items s = []" and "cached_current_item_index s = -1"
  shows "LoadIfNecessary P s = Inl Dcheck_failed"
  using assms
  by (cases "is_restore_session_in_progress s")
    (simp_all add: LoadIfNecessary_def restore_cached_history_def ReleaseCachedItems_def Restore_def
      GetCurrentItemIndex_def action_defs)

text \<open>What a restoration relies on: the laws of URLs, that URLs of \<open>restore_session.html\<close> are valid and
  left alone by the rewriters, and that a reload is neither a redirect nor a history navigation.\<close>

definition restore_laws :: "('u, 'z) nav_platform_scheme \<Rightarrow> bool" where
  "restore_laws P \<longleftrightarrow>
     gurl_laws P \<and> page_transition_reload P AND page_transition_forward_back P = 0 \<and>
     \<not> page_transition_is_redirect P (page_transition_reload P) \<and>
     (\<forall>r. is_valid P (replace_ref P r (GetRestoreSessionBaseUrl P)) \<and>
          RewriteURLIfNecessary P (replace_ref P r (GetRestoreSessionBaseUrl P)) =
            (False, replace_ref P r (GetRestoreSessionBaseUrl P)))"

lemma CreateRestoreSessionUrl_returns:
  assumes "0 \<le> i" and "i < int (length xs)"
  shows "\<exists>r k. CreateRestoreSessionUrl P i xs = Inr (replace_ref P r (GetRestoreSessionBaseUrl P), k) \<and>
     0 \<le> k \<and> k < int (length xs)"
proof -
  obtain k sz n where r: "GetSafeItemRange P i (int (length xs)) = (k, sz, n)" by (metis prod_cases3)
  from GetSafeItemRange_ok [OF r assms] have "0 \<le> k" "k < int (length xs)" by linarith+
  then show ?thesis using assms r by (auto simp: CreateRestoreSessionUrl_def Let_def)
qed

lemma rewritten_restore_url:
  "restore_laws P \<Longrightarrow> rewritten_url P (replace_ref P r (GetRestoreSessionBaseUrl P)) [] =
     Inr (replace_ref P r (GetRestoreSessionBaseUrl P))"
  by (simp add: rewritten_url_def restore_laws_def IsPlaceholderUrl_def)

lemma wp_create_item_unrewritten:
  "rewritten_url P url rewriters = Inr url \<Longrightarrow>
   wp (CreateNavigationItemWithRewriters P url referrer transition initiation https previous rewriters redirected)
     (\<lambda>item t. t = s\<lparr>unique_id_counter := unique_id_counter s + 1\<rparr> \<and> item_url item = url) s"
  by (simp add: CreateNavigationItemWithRewriters_def wp_rules wp_lift Let_def nav_item_setter_defs
      GetUniqueIDInConstructor_def)

text \<open>Without a web view the pending item is a new one.\<close>

definition blank_manager :: "'u nav_manager \<Rightarrow> bool" where
  "blank_manager s \<longleftrightarrow>
     attached_to_web_view s \<and> web_view s = None \<and> empty_window_open_item s = None \<and> pending_item_index s = -1"

lemma blank_last_committed:
  "blank_manager s \<Longrightarrow> GetLastCommittedItemInCurrentOrRestoredSession P s = Inr (None, s)"
  by (simp add: GetLastCommittedItemInCurrentOrRestoredSession_def blank_manager_def action_defs GetItemCount_def
      GetLastCommittedItemIndexInCurrentOrRestoredSession_def GetCurrentItemIndex_def GetBackForwardListItemCount_def)

lemma effective_current_item_url_returns: "\<exists>x. effective_current_item_url P transition initiation u = Inr x"
proof (cases "IsRestoreSessionUrl P u")
  case True
  obtain target where "ExtractTargetURL P u = Inr target" using ExtractTargetURL_returns [OF True] by (rule exE)
  then show ?thesis by (simp add: effective_current_item_url_def)
next
  case False
  then show ?thesis by (simp add: effective_current_item_url_def)
qed

lemma IsSameOrPlaceholderOf_returns:
  assumes "gurl_laws P" and "\<not> use_js_for_error_page P"
  shows "\<exists>y. IsSameOrPlaceholderOf P a b = Inr y"
proof -
  obtain p where "CreatePlaceholderUrlForUrl P b = Inr p" using CreatePlaceholderUrlForUrl_ok [OF assms, of b] by blast
  then show ?thesis using assms(2) by (cases "a = b") (auto simp: IsSameOrPlaceholderOf_def)
qed

lemma is_current_url_same_as_pending_returns:
  assumes "gurl_laws P"
  shows "\<exists>y. is_current_url_same_as_pending P a b c = Inr y"
proof (cases "use_js_for_error_page P")
  case True
  then show ?thesis by (simp add: is_current_url_same_as_pending_def)
next
  case False
  obtain x where x: "IsSameOrPlaceholderOf P a b = Inr x" using IsSameOrPlaceholderOf_returns [OF assms False] by blast
  obtain y where "IsSameOrPlaceholderOf P a c = Inr y" using IsSameOrPlaceholderOf_returns [OF assms False] by blast
  with x False show ?thesis by (cases x) (auto simp: is_current_url_same_as_pending_def)
qed

lemma wp_blank_add_pending:
  assumes "restore_laws P" and "blank_manager s" and "transient_url_rewriters s = []"
    and url: "url = replace_ref P r (GetRestoreSessionBaseUrl P)"
  shows "wp (AddPendingItem P url referrer (page_transition_reload P) initiation False https)
     (\<lambda>_ t. \<exists>i k u. item_url i = url \<and> t = s\<lparr>pending_item := Some i, pending_item_index := -1, unique_id_counter := k,
         transient_url_rewriters := [], next_pending_url_should_skip_serialization := u\<rparr>) s"
    (is "wp _ ?Q s")
proof -
  let ?s = "s\<lparr>pending_item := None, pending_item_index := -1\<rparr>"
  have b: "blank_manager ?s" using assms(2) by (simp add: blank_manager_def)
  define m where "m = CreateNavigationItemWithRewriters P url referrer (page_transition_reload P) initiation https
     (empty_gurl P) [] None"
  have "wp m (\<lambda>item t. t = ?s\<lparr>unique_id_counter := unique_id_counter ?s + 1\<rparr> \<and> item_url item = url) ?s"
    unfolding m_def by (rule wp_create_item_unrewritten) (use assms(1) url rewritten_restore_url in blast)
  then obtain i where i: "m ?s = Inr (i, ?s\<lparr>unique_id_counter := unique_id_counter s + 1\<rparr>)" "item_url i = url"
    by (auto elim!: wpE)
  have redirect: "\<not> page_transition_is_redirect P (page_transition_reload P)" using assms(1) by (simp add: restore_laws_def)
  define skip where "skip \<longleftrightarrow> \<not> is_empty_url P (next_pending_url_should_skip_serialization s) \<and>
      url = next_pending_url_should_skip_serialization s"
  define j where "j = (if skip then SetShouldSkipSerialization True i else i)"
  let ?t = "s\<lparr>pending_item := Some j, pending_item_index := -1, unique_id_counter := unique_id_counter s + 1,
         transient_url_rewriters := [], next_pending_url_should_skip_serialization := empty_gurl P\<rparr>"
  have j: "item_url j = url" using i by (simp add: j_def SetShouldSkipSerialization_def)
  have "\<exists>t. create_pending_item P url referrer (page_transition_reload P) initiation https s = Inr ((), t) \<and> t = ?t"
    using i redirect assms(3) blank_last_committed [OF b, of P]
    by (simp add: create_pending_item_def DiscardNonCommittedItems_def RemoveTransientURLRewriters_def url_behind_def
        set_item_def load_item_def action_defs m_def [symmetric] skip_def [symmetric] j_def)
  then obtain t where created: "create_pending_item P url referrer (page_transition_reload P) initiation https s = Inr ((), t)"
    and t: "t = ?t" by (elim exE conjE)
  have run: "wp (create_pending_item P url referrer (page_transition_reload P) initiation https) R s = R () t" for R
    using created by (rule wp_eq)
  have laws: "gurl_laws P" using assms(1) by (simp add: restore_laws_def)
  have blank: "web_view t = None" "attached_to_web_view t" "pending_item t = Some j"
    using assms(2) by (simp_all add: blank_manager_def t)
  obtain x where x: "effective_current_item_url P (page_transition_reload P) initiation (empty_gurl P) = Inr x"
    using effective_current_item_url_returns by (rule exE)
  obtain y where y: "is_current_url_same_as_pending P x url (empty_gurl P) = Inr y"
    using is_current_url_same_as_pending_returns [OF laws] by (rule exE)
  have post: "?Q () t" using j by (intro exI [of _ j]) (auto simp: t)
  show ?thesis
    using blank x y post
    apply (simp add: AddPendingItem_def wp_rules run cong: if_cong)
    apply (simp add: current_wk_def wk_item_url_def wk_item_at_def restore_user_agent_def proxy_url_def
        GetNavigationItemFromWKItem_def wp_rules wp_lift wp_load_item j)
    done
qed

lemma prepare_blank_pending_item:
  assumes "GetLastCommittedItemInCurrentOrRestoredSession P t = Inr (None, t)" and "pending_item t = Some i"
  shows "\<exists>j. prepare_pending_item P params Pending t = Inr ((), t\<lparr>pending_item := Some j\<rparr>) \<and> item_url j = item_url i"
proof -
  define a where "a = (if empty_gurl P \<noteq> item_url i \<and> equals_ignoring_ref P (empty_gurl P) (item_url i)
    then SetIsCreatedFromHashChange True i else i)"
  define b where "b = (if is_valid P (load_virtual_url params) then SetVirtualURL P (load_virtual_url params) a else a)"
  define c where "c = (if is_using_https_as_default_scheme params then SetUpgradedToHttps b else b)"
  have "t\<lparr>pending_item := Some i\<rparr> = t" using assms(2) by (simp flip: assms(2))
  then have "prepare_pending_item P params Pending t = Inr ((), t\<lparr>pending_item := Some c\<rparr>)"
    using assms by (simp add: prepare_pending_item_def action_defs set_item_def load_item_def a_def b_def c_def)
  moreover have "item_url c = item_url i"
    by (simp add: a_def b_def c_def SetIsCreatedFromHashChange_def SetUpgradedToHttps_def)
  ultimately show ?thesis by blast
qed

lemma wp_load_in_restore:
  assumes laws: "restore_laws P" and blank: "blank_manager s" and "transient_url_rewriters s = []"
    and "is_restore_session_in_progress s"
    and url: "url = replace_ref P r (GetRestoreSessionBaseUrl P)"
  shows "wp (LoadURLWithParams_in_restore P (restore_params P url first_item))
     (\<lambda>_ t. \<exists>j k u. item_url j = url \<and> t = s\<lparr>pending_item := Some j, pending_item_index := -1, unique_id_counter := k,
         transient_url_rewriters := [], next_pending_url_should_skip_serialization := u,
         calls := calls s @ [Called_ClearDialogs, Called_RecordPageState, Called_LoadCurrentItem BROWSER_INITIATED]\<rparr>) s"
    (is "wp _ ?Q s")
proof -
  let ?s = "s\<lparr>calls := calls s @ [Called_ClearDialogs, Called_RecordPageState]\<rparr>"
  have restore: "IsRestoreSessionUrl P url" using laws url by (simp add: restore_laws_def)
  have bits: "page_transition_reload P AND page_transition_forward_back P = 0" using laws by (simp add: restore_laws_def)
  have "blank_manager ?s" using blank by (simp add: blank_manager_def)
  from wp_blank_add_pending [OF laws this _ url, of "empty_referrer P" BROWSER_INITIATED False] assms(3)
  obtain i k u t where add: "AddPendingItem P url (empty_referrer P) (page_transition_reload P) BROWSER_INITIATED False False ?s = Inr ((), t)"
    and i: "item_url i = url" and t: "t = ?s\<lparr>pending_item := Some i, pending_item_index := -1, unique_id_counter := k,
         transient_url_rewriters := [], next_pending_url_should_skip_serialization := u\<rparr>"
    by (auto elim!: wpE)
  have b: "blank_manager t" using blank by (simp add: t blank_manager_def)
  have last: "GetLastCommittedItemInCurrentOrRestoredSession P t = Inr (None, t)" by (rule blank_last_committed [OF b])
  have "\<exists>j. prepare_pending_item P (restore_params P url first_item) Pending t = Inr ((), t\<lparr>pending_item := Some j\<rparr>) \<and> item_url j = url"
    using prepare_blank_pending_item [OF last, of i] i by (simp add: t)
  then obtain j where prepared: "prepare_pending_item P (restore_params P url first_item) Pending t = Inr ((), t\<lparr>pending_item := Some j\<rparr>)"
    and j: "item_url j = url" by blast
  have loaded: "LoadURLWithParams_in_restore P (restore_params P url first_item) s =
      Inr ((), t\<lparr>pending_item := Some j, calls := calls t @ [Called_LoadCurrentItem BROWSER_INITIATED]\<rparr>)"
    using restore bits assms(4) add prepared b
    by (simp add: LoadURLWithParams_in_restore_def LoadURLWithParams_with_def action_defs restore_params_def
        new_WebLoadParams_def call_delegate_def GetPendingItemInCurrentOrRestoredSession_def prepare_added_item_def
        blank_manager_def t)
  show ?thesis
    by (rule wpI, rule loaded, rule exI [of _ j], rule exI [of _ k], rule exI [of _ u]) (simp add: j t)
qed

section \<open>A detached history is restored\<close>

definition restored_items :: "('u, 'z) nav_platform_scheme \<Rightarrow> 'u nav_item list \<Rightarrow> 'u nav_item list" where
  "restored_items P items = map (RewriteItemURLIfNecessary P) items"

lemma length_restored_items [simp]: "length (restored_items P items) = length items"
  by (simp add: restored_items_def)

definition restoring_state :: "('u, 'z) nav_platform_scheme \<Rightarrow> int \<Rightarrow> 'u nav_item list \<Rightarrow> 'u nav_manager \<Rightarrow> 'u nav_manager" where
  "restoring_state P index items s =
     s\<lparr>is_restore_session_in_progress := True, restored_visible_item := Some (restored_items P items ! nat index),
       restore_session_completion_callbacks := restore_session_completion_callbacks s @
         [Restore_items_state kBackList (take (nat index) (restored_items P items)),
          Restore_items_state kForwardList (drop (nat (index + 1)) (restored_items P items))],
       transient_url_rewriters := [], pending_item_index := -1,
       calls := calls s @ [Called_ClearDialogs, Called_RecordPageState, Called_LoadCurrentItem BROWSER_INITIATED]\<rparr>"

lemma wp_unsafe_restore:
  assumes laws: "restore_laws P" and blank: "blank_manager s" and "transient_url_rewriters s = []"
    and index: "0 \<le> index" "index < int (length items)"
  shows "wp (UnsafeRestore P index items) (\<lambda>_ t.
     \<exists>first j k u. CreateRestoreSessionUrl P index (map (\<lambda>i. (item_url i, item_title i)) (restored_items P items)) =
         Inr (item_url j, first) \<and>
       t = (restoring_state P index items s)\<lparr>pending_item := Some j, unique_id_counter := k,
           next_pending_url_should_skip_serialization := u\<rparr>) s"
proof -
  let ?items = "restored_items P items"
  obtain r k where url: "CreateRestoreSessionUrl P index (map (\<lambda>i. (item_url i, item_title i)) ?items) =
      Inr (replace_ref P r (GetRestoreSessionBaseUrl P), k)" and k: "0 \<le> k" "k < int (length items)"
    using CreateRestoreSessionUrl_returns [of index "map (\<lambda>i. (item_url i, item_title i)) ?items" P] index
    by (auto simp: restored_items_def)
  let ?url = "replace_ref P r (GetRestoreSessionBaseUrl P)"
  let ?first = "?items ! nat k"
  let ?s = "s\<lparr>is_restore_session_in_progress := True, restored_visible_item := Some (?items ! nat index),
       restore_session_completion_callbacks := restore_session_completion_callbacks s @
         [Restore_items_state kBackList (take (nat index) ?items),
          Restore_items_state kForwardList (drop (nat (index + 1)) ?items)]\<rparr>"
  have valid: "is_valid P ?url" using laws by (simp add: restore_laws_def)
  have "blank_manager ?s" using blank by (simp add: blank_manager_def)
  from wp_load_in_restore [OF laws this _ _ refl, of r ?first] assms(3)
  obtain j m u where run: "LoadURLWithParams_in_restore P (restore_params P ?url ?first) ?s = Inr ((), 
      ?s\<lparr>pending_item := Some j, pending_item_index := -1, unique_id_counter := m,
         transient_url_rewriters := [], next_pending_url_should_skip_serialization := u,
         calls := calls s @ [Called_ClearDialogs, Called_RecordPageState, Called_LoadCurrentItem BROWSER_INITIATED]\<rparr>)"
    and j: "item_url j = ?url"
    by (auto elim!: wpE)
  let ?j = "SetTitle P (item_title ?first) j"
  have ju: "item_url ?j = ?url" using j by (simp add: SetTitle_def)
  have run': "wp (LoadURLWithParams_in_restore P (restore_params P ?url ?first)) Q ?s = Q () 
      (?s\<lparr>pending_item := Some j, pending_item_index := -1, unique_id_counter := m,
         transient_url_rewriters := [], next_pending_url_should_skip_serialization := u,
         calls := calls s @ [Called_ClearDialogs, Called_RecordPageState, Called_LoadCurrentItem BROWSER_INITIATED]\<rparr>)" for Q
    using run by (rule wp_eq)
  show ?thesis
    using index k valid
    apply (simp only: UnsafeRestore_def Let_def restored_items_def [symmetric])
    apply (simp add: wp_rules wp_lift [OF url] store_restore_callback_def run' cong: option.case_cong)
    apply (simp add: GetPendingItemInCurrentOrRestoredSession_def wp_rules wp_set_item)
    using url ju
    by - (rule exI [of _ k], rule exI [of _ ?j], rule conjI, simp,
      rule exI [of _ m], rule exI [of _ u], simp add: restoring_state_def)
qed


section \<open>What waits for the end of a restoration\<close>

lemma deferred_load_is_stored:
  "is_restore_session_in_progress s \<Longrightarrow> \<not> IsRestoreSessionUrl P (load_url params) \<Longrightarrow>
     LoadURLWithParams P params s = Inr ((), s\<lparr>restore_session_completion_callbacks :=
       restore_session_completion_callbacks s @ [Deferred_load params]\<rparr>)"
  by (simp add: LoadURLWithParams_def LoadURLWithParams_with_def store_restore_callback_def action_defs)

lemma run_client_callbacks:
  "attached_to_web_view s \<Longrightarrow> length (restore_session_completion_callbacks s) = n \<Longrightarrow>
     aforeach (run_stored_callback P n) (map Client_callback ids) s =
       Inr ((), s\<lparr>calls := calls s @ map Ran_client_callback ids\<rparr>)"
proof (induction ids arbitrary: s)
  case Nil
  then show ?case by (simp add: action_defs)
next
  case (Cons k ids)
  then show ?case
    by (simp add: action_defs run_stored_callback_def run_callback_def call_delegate_def)
qed


lemma demo_restore_laws: "restore_laws demo_nav"
proof -
  have "url_scheme demo_nav (replace_ref demo_nav r (GetRestoreSessionBaseUrl demo_nav)) \<noteq> kViewSourceScheme" for r
    using demo_nav_laws by (simp add: gurl_lawsD GetRestoreSessionBaseUrl_def kViewSourceScheme_def)
  moreover have "url_rewriters demo_nav = [HandleViewSource demo_nav]"
    by (simp add: url_rewriters_def demo_nav_def web_platform.defs)
  moreover have "is_valid demo_nav (replace_ref demo_nav r u)" for r u
    by (simp add: demo_nav_def web_platform.defs demo_platform_def)
  ultimately show ?thesis
    using demo_nav_laws
    by (simp add: restore_laws_def RewriteURLIfNecessary_def HandleViewSource_def demo_nav_def web_platform.defs)
qed



end
