(* ===== verification/Navigation_Commits.thy ===== *)
theory Navigation_Commits
  imports Navigation_Props
begin

text \<open>
  Commits of the navigation manager: the pending item is moved into the current item of the web
  view's list, with the time and without its initiation, and the observers hear of the item that
  is now the last committed one.
\<close>

section \<open>Storing an item in the list\<close>

definition store_in_list :: "nat \<Rightarrow> 'u nav_item \<Rightarrow> 'u nav_manager \<Rightarrow> 'u nav_manager" where
  "store_in_list n i s = s\<lparr>web_view := map_option (update_wk n (\<lambda>w. w\<lparr>wk_holder := Some i\<rparr>)) (web_view s)\<rparr>"

lemma store_in_list_deref:
  "web_view s = Some v \<Longrightarrow> n < length (wk_items v) \<Longrightarrow>
     deref (store_in_list n i s) (Wk m) = (if m = n then Some i else deref s (Wk m))"
  by (auto simp: store_in_list_def wk_items_update_wk nth_list_update)

lemma wf_view_update_wk: "wf_view (update_wk n f v) \<longleftrightarrow> wf_view v"
  using update_wk_simps [of n f v] by (auto simp: wf_view_def simp flip: length_0_conv)

lemma store_in_list_simps [simp]:
  "wf_manager (store_in_list n i s) \<longleftrightarrow> wf_manager s"
  "GetBackForwardListItemCount (store_in_list n i s) = GetBackForwardListItemCount s"
  "GetCurrentItemIndex (store_in_list n i s) = GetCurrentItemIndex s"
  "attached_to_web_view (store_in_list n i s) = attached_to_web_view s"
  "empty_window_open_item (store_in_list n i s) = empty_window_open_item s"
  "pending_item_index (store_in_list n i s) = pending_item_index s"
  "is_restore_session_in_progress (store_in_list n i s) = is_restore_session_in_progress s"
  "calls (store_in_list n i s) = calls s"
  "restored_visible_item (store_in_list n i s) = restored_visible_item s"
  by (cases "web_view s";
      simp add: store_in_list_def wf_manager_def wf_view_update_wk GetBackForwardListItemCount_def GetCurrentItemIndex_def)+

section \<open>Commits\<close>

text \<open>A web view with a current item, at index \<open>n\<close> of its list.\<close>

definition at_list_item :: "nat \<Rightarrow> 'u nav_manager \<Rightarrow> bool" where
  "at_list_item n s \<longleftrightarrow>
     attached_to_web_view s \<and> \<not> is_restore_session_in_progress s \<and>
     (\<exists>v. web_view s = Some v \<and> current_wk_item v \<noteq> None \<and> length (back_list v) = n)"

lemma at_list_item_derived:
  assumes "at_list_item n s"
  shows "GetCurrentItemIndex s = int n" "current_wk s = Some n" "wf_manager s" "n < GetBackForwardListItemCount s"
    "web_view s \<noteq> None"
  using assms
  by (auto simp: at_list_item_def GetCurrentItemIndex_def current_wk_def wf_manager_def wf_view_def
      GetBackForwardListItemCount_def wk_items_def)

lemma at_list_item_stored [simp]: "at_list_item n (store_in_list k i s) \<longleftrightarrow> at_list_item n s"
  by (cases "web_view s") (simp_all add: at_list_item_def store_in_list_def del: not_None_eq)

lemma at_list_item_fields:
  "at_list_item n (s\<lparr>pending_item := p, pending_item_index := k\<rparr>) \<longleftrightarrow> at_list_item n s"
  "at_list_item n (s\<lparr>time_smoother := m, empty_window_open_item := e\<rparr>) \<longleftrightarrow> at_list_item n s"
  by (simp_all add: at_list_item_def)

lemma deref_committed:
  "deref (s\<lparr>calls := c, restored_visible_item := None\<rparr>) (Wk m) = deref s (Wk m)"
  "deref (s\<lparr>calls := c\<rparr>) r = deref s r"
  "deref (s\<lparr>last_committed_item_index := k\<rparr>) r = deref s r"
  by (cases r; simp)+

lemma wp_finish_commit:
  assumes "at_list_item n s" and "empty_window_open_item s = None"
  shows "wp (finish_commit P) (\<lambda>_ t. \<exists>u r i. extends (s\<lparr>last_committed_item_index := int n\<rparr>) u \<and>
     (r = Wk n \<or> r = Web_view_item) \<and> deref u r = Some i \<and>
     t = u\<lparr>calls := calls s @ [Called_OnNavigationItemCommitted r],
           restored_visible_item := if IsRestoreSessionUrl P (item_url i) then restored_visible_item s else None\<rparr>) s"
proof -
  let ?s = "s\<lparr>last_committed_item_index := int n\<rparr>"
  note d = at_list_item_derived [OF assms(1)]
  have s: "attached_to_web_view ?s" "wf_manager ?s" "GetCurrentItemIndex ?s = int n"
    "GetItemCount ?s = GetBackForwardListItemCount s" "empty_window_open_item ?s = None"
    using assms d by (simp_all add: at_list_item_def wf_manager_def GetCurrentItemIndex_def GetItemCount_def
        GetBackForwardListItemCount_def)
  have k: "GetLastCommittedItemIndexInCurrentOrRestoredSession ?s = int n"
    using s by (simp add: GetLastCommittedItemIndexInCurrentOrRestoredSession_def)
  have ok: "committed_index_ok ?s" by (simp add: committed_index_ok_def k)
  have p: "item_pointer ?s n = Wk n" using s by (simp add: item_pointer_def)
  from wp_last_committed [OF ok, of P] d(4) s(2,4) obtain r u
    where r: "GetLastCommittedItemInCurrentOrRestoredSession P ?s = Inr (Some r, u)" "extends ?s u"
      "committed_pointer u (Some r)" "r = Wk n \<or> r = Web_view_item"
    by (auto elim!: wpE simp: k p)
  then obtain i where i: "deref u r = Some i" by (auto simp: committed_pointer_def)
  have fields: "calls u = calls s" "restored_visible_item u = restored_visible_item s"
    "\<not> is_restore_session_in_progress u"
    using assms(1) by (simp_all add: extends_fields [OF r(2)] at_list_item_def)
  have run: "wp (GetLastCommittedItemInCurrentOrRestoredSession P) Q ?s = Q (Some r) u" for Q
    using r(1) by (rule wp_eq)
  have same: "u\<lparr>calls := c, restored_visible_item := restored_visible_item s\<rparr> = u\<lparr>calls := c\<rparr>" for c
    by (simp flip: fields(2))
  let ?t = "u\<lparr>calls := calls s @ [Called_OnNavigationItemCommitted r],
           restored_visible_item := if IsRestoreSessionUrl P (item_url i) then restored_visible_item s else None\<rparr>"
  have "wp (finish_commit P) (\<lambda>_ t. t = ?t) s"
    using assms d i fields
    by (simp add: finish_commit_def OnNavigationItemCommitted_def wp_rules run call_delegate_def wp_load_item
        deref_committed same)
  then show ?thesis
    by (rule wp_strengthen) (use r(2,4) i in blast)
qed




end
