(* ===== verification/Archive_Coder.thy ===== *)
theory Archive_Coder
  imports Page_Display_State
begin

text \<open>
  Archives: what the web layer uses of \<open>NSCoder\<close>, \<open>web/navigation/nscoder_util.mm\<close>, and the interface
  of a class that conforms to \<open>NSCoding\<close>.

  An archive is an association list from keys to values.  A missing key decodes to nil, zero or
  the empty string, as documented; a value of another class does not answer the messages it is sent,
  which is a fault.  Sets are archived as lists of their elements.  \<open>'d\<close> stands for the objects that
  clients of the web layer archive.

  The locale \<open>archived\<close> is the contract of an encoder and its decoder: what was encoded is decoded
  again, up to \<open>norm\<close>.
\<close>

section \<open>Archives\<close>

datatype 'd coded =
    Bytes string | Coded_int int | Coded_bool bool
  | String_object string | Number_object int | Data_object string | Url_object string
  | Display_object display_dictionary | Headers_object "(string \<times> string) list"
  | Dictionary_object "(string \<times> 'd) list"
  | Array_object "'d coded list" | Archived_object "(string \<times> 'd coded) list" | Nil_object

type_synonym 'd archive = "(string \<times> 'd coded) list"

definition containsValueForKey :: "string \<Rightarrow> 'd archive \<Rightarrow> bool" where
  "containsValueForKey key coder \<longleftrightarrow> map_of coder key \<noteq> None"

definition decodeBoolForKey :: "string \<Rightarrow> 'd archive \<Rightarrow> bool outcome" where
  "decodeBoolForKey key coder =
     (case map_of coder key of None \<Rightarrow> Inr False | Some (Coded_bool b) \<Rightarrow> Inr b | Some _ \<Rightarrow> Inl Range_error)"

definition decodeIntForKey :: "string \<Rightarrow> 'd archive \<Rightarrow> int outcome" where
  "decodeIntForKey key coder =
     (case map_of coder key of None \<Rightarrow> Inr 0 | Some (Coded_int i) \<Rightarrow> Inr i | Some _ \<Rightarrow> Inl Range_error)"

text \<open>Nil is \<open>None\<close>.\<close>

definition decodeObjectForKey :: "string \<Rightarrow> 'd archive \<Rightarrow> 'd coded option" where
  "decodeObjectForKey key coder =
     (case map_of coder key of None \<Rightarrow> None | Some Nil_object \<Rightarrow> None | Some x \<Rightarrow> Some x)"

text \<open>\<open>nscoder_util\<close>: strings are archived as bytes.\<close>

definition EncodeString :: "string \<Rightarrow> string \<Rightarrow> 'd archive" where
  "EncodeString key s = [(key, Bytes s)]"

definition DecodeString :: "string \<Rightarrow> 'd archive \<Rightarrow> string outcome" where
  "DecodeString key coder =
     (case map_of coder key of None \<Rightarrow> Inr [] | Some (Bytes s) \<Rightarrow> Inr s | Some _ \<Rightarrow> Inl Range_error)"

section \<open>Objects of the expected class\<close>

fun as_string :: "'d coded option \<Rightarrow> string option outcome" where
  "as_string None = Inr None"
| "as_string (Some (String_object s)) = Inr (Some s)"
| "as_string _ = Inl Range_error"

fun as_number :: "'d coded option \<Rightarrow> int option outcome" where
  "as_number None = Inr None"
| "as_number (Some (Number_object n)) = Inr (Some n)"
| "as_number _ = Inl Range_error"

fun as_data :: "'d coded option \<Rightarrow> string option outcome" where
  "as_data None = Inr None"
| "as_data (Some (Data_object s)) = Inr (Some s)"
| "as_data _ = Inl Range_error"

fun as_url :: "'d coded option \<Rightarrow> string option outcome" where
  "as_url None = Inr None"
| "as_url (Some (Url_object s)) = Inr (Some s)"
| "as_url _ = Inl Range_error"

fun as_display :: "'d coded option \<Rightarrow> display_dictionary option outcome" where
  "as_display None = Inr None"
| "as_display (Some (Display_object s)) = Inr (Some s)"
| "as_display _ = Inl Range_error"

fun as_headers :: "'d coded option \<Rightarrow> (string \<times> string) list option outcome" where
  "as_headers None = Inr None"
| "as_headers (Some (Headers_object s)) = Inr (Some s)"
| "as_headers _ = Inl Range_error"

fun as_dictionary :: "'d coded option \<Rightarrow> (string \<times> 'd) list option outcome" where
  "as_dictionary None = Inr None"
| "as_dictionary (Some (Dictionary_object s)) = Inr (Some s)"
| "as_dictionary _ = Inl Range_error"

fun as_array :: "'d coded option \<Rightarrow> 'd coded list option outcome" where
  "as_array None = Inr None"
| "as_array (Some (Array_object s)) = Inr (Some s)"
| "as_array _ = Inl Range_error"

fun as_archived :: "'d coded option \<Rightarrow> 'd archive option outcome" where
  "as_archived None = Inr None"
| "as_archived (Some (Archived_object s)) = Inr (Some s)"
| "as_archived _ = Inl Range_error"

lemmas decoder_defs =
  containsValueForKey_def decodeBoolForKey_def decodeIntForKey_def decodeObjectForKey_def DecodeString_def
  EncodeString_def

section \<open>The contract of NSCoding\<close>

locale archived =
  fixes encode :: "'a \<Rightarrow> 'd archive outcome"
    and decode :: "'d archive \<Rightarrow> 'a outcome"
    and norm :: "'a \<Rightarrow> 'a"
    and ok :: "'a \<Rightarrow> bool"
  assumes decode_encode: "ok x \<Longrightarrow> \<exists>a. encode x = Inr a \<and> decode a = Inr (norm x)"
begin

text \<open>Elements of an array are archived one by one.\<close>

lemma array_round_trip:
  "list_all ok xs \<Longrightarrow>
     \<exists>as. omap encode xs = Inr as \<and> length as = length xs \<and> omap decode as = Inr (map norm xs)"
proof (induction xs)
  case Nil
  then show ?case by simp
next
  case (Cons x xs)
  then obtain as where "omap encode xs = Inr as" "length as = length xs" "omap decode as = Inr (map norm xs)" by auto
  moreover from Cons.prems obtain a where "encode x = Inr a" "decode a = Inr (norm x)"
    using decode_encode [of x] by auto
  ultimately show ?case by simp
qed

end

end
