(* ===== verification/Session_Certificates.thy ===== *)
theory Session_Certificates
  imports Archive_Coder Certificate_Policy "HOL-Library.Multiset"
begin

text \<open>
  The certificates that the user allowed in a tab, and their archive:
  \<open>web/session/session_certificate_policy_cache_impl.{h,mm}\<close>,
  \<open>web/session/crw_session_certificate_policy_cache_storage.mm\<close> and
  \<open>web/session/session_certificate_policy_cache_storage_builder.mm\<close>.

  A certificate is its own encoding and those of its intermediates.  \<open>parses\<close> says which bytes
  \<open>X509Certificate::CreateFromBytes\<close> accepts, \<open>chain_hash\<close> is \<open>CalculateChainFingerprint256\<close>.  The
  elements of the set of allowed certificates are compared by identity, so that the set is a list of
  objects; whoever enumerates it may see any order.  Tasks posted to the IO thread are returned
  to the caller.  A missing set is \<open>None\<close>: messages to nil do nothing.

  The lemmas: what is archived is decoded again; the decisions of a restored session are those of
  the saved one if there is one for each certificate and host, and depend on the order of the
  enumeration otherwise; decisions are dropped while the set is nil.
\<close>

section \<open>Storages\<close>

record certificate =
  cert_buffer :: string
  intermediate_buffers :: "string list"

record certificate_storage =
  cs_certificate :: certificate
  cs_host :: string
  cs_status :: cert_status

definition kCertificateSerializationKey :: string where "kCertificateSerializationKey = ''CertificateSerializationKey''"
definition kHostSerializationKey :: string where "kHostSerializationKey = ''HostSerializationKey''"
definition kStatusSerializationKey :: string where "kStatusSerializationKey = ''StatusSerializationKey''"
definition kCertificateStoragesKey :: string where "kCertificateStoragesKey = ''kCertificateStoragesKey''"
definition kCertificateStoragesDeprecatedKey :: string where "kCertificateStoragesDeprecatedKey = ''allowedCertificates''"

lemmas certificate_key_defs = kCertificateSerializationKey_def kHostSerializationKey_def
  kStatusSerializationKey_def kCertificateStoragesKey_def kCertificateStoragesDeprecatedKey_def

definition initWithCertificate :: "certificate \<Rightarrow> string \<Rightarrow> cert_status \<Rightarrow> certificate_storage outcome" where
  "initWithCertificate cert h status =
     dcheck (h \<noteq> []) (Inr \<lparr>cs_certificate = cert, cs_host = h, cs_status = status\<rparr>)"

definition NSDataToCertificate :: "(string \<Rightarrow> bool) \<Rightarrow> string \<Rightarrow> certificate option" where
  "NSDataToCertificate parses data =
     (if parses data then Some \<lparr>cert_buffer = data, intermediate_buffers = []\<rparr> else None)"

definition initWithCertData ::
    "(string \<Rightarrow> bool) \<Rightarrow> string option \<Rightarrow> string option \<Rightarrow> int option \<Rightarrow> certificate_storage option outcome" where
  "initWithCertData parses certData hostName certStatus =
     (let cert = NSDataToCertificate parses (case certData of None \<Rightarrow> [] | Some d \<Rightarrow> d);
          h = (case hostName of None \<Rightarrow> [] | Some h \<Rightarrow> h)
      in case (cert, certStatus) of
           (Some c, Some n) \<Rightarrow> if h = [] then Inr None
                              else obind (initWithCertificate c h (word_of_int n)) (\<lambda>s. Inr (Some s))
         | _ \<Rightarrow> Inr None)"

definition initWithDeprecatedSerialization ::
    "(string \<Rightarrow> bool) \<Rightarrow> 'd coded list \<Rightarrow> certificate_storage option outcome" where
  "initWithDeprecatedSerialization parses serialization =
     (if length serialization \<noteq> 3 then Inr None
      else
        obind (as_data (Some (serialization ! 0))) (\<lambda>data.
        obind (as_string (Some (serialization ! 1))) (\<lambda>h.
        obind (as_number (Some (serialization ! 2))) (\<lambda>status.
        initWithCertData parses data h status))))"

text \<open>The second component is \<open>gBytesEncoded\<close>; a \<open>CertStatus\<close> has 4 bytes.\<close>

definition encode_certificate_storage :: "certificate_storage \<Rightarrow> int \<Rightarrow> 'd archive \<times> int" where
  "encode_certificate_storage s bytes_encoded =
     ([(kCertificateSerializationKey, Data_object (cert_buffer (cs_certificate s))),
       (kHostSerializationKey, String_object (cs_host s)),
       (kStatusSerializationKey, Number_object (uint (cs_status s)))],
      bytes_encoded + int (length (cert_buffer (cs_certificate s))) + int (length (cs_host s)) + 4)"

definition decode_certificate_storage ::
    "(string \<Rightarrow> bool) \<Rightarrow> 'd archive \<Rightarrow> certificate_storage option outcome" where
  "decode_certificate_storage parses coder =
     obind (as_data (decodeObjectForKey kCertificateSerializationKey coder)) (\<lambda>data.
     obind (as_string (decodeObjectForKey kHostSerializationKey coder)) (\<lambda>h.
     obind (as_number (decodeObjectForKey kStatusSerializationKey coder)) (\<lambda>status.
     initWithCertData parses data h status)))"

section \<open>The storage of a policy cache\<close>

type_synonym policy_cache_storage = "certificate_storage list option"

fun encode_certificate_storages :: "certificate_storage list \<Rightarrow> int \<Rightarrow> 'd coded list \<times> int" where
  "encode_certificate_storages [] bytes_encoded = ([], bytes_encoded)"
| "encode_certificate_storages (s # ss) bytes_encoded =
     (let (a, b) = encode_certificate_storage s bytes_encoded; (as, c) = encode_certificate_storages ss b
      in (Archived_object a # as, c))"

definition encode_policy_storage :: "policy_cache_storage \<Rightarrow> int \<Rightarrow> 'd archive \<times> int" where
  "encode_policy_storage certificateStorages bytes_encoded =
     (case certificateStorages of
        None \<Rightarrow> ([(kCertificateStoragesKey, Nil_object)], bytes_encoded)
      | Some ss \<Rightarrow> (let (as, n) = encode_certificate_storages ss bytes_encoded
                    in ([(kCertificateStoragesKey, Array_object as)], n)))"

text \<open>An element that decodes to nil cannot be put into a set.\<close>

definition decode_element :: "(string \<Rightarrow> bool) \<Rightarrow> 'd coded \<Rightarrow> certificate_storage outcome" where
  "decode_element parses x =
     obind (as_archived (Some x)) (\<lambda>a.
     case a of
       None \<Rightarrow> Inl Range_error
     | Some a \<Rightarrow>
         obind (decode_certificate_storage parses a) (\<lambda>s.
         case s of None \<Rightarrow> Inl Range_error | Some s \<Rightarrow> Inr s))"

definition decode_deprecated :: "(string \<Rightarrow> bool) \<Rightarrow> 'd coded \<Rightarrow> certificate_storage option outcome" where
  "decode_deprecated parses x =
     obind (as_array (Some x)) (\<lambda>xs.
     case xs of None \<Rightarrow> Inr None | Some xs \<Rightarrow> initWithDeprecatedSerialization parses xs)"

definition decode_policy_storage :: "(string \<Rightarrow> bool) \<Rightarrow> 'd archive \<Rightarrow> policy_cache_storage outcome" where
  "decode_policy_storage parses coder =
     obind (as_array (decodeObjectForKey kCertificateStoragesKey coder)) (\<lambda>current.
     obind (omap (decode_element parses) (case current of None \<Rightarrow> [] | Some xs \<Rightarrow> xs)) (\<lambda>storages.
     if storages \<noteq> [] then Inr (Some storages)
     else
       obind (as_array (decodeObjectForKey kCertificateStoragesDeprecatedKey coder)) (\<lambda>old.
       obind (omap (decode_deprecated parses) (case old of None \<Rightarrow> [] | Some xs \<Rightarrow> xs)) (\<lambda>decoded.
       Inr (Some (map the (filter (\<lambda>s. s \<noteq> None) decoded)))))))"

section \<open>The cache of a tab\<close>

type_synonym allowed_certs = "certificate_storage list option"

definition new_allowed_certs :: allowed_certs where "new_allowed_certs = Some []"

text \<open>The posted task: the arguments of \<open>AllowCertForHost\<close>.\<close>

definition RegisterAllowedCertificate ::
    "bool \<Rightarrow> certificate \<Rightarrow> string \<Rightarrow> cert_status \<Rightarrow> allowed_certs \<Rightarrow>
     (allowed_certs \<times> (certificate \<times> string \<times> cert_status)) outcome" where
  "RegisterAllowedCertificate on_ui cert h status allowed =
     dcheck on_ui
       (let leaf = cert\<lparr>intermediate_buffers := []\<rparr> in
        obind (initWithCertificate leaf h status) (\<lambda>s.
        Inr (map_option (\<lambda>xs. xs @ [s]) allowed, (leaf, h, status))))"

text \<open>\<open>order\<close> is the order in which the task enumerates the copy of the set.\<close>

definition UpdateCertificatePolicyCache ::
    "bool \<Rightarrow> (certificate \<Rightarrow> fingerprint) \<Rightarrow> certificate_storage list \<Rightarrow> policy_cache \<Rightarrow> policy_cache outcome" where
  "UpdateCertificatePolicyCache on_ui chain_hash order cache =
     dcheck on_ui
       (orun (\<lambda>c s. AllowCertForHost True (chain_hash (cs_certificate s)) (cs_host s) (cs_status s) c) cache order)"

definition enumerates :: "certificate_storage list \<Rightarrow> allowed_certs \<Rightarrow> bool" where
  "enumerates order allowed \<longleftrightarrow> mset order = mset (case allowed of None \<Rightarrow> [] | Some xs \<Rightarrow> xs)"

definition SetAllowedCerts :: "policy_cache_storage \<Rightarrow> allowed_certs" where
  "SetAllowedCerts allowed = allowed"

definition GetAllowedCerts :: "allowed_certs \<Rightarrow> allowed_certs" where
  "GetAllowedCerts allowed = allowed"

text \<open>\<open>[NSSet setWithSet:nil]\<close> is the empty set.\<close>

definition BuildPolicyStorage :: "allowed_certs \<Rightarrow> policy_cache_storage" where
  "BuildPolicyStorage allowed = Some (case GetAllowedCerts allowed of None \<Rightarrow> [] | Some xs \<Rightarrow> xs)"

text \<open>The storage may be nil itself, whose set is nil.\<close>

definition BuildSessionCertificatePolicyCache :: "policy_cache_storage option \<Rightarrow> allowed_certs" where
  "BuildSessionCertificatePolicyCache storage = SetAllowedCerts (case storage of None \<Rightarrow> None | Some s \<Rightarrow> s)"

section \<open>Lemmas\<close>

definition storage_ok :: "(string \<Rightarrow> bool) \<Rightarrow> certificate_storage \<Rightarrow> bool" where
  "storage_ok parses s \<longleftrightarrow>
     parses (cert_buffer (cs_certificate s)) \<and> intermediate_buffers (cs_certificate s) = [] \<and> cs_host s \<noteq> []"

text \<open>What a tab registers is archived as it is.\<close>

lemma registered_storage_ok:
  assumes "RegisterAllowedCertificate on_ui cert h status (Some xs) = Inr (Some ys, task)"
    and "parses (cert_buffer cert)" and "list_all (storage_ok parses) xs"
  shows "list_all (storage_ok parses) ys \<and> length ys = Suc (length xs)"
  using assms
  by (cases "h = []") (auto simp: RegisterAllowedCertificate_def initWithCertificate_def Let_def storage_ok_def)

lemma certificate_storage_round_trip:
  "storage_ok parses s \<Longrightarrow> decode_certificate_storage parses (fst (encode_certificate_storage s n)) = Inr (Some s)"
  by (simp add: decode_certificate_storage_def encode_certificate_storage_def decoder_defs certificate_key_defs
      initWithCertData_def initWithCertificate_def NSDataToCertificate_def storage_ok_def Let_def)

lemma encode_certificate_storages_map:
  "fst (encode_certificate_storages ss m) =
     map (\<lambda>s. Archived_object (fst (encode_certificate_storage s 0))) ss"
proof (induction ss arbitrary: m)
  case Nil
  then show ?case by simp
next
  case (Cons s ss)
  have "fst (encode_certificate_storage s k) = fst (encode_certificate_storage s 0)" for k
    by (simp add: encode_certificate_storage_def)
  then show ?case using Cons.IH by (simp add: Let_def case_prod_beta)
qed

interpretation storages: archived "\<lambda>s. Inr (fst (encode_certificate_storage s 0))"
  "\<lambda>a. obind (decode_certificate_storage parses a) (\<lambda>s. case s of None \<Rightarrow> Inl Range_error | Some s \<Rightarrow> Inr s)"
  "\<lambda>s. s" "storage_ok parses" for parses
  by unfold_locales (simp add: certificate_storage_round_trip)

lemma policy_storage_round_trip:
  assumes "list_all (storage_ok parses) ss"
  shows "decode_policy_storage parses (fst (encode_policy_storage (Some ss) n) :: 'd archive) = Inr (Some ss)"
proof -
  have "omap (decode_element parses)
      (map (\<lambda>s. Archived_object (fst (encode_certificate_storage s 0) :: 'd archive)) ss) = Inr ss"
    using assms by (induction ss) (simp_all add: decode_element_def certificate_storage_round_trip)
  then show ?thesis
    by (simp add: decode_policy_storage_def encode_policy_storage_def case_prod_beta encode_certificate_storages_map
        decoder_defs certificate_key_defs)
qed

text \<open>The decisions of a tab in the policy cache of the browser.\<close>

lemma allowed_run:
  "\<exists>t. orun (\<lambda>c s. AllowCertForHost True (chain_hash (cs_certificate s)) (cs_host s) (cs_status s) c) c order = Inr t \<and>
     (\<forall>s \<in> set order. distinct (map (\<lambda>s. (chain_hash (cs_certificate s), cs_host s)) order) \<longrightarrow>
        policy_for_host (cs_host s) t (chain_hash (cs_certificate s)) = Some (cs_status s)) \<and>
     (\<forall>x h. (x, h) \<notin> (\<lambda>s. (chain_hash (cs_certificate s), cs_host s)) ` set order \<longrightarrow>
        policy_for_host h t x = policy_for_host h c x)"
proof (induction order arbitrary: c)
  case Nil
  then show ?case by simp
next
  case (Cons s order)
  let ?c = "c(cs_host s \<mapsto> Allow (chain_hash (cs_certificate s)) (cs_status s) (policy_for_host (cs_host s) c))"
  from Cons.IH [of ?c] obtain t where
    t: "orun (\<lambda>c s. AllowCertForHost True (chain_hash (cs_certificate s)) (cs_host s) (cs_status s) c) ?c order = Inr t"
    and in_order: "\<forall>s \<in> set order. distinct (map (\<lambda>s. (chain_hash (cs_certificate s), cs_host s)) order) \<longrightarrow>
        policy_for_host (cs_host s) t (chain_hash (cs_certificate s)) = Some (cs_status s)"
    and others: "\<forall>x h. (x, h) \<notin> (\<lambda>s. (chain_hash (cs_certificate s), cs_host s)) ` set order \<longrightarrow>
        policy_for_host h t x = policy_for_host h ?c x" by blast
  have one: "policy_for_host h ?c x =
      (if h = cs_host s \<and> x = chain_hash (cs_certificate s) then Some (cs_status s) else policy_for_host h c x)" for h x
    by (simp add: policy_for_host_def Allow_def)
  show ?case
  proof (intro exI [of _ t] conjI ballI impI allI)
    show "orun (\<lambda>c s. AllowCertForHost True (chain_hash (cs_certificate s)) (cs_host s) (cs_status s) c) c (s # order) = Inr t"
      using t by (simp add: AllowCertForHost_def)
  next
    fix s'
    assume "s' \<in> set (s # order)" and "distinct (map (\<lambda>s. (chain_hash (cs_certificate s), cs_host s)) (s # order))"
    then show "policy_for_host (cs_host s') t (chain_hash (cs_certificate s')) = Some (cs_status s')"
      using in_order others one by auto
  next
    fix x h
    assume "(x, h) \<notin> (\<lambda>s. (chain_hash (cs_certificate s), cs_host s)) ` set (s # order)"
    then show "policy_for_host h t x = policy_for_host h c x" using others one by auto
  qed
qed

text \<open>With one decision for each certificate and host the restored decisions are those of the tab,
  in whatever order they are enumerated, and the decisions of other tabs stay.\<close>

lemma decisions_are_restored:
  assumes "enumerates order (Some ss)" and "distinct (map (\<lambda>s. (chain_hash (cs_certificate s), cs_host s)) ss)"
  shows "\<exists>t. UpdateCertificatePolicyCache True chain_hash order cache = Inr t \<and>
     (\<forall>s \<in> set ss. policy_for_host (cs_host s) t (chain_hash (cs_certificate s)) = Some (cs_status s)) \<and>
     (\<forall>x h. (x, h) \<notin> (\<lambda>s. (chain_hash (cs_certificate s), cs_host s)) ` set ss \<longrightarrow>
        policy_for_host h t x = policy_for_host h cache x)"
proof -
  have m: "mset order = mset ss" using assms(1) by (simp add: enumerates_def)
  then have "set order = set ss" by (metis set_mset_mset)
  moreover have "distinct (map (\<lambda>s. (chain_hash (cs_certificate s), cs_host s)) order)"
    using assms(2) m by (metis mset_map mset_eq_imp_distinct_iff)
  ultimately show ?thesis
    using allowed_run [of chain_hash cache order] by (simp add: UpdateCertificatePolicyCache_def)
qed

text \<open>Two decisions for the same certificate and host stay in the set; which one a restored session
  applies last depends on the order of the enumeration.\<close>

lemma restored_decision_depends_on_the_order:
  fixes c :: certificate and first second :: cert_status
  assumes "h \<noteq> []"
  defines "a \<equiv> \<lparr>cs_certificate = c\<lparr>intermediate_buffers := []\<rparr>, cs_host = h, cs_status = first\<rparr>"
    and "b \<equiv> \<lparr>cs_certificate = c\<lparr>intermediate_buffers := []\<rparr>, cs_host = h, cs_status = second\<rparr>"
  shows "obind (RegisterAllowedCertificate True c h first new_allowed_certs)
      (\<lambda>(allowed, _). obind (RegisterAllowedCertificate True c h second allowed) (\<lambda>(allowed, _). Inr allowed)) =
      Inr (Some [a, b]) \<and>
    enumerates [a, b] (Some [a, b]) \<and> enumerates [b, a] (Some [a, b]) \<and>
    obind (UpdateCertificatePolicyCache True chain_hash [a, b] cache)
      (\<lambda>t. Inr (policy_for_host h t (chain_hash (c\<lparr>intermediate_buffers := []\<rparr>)))) = Inr (Some second) \<and>
    obind (UpdateCertificatePolicyCache True chain_hash [b, a] cache)
      (\<lambda>t. Inr (policy_for_host h t (chain_hash (c\<lparr>intermediate_buffers := []\<rparr>)))) = Inr (Some first)"
  using assms
  by (simp add: RegisterAllowedCertificate_def initWithCertificate_def new_allowed_certs_def enumerates_def
      UpdateCertificatePolicyCache_def AllowCertForHost_def policy_for_host_def Allow_def Let_def)

text \<open>A tab that was restored from a session without a storage of certificates forgets every decision.\<close>

lemma decision_after_missing_storage_is_lost:
  "on_ui \<Longrightarrow> h \<noteq> [] \<Longrightarrow>
     \<exists>task. RegisterAllowedCertificate on_ui cert h status (BuildSessionCertificatePolicyCache None) = Inr (None, task) \<and>
       BuildPolicyStorage None = Some []"
  by (simp add: RegisterAllowedCertificate_def initWithCertificate_def Let_def BuildSessionCertificatePolicyCache_def
      SetAllowedCerts_def GetAllowedCerts_def BuildPolicyStorage_def)

end
