(* ===== verification/Session_Storage.thy ===== *)
theory Session_Storage
  imports Navigation_Restore Session_Certificates "HOL-Library.AList"
begin

text \<open>
  Saving and restoring the session of a tab: \<open>web/navigation/session_storage_builder.mm\<close>,
  \<open>web/navigation/navigation_item_storage_builder.mm\<close>, the archived classes
  \<open>web/crw_navigation_item_storage.mm\<close> and \<open>web/session/crw_session_storage.mm\<close>, and
  \<open>web/navigation/serializable_user_data_manager_impl.{h,mm}\<close>.

  Of a web state there is what a session holds: its navigation manager, whether it was opened by
  another page, its allowed certificates, the data of clients and its user agent.  The platform is
  that of the navigation manager, with \<open>url::kMaxURLChars\<close>, \<open>SchemeIsHTTPOrHTTPS\<close> and the certificate
  parser.  Size histograms are left out.
\<close>

record 'u session_platform = "'u nav_platform" +
  max_url_chars :: nat
  scheme_is_http_or_https :: "'u \<Rightarrow> bool"
  parses_certificate :: "string \<Rightarrow> bool"

section \<open>The storage of an item\<close>

record 'u item_storage =
  storage_url :: 'u
  storage_virtual_url :: 'u
  storage_referrer :: "'u Referrer"
  storage_timestamp :: int
  storage_title :: string
  storage_display_state :: PageDisplayState
  storage_skip_repost :: bool
  storage_user_agent :: UserAgentType
  storage_http_headers :: "(string \<times> string) list option"

definition new_item_storage :: "('u, 'z) nav_platform_scheme \<Rightarrow> 'u item_storage" where
  "new_item_storage P =
     \<lparr>storage_url = empty_gurl P, storage_virtual_url = empty_gurl P, storage_referrer = empty_referrer P,
      storage_timestamp = 0, storage_title = [], storage_display_state = new_PageDisplayState,
      storage_skip_repost = False, storage_user_agent = UA_NONE, storage_http_headers = None\<rparr>"

text \<open>The accessor \<open>virtualURL\<close>; \<open>storage_virtual_url\<close> is the instance variable.\<close>

definition virtualURL :: "('u, 'z) nav_platform_scheme \<Rightarrow> 'u item_storage \<Rightarrow> 'u" where
  "virtualURL P st = (if is_empty_url P (storage_virtual_url st) then storage_url st else storage_virtual_url st)"

definition kNavigationItemStorageURLKey :: string where "kNavigationItemStorageURLKey = ''urlString''"
definition kNavigationItemStorageVirtualURLKey :: string where "kNavigationItemStorageVirtualURLKey = ''virtualUrlString''"
definition kNavigationItemStorageReferrerURLKey :: string where "kNavigationItemStorageReferrerURLKey = ''referrerUrlString''"
definition kNavigationItemStorageReferrerURLDeprecatedKey :: string where
  "kNavigationItemStorageReferrerURLDeprecatedKey = ''referrer''"
definition kNavigationItemStorageReferrerPolicyKey :: string where "kNavigationItemStorageReferrerPolicyKey = ''referrerPolicy''"
definition kNavigationItemStorageTimestampKey :: string where "kNavigationItemStorageTimestampKey = ''timestamp''"
definition kNavigationItemStorageTitleKey :: string where "kNavigationItemStorageTitleKey = ''title''"
definition kNavigationItemStoragePageDisplayStateKey :: string where "kNavigationItemStoragePageDisplayStateKey = ''state''"
definition kNavigationItemStorageHTTPRequestHeadersKey :: string where
  "kNavigationItemStorageHTTPRequestHeadersKey = ''httpHeaders''"
definition kNavigationItemStorageSkipRepostFormConfirmationKey :: string where
  "kNavigationItemStorageSkipRepostFormConfirmationKey = ''skipResubmitDataConfirmation''"
definition kNavigationItemStorageUserAgentTypeKey :: string where "kNavigationItemStorageUserAgentTypeKey = ''userAgentType''"

lemmas item_key_defs =
  kNavigationItemStorageURLKey_def kNavigationItemStorageVirtualURLKey_def kNavigationItemStorageReferrerURLKey_def
  kNavigationItemStorageReferrerURLDeprecatedKey_def kNavigationItemStorageReferrerPolicyKey_def
  kNavigationItemStorageTimestampKey_def kNavigationItemStorageTitleKey_def
  kNavigationItemStoragePageDisplayStateKey_def kNavigationItemStorageHTTPRequestHeadersKey_def
  kNavigationItemStorageSkipRepostFormConfirmationKey_def kNavigationItemStorageUserAgentTypeKey_def

text \<open>The numbers of the enumeration; other numbers are not values of it.\<close>

definition referrer_policies :: "ReferrerPolicy list" where
  "referrer_policies =
     [ReferrerPolicyAlways, ReferrerPolicyDefault, ReferrerPolicyNoReferrerWhenDowngrade, ReferrerPolicyNever,
      ReferrerPolicyOrigin, ReferrerPolicyOriginWhenCrossOrigin, ReferrerPolicySameOrigin,
      ReferrerPolicyStrictOrigin, ReferrerPolicyStrictOriginWhenCrossOrigin]"

definition referrer_policy_number :: "ReferrerPolicy \<Rightarrow> int" where
  "referrer_policy_number policy = first_index (\<lambda>p. p = policy) referrer_policies"

definition referrer_policy_of_number :: "int \<Rightarrow> ReferrerPolicy outcome" where
  "referrer_policy_of_number n =
     (if 0 \<le> n \<and> n < int (length referrer_policies) then Inr (referrer_policies ! nat n) else Inl Range_error)"

definition encode_item_storage :: "('u, 'z) nav_platform_scheme \<Rightarrow> 'u item_storage \<Rightarrow> 'd archive outcome" where
  "encode_item_storage P st =
     obind (GetUserAgentTypeDescription (use_web_client_default_user_agent P) (storage_user_agent st)) (\<lambda>userAgent.
     Inr ((if storage_virtual_url st \<noteq> storage_url st
           then EncodeString kNavigationItemStorageVirtualURLKey (spec P (storage_virtual_url st)) else []) @
          EncodeString kNavigationItemStorageURLKey (spec P (storage_url st)) @
          EncodeString kNavigationItemStorageReferrerURLKey (spec P (referrer_url (storage_referrer st))) @
          [(kNavigationItemStorageReferrerPolicyKey,
            Coded_int (referrer_policy_number (referrer_policy (storage_referrer st)))),
           (kNavigationItemStorageTimestampKey, Coded_int (storage_timestamp st)),
           (kNavigationItemStorageTitleKey, String_object (storage_title st)),
           (kNavigationItemStoragePageDisplayStateKey, Display_object (GetSerialization (storage_display_state st))),
           (kNavigationItemStorageSkipRepostFormConfirmationKey, Coded_bool (storage_skip_repost st))] @
          EncodeString kNavigationItemStorageUserAgentTypeKey userAgent @
          [(kNavigationItemStorageHTTPRequestHeadersKey,
            case storage_http_headers st of None \<Rightarrow> Nil_object | Some h \<Rightarrow> Headers_object h)]))"

definition decode_url_at :: "('u, 'z) nav_platform_scheme \<Rightarrow> string \<Rightarrow> 'd archive \<Rightarrow> 'u outcome" where
  "decode_url_at P key coder =
     (if containsValueForKey key coder then obind (DecodeString key coder) (\<lambda>s. Inr (gurl P s))
      else Inr (empty_gurl P))"

definition decode_referrer :: "('u, 'z) nav_platform_scheme \<Rightarrow> 'd archive \<Rightarrow> 'u Referrer outcome" where
  "decode_referrer P coder =
     (if containsValueForKey kNavigationItemStorageReferrerURLKey coder
      then
        obind (DecodeString kNavigationItemStorageReferrerURLKey coder) (\<lambda>s.
        obind (decodeIntForKey kNavigationItemStorageReferrerPolicyKey coder) (\<lambda>n.
        obind (referrer_policy_of_number n) (\<lambda>policy.
        Inr \<lparr>referrer_url = gurl P s, referrer_policy = policy\<rparr>)))
      else
        obind (as_url (decodeObjectForKey kNavigationItemStorageReferrerURLDeprecatedKey coder)) (\<lambda>u.
        Inr \<lparr>referrer_url = (case u of None \<Rightarrow> empty_gurl P | Some s \<Rightarrow> gurl P s),
             referrer_policy = ReferrerPolicyDefault\<rparr>))"

text \<open>Without a user agent both branches of the code leave \<open>NONE\<close>, the value of a new object.\<close>

definition decode_user_agent :: "'d archive \<Rightarrow> UserAgentType outcome" where
  "decode_user_agent coder =
     (if containsValueForKey kNavigationItemStorageUserAgentTypeKey coder
      then obind (DecodeString kNavigationItemStorageUserAgentTypeKey coder)
             (\<lambda>s. Inr (GetUserAgentTypeWithDescription s))
      else Inr UA_NONE)"

definition decode_item_storage :: "('u, 'z) nav_platform_scheme \<Rightarrow> 'd archive \<Rightarrow> 'u item_storage outcome" where
  "decode_item_storage P coder =
     obind (decode_url_at P kNavigationItemStorageVirtualURLKey coder) (\<lambda>virtual.
     obind (decode_url_at P kNavigationItemStorageURLKey coder) (\<lambda>url.
     obind (decode_referrer P coder) (\<lambda>referrer.
     obind (decodeIntForKey kNavigationItemStorageTimestampKey coder) (\<lambda>us.
     obind (decode_user_agent coder) (\<lambda>userAgent.
     obind (as_string (decodeObjectForKey kNavigationItemStorageTitleKey coder)) (\<lambda>title.
     obind (as_display (decodeObjectForKey kNavigationItemStoragePageDisplayStateKey coder)) (\<lambda>display.
     obind (PageDisplayState_of_serialization (case display of None \<Rightarrow> [] | Some d \<Rightarrow> d)) (\<lambda>displayState.
     obind (decodeBoolForKey kNavigationItemStorageSkipRepostFormConfirmationKey coder) (\<lambda>skip.
     obind (as_headers (decodeObjectForKey kNavigationItemStorageHTTPRequestHeadersKey coder)) (\<lambda>headers.
     Inr \<lparr>storage_url = url, storage_virtual_url = virtual, storage_referrer = referrer, storage_timestamp = us,
          storage_title = (case title of None \<Rightarrow> [] | Some t \<Rightarrow> t), storage_display_state = displayState,
          storage_skip_repost = skip, storage_user_agent = userAgent, storage_http_headers = headers\<rparr>))))))))))"

section \<open>Items and their storages\<close>

definition ItemStoredSize :: "('u, 'z) nav_platform_scheme \<Rightarrow> 'u nav_item \<Rightarrow> nat" where
  "ItemStoredSize P item =
     length (spec P (virtual_url item)) + length (spec P (item_url item)) +
     length (spec P (referrer_url (item_referrer item))) + length (item_title item) +
     (case http_request_headers item of None \<Rightarrow> 0
      | Some h \<Rightarrow> sum_list (map (\<lambda>(key, value). length key + length value) h))"

definition BuildItemStorage :: "('u, 'z) session_platform_scheme \<Rightarrow> 'u nav_item \<Rightarrow> 'u item_storage" where
  "BuildItemStorage P item =
     \<lparr>storage_url = item_url item, storage_virtual_url = GetVirtualURL P item,
      storage_referrer = (if length (spec P (referrer_url (item_referrer item))) \<le> max_url_chars P
                          then item_referrer item else storage_referrer (new_item_storage P)),
      storage_timestamp = timestamp item, storage_title = item_title item,
      storage_display_state = page_display_state item,
      storage_skip_repost = should_skip_repost_form_confirmation item,
      storage_user_agent = user_agent_type item, storage_http_headers = http_request_headers item\<rparr>"

definition fill_item :: "('u, 'z) session_platform_scheme \<Rightarrow> 'u item_storage \<Rightarrow> 'u nav_item \<Rightarrow> 'u nav_item" where
  "fill_item P st item =
     (let item = SetOriginalRequestURL (storage_url st) item;
          item = (if scheme_is_http_or_https P (storage_url st)
                  then SetVirtualURL P (virtualURL P st) (SetItemURL (storage_url st) item)
                  else SetItemURL (virtualURL P st) item)
      in item\<lparr>item_referrer := storage_referrer st, timestamp := storage_timestamp st,
              item_title := storage_title st, page_display_state := storage_display_state st,
              should_skip_repost_form_confirmation := storage_skip_repost st,
              transition_type := page_transition_reload P, user_agent_type := storage_user_agent st,
              http_request_headers := storage_http_headers st\<rparr>)"

text \<open>The constructor of an item takes the next identifier.\<close>

definition BuildNavigationItemImpl ::
    "('u, 'z) session_platform_scheme \<Rightarrow> 'u item_storage \<Rightarrow> ('u nav_manager, 'u nav_item) action" where
  "BuildNavigationItemImpl P st =
     abind (aget (\<lambda>s. GetUniqueIDInConstructor (unique_id_counter s))) (\<lambda>n.
     athen (amodify (\<lambda>s. s\<lparr>unique_id_counter := n\<rparr>)) (areturn (fill_item P st (new_nav_item P n))))"

section \<open>User data\<close>

text \<open>The dictionary of \<open>SerializableUserDataManagerImpl\<close>; the data objects are copies of it.\<close>

type_synonym 'd tab_user_data = "(string \<times> 'd) list"

definition kSerializedUserDataKey :: string where "kSerializedUserDataKey = ''serializedUserData''"

definition AddSerializableData :: "'d \<Rightarrow> string \<Rightarrow> 'd tab_user_data \<Rightarrow> 'd tab_user_data outcome" where
  "AddSerializableData data key d = dcheck (key \<noteq> []) (Inr (AList.update key data d))"

definition GetValueForSerializationKey :: "string \<Rightarrow> 'd tab_user_data \<Rightarrow> 'd option" where
  "GetValueForSerializationKey key d = map_of d key"

definition CreateSerializableUserData :: "'d tab_user_data \<Rightarrow> 'd tab_user_data" where
  "CreateSerializableUserData d = d"

definition AddSerializableUserData :: "'d tab_user_data option \<Rightarrow> 'd tab_user_data \<Rightarrow> 'd tab_user_data" where
  "AddSerializableUserData data d = (case data of None \<Rightarrow> d | Some x \<Rightarrow> x)"

definition encode_user_data :: "'d tab_user_data \<Rightarrow> 'd archive" where
  "encode_user_data d = [(kSerializedUserDataKey, Dictionary_object d)]"

definition decode_user_data :: "'d archive \<Rightarrow> 'd tab_user_data outcome" where
  "decode_user_data coder =
     obind (as_dictionary (decodeObjectForKey kSerializedUserDataKey coder)) (\<lambda>d.
     Inr (case d of None \<Rightarrow> [] | Some d \<Rightarrow> d))"

section \<open>The storage of a session\<close>

record ('u, 'd) saved_session =
  storage_has_opener :: bool
  lastCommittedItemIndex :: int
  itemStorages :: "'u item_storage list"
  certPolicyCacheStorage :: "policy_cache_storage option"
  storage_user_data :: "'d tab_user_data option"
  session_user_agent :: UserAgentType

definition kCertificatePolicyCacheStorageKey :: string where
  "kCertificatePolicyCacheStorageKey = ''certificatePolicyCacheStorage''"
definition kCertificatePolicyCacheStorageDeprecatedKey :: string where
  "kCertificatePolicyCacheStorageDeprecatedKey = ''certificatePolicyManager''"
definition kItemStoragesKey :: string where "kItemStoragesKey = ''entries''"
definition kHasOpenerKey :: string where "kHasOpenerKey = ''openedByDOM''"
definition kLastCommittedItemIndexKey :: string where "kLastCommittedItemIndexKey = ''lastCommittedItemIndex''"
definition kUserAgentKey :: string where "kUserAgentKey = ''userAgentKey''"
definition kLastCommittedItemIndexDeprecatedKey :: string where
  "kLastCommittedItemIndexDeprecatedKey = ''currentNavigationIndex''"

lemmas session_key_defs =
  kCertificatePolicyCacheStorageKey_def kCertificatePolicyCacheStorageDeprecatedKey_def kItemStoragesKey_def
  kHasOpenerKey_def kLastCommittedItemIndexKey_def kUserAgentKey_def kLastCommittedItemIndexDeprecatedKey_def
  kSerializedUserDataKey_def

text \<open>\<open>encodeInt:\<close> takes an \<open>int\<close>, the index is an \<open>NSInteger\<close>.\<close>

definition to_int32 :: "int \<Rightarrow> int" where
  "to_int32 n = (n + 2 ^ 31) mod 2 ^ 32 - 2 ^ 31"

definition user_agent_to_store :: "('u, 'z) nav_platform_scheme \<Rightarrow> UserAgentType \<Rightarrow> UserAgentType" where
  "user_agent_to_store P t =
     (if t = UA_AUTOMATIC \<and> \<not> use_web_client_default_user_agent P then UA_MOBILE else t)"

definition encode_session_storage ::
    "('u, 'z) nav_platform_scheme \<Rightarrow> ('u, 'd) saved_session \<Rightarrow> int \<Rightarrow> ('d archive \<times> int) outcome" where
  "encode_session_storage P st bytes_encoded =
     obind (omap (encode_item_storage P) (itemStorages st)) (\<lambda>items.
     let (certificates, n) = (case certPolicyCacheStorage st of
            None \<Rightarrow> (Nil_object, bytes_encoded)
          | Some c \<Rightarrow> (let (a, n) = encode_policy_storage c bytes_encoded in (Archived_object a, n)))
     in
     obind (GetUserAgentTypeDescription (use_web_client_default_user_agent P)
              (user_agent_to_store P (session_user_agent st))) (\<lambda>userAgent.
     Inr ([(kHasOpenerKey, Coded_bool (storage_has_opener st)),
           (kLastCommittedItemIndexKey, Coded_int (to_int32 (lastCommittedItemIndex st))),
           (kItemStoragesKey, Array_object (map Archived_object items)),
           (kCertificatePolicyCacheStorageKey, certificates)] @
          (case storage_user_data st of None \<Rightarrow> [] | Some d \<Rightarrow> encode_user_data d) @
          EncodeString kUserAgentKey userAgent, n)))"

definition decode_item_element :: "('u, 'z) nav_platform_scheme \<Rightarrow> 'd coded \<Rightarrow> 'u item_storage outcome" where
  "decode_item_element P x =
     obind (as_archived (Some x)) (\<lambda>a.
     case a of None \<Rightarrow> Inl Range_error | Some a \<Rightarrow> decode_item_storage P a)"

definition decode_certificates ::
    "('u, 'z) session_platform_scheme \<Rightarrow> 'd archive \<Rightarrow> policy_cache_storage option outcome" where
  "decode_certificates P coder =
     obind (as_archived (decodeObjectForKey kCertificatePolicyCacheStorageKey coder)) (\<lambda>current.
     obind (case current of
              Some a \<Rightarrow> Inr (Some a)
            | None \<Rightarrow> as_archived (decodeObjectForKey kCertificatePolicyCacheStorageDeprecatedKey coder)) (\<lambda>found.
     case found of
       None \<Rightarrow> Inr None
     | Some a \<Rightarrow> obind (decode_policy_storage (parses_certificate P) a) (\<lambda>c. Inr (Some c))))"

definition decode_session_storage ::
    "('u, 'z) session_platform_scheme \<Rightarrow> 'd archive \<Rightarrow> ('u, 'd) saved_session outcome" where
  "decode_session_storage P coder =
     obind (decodeBoolForKey kHasOpenerKey coder) (\<lambda>hasOpener.
     obind (decodeIntForKey (if containsValueForKey kLastCommittedItemIndexKey coder
                             then kLastCommittedItemIndexKey else kLastCommittedItemIndexDeprecatedKey) coder) (\<lambda>index.
     obind (as_array (decodeObjectForKey kItemStoragesKey coder)) (\<lambda>array.
     obind (omap (decode_item_element P) (case array of None \<Rightarrow> [] | Some xs \<Rightarrow> xs)) (\<lambda>items.
     obind (decode_certificates P coder) (\<lambda>certificates.
     obind (decode_user_data coder) (\<lambda>data.
     obind (if containsValueForKey kUserAgentKey coder
            then obind (DecodeString kUserAgentKey coder) (\<lambda>s. Inr (GetUserAgentTypeWithDescription s))
            else Inr (if use_web_client_default_user_agent P then UA_AUTOMATIC else UA_MOBILE)) (\<lambda>userAgent.
     Inr \<lparr>storage_has_opener = hasOpener,
          lastCommittedItemIndex = (if items = [] then -1 else index), itemStorages = items,
          certPolicyCacheStorage = certificates, storage_user_data = Some data,
          session_user_agent = userAgent\<rparr>)))))))"

section \<open>Building and extracting sessions\<close>

record ('u, 'd) web_state =
  created_with_opener :: bool
  navigation_manager :: "'u nav_manager"
  certificate_policy_cache :: allowed_certs
  user_data :: "'d tab_user_data"
  web_state_user_agent :: UserAgentType

definition kMaxNavigationItemSize :: nat where "kMaxNavigationItemSize = 63 * 1024"

text \<open>The two tests of the loop that drop an item.\<close>

definition item_is_dropped :: "('u, 'z) session_platform_scheme \<Rightarrow> 'u nav_item \<Rightarrow> bool" where
  "item_is_dropped P item \<longleftrightarrow>
     (should_skip_serialization item \<or> length (spec P (item_url item)) > max_url_chars P) \<or>
     (reduce_session_size P \<and> ItemStoredSize P item > kMaxNavigationItemSize)"

fun build_items ::
    "('u, 'z) session_platform_scheme \<Rightarrow> nat \<Rightarrow> nat list \<Rightarrow> int \<Rightarrow> 'u item_storage list \<Rightarrow>
     ('u nav_manager, int \<times> 'u item_storage list) action" where
  "build_items P originalIndex [] last_index storages = areturn (last_index, storages)"
| "build_items P originalIndex (index # indices) last_index storages =
     abind (GetNavigationItemImplAtIndex P (int index)) (\<lambda>p.
     abind (load_pointer p) (\<lambda>item.
     if item_is_dropped P item
     then build_items P originalIndex indices (if index \<le> originalIndex then last_index - 1 else last_index) storages
     else build_items P originalIndex indices last_index (storages @ [BuildItemStorage P item])))"

text \<open>\<open>subarrayWithRange:\<close> raises an exception for a range that is not inside the array.\<close>

definition subarray :: "int \<Rightarrow> int \<Rightarrow> 'a list \<Rightarrow> 'a list outcome" where
  "subarray loc len xs =
     (if 0 \<le> loc \<and> 0 \<le> len \<and> loc + len \<le> int (length xs) then Inr (take (nat len) (drop (nat loc) xs))
      else Inl Range_error)"

definition build_navigation_storage ::
    "('u, 'z) session_platform_scheme \<Rightarrow> ('u nav_manager, int \<times> 'u item_storage list) action" where
  "build_navigation_storage P =
     abind (GetLastCommittedItemIndex P) (\<lambda>committed.
     abind (aget GetItemCount) (\<lambda>count.
     let lastCommitted = (if committed = -1 then int count - 1 else committed);
         originalIndex = nat (lastCommitted mod 2 ^ 64)
     in
     abind (build_items P originalIndex [0..<count] lastCommitted []) (\<lambda>(last_index, item_storages).
     let (loc, len, index) = GetSafeItemRange P last_index (int (length item_storages)) in
     athen (adcheck (\<lambda>_. index < len))
     (abind (alift (subarray loc len item_storages)) (\<lambda>items. areturn (index, items)))))) "

definition BuildSessionStorage ::
    "('u, 'z) session_platform_scheme \<Rightarrow> (('u, 'd) web_state, ('u, 'd) saved_session) action" where
  "BuildSessionStorage P tab =
     obind (build_navigation_storage P (navigation_manager tab)) (\<lambda>((index, items), manager).
     Inr (\<lparr>storage_has_opener = created_with_opener tab, lastCommittedItemIndex = index, itemStorages = items,
           certPolicyCacheStorage = Some (BuildPolicyStorage (certificate_policy_cache tab)),
           storage_user_data = Some (CreateSerializableUserData (user_data tab)),
           session_user_agent = web_state_user_agent tab\<rparr>,
          tab\<lparr>navigation_manager := manager\<rparr>))"

definition extract_item ::
    "('u, 'z) session_platform_scheme \<Rightarrow> 'u item_storage \<Rightarrow> ('u nav_manager, 'u nav_item) action" where
  "extract_item P st =
     abind (BuildNavigationItemImpl P st) (\<lambda>item. areturn (RewriteItemURLIfNecessary P item))"

definition ExtractSessionState ::
    "('u, 'z) session_platform_scheme \<Rightarrow> ('u, 'd) saved_session \<Rightarrow> (('u, 'd) web_state, unit) action" where
  "ExtractSessionState P storage tab =
     obind (abind (amapM (extract_item P) (itemStorages storage))
              (\<lambda>items. Restore P (lastCommittedItemIndex storage) items) (navigation_manager tab)) (\<lambda>(_, manager).
     Inr ((), tab\<lparr>created_with_opener := storage_has_opener storage, navigation_manager := manager,
                certificate_policy_cache := BuildSessionCertificatePolicyCache (certPolicyCacheStorage storage),
                user_data := AddSerializableUserData (storage_user_data storage) (user_data tab),
                web_state_user_agent := user_agent_to_store P (session_user_agent storage)\<rparr>))"

end
