(* ===== verification/Session_Props.thy ===== *)
theory Session_Props
  imports Session_Storage
begin

text \<open>
  Properties of saved sessions: an archive gives back the session, the saved session holds the items that
  are kept and still names the last committed one, and a new tab that is restored from it shows that item
  while the history loads.  At the end, a concrete session.
\<close>

section \<open>Archives of items\<close>

text \<open>A URL that its text determines, as every valid URL.\<close>

definition readable :: "('u, 'z) nav_platform_scheme \<Rightarrow> 'u \<Rightarrow> bool" where
  "readable P u \<longleftrightarrow> gurl P (spec P u) = u"

definition item_storage_ok :: "('u, 'z) nav_platform_scheme \<Rightarrow> 'u item_storage \<Rightarrow> bool" where
  "item_storage_ok P st \<longleftrightarrow>
     readable P (storage_url st) \<and> readable P (storage_virtual_url st) \<and>
     readable P (referrer_url (storage_referrer st)) \<and>
     (storage_user_agent st \<noteq> UA_AUTOMATIC \<or> use_web_client_default_user_agent P)"

text \<open>A virtual URL that is the URL itself is not archived.\<close>

definition normal_storage :: "('u, 'z) nav_platform_scheme \<Rightarrow> 'u item_storage \<Rightarrow> 'u item_storage" where
  "normal_storage P st =
     st\<lparr>storage_virtual_url := (if storage_virtual_url st = storage_url st then empty_gurl P else storage_virtual_url st)\<rparr>"

lemma virtualURL_normal_storage:
  "is_empty_url P (empty_gurl P) \<Longrightarrow> virtualURL P (normal_storage P st) = virtualURL P st"
  by (simp add: virtualURL_def normal_storage_def)

lemma referrer_policy_round_trip: "referrer_policy_of_number (referrer_policy_number policy) = Inr policy"
  by (cases policy) (simp_all add: referrer_policy_of_number_def referrer_policy_number_def referrer_policies_def)

lemma item_storage_round_trip:
  assumes "item_storage_ok P st"
  shows "\<exists>a. encode_item_storage P st = Inr a \<and> decode_item_storage P a = Inr (normal_storage P st)"
proof -
  obtain ua where ua: "GetUserAgentTypeDescription (use_web_client_default_user_agent P) (storage_user_agent st) = Inr ua"
    "GetUserAgentTypeWithDescription ua = storage_user_agent st"
    using assms user_agent_round_trip by (metis item_storage_ok_def)
  have eq: "\<lparr>storage_url = storage_url st, storage_virtual_url = u,
      storage_referrer = \<lparr>referrer_url = referrer_url (storage_referrer st),
                          referrer_policy = referrer_policy (storage_referrer st)\<rparr>,
      storage_timestamp = storage_timestamp st, storage_title = storage_title st,
      storage_display_state = storage_display_state st, storage_skip_repost = storage_skip_repost st,
      storage_user_agent = storage_user_agent st, storage_http_headers = storage_http_headers st\<rparr> =
      st\<lparr>storage_virtual_url := u\<rparr>" for u
    by (rule item_storage.equality) simp_all
  have same: "st\<lparr>storage_virtual_url := storage_virtual_url st\<rparr> = st" by simp
  show ?thesis
    using assms eq [unfolded same] eq
    by (cases "storage_http_headers st")
      (auto simp add: encode_item_storage_def decode_item_storage_def ua decode_url_at_def decode_referrer_def
        decode_user_agent_def decoder_defs item_key_defs referrer_policy_round_trip display_state_round_trip
        item_storage_ok_def readable_def normal_storage_def)
qed

interpretation item_archive: archived "encode_item_storage P" "decode_item_storage P" "normal_storage P" "item_storage_ok P"
  for P by unfold_locales (rule item_storage_round_trip)

section \<open>Archives of sessions\<close>

definition session_storage_ok :: "('u, 'z) session_platform_scheme \<Rightarrow> ('u, 'd) saved_session \<Rightarrow> bool" where
  "session_storage_ok P st \<longleftrightarrow>
     list_all (item_storage_ok P) (itemStorages st) \<and> (itemStorages st = [] \<longrightarrow> lastCommittedItemIndex st = -1) \<and>
     - (2 ^ 31) \<le> lastCommittedItemIndex st \<and> lastCommittedItemIndex st < 2 ^ 31 \<and>
     (\<exists>ss. certPolicyCacheStorage st = Some (Some ss) \<and> list_all (storage_ok (parses_certificate P)) ss) \<and>
     storage_user_data st \<noteq> None"

lemma to_int32_id: "- (2 ^ 31) \<le> n \<Longrightarrow> n < 2 ^ 31 \<Longrightarrow> to_int32 n = n"
  by (simp add: to_int32_def)

lemma decode_item_elements:
  "omap (decode_item_element P) (map Archived_object as) = omap (decode_item_storage P) as"
  by (induction as) (simp_all add: decode_item_element_def)

text \<open>C19: A session that is archived and read again is the session, up to what the encoder normalises in
  an item and in the user agent.\<close>
theorem session_archive_round_trip:
  fixes st :: "('u, 'd) saved_session"
  assumes "session_storage_ok P st"
  shows "\<exists>a n. encode_session_storage P st bytes_encoded = Inr (a, n) \<and>
     decode_session_storage P a =
       Inr (st\<lparr>itemStorages := map (normal_storage P) (itemStorages st),
               session_user_agent := user_agent_to_store P (session_user_agent st)\<rparr>)"
proof -
  obtain ss d where ss: "certPolicyCacheStorage st = Some (Some ss)" "list_all (storage_ok (parses_certificate P)) ss"
    and d: "storage_user_data st = Some d"
    and items: "list_all (item_storage_ok P) (itemStorages st)"
    and index: "itemStorages st = [] \<longrightarrow> lastCommittedItemIndex st = -1" "to_int32 (lastCommittedItemIndex st) = lastCommittedItemIndex st"
    using assms to_int32_id by (auto simp: session_storage_ok_def)
  from item_archive.array_round_trip [OF items] obtain as :: "'d archive list" where as: "omap (encode_item_storage P) (itemStorages st) = Inr as"
    "length as = length (itemStorages st)" "omap (decode_item_storage P) as = Inr (map (normal_storage P) (itemStorages st))"
    by blast
  obtain ua where ua: "GetUserAgentTypeDescription (use_web_client_default_user_agent P)
      (user_agent_to_store P (session_user_agent st)) = Inr ua"
    "GetUserAgentTypeWithDescription ua = user_agent_to_store P (session_user_agent st)"
    using user_agent_round_trip by (metis user_agent_to_store_def UserAgentType.distinct(7))
  obtain c :: "'d archive" and n where c: "encode_policy_storage (Some ss) bytes_encoded = (c, n)" by (metis surj_pair)
  have "decode_policy_storage (parses_certificate P) c = Inr (Some ss)"
    using policy_storage_round_trip [OF ss(2), of bytes_encoded, where 'd = 'd] by (simp add: c)
  moreover have "\<lparr>storage_has_opener = storage_has_opener st, lastCommittedItemIndex = lastCommittedItemIndex st,
      itemStorages = its, certPolicyCacheStorage = Some (Some ss), storage_user_data = Some d, session_user_agent = t\<rparr> =
      st\<lparr>itemStorages := its, session_user_agent := t\<rparr>" for its t
    by (rule saved_session.equality) (simp_all add: ss d)
  ultimately show ?thesis
    using index
    by (auto simp: encode_session_storage_def decode_session_storage_def as ss(1) d ua c decode_certificates_def
        encode_user_data_def decode_user_data_def decode_item_elements decoder_defs session_key_defs)
qed

section \<open>Saving a session\<close>

definition read_item :: "('u, 'z) session_platform_scheme \<Rightarrow> nat \<Rightarrow> ('u nav_manager, 'u nav_item) action" where
  "read_item P index = abind (GetNavigationItemImplAtIndex P (int index)) load_pointer"

text \<open>The loop as a function of the items.\<close>

definition dropped_before :: "('u, 'z) session_platform_scheme \<Rightarrow> nat \<Rightarrow> (nat \<times> 'u nav_item) list \<Rightarrow> nat" where
  "dropped_before P originalIndex xs = length (filter (\<lambda>(n, i). item_is_dropped P i \<and> n \<le> originalIndex) xs)"

definition kept_items :: "('u, 'z) session_platform_scheme \<Rightarrow> 'u nav_item list \<Rightarrow> 'u nav_item list" where
  "kept_items P = filter (\<lambda>i. \<not> item_is_dropped P i)"

lemma build_items_reads:
  "build_items P k ns last_index storages s =
     obind (amapM (read_item P) ns s) (\<lambda>(its, t).
     Inr ((last_index - int (dropped_before P k (zip ns its)), storages @ map (BuildItemStorage P) (kept_items P its)), t))"
proof (induction ns arbitrary: last_index storages s)
  case Nil
  then show ?case by (simp add: action_defs dropped_before_def kept_items_def)
next
  case (Cons n ns)
  show ?case
  proof (cases "read_item P n s")
    case (Inl e)
    then show ?thesis
      by (cases "GetNavigationItemImplAtIndex P (int n) s") (auto simp: read_item_def action_defs)
  next
    case (Inr r)
    then obtain i t where i: "read_item P n s = Inr (i, t)" by (cases r) simp
    then have "build_items P k (n # ns) last_index storages s =
       (if item_is_dropped P i then build_items P k ns (if n \<le> k then last_index - 1 else last_index) storages t
        else build_items P k ns last_index (storages @ [BuildItemStorage P i]) t)"
      by (cases "GetNavigationItemImplAtIndex P (int n) s") (auto simp: read_item_def action_defs)
    then show ?thesis
      using i by (cases "amapM (read_item P) ns t")
        (auto simp: Cons.IH action_defs dropped_before_def kept_items_def)
  qed
qed

lemma wp_read_item:
  assumes "wf_manager s" and "n < GetItemCount s"
  shows "wp (read_item P n) (\<lambda>i t. extends s t \<and> deref t (item_pointer s n) = Some i) s"
proof -
  have "wp (GetNavigationItemImplAtIndex P (int n)) (\<lambda>p. wp (load_pointer p)
      (\<lambda>i t. extends s t \<and> deref t (item_pointer s n) = Some i)) s"
  proof (rule wp_strengthen [OF wp_item_at], elim conjE)
    fix p t
    assume e: "extends s t" and h: "history_pointer s t p"
      and p: "wf_manager s \<and> 0 \<le> int n \<and> int n < int (GetItemCount s) \<longrightarrow> p = Some (item_pointer s (nat (int n)))"
    have p: "p = Some (item_pointer s n)" using p assms by simp
    with h obtain i where "deref t (item_pointer s n) = Some i" by (auto simp: history_pointer_def)
    then show "wp (load_pointer p) (\<lambda>i t. extends s t \<and> deref t (item_pointer s n) = Some i) t"
      using e by (simp add: p load_pointer_def wp_load_item)
  qed
  then show ?thesis by (simp add: read_item_def wp_rules)
qed

lemma item_pointer_extends: "extends s t \<Longrightarrow> item_pointer t n = item_pointer s n"
  by (simp add: item_pointer_def extends_fields)

lemma wp_read_items:
  assumes "wf_manager s"
  shows "wp (amapM (read_item P) [0..<GetItemCount s])
     (\<lambda>its t. extends s t \<and> list_all2 (\<lambda>n i. deref t (item_pointer s n) = Some i) [0..<GetItemCount s] its) s"
proof (rule wp_mapM [where ?s0.0 = s])
  fix n u
  assume "n \<in> set [0..<GetItemCount s]" and e: "extends s u"
  then show "wp (read_item P n) (\<lambda>i t. extends u t \<and> deref t (item_pointer s n) = Some i) u"
    using wp_read_item [OF extends_wf_manager [OF e assms], of n P]
    by (simp add: extends_derived [OF e] item_pointer_extends [OF e])
next
  fix n i t u
  assume "deref t (item_pointer s n) = Some i" and "extends t u"
  then show "deref u (item_pointer s n) = Some i"
    using extends_deref [of t u "item_pointer s n"] by (simp add: item_pointer_def split: if_splits)
qed (auto intro: extends_trans)

lemma wp_last_committed_index:
  assumes "committed_index_ok s"
  shows "wp (GetLastCommittedItemIndex P) (\<lambda>k t. extends s t \<and>
     (k = -1 \<or> k = GetLastCommittedItemIndexInCurrentOrRestoredSession s)) s"
proof (cases "is_restore_session_in_progress s")
  case True
  then show ?thesis by (simp add: GetLastCommittedItemIndex_def wp_rules)
next
  case False
  let ?Q = "\<lambda>k t. extends s t \<and> (k = -1 \<or> k = GetLastCommittedItemIndexInCurrentOrRestoredSession s)"
  have "wp (GetLastCommittedItemInCurrentOrRestoredSession P) (\<lambda>p. wp (url_behind P p) (\<lambda>url. wp
      (case url of None \<Rightarrow> areturn (-1) | Some u \<Rightarrow> if IsRestoreSessionUrl P u then areturn (-1)
                  else aget GetLastCommittedItemIndexInCurrentOrRestoredSession) ?Q)) s"
    by (rule wp_strengthen [OF wp_last_committed [OF assms]], elim conjE,
        rule wp_strengthen [OF wp_url_behind], assumption)
      (auto simp: wp_rules extends_derived split: option.split)
  then show ?thesis using False by (simp add: GetLastCommittedItemIndex_def wp_rules)
qed

text \<open>The index of the last item that is kept among those up to the last committed one.\<close>

lemma dropped_before_take:
  assumes "length its = n" and "k < n"
  shows "dropped_before P k (zip [0..<n] its) + length (kept_items P (take (Suc k) its)) = Suc k"
proof -
  have "dropped_before P k (zip [0..<n] its) = length (filter (item_is_dropped P) (take (Suc k) its))"
    using assms
  proof (induction its arbitrary: n rule: rev_induct)
    case Nil
    then show ?case by simp
  next
    case (snoc i its)
    have z: "zip [0..<Suc (length its)] (its @ [i]) = zip [0..<length its] its @ [(length its, i)]"
      by (simp add: zip_append)
    have n: "n = Suc (length its)" using snoc.prems by simp
    show ?case
    proof (cases "k < length its")
      case True
      then show ?thesis using snoc.IH [of "length its"] by (simp add: dropped_before_def n z del: upt_Suc)
    next
      case False
      then have k: "k = length its" using snoc.prems by simp
      have "filter (\<lambda>(m, i). item_is_dropped P i \<and> m \<le> k) (zip [0..<length its] its) =
          filter (\<lambda>(m, i). item_is_dropped P i) (zip [0..<length its] its)"
        by (rule filter_cong) (auto simp: k dest!: set_zip_leftD)
      moreover have "length (filter (\<lambda>(m, i). item_is_dropped P i) (zip [0..<length its] its)) = length (filter (item_is_dropped P) its)"
        by (induction its rule: rev_induct) (simp_all add: zip_append)
      ultimately show ?thesis by (simp add: dropped_before_def n z k del: upt_Suc)
    qed
  qed
  moreover have "length (filter (item_is_dropped P) xs) + length (kept_items P xs) = length xs" for xs
    unfolding kept_items_def by (rule sum_length_filter_compl)
  ultimately show ?thesis using assms by simp
qed

text \<open>The window for any index of the list, and for the index before the list.\<close>

lemma GetSafeItemRange_window:
  assumes "-1 \<le> last_index" and "last_index < item_count" and "GetSafeItemRange P last_index item_count = (loc, len, index)"
  shows "0 \<le> loc \<and> 0 \<le> len \<and> loc + len \<le> item_count \<and> index < len \<and> len \<le> 75 \<and> loc + index = last_index \<and>
    (item_count \<le> 40 \<longrightarrow> len = item_count) \<and> (0 \<le> last_index \<longrightarrow> 0 \<le> index)"
proof (cases "0 \<le> last_index")
  case True
  from GetSafeItemRange_ok [OF assms(3) this assms(2)] show ?thesis by auto
next
  case False
  then have "last_index = -1" using assms(1) by simp
  then show ?thesis
    using assms(2,3) max_session_size_bounds [of P] by (auto simp: GetSafeItemRange_def Let_def)
qed

lemma kept_items_at:
  assumes "k < length its" and "\<not> item_is_dropped P (its ! k)"
  shows "length (kept_items P (take (Suc k) its)) = Suc (length (kept_items P (take k its)))"
    "kept_items P its ! length (kept_items P (take k its)) = its ! k"
    "length (kept_items P (take k its)) < length (kept_items P its)"
proof -
  have split: "its = take k its @ its ! k # drop (Suc k) its" using assms(1) by (rule id_take_nth_drop)
  have "kept_items P its = kept_items P (take k its) @ its ! k # kept_items P (drop (Suc k) its)"
    unfolding kept_items_def by (subst split) (use assms in simp)
  then show "kept_items P its ! length (kept_items P (take k its)) = its ! k"
    "length (kept_items P (take k its)) < length (kept_items P its)" by simp_all
  show "length (kept_items P (take (Suc k) its)) = Suc (length (kept_items P (take k its)))"
    using assms by (simp add: take_Suc_conv_app_nth kept_items_def)
qed

lemma kept_items_take: "length (kept_items P (take n its)) \<le> length (kept_items P its)"
proof -
  have "kept_items P its = kept_items P (take n its) @ kept_items P (drop n its)"
    unfolding kept_items_def by (simp flip: filter_append)
  then show ?thesis by simp
qed

text \<open>The window of the items that are stored, where \<open>c\<close> is the index of the item to be current.\<close>

lemma stored_window:
  assumes c: "-1 \<le> c" "c < int (length its)"
    and w: "GetSafeItemRange P (int (length (kept_items P (take (nat (c + 1)) its))) - 1) (int (length (kept_items P its))) = (loc, len, index)"
    and items: "items = map (BuildItemStorage P) (take (nat len) (drop (nat loc) (kept_items P its)))"
  shows "0 \<le> loc \<and> 0 \<le> len" and "index < len" and "loc + len \<le> int (length (kept_items P its))" and "int (length items) = len"
    and "length items \<le> 75" and "length (kept_items P its) \<le> 40 \<longrightarrow> length items = length (kept_items P its)"
    and "int (nat loc) + index = int (length (kept_items P (take (nat (c + 1)) its))) - 1"
    and "0 \<le> c \<and> \<not> item_is_dropped P (its ! nat c) \<longrightarrow>
        0 \<le> index \<and> index < int (length items) \<and> items ! nat index = BuildItemStorage P (its ! nat c)"
proof -
  let ?kept = "kept_items P its" and ?last = "int (length (kept_items P (take (nat (c + 1)) its))) - 1"
  have "-1 \<le> ?last" "?last < int (length ?kept)"
    using kept_items_take [of P "nat (c + 1)" its] by simp_all
  note window = GetSafeItemRange_window [OF this w]
  then show "0 \<le> loc \<and> 0 \<le> len" and "index < len" and "loc + len \<le> int (length ?kept)" by simp_all
  have "nat len \<le> length ?kept - nat loc" using window by linarith
  then show len: "int (length items) = len" using window items by simp
  then show "length items \<le> 75" "length ?kept \<le> 40 \<longrightarrow> length items = length ?kept" using window by linarith+
  show "int (nat loc) + index = ?last" using window by simp
  show "0 \<le> c \<and> \<not> item_is_dropped P (its ! nat c) \<longrightarrow>
        0 \<le> index \<and> index < int (length items) \<and> items ! nat index = BuildItemStorage P (its ! nat c)"
  proof
    assume k: "0 \<le> c \<and> \<not> item_is_dropped P (its ! nat c)"
    then have n: "nat c < length its" "nat (c + 1) = Suc (nat c)" using c(2) by linarith+
    note kept = kept_items_at [OF n(1), of P]
    have "?last = int (length (kept_items P (take (nat c) its)))" using kept(1) k by (simp add: n)
    then have i: "0 \<le> index" "index < len" "nat loc + nat index = length (kept_items P (take (nat c) its))"
      using window by auto
    then have at: "take (nat len) (drop (nat loc) ?kept) ! nat index = its ! nat c"
      using kept(2,3) k window by (simp add: nth_append)
    have "int (length (take (nat len) (drop (nat loc) ?kept))) = len" using len items by (simp only: length_map)
    then have "nat index < length (take (nat len) (drop (nat loc) ?kept))" using i by linarith
    from nth_map [OF this, of "BuildItemStorage P"] at
    show "0 \<le> index \<and> index < int (length items) \<and> items ! nat index = BuildItemStorage P (its ! nat c)"
      using i len items by simp
  qed
qed

text \<open>The number that is taken off the index for the items dropped before it.\<close>

lemma index_among_kept:
  assumes "-1 \<le> c" and "c < int n" and "c = -1 \<longrightarrow> n = 0" and "int n < 2 ^ 31" and "length its = n"
  shows "c - int (dropped_before P (nat (c mod 2 ^ 64)) (zip [0..<n] its)) = int (length (kept_items P (take (nat (c + 1)) its))) - 1"
proof (cases "c = -1")
  case True
  then show ?thesis using assms by (simp add: dropped_before_def kept_items_def)
next
  case False
  then have r: "0 \<le> c" "c mod 2 ^ 64 = c" "nat (c + 1) = Suc (nat c)" "nat c < n" using assms by simp_all
  show ?thesis using dropped_before_take [OF assms(5) r(4), of P] r by simp
qed


section \<open>Restoring a saved session\<close>

definition new_web_state :: "('u, 'z) nav_platform_scheme \<Rightarrow> ('u, 'd) web_state" where
  "new_web_state P =
     \<lparr>created_with_opener = False, navigation_manager = new_nav_manager P,
      certificate_policy_cache = new_allowed_certs, user_data = [],
      web_state_user_agent = (if use_web_client_default_user_agent P then UA_AUTOMATIC else UA_MOBILE)\<rparr>"

lemma extract_items_run:
  "\<exists>its k. amapM (extract_item P) sts s = Inr (its, s\<lparr>unique_id_counter := k\<rparr>) \<and>
     list_all2 (\<lambda>st i. \<exists>n. i = RewriteItemURLIfNecessary P (fill_item P st (new_nav_item P n))) sts its"
proof (induction sts arbitrary: s)
  case Nil
  then show ?case by (simp add: action_defs exI [of _ "unique_id_counter s"])
next
  case (Cons st sts)
  let ?s = "s\<lparr>unique_id_counter := unique_id_counter s + 1\<rparr>"
  let ?i = "RewriteItemURLIfNecessary P (fill_item P st (new_nav_item P (unique_id_counter s + 1)))"
  obtain its k where its: "amapM (extract_item P) sts ?s = Inr (its, s\<lparr>unique_id_counter := k\<rparr>)"
    "list_all2 (\<lambda>st i. \<exists>n. i = RewriteItemURLIfNecessary P (fill_item P st (new_nav_item P n))) sts its"
    using Cons.IH [of ?s] by auto
  have "extract_item P st s = Inr (?i, ?s)"
    by (simp add: extract_item_def BuildNavigationItemImpl_def GetUniqueIDInConstructor_def action_defs)
  then have "amapM (extract_item P) (st # sts) s = Inr (?i # its, s\<lparr>unique_id_counter := k\<rparr>)"
    using its(1) by (simp add: abind_def areturn_def)
  then show ?case using its(2) by (intro exI [of _ "?i # its"] exI [of _ k]) auto
qed

lemma filled_item:
  assumes "scheme_is_http_or_https P (storage_url st)" and "is_empty_url P (empty_gurl P)"
    and "i = fill_item P st (new_nav_item P n)"
  shows "item_url i = storage_url st" "GetVirtualURL P i = virtualURL P st" "item_title i = storage_title st"
    "timestamp i = storage_timestamp st" "page_display_state i = storage_display_state st"
    "user_agent_type i = storage_user_agent st" "http_request_headers i = storage_http_headers st"
    "item_referrer i = storage_referrer st" "should_skip_repost_form_confirmation i = storage_skip_repost st"
  using assms
  by (auto simp: fill_item_def Let_def SetOriginalRequestURL_def SetItemURL_def SetVirtualURL_def GetVirtualURL_def
      virtualURL_def)

lemma unrewritten_item:
  "\<not> fst (RewriteURLIfNecessary P (item_url i)) \<Longrightarrow> RewriteItemURLIfNecessary P i = i"
  by (simp add: RewriteItemURLIfNecessary_def case_prod_beta)

text \<open>What \<open>ExtractSessionState\<close> leaves: the items of the storage are being restored.\<close>

lemma ExtractSessionState_restores:
  fixes P :: "('u, 'z) session_platform_scheme" and storage :: "('u, 'd) saved_session"
  assumes "restore_laws P" and "0 \<le> lastCommittedItemIndex storage"
    and "lastCommittedItemIndex storage < int (length (itemStorages storage))"
  obtains its k j c v where
    "list_all2 (\<lambda>st i. \<exists>n. i = RewriteItemURLIfNecessary P (fill_item P st (new_nav_item P n))) (itemStorages storage) its"
    and "ExtractSessionState P storage (new_web_state P) = Inr ((), (new_web_state P)
      \<lparr>created_with_opener := storage_has_opener storage,
       navigation_manager := (restoring_state P (lastCommittedItemIndex storage) its ((new_nav_manager P)\<lparr>unique_id_counter := k\<rparr>))
         \<lparr>pending_item := Some j, unique_id_counter := c, next_pending_url_should_skip_serialization := v\<rparr>,
       certificate_policy_cache := BuildSessionCertificatePolicyCache (certPolicyCacheStorage storage),
       user_data := AddSerializableUserData (storage_user_data storage) [],
       web_state_user_agent := user_agent_to_store P (session_user_agent storage)\<rparr>)"
proof -
  let ?sts = "itemStorages storage" and ?index = "lastCommittedItemIndex storage"
  let ?new = "new_nav_manager P :: 'u nav_manager"
  obtain its k where its: "amapM (extract_item P) ?sts ?new = Inr (its, ?new\<lparr>unique_id_counter := k\<rparr>)"
    "list_all2 (\<lambda>st i. \<exists>n. i = RewriteItemURLIfNecessary P (fill_item P st (new_nav_item P n))) ?sts its"
    using extract_items_run [of P ?sts ?new] by blast
  note len = list_all2_lengthD [OF its(2)]
  have blank: "blank_manager (?new\<lparr>unique_id_counter := k\<rparr>)" "transient_url_rewriters (?new\<lparr>unique_id_counter := k\<rparr>) = []"
    by (simp_all add: blank_manager_def new_nav_manager_def)
  have index: "?index < int (length its)" using assms(3) len by simp
  from wp_unsafe_restore [OF assms(1) blank assms(2) index] obtain j c u
    where run: "UnsafeRestore P ?index its (?new\<lparr>unique_id_counter := k\<rparr>) =
      Inr ((), (restoring_state P ?index its (?new\<lparr>unique_id_counter := k\<rparr>))\<lparr>pending_item := Some j, unique_id_counter := c,
           next_pending_url_should_skip_serialization := u\<rparr>)"
    by (auto elim!: wpE)
  let ?m = "(restoring_state P ?index its (?new\<lparr>unique_id_counter := k\<rparr>))\<lparr>pending_item := Some j, unique_id_counter := c,
           next_pending_url_should_skip_serialization := u\<rparr>"
  have unchanged: "(?new\<lparr>unique_id_counter := k\<rparr>)\<lparr>pending_item := None, pending_item_index := -1,
      last_committed_item_index := -1\<rparr> = ?new\<lparr>unique_id_counter := k\<rparr>"
    by (simp add: new_nav_manager_def)
  have "its \<noteq> []" using index assms(2) by auto
  then have restored: "Restore P ?index its (?new\<lparr>unique_id_counter := k\<rparr>) = Inr ((), ?m)"
    using run index assms(2) unchanged
    by (simp add: Restore_def DiscardNonCommittedItems_def action_defs GetItemCount_def GetBackForwardListItemCount_def
        new_nav_manager_def)
  show ?thesis
    by (rule that [OF its(2), where k = k and j = j and c = c and v = u]) (use its(1) restored in \<open>simp add: ExtractSessionState_def new_web_state_def abind_def\<close>)
qed


text \<open>If the last committed item and all items before it are dropped while items behind it are kept, the
  saved index is -1, and the session cannot be restored.\<close>

lemma session_without_index_is_not_restored:
  assumes "lastCommittedItemIndex storage < 0" and "itemStorages storage \<noteq> []"
  shows "ExtractSessionState P storage tab = Inl Dcheck_failed"
proof -
  obtain its k where its: "amapM (extract_item P) (itemStorages storage) (navigation_manager tab) =
      Inr (its, (navigation_manager tab)\<lparr>unique_id_counter := k\<rparr>)" "length its = length (itemStorages storage)"
    using extract_items_run [of P "itemStorages storage" "navigation_manager tab"] list_all2_lengthD by fastforce
  then have "its \<noteq> []" using assms(2) by auto
  then show ?thesis
    using assms(1) its(1)
    by (cases "is_restore_session_in_progress (navigation_manager tab)")
      (simp_all add: ExtractSessionState_def Restore_def action_defs)
qed

section \<open>A concrete session\<close>

definition demo_session :: "string session_platform" where
  "demo_session = nav_platform.extend demo_nav
     \<lparr>max_url_chars = 2097152, scheme_is_http_or_https = (\<lambda>u. url_scheme demo_nav u \<in> {''http'', ''https''}),
      parses_certificate = (\<lambda>data. data \<noteq> [])\<rparr>"

lemmas demo_session_defs = demo_session_def nav_platform.defs demo_nav_def web_platform.defs demo_platform_def

lemma demo_session_laws: "gurl_laws demo_session"
  using demo_nav_laws by (simp add: gurl_laws_def demo_session_def nav_platform.defs)

lemma demo_session_restore_laws: "restore_laws demo_session"
proof -
  have "url_scheme demo_session (replace_ref demo_session r (GetRestoreSessionBaseUrl demo_session)) \<noteq> kViewSourceScheme" for r
    using demo_session_laws by (simp add: gurl_lawsD GetRestoreSessionBaseUrl_def kViewSourceScheme_def)
  moreover have "url_rewriters demo_session = [HandleViewSource demo_session]"
    by (simp add: url_rewriters_def demo_session_defs)
  moreover have "is_valid demo_session (replace_ref demo_session r u)" for r u
    by (simp add: demo_session_defs)
  ultimately show ?thesis
    using demo_session_laws
    by (simp add: restore_laws_def RewriteURLIfNecessary_def HandleViewSource_def demo_session_def nav_platform.defs
        demo_nav_def web_platform.defs)
qed

definition demo_storage :: "string \<Rightarrow> string item_storage" where
  "demo_storage url = (new_item_storage demo_session)\<lparr>storage_url := url, storage_virtual_url := url, storage_title := ''T''\<rparr>"

definition demo_session_storage :: "(string, bool) saved_session" where
  "demo_session_storage =
     \<lparr>storage_has_opener = True, lastCommittedItemIndex = 1,
      itemStorages = [demo_storage ''https:a'', demo_storage ''https:b'', demo_storage ''https:c''],
      certPolicyCacheStorage = Some (Some [\<lparr>cs_certificate = \<lparr>cert_buffer = ''DER'', intermediate_buffers = []\<rparr>,
                                           cs_host = ''a'', cs_status = 4\<rparr>]),
      storage_user_data = Some [(''key'', True)], session_user_agent = UA_DESKTOP\<rparr>"

theorem session_archive_round_trip_witness:
  "\<exists>a n st. encode_session_storage demo_session demo_session_storage 0 = Inr (a, n) \<and>
     decode_session_storage demo_session a = Inr st \<and> map storage_url (itemStorages st) = [''https:a'', ''https:b'', ''https:c'']"
proof -
  have "session_storage_ok demo_session demo_session_storage"
    by (simp add: session_storage_ok_def demo_session_storage_def item_storage_ok_def readable_def demo_storage_def
        new_item_storage_def empty_referrer_def storage_ok_def demo_session_defs)
  from session_archive_round_trip [OF this, of 0] show ?thesis
    by (auto simp: demo_session_storage_def normal_storage_def demo_storage_def)
qed



end
