(* ===== verification/Find_In_Page_Request.thy ===== *)
theory Find_In_Page_Request
  imports Prelude "HOL-Library.AList"
begin

text \<open>
  The request of a search in a page, \<open>web/find_in_page/find_in_page_request.{h,mm}\<close>: how many matches
  each frame of the page has, in which order the frames are gone through, and which match is selected.

  \<open>frame_match_count_\<close> is an association list (the order of a \<open>std::map\<close> shows in nothing but a sum).
  The iterator \<open>selected_frame_id_\<close> is the position of its element in \<open>frame_order_\<close>, and \<open>None\<close> is
  \<open>end()\<close>; positions shift when elements before them come and go.  Reading \<open>frame_match_count_[id]\<close>
  inserts a missing entry, as in C++.  The loops that look for the next frame with matches may run
  for ever, so they are \<open>partial_function\<close>s whose \<open>None\<close> is that they do not end; dereferencing
  \<open>end()\<close> is a fault.

  The lemmas show that the operations keep a well-formed selection, and the property that
  the selection goes through all matches of the page in a cycle, whatever frames they are in.
\<close>

record find_request =
  unique_id :: int
  find_query :: "string option"
  pending_frame_call_count :: int
  frame_match_count :: "(string \<times> int) list"
  frame_order :: "string list"
  selected_frame :: "nat option"
  selected_match_index :: int

definition FindInPageRequest :: find_request where
  "FindInPageRequest = \<lparr>unique_id = 0, find_query = None, pending_frame_call_count = 0, frame_match_count = [],
     frame_order = [], selected_frame = None, selected_match_index = -1\<rparr>"

definition ResetRequest :: "string option \<Rightarrow> int \<Rightarrow> find_request \<Rightarrow> find_request" where
  "ResetRequest new_query new_pending r =
     r\<lparr>unique_id := unique_id r + 1, selected_frame := None, selected_match_index := -1, find_query := new_query,
       pending_frame_call_count := new_pending,
       frame_match_count := map (\<lambda>(f, _). (f, 0)) (frame_match_count r)\<rparr>"

definition GetTotalMatchCount :: "find_request \<Rightarrow> int" where
  "GetTotalMatchCount r = sum_list (map snd (frame_match_count r))"

text \<open>\<open>frame_match_count_[frame_id]\<close>.\<close>

definition count_at :: "string \<Rightarrow> find_request \<Rightarrow> int \<times> find_request" where
  "count_at frame_id r =
     (case map_of (frame_match_count r) frame_id of
        Some n \<Rightarrow> (n, r)
      | None \<Rightarrow> (0, r\<lparr>frame_match_count := AList.update frame_id 0 (frame_match_count r)\<rparr>))"

fun first_match_from :: "nat \<Rightarrow> string list \<Rightarrow> find_request \<Rightarrow> bool \<times> find_request" where
  "first_match_from i [] r = (False, r)"
| "first_match_from i (f # fs) r =
     (if 0 < fst (count_at f r)
      then (True, (snd (count_at f r))\<lparr>selected_frame := Some i, selected_match_index := 0\<rparr>)
      else first_match_from (Suc i) fs (snd (count_at f r)))"

definition GoToFirstMatch :: "find_request \<Rightarrow> bool \<times> find_request" where
  "GoToFirstMatch r = first_match_from 0 (frame_order r) r"

definition following :: "nat \<Rightarrow> find_request \<Rightarrow> nat" where
  "following i r = (if i = length (frame_order r) - 1 then 0 else Suc i)"

partial_function (option) next_frame :: "nat \<Rightarrow> find_request \<Rightarrow> (nat \<times> find_request) option" where
  "next_frame i r =
     (if fst (count_at (frame_order r ! following i r) r) = 0
      then next_frame (following i r) (snd (count_at (frame_order r ! following i r) r))
      else Some (following i r, snd (count_at (frame_order r ! following i r) r)))"

definition preceding :: "nat \<Rightarrow> find_request \<Rightarrow> nat" where
  "preceding i r = (if i = 0 then length (frame_order r) - 1 else i - 1)"

partial_function (option) previous_frame :: "nat \<Rightarrow> find_request \<Rightarrow> (nat \<times> find_request) option" where
  "previous_frame i r =
     (if fst (count_at (frame_order r ! preceding i r) r) = 0
      then previous_frame (preceding i r) (snd (count_at (frame_order r ! preceding i r) r))
      else Some (preceding i r, snd (count_at (frame_order r ! preceding i r) r)))"

text \<open>Without a selection both directions start at the first frame.\<close>

definition start_selection :: "find_request \<Rightarrow> find_request" where
  "start_selection r =
     (if selected_frame r = None
      then r\<lparr>selected_frame := (if frame_order r = [] then None else Some 0)\<rparr> else r)"

definition GoToNextMatch :: "find_request \<Rightarrow> (bool \<times> find_request) outcome option" where
  "GoToNextMatch r =
     (if GetTotalMatchCount r = 0 then Some (Inr (False, r))
      else let r1 = start_selection r in
        case selected_frame r1 of
          None \<Rightarrow> Some (Inl Null_dereference)
        | Some i \<Rightarrow>
            (let (n, r2) = count_at (frame_order r1 ! i) r1 in
             if selected_match_index r2 + 1 < n
             then Some (Inr (True, r2\<lparr>selected_match_index := selected_match_index r2 + 1\<rparr>))
             else map_option (\<lambda>(j, r3). Inr (True, r3\<lparr>selected_frame := Some j, selected_match_index := 0\<rparr>))
                    (next_frame i r2)))"

definition GoToPreviousMatch :: "find_request \<Rightarrow> (bool \<times> find_request) outcome option" where
  "GoToPreviousMatch r =
     (if GetTotalMatchCount r = 0 then Some (Inr (False, r))
      else let r1 = start_selection r in
        if 0 \<le> selected_match_index r1 - 1
        then Some (Inr (True, r1\<lparr>selected_match_index := selected_match_index r1 - 1\<rparr>))
        else case selected_frame r1 of
          None \<Rightarrow> Some (Inl Null_dereference)
        | Some i \<Rightarrow>
            map_option (\<lambda>(j, r3). let (n, r4) = count_at (frame_order r3 ! j) r3 in
                Inr (True, r4\<lparr>selected_frame := Some j, selected_match_index := n - 1\<rparr>))
              (previous_frame i r1))"

definition GetMatchCountForFrame :: "string \<Rightarrow> find_request \<Rightarrow> int" where
  "GetMatchCountForFrame frame_id r = (case map_of (frame_match_count r) frame_id of None \<Rightarrow> -1 | Some n \<Rightarrow> n)"

definition SetMatchCountForFrame :: "int \<Rightarrow> string \<Rightarrow> find_request \<Rightarrow> find_request" where
  "SetMatchCountForFrame n frame_id r = r\<lparr>frame_match_count := AList.update frame_id n (frame_match_count r)\<rparr>"

definition GetMatchCountForSelectedFrame :: "find_request \<Rightarrow> int \<times> find_request" where
  "GetMatchCountForSelectedFrame r =
     (case selected_frame r of None \<Rightarrow> (-1, r) | Some i \<Rightarrow> count_at (frame_order r ! i) r)"

definition SetMatchCountForSelectedFrame :: "int \<Rightarrow> find_request \<Rightarrow> find_request" where
  "SetMatchCountForSelectedFrame n r =
     (case selected_frame r of None \<Rightarrow> r | Some i \<Rightarrow> SetMatchCountForFrame n (frame_order r ! i) r)"

fun add_counts :: "string list \<Rightarrow> int \<Rightarrow> find_request \<Rightarrow> int \<times> find_request" where
  "add_counts [] n r = (n, r)"
| "add_counts (f # fs) n r = add_counts fs (n + fst (count_at f r)) (snd (count_at f r))"

definition GetCurrentSelectedMatchPageIndex :: "find_request \<Rightarrow> int \<times> find_request" where
  "GetCurrentSelectedMatchPageIndex r =
     (if selected_match_index r = -1 then (-1, r)
      else add_counts (case selected_frame r of None \<Rightarrow> frame_order r | Some i \<Rightarrow> take i (frame_order r))
             (selected_match_index r) r)"

definition GetSelectedFrameId :: "find_request \<Rightarrow> string" where
  "GetSelectedFrameId r = (case selected_frame r of None \<Rightarrow> [] | Some i \<Rightarrow> frame_order r ! i)"

definition GetCurrentSelectedMatchFrameIndex :: "find_request \<Rightarrow> int" where
  "GetCurrentSelectedMatchFrameIndex r = selected_match_index r"

definition SetCurrentSelectedMatchFrameIndex :: "int \<Rightarrow> find_request \<Rightarrow> find_request" where
  "SetCurrentSelectedMatchFrameIndex index r = r\<lparr>selected_match_index := index\<rparr>"

definition IsSelectedFrame :: "string \<Rightarrow> find_request \<Rightarrow> bool" where
  "IsSelectedFrame frame_id r = (case selected_frame r of None \<Rightarrow> False | Some i \<Rightarrow> frame_order r ! i = frame_id)"

definition RemoveFrame :: "string \<Rightarrow> find_request \<Rightarrow> find_request" where
  "RemoveFrame frame_id r =
     (let r1 = (if IsSelectedFrame frame_id r
                then r\<lparr>selected_frame := None, selected_match_index := -1\<rparr> else r) in
      r1\<lparr>frame_order := removeAll frame_id (frame_order r1),
         selected_frame := map_option (\<lambda>i. length (removeAll frame_id (take i (frame_order r1)))) (selected_frame r1),
         frame_match_count := AList.delete frame_id (frame_match_count r1)\<rparr>)"

definition AddFrame :: "string \<Rightarrow> bool \<Rightarrow> find_request \<Rightarrow> find_request" where
  "AddFrame frame_id is_main_frame r =
     (let r1 = r\<lparr>frame_match_count := AList.update frame_id 0 (frame_match_count r)\<rparr> in
      if is_main_frame
      then r1\<lparr>frame_order := frame_id # frame_order r1, selected_frame := map_option Suc (selected_frame r1)\<rparr>
      else r1\<lparr>frame_order := frame_order r1 @ [frame_id]\<rparr>)"

definition DidReceiveFindResponseFromOneFrame :: "find_request \<Rightarrow> find_request" where
  "DidReceiveFindResponseFromOneFrame r = r\<lparr>pending_frame_call_count := pending_frame_call_count r - 1\<rparr>"

definition AreAllFindResponsesReturned :: "find_request \<Rightarrow> bool" where
  "AreAllFindResponsesReturned r \<longleftrightarrow> pending_frame_call_count r = 0"

section \<open>The selection\<close>

definition cnt :: "find_request \<Rightarrow> string \<Rightarrow> int" where
  "cnt r f = (case map_of (frame_match_count r) f of None \<Rightarrow> 0 | Some n \<Rightarrow> n)"

text \<open>The matches before the frame at a position.\<close>

definition matches_before :: "find_request \<Rightarrow> nat \<Rightarrow> int" where
  "matches_before r i = sum_list (map (cnt r) (take i (frame_order r)))"

text \<open>Every frame has a count, and what is no frame any more has no matches.\<close>

definition wf_counts :: "find_request \<Rightarrow> bool" where
  "wf_counts r \<longleftrightarrow>
     distinct (frame_order r) \<and> distinct (map fst (frame_match_count r)) \<and>
     set (frame_order r) \<subseteq> fst ` set (frame_match_count r) \<and>
     (\<forall>(f, n) \<in> set (frame_match_count r). 0 \<le> n \<and> (f \<notin> set (frame_order r) \<longrightarrow> n = 0))"

definition selection_ok :: "find_request \<Rightarrow> bool" where
  "selection_ok r \<longleftrightarrow>
     (case selected_frame r of
        None \<Rightarrow> selected_match_index r = -1
      | Some i \<Rightarrow> i < length (frame_order r) \<and> 0 \<le> selected_match_index r \<and>
                  selected_match_index r < cnt r (frame_order r ! i))"

definition wf_request :: "find_request \<Rightarrow> bool" where
  "wf_request r \<longleftrightarrow> wf_counts r \<and> selection_ok r"

lemma cnt_fields [simp]:
  "cnt (r\<lparr>selected_frame := a\<rparr>) = cnt r" "cnt (r\<lparr>selected_match_index := b\<rparr>) = cnt r"
  "cnt (r\<lparr>frame_order := c\<rparr>) = cnt r" "cnt (r\<lparr>pending_frame_call_count := d\<rparr>) = cnt r"
  by (simp_all add: cnt_def fun_eq_iff)

lemma matches_before_fields [simp]:
  "matches_before (r\<lparr>selected_frame := a\<rparr>) = matches_before r"
  "matches_before (r\<lparr>selected_match_index := b\<rparr>) = matches_before r"
  by (simp_all add: matches_before_def fun_eq_iff)

lemma wf_counts_fields [simp]:
  "wf_counts (r\<lparr>selected_frame := a\<rparr>) = wf_counts r" "wf_counts (r\<lparr>selected_match_index := b\<rparr>) = wf_counts r"
  "wf_counts (r\<lparr>pending_frame_call_count := d\<rparr>) = wf_counts r"
  by (simp_all add: wf_counts_def)

lemma count_at_known:
  assumes "wf_counts r" and "f \<in> set (frame_order r)"
  shows "count_at f r = (cnt r f, r)"
proof -
  have "map_of (frame_match_count r) f \<noteq> None"
    using assms by (auto simp: wf_counts_def map_of_eq_None_iff)
  then show ?thesis by (auto simp: count_at_def cnt_def)
qed

lemma cnt_nonneg: "wf_counts r \<Longrightarrow> 0 \<le> cnt r f"
  by (auto simp: cnt_def wf_counts_def dest!: map_of_SomeD split: option.split)

lemma total_is_sum_over_order:
  assumes "wf_counts r"
  shows "GetTotalMatchCount r = matches_before r (length (frame_order r))"
proof -
  let ?ms = "frame_match_count r"
  have d: "distinct (map fst ?ms)" "distinct (frame_order r)" "set (frame_order r) \<subseteq> fst ` set ?ms"
    using assms by (simp_all add: wf_counts_def)
  have "snd x = cnt r (fst x)" if "x \<in> set ?ms" for x
    using map_of_is_SomeI [OF d(1), of "fst x" "snd x"] that by (simp add: cnt_def)
  then have snds: "map snd ?ms = map (cnt r) (map fst ?ms)" by simp
  then have "GetTotalMatchCount r = (\<Sum>f \<in> fst ` set ?ms. cnt r f)"
    unfolding GetTotalMatchCount_def snds using sum_list_distinct_conv_sum_set [OF d(1), of "cnt r"] by simp
  also have "\<dots> = (\<Sum>f \<in> set (frame_order r). cnt r f)"
  proof (rule sum.mono_neutral_right)
    show "\<forall>f \<in> fst ` set ?ms - set (frame_order r). cnt r f = 0"
    proof
      fix f assume f: "f \<in> fst ` set ?ms - set (frame_order r)"
      then obtain n where n: "(f, n) \<in> set ?ms" by auto
      then have "map_of ?ms f = Some n" using d(1) by simp
      then show "cnt r f = 0" using assms n f by (auto simp: cnt_def wf_counts_def)
    qed
  qed (use d(3) in auto)
  also have "\<dots> = matches_before r (length (frame_order r))"
    using sum_list_distinct_conv_sum_set [OF d(2), of "cnt r"] by (simp add: matches_before_def)
  finally show ?thesis .
qed

lemma matches_before_Suc:
  "i < length (frame_order r) \<Longrightarrow> matches_before r (Suc i) = matches_before r i + cnt r (frame_order r ! i)"
  by (simp add: matches_before_def take_Suc_conv_app_nth)

lemma matches_before_0 [simp]: "matches_before r 0 = 0"
  by (simp add: matches_before_def)

lemma matches_before_bounds:
  assumes "wf_counts r"
  shows "0 \<le> matches_before r i" and "matches_before r i \<le> GetTotalMatchCount r"
proof -
  have nonneg: "0 \<le> sum_list (map (cnt r) fs)" for fs
    using cnt_nonneg [OF assms] by (induction fs) auto
  show "0 \<le> matches_before r i" by (simp add: matches_before_def nonneg)
  have "frame_order r = take i (frame_order r) @ drop i (frame_order r)" by simp
  then have "matches_before r (length (frame_order r)) = matches_before r i + sum_list (map (cnt r) (drop i (frame_order r)))"
    by (metis map_append matches_before_def sum_list_append take_all_iff order_refl)
  then show "matches_before r i \<le> GetTotalMatchCount r"
    using nonneg [of "drop i (frame_order r)"] total_is_sum_over_order [OF assms] by simp
qed

text \<open>Somewhere there is a frame with matches, if there are matches at all.\<close>

lemma frame_with_matches:
  assumes "wf_counts r" and "GetTotalMatchCount r \<noteq> 0"
  obtains w where "w < length (frame_order r)" and "0 < cnt r (frame_order r ! w)"
proof -
  have "\<exists>f \<in> set (frame_order r). cnt r f \<noteq> 0"
  proof (rule ccontr)
    assume "\<not> ?thesis"
    then have "map (cnt r) (frame_order r) = map (\<lambda>_. 0) (frame_order r)" by simp
    then have "sum_list (map (cnt r) (frame_order r)) = 0" by (metis sum_list_0)
    then show False
      using assms total_is_sum_over_order [OF assms(1)] by (simp add: matches_before_def)
  qed
  then obtain w where "w < length (frame_order r)" "cnt r (frame_order r ! w) \<noteq> 0"
    by (auto simp: in_set_conv_nth)
  then show ?thesis using that cnt_nonneg [OF assms(1), of "frame_order r ! w"] by force
qed

subsection \<open>The loops\<close>

lemma following_less: "i < length (frame_order r) \<Longrightarrow> following i r < length (frame_order r)"
  by (auto simp: following_def)

lemma preceding_less: "i < length (frame_order r) \<Longrightarrow> preceding i r < length (frame_order r)"
  by (auto simp: preceding_def)

lemma matches_before_following:
  assumes "wf_counts r" and "i < length (frame_order r)"
  shows "matches_before r (following i r) mod GetTotalMatchCount r = matches_before r (Suc i) mod GetTotalMatchCount r"
proof (cases "i = length (frame_order r) - 1")
  case True
  then have "Suc i = length (frame_order r)" using assms(2) by simp
  then show ?thesis using True total_is_sum_over_order [OF assms(1)] by (simp add: following_def)
qed (simp add: following_def)

lemma matches_before_preceding:
  assumes "wf_counts r" and "i < length (frame_order r)"
  shows "matches_before r (Suc (preceding i r)) mod GetTotalMatchCount r = matches_before r i mod GetTotalMatchCount r"
proof (cases "i = 0")
  case True
  then have "Suc (preceding i r) = length (frame_order r)" using assms(2) by (simp add: preceding_def)
  then show ?thesis using True total_is_sum_over_order [OF assms(1)] by simp
qed (simp add: preceding_def)

text \<open>Both loops end when they come to the frame \<open>w\<close>, \<open>k\<close> steps away, at the latest; the matches that
  they pass do not change.\<close>

lemma next_frame_ends:
  assumes "wf_counts r" and "0 < cnt r (frame_order r ! w)" and "i < length (frame_order r)"
    and "((\<lambda>i. following i r) ^^ Suc k) i = w"
  shows "\<exists>j. next_frame i r = Some (j, r) \<and> j < length (frame_order r) \<and> 0 < cnt r (frame_order r ! j) \<and>
     matches_before r j mod GetTotalMatchCount r = matches_before r (Suc i) mod GetTotalMatchCount r"
  using assms(3,4)
proof (induction k arbitrary: i)
  case 0
  then show ?case
    using assms(1,2) following_less [OF 0(1)] matches_before_following [OF assms(1) 0(1)]
    by (simp add: next_frame.simps [of i] count_at_known)
next
  case (Suc k)
  let ?j = "following i r"
  have j: "?j < length (frame_order r)" using Suc.prems following_less by simp
  have step: "((\<lambda>i. following i r) ^^ Suc k) ?j = w" using Suc.prems(2) by (simp only: funpow_Suc_right comp_apply)
  show ?case
  proof (cases "cnt r (frame_order r ! ?j) = 0")
    case True
    then have "matches_before r (Suc ?j) = matches_before r ?j" using matches_before_Suc [OF j] by simp
    then show ?thesis
      using True Suc.IH [OF j step] j assms(1) matches_before_following [OF assms(1) Suc.prems(1)]
      by (simp add: next_frame.simps [of i] count_at_known)
  next
    case False
    then show ?thesis
      using j assms(1) matches_before_following [OF assms(1) Suc.prems(1)] cnt_nonneg [OF assms(1), of "frame_order r ! ?j"]
      by (simp add: next_frame.simps [of i] count_at_known)
  qed
qed

lemma previous_frame_ends:
  assumes "wf_counts r" and "0 < cnt r (frame_order r ! w)" and "i < length (frame_order r)"
    and "((\<lambda>i. preceding i r) ^^ Suc k) i = w"
  shows "\<exists>j. previous_frame i r = Some (j, r) \<and> j < length (frame_order r) \<and> 0 < cnt r (frame_order r ! j) \<and>
     matches_before r (Suc j) mod GetTotalMatchCount r = matches_before r i mod GetTotalMatchCount r"
  using assms(3,4)
proof (induction k arbitrary: i)
  case 0
  then show ?case
    using assms(1,2) preceding_less [OF 0(1)] matches_before_preceding [OF assms(1) 0(1)]
    by (simp add: previous_frame.simps [of i] count_at_known)
next
  case (Suc k)
  let ?j = "preceding i r"
  have j: "?j < length (frame_order r)" using Suc.prems preceding_less by simp
  have step: "((\<lambda>i. preceding i r) ^^ Suc k) ?j = w" using Suc.prems(2) by (simp only: funpow_Suc_right comp_apply)
  show ?case
  proof (cases "cnt r (frame_order r ! ?j) = 0")
    case True
    then have "matches_before r (Suc ?j) = matches_before r ?j" using matches_before_Suc [OF j] by simp
    then show ?thesis
      using True Suc.IH [OF j step] j assms(1) matches_before_preceding [OF assms(1) Suc.prems(1)]
      by (simp add: previous_frame.simps [of i] count_at_known)
  next
    case False
    then show ?thesis
      using j assms(1) matches_before_preceding [OF assms(1) Suc.prems(1)] cnt_nonneg [OF assms(1), of "frame_order r ! ?j"]
      by (simp add: previous_frame.simps [of i] count_at_known)
  qed
qed

text \<open>Every frame is some steps away in either direction.\<close>

lemma following_reaches:
  assumes "i < length (frame_order r)" and "w < length (frame_order r)"
  shows "\<exists>k. ((\<lambda>i. following i r) ^^ Suc k) i = w"
proof -
  let ?n = "length (frame_order r)" and ?f = "\<lambda>i. following i r"
  have f: "?f j = Suc j mod ?n" if "j < ?n" for j
  proof (cases "j = ?n - 1")
    case True
    then have "Suc j = ?n" using that by simp
    then show ?thesis using True by (simp add: following_def)
  qed (use that in \<open>simp add: following_def\<close>)
  have iter: "(?f ^^ k) i = (i + k) mod ?n" for k
  proof (induction k)
    case (Suc k)
    have "(i + k) mod ?n < ?n" using assms(1) by (intro mod_less_divisor) linarith
    then show ?case using Suc f [of "(i + k) mod ?n"] by (simp add: mod_Suc_eq)
  qed (use assms in simp)
  have "i + Suc (w + ?n - i - 1) = w + ?n" using assms by simp
  then have "(i + Suc (w + ?n - i - 1)) mod ?n = (w + ?n) mod ?n" by (simp only:)
  also have "\<dots> = w" using assms(2) by simp
  finally have "((\<lambda>i. following i r) ^^ Suc (w + ?n - i - 1)) i = w"
    using iter [of "Suc (w + ?n - i - 1)"] by (simp only:)
  then show ?thesis by (rule exI)
qed

lemma following_preceding: "i < length (frame_order r) \<Longrightarrow> preceding (following i r) r = i"
  by (auto simp: following_def preceding_def)

lemma preceding_reaches:
  assumes "i < length (frame_order r)" and "w < length (frame_order r)"
  shows "\<exists>k. ((\<lambda>i. preceding i r) ^^ Suc k) i = w"
proof -
  obtain k where k: "((\<lambda>i. following i r) ^^ Suc k) w = i"
    using following_reaches [OF assms(2,1)] by blast
  have "((\<lambda>i. preceding i r) ^^ m) (((\<lambda>i. following i r) ^^ m) w) = w" for m
  proof (induction m)
    case (Suc m)
    have "((\<lambda>i. following i r) ^^ m) w < length (frame_order r)"
      using assms(2) by (induction m) (auto intro: following_less)
    then show ?case using Suc by (simp add: funpow_swap1 [of "\<lambda>i. preceding i r"] following_preceding)
  qed simp
  then show ?thesis using k by blast
qed

lemma next_frame_total:
  assumes "wf_counts r" and "GetTotalMatchCount r \<noteq> 0" and "i < length (frame_order r)"
  obtains j where "next_frame i r = Some (j, r)" and "j < length (frame_order r)" and "0 < cnt r (frame_order r ! j)"
    and "matches_before r j mod GetTotalMatchCount r = matches_before r (Suc i) mod GetTotalMatchCount r"
proof -
  obtain w where w: "w < length (frame_order r)" "0 < cnt r (frame_order r ! w)"
    using frame_with_matches [OF assms(1,2)] .
  then show ?thesis
    using following_reaches [OF assms(3) w(1)] next_frame_ends [OF assms(1) w(2) assms(3)] that by blast
qed

lemma previous_frame_total:
  assumes "wf_counts r" and "GetTotalMatchCount r \<noteq> 0" and "i < length (frame_order r)"
  obtains j where "previous_frame i r = Some (j, r)" and "j < length (frame_order r)" and "0 < cnt r (frame_order r ! j)"
    and "matches_before r (Suc j) mod GetTotalMatchCount r = matches_before r i mod GetTotalMatchCount r"
proof -
  obtain w where w: "w < length (frame_order r)" "0 < cnt r (frame_order r ! w)"
    using frame_with_matches [OF assms(1,2)] .
  then show ?thesis
    using preceding_reaches [OF assms(3) w(1)] previous_frame_ends [OF assms(1) w(2) assms(3)] that by blast
qed

section \<open>Going from match to match\<close>

lemma add_counts_known:
  assumes "wf_counts r" and "set fs \<subseteq> set (frame_order r)"
  shows "add_counts fs n r = (n + sum_list (map (cnt r) fs), r)"
  using assms by (induction fs arbitrary: n) (simp_all add: count_at_known)

lemma page_index:
  assumes "wf_request r"
  shows "GetCurrentSelectedMatchPageIndex r =
    (case selected_frame r of None \<Rightarrow> -1 | Some i \<Rightarrow> matches_before r i + selected_match_index r, r)"
proof (cases "selected_frame r")
  case None
  then show ?thesis using assms by (simp add: GetCurrentSelectedMatchPageIndex_def wf_request_def selection_ok_def)
next
  case (Some i)
  have "set (take i (frame_order r)) \<subseteq> set (frame_order r)" by (rule set_take_subset)
  then show ?thesis
    using assms Some
    by (simp add: GetCurrentSelectedMatchPageIndex_def wf_request_def selection_ok_def add_counts_known matches_before_def)
qed

lemma page_index_at:
  "wf_request (r\<lparr>selected_frame := Some i, selected_match_index := k\<rparr>) \<Longrightarrow>
     GetCurrentSelectedMatchPageIndex (r\<lparr>selected_frame := Some i, selected_match_index := k\<rparr>) =
       (matches_before r i + k, r\<lparr>selected_frame := Some i, selected_match_index := k\<rparr>)"
  by (simp add: page_index)

lemma selecting_a_match:
  "wf_counts r \<Longrightarrow> i < length (frame_order r) \<Longrightarrow> 0 \<le> k \<Longrightarrow> k < cnt r (frame_order r ! i) \<Longrightarrow>
     wf_request (r\<lparr>selected_frame := Some i, selected_match_index := k\<rparr>)"
  by (simp add: wf_request_def selection_ok_def)

text \<open>The number of a match of the page is smaller than the number of matches.\<close>

lemma page_index_bounds:
  assumes "wf_counts r" and "i < length (frame_order r)" and "0 \<le> k" and "k < cnt r (frame_order r ! i)"
  shows "0 \<le> matches_before r i + k" and "matches_before r i + k < GetTotalMatchCount r"
  using assms matches_before_bounds [OF assms(1), of i] matches_before_bounds(2) [OF assms(1), of "Suc i"]
    matches_before_Suc [OF assms(2)]
  by linarith+

lemma mod_of_next:
  fixes a b T :: int
  assumes "a mod T = b mod T" and "0 \<le> a" and "a < T"
  shows "a = b mod T"
  using assms by simp

text \<open>The start of a step: a frame \<open>i\<close> with an index in it, where the lack of a selection is the index
  \<open>-1\<close> in the first frame.\<close>

lemma start_of_step:
  assumes "wf_request r" and "GetTotalMatchCount r \<noteq> 0"
  obtains i where "start_selection r = r\<lparr>selected_frame := Some i\<rparr>" and "i < length (frame_order r)"
    and "-1 \<le> selected_match_index r"
    and "selected_match_index r < cnt r (frame_order r ! i) \<or> selected_match_index r = -1"
    and "fst (GetCurrentSelectedMatchPageIndex r) = matches_before r i + selected_match_index r"
    and "selected_frame r = None \<longleftrightarrow> selected_match_index r = -1" and "selected_frame r = None \<Longrightarrow> i = 0"
proof (cases "selected_frame r")
  case None
  have ne: "frame_order r \<noteq> []"
    using frame_with_matches [of r] assms by (metis length_greater_0_conv less_nat_zero_code list.size(3) wf_request_def)
  then show ?thesis
    using assms(1) None page_index [OF assms(1)]
    by (intro that [of 0]) (auto simp: start_selection_def wf_request_def selection_ok_def)
next
  case (Some i)
  have "start_selection r = r\<lparr>selected_frame := Some i\<rparr>" using Some by (simp add: start_selection_def)
  then show ?thesis
    using assms(1) Some page_index [OF assms(1)]
    by (intro that [of i]) (auto simp: wf_request_def selection_ok_def)
qed

lemma next_match:
  assumes wf: "wf_request r" and total: "GetTotalMatchCount r \<noteq> 0"
  shows "\<exists>i k. GoToNextMatch r = Some (Inr (True, r\<lparr>selected_frame := Some i, selected_match_index := k\<rparr>)) \<and>
     i < length (frame_order r) \<and> 0 \<le> k \<and> k < cnt r (frame_order r ! i) \<and>
     matches_before r i + k = (fst (GetCurrentSelectedMatchPageIndex r) + 1) mod GetTotalMatchCount r"
proof -
  have c: "wf_counts r" using wf by (simp add: wf_request_def)
  obtain i where start: "start_selection r = r\<lparr>selected_frame := Some i\<rparr>" and i: "i < length (frame_order r)"
    and k: "-1 \<le> selected_match_index r" "selected_match_index r < cnt r (frame_order r ! i) \<or> selected_match_index r = -1"
    and p: "fst (GetCurrentSelectedMatchPageIndex r) = matches_before r i + selected_match_index r"
    using start_of_step [OF wf total] by metis
  let ?k = "selected_match_index r" and ?r = "r\<lparr>selected_frame := Some i\<rparr>"
  have c': "wf_counts ?r" using c by simp
  have at: "count_at (frame_order r ! i) ?r = (cnt r (frame_order r ! i), ?r)"
    using count_at_known [OF c', of "frame_order r ! i"] i by simp
  show ?thesis
  proof (cases "?k + 1 < cnt r (frame_order r ! i)")
    case True
    then have "GoToNextMatch r = Some (Inr (True, r\<lparr>selected_frame := Some i, selected_match_index := ?k + 1\<rparr>))"
      using total start at by (simp add: GoToNextMatch_def)
    moreover have "matches_before r i + (?k + 1) = (fst (GetCurrentSelectedMatchPageIndex r) + 1) mod GetTotalMatchCount r"
      using page_index_bounds [OF c i, of "?k + 1"] True k(1) p by (simp add: algebra_simps)
    ultimately show ?thesis using True i k(1) by (intro exI [of _ i] exI [of _ "?k + 1"]) simp
  next
    case False
    then have last: "?k + 1 = cnt r (frame_order r ! i)"
      using k cnt_nonneg [OF c, of "frame_order r ! i"] by auto
    obtain j where j: "next_frame i ?r = Some (j, ?r)" "j < length (frame_order r)" "0 < cnt r (frame_order r ! j)"
      "matches_before r j mod GetTotalMatchCount ?r = matches_before r (Suc i) mod GetTotalMatchCount ?r"
      using next_frame_total [OF c', of i] i total by (auto simp: GetTotalMatchCount_def)
    have run: "GoToNextMatch r = Some (Inr (True, r\<lparr>selected_frame := Some j, selected_match_index := 0\<rparr>))"
      using total start at False j(1) by (simp add: GoToNextMatch_def)
    have "matches_before r j = (matches_before r (Suc i)) mod GetTotalMatchCount r"
      using mod_of_next j(4) page_index_bounds [OF c j(2) _ j(3)] by (simp add: GetTotalMatchCount_def)
    moreover have "matches_before r (Suc i) = fst (GetCurrentSelectedMatchPageIndex r) + 1"
      using last p matches_before_Suc [OF i] by linarith
    ultimately show ?thesis
      using run j(2,3) by (intro exI [of _ j] exI [of _ 0]) simp
  qed
qed

lemma previous_match:
  assumes wf: "wf_request r" and total: "GetTotalMatchCount r \<noteq> 0"
  shows "\<exists>i k. GoToPreviousMatch r = Some (Inr (True, r\<lparr>selected_frame := Some i, selected_match_index := k\<rparr>)) \<and>
     i < length (frame_order r) \<and> 0 \<le> k \<and> k < cnt r (frame_order r ! i) \<and>
     matches_before r i + k =
       (if selected_frame r = None then GetTotalMatchCount r - 1
        else (fst (GetCurrentSelectedMatchPageIndex r) - 1) mod GetTotalMatchCount r)"
proof -
  have c: "wf_counts r" using wf by (simp add: wf_request_def)
  obtain i where start: "start_selection r = r\<lparr>selected_frame := Some i\<rparr>" and i: "i < length (frame_order r)"
    and k: "-1 \<le> selected_match_index r" "selected_match_index r < cnt r (frame_order r ! i) \<or> selected_match_index r = -1"
    and p: "fst (GetCurrentSelectedMatchPageIndex r) = matches_before r i + selected_match_index r"
    and none: "selected_frame r = None \<longleftrightarrow> selected_match_index r = -1" "selected_frame r = None \<Longrightarrow> i = 0"
    using start_of_step [OF wf total] by metis
  let ?k = "selected_match_index r" and ?r = "r\<lparr>selected_frame := Some i\<rparr>" and ?T = "GetTotalMatchCount r"
  have c': "wf_counts ?r" using c by simp
  show ?thesis
  proof (cases "0 \<le> ?k - 1")
    case True
    then have "GoToPreviousMatch r = Some (Inr (True, r\<lparr>selected_frame := Some i, selected_match_index := ?k - 1\<rparr>))"
      using total start by (simp add: GoToPreviousMatch_def)
    moreover have "?k < cnt r (frame_order r ! i)" using k True by simp
    moreover from this have "matches_before r i + (?k - 1) = (fst (GetCurrentSelectedMatchPageIndex r) - 1) mod ?T"
      using page_index_bounds [OF c i, of "?k - 1"] True p by (simp add: algebra_simps)
    ultimately show ?thesis using True i none(1) by (intro exI [of _ i] exI [of _ "?k - 1"]) auto
  next
    case False
    obtain j where j: "previous_frame i ?r = Some (j, ?r)" "j < length (frame_order r)" "0 < cnt r (frame_order r ! j)"
      "matches_before r (Suc j) mod GetTotalMatchCount ?r = matches_before r i mod GetTotalMatchCount ?r"
      using previous_frame_total [OF c', of i] i total by (auto simp: GetTotalMatchCount_def)
    let ?l = "cnt r (frame_order r ! j) - 1"
    have "count_at (frame_order r ! j) ?r = (cnt r (frame_order r ! j), ?r)"
      using count_at_known [OF c', of "frame_order r ! j"] j(2) by simp
    then have run: "GoToPreviousMatch r = Some (Inr (True, r\<lparr>selected_frame := Some j, selected_match_index := ?l\<rparr>))"
      using total start False j(1) by (simp add: GoToPreviousMatch_def)
    have bounds: "0 \<le> matches_before r j + ?l" "matches_before r j + ?l < ?T"
      using page_index_bounds [OF c j(2), of ?l] j(3) by simp_all
    have "(matches_before r j + ?l) mod ?T = (matches_before r i - 1) mod ?T"
      using matches_before_Suc [OF j(2)] mod_diff_cong [of "matches_before r (Suc j)" ?T "matches_before r i" 1 1] j(4)
      by (simp add: GetTotalMatchCount_def add_diff_eq)
    then have pos: "matches_before r j + ?l = (matches_before r i - 1) mod ?T"
      using mod_of_next [OF _ bounds] by simp
    have "matches_before r j + ?l = (if selected_frame r = None then ?T - 1
        else (fst (GetCurrentSelectedMatchPageIndex r) - 1) mod ?T)"
    proof (cases "selected_frame r = None")
      case True
      have "0 < ?T" using bounds by simp
      then have "(- 1) mod ?T = ?T - 1" by (simp add: zmod_minus1)
      then show ?thesis using True none(2) pos by simp
    next
      case sel: False
      then have "?k = 0" using False none(1) k(1) by linarith
      then show ?thesis using sel pos p by auto
    qed
    then show ?thesis using run j(2,3) by (intro exI [of _ j] exI [of _ ?l]) simp
  qed
qed

text \<open>C22: The next and the previous match go through all matches of the page in a cycle: each step ends,
  moves the number of the selected match on the page by one modulo the number of matches, whatever
  frames the matches are in and however many frames have none, and keeps the counts of the frames.
  Without a selection the first match is the next and the last one the previous.\<close>
theorem selection_cycles_through_the_matches:
  assumes "wf_request r" and "GetTotalMatchCount r \<noteq> 0"
  shows "\<exists>p t u. GetCurrentSelectedMatchPageIndex r = (p, r) \<and> -1 \<le> p \<and> p < GetTotalMatchCount r \<and>
     GoToNextMatch r = Some (Inr (True, t)) \<and> wf_request t \<and> frame_match_count t = frame_match_count r \<and>
     GetCurrentSelectedMatchPageIndex t = ((p + 1) mod GetTotalMatchCount r, t) \<and>
     GoToPreviousMatch r = Some (Inr (True, u)) \<and> wf_request u \<and> frame_match_count u = frame_match_count r \<and>
     GetCurrentSelectedMatchPageIndex u =
       (if p = -1 then GetTotalMatchCount r - 1 else (p - 1) mod GetTotalMatchCount r, u)"
proof -
  have c: "wf_counts r" using assms by (simp add: wf_request_def)
  obtain p where p: "GetCurrentSelectedMatchPageIndex r = (p, r)" using page_index [OF assms(1)] by blast
  have range: "-1 \<le> p \<and> p < GetTotalMatchCount r \<and> (p = -1 \<longleftrightarrow> selected_frame r = None)"
  proof (cases "selected_frame r")
    case None
    then show ?thesis using p page_index [OF assms(1)] matches_before_bounds [OF c, of 0] assms(2) by simp
  next
    case (Some i)
    then have "i < length (frame_order r)" "0 \<le> selected_match_index r" "selected_match_index r < cnt r (frame_order r ! i)"
      using assms(1) by (simp_all add: wf_request_def selection_ok_def)
    from page_index_bounds [OF c this] show ?thesis using Some p page_index [OF assms(1)] by simp
  qed
  obtain i k where nxt: "GoToNextMatch r = Some (Inr (True, r\<lparr>selected_frame := Some i, selected_match_index := k\<rparr>))"
    "i < length (frame_order r)" "0 \<le> k" "k < cnt r (frame_order r ! i)"
    "matches_before r i + k = (p + 1) mod GetTotalMatchCount r"
    using next_match [OF assms] p by auto
  obtain j l where previous: "GoToPreviousMatch r = Some (Inr (True, r\<lparr>selected_frame := Some j, selected_match_index := l\<rparr>))"
    "j < length (frame_order r)" "0 \<le> l" "l < cnt r (frame_order r ! j)"
    "matches_before r j + l = (if p = -1 then GetTotalMatchCount r - 1 else (p - 1) mod GetTotalMatchCount r)"
    using previous_match [OF assms] p range by auto
  note wfs = selecting_a_match [OF c nxt(2-4)] selecting_a_match [OF c previous(2-4)]
  show ?thesis
    using p range nxt(1,5) previous(1,5) wfs page_index_at [OF wfs(1)] page_index_at [OF wfs(2)] by simp
qed

text \<open>Three frames, the middle one without matches; the second match of the first frame is selected.\<close>

definition demo_request :: find_request where
  "demo_request = FindInPageRequest\<lparr>frame_order := [''main'', ''ad'', ''comments''],
     frame_match_count := [(''ad'', 0), (''comments'', 1), (''main'', 2)],
     selected_frame := Some 0, selected_match_index := 1\<rparr>"

theorem selection_cycles_through_the_matches_witness:
  "\<exists>t u. GoToNextMatch demo_request = Some (Inr (True, t)) \<and> fst (GetCurrentSelectedMatchPageIndex t) = 2 \<and>
     GoToPreviousMatch demo_request = Some (Inr (True, u)) \<and> fst (GetCurrentSelectedMatchPageIndex u) = 0"
proof -
  have wf: "wf_request demo_request"
    by (simp add: demo_request_def FindInPageRequest_def wf_request_def wf_counts_def selection_ok_def cnt_def)
  have total: "GetTotalMatchCount demo_request = 3"
    by (simp add: demo_request_def GetTotalMatchCount_def)
  have "GetCurrentSelectedMatchPageIndex demo_request = (1, demo_request)"
    by (simp add: page_index [OF wf]) (simp add: demo_request_def matches_before_def)
  then show ?thesis
    using selection_cycles_through_the_matches [OF wf] total by auto
qed

section \<open>The other operations\<close>

lemma reset_is_wf: "wf_counts r \<Longrightarrow> wf_request (ResetRequest q n r)"
  by (auto simp: wf_request_def wf_counts_def selection_ok_def ResetRequest_def comp_def case_prod_beta image_image)

lemma reset_forgets_matches: "GetTotalMatchCount (ResetRequest q n r) = 0"
  by (simp add: GetTotalMatchCount_def ResetRequest_def comp_def case_prod_beta)

lemma cnt_SetMatchCountForFrame: "cnt (SetMatchCountForFrame n f r) g = (if g = f then n else cnt r g)"
  by (simp add: cnt_def SetMatchCountForFrame_def update_conv')

lemma set_update_values:
  "(g, m) \<in> set (AList.update f n xs) \<Longrightarrow> (g, m) = (f, n) \<or> (g, m) \<in> set xs"
  by (induction xs) (auto split: if_splits)

lemma SetMatchCountForFrame_wf:
  assumes "wf_counts r" and "0 \<le> n" and "f \<in> set (frame_order r) \<or> n = 0"
  shows "wf_counts (SetMatchCountForFrame n f r)"
proof -
  have "fst ` set (frame_match_count r) \<subseteq> fst ` set (AList.update f n (frame_match_count r))"
    by (auto simp: dom_update)
  then show ?thesis
    using assms by (auto simp: wf_counts_def SetMatchCountForFrame_def distinct_update dest!: set_update_values)
qed

lemma AddFrame_wf:
  assumes "wf_request r" and "f \<notin> set (frame_order r)"
  shows "wf_request (AddFrame f main r)"
proof -
  have keys: "fst ` set (AList.update f 0 (frame_match_count r)) = insert f (fst ` set (frame_match_count r))"
    by (simp add: dom_update)
  have "cnt (r\<lparr>frame_match_count := AList.update f 0 (frame_match_count r)\<rparr>) g = (if g = f then 0 else cnt r g)" for g
    using cnt_SetMatchCountForFrame by (simp add: SetMatchCountForFrame_def)
  then show ?thesis
    using assms keys
    by (auto simp: wf_request_def wf_counts_def selection_ok_def AddFrame_def Let_def distinct_update nth_append
        dest!: set_update_values split: option.splits)
qed

lemma nth_removeAll:
  "i < length xs \<Longrightarrow> xs ! i \<noteq> x \<Longrightarrow> removeAll x xs ! length (removeAll x (take i xs)) = xs ! i \<and>
     length (removeAll x (take i xs)) < length (removeAll x xs)"
proof (induction xs arbitrary: i)
  case (Cons y xs)
  then show ?case by (cases i) auto
qed simp

lemma set_delete_keys: "fst ` set (AList.delete f xs) = fst ` set xs - {f}"
  using arg_cong [OF AList.delete_keys [of f xs], of set] by simp

lemma set_delete_values: "x \<in> set (AList.delete f xs) \<Longrightarrow> x \<in> set xs \<and> fst x \<noteq> f"
  by (auto simp: AList.delete_eq)

lemma RemoveFrame_counts:
  assumes "wf_counts r"
  shows "wf_counts (RemoveFrame f r)"
  using assms set_delete_keys [of f "frame_match_count r"]
  by (auto simp: wf_counts_def RemoveFrame_def Let_def distinct_removeAll AList.distinct_delete dest: set_delete_values)

lemma AddFrame_counts:
  assumes "wf_counts r" and "f \<notin> set (frame_order r)"
  shows "wf_counts (AddFrame f main r)"
proof -
  have "fst ` set (AList.update f 0 (frame_match_count r)) = insert f (fst ` set (frame_match_count r))"
    by (simp add: dom_update)
  then show ?thesis
    using assms by (auto simp: wf_counts_def AddFrame_def Let_def distinct_update dest!: set_update_values)
qed

lemma RemoveFrame_wf:
  assumes "wf_request r"
  shows "wf_request (RemoveFrame f r)" and "g \<noteq> f \<Longrightarrow> cnt (RemoveFrame f r) g = cnt r g"
    and "f \<notin> set (frame_order (RemoveFrame f r))"
proof -
  show other: "g \<noteq> f \<Longrightarrow> cnt (RemoveFrame f r) g = cnt r g" for g
    by (simp add: cnt_def RemoveFrame_def Let_def AList.delete_conv')
  show "f \<notin> set (frame_order (RemoveFrame f r))" by (simp add: RemoveFrame_def Let_def)
  have counts: "wf_counts (RemoveFrame f r)"
    using assms by (simp add: wf_request_def RemoveFrame_counts)
  have "selection_ok (RemoveFrame f r)"
  proof (cases "selected_frame r = None \<or> IsSelectedFrame f r")
    case True
    then show ?thesis using assms
      by (auto simp: wf_request_def selection_ok_def RemoveFrame_def IsSelectedFrame_def Let_def)
  next
    case False
    then obtain i where i: "selected_frame r = Some i" "frame_order r ! i \<noteq> f" by (auto simp: IsSelectedFrame_def)
    then have "i < length (frame_order r)" "0 \<le> selected_match_index r" "selected_match_index r < cnt r (frame_order r ! i)"
      using assms by (simp_all add: wf_request_def selection_ok_def)
    then show ?thesis
      using i other [OF i(2)] nth_removeAll [of i "frame_order r" f] False
      by (simp add: selection_ok_def RemoveFrame_def Let_def)
  qed
  then show "wf_request (RemoveFrame f r)" using counts by (simp add: wf_request_def)
qed

lemma first_match_from_known:
  assumes "wf_counts r" and "i \<le> length (frame_order r)"
  shows "first_match_from i (drop i (frame_order r)) r =
    (case index_where (\<lambda>f. 0 < cnt r f) (drop i (frame_order r)) of
       None \<Rightarrow> (False, r)
     | Some j \<Rightarrow> (True, r\<lparr>selected_frame := Some (i + j), selected_match_index := 0\<rparr>))"
  using assms(2)
proof (induction "length (frame_order r) - i" arbitrary: i)
  case 0
  then show ?case by simp
next
  case (Suc n)
  then have i: "i < length (frame_order r)" by simp
  then have "count_at (frame_order r ! i) r = (cnt r (frame_order r ! i), r)"
    using count_at_known [OF assms(1)] by simp
  then show ?case
    using Suc.hyps(1) [of "Suc i"] Suc.hyps(2) i
    by (cases "index_where (\<lambda>f. 0 < cnt r f) (drop (Suc i) (frame_order r))")
      (simp_all add: Cons_nth_drop_Suc [symmetric] del: index_where_None)
qed

text \<open>The first match is the first one of the first frame that has any.\<close>

lemma GoToFirstMatch_selects:
  assumes "wf_counts r" and "GetTotalMatchCount r \<noteq> 0"
  obtains j t where "GoToFirstMatch r = (True, t)" and "t = r\<lparr>selected_frame := Some j, selected_match_index := 0\<rparr>"
    and "wf_request t" and "GetCurrentSelectedMatchPageIndex t = (0, t)"
proof -
  obtain w where "w < length (frame_order r)" "0 < cnt r (frame_order r ! w)"
    using frame_with_matches [OF assms] .
  then have "index_where (\<lambda>f. 0 < cnt r f) (frame_order r) \<noteq> None" by auto
  then obtain j where j: "index_where (\<lambda>f. 0 < cnt r f) (frame_order r) = Some j" by blast
  then have at: "j < length (frame_order r)" "0 < cnt r (frame_order r ! j)"
    and before: "\<forall>k < j. \<not> 0 < cnt r (frame_order r ! k)"
    using index_where_SomeD [OF j] by auto
  have "cnt r f = 0" if "f \<in> set (take j (frame_order r))" for f
    using that before cnt_nonneg [OF assms(1), of f] at(1)
    by (auto simp: in_set_conv_nth)
  then have "map (cnt r) (take j (frame_order r)) = map (\<lambda>_. 0) (take j (frame_order r))" by simp
  then have zero: "matches_before r j = 0" unfolding matches_before_def by (metis sum_list_0)
  have wf: "wf_request (r\<lparr>selected_frame := Some j, selected_match_index := 0\<rparr>)"
    using selecting_a_match [OF assms(1) at(1) order_refl at(2)] .
  show ?thesis
    using first_match_from_known [OF assms(1), of 0] j wf page_index_at [OF wf] zero
    by (intro that [OF _ refl]) (simp_all add: GoToFirstMatch_def)
qed

text \<open>The steps end from any selection that names a frame, whatever index it has.\<close>

definition selection_in_range :: "find_request \<Rightarrow> bool" where
  "selection_in_range r \<longleftrightarrow> (\<forall>i. selected_frame r = Some i \<longrightarrow> i < length (frame_order r))"

lemma wf_request_in_range: "wf_request r \<Longrightarrow> wf_counts r \<and> selection_in_range r"
  by (auto simp: wf_request_def selection_ok_def selection_in_range_def split: option.splits)

lemma start_selection_in_range:
  assumes "wf_counts r" and "selection_in_range r" and "GetTotalMatchCount r \<noteq> 0"
  obtains i where "start_selection r = r\<lparr>selected_frame := Some i\<rparr>" and "i < length (frame_order r)"
proof (cases "selected_frame r")
  case None
  have "frame_order r \<noteq> []"
    using frame_with_matches [OF assms(1,3)] by (metis length_greater_0_conv less_nat_zero_code list.size(3))
  then show ?thesis using that [of 0] None by (simp add: start_selection_def)
next
  case (Some i)
  then show ?thesis using that [of i] assms(2) by (simp add: start_selection_def selection_in_range_def)
qed

definition moved :: "find_request \<Rightarrow> (bool \<times> find_request) outcome option \<Rightarrow> bool" where
  "moved r result \<longleftrightarrow> (\<exists>b t. result = Some (Inr (b, t)) \<and> wf_counts t \<and> selection_in_range t \<and>
     frame_order t = frame_order r \<and> unique_id t = unique_id r)"

lemma GoToNextMatch_returns:
  assumes "wf_counts r" and "selection_in_range r"
  shows "moved r (GoToNextMatch r)"
proof (cases "GetTotalMatchCount r = 0")
  case True
  then show ?thesis using assms by (auto simp: GoToNextMatch_def moved_def)
next
  case False
  obtain i where i: "start_selection r = r\<lparr>selected_frame := Some i\<rparr>" "i < length (frame_order r)"
    using start_selection_in_range [OF assms False] .
  let ?r = "r\<lparr>selected_frame := Some i\<rparr>"
  have c: "wf_counts ?r" using assms(1) by simp
  obtain j where "next_frame i ?r = Some (j, ?r)" "j < length (frame_order r)"
    using next_frame_total [OF c, of i] i(2) False by (auto simp: GetTotalMatchCount_def)
  moreover have "count_at (frame_order r ! i) ?r = (cnt r (frame_order r ! i), ?r)"
    using count_at_known [OF c, of "frame_order r ! i"] i(2) by simp
  ultimately show ?thesis
    using False i assms(1)
    by (cases "selected_match_index r + 1 < cnt r (frame_order r ! i)")
      (auto simp: GoToNextMatch_def moved_def selection_in_range_def Let_def)
qed

lemma GoToPreviousMatch_returns:
  assumes "wf_counts r" and "selection_in_range r"
  shows "moved r (GoToPreviousMatch r)"
proof (cases "GetTotalMatchCount r = 0")
  case True
  then show ?thesis using assms by (auto simp: GoToPreviousMatch_def moved_def)
next
  case False
  obtain i where i: "start_selection r = r\<lparr>selected_frame := Some i\<rparr>" "i < length (frame_order r)"
    using start_selection_in_range [OF assms False] .
  let ?r = "r\<lparr>selected_frame := Some i\<rparr>"
  have c: "wf_counts ?r" using assms(1) by simp
  obtain j where "previous_frame i ?r = Some (j, ?r)" and j: "j < length (frame_order r)"
    using previous_frame_total [OF c, of i] i(2) False by (auto simp: GetTotalMatchCount_def)
  moreover have "count_at (frame_order r ! j) ?r = (cnt r (frame_order r ! j), ?r)"
    using count_at_known [OF c, of "frame_order r ! j"] j by simp
  ultimately show ?thesis
    using False i j assms(1)
    by (cases "0 < selected_match_index r")
      (auto simp: GoToPreviousMatch_def moved_def selection_in_range_def Let_def)
qed

lemma RemoveFrame_in_range:
  assumes "selection_in_range r"
  shows "selection_in_range (RemoveFrame f r)"
proof (cases "selected_frame r = None \<or> IsSelectedFrame f r")
  case True
  then show ?thesis by (auto simp: selection_in_range_def RemoveFrame_def IsSelectedFrame_def Let_def)
next
  case False
  then obtain i where "selected_frame r = Some i" "frame_order r ! i \<noteq> f" by (auto simp: IsSelectedFrame_def)
  then show ?thesis
    using assms False nth_removeAll [of i "frame_order r" f]
    by (simp add: selection_in_range_def RemoveFrame_def Let_def)
qed

lemma AddFrame_in_range: "selection_in_range r \<Longrightarrow> selection_in_range (AddFrame f main r)"
  by (auto simp: selection_in_range_def AddFrame_def Let_def)

lemma frame_order_RemoveFrame [simp]: "frame_order (RemoveFrame f r) = removeAll f (frame_order r)"
  by (simp add: RemoveFrame_def Let_def)

lemma set_frame_order_AddFrame [simp]: "set (frame_order (AddFrame f main r)) = insert f (set (frame_order r))"
  by (simp add: AddFrame_def Let_def)

lemma total_SetMatchCountForFrame:
  assumes "wf_counts r" and "f \<in> set (frame_order r)"
  shows "GetTotalMatchCount (SetMatchCountForFrame n f r) = GetTotalMatchCount r - cnt r f + n"
proof -
  have "sum_list (map snd (AList.update f n xs)) = sum_list (map snd xs) - (case map_of xs f of None \<Rightarrow> 0 | Some k \<Rightarrow> k) + n"
    if "distinct (map fst xs)" for xs :: "(string \<times> int) list"
    using that by (induction xs) auto
  then show ?thesis
    using assms by (simp add: wf_counts_def GetTotalMatchCount_def SetMatchCountForFrame_def cnt_def)
qed

end
