(* ===== verification/Web_Frames_Manager.thy ===== *)
theory Web_Frames_Manager
  imports Find_In_Page_Request
begin

text \<open>
  The frames of a page, \<open>web/js_messaging/web_frames_manager_impl.{h,mm}\<close>, which scripts report by
  messages.  Of a frame the model keeps its identifier and whether it is the main frame; encryption
  keys, message counters and origins are not modelled.  \<open>frame_available\<close> and \<open>frame_unavailable\<close> are
  what the delegate does when it is told of a frame, here on a state \<open>'o\<close> of its own.

  The lemmas show that the main frame is the one frame that is marked so, and what a message with an
  empty identifier does.
\<close>

record web_frames_manager =
  web_frames :: "(string \<times> bool) list"
  main_web_frame :: "string option"

definition WebFramesManager :: web_frames_manager where
  "WebFramesManager = \<lparr>web_frames = [], main_web_frame = None\<rparr>"

text \<open>\<open>GetFrameWithId\<close> returns whether there is such a frame.\<close>

definition GetFrameWithId :: "string \<Rightarrow> web_frames_manager \<Rightarrow> bool outcome" where
  "GetFrameWithId frame_id m = dcheck (frame_id \<noteq> []) (Inr (map_of (web_frames m) frame_id \<noteq> None))"

definition GetAllWebFrames :: "web_frames_manager \<Rightarrow> string list" where
  "GetAllWebFrames m = map fst (web_frames m)"

text \<open>\<open>AddFrame\<close>; the delegate is told after the frame was added.\<close>

definition AddWebFrame ::
    "(string \<Rightarrow> bool \<Rightarrow> 'o \<Rightarrow> 'o) \<Rightarrow> string \<Rightarrow> bool \<Rightarrow> web_frames_manager \<times> 'o \<Rightarrow> (web_frames_manager \<times> 'o) outcome" where
  "AddWebFrame frame_available frame_id is_main = (\<lambda>(m, d).
     dcheck (frame_id \<noteq> [])
     (dcheck (\<not> is_main \<or> main_web_frame m = None \<or> main_web_frame m = Some frame_id)
     (let m1 = (if is_main then m\<lparr>main_web_frame := Some frame_id\<rparr> else m) in
     dcheck (map_of (web_frames m1) frame_id = None)
     (obind (Inr (m1\<lparr>web_frames := AList.update frame_id is_main (web_frames m1)\<rparr>)) (\<lambda>m2.
      obind (GetFrameWithId frame_id m2) (\<lambda>_.
      Inr (m2, frame_available frame_id is_main d)))))))"

text \<open>The delegate is told before the frame is removed.\<close>

definition RemoveFrameWithId ::
    "(string \<Rightarrow> 'o \<Rightarrow> 'o) \<Rightarrow> string \<Rightarrow> web_frames_manager \<times> 'o \<Rightarrow> (web_frames_manager \<times> 'o) outcome" where
  "RemoveFrameWithId frame_unavailable frame_id = (\<lambda>(m, d).
     dcheck (frame_id \<noteq> [])
     (dcheck (map_of (web_frames m) frame_id = Some True \<longrightarrow> main_web_frame m = Some frame_id)
     (if map_of (web_frames m) frame_id = None then Inr (m, d)
      else Inr (m\<lparr>main_web_frame := (if main_web_frame m = Some frame_id then None else main_web_frame m),
                 web_frames := AList.delete frame_id (web_frames m)\<rparr>,
               frame_unavailable frame_id d))))"

text \<open>The loop removes the first frame of the map until none is left.\<close>

fun remove_all :: "(string \<Rightarrow> 'o \<Rightarrow> 'o) \<Rightarrow> string list \<Rightarrow> web_frames_manager \<times> 'o \<Rightarrow> (web_frames_manager \<times> 'o) outcome" where
  "remove_all frame_unavailable [] p = Inr p"
| "remove_all frame_unavailable (f # fs) p =
     obind (RemoveFrameWithId frame_unavailable f p) (remove_all frame_unavailable fs)"

definition RemoveAllWebFrames ::
    "(string \<Rightarrow> 'o \<Rightarrow> 'o) \<Rightarrow> web_frames_manager \<times> 'o \<Rightarrow> (web_frames_manager \<times> 'o) outcome" where
  "RemoveAllWebFrames frame_unavailable p = remove_all frame_unavailable (map fst (web_frames (fst p))) p"

text \<open>\<open>crwFrameId\<close> is \<open>None\<close> if the body is no dictionary or has no string under this key.\<close>

record frame_message =
  crwFrameId :: "string option"
  from_main_frame :: bool

definition is_hex_digit :: "char \<Rightarrow> bool" where
  "is_hex_digit c \<longleftrightarrow> c \<in> set ''0123456789abcdefABCDEF''"

definition OnFrameBecameAvailable ::
    "(string \<Rightarrow> bool \<Rightarrow> 'o \<Rightarrow> 'o) \<Rightarrow> frame_message \<Rightarrow> web_frames_manager \<times> 'o \<Rightarrow> (web_frames_manager \<times> 'o) outcome" where
  "OnFrameBecameAvailable frame_available message p =
     (case crwFrameId message of
        None \<Rightarrow> Inr p
      | Some frame_id \<Rightarrow>
          obind (GetFrameWithId frame_id (fst p)) (\<lambda>known.
          if known \<or> \<not> list_all is_hex_digit frame_id then Inr p
          else AddWebFrame frame_available frame_id (from_main_frame message) p))"

definition OnFrameBecameUnavailable ::
    "(string \<Rightarrow> 'o \<Rightarrow> 'o) \<Rightarrow> string option \<Rightarrow> web_frames_manager \<times> 'o \<Rightarrow> (web_frames_manager \<times> 'o) outcome" where
  "OnFrameBecameUnavailable frame_unavailable body p =
     (case body of None \<Rightarrow> Inr p | Some frame_id \<Rightarrow> RemoveFrameWithId frame_unavailable frame_id p)"

section \<open>The main frame\<close>

definition wf_frames :: "web_frames_manager \<Rightarrow> bool" where
  "wf_frames m \<longleftrightarrow> distinct (map fst (web_frames m)) \<and> [] \<notin> fst ` set (web_frames m) \<and>
     (\<forall>f. (f, True) \<in> set (web_frames m) \<longleftrightarrow> main_web_frame m = Some f)"

text \<open>A message adds a frame unless it is known or malformed; a second main frame would be a fault.\<close>

definition message_ok :: "frame_message \<Rightarrow> web_frames_manager \<Rightarrow> bool" where
  "message_ok message m \<longleftrightarrow> crwFrameId message \<noteq> Some [] \<and>
     (from_main_frame message \<and> main_web_frame m \<noteq> None \<longrightarrow> crwFrameId message = main_web_frame m)"

lemma update_new_key: "f \<notin> fst ` set xs \<Longrightarrow> AList.update f v xs = xs @ [(f, v)]"
  by (induction xs) auto

lemma set_delete: "set (AList.delete f xs) = {x \<in> set xs. fst x \<noteq> f}"
  by (induction xs) auto

lemma OnFrameBecameAvailable_cases:
  assumes "wf_frames m" and "message_ok message m"
  shows "OnFrameBecameAvailable g message (m, d) = Inr (m, d) \<or>
    (\<exists>f t. crwFrameId message = Some f \<and> f \<notin> fst ` set (web_frames m) \<and>
       OnFrameBecameAvailable g message (m, d) = Inr (t, g f (from_main_frame message) d) \<and> wf_frames t \<and>
       fst ` set (web_frames t) = insert f (fst ` set (web_frames m)))"
proof (cases "crwFrameId message")
  case None
  then show ?thesis by (simp add: OnFrameBecameAvailable_def)
next
  case (Some f)
  then have f: "f \<noteq> []" using assms(2) by (auto simp: message_ok_def)
  show ?thesis
  proof (cases "f \<in> fst ` set (web_frames m) \<or> \<not> list_all is_hex_digit f")
    case True
    then show ?thesis using Some f by (auto simp: OnFrameBecameAvailable_def GetFrameWithId_def map_of_eq_None_iff)
  next
    case False
    let ?main = "from_main_frame message"
    let ?m = "(if ?main then m\<lparr>main_web_frame := Some f\<rparr> else m)"
    let ?t = "?m\<lparr>web_frames := AList.update f ?main (web_frames m)\<rparr>"
    have new: "map_of (web_frames m) f = None" using False by (simp add: map_of_eq_None_iff)
    have upd: "AList.update f v (web_frames m) = web_frames m @ [(f, v)]" for v
      using False by (simp add: update_new_key)
    have none: "main_web_frame m = None" if ?main
    proof (rule ccontr)
      assume "main_web_frame m \<noteq> None"
      then have "main_web_frame m = Some f" using that assms(2) Some by (simp add: message_ok_def)
      then have "(f, True) \<in> set (web_frames m)" using assms(1) by (simp add: wf_frames_def)
      then show False using False by force
    qed
    have "OnFrameBecameAvailable g message (m, d) = Inr (?t, g f ?main d)"
      using Some f new False none
      by (cases ?main) (simp_all add: OnFrameBecameAvailable_def GetFrameWithId_def AddWebFrame_def Let_def update_conv')
    moreover have "wf_frames ?t"
      using assms(1) f none False
      by (cases ?main) (auto simp: wf_frames_def upd image_iff)
    moreover have "fst ` set (web_frames ?t) = insert f (fst ` set (web_frames m))" by (simp add: upd)
    ultimately show ?thesis using Some False by blast
  qed
qed

lemma RemoveFrameWithId_cases:
  assumes "wf_frames m" and "f \<noteq> []"
  shows "RemoveFrameWithId g f (m, d) = Inr (m, d) \<and> f \<notin> fst ` set (web_frames m) \<or>
    (\<exists>t. f \<in> fst ` set (web_frames m) \<and> RemoveFrameWithId g f (m, d) = Inr (t, g f d) \<and> wf_frames t \<and>
       fst ` set (web_frames t) = fst ` set (web_frames m) - {f})"
proof (cases "f \<in> fst ` set (web_frames m)")
  case False
  then have "map_of (web_frames m) f = None" by (simp add: map_of_eq_None_iff)
  then show ?thesis using assms(2) False by (simp add: RemoveFrameWithId_def)
next
  case True
  have d: "distinct (map fst (web_frames m))" using assms(1) by (simp add: wf_frames_def)
  have main: "map_of (web_frames m) f = Some True \<longleftrightarrow> main_web_frame m = Some f"
    using assms(1) d by (simp add: wf_frames_def)
  have known: "map_of (web_frames m) f \<noteq> None" using True by (simp add: map_of_eq_None_iff)
  have "wf_frames (m\<lparr>main_web_frame := (if main_web_frame m = Some f then None else main_web_frame m),
      web_frames := AList.delete f (web_frames m)\<rparr>)"
    using assms(1) by (auto simp: wf_frames_def AList.distinct_delete set_delete set_delete_keys)
  then show ?thesis
    using True known main assms(2) by (auto simp: RemoveFrameWithId_def set_delete_keys)
qed

text \<open>A script may send a message with an empty identifier: no check of the handler comes before the
  \<open>DCHECK\<close> that forbids it.\<close>

lemma empty_identifier_faults:
  "OnFrameBecameAvailable g \<lparr>crwFrameId = Some [], from_main_frame = b\<rparr> p = Inl Dcheck_failed"
  by (simp add: OnFrameBecameAvailable_def GetFrameWithId_def)

end
