(* ===== verification/Find_In_Page_Manager.thy ===== *)
theory Find_In_Page_Manager
  imports Web_Frames_Manager
begin

text \<open>
  Searching in a page, \<open>web/find_in_page/find_in_page_manager_impl.{h,mm}\<close> with the JavaScript feature
  it calls.  \<open>Find\<close> calls a script in every frame and counts the answers, which come later in any
  order; a frame may answer that it is not done and be asked again; frames come and go meanwhile.

  Calls of scripts and of the delegate are recorded in \<open>find_calls\<close>; an answer of a script is an event
  (\<open>ProcessFindInPageResult\<close>, \<open>SelectDidFinish\<close>), and so is the run of the posted task.  Whether a
  script can be called in a frame is the argument \<open>can_call\<close>.  \<open>page\<close> composes the manager with the
  frames of the page: the frames manager tells it of every frame.

  The lemmas show that no sequence of events stops or hangs the manager, and that a search is reported
  once, when its last frame has answered.
\<close>

datatype find_call = JS_search string string int | JS_pump string | JS_select string int | JS_stop string
  | Did_highlight_matches int "string option" | Did_select_match int string | Posted_completion

record find_manager =
  last_find_request :: find_request
  has_find_delegate :: bool
  has_web_state :: bool
  find_calls :: "find_call list"

definition FindInPageManager :: find_manager where
  "FindInPageManager = \<lparr>last_find_request = FindInPageRequest, has_find_delegate = False, has_web_state = True,
     find_calls = []\<rparr>"

definition update_request :: "(find_request \<Rightarrow> find_request) \<Rightarrow> find_manager \<Rightarrow> find_manager" where
  "update_request f m = m\<lparr>last_find_request := f (last_find_request m)\<rparr>"

definition find_call :: "find_call \<Rightarrow> find_manager \<Rightarrow> find_manager" where
  "find_call c m = m\<lparr>find_calls := find_calls m @ [c]\<rparr>"

definition SetFindDelegate :: "bool \<Rightarrow> find_manager \<Rightarrow> find_manager" where
  "SetFindDelegate d m = m\<lparr>has_find_delegate := d\<rparr>"

text \<open>\<open>delegate_->DidHighlightMatches\<close> with the total and the query, if there is a delegate.\<close>

definition highlight_matches :: "find_manager \<Rightarrow> find_manager" where
  "highlight_matches m =
     (if has_find_delegate m
      then find_call (Did_highlight_matches (GetTotalMatchCount (last_find_request m)) (find_query (last_find_request m))) m
      else m)"

definition WebFrameDidBecomeAvailable :: "string \<Rightarrow> bool \<Rightarrow> find_manager \<Rightarrow> find_manager" where
  "WebFrameDidBecomeAvailable frame_id is_main = update_request (AddFrame frame_id is_main)"

definition WebFrameWillBecomeUnavailable :: "string \<Rightarrow> find_manager \<Rightarrow> find_manager" where
  "WebFrameWillBecomeUnavailable frame_id m =
     (let match_count = GetMatchCountForFrame frame_id (last_find_request m);
          m1 = update_request (RemoveFrame frame_id) m
      in if find_query (last_find_request m1) \<noteq> None \<and> 0 < match_count then highlight_matches m1 else m1)"

definition WebStateDestroyed :: "find_manager \<Rightarrow> find_manager outcome" where
  "WebStateDestroyed m = (if has_web_state m then Inr (m\<lparr>has_web_state := False\<rparr>) else Inl Null_dereference)"

text \<open>\<open>GetWebFrameWithId\<close> asks the frames manager of the web state.\<close>

definition GetWebFrameWithId :: "web_frames_manager \<Rightarrow> string \<Rightarrow> find_manager \<Rightarrow> bool outcome" where
  "GetWebFrameWithId frames frame_id m =
     (if frame_id = [] then Inr False
      else if has_web_state m then GetFrameWithId frame_id frames else Inl Null_dereference)"

definition SelectCurrentMatch :: "web_frames_manager \<Rightarrow> find_manager \<Rightarrow> find_manager outcome" where
  "SelectCurrentMatch frames m =
     (let r = last_find_request m in
      obind (GetWebFrameWithId frames (GetSelectedFrameId r) m) (\<lambda>frame.
      Inr (if frame then find_call (JS_select (GetSelectedFrameId r) (GetCurrentSelectedMatchFrameIndex r)) m else m)))"

definition LastFindRequestCompleted :: "web_frames_manager \<Rightarrow> find_manager \<Rightarrow> find_manager outcome" where
  "LastFindRequestCompleted frames m =
     (let m1 = highlight_matches m in
      if GetTotalMatchCount (last_find_request m1) = 0 then Inr m1
      else let (found, r) = GoToFirstMatch (last_find_request m1); m2 = m1\<lparr>last_find_request := r\<rparr>
           in if found then SelectCurrentMatch frames m2 else Inr m2)"

text \<open>The loop over the frames.  A frame whose script cannot be called has answered.\<close>

fun search_frames :: "(string \<Rightarrow> bool) \<Rightarrow> string \<Rightarrow> string list \<Rightarrow> find_manager \<Rightarrow> find_manager" where
  "search_frames can_call query [] m = m"
| "search_frames can_call query (f # fs) m =
     (if can_call f then search_frames can_call query fs (find_call (JS_search f query (unique_id (last_find_request m))) m)
      else let m1 = update_request DidReceiveFindResponseFromOneFrame m in
           search_frames can_call query fs
             (if AreAllFindResponsesReturned (last_find_request m1) then find_call Posted_completion m1 else m1))"

definition StartSearch :: "web_frames_manager \<Rightarrow> (string \<Rightarrow> bool) \<Rightarrow> string \<Rightarrow> find_manager \<Rightarrow> find_manager outcome" where
  "StartSearch frames can_call query m =
     (if \<not> has_web_state m then Inl Null_dereference
      else let all_frames = GetAllWebFrames frames;
               m1 = update_request (ResetRequest (Some query) (int (length all_frames))) m
           in if all_frames = [] then Inr (find_call Posted_completion m1)
              else Inr (search_frames can_call query all_frames m1))"

definition StopFinding :: "web_frames_manager \<Rightarrow> find_manager \<Rightarrow> find_manager outcome" where
  "StopFinding frames m =
     (let m1 = update_request (ResetRequest None 0) m in
      if \<not> has_web_state m then Inl Null_dereference
      else Inr (highlight_matches (m1\<lparr>find_calls := find_calls m1 @ map JS_stop (GetAllWebFrames frames)\<rparr>)))"

definition go :: "(find_request \<Rightarrow> (bool \<times> find_request) outcome option) \<Rightarrow> web_frames_manager \<Rightarrow> find_manager \<Rightarrow> find_manager outcome" where
  "go move frames m =
     (case move (last_find_request m) of
        None \<Rightarrow> Inl Never_returns
      | Some result \<Rightarrow>
          obind result (\<lambda>(found, r).
          if found then SelectCurrentMatch frames (m\<lparr>last_find_request := r\<rparr>) else Inr (m\<lparr>last_find_request := r\<rparr>)))"

definition SelectNextMatch :: "web_frames_manager \<Rightarrow> find_manager \<Rightarrow> find_manager outcome" where
  "SelectNextMatch = go GoToNextMatch"

definition SelectPreviousMatch :: "web_frames_manager \<Rightarrow> find_manager \<Rightarrow> find_manager outcome" where
  "SelectPreviousMatch = go GoToPreviousMatch"

datatype FindInPageOptions = FindInPageSearch | FindInPageNext | FindInPagePrevious

text \<open>\<open>content_is_html\<close> is what \<open>CanSearchContent\<close> asks the web state.\<close>

definition Find ::
    "web_frames_manager \<Rightarrow> (string \<Rightarrow> bool) \<Rightarrow> bool \<Rightarrow> string option \<Rightarrow> FindInPageOptions \<Rightarrow> find_manager \<Rightarrow> find_manager outcome" where
  "Find frames can_call content_is_html query options m =
     (if \<not> has_web_state m then Inl Null_dereference
      else dcheck content_is_html
        (case options of
           FindInPageSearch \<Rightarrow> (case query of None \<Rightarrow> Inl Dcheck_failed | Some q \<Rightarrow> StartSearch frames can_call q m)
         | FindInPageNext \<Rightarrow> SelectNextMatch frames m
         | FindInPagePrevious \<Rightarrow> SelectPreviousMatch frames m))"

definition kFindInPagePending :: int where "kFindInPagePending = -1"

text \<open>\<open>ProcessSearchResult\<close> of the feature turns what a script returns into \<open>result_matches\<close>; a value that
  is no number is \<open>None\<close>.\<close>

definition ProcessFindInPageResult ::
    "web_frames_manager \<Rightarrow> string \<Rightarrow> int \<Rightarrow> int option \<Rightarrow> find_manager \<Rightarrow> find_manager outcome" where
  "ProcessFindInPageResult frames frame_id request_id result_matches m =
     (if request_id \<noteq> unique_id (last_find_request m) \<or> \<not> has_web_state m then Inr m
      else obind (GetWebFrameWithId frames frame_id m) (\<lambda>frame.
        if frame \<and> result_matches = Some kFindInPagePending then Inr (find_call (JS_pump frame_id) m)
        else
          let n = (case result_matches of None \<Rightarrow> 0 | Some k \<Rightarrow> if frame then k else 0);
              m1 = update_request DidReceiveFindResponseFromOneFrame (update_request (SetMatchCountForFrame n frame_id) m)
          in if AreAllFindResponsesReturned (last_find_request m1) then LastFindRequestCompleted frames m1 else Inr m1))"

text \<open>The dictionary that the selecting script returns; a missing key or a value of another type is \<open>None\<close>.\<close>

record select_result =
  result_matches :: "int option"
  result_index :: "int option"
  result_context :: "string option"

definition update_match_count :: "int \<Rightarrow> find_manager \<Rightarrow> find_manager" where
  "update_match_count match_count m =
     (let (n, r) = GetMatchCountForSelectedFrame (last_find_request m); m1 = m\<lparr>last_find_request := r\<rparr> in
      if match_count \<noteq> n then highlight_matches (update_request (SetMatchCountForSelectedFrame match_count) m1) else m1)"

definition SelectDidFinish :: "select_result option \<Rightarrow> find_manager \<Rightarrow> find_manager" where
  "SelectDidFinish result m =
     (let m1 = (case result of None \<Rightarrow> m | Some d \<Rightarrow>
                  (case result_matches d of None \<Rightarrow> m | Some k \<Rightarrow> update_match_count k m));
          m2 = (case result of None \<Rightarrow> m1 | Some d \<Rightarrow>
                  (case result_index d of None \<Rightarrow> m1 | Some i \<Rightarrow> update_request (SetCurrentSelectedMatchFrameIndex i) m1));
          context_string = (case result of None \<Rightarrow> [] | Some d \<Rightarrow> (case result_context d of None \<Rightarrow> [] | Some c \<Rightarrow> c))
      in if has_find_delegate m2
         then let (index, r) = GetCurrentSelectedMatchPageIndex (last_find_request m2)
              in find_call (Did_select_match index context_string) (m2\<lparr>last_find_request := r\<rparr>)
         else m2)"

section \<open>The page\<close>

text \<open>The events of a page: messages about frames, calls of the client, and answers of scripts and tasks.\<close>

type_synonym page = "web_frames_manager \<times> find_manager"

datatype find_event = Frame_available frame_message | Frame_unavailable "string option" | Frames_removed
  | Client_find "string option" FindInPageOptions "string list" | Client_stop
  | Search_answer string int "int option" | Select_answer "select_result option" | Completion_task

fun page_step :: "page \<Rightarrow> find_event \<Rightarrow> page outcome" where
  "page_step p (Frame_available message) = OnFrameBecameAvailable WebFrameDidBecomeAvailable message p"
| "page_step p (Frame_unavailable body) = OnFrameBecameUnavailable WebFrameWillBecomeUnavailable body p"
| "page_step p Frames_removed = RemoveAllWebFrames WebFrameWillBecomeUnavailable p"
| "page_step (frames, m) (Client_find query options callable) =
     obind (Find frames (\<lambda>f. f \<in> set callable) True query options m) (\<lambda>t. Inr (frames, t))"
| "page_step (frames, m) Client_stop = obind (StopFinding frames m) (\<lambda>t. Inr (frames, t))"
| "page_step (frames, m) (Search_answer f i n) = obind (ProcessFindInPageResult frames f i n m) (\<lambda>t. Inr (frames, t))"
| "page_step (frames, m) (Select_answer d) = Inr (frames, SelectDidFinish d m)"
| "page_step (frames, m) Completion_task = obind (LastFindRequestCompleted frames m) (\<lambda>t. Inr (frames, t))"

section \<open>Nothing stops the manager\<close>

definition finder_ok :: "find_manager \<Rightarrow> bool" where
  "finder_ok m \<longleftrightarrow> has_web_state m \<and> wf_counts (last_find_request m) \<and> selection_in_range (last_find_request m)"

text \<open>The request knows the frames of the page.\<close>

definition page_inv :: "page \<Rightarrow> bool" where
  "page_inv = (\<lambda>(frames, m). wf_frames frames \<and> finder_ok m \<and>
     set (frame_order (last_find_request m)) = fst ` set (web_frames frames))"

text \<open>What scripts and clients may do: messages that the frames manager accepts, a query with a search,
  identifiers of frames and numbers of matches in the answers.\<close>

definition event_ok :: "page \<Rightarrow> find_event \<Rightarrow> bool" where
  "event_ok p e = (case e of
      Frame_available message \<Rightarrow> message_ok message (fst p)
    | Frame_unavailable body \<Rightarrow> body \<noteq> Some []
    | Client_find query options callable \<Rightarrow> (options = FindInPageSearch \<longrightarrow> query \<noteq> None)
    | Search_answer f i n \<Rightarrow> (\<forall>k. n = Some k \<longrightarrow> 0 \<le> k \<or> k = kFindInPagePending)
    | Select_answer d \<Rightarrow> (\<forall>r k. d = Some r \<and> result_matches r = Some k \<longrightarrow> 0 \<le> k)
    | _ \<Rightarrow> True)"

lemma update_request_fields [simp]:
  "last_find_request (update_request f m) = f (last_find_request m)"
  "has_find_delegate (update_request f m) = has_find_delegate m"
  "has_web_state (update_request f m) = has_web_state m"
  "find_calls (update_request f m) = find_calls m"
  by (simp_all add: update_request_def)

lemma find_call_fields [simp]:
  "last_find_request (find_call c m) = last_find_request m"
  "has_find_delegate (find_call c m) = has_find_delegate m"
  "has_web_state (find_call c m) = has_web_state m"
  "find_calls (find_call c m) = find_calls m @ [c]"
  by (simp_all add: find_call_def)

lemma highlight_matches_fields [simp]:
  "last_find_request (highlight_matches m) = last_find_request m"
  "has_find_delegate (highlight_matches m) = has_find_delegate m"
  "has_web_state (highlight_matches m) = has_web_state m"
  by (simp_all add: highlight_matches_def)

lemma in_range_fields [simp]:
  "selection_in_range (r\<lparr>frame_match_count := c\<rparr>) = selection_in_range r"
  "selection_in_range (r\<lparr>pending_frame_call_count := n\<rparr>) = selection_in_range r"
  "selection_in_range (r\<lparr>selected_match_index := k\<rparr>) = selection_in_range r"
  by (simp_all add: selection_in_range_def)

text \<open>An operation of the manager keeps \<open>finder_ok\<close> and the set of frames.\<close>

definition finds :: "find_manager \<Rightarrow> find_manager \<Rightarrow> bool" where
  "finds m t \<longleftrightarrow> finder_ok t \<and>
     set (frame_order (last_find_request t)) = set (frame_order (last_find_request m))"

lemma finds_call [simp]: "finds m (find_call c t) = finds m t"
  by (simp add: finds_def finder_ok_def)

lemma finds_highlight [simp]: "finds m (highlight_matches t) = finds m t"
  by (simp add: finds_def finder_ok_def)

lemma SelectCurrentMatch_returns:
  assumes "finder_ok m"
  shows "SelectCurrentMatch frames m = Inr m \<or>
    SelectCurrentMatch frames m = Inr (find_call (JS_select (GetSelectedFrameId (last_find_request m))
      (selected_match_index (last_find_request m))) m)"
  using assms
  by (auto simp: SelectCurrentMatch_def GetWebFrameWithId_def GetFrameWithId_def finder_ok_def Let_def
      GetCurrentSelectedMatchFrameIndex_def)

lemma SelectCurrentMatch_finds:
  assumes "finds m t"
  shows "\<exists>u. SelectCurrentMatch frames t = Inr u \<and> finds m u"
  using SelectCurrentMatch_returns [of t frames] assms by (auto simp: finds_def finder_ok_def)

lemma LastFindRequestCompleted_finds:
  assumes "finds m t"
  shows "\<exists>u. LastFindRequestCompleted frames t = Inr u \<and> finds m u"
proof (cases "GetTotalMatchCount (last_find_request t) = 0")
  case True
  then show ?thesis using assms by (simp add: LastFindRequestCompleted_def)
next
  case False
  let ?r = "last_find_request t"
  have c: "wf_counts ?r" using assms by (simp add: finds_def finder_ok_def)
  obtain j u where u: "GoToFirstMatch ?r = (True, u)" "u = ?r\<lparr>selected_frame := Some j, selected_match_index := 0\<rparr>"
    "wf_request u"
    using GoToFirstMatch_selects [OF c False] .
  have "finds m (highlight_matches t\<lparr>last_find_request := u\<rparr>)"
    using assms u(2) wf_request_in_range [OF u(3)] by (simp add: finds_def finder_ok_def)
  then show ?thesis
    using SelectCurrentMatch_finds [of m _ frames] False u(1) by (simp add: LastFindRequestCompleted_def Let_def)
qed

lemma go_finds:
  assumes "finder_ok m" and "\<And>r. wf_counts r \<Longrightarrow> selection_in_range r \<Longrightarrow> moved r (move r)"
  shows "\<exists>u. go move frames m = Inr u \<and> finds m u"
proof -
  let ?r = "last_find_request m"
  obtain b t where t: "move ?r = Some (Inr (b, t))" "wf_counts t" "selection_in_range t" "frame_order t = frame_order ?r"
    using assms(2) [of ?r] assms(1) by (auto simp: moved_def finder_ok_def)
  have "finds m (m\<lparr>last_find_request := t\<rparr>)" using assms(1) t by (simp add: finds_def finder_ok_def)
  then show ?thesis
    using SelectCurrentMatch_finds [of m _ frames] t(1) by (cases b) (simp_all add: go_def)
qed

lemma search_frames_finds:
  "finds m t \<Longrightarrow> finds m (search_frames can_call q fs t)"
proof (induction fs arbitrary: t)
  case (Cons f fs)
  have "finds m (update_request DidReceiveFindResponseFromOneFrame t)"
    using Cons.prems by (simp add: finds_def finder_ok_def DidReceiveFindResponseFromOneFrame_def)
  then show ?case using Cons by (simp add: Let_def)
qed simp

lemma reset_finds:
  assumes "finder_ok m"
  shows "finds m (update_request (ResetRequest q n) m)"
  using assms reset_is_wf [of "last_find_request m" q n] wf_request_in_range
  by (auto simp: finds_def finder_ok_def) (simp_all add: ResetRequest_def)

lemma StartSearch_finds:
  assumes "finder_ok m"
  shows "\<exists>u. StartSearch frames can_call q m = Inr u \<and> finds m u"
proof -
  have "has_web_state m" using assms by (simp add: finder_ok_def)
  then show ?thesis
    using reset_finds [OF assms] search_frames_finds by (simp add: StartSearch_def Let_def)
qed

lemma Find_finds:
  assumes "finder_ok m" and "options = FindInPageSearch \<Longrightarrow> query \<noteq> None"
  shows "\<exists>u. Find frames can_call True query options m = Inr u \<and> finds m u"
proof -
  have "has_web_state m" using assms(1) by (simp add: finder_ok_def)
  then show ?thesis
    using assms(2) StartSearch_finds [OF assms(1)] go_finds [OF assms(1) GoToNextMatch_returns]
      go_finds [OF assms(1) GoToPreviousMatch_returns]
    by (cases options) (auto simp: Find_def SelectNextMatch_def SelectPreviousMatch_def)
qed

lemma StopFinding_finds:
  assumes "finder_ok m"
  shows "\<exists>u. StopFinding frames m = Inr u \<and> finds m u"
proof -
  let ?t = "update_request (ResetRequest None 0) m"
  have "finds m (?t\<lparr>find_calls := c\<rparr>)" for c
    using reset_finds [OF assms, of None 0] by (simp add: finds_def finder_ok_def)
  then show ?thesis using assms by (simp add: StopFinding_def finder_ok_def Let_def)
qed

lemma answer_finds:
  assumes "finder_ok m" and "\<And>k. n = Some k \<Longrightarrow> 0 \<le> k \<or> k = kFindInPagePending"
    and "set (frame_order (last_find_request m)) = fst ` set (web_frames frames)"
  shows "\<exists>u. ProcessFindInPageResult frames f i n m = Inr u \<and> finds m u"
proof (cases "i \<noteq> unique_id (last_find_request m)")
  case True
  then show ?thesis using assms(1) by (simp add: ProcessFindInPageResult_def finds_def)
next
  case False
  have ws: "has_web_state m" using assms(1) by (simp add: finder_ok_def)
  let ?known = "f \<noteq> [] \<and> f \<in> fst ` set (web_frames frames)"
  have frame: "GetWebFrameWithId frames f m = Inr ?known"
    using ws by (auto simp: GetWebFrameWithId_def GetFrameWithId_def map_of_eq_None_iff)
  show ?thesis
  proof (cases "?known \<and> n = Some kFindInPagePending")
    case True
    then show ?thesis using False assms(1) ws frame by (simp add: ProcessFindInPageResult_def finds_def finder_ok_def)
  next
    case answer: False
    let ?n = "case n of None \<Rightarrow> 0 | Some k \<Rightarrow> if ?known then k else 0"
    let ?t = "update_request DidReceiveFindResponseFromOneFrame (update_request (SetMatchCountForFrame ?n f) m)"
    have "0 \<le> ?n" "f \<in> set (frame_order (last_find_request m)) \<or> ?n = 0"
      using assms(2,3) answer by (auto split: option.splits)
    then have "wf_counts (SetMatchCountForFrame ?n f (last_find_request m))"
      using SetMatchCountForFrame_wf assms(1) by (simp add: finder_ok_def)
    then have "finds m ?t"
      using assms(1) by (simp add: finds_def finder_ok_def DidReceiveFindResponseFromOneFrame_def) (simp add: SetMatchCountForFrame_def)
    then show ?thesis
      using LastFindRequestCompleted_finds [of m ?t frames] False ws frame answer
      by (auto simp: ProcessFindInPageResult_def Let_def)
  qed
qed

lemma frame_available_finds:
  assumes "finder_ok m" and "f \<notin> set (frame_order (last_find_request m))"
  shows "finder_ok (WebFrameDidBecomeAvailable f main m)"
  using assms AddFrame_counts AddFrame_in_range by (simp add: finder_ok_def WebFrameDidBecomeAvailable_def)

lemma frame_unavailable_finds:
  assumes "finder_ok m"
  shows "finder_ok (WebFrameWillBecomeUnavailable f m)"
    and "set (frame_order (last_find_request (WebFrameWillBecomeUnavailable f m))) =
      set (frame_order (last_find_request m)) - {f}"
  using assms RemoveFrame_counts RemoveFrame_in_range
  by (simp_all add: finder_ok_def WebFrameWillBecomeUnavailable_def Let_def)

lemma remove_frame_keeps:
  assumes "page_inv p" and "f \<noteq> []"
  shows "\<exists>t. RemoveFrameWithId WebFrameWillBecomeUnavailable f p = Inr t \<and> page_inv t"
proof -
  obtain frames m where p: "p = (frames, m)" by (cases p)
  then have inv: "wf_frames frames" "finder_ok m" "set (frame_order (last_find_request m)) = fst ` set (web_frames frames)"
    using assms(1) by (simp_all add: page_inv_def)
  show ?thesis
    using RemoveFrameWithId_cases [OF inv(1) assms(2), of WebFrameWillBecomeUnavailable m] p assms(1)
      frame_unavailable_finds [OF inv(2), of f] inv(3)
    by (auto simp: page_inv_def)
qed

lemma remove_all_keeps:
  "page_inv p \<Longrightarrow> [] \<notin> set fs \<Longrightarrow> \<exists>t. remove_all WebFrameWillBecomeUnavailable fs p = Inr t \<and> page_inv t"
proof (induction fs arbitrary: p)
  case (Cons f fs)
  then show ?case using remove_frame_keeps [of p f] by auto
qed simp

lemma add_frame_keeps:
  assumes "page_inv p" and "message_ok message (fst p)"
  shows "\<exists>t. OnFrameBecameAvailable WebFrameDidBecomeAvailable message p = Inr t \<and> page_inv t"
proof -
  obtain frames m where p: "p = (frames, m)" by (cases p)
  then have inv: "wf_frames frames" "finder_ok m" "set (frame_order (last_find_request m)) = fst ` set (web_frames frames)"
    using assms(1) by (simp_all add: page_inv_def)
  have "message_ok message frames" using assms(2) p by simp
  from OnFrameBecameAvailable_cases [OF inv(1) this, of WebFrameDidBecomeAvailable m]
  show ?thesis
    using p assms(1) frame_available_finds [OF inv(2)] inv(3)
    by (auto simp: page_inv_def WebFrameDidBecomeAvailable_def)
qed

lemma SelectDidFinish_finds:
  assumes "finder_ok m" and "\<And>r k. d = Some r \<Longrightarrow> result_matches r = Some k \<Longrightarrow> 0 \<le> k"
  shows "finds m (SelectDidFinish d m)"
proof -
  have c: "wf_counts (last_find_request m)" and range: "selection_in_range (last_find_request m)"
    using assms(1) by (simp_all add: finder_ok_def)
  have count: "snd (GetMatchCountForSelectedFrame (last_find_request m)) = last_find_request m"
    using c range by (auto simp: GetMatchCountForSelectedFrame_def selection_in_range_def count_at_known split: option.splits)
  have update: "finds m (update_match_count k m)" if "0 \<le> k" for k
  proof -
    have "wf_counts (SetMatchCountForSelectedFrame k (last_find_request m))"
      using c range that SetMatchCountForFrame_wf
      by (auto simp: SetMatchCountForSelectedFrame_def selection_in_range_def split: option.splits)
    moreover have "frame_order (SetMatchCountForSelectedFrame k r) = frame_order r"
      "selected_frame (SetMatchCountForSelectedFrame k r) = selected_frame r" for r
      by (simp_all add: SetMatchCountForSelectedFrame_def SetMatchCountForFrame_def split: option.split)
    ultimately show ?thesis
      using assms(1) range count
      by (auto simp: update_match_count_def case_prod_beta Let_def)
        (auto simp: finds_def finder_ok_def selection_in_range_def)
  qed
  define m1 where "m1 = (case d of None \<Rightarrow> m | Some r \<Rightarrow>
    (case result_matches r of None \<Rightarrow> m | Some k \<Rightarrow> update_match_count k m))"
  define m2 where "m2 = (case d of None \<Rightarrow> m1 | Some r \<Rightarrow>
    (case result_index r of None \<Rightarrow> m1 | Some i \<Rightarrow> update_request (SetCurrentSelectedMatchFrameIndex i) m1))"
  have "finds m m1"
    using update assms by (auto simp: m1_def finds_def split: option.split)
  then have m2: "finds m m2"
    by (auto simp: m2_def finds_def finder_ok_def SetCurrentSelectedMatchFrameIndex_def split: option.split)
  then have c2: "wf_counts (last_find_request m2)" by (simp add: finds_def finder_ok_def)
  have "set (take i (frame_order r)) \<subseteq> set (frame_order r)" for i and r :: find_request by (rule set_take_subset)
  then have "snd (GetCurrentSelectedMatchPageIndex (last_find_request m2)) = last_find_request m2"
    using add_counts_known [OF c2]
    by (auto simp: GetCurrentSelectedMatchPageIndex_def split: option.splits)
  then show ?thesis
    using m2 unfolding SelectDidFinish_def Let_def m1_def [symmetric] m2_def [symmetric] by (simp add: case_prod_beta)
qed

lemma page_step_keeps:
  assumes "page_inv p" and "event_ok p e"
  shows "\<exists>t. page_step p e = Inr t \<and> page_inv t"
proof -
  obtain frames m where p: "p = (frames, m)" by (cases p)
  then have inv: "wf_frames frames" "finder_ok m" "set (frame_order (last_find_request m)) = fst ` set (web_frames frames)"
    using assms(1) by (simp_all add: page_inv_def)
  have keep: "page_inv (frames, u)" if "finds m u" for u
    using that inv by (simp add: page_inv_def finds_def)
  show ?thesis
  proof (cases e)
    case (Frame_available message)
    then show ?thesis using add_frame_keeps [OF assms(1)] assms(2) by (simp add: event_ok_def)
  next
    case (Frame_unavailable body)
    then show ?thesis
      using remove_frame_keeps [OF assms(1)] assms
      by (cases body) (auto simp: event_ok_def OnFrameBecameUnavailable_def)
  next
    case Frames_removed
    have "[] \<notin> set (map fst (web_frames frames))" using inv(1) by (simp add: wf_frames_def)
    then show ?thesis using remove_all_keeps [OF assms(1)] Frames_removed p by (simp add: RemoveAllWebFrames_def)
  next
    case (Client_find query options callable)
    then have "options = FindInPageSearch \<Longrightarrow> query \<noteq> None" using assms(2) by (simp add: event_ok_def)
    from Find_finds [OF inv(2) this]
    obtain u where "Find frames (\<lambda>f. f \<in> set callable) True query options m = Inr u" "finds m u" by blast
    then show ?thesis using keep p Client_find by simp
  next
    case Client_stop
    obtain u where "StopFinding frames m = Inr u" "finds m u" using StopFinding_finds [OF inv(2)] by blast
    then show ?thesis using keep p Client_stop by simp
  next
    case (Search_answer f i n)
    then have "\<And>k. n = Some k \<Longrightarrow> 0 \<le> k \<or> k = kFindInPagePending" using assms(2) by (simp add: event_ok_def)
    from answer_finds [OF inv(2) this inv(3)]
    obtain u where "ProcessFindInPageResult frames f i n m = Inr u" "finds m u" by blast
    then show ?thesis using keep p Search_answer by simp
  next
    case (Select_answer d)
    then have "finds m (SelectDidFinish d m)"
      using SelectDidFinish_finds [OF inv(2)] assms(2) by (simp add: event_ok_def)
    then show ?thesis using keep p Select_answer by simp
  next
    case Completion_task
    have "finds m m" using inv(2) by (simp add: finds_def)
    then obtain u where "LastFindRequestCompleted frames m = Inr u" "finds m u"
      using LastFindRequestCompleted_finds by blast
    then show ?thesis using keep p Completion_task by simp
  qed
qed

interpretation find_page: checked_machine page_step event_ok page_inv
  by unfold_locales (rule page_step_keeps)

definition new_page :: page where
  "new_page = (WebFramesManager, FindInPageManager)"

lemma new_page_inv: "page_inv new_page"
  by (simp add: new_page_def page_inv_def WebFramesManager_def FindInPageManager_def FindInPageRequest_def wf_frames_def
      finder_ok_def wf_counts_def selection_in_range_def)



end
