(* ===== verification/Find_In_Page_Props.thy ===== *)
theory Find_In_Page_Props
  imports Find_In_Page_Manager "HOL-Library.Multiset"
begin

text \<open>
  A search from its start to its end: the frames answer in any order, each as often as it likes that it
  is not done, and the last final answer is what reports the search to the delegate.

  \<open>reports\<close> are the calls that a client or the page can notice; \<open>awaiting\<close> describes the manager while
  answers are missing, with the final answers that have come so far.
\<close>

fun is_report :: "find_call \<Rightarrow> bool" where
  "is_report (Did_highlight_matches n q) = True"
| "is_report (Did_select_match i c) = True"
| "is_report (JS_select f i) = True"
| "is_report Posted_completion = True"
| "is_report c = False"

definition reports :: "find_manager \<Rightarrow> find_call list" where
  "reports m = filter is_report (find_calls m)"

type_synonym answer = "string \<times> int option"

definition final_answers :: "answer list \<Rightarrow> answer list" where
  "final_answers = filter (\<lambda>(f, n). n \<noteq> Some kFindInPagePending)"

text \<open>A script that returned nothing usable counts as no match.\<close>

definition answer_count :: "answer \<Rightarrow> int" where
  "answer_count a = (case snd a of None \<Rightarrow> 0 | Some k \<Rightarrow> k)"

definition answers_total :: "answer list \<Rightarrow> int" where
  "answers_total xs = sum_list (map answer_count xs)"

definition answer_step :: "web_frames_manager \<Rightarrow> int \<Rightarrow> find_manager \<Rightarrow> answer \<Rightarrow> find_manager outcome" where
  "answer_step frames i m a = ProcessFindInPageResult frames (fst a) i (snd a) m"

definition known_frame :: "web_frames_manager \<Rightarrow> string \<Rightarrow> bool" where
  "known_frame frames f \<longleftrightarrow> f \<noteq> [] \<and> f \<in> fst ` set (web_frames frames)"

definition awaiting ::
    "web_frames_manager \<Rightarrow> string \<Rightarrow> nat \<Rightarrow> int \<Rightarrow> find_call list \<Rightarrow> answer list \<Rightarrow> find_manager \<Rightarrow> bool" where
  "awaiting frames q n i R received m \<longleftrightarrow>
     finder_ok m \<and> set (frame_order (last_find_request m)) = fst ` set (web_frames frames) \<and>
     has_find_delegate m \<and> find_query (last_find_request m) = Some q \<and> unique_id (last_find_request m) = i \<and>
     pending_frame_call_count (last_find_request m) = int n - int (length received) \<and> reports m = R \<and>
     GetTotalMatchCount (last_find_request m) = answers_total received \<and>
     (\<forall>f \<in> set (frame_order (last_find_request m)). f \<notin> fst ` set received \<longrightarrow> cnt (last_find_request m) f = 0)"

lemma reports_call: "reports (find_call c m) = reports m @ (if is_report c then [c] else [])"
  by (simp add: reports_def)

lemma frame_lookup: "has_web_state m \<Longrightarrow> GetWebFrameWithId frames f m = Inr (known_frame frames f)"
  by (auto simp: GetWebFrameWithId_def GetFrameWithId_def known_frame_def map_of_eq_None_iff)

lemma pending_answer:
  assumes "awaiting frames q n i R received m" and "known_frame frames f"
  shows "\<exists>t. answer_step frames i m (f, Some kFindInPagePending) = Inr t \<and> awaiting frames q n i R received t"
proof -
  have "has_web_state m" "unique_id (last_find_request m) = i"
    using assms(1) by (simp_all add: awaiting_def finder_ok_def)
  then show ?thesis
    using assms frame_lookup [of m frames f]
    by (simp add: answer_step_def ProcessFindInPageResult_def awaiting_def finder_ok_def reports_call)
qed

text \<open>The state that a final answer leads to, before the test whether it was the last one.\<close>

definition counted :: "answer \<Rightarrow> find_manager \<Rightarrow> find_manager" where
  "counted a m = update_request DidReceiveFindResponseFromOneFrame
     (update_request (SetMatchCountForFrame (answer_count a) (fst a)) m)"

lemma final_answer:
  assumes "awaiting frames q n i R received m" and "known_frame frames (fst a)"
    and "fst a \<notin> fst ` set received" and "snd a \<noteq> Some kFindInPagePending" and "0 \<le> answer_count a"
  shows "awaiting frames q n i R (received @ [a]) (counted a m)"
    and "answer_step frames i m a =
      (if n = Suc (length received) then LastFindRequestCompleted frames (counted a m) else Inr (counted a m))"
proof -
  let ?r = "last_find_request m"
  have m: "finder_ok m" "set (frame_order ?r) = fst ` set (web_frames frames)" "unique_id ?r = i"
    "pending_frame_call_count ?r = int n - int (length received)" "GetTotalMatchCount ?r = answers_total received"
    using assms(1) by (simp_all add: awaiting_def)
  have c: "wf_counts ?r" using m(1) by (simp add: finder_ok_def)
  have f: "fst a \<in> set (frame_order ?r)" using m(2) assms(2) by (simp add: known_frame_def)
  have zero: "cnt ?r (fst a) = 0" using assms(1,3) f by (simp add: awaiting_def)
  have counts: "wf_counts (SetMatchCountForFrame (answer_count a) (fst a) ?r)"
    using SetMatchCountForFrame_wf [OF c assms(5)] f by simp
  have total: "GetTotalMatchCount (SetMatchCountForFrame (answer_count a) (fst a) ?r) = answers_total received + answer_count a"
    using total_SetMatchCountForFrame [OF c f] zero m(5) by simp
  have set_fields: "frame_order (SetMatchCountForFrame k g r) = frame_order r"
    "find_query (SetMatchCountForFrame k g r) = find_query r" "unique_id (SetMatchCountForFrame k g r) = unique_id r"
    "pending_frame_call_count (SetMatchCountForFrame k g r) = pending_frame_call_count r"
    "selection_in_range (SetMatchCountForFrame k g r) = selection_in_range r" for k g r
    by (simp_all add: SetMatchCountForFrame_def)
  show "awaiting frames q n i R (received @ [a]) (counted a m)"
    using assms(1) counts total set_fields
    by (simp add: awaiting_def counted_def finder_ok_def DidReceiveFindResponseFromOneFrame_def answers_total_def
        GetTotalMatchCount_def reports_def cnt_SetMatchCountForFrame)
  have "has_web_state m" using m(1) by (simp add: finder_ok_def)
  moreover have "(case snd a of None \<Rightarrow> 0 | Some k \<Rightarrow> if known_frame frames (fst a) then k else 0) = answer_count a"
    using assms(2) by (simp add: answer_count_def split: option.split)
  moreover have "AreAllFindResponsesReturned (last_find_request (counted a m)) \<longleftrightarrow> n = Suc (length received)"
    using m(4) by (auto simp: AreAllFindResponsesReturned_def counted_def DidReceiveFindResponseFromOneFrame_def set_fields)
  ultimately show "answer_step frames i m a =
      (if n = Suc (length received) then LastFindRequestCompleted frames (counted a m) else Inr (counted a m))"
    using assms(4) m(3) frame_lookup [of m frames "fst a"]
    by (simp add: answer_step_def ProcessFindInPageResult_def counted_def Let_def)
qed

definition answer_ok :: "web_frames_manager \<Rightarrow> answer \<Rightarrow> bool" where
  "answer_ok frames a \<longleftrightarrow> known_frame frames (fst a) \<and> (\<forall>k. snd a = Some k \<longrightarrow> 0 \<le> k \<or> k = kFindInPagePending)"

text \<open>As long as an answer is missing, nothing is reported.\<close>

lemma answers_awaited:
  assumes "awaiting frames q n i R received m" and "\<forall>a \<in> set xs. answer_ok frames a"
    and "distinct (map fst (received @ final_answers xs))" and "length (received @ final_answers xs) < n"
  shows "\<exists>t. orun (answer_step frames i) m xs = Inr t \<and> awaiting frames q n i R (received @ final_answers xs) t"
  using assms
proof (induction xs arbitrary: received m)
  case Nil
  then show ?case by (simp add: final_answers_def)
next
  case (Cons a xs)
  show ?case
  proof (cases "snd a = Some kFindInPagePending")
    case True
    then have "final_answers (a # xs) = final_answers xs" by (simp add: final_answers_def case_prod_beta)
    moreover have "\<exists>t. answer_step frames i m a = Inr t \<and> awaiting frames q n i R received t"
      using pending_answer [OF Cons.prems(1), of "fst a"] Cons.prems(2) True
      by (metis answer_ok_def list.set_intros(1) prod.collapse)
    ultimately show ?thesis using Cons.IH Cons.prems by auto
  next
    case False
    then have fin: "final_answers (a # xs) = a # final_answers xs" by (simp add: final_answers_def case_prod_beta)
    have "0 \<le> answer_count a" using Cons.prems(2) False by (auto simp: answer_ok_def answer_count_def split: option.split)
    moreover have "known_frame frames (fst a)" using Cons.prems(2) by (simp add: answer_ok_def)
    moreover have "fst a \<notin> fst ` set received" using Cons.prems(3) fin by auto
    ultimately have "answer_step frames i m a = Inr (counted a m)" "awaiting frames q n i R (received @ [a]) (counted a m)"
      using final_answer [OF Cons.prems(1)] False Cons.prems(4) fin by simp_all
    then show ?thesis using Cons.IH [of "received @ [a]" "counted a m"] Cons.prems fin by simp
  qed
qed

text \<open>When the last answer has come, the total is reported, and the first match of the page is selected.\<close>

lemma completed_search:
  assumes "awaiting frames q n i R received m" and "wf_frames frames"
  shows "\<exists>t f. LastFindRequestCompleted frames m = Inr t \<and> unique_id (last_find_request t) = i \<and> has_web_state t \<and>
     reports t = R @ Did_highlight_matches (answers_total received) (Some q) #
       (if answers_total received = 0 then [] else [JS_select f 0]) \<and>
     GetTotalMatchCount (last_find_request t) = answers_total received \<and>
     (answers_total received \<noteq> 0 \<longrightarrow>
        f = GetSelectedFrameId (last_find_request t) \<and> GetCurrentSelectedMatchPageIndex (last_find_request t) = (0, last_find_request t))"
proof (cases "answers_total received = 0")
  case True
  then show ?thesis
    using assms by (auto simp: LastFindRequestCompleted_def awaiting_def finder_ok_def highlight_matches_def reports_call)
next
  case False
  let ?r = "last_find_request m"
  have m: "finder_ok m" "has_web_state m" "has_find_delegate m" "find_query ?r = Some q" "unique_id ?r = i" "reports m = R"
    "GetTotalMatchCount ?r = answers_total received" "set (frame_order ?r) = fst ` set (web_frames frames)" "wf_counts ?r"
    using assms by (simp_all add: awaiting_def finder_ok_def)
  obtain j u where u: "GoToFirstMatch ?r = (True, u)" "u = ?r\<lparr>selected_frame := Some j, selected_match_index := 0\<rparr>"
    "wf_request u" "GetCurrentSelectedMatchPageIndex u = (0, u)"
    using GoToFirstMatch_selects [OF m(9)] False m(7) by metis
  let ?m = "highlight_matches m\<lparr>last_find_request := u\<rparr>"
  have "GetSelectedFrameId u \<in> fst ` set (web_frames frames)"
    using u(2,3) m(8) nth_mem by (fastforce simp: GetSelectedFrameId_def wf_request_def selection_ok_def)
  moreover from this have "GetSelectedFrameId u \<noteq> []" using assms(2) by (metis wf_frames_def)
  ultimately have "known_frame frames (GetSelectedFrameId u)" by (simp add: known_frame_def)
  then have frame: "GetWebFrameWithId frames (GetSelectedFrameId u) ?m = Inr True"
    using frame_lookup [of ?m frames "GetSelectedFrameId u"] m(2) by simp
  have run: "LastFindRequestCompleted frames m = Inr (find_call (JS_select (GetSelectedFrameId u) 0) ?m)"
    using False m(7) u(1,2) frame
    by (simp add: LastFindRequestCompleted_def SelectCurrentMatch_def Let_def GetCurrentSelectedMatchFrameIndex_def)
  have "GetTotalMatchCount u = answers_total received" "unique_id u = i"
    using m(5,7) u(2) by (simp_all add: GetTotalMatchCount_def)
  moreover have "reports ?m = R @ [Did_highlight_matches (answers_total received) (Some q)]"
    using m(3,4,6,7) by (simp add: highlight_matches_def reports_def)
  ultimately show ?thesis
    using run m(2) u(4) False by (intro exI [of _ "find_call (JS_select (GetSelectedFrameId u) 0) ?m"]) (simp add: reports_call)
qed

lemma late_pumps:
  assumes "unique_id (last_find_request m) = i" and "has_web_state m"
    and "\<forall>a \<in> set xs. answer_ok frames a \<and> snd a = Some kFindInPagePending"
  shows "\<exists>t. orun (answer_step frames i) m xs = Inr t \<and> last_find_request t = last_find_request m \<and> reports t = reports m"
  using assms
proof (induction xs arbitrary: m)
  case (Cons a xs)
  have "answer_step frames i m a = Inr (find_call (JS_pump (fst a)) m)"
    using Cons.prems frame_lookup [of m frames "fst a"]
    by (simp add: answer_step_def ProcessFindInPageResult_def answer_ok_def)
  then show ?case using Cons.IH [of "find_call (JS_pump (fst a)) m"] Cons.prems by (simp add: reports_call)
qed simp

text \<open>The loop that starts the search.\<close>

lemma search_frames_calls:
  assumes "int (length (filter (\<lambda>f. \<not> can_call f) fs)) < pending_frame_call_count (last_find_request m)"
  shows "search_frames can_call q fs m =
    m\<lparr>last_find_request := (last_find_request m)\<lparr>pending_frame_call_count :=
         pending_frame_call_count (last_find_request m) - int (length (filter (\<lambda>f. \<not> can_call f) fs))\<rparr>,
       find_calls := find_calls m @ map (\<lambda>f. JS_search f q (unique_id (last_find_request m))) (filter can_call fs)\<rparr>"
  using assms
proof (induction fs arbitrary: m)
  case (Cons f fs)
  then show ?case
    by (cases "can_call f")
      (simp_all add: Let_def find_call_def update_request_def DidReceiveFindResponseFromOneFrame_def
        AreAllFindResponsesReturned_def algebra_simps)
qed simp

lemma StartSearch_awaits:
  assumes "page_inv (frames, m)" and "has_find_delegate m"
    and "callable = filter can_call (GetAllWebFrames frames)" and "callable \<noteq> []"
  shows "\<exists>t. StartSearch frames can_call q m = Inr t \<and>
    awaiting frames q (length callable) (unique_id (last_find_request m) + 1) (reports m) [] t"
proof -
  let ?fs = "GetAllWebFrames frames" and ?m = "update_request (ResetRequest (Some q) (int (length (GetAllWebFrames frames)))) m"
  have m: "finder_ok m" "set (frame_order (last_find_request m)) = fst ` set (web_frames frames)"
    using assms(1) by (simp_all add: page_inv_def)
  have ne: "?fs \<noteq> []" using assms(3,4) by auto
  have split: "length callable + length (filter (\<lambda>f. \<not> can_call f) ?fs) = length ?fs"
    using assms(3) sum_length_filter_compl [of can_call ?fs] by simp
  then have "int (length (filter (\<lambda>f. \<not> can_call f) ?fs)) < pending_frame_call_count (last_find_request ?m)"
    using assms(4) by (cases callable) (auto simp: ResetRequest_def)
  note calls = search_frames_calls [OF this, of q]
  let ?t = "search_frames can_call q ?fs ?m"
  have zero: "cnt (ResetRequest (Some q) k r) f = 0" for k f and r :: find_request
  proof -
    have "map_of (map (\<lambda>(g, _). (g, 0)) xs) f = Some n \<Longrightarrow> n = 0" for xs :: "(string \<times> int) list" and n :: int
      by (induction xs) (auto split: if_splits)
    then show ?thesis by (auto simp: cnt_def ResetRequest_def split: option.split)
  qed
  let ?r = "last_find_request ?t"
  have "find_query ?r = Some q" "unique_id ?r = unique_id (last_find_request m) + 1"
    "pending_frame_call_count ?r = int (length callable)" "has_find_delegate ?t = has_find_delegate m"
    using split by (simp_all add: calls ResetRequest_def)
  moreover have "cnt ?r f = 0" for f using zero by (simp add: calls)
  moreover have "finds m ?t" using search_frames_finds [OF reset_finds [OF m(1)]] by simp
  moreover have "reports ?t = reports m" by (simp add: calls reports_def filter_map comp_def)
  moreover have "GetTotalMatchCount (last_find_request ?t) = 0"
    using reset_forgets_matches [of "Some q" "int (length ?fs)" "last_find_request m"] by (simp add: calls GetTotalMatchCount_def)
  ultimately have "awaiting frames q (length callable) (unique_id (last_find_request m) + 1) (reports m) [] ?t"
    using m(2) assms(2) by (simp add: awaiting_def finds_def answers_total_def)
  moreover have "StartSearch frames can_call q m = Inr ?t"
    using ne m(1) by (simp add: StartSearch_def finder_ok_def Let_def)
  ultimately show ?thesis by blast
qed

text \<open>The last answer that counts, with only requests for more time behind it.\<close>

lemma final_answers_append: "final_answers (ys @ zs) = final_answers ys @ final_answers zs"
  by (simp add: final_answers_def)

lemma last_final_answer:
  assumes "final_answers xs \<noteq> []"
  obtains ys a zs where "xs = ys @ a # zs" and "snd a \<noteq> Some kFindInPagePending"
    and "\<forall>b \<in> set zs. snd b = Some kFindInPagePending" and "final_answers xs = final_answers ys @ [a]"
    and "final_answers (a # zs) \<noteq> []"
proof -
  obtain ys a zs where xs: "xs = ys @ a # zs" and a: "snd a \<noteq> Some kFindInPagePending"
    and zs: "\<forall>b \<in> set zs. snd b = Some kFindInPagePending"
    using assms split_list_last_prop [of xs "\<lambda>a. snd a \<noteq> Some kFindInPagePending"]
    by (auto simp: final_answers_def filter_empty_conv case_prod_beta)
  moreover have nil: "final_answers zs = []" using zs by (auto simp: final_answers_def filter_empty_conv case_prod_beta)
  moreover have "final_answers xs = final_answers ys @ [a]" "final_answers (a # zs) \<noteq> []"
    using a nil by (simp_all add: xs final_answers_def case_prod_beta)
  ultimately show ?thesis using that by blast
qed

text \<open>C23: A search is reported once, when it is complete.  Starting it calls no delegate; while an answer is
  missing nothing is reported, in whatever order the frames answer and however often they answer
  that they are not done; with the last answer the delegate is told the sum of the matches of
  all frames, and if there are any, the first match of the page is selected.\<close>
theorem search_is_reported_once:
  assumes "page_inv (frames, m)" and "has_find_delegate m"
    and "callable = filter can_call (GetAllWebFrames frames)" and "callable \<noteq> []"
    and "\<forall>a \<in> set xs. answer_ok frames a" and "mset (map fst (final_answers xs)) = mset callable"
  shows "\<exists>m1 t f. StartSearch frames can_call q m = Inr m1 \<and>
     (\<forall>ys zs. xs = ys @ zs \<and> final_answers zs \<noteq> [] \<longrightarrow>
        (\<exists>u. orun (answer_step frames (unique_id (last_find_request m1))) m1 ys = Inr u \<and> reports u = reports m)) \<and>
     orun (answer_step frames (unique_id (last_find_request m1))) m1 xs = Inr t \<and>
     reports t = reports m @ Did_highlight_matches (answers_total (final_answers xs)) (Some q) #
       (if answers_total (final_answers xs) = 0 then [] else [JS_select f 0]) \<and>
     GetTotalMatchCount (last_find_request t) = answers_total (final_answers xs) \<and>
     (answers_total (final_answers xs) \<noteq> 0 \<longrightarrow> f = GetSelectedFrameId (last_find_request t) \<and>
        GetCurrentSelectedMatchPageIndex (last_find_request t) = (0, last_find_request t))"
proof -
  let ?i = "unique_id (last_find_request m) + 1" and ?n = "length callable"
  obtain m1 where m1: "StartSearch frames can_call q m = Inr m1" "awaiting frames q ?n ?i (reports m) [] m1"
    using StartSearch_awaits [OF assms(1-4)] by blast
  have wf: "wf_frames frames" using assms(1) by (simp add: page_inv_def)
  have "distinct callable" using wf assms(3) by (simp add: wf_frames_def GetAllWebFrames_def)
  then have d: "distinct (map fst (final_answers xs))" and n: "length (final_answers xs) = ?n"
    using assms(6) mset_eq_imp_distinct_iff mset_eq_length length_map by metis+
  have before: "\<exists>u. orun (answer_step frames ?i) m1 ys = Inr u \<and> awaiting frames q ?n ?i (reports m) (final_answers ys) u"
    if "xs = ys @ zs" "final_answers zs \<noteq> []" for ys zs
  proof -
    have "length (final_answers ys) < ?n" using that n by (cases "final_answers zs") (simp_all add: final_answers_append)
    then show ?thesis using answers_awaited [OF m1(2), of ys] assms(5) d that by (auto simp: final_answers_append)
  qed
  have "final_answers xs \<noteq> []" using assms(4) n by auto
  then obtain ys a zs where xs: "xs = ys @ a # zs" and a: "snd a \<noteq> Some kFindInPagePending"
    and zs: "\<forall>b \<in> set zs. snd b = Some kFindInPagePending" and fin: "final_answers xs = final_answers ys @ [a]"
    and ne: "final_answers (a # zs) \<noteq> []" by (rule last_final_answer)
  obtain u where u: "orun (answer_step frames ?i) m1 ys = Inr u" "awaiting frames q ?n ?i (reports m) (final_answers ys) u"
    using before [OF xs ne] by blast
  have ok: "known_frame frames (fst a)" "0 \<le> answer_count a"
    using assms(5) xs a by (auto simp: answer_ok_def answer_count_def split: option.split)
  have "fst a \<notin> fst ` set (final_answers ys)" "?n = Suc (length (final_answers ys))" using d n fin by auto
  note last = final_answer [OF u(2) ok(1) this(1) a ok(2)] this(2)
  then have c: "answer_step frames ?i u a = LastFindRequestCompleted frames (counted a u)"
    "awaiting frames q ?n ?i (reports m) (final_answers xs) (counted a u)" by (simp_all add: fin)
  obtain t f where t: "LastFindRequestCompleted frames (counted a u) = Inr t" "unique_id (last_find_request t) = ?i"
    "has_web_state t" "reports t = reports m @ Did_highlight_matches (answers_total (final_answers xs)) (Some q) #
       (if answers_total (final_answers xs) = 0 then [] else [JS_select f 0])"
    "GetTotalMatchCount (last_find_request t) = answers_total (final_answers xs)"
    "answers_total (final_answers xs) \<noteq> 0 \<longrightarrow> f = GetSelectedFrameId (last_find_request t) \<and>
        GetCurrentSelectedMatchPageIndex (last_find_request t) = (0, last_find_request t)"
    using completed_search [OF c(2) wf] by blast
  obtain w where w: "orun (answer_step frames ?i) t zs = Inr w" "last_find_request w = last_find_request t" "reports w = reports t"
    using late_pumps [OF t(2,3), of zs frames] assms(5) zs xs by auto
  have run: "orun (answer_step frames ?i) m1 xs = Inr w" using u(1) c(1) t(1) w(1) by (simp add: xs orun_append)
  have "unique_id (last_find_request m1) = ?i" using m1(2) by (simp add: awaiting_def)
  moreover have "\<exists>u. orun (answer_step frames ?i) m1 ys = Inr u \<and> reports u = reports m"
    if "xs = ys @ zs" "final_answers zs \<noteq> []" for ys zs
    using before [OF that] by (auto simp: awaiting_def)
  ultimately show ?thesis
    using m1(1) run t(4-6) w(2,3) by (intro exI [of _ m1] exI [of _ w] exI [of _ f]) auto
qed

text \<open>Two frames, of which the second is asked twice; and a page that comes and goes during a search.\<close>

definition demo_frames :: web_frames_manager where
  "demo_frames = \<lparr>web_frames = [(''a1'', True), (''b2'', False)], main_web_frame = Some ''a1''\<rparr>"

definition demo_finder :: find_manager where
  "demo_finder = FindInPageManager\<lparr>has_find_delegate := True,
     last_find_request := FindInPageRequest\<lparr>frame_order := [''a1'', ''b2''],
       frame_match_count := [(''a1'', 0), (''b2'', 0)]\<rparr>\<rparr>"

theorem search_is_reported_once_witness:
  "\<exists>m1 t. StartSearch demo_frames (\<lambda>_. True) ''q'' demo_finder = Inr m1 \<and>
     orun (answer_step demo_frames (unique_id (last_find_request m1))) m1
       [(''b2'', Some kFindInPagePending), (''a1'', Some 1), (''b2'', Some 3)] = Inr t \<and>
     (\<exists>f. reports t = [Did_highlight_matches 4 (Some ''q''), JS_select f 0])"
proof -
  have inv: "page_inv (demo_frames, demo_finder)" "has_find_delegate demo_finder"
    by (auto simp: page_inv_def demo_frames_def demo_finder_def FindInPageManager_def FindInPageRequest_def wf_frames_def
        finder_ok_def wf_counts_def selection_in_range_def)
  have frames: "[''a1'', ''b2''] = filter (\<lambda>_. True) (GetAllWebFrames demo_frames)" "[''a1'', ''b2''] \<noteq> []"
    by (simp_all add: demo_frames_def GetAllWebFrames_def)
  let ?xs = "[(''b2'', Some kFindInPagePending), (''a1'', Some 1), (''b2'', Some 3)]"
  have answers: "\<forall>a \<in> set ?xs. answer_ok demo_frames a" "mset (map fst (final_answers ?xs)) = mset [''a1'', ''b2'']"
    by (simp_all add: answer_ok_def known_frame_def demo_frames_def final_answers_def kFindInPagePending_def)
  have "answers_total (final_answers ?xs) = 4" "reports demo_finder = []"
    by (simp_all add: answers_total_def answer_count_def final_answers_def kFindInPagePending_def reports_def
        demo_finder_def FindInPageManager_def)
  then show ?thesis
    using search_is_reported_once [OF inv frames answers, of "''q''"] by auto
qed

section \<open>Two answers that come too late\<close>

text \<open>The answer of the selecting script is not compared with the request it was asked for.  If the selected
  frame is gone when it comes, or a new search has begun, it sets an index although nothing is
  selected, and the delegate is told a number behind the last match of the page.\<close>

lemma late_selection_is_reported:
  assumes "wf_counts (last_find_request m)" and "selected_frame (last_find_request m) = None" and "has_find_delegate m"
    and "0 \<le> k"
  shows "find_calls (SelectDidFinish (Some \<lparr>result_matches = None, result_index = Some k, result_context = None\<rparr>) m) =
    find_calls m @ [Did_select_match (GetTotalMatchCount (last_find_request m) + k) []]"
proof -
  let ?r = "(last_find_request m)\<lparr>selected_match_index := k\<rparr>"
  have "GetCurrentSelectedMatchPageIndex ?r = (k + sum_list (map (cnt ?r) (frame_order ?r)), ?r)"
    using assms(1,2,4) add_counts_known [of ?r "frame_order ?r" k] by (simp add: GetCurrentSelectedMatchPageIndex_def)
  then show ?thesis
    using assms(3) total_is_sum_over_order [OF assms(1)]
    by (simp add: SelectDidFinish_def SetCurrentSelectedMatchFrameIndex_def matches_before_def)
qed

text \<open>The task that \<open>StartSearch\<close> posts for a page without frames does not say for which search it was posted:
  if frames come and a new search is started before it runs, it reports the new search before
  any of its frames has answered.\<close>

lemma posted_task_reports_the_next_search:
  assumes "page_inv (frames, m)" and "has_find_delegate m" and "GetAllWebFrames frames \<noteq> []"
  shows "\<exists>m1 t. StartSearch frames (\<lambda>_. True) q m = Inr m1 \<and> LastFindRequestCompleted frames m1 = Inr t \<and>
    reports t = reports m @ [Did_highlight_matches 0 (Some q)]"
proof -
  obtain m1 where m1: "StartSearch frames (\<lambda>_. True) q m = Inr m1"
    "awaiting frames q (length (GetAllWebFrames frames)) (unique_id (last_find_request m) + 1) (reports m) [] m1"
    using StartSearch_awaits [OF assms(1,2) refl, of "\<lambda>_. True"] assms(3) by auto
  moreover have "wf_frames frames" using assms(1) by (simp add: page_inv_def)
  ultimately show ?thesis using completed_search [OF m1(2)] by (auto simp: answers_total_def)
qed

end
