(* ===== verification/Omaha_Response.thy ===== *)
theory Omaha_Response
  imports Prelude
begin

text \<open>
  The parser of the answers of the update server, class \<open>ResponseParser\<close> of
  \<open>chrome/browser/omaha/omaha_service.mm\<close>.  \<open>NSXMLParser\<close> reads the XML and calls
  \<open>didStartElement\<close> for each element in the order of the text; the method walks through a row of
  flags.  \<open>omaha_ops\<close> holds what comes from outside: \<open>GURL\<close> and \<open>integerValue\<close>.

  \<open>read_response\<close> is the grammar that the comment in the source gives.  The property is that the
  parser accepts exactly the sequences of elements that the grammar reads, with the same
  content; the lemmas show as well which answer stops it at a \<open>DCHECK\<close>.
\<close>

record 'u omaha_ops =
  parse_url :: "string \<Rightarrow> 'u"
  url_is_valid :: "'u \<Rightarrow> bool"
  empty_url :: 'u
  integer_value :: "string \<Rightarrow> int"

type_synonym attributes = "string \<Rightarrow> string option"
type_synonym xml_element = "string \<times> attributes"

record 'u UpgradeRecommendedDetails =
  is_up_to_date :: bool
  upgrade_url :: 'u
  next_version :: string

definition new_details :: "'u omaha_ops \<Rightarrow> bool \<Rightarrow> 'u UpgradeRecommendedDetails" where
  "new_details P up_to_date = \<lparr>is_up_to_date = up_to_date, upgrade_url = empty_url P, next_version = []\<rparr>"

text \<open>\<open>up_to_date_key\<close> is what the parser has stored in the user defaults under \<open>kIOSChromeUpToDateKey\<close>.\<close>

record 'u response_parser =
  has_error :: bool
  response_is_parsed :: bool
  day_start_is_parsed :: bool
  app_is_parsed :: bool
  update_check_is_parsed :: bool
  event_is_parsed :: bool
  url_is_parsed :: bool
  manifest_is_parsed :: bool
  ping_is_parsed :: bool
  server_date :: int
  update_information :: "'u UpgradeRecommendedDetails option"
  up_to_date_key :: "bool option"

definition ResponseParser :: "'u response_parser" where
  "ResponseParser = \<lparr>has_error = False, response_is_parsed = False, day_start_is_parsed = False, app_is_parsed = False,
     update_check_is_parsed = False, event_is_parsed = False, url_is_parsed = False, manifest_is_parsed = False,
     ping_is_parsed = False, server_date = 0, update_information = None, up_to_date_key = None\<rparr>"

definition isCorrect :: "'u response_parser \<Rightarrow> bool" where
  "isCorrect p \<longleftrightarrow> \<not> has_error p \<and> (ping_is_parsed p \<or> event_is_parsed p)"

definition ignored_tag_names :: "string set" where
  "ignored_tag_names = {''action'', ''actions'', ''package'', ''packages'', ''urls''}"

text \<open>\<open>isEqualToString:\<close> of a missing attribute is \<open>NO\<close>, and its \<open>length\<close> and \<open>integerValue\<close> are 0.\<close>

definition is_response :: "xml_element \<Rightarrow> bool" where
  "is_response e \<longleftrightarrow> fst e = ''response'' \<and> snd e ''protocol'' = Some ''3.0'' \<and> snd e ''server'' = Some ''prod''"

definition is_app :: "string \<Rightarrow> xml_element \<Rightarrow> bool" where
  "is_app app_id e \<longleftrightarrow> fst e = ''app'' \<and> snd e ''status'' = Some ''ok'' \<and> snd e ''appid'' = Some app_id"

definition has_codebase :: "xml_element \<Rightarrow> bool" where
  "has_codebase e \<longleftrightarrow> fst e = ''url'' \<and> snd e ''codebase'' \<noteq> None \<and> snd e ''codebase'' \<noteq> Some []"

definition is_ok :: "string \<Rightarrow> xml_element \<Rightarrow> bool" where
  "is_ok name e \<longleftrightarrow> fst e = name \<and> snd e ''status'' = Some ''ok''"

definition elapsed_days :: "'u omaha_ops \<Rightarrow> xml_element \<Rightarrow> int" where
  "elapsed_days P e = (case snd e ''elapsed_days'' of None \<Rightarrow> 0 | Some d \<Rightarrow> integer_value P d)"

text \<open>The URL without a slash at its end.\<close>

definition codebase_url :: "'u omaha_ops \<Rightarrow> xml_element \<Rightarrow> 'u" where
  "codebase_url P e =
     (let url = the (snd e ''codebase'') in parse_url P (if last url = CHR ''/'' then butlast url else url))"

definition parse_update_check :: "'u omaha_ops \<Rightarrow> xml_element \<Rightarrow> 'u response_parser \<Rightarrow> 'u response_parser" where
  "parse_update_check P e p =
     (let q = p\<lparr>update_check_is_parsed := True\<rparr>; status = snd e ''status'' in
      if status = Some ''noupdate''
      then q\<lparr>url_is_parsed := True, manifest_is_parsed := True, update_information := Some (new_details P True),
             up_to_date_key := Some True\<rparr>
      else if status = Some ''ok''
      then q\<lparr>update_information := Some (new_details P False), up_to_date_key := Some False\<rparr>
      else q\<lparr>update_information := None, has_error := True\<rparr>)"

definition parse_url_element :: "'u omaha_ops \<Rightarrow> xml_element \<Rightarrow> 'u response_parser \<Rightarrow> 'u response_parser outcome" where
  "parse_url_element P e p =
     (let q = p\<lparr>url_is_parsed := True\<rparr> in
      case update_information q of
        None \<Rightarrow> Inl Dcheck_failed
      | Some info \<Rightarrow>
          Inr (q\<lparr>update_information := Some (info\<lparr>upgrade_url := codebase_url P e\<rparr>),
                 has_error := \<not> url_is_valid P (codebase_url P e)\<rparr>))"

definition parse_manifest :: "string \<Rightarrow> 'u response_parser \<Rightarrow> 'u response_parser outcome" where
  "parse_manifest version p =
     (let q = p\<lparr>manifest_is_parsed := True\<rparr> in
      case update_information q of
        None \<Rightarrow> Inl Dcheck_failed
      | Some info \<Rightarrow> Inr (q\<lparr>update_information := Some (info\<lparr>next_version := version\<rparr>)\<rparr>))"

definition didStartElement ::
    "'u omaha_ops \<Rightarrow> string \<Rightarrow> 'u response_parser \<Rightarrow> xml_element \<Rightarrow> 'u response_parser outcome" where
  "didStartElement P app_id p e =
     (let err = Inr (p\<lparr>has_error := True\<rparr>) in
      if has_error p \<or> fst e \<in> ignored_tag_names then Inr p
      else if \<not> response_is_parsed p then
        (if is_response e then Inr (p\<lparr>response_is_parsed := True\<rparr>) else err)
      else if \<not> day_start_is_parsed p then
        (if fst e = ''daystart'' then Inr (p\<lparr>day_start_is_parsed := True, server_date := elapsed_days P e\<rparr>) else err)
      else if \<not> app_is_parsed p then
        (if is_app app_id e then Inr (p\<lparr>app_is_parsed := True\<rparr>) else err)
      else if \<not> event_is_parsed p \<and> \<not> update_check_is_parsed p then
        (if fst e = ''updatecheck'' then Inr (parse_update_check P e p)
         else if is_ok ''event'' e then Inr (p\<lparr>event_is_parsed := True\<rparr>)
         else err)
      else if \<not> url_is_parsed p then
        (if has_codebase e then parse_url_element P e p else err)
      else if \<not> manifest_is_parsed p then
        (if fst e = ''manifest'' then (case snd e ''version'' of None \<Rightarrow> err | Some version \<Rightarrow> parse_manifest version p)
         else err)
      else if \<not> ping_is_parsed p then
        (if is_ok ''ping'' e then Inr (p\<lparr>ping_is_parsed := True\<rparr>) else err)
      else err)"

text \<open>\<open>[parser parse]\<close> with the parser as its delegate.\<close>

definition parse_elements :: "'u omaha_ops \<Rightarrow> string \<Rightarrow> xml_element list \<Rightarrow> 'u response_parser outcome" where
  "parse_elements P app_id es = orun (didStartElement P app_id) ResponseParser es"

section \<open>The grammar\<close>

text \<open>What follows the \<open>app\<close> element: the acknowledgement of an event, or of a ping with the result of the
  check for an update.\<close>

fun read_app :: "'u omaha_ops \<Rightarrow> xml_element list \<Rightarrow> 'u UpgradeRecommendedDetails option option" where
  "read_app P [e] = (if is_ok ''event'' e then Some None else None)"
| "read_app P [c, g] =
     (if fst c = ''updatecheck'' \<and> snd c ''status'' = Some ''noupdate'' \<and> is_ok ''ping'' g
      then Some (Some (new_details P True)) else None)"
| "read_app P [c, u, m, g] =
     (if is_ok ''updatecheck'' c \<and> has_codebase u \<and> url_is_valid P (codebase_url P u) \<and>
         fst m = ''manifest'' \<and> snd m ''version'' \<noteq> None \<and> is_ok ''ping'' g
      then Some (Some \<lparr>is_up_to_date = False, upgrade_url = codebase_url P u, next_version = the (snd m ''version'')\<rparr>)
      else None)"
| "read_app P _ = None"

fun read_response ::
    "'u omaha_ops \<Rightarrow> string \<Rightarrow> xml_element list \<Rightarrow> (int \<times> 'u UpgradeRecommendedDetails option) option" where
  "read_response P app_id (r # d # a # es) =
     (if is_response r \<and> fst d = ''daystart'' \<and> is_app app_id a
      then map_option (\<lambda>info. (elapsed_days P d, info)) (read_app P es) else None)"
| "read_response P app_id _ = None"

definition significant :: "xml_element list \<Rightarrow> xml_element list" where
  "significant = filter (\<lambda>e. fst e \<notin> ignored_tag_names)"

text \<open>What a caller gets to see of the parser.\<close>

definition understood :: "'u response_parser outcome \<Rightarrow> (int \<times> 'u UpgradeRecommendedDetails option) option" where
  "understood r = (case r of Inl _ \<Rightarrow> None
     | Inr p \<Rightarrow> if isCorrect p then Some (server_date p, update_information p) else None)"

section \<open>The parser reads the grammar\<close>

lemma ignored_elements: "orun (didStartElement P app_id) p es = orun (didStartElement P app_id) p (significant es)"
  by (induction es arbitrary: p) (auto simp: significant_def didStartElement_def Let_def)

lemma error_step: "has_error p \<Longrightarrow> didStartElement P app_id p e = Inr p"
  by (simp add: didStartElement_def)

lemma after_an_error: "has_error p \<Longrightarrow> orun (didStartElement P app_id) p es = Inr p"
  by (induction es) (simp_all add: didStartElement_def)

lemma not_understood_after_an_error: "has_error p \<Longrightarrow> understood (orun (didStartElement P app_id) p es) = None"
  by (simp add: after_an_error understood_def isCorrect_def)

text \<open>A parser in the middle of an answer: its flags \<open>k\<close> are set up to the stage.\<close>

definition at_app :: "int \<Rightarrow> 'u response_parser" where
  "at_app date = ResponseParser\<lparr>response_is_parsed := True, day_start_is_parsed := True, server_date := date,
     app_is_parsed := True\<rparr>"

definition plain :: "xml_element \<Rightarrow> bool" where
  "plain e \<longleftrightarrow> fst e \<notin> ignored_tag_names"

lemma last_stage:
  assumes "\<forall>e \<in> set es. plain e" and "\<not> has_error p" and "response_is_parsed p" and "day_start_is_parsed p" and "app_is_parsed p"
    and "update_check_is_parsed p" and "url_is_parsed p" and "manifest_is_parsed p" and "\<not> ping_is_parsed p"
    and "\<not> event_is_parsed p"
  shows "understood (orun (didStartElement P app_id) p es) =
    (case es of [g] \<Rightarrow> if is_ok ''ping'' g then Some (server_date p, update_information p) else None | _ \<Rightarrow> None)"
proof (cases es)
  case Nil
  then show ?thesis using assms by (simp add: understood_def isCorrect_def)
next
  case (Cons g rest)
  then show ?thesis
    using assms
    by (cases rest) (auto simp: didStartElement_def plain_def after_an_error understood_def isCorrect_def)
qed

lemma manifest_stage:
  assumes "\<forall>e \<in> set es. plain e" and "\<not> has_error p" and "response_is_parsed p" and "day_start_is_parsed p" and "app_is_parsed p"
    and "update_check_is_parsed p" and "url_is_parsed p" and "\<not> manifest_is_parsed p" and "\<not> ping_is_parsed p"
    and "\<not> event_is_parsed p" and "update_information p = Some info"
  shows "understood (orun (didStartElement P app_id) p es) =
    (case es of [m, g] \<Rightarrow> if fst m = ''manifest'' \<and> snd m ''version'' \<noteq> None \<and> is_ok ''ping'' g
        then Some (server_date p, Some (info\<lparr>next_version := the (snd m ''version'')\<rparr>)) else None | _ \<Rightarrow> None)"
proof (cases es)
  case Nil
  then show ?thesis using assms by (simp add: understood_def isCorrect_def)
next
  case (Cons m rest)
  show ?thesis
  proof (cases "fst m = ''manifest'' \<and> snd m ''version'' \<noteq> None")
    case True
    let ?q = "p\<lparr>manifest_is_parsed := True, update_information := Some (info\<lparr>next_version := the (snd m ''version'')\<rparr>)\<rparr>"
    have "didStartElement P app_id p m = Inr ?q"
      using assms True Cons by (auto simp: didStartElement_def plain_def parse_manifest_def)
    then show ?thesis
      using last_stage [of rest ?q P app_id] assms True Cons by (simp split: list.split)
  next
    case False
    then have "didStartElement P app_id p m = Inr (p\<lparr>has_error := True\<rparr>)"
      using assms Cons by (auto simp: didStartElement_def plain_def Let_def)
    then show ?thesis using False Cons by (auto simp: not_understood_after_an_error split: list.split)
  qed
qed

lemma url_stage:
  assumes "\<forall>e \<in> set es. plain e" and "\<not> has_error p" and "response_is_parsed p" and "day_start_is_parsed p" and "app_is_parsed p"
    and "update_check_is_parsed p" and "\<not> url_is_parsed p" and "\<not> manifest_is_parsed p" and "\<not> ping_is_parsed p"
    and "\<not> event_is_parsed p" and "update_information p = Some info"
  shows "understood (orun (didStartElement P app_id) p es) =
    (case es of [u, m, g] \<Rightarrow>
        if has_codebase u \<and> url_is_valid P (codebase_url P u) \<and> fst m = ''manifest'' \<and> snd m ''version'' \<noteq> None \<and> is_ok ''ping'' g
        then Some (server_date p, Some (info\<lparr>upgrade_url := codebase_url P u, next_version := the (snd m ''version'')\<rparr>))
        else None | _ \<Rightarrow> None)"
proof (cases es)
  case Nil
  then show ?thesis using assms by (simp add: understood_def isCorrect_def)
next
  case (Cons u rest)
  show ?thesis
  proof (cases "has_codebase u")
    case True
    let ?q = "p\<lparr>url_is_parsed := True, update_information := Some (info\<lparr>upgrade_url := codebase_url P u\<rparr>),
                has_error := \<not> url_is_valid P (codebase_url P u)\<rparr>"
    have step: "didStartElement P app_id p u = Inr ?q"
      using assms True Cons by (simp add: didStartElement_def plain_def parse_url_element_def)
    show ?thesis
    proof (cases "url_is_valid P (codebase_url P u)")
      case valid: True
      then show ?thesis
        using manifest_stage [of rest ?q "info\<lparr>upgrade_url := codebase_url P u\<rparr>" P app_id] assms True Cons step
        by (auto split: list.split)
    next
      case False
      then show ?thesis using Cons step by (auto simp: not_understood_after_an_error split: list.split)
    qed
  next
    case False
    then have "didStartElement P app_id p u = Inr (p\<lparr>has_error := True\<rparr>)"
      using assms Cons by (simp add: didStartElement_def plain_def Let_def)
    then show ?thesis using False Cons by (auto simp: not_understood_after_an_error split: list.split)
  qed
qed

text \<open>After the acknowledgement of an event nothing may follow; a \<open>url\<close> element even fails a \<open>DCHECK\<close>.\<close>

lemma event_stage:
  assumes "\<forall>e \<in> set es. plain e" and "\<not> has_error p" and "response_is_parsed p" and "day_start_is_parsed p" and "app_is_parsed p"
    and "event_is_parsed p" and "\<not> url_is_parsed p" and "update_information p = None"
  shows "understood (orun (didStartElement P app_id) p es) = (if es = [] then Some (server_date p, None) else None)"
proof (cases es)
  case Nil
  then show ?thesis using assms by (simp add: understood_def isCorrect_def)
next
  case (Cons u rest)
  then have "didStartElement P app_id p u =
      (if has_codebase u then Inl Dcheck_failed else Inr (p\<lparr>has_error := True\<rparr>))"
    using assms by (simp add: didStartElement_def plain_def parse_url_element_def Let_def)
  then show ?thesis using Cons not_understood_after_an_error [of "p\<lparr>has_error := True\<rparr>" P app_id rest]
    by (simp add: understood_def)
qed

text \<open>The three readings of the last part, by its first element.\<close>

lemma read_app_cases:
  "read_app P (c # es) = (case es of
      [] \<Rightarrow> if is_ok ''event'' c then Some None else None
    | [g] \<Rightarrow> if fst c = ''updatecheck'' \<and> snd c ''status'' = Some ''noupdate'' \<and> is_ok ''ping'' g
            then Some (Some (new_details P True)) else None
    | [u, m, g] \<Rightarrow> if is_ok ''updatecheck'' c \<and> has_codebase u \<and> url_is_valid P (codebase_url P u) \<and>
                    fst m = ''manifest'' \<and> snd m ''version'' \<noteq> None \<and> is_ok ''ping'' g
                  then Some (Some \<lparr>is_up_to_date = False, upgrade_url = codebase_url P u, next_version = the (snd m ''version'')\<rparr>)
                  else None
    | _ \<Rightarrow> None)"
proof (cases es)
  case (Cons a as)
  then show ?thesis
  proof (cases as)
    case rest: (Cons b bs)
    then show ?thesis using Cons by (cases bs) (auto split: list.split)
  qed auto
qed simp

lemma read_app_event:
  assumes "is_ok ''event'' c"
  shows "read_app P (c # es) = (if es = [] then Some None else None)"
proof -
  have "fst c \<noteq> ''updatecheck''" "\<not> is_ok ''updatecheck'' c" using assms by (simp_all add: is_ok_def)
  then show ?thesis using assms by (simp add: read_app_cases split: list.split)
qed

lemma read_app_other:
  assumes "\<not> is_ok ''event'' c" and "fst c \<noteq> ''updatecheck'' \<or> snd c ''status'' \<noteq> Some ''noupdate'' \<and> snd c ''status'' \<noteq> Some ''ok''"
  shows "read_app P (c # es) = None"
proof -
  have "\<not> is_ok ''updatecheck'' c" using assms(2) by (auto simp: is_ok_def)
  then show ?thesis using assms by (auto simp: read_app_cases split: list.split)
qed

lemma read_app_noupdate:
  assumes "fst c = ''updatecheck''" and "snd c ''status'' = Some ''noupdate''"
  shows "read_app P (c # es) =
    (case es of [g] \<Rightarrow> if is_ok ''ping'' g then Some (Some (new_details P True)) else None | _ \<Rightarrow> None)"
proof -
  have "\<not> is_ok ''event'' c" "\<not> is_ok ''updatecheck'' c" using assms by (simp_all add: is_ok_def)
  then show ?thesis using assms by (simp add: read_app_cases split: list.split)
qed

lemma read_app_update:
  assumes "fst c = ''updatecheck''" and "snd c ''status'' = Some ''ok''"
  shows "read_app P (c # es) = (case es of [u, m, g] \<Rightarrow>
          if has_codebase u \<and> url_is_valid P (codebase_url P u) \<and> fst m = ''manifest'' \<and> snd m ''version'' \<noteq> None \<and> is_ok ''ping'' g
          then Some (Some (new_details P False\<lparr>upgrade_url := codebase_url P u, next_version := the (snd m ''version'')\<rparr>))
          else None | _ \<Rightarrow> None)"
proof -
  have "\<not> is_ok ''event'' c" "is_ok ''updatecheck'' c" using assms by (simp_all add: is_ok_def)
  then show ?thesis using assms by (auto simp: read_app_cases new_details_def split: list.split)
qed

lemma app_step:
  assumes "plain c" and "\<not> has_error p" and "response_is_parsed p" and "day_start_is_parsed p" and "app_is_parsed p"
    and "\<not> event_is_parsed p" and "\<not> update_check_is_parsed p"
  shows "didStartElement P app_id p c =
    Inr (if fst c = ''updatecheck'' then parse_update_check P c p
         else if is_ok ''event'' c then p\<lparr>event_is_parsed := True\<rparr> else p\<lparr>has_error := True\<rparr>)"
  using assms by (simp add: didStartElement_def plain_def)

lemma app_stage:
  assumes "\<forall>e \<in> set es. plain e"
  shows "understood (orun (didStartElement P app_id) (at_app date) es) = map_option (\<lambda>info. (date, info)) (read_app P es)"
proof (cases es)
  case Nil
  then show ?thesis by (simp add: at_app_def ResponseParser_def understood_def isCorrect_def)
next
  case (Cons c rest)
  have c: "plain c" and rest: "\<forall>e \<in> set rest. plain e" using assms Cons by simp_all
  have flags: "response_is_parsed (at_app date)" "day_start_is_parsed (at_app date)" "app_is_parsed (at_app date)"
    "\<not> has_error (at_app date)" "\<not> event_is_parsed (at_app date)" "\<not> update_check_is_parsed (at_app date)"
    "\<not> url_is_parsed (at_app date)" "\<not> manifest_is_parsed (at_app date)" "\<not> ping_is_parsed (at_app date)"
    "update_information (at_app date) = None" "server_date (at_app date) = date"
    by (simp_all add: at_app_def ResponseParser_def)
  consider (check) "fst c = ''updatecheck''" | (event) "is_ok ''event'' c" "fst c \<noteq> ''updatecheck''"
    | (other) "fst c \<noteq> ''updatecheck''" "\<not> is_ok ''event'' c" by blast
  then show ?thesis
  proof cases
    case event
    then have "read_app P (c # rest) = (if rest = [] then Some None else None)" by (simp add: read_app_event)
    moreover have "didStartElement P app_id (at_app date) c = Inr (at_app date\<lparr>event_is_parsed := True\<rparr>)"
      by (simp add: app_step [OF c] flags event)
    moreover have "understood (orun (didStartElement P app_id) (at_app date\<lparr>event_is_parsed := True\<rparr>) rest) =
        (if rest = [] then Some (date, None) else None)"
      by (subst event_stage [OF rest]) (simp_all add: flags)
    ultimately show ?thesis unfolding Cons by simp
  next
    case other
    have "didStartElement P app_id (at_app date) c = Inr (at_app date\<lparr>has_error := True\<rparr>)"
      by (simp add: app_step [OF c] flags other)
    then show ?thesis using Cons read_app_other [of c] other by (simp add: not_understood_after_an_error)
  next
    case check
    let ?q = "parse_update_check P c (at_app date)"
    have step: "didStartElement P app_id (at_app date) c = Inr ?q"
      by (simp add: app_step [OF c] flags check)
    have no_event: "\<not> is_ok ''event'' c" using check by (simp add: is_ok_def)
    consider (none) "snd c ''status'' = Some ''noupdate''" | (some) "snd c ''status'' = Some ''ok''"
      | (neither) "snd c ''status'' \<noteq> Some ''noupdate''" "snd c ''status'' \<noteq> Some ''ok''" by blast
    then show ?thesis
    proof cases
      case none
      have q: "?q = at_app date\<lparr>update_check_is_parsed := True, url_is_parsed := True, manifest_is_parsed := True,
          update_information := Some (new_details P True), up_to_date_key := Some True\<rparr>"
        using none by (simp add: parse_update_check_def Let_def)
      have "understood (orun (didStartElement P app_id) ?q rest) =
          (case rest of [g] \<Rightarrow> if is_ok ''ping'' g then Some (date, Some (new_details P True)) else None | _ \<Rightarrow> None)"
        unfolding q by (subst last_stage [OF rest]) (simp_all add: flags split: list.split)
      then show ?thesis
        unfolding Cons read_app_noupdate [OF check none] by (simp add: step split: list.split)
    next
      case some
      have q: "?q = at_app date\<lparr>update_check_is_parsed := True, update_information := Some (new_details P False),
          up_to_date_key := Some False\<rparr>"
        using some by (simp add: parse_update_check_def Let_def)
      have "understood (orun (didStartElement P app_id) ?q rest) = (case rest of [u, m, g] \<Rightarrow>
          if has_codebase u \<and> url_is_valid P (codebase_url P u) \<and> fst m = ''manifest'' \<and> snd m ''version'' \<noteq> None \<and> is_ok ''ping'' g
          then Some (date, Some (new_details P False\<lparr>upgrade_url := codebase_url P u, next_version := the (snd m ''version'')\<rparr>))
          else None | _ \<Rightarrow> None)"
        unfolding q
        by (subst url_stage [OF rest, where info = "new_details P False"]) (auto simp: flags split: list.split)
      then show ?thesis
        unfolding Cons read_app_update [OF check some] by (auto simp: step split: list.split)
    next
      case neither
      then have "read_app P (c # rest) = None" using no_event by (simp add: read_app_other)
      moreover have "has_error ?q" using neither by (simp add: parse_update_check_def Let_def)
      ultimately show ?thesis using Cons step by (simp add: not_understood_after_an_error)
    qed
  qed
qed

text \<open>The three elements before that part, one after the other.\<close>

lemma first_steps:
  "plain e \<Longrightarrow> didStartElement P app_id ResponseParser e =
     Inr (if is_response e then ResponseParser\<lparr>response_is_parsed := True\<rparr> else ResponseParser\<lparr>has_error := True\<rparr>)"
  "plain e \<Longrightarrow> didStartElement P app_id (ResponseParser\<lparr>response_is_parsed := True\<rparr>) e =
     Inr (if fst e = ''daystart''
          then ResponseParser\<lparr>response_is_parsed := True, day_start_is_parsed := True, server_date := elapsed_days P e\<rparr>
          else ResponseParser\<lparr>response_is_parsed := True, has_error := True\<rparr>)"
  "plain e \<Longrightarrow> didStartElement P app_id
       (ResponseParser\<lparr>response_is_parsed := True, day_start_is_parsed := True, server_date := date\<rparr>) e =
     Inr (if is_app app_id e then at_app date
          else ResponseParser\<lparr>response_is_parsed := True, day_start_is_parsed := True, server_date := date, has_error := True\<rparr>)"
  by (simp_all add: didStartElement_def plain_def ResponseParser_def at_app_def)

lemma not_yet_understood:
  "has_error p \<Longrightarrow> understood (Inr p) = None"
  "understood (Inr ResponseParser) = None" "understood (Inr (ResponseParser\<lparr>response_is_parsed := True\<rparr>)) = None"
  "understood (Inr (ResponseParser\<lparr>response_is_parsed := True, day_start_is_parsed := True, server_date := date\<rparr>)) = None"
  by (simp_all add: understood_def isCorrect_def ResponseParser_def)

lemma first_elements:
  assumes "\<forall>e \<in> set es. plain e"
  shows "understood (orun (didStartElement P app_id) ResponseParser es) = read_response P app_id es"
proof -
  consider "es = []" | r where "es = [r]" | r d where "es = [r, d]" | r d a es' where "es = r # d # a # es'"
    by (metis list.exhaust)
  then show ?thesis
  proof cases
    case (4 r d a es')
    then have plain: "plain r" "plain d" "plain a" "\<forall>e \<in> set es'. plain e" using assms by simp_all
    show ?thesis
      unfolding 4
      by (simp add: first_steps plain error_step not_understood_after_an_error app_stage [OF plain(4)])
  qed (use assms in \<open>simp_all add: first_steps not_yet_understood error_step not_understood_after_an_error\<close>)
qed

text \<open>C25: the parser of the update server's answers, which keeps its place in nine flags, accepts exactly the
  answers of the grammar given in its comment, whatever elements it ignores stand between: what it then
  reports (the date of the server, and for a ping the upgrade with its version and its URL without the
  last slash, or none for the acknowledgement of an event) is what the grammar reads.  Any other answer,
  a truncated or a prolonged one included, gives no result.\<close>
theorem update_answer_is_read_by_its_grammar:
  "understood (parse_elements P app_id es) = read_response P app_id (significant es)"
  unfolding parse_elements_def
  by (subst ignored_elements) (rule first_elements, simp add: significant_def plain_def)

text \<open>The answer on which the parser stops: the \<open>url\<close> of an upgrade after the acknowledgement of an event.\<close>

theorem url_after_an_event_fails_the_check:
  assumes "is_response r" and "fst d = ''daystart''" and "is_app app_id a" and "is_ok ''event'' e" and "has_codebase u"
  shows "parse_elements P app_id ([r, d, a, e, u] @ es) = Inl Dcheck_failed"
  using assms unfolding parse_elements_def
  by (simp add: didStartElement_def ignored_tag_names_def is_response_def is_app_def is_ok_def has_codebase_def
      ResponseParser_def parse_url_element_def Let_def)

end
