(* ===== verification/Omaha_Ping.thy ===== *)
theory Omaha_Ping
  imports Prelude "HOL-Library.Signed_Division"
begin

text \<open>
  The message of a ping to the update server, \<open>GetPingContent\<close> of
  \<open>chrome/browser/omaha/omaha_service.mm\<close>, as the sequence of calls it makes on the XML writer.
  \<open>omaha_platform\<close> holds what is asked of the device, of the embedder's provider and of \<open>base\<close>.
  The theorem says that the calls write out one well nested document.
\<close>

datatype PingContent = INSTALL_EVENT | USAGE_PING

datatype xml_call = StartElement string | EndElement | WriteAttribute string string

text \<open>\<open>extra_attributes\<close> is what the provider adds to an element; \<open>decimal\<close> is the format \<open>%d\<close>.\<close>

record 'v omaha_platform =
  omaha_is_enabled :: bool
  update_server_url_is_valid :: bool
  version_string :: "'v \<Rightarrow> string"
  kDefaultLastSentVersion :: 'v
  channel_string :: string
  platform_name :: string
  operating_system_version :: string
  kCurrentArch :: string
  brand_code :: string
  application_id :: string
  extra_attributes :: "string \<Rightarrow> (string \<times> string) list"
  decimal :: "int \<Rightarrow> string"
  from_time_t :: "int \<Rightarrow> int"
  to_time_t :: "int \<Rightarrow> int"

definition AppendExtraAttributes :: "'v omaha_platform \<Rightarrow> string \<Rightarrow> xml_call list" where
  "AppendExtraAttributes P tag = map (\<lambda>(n, v). WriteAttribute n v) (extra_attributes P tag)"

definition kUnknownInstallDate :: int where
  "kUnknownInstallDate = 2"

definition us_per_second :: int where
  "us_per_second = 1000000"

text \<open>Differences of times are microseconds; \<open>InDays\<close> and \<open>InSeconds\<close> cut towards zero.\<close>

definition InSeconds :: "int \<Rightarrow> int" where
  "InSeconds d = d sdiv us_per_second"

definition InDays :: "int \<Rightarrow> int" where
  "InDays d = d sdiv (86400 * us_per_second)"

text \<open>\<open>install_age\<close>, with the empty string for an unknown date; a time of 0 is null.\<close>

definition install_age :: "'v omaha_platform \<Rightarrow> bool \<Rightarrow> int \<Rightarrow> int \<Rightarrow> string" where
  "install_age P is_first_install now installation_time =
     (if is_first_install then ''-1''
      else if installation_time \<noteq> 0 \<and> to_time_t P installation_time \<noteq> kUnknownInstallDate
      then decimal P (InDays (now - installation_time))
      else [])"

record 'v ping_state =
  pinged_version :: 'v
  pinged_server_date :: int
  pinged_lang :: string

text \<open>The fields of the service that the message uses are the \<open>ping_state\<close>.\<close>

definition GetPingContent ::
    "'v omaha_platform \<Rightarrow> int \<Rightarrow> 'v ping_state \<Rightarrow> string \<Rightarrow> string \<Rightarrow> string \<Rightarrow> string \<Rightarrow> int \<Rightarrow> PingContent \<Rightarrow> xml_call list" where
  "GetPingContent P now s requestId sessionId versionName channelName installationTime pingContent =
     (let is_first_install = (pingContent = INSTALL_EVENT \<and> pinged_version s = kDefaultLastSentVersion P);
          age = install_age P is_first_install now installationTime;
          last_server_date = decimal P (pinged_server_date s)
      in [StartElement ''request'', WriteAttribute ''protocol'' ''3.0'', WriteAttribute ''updater'' ''iOS'',
          WriteAttribute ''updaterversion'' versionName, WriteAttribute ''updaterchannel'' channelName,
          WriteAttribute ''ismachine'' ''1'', WriteAttribute ''requestid'' requestId, WriteAttribute ''sessionid'' sessionId]
       @ AppendExtraAttributes P ''request''
       @ [WriteAttribute ''hardware_class'' (platform_name P),
          StartElement ''os'', WriteAttribute ''platform'' ''ios'',
          WriteAttribute ''version'' (operating_system_version P), WriteAttribute ''arch'' (kCurrentArch P), EndElement]
       @ [StartElement ''app'']
       @ (if pingContent = INSTALL_EVENT
          then [WriteAttribute ''version'' (if is_first_install then [] else version_string P (pinged_version s)),
                WriteAttribute ''nextversion'' versionName]
          else [WriteAttribute ''version'' versionName, WriteAttribute ''nextversion'' []])
       @ [WriteAttribute ''lang'' (pinged_lang s), WriteAttribute ''brand'' (brand_code P), WriteAttribute ''client'' [],
          WriteAttribute ''appid'' (application_id P)]
       @ AppendExtraAttributes P ''app''
       @ (if age \<noteq> [] then [WriteAttribute ''installage'' age] else [])
       @ (if pingContent = INSTALL_EVENT
          then [StartElement ''event'', WriteAttribute ''eventtype'' (if is_first_install then ''2'' else ''3''),
                WriteAttribute ''eventresult'' ''1'', EndElement]
          else [StartElement ''updatecheck'', WriteAttribute ''tag'' channelName, EndElement,
                StartElement ''ping'', WriteAttribute ''active'' ''1'', WriteAttribute ''ad'' last_server_date,
                WriteAttribute ''rd'' last_server_date, EndElement])
       @ [EndElement, EndElement])"

section \<open>The calls write a document\<close>

datatype xml_tree = Element (tag: string) (attributes_of: "(string \<times> string) list") (children: "xml_tree list")

fun write_tree :: "xml_tree \<Rightarrow> xml_call list" where
  "write_tree (Element n as ts) =
     StartElement n # map (\<lambda>(a, v). WriteAttribute a v) as @ concat (map write_tree ts) @ [EndElement]"

text \<open>Reading the calls back: \<open>read_calls\<close> keeps the open elements, innermost first, with the attributes
  and the children they have got.  As for a text in XML, an attribute may only be written before
  the first child.\<close>

fun read_calls :: "(string \<times> (string \<times> string) list \<times> xml_tree list) list \<Rightarrow> xml_call list \<Rightarrow> xml_tree option" where
  "read_calls opened (StartElement n # cs) = read_calls ((n, [], []) # opened) cs"
| "read_calls ((n, as, []) # opened) (WriteAttribute a v # cs) = read_calls ((n, as @ [(a, v)], []) # opened) cs"
| "read_calls [(n, as, ts)] [EndElement] = Some (Element n as ts)"
| "read_calls ((n, as, ts) # (n', as', ts') # opened) (EndElement # cs) =
     read_calls ((n', as', ts' @ [Element n as ts]) # opened) cs"
| "read_calls _ _ = None"

lemma read_attributes:
  "read_calls ((n, as, []) # opened) (map (\<lambda>(a, v). WriteAttribute a v) bs @ cs) = read_calls ((n, as @ bs, []) # opened) cs"
  by (induction bs arbitrary: as) auto

lemma read_tree_inside:
  "read_calls ((n', as', ts') # opened) (write_tree t @ cs) = read_calls ((n', as', ts' @ [t]) # opened) cs"
proof (induction t arbitrary: n' as' ts' opened cs)
  case (Element n as ts)
  have "read_calls ((n, as, us) # (n', as', ts') # opened) (concat (map write_tree ts) @ EndElement # cs) =
      read_calls ((n', as', ts' @ [Element n as (us @ ts)]) # opened) cs" for us
    using Element.IH
  proof (induction ts arbitrary: us)
    case (Cons t ts)
    have "read_calls ((n, as, us) # (n', as', ts') # opened) (write_tree t @ concat (map write_tree ts) @ EndElement # cs) =
        read_calls ((n, as, us @ [t]) # (n', as', ts') # opened) (concat (map write_tree ts) @ EndElement # cs)"
      by (rule Cons.prems) simp
    then show ?case using Cons.IH [of "us @ [t]"] Cons.prems by simp
  qed simp
  from this [of "[]"] show ?case by (simp add: read_attributes)
qed

lemma read_written_children:
  "read_calls [(n, as, us)] (concat (map write_tree ts) @ [EndElement]) = Some (Element n as (us @ ts))"
  by (induction ts arbitrary: us) (simp_all add: read_tree_inside)

lemma read_written_tree: "read_calls [] (write_tree t) = Some t"
  by (cases t) (simp add: read_attributes read_written_children)

text \<open>The document of a ping: what the server learns from it.\<close>

definition ping_document ::
    "'v omaha_platform \<Rightarrow> int \<Rightarrow> 'v ping_state \<Rightarrow> string \<Rightarrow> string \<Rightarrow> string \<Rightarrow> string \<Rightarrow> int \<Rightarrow> PingContent \<Rightarrow> xml_tree" where
  "ping_document P now s requestId sessionId versionName channelName installationTime pingContent =
     (let first = (pinged_version s = kDefaultLastSentVersion P);
          date = decimal P (pinged_server_date s);
          age = install_age P (pingContent = INSTALL_EVENT \<and> first) now installationTime
      in Element ''request''
          ([(''protocol'', ''3.0''), (''updater'', ''iOS''), (''updaterversion'', versionName), (''updaterchannel'', channelName),
            (''ismachine'', ''1''), (''requestid'', requestId), (''sessionid'', sessionId)]
           @ extra_attributes P ''request'' @ [(''hardware_class'', platform_name P)])
          [Element ''os'' [(''platform'', ''ios''), (''version'', operating_system_version P), (''arch'', kCurrentArch P)] [],
           Element ''app''
             ((case pingContent of
                 INSTALL_EVENT \<Rightarrow> [(''version'', if first then [] else version_string P (pinged_version s)), (''nextversion'', versionName)]
               | USAGE_PING \<Rightarrow> [(''version'', versionName), (''nextversion'', [])])
              @ [(''lang'', pinged_lang s), (''brand'', brand_code P), (''client'', []), (''appid'', application_id P)]
              @ extra_attributes P ''app'' @ (if age = [] then [] else [(''installage'', age)]))
             (case pingContent of
                INSTALL_EVENT \<Rightarrow> [Element ''event'' [(''eventtype'', if first then ''2'' else ''3''), (''eventresult'', ''1'')] []]
              | USAGE_PING \<Rightarrow> [Element ''updatecheck'' [(''tag'', channelName)] [],
                              Element ''ping'' [(''active'', ''1''), (''ad'', date), (''rd'', date)] []])])"

text \<open>The calls of a ping, an install event and a usage ping alike, whatever attributes the provider
  adds, are the ones that write its document, so that reading them gives the document back.\<close>

theorem ping_writes_its_document:
  "read_calls [] (GetPingContent P now s requestId sessionId versionName channelName installationTime pingContent) =
     Some (ping_document P now s requestId sessionId versionName channelName installationTime pingContent)"
proof -
  have "GetPingContent P now s requestId sessionId versionName channelName installationTime pingContent =
      write_tree (ping_document P now s requestId sessionId versionName channelName installationTime pingContent)"
    by (cases pingContent) (simp_all add: GetPingContent_def ping_document_def AppendExtraAttributes_def Let_def)
  then show ?thesis by (simp add: read_written_tree)
qed

end
