(* ===== verification/Omaha_Service.thy ===== *)
theory Omaha_Service
  imports Omaha_Response Omaha_Ping "HOL-Library.Word"
begin

text \<open>
  The service that pings the update server, \<open>chrome/browser/omaha/omaha_service.mm\<close>.  Its
  operations run on one thread; a step is a task, the timer, or an answer.  \<open>surroundings\<close> holds
  what a step asks of the world: the clock, new random identifiers, and \<open>GetBackOff\<close>, which draws a
  jitter in \<open>net\<close>.  The user defaults outlive the process, and \<open>Launch\<close> starts a new one, with the
  version that the program then has.

  Times are microseconds, 0 is the null time; writing a time into the defaults as a
  \<open>CFAbsoluteTime\<close> and reading it back is taken to be exact.  The journal records what the service
  did; it is not part of the code.
\<close>

definition kHoursBetweenRequests :: int where
  "kHoursBetweenRequests = 5"

definition FromHours :: "int \<Rightarrow> int" where
  "FromHours h = h * (3600 * us_per_second)"

record surroundings =
  now :: int
  back_off :: "8 word \<Rightarrow> int"
  new_request_id :: string
  new_session_id :: string

text \<open>Absent keys are read as 0, strings as \<open>None\<close>.\<close>

record 'v user_defaults =
  stored_next_tries :: int
  stored_current_ping :: int
  stored_number_of_tries :: int
  stored_last_sent :: int
  stored_last_server_date :: int
  stored_last_sent_version :: "'v option"
  stored_retry_request_id :: "string option"
  stored_up_to_date :: "bool option"

record ping_request =
  request_age :: "int option"
  request_content :: "xml_call list"

datatype ('u, 'c) omaha_note =
    Sent int "8 word" int
  | Succeeded int bool
  | One_off_reported 'c "'u UpgradeRecommendedDetails"
  | Upgrade_recommended "'u UpgradeRecommendedDetails"

record ('v, 'u, 'c) omaha_service =
  current_version :: 'v
  user_defaults :: "'v user_defaults"
  started :: bool
  schedule :: bool
  application_install_date :: int
  last_sent_time :: int
  next_tries_time :: int
  current_ping_time :: int
  last_sent_version :: 'v
  last_server_date :: int
  locale_lang :: string
  number_of_tries :: "8 word"
  sending_install_event :: bool
  scheduled_ping_canceled :: bool
  one_off_check_callback :: "'c option"
  url_loader :: "ping_request option"
  pending_url_loader_factory :: bool
  url_loader_factory :: bool
  timer :: "int option"
  posted_task :: bool
  journal :: "('u, 'c) omaha_note list"

text \<open>A new process; what the constructor leaves open is read only after \<open>StartInternal\<close>.\<close>

definition OmahaService :: "'v omaha_platform \<Rightarrow> 'v \<Rightarrow> bool \<Rightarrow> 'v user_defaults \<Rightarrow> ('v, 'u, 'c) omaha_service" where
  "OmahaService P version schedule_pings defaults =
     \<lparr>current_version = version, user_defaults = defaults, started = False, schedule = schedule_pings,
      application_install_date = 0, last_sent_time = 0, next_tries_time = 0, current_ping_time = 0,
      last_sent_version = kDefaultLastSentVersion P, last_server_date = 0, locale_lang = [], number_of_tries = 0,
      sending_install_event = False, scheduled_ping_canceled = False, one_off_check_callback = None, url_loader = None,
      pending_url_loader_factory = False, url_loader_factory = False, timer = None, posted_task = False, journal = []\<rparr>"

definition note_that :: "('u, 'c) omaha_note \<Rightarrow> ('v, 'u, 'c) omaha_service \<Rightarrow> ('v, 'u, 'c) omaha_service" where
  "note_that n s = s\<lparr>journal := journal s @ [n]\<rparr>"

definition PersistStates :: "('v, 'u, 'c) omaha_service \<Rightarrow> ('v, 'u, 'c) omaha_service" where
  "PersistStates s = s\<lparr>user_defaults := (user_defaults s)\<lparr>stored_next_tries := next_tries_time s,
     stored_current_ping := current_ping_time s, stored_last_sent := last_sent_time s,
     stored_number_of_tries := uint (number_of_tries s), stored_last_sent_version := Some (last_sent_version s),
     stored_last_server_date := last_server_date s\<rparr>\<rparr>"

definition IsNextPingInstallRetry :: "('v, 'u, 'c) omaha_service \<Rightarrow> bool" where
  "IsNextPingInstallRetry s \<longleftrightarrow> stored_retry_request_id (user_defaults s) \<noteq> None"

definition SetInstallRetryRequestId :: "string \<Rightarrow> ('v, 'u, 'c) omaha_service \<Rightarrow> ('v, 'u, 'c) omaha_service" where
  "SetInstallRetryRequestId i s = s\<lparr>user_defaults := (user_defaults s)\<lparr>stored_retry_request_id := Some i\<rparr>\<rparr>"

definition ClearInstallRetryRequestId :: "('v, 'u, 'c) omaha_service \<Rightarrow> ('v, 'u, 'c) omaha_service" where
  "ClearInstallRetryRequestId s = s\<lparr>user_defaults := (user_defaults s)\<lparr>stored_retry_request_id := None\<rparr>\<rparr>"

section \<open>Starting\<close>

definition read_defaults :: "'v omaha_platform \<Rightarrow> ('v, 'u, 'c) omaha_service \<Rightarrow> ('v, 'u, 'c) omaha_service" where
  "read_defaults P s =
     (let d = user_defaults s in
      s\<lparr>next_tries_time := stored_next_tries d, current_ping_time := stored_current_ping d,
        number_of_tries := word_of_int (stored_number_of_tries d), last_sent_time := stored_last_sent d,
        last_server_date := (if stored_last_server_date d = 0 then - 2 else stored_last_server_date d),
        last_sent_version := (case stored_last_sent_version d of None \<Rightarrow> kDefaultLastSentVersion P | Some v \<Rightarrow> v)\<rparr>)"

text \<open>The three repairs of the times that were stored, in their order; each asks to store them again.\<close>

definition repair_last_sent :: "int \<Rightarrow> ('v, 'u, 'c) omaha_service \<Rightarrow> ('v, 'u, 'c) omaha_service" where
  "repair_last_sent t s = (if last_sent_time s > t then s\<lparr>last_sent_time := t\<rparr> else s)"

definition repair_next_tries :: "int \<Rightarrow> ('v, 'u, 'c) omaha_service \<Rightarrow> ('v, 'u, 'c) omaha_service" where
  "repair_next_tries t s =
     (if next_tries_time s - t > FromHours kHoursBetweenRequests
      then s\<lparr>next_tries_time := last_sent_time s + FromHours kHoursBetweenRequests\<rparr> else s)"

definition ping_new_version :: "int \<Rightarrow> ('v::linorder, 'u, 'c) omaha_service \<Rightarrow> ('v, 'u, 'c) omaha_service" where
  "ping_new_version t s =
     (if last_sent_version s < current_version s
      then s\<lparr>next_tries_time := t - us_per_second, number_of_tries := 0\<rparr> else s)"

definition StartInternal ::
    "'v omaha_platform \<Rightarrow> surroundings \<Rightarrow> int \<Rightarrow> ('v::linorder, 'u, 'c) omaha_service \<Rightarrow> ('v, 'u, 'c) omaha_service outcome" where
  "StartInternal P E install_date s =
     (if started s then Inr s
      else
        let s0 = (read_defaults P (s\<lparr>started := True\<rparr>))\<lparr>application_install_date := install_date\<rparr>;
            s1 = repair_last_sent (now E) s0;
            s2 = repair_next_tries (now E) s1;
            s3 = ping_new_version (now E) s2;
            persist_again = (last_sent_time s0 > now E \<or> next_tries_time s1 - now E > FromHours kHoursBetweenRequests \<or>
              last_sent_version s2 < current_version s2)
        in dcheck (install_date \<noteq> 0) (Inr (if persist_again then PersistStates s3 else s3)))"

definition Start ::
    "'v omaha_platform \<Rightarrow> surroundings \<Rightarrow> int \<Rightarrow> string \<Rightarrow> ('v::linorder, 'u, 'c) omaha_service \<Rightarrow> ('v, 'u, 'c) omaha_service outcome" where
  "Start P E install_date lang s =
     (if \<not> omaha_is_enabled P then Inr s
      else obind (StartInternal P E install_date s) (\<lambda>s.
        dcheck (\<not> pending_url_loader_factory s \<or> \<not> url_loader_factory s)
          (Inr (s\<lparr>pending_url_loader_factory := True, locale_lang := lang, posted_task := True\<rparr>))))"

section \<open>Sending a ping\<close>

definition GetNextPingRequestId ::
    "surroundings \<Rightarrow> PingContent \<Rightarrow> ('v, 'u, 'c) omaha_service \<Rightarrow> (string \<times> ('v, 'u, 'c) omaha_service) outcome" where
  "GetNextPingRequestId E ping_content s =
     (case stored_retry_request_id (user_defaults s) of
        Some stored_id \<Rightarrow> dcheck (ping_content = INSTALL_EVENT) (Inr (stored_id, s))
      | None \<Rightarrow>
          let identifier = new_request_id E in
          Inr (identifier, if ping_content = INSTALL_EVENT then SetInstallRetryRequestId identifier s else s))"

definition GetCurrentPingContent ::
    "'v omaha_platform \<Rightarrow> surroundings \<Rightarrow> ('v::linorder, 'u, 'c) omaha_service \<Rightarrow> (xml_call list \<times> ('v, 'u, 'c) omaha_service) outcome" where
  "GetCurrentPingContent P E s =
     (let sending = (last_sent_version s < current_version s);
          s = s\<lparr>sending_install_event := sending\<rparr>;
          ping_content = (if sending then INSTALL_EVENT else USAGE_PING)
      in dcheck (sending \<or> \<not> IsNextPingInstallRetry s)
        (obind (GetNextPingRequestId E ping_content s) (\<lambda>(request_id, s).
          Inr (GetPingContent P (now E)
                 \<lparr>pinged_version = last_sent_version s, pinged_server_date = last_server_date s, pinged_lang = locale_lang s\<rparr>
                 request_id (new_session_id E) (version_string P (current_version s)) (channel_string P)
                 (from_time_t P (application_install_date s)) ping_content, s))))"

definition count_try :: "8 word \<Rightarrow> 8 word" where
  "count_try n = (if n < 30 then n + 1 else n)"

definition send_request ::
    "'v omaha_platform \<Rightarrow> surroundings \<Rightarrow> ('v::linorder, 'u, 'c) omaha_service \<Rightarrow> ('v, 'u, 'c) omaha_service outcome" where
  "send_request P E s =
     (let age = (if number_of_tries s \<noteq> 0 \<and> IsNextPingInstallRetry s
                 then Some (InSeconds (now E - current_ping_time s)) else None);
          tries = count_try (number_of_tries s);
          s = PersistStates (s\<lparr>number_of_tries := tries, next_tries_time := now E + back_off E tries\<rparr>)
      in obind (GetCurrentPingContent P E s) (\<lambda>(content, s).
           Inr (note_that (Sent (now E) tries (back_off E tries))
             (s\<lparr>url_loader := Some \<lparr>request_age = age, request_content = content\<rparr>\<rparr>))))"

definition SendPing ::
    "'v omaha_platform \<Rightarrow> surroundings \<Rightarrow> ('v::linorder, 'u, 'c) omaha_service \<Rightarrow> ('v, 'u, 'c) omaha_service outcome" where
  "SendPing P E s =
     (if url_loader s \<noteq> None \<and> one_off_check_callback s \<noteq> None then Inr (s\<lparr>scheduled_ping_canceled := True\<rparr>)
      else dcheck (url_loader s = None)
        (if \<not> update_server_url_is_valid P then Inr s
         else obind (if pending_url_loader_factory s
                     then dcheck (\<not> url_loader_factory s)
                       (Inr (s\<lparr>url_loader_factory := True, pending_url_loader_factory := False\<rparr>))
                     else Inr s)
           (\<lambda>s. dcheck (url_loader_factory s) (send_request P E s))))"

definition SendOrScheduleNextPing ::
    "'v omaha_platform \<Rightarrow> surroundings \<Rightarrow> ('v::linorder, 'u, 'c) omaha_service \<Rightarrow> ('v, 'u, 'c) omaha_service outcome" where
  "SendOrScheduleNextPing P E s =
     (if next_tries_time s \<le> now E then SendPing P E s
      else if schedule s then Inr (s\<lparr>timer := Some (next_tries_time s)\<rparr>)
      else Inr s)"

definition CheckNow ::
    "'v omaha_platform \<Rightarrow> surroundings \<Rightarrow> 'c \<Rightarrow> ('v::linorder, 'u, 'c) omaha_service \<Rightarrow> ('v, 'u, 'c) omaha_service outcome" where
  "CheckNow P E callback s =
     dcheck (omaha_is_enabled P) (dcheck (started s) (dcheck (one_off_check_callback s = None)
       (let s = s\<lparr>one_off_check_callback := Some callback\<rparr> in
        if url_loader s = None then SendPing P E s else Inr (s\<lparr>scheduled_ping_canceled := True\<rparr>))))"

section \<open>The answer of the server\<close>

text \<open>The report to the callbacks, and whether a ping is to be scheduled.\<close>

definition report_details ::
    "'u UpgradeRecommendedDetails option \<Rightarrow> ('v, 'u, 'c) omaha_service \<Rightarrow> bool \<times> ('v, 'u, 'c) omaha_service" where
  "report_details details s =
     (case details of
        None \<Rightarrow> (True, s)
      | Some info \<Rightarrow>
          (case one_off_check_callback s of
             Some callback \<Rightarrow>
               (scheduled_ping_canceled s,
                (note_that (One_off_reported callback info) s)\<lparr>one_off_check_callback := None, scheduled_ping_canceled := False\<rparr>)
           | None \<Rightarrow> (True, if \<not> is_up_to_date info then note_that (Upgrade_recommended info) s else s)))"

definition handle_success ::
    "surroundings \<Rightarrow> int \<Rightarrow> ('v, 'u, 'c) omaha_service \<Rightarrow> ('v, 'u, 'c) omaha_service" where
  "handle_success E date s =
     (let next = (if sending_install_event s then now E else now E + FromHours kHoursBetweenRequests) in
      PersistStates (ClearInstallRetryRequestId (note_that (Succeeded (now E) (sending_install_event s))
        (s\<lparr>number_of_tries := 0, next_tries_time := next, current_ping_time := next, last_sent_time := now E,
           last_sent_version := current_version s, sending_install_event := False, last_server_date := date\<rparr>))))"

text \<open>An answer is the verdict of \<open>[parser parse]\<close> and the elements it has reported; what the parser
  stores in the user defaults stays there whether or not the answer is accepted.\<close>

definition Omaha_OnURLLoadComplete ::
    "'v omaha_platform \<Rightarrow> 'u omaha_ops \<Rightarrow> surroundings \<Rightarrow> (bool \<times> xml_element list) option \<Rightarrow>
     ('v::linorder, 'u, 'c) omaha_service \<Rightarrow> ('v, 'u, 'c) omaha_service outcome" where
  "Omaha_OnURLLoadComplete P U E response s =
     (let s = s\<lparr>url_loader := None\<rparr> in
      case response of
        None \<Rightarrow> SendOrScheduleNextPing P E s
      | Some (well_formed, elements) \<Rightarrow>
          obind (parse_elements U (application_id P) elements) (\<lambda>parser.
            let s = (case up_to_date_key parser of None \<Rightarrow> s
                     | Some b \<Rightarrow> s\<lparr>user_defaults := (user_defaults s)\<lparr>stored_up_to_date := Some b\<rparr>\<rparr>)
            in if \<not> well_formed \<or> \<not> isCorrect parser then SendOrScheduleNextPing P E s
               else
                 let (need_to_schedule_ping, s) =
                   report_details (update_information parser) (handle_success E (server_date parser) s)
                 in if need_to_schedule_ping then SendOrScheduleNextPing P E s else Inr s))"

text \<open>What \<open>GetDebugInformationOnIOThread\<close> does beside formatting: it builds the message of a ping.\<close>

definition GetDebugInformationOnIOThread ::
    "'v omaha_platform \<Rightarrow> surroundings \<Rightarrow> ('v::linorder, 'u, 'c) omaha_service \<Rightarrow> ('v, 'u, 'c) omaha_service outcome" where
  "GetDebugInformationOnIOThread P E s = obind (GetCurrentPingContent P E s) (\<lambda>(message, s). Inr s)"

section \<open>Runs\<close>

datatype ('v, 'c) omaha_op =
    Launch 'v bool
  | Start_service int string
  | Posted_task
  | Timer_fired
  | Check_now 'c
  | Load_complete "(bool \<times> xml_element list) option"
  | Get_debug_information

fun omaha_step ::
    "'v omaha_platform \<Rightarrow> 'u omaha_ops \<Rightarrow> ('v::linorder, 'u, 'c) omaha_service \<Rightarrow> surroundings \<times> ('v, 'c) omaha_op \<Rightarrow>
     ('v, 'u, 'c) omaha_service outcome" where
  "omaha_step P U s (E, Launch version schedule_pings) = Inr (OmahaService P version schedule_pings (user_defaults s))"
| "omaha_step P U s (E, Start_service install_date lang) = Start P E install_date lang s"
| "omaha_step P U s (E, Posted_task) = SendOrScheduleNextPing P E (s\<lparr>posted_task := False\<rparr>)"
| "omaha_step P U s (E, Timer_fired) = SendPing P E (s\<lparr>timer := None\<rparr>)"
| "omaha_step P U s (E, Check_now callback) = CheckNow P E callback s"
| "omaha_step P U s (E, Load_complete response) = Omaha_OnURLLoadComplete P U E response s"
| "omaha_step P U s (E, Get_debug_information) = GetDebugInformationOnIOThread P E s"

text \<open>When the system may take a step: the posted task after \<open>Start\<close>, which is called once in a process,
  the timer at its time, an answer while a request is under way; and when the clients may call:
  one check at a time, after the start, in a build with the service.  A new process has no older
  version, and an answer is none on which the parser stops.\<close>

fun omaha_ok ::
    "'v omaha_platform \<Rightarrow> 'u omaha_ops \<Rightarrow> ('v::linorder, 'u, 'c) omaha_service \<Rightarrow> surroundings \<times> ('v, 'c) omaha_op \<Rightarrow> bool" where
  "omaha_ok P U s (E, Launch version _) \<longleftrightarrow> current_version s \<le> version"
| "omaha_ok P U s (E, Start_service install_date _) \<longleftrightarrow> \<not> started s \<and> install_date \<noteq> 0"
| "omaha_ok P U s (E, Posted_task) \<longleftrightarrow> posted_task s"
| "omaha_ok P U s (E, Timer_fired) \<longleftrightarrow> (case timer s of None \<Rightarrow> False | Some t \<Rightarrow> t \<le> now E)"
| "omaha_ok P U s (E, Check_now _) \<longleftrightarrow> omaha_is_enabled P \<and> started s \<and> one_off_check_callback s = None"
| "omaha_ok P U s (E, Load_complete response) \<longleftrightarrow> url_loader s \<noteq> None \<and>
     (case response of None \<Rightarrow> True
      | Some (_, elements) \<Rightarrow> (case parse_elements U (application_id P) elements of Inl _ \<Rightarrow> False | Inr _ \<Rightarrow> True))"
| "omaha_ok P U s (E, Get_debug_information) \<longleftrightarrow> omaha_is_enabled P \<and> started s"

section \<open>No step fails\<close>

definition stored_version :: "'v omaha_platform \<Rightarrow> 'v user_defaults \<Rightarrow> 'v" where
  "stored_version P d = (case stored_last_sent_version d of None \<Rightarrow> kDefaultLastSentVersion P | Some v \<Rightarrow> v)"

text \<open>The identifier of an install event is stored only until the event of this version has been sent.\<close>

definition consistent_defaults :: "'v omaha_platform \<Rightarrow> 'v::linorder \<Rightarrow> 'v user_defaults \<Rightarrow> bool" where
  "consistent_defaults P version d \<longleftrightarrow> (stored_retry_request_id d = None \<or> stored_version P d < version)"

definition versions_inv :: "'v omaha_platform \<Rightarrow> ('v::linorder, 'u, 'c) omaha_service \<Rightarrow> bool" where
  "versions_inv P s \<longleftrightarrow> consistent_defaults P (current_version s) (user_defaults s) \<and>
     (started s \<longrightarrow> last_sent_version s = stored_version P (user_defaults s))"

definition factory_inv :: "('v, 'u, 'c) omaha_service \<Rightarrow> bool" where
  "factory_inv s \<longleftrightarrow> (if started s then pending_url_loader_factory s \<noteq> url_loader_factory s
     else \<not> pending_url_loader_factory s \<and> \<not> url_loader_factory s \<and> timer s = None \<and> url_loader s = None \<and>
       \<not> posted_task s \<and> one_off_check_callback s = None)"

text \<open>Who may still ask for a ping while one is under way, or wants to be told of its answer.\<close>

definition requests_inv :: "('v, 'u, 'c) omaha_service \<Rightarrow> bool" where
  "requests_inv s \<longleftrightarrow>
     (url_loader s \<noteq> None \<and> one_off_check_callback s = None \<longrightarrow> timer s = None \<and> \<not> posted_task s) \<and>
     (scheduled_ping_canceled s \<longrightarrow> one_off_check_callback s \<noteq> None \<and> \<not> posted_task s \<and> (url_loader s \<noteq> None \<longrightarrow> timer s = None)) \<and>
     (posted_task s \<longrightarrow> (url_loader s \<noteq> None \<longrightarrow> timer s = None) \<and> (timer s \<noteq> None \<longrightarrow> one_off_check_callback s \<noteq> None))"

definition omaha_inv :: "'v omaha_platform \<Rightarrow> ('v::linorder, 'u, 'c) omaha_service \<Rightarrow> bool" where
  "omaha_inv P s \<longleftrightarrow> versions_inv P s \<and> factory_inv s \<and> requests_inv s"

text \<open>Building the message of a ping touches the defaults only at the identifier.\<close>

lemma GetCurrentPingContent_total:
  assumes "versions_inv P s" and "started s"
  obtains message d where "GetCurrentPingContent P E s =
      Inr (message, s\<lparr>sending_install_event := last_sent_version s < current_version s, user_defaults := d\<rparr>)"
    and "consistent_defaults P (current_version s) d" and "stored_version P d = last_sent_version s"
    and "\<exists>i. d = (user_defaults s)\<lparr>stored_retry_request_id := i\<rparr>"
proof (cases "stored_retry_request_id (user_defaults s)")
  case None
  let ?d = "if last_sent_version s < current_version s
    then (user_defaults s)\<lparr>stored_retry_request_id := Some (new_request_id E)\<rparr> else user_defaults s"
  have "\<exists>message. GetCurrentPingContent P E s =
      Inr (message, s\<lparr>sending_install_event := last_sent_version s < current_version s, user_defaults := ?d\<rparr>)"
    using None by (simp add: GetCurrentPingContent_def GetNextPingRequestId_def IsNextPingInstallRetry_def
        SetInstallRetryRequestId_def Let_def)
  moreover have "\<exists>i. ?d = (user_defaults s)\<lparr>stored_retry_request_id := i\<rparr>"
    by (rule exI [of _ "if last_sent_version s < current_version s then Some (new_request_id E) else None"])
      (simp add: user_defaults.equality None)
  moreover have "consistent_defaults P (current_version s) ?d" and "stored_version P ?d = last_sent_version s"
    using assms by (simp_all add: versions_inv_def consistent_defaults_def stored_version_def None)
  ultimately show ?thesis using that by blast
next
  case (Some i)
  then have "last_sent_version s < current_version s" using assms by (simp add: versions_inv_def consistent_defaults_def)
  then obtain message where "GetCurrentPingContent P E s = Inr (message, s\<lparr>sending_install_event := True\<rparr>)"
    using Some by (simp add: GetCurrentPingContent_def GetNextPingRequestId_def IsNextPingInstallRetry_def Let_def)
  moreover have "s\<lparr>sending_install_event := True\<rparr> = s\<lparr>sending_install_event := last_sent_version s < current_version s, user_defaults := user_defaults s\<rparr>"
    by (rule omaha_service.equality) (simp_all add: \<open>last_sent_version s < current_version s\<close>)
  moreover have "\<exists>j. user_defaults s = (user_defaults s)\<lparr>stored_retry_request_id := j\<rparr>"
    by (intro exI [of _ "Some i"] user_defaults.equality) (simp_all add: Some)
  moreover have "consistent_defaults P (current_version s) (user_defaults s)" "stored_version P (user_defaults s) = last_sent_version s"
    using assms by (simp_all add: versions_inv_def)
  ultimately show ?thesis using that by metis
qed

lemma PersistStates_keeps: "versions_inv P s \<Longrightarrow> started s \<Longrightarrow> versions_inv P (PersistStates s)"
  by (simp add: versions_inv_def PersistStates_def consistent_defaults_def stored_version_def)

text \<open>The service after a ping was sent.\<close>

definition ping_sent ::
    "surroundings \<Rightarrow> 'v user_defaults \<Rightarrow> ping_request \<Rightarrow> ('v::linorder, 'u, 'c) omaha_service \<Rightarrow> ('v, 'u, 'c) omaha_service" where
  "ping_sent E d q s = s\<lparr>number_of_tries := count_try (number_of_tries s),
        next_tries_time := now E + back_off E (count_try (number_of_tries s)),
        sending_install_event := last_sent_version s < current_version s, user_defaults := d, url_loader := Some q,
        journal := journal s @ [Sent (now E) (count_try (number_of_tries s)) (back_off E (count_try (number_of_tries s)))]\<rparr>"

lemma send_request_total:
  assumes "versions_inv P s" and "started s"
  obtains q d where "send_request P E s = Inr (ping_sent E d q s)"
    and "consistent_defaults P (current_version s) d" and "stored_version P d = last_sent_version s"
    and "stored_last_sent d = last_sent_time s"
proof -
  let ?tries = "count_try (number_of_tries s)"
  let ?s = "PersistStates (s\<lparr>number_of_tries := ?tries, next_tries_time := now E + back_off E ?tries\<rparr>)"
  have "versions_inv P ?s"
    by (rule PersistStates_keeps) (use assms in \<open>simp_all add: versions_inv_def\<close>)
  then obtain message d where "GetCurrentPingContent P E ?s =
      Inr (message, ?s\<lparr>sending_install_event := last_sent_version ?s < current_version ?s, user_defaults := d\<rparr>)"
    and d: "consistent_defaults P (current_version ?s) d" "stored_version P d = last_sent_version ?s"
      "\<exists>i. d = (user_defaults ?s)\<lparr>stored_retry_request_id := i\<rparr>"
    by (rule GetCurrentPingContent_total) (use assms in \<open>simp add: PersistStates_def\<close>)
  moreover have "stored_last_sent d = last_sent_time s" using d(3) by (auto simp: PersistStates_def)
  ultimately show ?thesis
    by (intro that [of d]) (simp_all add: send_request_def ping_sent_def note_that_def PersistStates_def Let_def)
qed

text \<open>The three ways in which \<open>SendPing\<close> ends.\<close>

lemma SendPing_dropped:
  "url_loader s \<noteq> None \<Longrightarrow> one_off_check_callback s \<noteq> None \<Longrightarrow> SendPing P E s = Inr (s\<lparr>scheduled_ping_canceled := True\<rparr>)"
  by (simp add: SendPing_def)

lemma SendPing_without_a_server: "url_loader s = None \<Longrightarrow> \<not> update_server_url_is_valid P \<Longrightarrow> SendPing P E s = Inr s"
  by (simp add: SendPing_def)

lemma SendPing_sends:
  assumes "url_loader s = None" and "update_server_url_is_valid P" and "versions_inv P s" and "factory_inv s" and "started s"
  obtains q d where "SendPing P E s = Inr (ping_sent E d q (s\<lparr>url_loader_factory := True, pending_url_loader_factory := False\<rparr>))"
    and "consistent_defaults P (current_version s) d" and "stored_version P d = last_sent_version s"
    and "stored_last_sent d = last_sent_time s"
proof -
  let ?s = "s\<lparr>url_loader_factory := True, pending_url_loader_factory := False\<rparr>"
  have "SendPing P E s = send_request P E ?s"
  proof (cases "pending_url_loader_factory s")
    case True
    then show ?thesis using assms by (simp add: SendPing_def factory_inv_def)
  next
    case False
    then have "url_loader_factory s" using assms by (simp add: factory_inv_def)
    then have "?s = s" using False by (intro omaha_service.equality) simp_all
    moreover have "SendPing P E s = send_request P E s"
      using assms False \<open>url_loader_factory s\<close> by (simp add: SendPing_def)
    ultimately show ?thesis by (simp only:)
  qed
  moreover have "versions_inv P ?s" using assms by (simp add: versions_inv_def)
  ultimately show ?thesis
    by (rule_tac send_request_total [of P ?s E]) (use assms that in simp_all)
qed

end
