(* ===== verification/Omaha_Props.thy ===== *)
theory Omaha_Props
  imports Omaha_Service
begin

text \<open>
  The properties of the update service: no step of it fails, its pings are spaced, and the
  schedule goes on as long as nobody asks for a check in between.
\<close>

section \<open>Each operation keeps the invariant\<close>

text \<open>When \<open>SendPing\<close>, and when \<open>SendOrScheduleNextPing\<close> may be called.\<close>

definition may_send :: "('v, 'u, 'c) omaha_service \<Rightarrow> bool" where
  "may_send s \<longleftrightarrow> started s \<and> (if url_loader s = None
     then (one_off_check_callback s = None \<longrightarrow> timer s = None \<and> \<not> posted_task s) \<and> (posted_task s \<or> scheduled_ping_canceled s \<longrightarrow> timer s = None)
     else one_off_check_callback s \<noteq> None \<and> timer s = None \<and> \<not> posted_task s)"

definition may_schedule :: "('v, 'u, 'c) omaha_service \<Rightarrow> bool" where
  "may_schedule s \<longleftrightarrow> may_send s \<and> (url_loader s \<noteq> None \<longrightarrow> \<not> scheduled_ping_canceled s)"

lemma ping_sent_keeps:
  assumes "omaha_inv P s" and "may_send s" and "url_loader s = None" and "consistent_defaults P (current_version s) d"
    and "stored_version P d = last_sent_version s"
  shows "omaha_inv P (ping_sent E d q (s\<lparr>url_loader_factory := True, pending_url_loader_factory := False\<rparr>))"
  using assms by (auto simp: omaha_inv_def versions_inv_def factory_inv_def requests_inv_def ping_sent_def may_send_def)

lemma SendPing_keeps:
  assumes "omaha_inv P s" and "may_send s"
  shows "\<exists>t. SendPing P E s = Inr t \<and> omaha_inv P t"
proof (cases "url_loader s")
  case None
  show ?thesis
  proof (cases "update_server_url_is_valid P")
    case True
    have "versions_inv P s" "factory_inv s" "started s" using assms by (simp_all add: omaha_inv_def may_send_def)
    from SendPing_sends [OF None True this, of E] show ?thesis using assms None by (metis ping_sent_keeps)
  next
    case False
    then show ?thesis using None assms by (simp add: SendPing_without_a_server)
  qed
next
  case Some
  then show ?thesis
    using assms
    by (auto simp: SendPing_dropped may_send_def omaha_inv_def versions_inv_def factory_inv_def requests_inv_def)
qed

lemma SendOrScheduleNextPing_keeps:
  assumes "omaha_inv P s" and "may_schedule s"
  shows "\<exists>t. SendOrScheduleNextPing P E s = Inr t \<and> omaha_inv P t"
proof (cases "next_tries_time s \<le> now E")
  case True
  then show ?thesis using SendPing_keeps [of P s E] assms by (simp add: SendOrScheduleNextPing_def may_schedule_def)
next
  case False
  moreover have "omaha_inv P (s\<lparr>timer := Some t\<rparr>)" for t
    using assms by (auto simp: omaha_inv_def versions_inv_def factory_inv_def requests_inv_def may_schedule_def may_send_def split: if_splits)
  ultimately show ?thesis using assms by (simp add: SendOrScheduleNextPing_def)
qed

text \<open>A service that has been started, before the first task is posted.\<close>

definition just_started :: "'v omaha_platform \<Rightarrow> ('v::linorder, 'u, 'c) omaha_service \<Rightarrow> bool" where
  "just_started P s \<longleftrightarrow> versions_inv P s \<and> started s \<and> \<not> pending_url_loader_factory s \<and> \<not> url_loader_factory s \<and>
     timer s = None \<and> url_loader s = None \<and> \<not> posted_task s \<and> one_off_check_callback s = None \<and> \<not> scheduled_ping_canceled s"

lemma read_defaults_just_started:
  "omaha_inv P s \<Longrightarrow> \<not> started s \<Longrightarrow> just_started P ((read_defaults P (s\<lparr>started := True\<rparr>))\<lparr>application_install_date := d\<rparr>)"
  by (auto simp: just_started_def omaha_inv_def factory_inv_def requests_inv_def versions_inv_def read_defaults_def
      stored_version_def Let_def)

lemma repairs_just_started:
  "just_started P s \<Longrightarrow> just_started P (repair_last_sent t s)"
  "just_started P s \<Longrightarrow> just_started P (repair_next_tries t s)"
  "just_started P s \<Longrightarrow> just_started P (ping_new_version t s)"
  "just_started P s \<Longrightarrow> just_started P (PersistStates s)"
  using PersistStates_keeps [of P s]
  by (simp_all add: just_started_def versions_inv_def repair_last_sent_def repair_next_tries_def ping_new_version_def)
    (simp add: PersistStates_def)

lemma StartInternal_just_started:
  assumes "omaha_inv P s" and "\<not> started s" and "install_date \<noteq> 0"
  obtains t where "StartInternal P E install_date s = Inr t" and "just_started P t"
  using assms read_defaults_just_started [OF assms(1,2)] by (simp add: StartInternal_def Let_def repairs_just_started)

lemma Start_keeps:
  assumes "omaha_inv P s" and "\<not> started s" and "install_date \<noteq> 0"
  shows "\<exists>t. Start P E install_date lang s = Inr t \<and> omaha_inv P t"
proof -
  obtain t where "StartInternal P E install_date s = Inr t" and "just_started P t"
    using assms by (rule StartInternal_just_started)
  then show ?thesis
    using assms(1)
    by (auto simp: Start_def just_started_def omaha_inv_def versions_inv_def factory_inv_def requests_inv_def)
qed

lemma CheckNow_keeps:
  assumes "omaha_inv P s" and "omaha_is_enabled P" and "started s" and "one_off_check_callback s = None"
  shows "\<exists>t. CheckNow P E callback s = Inr t \<and> omaha_inv P t"
proof (cases "url_loader s")
  case None
  moreover have "omaha_inv P (s\<lparr>one_off_check_callback := Some callback\<rparr>)" "may_send (s\<lparr>one_off_check_callback := Some callback\<rparr>)"
    using assms None by (auto simp: omaha_inv_def versions_inv_def factory_inv_def requests_inv_def may_send_def)
  ultimately show ?thesis using SendPing_keeps assms by (simp add: CheckNow_def)
next
  case Some
  then show ?thesis
    using assms by (auto simp: CheckNow_def omaha_inv_def versions_inv_def factory_inv_def requests_inv_def)
qed

text \<open>The answers: what the state is like when \<open>SendOrScheduleNextPing\<close> is called.\<close>

lemma answered_keeps:
  assumes "omaha_inv P s" and "url_loader s \<noteq> None"
  shows "omaha_inv P (s\<lparr>url_loader := None\<rparr>)" and "may_schedule (s\<lparr>url_loader := None\<rparr>)"
  using assms by (auto simp: omaha_inv_def versions_inv_def factory_inv_def requests_inv_def may_schedule_def may_send_def
      split: if_splits)

lemma handle_success_keeps:
  assumes "omaha_inv P s" and "may_schedule s" and "url_loader s = None"
  shows "omaha_inv P (handle_success E date s)" and "may_schedule (handle_success E date s)"
    and "url_loader (handle_success E date s) = None"
proof -
  have "versions_inv P (handle_success E date s)"
    using assms by (simp add: may_schedule_def may_send_def handle_success_def note_that_def ClearInstallRetryRequestId_def
        PersistStates_def versions_inv_def consistent_defaults_def stored_version_def Let_def)
  moreover have "factory_inv (handle_success E date s) = factory_inv s" "requests_inv (handle_success E date s) = requests_inv s"
    by (simp_all add: handle_success_def note_that_def ClearInstallRetryRequestId_def PersistStates_def factory_inv_def
        requests_inv_def Let_def)
  ultimately show "omaha_inv P (handle_success E date s)" using assms by (simp add: omaha_inv_def)
  show "may_schedule (handle_success E date s)" and "url_loader (handle_success E date s) = None"
    using assms by (simp_all add: handle_success_def note_that_def ClearInstallRetryRequestId_def PersistStates_def
        may_schedule_def may_send_def Let_def)
qed

lemma note_keeps: "omaha_inv P (note_that n s) = omaha_inv P s" "may_schedule (note_that n s) = may_schedule s"
  by (simp_all add: note_that_def omaha_inv_def versions_inv_def factory_inv_def requests_inv_def may_schedule_def may_send_def)

lemma report_details_keeps:
  assumes s: "omaha_inv P s" "may_schedule s" "url_loader s = None" and r: "report_details details s = (need, t)"
  shows "omaha_inv P t \<and> (need \<longrightarrow> may_schedule t)"
proof (cases "details = None \<or> one_off_check_callback s = None")
  case True
  then have "t = s \<or> (\<exists>n. t = note_that n s)" using r by (auto simp: report_details_def split: option.splits if_splits)
  then show ?thesis using s by (auto simp: note_keeps)
next
  case False
  then obtain info callback where "details = Some info" "one_off_check_callback s = Some callback" by auto
  then have t: "t = (note_that (One_off_reported callback info) s)\<lparr>one_off_check_callback := None, scheduled_ping_canceled := False\<rparr>"
    and need: "need = scheduled_ping_canceled s" using r by (simp_all add: report_details_def)
  have s': "versions_inv P s" "factory_inv s" "requests_inv s" "started s" "posted_task s \<or> scheduled_ping_canceled s \<longrightarrow> timer s = None"
    "scheduled_ping_canceled s \<longrightarrow> \<not> posted_task s"
    using s by (auto simp: omaha_inv_def may_schedule_def may_send_def requests_inv_def)
  then have "omaha_inv P t"
    using s(3) by (simp add: t note_that_def omaha_inv_def versions_inv_def factory_inv_def requests_inv_def)
  moreover have "need \<longrightarrow> may_schedule t"
    using s(3) s' by (simp add: t need note_that_def may_schedule_def may_send_def)
  ultimately show ?thesis by simp
qed

lemma stored_answer_keeps:
  "omaha_inv P (s\<lparr>user_defaults := (user_defaults s)\<lparr>stored_up_to_date := b\<rparr>\<rparr>) = omaha_inv P s"
  "may_schedule (s\<lparr>user_defaults := d\<rparr>) = may_schedule s"
  by (auto simp: omaha_inv_def versions_inv_def factory_inv_def requests_inv_def consistent_defaults_def stored_version_def
      may_schedule_def may_send_def)

lemma Omaha_OnURLLoadComplete_keeps:
  assumes "omaha_inv P s" and "omaha_ok P U s (E, Load_complete response)"
  shows "\<exists>t. Omaha_OnURLLoadComplete P U E response s = Inr t \<and> omaha_inv P t"
proof (cases response)
  case None
  then show ?thesis using answered_keeps assms SendOrScheduleNextPing_keeps by (fastforce simp: Omaha_OnURLLoadComplete_def)
next
  case (Some r)
  obtain well_formed elements where r: "r = (well_formed, elements)" by (cases r)
  then obtain parser where parser: "parse_elements U (application_id P) elements = Inr parser"
    using assms(2) Some by (auto split: sum.splits)
  define s1 where "s1 = (case up_to_date_key parser of None \<Rightarrow> s\<lparr>url_loader := None\<rparr>
    | Some b \<Rightarrow> s\<lparr>url_loader := None, user_defaults := (user_defaults s)\<lparr>stored_up_to_date := Some b\<rparr>\<rparr>)"
  have s1: "omaha_inv P s1" "may_schedule s1" "url_loader s1 = None"
    using answered_keeps [of P s] assms stored_answer_keeps [where s = "s\<lparr>url_loader := None\<rparr>"]
    by (auto simp: s1_def split: option.split)
  have "Omaha_OnURLLoadComplete P U E response s =
      (if \<not> well_formed \<or> \<not> isCorrect parser then SendOrScheduleNextPing P E s1
       else let (need, t) = report_details (update_information parser) (handle_success E (server_date parser) s1)
            in if need then SendOrScheduleNextPing P E t else Inr t)"
    using Some r parser by (cases "up_to_date_key parser") (simp_all add: Omaha_OnURLLoadComplete_def s1_def Let_def)
  then show ?thesis
    using SendOrScheduleNextPing_keeps report_details_keeps [OF handle_success_keeps [OF s1]] s1 by (auto split: prod.split)
qed

lemma GetDebugInformation_keeps:
  assumes "omaha_inv P s" and "started s"
  shows "\<exists>t. GetDebugInformationOnIOThread P E s = Inr t \<and> omaha_inv P t"
proof -
  have "versions_inv P s" using assms by (simp add: omaha_inv_def)
  then obtain message d where "GetCurrentPingContent P E s =
      Inr (message, s\<lparr>sending_install_event := last_sent_version s < current_version s, user_defaults := d\<rparr>)"
    and "consistent_defaults P (current_version s) d" and "stored_version P d = last_sent_version s"
    by (rule GetCurrentPingContent_total) (rule assms)
  then show ?thesis
    using assms by (simp add: GetDebugInformationOnIOThread_def omaha_inv_def versions_inv_def factory_inv_def requests_inv_def)
qed

lemma new_service_inv: "consistent_defaults P version d \<Longrightarrow> omaha_inv P (OmahaService P version schedule_pings d)"
  by (simp add: OmahaService_def omaha_inv_def versions_inv_def factory_inv_def requests_inv_def)

lemma omaha_step_safe:
  assumes "omaha_inv P s" and "omaha_ok P U s x"
  shows "\<exists>t. omaha_step P U s x = Inr t \<and> omaha_inv P t"
  using assms
proof (cases "(P, U, s, x)" rule: omaha_step.cases)
  case (1 _ _ _ E version schedule_pings)
  then have "consistent_defaults P version (user_defaults s)"
    using assms by (auto simp: omaha_inv_def versions_inv_def consistent_defaults_def)
  then show ?thesis using 1 by (simp add: new_service_inv)
next
  case (2 _ _ _ E install_date lang)
  then show ?thesis using assms Start_keeps [of P s install_date E lang] by simp
next
  case (3 _ _ _ E)
  then have "omaha_inv P (s\<lparr>posted_task := False\<rparr>)" "may_schedule (s\<lparr>posted_task := False\<rparr>)"
    using assms by (auto simp: omaha_inv_def versions_inv_def factory_inv_def requests_inv_def may_schedule_def may_send_def
        split: if_splits)
  then show ?thesis using 3 SendOrScheduleNextPing_keeps by simp
next
  case (4 _ _ _ E)
  then have "omaha_inv P (s\<lparr>timer := None\<rparr>)" "may_send (s\<lparr>timer := None\<rparr>)"
    using assms by (auto simp: omaha_inv_def versions_inv_def factory_inv_def requests_inv_def may_send_def
        split: if_splits option.splits)
  then show ?thesis using 4 SendPing_keeps by simp
next
  case (5 _ _ _ E callback)
  then show ?thesis using assms CheckNow_keeps [of P s E callback] by simp
next
  case (6 _ _ _ E response)
  then show ?thesis using assms Omaha_OnURLLoadComplete_keeps [of P s U E response] by simp
next
  case (7 _ _ _ E)
  then show ?thesis using assms GetDebugInformation_keeps [of P s E] by simp
qed

interpretation omaha: checked_machine "omaha_step P U" "omaha_ok P U" "omaha_inv P" for P U
  by unfold_locales (rule omaha_step_safe)

section \<open>The pace of the pings\<close>

text \<open>
  \<open>paced e n ns\<close> goes through what the service did, where the next ping is not due before \<open>e\<close> and the
  last one was the \<open>n\<close>-th try: a ping is sent when it is due, as the next try, and makes the following
  one due after its back-off; a success starts over, five hours later, or at once after an install event.
\<close>

fun paced :: "int \<Rightarrow> 8 word \<Rightarrow> ('u, 'c) omaha_note list \<Rightarrow> (int \<times> 8 word) option" where
  "paced e n [] = Some (e, n)"
| "paced e n (Sent t tries delay # ns) = (if e \<le> t \<and> tries = count_try n then paced (t + delay) tries ns else None)"
| "paced e n (Succeeded t install # ns) = paced (if install then t else t + FromHours kHoursBetweenRequests) 0 ns"
| "paced e n (One_off_reported _ _ # ns) = paced e n ns"
| "paced e n (Upgrade_recommended _ # ns) = paced e n ns"

lemma paced_append: "paced e n (ns @ ms) = (case paced e n ns of None \<Rightarrow> None | Some (e', n') \<Rightarrow> paced e' n' ms)"
  by (induction e n ns rule: paced.induct) auto

text \<open>A started service that nobody asks for a check: exactly one of the posted task, the timer and the
  request is there to send the next ping, and the timer is set to the time when it is due.\<close>

definition quiet :: "('v::linorder, 'u, 'c) omaha_service \<Rightarrow> bool" where
  "quiet s \<longleftrightarrow> started s \<and> schedule s \<and> one_off_check_callback s = None \<and>
     (if posted_task s then url_loader s = None \<and> timer s = None
      else if url_loader s \<noteq> None then timer s = None else timer s = Some (next_tries_time s))"

text \<open>One step: what it notes is paced, and the next ping is due when it was, or soon.\<close>

definition moves :: "surroundings \<Rightarrow> ('v::linorder, 'u, 'c) omaha_service \<Rightarrow> ('v, 'u, 'c) omaha_service \<Rightarrow> bool" where
  "moves E s t \<longleftrightarrow>
     (\<exists>ns. journal t = journal s @ ns \<and> paced (next_tries_time s) (number_of_tries s) ns = Some (next_tries_time t, number_of_tries t)) \<and>
     (next_tries_time t = next_tries_time s \<or> next_tries_time t = now E \<or> next_tries_time t = now E + FromHours kHoursBetweenRequests \<or>
      (\<exists>n. next_tries_time t = now E + back_off E n))"

lemma moves_trans:
  assumes "moves E s t" and "moves E t u"
  shows "moves E s u"
proof -
  from assms obtain ns ms where "journal t = journal s @ ns" "journal u = journal t @ ms"
    "paced (next_tries_time s) (number_of_tries s) ns = Some (next_tries_time t, number_of_tries t)"
    "paced (next_tries_time t) (number_of_tries t) ms = Some (next_tries_time u, number_of_tries u)"
    by (auto simp: moves_def)
  then have "journal u = journal s @ (ns @ ms)"
    and "paced (next_tries_time s) (number_of_tries s) (ns @ ms) = Some (next_tries_time u, number_of_tries u)"
    by (simp_all add: paced_append)
  then have "\<exists>ls. journal u = journal s @ ls \<and>
      paced (next_tries_time s) (number_of_tries s) ls = Some (next_tries_time u, number_of_tries u)" by blast
  then show ?thesis using assms unfolding moves_def by metis
qed

lemma moves_same:
  "journal t = journal s \<Longrightarrow> next_tries_time t = next_tries_time s \<Longrightarrow> number_of_tries t = number_of_tries s \<Longrightarrow> moves E s t"
  by (simp add: moves_def)

definition goes_on :: "surroundings \<Rightarrow> ('v::linorder, 'u, 'c) omaha_service \<Rightarrow> ('v, 'u, 'c) omaha_service \<Rightarrow> bool" where
  "goes_on E s t \<longleftrightarrow> quiet t \<and> moves E s t"

fun quiet_op :: "surroundings \<times> ('v, 'c) omaha_op \<Rightarrow> bool" where
  "quiet_op (E, Launch _ _) = False"
| "quiet_op (E, Check_now _) = False"
| "quiet_op (E, _) = True"

text \<open>\<open>idle\<close>: nothing is under way, and the next ping is about to be sent or scheduled.\<close>

definition idle :: "'v omaha_platform \<Rightarrow> ('v::linorder, 'u, 'c) omaha_service \<Rightarrow> bool" where
  "idle P s \<longleftrightarrow> omaha_inv P s \<and> update_server_url_is_valid P \<and> started s \<and> schedule s \<and> one_off_check_callback s = None \<and>
     \<not> posted_task s \<and> url_loader s = None \<and> timer s = None"

lemma SendPing_goes_on:
  assumes "idle P s" and "next_tries_time s \<le> now E"
  shows "\<exists>t. SendPing P E s = Inr t \<and> goes_on E s t \<and> url_loader t \<noteq> None \<and>
    journal t = journal s @ [Sent (now E) (count_try (number_of_tries s)) (back_off E (count_try (number_of_tries s)))]"
proof -
  have "versions_inv P s" "factory_inv s" using assms by (simp_all add: idle_def omaha_inv_def)
  then obtain d q where t: "SendPing P E s = Inr (ping_sent E d q (s\<lparr>url_loader_factory := True, pending_url_loader_factory := False\<rparr>))"
    using assms by (auto simp: idle_def elim: SendPing_sends [of s P E])
  let ?t = "ping_sent E d q (s\<lparr>url_loader_factory := True, pending_url_loader_factory := False\<rparr>)"
  have "quiet ?t" using assms by (simp add: idle_def quiet_def ping_sent_def)
  then have "goes_on E s ?t" using assms by (auto simp: goes_on_def moves_def ping_sent_def)
  then show ?thesis using t by (simp add: ping_sent_def)
qed

lemma SendOrScheduleNextPing_goes_on:
  assumes "idle P s"
  shows "\<exists>t. SendOrScheduleNextPing P E s = Inr t \<and> goes_on E s t"
proof (cases "next_tries_time s \<le> now E")
  case True
  then show ?thesis using SendPing_goes_on [OF assms] by (auto simp: SendOrScheduleNextPing_def)
next
  case False
  then show ?thesis using assms by (simp add: SendOrScheduleNextPing_def idle_def goes_on_def quiet_def moves_def)
qed

lemma handle_success_moves:
  assumes "idle P s"
  shows "idle P (handle_success E date s)" and "moves E s (handle_success E date s)"
proof -
  have "omaha_inv P (handle_success E date s)"
    using assms by (intro handle_success_keeps) (auto simp: idle_def may_schedule_def may_send_def omaha_inv_def requests_inv_def)
  then show "idle P (handle_success E date s)"
    using assms by (simp add: idle_def handle_success_def note_that_def ClearInstallRetryRequestId_def PersistStates_def Let_def)
  show "moves E s (handle_success E date s)"
    by (simp add: moves_def handle_success_def note_that_def ClearInstallRetryRequestId_def PersistStates_def Let_def)
qed

lemma report_details_moves:
  assumes "idle P s" and "report_details details s = (need, t)"
  shows "need \<and> idle P t \<and> moves E s t"
proof -
  have "need \<and> (t = s \<or> (\<exists>info. t = note_that (Upgrade_recommended info) s))"
    using assms by (auto simp: idle_def report_details_def split: option.splits if_splits)
  then show ?thesis using assms(1) note_keeps(1)
    by (auto simp: idle_def moves_def) (auto simp: note_that_def)
qed

lemma Omaha_OnURLLoadComplete_goes_on:
  assumes s: "omaha_inv P s" "update_server_url_is_valid P" "quiet s" and ok: "omaha_ok P U s (E, Load_complete response)"
  shows "\<exists>t. Omaha_OnURLLoadComplete P U E response s = Inr t \<and> goes_on E s t"
proof (cases response)
  case None
  let ?s = "s\<lparr>url_loader := None\<rparr>"
  have "idle P ?s" "moves E s ?s"
    using s ok answered_keeps [of P s] by (auto simp: idle_def quiet_def moves_same split: if_splits)
  then show ?thesis
    using SendOrScheduleNextPing_goes_on [of P ?s E] None by (auto simp: Omaha_OnURLLoadComplete_def goes_on_def intro: moves_trans)
next
  case (Some r)
  obtain well_formed elements where r: "r = (well_formed, elements)" by (cases r)
  then obtain parser where parser: "parse_elements U (application_id P) elements = Inr parser"
    using ok Some by (auto split: sum.splits)
  define s1 where "s1 = (case up_to_date_key parser of None \<Rightarrow> s\<lparr>url_loader := None\<rparr>
    | Some b \<Rightarrow> s\<lparr>url_loader := None, user_defaults := (user_defaults s)\<lparr>stored_up_to_date := Some b\<rparr>\<rparr>)"
  have s1: "idle P s1" "moves E s s1"
    using s ok answered_keeps [of P s] stored_answer_keeps [where s = "s\<lparr>url_loader := None\<rparr>"]
    by (auto simp: s1_def idle_def quiet_def moves_same split: option.split if_splits)
  obtain need t where t: "report_details (update_information parser) (handle_success E (server_date parser) s1) = (need, t)"
    by fastforce
  have "need" "idle P t" "moves E (handle_success E (server_date parser) s1) t"
    using report_details_moves [OF handle_success_moves(1) [OF s1(1)] t] by simp_all
  moreover from this have "moves E s t"
    by (rule_tac moves_trans [OF s1(2)], rule_tac moves_trans [OF handle_success_moves(2) [OF s1(1)]])
  ultimately have "need" "idle P t" "moves E s t" by simp_all
  then have "Omaha_OnURLLoadComplete P U E response s =
      SendOrScheduleNextPing P E (if \<not> well_formed \<or> \<not> isCorrect parser then s1 else t)"
    using Some r parser t by (cases "up_to_date_key parser") (simp_all add: Omaha_OnURLLoadComplete_def s1_def Let_def)
  moreover have "idle P (if \<not> well_formed \<or> \<not> isCorrect parser then s1 else t)"
    and "moves E s (if \<not> well_formed \<or> \<not> isCorrect parser then s1 else t)"
    using s1 \<open>idle P t\<close> \<open>moves E s t\<close> by simp_all
  ultimately show ?thesis
    using SendOrScheduleNextPing_goes_on by (fastforce simp: goes_on_def intro: moves_trans)
qed

lemma GetDebugInformation_goes_on:
  assumes "omaha_inv P s" and "quiet s" and "GetDebugInformationOnIOThread P E s = Inr t"
  shows "goes_on E s t"
proof -
  have "versions_inv P s" "started s" using assms by (simp_all add: omaha_inv_def quiet_def)
  then obtain message d where "GetCurrentPingContent P E s =
      Inr (message, s\<lparr>sending_install_event := last_sent_version s < current_version s, user_defaults := d\<rparr>)"
    by (rule GetCurrentPingContent_total)
  then have "t = s\<lparr>sending_install_event := last_sent_version s < current_version s, user_defaults := d\<rparr>"
    using assms(3) by (simp add: GetDebugInformationOnIOThread_def)
  then show ?thesis using assms(2) by (simp add: goes_on_def quiet_def moves_same)
qed

lemma Timer_fired_sends:
  assumes "omaha_inv P s" and "update_server_url_is_valid P" and "quiet s" and "timer s = Some t" and "t \<le> now E"
  shows "\<exists>u. omaha_step P U s (E, Timer_fired) = Inr u \<and> goes_on E s u \<and> url_loader u \<noteq> None \<and>
    journal u = journal s @ [Sent (now E) (count_try (number_of_tries s)) (back_off E (count_try (number_of_tries s)))]"
proof -
  let ?s = "s\<lparr>timer := None\<rparr>"
  have "idle P ?s" "next_tries_time ?s \<le> now E"
    using assms by (auto simp: idle_def quiet_def omaha_inv_def versions_inv_def factory_inv_def requests_inv_def split: if_splits)
  then obtain u where u: "SendPing P E ?s = Inr u" "goes_on E ?s u" "url_loader u \<noteq> None"
    "journal u = journal s @ [Sent (now E) (count_try (number_of_tries s)) (back_off E (count_try (number_of_tries s)))]"
    using SendPing_goes_on [of P ?s E] by auto
  then have "goes_on E s u" by (simp add: goes_on_def moves_def)
  with u show ?thesis by simp
qed

lemma quiet_step:
  assumes s: "omaha_inv P s" "update_server_url_is_valid P" "quiet s" and ok: "omaha_ok P U s (E, x)" "quiet_op (E, x)"
  shows "\<exists>t. omaha_step P U s (E, x) = Inr t \<and> goes_on E s t"
proof (cases x)
  case Posted_task
  let ?s = "s\<lparr>posted_task := False\<rparr>"
  have "idle P ?s"
    using s ok Posted_task
    by (auto simp: idle_def quiet_def omaha_inv_def versions_inv_def factory_inv_def requests_inv_def split: if_splits)
  then show ?thesis
    using SendOrScheduleNextPing_goes_on [of P ?s E] Posted_task by (auto simp: goes_on_def moves_def)
next
  case Timer_fired
  then show ?thesis using Timer_fired_sends [OF s] ok by (auto split: option.splits)
next
  case (Load_complete response)
  then show ?thesis using Omaha_OnURLLoadComplete_goes_on [OF s] ok(1) by simp
next
  case Get_debug_information
  then show ?thesis
    using GetDebugInformation_goes_on [OF s(1,3)] omaha_step_safe [OF s(1) ok(1)] by auto
next
  case (Start_service install_date lang)
  then show ?thesis using s ok by (simp add: quiet_def)
qed (use ok in simp_all)

section \<open>Whole runs\<close>

definition kPostRetryMaxSeconds :: int where
  "kPostRetryMaxSeconds = 6 * 3600"

text \<open>The clock does not go back and no back-off exceeds the maximum of the policy.\<close>

fun timely :: "int \<Rightarrow> (surroundings \<times> ('v, 'c) omaha_op) list \<Rightarrow> bool" where
  "timely T [] = True"
| "timely T ((E, _) # xs) \<longleftrightarrow> T \<le> now E \<and> (\<forall>n. back_off E n \<le> kPostRetryMaxSeconds * us_per_second) \<and> timely (now E) xs"

fun clock_after :: "int \<Rightarrow> (surroundings \<times> ('v, 'c) omaha_op) list \<Rightarrow> int" where
  "clock_after T [] = T"
| "clock_after T ((E, _) # xs) = clock_after (now E) xs"

lemma quiet_run:
  assumes "omaha_inv P s" and "update_server_url_is_valid P" and "quiet s"
    and "admissible (omaha_step P U) (omaha_ok P U) s xs" and "list_all quiet_op xs"
  shows "\<exists>t. orun (omaha_step P U) s xs = Inr t \<and> omaha_inv P t \<and> quiet t \<and>
    (\<exists>ns. journal t = journal s @ ns \<and> paced (next_tries_time s) (number_of_tries s) ns = Some (next_tries_time t, number_of_tries t)) \<and>
    (timely T xs \<longrightarrow> next_tries_time s \<le> T + kPostRetryMaxSeconds * us_per_second \<longrightarrow>
       next_tries_time t \<le> clock_after T xs + kPostRetryMaxSeconds * us_per_second)"
  using assms
proof (induction xs arbitrary: s T)
  case Nil
  then show ?case by simp
next
  case (Cons x xs)
  obtain E op where x: "x = (E, op)" by (cases x)
  obtain t where t: "omaha_step P U s x = Inr t" "goes_on E s t" "omaha_inv P t"
    using quiet_step [of P s U E op] omaha_step_safe [of P s U x] Cons.prems x by auto
  then have "quiet t" and moves: "moves E s t" by (simp_all add: goes_on_def)
  then obtain u where u: "orun (omaha_step P U) t xs = Inr u" "omaha_inv P u" "quiet u"
      "\<exists>ns. journal u = journal t @ ns \<and> paced (next_tries_time t) (number_of_tries t) ns = Some (next_tries_time u, number_of_tries u)"
      "timely (now E) xs \<Longrightarrow> next_tries_time t \<le> now E + kPostRetryMaxSeconds * us_per_second \<Longrightarrow>
         next_tries_time u \<le> clock_after (now E) xs + kPostRetryMaxSeconds * us_per_second"
    using Cons.IH [of t "now E"] Cons.prems t by auto
  obtain ns where ns: "journal t = journal s @ ns"
      "paced (next_tries_time s) (number_of_tries s) ns = Some (next_tries_time t, number_of_tries t)"
    using moves by (auto simp: moves_def)
  have "\<exists>ls. journal u = journal s @ ls \<and>
      paced (next_tries_time s) (number_of_tries s) ls = Some (next_tries_time u, number_of_tries u)"
    using u(4) ns by (auto simp: paced_append)
  moreover have "next_tries_time t \<le> now E + kPostRetryMaxSeconds * us_per_second"
    if "timely T (x # xs)" "next_tries_time s \<le> T + kPostRetryMaxSeconds * us_per_second"
    using moves that x
    by (auto simp: moves_def kPostRetryMaxSeconds_def FromHours_def kHoursBetweenRequests_def us_per_second_def
        intro: order_trans dest: spec)
  ultimately show ?case using t u x by auto
qed

text \<open>The service after \<open>Start\<close> in a new process.\<close>

lemma Start_is_quiet:
  fixes s :: "('v::linorder, 'u, 'c) omaha_service"
  assumes "omaha_is_enabled P" and "consistent_defaults P version d" and "install_date \<noteq> 0"
    and "Start P E install_date lang (OmahaService P version True d) = Inr s"
  shows "omaha_inv P s" and "quiet s" and "journal s = []" and "next_tries_time s \<le> now E + FromHours kHoursBetweenRequests"
proof -
  let ?s = "OmahaService P version True d :: ('v, 'u, 'c) omaha_service"
  have inv: "omaha_inv P ?s" "\<not> started ?s"
    using new_service_inv [OF assms(2)] by (simp_all add: OmahaService_def)
  then show "omaha_inv P s" using Start_keeps [OF inv assms(3), of E lang] assms(4) by auto
  show "quiet s" and "journal s = []" and "next_tries_time s \<le> now E + FromHours kHoursBetweenRequests"
    using assms
    by (auto simp: Start_def StartInternal_def Let_def OmahaService_def read_defaults_def repair_last_sent_def
        repair_next_tries_def ping_new_version_def PersistStates_def quiet_def FromHours_def kHoursBetweenRequests_def
        us_per_second_def split: if_splits)
qed



text \<open>C28: as long as nobody asks for a check in between, the service goes on pinging whatever the server answers,
  if anything: there is always a ping under way, or the task that was posted at the start, or the timer;
  the timer is never set more than six hours ahead, and when it fires a ping is sent.\<close>
theorem update_service_pings_again:
  fixes s :: "('v::linorder, 'u, 'c) omaha_service"
  assumes "omaha_is_enabled P" and "update_server_url_is_valid P" and "consistent_defaults P version d" and "install_date \<noteq> 0"
    and "Start P E install_date lang (OmahaService P version True d) = Inr s"
    and "admissible (omaha_step P U) (omaha_ok P U) s xs" and "list_all quiet_op xs" and "timely (now E) xs"
  shows "\<exists>t. orun (omaha_step P U) s xs = Inr t \<and> (posted_task t \<or> url_loader t \<noteq> None \<or> timer t \<noteq> None) \<and>
    (\<forall>due. timer t = Some due \<longrightarrow> due \<le> clock_after (now E) xs + kPostRetryMaxSeconds * us_per_second \<and>
       (\<forall>E'. due \<le> now E' \<longrightarrow> (\<exists>u. omaha_step P U t (E', Timer_fired) = Inr u \<and> url_loader u \<noteq> None \<and>
          journal u = journal t @ [Sent (now E') (count_try (number_of_tries t)) (back_off E' (count_try (number_of_tries t)))])))"
proof -
  note start = Start_is_quiet [OF assms(1,3,4,5)]
  have "next_tries_time s \<le> now E + kPostRetryMaxSeconds * us_per_second"
    using start(4) by (simp add: FromHours_def kHoursBetweenRequests_def kPostRetryMaxSeconds_def us_per_second_def)
  then obtain t where t: "orun (omaha_step P U) s xs = Inr t" "omaha_inv P t" "quiet t"
      "next_tries_time t \<le> clock_after (now E) xs + kPostRetryMaxSeconds * us_per_second"
    using quiet_run [OF start(1) assms(2) start(2) assms(6,7), of "now E"] assms(8) by auto
  have pending: "posted_task t \<or> url_loader t \<noteq> None \<or> timer t \<noteq> None"
    using t(3) by (simp add: quiet_def split: if_splits)
  have "due \<le> clock_after (now E) xs + kPostRetryMaxSeconds * us_per_second" if "timer t = Some due" for due
    using t(3,4) that by (simp add: quiet_def split: if_splits)
  then show ?thesis using t(1) pending Timer_fired_sends [OF t(2) assms(2) t(3)] by blast
qed

section \<open>A run\<close>

text \<open>A first launch of version 2, on devices whose defaults are empty.  The \<open>URL\<close> type is that of strings.\<close>

definition demo_platform :: "nat omaha_platform" where
  "demo_platform = \<lparr>omaha_is_enabled = True, update_server_url_is_valid = True, version_string = (\<lambda>n. ''v''),
     kDefaultLastSentVersion = 0, channel_string = ''stable'', platform_name = ''iPhone'', operating_system_version = ''14'',
     kCurrentArch = ''arm64'', brand_code = [], application_id = ''app'', extra_attributes = (\<lambda>_. []), decimal = (\<lambda>_. ''0''),
     from_time_t = (\<lambda>t. t), to_time_t = (\<lambda>t. t)\<rparr>"

definition demo_url_ops :: "string omaha_ops" where
  "demo_url_ops = \<lparr>parse_url = (\<lambda>u. u), url_is_valid = (\<lambda>u. u \<noteq> []), empty_url = [], integer_value = (\<lambda>_. 7)\<rparr>"

definition no_defaults :: "nat user_defaults" where
  "no_defaults = \<lparr>stored_next_tries = 0, stored_current_ping = 0, stored_number_of_tries = 0, stored_last_sent = 0,
     stored_last_server_date = 0, stored_last_sent_version = None, stored_retry_request_id = None, stored_up_to_date = None\<rparr>"

definition demo_at :: "int \<Rightarrow> surroundings" where
  "demo_at t = \<lparr>now = t * FromHours 1, back_off = (\<lambda>_. FromHours 1), new_request_id = ''r'', new_session_id = ''s''\<rparr>"

definition no_update :: "xml_element list" where
  "no_update = [(''response'', [''protocol'' \<mapsto> ''3.0'', ''server'' \<mapsto> ''prod'']), (''daystart'', [''elapsed_days'' \<mapsto> ''7'']),
     (''app'', [''status'' \<mapsto> ''ok'', ''appid'' \<mapsto> ''app'']), (''updatecheck'', [''status'' \<mapsto> ''noupdate'']),
     (''ping'', [''status'' \<mapsto> ''ok''])]"

definition event_accepted :: "xml_element list" where
  "event_accepted = take 3 no_update @ [(''event'', [''status'' \<mapsto> ''ok''])]"

text \<open>The install event fails, is sent again an hour later and accepted; the first usage ping follows at once,
  and the next one is due five hours later.\<close>

definition demo_run :: "(surroundings \<times> (nat, nat) omaha_op) list" where
  "demo_run = [(demo_at 9, Posted_task), (demo_at 9, Load_complete None), (demo_at 10, Timer_fired),
     (demo_at 10, Load_complete (Some (True, event_accepted))), (demo_at 10, Load_complete (Some (True, no_update)))]"

text \<open>A check on demand while the timer is set, whose first try fails: the retry is sent by the timer that
  used to stand for the schedule.\<close>

definition sent_defaults :: "nat user_defaults" where
  "sent_defaults = no_defaults\<lparr>stored_next_tries := 12 * FromHours 1, stored_last_sent := 7 * FromHours 1,
     stored_last_sent_version := Some 2\<rparr>"

definition check_run :: "(surroundings \<times> (nat, nat) omaha_op) list" where
  "check_run = [(demo_at 9, Start_service 5 ''en''), (demo_at 9, Posted_task), (demo_at 10, Check_now 1),
     (demo_at 10, Load_complete None), (demo_at 11, Timer_fired), (demo_at 11, Load_complete (Some (True, no_update)))]"

definition demo_service :: "(nat, string, nat) omaha_service" where
  "demo_service = (case Start demo_platform (demo_at 9) 5 ''en'' (OmahaService demo_platform 2 True no_defaults) of
     Inl _ \<Rightarrow> OmahaService demo_platform 2 True no_defaults | Inr s \<Rightarrow> s)"

lemma demo_start: "Start demo_platform (demo_at 9) 5 ''en'' (OmahaService demo_platform 2 True no_defaults) = Inr demo_service"
proof -
  have "(case Start demo_platform (demo_at 9) 5 ''en'' (OmahaService demo_platform 2 True no_defaults :: (nat, string, nat) omaha_service)
      of Inl _ \<Rightarrow> False | Inr _ \<Rightarrow> True)"
    by code_simp
  then show ?thesis unfolding demo_service_def by (auto simp only: split: sum.splits)
qed

lemma demo_run_admissible: "admissible (omaha_step demo_platform demo_url_ops) (omaha_ok demo_platform demo_url_ops) demo_service demo_run"
  by code_simp

lemma demo_defaults: "consistent_defaults demo_platform 2 no_defaults" "consistent_defaults demo_platform 2 sent_defaults"
  by code_simp+

lemma demo_platform_has_the_service: "omaha_is_enabled demo_platform" "update_server_url_is_valid demo_platform"
  by (simp_all add: demo_platform_def)



theorem update_service_pings_again_witness:
  "\<exists>t. orun (omaha_step demo_platform demo_url_ops) demo_service demo_run = Inr t \<and>
    (posted_task t \<or> url_loader t \<noteq> None \<or> timer t \<noteq> None) \<and>
    (\<forall>due. timer t = Some due \<longrightarrow>
       due \<le> clock_after (now (demo_at 9)) demo_run + kPostRetryMaxSeconds * us_per_second \<and>
       (\<forall>E'. due \<le> now E' \<longrightarrow> (\<exists>u. omaha_step demo_platform demo_url_ops t (E', Timer_fired) = Inr u \<and> url_loader u \<noteq> None \<and>
          journal u = journal t @ [Sent (now E') (count_try (number_of_tries t)) (back_off E' (count_try (number_of_tries t)))])))"
  by (rule update_service_pings_again [OF demo_platform_has_the_service demo_defaults(1) _ demo_start demo_run_admissible])
    (simp_all add: demo_run_def demo_at_def FromHours_def us_per_second_def kPostRetryMaxSeconds_def)

text \<open>What happens in \<open>demo_run\<close>.\<close>

theorem demo_run_journal:
  "case orun (omaha_step demo_platform demo_url_ops) demo_service demo_run of
     Inl _ \<Rightarrow> False
   | Inr s \<Rightarrow> journal s = [Sent (FromHours 9) 1 (FromHours 1), Sent (FromHours 10) 2 (FromHours 1), Succeeded (FromHours 10) True,
       Sent (FromHours 10) 1 (FromHours 1), Succeeded (FromHours 10) False] \<and> timer s = Some (FromHours 15)"
  by code_simp

text \<open>After \<open>check_run\<close> the next ping is due five hours later, but nothing is left that would send it: the
  answer to the retried check does not schedule a ping, and the timer has been used up for the retry.\<close>

theorem check_with_a_retry_ends_the_schedule:
  "case orun (omaha_step demo_platform demo_url_ops) (OmahaService demo_platform 2 True sent_defaults) check_run of
     Inl _ \<Rightarrow> False
   | Inr s \<Rightarrow> schedule s \<and> next_tries_time s = FromHours 16 \<and> timer s = None \<and> url_loader s = None \<and> \<not> posted_task s"
  by code_simp

end
