(* ===== verification/Policy_Decisions.thy ===== *)
theory Policy_Decisions
  imports Prelude
begin

text \<open>
  How a tab decides whether a navigation may go on: \<open>WebStateImpl::ShouldAllowRequest\<close> and
  \<open>ShouldAllowResponse\<close> (\<open>web/web_state/web_state_impl.mm\<close>) ask the policy deciders one after the other,
  and \<open>PolicyDecisionStateTracker\<close> (\<open>policy_decision_state_tracker.mm\<close>) collects their answers, which may
  come at once, later in any order, or never, when a decider lets go of its callback.  The callback
  owns the tracker: it is deleted when the last copy is gone.  \<open>BarrierClosure\<close> of \<open>base\<close> runs a
  closure after a number of calls, at once for 0.

  The property is that the caller gets one decision, and which.
\<close>

datatype 'e PolicyDecision = Allow | Cancel | CancelAndDisplayError 'e

fun ShouldAllowNavigation :: "'e PolicyDecision \<Rightarrow> bool" where
  "ShouldAllowNavigation Allow = True"
| "ShouldAllowNavigation _ = False"

definition ShouldCancelNavigation :: "'e PolicyDecision \<Rightarrow> bool" where
  "ShouldCancelNavigation d \<longleftrightarrow> \<not> ShouldAllowNavigation d"

fun ShouldDisplayError :: "'e PolicyDecision \<Rightarrow> bool" where
  "ShouldDisplayError (CancelAndDisplayError _) = True"
| "ShouldDisplayError _ = False"

datatype decision_closure = Do_nothing | Barrier int

text \<open>\<open>delivered\<close> records the decisions that the callback was run with.\<close>

record 'e decision_tracker =
  has_callback :: bool
  result :: "'e PolicyDecision"
  num_decisions_received :: int
  decision_closure :: decision_closure
  delivered :: "'e PolicyDecision list"

definition PolicyDecisionStateTracker :: "'e decision_tracker" where
  "PolicyDecisionStateTracker = \<lparr>has_callback = True, result = Allow, num_decisions_received = 0,
     decision_closure = Do_nothing, delivered = []\<rparr>"

text \<open>Running a callback that has been moved from fails a \<open>CHECK\<close>.\<close>

definition deliver_decision :: "'e PolicyDecision \<Rightarrow> 'e decision_tracker \<Rightarrow> 'e decision_tracker outcome" where
  "deliver_decision d t = check (has_callback t) (Inr (t\<lparr>has_callback := False, delivered := delivered t @ [d]\<rparr>))"

definition OnFinalResultDetermined :: "'e decision_tracker \<Rightarrow> 'e decision_tracker outcome" where
  "OnFinalResultDetermined t = deliver_decision (result t) t"

definition DeterminedFinalResult :: "'e decision_tracker \<Rightarrow> bool" where
  "DeterminedFinalResult t \<longleftrightarrow> \<not> has_callback t"

definition run_decision_closure :: "'e decision_tracker \<Rightarrow> 'e decision_tracker outcome" where
  "run_decision_closure t =
     (case decision_closure t of
        Do_nothing \<Rightarrow> Inr t
      | Barrier n \<Rightarrow> dcheck (n > 0)
          (let t = t\<lparr>decision_closure := Barrier (n - 1)\<rparr> in if n = 1 then OnFinalResultDetermined t else Inr t))"

definition OnSinglePolicyDecisionReceived :: "'e PolicyDecision \<Rightarrow> 'e decision_tracker \<Rightarrow> 'e decision_tracker outcome" where
  "OnSinglePolicyDecisionReceived decision t =
     (if DeterminedFinalResult t then Inr t
      else if ShouldCancelNavigation decision \<and> \<not> ShouldDisplayError decision
      then OnFinalResultDetermined (t\<lparr>result := decision\<rparr>)
      else
        let t = t\<lparr>num_decisions_received := num_decisions_received t + 1\<rparr>;
            t = (if ShouldDisplayError decision \<and> ShouldAllowNavigation (result t) then t\<lparr>result := decision\<rparr> else t)
        in run_decision_closure t)"

definition FinishedRequestingDecisions :: "int \<Rightarrow> 'e decision_tracker \<Rightarrow> 'e decision_tracker outcome" where
  "FinishedRequestingDecisions num_decisions_requested t =
     (if DeterminedFinalResult t then Inr t
      else
        let n = num_decisions_requested - num_decisions_received t in
        dcheck (n \<ge> 0)
          (if n = 0 then OnFinalResultDetermined (t\<lparr>decision_closure := Do_nothing\<rparr>) else Inr (t\<lparr>decision_closure := Barrier n\<rparr>)))"

definition destroy_tracker :: "'e decision_tracker \<Rightarrow> 'e decision_tracker outcome" where
  "destroy_tracker t = (if has_callback t then deliver_decision Cancel t else Inr t)"

text \<open>A decider answers during the call, or keeps its callback; the loop counts the requests.\<close>

fun ask_deciders :: "'e PolicyDecision option list \<Rightarrow> int \<Rightarrow> nat \<Rightarrow> 'e decision_tracker \<Rightarrow> ('e decision_tracker \<times> int \<times> nat) outcome" where
  "ask_deciders [] requested kept t = Inr (t, requested, kept)"
| "ask_deciders (d # ds) requested kept t =
     obind (case d of None \<Rightarrow> Inr t | Some decision \<Rightarrow> OnSinglePolicyDecisionReceived decision t)
       (\<lambda>t. let kept = (if d = None then Suc kept else kept) in
         if DeterminedFinalResult t then Inr (t, requested + 1, kept) else ask_deciders ds (requested + 1) kept t)"

record 'e decision_state =
  tracker :: "'e decision_tracker"
  callbacks_kept :: nat

text \<open>The tracker is deleted with the last copy of the callback.\<close>

definition release_callback :: "'e decision_state \<Rightarrow> 'e decision_state outcome" where
  "release_callback s =
     (if callbacks_kept s = 0 then obind (destroy_tracker (tracker s)) (\<lambda>t. Inr (s\<lparr>tracker := t\<rparr>)) else Inr s)"

definition WebState_ShouldAllow :: "'e PolicyDecision option list \<Rightarrow> 'e decision_state outcome" where
  "WebState_ShouldAllow deciders =
     obind (ask_deciders deciders 0 0 PolicyDecisionStateTracker) (\<lambda>(t, num_decisions_requested, kept).
       obind (FinishedRequestingDecisions num_decisions_requested t) (\<lambda>t.
         release_callback \<lparr>tracker = t, callbacks_kept = kept\<rparr>))"

text \<open>A decider that has kept its callback runs it (\<open>Some\<close>) or lets go of it (\<open>None\<close>); in both cases its copy is gone.\<close>

definition decider_step :: "'e decision_state \<Rightarrow> 'e PolicyDecision option \<Rightarrow> 'e decision_state outcome" where
  "decider_step s d =
     obind (case d of None \<Rightarrow> Inr (tracker s) | Some decision \<Rightarrow> OnSinglePolicyDecisionReceived decision (tracker s))
       (\<lambda>t. release_callback \<lparr>tracker = t, callbacks_kept = callbacks_kept s - 1\<rparr>)"

section \<open>The decision\<close>

text \<open>The deciders that are asked: up to the first that cancels at once.\<close>

fun asked :: "'e PolicyDecision option list \<Rightarrow> 'e PolicyDecision option list" where
  "asked [] = []"
| "asked (d # ds) = (if d = Some Cancel then [d] else d # asked ds)"

definition answers_at_once :: "'e PolicyDecision option list \<Rightarrow> 'e PolicyDecision list" where
  "answers_at_once ds = map the (filter (\<lambda>d. d \<noteq> None) (asked ds))"

definition answers_later :: "'e PolicyDecision option list \<Rightarrow> nat" where
  "answers_later ds = length (filter (\<lambda>d. d = None) (asked ds))"

text \<open>\<open>Cancel\<close> if a decider cancels; else the first error; else \<open>Allow\<close>.\<close>

fun first_error :: "'e PolicyDecision list \<Rightarrow> 'e PolicyDecision" where
  "first_error [] = Allow"
| "first_error (d # ds) = (if ShouldDisplayError d then d else first_error ds)"

definition combined :: "'e PolicyDecision list \<Rightarrow> 'e PolicyDecision" where
  "combined ds = (if Cancel \<in> set ds then Cancel else first_error ds)"

lemma first_error_snoc: "first_error (ds @ [d]) = (if ShouldAllowNavigation (first_error ds) \<and> ShouldDisplayError d then d else first_error ds)"
  by (induction ds) (auto elim: ShouldDisplayError.elims)

lemma decision_cases: "d = Cancel \<or> d = Allow \<or> (\<exists>e. d = CancelAndDisplayError e)"
  by (cases d) simp_all

text \<open>A tracker that has got the answers \<open>ds\<close> and is not done.\<close>

definition collecting :: "decision_closure \<Rightarrow> 'e PolicyDecision list \<Rightarrow> 'e decision_tracker \<Rightarrow> bool" where
  "collecting c ds t \<longleftrightarrow> Cancel \<notin> set ds \<and> has_callback t \<and> delivered t = [] \<and> result t = first_error ds \<and>
     num_decisions_received t = int (length ds) \<and> decision_closure t = c"

definition done_with :: "'e PolicyDecision \<Rightarrow> 'e decision_tracker \<Rightarrow> bool" where
  "done_with d t \<longleftrightarrow> \<not> has_callback t \<and> delivered t = [d]"

lemma received_cancel:
  "collecting c ds t \<Longrightarrow> \<exists>u. OnSinglePolicyDecisionReceived Cancel t = Inr u \<and> done_with Cancel u"
  by (simp add: OnSinglePolicyDecisionReceived_def collecting_def DeterminedFinalResult_def ShouldCancelNavigation_def
      OnFinalResultDetermined_def deliver_decision_def done_with_def)

lemma received_when_done:
  "done_with d t \<Longrightarrow> OnSinglePolicyDecisionReceived e t = Inr t"
  by (simp add: OnSinglePolicyDecisionReceived_def done_with_def DeterminedFinalResult_def)

lemma received_other:
  assumes "collecting c ds t" and "d \<noteq> Cancel"
  shows "OnSinglePolicyDecisionReceived d t =
    run_decision_closure (t\<lparr>num_decisions_received := int (length (ds @ [d])), result := first_error (ds @ [d])\<rparr>)"
proof -
  have same: "t\<lparr>num_decisions_received := n, result := first_error ds\<rparr> = t\<lparr>num_decisions_received := n\<rparr>" for n
    using assms by (intro decision_tracker.equality) (simp_all add: collecting_def)
  consider "d = Allow" | e where "d = CancelAndDisplayError e" using assms(2) decision_cases by blast
  then show ?thesis
    using assms(1)
    by cases (simp_all add: same OnSinglePolicyDecisionReceived_def collecting_def DeterminedFinalResult_def
        ShouldCancelNavigation_def first_error_snoc add.commute Let_def)
qed

lemma received_before_the_barrier:
  "collecting Do_nothing ds t \<Longrightarrow> d \<noteq> Cancel \<Longrightarrow>
     \<exists>u. OnSinglePolicyDecisionReceived d t = Inr u \<and> collecting Do_nothing (ds @ [d]) u"
  by (simp add: received_other) (simp add: collecting_def run_decision_closure_def)

lemma received_at_the_barrier:
  "collecting (Barrier n) ds t \<Longrightarrow> d \<noteq> Cancel \<Longrightarrow> 0 < n \<Longrightarrow>
     \<exists>u. OnSinglePolicyDecisionReceived d t = Inr u \<and>
       (if n = 1 then done_with (first_error (ds @ [d])) u else collecting (Barrier (n - 1)) (ds @ [d]) u)"
  by (cases "n = 1"; simp add: received_other)
    (simp_all add: collecting_def done_with_def run_decision_closure_def OnFinalResultDetermined_def deliver_decision_def)

section \<open>Asking and waiting\<close>

lemma answers_simps [simp]:
  "answers_at_once [] = []" "answers_later [] = 0"
  "answers_at_once (d # ds) = (case d of None \<Rightarrow> answers_at_once ds | Some e \<Rightarrow> e # (if e = Cancel then [] else answers_at_once ds))"
  "answers_later (d # ds) = (if d = None then Suc (answers_later ds) else if d = Some Cancel then 0 else answers_later ds)"
  by (simp_all add: answers_at_once_def answers_later_def split: option.split)

lemma answers_of_asked: "length (asked ds) = length (answers_at_once ds) + answers_later ds"
  by (induction ds) (auto split: option.split)

lemma ask_deciders_result:
  assumes "collecting Do_nothing as t"
  shows "\<exists>u. ask_deciders ds r k t = Inr (u, r + int (length (asked ds)), k + answers_later ds) \<and>
    (if Cancel \<in> set (answers_at_once ds) then done_with Cancel u else collecting Do_nothing (as @ answers_at_once ds) u)"
  using assms
proof (induction ds arbitrary: as r k t)
  case Nil
  then show ?case by simp
next
  case (Cons d ds)
  have open_tracker: "\<not> DeterminedFinalResult v" if "collecting c bs v" for c bs and v :: "'a decision_tracker"
    using that by (simp add: collecting_def DeterminedFinalResult_def)
  have closed_tracker: "DeterminedFinalResult v" if "done_with e v" for e and v :: "'a decision_tracker"
    using that by (simp add: done_with_def DeterminedFinalResult_def)
  consider (kept) "d = None" | (cancel) "d = Some Cancel" | (other) e where "d = Some e" "e \<noteq> Cancel"
    by (cases d) auto
  then show ?case
  proof cases
    case kept
    then show ?thesis
      using Cons.IH [OF Cons.prems, of "r + 1" "Suc k"] open_tracker [OF Cons.prems] by (auto simp: add.assoc)
  next
    case cancel
    obtain u where "OnSinglePolicyDecisionReceived Cancel t = Inr u" "done_with Cancel u"
      using received_cancel [OF Cons.prems] by auto
    then show ?thesis using cancel closed_tracker by simp
  next
    case other
    obtain u where u: "OnSinglePolicyDecisionReceived e t = Inr u" "collecting Do_nothing (as @ [e]) u"
      using received_before_the_barrier [OF Cons.prems other(2)] by auto
    then show ?thesis
      using Cons.IH [OF u(2), of "r + 1" k] open_tracker [OF u(2)] other by (auto simp: add.assoc)
  qed
qed

text \<open>The state in which \<open>xs\<close> are the answers so far, \<open>None\<close> for a callback that was let go, and \<open>k\<close> callbacks are kept.\<close>

definition verdict :: "'e PolicyDecision option list \<Rightarrow> 'e PolicyDecision" where
  "verdict xs = (if None \<in> set xs then Cancel else combined (map the xs))"

definition given :: "'e PolicyDecision option list \<Rightarrow> 'e PolicyDecision list" where
  "given xs = map the (filter (\<lambda>x. x \<noteq> None) xs)"

definition let_go :: "'e PolicyDecision option list \<Rightarrow> nat" where
  "let_go xs = length (filter (\<lambda>x. x = None) xs)"

lemma answers_snoc [simp]:
  "given (xs @ [x]) = (case x of None \<Rightarrow> given xs | Some d \<Rightarrow> given xs @ [d])"
  "let_go (xs @ [x]) = (if x = None then Suc (let_go xs) else let_go xs)"
  by (simp_all add: given_def let_go_def split: option.split)

lemma let_go_0: "let_go xs = 0 \<longleftrightarrow> None \<notin> set xs"
  by (induction xs) (auto simp: let_go_def)

lemma given_all: "None \<notin> set xs \<Longrightarrow> given xs = map the xs"
proof (induction xs)
  case (Cons x xs)
  then show ?case by (cases x) (simp_all add: given_def)
qed (simp add: given_def)

lemma cancel_given: "Some Cancel \<in> set xs \<longleftrightarrow> Cancel \<in> set (given xs)"
  by (force simp: given_def)

definition waiting :: "'e PolicyDecision option list \<Rightarrow> nat \<Rightarrow> 'e decision_state \<Rightarrow> bool" where
  "waiting xs k s \<longleftrightarrow> callbacks_kept s = k \<and>
     (if Some Cancel \<in> set xs then done_with Cancel (tracker s)
      else if k = 0 then done_with (verdict xs) (tracker s)
      else collecting (Barrier (int (k + let_go xs))) (given xs) (tracker s))"

text \<open>Once all callbacks but the kept ones are gone, the tracker is deleted if none is kept.\<close>

lemma release_last:
  assumes "collecting c (given xs) t" and "None \<in> set xs"
  shows "\<exists>s. release_callback \<lparr>tracker = t, callbacks_kept = 0\<rparr> = Inr s \<and> waiting xs 0 s"
proof -
  have "Some Cancel \<notin> set xs" using assms(1) by (simp add: cancel_given collecting_def)
  then show ?thesis
    using assms
    by (simp add: release_callback_def destroy_tracker_def deliver_decision_def collecting_def waiting_def done_with_def verdict_def)
qed

lemma release_done:
  assumes "done_with d t"
  shows "release_callback \<lparr>tracker = t, callbacks_kept = k\<rparr> = Inr \<lparr>tracker = t, callbacks_kept = k\<rparr>"
  using assms by (simp add: release_callback_def destroy_tracker_def done_with_def)

lemma decider_step_waiting:
  assumes "waiting xs (Suc k) s"
  shows "\<exists>t. decider_step s x = Inr t \<and> waiting (xs @ [x]) k t"
proof (cases "Some Cancel \<in> set xs")
  case True
  then have d: "done_with Cancel (tracker s)" "callbacks_kept s = Suc k" using assms by (simp_all add: waiting_def)
  then have "decider_step s x = Inr \<lparr>tracker = tracker s, callbacks_kept = k\<rparr>"
    by (simp add: decider_step_def received_when_done [OF d(1)] release_done [OF d(1)] split: option.split)
  then show ?thesis using d True by (simp add: waiting_def)
next
  case False
  let ?n = "int (Suc k + let_go xs)"
  have c: "collecting (Barrier ?n) (given xs) (tracker s)" and k: "callbacks_kept s = Suc k"
    using assms False by (simp_all add: waiting_def)
  consider (none) "x = None" | (cancel) "x = Some Cancel" | (other) d where "x = Some d" "d \<noteq> Cancel" by (cases x) auto
  then show ?thesis
  proof cases
    case none
    show ?thesis
    proof (cases k)
      case 0
      then show ?thesis using release_last [of "Barrier ?n" "xs @ [x]" "tracker s"] c k none by (simp add: decider_step_def)
    next
      case (Suc j)
      then show ?thesis using c k none False by (simp add: decider_step_def release_callback_def waiting_def)
    qed
  next
    case cancel
    obtain u where u: "OnSinglePolicyDecisionReceived Cancel (tracker s) = Inr u" "done_with Cancel u"
      using received_cancel [OF c] by auto
    then show ?thesis using cancel k by (simp add: decider_step_def release_done waiting_def)
  next
    case other
    then obtain u where u: "OnSinglePolicyDecisionReceived d (tracker s) = Inr u"
      "if ?n = 1 then done_with (first_error (given xs @ [d])) u else collecting (Barrier (?n - 1)) (given xs @ [d]) u"
      using received_at_the_barrier [OF c other(2)] by auto
    have fresh: "Some Cancel \<notin> set (xs @ [x])" using False other by simp
    show ?thesis
    proof (cases "?n = 1")
      case True
      then have "None \<notin> set (xs @ [x])" using other let_go_0 [of xs] by simp
      then have "verdict (xs @ [x]) = first_error (given xs @ [d])"
        using fresh cancel_given [of "xs @ [x]"] given_all [of "xs @ [x]"] other by (simp add: verdict_def combined_def)
      then show ?thesis using True u other k fresh by (simp add: decider_step_def release_done waiting_def)
    next
      case n: False
      show ?thesis
      proof (cases k)
        case 0
        then have "None \<in> set (xs @ [x])" using n let_go_0 [of xs] by auto
        then show ?thesis using release_last [of "Barrier (?n - 1)" "xs @ [x]" u] n u other k 0 by (simp add: decider_step_def)
      next
        case (Suc j)
        then show ?thesis using n u other k fresh by (simp add: decider_step_def release_callback_def waiting_def)
      qed
    qed
  qed
qed

lemma WebState_ShouldAllow_waiting:
  "\<exists>s. WebState_ShouldAllow ds = Inr s \<and> waiting (map Some (answers_at_once ds)) (answers_later ds) s"
proof -
  have "collecting Do_nothing [] PolicyDecisionStateTracker" by (simp add: collecting_def PolicyDecisionStateTracker_def)
  then obtain t where ask: "ask_deciders ds 0 0 PolicyDecisionStateTracker =
        Inr (t, int (length (asked ds)), answers_later ds)"
    and t: "if Cancel \<in> set (answers_at_once ds) then done_with Cancel t else collecting Do_nothing (answers_at_once ds) t"
    using ask_deciders_result [of "[]" PolicyDecisionStateTracker ds 0 0] by (simp only: append_Nil add_0) blast
  have answers: "given (map Some (answers_at_once ds)) = answers_at_once ds" "let_go (map Some (answers_at_once ds)) = 0"
    "verdict (map Some (answers_at_once ds)) = combined (answers_at_once ds)"
    by (simp_all add: given_def let_go_def verdict_def comp_def filter_map image_iff)
  show ?thesis
  proof (cases "Cancel \<in> set (answers_at_once ds)")
    case True
    then have "done_with Cancel t" using t by simp
    then show ?thesis
      using True ask
      by (simp add: WebState_ShouldAllow_def FinishedRequestingDecisions_def done_with_def DeterminedFinalResult_def
          release_callback_def destroy_tracker_def waiting_def image_iff)
  next
    case False
    then have c: "collecting Do_nothing (answers_at_once ds) t" using t by simp
    then have "FinishedRequestingDecisions (int (length (asked ds))) t =
        (if answers_later ds = 0 then OnFinalResultDetermined (t\<lparr>decision_closure := Do_nothing\<rparr>)
         else Inr (t\<lparr>decision_closure := Barrier (int (answers_later ds))\<rparr>))"
      by (simp add: FinishedRequestingDecisions_def collecting_def DeterminedFinalResult_def answers_of_asked)
    then show ?thesis
      using c ask answers False
      by (simp add: WebState_ShouldAllow_def OnFinalResultDetermined_def deliver_decision_def collecting_def release_callback_def
          destroy_tracker_def waiting_def done_with_def combined_def image_iff)
  qed
qed

lemma decider_steps_waiting:
  assumes "waiting xs k s" and "length ys \<le> k"
  shows "\<exists>t. orun decider_step s ys = Inr t \<and> waiting (xs @ ys) (k - length ys) t"
  using assms
proof (induction ys arbitrary: xs k s)
  case (Cons y ys)
  then obtain j where "k = Suc j" by (cases k) simp_all
  then obtain u where "decider_step s y = Inr u" "waiting (xs @ [y]) j u"
    using decider_step_waiting Cons.prems(1) by blast
  then show ?case using Cons.IH [of "xs @ [y]" j u] Cons.prems(2) \<open>k = Suc j\<close> by simp
qed simp

text \<open>C29: a tab that asks its policy deciders about a navigation gets exactly one decision, whatever they do: answer
  at once, later in any order, or let go of their callback.  As soon as one cancels, the decision is to
  cancel, and no further decider is asked.  Without that there is none while an answer is missing; when
  the last one comes, the decision is the first error to be shown, or to allow, if all have answered, and to
  cancel if one never will.  No \<open>DCHECK\<close> or \<open>CHECK\<close> fails.\<close>
theorem navigation_gets_one_decision:
  assumes "length xs \<le> answers_later deciders"
  shows "\<exists>s. obind (WebState_ShouldAllow deciders) (\<lambda>s. orun decider_step s xs) = Inr s \<and>
    delivered (tracker s) =
      (if Cancel \<in> set (answers_at_once deciders) \<or> Some Cancel \<in> set xs then [Cancel]
       else if length xs < answers_later deciders then []
       else if None \<in> set xs then [Cancel]
       else [first_error (answers_at_once deciders @ map the xs)])"
proof -
  obtain s where s: "WebState_ShouldAllow deciders = Inr s" "waiting (map Some (answers_at_once deciders)) (answers_later deciders) s"
    using WebState_ShouldAllow_waiting by blast
  then obtain t where t: "orun decider_step s xs = Inr t"
      "waiting (map Some (answers_at_once deciders) @ xs) (answers_later deciders - length xs) t"
    using decider_steps_waiting assms by blast
  then have "delivered (tracker t) = (if Some Cancel \<in> set (map Some (answers_at_once deciders) @ xs) then [Cancel]
      else if length xs < answers_later deciders then []
      else [verdict (map Some (answers_at_once deciders) @ xs)])"
    using assms by (auto simp: waiting_def done_with_def collecting_def)
  moreover have "Some Cancel \<in> set (map Some (answers_at_once deciders) @ xs) \<longleftrightarrow>
      Cancel \<in> set (answers_at_once deciders) \<or> Some Cancel \<in> set xs"
    by auto
  moreover have "verdict (map Some (answers_at_once deciders) @ xs) =
      (if None \<in> set xs then Cancel else first_error (answers_at_once deciders @ map the xs))"
    if "Cancel \<notin> set (answers_at_once deciders)" "Some Cancel \<notin> set xs"
  proof (cases "None \<in> set xs")
    case False
    then have "Cancel \<notin> set (map the xs)" using that(2) by (auto simp: image_iff) (metis option.exhaust_sel)
    then show ?thesis using False that by (simp add: verdict_def combined_def image_iff comp_def)
  qed (simp add: verdict_def)
  ultimately show ?thesis using s(1) t(1) by auto
qed

theorem navigation_gets_one_decision_witness:
  "\<exists>s. obind (WebState_ShouldAllow [Some Allow, None, Some (CancelAndDisplayError ''first''), None])
        (\<lambda>s. orun decider_step s [Some (CancelAndDisplayError ''second''), Some Allow]) = Inr s \<and>
    delivered (tracker s) = [CancelAndDisplayError ''first'']"
  using navigation_gets_one_decision [of "[Some (CancelAndDisplayError ''second''), Some Allow]"
      "[Some Allow, None, Some (CancelAndDisplayError ''first''), None]"]
  by simp

end
