(* ===== verification/App_Launcher.thy ===== *)
theory App_Launcher
  imports Web_State_List_Inv Policy_Decisions
begin

text \<open>
  Launching other apps from a page, \<open>chrome/browser/app_launcher\<close>: the abuse detector with a state per
  page and scheme (\<open>app_launching_state.mm\<close>, \<open>app_launcher_abuse_detector.mm\<close>), the policy decider of
  a tab (\<open>app_launcher_tab_helper.mm\<close>), and its delegate (\<open>app_launcher_browser_agent.mm\<close>).  \<open>app_ops\<close>
  holds what comes from \<open>GURL\<close>, the policy and the embedder, \<open>request_env\<close> what is asked of the tab
  and the application when a request comes.  Times are microseconds.

  The properties are that the detector, which keeps two numbers, decides by the whole history of the
  requests, and which requests launch an app.
\<close>

section \<open>The abuse detector\<close>

record app_launching_state =
  last_app_launch_time :: "int option"
  consecutive_launches_count :: int
  app_launching_blocked :: bool

definition AppLaunchingState :: app_launching_state where
  "AppLaunchingState = \<lparr>last_app_launch_time = None, consecutive_launches_count = 0, app_launching_blocked = False\<rparr>"

definition max_seconds_between_consecutive_launches :: int where
  "max_seconds_between_consecutive_launches = 30 * 1000000"

definition updateWithLaunchRequest :: "int \<Rightarrow> app_launching_state \<Rightarrow> app_launching_state" where
  "updateWithLaunchRequest now s =
     (if app_launching_blocked s then s
      else s\<lparr>consecutive_launches_count :=
               (case last_app_launch_time s of
                  None \<Rightarrow> 1
                | Some t \<Rightarrow> if now - t > max_seconds_between_consecutive_launches then 1
                            else consecutive_launches_count s + 1),
             last_app_launch_time := Some now\<rparr>)"

definition kMaxAllowedConsecutiveExternalAppLaunches :: int where
  "kMaxAllowedConsecutiveExternalAppLaunches = 2"

datatype ExternalAppLaunchPolicy = PolicyAllow | PolicyPrompt | PolicyBlock

record 'u app_ops =
  url_scheme :: "'u \<Rightarrow> string"
  url_content :: "'u \<Rightarrow> string"
  url_is_valid :: "'u \<Rightarrow> bool"
  url_has_scheme :: "'u \<Rightarrow> bool"
  url_origin :: "'u \<Rightarrow> 'u"
  url_has_web_scheme :: "'u \<Rightarrow> bool"
  is_app_specific_url :: "'u \<Rightarrow> bool"
  url_blocklist_is_enabled :: bool
  url_in_blocklist :: "'u \<Rightarrow> bool"
  all_bundle_url_schemes :: "string list"
  u2f_x_callback_url :: "'u \<Rightarrow> 'u \<Rightarrow> 'u"

type_synonym app_launching_states = "string \<Rightarrow> app_launching_state option"

definition stateKeyForAppURL :: "'u app_ops \<Rightarrow> 'u \<Rightarrow> 'u \<Rightarrow> string" where
  "stateKeyForAppURL P app_url source_page_url = url_content P source_page_url @ '' '' @ url_scheme P app_url"

definition didRequestLaunchExternalAppURL ::
    "'u app_ops \<Rightarrow> int \<Rightarrow> 'u \<Rightarrow> 'u \<Rightarrow> app_launching_states \<Rightarrow> app_launching_states" where
  "didRequestLaunchExternalAppURL P now url source_page_url d =
     (let key = stateKeyForAppURL P url source_page_url;
          s = (case d key of None \<Rightarrow> AppLaunchingState | Some s \<Rightarrow> s)
      in d(key \<mapsto> updateWithLaunchRequest now s))"

definition launchPolicyForURL :: "'u app_ops \<Rightarrow> 'u \<Rightarrow> 'u \<Rightarrow> app_launching_states \<Rightarrow> ExternalAppLaunchPolicy" where
  "launchPolicyForURL P url source_page_url d =
     (case d (stateKeyForAppURL P url source_page_url) of
        None \<Rightarrow> PolicyAllow
      | Some s \<Rightarrow>
          if app_launching_blocked s then PolicyBlock
          else if consecutive_launches_count s > kMaxAllowedConsecutiveExternalAppLaunches then PolicyPrompt
          else PolicyAllow)"

text \<open>A message to \<open>nil\<close> does nothing: only an app that has been requested can be blocked.\<close>

definition blockLaunchingAppURL :: "'u app_ops \<Rightarrow> 'u \<Rightarrow> 'u \<Rightarrow> app_launching_states \<Rightarrow> app_launching_states" where
  "blockLaunchingAppURL P url source_page_url d =
     (let key = stateKeyForAppURL P url source_page_url in
      case d key of None \<Rightarrow> d | Some s \<Rightarrow> d(key \<mapsto> s\<lparr>app_launching_blocked := True\<rparr>))"

section \<open>The delegate\<close>

text \<open>Opening a URL, handing a mail to its handler, the two dialogs that are put into a queue, and the
  report of the tab helper to the reading list.  A dialog holds what its callback needs.\<close>

datatype 'u launch_action =
    Open_url 'u
  | Handle_mailto_url 'u
  | Confirm_launch 'u
  | Confirm_repeated_launch 'u
  | Set_read_status 'u

definition app_store_schemes :: "string set" where
  "app_store_schemes = {''itms'', ''itmss'', ''itms-apps'', ''itms-appss'', ''itms-books'', ''itms-bookss''}"

definition UrlHasAppStoreScheme :: "'u app_ops \<Rightarrow> 'u \<Rightarrow> bool" where
  "UrlHasAppStoreScheme P url \<longleftrightarrow> url_scheme P url \<in> app_store_schemes"

definition LaunchExternalApp :: "'u \<Rightarrow> bool \<Rightarrow> 'u launch_action list" where
  "LaunchExternalApp url user_accepted = (if user_accepted then [Open_url url] else [])"

definition LaunchAppForTabHelper :: "'u app_ops \<Rightarrow> bool \<Rightarrow> 'u \<Rightarrow> bool \<Rightarrow> 'u launch_action list" where
  "LaunchAppForTabHelper P application_active url link_transition =
     (if \<not> application_active then []
      else if url_scheme P url = ''mailto'' then [Handle_mailto_url url]
      else if UrlHasAppStoreScheme P url \<or> \<not> link_transition then [Confirm_launch url]
      else LaunchExternalApp url True)"

text \<open>The tab whose queue gets the dialog.\<close>

definition GetQueueForAppLaunchDialog ::
    "(wsid \<Rightarrow> int) \<Rightarrow> (wsid \<Rightarrow> bool) \<Rightarrow> web_state_list \<Rightarrow> wsid \<Rightarrow> wsid outcome" where
  "GetQueueForAppLaunchDialog item_count has_opener l web_state =
     (if item_count web_state = 0 \<and> has_opener web_state
      then obind (GetOpenerOfWebStateAt l (GetIndexOfWebState l (Some web_state)))
             (\<lambda>entry. Inr (case opener entry of None \<Rightarrow> web_state | Some w \<Rightarrow> w))
      else Inr web_state)"

section \<open>The tab helper\<close>

text \<open>\<open>alert\<close> is the URL that the callback of the shown alert launches; \<open>actions\<close> records what happened,
  and \<open>requests\<close> the requests that the detector was told of (key and time); neither is part of the code.\<close>

record 'u tab_helper =
  abuse_detector :: app_launching_states
  has_delegate :: bool
  is_prompt_active :: bool
  alert :: "'u option"
  actions :: "'u launch_action list"
  requests :: "(string \<times> int) list"

definition AppLauncherTabHelper :: "'u tab_helper" where
  "AppLauncherTabHelper = \<lparr>abuse_detector = Map.empty, has_delegate = False, is_prompt_active = False, alert = None,
     actions = [], requests = []\<rparr>"

record 'u request_env =
  env_time :: int
  application_is_active :: bool
  last_committed_item_url :: "'u option"
  last_committed_url :: 'u
  pending_original_url :: "'u option"
  reading_list_is_loaded :: bool

record request_info =
  target_frame_is_main :: bool
  target_frame_is_cross_origin :: bool
  has_user_gesture :: bool
  transition_is_link :: bool

definition IsAppUrl :: "'u app_ops \<Rightarrow> 'u \<Rightarrow> bool" where
  "IsAppUrl P url \<longleftrightarrow> \<not> (url_has_web_scheme P url \<or> is_app_specific_url P url \<or> url_scheme P url = ''file'' \<or>
     url_scheme P url = ''about'' \<or> url_scheme P url = ''blob'')"

definition IsValidAppUrl :: "'u app_ops \<Rightarrow> 'u \<Rightarrow> bool" where
  "IsValidAppUrl P url =
     (if \<not> url_is_valid P url then False
      else if \<not> url_has_scheme P url then False
      else if url_scheme P url = ''u2f-x-callback'' then False
      else if url_scheme P url = ''app-settings'' then False
      else True)"

definition HasChromeAppScheme :: "'u app_ops \<Rightarrow> 'u \<Rightarrow> bool" where
  "HasChromeAppScheme P url \<longleftrightarrow> url_scheme P url \<in> set (all_bundle_url_schemes P)"

definition act :: "'u launch_action list \<Rightarrow> 'u tab_helper \<Rightarrow> 'u tab_helper" where
  "act as h = h\<lparr>actions := actions h @ as\<rparr>"

definition RequestToLaunchApp :: "'u app_ops \<Rightarrow> 'u request_env \<Rightarrow> 'u \<Rightarrow> 'u \<Rightarrow> bool \<Rightarrow> 'u tab_helper \<Rightarrow> 'u tab_helper" where
  "RequestToLaunchApp P E url source_page_url link_transition h =
     (if \<not> application_is_active E then h
      else if is_prompt_active h then h
      else
        let h = h\<lparr>abuse_detector := didRequestLaunchExternalAppURL P (env_time E) url source_page_url (abuse_detector h),
                  requests := requests h @ [(stateKeyForAppURL P url source_page_url, env_time E)]\<rparr>
        in case launchPolicyForURL P url source_page_url (abuse_detector h) of
             PolicyBlock \<Rightarrow> h
           | PolicyAllow \<Rightarrow>
               if has_delegate h then act (LaunchAppForTabHelper P (application_is_active E) url link_transition) h else h
           | PolicyPrompt \<Rightarrow>
               let h = h\<lparr>is_prompt_active := True\<rparr> in
               if \<not> has_delegate h then h else act [Confirm_repeated_launch url] (h\<lparr>alert := Some url\<rparr>))"

text \<open>The completion of the alert.\<close>

definition repeated_launch_answered :: "'u app_ops \<Rightarrow> bool \<Rightarrow> bool \<Rightarrow> 'u tab_helper \<Rightarrow> 'u tab_helper" where
  "repeated_launch_answered P application_active user_allowed h =
     (case alert h of
        None \<Rightarrow> h
      | Some url \<Rightarrow>
          let h = h\<lparr>alert := None\<rparr>;
              h = (if user_allowed \<and> has_delegate h then act (LaunchAppForTabHelper P application_active url True) h else h)
          in h\<lparr>is_prompt_active := False\<rparr>)"

definition ShouldAllowRequest ::
    "'u app_ops \<Rightarrow> 'u request_env \<Rightarrow> request_info \<Rightarrow> 'u \<Rightarrow> 'u tab_helper \<Rightarrow> (unit PolicyDecision \<times> 'u tab_helper) outcome" where
  "ShouldAllowRequest P E info url h =
     (if \<not> IsAppUrl P url then Inr (Allow, h)
      else if url_blocklist_is_enabled P \<and> url_in_blocklist P url then Inr (CancelAndDisplayError (), h)
      else if url_scheme P url = ''tel'' \<and> target_frame_is_cross_origin info then Inr (Cancel, h)
      else if \<not> target_frame_is_main info \<and> (\<not> has_user_gesture info \<or> HasChromeAppScheme P url) then Inr (Cancel, h)
      else if \<not> IsValidAppUrl P url then Inr (Cancel, h)
      else
        let u2f = (url_scheme P url = ''u2f'') in
        obind (if u2f
               then (case last_committed_item_url E of
                       None \<Rightarrow> Inl Null_dereference
                     | Some committed \<Rightarrow> Inr (u2f_x_callback_url P url (url_origin P committed)))
               else Inr url)
          (\<lambda>request_url.
            if u2f \<and> \<not> url_is_valid P request_url then Inr (Cancel, h)
            else
              let h = (case pending_original_url E of
                         None \<Rightarrow> h
                       | Some original \<Rightarrow>
                           if \<not> transition_is_link info \<and> url_is_valid P original \<and> reading_list_is_loaded E
                           then act [Set_read_status original] h else h);
                  h = (if url_is_valid P (last_committed_url E) \<or> last_committed_item_url E = None
                       then RequestToLaunchApp P E request_url (last_committed_url E) (transition_is_link info) h else h)
              in Inr (Cancel, h)))"

section \<open>The history that the detector counts\<close>

text \<open>How many of the last requests came each within the time after the one before; newest first.\<close>

fun run_length :: "int list \<Rightarrow> nat" where
  "run_length [] = 0"
| "run_length [t] = 1"
| "run_length (t # u # ts) = (if t - u > max_seconds_between_consecutive_launches then 1 else Suc (run_length (u # ts)))"

definition times_of :: "string \<Rightarrow> (string \<times> int) list \<Rightarrow> int list" where
  "times_of key reqs = rev (map snd (filter (\<lambda>r. fst r = key) reqs))"

definition detector_of :: "(string \<times> int) list \<Rightarrow> app_launching_states" where
  "detector_of reqs key =
     (case times_of key reqs of
        [] \<Rightarrow> None
      | t # ts \<Rightarrow> Some \<lparr>last_app_launch_time = Some t, consecutive_launches_count = int (run_length (t # ts)),
                      app_launching_blocked = False\<rparr>)"

lemma times_of_append: "times_of key (reqs @ [(k, t)]) = (if k = key then t # times_of key reqs else times_of key reqs)"
  by (simp add: times_of_def)

lemma run_length_Cons:
  "int (run_length (t # ts)) = (case ts of [] \<Rightarrow> 1 | u # _ \<Rightarrow>
     if t - u > max_seconds_between_consecutive_launches then 1 else int (run_length ts) + 1)"
  by (cases ts) simp_all

lemma request_is_counted:
  "didRequestLaunchExternalAppURL P now url source (detector_of reqs) =
     detector_of (reqs @ [(stateKeyForAppURL P url source, now)])"
  by (rule ext)
    (auto simp: didRequestLaunchExternalAppURL_def detector_of_def times_of_append updateWithLaunchRequest_def AppLaunchingState_def
      Let_def run_length_Cons split: list.split)

definition policy_of :: "(string \<times> int) list \<Rightarrow> string \<Rightarrow> ExternalAppLaunchPolicy" where
  "policy_of reqs key = (if run_length (times_of key reqs) > 2 then PolicyPrompt else PolicyAllow)"

lemma policy_is_that_of_the_history:
  "launchPolicyForURL P url source (detector_of reqs) = policy_of reqs (stateKeyForAppURL P url source)"
  by (auto simp: launchPolicyForURL_def detector_of_def policy_of_def kMaxAllowedConsecutiveExternalAppLaunches_def split: list.split)

section \<open>Runs of a tab helper\<close>

datatype 'u helper_op =
    Request "'u request_env" request_info 'u
  | Alert_answered bool bool
  | Delegate_set bool

fun helper_step :: "'u app_ops \<Rightarrow> 'u tab_helper \<Rightarrow> 'u helper_op \<Rightarrow> 'u tab_helper outcome" where
  "helper_step P h (Request E info url) = obind (ShouldAllowRequest P E info url h) (\<lambda>(decision, t). Inr t)"
| "helper_step P h (Alert_answered application_active user_allowed) =
     Inr (repeated_launch_answered P application_active user_allowed h)"
| "helper_step P h (Delegate_set present) = Inr (h\<lparr>has_delegate := present\<rparr>)"

text \<open>The page that asks for a security key has been committed.\<close>

definition request_ok :: "'u app_ops \<Rightarrow> 'u request_env \<Rightarrow> 'u \<Rightarrow> bool" where
  "request_ok P E url \<longleftrightarrow> url_scheme P url \<noteq> ''u2f'' \<or> last_committed_item_url E \<noteq> None"

fun helper_ok :: "'u app_ops \<Rightarrow> 'u tab_helper \<Rightarrow> 'u helper_op \<Rightarrow> bool" where
  "helper_ok P h (Request E info url) = request_ok P E url"
| "helper_ok P h (Alert_answered _ _) \<longleftrightarrow> alert h \<noteq> None"
| "helper_ok P h (Delegate_set _) = True"

definition helper_inv :: "'u tab_helper \<Rightarrow> bool" where
  "helper_inv h \<longleftrightarrow> abuse_detector h = detector_of (requests h) \<and> (alert h \<noteq> None \<longrightarrow> is_prompt_active h)"

text \<open>What the decider lets through to the launch, and the URL that is launched then.\<close>

definition passes :: "'u app_ops \<Rightarrow> request_info \<Rightarrow> 'u \<Rightarrow> bool" where
  "passes P info url \<longleftrightarrow> IsAppUrl P url \<and> \<not> (url_blocklist_is_enabled P \<and> url_in_blocklist P url) \<and>
     \<not> (url_scheme P url = ''tel'' \<and> target_frame_is_cross_origin info) \<and>
     (target_frame_is_main info \<or> has_user_gesture info \<and> url_scheme P url \<notin> set (all_bundle_url_schemes P)) \<and>
     url_is_valid P url \<and> url_has_scheme P url \<and> url_scheme P url \<notin> {''u2f-x-callback'', ''app-settings''}"

definition launch_target :: "'u app_ops \<Rightarrow> 'u request_env \<Rightarrow> 'u \<Rightarrow> 'u" where
  "launch_target P E url =
     (if url_scheme P url = ''u2f'' then u2f_x_callback_url P url (url_origin P (the (last_committed_item_url E))) else url)"

definition decision_for :: "'u app_ops \<Rightarrow> 'u \<Rightarrow> unit PolicyDecision" where
  "decision_for P url =
     (if \<not> IsAppUrl P url then Allow
      else if url_blocklist_is_enabled P \<and> url_in_blocklist P url then CancelAndDisplayError () else Cancel)"

text \<open>The reading list learns of a page that was redirected, if the request got as far.\<close>

definition read_marks :: "'u app_ops \<Rightarrow> 'u request_env \<Rightarrow> request_info \<Rightarrow> 'u launch_action list" where
  "read_marks P E info =
     (case pending_original_url E of
        None \<Rightarrow> []
      | Some original \<Rightarrow>
          if \<not> transition_is_link info \<and> url_is_valid P original \<and> reading_list_is_loaded E then [Set_read_status original] else [])"

definition gets_through :: "'u app_ops \<Rightarrow> 'u request_env \<Rightarrow> request_info \<Rightarrow> 'u \<Rightarrow> bool" where
  "gets_through P E info url \<longleftrightarrow>
     passes P info url \<and> (url_scheme P url = ''u2f'' \<longrightarrow> url_is_valid P (launch_target P E url))"

definition asks_for_app :: "'u app_ops \<Rightarrow> 'u request_env \<Rightarrow> request_info \<Rightarrow> 'u \<Rightarrow> 'u tab_helper \<Rightarrow> bool" where
  "asks_for_app P E info url h \<longleftrightarrow> gets_through P E info url \<and>
     (url_is_valid P (last_committed_url E) \<or> last_committed_item_url E = None) \<and> application_is_active E \<and> \<not> is_prompt_active h"

lemma ShouldAllowRequest_stops:
  assumes "\<not> passes P info url"
  shows "ShouldAllowRequest P E info url h = Inr (decision_for P url, h)"
  using assms
  by (auto simp: ShouldAllowRequest_def passes_def decision_for_def IsValidAppUrl_def HasChromeAppScheme_def)

lemma ShouldAllowRequest_passes:
  assumes "passes P info url" and "request_ok P E url"
  shows "ShouldAllowRequest P E info url h =
    Inr (Cancel,
      if gets_through P E info url
      then (if url_is_valid P (last_committed_url E) \<or> last_committed_item_url E = None
            then RequestToLaunchApp P E (launch_target P E url) (last_committed_url E) (transition_is_link info)
              (act (read_marks P E info) h)
            else act (read_marks P E info) h)
      else h)"
proof -
  have act_Nil: "act [] h = h" for h :: "'a tab_helper" by (simp add: act_def)
  have marks: "(case pending_original_url E of None \<Rightarrow> h | Some original \<Rightarrow>
      if \<not> transition_is_link info \<and> url_is_valid P original \<and> reading_list_is_loaded E
      then act [Set_read_status original] h else h) = act (read_marks P E info) h"
    by (simp add: read_marks_def act_Nil split: option.split)
  have passed: "IsAppUrl P url" "\<not> (url_blocklist_is_enabled P \<and> url_in_blocklist P url)"
    "\<not> (url_scheme P url = ''tel'' \<and> target_frame_is_cross_origin info)"
    "\<not> (\<not> target_frame_is_main info \<and> (\<not> has_user_gesture info \<or> HasChromeAppScheme P url))" "IsValidAppUrl P url"
    using assms(1) by (auto simp: passes_def HasChromeAppScheme_def IsValidAppUrl_def)
  show ?thesis
  proof (cases "url_scheme P url = ''u2f''")
    case True
    then obtain committed where "last_committed_item_url E = Some committed"
      using assms(2) by (auto simp: request_ok_def)
    then show ?thesis
      using True passed assms(1)
      by (auto simp: ShouldAllowRequest_def gets_through_def launch_target_def marks Let_def)
  next
    case False
    then show ?thesis
      using passed assms(1)
      by (auto simp: ShouldAllowRequest_def gets_through_def launch_target_def marks Let_def)
  qed
qed

text \<open>A launch, by the history of the requests.\<close>

definition told :: "'u app_ops \<Rightarrow> 'u request_env \<Rightarrow> 'u \<Rightarrow> 'u tab_helper \<Rightarrow> (string \<times> int) list" where
  "told P E url h = requests h @ [(stateKeyForAppURL P (launch_target P E url) (last_committed_url E), env_time E)]"

definition in_a_row :: "'u app_ops \<Rightarrow> 'u request_env \<Rightarrow> 'u \<Rightarrow> 'u tab_helper \<Rightarrow> nat" where
  "in_a_row P E url h =
     run_length (times_of (stateKeyForAppURL P (launch_target P E url) (last_committed_url E)) (told P E url h))"

lemma RequestToLaunchApp_by_history:
  assumes "abuse_detector h = detector_of (requests h)" and "application_is_active E" and "\<not> is_prompt_active h"
  shows "RequestToLaunchApp P E url source link h =
    (let reqs = requests h @ [(stateKeyForAppURL P url source, env_time E)];
         t = h\<lparr>abuse_detector := detector_of reqs, requests := reqs\<rparr>
     in if run_length (times_of (stateKeyForAppURL P url source) reqs) > 2
        then (let t = t\<lparr>is_prompt_active := True\<rparr> in
              if has_delegate h then act [Confirm_repeated_launch url] (t\<lparr>alert := Some url\<rparr>) else t)
        else if has_delegate h then act (LaunchAppForTabHelper P True url link) t else t)"
  using assms
  by (simp add: RequestToLaunchApp_def request_is_counted policy_is_that_of_the_history policy_of_def Let_def)

lemma ShouldAllowRequest_by_history:
  assumes "abuse_detector h = detector_of (requests h)" and "request_ok P E url"
  shows "ShouldAllowRequest P E info url h =
    Inr (decision_for P url,
      let marked = (if gets_through P E info url then act (read_marks P E info) h else h) in
      if asks_for_app P E info url h
      then RequestToLaunchApp P E (launch_target P E url) (last_committed_url E) (transition_is_link info) marked
      else marked)"
proof (cases "passes P info url")
  case True
  moreover have "decision_for P url = Cancel" using True by (simp add: decision_for_def passes_def)
  moreover have "RequestToLaunchApp P E u v link t = t" if "\<not> application_is_active E \<or> is_prompt_active t" for u v link t
    using that by (auto simp: RequestToLaunchApp_def)
  ultimately show ?thesis
    using ShouldAllowRequest_passes [OF True assms(2)] by (auto simp: asks_for_app_def act_def Let_def)
next
  case False
  then show ?thesis using ShouldAllowRequest_stops [OF False] by (simp add: asks_for_app_def gets_through_def)
qed

lemma RequestToLaunchApp_keeps: "helper_inv h \<Longrightarrow> helper_inv (RequestToLaunchApp P E url source link h)"
  by (auto simp: helper_inv_def RequestToLaunchApp_def act_def request_is_counted Let_def split: ExternalAppLaunchPolicy.split)

lemma act_keeps [simp]: "helper_inv (act as h) = helper_inv h"
  by (simp add: helper_inv_def act_def)

lemma helper_step_safe:
  assumes "helper_inv h" and "helper_ok P h x"
  shows "\<exists>t. helper_step P h x = Inr t \<and> helper_inv t"
proof (cases x)
  case (Request E info url)
  then show ?thesis
    using assms ShouldAllowRequest_by_history [of h P E url info] RequestToLaunchApp_keeps [of "act (read_marks P E info) h"]
      RequestToLaunchApp_keeps [of h]
    by (auto simp: Let_def helper_inv_def [of h])
next
  case (Alert_answered active allowed)
  then show ?thesis using assms by (auto simp: helper_inv_def repeated_launch_answered_def act_def Let_def split: option.split)
next
  case (Delegate_set present)
  then show ?thesis using assms by (simp add: helper_inv_def)
qed

interpretation launcher: checked_machine "helper_step P" "helper_ok P" helper_inv for P
  by unfold_locales (rule helper_step_safe)

lemma new_helper_inv: "helper_inv AppLauncherTabHelper"
  by (auto simp: helper_inv_def AppLauncherTabHelper_def detector_of_def times_of_def)


section \<open>Where the code stops or gets stuck\<close>

text \<open>A page that asks for a security key as the first URL of its tab.\<close>

lemma security_key_without_a_page:
  assumes "passes P info url" and "url_scheme P url = ''u2f''" and "last_committed_item_url E = None"
  shows "ShouldAllowRequest P E info url h = Inl Null_dereference"
  using assms by (auto simp: ShouldAllowRequest_def passes_def HasChromeAppScheme_def IsValidAppUrl_def)

text \<open>A third request in a row while there is no delegate: no alert is shown, but from then on no app is launched.\<close>

lemma stuck_step:
  assumes "is_prompt_active h" and "alert h = None" and "helper_ok P h x" and "helper_step P h x = Inr t"
  shows "is_prompt_active t \<and> alert t = None \<and> requests t = requests h"
proof (cases x)
  case (Request E info url)
  have "RequestToLaunchApp P E u v link g = g" if "is_prompt_active g" for E u v link g
    using that by (simp add: RequestToLaunchApp_def)
  then show ?thesis
    using assms Request ShouldAllowRequest_stops [of P info url E h] ShouldAllowRequest_passes [of P info url E h]
    by (cases "passes P info url") (auto simp: act_def split: if_splits)
qed (use assms in auto)

lemma prompt_without_a_delegate_is_never_over:
  assumes "is_prompt_active h" and "alert h = None" and "admissible (helper_step P) (helper_ok P) h xs"
    and "orun (helper_step P) h xs = Inr t"
  shows "is_prompt_active t \<and> requests t = requests h"
  using assms
proof (induction xs arbitrary: h)
  case (Cons x xs)
  then obtain u where u: "helper_step P h x = Inr u" "orun (helper_step P) u xs = Inr t" by (auto simp: obind_eq_Inr)
  then have "is_prompt_active u" "alert u = None" "requests u = requests h"
    using stuck_step [of h P x u] Cons.prems by simp_all
  then show ?case using Cons.IH [of u] Cons.prems u by simp
qed simp

text \<open>The dialog goes to a tab of the strip.\<close>

lemma dialog_goes_to_a_tab:
  assumes "wsl_inv l" and "web_state \<in> set (web_states l)"
  shows "\<exists>w. GetQueueForAppLaunchDialog item_count has_opener l web_state = Inr w \<and> w \<in> set (web_states l)"
proof -
  obtain j where j: "j < length (web_state_wrappers l)" "GetIndexOfWebState l (Some web_state) = int j"
    using GetIndexOfWebState_Some [OF assms(2)] by auto
  then have "ContainsIndex l (int j)" by (simp add: ContainsIndex_iff)
  moreover have "w \<in> set (web_states l)" if "opener (w_opener (web_state_wrappers l ! j)) = Some w" for w
    using assms(1) nth_mem [OF j(1)] that by (simp add: wsl_inv_def openers_ok_def web_states_def)
  ultimately show ?thesis
    using j assms(2) by (simp add: GetQueueForAppLaunchDialog_def GetOpenerOfWebStateAt_def split: option.split)
qed

section \<open>A run\<close>

text \<open>URLs are strings, the scheme is what stands before the colon; every request comes from one page.\<close>

definition demo_app_ops :: "string app_ops" where
  "demo_app_ops = \<lparr>url_scheme = takeWhile (\<lambda>c. c \<noteq> CHR '':''), url_content = (\<lambda>u. tl (dropWhile (\<lambda>c. c \<noteq> CHR '':'') u)),
     url_is_valid = (\<lambda>u. u \<noteq> []), url_has_scheme = (\<lambda>u. True), url_origin = (\<lambda>u. u),
     url_has_web_scheme = (\<lambda>u. takeWhile (\<lambda>c. c \<noteq> CHR '':'') u = ''https''), is_app_specific_url = (\<lambda>_. False),
     url_blocklist_is_enabled = False, url_in_blocklist = (\<lambda>_. False), all_bundle_url_schemes = [], u2f_x_callback_url = (\<lambda>u _. u)\<rparr>"

definition demo_env :: "int \<Rightarrow> string request_env" where
  "demo_env s = \<lparr>env_time = s * 1000000, application_is_active = True, last_committed_item_url = Some ''https://a'',
     last_committed_url = ''https://a'', pending_original_url = None, reading_list_is_loaded = True\<rparr>"

definition demo_click :: request_info where
  "demo_click = \<lparr>target_frame_is_main = True, target_frame_is_cross_origin = False, has_user_gesture = True, transition_is_link = True\<rparr>"

definition demo_requests :: "string helper_op list" where
  "demo_requests = [Delegate_set True, Request (demo_env 1) demo_click ''facetime:x'', Request (demo_env 25) demo_click ''facetime:y'']"


end
