(* ===== verification/Safe_Browsing.thy ===== *)
theory Safe_Browsing
  imports Policy_Decisions
begin

text \<open>
  Safe browsing of a tab: the policy decider of \<open>chrome/browser/safe_browsing/safe_browsing_tab_helper.mm\<close> and
  the manager of its queries, \<open>safe_browsing_query_manager.mm\<close>.  Each request of a page starts a query
  about its URL and goes on; the response waits until the query, and those of the redirects that led to
  it, are answered.  \<open>sb_ops\<close> holds what comes from \<open>GURL\<close> and the safe browsing service, \<open>sb_env\<close> what is
  asked of the tab in a step.

  The frame queries of \<open>pending_sub_frame_queries_\<close> are kept in the order of their insertion; what the
  callbacks do is not looked into.

  A response callback is a number.  \<open>answered\<close> records the callbacks that were run, for the main frame with
  the queries that the decision was made of; \<open>let_go\<close> those that were destroyed without being run, which
  cancels the navigation as well (theory \<open>Policy_Decisions\<close>); \<open>verdicts\<close> the answers to main frame
  queries that were taken into account.  They are not part of the code.
\<close>

type_synonym decision = "unit PolicyDecision"

record 'u sb_ops =
  canonicalized :: "'u \<Rightarrow> 'u"
  can_check_url :: "'u \<Rightarrow> bool"
  url_host :: "'u \<Rightarrow> string"

record 'u main_frame_query =
  mq_url :: 'u
  mq_decision :: "decision option"
  mq_callback :: "nat option"

record sub_frame_query =
  sq_decision :: "decision option"
  sq_callbacks :: "nat list"

record 'u sb_query =
  query_url :: 'u
  main_frame_item_id :: int
  query_id :: nat

record sb_result =
  proceed :: bool
  show_error_page :: bool
  has_resource :: bool

datatype 'u sb_answer =
    Main_answer nat decision "('u \<times> decision option) list"
  | Sub_answer nat decision

datatype 'u sb_command =
    Cancel_prerender
  | Discard_and_reload
  | Add_pending_unsafe_navigation_decision 'u

text \<open>The items that have an unsafe sub frame resource are named by their identifiers.\<close>

record 'u sb_state =
  pending_main_frame_query :: "'u main_frame_query option"
  previous_main_frame_query :: "'u main_frame_query option"
  pending_main_frame_redirect_chain :: "'u main_frame_query list"
  pending_sub_frame_queries :: "('u \<times> sub_frame_query) list"
  query_results :: "('u sb_query \<times> sb_result) list"
  next_query_id :: nat
  main_frame_unsafe_resource :: "'u option"
  sub_frame_unsafe_items :: "int list"
  answered :: "'u sb_answer list"
  let_go_of :: "nat list"
  verdicts :: "('u \<times> decision) list"
  commands :: "'u sb_command list"

record 'u sb_env =
  last_committed_item :: "(int \<times> 'u) option"
  reloads_committed_item :: bool
  is_prerendered :: bool

definition SafeBrowsingTabHelper :: "'u sb_state" where
  "SafeBrowsingTabHelper = \<lparr>pending_main_frame_query = None, previous_main_frame_query = None,
     pending_main_frame_redirect_chain = [], pending_sub_frame_queries = [], query_results = [], next_query_id = 0,
     main_frame_unsafe_resource = None, sub_frame_unsafe_items = [], answered = [], let_go_of = [], verdicts = [],
     commands = []\<rparr>"

definition CreateSafeBrowsingErrorDecision :: decision where
  "CreateSafeBrowsingErrorDecision = CancelAndDisplayError ()"

section \<open>The query manager\<close>

definition IsMainFrame :: "'u sb_query \<Rightarrow> bool" where
  "IsMainFrame q \<longleftrightarrow> main_frame_item_id q = -1"

definition StartQuery :: "'u \<Rightarrow> int \<Rightarrow> 'u sb_state \<Rightarrow> 'u sb_state" where
  "StartQuery url item_id s =
     s\<lparr>query_results := query_results s @
         [(\<lparr>query_url = url, main_frame_item_id = item_id, query_id = next_query_id s\<rparr>,
           \<lparr>proceed = False, show_error_page = False, has_resource = False\<rparr>)],
       next_query_id := next_query_id s + 1\<rparr>"

fun update_first :: "('a \<Rightarrow> bool) \<Rightarrow> ('a \<Rightarrow> 'a) \<Rightarrow> 'a list \<Rightarrow> 'a list" where
  "update_first p f [] = []"
| "update_first p f (x # xs) = (if p x then f x # xs else x # update_first p f xs)"

definition StoreUnsafeResource :: "'u \<Rightarrow> bool \<Rightarrow> 'u sb_state \<Rightarrow> 'u sb_state" where
  "StoreUnsafeResource url is_main_frame s =
     s\<lparr>query_results := update_first (\<lambda>(q, r). query_url q = url \<and> IsMainFrame q = is_main_frame \<and> \<not> has_resource r)
         (\<lambda>(q, r). (q, r\<lparr>has_resource := True\<rparr>)) (query_results s)\<rparr>"

section \<open>Callbacks\<close>

definition new_main_frame_query :: "'u \<Rightarrow> 'u main_frame_query" where
  "new_main_frame_query url = \<lparr>mq_url = url, mq_decision = None, mq_callback = None\<rparr>"

definition record_answer :: "'u sb_answer \<Rightarrow> 'u sb_state \<Rightarrow> 'u sb_state" where
  "record_answer a s = s\<lparr>answered := answered s @ [a]\<rparr>"

text \<open>The destructor of a query cancels the response that waits for it.\<close>

definition destroy_main_query :: "'u main_frame_query \<Rightarrow> 'u sb_state \<Rightarrow> 'u sb_state" where
  "destroy_main_query q s = (case mq_callback q of None \<Rightarrow> s | Some i \<Rightarrow> record_answer (Main_answer i Cancel [(mq_url q, mq_decision q)]) s)"

definition clear_redirect_chain :: "'u sb_state \<Rightarrow> 'u sb_state" where
  "clear_redirect_chain s = (fold destroy_main_query (pending_main_frame_redirect_chain s) s)\<lparr>pending_main_frame_redirect_chain := []\<rparr>"

definition destroy_sub_query :: "sub_frame_query \<Rightarrow> 'u sb_state \<Rightarrow> 'u sb_state" where
  "destroy_sub_query q = fold (\<lambda>i. record_answer (Sub_answer i Cancel)) (sq_callbacks q)"

definition UpdateForMainFrameDocumentChange :: "'u sb_state \<Rightarrow> 'u sb_state" where
  "UpdateForMainFrameDocumentChange s =
     (fold (\<lambda>(url, q). destroy_sub_query q) (pending_sub_frame_queries s) s)\<lparr>pending_sub_frame_queries := []\<rparr>"

definition UpdateForMainFrameServerRedirect :: "'u sb_state \<Rightarrow> 'u sb_state" where
  "UpdateForMainFrameServerRedirect s =
     (case previous_main_frame_query s of
        None \<Rightarrow> s
      | Some q \<Rightarrow> s\<lparr>pending_main_frame_redirect_chain := pending_main_frame_redirect_chain s @ [q], previous_main_frame_query := None\<rparr>)"

text \<open>A callback in an object that is assigned to is destroyed without being run.\<close>

definition let_go_callback :: "nat option \<Rightarrow> 'u sb_state \<Rightarrow> 'u sb_state" where
  "let_go_callback c s = (case c of None \<Rightarrow> s | Some i \<Rightarrow> s\<lparr>let_go_of := let_go_of s @ [i]\<rparr>)"

section \<open>Requests\<close>

definition track_main_frame_query :: "'u \<Rightarrow> 'u sb_state \<Rightarrow> 'u sb_state" where
  "track_main_frame_query url s =
     (let s = (case pending_main_frame_query s of
                 None \<Rightarrow> s
               | Some q \<Rightarrow>
                   (let_go_callback (case previous_main_frame_query s of None \<Rightarrow> None | Some p \<Rightarrow> mq_callback p) s)
                     \<lparr>previous_main_frame_query := Some q\<rparr>)
      in s\<lparr>pending_main_frame_query := Some (new_main_frame_query url)\<rparr>)"

definition track_sub_frame_query :: "'u \<Rightarrow> 'u sb_state \<Rightarrow> 'u sb_state" where
  "track_sub_frame_query url s =
     (if url \<in> fst ` set (pending_sub_frame_queries s) then s
      else s\<lparr>pending_sub_frame_queries := pending_sub_frame_queries s @ [(url, \<lparr>sq_decision = None, sq_callbacks = []\<rparr>)]\<rparr>)"

definition decide_pending :: "decision \<Rightarrow> 'u sb_state \<Rightarrow> 'u sb_state" where
  "decide_pending d s = s\<lparr>pending_main_frame_query := map_option (\<lambda>q. q\<lparr>mq_decision := Some d\<rparr>) (pending_main_frame_query s)\<rparr>"

text \<open>\<open>ShouldAllowRequest\<close>: every request is allowed.\<close>

definition SB_ShouldAllowRequest :: "'u sb_ops \<Rightarrow> 'u sb_env \<Rightarrow> bool \<Rightarrow> 'u \<Rightarrow> 'u sb_state \<Rightarrow> decision \<times> 'u sb_state" where
  "SB_ShouldAllowRequest P E is_main_frame request_url s =
     (let url = canonicalized P request_url in
      if \<not> can_check_url P url then (Allow, s)
      else
        let s = (if is_main_frame then track_main_frame_query url s else track_sub_frame_query url s) in
        if is_main_frame \<and> main_frame_unsafe_resource s = Some url
        then (Allow, decide_pending CreateSafeBrowsingErrorDecision s)
        else if is_main_frame \<and> reloads_committed_item E \<and>
                (case last_committed_item E of None \<Rightarrow> False | Some (i, _) \<Rightarrow> i \<in> set (sub_frame_unsafe_items s))
        then (Allow, decide_pending CreateSafeBrowsingErrorDecision s)
        else if is_main_frame then (Allow, StartQuery url (-1) s)
        else (case last_committed_item E of None \<Rightarrow> (Allow, s) | Some (i, _) \<Rightarrow> (Allow, StartQuery url i s)))"

section \<open>Responses\<close>

text \<open>The loop over the chain of redirects.\<close>

fun chain_loop :: "decision option \<Rightarrow> 'u main_frame_query list \<Rightarrow> decision option" where
  "chain_loop d [] = d"
| "chain_loop d (q # qs) =
     (case mq_decision q of
        None \<Rightarrow> chain_loop None qs
      | Some e \<Rightarrow> if ShouldCancelNavigation e then Some e else chain_loop d qs)"

definition MainFrameRedirectChainDecision :: "'u main_frame_query \<Rightarrow> 'u main_frame_query list \<Rightarrow> decision option" where
  "MainFrameRedirectChainDecision pending chain =
     (case mq_decision pending of
        None \<Rightarrow> chain_loop None chain
      | Some d \<Rightarrow> if ShouldCancelNavigation d then Some d else chain_loop (Some d) chain)"

definition queries_of :: "'u main_frame_query \<Rightarrow> 'u main_frame_query list \<Rightarrow> ('u \<times> decision option) list" where
  "queries_of pending chain = map (\<lambda>q. (mq_url q, mq_decision q)) (chain @ [pending])"

definition forget_previous_chain :: "'u sb_state \<Rightarrow> 'u sb_state" where
  "forget_previous_chain s =
     (case previous_main_frame_query s of
        None \<Rightarrow> s
      | Some p \<Rightarrow> clear_redirect_chain ((destroy_main_query p s)\<lparr>previous_main_frame_query := None\<rparr>))"

definition HandleMainFrameResponsePolicy :: "'u sb_ops \<Rightarrow> 'u \<Rightarrow> nat \<Rightarrow> 'u sb_state \<Rightarrow> 'u sb_state outcome" where
  "HandleMainFrameResponsePolicy P url callback s =
     (case pending_main_frame_query s of
        None \<Rightarrow> Inl Dcheck_failed
      | Some q \<Rightarrow>
          dcheck (pending_main_frame_redirect_chain s \<noteq> [] \<or> url_host P (mq_url q) = url_host P url)
            (let s = forget_previous_chain s;
                 chain = pending_main_frame_redirect_chain s
             in case MainFrameRedirectChainDecision q chain of
                  Some d \<Rightarrow> Inr (clear_redirect_chain (record_answer (Main_answer callback d (queries_of q chain)) s))
                | None \<Rightarrow> Inr ((let_go_callback (mq_callback q) s)
                    \<lparr>pending_main_frame_query := Some (q\<lparr>mq_callback := Some callback\<rparr>)\<rparr>)))"

definition HandleSubFrameResponsePolicy :: "'u \<Rightarrow> nat \<Rightarrow> 'u sb_state \<Rightarrow> 'u sb_state outcome" where
  "HandleSubFrameResponsePolicy url callback s =
     (case map_of (pending_sub_frame_queries s) url of
        None \<Rightarrow> Inl Dcheck_failed
      | Some q \<Rightarrow>
          (case sq_decision q of
             Some d \<Rightarrow> Inr (record_answer (Sub_answer callback d) s)
           | None \<Rightarrow> Inr (s\<lparr>pending_sub_frame_queries :=
               update_first (\<lambda>p. fst p = url) (\<lambda>(u, q). (u, q\<lparr>sq_callbacks := sq_callbacks q @ [callback]\<rparr>))
                 (pending_sub_frame_queries s)\<rparr>)))"

text \<open>The callback of a response that need not be checked is run at once and not recorded.\<close>

definition SB_ShouldAllowResponse :: "'u sb_ops \<Rightarrow> bool \<Rightarrow> 'u \<Rightarrow> nat \<Rightarrow> 'u sb_state \<Rightarrow> 'u sb_state outcome" where
  "SB_ShouldAllowResponse P for_main_frame response_url callback s =
     (let url = canonicalized P response_url in
      if \<not> can_check_url P url then Inr s
      else if for_main_frame then HandleMainFrameResponsePolicy P url callback s
      else HandleSubFrameResponsePolicy url callback s)"

section \<open>Answers to queries\<close>

definition undecided :: "'u \<Rightarrow> 'u main_frame_query \<Rightarrow> bool" where
  "undecided url q \<longleftrightarrow> mq_url q = url \<and> mq_decision q = None"

text \<open>Whether \<open>GetOldestPendingMainFrameQuery\<close> finds a query; \<open>decide_oldest\<close> writes through its result.\<close>

definition GetOldestPendingMainFrameQuery :: "'u \<Rightarrow> 'u sb_state \<Rightarrow> 'u main_frame_query option" where
  "GetOldestPendingMainFrameQuery url s =
     (case find (undecided url) (pending_main_frame_redirect_chain s) of
        Some q \<Rightarrow> Some q
      | None \<Rightarrow> (case pending_main_frame_query s of None \<Rightarrow> None | Some q \<Rightarrow> if undecided url q then Some q else None))"

definition decide_oldest :: "'u \<Rightarrow> decision \<Rightarrow> 'u sb_state \<Rightarrow> 'u sb_state outcome" where
  "decide_oldest url d s =
     (if list_ex (undecided url) (pending_main_frame_redirect_chain s)
      then Inr (s\<lparr>pending_main_frame_redirect_chain :=
             update_first (undecided url) (\<lambda>q. q\<lparr>mq_decision := Some d\<rparr>) (pending_main_frame_redirect_chain s)\<rparr>)
      else if GetOldestPendingMainFrameQuery url s \<noteq> None then Inr (decide_pending d s)
      else Inl Null_dereference)"

definition IsQueryStale :: "'u sb_env \<Rightarrow> 'u sb_query \<Rightarrow> 'u sb_state \<Rightarrow> bool" where
  "IsQueryStale E q s =
     (if IsMainFrame q then GetOldestPendingMainFrameQuery (query_url q) s = None
      else (case last_committed_item E of None \<Rightarrow> True | Some (i, _) \<Rightarrow>
              i \<noteq> main_frame_item_id q \<or> query_url q \<notin> fst ` set (pending_sub_frame_queries s)))"

definition tab_command :: "'u sb_command \<Rightarrow> 'u sb_state \<Rightarrow> 'u sb_state" where
  "tab_command c s = s\<lparr>commands := commands s @ [c]\<rparr>"

definition OnMainFrameUrlQueryDecided :: "'u sb_env \<Rightarrow> 'u \<Rightarrow> decision \<Rightarrow> 'u sb_state \<Rightarrow> 'u sb_state outcome" where
  "OnMainFrameUrlQueryDecided E url decision s =
     obind (decide_oldest url decision s) (\<lambda>s.
       case pending_main_frame_query s of
         None \<Rightarrow> Inl Null_dereference
       | Some q \<Rightarrow>
           let chain = pending_main_frame_redirect_chain s;
               s = (case mq_callback q of
                      None \<Rightarrow> s
                    | Some i \<Rightarrow>
                        (case MainFrameRedirectChainDecision q chain of
                           None \<Rightarrow> s
                         | Some d \<Rightarrow> clear_redirect_chain
                             (record_answer (Main_answer i d (queries_of q chain))
                               (s\<lparr>pending_main_frame_query := Some (q\<lparr>mq_callback := None\<rparr>)\<rparr>))))
           in Inr (if is_prerendered E \<and> ShouldCancelNavigation decision then tab_command Cancel_prerender s else s))"

definition OnSubFrameUrlQueryDecided :: "'u sb_env \<Rightarrow> 'u \<Rightarrow> decision \<Rightarrow> 'u sb_state \<Rightarrow> 'u sb_state outcome" where
  "OnSubFrameUrlQueryDecided E url decision s =
     (case map_of (pending_sub_frame_queries s) url of
        None \<Rightarrow> Inl Dcheck_failed
      | Some q \<Rightarrow>
          let s = fold (\<lambda>i. record_answer (Sub_answer i decision)) (sq_callbacks q) s;
              s = s\<lparr>pending_sub_frame_queries := update_first (\<lambda>p. fst p = url)
                     (\<lambda>(u, q). (u, q\<lparr>sq_decision := Some decision, sq_callbacks := []\<rparr>)) (pending_sub_frame_queries s)\<rparr>
          in if is_prerendered E \<and> ShouldCancelNavigation decision then Inr (tab_command Cancel_prerender s)
             else if ShouldCancelNavigation decision \<and> ShouldDisplayError decision
             then dcheck (case last_committed_item E of None \<Rightarrow> False | Some (i, _) \<Rightarrow> i \<in> set (sub_frame_unsafe_items s))
                    (Inr (tab_command Discard_and_reload s))
             else Inr s)"

definition HandlePolicyDecision :: "'u sb_env \<Rightarrow> 'u sb_query \<Rightarrow> decision \<Rightarrow> 'u sb_state \<Rightarrow> 'u sb_state outcome" where
  "HandlePolicyDecision E query decision s =
     dcheck (\<not> IsQueryStale E query s)
       (if IsMainFrame query then OnMainFrameUrlQueryDecided E (query_url query) decision (s\<lparr>verdicts := verdicts s @ [(query_url query, decision)]\<rparr>)
        else OnSubFrameUrlQueryDecided E (query_url query) decision s)"

definition decision_of :: "sb_result \<Rightarrow> decision" where
  "decision_of r = (if show_error_page r then CreateSafeBrowsingErrorDecision else if \<not> proceed r then Cancel else Allow)"

definition store_resource :: "'u sb_ops \<Rightarrow> 'u sb_env \<Rightarrow> 'u sb_query \<Rightarrow> 'u sb_state \<Rightarrow> 'u sb_state outcome" where
  "store_resource P E query s =
     (if IsMainFrame query
      then Inr (tab_command (Add_pending_unsafe_navigation_decision (query_url query)) s\<lparr>main_frame_unsafe_resource := Some (query_url query)\<rparr>)
      else (case last_committed_item E of
              None \<Rightarrow> Inl Null_dereference
            | Some (i, url) \<Rightarrow> dcheck (main_frame_item_id query = i)
                (Inr (tab_command (Add_pending_unsafe_navigation_decision (canonicalized P url)) s
                       \<lparr>sub_frame_unsafe_items := i # sub_frame_unsafe_items s\<rparr>))))"

definition SafeBrowsingQueryFinished ::
    "'u sb_ops \<Rightarrow> 'u sb_env \<Rightarrow> 'u sb_query \<Rightarrow> sb_result \<Rightarrow> 'u sb_state \<Rightarrow> 'u sb_state outcome" where
  "SafeBrowsingQueryFinished P E query res s =
     (if IsQueryStale E query s then Inr s
      else
        let policy_decision = decision_of res in
        obind (if ShouldDisplayError policy_decision then dcheck (has_resource res) (store_resource P E query s) else Inr s)
          (HandlePolicyDecision E query policy_decision))"

text \<open>Queries are ordered, and found, by their identifiers.\<close>

definition result_of :: "'u sb_query \<Rightarrow> 'u sb_state \<Rightarrow> ('u sb_query \<times> sb_result) option" where
  "result_of query s = find (\<lambda>(q, _). query_id q = query_id query) (query_results s)"

definition UrlCheckFinished :: "'u sb_ops \<Rightarrow> 'u sb_env \<Rightarrow> 'u sb_query \<Rightarrow> bool \<Rightarrow> bool \<Rightarrow> 'u sb_state \<Rightarrow> 'u sb_state outcome" where
  "UrlCheckFinished P E query proceeds shows_error_page s =
     (case result_of query s of
        None \<Rightarrow> Inl Dcheck_failed
      | Some (_, r) \<Rightarrow>
          dcheck (\<not> shows_error_page \<or> has_resource r)
            (obind (SafeBrowsingQueryFinished P E query (r\<lparr>proceed := proceeds, show_error_page := shows_error_page\<rparr>) s)
              (\<lambda>s. Inr (s\<lparr>query_results := filter (\<lambda>(q, _). query_id q \<noteq> query_id query) (query_results s)\<rparr>))))"

section \<open>Events\<close>

text \<open>\<open>Resources_decided\<close>: the user has decided about the stored resources, so that they are pending no more.\<close>

datatype 'u sb_event =
    Frame_request bool 'u
  | Frame_response bool 'u nat
  | Server_redirect
  | Document_change
  | Unsafe_resource_found 'u bool
  | Query_finished "'u sb_query" bool bool
  | Resources_decided bool "int list"

fun sb_step :: "'u sb_ops \<Rightarrow> 'u sb_state \<Rightarrow> 'u sb_env \<times> 'u sb_event \<Rightarrow> 'u sb_state outcome" where
  "sb_step P s (E, Frame_request is_main_frame url) = Inr (snd (SB_ShouldAllowRequest P E is_main_frame url s))"
| "sb_step P s (E, Frame_response for_main_frame url callback) = SB_ShouldAllowResponse P for_main_frame url callback s"
| "sb_step P s (E, Server_redirect) = Inr (UpdateForMainFrameServerRedirect s)"
| "sb_step P s (E, Document_change) = Inr (UpdateForMainFrameDocumentChange s)"
| "sb_step P s (E, Unsafe_resource_found url is_main_frame) = Inr (StoreUnsafeResource url is_main_frame s)"
| "sb_step P s (E, Query_finished query proceeds shows_error) = UrlCheckFinished P E query proceeds shows_error s"
| "sb_step P s (E, Resources_decided main_frame items) =
     Inr (s\<lparr>main_frame_unsafe_resource := (if main_frame then None else main_frame_unsafe_resource s),
           sub_frame_unsafe_items := filter (\<lambda>i. i \<notin> set items) (sub_frame_unsafe_items s)\<rparr>)"

text \<open>What the tab and the service guarantee: a response comes after its request, the main frame's from its host
  unless it was redirected; a query is answered once, with an error page only if its resource was stored.\<close>

fun sb_ok :: "'u sb_ops \<Rightarrow> 'u sb_state \<Rightarrow> 'u sb_env \<times> 'u sb_event \<Rightarrow> bool" where
  "sb_ok P s (E, Frame_response for_main_frame url callback) \<longleftrightarrow>
     (can_check_url P (canonicalized P url) \<longrightarrow>
      (if for_main_frame
       then (case pending_main_frame_query s of None \<Rightarrow> False | Some q \<Rightarrow>
               pending_main_frame_redirect_chain s \<noteq> [] \<or> url_host P (mq_url q) = url_host P (canonicalized P url))
       else canonicalized P url \<in> fst ` set (pending_sub_frame_queries s)))"
| "sb_ok P s (E, Query_finished query proceeds shows_error) \<longleftrightarrow>
     (case result_of query s of None \<Rightarrow> False | Some (q, r) \<Rightarrow> q = query \<and> (shows_error \<longrightarrow> has_resource r))"
| "sb_ok P s (E, _) = True"

end
