(* ===== verification/Safe_Browsing_Steps.thy ===== *)
theory Safe_Browsing_Steps
  imports Safe_Browsing
begin

text \<open>
  What the operations of \<open>Safe_Browsing\<close> do: the decision of a chain of redirects, the callbacks of destroyed
  queries, the separation of main frame and sub frames, and the invariant \<open>sb_inv\<close> under which only safe
  pages pass.
\<close>

section \<open>The decision of a chain\<close>

lemma chain_loop_is:
  "chain_loop d qs =
     (case find (\<lambda>q. case mq_decision q of None \<Rightarrow> False | Some e \<Rightarrow> ShouldCancelNavigation e) qs of
        Some q \<Rightarrow> mq_decision q
      | None \<Rightarrow> if None \<in> mq_decision ` set qs then None else d)"
proof (induction qs arbitrary: d)
  case (Cons q qs)
  then show ?case by (cases "mq_decision q") (auto split: option.splits)
qed simp

lemma should_cancel [simp]:
  "\<not> ShouldCancelNavigation Allow" "ShouldCancelNavigation Cancel" "ShouldCancelNavigation (CancelAndDisplayError e)"
  by (simp_all add: ShouldCancelNavigation_def)

text \<open>A decision that lets a navigation go on is \<open>Allow\<close>.\<close>

lemma not_cancelling: "\<not> ShouldCancelNavigation d \<longleftrightarrow> d = Allow"
  by (cases d) simp_all

definition cancelling :: "'u main_frame_query \<Rightarrow> bool" where
  "cancelling q \<longleftrightarrow> (case mq_decision q of None \<Rightarrow> False | Some d \<Rightarrow> ShouldCancelNavigation d)"

definition overall_decision :: "'u main_frame_query list \<Rightarrow> decision option" where
  "overall_decision qs =
     (case find cancelling qs of
        Some q \<Rightarrow> mq_decision q
      | None \<Rightarrow> if \<forall>q\<in>set qs. mq_decision q = Some Allow then Some Allow else None)"

lemma decision_not_cancelling: "\<not> cancelling q \<Longrightarrow> mq_decision q = None \<or> mq_decision q = Some Allow"
  by (auto simp: cancelling_def not_cancelling split: option.splits)

text \<open>The first cancelling decision counts, the response's own query first; else all must allow.\<close>

lemma chain_decision: "MainFrameRedirectChainDecision q qs = overall_decision (q # qs)"
proof -
  have c: "(\<lambda>q. case mq_decision q of None \<Rightarrow> False | Some e \<Rightarrow> ShouldCancelNavigation e) = (cancelling :: 'a main_frame_query \<Rightarrow> bool)"
    by (auto simp: cancelling_def)
  show ?thesis
  proof (cases "cancelling q")
    case True
    then show ?thesis by (auto simp: MainFrameRedirectChainDecision_def overall_decision_def cancelling_def split: option.splits)
  next
    case False
    then have q: "mq_decision q = None \<or> mq_decision q = Some Allow" by (rule decision_not_cancelling)
    have all: "find cancelling qs = None \<Longrightarrow> None \<notin> mq_decision ` set qs \<longleftrightarrow> (\<forall>q\<in>set qs. mq_decision q = Some Allow)"
      by (simp add: find_None_iff image_iff) (metis decision_not_cancelling option.distinct(1))
    from q show ?thesis
      using False all
      by (auto simp: MainFrameRedirectChainDecision_def chain_loop_is c overall_decision_def not_cancelling split: option.splits)
  qed
qed

lemma overall_allows: "overall_decision qs = Some Allow \<Longrightarrow> q \<in> set qs \<Longrightarrow> mq_decision q = Some Allow"
  by (auto simp: overall_decision_def cancelling_def ShouldCancelNavigation_def find_Some_iff split: option.splits if_splits)

lemma overall_undecided: "overall_decision qs = None \<Longrightarrow> \<exists>q\<in>set qs. mq_decision q = None"
  using decision_not_cancelling
  by (fastforce simp: overall_decision_def find_None_iff find_Some_iff cancelling_def split: option.splits if_splits)

section \<open>What is destroyed\<close>

definition held :: "'u main_frame_query \<Rightarrow> nat list" where
  "held q = (case mq_callback q of None \<Rightarrow> [] | Some i \<Rightarrow> [i])"

definition cancelled :: "'u main_frame_query \<Rightarrow> 'u sb_answer list" where
  "cancelled q = map (\<lambda>i. Main_answer i Cancel [(mq_url q, mq_decision q)]) (held q)"

lemma destroy_main_query_is: "destroy_main_query q s = s\<lparr>answered := answered s @ cancelled q\<rparr>"
  by (auto simp: destroy_main_query_def cancelled_def held_def record_answer_def split: option.split)

lemma fold_destroy_main: "fold destroy_main_query qs s = s\<lparr>answered := answered s @ concat (map cancelled qs)\<rparr>"
  by (induction qs arbitrary: s) (simp_all add: destroy_main_query_is)

lemma clear_redirect_chain_is:
  "clear_redirect_chain s =
     s\<lparr>pending_main_frame_redirect_chain := [], answered := answered s @ concat (map cancelled (pending_main_frame_redirect_chain s))\<rparr>"
  by (simp add: clear_redirect_chain_def fold_destroy_main)

lemma fold_run_sub: "fold (\<lambda>i. record_answer (Sub_answer i d)) is s = s\<lparr>answered := answered s @ map (\<lambda>i. Sub_answer i d) is\<rparr>"
  by (induction "is" arbitrary: s) (simp_all add: record_answer_def)

lemma fold_destroy_sub:
  "fold (\<lambda>(url, q). destroy_sub_query q) xs s =
     s\<lparr>answered := answered s @ concat (map (\<lambda>(url, q). map (\<lambda>i. Sub_answer i Cancel) (sq_callbacks q)) xs)\<rparr>"
  by (induction xs arbitrary: s) (auto simp: destroy_sub_query_def fold_run_sub)

lemma document_change_is:
  "UpdateForMainFrameDocumentChange s =
     s\<lparr>pending_sub_frame_queries := [],
       answered := answered s @ concat (map (\<lambda>(url, q). map (\<lambda>i. Sub_answer i Cancel) (sq_callbacks q)) (pending_sub_frame_queries s))\<rparr>"
  by (simp add: UpdateForMainFrameDocumentChange_def fold_destroy_sub)

lemma forget_previous_chain_is:
  "forget_previous_chain s =
     (case previous_main_frame_query s of
        None \<Rightarrow> s
      | Some p \<Rightarrow> s\<lparr>previous_main_frame_query := None, pending_main_frame_redirect_chain := [],
          answered := answered s @ cancelled p @ concat (map cancelled (pending_main_frame_redirect_chain s))\<rparr>)"
  by (simp add: forget_previous_chain_def clear_redirect_chain_is destroy_main_query_is split: option.split)


section \<open>Updates\<close>

lemma in_update_first: "x \<in> set (update_first p f xs) \<Longrightarrow> x \<in> set xs \<or> (\<exists>y\<in>set xs. p y \<and> x = f y)"
  by (induction xs) (auto split: if_splits)

lemma map_update_first: "(\<And>x. g (f x) = g x) \<Longrightarrow> map g (update_first p f xs) = map g xs"
  by (induction xs) auto

lemma update_first_Nil [simp]: "update_first p f xs = [] \<longleftrightarrow> xs = []"
  by (cases xs) auto

section \<open>Main frame and sub frames\<close>

definition queries :: "'u sb_state \<Rightarrow> 'u main_frame_query list" where
  "queries s = pending_main_frame_redirect_chain s @
     (case previous_main_frame_query s of None \<Rightarrow> [] | Some q \<Rightarrow> [q]) @
     (case pending_main_frame_query s of None \<Rightarrow> [] | Some q \<Rightarrow> [q])"

fun is_main_answer :: "'u sb_answer \<Rightarrow> bool" where
  "is_main_answer (Main_answer _ _ _) = True"
| "is_main_answer (Sub_answer _ _) = False"

fun answered_callback :: "'u sb_answer \<Rightarrow> nat" where
  "answered_callback (Main_answer i _ _) = i"
| "answered_callback (Sub_answer i _) = i"

definition main_answers :: "'u sb_state \<Rightarrow> 'u sb_answer list" where
  "main_answers s = filter is_main_answer (answered s)"

text \<open>What the main frame's decisions are made of.\<close>

definition same_main_frame :: "'u sb_state \<Rightarrow> 'u sb_state \<Rightarrow> bool" where
  "same_main_frame s t \<longleftrightarrow>
     pending_main_frame_query t = pending_main_frame_query s \<and> previous_main_frame_query t = previous_main_frame_query s \<and>
     pending_main_frame_redirect_chain t = pending_main_frame_redirect_chain s \<and> verdicts t = verdicts s \<and>
     main_answers t = main_answers s \<and> let_go_of t = let_go_of s"

lemma no_main_answers [simp]:
  "filter is_main_answer (map (\<lambda>i. Sub_answer i d) is) = []"
  "filter is_main_answer (concat (map (\<lambda>(url, q). map (\<lambda>i. Sub_answer i d) (f q)) xs)) = []"
  by (induction xs) (auto simp: filter_empty_conv)

lemma only_main_answers [simp]:
  "filter is_main_answer (cancelled q) = cancelled q"
  "filter is_main_answer (concat (map cancelled qs)) = concat (map cancelled qs)"
  by (induction qs) (auto simp: cancelled_def intro!: filter_True)

lemma sub_frame_request_aside: "same_main_frame s (snd (SB_ShouldAllowRequest P E False url s))"
  by (auto simp: SB_ShouldAllowRequest_def Let_def track_sub_frame_query_def StartQuery_def same_main_frame_def main_answers_def
      split: option.split)

lemma sub_frame_response_aside:
  "SB_ShouldAllowResponse P False url callback s = Inr t \<Longrightarrow>
     same_main_frame s t \<and> query_results t = query_results s \<and> next_query_id t = next_query_id s"
  by (auto simp: SB_ShouldAllowResponse_def Let_def HandleSubFrameResponsePolicy_def record_answer_def same_main_frame_def main_answers_def
      split: option.splits if_splits)

lemma document_change_aside:
  "same_main_frame s (UpdateForMainFrameDocumentChange s)"
  by (simp add: document_change_is same_main_frame_def main_answers_def)

lemma sub_frame_decision_aside:
  "OnSubFrameUrlQueryDecided E url d s = Inr t \<Longrightarrow>
     same_main_frame s t \<and> query_results t = query_results s \<and> next_query_id t = next_query_id s"
  by (auto simp: OnSubFrameUrlQueryDecided_def fold_run_sub tab_command_def Let_def same_main_frame_def main_answers_def
      split: option.splits if_splits)

lemma sub_frame_decided:
  "map_of (pending_sub_frame_queries s) url \<noteq> None \<Longrightarrow>
     d \<noteq> Cancel \<and> d \<noteq> Allow \<longrightarrow> (\<exists>i u. last_committed_item E = Some (i, u) \<and> i \<in> set (sub_frame_unsafe_items s)) \<Longrightarrow>
     \<exists>t. OnSubFrameUrlQueryDecided E url d s = Inr t"
  by (cases d) (auto simp: OnSubFrameUrlQueryDecided_def ShouldCancelNavigation_def Let_def fold_run_sub)


section \<open>Only safe pages pass\<close>

text \<open>An answer that allows a response was made of queries that were all found safe, its own among them.\<close>

definition well_founded_answer :: "('u \<times> decision) list \<Rightarrow> 'u sb_answer \<Rightarrow> bool" where
  "well_founded_answer vs a \<longleftrightarrow>
     (\<forall>i qs. a = Main_answer i Allow qs \<longrightarrow> qs \<noteq> [] \<and> (\<forall>(url, d)\<in>set qs. d = Some Allow \<and> (url, Allow) \<in> set vs))"

definition well_founded_query :: "('u \<times> decision) list \<Rightarrow> 'u main_frame_query \<Rightarrow> bool" where
  "well_founded_query vs q \<longleftrightarrow> (mq_decision q = Some Allow \<longrightarrow> (mq_url q, Allow) \<in> set vs)"

definition sb_inv :: "'u sb_state \<Rightarrow> bool" where
  "sb_inv s \<longleftrightarrow>
     (pending_main_frame_query s = None \<longrightarrow> pending_main_frame_redirect_chain s = [] \<and> previous_main_frame_query s = None) \<and>
     (\<forall>q\<in>set (queries s). well_founded_query (verdicts s) q) \<and>
     (\<forall>a\<in>set (main_answers s). well_founded_answer (verdicts s) a)"

lemma sb_inv_same_main_frame: "same_main_frame s t \<Longrightarrow> sb_inv s \<Longrightarrow> sb_inv t"
  by (simp add: sb_inv_def same_main_frame_def queries_def)

lemma well_founded_more: "well_founded_query vs q \<Longrightarrow> well_founded_query (vs @ ws) q" "well_founded_answer vs a \<Longrightarrow> well_founded_answer (vs @ ws) a"
  by (auto simp: well_founded_query_def well_founded_answer_def)

lemma cancelled_well_founded [simp]: "a \<in> set (cancelled q) \<Longrightarrow> well_founded_answer vs a"
  by (auto simp: cancelled_def well_founded_answer_def)

lemma new_query_well_founded [simp]: "well_founded_query vs (new_main_frame_query url)"
  by (simp add: well_founded_query_def new_main_frame_query_def)

lemma sb_inv_simps [simp]:
  "sb_inv (s\<lparr>query_results := x\<rparr>) = sb_inv s" "sb_inv (s\<lparr>next_query_id := n\<rparr>) = sb_inv s"
  "sb_inv (s\<lparr>commands := c\<rparr>) = sb_inv s" "sb_inv (s\<lparr>let_go_of := l\<rparr>) = sb_inv s"
  "sb_inv (s\<lparr>main_frame_unsafe_resource := r\<rparr>) = sb_inv s" "sb_inv (s\<lparr>sub_frame_unsafe_items := items\<rparr>) = sb_inv s"
  by (simp_all add: sb_inv_def queries_def main_answers_def)

lemma track_main_frame_query_inv: "sb_inv s \<Longrightarrow> sb_inv (track_main_frame_query url s)"
  by (auto simp: track_main_frame_query_def let_go_callback_def Let_def sb_inv_def queries_def main_answers_def split: option.splits)

lemma decide_pending_error_inv: "sb_inv s \<Longrightarrow> sb_inv (decide_pending CreateSafeBrowsingErrorDecision s)"
  by (auto simp: decide_pending_def CreateSafeBrowsingErrorDecision_def sb_inv_def queries_def main_answers_def well_founded_query_def
      split: option.splits)

lemma request_inv: "sb_inv s \<Longrightarrow> sb_inv (snd (SB_ShouldAllowRequest P E is_main_frame url s))"
proof (cases is_main_frame)
  case True
  then show "sb_inv s \<Longrightarrow> ?thesis"
    by (auto simp: SB_ShouldAllowRequest_def Let_def StartQuery_def intro!: track_main_frame_query_inv decide_pending_error_inv)
next
  case False
  then show "sb_inv s \<Longrightarrow> ?thesis" using sb_inv_same_main_frame [OF sub_frame_request_aside] by simp
qed

lemma redirect_inv: "sb_inv s \<Longrightarrow> sb_inv (UpdateForMainFrameServerRedirect s)"
  by (auto simp: UpdateForMainFrameServerRedirect_def sb_inv_def queries_def main_answers_def split: option.splits)

lemma overall_answer_well_founded:
  assumes "overall_decision (q # qs) = Some d" and "\<forall>x\<in>set (q # qs). well_founded_query vs x"
  shows "well_founded_answer vs (Main_answer i d (queries_of q qs))"
  using assms overall_allows [of "q # qs"]
  by (auto simp: well_founded_answer_def queries_of_def well_founded_query_def)

lemma forget_previous_chain_inv:
  assumes "sb_inv s"
  shows "sb_inv (forget_previous_chain s) \<and> pending_main_frame_query (forget_previous_chain s) = pending_main_frame_query s \<and>
    previous_main_frame_query (forget_previous_chain s) = None \<and> verdicts (forget_previous_chain s) = verdicts s"
  using assms by (auto simp: forget_previous_chain_is sb_inv_def queries_def main_answers_def split: option.splits)

lemma answered_inv:
  assumes "sb_inv s" and "well_founded_answer (verdicts s) a" and "is_main_answer a"
  shows "sb_inv (clear_redirect_chain (record_answer a s))"
  using assms by (auto simp: clear_redirect_chain_is record_answer_def sb_inv_def queries_def main_answers_def split: option.splits)

text \<open>The decision about a response of the main frame.\<close>

definition decided_response :: "nat \<Rightarrow> 'u main_frame_query \<Rightarrow> 'u sb_state \<Rightarrow> 'u sb_state" where
  "decided_response callback q s =
     (case overall_decision (q # pending_main_frame_redirect_chain s) of
        Some d \<Rightarrow> clear_redirect_chain (record_answer (Main_answer callback d (queries_of q (pending_main_frame_redirect_chain s))) s)
      | None \<Rightarrow> (let_go_callback (mq_callback q) s)\<lparr>pending_main_frame_query := Some (q\<lparr>mq_callback := Some callback\<rparr>)\<rparr>)"

lemma main_response_is:
  assumes "sb_ok P s (E, Frame_response True url callback)" and "can_check_url P (canonicalized P url)"
  obtains q where "pending_main_frame_query s = Some q"
    and "SB_ShouldAllowResponse P True url callback s = Inr (decided_response callback q (forget_previous_chain s))"
proof -
  from assms obtain q where q: "pending_main_frame_query s = Some q"
    and ok: "pending_main_frame_redirect_chain s \<noteq> [] \<or> url_host P (mq_url q) = url_host P (canonicalized P url)"
    by (simp split: option.splits)
  have "HandleMainFrameResponsePolicy P (canonicalized P url) callback s = Inr (decided_response callback q (forget_previous_chain s))"
    unfolding HandleMainFrameResponsePolicy_def decided_response_def chain_decision Let_def q option.case using ok
    by (cases "overall_decision (q # pending_main_frame_redirect_chain (forget_previous_chain s))") simp_all
  then show ?thesis using q assms(2) by (intro that [of q]) (simp_all add: SB_ShouldAllowResponse_def Let_def)
qed

lemma decided_response_inv:
  assumes "sb_inv s" and "pending_main_frame_query s = Some q" and "previous_main_frame_query s = None"
  shows "sb_inv (decided_response callback q s)"
proof -
  have "\<forall>x\<in>set (q # pending_main_frame_redirect_chain s). well_founded_query (verdicts s) x"
    using assms by (auto simp: sb_inv_def queries_def)
  moreover have "sb_inv ((let_go_callback c s)\<lparr>pending_main_frame_query := Some (q\<lparr>mq_callback := Some callback\<rparr>)\<rparr>)" for c
    using assms by (auto simp: let_go_callback_def sb_inv_def queries_def main_answers_def well_founded_query_def split: option.split)
  ultimately show ?thesis
    using assms(1) by (auto simp: decided_response_def intro!: answered_inv overall_answer_well_founded split: option.split)
qed

lemma sub_response_total:
  assumes "can_check_url P (canonicalized P url) \<longrightarrow> canonicalized P url \<in> fst ` set (pending_sub_frame_queries s)"
  shows "\<exists>t. SB_ShouldAllowResponse P False url callback s = Inr t"
proof (cases "can_check_url P (canonicalized P url)")
  case True
  then obtain q where "map_of (pending_sub_frame_queries s) (canonicalized P url) = Some q"
    using assms by (cases "map_of (pending_sub_frame_queries s) (canonicalized P url)") (auto simp: map_of_eq_None_iff)
  then show ?thesis by (auto simp: SB_ShouldAllowResponse_def HandleSubFrameResponsePolicy_def Let_def split: option.split)
qed (simp add: SB_ShouldAllowResponse_def Let_def)

lemma response_safe:
  assumes "sb_inv s" and "sb_ok P s (E, Frame_response main url callback)"
  shows "\<exists>t. SB_ShouldAllowResponse P main url callback s = Inr t \<and> sb_inv t"
proof (cases "main \<and> can_check_url P (canonicalized P url)")
  case True
  then obtain q where q: "pending_main_frame_query s = Some q"
    and "SB_ShouldAllowResponse P main url callback s = Inr (decided_response callback q (forget_previous_chain s))"
    using main_response_is [of P s E url callback] assms(2) by auto
  then show ?thesis using forget_previous_chain_inv [OF assms(1)] decided_response_inv by auto
next
  case False
  show ?thesis
  proof (cases main)
    case True
    then show ?thesis using False assms(1) by (simp add: SB_ShouldAllowResponse_def Let_def)
  next
    case False
    then obtain t where t: "SB_ShouldAllowResponse P False url callback s = Inr t"
      using sub_response_total [of P url s callback] assms(2) by auto
    have "same_main_frame s t" using sub_frame_response_aside [OF t] by simp
    then show ?thesis using t False assms(1) by (simp add: sb_inv_same_main_frame)
  qed
qed

text \<open>A decision about the oldest query of a URL, taken into account.\<close>

lemma oldest_cong:
  assumes "pending_main_frame_query t = pending_main_frame_query s"
    and "pending_main_frame_redirect_chain t = pending_main_frame_redirect_chain s"
  shows "GetOldestPendingMainFrameQuery url t = GetOldestPendingMainFrameQuery url s"
  by (simp only: GetOldestPendingMainFrameQuery_def assms)

lemma GetOldest_finds:
  "GetOldestPendingMainFrameQuery url s \<noteq> None \<longleftrightarrow>
     list_ex (undecided url) (pending_main_frame_redirect_chain s) \<or> (\<exists>q. pending_main_frame_query s = Some q \<and> undecided url q)"
  by (auto simp: GetOldestPendingMainFrameQuery_def find_None_iff find_Some_iff list_ex_iff split: option.splits)

definition decided :: "'u \<Rightarrow> decision \<Rightarrow> 'u sb_state \<Rightarrow> 'u sb_state" where
  "decided url d s =
     (if list_ex (undecided url) (pending_main_frame_redirect_chain s)
      then s\<lparr>pending_main_frame_redirect_chain :=
             update_first (undecided url) (\<lambda>q. q\<lparr>mq_decision := Some d\<rparr>) (pending_main_frame_redirect_chain s)\<rparr>
      else decide_pending d s)"

lemma decide_oldest_is: "GetOldestPendingMainFrameQuery url s \<noteq> None \<Longrightarrow> decide_oldest url d s = Inr (decided url d s)"
  by (simp add: decide_oldest_def decided_def)

lemma decided_simps [simp]:
  "previous_main_frame_query (decided url d s) = previous_main_frame_query s" "query_results (decided url d s) = query_results s"
  "next_query_id (decided url d s) = next_query_id s" "main_answers (decided url d s) = main_answers s"
  "let_go_of (decided url d s) = let_go_of s" "verdicts (decided url d s) = verdicts s"
  by (simp_all add: decided_def decide_pending_def main_answers_def)

lemma oldest_has_pending: "sb_inv s \<Longrightarrow> GetOldestPendingMainFrameQuery url s \<noteq> None \<Longrightarrow> pending_main_frame_query s \<noteq> None"
  unfolding GetOldest_finds by (cases "pending_main_frame_query s") (auto simp: sb_inv_def)

lemma decided_pending:
  assumes "pending_main_frame_query s = Some p"
  shows "\<exists>q. pending_main_frame_query (decided url d s) = Some q \<and> mq_callback q = mq_callback p"
  using assms by (simp add: decided_def decide_pending_def)

lemma decided_held: "map held (queries (decided url d s)) = map held (queries s)"
  by (auto simp: decided_def decide_pending_def queries_def held_def intro!: map_update_first split: option.split)

lemma decided_inv:
  assumes "sb_inv s" and "GetOldestPendingMainFrameQuery url s \<noteq> None"
  shows "sb_inv (decided url d (s\<lparr>verdicts := verdicts s @ [(url, d)]\<rparr>))"
proof -
  let ?vs = "verdicts s @ [(url, d)]"
  have new: "well_founded_query ?vs (q\<lparr>mq_decision := Some d\<rparr>)" if "undecided url q" for q :: "'a main_frame_query"
    using that by (auto simp: well_founded_query_def undecided_def)
  have old: "\<forall>q\<in>set (queries s). well_founded_query ?vs q" "\<forall>a\<in>set (main_answers s). well_founded_answer ?vs a"
    using assms(1) by (auto simp: sb_inv_def well_founded_more)
  obtain p where p: "pending_main_frame_query s = Some p" using oldest_has_pending [OF assms] by auto
  show ?thesis
  proof (cases "list_ex (undecided url) (pending_main_frame_redirect_chain s)")
    case True
    then show ?thesis
      using old new p
      by (auto simp: decided_def sb_inv_def queries_def main_answers_def dest!: in_update_first split: option.splits)
  next
    case False
    then have "undecided url p" using assms(2) [unfolded GetOldest_finds] p by simp
    then show ?thesis
      using False assms(1) old new [of p] p
      by (auto simp: decided_def decide_pending_def sb_inv_def queries_def main_answers_def split: option.splits)
  qed
qed

definition callback_run :: "'u main_frame_query \<Rightarrow> 'u sb_state \<Rightarrow> 'u sb_state" where
  "callback_run q s =
     (case (mq_callback q, overall_decision (q # pending_main_frame_redirect_chain s)) of
        (Some i, Some d) \<Rightarrow> clear_redirect_chain
          (record_answer (Main_answer i d (queries_of q (pending_main_frame_redirect_chain s)))
            (s\<lparr>pending_main_frame_query := Some (q\<lparr>mq_callback := None\<rparr>)\<rparr>))
      | _ \<Rightarrow> s)"

lemma main_frame_decided:
  assumes "GetOldestPendingMainFrameQuery url s \<noteq> None" and "pending_main_frame_query (decided url d s) = Some q"
  shows "OnMainFrameUrlQueryDecided E url d s =
    Inr (if is_prerendered E \<and> ShouldCancelNavigation d then tab_command Cancel_prerender (callback_run q (decided url d s))
      else callback_run q (decided url d s))"
  using assms(2)
  by (simp add: OnMainFrameUrlQueryDecided_def decide_oldest_is [OF assms(1)] callback_run_def chain_decision Let_def split: option.split)

lemma callback_run_inv:
  assumes "sb_inv s" and "pending_main_frame_query s = Some q"
  shows "sb_inv (callback_run q s)"
proof -
  have "sb_inv (s\<lparr>pending_main_frame_query := Some (q\<lparr>mq_callback := None\<rparr>)\<rparr>)"
    using assms by (auto simp: sb_inv_def queries_def main_answers_def well_founded_query_def split: option.splits)
  moreover have "\<forall>x\<in>set (q # pending_main_frame_redirect_chain s). well_founded_query (verdicts s) x"
    using assms by (auto simp: sb_inv_def queries_def)
  ultimately show ?thesis
    using assms(1) by (auto simp: callback_run_def intro!: answered_inv overall_answer_well_founded split: option.split)
qed

text \<open>The end of a query of the main frame, and of a sub frame.\<close>

definition resource_stored :: "'u \<Rightarrow> decision \<Rightarrow> 'u sb_state \<Rightarrow> 'u sb_state" where
  "resource_stored url d s =
     (if ShouldDisplayError d
      then (tab_command (Add_pending_unsafe_navigation_decision url) s)\<lparr>main_frame_unsafe_resource := Some url\<rparr> else s)"

lemma resource_stored_simps [simp]:
  "pending_main_frame_query (resource_stored url d s) = pending_main_frame_query s"
  "pending_main_frame_redirect_chain (resource_stored url d s) = pending_main_frame_redirect_chain s"
  "previous_main_frame_query (resource_stored url d s) = previous_main_frame_query s"
  "query_results (resource_stored url d s) = query_results s" "next_query_id (resource_stored url d s) = next_query_id s"
  "main_answers (resource_stored url d s) = main_answers s" "let_go_of (resource_stored url d s) = let_go_of s"
  "verdicts (resource_stored url d s) = verdicts s" "queries (resource_stored url d s) = queries s"
  "sb_inv (resource_stored url d s) = sb_inv s"
  by (simp_all add: resource_stored_def tab_command_def main_answers_def queries_def)

definition heard :: "'u \<Rightarrow> decision \<Rightarrow> 'u sb_state \<Rightarrow> 'u sb_state" where
  "heard url d s = decided url d (let s = resource_stored url d s in s\<lparr>verdicts := verdicts s @ [(url, d)]\<rparr>)"

lemma main_query_finished:
  assumes "sb_inv s" and "IsMainFrame query" and "\<not> IsQueryStale E query s" and "show_error_page r \<longrightarrow> has_resource r"
  obtains q c where "pending_main_frame_query (heard (query_url query) (decision_of r) s) = Some q"
    and "SafeBrowsingQueryFinished P E query r s =
      Inr ((callback_run q (heard (query_url query) (decision_of r) s))\<lparr>commands := c\<rparr>)"
proof -
  let ?url = "query_url query" and ?d = "decision_of r"
  let ?s = "resource_stored ?url ?d s"
  let ?t = "?s\<lparr>verdicts := verdicts ?s @ [(?url, ?d)]\<rparr>"
  have oldest: "GetOldestPendingMainFrameQuery ?url ?s = GetOldestPendingMainFrameQuery ?url s"
    "GetOldestPendingMainFrameQuery ?url ?t = GetOldestPendingMainFrameQuery ?url s" by (rule oldest_cong; simp)+
  have found: "GetOldestPendingMainFrameQuery ?url s \<noteq> None" using assms(2,3) by (simp add: IsQueryStale_def)
  then have found_t: "GetOldestPendingMainFrameQuery ?url ?t \<noteq> None" unfolding oldest .
  obtain q where q: "pending_main_frame_query (decided ?url ?d ?t) = Some q"
    using decided_pending [of ?t _ ?url ?d] oldest_has_pending [OF assms(1) found] by auto
  have "ShouldDisplayError ?d \<Longrightarrow> has_resource r"
    using assms(4) by (auto simp: decision_of_def CreateSafeBrowsingErrorDecision_def split: if_splits)
  then have "SafeBrowsingQueryFinished P E query r s = HandlePolicyDecision E query ?d ?s"
    using assms(2,3) by (simp add: SafeBrowsingQueryFinished_def store_resource_def resource_stored_def Let_def)
  also have "\<dots> = OnMainFrameUrlQueryDecided E ?url ?d ?t"
    using assms(2,3) by (simp add: HandlePolicyDecision_def IsQueryStale_def oldest)
  also have "\<dots> = Inr ((callback_run q (decided ?url ?d ?t))\<lparr>commands :=
      commands (if is_prerendered E \<and> ShouldCancelNavigation ?d then tab_command Cancel_prerender (callback_run q (decided ?url ?d ?t))
        else callback_run q (decided ?url ?d ?t))\<rparr>)"
    unfolding main_frame_decided [OF found_t q] by (simp add: tab_command_def)
  finally show ?thesis using q by (intro that) (simp_all add: heard_def Let_def)
qed

lemma heard_inv: "sb_inv s \<Longrightarrow> GetOldestPendingMainFrameQuery url s \<noteq> None \<Longrightarrow> sb_inv (heard url d s)"
  using decided_inv [of "resource_stored url d s" url d] oldest_cong [of "resource_stored url d s" s url] by (simp add: heard_def Let_def)

lemma sub_query_finished:
  assumes "\<not> IsMainFrame query" and "\<not> IsQueryStale E query s" and "show_error_page r \<longrightarrow> has_resource r"
  shows "\<exists>t. SafeBrowsingQueryFinished P E query r s = Inr t \<and> same_main_frame s t \<and>
    query_results t = query_results s \<and> next_query_id t = next_query_id s"
proof -
  let ?url = "query_url query" and ?d = "decision_of r"
  from assms(1,2) obtain i url where item: "last_committed_item E = Some (i, url)" "main_frame_item_id query = i"
    and known: "?url \<in> fst ` set (pending_sub_frame_queries s)"
    by (auto simp: IsQueryStale_def split: option.splits)
  let ?s = "if ShouldDisplayError ?d then (tab_command (Add_pending_unsafe_navigation_decision (canonicalized P url)) s)
      \<lparr>sub_frame_unsafe_items := i # sub_frame_unsafe_items s\<rparr> else s"
  have same: "same_main_frame s ?s" "query_results ?s = query_results s" "next_query_id ?s = next_query_id s"
    "pending_sub_frame_queries ?s = pending_sub_frame_queries s"
    by (simp_all add: same_main_frame_def tab_command_def main_answers_def)
  have "ShouldDisplayError ?d \<Longrightarrow> has_resource r"
    using assms(3) by (auto simp: decision_of_def CreateSafeBrowsingErrorDecision_def split: if_splits)
  then have "SafeBrowsingQueryFinished P E query r s = HandlePolicyDecision E query ?d ?s"
    using assms(1,2) item by (simp add: SafeBrowsingQueryFinished_def store_resource_def Let_def)
  also have "\<dots> = OnSubFrameUrlQueryDecided E ?url ?d ?s"
    using assms(1) item known same(4) by (simp add: HandlePolicyDecision_def IsQueryStale_def)
  finally have f: "SafeBrowsingQueryFinished P E query r s = OnSubFrameUrlQueryDecided E ?url ?d ?s" .
  have "\<exists>t. OnSubFrameUrlQueryDecided E ?url ?d ?s = Inr t"
  proof (rule sub_frame_decided)
    show "map_of (pending_sub_frame_queries ?s) ?url \<noteq> None" using known unfolding same(4) map_of_eq_None_iff by simp
    show "?d \<noteq> Cancel \<and> ?d \<noteq> Allow \<longrightarrow> (\<exists>i u. last_committed_item E = Some (i, u) \<and> i \<in> set (sub_frame_unsafe_items ?s))"
      using item by (cases ?d) (simp_all add: tab_command_def)
  qed
  then obtain t where "OnSubFrameUrlQueryDecided E ?url ?d ?s = Inr t" by blast
  with sub_frame_decision_aside [OF this] f same show ?thesis by (auto simp: same_main_frame_def)
qed

end
