(* ===== verification/Safe_Browsing_Runs.thy ===== *)
theory Safe_Browsing_Runs
  imports Safe_Browsing_Steps "HOL-Library.Multiset"
begin

text \<open>
  Runs of the safe browsing helper of a tab: every step keeps \<open>sb_inv\<close> and fails no check, each response
  callback has one fate, and a response waits only while a query is open (\<open>waiting_inv\<close>).
\<close>

section \<open>Steps\<close>

lemma result_of_exists: "result_of query s = Some (q, r) \<Longrightarrow> (q, r) \<in> set (query_results s)"
  by (auto simp: result_of_def find_Some_iff) (metis nth_mem)

definition removed :: "'u sb_query \<Rightarrow> 'u sb_state \<Rightarrow> 'u sb_state" where
  "removed query s = s\<lparr>query_results := filter (\<lambda>(q, _). query_id q \<noteq> query_id query) (query_results s)\<rparr>"

lemma finished_is:
  assumes "sb_ok P s (E, Query_finished query proceeds shows_error)"
  obtains r where "result_of query s = Some (query, r)" and "shows_error \<longrightarrow> has_resource r"
    and "UrlCheckFinished P E query proceeds shows_error s =
      obind (SafeBrowsingQueryFinished P E query (r\<lparr>proceed := proceeds, show_error_page := shows_error\<rparr>) s) (\<lambda>s. Inr (removed query s))"
  using assms by (auto simp: UrlCheckFinished_def removed_def split: option.splits)

text \<open>The three ways a query ends.\<close>

lemma finished_cases:
  assumes "sb_inv s" and "sb_ok P s (E, Query_finished query proceeds shows_error)"
  obtains
    (stale) "IsQueryStale E query s" and "UrlCheckFinished P E query proceeds shows_error s = Inr (removed query s)"
  | (main) d q c where "IsMainFrame query" and "GetOldestPendingMainFrameQuery (query_url query) s \<noteq> None"
      and "pending_main_frame_query (heard (query_url query) d s) = Some q"
      and "UrlCheckFinished P E query proceeds shows_error s = Inr (removed query ((callback_run q (heard (query_url query) d s))\<lparr>commands := c\<rparr>))"
  | (sub) t where "\<not> IsMainFrame query" and "same_main_frame s t" and "query_results t = query_results s" and "next_query_id t = next_query_id s"
      and "UrlCheckFinished P E query proceeds shows_error s = Inr (removed query t)"
proof -
  obtain r where r: "shows_error \<longrightarrow> has_resource r"
    and f: "UrlCheckFinished P E query proceeds shows_error s =
      obind (SafeBrowsingQueryFinished P E query (r\<lparr>proceed := proceeds, show_error_page := shows_error\<rparr>) s) (\<lambda>s. Inr (removed query s))"
    using finished_is [OF assms(2)] by blast
  let ?r = "r\<lparr>proceed := proceeds, show_error_page := shows_error\<rparr>"
  have r': "show_error_page ?r \<longrightarrow> has_resource ?r" using r by simp
  consider "IsQueryStale E query s" | "IsMainFrame query" "\<not> IsQueryStale E query s" | "\<not> IsMainFrame query" "\<not> IsQueryStale E query s"
    by blast
  then show thesis
  proof cases
    case 1
    then show thesis by (intro stale) (simp_all add: f SafeBrowsingQueryFinished_def)
  next
    case 2
    obtain q c where q: "pending_main_frame_query (heard (query_url query) (decision_of ?r) s) = Some q"
      and g: "SafeBrowsingQueryFinished P E query ?r s = Inr ((callback_run q (heard (query_url query) (decision_of ?r) s))\<lparr>commands := c\<rparr>)"
      by (rule main_query_finished [OF assms(1) 2 r'])
    show thesis using 2 by (intro main [OF 2(1) _ q, of c]) (simp_all add: f g IsQueryStale_def)
  next
    case 3
    obtain t where "SafeBrowsingQueryFinished P E query ?r s = Inr t" "same_main_frame s t"
      "query_results t = query_results s" "next_query_id t = next_query_id s"
      using sub_query_finished [OF 3 r', of P] by blast
    then show thesis using 3 by (intro sub [of t]) (simp_all add: f)
  qed
qed

lemma removed_inv [simp]: "sb_inv (removed query s) = sb_inv s"
  by (simp add: removed_def)

lemma sb_step_safe:
  assumes "sb_inv s" and "sb_ok P s x"
  shows "\<exists>t. sb_step P s x = Inr t \<and> sb_inv t"
proof -
  obtain E e where x: "x = (E, e)" by (cases x)
  show ?thesis
  proof (cases e)
    case (Frame_request main url)
    then show ?thesis using assms request_inv x by simp
  next
    case (Frame_response main url callback)
    then show ?thesis using assms response_safe x by simp
  next
    case Server_redirect
    then show ?thesis using assms redirect_inv x by simp
  next
    case Document_change
    then show ?thesis using assms sb_inv_same_main_frame [OF document_change_aside] x by simp
  next
    case (Unsafe_resource_found url main)
    then show ?thesis using assms x by (simp add: StoreUnsafeResource_def)
  next
    case (Query_finished query proceeds shows_error)
    with assms x have "sb_ok P s (E, Query_finished query proceeds shows_error)" by simp
    from assms(1) this show ?thesis
    proof (cases rule: finished_cases)
      case stale
      then show ?thesis using assms(1) x Query_finished by simp
    next
      case (main d q c)
      then show ?thesis
        using callback_run_inv [OF heard_inv [OF assms(1) main(2)] main(3)] x Query_finished by simp
    next
      case (sub t)
      then show ?thesis using sb_inv_same_main_frame [OF sub(2) assms(1)] x Query_finished by simp
    qed
  next
    case (Resources_decided main items)
    then show ?thesis using assms x by simp
  qed
qed

interpretation safe_browsing: checked_machine "sb_step P" "sb_ok P" sb_inv for P
  by unfold_locales (rule sb_step_safe)

lemma new_helper_sb_inv: "sb_inv SafeBrowsingTabHelper"
  by (simp add: sb_inv_def SafeBrowsingTabHelper_def queries_def main_answers_def)

section \<open>Each callback once\<close>

definition fates :: "'u sb_state \<Rightarrow> nat multiset" where
  "fates s = mset (map answered_callback (main_answers s)) + mset (let_go_of s) + mset (concat (map held (queries s)))"

fun responses :: "'u sb_ops \<Rightarrow> 'u sb_env \<times> 'u sb_event \<Rightarrow> nat list" where
  "responses P (E, Frame_response True url callback) = (if can_check_url P (canonicalized P url) then [callback] else [])"
| "responses P _ = []"

lemma fates_same_main_frame: "same_main_frame s t \<Longrightarrow> fates t = fates s"
  by (simp add: fates_def same_main_frame_def queries_def)

lemma fates_simps [simp]:
  "fates (s\<lparr>query_results := x\<rparr>) = fates s" "fates (s\<lparr>next_query_id := n\<rparr>) = fates s"
  "fates (s\<lparr>commands := c\<rparr>) = fates s" "fates (s\<lparr>main_frame_unsafe_resource := r\<rparr>) = fates s"
  "fates (s\<lparr>sub_frame_unsafe_items := items\<rparr>) = fates s" "fates (s\<lparr>verdicts := vs\<rparr>) = fates s"
  "fates (removed query s) = fates s" "fates (resource_stored url d s) = fates s"
  by (simp_all add: fates_def queries_def main_answers_def removed_def resource_stored_def tab_command_def)

lemma cancelled_callbacks [simp]: "map answered_callback (cancelled q) = held q"
  by (simp add: cancelled_def comp_def)

lemma cancelled_all_callbacks [simp]: "map answered_callback (concat (map cancelled qs)) = concat (map held qs)"
  by (induction qs) simp_all

lemma new_query_holds_nothing [simp]: "held (new_main_frame_query url) = []"
  by (simp add: held_def new_main_frame_query_def)

lemma let_go_None [simp]: "let_go_callback None s = s"
  by (simp add: let_go_callback_def)

lemma let_go_held: "let_go_callback (mq_callback q) s = s\<lparr>let_go_of := let_go_of s @ held q\<rparr>"
  by (simp add: let_go_callback_def held_def split: option.split)

lemma fates_request: "fates (snd (SB_ShouldAllowRequest P E main url s)) = fates s"
proof (cases main)
  case True
  have "fates (track_main_frame_query url s) = fates s" for url
    by (cases "pending_main_frame_query s"; cases "previous_main_frame_query s")
      (simp_all add: track_main_frame_query_def let_go_held fates_def queries_def main_answers_def)
  moreover have "fates (decide_pending d u) = fates u" for d and u :: "'a sb_state"
    by (simp add: fates_def decide_pending_def queries_def main_answers_def held_def split: option.split)
  ultimately show ?thesis using True by (simp add: SB_ShouldAllowRequest_def StartQuery_def Let_def)
qed (simp add: fates_same_main_frame [OF sub_frame_request_aside])

lemma fates_redirect: "fates (UpdateForMainFrameServerRedirect s) = fates s"
  by (simp add: UpdateForMainFrameServerRedirect_def fates_def queries_def main_answers_def split: option.split)

lemma fates_forget: "fates (forget_previous_chain s) = fates s"
  by (simp add: forget_previous_chain_is fates_def queries_def main_answers_def del: mset_map mset_filter split: option.split)

lemma fates_clear: "fates (clear_redirect_chain (record_answer (Main_answer i d qs) s)) = fates s + {#i#}"
  by (simp add: clear_redirect_chain_is record_answer_def fates_def queries_def main_answers_def del: mset_map mset_filter)

lemma fates_decided_response:
  assumes "pending_main_frame_query s = Some q"
  shows "fates (decided_response callback q s) = fates s + {#callback#}"
proof (cases "overall_decision (q # pending_main_frame_redirect_chain s)")
  case None
  then show ?thesis
    using assms by (simp add: decided_response_def let_go_held fates_def queries_def main_answers_def) (simp add: held_def)
qed (simp add: decided_response_def fates_clear)

lemma fates_heard: "fates (heard url d s) = fates s"
proof -
  have "fates (decided url d s) = fates s" for s :: "'a sb_state"
    by (simp add: fates_def decided_held)
  then show ?thesis by (simp add: heard_def Let_def)
qed

lemma fates_callback_run:
  assumes "pending_main_frame_query s = Some q"
  shows "fates (callback_run q s) = fates s"
proof -
  have "fates (s\<lparr>pending_main_frame_query := Some (q\<lparr>mq_callback := None\<rparr>)\<rparr>) + {#i#} = fates s" if "mq_callback q = Some i" for i
    using assms that by (simp add: fates_def queries_def main_answers_def held_def)
  then show ?thesis by (auto simp: callback_run_def fates_clear split: option.split)
qed

lemma fates_response:
  assumes "sb_ok P s (E, Frame_response main url callback)" and "SB_ShouldAllowResponse P main url callback s = Inr t"
  shows "fates t = fates s + mset (responses P (E, Frame_response main url callback))"
proof (cases main)
  case True
  show ?thesis
  proof (cases "can_check_url P (canonicalized P url)")
    case checked: True
    obtain q where "pending_main_frame_query s = Some q" "t = decided_response callback q (forget_previous_chain s)"
      using main_response_is [of P s E url callback] assms True checked by auto
    moreover have "pending_main_frame_query (forget_previous_chain s) = pending_main_frame_query s"
      by (simp add: forget_previous_chain_is split: option.split)
    ultimately show ?thesis using True checked by (simp add: fates_decided_response fates_forget)
  next
    case False
    then show ?thesis using True assms(2) by (simp add: SB_ShouldAllowResponse_def Let_def)
  qed
next
  case False
  then show ?thesis using assms(2) sub_frame_response_aside fates_same_main_frame by fastforce
qed

lemma fates_step:
  assumes "sb_inv s" and "sb_ok P s x" and "sb_step P s x = Inr t"
  shows "fates t = fates s + mset (responses P x)"
proof -
  obtain E e where x: "x = (E, e)" by (cases x)
  show ?thesis
  proof (cases e)
    case (Frame_request main url)
    then show ?thesis using assms(3) x fates_request by auto
  next
    case (Frame_response main url callback)
    then show ?thesis using assms fates_response x by simp
  next
    case Server_redirect
    then show ?thesis using assms(3) x fates_redirect by auto
  next
    case Document_change
    then show ?thesis using assms(3) x fates_same_main_frame [OF document_change_aside] by auto
  next
    case (Unsafe_resource_found url main)
    then show ?thesis using assms(3) x by (auto simp: StoreUnsafeResource_def)
  next
    case (Query_finished query proceeds shows_error)
    with assms x have "sb_ok P s (E, Query_finished query proceeds shows_error)" by simp
    from assms(1) this show ?thesis
    proof (cases rule: finished_cases)
      case (main d q c)
      then show ?thesis using assms(3) x Query_finished by (auto simp: fates_callback_run fates_heard)
    qed (use assms(3) x Query_finished fates_same_main_frame in auto)
  next
    case (Resources_decided main items)
    then show ?thesis using assms(3) x by auto
  qed
qed

lemma fates_run:
  assumes "sb_inv s" and "admissible (sb_step P) (sb_ok P) s xs" and "orun (sb_step P) s xs = Inr t"
  shows "fates t = fates s + mset (concat (map (responses P) xs))"
  using assms
proof (induction xs arbitrary: s)
  case (Cons x xs)
  obtain u where u: "sb_step P s x = Inr u" "sb_inv u" using Cons.prems sb_step_safe [of s P x] by auto
  then show ?case using Cons fates_step [of s P x u] by simp
qed simp


section \<open>No response waits for ever\<close>

text \<open>Main frame queries about a URL that the service has not answered.\<close>

definition open_queries :: "'u \<Rightarrow> 'u sb_state \<Rightarrow> nat" where
  "open_queries url s = length (filter (\<lambda>(q, _). IsMainFrame q \<and> query_url q = url) (query_results s))"

definition undecided_queries :: "'u \<Rightarrow> 'u sb_state \<Rightarrow> nat" where
  "undecided_queries url s = length (filter (undecided url) (queries s))"

text \<open>A response that waits is undecided; each undecided query is being answered.\<close>

definition waits_undecided :: "'u sb_state \<Rightarrow> bool" where
  "waits_undecided s \<longleftrightarrow>
     (case pending_main_frame_query s of
        None \<Rightarrow> True
      | Some q \<Rightarrow> mq_callback q = None \<or>
          previous_main_frame_query s = None \<and> overall_decision (q # pending_main_frame_redirect_chain s) = None)"

definition fresh_ids :: "('u sb_query \<times> sb_result) list \<Rightarrow> nat \<Rightarrow> bool" where
  "fresh_ids rs n \<longleftrightarrow> distinct (map (query_id \<circ> fst) rs) \<and> (\<forall>(q, r)\<in>set rs. query_id q < n)"

definition waiting_inv :: "'u sb_state \<Rightarrow> bool" where
  "waiting_inv s \<longleftrightarrow>
     waits_undecided s \<and> fresh_ids (query_results s) (next_query_id s) \<and> (\<forall>url. undecided_queries url s \<le> open_queries url s)"

text \<open>The answer to a query does not come while the query is only the previous one.\<close>

fun is_heard :: "'u sb_state \<Rightarrow> 'u sb_event \<Rightarrow> bool" where
  "is_heard s (Query_finished query _ _) \<longleftrightarrow>
     (IsMainFrame query \<and> GetOldestPendingMainFrameQuery (query_url query) s = None \<longrightarrow>
      (case previous_main_frame_query s of None \<Rightarrow> True | Some p \<Rightarrow> \<not> undecided (query_url query) p))"
| "is_heard s _ = True"

definition heard_ok :: "'u sb_ops \<Rightarrow> 'u sb_state \<Rightarrow> 'u sb_env \<times> 'u sb_event \<Rightarrow> bool" where
  "heard_ok P s x \<longleftrightarrow> sb_ok P s x \<and> is_heard s (snd x)"

lemma same_main_frame_undecided:
  assumes "same_main_frame s t"
  shows "waits_undecided t = waits_undecided s" and "undecided_queries url t = undecided_queries url s"
  using assms by (simp_all add: waits_undecided_def undecided_queries_def queries_def same_main_frame_def cong: option.case_cong)

lemma same_main_frame_waiting:
  assumes "same_main_frame s t" and "query_results t = query_results s" and "next_query_id t = next_query_id s" and "waiting_inv s"
  shows "waiting_inv t"
  using assms(2-) by (simp add: waiting_inv_def open_queries_def same_main_frame_undecided [OF assms(1)])

lemma waiting_simps [simp]:
  "waiting_inv (s\<lparr>commands := c\<rparr>) = waiting_inv s" "waiting_inv (s\<lparr>main_frame_unsafe_resource := r\<rparr>) = waiting_inv s"
  "waiting_inv (s\<lparr>sub_frame_unsafe_items := items\<rparr>) = waiting_inv s"
  "waiting_inv (s\<lparr>pending_sub_frame_queries := qs\<rparr>) = waiting_inv s"
  by (simp_all add: waiting_inv_def waits_undecided_def undecided_queries_def open_queries_def queries_def cong: option.case_cong)

lemma StartQuery_waiting:
  shows "fresh_ids (query_results s) (next_query_id s) \<Longrightarrow> fresh_ids (query_results (StartQuery url i s)) (next_query_id (StartQuery url i s))"
    and "open_queries u (StartQuery url i s) = open_queries u s + (if i = -1 \<and> u = url then 1 else 0)"
    and "waits_undecided (StartQuery url i s) = waits_undecided s"
    and "undecided_queries u (StartQuery url i s) = undecided_queries u s"
  by (auto simp: StartQuery_def fresh_ids_def open_queries_def IsMainFrame_def waits_undecided_def undecided_queries_def queries_def
      cong: option.case_cong)

text \<open>The new query, undecided or decided at once.\<close>

lemma track_main_waiting:
  shows "pending_main_frame_query (track_main_frame_query url s) = Some (new_main_frame_query url)"
    and "undecided_queries u (track_main_frame_query url s) \<le> undecided_queries u s + (if u = url then 1 else 0)"
    and "undecided_queries u (decide_pending d (track_main_frame_query url s)) \<le> undecided_queries u s"
    and "query_results (track_main_frame_query url s) = query_results s"
    and "next_query_id (track_main_frame_query url s) = next_query_id s"
  by (cases "pending_main_frame_query s"; cases "previous_main_frame_query s";
      simp add: track_main_frame_query_def decide_pending_def let_go_held undecided_queries_def queries_def undecided_def
        new_main_frame_query_def)+

lemma track_main_decided_waiting:
  assumes "waiting_inv s"
  shows "waiting_inv (decide_pending d (track_main_frame_query url s))"
proof -
  let ?t = "decide_pending d (track_main_frame_query url s)"
  have results: "query_results ?t = query_results s" "next_query_id ?t = next_query_id s"
    by (simp_all add: decide_pending_def track_main_waiting)
  have "waits_undecided ?t"
    by (simp add: waits_undecided_def decide_pending_def track_main_waiting new_main_frame_query_def)
  moreover have "undecided_queries u ?t \<le> open_queries u ?t" for u
  proof -
    have "undecided_queries u ?t \<le> undecided_queries u s" by (rule track_main_waiting)
    also have "\<dots> \<le> open_queries u ?t" using assms results(1) by (simp add: waiting_inv_def open_queries_def)
    finally show ?thesis .
  qed
  ultimately show ?thesis using assms results by (simp add: waiting_inv_def)
qed

lemma track_main_started_waiting:
  assumes "waiting_inv s"
  shows "waiting_inv (StartQuery url (-1) (track_main_frame_query url s))"
proof -
  let ?s = "track_main_frame_query url s"
  have "waits_undecided ?s" by (simp add: waits_undecided_def track_main_waiting new_main_frame_query_def)
  moreover have "fresh_ids (query_results ?s) (next_query_id ?s)" using assms by (simp add: track_main_waiting waiting_inv_def)
  moreover have "undecided_queries u ?s \<le> open_queries u ?s + (if u = url then 1 else 0)" for u
  proof -
    have "undecided_queries u s \<le> open_queries u ?s" using assms by (simp add: waiting_inv_def open_queries_def track_main_waiting)
    then show ?thesis using track_main_waiting(2) [of u url s] by simp
  qed
  ultimately show ?thesis by (simp add: waiting_inv_def StartQuery_waiting)
qed

lemma sub_frame_request_waiting:
  assumes "waiting_inv s"
  shows "waiting_inv (snd (SB_ShouldAllowRequest P E False url s))"
proof -
  have "waiting_inv (StartQuery u i t)" if "waiting_inv t" for u i and t :: "'a sb_state"
    using that by (simp add: waiting_inv_def StartQuery_waiting trans_le_add1)
  moreover have "waiting_inv (track_sub_frame_query u s)" for u using assms by (simp add: track_sub_frame_query_def)
  ultimately show ?thesis by (simp add: SB_ShouldAllowRequest_def Let_def assms split: option.split)
qed

lemma request_waiting:
  assumes "waiting_inv s"
  shows "waiting_inv (snd (SB_ShouldAllowRequest P E main url s))"
proof (cases main)
  case True
  then show ?thesis
    using assms by (auto simp: SB_ShouldAllowRequest_def Let_def intro: track_main_decided_waiting track_main_started_waiting)
qed (simp add: sub_frame_request_waiting assms)

lemma redirect_waiting:
  assumes "waiting_inv s"
  shows "waiting_inv (UpdateForMainFrameServerRedirect s)"
proof -
  have "undecided_queries u (UpdateForMainFrameServerRedirect s) = undecided_queries u s" for u
    by (simp add: UpdateForMainFrameServerRedirect_def undecided_queries_def queries_def split: option.split)
  moreover have "waits_undecided (UpdateForMainFrameServerRedirect s)"
    using assms by (auto simp: UpdateForMainFrameServerRedirect_def waiting_inv_def waits_undecided_def split: option.splits)
  ultimately show ?thesis
    using assms by (simp add: waiting_inv_def) (simp add: UpdateForMainFrameServerRedirect_def open_queries_def split: option.split)
qed

lemma fewer_undecided_waiting:
  assumes "waiting_inv s" and "waits_undecided t" and "\<And>u. undecided_queries u t \<le> undecided_queries u s"
    and "query_results t = query_results s" and "next_query_id t = next_query_id s"
  shows "waiting_inv t"
  using assms(1,2,4,5) le_trans [OF assms(3)] by (simp add: waiting_inv_def open_queries_def)

lemma forget_waiting:
  assumes "waiting_inv s"
  shows "waiting_inv (forget_previous_chain s)"
  using assms
  by (intro fewer_undecided_waiting [OF assms])
    (auto simp: forget_previous_chain_is waiting_inv_def waits_undecided_def undecided_queries_def queries_def split: option.splits)

lemma clear_fields:
  "query_results (clear_redirect_chain s) = query_results s" "next_query_id (clear_redirect_chain s) = next_query_id s"
  "undecided_queries u (clear_redirect_chain s) \<le> undecided_queries u s"
  by (simp_all add: clear_redirect_chain_is undecided_queries_def queries_def)

lemma answered_waiting:
  assumes "waiting_inv s" and "pending_main_frame_query s = Some q" and "mq_callback q = None"
  shows "waiting_inv (clear_redirect_chain (record_answer a s))"
proof (rule fewer_undecided_waiting [OF assms(1)])
  show "waits_undecided (clear_redirect_chain (record_answer a s))"
    using assms by (simp add: clear_redirect_chain_is record_answer_def waits_undecided_def)
  show "undecided_queries u (clear_redirect_chain (record_answer a s)) \<le> undecided_queries u s" for u
    by (simp add: clear_redirect_chain_is record_answer_def undecided_queries_def queries_def)
qed (simp_all add: clear_redirect_chain_is record_answer_def)

lemma decided_response_waiting:
  assumes "waiting_inv s" and "pending_main_frame_query s = Some q" and "previous_main_frame_query s = None"
  shows "waiting_inv (decided_response callback q s)"
proof (cases "overall_decision (q # pending_main_frame_redirect_chain s)")
  case None
  have "undecided url (q\<lparr>mq_callback := c\<rparr>) = undecided url q" for url c by (simp add: undecided_def)
  moreover have "overall_decision ((q\<lparr>mq_callback := c\<rparr>) # qs) = overall_decision (q # qs)" for c qs
    by (auto simp: overall_decision_def cancelling_def split: option.splits)
  ultimately show ?thesis
    using assms None
    by (intro fewer_undecided_waiting [OF assms(1)])
      (simp_all add: decided_response_def let_go_held waits_undecided_def undecided_queries_def queries_def)
next
  case (Some d)
  then have "mq_callback q = None" using assms by (auto simp: waiting_inv_def waits_undecided_def)
  then show ?thesis using Some assms by (simp add: decided_response_def answered_waiting)
qed

lemma response_waiting:
  assumes "waiting_inv s" and "sb_inv s" and "sb_ok P s (E, Frame_response main url callback)"
    and "SB_ShouldAllowResponse P main url callback s = Inr t"
  shows "waiting_inv t"
proof (cases "main \<and> can_check_url P (canonicalized P url)")
  case True
  then obtain q where "pending_main_frame_query s = Some q" "t = decided_response callback q (forget_previous_chain s)"
    using main_response_is [of P s E url callback] assms(3,4) by auto
  then show ?thesis using forget_previous_chain_inv [OF assms(2)] forget_waiting [OF assms(1)] by (simp add: decided_response_waiting)
next
  case False
  show ?thesis
  proof (cases main)
    case True
    then show ?thesis using False assms(1,4) by (simp add: SB_ShouldAllowResponse_def Let_def)
  next
    case False
    then show ?thesis using assms(1,4) sub_frame_response_aside [of P url callback s t] same_main_frame_waiting by auto
  qed
qed

text \<open>The end of a query takes one open query, and one undecided one if it is heard.\<close>

lemma decided_one:
  assumes "GetOldestPendingMainFrameQuery url s \<noteq> None"
  shows "undecided_queries u s = undecided_queries u (decided url d s) + (if u = url then 1 else 0)"
proof -
  have chain: "length (filter (undecided u) qs) =
      length (filter (undecided u) (update_first (undecided url) (\<lambda>q. q\<lparr>mq_decision := Some d\<rparr>) qs)) + (if u = url then 1 else 0)"
    if "list_ex (undecided url) qs" for qs :: "'a main_frame_query list"
    using that by (induction qs) (auto simp: undecided_def)
  show ?thesis
  proof (cases "list_ex (undecided url) (pending_main_frame_redirect_chain s)")
    case True
    then show ?thesis using chain [OF True] by (simp add: decided_def undecided_queries_def queries_def)
  next
    case False
    then obtain q where "pending_main_frame_query s = Some q" "undecided url q"
      using assms [unfolded GetOldest_finds] by auto
    then show ?thesis using False by (auto simp: decided_def decide_pending_def undecided_queries_def queries_def undecided_def)
  qed
qed

lemma heard_one:
  assumes "GetOldestPendingMainFrameQuery url s \<noteq> None"
  shows "undecided_queries u s = undecided_queries u (heard url d s) + (if u = url then 1 else 0)"
proof -
  let ?s = "(resource_stored url d s)\<lparr>verdicts := verdicts s @ [(url, d)]\<rparr>"
  have "GetOldestPendingMainFrameQuery url ?s = GetOldestPendingMainFrameQuery url s" by (rule oldest_cong) simp_all
  then have "undecided_queries u ?s = undecided_queries u (decided url d ?s) + (if u = url then 1 else 0)"
    using assms by (intro decided_one) simp
  moreover have "undecided_queries u ?s = undecided_queries u s" by (simp add: undecided_queries_def queries_def)
  ultimately show ?thesis by (simp add: heard_def Let_def)
qed

lemma removed_one:
  assumes "fresh_ids (query_results s) n" and "result_of query s = Some (query, r)"
  shows "fresh_ids (query_results (removed query s)) n"
    and "open_queries u s = open_queries u (removed query s) + (if IsMainFrame query \<and> query_url query = u then 1 else 0)"
proof -
  have "length (filter Q rs) = length (filter Q (filter (\<lambda>(q, _). query_id q \<noteq> query_id query) rs)) + (if Q (query, r) then 1 else 0)"
    if "distinct (map (query_id \<circ> fst) rs)" and "find (\<lambda>(q, _). query_id q = query_id query) rs = Some (query, r)"
    for Q and rs :: "('a sb_query \<times> sb_result) list"
    using that
  proof (induction rs)
    case (Cons x rs)
    obtain q r' where x: "x = (q, r')" by (cases x)
    show ?case
    proof (cases "query_id q = query_id query")
      case True
      then have "filter (\<lambda>(q, _). query_id q \<noteq> query_id query) rs = rs"
        using Cons.prems(1) x by (auto simp: image_iff intro!: filter_True)
      then show ?thesis using True Cons.prems(2) x by simp
    next
      case False
      then show ?thesis using Cons x by simp
    qed
  qed simp
  from this [OF _ assms(2) [unfolded result_of_def], of "\<lambda>(q, _). IsMainFrame q \<and> query_url q = u"] assms(1)
  show "open_queries u s = open_queries u (removed query s) + (if IsMainFrame query \<and> query_url query = u then 1 else 0)"
    by (simp add: fresh_ids_def open_queries_def removed_def)
  show "fresh_ids (query_results (removed query s)) n"
    using assms(1) by (auto simp: fresh_ids_def removed_def distinct_map inj_on_def)
qed

lemma removed_waits: "waits_undecided (removed query s) = waits_undecided s" "undecided_queries u (removed query s) = undecided_queries u s"
  by (simp_all add: removed_def waits_undecided_def undecided_queries_def queries_def cong: option.case_cong)

lemma callback_run_waiting:
  assumes "pending_main_frame_query s = Some q" and "mq_callback q \<noteq> None \<longrightarrow> previous_main_frame_query s = None"
  shows "waits_undecided (callback_run q s)" and "undecided_queries u (callback_run q s) \<le> undecided_queries u s"
    and "query_results (callback_run q s) = query_results s" and "next_query_id (callback_run q s) = next_query_id s"
proof -
  let ?s = "s\<lparr>pending_main_frame_query := Some (q\<lparr>mq_callback := None\<rparr>)\<rparr>"
  have u: "undecided_queries u ?s = undecided_queries u s" using assms(1) by (simp add: undecided_queries_def queries_def undecided_def)
  have "waits_undecided (clear_redirect_chain (record_answer a ?s))" for a
    by (simp add: clear_redirect_chain_is record_answer_def waits_undecided_def)
  then show "waits_undecided (callback_run q s)"
    using assms by (cases "mq_callback q"; cases "overall_decision (q # pending_main_frame_redirect_chain s)")
      (simp_all add: callback_run_def, simp_all add: waits_undecided_def)
  have "undecided_queries u (clear_redirect_chain (record_answer a ?s)) \<le> undecided_queries u ?s" for a
    by (simp add: clear_redirect_chain_is record_answer_def undecided_queries_def queries_def)
  then show "undecided_queries u (callback_run q s) \<le> undecided_queries u s"
    using u by (simp add: callback_run_def split: option.split)
  show "query_results (callback_run q s) = query_results s" "next_query_id (callback_run q s) = next_query_id s"
    by (simp_all add: callback_run_def clear_redirect_chain_is record_answer_def split: option.split)
qed

text \<open>A query that is answered unheard has no undecided query of its URL.\<close>

lemma nothing_undecided:
  assumes "GetOldestPendingMainFrameQuery url s = None"
    and "case previous_main_frame_query s of None \<Rightarrow> True | Some p \<Rightarrow> \<not> undecided url p"
  shows "undecided_queries url s = 0"
proof -
  have "\<not> list_ex (undecided url) (pending_main_frame_redirect_chain s)" "\<And>q. pending_main_frame_query s = Some q \<Longrightarrow> \<not> undecided url q"
    using assms(1) GetOldest_finds [of url s] by auto
  then show ?thesis
    using assms(2) by (auto simp: undecided_queries_def queries_def list_ex_iff filter_empty_conv split: option.splits)
qed

lemma heard_waiting:
  assumes "waiting_inv s" and "pending_main_frame_query (heard url d s) = Some q"
  shows "mq_callback q \<noteq> None \<longrightarrow> previous_main_frame_query (heard url d s) = None"
    and "query_results (heard url d s) = query_results s" and "next_query_id (heard url d s) = next_query_id s"
proof -
  let ?s = "(resource_stored url d s)\<lparr>verdicts := verdicts s @ [(url, d)]\<rparr>"
  obtain p where p: "pending_main_frame_query s = Some p" "mq_callback q = mq_callback p"
    using assms(2) decided_pending [of ?s _ url d]
    by (cases "pending_main_frame_query s") (auto simp: heard_def Let_def decided_def decide_pending_def split: if_splits)
  then show "mq_callback q \<noteq> None \<longrightarrow> previous_main_frame_query (heard url d s) = None"
    using assms(1) by (auto simp: waiting_inv_def waits_undecided_def heard_def Let_def)
qed (simp_all add: heard_def Let_def)

lemma finished_waiting:
  assumes "sb_inv s" and "waiting_inv s" and "heard_ok P s (E, Query_finished query proceeds shows_error)"
    and "UrlCheckFinished P E query proceeds shows_error s = Inr t"
  shows "waiting_inv t"
proof -
  have ok: "sb_ok P s (E, Query_finished query proceeds shows_error)" and hears: "is_heard s (Query_finished query proceeds shows_error)"
    using assms(3) by (simp_all add: heard_ok_def)
  obtain r where r: "result_of query s = Some (query, r)" by (rule finished_is [OF ok])
  have fresh: "fresh_ids (query_results s) (next_query_id s)" and asked: "undecided_queries u s \<le> open_queries u s" for u
    using assms(2) by (simp_all add: waiting_inv_def)
  note one = removed_one [OF fresh r]
  have waiting: "waiting_inv (removed query v)"
    if "waits_undecided v" "query_results v = query_results s" "next_query_id v = next_query_id s"
      "\<And>u. undecided_queries u v \<le> open_queries u (removed query s)" for v
  proof -
    have "query_results (removed query v) = query_results (removed query s)" "next_query_id (removed query v) = next_query_id s"
      using that by (simp_all add: removed_def)
    then show ?thesis using that one(1) by (simp add: waiting_inv_def removed_waits open_queries_def)
  qed
  from assms(1) ok show ?thesis
  proof (cases rule: finished_cases)
    case stale
    have "undecided_queries u s \<le> open_queries u (removed query s)" for u
    proof (cases "IsMainFrame query \<and> query_url query = u")
      case True
      then have "undecided_queries (query_url query) s = 0"
        using stale(1) hears by (intro nothing_undecided) (simp_all add: IsQueryStale_def)
      then show ?thesis using True by simp
    next
      case False
      then show ?thesis using one(2) [of u] asked [of u] by auto
    qed
    then show ?thesis using waiting [of s] assms(2,4) stale(2) by (simp add: waiting_inv_def)
  next
    case (main d q c)
    note h = heard_waiting [OF assms(2) main(3)]
    note run = callback_run_waiting [OF main(3) h(1)]
    have "undecided_queries u (callback_run q (heard (query_url query) d s)) \<le> open_queries u (removed query s)" for u
      using heard_one [OF main(2), of u d] one(2) [of u] asked [of u] run(2) [of u] main(1) by (auto split: if_splits)
    then have "waiting_inv (removed query ((callback_run q (heard (query_url query) d s))\<lparr>commands := c\<rparr>))"
      using run h(2,3) by (intro waiting) (simp_all add: waits_undecided_def undecided_queries_def queries_def cong: option.case_cong)
    then show ?thesis using assms(4) main(4) by simp
  next
    case (sub v)
    note same = same_main_frame_undecided [OF sub(2)]
    have "undecided_queries u v \<le> open_queries u (removed query s)" for u
      using one(2) [of u] asked [of u] sub(1) same(2) by simp
    then have "waiting_inv (removed query v)"
      using sub(3,4) same(1) assms(2) by (intro waiting) (simp_all add: waiting_inv_def)
    then show ?thesis using assms(4) sub(5) by simp
  qed
qed

lemma StoreUnsafeResource_waiting:
  assumes "waiting_inv s"
  shows "waiting_inv (StoreUnsafeResource url main s)"
proof -
  have "map (query_id \<circ> fst) (query_results (StoreUnsafeResource url main s)) = map (query_id \<circ> fst) (query_results s)"
    "map fst (query_results (StoreUnsafeResource url main s)) = map fst (query_results s)"
    by (auto simp: StoreUnsafeResource_def intro!: map_update_first)
  moreover have "open_queries u t = length (filter (\<lambda>q. IsMainFrame q \<and> query_url q = u) (map fst (query_results t)))" for u and t :: "'a sb_state"
    by (simp add: open_queries_def filter_map comp_def split_def)
  moreover have "(\<forall>(q, r)\<in>set rs. query_id q < n) = (\<forall>q\<in>set (map fst rs). query_id q < n)" for n and rs :: "('a sb_query \<times> sb_result) list"
    by auto
  moreover have "waits_undecided (StoreUnsafeResource url main s) = waits_undecided s"
    "undecided_queries u (StoreUnsafeResource url main s) = undecided_queries u s"
    "next_query_id (StoreUnsafeResource url main s) = next_query_id s" for u
    by (simp_all add: StoreUnsafeResource_def waits_undecided_def undecided_queries_def queries_def cong: option.case_cong)
  ultimately show ?thesis using assms by (simp only: waiting_inv_def fresh_ids_def) blast
qed

lemma waiting_step_safe:
  assumes "sb_inv s \<and> waiting_inv s" and "heard_ok P s x"
  shows "\<exists>t. sb_step P s x = Inr t \<and> sb_inv t \<and> waiting_inv t"
proof -
  obtain E e where x: "x = (E, e)" by (cases x)
  have inv: "sb_inv s" "waiting_inv s" "sb_ok P s (E, e)" using assms x by (simp_all add: heard_ok_def)
  obtain t where t: "sb_step P s (E, e) = Inr t" "sb_inv t" using sb_step_safe [OF inv(1,3)] by blast
  have "waiting_inv t"
  proof (cases e)
    case (Frame_request main url)
    then show ?thesis using inv(2) t(1) request_waiting by auto
  next
    case (Frame_response main url callback)
    then show ?thesis using response_waiting [OF inv(2,1)] inv(3) t(1) by (simp del: sb_ok.simps)
  next
    case Server_redirect
    then show ?thesis using inv(2) t(1) redirect_waiting by auto
  next
    case Document_change
    then have "same_main_frame s t" "query_results t = query_results s" "next_query_id t = next_query_id s"
      using t(1) document_change_aside [of s] by (auto simp: document_change_is)
    then show ?thesis using inv(2) by (rule same_main_frame_waiting)
  next
    case (Unsafe_resource_found url main)
    then show ?thesis using inv(2) t(1) StoreUnsafeResource_waiting by auto
  next
    case (Query_finished query proceeds shows_error)
    then have "heard_ok P s (E, Query_finished query proceeds shows_error)" using assms(2) x by simp
    then show ?thesis using finished_waiting [OF inv(1,2)] t(1) Query_finished by simp
  next
    case (Resources_decided main items)
    then show ?thesis using inv(2) t(1) by auto
  qed
  then show ?thesis using t x by simp
qed

interpretation heard_queries: checked_machine "sb_step P" "heard_ok P" "\<lambda>s. sb_inv s \<and> waiting_inv s" for P
  by unfold_locales (rule waiting_step_safe)

lemma new_helper_waiting: "waiting_inv SafeBrowsingTabHelper"
  by (simp add: waiting_inv_def waits_undecided_def fresh_ids_def undecided_queries_def queries_def SafeBrowsingTabHelper_def)

lemma nothing_open:
  assumes "waiting_inv s" and "query_results s = []" and "pending_main_frame_query s = Some q"
  shows "mq_callback q = None"
proof -
  have decided: "mq_decision p \<noteq> None" if "p \<in> set (queries s)" for p
  proof
    assume "mq_decision p = None"
    then have "undecided_queries (mq_url p) s \<noteq> 0" using that by (auto simp: undecided_queries_def undecided_def filter_empty_conv)
    then show False using assms(1,2) by (simp add: waiting_inv_def open_queries_def)
  qed
  have "overall_decision (q # pending_main_frame_redirect_chain s) \<noteq> None"
  proof
    assume "overall_decision (q # pending_main_frame_redirect_chain s) = None"
    then obtain p where "p \<in> set (q # pending_main_frame_redirect_chain s)" "mq_decision p = None"
      using overall_undecided by blast
    moreover from this(1) have "p \<in> set (queries s)" using assms(3) by (auto simp: queries_def)
    ultimately show False using decided by blast
  qed
  then show ?thesis using assms(1,3) by (auto simp: waiting_inv_def waits_undecided_def)
qed

end
