(* ===== verification/Safe_Browsing_Props.thy ===== *)
theory Safe_Browsing_Props
  imports Safe_Browsing_Runs
begin

text \<open>
  The properties of the safe browsing helper of a tab, and runs in which a response waits or is blocked though
  it should not.
\<close>

section \<open>A run\<close>

definition plain_ops :: "string sb_ops" where
  "plain_ops = \<lparr>canonicalized = id, can_check_url = (\<lambda>url. True), url_host = id\<rparr>"

definition plain_env :: "string sb_env" where
  "plain_env = \<lparr>last_committed_item = None, reloads_committed_item = False, is_prerendered = False\<rparr>"

definition main_query :: "string \<Rightarrow> nat \<Rightarrow> string sb_query" where
  "main_query url n = \<lparr>query_url = url, main_frame_item_id = -1, query_id = n\<rparr>"

text \<open>A redirect from a to b, both safe; the answer about a comes after the redirect.\<close>

definition redirect_run :: "(string sb_env \<times> string sb_event) list" where
  "redirect_run = map (Pair plain_env)
     [Frame_request True ''a'', Frame_request True ''b'', Server_redirect, Frame_response True ''b'' 7,
      Query_finished (main_query ''b'' 1) True False, Query_finished (main_query ''a'' 0) True False]"

definition redirected :: "string sb_state" where
  "redirected = (case orun (sb_step plain_ops) SafeBrowsingTabHelper redirect_run of Inr s \<Rightarrow> s | Inl _ \<Rightarrow> SafeBrowsingTabHelper)"

lemma redirected_run:
  "orun (sb_step plain_ops) SafeBrowsingTabHelper redirect_run = Inr redirected"
  "answered redirected = [Main_answer 7 Allow [(''a'', Some Allow), (''b'', Some Allow)]]"
  "query_results redirected = []" "map_option mq_url (pending_main_frame_query redirected) = Some ''b''"
  by code_simp+

section \<open>Properties\<close>

text \<open>C30: whatever requests, redirects, responses and answers of the service come in whatever order a browser sends
  them, no check of the code fails, and a response of the main frame is let through only if the URL of
  its query and of every redirect that led to it has an answer of its own that says it is safe.\<close>
theorem response_passes_only_a_safe_chain:
  assumes "admissible (sb_step P) (sb_ok P) SafeBrowsingTabHelper xs"
  shows "\<exists>s. orun (sb_step P) SafeBrowsingTabHelper xs = Inr s \<and>
    (\<forall>i qs. Main_answer i Allow qs \<in> set (answered s) \<longrightarrow>
      qs \<noteq> [] \<and> (\<forall>(url, d)\<in>set qs. d = Some Allow \<and> (url, Allow) \<in> set (verdicts s)))"
proof -
  obtain s where s: "orun (sb_step P) SafeBrowsingTabHelper xs = Inr s" "sb_inv s"
    using safe_browsing.run_safe [OF new_helper_sb_inv assms] by blast
  have "well_founded_answer (verdicts s) (Main_answer i Allow qs)" if "Main_answer i Allow qs \<in> set (answered s)" for i qs
    using s(2) that by (simp add: sb_inv_def main_answers_def)
  then show ?thesis using s(1) by (auto simp: well_founded_answer_def)
qed

theorem response_passes_only_a_safe_chain_witness:
  "Main_answer 7 Allow [(''a'', Some Allow), (''b'', Some Allow)] \<in> set (answered redirected) \<and>
   (''a'', Allow) \<in> set (verdicts redirected) \<and> (''b'', Allow) \<in> set (verdicts redirected)"
proof -
  have "admissible (sb_step plain_ops) (sb_ok plain_ops) SafeBrowsingTabHelper redirect_run" by code_simp
  from response_passes_only_a_safe_chain [OF this] show ?thesis using redirected_run(1,2) by fastforce
qed

lemma heard_is_admissible: "admissible (sb_step P) (heard_ok P) s xs \<Longrightarrow> admissible (sb_step P) (sb_ok P) s xs"
  by (induction xs arbitrary: s) (auto simp: heard_ok_def split: sum.splits)

text \<open>C31: each callback of a checked main frame response has one fate: it was answered once, it was let go of, or
  it is held by one query; and if no answer comes while its query is only the previous one, then when
  the service has answered all queries the latest navigation holds none.\<close>
theorem no_response_waits_without_a_query:
  assumes "admissible (sb_step P) (heard_ok P) SafeBrowsingTabHelper xs"
    and "orun (sb_step P) SafeBrowsingTabHelper xs = Inr s"
  shows "mset (map answered_callback (main_answers s)) + mset (let_go_of s) + mset (concat (map held (queries s))) =
      mset (concat (map (responses P) xs)) \<and>
    (query_results s = [] \<longrightarrow> (\<forall>q. pending_main_frame_query s = Some q \<longrightarrow> mq_callback q = None))"
proof
  have "waiting_inv s"
    using heard_queries.run_safe [OF _ assms(1)] assms(2) new_helper_sb_inv new_helper_waiting by auto
  then show "query_results s = [] \<longrightarrow> (\<forall>q. pending_main_frame_query s = Some q \<longrightarrow> mq_callback q = None)"
    using nothing_open by blast
  have "fates SafeBrowsingTabHelper = {#}"
    by (simp add: fates_def SafeBrowsingTabHelper_def queries_def main_answers_def)
  then show "mset (map answered_callback (main_answers s)) + mset (let_go_of s) + mset (concat (map held (queries s))) =
      mset (concat (map (responses P) xs))"
    using fates_run [OF new_helper_sb_inv heard_is_admissible [OF assms(1)] assms(2)] by (simp add: fates_def)
qed

theorem no_response_waits_without_a_query_witness:
  "mset (map answered_callback (main_answers redirected)) + mset (let_go_of redirected) + mset (concat (map held (queries redirected))) = {#7#} \<and>
   (\<exists>q. pending_main_frame_query redirected = Some q \<and> mq_url q = ''b'' \<and> mq_callback q = None)"
proof -
  have "admissible (sb_step plain_ops) (heard_ok plain_ops) SafeBrowsingTabHelper redirect_run" by code_simp
  note once = no_response_waits_without_a_query [OF this redirected_run(1)]
  have "concat (map (responses plain_ops) redirect_run) = [7]" by code_simp
  then show ?thesis using once redirected_run(3,4) by auto
qed

section \<open>Runs that go wrong\<close>

text \<open>An answer between the request of the target and the redirect is dropped, and the response waits for ever.\<close>

lemma answer_before_the_redirect_is_lost:
  "let xs = map (Pair plain_env)
      [Frame_request True ''a'', Frame_request True ''b'', Query_finished (main_query ''a'' 0) True False, Server_redirect,
       Frame_response True ''b'' 7, Query_finished (main_query ''b'' 1) True False]
   in admissible (sb_step plain_ops) (sb_ok plain_ops) SafeBrowsingTabHelper xs \<and>
      (case orun (sb_step plain_ops) SafeBrowsingTabHelper xs of Inl _ \<Rightarrow> False
       | Inr s \<Rightarrow> query_results s = [] \<and> answered s = [] \<and> map_option mq_callback (pending_main_frame_query s) = Some (Some 7))"
  by code_simp

text \<open>A redirect of a URL to itself without a request adds the page before it to the chain: after an unsafe page a
  safe one is blocked.\<close>

lemma safe_page_blocked_after_unsafe_page:
  "let xs = map (Pair plain_env)
      [Frame_request True ''x'', Unsafe_resource_found ''x'' True, Query_finished (main_query ''x'' 0) False True,
       Frame_response True ''x'' 1, Frame_request True ''y'', Server_redirect, Query_finished (main_query ''y'' 1) True False,
       Frame_response True ''y'' 2]
   in admissible (sb_step plain_ops) (sb_ok plain_ops) SafeBrowsingTabHelper xs \<and>
      (case orun (sb_step plain_ops) SafeBrowsingTabHelper xs of Inl _ \<Rightarrow> False
       | Inr s \<Rightarrow> answered s = [Main_answer 1 CreateSafeBrowsingErrorDecision [(''x'', Some CreateSafeBrowsingErrorDecision)],
           Main_answer 2 CreateSafeBrowsingErrorDecision [(''x'', Some CreateSafeBrowsingErrorDecision), (''y'', Some Allow)]])"
  by code_simp

text \<open>A sub frame of a tab without a committed item has no query, and its response waits.\<close>

lemma sub_frame_without_item_waits:
  "let xs = map (Pair plain_env) [Frame_request False ''f'', Frame_response False ''f'' 3]
   in admissible (sb_step plain_ops) (sb_ok plain_ops) SafeBrowsingTabHelper xs \<and>
      (case orun (sb_step plain_ops) SafeBrowsingTabHelper xs of Inl _ \<Rightarrow> False
       | Inr s \<Rightarrow> query_results s = [] \<and> answered s = [] \<and>
           map (sq_callbacks \<circ> snd) (pending_sub_frame_queries s) = [[3]])"
  by code_simp

end
