(* ===== verification/Browsing_Data_Remover.thy ===== *)
theory Browsing_Data_Remover
  imports Prelude "HOL-Library.Word" "HOL-Library.Multiset"
begin

unbundle bit_operations_syntax

text \<open>
  The deletion of browsing data: \<open>chrome/browser/browsing_data/browsing_data_remover_impl.{h,mm}\<close> with its
  masks (\<open>browsing_data_remove_mask.h\<close>), and the part that calls WebKit
  (\<open>web/browsing_data/browsing_data_remover.mm\<close>, \<open>web/public/browsing_data/browsing_data_removing_util.h\<close>).

  Removal tasks wait in a queue; the first runs.  \<open>RemoveImpl\<close> starts its deletions, most of which answer
  later with a closure; the task is complete when all closures it has created are run.  A deletion is
  named after what it deletes.  \<open>closures\<close> are the deletions that have not answered, in any order;
  \<open>posted\<close> the tasks of the sequence, which run first in first out; \<open>log\<close> what has happened.  \<open>started\<close>
  records the tasks that were started with their deletions; it is not part of the code.
\<close>

section \<open>Masks\<close>

type_synonym remove_mask = "32 word"

definition REMOVE_APPCACHE :: remove_mask where "REMOVE_APPCACHE = push_bit 0 1"
definition REMOVE_CACHE :: remove_mask where "REMOVE_CACHE = push_bit 1 1"
definition REMOVE_COOKIES :: remove_mask where "REMOVE_COOKIES = push_bit 2 1"
definition REMOVE_DOWNLOADS :: remove_mask where "REMOVE_DOWNLOADS = push_bit 3 1"
definition REMOVE_FORM_DATA :: remove_mask where "REMOVE_FORM_DATA = push_bit 4 1"
definition REMOVE_HISTORY :: remove_mask where "REMOVE_HISTORY = push_bit 5 1"
definition REMOVE_INDEXEDDB :: remove_mask where "REMOVE_INDEXEDDB = push_bit 6 1"
definition REMOVE_LOCAL_STORAGE :: remove_mask where "REMOVE_LOCAL_STORAGE = push_bit 7 1"
definition REMOVE_PASSWORDS :: remove_mask where "REMOVE_PASSWORDS = push_bit 8 1"
definition REMOVE_WEBSQL :: remove_mask where "REMOVE_WEBSQL = push_bit 9 1"
definition REMOVE_CACHE_STORAGE :: remove_mask where "REMOVE_CACHE_STORAGE = push_bit 11 1"
definition REMOVE_VISITED_LINKS :: remove_mask where "REMOVE_VISITED_LINKS = push_bit 12 1"
definition REMOVE_BOOKMARKS :: remove_mask where "REMOVE_BOOKMARKS = push_bit 13 1"
definition REMOVE_READING_LIST :: remove_mask where "REMOVE_READING_LIST = push_bit 14 1"
definition REMOVE_LAST_USER_ACCOUNT :: remove_mask where "REMOVE_LAST_USER_ACCOUNT = push_bit 15 1"

definition REMOVE_SITE_DATA :: remove_mask where
  "REMOVE_SITE_DATA = REMOVE_APPCACHE OR REMOVE_COOKIES OR REMOVE_INDEXEDDB OR REMOVE_LOCAL_STORAGE OR
     REMOVE_CACHE_STORAGE OR REMOVE_WEBSQL OR REMOVE_VISITED_LINKS"

definition IsRemoveDataMaskSet :: "remove_mask \<Rightarrow> remove_mask \<Rightarrow> bool" where
  "IsRemoveDataMaskSet m flag \<longleftrightarrow> m AND flag = flag"

text \<open>The masks of the layer below.\<close>

definition kRemoveAppCache :: remove_mask where "kRemoveAppCache = push_bit 0 1"
definition kRemoveCookies :: remove_mask where "kRemoveCookies = push_bit 1 1"
definition kRemoveIndexedDB :: remove_mask where "kRemoveIndexedDB = push_bit 2 1"
definition kRemoveLocalStorage :: remove_mask where "kRemoveLocalStorage = push_bit 3 1"
definition kRemoveWebSQL :: remove_mask where "kRemoveWebSQL = push_bit 4 1"
definition kRemoveCacheStorage :: remove_mask where "kRemoveCacheStorage = push_bit 5 1"
definition kRemoveVisitedLinks :: remove_mask where "kRemoveVisitedLinks = push_bit 6 1"

fun or_if :: "remove_mask \<Rightarrow> (remove_mask \<times> remove_mask) list \<Rightarrow> remove_mask \<Rightarrow> remove_mask" where
  "or_if m [] types = types"
| "or_if m ((flag, type) # fs) types = or_if m fs (if IsRemoveDataMaskSet m flag then types OR type else types)"

text \<open>The first part of \<open>RemoveDataFromWKWebsiteDataStore\<close>.\<close>

definition web_types :: "remove_mask \<Rightarrow> remove_mask" where
  "web_types m = or_if m
     [(REMOVE_APPCACHE, kRemoveAppCache), (REMOVE_COOKIES, kRemoveCookies), (REMOVE_INDEXEDDB, kRemoveIndexedDB),
      (REMOVE_LOCAL_STORAGE, kRemoveLocalStorage), (REMOVE_WEBSQL, kRemoveWebSQL),
      (REMOVE_CACHE_STORAGE, kRemoveCacheStorage), (REMOVE_VISITED_LINKS, kRemoveVisitedLinks)] 0"

datatype wk_data_type =
    WKWebsiteDataTypeDiskCache
  | WKWebsiteDataTypeMemoryCache
  | WKWebsiteDataTypeOfflineWebApplicationCache
  | WKWebsiteDataTypeSessionStorage
  | WKWebsiteDataTypeLocalStorage
  | WKWebsiteDataTypeWebSQLDatabases
  | WKWebsiteDataTypeIndexedDBDatabases
  | WKWebsiteDataTypeCookies

definition data_types_to_remove :: "remove_mask \<Rightarrow> wk_data_type list" where
  "data_types_to_remove types =
     (if IsRemoveDataMaskSet types kRemoveCacheStorage then [WKWebsiteDataTypeDiskCache, WKWebsiteDataTypeMemoryCache] else []) @
     (if IsRemoveDataMaskSet types kRemoveAppCache then [WKWebsiteDataTypeOfflineWebApplicationCache] else []) @
     (if IsRemoveDataMaskSet types kRemoveLocalStorage then [WKWebsiteDataTypeSessionStorage, WKWebsiteDataTypeLocalStorage] else []) @
     (if IsRemoveDataMaskSet types kRemoveWebSQL then [WKWebsiteDataTypeWebSQLDatabases] else []) @
     (if IsRemoveDataMaskSet types kRemoveIndexedDB then [WKWebsiteDataTypeIndexedDBDatabases] else []) @
     (if IsRemoveDataMaskSet types kRemoveCookies then [WKWebsiteDataTypeCookies] else [])"

section \<open>Deletions\<close>

datatype deletion =
    Session_files
  | Ios_snapshots
  | Browser_cookies int int
  | Safe_browsing_cookies int int
  | History_between int int
  | Host_cache
  | Keywords_when_loaded int int
  | Keywords_between int int
  | Suppressed_clipboard_content
  | Recently_closed_tabs
  | Autofill_origins int int
  | Refreshed_personal_data
  | Database_answered
  | Language_histogram int int
  | Logins_created_between int int
  | Form_elements int int
  | Autofill_data int int
  | Autofill_strikes
  | Http_cache int int
  | Zero_suggest_cache
  | External_files
  | All_user_bookmarks
  | All_reading_list_items
  | Last_user_account
  | Zoom_levels
  | Networking_history int
  | Website_data "wk_data_type list" bool int

text \<open>A deletion is done during the call, or answers with a closure: later, or before the call returns.\<close>

datatype work = Sync deletion | Later deletion | At_once deletion

datatype keywords_model = No_model | Not_loaded | Loaded

text \<open>The services that exist when they are asked for, the time, and the bounds of a period of time.\<close>

record 'p remover_env =
  now :: int
  all_time :: 'p
  CalculateBeginDeleteTime :: "'p \<Rightarrow> int"
  CalculateEndDeleteTime :: "'p \<Rightarrow> int"
  has_history_service :: bool
  has_io_thread :: bool
  template_urls :: keywords_model
  has_tab_service :: bool
  has_web_data_service :: bool
  has_data_manager :: bool
  has_language_histogram :: bool
  has_password_store :: bool
  has_strike_database :: bool
  has_external_file_remover :: bool
  has_account_consistency_service :: bool

definition when_set :: "remove_mask \<Rightarrow> remove_mask \<Rightarrow> work list \<Rightarrow> work list" where
  "when_set m flag ws = (if IsRemoveDataMaskSet m flag then ws else [])"

definition sessions_and_snapshots :: "bool \<Rightarrow> work list" where
  "sessions_and_snapshots session_service = (if session_service then [Later Session_files] else []) @ [Later Ios_snapshots]"

definition cookies_work :: "bool \<Rightarrow> int \<Rightarrow> int \<Rightarrow> work list" where
  "cookies_work off_the_record b e =
     [Later (Browser_cookies b e)] @ (if off_the_record then [] else [Later (Safe_browsing_cookies b e)])"

definition history_work :: "'p remover_env \<Rightarrow> int \<Rightarrow> int \<Rightarrow> work list" where
  "history_work E b e =
     (if has_history_service E then [Later (History_between b e)] else []) @
     (if has_io_thread E then [Later Host_cache] else []) @
     (case template_urls E of
        No_model \<Rightarrow> []
      | Not_loaded \<Rightarrow> [Later (Keywords_when_loaded b e)]
      | Loaded \<Rightarrow> [Sync (Keywords_between b e)]) @
     [Sync Suppressed_clipboard_content] @
     (if has_tab_service E then [Sync Recently_closed_tabs] else []) @
     (if has_web_data_service E
      then [Sync (Autofill_origins b e), Later Database_answered] @
           (if has_data_manager E then [Sync Refreshed_personal_data] else [])
      else []) @
     (if has_language_histogram E then [Sync (Language_histogram b e)] else [])"

definition passwords_work :: "'p remover_env \<Rightarrow> int \<Rightarrow> int \<Rightarrow> work list" where
  "passwords_work E b e = (if has_password_store E then [Later (Logins_created_between b e)] else [])"

definition form_data_work :: "'p remover_env \<Rightarrow> int \<Rightarrow> int \<Rightarrow> work list" where
  "form_data_work E b e =
     (if has_web_data_service E
      then [Sync (Form_elements b e), Sync (Autofill_data b e)] @
           (if has_strike_database E then [Sync Autofill_strikes] else []) @ [Later Database_answered] @
           (if has_data_manager E then [Sync Refreshed_personal_data] else [])
      else [])"

definition downloads_work :: "'p remover_env \<Rightarrow> work list" where
  "downloads_work E = (if has_external_file_remover E then [Later External_files] else [])"

text \<open>\<open>web::BrowsingDataRemover::ClearBrowsingData\<close> runs the closure at once if there is no type of data to
  remove; else it may purge the process pool.\<close>

definition website_data_work :: "int \<Rightarrow> remove_mask \<Rightarrow> work" where
  "website_data_work b types =
     (if data_types_to_remove types = [] then At_once (Website_data [] False b)
      else Later (Website_data (data_types_to_remove types) (IsRemoveDataMaskSet types kRemoveVisitedLinks) b))"

text \<open>The body of \<open>RemoveImpl\<close>.\<close>

definition removal_work :: "'p remover_env \<Rightarrow> bool \<Rightarrow> bool \<Rightarrow> int \<Rightarrow> int \<Rightarrow> remove_mask \<Rightarrow> work list" where
  "removal_work E off_the_record session_service b e m =
     when_set m REMOVE_HISTORY (sessions_and_snapshots session_service) @
     when_set m REMOVE_COOKIES (cookies_work off_the_record b e) @
     (if off_the_record then []
      else
        when_set m REMOVE_HISTORY (history_work E b e) @
        when_set m REMOVE_PASSWORDS (passwords_work E b e) @
        when_set m REMOVE_FORM_DATA (form_data_work E b e) @
        when_set m REMOVE_CACHE [Later (Http_cache b e)] @
        (if IsRemoveDataMaskSet m REMOVE_CACHE \<or> IsRemoveDataMaskSet m REMOVE_COOKIES then [Sync Zero_suggest_cache] else []) @
        when_set m REMOVE_DOWNLOADS (downloads_work E) @
        when_set m REMOVE_BOOKMARKS [Later All_user_bookmarks] @
        when_set m REMOVE_READING_LIST [Later All_reading_list_items] @
        when_set m REMOVE_LAST_USER_ACCOUNT [Sync Last_user_account] @
        when_set m REMOVE_SITE_DATA [Sync Zoom_levels] @
        [Later (Networking_history b), website_data_work b (web_types m)])"

section \<open>The remover\<close>

record 'c removal_task =
  delete_begin :: int
  delete_end :: int
  task_mask :: remove_mask
  task_callback :: "'c option"
  task_started :: "int option"

datatype 'c posted_task = Post_callback 'c | Post_observers remove_mask | Post_next_task

datatype 'c removal_log =
    Performed deletion
  | Account_consistency_told
  | Ran 'c
  | Observers_told remove_mask

text \<open>\<open>browser_state\<close> says whether it is off the record; weak pointers are valid until the shutdown.\<close>

record 'c data_remover =
  browser_state :: "bool option"
  session_service :: bool
  is_removing :: bool
  pending_tasks_count :: int
  removal_queue :: "'c removal_task list"
  weak_ptrs_valid :: bool
  closures :: "deletion list"
  posted :: "'c posted_task list"
  log :: "'c removal_log list"
  started :: "(remove_mask \<times> deletion list) list"

definition BrowsingDataRemoverImpl :: "bool \<Rightarrow> bool \<Rightarrow> 'c data_remover" where
  "BrowsingDataRemoverImpl off_the_record service =
     \<lparr>browser_state = Some off_the_record, session_service = service, is_removing = False, pending_tasks_count = 0,
      removal_queue = [], weak_ptrs_valid = True, closures = [], posted = [], log = [], started = []\<rparr>"

definition SetRemoving :: "bool \<Rightarrow> 'c data_remover \<Rightarrow> 'c data_remover outcome" where
  "SetRemoving removing s = dcheck (is_removing s \<noteq> removing) (Inr (s\<lparr>is_removing := removing\<rparr>))"

definition log_entry :: "'c removal_log \<Rightarrow> 'c data_remover \<Rightarrow> 'c data_remover" where
  "log_entry x s = s\<lparr>log := log s @ [x]\<rparr>"

definition post_task :: "'c posted_task \<Rightarrow> 'c data_remover \<Rightarrow> 'c data_remover" where
  "post_task x s = s\<lparr>posted := posted s @ [x]\<rparr>"

definition post_callback :: "'c option \<Rightarrow> 'c data_remover \<Rightarrow> 'c data_remover" where
  "post_callback c s = (case c of None \<Rightarrow> s | Some f \<Rightarrow> post_task (Post_callback f) s)"

definition NotifyRemovalComplete :: "'p remover_env \<Rightarrow> 'c data_remover \<Rightarrow> 'c data_remover outcome" where
  "NotifyRemovalComplete E s =
     (case removal_queue s of
        [] \<Rightarrow> Inl Dcheck_failed
      | task # tasks \<Rightarrow>
          if browser_state s = None then Inl Null_dereference
          else
            let s = (if has_account_consistency_service E then log_entry Account_consistency_told s else s);
                s = s\<lparr>removal_queue := tasks\<rparr>;
                s = post_callback (task_callback task) s;
                s = post_task (Post_observers (task_mask task)) s
            in if tasks = [] then SetRemoving False s else Inr (post_task Post_next_task s))"

definition OnTaskComplete :: "'p remover_env \<Rightarrow> 'c data_remover \<Rightarrow> 'c data_remover outcome" where
  "OnTaskComplete E s =
     dcheck (pending_tasks_count s > 0)
       (let s = s\<lparr>pending_tasks_count := pending_tasks_count s - 1\<rparr>
        in if pending_tasks_count s > 0 then Inr s else NotifyRemovalComplete E s)"

definition CreatePendingTaskCompletionClosure :: "'c data_remover \<Rightarrow> 'c data_remover" where
  "CreatePendingTaskCompletionClosure s = s\<lparr>pending_tasks_count := pending_tasks_count s + 1\<rparr>"

fun do_work :: "'p remover_env \<Rightarrow> work \<Rightarrow> 'c data_remover \<Rightarrow> 'c data_remover outcome" where
  "do_work E (Sync d) s = Inr (log_entry (Performed d) s)"
| "do_work E (Later d) s = (let s = CreatePendingTaskCompletionClosure s in Inr (s\<lparr>closures := closures s @ [d]\<rparr>))"
| "do_work E (At_once d) s = OnTaskComplete E (log_entry (Performed d) (CreatePendingTaskCompletionClosure s))"

fun do_works :: "'p remover_env \<Rightarrow> work list \<Rightarrow> 'c data_remover \<Rightarrow> 'c data_remover outcome" where
  "do_works E [] s = Inr s"
| "do_works E (w # ws) s = obind (do_work E w s) (do_works E ws)"

fun deletion_of :: "work \<Rightarrow> deletion" where
  "deletion_of (Sync d) = d"
| "deletion_of (Later d) = d"
| "deletion_of (At_once d) = d"

text \<open>The first closure is run when \<open>RemoveImpl\<close> returns.\<close>

definition RemoveImpl :: "'p remover_env \<Rightarrow> int \<Rightarrow> int \<Rightarrow> remove_mask \<Rightarrow> 'c data_remover \<Rightarrow> 'c data_remover outcome" where
  "RemoveImpl E b e m s =
     (case browser_state s of
        None \<Rightarrow> Inl Null_dereference
      | Some off_the_record \<Rightarrow>
          let ws = removal_work E off_the_record (session_service s) b e m;
              s = s\<lparr>started := started s @ [(m, map deletion_of ws)]\<rparr>
          in obind (do_works E ws (CreatePendingTaskCompletionClosure s)) (OnTaskComplete E))"

definition RunNextTask :: "'p remover_env \<Rightarrow> 'c data_remover \<Rightarrow> 'c data_remover outcome" where
  "RunNextTask E s =
     (case removal_queue s of
        [] \<Rightarrow> Inl Dcheck_failed
      | task # tasks \<Rightarrow>
          RemoveImpl E (delete_begin task) (delete_end task) (task_mask task)
            (s\<lparr>removal_queue := task\<lparr>task_started := Some (now E)\<rparr> # tasks\<rparr>))"

definition can_remove :: "'p remover_env \<Rightarrow> 'p \<Rightarrow> remove_mask \<Rightarrow> 'c data_remover \<Rightarrow> bool" where
  "can_remove E period m s \<longleftrightarrow>
     (case browser_state s of
        None \<Rightarrow> False
      | Some off_the_record \<Rightarrow>
          m \<noteq> 0 \<and> (\<not> off_the_record \<or> period = all_time E) \<and>
          (\<not> (IsRemoveDataMaskSet m REMOVE_DOWNLOADS \<or> IsRemoveDataMaskSet m REMOVE_BOOKMARKS \<or>
               IsRemoveDataMaskSet m REMOVE_READING_LIST) \<or> period = all_time E) \<and>
          (IsRemoveDataMaskSet m REMOVE_COOKIES \<or> \<not> IsRemoveDataMaskSet m REMOVE_VISITED_LINKS))"

definition Remove :: "'p remover_env \<Rightarrow> 'p \<Rightarrow> remove_mask \<Rightarrow> 'c option \<Rightarrow> 'c data_remover \<Rightarrow> 'c data_remover outcome" where
  "Remove E period m callback s =
     dcheck (can_remove E period m s)
       (let task = \<lparr>delete_begin = CalculateBeginDeleteTime E period, delete_end = CalculateEndDeleteTime E period,
              task_mask = m, task_callback = callback, task_started = None\<rparr>;
            s = s\<lparr>removal_queue := removal_queue s @ [task]\<rparr>
        in if length (removal_queue s) = 1 then obind (SetRemoving True s) (RunNextTask E) else Inr s)"

definition Shutdown :: "'c data_remover \<Rightarrow> 'c data_remover outcome" where
  "Shutdown s =
     (let s = s\<lparr>weak_ptrs_valid := False, browser_state := None\<rparr> in
      obind (if is_removing s then SetRemoving False s else Inr s)
        (\<lambda>s. Inr ((fold (\<lambda>task. post_callback (task_callback task)) (removal_queue s) s)\<lparr>removal_queue := []\<rparr>)))"

text \<open>\<open>RemoveSessionsData\<close> needs the path of the browser state.\<close>

definition RemoveSessionsData :: "'c data_remover \<Rightarrow> 'c data_remover outcome" where
  "RemoveSessionsData s = (if browser_state s = None then Inl Null_dereference else Inr s)"

section \<open>Answers\<close>

fun must_succeed :: "deletion \<Rightarrow> bool" where
  "must_succeed All_user_bookmarks = True"
| "must_succeed All_reading_list_items = True"
| "must_succeed _ = False"

text \<open>\<open>OnKeywordsLoaded\<close> is bound to a weak pointer itself.\<close>

fun needs_remover :: "deletion \<Rightarrow> bool" where
  "needs_remover (Keywords_when_loaded _ _) = True"
| "needs_remover _ = False"

definition answer_closure :: "'p remover_env \<Rightarrow> nat \<Rightarrow> bool \<Rightarrow> 'c data_remover \<Rightarrow> 'c data_remover outcome" where
  "answer_closure E i success s =
     (let d = closures s ! i;
          s = s\<lparr>closures := take i (closures s) @ drop (Suc i) (closures s)\<rparr>
      in check (must_succeed d \<longrightarrow> success)
        (if weak_ptrs_valid s then OnTaskComplete E (log_entry (Performed d) s)
         else Inr (if needs_remover d then s else log_entry (Performed d) s)))"

definition run_posted :: "'p remover_env \<Rightarrow> 'c data_remover \<Rightarrow> 'c data_remover outcome" where
  "run_posted E s =
     (case posted s of
        [] \<Rightarrow> Inr s
      | p # ps \<Rightarrow>
          let s = s\<lparr>posted := ps\<rparr> in
          (case p of
             Post_callback f \<Rightarrow> Inr (log_entry (Ran f) s)
           | Post_observers m \<Rightarrow> Inr (if weak_ptrs_valid s then log_entry (Observers_told m) s else s)
           | Post_next_task \<Rightarrow> if weak_ptrs_valid s then RunNextTask E s else Inr s))"

datatype ('p, 'c) remover_event =
    Call_remove 'p remove_mask "'c option"
  | Call_remove_sessions
  | Call_shutdown
  | Closure_run nat bool
  | Posted_task_run

fun remover_step :: "'c data_remover \<Rightarrow> 'p remover_env \<times> ('p, 'c) remover_event \<Rightarrow> 'c data_remover outcome" where
  "remover_step s (E, Call_remove period m callback) = Remove E period m callback s"
| "remover_step s (E, Call_remove_sessions) = RemoveSessionsData s"
| "remover_step s (E, Call_shutdown) = Shutdown s"
| "remover_step s (E, Closure_run i success) = answer_closure E i success s"
| "remover_step s (E, Posted_task_run) = run_posted E s"

text \<open>Callers meet the conditions of \<open>Remove\<close>, and the removal of bookmarks and reading list succeeds.\<close>

fun remover_ok :: "'c data_remover \<Rightarrow> 'p remover_env \<times> ('p, 'c) remover_event \<Rightarrow> bool" where
  "remover_ok s (E, Call_remove period m callback) \<longleftrightarrow> can_remove E period m s"
| "remover_ok s (E, Call_remove_sessions) \<longleftrightarrow> browser_state s \<noteq> None"
| "remover_ok s (E, Call_shutdown) \<longleftrightarrow> True"
| "remover_ok s (E, Closure_run i success) \<longleftrightarrow> i < length (closures s) \<and> (must_succeed (closures s ! i) \<longrightarrow> success)"
| "remover_ok s (E, Posted_task_run) \<longleftrightarrow> posted s \<noteq> []"

end
