(* ===== verification/Browsing_Data_Runs.thy ===== *)
theory Browsing_Data_Runs
  imports Browsing_Data_Remover
begin

text \<open>
  Runs of the remover of browsing data: what starting and completing a task does, the invariant
  \<open>remover_inv\<close>, the account of callbacks, tasks and deletions, and the weight that every answer lowers.
\<close>

section \<open>Starting and completing a task\<close>

definition later :: "work list \<Rightarrow> deletion list" where
  "later ws = concat (map (\<lambda>w. case w of Later d \<Rightarrow> [d] | _ \<Rightarrow> []) ws)"

definition done_now :: "work list \<Rightarrow> deletion list" where
  "done_now ws = concat (map (\<lambda>w. case w of Sync d \<Rightarrow> [d] | At_once d \<Rightarrow> [d] | Later d \<Rightarrow> []) ws)"

lemma all_work: "mset (done_now ws) + mset (later ws) = mset (map deletion_of ws)"
  by (induction ws) (auto simp: done_now_def later_def split: work.split)

lemma do_works_is:
  "0 < pending_tasks_count s \<Longrightarrow>
     do_works E ws s =
       Inr (s\<lparr>pending_tasks_count := pending_tasks_count s + int (length (later ws)), closures := closures s @ later ws,
              log := log s @ map Performed (done_now ws)\<rparr>)"
proof (induction ws arbitrary: s)
  case Nil
  then show ?case by (simp add: later_def done_now_def)
next
  case (Cons w ws)
  have "do_work E w s =
      Inr (s\<lparr>pending_tasks_count := pending_tasks_count s + int (length (later [w])), closures := closures s @ later [w],
             log := log s @ map Performed (done_now [w])\<rparr>)"
    using Cons.prems
    by (cases w) (simp_all add: later_def done_now_def log_entry_def CreatePendingTaskCompletionClosure_def OnTaskComplete_def)
  then show ?case using Cons by (simp add: later_def done_now_def)
qed

definition opt_list :: "'a option \<Rightarrow> 'a list" where
  "opt_list x = (case x of None \<Rightarrow> [] | Some y \<Rightarrow> [y])"

lemma post_callback_is: "post_callback c s = s\<lparr>posted := posted s @ map Post_callback (opt_list c)\<rparr>"
  by (simp add: post_callback_def post_task_def opt_list_def split: option.split)

definition completed :: "'p remover_env \<Rightarrow> 'c data_remover \<Rightarrow> 'c data_remover" where
  "completed E s =
     (let task = hd (removal_queue s); tasks = tl (removal_queue s) in
      s\<lparr>log := log s @ (if has_account_consistency_service E then [Account_consistency_told] else []),
        removal_queue := tasks,
        posted := posted s @ map Post_callback (opt_list (task_callback task)) @ [Post_observers (task_mask task)] @
          (if tasks = [] then [] else [Post_next_task]),
        is_removing := (tasks \<noteq> [])\<rparr>)"

lemma NotifyRemovalComplete_is:
  assumes "removal_queue s \<noteq> []" and "browser_state s \<noteq> None" and "is_removing s"
  shows "NotifyRemovalComplete E s = Inr (completed E s)"
  using assms
  by (cases "removal_queue s")
    (simp_all add: NotifyRemovalComplete_def completed_def post_callback_is post_task_def log_entry_def SetRemoving_def Let_def)

definition first_task_started :: "'p remover_env \<Rightarrow> 'c data_remover \<Rightarrow> 'c data_remover" where
  "first_task_started E s =
     (let task = hd (removal_queue s);
          ws = removal_work E (the (browser_state s)) (session_service s) (delete_begin task) (delete_end task) (task_mask task)
      in s\<lparr>removal_queue := task\<lparr>task_started := Some (now E)\<rparr> # tl (removal_queue s),
           started := started s @ [(task_mask task, map deletion_of ws)], pending_tasks_count := int (length (later ws)),
           closures := later ws, log := log s @ map Performed (done_now ws)\<rparr>)"

lemma last_closure:
  assumes "0 \<le> pending_tasks_count s"
  shows "OnTaskComplete E (s\<lparr>pending_tasks_count := pending_tasks_count s + 1\<rparr>) =
    (if pending_tasks_count s > 0 then Inr s else NotifyRemovalComplete E s)"
  using assms by (simp add: OnTaskComplete_def)

lemma RunNextTask_is:
  assumes "removal_queue s \<noteq> []" and "browser_state s \<noteq> None" and "is_removing s"
    and "pending_tasks_count s = 0" and "closures s = []"
  shows "RunNextTask E s =
    Inr (let u = first_task_started E s in if closures u = [] then completed E u else u)"
proof -
  obtain task tasks where q: "removal_queue s = task # tasks" using assms(1) by (cases "removal_queue s") auto
  obtain off where b: "browser_state s = Some off" using assms(2) by auto
  let ?ws = "removal_work E off (session_service s) (delete_begin task) (delete_end task) (task_mask task)"
  let ?u = "first_task_started E s"
  let ?s = "s\<lparr>removal_queue := task\<lparr>task_started := Some (now E)\<rparr> # tasks, started := started s @ [(task_mask task, map deletion_of ?ws)],
      pending_tasks_count := 1\<rparr>"
  have "do_works E ?ws ?s = Inr (?u\<lparr>pending_tasks_count := pending_tasks_count ?u + 1\<rparr>)"
    using do_works_is [of ?s E ?ws] q b assms(5) by (simp add: first_task_started_def Let_def)
  then have "RunNextTask E s = OnTaskComplete E (?u\<lparr>pending_tasks_count := pending_tasks_count ?u + 1\<rparr>)"
    using q b assms(4) by (simp add: RunNextTask_def RemoveImpl_def CreatePendingTaskCompletionClosure_def Let_def)
  also have "\<dots> = (if pending_tasks_count ?u > 0 then Inr ?u else NotifyRemovalComplete E ?u)"
    by (rule last_closure) (simp add: first_task_started_def Let_def)
  also have "NotifyRemovalComplete E ?u = Inr (completed E ?u)"
    using assms by (intro NotifyRemovalComplete_is) (simp_all add: first_task_started_def Let_def)
  also have "pending_tasks_count ?u > 0 \<longleftrightarrow> closures ?u \<noteq> []"
    by (simp add: first_task_started_def Let_def)
  finally show ?thesis by (simp add: Let_def)
qed

section \<open>The invariant\<close>

definition nexts :: "'c data_remover \<Rightarrow> nat" where
  "nexts s = count_list (posted s) Post_next_task"

text \<open>A remover that is shut down does nothing; else its first task is waiting for closures or for its start.\<close>

definition remover_inv :: "'c data_remover \<Rightarrow> bool" where
  "remover_inv s \<longleftrightarrow>
     (browser_state s \<noteq> None \<longleftrightarrow> weak_ptrs_valid s) \<and>
     (if weak_ptrs_valid s
      then is_removing s = (removal_queue s \<noteq> []) \<and> pending_tasks_count s = int (length (closures s)) \<and>
        nexts s = (if removal_queue s \<noteq> [] \<and> closures s = [] then 1 else 0) \<and> (removal_queue s = [] \<longrightarrow> closures s = [])
      else \<not> is_removing s \<and> removal_queue s = [])"

definition callbacks_in :: "('a \<Rightarrow> 'c option) \<Rightarrow> 'a list \<Rightarrow> 'c list" where
  "callbacks_in f xs = concat (map (opt_list \<circ> f) xs)"

lemma callbacks_in_simps [simp]:
  "callbacks_in f [] = []" "callbacks_in f (x # xs) = opt_list (f x) @ callbacks_in f xs"
  "callbacks_in f (xs @ ys) = callbacks_in f xs @ callbacks_in f ys"
  by (simp_all add: callbacks_in_def)

lemma opt_list_simps [simp]: "opt_list None = []" "opt_list (Some x) = [x]"
  by (simp_all add: opt_list_def)

fun ran_callback :: "'c removal_log \<Rightarrow> 'c option" where
  "ran_callback (Ran f) = Some f"
| "ran_callback _ = None"

fun posted_callback :: "'c posted_task \<Rightarrow> 'c option" where
  "posted_callback (Post_callback f) = Some f"
| "posted_callback _ = None"

fun performed_deletion :: "'c removal_log \<Rightarrow> deletion option" where
  "performed_deletion (Performed d) = Some d"
| "performed_deletion _ = None"

lemma callbacks_in_maps [simp]:
  "callbacks_in posted_callback (map Post_callback fs) = fs" "callbacks_in ran_callback (map Performed ds) = []"
  "callbacks_in performed_deletion (map Performed ds) = ds"
proof -
  show "callbacks_in posted_callback (map Post_callback fs) = fs" by (induction fs) simp_all
  show "callbacks_in ran_callback (map Performed ds) = []" by (induction ds) simp_all
  show "callbacks_in performed_deletion (map Performed ds) = ds" by (induction ds) simp_all
qed

definition performed :: "'c data_remover \<Rightarrow> deletion list" where
  "performed s = callbacks_in performed_deletion (log s)"

text \<open>All callbacks, in the order in which they run.\<close>

definition all_callbacks :: "'c data_remover \<Rightarrow> 'c list" where
  "all_callbacks s =
     callbacks_in ran_callback (log s) @ callbacks_in posted_callback (posted s) @ callbacks_in task_callback (removal_queue s)"

text \<open>The masks of the tasks, in the order in which they are started.\<close>

definition waiting_tasks :: "'c data_remover \<Rightarrow> 'c removal_task list" where
  "waiting_tasks s = (if closures s = [] then removal_queue s else tl (removal_queue s))"

definition all_masks :: "'c data_remover \<Rightarrow> remove_mask list" where
  "all_masks s = map fst (started s) @ map task_mask (waiting_tasks s)"

text \<open>Each deletion of a started task is performed or has not answered; only the task under way has such.\<close>

definition accounted :: "'c data_remover \<Rightarrow> bool" where
  "accounted s \<longleftrightarrow>
     mset (performed s) + mset (closures s) = mset (concat (map snd (started s))) \<and>
     (closures s \<noteq> [] \<longrightarrow> started s \<noteq> [] \<and> mset (closures s) \<subseteq># mset (snd (last (started s))) \<and>
        fst (last (started s)) = task_mask (hd (removal_queue s)))"

lemma completed_keeps:
  assumes "browser_state s \<noteq> None" and "weak_ptrs_valid s" and "removal_queue s \<noteq> []"
    and "pending_tasks_count s = 0" and "closures s = []" and "nexts s = 0"
  shows "remover_inv (completed E s)" and "all_callbacks (completed E s) = all_callbacks s"
    and "all_masks (completed E s) = map fst (started s) @ map task_mask (tl (removal_queue s))"
    and "accounted (completed E s) = accounted s"
proof -
  obtain task tasks where "removal_queue s = task # tasks" using assms(3) by (cases "removal_queue s") auto
  moreover have "count_list (map Post_callback fs) Post_next_task = 0" for fs :: "'a list"
    by (induction fs) simp_all
  ultimately show "remover_inv (completed E s)" "all_callbacks (completed E s) = all_callbacks s"
    "all_masks (completed E s) = map fst (started s) @ map task_mask (tl (removal_queue s))"
    "accounted (completed E s) = accounted s"
    using assms
    by (simp_all add: completed_def Let_def remover_inv_def nexts_def all_callbacks_def all_masks_def waiting_tasks_def accounted_def
        performed_def)
qed

lemma first_task_started_keeps:
  assumes "removal_queue s \<noteq> []" and "closures s = []"
  shows "all_callbacks (first_task_started E s) = all_callbacks s"
    and "map fst (started (first_task_started E s)) @ map task_mask (tl (removal_queue (first_task_started E s))) = all_masks s"
    and "accounted s \<Longrightarrow> accounted (first_task_started E s)"
proof -
  obtain task tasks where q: "removal_queue s = task # tasks" using assms(1) by (cases "removal_queue s") auto
  then show "all_callbacks (first_task_started E s) = all_callbacks s"
    "map fst (started (first_task_started E s)) @ map task_mask (tl (removal_queue (first_task_started E s))) = all_masks s"
    using assms by (simp_all add: first_task_started_def Let_def all_callbacks_def all_masks_def waiting_tasks_def)
  assume "accounted s"
  moreover have "mset (later ws) \<subseteq># mset (map deletion_of ws)" for ws
    unfolding all_work [symmetric] by simp
  ultimately show "accounted (first_task_started E s)"
    using assms(2) all_work
    by (simp add: accounted_def first_task_started_def Let_def performed_def add.assoc)
qed

lemma RunNextTask_keeps:
  assumes "removal_queue s \<noteq> []" and "browser_state s \<noteq> None" and "weak_ptrs_valid s" and "is_removing s"
    and "pending_tasks_count s = 0" and "closures s = []" and "nexts s = 0"
  obtains t where "RunNextTask E s = Inr t" and "remover_inv t" and "all_callbacks t = all_callbacks s"
    and "all_masks t = all_masks s" and "accounted s \<Longrightarrow> accounted t" and "weak_ptrs_valid t"
proof -
  let ?u = "first_task_started E s"
  note start = first_task_started_keeps [OF assms(1,6), of E]
  have u: "browser_state ?u \<noteq> None" "weak_ptrs_valid ?u" "removal_queue ?u \<noteq> []" "is_removing ?u" "nexts ?u = 0"
    "pending_tasks_count ?u = int (length (closures ?u))"
    using assms by (simp_all add: first_task_started_def Let_def nexts_def)
  have run: "RunNextTask E s = Inr (if closures ?u = [] then completed E ?u else ?u)"
    using RunNextTask_is [OF assms(1,2,4,5,6), of E] by (simp add: Let_def)
  show thesis
  proof (cases "closures ?u = []")
    case True
    with u have "pending_tasks_count ?u = 0" by simp
    note fin = completed_keeps [OF u(1,2,3) this True u(5), of E]
    show thesis using True run fin start u(2) by (intro that [of "completed E ?u"]) (simp_all, simp add: completed_def Let_def)
  next
    case False
    then show thesis
      using run u start by (intro that [of ?u]) (simp_all add: remover_inv_def all_masks_def waiting_tasks_def)
  qed
qed

section \<open>Steps\<close>

fun requested :: "'p remover_env \<times> ('p, 'c) remover_event \<Rightarrow> (remove_mask \<times> 'c option) list" where
  "requested (E, Call_remove period m callback) = [(m, callback)]"
| "requested _ = []"

lemma Remove_keeps:
  assumes "remover_inv s" and "can_remove E period m s"
  obtains t where "Remove E period m callback s = Inr t" and "remover_inv t"
    and "all_callbacks t = all_callbacks s @ opt_list callback" and "all_masks t = all_masks s @ [m]" and "accounted s \<Longrightarrow> accounted t"
    and "weak_ptrs_valid t"
proof -
  let ?task = "\<lparr>delete_begin = CalculateBeginDeleteTime E period, delete_end = CalculateEndDeleteTime E period,
    task_mask = m, task_callback = callback, task_started = None\<rparr>"
  let ?s = "s\<lparr>removal_queue := removal_queue s @ [?task]\<rparr>"
  have alive: "browser_state s \<noteq> None" "weak_ptrs_valid s" using assms by (auto simp: can_remove_def remover_inv_def)
  have "removal_queue s = [] \<longrightarrow> closures s = []" using assms(1) alive(2) by (simp add: remover_inv_def)
  then have kept: "all_callbacks ?s = all_callbacks s @ opt_list callback" "accounted ?s = accounted s"
    by (auto simp: all_callbacks_def accounted_def performed_def hd_append)
  show thesis
  proof (cases "removal_queue s = []")
    case True
    let ?u = "?s\<lparr>is_removing := True\<rparr>"
    have idle: "\<not> is_removing s" "closures s = []" "pending_tasks_count s = 0" "nexts s = 0"
      using assms(1) alive True by (simp_all add: remover_inv_def)
    have u: "removal_queue ?u \<noteq> []" "browser_state ?u \<noteq> None" "weak_ptrs_valid ?u" "is_removing ?u"
      "pending_tasks_count ?u = 0" "closures ?u = []" "nexts ?u = 0"
      using alive idle by (simp_all add: nexts_def)
    have "Remove E period m callback s = RunNextTask E ?u"
      using assms(2) True idle(1) by (simp add: Remove_def SetRemoving_def Let_def)
    moreover have "all_callbacks ?u = all_callbacks s @ opt_list callback" "accounted ?u = accounted s"
      "all_masks ?u = all_masks s @ [m]"
      using True idle(2) by (simp_all add: all_callbacks_def accounted_def performed_def all_masks_def waiting_tasks_def)
    moreover obtain t where "RunNextTask E ?u = Inr t" "remover_inv t" "all_callbacks t = all_callbacks ?u"
      "all_masks t = all_masks ?u" "accounted ?u \<Longrightarrow> accounted t" "weak_ptrs_valid t"
      using RunNextTask_keeps [OF u, of E] by blast
    ultimately show thesis by (intro that [of t]) simp_all
  next
    case False
    then have "Remove E period m callback s = Inr ?s" using assms(2) by (simp add: Remove_def Let_def)
    moreover have "remover_inv ?s" "all_masks ?s = all_masks s @ [m]"
      using assms(1) alive False by (simp_all add: remover_inv_def nexts_def all_masks_def waiting_tasks_def)
    ultimately show thesis using kept alive by (intro that [of ?s]) simp_all
  qed
qed

lemma fold_post_callbacks:
  "fold (\<lambda>task. post_callback (task_callback task)) tasks s = s\<lparr>posted := posted s @ map Post_callback (callbacks_in task_callback tasks)\<rparr>"
  by (induction tasks arbitrary: s) (simp_all add: post_callback_is)

lemma Shutdown_keeps:
  assumes "remover_inv s"
  obtains t where "Shutdown s = Inr t" and "remover_inv t" and "all_callbacks t = all_callbacks s"
  using assms
  by (cases "is_removing s")
    (simp_all add: Shutdown_def SetRemoving_def fold_post_callbacks Let_def remover_inv_def all_callbacks_def)

lemma one_removed:
  assumes "i < length xs"
  shows "mset xs = add_mset (xs ! i) (mset (take i xs @ drop (Suc i) xs))"
    and "length xs = Suc (length (take i xs @ drop (Suc i) xs))"
proof -
  have "mset xs = mset (take i xs @ xs ! i # drop (Suc i) xs)" by (rule arg_cong [OF id_take_nth_drop [OF assms]])
  then show "mset xs = add_mset (xs ! i) (mset (take i xs @ drop (Suc i) xs))" by simp
  show "length xs = Suc (length (take i xs @ drop (Suc i) xs))" using assms by simp
qed

lemma answer_closure_keeps:
  assumes "remover_inv s" and "i < length (closures s)" and "must_succeed (closures s ! i) \<longrightarrow> success"
  obtains t where "answer_closure E i success s = Inr t" and "remover_inv t" and "all_callbacks t = all_callbacks s"
    and "weak_ptrs_valid s \<Longrightarrow> all_masks t = all_masks s" and "weak_ptrs_valid s \<Longrightarrow> accounted s \<Longrightarrow> accounted t"
    and "weak_ptrs_valid t = weak_ptrs_valid s"
proof -
  define d rest where "d = closures s ! i" and "rest = take i (closures s) @ drop (Suc i) (closures s)"
  have split: "mset (closures s) = add_mset d (mset rest)" "length (closures s) = Suc (length rest)"
    unfolding d_def rest_def by (rule one_removed [OF assms(2)])+
  have answer: "answer_closure E i success s =
      check (must_succeed d \<longrightarrow> success)
        (if weak_ptrs_valid s then OnTaskComplete E (log_entry (Performed d) (s\<lparr>closures := rest\<rparr>))
         else Inr (if needs_remover d then s\<lparr>closures := rest\<rparr> else log_entry (Performed d) (s\<lparr>closures := rest\<rparr>)))"
    by (simp add: answer_closure_def d_def rest_def Let_def)
  have success: "must_succeed d \<longrightarrow> success" using assms(3) by (simp add: d_def)
  show thesis
  proof (cases "weak_ptrs_valid s")
    case False
    let ?t = "if needs_remover d then s\<lparr>closures := rest\<rparr> else log_entry (Performed d) (s\<lparr>closures := rest\<rparr>)"
    have "answer_closure E i success s = Inr ?t" using False success by (simp add: answer)
    moreover have "remover_inv ?t" "all_callbacks ?t = all_callbacks s" "weak_ptrs_valid ?t = weak_ptrs_valid s"
      using assms(1) False by (simp_all add: remover_inv_def all_callbacks_def log_entry_def)
    ultimately show thesis using False by (intro that [of ?t]) simp_all
  next
    case True
    have alive: "browser_state s \<noteq> None" "removal_queue s \<noteq> []" "is_removing s" "nexts s = 0"
      "pending_tasks_count s = int (length rest) + 1"
      using assms(1,2) True split(2) by (auto simp: remover_inv_def split: if_splits)
    let ?u = "s\<lparr>closures := rest, log := log s @ [Performed d], pending_tasks_count := int (length rest)\<rparr>"
    have u: "browser_state ?u \<noteq> None" "weak_ptrs_valid ?u" "removal_queue ?u \<noteq> []" "nexts ?u = 0"
      using alive True by (simp_all add: nexts_def)
    have "all_callbacks ?u = all_callbacks s" by (simp add: all_callbacks_def)
    have masks: "map fst (started ?u) @ map task_mask (tl (removal_queue ?u)) = all_masks s"
      using assms(2) by (auto simp: all_masks_def waiting_tasks_def)
    have acc: "accounted ?u" if "accounted s"
      using that split(1) assms(2)
      by (auto simp: accounted_def performed_def) (metis mset_subset_eq_insertD subset_mset.less_imp_le)
    have "log_entry (Performed d) (s\<lparr>closures := rest\<rparr>) = ?u\<lparr>pending_tasks_count := pending_tasks_count ?u + 1\<rparr>"
      using alive(5) by (intro data_remover.equality) (simp_all add: log_entry_def)
    then have "answer_closure E i success s =
        OnTaskComplete E (?u\<lparr>pending_tasks_count := pending_tasks_count ?u + 1\<rparr>)"
      using True success by (simp add: answer)
    also have "\<dots> = (if pending_tasks_count ?u > 0 then Inr ?u else NotifyRemovalComplete E ?u)" by (rule last_closure) simp
    finally have run: "answer_closure E i success s = (if rest \<noteq> [] then Inr ?u else NotifyRemovalComplete E ?u)" by simp
    show thesis
    proof (cases "rest = []")
      case False
      have "remover_inv ?u" "all_masks ?u = all_masks s"
        using u alive False masks by (simp_all add: remover_inv_def all_masks_def waiting_tasks_def)
      then show thesis using False run acc True \<open>all_callbacks ?u = _\<close> by (intro that [of ?u]) simp_all
    next
      case rest: True
      then have "closures ?u = []" "pending_tasks_count ?u = 0" by simp_all
      note fin = completed_keeps [OF u(1,2,3) this(2,1) u(4), of E]
      have "answer_closure E i success s = Inr (completed E ?u)"
        using run rest NotifyRemovalComplete_is [OF u(3,1), of E] alive(3) by simp
      then show thesis
        using fin acc masks True \<open>all_callbacks ?u = _\<close>
        by (intro that [of "completed E ?u"]) (simp_all, simp add: completed_def Let_def)
    qed
  qed
qed

lemma run_posted_keeps:
  assumes "remover_inv s" and "posted s \<noteq> []"
  obtains t where "run_posted E s = Inr t" and "remover_inv t" and "all_callbacks t = all_callbacks s"
    and "weak_ptrs_valid s \<Longrightarrow> all_masks t = all_masks s" and "weak_ptrs_valid s \<Longrightarrow> accounted s \<Longrightarrow> accounted t"
    and "weak_ptrs_valid t = weak_ptrs_valid s"
proof -
  obtain p ps where p: "posted s = p # ps" using assms(2) by (cases "posted s") auto
  let ?s = "s\<lparr>posted := ps\<rparr>"
  have kept: "all_masks ?s = all_masks s" "accounted ?s = accounted s"
    by (simp_all add: all_masks_def waiting_tasks_def accounted_def performed_def)
  show thesis
  proof (cases p)
    case (Post_callback f)
    then have "run_posted E s = Inr (log_entry (Ran f) ?s)" by (simp add: run_posted_def p)
    moreover have "remover_inv (log_entry (Ran f) ?s)" "all_callbacks (log_entry (Ran f) ?s) = all_callbacks s"
      using assms(1) p Post_callback by (auto simp: remover_inv_def nexts_def log_entry_def all_callbacks_def split: if_splits)
    moreover have "all_masks (log_entry (Ran f) ?s) = all_masks s" "accounted (log_entry (Ran f) ?s) = accounted s"
      using kept by (simp_all add: log_entry_def all_masks_def waiting_tasks_def accounted_def performed_def)
    ultimately show thesis by (intro that [of "log_entry (Ran f) ?s"]) (simp_all add: log_entry_def)
  next
    case (Post_observers m)
    let ?t = "if weak_ptrs_valid s then log_entry (Observers_told m) ?s else ?s"
    have "run_posted E s = Inr ?t" by (simp add: run_posted_def p Post_observers)
    moreover have "remover_inv ?t" "all_callbacks ?t = all_callbacks s"
      using assms(1) p Post_observers by (auto simp: remover_inv_def nexts_def log_entry_def all_callbacks_def split: if_splits)
    moreover have "all_masks ?t = all_masks s" "accounted ?t = accounted s"
      using kept by (simp_all add: log_entry_def all_masks_def waiting_tasks_def accounted_def performed_def)
    ultimately show thesis by (intro that [of ?t]) (simp_all add: log_entry_def)
  next
    case Post_next_task
    have same: "all_callbacks ?s = all_callbacks s" using p Post_next_task by (simp add: all_callbacks_def)
    show thesis
    proof (cases "weak_ptrs_valid s")
      case True
      have "nexts s = Suc (nexts ?s)" using p Post_next_task by (simp add: nexts_def)
      then have pre: "removal_queue ?s \<noteq> []" "browser_state ?s \<noteq> None" "weak_ptrs_valid ?s" "is_removing ?s"
        "pending_tasks_count ?s = 0" "closures ?s = []" "nexts ?s = 0"
        using assms(1) True by (auto simp: remover_inv_def split: if_splits)
      obtain t where t: "RunNextTask E ?s = Inr t" "remover_inv t" "all_callbacks t = all_callbacks ?s"
        "all_masks t = all_masks ?s" "accounted ?s \<Longrightarrow> accounted t" "weak_ptrs_valid t"
        using RunNextTask_keeps [OF pre, of E] by blast
      then show thesis
        using True same kept p Post_next_task by (intro that [of t]) (simp_all add: run_posted_def)
    next
      case False
      then have "run_posted E s = Inr ?s" "remover_inv ?s"
        using assms(1) p Post_next_task by (simp_all add: run_posted_def remover_inv_def)
      then show thesis using False same by (intro that [of ?s]) simp_all
    qed
  qed
qed

text \<open>Nothing but \<open>Shutdown\<close> invalidates weak pointers.\<close>

definition keeps_on :: "'p remover_env \<times> ('p, 'c) remover_event \<Rightarrow> bool" where
  "keeps_on x \<longleftrightarrow> snd x \<noteq> Call_shutdown"

lemma remover_step_keeps:
  assumes "remover_inv s" and "remover_ok s x"
  obtains t where "remover_step s x = Inr t" and "remover_inv t"
    and "all_callbacks t = all_callbacks s @ callbacks_in snd (requested x)"
    and "weak_ptrs_valid s \<Longrightarrow> keeps_on x \<Longrightarrow> weak_ptrs_valid t"
    and "weak_ptrs_valid s \<Longrightarrow> keeps_on x \<Longrightarrow> all_masks t = all_masks s @ map fst (requested x)"
    and "weak_ptrs_valid s \<Longrightarrow> keeps_on x \<Longrightarrow> accounted s \<Longrightarrow> accounted t"
proof -
  obtain E e where x: "x = (E, e)" by (cases x)
  show thesis
  proof (cases e)
    case (Call_remove period m callback)
    then have "can_remove E period m s" using assms(2) x by simp
    from Remove_keeps [OF assms(1) this, of callback] obtain t where t: "Remove E period m callback s = Inr t" "remover_inv t"
      "all_callbacks t = all_callbacks s @ opt_list callback" "all_masks t = all_masks s @ [m]" "accounted s \<Longrightarrow> accounted t"
      "weak_ptrs_valid t" by blast
    then show thesis using x Call_remove by (intro that [of t]) simp_all
  next
    case Call_remove_sessions
    then show thesis using assms x by (intro that [of s]) (auto simp: RemoveSessionsData_def)
  next
    case Call_shutdown
    obtain t where "Shutdown s = Inr t" "remover_inv t" "all_callbacks t = all_callbacks s"
      using Shutdown_keeps [OF assms(1)] by blast
    then show thesis using x Call_shutdown by (intro that [of t]) (simp_all add: keeps_on_def)
  next
    case (Closure_run i success)
    then have "i < length (closures s)" "must_succeed (closures s ! i) \<longrightarrow> success" using assms(2) x by simp_all
    from answer_closure_keeps [OF assms(1) this, of E] obtain t where "answer_closure E i success s = Inr t" "remover_inv t"
      "all_callbacks t = all_callbacks s" "weak_ptrs_valid s \<Longrightarrow> all_masks t = all_masks s"
      "weak_ptrs_valid s \<Longrightarrow> accounted s \<Longrightarrow> accounted t" "weak_ptrs_valid t = weak_ptrs_valid s" by blast
    then show thesis using x Closure_run by (intro that [of t]) simp_all
  next
    case Posted_task_run
    then have "posted s \<noteq> []" using assms(2) x by simp
    from run_posted_keeps [OF assms(1) this, of E] obtain t where "run_posted E s = Inr t" "remover_inv t"
      "all_callbacks t = all_callbacks s" "weak_ptrs_valid s \<Longrightarrow> all_masks t = all_masks s"
      "weak_ptrs_valid s \<Longrightarrow> accounted s \<Longrightarrow> accounted t" "weak_ptrs_valid t = weak_ptrs_valid s" by blast
    then show thesis using x Posted_task_run by (intro that [of t]) simp_all
  qed
qed

text \<open>Two refinements: of the list of callbacks, and without \<open>Shutdown\<close> of the list of tasks.\<close>

definition running_ok :: "'c data_remover \<Rightarrow> 'p remover_env \<times> ('p, 'c) remover_event \<Rightarrow> bool" where
  "running_ok s x \<longleftrightarrow> remover_ok s x \<and> keeps_on x"

definition running_inv :: "'c data_remover \<Rightarrow> bool" where
  "running_inv s \<longleftrightarrow> remover_inv s \<and> weak_ptrs_valid s \<and> accounted s"

interpretation removal_callbacks: refined_machine remover_step remover_ok remover_inv all_callbacks
    "\<lambda>cs x. cs @ callbacks_in snd (requested x)"
proof
  fix s :: "'a data_remover" and x :: "'b remover_env \<times> ('b, 'a) remover_event" and t
  assume inv: "remover_inv s" "remover_ok s x"
  from remover_step_keeps [OF this] show "\<exists>t. remover_step s x = Inr t \<and> remover_inv t" by metis
  assume "remover_step s x = Inr t"
  with remover_step_keeps [OF inv] show "all_callbacks t = all_callbacks s @ callbacks_in snd (requested x)" by (metis Inr_inject)
qed

interpretation removal_tasks: refined_machine remover_step running_ok running_inv all_masks "\<lambda>ms x. ms @ map fst (requested x)"
proof
  fix s :: "'a data_remover" and x :: "'b remover_env \<times> ('b, 'a) remover_event" and t
  assume "running_inv s" "running_ok s x"
  then have inv: "remover_inv s" "remover_ok s x" "weak_ptrs_valid s" "accounted s" "keeps_on x"
    by (simp_all add: running_inv_def running_ok_def)
  from remover_step_keeps [OF inv(1,2)] inv(3-) show "\<exists>t. remover_step s x = Inr t \<and> running_inv t"
    unfolding running_inv_def by metis
  assume "remover_step s x = Inr t"
  with remover_step_keeps [OF inv(1,2)] inv(3-) show "all_masks t = all_masks s @ map fst (requested x)" by (metis Inr_inject)
qed

lemma fold_append: "fold (\<lambda>x a. a @ f x) xs as = as @ concat (map f xs)"
  by (induction xs arbitrary: "as") simp_all

lemma callbacks_in_concat: "callbacks_in f (concat xss) = concat (map (callbacks_in f) xss)"
  by (induction xss) simp_all

lemma new_remover_inv: "running_inv (BrowsingDataRemoverImpl off service)"
  by (simp add: running_inv_def remover_inv_def BrowsingDataRemoverImpl_def nexts_def accounted_def performed_def)

lemma new_remover_lists [simp]: "all_callbacks (BrowsingDataRemoverImpl off service) = []" "all_masks (BrowsingDataRemoverImpl off service) = []"
  by (simp_all add: all_callbacks_def all_masks_def waiting_tasks_def BrowsingDataRemoverImpl_def)

lemmas new_remover_idle = new_remover_inv [unfolded running_inv_def, THEN conjunct1]

section \<open>The end of the removals\<close>

text \<open>No more calls: closures are run, and posted tasks.\<close>

fun is_answer :: "'p remover_env \<times> ('p, 'c) remover_event \<Rightarrow> bool" where
  "is_answer (E, Closure_run i success) = True"
| "is_answer (E, Posted_task_run) = True"
| "is_answer _ = False"

lemma at_most_16_closures: "length (later (removal_work E off service b e m)) \<le> 16"
proof -
  have later_append: "later (xs @ ys) = later xs @ later ys" for xs ys by (simp add: later_def)
  have set: "length (later (when_set m flag ws)) \<le> length (later ws)" for flag ws by (simp add: when_set_def later_def)
  have parts: "length (later (sessions_and_snapshots service)) \<le> 2" "length (later (cookies_work off b e)) \<le> 2"
    "length (later (history_work E b e)) \<le> 4" "length (later (passwords_work E b e)) \<le> 1"
    "length (later (form_data_work E b e)) \<le> 1" "length (later (downloads_work E)) \<le> 1"
    "length (later [website_data_work b types]) \<le> 1" for types
    by (simp_all add: later_def sessions_and_snapshots_def cookies_work_def history_work_def passwords_work_def form_data_work_def
        downloads_work_def website_data_work_def split: keywords_model.split)
  have single: "length (later [w]) \<le> 1" for w by (cases w) (simp_all add: later_def)
  have two: "later [w, v] = later [w] @ later [v]" "later [] = []" "later (if c then [Sync d] else []) = []"
    "later (when_set m flag [Sync d]) = []" for w v c d flag
    by (simp_all add: later_def when_set_def)
  note bound = order_trans [OF set]
  show ?thesis
    using bound [OF parts(1), of REMOVE_HISTORY] bound [OF parts(2), of REMOVE_COOKIES] bound [OF parts(3), of REMOVE_HISTORY]
      bound [OF parts(4), of REMOVE_PASSWORDS] bound [OF parts(5), of REMOVE_FORM_DATA] bound [OF parts(6), of REMOVE_DOWNLOADS]
      bound [OF single, of REMOVE_CACHE "Later (Http_cache b e)"] bound [OF single, of REMOVE_BOOKMARKS "Later All_user_bookmarks"]
      bound [OF single, of REMOVE_READING_LIST "Later All_reading_list_items"] single [of "Later (Networking_history b)"]
      single [of "website_data_work b (web_types m)"]
    by (cases off) (simp_all add: removal_work_def later_append two)
qed

text \<open>Each closure and posted task counts one, a task that waits 20, the one that is under way 3.\<close>

definition weight :: "'c data_remover \<Rightarrow> nat" where
  "weight s = length (closures s) + length (posted s) + 20 * length (waiting_tasks s) + (if closures s = [] then 0 else 3)"

lemma completed_weight:
  assumes "removal_queue s \<noteq> []" and "closures s = []"
  shows "weight (completed E s) \<le> length (posted s) + 20 * length (tl (removal_queue s)) + 3"
proof -
  obtain task tasks where "removal_queue s = task # tasks" using assms(1) by (cases "removal_queue s") auto
  moreover have "length (opt_list (task_callback task)) \<le> 1" by (cases "task_callback task") simp_all
  ultimately show ?thesis using assms(2) by (simp add: completed_def Let_def weight_def waiting_tasks_def)
qed

lemma RunNextTask_weight:
  assumes "removal_queue s \<noteq> []" and "browser_state s \<noteq> None" and "is_removing s"
    and "pending_tasks_count s = 0" and "closures s = []" and "RunNextTask E s = Inr t"
  shows "weight t < weight s"
proof -
  let ?u = "first_task_started E s"
  obtain task tasks where q: "removal_queue s = task # tasks" using assms(1) by (cases "removal_queue s") auto
  have u: "removal_queue ?u \<noteq> []" "tl (removal_queue ?u) = tasks" "posted ?u = posted s" "length (closures ?u) \<le> 16"
    using q at_most_16_closures by (simp_all add: first_task_started_def Let_def)
  have "weight s = length (posted s) + 20 * Suc (length tasks)" using assms(5) q by (simp add: weight_def waiting_tasks_def)
  moreover have "weight t \<le> length (posted s) + 20 * length tasks + 19"
  proof (cases "closures ?u = []")
    case True
    then show ?thesis
      using RunNextTask_is [OF assms(1-5), of E] assms(6) completed_weight [OF u(1) True, of E] u(2,3) by (simp add: Let_def)
  next
    case False
    then show ?thesis
      using RunNextTask_is [OF assms(1-5), of E] assms(6) u by (auto simp: Let_def weight_def waiting_tasks_def)
  qed
  ultimately show ?thesis by simp
qed

lemma answer_weight:
  assumes "running_inv s" and "running_ok s x" and "is_answer x" and "remover_step s x = Inr t"
  shows "weight t < weight s"
proof -
  have inv: "remover_inv s" "weak_ptrs_valid s" using assms(1) by (simp_all add: running_inv_def)
  from assms(3) show ?thesis
  proof (cases x rule: is_answer.cases)
    case (1 E i success)
    have i: "i < length (closures s)" "must_succeed (closures s ! i) \<longrightarrow> success" using assms(2) 1 by (simp_all add: running_ok_def)
    define rest where "rest = take i (closures s) @ drop (Suc i) (closures s)"
    have len: "length (closures s) = Suc (length rest)" unfolding rest_def by (rule one_removed [OF i(1)])
    let ?u = "s\<lparr>closures := rest, log := log s @ [Performed (closures s ! i)], pending_tasks_count := int (length rest)\<rparr>"
    have alive: "removal_queue s \<noteq> []" "is_removing s" "browser_state s \<noteq> None" "pending_tasks_count s = int (length rest) + 1"
      using inv len by (auto simp: remover_inv_def split: if_splits)
    have "log_entry (Performed (closures s ! i)) (s\<lparr>closures := rest\<rparr>) = ?u\<lparr>pending_tasks_count := pending_tasks_count ?u + 1\<rparr>"
      using alive(4) by (intro data_remover.equality) (simp_all add: log_entry_def)
    then have "answer_closure E i success s = (if pending_tasks_count ?u > 0 then Inr ?u else NotifyRemovalComplete E ?u)"
      using inv(2) i(2) last_closure [of ?u E] by (simp add: answer_closure_def rest_def Let_def)
    then have "Inr t = (if rest \<noteq> [] then Inr ?u else NotifyRemovalComplete E ?u)" using assms(4) 1 by simp
    also have "NotifyRemovalComplete E ?u = Inr (completed E ?u)"
      using alive by (intro NotifyRemovalComplete_is) simp_all
    also have "(if rest \<noteq> [] then Inr ?u else Inr (completed E ?u)) = Inr (if rest \<noteq> [] then ?u else completed E ?u)"
      by (rule if_distrib [symmetric])
    finally have t: "t = (if rest \<noteq> [] then ?u else completed E ?u)" by simp
    have "weight s = Suc (length rest) + length (posted s) + 20 * length (tl (removal_queue s)) + 3"
      using len by (auto simp: weight_def waiting_tasks_def)
    then show ?thesis
      using t completed_weight [of ?u E] alive(1) by (cases "rest = []") (simp_all, simp add: weight_def waiting_tasks_def)
  next
    case (2 E)
    then obtain p ps where p: "posted s = p # ps" using assms(2) by (cases "posted s") (auto simp: running_ok_def)
    let ?s = "s\<lparr>posted := ps\<rparr>"
    have w: "weight s = Suc (weight ?s)" using p by (simp add: weight_def waiting_tasks_def)
    have same: "weight (log_entry l ?s) = weight ?s" for l by (simp add: log_entry_def weight_def waiting_tasks_def)
    show ?thesis
    proof (cases "p = Post_next_task")
      case True
      have "nexts s \<noteq> 0" using p True by (simp add: nexts_def)
      then have "removal_queue ?s \<noteq> []" "browser_state ?s \<noteq> None" "is_removing ?s" "pending_tasks_count ?s = 0" "closures ?s = []"
        using inv by (auto simp: remover_inv_def split: if_splits)
      moreover have "RunNextTask E ?s = Inr t" using assms(4) 2 p True inv(2) by (simp add: run_posted_def)
      ultimately have "weight t < weight ?s" by (rule RunNextTask_weight)
      then show ?thesis using w by simp
    next
      case False
      then show ?thesis
        using assms(4) 2 p w same by (cases p) (auto simp: run_posted_def Let_def split: if_splits)
    qed
  qed simp_all
qed

lemma answers_weight:
  assumes "running_inv s" and "admissible remover_step running_ok s ys" and "list_all is_answer ys"
    and "orun remover_step s ys = Inr t"
  shows "length ys + weight t \<le> weight s"
  using assms
proof (induction ys arbitrary: s)
  case (Cons y ys)
  then obtain u where u: "remover_step s y = Inr u" "running_inv u" using removal_tasks.step_safe [of s y] by auto
  then have "weight u < weight s" using Cons.prems answer_weight [of s y u] by simp
  moreover have "length ys + weight t \<le> weight u" using Cons u by simp
  ultimately show ?case by simp
qed simp

end
