(* ===== verification/Browsing_Data_Props.thy ===== *)
theory Browsing_Data_Props
  imports Browsing_Data_Runs
begin

text \<open>
  The properties of the removal of browsing data: order and completeness of the removals, their end, and
  which website data a mask removes.
\<close>

section \<open>Website data\<close>

lemma flag_is_a_bit: "n < 32 \<Longrightarrow> IsRemoveDataMaskSet m (push_bit n 1) \<longleftrightarrow> bit m n"
  unfolding IsRemoveDataMaskSet_def bit_eq_iff by (auto simp: bit_simps)

lemma bit_or_if: "bit (or_if m fs t) k \<longleftrightarrow> bit t k \<or> (\<exists>(flag, type)\<in>set fs. IsRemoveDataMaskSet m flag \<and> bit type k)"
  by (induction m fs t rule: or_if.induct) (auto simp: bit_simps)

lemmas chrome_flags = REMOVE_APPCACHE_def REMOVE_COOKIES_def REMOVE_INDEXEDDB_def REMOVE_LOCAL_STORAGE_def REMOVE_WEBSQL_def
  REMOVE_CACHE_STORAGE_def REMOVE_VISITED_LINKS_def

lemmas web_flags = kRemoveAppCache_def kRemoveCookies_def kRemoveIndexedDB_def kRemoveLocalStorage_def kRemoveWebSQL_def
  kRemoveCacheStorage_def kRemoveVisitedLinks_def

lemma chrome_flag_bits:
  "IsRemoveDataMaskSet m REMOVE_APPCACHE = bit m 0" "IsRemoveDataMaskSet m REMOVE_COOKIES = bit m 2"
  "IsRemoveDataMaskSet m REMOVE_INDEXEDDB = bit m 6" "IsRemoveDataMaskSet m REMOVE_LOCAL_STORAGE = bit m 7"
  "IsRemoveDataMaskSet m REMOVE_WEBSQL = bit m 9" "IsRemoveDataMaskSet m REMOVE_CACHE_STORAGE = bit m 11"
  "IsRemoveDataMaskSet m REMOVE_VISITED_LINKS = bit m 12"
  unfolding chrome_flags by (rule flag_is_a_bit; simp)+

lemma web_flag_bits:
  "IsRemoveDataMaskSet m kRemoveAppCache = bit m 0" "IsRemoveDataMaskSet m kRemoveCookies = bit m 1"
  "IsRemoveDataMaskSet m kRemoveIndexedDB = bit m 2" "IsRemoveDataMaskSet m kRemoveLocalStorage = bit m 3"
  "IsRemoveDataMaskSet m kRemoveWebSQL = bit m 4" "IsRemoveDataMaskSet m kRemoveCacheStorage = bit m 5"
  "IsRemoveDataMaskSet m kRemoveVisitedLinks = bit m 6"
  unfolding web_flags by (rule flag_is_a_bit; simp)+

lemma bit_push_one: "bit (push_bit n 1 :: remove_mask) k \<longleftrightarrow> k = n \<and> n < 32"
  by (auto simp: bit_simps)

lemma web_bits:
  "bit kRemoveAppCache k = (k = 0)" "bit kRemoveCookies k = (k = 1)" "bit kRemoveIndexedDB k = (k = 2)"
  "bit kRemoveLocalStorage k = (k = 3)" "bit kRemoveWebSQL k = (k = 4)" "bit kRemoveCacheStorage k = (k = 5)"
  "bit kRemoveVisitedLinks k = (k = 6)"
  unfolding web_flags bit_push_one by simp_all

lemma bit_web_types:
  "bit (web_types m) 0 = bit m 0" "bit (web_types m) 1 = bit m 2" "bit (web_types m) 2 = bit m 6" "bit (web_types m) 3 = bit m 7"
  "bit (web_types m) 4 = bit m 9" "bit (web_types m) 5 = bit m 11" "bit (web_types m) 6 = bit m 12"
  unfolding web_types_def bit_or_if by (simp_all add: chrome_flag_bits web_bits)

text \<open>The bit of a mask that a type of website data belongs to.\<close>

fun bit_of_data_type :: "wk_data_type \<Rightarrow> nat" where
  "bit_of_data_type WKWebsiteDataTypeDiskCache = 11"
| "bit_of_data_type WKWebsiteDataTypeMemoryCache = 11"
| "bit_of_data_type WKWebsiteDataTypeOfflineWebApplicationCache = 0"
| "bit_of_data_type WKWebsiteDataTypeSessionStorage = 7"
| "bit_of_data_type WKWebsiteDataTypeLocalStorage = 7"
| "bit_of_data_type WKWebsiteDataTypeWebSQLDatabases = 9"
| "bit_of_data_type WKWebsiteDataTypeIndexedDBDatabases = 6"
| "bit_of_data_type WKWebsiteDataTypeCookies = 2"

lemma data_type_removed: "t \<in> set (data_types_to_remove (web_types m)) \<longleftrightarrow> bit m (bit_of_data_type t)"
  by (cases t) (simp_all add: data_types_to_remove_def web_flag_bits bit_web_types [unfolded One_nat_def])

section \<open>Runs\<close>

lemma admissible_append:
  "orun step s xs = Inr t \<Longrightarrow> admissible step ok s (xs @ ys) \<longleftrightarrow> admissible step ok s xs \<and> admissible step ok t ys"
  by (induction xs arbitrary: s) (auto split: sum.splits)

lemma running_is_admissible: "admissible remover_step running_ok s xs \<Longrightarrow> admissible remover_step remover_ok s xs"
  by (induction xs arbitrary: s) (auto simp: running_ok_def split: sum.splits)

lemma removals_call_back:
  assumes "admissible remover_step remover_ok (BrowsingDataRemoverImpl off service) xs"
    and "orun remover_step (BrowsingDataRemoverImpl off service) xs = Inr s"
  shows "all_callbacks s = callbacks_in snd (concat (map requested xs))"
proof -
  from removal_callbacks.run_refines [OF new_remover_idle assms]
  have "all_callbacks s = fold (\<lambda>x cs. cs @ callbacks_in snd (requested x)) xs []"
    by simp
  then show ?thesis by (simp add: fold_append callbacks_in_concat comp_def)
qed

section \<open>A run\<close>

definition all_services :: "unit remover_env" where
  "all_services = \<lparr>now = 7, all_time = (), CalculateBeginDeleteTime = (\<lambda>_. 0), CalculateEndDeleteTime = (\<lambda>_. 9),
     has_history_service = True, has_io_thread = True, template_urls = Not_loaded, has_tab_service = True,
     has_web_data_service = True, has_data_manager = True, has_language_histogram = True, has_password_store = True,
     has_strike_database = True, has_external_file_remover = True, has_account_consistency_service = True\<rparr>"

text \<open>Two removals at once; the first answers in another order than it asked.\<close>

definition two_removals :: "(unit remover_env \<times> (unit, nat) remover_event) list" where
  "two_removals = map (Pair all_services)
     [Call_remove () (REMOVE_PASSWORDS OR REMOVE_CACHE) (Some 1), Call_remove () REMOVE_LAST_USER_ACCOUNT (Some 2)]"

definition all_answers :: "(unit remover_env \<times> (unit, nat) remover_event) list" where
  "all_answers = map (Pair all_services)
     [Closure_run 2 True, Closure_run 0 True, Closure_run 0 True, Posted_task_run, Posted_task_run, Posted_task_run,
      Closure_run 0 True, Posted_task_run, Posted_task_run]"

definition run_of :: "(unit remover_env \<times> (unit, nat) remover_event) list \<Rightarrow> nat data_remover" where
  "run_of xs = (case orun remover_step (BrowsingDataRemoverImpl False True) xs of Inr s \<Rightarrow> s | Inl _ \<Rightarrow> BrowsingDataRemoverImpl False True)"

section \<open>Properties\<close>



text \<open>C32: without a shutdown, the removals are started once, in the order of the calls; every deletion that was
  started has been performed or its closure is still to be run, and then it belongs to the removal under
  way, the first of the queue: a removal is completed only after all its deletions.\<close>
theorem removals_complete_after_their_deletions:
  assumes "admissible remover_step running_ok (BrowsingDataRemoverImpl off service) xs"
    and "orun remover_step (BrowsingDataRemoverImpl off service) xs = Inr s"
  shows "map fst (started s) @ map task_mask (waiting_tasks s) = map fst (concat (map requested xs)) \<and>
    mset (performed s) + mset (closures s) = mset (concat (map snd (started s))) \<and>
    (closures s \<noteq> [] \<longrightarrow> removal_queue s \<noteq> [] \<and> fst (last (started s)) = task_mask (hd (removal_queue s)) \<and>
      mset (closures s) \<subseteq># mset (snd (last (started s)))) \<and>
    (is_removing s \<longleftrightarrow> removal_queue s \<noteq> [])"
proof -
  have "running_inv s" using removal_tasks.run_safe [OF new_remover_inv assms(1)] assms(2) by simp
  moreover have "all_masks s = map fst (concat (map requested xs))"
    using removal_tasks.run_refines [OF new_remover_inv assms]
    by (simp add: fold_append map_concat comp_def)
  ultimately show ?thesis by (auto simp: running_inv_def remover_inv_def accounted_def all_masks_def)
qed

theorem removals_complete_after_their_deletions_witness:
  "map fst (started (run_of two_removals)) @ map task_mask (waiting_tasks (run_of two_removals)) =
     [REMOVE_PASSWORDS OR REMOVE_CACHE, REMOVE_LAST_USER_ACCOUNT] \<and>
   mset (performed (run_of two_removals)) + mset (closures (run_of two_removals)) = mset (concat (map snd (started (run_of two_removals)))) \<and>
   closures (run_of two_removals) = [Logins_created_between 0 9, Http_cache 0 9, Networking_history 0]"
proof -
  have "admissible remover_step running_ok (BrowsingDataRemoverImpl False True) two_removals" by code_simp
  moreover have "orun remover_step (BrowsingDataRemoverImpl False True) two_removals = Inr (run_of two_removals)" by code_simp
  ultimately have "map fst (started (run_of two_removals)) @ map task_mask (waiting_tasks (run_of two_removals)) =
      map fst (concat (map requested two_removals))"
    "mset (performed (run_of two_removals)) + mset (closures (run_of two_removals)) = mset (concat (map snd (started (run_of two_removals))))"
    using removals_complete_after_their_deletions by blast+
  moreover have "map fst (concat (map requested two_removals)) = [REMOVE_PASSWORDS OR REMOVE_CACHE, REMOVE_LAST_USER_ACCOUNT]"
    by (simp add: two_removals_def)
  moreover have "closures (run_of two_removals) = [Logins_created_between 0 9, Http_cache 0 9, Networking_history 0]" by code_simp
  ultimately show ?thesis by simp
qed

text \<open>C34: once nothing more is asked for, the closures that are run and the posted tasks that run are at most
  \<open>weight s\<close>, 20 for each removal that waits; when none is left, no data is being removed and all callbacks
  have run.\<close>
theorem removals_come_to_an_end:
  fixes xs ys :: "('p remover_env \<times> ('p, 'c) remover_event) list"
  assumes "admissible remover_step running_ok (BrowsingDataRemoverImpl off service) (xs @ ys)"
    and "orun remover_step (BrowsingDataRemoverImpl off service) xs = Inr s"
    and "list_all is_answer ys" and "orun remover_step s ys = Inr t"
  shows "length ys \<le> weight s \<and>
    (closures t = [] \<and> posted t = [] \<longrightarrow>
      \<not> is_removing t \<and> removal_queue t = [] \<and> callbacks_in ran_callback (log t) = callbacks_in snd (concat (map requested xs)))"
proof -
  let ?s = "BrowsingDataRemoverImpl off service :: 'c data_remover"
  have adm: "admissible remover_step running_ok ?s xs" "admissible remover_step running_ok s ys"
    using assms(1) admissible_append [OF assms(2)] by blast+
  have s: "running_inv s" using removal_tasks.run_safe [OF new_remover_inv adm(1)] assms(2) by simp
  have t: "running_inv t" using removal_tasks.run_safe [OF s adm(2)] assms(4) by simp
  have "length ys \<le> weight s" using answers_weight [OF s adm(2) assms(3,4)] by simp
  moreover have "\<not> is_removing t \<and> removal_queue t = []" if "closures t = []" "posted t = []"
    using t that by (auto simp: running_inv_def remover_inv_def nexts_def split: if_splits)
  moreover have "all_callbacks t = callbacks_in snd (concat (map requested xs))"
  proof -
    have run: "orun remover_step ?s (xs @ ys) = Inr t" using assms(2,4) by (simp add: orun_append)
    have "requested y = []" if "is_answer y" for y :: "'p remover_env \<times> ('p, 'c) remover_event"
      using that by (cases y rule: is_answer.cases) simp_all
    then have "concat (map requested (xs @ ys)) = concat (map requested xs)" using assms(3) by (auto simp: list_all_iff)
    moreover have "admissible remover_step remover_ok ?s (xs @ ys)" by (rule running_is_admissible [OF assms(1)])
    then have "all_callbacks t = callbacks_in snd (concat (map requested (xs @ ys)))"
      using removals_call_back run by blast
    ultimately show ?thesis by (simp only:)
  qed
  ultimately show ?thesis by (auto simp: all_callbacks_def)
qed

theorem removals_come_to_an_end_witness:
  "length all_answers \<le> weight (run_of two_removals) \<and> \<not> is_removing (run_of (two_removals @ all_answers)) \<and>
   callbacks_in ran_callback (log (run_of (two_removals @ all_answers))) = callbacks_in snd (concat (map requested two_removals))"
proof -
  have "admissible remover_step running_ok (BrowsingDataRemoverImpl False True) (two_removals @ all_answers)" by code_simp
  moreover have "orun remover_step (BrowsingDataRemoverImpl False True) two_removals = Inr (run_of two_removals)" by code_simp
  moreover have "list_all is_answer all_answers" by (simp add: all_answers_def)
  moreover have "orun remover_step (run_of two_removals) all_answers = Inr (run_of (two_removals @ all_answers))" by code_simp
  moreover have "closures (run_of (two_removals @ all_answers)) = []" "posted (run_of (two_removals @ all_answers)) = []" by code_simp+
  ultimately show ?thesis using removals_come_to_an_end [of False True two_removals all_answers] by blast
qed

text \<open>C35: the types of website data that WebKit is asked to remove are exactly those whose bit of the mask is set,
  each once; the process pool is purged exactly for the bit of the visited links, and the closure is run at
  once exactly if there is no type to remove.\<close>
theorem website_data_follows_the_mask:
  "set (data_types_to_remove (web_types m)) = {t. bit m (bit_of_data_type t)} \<and> distinct (data_types_to_remove (web_types m)) \<and>
   website_data_work b (web_types m) =
     (if {t. bit m (bit_of_data_type t)} = {} then At_once (Website_data [] False b)
      else Later (Website_data (data_types_to_remove (web_types m)) (bit m 12) b))"
proof (intro conjI)
  show types: "set (data_types_to_remove (web_types m)) = {t. bit m (bit_of_data_type t)}"
    using data_type_removed by auto
  show "distinct (data_types_to_remove (web_types m))" by (auto simp: data_types_to_remove_def)
  show "website_data_work b (web_types m) =
     (if {t. bit m (bit_of_data_type t)} = {} then At_once (Website_data [] False b)
      else Later (Website_data (data_types_to_remove (web_types m)) (bit m 12) b))"
    unfolding types [symmetric] by (simp add: website_data_work_def web_flag_bits bit_web_types)
qed

section \<open>Runs that delete less than they should\<close>

text \<open>After a shutdown the other deletions go on, the one of the keywords does not.\<close>

lemma keywords_are_kept_by_a_shutdown:
  "let xs = map (Pair all_services) ([Call_remove () REMOVE_HISTORY (Some 1), Call_shutdown] @ replicate 7 (Closure_run 0 True))
   in admissible remover_step remover_ok (BrowsingDataRemoverImpl False True) xs \<and> closures (run_of xs) = [] \<and>
      History_between 0 9 \<in> set (performed (run_of xs)) \<and> Keywords_when_loaded 0 9 \<notin> set (performed (run_of xs))"
  by code_simp

text \<open>The mask of the settings for cached images and files leaves WebKit's caches.\<close>

lemma cache_mask_leaves_the_caches_of_webkit:
  "data_types_to_remove (web_types REMOVE_CACHE) = []" "WKWebsiteDataTypeDiskCache \<in> set (data_types_to_remove (web_types REMOVE_SITE_DATA))"
  by code_simp+

end
