(* ===== verification/Spec2Isabelle.thy ===== *)
theory Spec2Isabelle
  imports Web_State_List_Props Web_State_List_Serialization Wk_Navigation_Util Error_Retry
    Wk_Navigation_States Fullscreen_Model List_Model Overlay_Props Url_Downloader_Props Reading_List_Props
    Offline_Url_Utils Reading_List_Remover Sync_Setup Browser_State_Info_Cache Notification_Promo Cookie_Cache
    Chunked_Uploader First_User_Action Web_Threads Referrer_Util X_Callback_Url Session_Metrics Cache_Counter
    Certificate_Policy Url_Data_Deletion Search_Engines Overlay_Callbacks Browser_State_Manager Http_Cache_Helper
    Bookmarks Browser_About_Rewriter Browser_Signin_Policy Navigation_Restore Navigation_Commits Session_Props
    Find_In_Page_Props Omaha_Props App_Launcher Safe_Browsing_Props
    Browsing_Data_Props
begin

text \<open>
  A verification library for the browser core of \<open>//ios\<close>: Chrome for iOS (\<open>src/chrome\<close>), the layer
  over WebKit that it is built on (\<open>src/web\<close>), and the network glue (\<open>src/net\<close>).

  The program.  A window of the browser has a tab strip; each tab is a \<open>web::WebState\<close>, which drives
  a \<open>WKWebView\<close> and keeps its navigations.  Over a tab, the overlay system shows dialogs that are
  requested by the tab's queue.  The user interface follows models that are independent of UIKit.
  Services of the browser state (the profile) work beside the tabs: the reading list downloads
  offline copies, sync is set up, preferences record profiles and promotions.  The web layer owns
  the UI and the IO thread, and the network layer feeds cookies and request bodies to them.

  How the code is modelled.  A class is a \<open>record\<close> of its fields and each method a function over
  it with the name of the method.  A failed \<open>DCHECK\<close>, \<open>CHECK\<close> or \<open>NOTREACHED\<close> is a value of the
  result (theory \<open>Prelude\<close>, type \<open>outcome\<close>), so that every theorem that an operation returns
  \<open>Inr\<close> says that none of them is hit.  Code from outside the repository (\<open>base\<close>, \<open>net\<close>, WebKit,
  \<open>components\<close>, UIKit) is an argument: a record of functions such as \<open>gurl_ops\<close>, \<open>dl_env\<close>,
  \<open>sync_ops\<close>, with what the code relies on as a predicate such as \<open>gurl_laws\<close>, or an event that
  answers a call.  Calls to observers and delegates are recorded in the state in their order.

  The contract of a stateful component is the locale \<open>checked_machine\<close> (admissible operations keep
  an invariant and fault nowhere) or its extension \<open>refined_machine\<close> (they simulate an abstract
  step as well); each is interpreted on the component's own step function in its theory.

  The parts.

  \<^item> The tab strip, \<open>chrome/browser/web_state_list\<close>.  \<open>Web_State_List\<close> has the list with its
    mutators, the order controller that picks the tab to activate, and the notifications;
    \<open>_Inv\<close> the invariant (distinct tabs, a valid active index, openers inside the list) with a
    lemma per operation, \<open>_Order\<close> the order controller, \<open>_Props\<close> the properties: no fault, what
    each operation does to the order and the active tab, the notifications suffice to rebuild the
    list, no mutation from an observer.  \<open>Web_State_List_Serialization\<close> stores and restores a
    strip (\<open>web_state_list_serialization.mm\<close>) with its round trip.  \<open>Session_Metrics\<close> counts the
    notifications.  The loop that closes all tabs takes as many steps as there are tabs.

  \<^item> Navigation, \<open>web/navigation\<close>.  \<open>Wk_Navigation_Util\<close>: the internal URLs and the window of items
    that is restored (at most 75).  \<open>Error_Retry\<close>: the state machine that displays and retries
    failed loads, together with the callbacks that drive it.  \<open>Wk_Navigation_States\<close>: the registry
    of navigations, which implements the list in the order of addition whatever order the weak
    map enumerates.  \<open>Referrer_Util\<close>: referrers and the URLs a page may set.

  \<^item> The navigation manager, \<open>web/navigation/navigation_manager_impl.mm\<close>.  It shows the back-forward
    list of a \<open>WKWebView\<close> as a list of navigation items, which it keeps at the entries of WebKit's
    list while a web view exists and in a cache of its own while none does.  \<open>Actions\<close> has the
    monad of its methods (state and outcome) and the rules for total correctness, \<open>Page_Display_State\<close>
    and \<open>Navigation_Item\<close> the data of an item (\<open>page_display_state.mm\<close>, \<open>navigation_item_impl.mm\<close>,
    \<open>time_smoother.cc\<close>, the URL rewriters), \<open>Web_View_Cache\<close> the list of the web view, the references to
    items and \<open>WKWebViewCache\<close>, \<open>Navigation_Manager\<close> every method of the manager.  A C++ pointer to
    an item is an \<open>item_ref\<close>, so that a pointer to an item that is gone is a fault when it is used.
    \<open>Navigation_Reads\<close>: what the queries return, and that they only create items for entries without
    one.  \<open>Navigation_Props\<close>: the visible item, going back and forward, and detaching from the web
    view; \<open>Navigation_Commits\<close>: the commit of a navigation; \<open>Navigation_Restore\<close>: the restoration of a
    history and the callbacks that wait for it; \<open>Navigation_Demo\<close>: the inputs of the witnesses.

  \<^item> The saved session of a tab, \<open>web/session\<close> and the builders in \<open>web/navigation\<close>.  \<open>Archive_Coder\<close>:
    the archive that \<open>NSCoder\<close> writes, and the contract of a class that is archived as the locale
    \<open>archived\<close>, whose law for one object gives the law for lists of them; it is interpreted for
    certificates and for items.  \<open>Session_Certificates\<close>: the decisions on bad certificates and
    their storage.  \<open>Session_Storage\<close>: the storage of items and sessions, the builders
    (\<open>session_storage_builder.mm\<close>), and the user data of a tab.  \<open>Session_Props\<close>: archives are read
    as they were written, what is saved of a history, and what a restored tab shows.

  \<^item> Searching in a page, \<open>web/find_in_page\<close>.  \<open>Find_In_Page_Request\<close>: the matches of the frames and
    the selection that goes through them in a cycle; its loops are \<open>partial_function\<close>s that are
    proved to end.  \<open>Web_Frames_Manager\<close>: the frames of a page, as scripts report them
    (\<open>web/js_messaging\<close>).  \<open>Find_In_Page_Manager\<close>: a search that calls a script in every frame, composed
    with the frames; no sequence of events stops it.  \<open>Find_In_Page_Props\<close>: a search is reported
    once, with the last answer.

  \<^item> Overlays, \<open>chrome/browser/overlays\<close> and \<open>chrome/browser/ui/overlays\<close>.  \<open>Overlay_Context\<close> has the
    presentation context with its coordinators, \<open>Overlay_Presenter\<close> the queues and the presenter,
    \<open>Overlay_Tabs\<close> the callbacks of the tab strip and the system as a whole; \<open>Overlay_Inv\<close> the invariant,
    \<open>Overlay_Props\<close> the properties: the presented request is never dangling, and a dismissal
    shows the next request.  Queue changes, tab changes, UI callbacks and the window's
    connection may come in any order.  \<open>Overlay_Callbacks\<close>: the callbacks of a request, which run
    once when it ends.

  \<^item> Models of the user interface.  \<open>Fullscreen_Model\<close>: how far the toolbar is scrolled away, with
    observers that may call back.  \<open>List_Model\<close>: sections and items of tables and collections,
    which implement an ordered table.

  \<^item> The reading list, \<open>chrome/browser/reading_list\<close>.  \<open>Url_Downloader\<close> has the queue of downloads and
    deletions, one task at a time, every step of which is an answer of the environment;
    \<open>Url_Downloader_Props\<close> that it ends (at most five answers for a download, one for a deletion: the
    measure \<open>remaining\<close>) and that a removal wins over a download.  \<open>Reading_List_Service\<close> is
    the service over it, composed by calls one way and events the other; \<open>Reading_List_Props\<close> that
    the composition never faults and gives up after seven failures.  \<open>Offline_Url_Utils\<close> has the
    URLs of the copies, \<open>Reading_List_Remover\<close> the deletion of everything.

  \<^item> Services.  \<open>Sync_Setup\<close>: the settings of sync; two methods call each other, which is a
    \<open>partial_function\<close> whose \<open>None\<close> is that they never return.  \<open>Browser_State_Info_Cache\<close>: what the
    preferences know about profiles, and \<open>Browser_State_Manager\<close> the loading of profiles
    over it.  \<open>Notification_Promo\<close>: when a promotion
    may be shown.  \<open>First_User_Action\<close>: the metric of the first action.  \<open>Cache_Counter\<close>: the steps
    that compute the size of the cache.  \<open>X_Callback_Url\<close>: URLs by which apps call each other.
    \<open>Search_Engines\<close>: the update after a change of the country.  \<open>Bookmarks\<close>: the search for a folder,
    and the deletion of all.  \<open>Browser_About_Rewriter\<close> and \<open>Browser_Signin_Policy\<close>: two tables of cases.

  \<^item> Checks for updates, \<open>chrome/browser/omaha\<close>.  \<open>Omaha_Response\<close>: the parser of the server's answers,
    nine flags that accept exactly a grammar.  \<open>Omaha_Ping\<close>: the message of a ping, whose calls of the XML
    writer write one document.  \<open>Omaha_Service\<close>: the service with its timer, its retries and the state
    it stores over launches; \<open>Omaha_Props\<close>: it never stops at a check of its own, keeps the pace of
    its pings and goes on pinging.

  \<^item> Policies of a tab.  \<open>Policy_Decisions\<close>: how a tab collects the decisions of its deciders on a
    navigation (\<open>web/web_state/policy_decision_state_tracker.mm\<close>).  Two deciders: \<open>App_Launcher\<close>, which
    requests of a page launch an app, with the detector of pages that launch them again and again; and
    \<open>Safe_Browsing\<close>, which holds a response back until the queries about its chain of redirects are
    answered, with its manager of queries.  \<open>Safe_Browsing_Steps\<close> and \<open>Safe_Browsing_Runs\<close> say what each
    of its operations does and keeps; \<open>Safe_Browsing_Props\<close>: only pages found safe pass, and when a
    response may wait.

  \<^item> Removal of browsing data, \<open>chrome/browser/browsing_data\<close> and \<open>web/browsing_data\<close>.
    \<open>Browsing_Data_Remover\<close>: the masks, what each bit deletes, and the queue of removals with the closures
    that a removal waits for.  \<open>Browsing_Data_Runs\<close>: what its runs keep; \<open>Browsing_Data_Props\<close>: order and
    completeness of the removals, their end, and the website data a mask removes.

  \<^item> Threads and network.  \<open>Web_Threads\<close>: the registry of the well-known threads with its lock.
    \<open>Cookie_Cache\<close>: changes between two sets of cookies.  \<open>Chunked_Uploader\<close>: request bodies of
    unknown length.  \<open>Http_Cache_Helper\<close>: the deletion of the cache.  \<open>Certificate_Policy\<close>: what a user
    has allowed of bad certificates.  \<open>Url_Data_Deletion\<close>: data sources that any thread may drop and
    the UI thread deletes; here the sections under the lock are the steps that interleave.

  Bounds.  Indices of the tab strip are \<open>int\<close>; \<open>INT_MAX\<close> is the limit the code checks.  The counters
  of \<open>Session_Metrics\<close> and the errors of a certificate and
  the masks of browsing data are 32-bit words, the tries of a ping an 8-bit word.  No definition uses fuel: the
  recursions are structural, have a measure, or are a \<open>partial_function\<close> whose end is proved (in
  \<open>Sync_Setup\<close> where it comes, in \<open>Bookmarks\<close> for every tree, in \<open>Find_In_Page_Request\<close> for every
  well-formed request).

  Behaviour that differs from what the code or its comments say is stated as it is: the opener flag
  of an inserted tab, a replaced inactive tab, headers that survive their section, null
  navigations, a second tab switch while an overlay is being hidden, a redirected PDF, an
  existing offline copy, mutual recursion in the sync settings, dotted profile names, a
  promotion that is closed and then viewed, a history that is restored over another, a detached
  history without items, a saved session whose committed item was dropped, decisions on
  certificates that are lost or ambiguous after a restoration, answers of a frame that come after a
  search has changed, frames with an empty identifier, an update after an accepted event, a check
  for updates that is retried, a security key without a page, an answer about a page that comes just
  before its redirect is known, a page that redirects to itself after an unsafe one, the caches of
  WebKit, and keywords that are not loaded at a shutdown.

  Not modelled.  View controllers, coordinators and mediators over UIKit; everything that mainly
  calls WebKit (\<open>web_state\<close>, the web controller, the JavaScript features, the navigation handler but
  for its part in error retries); the files of sessions and snapshots on disk;
  downloads; the factories of services, the adapters of \<open>components\<close> for sign-in, sync, passwords,
  autofill, policy and translation; app extensions; flags, strings, resources, tests and build
  scripts.  But for \<open>Url_Data_Deletion\<close>, operations of different
  threads are interleaved as wholes.  Histograms and logging are
  modelled only where they are the purpose of the code.
\<close>

end
